(* ===== verification/Prelude.thy ===== *)
theory Prelude
  imports Main "HOL-Library.AList" "HOL-Library.Word" "HOL-Library.Monad_Syntax"
    "HOL-Library.Multiset"
begin

text \<open>
  Shared material of the development: the names of the machine types, the option-monad
  idioms that model assertions, and the generic lemmas on association lists, option
  computations and words that the components use. Nothing in this theory is specific to
  one source file.

  Conventions. A C++ \<^verbatim>\<open>assert\<close>, \<^verbatim>\<open>abort()\<close>, null dereference or out-of-range read is the
  value \<^term>\<open>None\<close> of an option computation; a claim that an operation is safe is the claim that
  it returns \<^term>\<open>Some\<close>. A \<^verbatim>\<open>std::unordered_map\<close> is an association list, so that iteration over
  it is a list traversal; lookups go through \<^const>\<open>map_of\<close> and stores through
  \<^const>\<open>AList.update\<close>.
\<close>

unbundle bit_operations_syntax

section \<open>Types\<close>

type_synonym byte = "8 word"
type_synonym u16 = "16 word"
type_synonym u32 = "32 word"
type_synonym u64 = "64 word"

section \<open>Collections of facts\<close>

named_theorems engine_simps "how the state updates of the build engine act on its invariant"

section \<open>Assertions\<close>

definition assert_that :: "bool \<Rightarrow> unit option" where
  "assert_that b = (if b then Some () else None)"

lemma assert_that_True [simp]: "assert_that True = Some ()"
  by (simp add: assert_that_def)

lemma assert_that_False [simp]: "assert_that False = None"
  by (simp add: assert_that_def)

lemma assert_that_eq_Some [simp]: "assert_that b = Some u \<longleftrightarrow> b"
  by (simp add: assert_that_def)

lemma assert_that_bind_eq_Some [simp]:
  "(assert_that b \<bind> f) = Some x \<longleftrightarrow> b \<and> f () = Some x"
  by (simp add: assert_that_def)

section \<open>Option computations over lists\<close>

primrec mapM_option :: "('a \<Rightarrow> 'b option) \<Rightarrow> 'a list \<Rightarrow> 'b list option" where
  "mapM_option f [] = Some []"
| "mapM_option f (x # xs) = do { y \<leftarrow> f x; ys \<leftarrow> mapM_option f xs; Some (y # ys) }"

primrec foldM_option :: "('a \<Rightarrow> 's \<Rightarrow> 's option) \<Rightarrow> 'a list \<Rightarrow> 's \<Rightarrow> 's option" where
  "foldM_option f [] s = Some s"
| "foldM_option f (x # xs) s = f x s \<bind> foldM_option f xs"

lemma mapM_option_eq_Some:
  "mapM_option f xs = Some ys \<longleftrightarrow> length xs = length ys \<and> (\<forall>i < length xs. f (xs ! i) = Some (ys ! i))"
proof (induction xs arbitrary: ys)
  case (Cons x xs)
  show ?case
  proof (cases ys)
    case (Cons y ys')
    then show ?thesis
      by (auto simp: bind_eq_Some_conv Cons.IH All_less_Suc2)
  qed (auto simp: bind_eq_Some_conv)
qed auto

lemma mapM_option_Some: "(\<And>x. x \<in> set xs \<Longrightarrow> f x = Some (g x)) \<Longrightarrow> mapM_option f xs = Some (map g xs)"
  by (induction xs) auto

lemma foldM_option_append:
  "foldM_option f (xs @ ys) s = foldM_option f xs s \<bind> foldM_option f ys"
  by (induction xs arbitrary: s) (auto split: Option.bind_splits)

lemma foldM_option_invariant:
  assumes "\<And>x s. x \<in> set xs \<Longrightarrow> P s \<Longrightarrow> \<exists>s'. f x s = Some s' \<and> P s'" "P s"
  shows "\<exists>s'. foldM_option f xs s = Some s' \<and> P s'"
  using assms by (induction xs arbitrary: s) fastforce+

section \<open>Association lists\<close>

text \<open>
  The total of a measure over the values of an association list, in a commutative monoid
  (numbers, multisets), and how a store or an erasure changes it. The build engine's
  conservation invariants are stated with it.
\<close>

definition asum :: "('v \<Rightarrow> 'm) \<Rightarrow> ('k \<times> 'v) list \<Rightarrow> 'm::comm_monoid_add" where
  "asum f al = sum_list (map (f \<circ> snd) al)"

lemma asum_simps [simp]:
  "asum f [] = 0"
  "asum f (p # al) = f (snd p) + asum f al"
  by (simp_all add: asum_def)

lemma asum_update_None:
  "map_of al k = None \<Longrightarrow> asum f (AList.update k v al) = asum f al + f v"
  by (induction al) (auto split: if_splits simp: ac_simps)

lemma asum_update_Some:
  "map_of al k = Some w \<Longrightarrow> asum f (AList.update k v al) + f w = asum f al + f v"
proof (induction al)
  case (Cons p al)
  show ?case
  proof (cases "fst p = k")
    case False
    with Cons have "f (snd p) + (asum f (AList.update k v al) + f w) = f (snd p) + (asum f al + f v)"
      by simp
    with False show ?thesis by (simp add: add.assoc)
  qed (use Cons in \<open>simp add: ac_simps\<close>)
qed simp

lemma asum_update_same:
  fixes f :: "'v \<Rightarrow> 'm::cancel_comm_monoid_add"
  shows "map_of al k = Some w \<Longrightarrow> f v = f w \<Longrightarrow> asum f (AList.update k v al) = asum f al"
  using asum_update_Some [of al k w f v] by simp

lemma asum_delete:
  assumes "distinct (map fst al)" "map_of al k = Some w"
  shows "asum f (AList.delete k al) + f w = asum f al"
  using assms
proof (induction al)
  case (Cons p al)
  show ?case
  proof (cases "fst p = k")
    case True
    with Cons.prems have "AList.delete k al = al"
      by (auto intro: delete_idem simp: map_of_eq_None_iff)
    with True Cons.prems show ?thesis by (auto simp: ac_simps)
  next
    case False
    with Cons have "f (snd p) + (asum f (AList.delete k al) + f w) = f (snd p) + asum f al"
      by simp
    with False show ?thesis by (simp add: add.assoc)
  qed
qed simp

lemma asum_zero: "(\<And>p. p \<in> set al \<Longrightarrow> f (snd p) = 0) \<Longrightarrow> asum f al = (0 :: 'm :: comm_monoid_add)"
  by (induction al) auto

lemma move_cancel:
  fixes a :: "'m::cancel_comm_monoid_add"
  assumes "A' + a = A + a'" "X' + a' = X + a"
  shows "X' + A' = X + A"
proof -
  have "(X' + A') + (a + a') = (X' + a') + (A' + a)" by (simp add: ac_simps)
  also have "\<dots> = (X + A) + (a + a')" unfolding assms by (simp add: ac_simps)
  finally show ?thesis by simp
qed

lemma in_asum_mset:
  assumes "distinct (map fst al)"
  shows "x \<in># asum (mset \<circ> f) al \<longleftrightarrow> (\<exists>k v. map_of al k = Some v \<and> x \<in> set (f v))"
proof -
  have "x \<in># asum (mset \<circ> f) al \<longleftrightarrow> (\<exists>k v. (k, v) \<in> set al \<and> x \<in> set (f v))"
    by (induction al) (auto; blast)+
  with assms show ?thesis by simp
qed

lemma map_of_delete_other [simp]: "map_of (AList.delete k al) = (map_of al)(k := None)"
  by (rule delete_conv')

lemma map_of_update_fun [simp]: "map_of (AList.update k v al) = (map_of al)(k \<mapsto> v)"
  by (rule update_conv')

lemma distinct_keys_update [simp]:
  "distinct (map fst al) \<Longrightarrow> distinct (map fst (AList.update k v al))"
  by (rule distinct_update)

lemma distinct_keys_delete [simp]:
  "distinct (map fst al) \<Longrightarrow> distinct (map fst (AList.delete k al))"
  by (rule distinct_delete)

section \<open>Lists as vectors and queues\<close>

lemma nth_append_length_plus [simp]: "(xs @ ys) ! (length xs + n) = ys ! n"
  by (simp add: nth_append)

lemma take_drop_at:
  "drop (length pre) (pre @ mid @ post) = mid @ post"
  "take (length mid) (mid @ post) = mid"
  by simp_all

lemma count_list_append [simp]: "count_list (xs @ ys) x = count_list xs x + count_list ys x"
  by (induction xs) auto

lemma snoc_cases:
  obtains "xs = []" | ys y where "xs = ys @ [y]"
  by (cases xs rule: rev_cases) auto

section \<open>Words\<close>

lemma of_nat_Suc_minus_1 [simp]: "(of_nat (Suc n) :: 'a::len word) - 1 = of_nat n"
  by simp

lemma unat_of_nat_less:
  "n < 2 ^ LENGTH('a::len) \<Longrightarrow> unat (of_nat n :: 'a word) = n"
  by (simp add: unat_of_nat)

end
