(* ===== verification/MakefileDeps.thy ===== *)
theory MakefileDeps
  imports Prelude "HOL-Library.Sublist"
begin

text \<open>
  The parser of the Makefile-style dependency files written by compilers,
  \<^verbatim>\<open>lib/Core/MakefileDepsParser.cpp\<close>. The cursor \<^verbatim>\<open>cur\<close> is the list of the bytes from it up
  to \<^verbatim>\<open>end\<close>; the calls of the \<^verbatim>\<open>ParseActions\<close> are the list of events the parser returns, in
  order. A read at or behind \<^verbatim>\<open>end\<close> is \<^term>\<open>None\<close>. The Windows variant of \<^verbatim>\<open>lexWord\<close> is not
  the one modelled.
\<close>

section \<open>Lexical routines\<close>

abbreviation newline :: char where "newline \<equiv> CHR 0x0A"
abbreviation carriage :: char where "carriage \<equiv> CHR 0x0D"
abbreviation tab :: char where "tab \<equiv> CHR 0x09"
abbreviation blank :: char where "blank \<equiv> CHR 0x20"
abbreviation hash :: char where "hash \<equiv> CHR 0x23"
abbreviation dollar :: char where "dollar \<equiv> CHR 0x24"
abbreviation colon :: char where "colon \<equiv> CHR 0x3A"
abbreviation bslash :: char where "bslash \<equiv> CHR 0x5C"

definition isWordChar :: "char \<Rightarrow> bool" where
  "isWordChar c \<longleftrightarrow> c \<notin> set [CHR 0x00, tab, carriage, newline, blank, dollar, colon]"

function skipWhitespaceAndComments :: "string \<Rightarrow> string" where
  "skipWhitespaceAndComments cur =
     (case cur of
        [] \<Rightarrow> []
      | c # cs \<Rightarrow>
          if c = hash then skipWhitespaceAndComments (dropWhile (\<lambda>d. d \<noteq> newline) cs)
          else if c = blank \<or> c = tab \<or> c = newline \<or> c = carriage then skipWhitespaceAndComments cs
          else cur)"
  by auto
termination
  by (relation "measure length") (auto simp: le_imp_less_Suc length_dropWhile_le)

declare skipWhitespaceAndComments.simps [simp del]

function skipNonNewlineWhitespace :: "string \<Rightarrow> string" where
  "skipNonNewlineWhitespace [] = []"
| "skipNonNewlineWhitespace (c # cs) =
     (if c = blank \<or> c = tab \<or> c = carriage then skipNonNewlineWhitespace cs
      else if c = bslash \<and> cs \<noteq> [] \<and> cs ! 0 = newline then skipNonNewlineWhitespace (drop 1 cs)
      else if c = bslash \<and> 2 \<le> length cs \<and> cs ! 0 = carriage \<and> cs ! 1 = newline
        then skipNonNewlineWhitespace (drop 2 cs)
      else c # cs)"
  by pat_completeness auto
termination
  by (relation "measure length") auto

fun skipToEndOfLine :: "string \<Rightarrow> string" where
  "skipToEndOfLine [] = []"
| "skipToEndOfLine (c # cs) = (if c = newline then cs else skipToEndOfLine cs)"

text \<open>
  \<^verbatim>\<open>lexWord\<close>: the cursor after the word, and \<^verbatim>\<open>unescapedWord\<close> with the word appended. The
  character after a backslash is read without comparing the cursor with \<^verbatim>\<open>end\<close>.
\<close>

fun lexWord :: "string \<Rightarrow> string \<Rightarrow> (string \<times> string) option" where
  "lexWord [] word = Some ([], word)"
| "lexWord (c # cs) word =
     (if c = bslash then
        (case cs of
           [] \<Rightarrow> None
         | d # ds \<Rightarrow>
             if d = newline then Some (c # cs, word)
             else if d = blank \<or> d = hash \<or> d = bslash then lexWord ds (word @ [d])
             else lexWord ds (word @ [bslash, d]))
      else if c = dollar \<and> cs \<noteq> [] \<and> hd cs = dollar then lexWord (tl cs) (word @ [c])
      else if \<not> isWordChar c then Some (c # cs, word)
      else lexWord cs (word @ [c]))"

section \<open>The parser\<close>

datatype mk_event =
    MkError string nat
  | RuleStart string string
  | RuleDependency string string
  | RuleEnd

lemma skipWhitespaceAndComments_suffix: "suffix (skipWhitespaceAndComments cur) cur"
proof (induction cur rule: skipWhitespaceAndComments.induct)
  case (1 cur)
  show ?case
  proof (cases cur)
    case (Cons c cs)
    consider "c = hash" | "c \<noteq> hash" "c = blank \<or> c = tab \<or> c = newline \<or> c = carriage"
      | "c \<noteq> hash" "\<not> (c = blank \<or> c = tab \<or> c = newline \<or> c = carriage)" by blast
    then show ?thesis
    proof cases
      case 1
      then show ?thesis
        using "1.IH"(1) [OF Cons 1] suffix_dropWhile [of "\<lambda>d. d \<noteq> newline" cs] Cons
        by (subst skipWhitespaceAndComments.simps) (auto intro: suffix_ConsI suffix_order.trans)
    next
      case 2
      then show ?thesis
        using "1.IH"(2) [OF Cons 2] Cons
        by (subst skipWhitespaceAndComments.simps) (auto intro: suffix_ConsI)
    next
      case 3
      then show ?thesis using Cons by (subst skipWhitespaceAndComments.simps) simp
    qed
  qed (simp add: skipWhitespaceAndComments.simps)
qed

lemma skipNonNewlineWhitespace_suffix: "suffix (skipNonNewlineWhitespace cur) cur"
proof (induction cur rule: skipNonNewlineWhitespace.induct)
  case (2 c cs)
  then show ?case
    using suffix_drop [of 1 cs] suffix_drop [of 2 cs]
    by (subst skipNonNewlineWhitespace.simps)
      (auto simp del: skipNonNewlineWhitespace.simps intro: suffix_ConsI suffix_order.trans)
qed simp

lemma skipToEndOfLine_suffix: "suffix (skipToEndOfLine cur) cur"
  by (induction cur) (auto intro: suffix_ConsI)

lemma lexWord_suffix: "lexWord cur w = Some (cur', w') \<Longrightarrow> suffix cur' cur"
proof (induction cur w rule: lexWord.induct)
  case (2 c cs word)
  show ?case
  proof (cases cs)
    case Nil
    with 2 show ?thesis by (auto split: if_splits)
  next
    case (Cons d ds)
    with 2 show ?thesis by (auto split: if_splits intro: suffix_ConsI)
  qed
qed simp

lemmas skipWhitespaceAndComments_length =
  suffix_length_le [OF skipWhitespaceAndComments_suffix]
lemmas skipNonNewlineWhitespace_length = suffix_length_le [OF skipNonNewlineWhitespace_suffix]
lemmas skipToEndOfLine_length = suffix_length_le [OF skipToEndOfLine_suffix]
lemmas lexWord_length = suffix_length_le [OF lexWord_suffix]

lemma skipToEndOfLine_less: "cur \<noteq> [] \<Longrightarrow> length (skipToEndOfLine cur) < length cur"
  using skipToEndOfLine_length [of "tl cur"] by (cases cur) auto

lemma lexWord_same: "lexWord cur w = Some (cur', w') \<Longrightarrow> length cur' = length cur \<Longrightarrow> cur' = cur"
  using lexWord_suffix [of cur w cur' w'] by (auto simp: suffix_def)

text \<open>The loop of \<^verbatim>\<open>parse\<close> that puts colons back into a prerequisite.\<close>

function lexColons :: "string \<Rightarrow> string \<Rightarrow> (string \<times> string) option" where
  "lexColons cur word =
     (case cur of
        [] \<Rightarrow> Some (cur, word)
      | c # cs \<Rightarrow>
          if c = colon then do {
            (cur', word') \<leftarrow> lexWord cs (word @ [c]);
            lexColons cur' word'
          }
          else Some (cur, word))"
  by auto
termination
  by (relation "measure (length \<circ> fst)") (auto simp: le_imp_less_Suc dest: lexWord_length)

declare lexColons.simps [simp del]

lemma lexColons_suffix: "lexColons cur w = Some (cur', w') \<Longrightarrow> suffix cur' cur"
proof (induction cur w rule: lexColons.induct)
  case (1 cur w)
  show ?case
  proof (cases "\<exists>cs. cur = colon # cs")
    case True
    then obtain cs where cs: "cur = colon # cs" by blast
    with 1(2) obtain x y where xy: "lexWord cs (w @ [colon]) = Some (x, y)"
      "lexColons x y = Some (cur', w')"
      by (auto simp: lexColons.simps [of "colon # cs"] split: bind_splits)
    have "suffix cur' x" by (rule 1(1) [OF cs refl xy(1) refl xy(2)])
    with lexWord_suffix [OF xy(1)] cs show ?thesis
      by (auto intro: suffix_ConsI suffix_order.trans)
  next
    case False
    with 1(2) show ?thesis by (auto simp: lexColons.simps [of cur] split: list.splits)
  qed
qed

lemmas lexColons_length = suffix_length_le [OF lexColons_suffix]

text \<open>The prerequisites of a rule; \<^verbatim>\<open>cur - data.data()\<close> is the distance \<open>n - length cur\<close>.\<close>

function parseDependencies :: "nat \<Rightarrow> string \<Rightarrow> (mk_event list \<times> string) option" where
  "parseDependencies n cur =
     (if cur = [] then Some ([], cur)
      else
        let wordStart = skipNonNewlineWhitespace cur in
        if wordStart = [] \<or> hd wordStart = newline then Some ([], wordStart)
        else do {
          (cur1, word) \<leftarrow> lexWord wordStart [];
          if length cur1 = length wordStart then do {
            (evs, cur2) \<leftarrow> parseDependencies n (skipToEndOfLine cur1);
            Some (MkError ''unexpected character in prerequisites'' (n - length cur1) # evs, cur2)
          }
          else do {
            (cur2, word') \<leftarrow> lexColons cur1 word;
            (evs, cur3) \<leftarrow> parseDependencies n cur2;
            Some (RuleDependency (take (length wordStart - length cur2) wordStart) word' # evs, cur3)
          }
        })"
  by auto
termination
proof (relation "measure (length \<circ> snd)", goal_cases)
  case (2 n cur wordStart x cur1 word)
  then have "cur1 \<noteq> []" by auto
  with 2 show ?case
    using skipToEndOfLine_less [of cur1] lexWord_length [of wordStart "[]" cur1 word]
      skipNonNewlineWhitespace_length [of cur] by auto
next
  case (3 n cur wordStart x cur1 word y cur2 word')
  then show ?case
    using lexWord_length [of wordStart "[]" cur1 word] lexColons_length [of cur1 word cur2 word']
      skipNonNewlineWhitespace_length [of cur] by auto
qed simp

declare parseDependencies.simps [simp del]

text \<open>One round of the prerequisite loop.\<close>

lemma parseDependencies_cases [consumes 1, case_names stop bad word]:
  assumes "parseDependencies n cur = Some (evs, cur')"
  obtains "evs = []" "cur' = skipNonNewlineWhitespace cur" "cur' = [] \<or> hd cur' = newline"
  | ws word evs' where "ws = skipNonNewlineWhitespace cur" "ws \<noteq> []" "lexWord ws [] = Some (ws, word)"
      "parseDependencies n (skipToEndOfLine ws) = Some (evs', cur')"
      "evs = MkError ''unexpected character in prerequisites'' (n - length ws) # evs'"
  | ws cur1 word cur2 word' evs' where "ws = skipNonNewlineWhitespace cur" "ws \<noteq> []"
      "lexWord ws [] = Some (cur1, word)" "length cur1 < length ws"
      "lexColons cur1 word = Some (cur2, word')" "parseDependencies n cur2 = Some (evs', cur')"
      "evs = RuleDependency (take (length ws - length cur2) ws) word' # evs'"
proof -
  let ?ws = "skipNonNewlineWhitespace cur"
  consider "cur = [] \<or> ?ws = [] \<or> hd ?ws = newline"
    | "cur \<noteq> []" "?ws \<noteq> []" "hd ?ws \<noteq> newline" by blast
  then show thesis
  proof cases
    case 1
    with assms have "evs = [] \<and> cur' = ?ws \<and> (cur' = [] \<or> hd cur' = newline)"
      by (subst (asm) parseDependencies.simps) (auto split: if_splits simp: Let_def)
    then show thesis using that(1) by blast
  next
    case 2
    with assms obtain cur1 word where w: "lexWord ?ws [] = Some (cur1, word)"
      by (subst (asm) parseDependencies.simps) (auto simp: Let_def split: bind_splits)
    show thesis
    proof (cases "length cur1 = length ?ws")
      case True
      with w have same: "cur1 = ?ws" by (rule lexWord_same)
      with assms 2 w obtain evs' where "parseDependencies n (skipToEndOfLine ?ws) = Some (evs', cur')"
        "evs = MkError ''unexpected character in prerequisites'' (n - length ?ws) # evs'"
        by (subst (asm) parseDependencies.simps) (auto simp: Let_def split: bind_splits)
      with that(2) 2 w same show thesis by simp
    next
      case False
      with lexWord_length [OF w] have "length cur1 < length ?ws" by simp
      moreover from assms 2 w False obtain cur2 word' evs' where
        "lexColons cur1 word = Some (cur2, word')" "parseDependencies n cur2 = Some (evs', cur')"
        "evs = RuleDependency (take (length ?ws - length cur2) ?ws) word' # evs'"
        by (subst (asm) parseDependencies.simps) (auto simp: Let_def split: bind_splits)
      ultimately show thesis using that(3) 2 w by blast
    qed
  qed
qed

lemma parseDependencies_suffix:
  "parseDependencies n cur = Some (evs, cur') \<Longrightarrow> suffix cur' cur"
proof (induction "length cur" arbitrary: cur evs cur' rule: less_induct)
  case less
  have suf: "suffix (skipNonNewlineWhitespace cur) cur"
    by (rule skipNonNewlineWhitespace_suffix)
  note le = suffix_length_le [OF suf]
  from less.prems show ?case
  proof (cases rule: parseDependencies_cases)
    case stop
    with suf show ?thesis by simp
  next
    case (bad ws word evs')
    then have "suffix cur' (skipToEndOfLine ws)"
      using skipToEndOfLine_less [of ws] le by (intro less.hyps) auto
    with bad(1) suf show ?thesis
      using skipToEndOfLine_suffix suffix_order.trans by blast
  next
    case (word ws cur1 word cur2 word' evs')
    then have "suffix cur' cur2"
      using lexColons_length [OF word(5)] le by (intro less.hyps) auto
    then show ?thesis
      using lexColons_suffix [OF word(5)] lexWord_suffix [OF word(3)] suf word(1)
      by (meson suffix_order.trans)
  qed
qed

lemmas parseDependencies_length = suffix_length_le [OF parseDependencies_suffix]

text \<open>\<^verbatim>\<open>MakefileDepsParser::parse\<close>, the loop over the rules of the file.\<close>

function parseRules :: "bool \<Rightarrow> nat \<Rightarrow> string \<Rightarrow> mk_event list option" where
  "parseRules ignoreSubsequentOutputs n cur =
     (let wordStart = skipWhitespaceAndComments cur in
      if wordStart = [] then Some []
      else do {
        (cur1, word) \<leftarrow> lexWord wordStart [];
        if length cur1 = length wordStart then do {
          evs \<leftarrow> parseRules ignoreSubsequentOutputs n (skipToEndOfLine cur1);
          Some (MkError ''unexpected character in file'' (n - length cur1) # evs)
        }
        else
          let cur2 = skipNonNewlineWhitespace cur1;
              start = RuleStart (take (length wordStart - length cur1) wordStart) word in
          if cur2 = [] \<or> hd cur2 \<noteq> colon then do {
            evs \<leftarrow> parseRules ignoreSubsequentOutputs n (skipToEndOfLine cur2);
            Some (start # MkError (''missing '' @ [CHR 0x27, colon, CHR 0x27] @ '' following rule'')
              (n - length cur2) # RuleEnd # evs)
          }
          else do {
            (deps, cur3) \<leftarrow> parseDependencies n (tl cur2);
            evs \<leftarrow> (if ignoreSubsequentOutputs then Some []
                    else parseRules ignoreSubsequentOutputs n cur3);
            Some (start # deps @ RuleEnd # evs)
          }
      })"
  by auto
termination
proof (relation "measure (\<lambda>(_, _, cur). length cur)", goal_cases)
  case (2 b n cur wordStart x cur1 word)
  then have "cur1 \<noteq> []" by auto
  with 2 show ?case
    using skipToEndOfLine_less [of cur1] lexWord_length [of wordStart "[]" cur1 word]
      skipWhitespaceAndComments_length [of cur] by auto
next
  case (3 b n cur wordStart x cur1 word cur2 start)
  then show ?case
    using lexWord_length [of wordStart "[]" cur1 word] skipToEndOfLine_length [of cur2]
      skipNonNewlineWhitespace_length [of cur1] skipWhitespaceAndComments_length [of cur] by auto
next
  case (4 b n cur wordStart x cur1 word cur2 start y deps cur3)
  then show ?case
    using lexWord_length [of wordStart "[]" cur1 word]
      parseDependencies_length [of n "tl cur2" deps cur3]
      skipNonNewlineWhitespace_length [of cur1] skipWhitespaceAndComments_length [of cur] by auto
qed simp

declare parseRules.simps [simp del]

definition parseMakefileDeps :: "bool \<Rightarrow> string \<Rightarrow> mk_event list option" where
  "parseMakefileDeps ignoreSubsequentOutputs data =
     parseRules ignoreSubsequentOutputs (length data) data"

section \<open>Safety\<close>

text \<open>
  The grammar of the events: every rule is opened once, gets its prerequisites and is closed,
  and no error lies outside the file. \<open>mk_wf inside n evs\<close> reads the list with \<open>inside\<close> a rule.
\<close>

fun mk_wf :: "bool \<Rightarrow> nat \<Rightarrow> mk_event list \<Rightarrow> bool" where
  "mk_wf inside n [] \<longleftrightarrow> \<not> inside"
| "mk_wf inside n (MkError msg at # evs) \<longleftrightarrow> at \<le> n \<and> mk_wf inside n evs"
| "mk_wf inside n (RuleStart raw word # evs) \<longleftrightarrow> \<not> inside \<and> raw \<noteq> [] \<and> mk_wf True n evs"
| "mk_wf inside n (RuleDependency raw word # evs) \<longleftrightarrow> inside \<and> raw \<noteq> [] \<and> mk_wf inside n evs"
| "mk_wf inside n (RuleEnd # evs) \<longleftrightarrow> inside \<and> mk_wf False n evs"

lemma parseDependencies_wf:
  "parseDependencies n cur = Some (evs, cur') \<Longrightarrow> mk_wf False n rest \<Longrightarrow>
    mk_wf True n (evs @ RuleEnd # rest)"
proof (induction "length cur" arbitrary: cur evs cur' rule: less_induct)
  case less
  have le: "length (skipNonNewlineWhitespace cur) \<le> length cur"
    by (rule skipNonNewlineWhitespace_length)
  from less.prems(1) show ?case
  proof (cases rule: parseDependencies_cases)
    case stop
    with less.prems(2) show ?thesis by simp
  next
    case (bad ws word evs')
    with skipToEndOfLine_less [of ws] less.hyps [of "skipToEndOfLine ws"] less.prems(2) le
    show ?thesis by fastforce
  next
    case (word ws cur1 word cur2 word' evs')
    with lexColons_length [OF word(5)] less.hyps [of cur2] less.prems(2) le show ?thesis by fastforce
  qed
qed

text \<open>One round of the rule loop.\<close>

lemma parseRules_cases [consumes 1, case_names stop bad no_colon rule]:
  assumes "parseRules b n cur = Some evs"
  obtains "evs = []"
  | ws word evs' where "ws = skipWhitespaceAndComments cur" "ws \<noteq> []" "lexWord ws [] = Some (ws, word)"
      "parseRules b n (skipToEndOfLine ws) = Some evs'"
      "evs = MkError ''unexpected character in file'' (n - length ws) # evs'"
  | ws cur1 word cur2 msg evs' where "ws = skipWhitespaceAndComments cur" "ws \<noteq> []"
      "lexWord ws [] = Some (cur1, word)" "length cur1 < length ws"
      "cur2 = skipNonNewlineWhitespace cur1"
      "parseRules b n (skipToEndOfLine cur2) = Some evs'"
      "evs = RuleStart (take (length ws - length cur1) ws) word
        # MkError msg (n - length cur2) # RuleEnd # evs'"
  | ws cur1 word cur2 deps cur3 evs' where "ws = skipWhitespaceAndComments cur" "ws \<noteq> []"
      "lexWord ws [] = Some (cur1, word)" "length cur1 < length ws"
      "skipNonNewlineWhitespace cur1 = colon # cur2"
      "parseDependencies n cur2 = Some (deps, cur3)"
      "evs' = [] \<or> parseRules b n cur3 = Some evs'"
      "evs = RuleStart (take (length ws - length cur1) ws) word # deps @ RuleEnd # evs'"
proof -
  let ?ws = "skipWhitespaceAndComments cur"
  show thesis
  proof (cases "?ws = []")
    case True
    with assms that(1) show thesis
      by (subst (asm) parseRules.simps) (simp add: Let_def)
  next
    case False
    with assms obtain cur1 word where w: "lexWord ?ws [] = Some (cur1, word)"
      by (auto simp: parseRules.simps [of b n cur] Let_def split: bind_splits)
    consider "length cur1 = length ?ws"
      | "length cur1 < length ?ws" "skipNonNewlineWhitespace cur1 = [] \<or> hd (skipNonNewlineWhitespace cur1) \<noteq> colon"
      | cur2 where "length cur1 < length ?ws" "skipNonNewlineWhitespace cur1 = colon # cur2"
      using lexWord_length [OF w] by (cases "skipNonNewlineWhitespace cur1") (auto simp: le_less)
    then show thesis
    proof cases
      case 1
      with w have same: "cur1 = ?ws" by (rule lexWord_same)
      with assms False w obtain evs' where "parseRules b n (skipToEndOfLine ?ws) = Some evs'"
        "evs = MkError ''unexpected character in file'' (n - length ?ws) # evs'"
        by (auto simp: parseRules.simps [of b n cur] Let_def split: bind_splits)
      with that(2) False w same show thesis by simp
    next
      case 2
      with assms False w obtain msg evs' where
        "parseRules b n (skipToEndOfLine (skipNonNewlineWhitespace cur1)) = Some evs'"
        "evs = RuleStart (take (length ?ws - length cur1) ?ws) word
          # MkError msg (n - length (skipNonNewlineWhitespace cur1)) # RuleEnd # evs'"
        by (auto simp: parseRules.simps [of b n cur] Let_def split: bind_splits)
      with that(3) [OF refl False w 2(1) refl] show thesis by blast
    next
      case 3
      with assms False w obtain deps cur3 evs' where
        "parseDependencies n cur2 = Some (deps, cur3)"
        "evs' = [] \<or> parseRules b n cur3 = Some evs'"
        "evs = RuleStart (take (length ?ws - length cur1) ?ws) word # deps @ RuleEnd # evs'"
        by (auto simp: parseRules.simps [of b n cur] Let_def split: bind_splits if_splits)
      with that(4) [OF refl False w 3] show thesis by blast
    qed
  qed
qed

lemma parseRules_wf: "parseRules b n cur = Some evs \<Longrightarrow> mk_wf False n evs"
proof (induction "length cur" arbitrary: cur evs rule: less_induct)
  case less
  have le: "length (skipWhitespaceAndComments cur) \<le> length cur"
    by (rule skipWhitespaceAndComments_length)
  from less.prems show ?case
  proof (cases rule: parseRules_cases)
    case stop
    then show ?thesis by simp
  next
    case (bad ws word evs')
    with skipToEndOfLine_less [of ws] less.hyps [of "skipToEndOfLine ws"] le show ?thesis by fastforce
  next
    case (no_colon ws cur1 word cur2 msg evs')
    with skipToEndOfLine_length [of cur2] skipNonNewlineWhitespace_length [of cur1]
      less.hyps [of "skipToEndOfLine cur2"] le show ?thesis by fastforce
  next
    case (rule ws cur1 word cur2 deps cur3 evs')
    have "length cur3 < length cur"
      using parseDependencies_length [OF rule(6)] skipNonNewlineWhitespace_length [of cur1] rule le
      by simp
    with rule less.hyps [of cur3] have "mk_wf False n evs'" by auto
    with rule parseDependencies_wf [OF rule(6)] show ?thesis by auto
  qed
qed

text \<open>
  Whatever the file holds, the calls the parser makes are well bracketed: each rule start
  is followed by its prerequisites and one rule end before the next rule starts, no
  prerequisite is reported outside a rule, and the position of every error lies in the file.
\<close>

theorem makefile_events_wf:
  "parseMakefileDeps b data = Some evs \<Longrightarrow> mk_wf False (length data) evs"
  by (simp add: parseMakefileDeps_def parseRules_wf)

text \<open>The only read behind the end is the one after a backslash that ends the file.\<close>

definition ends_bslash :: "string \<Rightarrow> bool" where
  "ends_bslash s \<longleftrightarrow> s \<noteq> [] \<and> last s = bslash"

lemma ends_bslash_suffix: "suffix t s \<Longrightarrow> ends_bslash t \<Longrightarrow> ends_bslash s"
  by (auto simp: ends_bslash_def suffix_def)

lemma lexWord_None: "lexWord cur w = None \<Longrightarrow> ends_bslash cur"
proof (induction cur w rule: lexWord.induct)
  case (2 c cs word)
  show ?case
  proof (cases cs)
    case Nil
    with 2 show ?thesis by (auto simp: ends_bslash_def split: if_splits)
  next
    case (Cons d ds)
    with 2 show ?thesis by (auto simp: ends_bslash_def split: if_splits)
  qed
qed simp

lemma lexColons_None: "lexColons cur w = None \<Longrightarrow> ends_bslash cur"
proof (induction cur w rule: lexColons.induct)
  case (1 cur w)
  from 1(2) obtain cs where cs: "cur = colon # cs"
    by (auto simp: lexColons.simps [of cur] split: list.splits if_splits)
  show ?case
  proof (cases "lexWord cs (w @ [colon])")
    case None
    then show ?thesis using lexWord_None cs by (auto simp: ends_bslash_def)
  next
    case (Some xy)
    then obtain x y where xy: "lexWord cs (w @ [colon]) = Some (x, y)" by (cases xy) auto
    with 1(2) cs have "lexColons x y = None" by (auto simp: lexColons.simps [of "colon # cs"])
    then have "ends_bslash x" by (rule 1(1) [OF cs refl xy refl])
    with lexWord_suffix [OF xy] cs show ?thesis
      by (auto intro: ends_bslash_suffix suffix_ConsI)
  qed
qed

lemma parseDependencies_None: "parseDependencies n cur = None \<Longrightarrow> ends_bslash cur"
proof (induction "length cur" arbitrary: cur rule: less_induct)
  case less
  let ?ws = "skipNonNewlineWhitespace cur"
  have suf: "suffix ?ws cur" by (rule skipNonNewlineWhitespace_suffix)
  note le = suffix_length_le [OF suf]
  from less.prems have ne: "?ws \<noteq> []"
    by (auto simp: parseDependencies.simps [of n cur] Let_def split: if_splits)
  have "ends_bslash ?ws"
  proof (cases "lexWord ?ws []")
    case (Some x)
    then obtain cur1 word where w: "lexWord ?ws [] = Some (cur1, word)" by (cases x) auto
    consider "cur1 = ?ws" "parseDependencies n (skipToEndOfLine ?ws) = None"
      | "lexColons cur1 word = None"
      | cur2 word' where "length cur1 < length ?ws" "lexColons cur1 word = Some (cur2, word')"
          "parseDependencies n cur2 = None"
      using less.prems ne w lexWord_same [OF w] lexWord_length [OF w]
      by (auto simp: parseDependencies.simps [of n cur] Let_def le_less split: if_splits bind_splits)
    then show ?thesis
    proof cases
      case 1
      then have "ends_bslash (skipToEndOfLine ?ws)"
        using skipToEndOfLine_less [OF ne] le by (intro less.hyps) auto
      then show ?thesis by (rule ends_bslash_suffix [OF skipToEndOfLine_suffix])
    next
      case 2
      then show ?thesis by (metis lexColons_None ends_bslash_suffix lexWord_suffix w)
    next
      case 3
      then have "ends_bslash cur2"
        using lexColons_length [OF 3(2)] le by (intro less.hyps) auto
      then show ?thesis
        by (metis 3(2) ends_bslash_suffix lexColons_suffix lexWord_suffix w)
    qed
  qed (rule lexWord_None)
  then show ?case by (rule ends_bslash_suffix [OF suf])
qed

lemma parseRules_None: "parseRules b n cur = None \<Longrightarrow> ends_bslash cur"
proof (induction "length cur" arbitrary: cur rule: less_induct)
  case less
  let ?ws = "skipWhitespaceAndComments cur"
  have suf: "suffix ?ws cur" by (rule skipWhitespaceAndComments_suffix)
  note le = suffix_length_le [OF suf]
  from less.prems have ne: "?ws \<noteq> []"
    by (auto simp: parseRules.simps [of b n cur])
  have "ends_bslash ?ws"
  proof (cases "lexWord ?ws []")
    case (Some x)
    then obtain cur1 word where w: "lexWord ?ws [] = Some (cur1, word)" by (cases x) auto
    let ?cur2 = "skipNonNewlineWhitespace cur1"
    have suf2: "suffix ?cur2 ?ws"
      using lexWord_suffix [OF w] skipNonNewlineWhitespace_suffix suffix_order.trans by blast
    consider "cur1 = ?ws" "parseRules b n (skipToEndOfLine ?ws) = None"
      | "length cur1 < length ?ws" "parseRules b n (skipToEndOfLine ?cur2) = None"
      | "parseDependencies n (tl ?cur2) = None"
      | deps cur3 where "length cur1 < length ?ws"
          "parseDependencies n (tl ?cur2) = Some (deps, cur3)" "parseRules b n cur3 = None"
      using less.prems ne w lexWord_same [OF w] lexWord_length [OF w]
      by (auto simp: parseRules.simps [of b n cur] Let_def le_less split: if_splits bind_splits)
    then show ?thesis
    proof cases
      case 1
      then have "ends_bslash (skipToEndOfLine ?ws)"
        using skipToEndOfLine_less [OF ne] le by (intro less.hyps) auto
      then show ?thesis by (rule ends_bslash_suffix [OF skipToEndOfLine_suffix])
    next
      case 2
      then have "ends_bslash (skipToEndOfLine ?cur2)"
        using skipToEndOfLine_length [of ?cur2] skipNonNewlineWhitespace_length [of cur1] le
        by (intro less.hyps) auto
      then show ?thesis by (metis ends_bslash_suffix skipToEndOfLine_suffix suf2)
    next
      case 3
      then show ?thesis by (metis ends_bslash_suffix parseDependencies_None suf2 suffix_tl)
    next
      case 4
      then have "ends_bslash cur3"
        using parseDependencies_length [OF 4(2)] skipNonNewlineWhitespace_length [of cur1] le
        by (intro less.hyps) auto
      then show ?thesis
        by (metis 4(2) ends_bslash_suffix parseDependencies_suffix suf2 suffix_tl)
    qed
  qed (rule lexWord_None)
  then show ?case by (rule ends_bslash_suffix [OF suf])
qed

text \<open>
  The parser terminates with its calls, and never reads behind the end of the file,
  unless the last byte of the file is a backslash.
\<close>

theorem makefile_parse_safe:
  "data = [] \<or> last data \<noteq> bslash \<Longrightarrow> \<exists>evs. parseMakefileDeps b data = Some evs"
  using parseRules_None [of b "length data" data]
  by (auto simp: parseMakefileDeps_def ends_bslash_def)

section \<open>Round trip\<close>

text \<open>
  The escaping compilers use, and a rule printed with one prerequisite per continued line.
\<close>

definition mk_escape_char :: "char \<Rightarrow> string" where
  "mk_escape_char c =
     (if c = blank \<or> c = hash \<or> c = bslash then [bslash, c]
      else if c = dollar then [dollar, dollar] else [c])"

definition mk_escape :: "string \<Rightarrow> string" where
  "mk_escape w = concat (map mk_escape_char w)"

definition mk_print :: "string \<times> string list \<Rightarrow> string" where
  "mk_print r = mk_escape (fst r) @ [colon]
     @ concat (map (\<lambda>d. [blank, bslash, newline, blank, blank] @ mk_escape d) (snd r)) @ [newline]"

definition mk_events :: "string \<times> string list \<Rightarrow> mk_event list" where
  "mk_events r = RuleStart (mk_escape (fst r)) (fst r)
     # map (\<lambda>d. RuleDependency (mk_escape d) d) (snd r) @ [RuleEnd]"

text \<open>Names the format can carry: no control characters, and a colon only inside a prerequisite.\<close>

definition mk_plain :: "string \<Rightarrow> bool" where
  "mk_plain w \<longleftrightarrow> set w \<inter> {CHR 0x00, tab, carriage, newline} = {}"

definition mk_target_ok :: "string \<Rightarrow> bool" where
  "mk_target_ok w \<longleftrightarrow> w \<noteq> [] \<and> mk_plain w \<and> colon \<notin> set w"

definition mk_dep_ok :: "string \<Rightarrow> bool" where
  "mk_dep_ok w \<longleftrightarrow> w \<noteq> [] \<and> mk_plain w \<and> hd w \<noteq> colon"

lemma mk_escape_simps [simp]: "mk_escape [] = []" "mk_escape (c # w) = mk_escape_char c @ mk_escape w"
  by (simp_all add: mk_escape_def)

lemma mk_plain_simps [simp]:
  "mk_plain []" "mk_plain (c # w) \<longleftrightarrow> c \<notin> {CHR 0x00, tab, carriage, newline} \<and> mk_plain w"
  by (auto simp: mk_plain_def)

lemma lexWord_escape_char:
  assumes "c \<notin> {CHR 0x00, tab, carriage, newline, colon}"
  shows "lexWord (mk_escape_char c @ t) acc = lexWord t (acc @ [c])"
  using assms by (auto simp: mk_escape_char_def isWordChar_def)

definition mk_stop :: "string \<Rightarrow> bool" where
  "mk_stop t \<longleftrightarrow> t \<noteq> [] \<and> hd t \<in> {blank, newline}"

lemma mk_stop_simps: "mk_stop t \<Longrightarrow> lexWord t acc = Some (t, acc)" "mk_stop t \<Longrightarrow> lexColons t acc = Some (t, acc)"
  by (auto simp: mk_stop_def isWordChar_def lexColons.simps [of t] neq_Nil_conv)

lemma lexWord_target:
  "mk_plain w \<Longrightarrow> colon \<notin> set w \<Longrightarrow> lexWord (mk_escape w @ t) acc = lexWord t (acc @ w)"
  by (induction w arbitrary: acc) (auto simp: lexWord_escape_char)

lemma lexWord_dep:
  "mk_plain w \<Longrightarrow> mk_stop t \<Longrightarrow>
    Option.bind (lexWord (mk_escape w @ t) acc) (\<lambda>(cur, word). lexColons cur word) = Some (t, acc @ w)"
proof (induction w arbitrary: acc)
  case (Cons c w)
  show ?case
  proof (cases "c = colon")
    case True
    then have "lexWord (mk_escape (c # w) @ t) acc = Some (colon # mk_escape w @ t, acc)"
      by (simp add: mk_escape_char_def isWordChar_def)
    with Cons True show ?thesis by (simp add: lexColons.simps [of "colon # _"])
  next
    case False
    with Cons show ?thesis by (simp add: lexWord_escape_char)
  qed
qed (simp add: mk_stop_simps)

text \<open>An escaped name starts a word.\<close>

lemma skip_escaped:
  assumes "w \<noteq> []" "mk_plain w"
  shows "skipWhitespaceAndComments (mk_escape w @ t) = mk_escape w @ t"
    "skipNonNewlineWhitespace (mk_escape w @ t) = mk_escape w @ t"
  using assms
  by (auto simp: neq_Nil_conv mk_escape_char_def skipWhitespaceAndComments.simps [of "_ # _"])

lemma parseDependencies_printed:
  assumes "mk_dep_ok d" "mk_stop t" "parseDependencies n t = Some (evs, cur')"
  shows "parseDependencies n ([blank, bslash, newline, blank, blank] @ mk_escape d @ t)
    = Some (RuleDependency (mk_escape d) d # evs, cur')"
proof -
  from assms(1) obtain c w where d: "d = c # w" and c: "c \<notin> {CHR 0x00, tab, carriage, newline, colon}"
    and w: "mk_plain w"
    by (cases d) (auto simp: mk_dep_ok_def)
  let ?ws = "mk_escape d @ t"
  have ws: "skipNonNewlineWhitespace ([blank, bslash, newline, blank, blank] @ ?ws) = ?ws"
    using assms(1) skip_escaped(2) [of d t] by (simp add: mk_dep_ok_def)
  from lexWord_dep [OF w assms(2), of "[c]"] obtain cur1 word
    where *: "lexWord (mk_escape w @ t) [c] = Some (cur1, word)" "lexColons cur1 word = Some (t, d)"
    by (auto simp: d split: bind_splits)
  with c have "lexWord ?ws [] = Some (cur1, word)" by (simp add: d lexWord_escape_char)
  moreover have "length cur1 < length ?ws"
    using lexWord_length [OF *(1)] by (simp add: d mk_escape_char_def)
  moreover have "?ws \<noteq> []" "hd ?ws \<noteq> newline" using c by (auto simp: d mk_escape_char_def)
  ultimately show ?thesis
    using * ws assms(3) by (subst parseDependencies.simps) (simp add: Let_def)
qed

lemma parseDependencies_list:
  "\<forall>d \<in> set ds. mk_dep_ok d \<Longrightarrow>
    parseDependencies n (concat (map (\<lambda>d. [blank, bslash, newline, blank, blank] @ mk_escape d) ds)
      @ newline # rest)
    = Some (map (\<lambda>d. RuleDependency (mk_escape d) d) ds, newline # rest)"
proof (induction ds)
  case Nil
  then show ?case by (simp add: parseDependencies.simps [of n "newline # rest"])
next
  case (Cons d ds)
  let ?t = "concat (map (\<lambda>d. [blank, bslash, newline, blank, blank] @ mk_escape d) ds) @ newline # rest"
  have "mk_stop ?t" by (cases ds) (auto simp: mk_stop_def)
  from parseDependencies_printed [OF _ this, of d n] Cons show ?case by simp
qed

lemma parseRules_skip:
  assumes "skipWhitespaceAndComments cur = skipWhitespaceAndComments cur'"
  shows "parseRules b n cur = parseRules b n cur'"
  by (subst (1 2) parseRules.simps) (simp only: assms)

lemma parseRules_rule:
  assumes "skipWhitespaceAndComments ws = ws" "lexWord ws [] = Some (colon # t, word)"
    "ws = raw @ colon # t" "raw \<noteq> []" "parseDependencies n t = Some (deps, cur3)"
  shows "parseRules b n ws = map_option (\<lambda>evs. RuleStart raw word # deps @ RuleEnd # evs)
    (if b then Some [] else parseRules b n cur3)"
proof -
  have "skipNonNewlineWhitespace (colon # t) = colon # t" by simp
  with assms show ?thesis
    by (subst parseRules.simps)
      (cases b; cases "parseRules b n cur3"; simp add: Let_def del: skipNonNewlineWhitespace.simps)
qed

lemma parseRules_printed:
  assumes "mk_target_ok (fst r)" "\<forall>d \<in> set (snd r). mk_dep_ok d"
  shows "parseRules b n (mk_print r @ rest)
    = map_option ((@) (mk_events r)) (if b then Some [] else parseRules b n rest)"
proof -
  define t where
    "t = concat (map (\<lambda>d. [blank, bslash, newline, blank, blank] @ mk_escape d) (snd r)) @ newline # rest"
  let ?ws = "mk_escape (fst r) @ colon # t"
  from assms(1) have r: "fst r \<noteq> []" "mk_plain (fst r)" "colon \<notin> set (fst r)"
    by (auto simp: mk_target_ok_def)
  have "lexWord ?ws [] = Some (colon # t, fst r)"
    using lexWord_target [OF r(2,3), of "colon # t" "[]"] by (simp add: isWordChar_def)
  moreover have "mk_escape (fst r) \<noteq> []"
    using r(1) by (auto simp: neq_Nil_conv mk_escape_char_def)
  moreover have "parseDependencies n t
      = Some (map (\<lambda>d. RuleDependency (mk_escape d) d) (snd r), newline # rest)"
    unfolding t_def by (rule parseDependencies_list [OF assms(2)])
  moreover have "skipWhitespaceAndComments ?ws = ?ws"
    by (rule skip_escaped(1) [OF r(1,2)])
  ultimately have "parseRules b n ?ws = map_option (\<lambda>evs. RuleStart (mk_escape (fst r)) (fst r)
      # map (\<lambda>d. RuleDependency (mk_escape d) d) (snd r) @ RuleEnd # evs)
      (if b then Some [] else parseRules b n (newline # rest))"
    by (intro parseRules_rule) simp_all
  moreover have "parseRules b n (newline # rest) = parseRules b n rest"
    by (rule parseRules_skip) (simp add: skipWhitespaceAndComments.simps [of "newline # rest"])
  moreover have "mk_print r @ rest = ?ws" by (simp add: mk_print_def t_def)
  ultimately show ?thesis
    by (cases b; cases "parseRules b n rest"; simp add: mk_events_def)
qed

lemma parseMakefileDeps_printed:
  assumes "\<forall>r \<in> set rules. mk_target_ok (fst r) \<and> (\<forall>d \<in> set (snd r). mk_dep_ok d)"
  shows "parseMakefileDeps b (concat (map mk_print rules))
    = Some (concat (map mk_events (if b then take 1 rules else rules)))"
proof -
  have "parseRules b n (concat (map mk_print rules))
      = Some (concat (map mk_events (if b then take 1 rules else rules)))" for n
    using assms
  proof (induction rules)
    case Nil
    then show ?case by (simp add: parseRules.simps [of b n "[]"] skipWhitespaceAndComments.simps)
  next
    case (Cons r rules)
    then show ?case by (cases b) (simp_all add: parseRules_printed)
  qed
  then show ?thesis by (simp add: parseMakefileDeps_def)
qed

text \<open>
  C18. Round trip: parsing the printed form of any list of rules reports exactly these rules,
  with the escaped and the original text of every name; with \<^verbatim>\<open>ignoreSubsequentOutputs\<close> the
  first rule only. A prerequisite may contain blanks, \<^verbatim>\<open>#\<close>, \<^verbatim>\<open>$\<close>, backslashes and inner colons.
\<close>

theorem makefile_roundtrip:
  assumes "\<forall>r \<in> set rules. mk_target_ok (fst r) \<and> (\<forall>d \<in> set (snd r). mk_dep_ok d)"
  shows "parseMakefileDeps b (concat (map mk_print rules))
    = Some (concat (map mk_events (if b then take 1 rules else rules)))"
  by (rule parseMakefileDeps_printed [OF assms])

lemma makefile_roundtrip_witness:
  "parseMakefileDeps False (concat (map mk_print [(''a.o'', [''my file.c'', ''c:d''])]))
    = Some (concat (map mk_events [(''a.o'', [''my file.c'', ''c:d''])]))"
  using makefile_roundtrip [of "[(''a.o'', [''my file.c'', ''c:d''])]" False]
  by (simp add: mk_target_ok_def mk_dep_ok_def mk_plain_def)

text \<open>
  A file that ends in a name followed by one backslash makes \<^verbatim>\<open>lexWord\<close> read the byte
  behind the end of the file (and then step over the end).
\<close>

theorem makefile_trailing_backslash:
  assumes "mk_target_ok w"
  shows "parseMakefileDeps b (mk_escape w @ [bslash]) = None"
proof -
  from assms have "mk_escape w \<noteq> []"
    by (auto simp: mk_target_ok_def neq_Nil_conv mk_escape_char_def)
  with assms show ?thesis
    using skip_escaped(1) [of w "[bslash]"] lexWord_target [of w "[bslash]" "[]"]
    by (simp add: parseMakefileDeps_def parseRules.simps Let_def mk_target_ok_def)
qed

lemma makefile_trailing_backslash_witness:
  "parseMakefileDeps False (mk_escape ''a'' @ [bslash]) = None"
  by (rule makefile_trailing_backslash) (simp add: mk_target_ok_def)

lemma makefile_parse_safe_witness: "\<exists>evs. parseMakefileDeps True ''a: b'' = Some evs"
  by (rule makefile_parse_safe) simp

lemma makefile_events_wf_witness: "mk_wf False 4 [RuleStart ''a'' ''a'', RuleDependency ''b'' ''b'', RuleEnd]"
proof -
  have "parseMakefileDeps False ''a: b'' = Some [RuleStart ''a'' ''a'', RuleDependency ''b'' ''b'', RuleEnd]"
    by code_simp
  from makefile_events_wf [OF this] show ?thesis by simp
qed

text \<open>
  After a bad character among the prerequisites, the line is skipped but the rule is not
  ended: the next rule of the file is read as prerequisites of the broken one.
\<close>

theorem makefile_error_swallows_rule:
  "parseMakefileDeps False (''a: b $'' @ newline # ''c: d'' @ [newline])
    = Some [RuleStart ''a'' ''a'', RuleDependency ''b'' ''b'',
        MkError ''unexpected character in prerequisites'' 5,
        RuleDependency ''c:'' ''c:'', RuleDependency ''d'' ''d'', RuleEnd]"
  by code_simp

end
