(* ===== verification/DependencyInfo.thy ===== *)
theory DependencyInfo
  imports Prelude "HOL-Library.Sublist"
begin

text \<open>
  The parser of the binary dependency information of linkers,
  \<^verbatim>\<open>lib/Core/DependencyInfoParser.cpp\<close>: records of an opcode byte and a null-terminated
  operand, the version record first. The calls of the \<^verbatim>\<open>ParseActions\<close> are the returned events;
  a read at \<^verbatim>\<open>end\<close> (or the assertion that guards it) is \<^term>\<open>None\<close>.
\<close>

section \<open>The parser\<close>

datatype Opcode = OpVersion | OpInput | OpMissing | OpOutput | OpUnknown

definition opcode_of :: "byte \<Rightarrow> Opcode" where
  "opcode_of b =
     (if b = 0x00 then OpVersion else if b = 0x10 then OpInput
      else if b = 0x11 then OpMissing else if b = 0x40 then OpOutput else OpUnknown)"

datatype di_event =
    DiError string nat
  | DiVersion "byte list"
  | DiInput "byte list"
  | DiMissing "byte list"
  | DiOutput "byte list"

text \<open>The operand and the cursor behind its terminator.\<close>

fun scanOperand :: "byte list \<Rightarrow> (byte list \<times> byte list) option" where
  "scanOperand [] = None"
| "scanOperand (c # cur) =
     (if c = 0 then Some ([], cur)
      else map_option (\<lambda>(operand, rest). (c # operand, rest)) (scanOperand cur))"

text \<open>The event of a record at offset \<open>at\<close>; the \<^verbatim>\<open>break\<close>s leave the switch only.\<close>

definition recordEvent :: "byte \<Rightarrow> byte list \<Rightarrow> nat \<Rightarrow> di_event" where
  "recordEvent op operand at =
     (case opcode_of op of
        OpVersion \<Rightarrow> if at \<noteq> 0 then DiError ''invalid duplicate version'' at else DiVersion operand
      | OpInput \<Rightarrow> DiInput operand
      | OpMissing \<Rightarrow> DiMissing operand
      | OpOutput \<Rightarrow> DiOutput operand
      | OpUnknown \<Rightarrow> DiError ''unknown opcode in file'' at)"

lemma scanOperand_eq:
  "scanOperand cur = Some (operand, rest) \<longleftrightarrow> cur = operand @ 0 # rest \<and> 0 \<notin> set operand"
proof (induction cur arbitrary: operand)
  case (Cons c cur)
  then show ?case by (cases operand) auto
qed simp

function parseRecords :: "nat \<Rightarrow> byte list \<Rightarrow> di_event list option" where
  "parseRecords n cur =
     (case cur of
        [] \<Rightarrow> Some []
      | op # cur1 \<Rightarrow> do {
          (operand, cur2) \<leftarrow> scanOperand cur1;
          if operand = [] then Some [DiError ''empty operand'' (n - length cur)]
          else do {
            evs \<leftarrow> parseRecords n cur2;
            Some (recordEvent op operand (n - length cur) # evs)
          }
        })"
  by auto
termination
  by (relation "measure (length \<circ> snd)") (auto simp: scanOperand_eq)

declare parseRecords.simps [simp del]

definition parseDependencyInfo :: "byte list \<Rightarrow> di_event list option" where
  "parseDependencyInfo data =
     (if data = [] \<or> last data \<noteq> 0 then Some [DiError ''missing null terminator'' (length data)]
      else if opcode_of (hd data) \<noteq> OpVersion then Some [DiError ''missing version record'' 0]
      else parseRecords (length data) data)"

section \<open>Round trip\<close>

datatype di_record = RecInput "byte list" | RecMissing "byte list" | RecOutput "byte list"

fun di_print_record :: "di_record \<Rightarrow> byte list" where
  "di_print_record (RecInput p) = 0x10 # p @ [0]"
| "di_print_record (RecMissing p) = 0x11 # p @ [0]"
| "di_print_record (RecOutput p) = 0x40 # p @ [0]"

fun di_record_event :: "di_record \<Rightarrow> di_event" where
  "di_record_event (RecInput p) = DiInput p"
| "di_record_event (RecMissing p) = DiMissing p"
| "di_record_event (RecOutput p) = DiOutput p"

fun di_operand :: "di_record \<Rightarrow> byte list" where
  "di_operand (RecInput p) = p"
| "di_operand (RecMissing p) = p"
| "di_operand (RecOutput p) = p"

text \<open>A file as the linker writes it: the version, then the records.\<close>

definition di_print :: "byte list \<Rightarrow> di_record list \<Rightarrow> byte list" where
  "di_print version recs = 0 # version @ [0] @ concat (map di_print_record recs)"

definition operand_ok :: "byte list \<Rightarrow> bool" where
  "operand_ok p \<longleftrightarrow> p \<noteq> [] \<and> 0 \<notin> set p"

lemma parseRecords_Cons:
  assumes "operand_ok p"
  shows "parseRecords n (op # p @ 0 # rest)
    = map_option ((#) (recordEvent op p (n - (length p + length rest + 2)))) (parseRecords n rest)"
proof -
  have "scanOperand (p @ 0 # rest) = Some (p, rest)"
    using assms by (simp add: scanOperand_eq operand_ok_def)
  with assms show ?thesis
    by (subst parseRecords.simps) (cases "parseRecords n rest"; simp add: operand_ok_def)
qed

lemma parseRecords_records:
  "\<forall>r \<in> set recs. operand_ok (di_operand r) \<Longrightarrow>
    parseRecords n (concat (map di_print_record recs) @ rest)
      = map_option ((@) (map di_record_event recs)) (parseRecords n rest)"
proof (induction recs)
  case Nil
  then show ?case by (cases "parseRecords n rest") simp_all
next
  case (Cons r recs)
  then show ?case
    by (cases r; cases "parseRecords n rest")
      (simp_all add: parseRecords_Cons recordEvent_def opcode_of_def)
qed

lemma last_di_print: "last (di_print v recs) = 0"
proof (cases recs rule: rev_cases)
  case (snoc rs r)
  then show ?thesis by (cases r) (simp_all add: di_print_def)
qed (simp add: di_print_def)

lemma parseRecords_file:
  assumes "operand_ok v" "\<forall>r \<in> set recs. operand_ok (di_operand r)"
  shows "parseRecords (length (di_print v recs @ rest)) (di_print v recs @ rest)
    = map_option ((@) (DiVersion v # map di_record_event recs))
        (parseRecords (length (di_print v recs @ rest)) rest)"
proof -
  define n where "n = length (di_print v recs @ rest)"
  have "parseRecords n (0 # v @ 0 # concat (map di_print_record recs) @ rest)
    = map_option ((#) (DiVersion v)) (parseRecords n (concat (map di_print_record recs) @ rest))"
    using assms(1) by (simp add: parseRecords_Cons recordEvent_def opcode_of_def n_def di_print_def)
  then show ?thesis
    using parseRecords_records [OF assms(2), of n rest]
    unfolding n_def [symmetric] by (cases "parseRecords n rest") (simp_all add: di_print_def)
qed

text \<open>
  Round trip: a file with a version and any records with non-empty operands is reported
  record by record, in order and without an error.
\<close>

theorem dependency_info_roundtrip:
  assumes "operand_ok v" "\<forall>r \<in> set recs. operand_ok (di_operand r)"
  shows "parseDependencyInfo (di_print v recs) = Some (DiVersion v # map di_record_event recs)"
  using parseRecords_file [OF assms, of "[]"] last_di_print [of v recs]
  by (simp add: parseDependencyInfo_def parseRecords.simps [of _ "[]"])
    (simp add: di_print_def opcode_of_def)

lemma dependency_info_roundtrip_witness:
  "parseDependencyInfo (di_print [0x31] [RecInput [0x61], RecOutput [0x62]])
    = Some [DiVersion [0x31], DiInput [0x61], DiOutput [0x62]]"
  using dependency_info_roundtrip [of "[0x31]" "[RecInput [0x61], RecOutput [0x62]]"]
  by (simp add: operand_ok_def)

section \<open>Malformed files\<close>

text \<open>
  The check that the file ends with a null byte does not keep the scan inside the file:
  when the last byte is itself read as an opcode, the operand is looked for behind the end.
  (The comment in the loop says that this can never happen.)
\<close>

theorem dependency_info_overrun:
  assumes "operand_ok v" "\<forall>r \<in> set recs. operand_ok (di_operand r)"
  shows "parseDependencyInfo (di_print v recs @ [0]) = None"
proof -
  have "parseRecords n [0] = None" for n by (simp add: parseRecords.simps)
  with parseRecords_file [OF assms, of "[0]"] show ?thesis
    by (simp add: parseDependencyInfo_def) (simp add: di_print_def opcode_of_def)
qed

lemma dependency_info_overrun_witness: "parseDependencyInfo (di_print [0x31] [] @ [0]) = None"
  by (rule dependency_info_overrun) (simp_all add: operand_ok_def)

text \<open>The position an error event carries.\<close>

fun di_position :: "di_event \<Rightarrow> nat option" where
  "di_position (DiError msg at) = Some at"
| "di_position _ = None"

lemma recordEvent_position: "di_position (recordEvent op p at) \<in> {None, Some at}"
  by (simp add: recordEvent_def split: Opcode.split)

text \<open>Records follow one another in the file, so errors are reported at increasing offsets.\<close>

lemma parseRecords_positions:
  "parseRecords n cur = Some evs \<Longrightarrow> length cur \<le> n \<Longrightarrow>
    sorted_wrt (<) (List.map_filter di_position evs)
    \<and> (\<forall>at \<in> set (List.map_filter di_position evs). n - length cur \<le> at \<and> at < n)"
proof (induction n cur arbitrary: evs rule: parseRecords.induct)
  case (1 n cur)
  show ?case
  proof (cases cur)
    case Nil
    with 1(2) show ?thesis by (simp add: parseRecords.simps [of n "[]"] List.map_filter_simps)
  next
    case (Cons op cur1)
    with 1(2) obtain p rest where p: "scanOperand cur1 = Some (p, rest)"
      by (auto simp: parseRecords.simps [of n "op # cur1"] split: bind_splits)
    let ?ev = "recordEvent op p (n - length cur)"
    from p have len: "length cur = length p + length rest + 2"
      using Cons by (simp add: scanOperand_eq)
    show ?thesis
    proof (cases "p = []")
      case True
      with 1(2,3) p Cons show ?thesis
        by (auto simp: parseRecords.simps [of n "op # cur1"] List.map_filter_simps)
    next
      case False
      with 1(2) p Cons obtain evs' where evs: "parseRecords n rest = Some evs'" "evs = ?ev # evs'"
        by (auto simp: parseRecords.simps [of n "op # cur1"] split: bind_splits)
      from 1(1) [OF Cons p refl False evs(1)] 1(3) len
      have IH: "sorted_wrt (<) (List.map_filter di_position evs')"
        "\<forall>at \<in> set (List.map_filter di_position evs'). n - length rest \<le> at \<and> at < n" by auto
      with evs(2) len 1(3) recordEvent_position [of op p "n - length cur"] False show ?thesis
        by (fastforce simp: List.map_filter_simps)
    qed
  qed
qed

text \<open>
  Errors are reported in file order, each at a different position, and never behind the
  end of the data.
\<close>

theorem dependency_info_error_positions:
  assumes "parseDependencyInfo data = Some evs"
  shows "sorted_wrt (<) (List.map_filter di_position evs)
    \<and> list_all (\<lambda>at. at \<le> length data) (List.map_filter di_position evs)"
proof (cases "data = [] \<or> last data \<noteq> 0 \<or> opcode_of (hd data) \<noteq> OpVersion")
  case True
  with assms show ?thesis
    by (auto simp: parseDependencyInfo_def List.map_filter_simps split: if_splits)
next
  case False
  with assms have "parseRecords (length data) data = Some evs"
    by (simp add: parseDependencyInfo_def)
  from parseRecords_positions [OF this] show ?thesis by (auto simp: list_all_iff)
qed

lemma dependency_info_error_positions_witness:
  "sorted_wrt (<) (List.map_filter di_position
      [DiVersion [1], DiError ''unknown opcode in file'' 3, DiError ''empty operand'' 6])
    \<and> list_all (\<lambda>at. at \<le> 8) (List.map_filter di_position
        [DiVersion [1], DiError ''unknown opcode in file'' 3, DiError ''empty operand'' 6])"
proof -
  have "parseDependencyInfo [0, 1, 0, 9, 1, 0, 0x10, 0]
      = Some [DiVersion [1], DiError ''unknown opcode in file'' 3, DiError ''empty operand'' 6]"
    by code_simp
  from dependency_info_error_positions [OF this] show ?thesis by simp
qed

end
