(* ===== verification/NinjaLexer.thy ===== *)
theory NinjaLexer
  imports Prelude "HOL-Library.Sublist"
begin

text \<open>
  The lexer of Ninja manifests, \<^verbatim>\<open>lib/Ninja/Lexer.cpp\<close> and
  \<^verbatim>\<open>lib/Ninja/include/llbuild/Ninja/Lexer.h\<close>.

  A pointer into the buffer is the list of the bytes from it to the end of the buffer, so
  \<^verbatim>\<open>bufferPos - result.start\<close> is a difference of lengths. Characters are compared as the
  code compares them, as \<^verbatim>\<open>int\<close>s made from a signed \<^verbatim>\<open>char\<close> (with \<^verbatim>\<open>-1\<close> for the end of the
  file); \<^verbatim>\<open>isspace\<close> is the C locale's, false on negative values. The buffer is an
  \<^verbatim>\<open>llvm::MemoryBuffer\<close>, so the byte behind its end is a null byte.
\<close>

section \<open>Characters\<close>

definition char_int :: "char \<Rightarrow> int" where
  "char_int c = (let n = of_char c in if n < 128 then n else n - 256)"

definition isspace :: "int \<Rightarrow> bool" where
  "isspace c \<longleftrightarrow> 9 \<le> c \<and> c \<le> 13 \<or> c = 32"

definition isNonNewlineSpace :: "int \<Rightarrow> bool" where
  "isNonNewlineSpace c \<longleftrightarrow> isspace c \<and> c \<noteq> 10 \<and> c \<noteq> 13"

definition isSimpleIdentifierChar :: "int \<Rightarrow> bool" where
  "isSimpleIdentifierChar c \<longleftrightarrow>
     97 \<le> c \<and> c \<le> 122 \<or> 65 \<le> c \<and> c \<le> 90 \<or> 48 \<le> c \<and> c \<le> 57 \<or> c = 95 \<or> c = 45"

definition isIdentifierChar :: "int \<Rightarrow> bool" where
  "isIdentifierChar c \<longleftrightarrow>
     97 \<le> c \<and> c \<le> 122 \<or> 65 \<le> c \<and> c \<le> 90 \<or> 48 \<le> c \<and> c \<le> 57 \<or> c = 95 \<or> c = 46 \<or> c = 45"

section \<open>Tokens and the lexer state\<close>

datatype TokenKind =
    Colon | Comment | EndOfFile | Equals | Indentation | Identifier | KWBuild | KWDefault
  | KWInclude | KWPool | KWRule | KWSubninja | Newline | Pipe | PipePipe | StringTok | Unknown

record Token =
  tok_start :: string
  tokenKind :: TokenKind
  tok_length :: nat
  tok_line :: nat
  tok_column :: nat

text \<open>\<^verbatim>\<open>StringRef(tok.start, tok.length)\<close>\<close>

definition tok_text :: "Token \<Rightarrow> string" where
  "tok_text t = take (tok_length t) (tok_start t)"

primrec getKindName :: "TokenKind \<Rightarrow> string" where
  "getKindName Colon = ''Colon''"
| "getKindName Comment = ''Comment''"
| "getKindName EndOfFile = ''EndOfFile''"
| "getKindName Equals = ''Equals''"
| "getKindName Identifier = ''Identifier''"
| "getKindName Indentation = ''Indentation''"
| "getKindName KWBuild = ''KWBuild''"
| "getKindName KWDefault = ''KWDefault''"
| "getKindName KWInclude = ''KWInclude''"
| "getKindName KWPool = ''KWPool''"
| "getKindName KWRule = ''KWRule''"
| "getKindName KWSubninja = ''KWSubninja''"
| "getKindName Newline = ''Newline''"
| "getKindName Pipe = ''Pipe''"
| "getKindName PipePipe = ''PipePipe''"
| "getKindName StringTok = ''String''"
| "getKindName Unknown = ''Unknown''"

definition isKeyword :: "Token \<Rightarrow> bool" where
  "isKeyword t \<longleftrightarrow>
     tokenKind t \<in> {KWBuild, KWDefault, KWInclude, KWPool, KWRule, KWSubninja}"

datatype LexingMode = ModeNone | IdentifierSpecific | PathString | VariableString

record Lexer =
  bufferPos :: string
  lineNumber :: nat
  columnNumber :: nat
  lex_mode :: LexingMode

definition newLexer :: "string \<Rightarrow> Lexer" where
  "newLexer buffer = \<lparr>bufferPos = buffer, lineNumber = 1, columnNumber = 0, lex_mode = ModeNone\<rparr>"

definition setMode :: "LexingMode \<Rightarrow> Lexer \<Rightarrow> Lexer" where
  "setMode m l = l\<lparr>lex_mode := m\<rparr>"

section \<open>Reading characters\<close>

definition peekNextChar :: "Lexer \<Rightarrow> int" where
  "peekNextChar l = (case bufferPos l of [] \<Rightarrow> -1 | c # _ \<Rightarrow> char_int c)"

definition getNextChar :: "Lexer \<Rightarrow> int \<times> Lexer" where
  "getNextChar l =
     (case bufferPos l of
        [] \<Rightarrow> (-1, l)
      | c # cs \<Rightarrow>
          if c = CHR 0x0A \<or> c = CHR 0x0D
          then (let other = (if c = CHR 0x0A then CHR 0x0D else CHR 0x0A);
                    cs' = (if cs \<noteq> [] \<and> hd cs = other then tl cs else cs)
                in (10, l\<lparr>bufferPos := cs', lineNumber := lineNumber l + 1, columnNumber := 0\<rparr>))
          else (char_int c, l\<lparr>bufferPos := cs, columnNumber := columnNumber l + 1\<rparr>))"

definition skipChar :: "Lexer \<Rightarrow> Lexer" where
  "skipChar l = snd (getNextChar l)"

lemma skipChar_suffix: "suffix (bufferPos (skipChar l)) (bufferPos l)"
  by (auto simp: skipChar_def getNextChar_def Let_def suffix_tl split: list.split
    intro: suffix_ConsI)

lemma skipChar_mode [simp]: "lex_mode (skipChar l) = lex_mode l"
  by (simp add: skipChar_def getNextChar_def Let_def split: list.split)

lemma skipChar_less: "bufferPos l \<noteq> [] \<Longrightarrow> length (bufferPos (skipChar l)) < length (bufferPos l)"
  by (auto simp: skipChar_def getNextChar_def Let_def neq_Nil_conv)

lemma peek_nonempty: "peekNextChar l \<noteq> -1 \<Longrightarrow> bufferPos l \<noteq> []"
  by (auto simp: peekNextChar_def)

text \<open>The loops \<^verbatim>\<open>while (P(peekNextChar())) getNextChar()\<close>.\<close>

function skipWhile :: "(int \<Rightarrow> bool) \<Rightarrow> Lexer \<Rightarrow> Lexer" where
  "skipWhile P l =
     (if bufferPos l \<noteq> [] \<and> P (peekNextChar l) then skipWhile P (skipChar l) else l)"
  by auto
termination
  by (relation "measure (\<lambda>(_, l). length (bufferPos l))") (auto simp: skipChar_less)

declare skipWhile.simps [simp del]

lemma skipWhile_mode [simp]: "lex_mode (skipWhile P l) = lex_mode l"
  by (induction P l rule: skipWhile.induct) (subst skipWhile.simps, simp)

lemma skipWhile_suffix: "suffix (bufferPos (skipWhile P l)) (bufferPos l)"
proof (induction P l rule: skipWhile.induct)
  case (1 P l)
  then show ?case
    using skipChar_suffix [of l] by (subst skipWhile.simps) (auto intro: suffix_order.trans)
qed

definition skipToEndOfLine :: "Lexer \<Rightarrow> Lexer" where
  "skipToEndOfLine l = skipWhile (\<lambda>c. \<not> (c = -1 \<or> c = 10 \<or> c = 13)) l"

section \<open>Tokens\<close>

definition setTokenKind :: "Token \<Rightarrow> TokenKind \<Rightarrow> Lexer \<Rightarrow> Token \<times> Lexer" where
  "setTokenKind result kind l =
     (result\<lparr>tokenKind := kind, tok_length := length (tok_start result) - length (bufferPos l)\<rparr>, l)"

definition setIdentifierTokenKind :: "Token \<Rightarrow> Lexer \<Rightarrow> Token \<times> Lexer" where
  "setIdentifierTokenKind result l =
     (let len = length (tok_start result) - length (bufferPos l);
          start = tok_start result
      in if len = 4 \<and> take 4 start = ''rule'' then setTokenKind result KWRule l
         else if len = 4 \<and> take 4 start = ''pool'' then setTokenKind result KWPool l
         else if len = 5 \<and> take 5 start = ''build'' then setTokenKind result KWBuild l
         else if len = 7 \<and> take 7 start = ''default'' then setTokenKind result KWDefault l
         else if len = 7 \<and> take 7 start = ''include'' then setTokenKind result KWInclude l
         else if len = 8 \<and> take 7 start = ''subninj'' then setTokenKind result KWSubninja l
         else setTokenKind result Identifier l)"

definition lexIdentifier :: "Token \<Rightarrow> Lexer \<Rightarrow> Token \<times> Lexer" where
  "lexIdentifier result l =
     (let l = skipWhile isIdentifierChar l
      in if lex_mode l = IdentifierSpecific then setTokenKind result Identifier l
         else setIdentifierTokenKind result l)"

function pathLoop :: "Lexer \<Rightarrow> Lexer" where
  "pathLoop l =
     (let c = peekNextChar l in
      if c = 36 then
        (case getNextChar (skipChar l) of
           (c, l) \<Rightarrow> pathLoop (if c = 10 then skipWhile isNonNewlineSpace l else l))
      else if isspace c \<or> c = 58 \<or> c = 124 \<or> c = -1 then l
      else pathLoop (skipChar l))"
  by auto
termination
proof (relation "measure (\<lambda>l. length (bufferPos l))", goal_cases)
  case (2 l c c' l')
  from 2 have ne: "bufferPos l \<noteq> []" by (intro peek_nonempty) auto
  have "l' = skipChar (skipChar l)" using 2 by (metis skipChar_def snd_conv)
  moreover have "length (bufferPos (skipChar (skipChar l))) \<le> length (bufferPos (skipChar l))"
    by (rule suffix_length_le [OF skipChar_suffix])
  moreover note skipChar_less [OF ne] suffix_length_le [OF skipWhile_suffix [of isNonNewlineSpace l']]
  ultimately show ?case by auto
next
  case (3 l c)
  then show ?case using peek_nonempty [of l] by (auto intro: skipChar_less)
qed simp

declare pathLoop.simps [simp del]

definition lexPathString :: "Token \<Rightarrow> Lexer \<Rightarrow> Token \<times> Lexer" where
  "lexPathString result l = setTokenKind result StringTok (pathLoop l)"

function variableLoop :: "Lexer \<Rightarrow> Lexer" where
  "variableLoop l =
     (let c = peekNextChar l in
      if c = 36 then variableLoop (skipChar (skipChar l))
      else if c = 10 \<or> c = -1 \<or> c = 13 then l
      else variableLoop (skipChar l))"
  by auto
termination
proof (relation "measure (\<lambda>l. length (bufferPos l))", goal_cases)
  case (2 l c)
  then have "bufferPos l \<noteq> []" by (intro peek_nonempty) auto
  from skipChar_less [OF this] suffix_length_le [OF skipChar_suffix [of "skipChar l"]]
  show ?case by auto
next
  case (3 l c)
  then show ?case using peek_nonempty [of l] by (auto intro: skipChar_less)
qed simp

declare variableLoop.simps [simp del]

definition lexVariableString :: "Token \<Rightarrow> Lexer \<Rightarrow> Token \<times> Lexer" where
  "lexVariableString result l = setTokenKind result StringTok (variableLoop l)"

text \<open>The byte at an index behind the cursor.\<close>

definition byteAt :: "string \<Rightarrow> nat \<Rightarrow> char" where
  "byteAt s i = (if i < length s then s ! i else CHR 0x00)"

definition newlineEscape :: "Lexer \<Rightarrow> bool" where
  "newlineEscape l \<longleftrightarrow>
     length (bufferPos l) \<noteq> 1 \<and> byteAt (bufferPos l) 1 = CHR 0x0A
     \<or> length (bufferPos l) \<noteq> 2 \<and> byteAt (bufferPos l) 1 = CHR 0x0D
       \<and> byteAt (bufferPos l) 2 = CHR 0x0A"

function skipLeading :: "Lexer \<Rightarrow> Lexer" where
  "skipLeading l =
     (let c = peekNextChar l in
      if c = 36 \<and> columnNumber l \<noteq> 0 then
        (if newlineEscape l then skipLeading (skipChar (skipChar l)) else l)
      else if isNonNewlineSpace c then skipLeading (skipChar l)
      else l)"
  by auto
termination
proof (relation "measure (\<lambda>l. length (bufferPos l))", goal_cases)
  case (2 l c)
  then have "bufferPos l \<noteq> []" by (intro peek_nonempty) auto
  from skipChar_less [OF this] suffix_length_le [OF skipChar_suffix [of "skipChar l"]]
  show ?case by auto
next
  case (3 l c)
  then have "bufferPos l \<noteq> []"
    by (intro peek_nonempty) (auto simp: isNonNewlineSpace_def isspace_def)
  then show ?case by (auto intro: skipChar_less)
qed simp

declare skipLeading.simps [simp del]

text \<open>A token that starts at the cursor; its kind and length are set later.\<close>

definition newToken :: "Lexer \<Rightarrow> Token" where
  "newToken l = \<lparr>tok_start = bufferPos l, tokenKind = Unknown, tok_length = 0,
     tok_line = lineNumber l, tok_column = columnNumber l\<rparr>"

text \<open>\<^verbatim>\<open>Lexer::lex\<close>, after the leading space.\<close>

definition lexToken :: "Lexer \<Rightarrow> Token \<times> Lexer" where
  "lexToken l =
     (let c = peekNextChar l; result = newToken l in
      if c = 10 \<or> c = 13 then setTokenKind result Newline (skipChar l)
      else if c = -1 then setTokenKind result EndOfFile l
      else if lex_mode l = VariableString then lexVariableString result l
      else if lex_mode l = PathString \<and> c \<noteq> 58 \<and> c \<noteq> 124 then lexPathString result l
      else
        let l = skipChar l in
        if c = 58 then setTokenKind result Colon l
        else if c = 61 then setTokenKind result Equals l
        else if c = 35 then setTokenKind result Comment (skipToEndOfLine l)
        else if c = 124 then
          (if peekNextChar l = 124 then setTokenKind result PipePipe (skipChar l)
           else setTokenKind result Pipe l)
        else if isIdentifierChar c then lexIdentifier result l
        else setTokenKind result Unknown l)"

definition lex :: "Lexer \<Rightarrow> Token \<times> Lexer" where
  "lex l =
     (if isNonNewlineSpace (peekNextChar l) \<and> columnNumber l = 0
      then setTokenKind (newToken l) Indentation (skipWhile isNonNewlineSpace (skipChar l))
      else lexToken (skipLeading l))"

section \<open>Progress\<close>

lemma getNextChar_skip: "getNextChar l = (fst (getNextChar l), skipChar l)"
  by (simp add: skipChar_def)

lemma pathLoop_props:
  "suffix (bufferPos (pathLoop l)) (bufferPos l) \<and> lex_mode (pathLoop l) = lex_mode l"
proof (induction l rule: pathLoop.induct)
  case (1 l)
  let ?l2 = "skipChar (skipChar l)"
  have s2: "suffix (bufferPos ?l2) (bufferPos l)"
    using skipChar_suffix suffix_order.trans by blast
  show ?case
  proof (cases "peekNextChar l = 36")
    case True
    let ?l3 = "if fst (getNextChar (skipChar l)) = 10 then skipWhile isNonNewlineSpace ?l2 else ?l2"
    from True have "pathLoop l = pathLoop ?l3"
      by (subst pathLoop.simps) (simp add: Let_def case_prod_beta skipChar_def)
    moreover from 1(1) [OF refl True getNextChar_skip [symmetric]]
    have "suffix (bufferPos (pathLoop ?l3)) (bufferPos ?l3)" "lex_mode (pathLoop ?l3) = lex_mode ?l3"
      by simp_all
    moreover have "suffix (bufferPos ?l3) (bufferPos l)"
      using s2 skipWhile_suffix [of isNonNewlineSpace ?l2] suffix_order.trans by auto
    ultimately show ?thesis by (auto intro: suffix_order.trans split: if_splits)
  next
    case False
    show ?thesis
    proof (cases "isspace (peekNextChar l) \<or> peekNextChar l = 58 \<or> peekNextChar l = 124
        \<or> peekNextChar l = -1")
      case True
      with False have "pathLoop l = l" by (subst pathLoop.simps) (simp add: Let_def)
      then show ?thesis by simp
    next
      case stop: False
      with False have "pathLoop l = pathLoop (skipChar l)"
        by (subst pathLoop.simps) (simp add: Let_def)
      with 1(2) [OF refl False stop] skipChar_suffix [of l] show ?thesis
        by (auto intro: suffix_order.trans)
    qed
  qed
qed

lemma variableLoop_props:
  "suffix (bufferPos (variableLoop l)) (bufferPos l) \<and> lex_mode (variableLoop l) = lex_mode l"
proof (induction l rule: variableLoop.induct)
  case (1 l)
  then show ?case
    using skipChar_suffix [of l] skipChar_suffix [of "skipChar l"]
    by (subst (1 2) variableLoop.simps) (auto simp: Let_def intro: suffix_order.trans)
qed

lemma skipLeading_props:
  "suffix (bufferPos (skipLeading l)) (bufferPos l) \<and> lex_mode (skipLeading l) = lex_mode l"
proof (induction l rule: skipLeading.induct)
  case (1 l)
  then show ?case
    using skipChar_suffix [of l] skipChar_suffix [of "skipChar l"]
    by (subst (1 2) skipLeading.simps) (auto simp: Let_def intro: suffix_order.trans)
qed

text \<open>The loops that start a string token consume its first character.\<close>

lemma variableLoop_less:
  assumes "\<not> (peekNextChar l = 10 \<or> peekNextChar l = 13 \<or> peekNextChar l = -1)"
  shows "length (bufferPos (variableLoop l)) < length (bufferPos l)"
proof -
  from assms have ne: "bufferPos l \<noteq> []" by (intro peek_nonempty) auto
  have "length (bufferPos (variableLoop l)) \<le> length (bufferPos (skipChar l))"
    using assms suffix_length_le [OF conjunct1 [OF variableLoop_props [of "skipChar l"]]]
      suffix_length_le [OF conjunct1 [OF variableLoop_props [of "skipChar (skipChar l)"]]]
      suffix_length_le [OF skipChar_suffix [of "skipChar l"]]
    by (subst variableLoop.simps) (auto simp: Let_def)
  with skipChar_less [OF ne] show ?thesis by simp
qed

lemma pathLoop_less:
  assumes "\<not> (isspace (peekNextChar l) \<or> peekNextChar l = 58 \<or> peekNextChar l = 124
    \<or> peekNextChar l = -1)"
  shows "length (bufferPos (pathLoop l)) < length (bufferPos l)"
proof -
  from assms have ne: "bufferPos l \<noteq> []" by (intro peek_nonempty) auto
  let ?l2 = "skipChar (skipChar l)"
  have "length (bufferPos (pathLoop l)) \<le> length (bufferPos (skipChar l))"
  proof (cases "peekNextChar l = 36")
    case True
    let ?l3 = "if fst (getNextChar (skipChar l)) = 10 then skipWhile isNonNewlineSpace ?l2 else ?l2"
    from True have "pathLoop l = pathLoop ?l3"
      by (subst pathLoop.simps) (simp add: Let_def case_prod_beta skipChar_def)
    moreover have "length (bufferPos ?l3) \<le> length (bufferPos (skipChar l))"
      using suffix_length_le [OF skipWhile_suffix [of isNonNewlineSpace ?l2]]
        suffix_length_le [OF skipChar_suffix [of "skipChar l"]] by auto
    ultimately show ?thesis
      using suffix_length_le [OF conjunct1 [OF pathLoop_props [of ?l3]]] by (metis order_trans)
  next
    case False
    with assms have "pathLoop l = pathLoop (skipChar l)"
      by (subst pathLoop.simps) (simp add: Let_def)
    then show ?thesis
      using suffix_length_le [OF conjunct1 [OF pathLoop_props [of "skipChar l"]]] by simp
  qed
  with skipChar_less [OF ne] show ?thesis by simp
qed

text \<open>What \<^verbatim>\<open>lexToken\<close> leaves: a suffix of the buffer in the same mode, shorter unless at the end.\<close>

definition consumed :: "Lexer \<Rightarrow> Token \<times> Lexer \<Rightarrow> bool" where
  "consumed l r \<longleftrightarrow>
     suffix (bufferPos (snd r)) (bufferPos l) \<and> lex_mode (snd r) = lex_mode l
     \<and> (tokenKind (fst r) \<noteq> EndOfFile \<longrightarrow> length (bufferPos (snd r)) < length (bufferPos l))"

lemma consumed_setTokenKind:
  assumes "suffix (bufferPos l') (bufferPos (skipChar l))" "lex_mode l' = lex_mode l" "bufferPos l \<noteq> []"
  shows "consumed l (setTokenKind t k l')"
  using assms skipChar_suffix [of l] skipChar_less [OF assms(3)] suffix_length_le [OF assms(1)]
  by (auto simp: consumed_def setTokenKind_def intro: suffix_order.trans)

lemma consumed_string:
  assumes "suffix (bufferPos l') (bufferPos l)" "lex_mode l' = lex_mode l"
    "length (bufferPos l') < length (bufferPos l)"
  shows "consumed l (setTokenKind t k l')"
  using assms by (simp add: consumed_def setTokenKind_def)

lemma consumed_identifier: "bufferPos l \<noteq> [] \<Longrightarrow> consumed l (lexIdentifier t (skipChar l))"
  by (auto simp: lexIdentifier_def setIdentifierTokenKind_def Let_def
    intro!: consumed_setTokenKind skipWhile_suffix)

text \<open>\<open>lexToken\<close> is never called in front of a blank, which \<^verbatim>\<open>lexPathString\<close> would not consume.\<close>

lemma lexToken_consumed:
  assumes "\<not> isNonNewlineSpace (peekNextChar l)"
  shows "consumed l (lexToken l)"
proof (cases "peekNextChar l = -1")
  case True
  then show ?thesis by (simp add: lexToken_def Let_def consumed_def setTokenKind_def)
next
  case False
  then have ne: "bufferPos l \<noteq> []" by (rule peek_nonempty)
  let ?c = "peekNextChar l"
  consider "?c = 10 \<or> ?c = 13"
    | "?c \<noteq> 10" "?c \<noteq> 13" "lex_mode l = VariableString"
    | "?c \<noteq> 10" "?c \<noteq> 13" "lex_mode l = PathString" "?c \<noteq> 58" "?c \<noteq> 124"
    | "?c \<noteq> 10" "?c \<noteq> 13" "lex_mode l \<noteq> VariableString"
      "\<not> (lex_mode l = PathString \<and> ?c \<noteq> 58 \<and> ?c \<noteq> 124)" by blast
  then show ?thesis
  proof cases
    case 1
    then show ?thesis using ne
      by (auto simp: lexToken_def Let_def intro!: consumed_setTokenKind)
  next
    case 2
    then show ?thesis using False variableLoop_props [of l] variableLoop_less [of l]
      by (auto simp: lexToken_def Let_def lexVariableString_def intro!: consumed_string)
  next
    case 3
    then show ?thesis using False assms pathLoop_props [of l] pathLoop_less [of l]
      by (auto simp: lexToken_def Let_def lexPathString_def isNonNewlineSpace_def intro!: consumed_string)
  next
    case 4
    with False ne show ?thesis
      by (auto simp: lexToken_def Let_def skipToEndOfLine_def consumed_identifier skipChar_suffix
        intro!: consumed_setTokenKind skipWhile_suffix)
  qed
qed

lemma skipLeading_stops: "\<not> isNonNewlineSpace (peekNextChar (skipLeading l))"
proof (induction l rule: skipLeading.induct)
  case (1 l)
  show ?case
  proof (cases "peekNextChar l = 36 \<and> columnNumber l \<noteq> 0")
    case True
    with 1(1) [OF refl True] show ?thesis
      by (cases "newlineEscape l")
        (simp_all add: skipLeading.simps [of l] isNonNewlineSpace_def isspace_def)
  next
    case False
    with 1(2) [OF refl False] show ?thesis
      by (cases "isNonNewlineSpace (peekNextChar l)") (auto simp: skipLeading.simps [of l] Let_def)
  qed
qed

lemma lex_consumed: "consumed l (lex l)"
proof (cases "isNonNewlineSpace (peekNextChar l) \<and> columnNumber l = 0")
  case True
  then have "bufferPos l \<noteq> []"
    by (intro peek_nonempty) (auto simp: isNonNewlineSpace_def isspace_def)
  with True show ?thesis
    by (auto simp: lex_def intro!: consumed_setTokenKind skipWhile_suffix)
next
  case False
  from lexToken_consumed [OF skipLeading_stops [of l]] skipLeading_props [of l]
  have "consumed l (lexToken (skipLeading l))"
    using suffix_length_le [OF conjunct1 [OF skipLeading_props [of l]]]
    by (auto simp: consumed_def intro: suffix_order.trans)
  with False show ?thesis by (auto simp: lex_def)
qed

end
