(* ===== verification/NinjaParser.thy ===== *)
theory NinjaParser
  imports NinjaLexer
begin

text \<open>
  The parser of Ninja manifests, \<^verbatim>\<open>lib/Ninja/Parser.cpp\<close>. The calls of the \<^verbatim>\<open>ParseActions\<close>
  interface are the events the parser returns, in order; the declarations that the actions
  return are only handed back to them, so an event of a binding or of an end belongs to the
  last declaration begun. A failed assertion is \<^term>\<open>None\<close>.
\<close>

section \<open>Parser state and events\<close>

datatype ninja_event =
    ParseError string Token
  | BeginManifest
  | EndManifest
  | BindingDecl Token Token
  | DefaultDecl "Token list"
  | IncludeDecl bool Token
  | BeginBuildDecl Token "Token list" "Token list" nat nat nat
  | BuildBindingDecl Token Token
  | EndBuildDecl Token
  | BeginPoolDecl Token
  | PoolBindingDecl Token Token
  | EndPoolDecl Token
  | BeginRuleDecl Token
  | RuleBindingDecl Token Token
  | EndRuleDecl Token

record Parser =
  p_lexer :: Lexer
  p_tok :: Token

abbreviation p_kind :: "Parser \<Rightarrow> TokenKind" where
  "p_kind p \<equiv> tokenKind (p_tok p)"

abbreviation p_mode :: "Parser \<Rightarrow> LexingMode" where
  "p_mode p \<equiv> lex_mode (p_lexer p)"

definition lexTok :: "Parser \<Rightarrow> Parser" where
  "lexTok p = (case lex (p_lexer p) of (t, l) \<Rightarrow> p\<lparr>p_lexer := l, p_tok := t\<rparr>)"

definition p_setMode :: "LexingMode \<Rightarrow> Parser \<Rightarrow> Parser" where
  "p_setMode m p = p\<lparr>p_lexer := setMode m (p_lexer p)\<rparr>"

text \<open>
  What is left to parse: the rest of the buffer, and the current token unless it is the end.
  Every token consumed before the end makes it smaller.
\<close>

definition p_left :: "Parser \<Rightarrow> nat" where
  "p_left p = length (bufferPos (p_lexer p)) + (if p_kind p = EndOfFile then 0 else 1)"

lemma lexTok_props:
  "p_mode (lexTok p) = p_mode p"
  "p_kind p \<noteq> EndOfFile \<Longrightarrow> p_left (lexTok p) < p_left p"
  "length (bufferPos (p_lexer (lexTok p))) \<le> length (bufferPos (p_lexer p))"
  "p_kind (lexTok p) \<noteq> EndOfFile \<Longrightarrow>
    length (bufferPos (p_lexer (lexTok p))) < length (bufferPos (p_lexer p))"
  using lex_consumed [of "p_lexer p"] suffix_length_le [of "bufferPos (snd (lex (p_lexer p)))"
    "bufferPos (p_lexer p)"]
  by (auto simp: lexTok_def p_left_def consumed_def case_prod_beta)

lemma p_setMode_simps [simp]:
  "p_tok (p_setMode m p) = p_tok p" "p_mode (p_setMode m p) = m" "p_left (p_setMode m p) = p_left p"
  "bufferPos (p_lexer (p_setMode m p)) = bufferPos (p_lexer p)"
  by (simp_all add: p_setMode_def setMode_def p_left_def)

function getNextNonCommentToken :: "Parser \<Rightarrow> Parser" where
  "getNextNonCommentToken p =
     (let p = lexTok p in if p_kind p = Comment then getNextNonCommentToken p else p)"
  by auto
termination
  by (relation "measure (\<lambda>p. length (bufferPos (p_lexer p)))") (auto intro!: lexTok_props(4))

declare getNextNonCommentToken.simps [simp del]

definition consumeToken :: "Parser \<Rightarrow> Parser" where
  "consumeToken p = getNextNonCommentToken p"

definition consumeExpectedToken :: "TokenKind \<Rightarrow> Parser \<Rightarrow> (Token \<times> Parser) option" where
  "consumeExpectedToken kind p = do {
     assert_that (p_kind p = kind);
     Some (p_tok p, getNextNonCommentToken p)
   }"

definition consumeIfToken :: "TokenKind \<Rightarrow> Parser \<Rightarrow> bool \<times> Parser" where
  "consumeIfToken kind p =
     (if p_kind p = kind then (True, getNextNonCommentToken p) else (False, p))"

lemma next_props:
  "p_mode (getNextNonCommentToken p) = p_mode p
    \<and> length (bufferPos (p_lexer (getNextNonCommentToken p))) \<le> length (bufferPos (p_lexer p))
    \<and> (p_kind (getNextNonCommentToken p) \<noteq> EndOfFile \<longrightarrow>
        length (bufferPos (p_lexer (getNextNonCommentToken p))) < length (bufferPos (p_lexer p)))"
proof (induction p rule: getNextNonCommentToken.induct)
  case (1 p)
  then show ?case
    using lexTok_props(1,3,4) [of p]
    by (subst (1 2 3 4) getNextNonCommentToken.simps) (fastforce simp: Let_def)
qed

lemma next_mode [simp]: "p_mode (getNextNonCommentToken p) = p_mode p"
  using next_props by blast

lemma next_left: "p_kind p \<noteq> EndOfFile \<Longrightarrow> p_left (getNextNonCommentToken p) < p_left p"
  using next_props [of p] by (auto simp: p_left_def)

lemma next_left_le: "p_left (getNextNonCommentToken p) \<le> p_left p"
  using next_props [of p] by (auto simp: p_left_def)

function skipToEOL :: "Parser \<Rightarrow> Parser" where
  "skipToEOL p =
     (if p_kind p \<noteq> Newline \<and> p_kind p \<noteq> EndOfFile then skipToEOL (lexTok p) else p)"
  by auto
termination
  by (relation "measure p_left") (auto intro: lexTok_props(2))

declare skipToEOL.simps [simp del]

definition skipPastEOL :: "Parser \<Rightarrow> Parser" where
  "skipPastEOL p = consumeToken (skipToEOL p)"

lemma skipToEOL_props: "p_mode (skipToEOL p) = p_mode p \<and> p_left (skipToEOL p) \<le> p_left p"
proof (induction p rule: skipToEOL.induct)
  case (1 p)
  then show ?case
    using lexTok_props(1,2) [of p] by (subst (1 2) skipToEOL.simps) fastforce
qed

lemma skipPastEOL_mode [simp]: "p_mode (skipPastEOL p) = p_mode p"
  by (simp add: skipPastEOL_def consumeToken_def skipToEOL_props)

lemma skipPastEOL_left: "p_kind p \<noteq> EndOfFile \<Longrightarrow> p_left (skipPastEOL p) < p_left p"
proof -
  assume p: "p_kind p \<noteq> EndOfFile"
  show ?thesis
  proof (cases "p_kind p = Newline")
    case True
    then show ?thesis
      using next_left [of p] by (simp add: skipPastEOL_def consumeToken_def skipToEOL.simps [of p])
  next
    case False
    with p have "skipToEOL p = skipToEOL (lexTok p)" by (subst skipToEOL.simps) simp
    with lexTok_props(2) [OF p] skipToEOL_props [of "lexTok p"] next_left_le [of "skipToEOL p"]
    show ?thesis by (simp add: skipPastEOL_def consumeToken_def)
  qed
qed

lemma skipPastEOL_left_le: "p_left (skipPastEOL p) \<le> p_left p"
  using skipToEOL_props [of p] next_left_le [of "skipToEOL p"]
  by (simp add: skipPastEOL_def consumeToken_def)

section \<open>Declarations\<close>

abbreviation squote :: string where "squote \<equiv> [CHR 0x27]"

text \<open>\<^verbatim>\<open>parseBindingInternal\<close>: the name and the value on success.\<close>

definition parseBindingInternal ::
  "Parser \<Rightarrow> (ninja_event list \<times> (Token \<times> Token) option \<times> Parser) option" where
  "parseBindingInternal p =
     (if p_kind p \<noteq> Identifier
      then Some ([ParseError ''expected variable name'' (p_tok p)], None,
                 skipPastEOL (p_setMode ModeNone p))
      else do {
        (name, p) \<leftarrow> consumeExpectedToken Identifier p;
        if p_kind p \<noteq> Equals
        then Some ([ParseError (''expected '' @ squote @ ''='' @ squote @ '' token'') (p_tok p)], None,
                   skipPastEOL (p_setMode ModeNone p))
        else do {
          (_, p) \<leftarrow> consumeExpectedToken Equals (p_setMode VariableString p);
          let p = p_setMode ModeNone p;
          if p_kind p = Newline
          then do {
            (val, p) \<leftarrow> consumeExpectedToken Newline p;
            Some ([], Some (name, val\<lparr>tokenKind := StringTok, tok_length := 0\<rparr>), p)
          }
          else if p_kind p \<noteq> StringTok
          then Some ([ParseError ''expected variable value'' (p_tok p)], None, skipPastEOL p)
          else do {
            (val, p) \<leftarrow> consumeExpectedToken StringTok p;
            (case consumeIfToken Newline p of
               (True, p) \<Rightarrow> Some ([], Some (name, val), p)
             | (False, p) \<Rightarrow> Some ([ParseError ''expected newline token'' (p_tok p)], None, skipPastEOL p))
          }
        }
      })"

definition parseBindingDecl :: "Parser \<Rightarrow> (ninja_event list \<times> Parser) option" where
  "parseBindingDecl p = do {
     (evs, r, p) \<leftarrow> parseBindingInternal p;
     Some (evs @ (case r of None \<Rightarrow> [] | Some (name, val) \<Rightarrow> [BindingDecl name val]), p)
   }"

text \<open>The loops \<^verbatim>\<open>while (tok.tokenKind == String) list.push_back(consumeExpectedToken(String))\<close>.\<close>

function parseStrings :: "Parser \<Rightarrow> (Token list \<times> Parser) option" where
  "parseStrings p =
     (if p_kind p = StringTok
      then do {
        (t, p1) \<leftarrow> consumeExpectedToken StringTok p;
        (ts, p2) \<leftarrow> parseStrings p1;
        Some (t # ts, p2)
      }
      else Some ([], p))"
  by auto
termination
  by (relation "measure p_left") (auto simp: consumeExpectedToken_def assert_that_def next_left)

declare parseStrings.simps [simp del]

definition parseDefaultDecl :: "Parser \<Rightarrow> (ninja_event list \<times> Parser) option" where
  "parseDefaultDecl p = do {
     (_, p) \<leftarrow> consumeExpectedToken KWDefault (p_setMode PathString p);
     (names, p) \<leftarrow> parseStrings p;
     let p = p_setMode ModeNone p;
     if names = [] then Some ([ParseError ''expected target path string'' (p_tok p)], skipPastEOL p)
     else (case consumeIfToken Newline p of
             (True, p) \<Rightarrow> Some ([DefaultDecl names], p)
           | (False, p) \<Rightarrow> Some ([ParseError ''expected newline token'' (p_tok p)], skipPastEOL p))
   }"

definition parseIncludeDecl :: "Parser \<Rightarrow> (ninja_event list \<times> Parser) option" where
  "parseIncludeDecl p = do {
     let isInclude = (p_kind p = KWInclude);
     (_, p) \<leftarrow> consumeExpectedToken (if isInclude then KWInclude else KWSubninja) (p_setMode PathString p);
     let p = p_setMode ModeNone p;
     if p_kind p \<noteq> StringTok
     then Some ([ParseError ''expected path string'' (p_tok p)], skipPastEOL p)
     else do {
       (path, p) \<leftarrow> consumeExpectedToken StringTok p;
       (case consumeIfToken Newline p of
          (True, p) \<Rightarrow> Some ([IncludeDecl isInclude path], p)
        | (False, p) \<Rightarrow> Some ([ParseError ''expected newline token'' (p_tok p)], skipPastEOL p))
     }
   }"

section \<open>Specifiers\<close>

text \<open>A failed specifier: the error, and the parser out of any specific mode.\<close>

definition specError :: "string \<Rightarrow> Parser \<Rightarrow> (ninja_event list \<times> bool \<times> Parser) option" where
  "specError msg p = Some ([ParseError msg (p_tok p)], False, p_setMode ModeNone p)"

text \<open>An optional list of strings behind a separator.\<close>

definition parseStringsAfter :: "TokenKind \<Rightarrow> Parser \<Rightarrow> (Token list \<times> Parser) option" where
  "parseStringsAfter kind p =
     (case consumeIfToken kind p of
        (True, p) \<Rightarrow> parseStrings p
      | (False, p) \<Rightarrow> Some ([], p))"

definition parseBuildSpecifier :: "Parser \<Rightarrow> (ninja_event list \<times> bool \<times> Parser) option" where
  "parseBuildSpecifier p = do {
     (_, p) \<leftarrow> consumeExpectedToken KWBuild (p_setMode PathString p);
     if p_kind p \<noteq> StringTok then specError ''expected output path string'' p
     else do {
       (outputs, p) \<leftarrow> parseStrings p;
       (implicitOutputs, p) \<leftarrow> parseStringsAfter Pipe p;
       if p_kind p \<noteq> Colon then specError (''expected '' @ squote @ '':'' @ squote @ '' token'') p
       else do {
         (_, p) \<leftarrow> consumeExpectedToken Colon (p_setMode IdentifierSpecific p);
         let p = p_setMode PathString p;
         if p_kind p \<noteq> Identifier then specError ''expected rule name identifier'' p
         else do {
           (name, p) \<leftarrow> consumeExpectedToken Identifier p;
           (explicitInputs, p) \<leftarrow> parseStrings p;
           (implicitInputs, p) \<leftarrow> parseStringsAfter Pipe p;
           (orderOnlyInputs, p) \<leftarrow> parseStringsAfter PipePipe p;
           let p = p_setMode ModeNone p;
           (case consumeIfToken Newline p of
              (False, p) \<Rightarrow> Some ([ParseError ''expected newline token'' (p_tok p)], False, p)
            | (True, p) \<Rightarrow>
                Some ([BeginBuildDecl name (outputs @ implicitOutputs)
                         (explicitInputs @ implicitInputs @ orderOnlyInputs)
                         (length explicitInputs) (length implicitInputs) (length outputs)], True, p))
         }
       }
     }
   }"

text \<open>\<^verbatim>\<open>parsePoolSpecifier\<close> and \<^verbatim>\<open>parseRuleSpecifier\<close> differ in the keyword, the message and the event.\<close>

definition parseNameSpecifier ::
  "TokenKind \<Rightarrow> string \<Rightarrow> (Token \<Rightarrow> ninja_event) \<Rightarrow> Parser
     \<Rightarrow> (ninja_event list \<times> bool \<times> Parser) option" where
  "parseNameSpecifier keyword msg ev p = do {
     (_, p) \<leftarrow> consumeExpectedToken keyword (p_setMode IdentifierSpecific p);
     let p = p_setMode ModeNone p;
     if p_kind p \<noteq> Identifier then Some ([ParseError msg (p_tok p)], False, p)
     else do {
       (name, p) \<leftarrow> consumeExpectedToken Identifier p;
       (case consumeIfToken Newline p of
          (False, p) \<Rightarrow> Some ([ParseError ''expected newline token'' (p_tok p)], False, p)
        | (True, p) \<Rightarrow> Some ([ev name], True, p))
     }
   }"

definition parsePoolSpecifier :: "Parser \<Rightarrow> (ninja_event list \<times> bool \<times> Parser) option" where
  "parsePoolSpecifier p =
     parseNameSpecifier KWPool ''expected pool name identifier'' BeginPoolDecl p"

definition parseRuleSpecifier :: "Parser \<Rightarrow> (ninja_event list \<times> bool \<times> Parser) option" where
  "parseRuleSpecifier p =
     parseNameSpecifier KWRule ''expected rule name identifier'' BeginRuleDecl p"

section \<open>Facts about the declarations\<close>

lemma consumeExpectedToken_eq [simp]:
  "p_kind p = kind \<Longrightarrow> consumeExpectedToken kind p = Some (p_tok p, getNextNonCommentToken p)"
  by (simp add: consumeExpectedToken_def assert_that_def)

text \<open>
  \<open>advanced p r\<close>: the parser went on from \<open>p\<close> to \<open>r\<close>, consuming at least the current token, and
  is in no specific lexing mode.
\<close>

definition advanced :: "Parser \<Rightarrow> Parser \<Rightarrow> bool" where
  "advanced p r \<longleftrightarrow> p_mode r = ModeNone \<and> p_left r \<le> p_left p
     \<and> (p_kind p \<noteq> EndOfFile \<longrightarrow> p_left r < p_left p)"

lemma left_le_trans:
  "p_left q \<le> p_left p \<Longrightarrow> p_left (getNextNonCommentToken q) \<le> p_left p"
  "p_left q \<le> p_left p \<Longrightarrow> p_left (skipPastEOL q) \<le> p_left p"
  using next_left_le skipPastEOL_left_le order_trans by blast+

lemma left_less_trans:
  "p_left q < p_left p \<Longrightarrow> p_left (getNextNonCommentToken q) < p_left p"
  "p_left q < p_left p \<Longrightarrow> p_left (skipPastEOL q) < p_left p"
  using next_left_le skipPastEOL_left_le order_le_less_trans by blast+

lemmas left_intros = left_less_trans left_le_trans next_left next_left_le skipPastEOL_left
  skipPastEOL_left_le

lemma parseBindingInternal_ok:
  "\<exists>evs r q. parseBindingInternal p = Some (evs, r, q) \<and> advanced p q"
proof -
  let ?p1 = "getNextNonCommentToken p"
  let ?p2 = "p_setMode ModeNone (getNextNonCommentToken (p_setMode VariableString ?p1))"
  have left1: "p_kind p = Identifier \<Longrightarrow> p_left ?p1 < p_left p" by (rule next_left) simp
  have left2: "p_kind p = Identifier \<Longrightarrow> p_left ?p2 < p_left p"
    using left1 next_left_le [of "p_setMode VariableString ?p1"] by simp
  consider "p_kind p \<noteq> Identifier" | "p_kind p = Identifier" "p_kind ?p1 \<noteq> Equals"
    | "p_kind p = Identifier" "p_kind ?p1 = Equals" by blast
  then show ?thesis
  proof cases
    case 1
    then show ?thesis
      using skipPastEOL_left [of "p_setMode ModeNone p"] skipPastEOL_left_le [of "p_setMode ModeNone p"]
      by (auto simp: parseBindingInternal_def advanced_def)
  next
    case 2
    then show ?thesis
      using left1 skipPastEOL_left_le [of "p_setMode ModeNone ?p1"]
      by (auto simp: parseBindingInternal_def advanced_def)
  next
    case 3
    then show ?thesis
      using left2 next_left_le [of ?p2] skipPastEOL_left_le [of ?p2]
        next_left_le [of "getNextNonCommentToken ?p2"] skipPastEOL_left_le [of "getNextNonCommentToken ?p2"]
      by (auto simp: parseBindingInternal_def advanced_def Let_def consumeIfToken_def)
  qed
qed

lemma parseStrings_ok:
  "\<exists>ts q. parseStrings p = Some (ts, q) \<and> p_mode q = p_mode p \<and> p_left q \<le> p_left p
    \<and> (p_kind p = StringTok \<longrightarrow> ts \<noteq> [])"
proof (induction p rule: parseStrings.induct)
  case (1 p)
  show ?case
  proof (cases "p_kind p = StringTok")
    case True
    with 1 [OF True _ refl] obtain ts q where
      "parseStrings (getNextNonCommentToken p) = Some (ts, q)" "p_mode q = p_mode p"
      "p_left q \<le> p_left (getNextNonCommentToken p)" by auto
    with True next_left_le [of p] show ?thesis by (auto simp: parseStrings.simps [of p])
  next
    case False
    then show ?thesis by (auto simp: parseStrings.simps [of p])
  qed
qed

lemma parseStringsAfter_ok:
  "\<exists>ts q. parseStringsAfter kind p = Some (ts, q) \<and> p_mode q = p_mode p \<and> p_left q \<le> p_left p"
  using parseStrings_ok [of "getNextNonCommentToken p"] next_left_le [of p]
  by (fastforce simp: parseStringsAfter_def consumeIfToken_def)

lemma advanced_setMode:
  "p_kind p \<noteq> EndOfFile \<Longrightarrow> p_left q < p_left p \<Longrightarrow> p_mode q = ModeNone \<Longrightarrow> advanced p q"
  by (simp add: advanced_def)

text \<open>A begun declaration of a kind: what its action is called with.\<close>

fun begin_ok :: "TokenKind \<Rightarrow> ninja_event \<Rightarrow> bool" where
  "begin_ok KWBuild (BeginBuildDecl name outputs inputs nExplicit nImplicit nOutputs) \<longleftrightarrow>
     outputs \<noteq> [] \<and> nExplicit + nImplicit \<le> length inputs \<and> 0 < nOutputs \<and> nOutputs \<le> length outputs"
| "begin_ok KWPool (BeginPoolDecl name) \<longleftrightarrow> True"
| "begin_ok KWRule (BeginRuleDecl name) \<longleftrightarrow> True"
| "begin_ok _ _ \<longleftrightarrow> False"

text \<open>The events of a specifier: one begun declaration, or an error only.\<close>

definition spec_events_ok :: "TokenKind \<Rightarrow> ninja_event list \<Rightarrow> bool \<Rightarrow> bool" where
  "spec_events_ok kind evs success \<longleftrightarrow>
     (if success then (\<exists>ev. evs = [ev] \<and> begin_ok kind ev) else (\<exists>msg t. evs = [ParseError msg t]))"

definition spec_ok :: "Parser \<Rightarrow> (ninja_event list \<times> bool \<times> Parser) option \<Rightarrow> bool" where
  "spec_ok p r \<longleftrightarrow> (\<exists>evs success q. r = Some (evs, success, q) \<and> p_mode q = ModeNone
     \<and> p_left q < p_left p \<and> spec_events_ok (p_kind p) evs success)"

lemma spec_ok_error: "p_left q < p_left p \<Longrightarrow> spec_ok p (specError msg q)"
  by (auto simp: spec_ok_def specError_def spec_events_ok_def)

lemma parseNameSpecifier_ok:
  assumes "p_kind p = keyword" "keyword \<noteq> EndOfFile" "\<And>t. begin_ok keyword (ev t)"
  shows "spec_ok p (parseNameSpecifier keyword msg ev p)"
proof -
  let ?p1 = "p_setMode ModeNone (getNextNonCommentToken (p_setMode IdentifierSpecific p))"
  have "p_left ?p1 < p_left p"
    using next_left [of "p_setMode IdentifierSpecific p"] assms(1,2) by simp
  with assms next_left_le [of ?p1] next_left_le [of "getNextNonCommentToken ?p1"] show ?thesis
    by (auto simp: parseNameSpecifier_def Let_def spec_ok_def consumeIfToken_def spec_events_ok_def)
qed

lemma parseBuildSpecifier_ok:
  assumes "p_kind p = KWBuild"
  shows "spec_ok p (parseBuildSpecifier p)"
proof -
  let ?p1 = "getNextNonCommentToken (p_setMode PathString p)"
  have l1: "p_left ?p1 < p_left p"
    using next_left [of "p_setMode PathString p"] assms by simp
  obtain outs p2 where p2: "parseStrings ?p1 = Some (outs, p2)" "p_left p2 \<le> p_left ?p1"
    "p_kind ?p1 = StringTok \<longrightarrow> outs \<noteq> []" using parseStrings_ok [of ?p1] by auto
  obtain iouts p3 where p3: "parseStringsAfter Pipe p2 = Some (iouts, p3)" "p_left p3 \<le> p_left p2"
    using parseStringsAfter_ok [of Pipe p2] by auto
  let ?p4 = "p_setMode PathString (getNextNonCommentToken (p_setMode IdentifierSpecific p3))"
  have l4: "p_left ?p4 \<le> p_left p3" using next_left_le [of "p_setMode IdentifierSpecific p3"] by simp
  let ?p5 = "getNextNonCommentToken ?p4"
  obtain ins p6 where p6: "parseStrings ?p5 = Some (ins, p6)" "p_left p6 \<le> p_left ?p5"
    using parseStrings_ok [of ?p5] by auto
  obtain iins p7 where p7: "parseStringsAfter Pipe p6 = Some (iins, p7)" "p_left p7 \<le> p_left p6"
    using parseStringsAfter_ok [of Pipe p6] by auto
  obtain oins p8 where p8: "parseStringsAfter PipePipe p7 = Some (oins, p8)" "p_left p8 \<le> p_left p7"
    using parseStringsAfter_ok [of PipePipe p7] by auto
  have l8: "p_left p8 < p_left p"
    using l1 p2 p3 l4 next_left_le [of ?p4] p6 p7 p8 by linarith
  have l9: "p_left (getNextNonCommentToken (p_setMode ModeNone p8)) < p_left p"
    using l8 next_left_le [of "p_setMode ModeNone p8"] by simp
  show ?thesis
  proof (cases "p_kind ?p1 = StringTok \<and> p_kind p3 = Colon \<and> p_kind ?p4 = Identifier")
    case False
    then show ?thesis
      using assms l1 l4 p2 p3 by (auto simp: parseBuildSpecifier_def Let_def intro!: spec_ok_error)
  next
    case True
    then have outs: "outs \<noteq> []" using p2 by simp
    from True have "parseBuildSpecifier p =
      (case consumeIfToken Newline (p_setMode ModeNone p8) of
         (False, p) \<Rightarrow> Some ([ParseError ''expected newline token'' (p_tok p)], False, p)
       | (True, p) \<Rightarrow> Some ([BeginBuildDecl
           (p_tok (getNextNonCommentToken (p_setMode IdentifierSpecific p3))) (outs @ iouts) (ins @ iins @ oins)
           (length ins) (length iins) (length outs)], True, p))"
      using assms p2 p3 p6 p7 p8 by (simp add: parseBuildSpecifier_def Let_def)
    with outs l8 l9 assms show ?thesis
      by (auto simp: spec_ok_def consumeIfToken_def spec_events_ok_def)
  qed
qed

section \<open>Parameterized declarations and the file\<close>

function skipSpecifier :: "Parser \<Rightarrow> Parser" where
  "skipSpecifier p =
     (let p = skipPastEOL p in if p_kind p = Indentation then skipSpecifier p else p)"
  by auto
termination
proof (relation "measure (\<lambda>p. length (bufferPos (p_lexer p)))", goal_cases)
  case (2 p q)
  have "length (bufferPos (p_lexer (skipToEOL p))) \<le> length (bufferPos (p_lexer p))"
  proof (induction p rule: skipToEOL.induct)
    case (1 p)
    then show ?case using lexTok_props(3) [of p] by (subst skipToEOL.simps) fastforce
  qed
  with 2 next_props [of "skipToEOL p"] show ?case
    by (auto simp: skipPastEOL_def consumeToken_def)
qed simp

declare skipSpecifier.simps [simp del]

text \<open>The action a binding of the declaration calls.\<close>

fun bindingEvent :: "TokenKind \<Rightarrow> Token \<Rightarrow> Token \<Rightarrow> ninja_event" where
  "bindingEvent KWBuild name val = BuildBindingDecl name val"
| "bindingEvent KWPool name val = PoolBindingDecl name val"
| "bindingEvent _ name val = RuleBindingDecl name val"

fun endEvent :: "TokenKind \<Rightarrow> Token \<Rightarrow> ninja_event" where
  "endEvent KWBuild t = EndBuildDecl t"
| "endEvent KWPool t = EndPoolDecl t"
| "endEvent _ t = EndRuleDecl t"

function parseBindings :: "TokenKind \<Rightarrow> Parser \<Rightarrow> (ninja_event list \<times> Parser) option" where
  "parseBindings kind p =
     (if p_kind p = Indentation
      then do {
        (_, p1) \<leftarrow> consumeExpectedToken Indentation (p_setMode IdentifierSpecific p);
        if p_kind p1 = Newline
        then do {
          (_, p2) \<leftarrow> consumeExpectedToken Newline (p_setMode ModeNone p1);
          parseBindings kind p2
        }
        else do {
          (evs, r, p2) \<leftarrow> parseBindingInternal p1;
          (evs', p3) \<leftarrow> parseBindings kind p2;
          Some (evs @ (case r of None \<Rightarrow> [] | Some (name, val) \<Rightarrow> [bindingEvent kind name val]) @ evs', p3)
        }
      }
      else Some ([], p))"
  by auto
termination
proof (relation "measure (\<lambda>(_, p). p_left p)", goal_cases)
  case (2 kind p a t p1 b t' p2)
  then have "p1 = getNextNonCommentToken (p_setMode IdentifierSpecific p)"
    "p2 = getNextNonCommentToken (p_setMode ModeNone p1)" by auto
  with 2(1) next_left [of "p_setMode IdentifierSpecific p"] next_left_le [of "p_setMode ModeNone p1"]
  show ?case by simp
next
  case (3 kind p a t p1 b evs r c p2)
  then have p1: "p1 = getNextNonCommentToken (p_setMode IdentifierSpecific p)" by auto
  have "p_left p2 \<le> p_left p1"
    using parseBindingInternal_ok [of p1] 3 by (auto simp: advanced_def)
  with 3(1) p1 next_left [of "p_setMode IdentifierSpecific p"] show ?case by simp
qed simp

declare parseBindings.simps [simp del]

definition parseParameterizedDecl :: "Parser \<Rightarrow> (ninja_event list \<times> Parser) option" where
  "parseParameterizedDecl p = do {
     let startTok = p_tok p;
     let kind = p_kind p;
     (evs, success, p) \<leftarrow>
       (if kind = KWBuild then parseBuildSpecifier p
        else if kind = KWPool then parsePoolSpecifier p
        else do { assert_that (kind = KWRule); parseRuleSpecifier p });
     if \<not> success then Some (evs, skipSpecifier p)
     else do {
       (bindings, p) \<leftarrow> parseBindings kind p;
       Some (evs @ bindings @ [endEvent kind startTok], p)
     }
   }"

definition parseDecl :: "Parser \<Rightarrow> (ninja_event list \<times> Parser) option" where
  "parseDecl p =
     (case p_kind p of
        Newline \<Rightarrow> Some ([], consumeToken p)
      | KWBuild \<Rightarrow> parseParameterizedDecl p
      | KWRule \<Rightarrow> parseParameterizedDecl p
      | KWPool \<Rightarrow> parseParameterizedDecl p
      | KWDefault \<Rightarrow> parseDefaultDecl p
      | KWInclude \<Rightarrow> parseIncludeDecl p
      | KWSubninja \<Rightarrow> parseIncludeDecl p
      | Identifier \<Rightarrow> parseBindingDecl p
      | _ \<Rightarrow> Some ([ParseError ''unexpected token'' (p_tok p)], skipPastEOL p))"

text \<open>
  The grammar of the calls: bindings only between the begin and the end of a declaration of
  their kind, and every begun declaration well-formed. \<open>open_decl\<close> is the declaration being
  parsed, if any.
\<close>

fun ninja_wf :: "TokenKind option \<Rightarrow> ninja_event list \<Rightarrow> bool" where
  "ninja_wf d [] \<longleftrightarrow> d = None"
| "ninja_wf d (ParseError msg t # evs) \<longleftrightarrow> ninja_wf d evs"
| "ninja_wf d (BuildBindingDecl n v # evs) \<longleftrightarrow> d = Some KWBuild \<and> ninja_wf d evs"
| "ninja_wf d (PoolBindingDecl n v # evs) \<longleftrightarrow> d = Some KWPool \<and> ninja_wf d evs"
| "ninja_wf d (RuleBindingDecl n v # evs) \<longleftrightarrow> d = Some KWRule \<and> ninja_wf d evs"
| "ninja_wf d (EndBuildDecl t # evs) \<longleftrightarrow> d = Some KWBuild \<and> ninja_wf None evs"
| "ninja_wf d (EndPoolDecl t # evs) \<longleftrightarrow> d = Some KWPool \<and> ninja_wf None evs"
| "ninja_wf d (EndRuleDecl t # evs) \<longleftrightarrow> d = Some KWRule \<and> ninja_wf None evs"
| "ninja_wf d (BeginBuildDecl n outs ins a b c # evs) \<longleftrightarrow>
     d = None \<and> begin_ok KWBuild (BeginBuildDecl n outs ins a b c) \<and> ninja_wf (Some KWBuild) evs"
| "ninja_wf d (BeginPoolDecl n # evs) \<longleftrightarrow> d = None \<and> ninja_wf (Some KWPool) evs"
| "ninja_wf d (BeginRuleDecl n # evs) \<longleftrightarrow> d = None \<and> ninja_wf (Some KWRule) evs"
| "ninja_wf d (BindingDecl n v # evs) \<longleftrightarrow> d = None \<and> ninja_wf None evs"
| "ninja_wf d (DefaultDecl ns # evs) \<longleftrightarrow> d = None \<and> ns \<noteq> [] \<and> ninja_wf None evs"
| "ninja_wf d (IncludeDecl b t # evs) \<longleftrightarrow> d = None \<and> ninja_wf None evs"
| "ninja_wf d (BeginManifest # evs) \<longleftrightarrow> False"
| "ninja_wf d (EndManifest # evs) \<longleftrightarrow> False"

section \<open>The parser never fails an assertion\<close>

lemma skipSpecifier_props: "p_mode (skipSpecifier p) = p_mode p \<and> p_left (skipSpecifier p) \<le> p_left p"
proof (induction p rule: skipSpecifier.induct)
  case (1 p)
  show ?case
  proof (cases "p_kind (skipPastEOL p) = Indentation")
    case True
    then have "skipSpecifier p = skipSpecifier (skipPastEOL p)"
      by (subst skipSpecifier.simps) (simp add: Let_def)
    with 1 [OF refl True] skipPastEOL_left_le [of p] show ?thesis by simp
  next
    case False
    then have "skipSpecifier p = skipPastEOL p" by (subst skipSpecifier.simps) (simp add: Let_def)
    with skipPastEOL_left_le [of p] show ?thesis by simp
  qed
qed

lemma parseBindingInternal_errors:
  assumes "parseBindingInternal p = Some (evs, r, q)"
  shows "\<forall>ev \<in> set evs. \<exists>msg t. ev = ParseError msg t"
  using assms
  by (auto simp: parseBindingInternal_def Let_def split: if_splits bind_splits bool.splits prod.splits)

lemma ninja_wf_errors:
  "\<forall>ev \<in> set evs. \<exists>msg t. ev = ParseError msg t \<Longrightarrow> ninja_wf d (evs @ rest) = ninja_wf d rest"
  by (induction evs) auto

lemma bindingEvent_wf:
  "kind \<in> {KWBuild, KWPool, KWRule} \<Longrightarrow>
    ninja_wf (Some kind) (bindingEvent kind n v # evs) = ninja_wf (Some kind) evs"
  "kind \<in> {KWBuild, KWPool, KWRule} \<Longrightarrow>
    ninja_wf (Some kind) (endEvent kind t # evs) = ninja_wf None evs"
  by auto

lemma ninja_wf_begin:
  "begin_ok kind ev \<Longrightarrow> ninja_wf None (ev # evs) = ninja_wf (Some kind) evs"
  by (induction kind ev rule: begin_ok.induct) auto

lemma parseBindings_ok:
  "kind \<in> {KWBuild, KWPool, KWRule} \<Longrightarrow> p_mode p = ModeNone \<Longrightarrow>
    \<exists>evs q. parseBindings kind p = Some (evs, q) \<and> p_mode q = ModeNone \<and> p_left q \<le> p_left p
      \<and> (\<forall>rest. ninja_wf (Some kind) (evs @ rest) = ninja_wf (Some kind) rest)"
proof (induction "p_left p" arbitrary: p rule: less_induct)
  case less
  let ?p1 = "getNextNonCommentToken (p_setMode IdentifierSpecific p)"
  show ?case
  proof (cases "p_kind p = Indentation")
    case True
    then have l1: "p_left ?p1 < p_left p" using next_left [of "p_setMode IdentifierSpecific p"] by simp
    show ?thesis
    proof (cases "p_kind ?p1 = Newline")
      case nl: True
      let ?p2 = "getNextNonCommentToken (p_setMode ModeNone ?p1)"
      have l2: "p_left ?p2 \<le> p_left ?p1" using next_left_le [of "p_setMode ModeNone ?p1"] by simp
      have "parseBindings kind p = parseBindings kind ?p2"
        using True nl by (subst parseBindings.simps) simp
      with less.hyps [of ?p2] l1 l2 less.prems(1) show ?thesis by fastforce
    next
      case nl: False
      obtain evs r p2 where b: "parseBindingInternal ?p1 = Some (evs, r, p2)" and adv: "advanced ?p1 p2"
        using parseBindingInternal_ok by blast
      then have l2: "p_left p2 < p_left p" "p_mode p2 = ModeNone"
        using l1 by (auto simp: advanced_def)
      then obtain evs' q where q: "parseBindings kind p2 = Some (evs', q)" "p_mode q = ModeNone"
        "p_left q \<le> p_left p2"
        "\<forall>rest. ninja_wf (Some kind) (evs' @ rest) = ninja_wf (Some kind) rest"
        using less.hyps [of p2] less.prems(1) by blast
      have "parseBindings kind p = Some (evs @ (case r of None \<Rightarrow> []
          | Some (name, val) \<Rightarrow> [bindingEvent kind name val]) @ evs', q)"
        using True nl b q by (subst parseBindings.simps) simp
      moreover have "ninja_wf (Some kind) ((evs @ (case r of None \<Rightarrow> []
          | Some (name, val) \<Rightarrow> [bindingEvent kind name val]) @ evs') @ rest)
          = ninja_wf (Some kind) rest" for rest
        using q(4) less.prems(1) bindingEvent_wf(1)
        by (auto simp: ninja_wf_errors [OF parseBindingInternal_errors [OF b]] split: option.split)
      ultimately show ?thesis using q(2,3) l2 by (auto simp: less_imp_le)
    qed
  next
    case False
    with less.prems show ?thesis by (subst parseBindings.simps) simp
  qed
qed

text \<open>A parsed declaration: it advances the parser and its events stand alone.\<close>

definition decl_ok :: "Parser \<Rightarrow> (ninja_event list \<times> Parser) option \<Rightarrow> bool" where
  "decl_ok p r \<longleftrightarrow> (\<exists>evs q. r = Some (evs, q) \<and> p_mode q = ModeNone \<and> p_left q < p_left p
     \<and> (\<forall>rest. ninja_wf None (evs @ rest) = ninja_wf None rest))"

lemma parseParameterizedDecl_ok:
  assumes "p_kind p \<in> {KWBuild, KWPool, KWRule}"
  shows "decl_ok p (parseParameterizedDecl p)"
proof -
  let ?spec = "if p_kind p = KWBuild then parseBuildSpecifier p
    else if p_kind p = KWPool then parsePoolSpecifier p
    else do { assert_that (p_kind p = KWRule); parseRuleSpecifier p }"
  have "spec_ok p ?spec"
    using assms parseBuildSpecifier_ok [of p] parseNameSpecifier_ok [of p]
    by (auto simp: parsePoolSpecifier_def parseRuleSpecifier_def assert_that_def)
  then obtain evs success q where q: "?spec = Some (evs, success, q)" "p_mode q = ModeNone"
    "p_left q < p_left p" "spec_events_ok (p_kind p) evs success" by (auto simp: spec_ok_def)
  have decl: "parseParameterizedDecl p =
    (if \<not> success then Some (evs, skipSpecifier q)
     else do { (bindings, r) \<leftarrow> parseBindings (p_kind p) q;
               Some (evs @ bindings @ [endEvent (p_kind p) (p_tok p)], r) })"
    using q(1) by (simp add: parseParameterizedDecl_def Let_def)
  show ?thesis
  proof (cases success)
    case True
    obtain bs r where r: "parseBindings (p_kind p) q = Some (bs, r)" "p_mode r = ModeNone"
      "p_left r \<le> p_left q"
      "\<forall>rest. ninja_wf (Some (p_kind p)) (bs @ rest) = ninja_wf (Some (p_kind p)) rest"
      using parseBindings_ok [OF assms q(2)] by blast
    from True q(4) obtain ev where ev: "evs = [ev]" "begin_ok (p_kind p) ev"
      by (auto simp: spec_events_ok_def)
    have "ninja_wf None ((evs @ bs @ [endEvent (p_kind p) (p_tok p)]) @ rest) = ninja_wf None rest"
      for rest
      using ev r(4) bindingEvent_wf(2) [OF assms] by (simp add: ninja_wf_begin)
    with True decl r q(3) show ?thesis by (auto simp: decl_ok_def)
  next
    case False
    with q decl skipSpecifier_props [of q] show ?thesis
      by (auto simp: decl_ok_def spec_events_ok_def)
  qed
qed

lemma parseDefaultDecl_ok:
  assumes "p_kind p = KWDefault"
  shows "decl_ok p (parseDefaultDecl p)"
proof -
  let ?p1 = "getNextNonCommentToken (p_setMode PathString p)"
  have l1: "p_left ?p1 < p_left p" using next_left [of "p_setMode PathString p"] assms by simp
  obtain names p2 where p2: "parseStrings ?p1 = Some (names, p2)" "p_left p2 \<le> p_left ?p1"
    using parseStrings_ok [of ?p1] by auto
  let ?p3 = "p_setMode ModeNone p2"
  show ?thesis
    using assms l1 p2 skipPastEOL_left_le [of ?p3] next_left_le [of ?p3]
    by (auto simp: parseDefaultDecl_def decl_ok_def consumeIfToken_def Let_def)
qed

lemma parseIncludeDecl_ok:
  assumes "p_kind p \<in> {KWInclude, KWSubninja}"
  shows "decl_ok p (parseIncludeDecl p)"
proof -
  let ?p1 = "p_setMode ModeNone (getNextNonCommentToken (p_setMode PathString p))"
  let ?p2 = "getNextNonCommentToken ?p1"
  have l1: "p_left ?p1 < p_left p" using next_left [of "p_setMode PathString p"] assms by auto
  show ?thesis
    using assms l1 skipPastEOL_left_le [of ?p1] next_left_le [of ?p1] skipPastEOL_left_le [of ?p2]
      next_left_le [of ?p2]
    by (auto simp: parseIncludeDecl_def decl_ok_def consumeIfToken_def Let_def)
qed

lemma parseBindingDecl_ok:
  assumes "p_kind p \<noteq> EndOfFile"
  shows "decl_ok p (parseBindingDecl p)"
proof -
  obtain evs r q where b: "parseBindingInternal p = Some (evs, r, q)" "advanced p q"
    using parseBindingInternal_ok by blast
  have "ninja_wf None ((evs @ (case r of None \<Rightarrow> [] | Some (name, val) \<Rightarrow> [BindingDecl name val])) @ rest)
      = ninja_wf None rest" for rest
    by (auto simp: ninja_wf_errors [OF parseBindingInternal_errors [OF b(1)]] split: option.split)
  with assms b show ?thesis by (auto simp: parseBindingDecl_def decl_ok_def advanced_def)
qed

lemma parseDecl_ok:
  assumes "p_kind p \<noteq> EndOfFile" "p_mode p = ModeNone"
  shows "decl_ok p (parseDecl p)"
proof -
  have "decl_ok p (Some ([], consumeToken p))"
    using assms next_left [of p] by (simp add: decl_ok_def consumeToken_def)
  moreover have "decl_ok p (Some ([ParseError msg (p_tok p)], skipPastEOL p))" for msg
    using assms skipPastEOL_left [of p] by (simp add: decl_ok_def)
  ultimately show ?thesis
    using assms parseParameterizedDecl_ok [of p] parseDefaultDecl_ok [of p] parseIncludeDecl_ok [of p]
      parseBindingDecl_ok [of p]
    by (simp add: parseDecl_def split: TokenKind.split)
qed

text \<open>\<^verbatim>\<open>ParserImpl::parse\<close>.\<close>

function parseDecls :: "Parser \<Rightarrow> ninja_event list option" where
  "parseDecls p =
     (if p_kind p = EndOfFile then Some []
      else do {
        assert_that (p_mode p = ModeNone);
        (evs, q) \<leftarrow> parseDecl p;
        rest \<leftarrow> parseDecls q;
        Some (evs @ rest)
      })"
  by auto
termination
proof (relation "measure p_left", goal_cases)
  case (2 p u r evs q)
  then have "p_mode p = ModeNone" by (simp add: assert_that_def split: if_splits)
  from parseDecl_ok [OF 2(1) this] 2 show ?case by (auto simp: decl_ok_def)
qed simp

declare parseDecls.simps [simp del]

definition parseManifest :: "string \<Rightarrow> ninja_event list option" where
  "parseManifest data = do {
     let p = getNextNonCommentToken \<lparr>p_lexer = newLexer data, p_tok = newToken (newLexer data)\<rparr>;
     evs \<leftarrow> parseDecls p;
     Some (BeginManifest # evs @ [EndManifest])
   }"

lemma parseDecls_ok: "p_mode p = ModeNone \<Longrightarrow> \<exists>evs. parseDecls p = Some evs \<and> ninja_wf None evs"
proof (induction "p_left p" arbitrary: p rule: less_induct)
  case less
  show ?case
  proof (cases "p_kind p = EndOfFile")
    case True
    then show ?thesis by (simp add: parseDecls.simps [of p])
  next
    case False
    then obtain evs q where q: "parseDecl p = Some (evs, q)" "p_mode q = ModeNone"
      "p_left q < p_left p" "\<forall>rest. ninja_wf None (evs @ rest) = ninja_wf None rest"
      using parseDecl_ok [OF False less.prems] by (auto simp: decl_ok_def)
    with less.hyps [OF q(3,2)] False less.prems show ?thesis
      by (auto simp: parseDecls.simps [of p] assert_that_def)
  qed
qed

text \<open>
  C17. The parser handles every file: it terminates, no assertion fails (in particular the
  lexer is back in no specific mode before each declaration), and the calls it makes are
  well-formed: every binding and end belongs to the begun declaration of its kind, a default
  declaration names a target, and a build declaration has an explicit output and no more
  explicit outputs and inputs than it lists.
\<close>

theorem parseManifest_total:
  "\<exists>evs. parseManifest data = Some (BeginManifest # evs @ [EndManifest]) \<and> ninja_wf None evs"
  using parseDecls_ok [of "getNextNonCommentToken
      \<lparr>p_lexer = newLexer data, p_tok = newToken (newLexer data)\<rparr>"]
  by (auto simp: parseManifest_def newLexer_def Let_def)

section \<open>Two gaps of the lexer\<close>

text \<open>
  Only seven of the eight characters of \<^verbatim>\<open>subninja\<close> are compared: any identifier of eight
  characters that starts like it is taken for the keyword.
\<close>

theorem subninja_keyword_gap:
  assumes "isIdentifierChar (char_int c)"
  shows "tokenKind (fst (lex (newLexer (''subninj'' @ [c])))) = KWSubninja"
proof -
  have c: "c \<noteq> CHR 0x0A" "c \<noteq> CHR 0x0D"
    using assms by (auto simp: isIdentifierChar_def char_int_def)
  show ?thesis
    using assms c
    by (simp add: lex_def newLexer_def peekNextChar_def char_int_def isNonNewlineSpace_def isspace_def
      skipLeading.simps Let_def lexToken_def skipChar_def getNextChar_def isIdentifierChar_def
      lexIdentifier_def skipWhile.simps setIdentifierTokenKind_def setTokenKind_def newToken_def)
qed

lemma subninja_keyword_gap_witness:
  "tokenKind (fst (lex (newLexer (''subninj'' @ ''X'')))) = KWSubninja"
  by (rule subninja_keyword_gap) (simp add: isIdentifierChar_def char_int_def)

text \<open>
  A byte 0xFF is, as a signed character, the end-of-file marker: a file is silently cut
  there.
\<close>

theorem byte_0xFF_ends_file: "parseManifest (CHR 0xFF # rest) = Some [BeginManifest, EndManifest]"
proof -
  let ?p = "\<lparr>p_lexer = newLexer (CHR 0xFF # rest), p_tok = newToken (newLexer (CHR 0xFF # rest))\<rparr>"
  have peek: "peekNextChar (newLexer (CHR 0xFF # rest)) = -1"
    by (simp add: peekNextChar_def newLexer_def char_int_def)
  then have "tokenKind (fst (lex (newLexer (CHR 0xFF # rest)))) = EndOfFile"
    by (simp add: lex_def isNonNewlineSpace_def isspace_def skipLeading.simps Let_def lexToken_def
      setTokenKind_def)
  then have "p_kind (lexTok ?p) = EndOfFile" by (simp add: lexTok_def case_prod_beta)
  then have "p_kind (getNextNonCommentToken ?p) = EndOfFile"
    by (subst getNextNonCommentToken.simps) (simp add: Let_def)
  then show ?thesis by (simp add: parseManifest_def Let_def parseDecls.simps)
qed

end
