(* ===== verification/NinjaManifest.thy ===== *)
theory NinjaManifest
  imports NinjaLexer
begin

text \<open>
  The data model of a loaded Ninja manifest, \<^verbatim>\<open>lib/Ninja/include/llbuild/Ninja/Manifest.h\<close>,
  and path normalization, \<^verbatim>\<open>lib/Ninja/Manifest.cpp\<close>.

  Objects that are never changed once other objects refer to them are values: nodes, rules
  (complete at the end of their declaration) and pools. A node is created once for a
  canonical path, so two node pointers are equal exactly when the nodes are; a null pointer
  is \<^term>\<open>None\<close>. The path functions of LLVM are the fields of \<open>path_ops\<close>.
\<close>

section \<open>Path normalization\<close>

record path_ops =
  make_absolute :: "string \<Rightarrow> string \<Rightarrow> string option"
  is_absolute :: "string \<Rightarrow> bool"
  root_name_length :: "string \<Rightarrow> nat"

text \<open>The separator of POSIX systems.\<close>

abbreviation slash :: char where "slash \<equiv> CHR 0x2F"
abbreviation dot :: char where "dot \<equiv> CHR 0x2E"

text \<open>
  Back to the previous directory: \<open>dst\<close> is what has been written from \<^verbatim>\<open>begin\<close> to \<^verbatim>\<open>dst_it\<close>; the
  inner loop walks \<^verbatim>\<open>dst_it\<close> down to a separator or to \<^verbatim>\<open>begin\<close>.
\<close>

fun parent_pos :: "string \<Rightarrow> nat \<Rightarrow> nat" where
  "parent_pos dst 0 = 0"
| "parent_pos dst (Suc i) = (if dst ! Suc i = slash then Suc (Suc i) else parent_pos dst i)"

definition popDir :: "string \<Rightarrow> string" where
  "popDir dst =
     (if length dst \<le> 1 then dst
      else let pos = parent_pos dst (length dst - 2)
           in if pos = 0 then [slash] else take pos dst)"

text \<open>
  The loop of \<^verbatim>\<open>normalize_path\<close>: \<open>src\<close> is the text from \<^verbatim>\<open>src_it\<close> to \<^verbatim>\<open>end\<close>. The destination never
  overtakes the source in the shared buffer, so the two are kept apart here.
\<close>

function normLoop :: "string \<Rightarrow> string \<Rightarrow> string" where
  "normLoop dst [] = dst"
| "normLoop dst (c # rest) =
     (if c \<noteq> slash then normLoop (dst @ [c]) rest
      else
        let dst = (if dst = [] \<or> last dst \<noteq> slash then dst @ [slash] else dst) in
        if rest = [] then dst
        else if hd rest \<noteq> dot then normLoop dst rest
        else
          let r2 = tl rest in
          if r2 = [] then normLoop dst r2
          else if hd r2 \<noteq> dot then
            (if hd r2 = slash then normLoop dst r2 else normLoop (dst @ [dot]) r2)
          else
            let r3 = tl r2 in
            if r3 \<noteq> [] \<and> hd r3 \<noteq> slash then normLoop dst rest
            else
              let dst = popDir dst in
              if r3 \<noteq> [] then normLoop dst r3 else dst)"
  by pat_completeness auto
termination
  by (relation "measure (\<lambda>(_, src). length src)") auto

declare normLoop.simps(2) [simp del]

definition normalize_path :: "path_ops \<Rightarrow> string \<Rightarrow> string \<Rightarrow> string option" where
  "normalize_path fs workingDirectory path = do {
     tmp \<leftarrow> make_absolute fs workingDirectory path;
     if tmp = [] \<or> \<not> is_absolute fs tmp then None
     else (let n = root_name_length fs tmp in Some (take n tmp @ normLoop [] (drop n tmp)))
   }"

section \<open>Scopes, nodes, pools, rules and commands\<close>

record NinjaRule =
  nr_name :: string
  nr_parameters :: "string \<rightharpoonup> string"

definition newNinjaRule :: "string \<Rightarrow> NinjaRule" where
  "newNinjaRule name = \<lparr>nr_name = name, nr_parameters = Map.empty\<rparr>"

definition isValidParameterName :: "string \<Rightarrow> bool" where
  "isValidParameterName name \<longleftrightarrow>
     name \<in> set [''command'', ''description'', ''deps'', ''depfile'', ''generator'', ''pool'',
       ''restat'', ''rspfile'', ''rspfile_content'']"

record Scope =
  sc_entries :: "string \<rightharpoonup> string"
  sc_rules :: "string \<rightharpoonup> NinjaRule"

definition newScope :: Scope where
  "newScope = \<lparr>sc_entries = Map.empty, sc_rules = Map.empty\<rparr>"

text \<open>A scope with its chain of parents is a list; the current scope is its head.\<close>

definition insertBinding :: "string \<Rightarrow> string \<Rightarrow> Scope list \<Rightarrow> Scope list" where
  "insertBinding name val scopes =
     (case scopes of [] \<Rightarrow> [] | s # ss \<Rightarrow> s\<lparr>sc_entries := (sc_entries s)(name \<mapsto> val)\<rparr> # ss)"

primrec lookupBinding :: "Scope list \<Rightarrow> string \<Rightarrow> string" where
  "lookupBinding [] name = []"
| "lookupBinding (s # parents) name =
     (case sc_entries s name of Some v \<Rightarrow> v | None \<Rightarrow> lookupBinding parents name)"

record Node =
  canonicalPath :: string
  screenPath :: string

record NodeInCommand =
  nic_node :: Node
  asWritten :: string

definition newNodeInCommand :: "Node option \<Rightarrow> string \<Rightarrow> NodeInCommand option" where
  "newNodeInCommand node written = do {
     n \<leftarrow> node;
     Some \<lparr>nic_node = n, asWritten = (if screenPath n \<noteq> written then written else [])\<rparr>
   }"

definition getScreenPath :: "NodeInCommand \<Rightarrow> string" where
  "getScreenPath nic = (if asWritten nic = [] then screenPath (nic_node nic) else asWritten nic)"

record Pool =
  pool_name :: string
  pool_depth :: u32

datatype DepsStyleKind = DepsNone | DepsGCC | DepsMSVC

record Command =
  c_rule :: NinjaRule
  c_outputs :: "Node option list"
  c_inputs :: "NodeInCommand list"
  numExplicitInputs :: nat
  numImplicitInputs :: nat
  numExplicitOutputs :: nat
  c_parameters :: "string \<rightharpoonup> string"
  executionPool :: "Pool option"
  commandString :: string
  c_description :: string
  depsFile :: string
  rspFile :: string
  rspFileContent :: string
  depsStyle :: DepsStyleKind
  isGenerator :: bool
  shouldRestat :: bool

definition newCommand ::
  "NinjaRule \<Rightarrow> Node option list \<Rightarrow> NodeInCommand list \<Rightarrow> nat \<Rightarrow> nat \<Rightarrow> nat \<Rightarrow> Command option" where
  "newCommand rule outputs inputs nExplicit nImplicit nOutputs = do {
     assert_that (length outputs > 0);
     assert_that (nExplicit + nImplicit \<le> length inputs);
     assert_that (nOutputs \<le> length outputs);
     Some \<lparr>c_rule = rule, c_outputs = outputs, c_inputs = inputs, numExplicitInputs = nExplicit,
       numImplicitInputs = nImplicit, numExplicitOutputs = nOutputs, c_parameters = Map.empty,
       executionPool = None, commandString = [], c_description = [], depsFile = [], rspFile = [],
       rspFileContent = [], depsStyle = DepsNone, isGenerator = False, shouldRestat = False\<rparr>
   }"

definition getExplicitOutputs :: "Command \<Rightarrow> Node option list" where
  "getExplicitOutputs c = take (numExplicitOutputs c) (c_outputs c)"

definition getImplicitOutputs :: "Command \<Rightarrow> Node option list" where
  "getImplicitOutputs c = drop (numExplicitOutputs c) (c_outputs c)"

definition explicitInputs :: "Command \<Rightarrow> NodeInCommand list" where
  "explicitInputs c = take (numExplicitInputs c) (c_inputs c)"

definition implicitInputs :: "Command \<Rightarrow> NodeInCommand list" where
  "implicitInputs c = take (numImplicitInputs c) (drop (numExplicitInputs c) (c_inputs c))"

definition orderOnlyInputs :: "Command \<Rightarrow> NodeInCommand list" where
  "orderOnlyInputs c = drop (numExplicitInputs c + numImplicitInputs c) (c_inputs c)"

definition getEffectiveDescription :: "Command \<Rightarrow> string" where
  "getEffectiveDescription c = (if c_description c = [] then commandString c else c_description c)"

section \<open>The manifest\<close>

record Manifest =
  m_nodes :: "string \<rightharpoonup> Node"
  m_commands :: "Command list"
  m_pools :: "string \<rightharpoonup> Pool"
  m_defaultTargets :: "Node list"

definition phonyRule :: NinjaRule where
  "phonyRule = newNinjaRule ''phony''"

definition consolePool :: Pool where
  "consolePool = \<lparr>pool_name = ''console'', pool_depth = 1\<rparr>"

definition newManifest :: "Manifest \<times> Scope" where
  "newManifest =
     (\<lparr>m_nodes = Map.empty, m_commands = [], m_pools = [''console'' \<mapsto> consolePool],
        m_defaultTargets = []\<rparr>,
      newScope\<lparr>sc_rules := [''phony'' \<mapsto> phonyRule]\<rparr>)"

definition findNode :: "path_ops \<Rightarrow> string \<Rightarrow> string \<Rightarrow> Manifest \<Rightarrow> Node option" where
  "findNode fs workingDirectory path0 m = do {
     path \<leftarrow> normalize_path fs workingDirectory path0;
     m_nodes m path
   }"

definition findOrCreateNode ::
  "path_ops \<Rightarrow> string \<Rightarrow> string \<Rightarrow> Manifest \<Rightarrow> Node option \<times> Manifest" where
  "findOrCreateNode fs workingDirectory path0 m =
     (case normalize_path fs workingDirectory path0 of
        None \<Rightarrow> (None, m)
      | Some path \<Rightarrow>
          (case m_nodes m path of
             Some n \<Rightarrow> (Some n, m)
           | None \<Rightarrow>
               (let n = \<lparr>canonicalPath = path, screenPath = path0\<rparr>
                in (Some n, m\<lparr>m_nodes := (m_nodes m)(path \<mapsto> n)\<rparr>))))"

section \<open>Normalization against a reference definition\<close>

text \<open>
  The reference: split the path at its separators, drop empty and \<^verbatim>\<open>.\<close> components, let \<^verbatim>\<open>..\<close>
  remove the component before it. \<open>dirstr\<close> prints a list of components as a directory.
\<close>

fun resolve :: "string list \<Rightarrow> string list \<Rightarrow> string list" where
  "resolve st [] = st"
| "resolve st (w # ws) =
     (if w = [] \<or> w = [dot] then resolve st ws
      else if w = [dot, dot] then resolve (butlast st) ws
      else resolve (st @ [w]) ws)"

definition dirstr :: "string list \<Rightarrow> string" where
  "dirstr st = slash # concat (map (\<lambda>w. w @ [slash]) st)"

definition canonical :: "string list \<Rightarrow> string" where
  "canonical ws =
     (let st = resolve [] ws
      in if last ws \<in> {[], [dot], [dot, dot]} then dirstr st else butlast (dirstr st))"

text \<open>The path with the components \<open>ws\<close>.\<close>

definition path_of :: "string list \<Rightarrow> string" where
  "path_of ws = concat (map (\<lambda>w. slash # w) ws)"

definition slash_free :: "string \<Rightarrow> bool" where
  "slash_free w \<longleftrightarrow> slash \<notin> set w"

lemma dirstr_snoc: "dirstr (st @ [w]) = dirstr st @ w @ [slash]"
  by (simp add: dirstr_def)

lemma dirstr_last [simp]: "last (dirstr st) = slash" "dirstr st \<noteq> []"
  by (cases st rule: rev_cases; simp add: dirstr_def)+

lemma parent_pos_append:
  assumes "slash \<notin> set w" "w \<noteq> []" "dst \<noteq> []" "last dst = slash"
  shows "parent_pos (dst @ w @ [slash]) (length dst + length w - 1)
    = (if length dst = 1 then 0 else length dst)"
proof -
  have "parent_pos (dst @ w @ [slash]) (length dst + k)
      = parent_pos (dst @ w @ [slash]) (length dst - 1)" if "k < length w" for k
    using that
  proof (induction k)
    case 0
    have "(dst @ w @ [slash]) ! length dst \<noteq> slash"
      using assms(1) 0 nth_mem [of 0 w] by (auto simp: nth_append simp del: nth_mem)
    then show ?case using assms(3) by (cases "length dst") auto
  next
    case (Suc k)
    have "(dst @ w @ [slash]) ! Suc (length dst + k) = w ! Suc k"
      using Suc.prems by (simp add: nth_append)
    then have "(dst @ w @ [slash]) ! Suc (length dst + k) \<noteq> slash"
      using Suc.prems assms(1) nth_mem by metis
    with Suc show ?case by simp
  qed
  from this [of "length w - 1"] have "parent_pos (dst @ w @ [slash]) (length dst + length w - 1)
      = parent_pos (dst @ w @ [slash]) (length dst - 1)"
    using assms(2) by (cases "length w") auto
  moreover have "parent_pos (dst @ w @ [slash]) (length dst - 1)
      = (if length dst = 1 then 0 else length dst)"
  proof (cases "length dst = 1")
    case False
    with assms(3) obtain a b ds where "dst = a # b # ds" by (cases dst; cases "tl dst") auto
    then obtain k where k: "length dst - 1 = Suc k" by simp
    have "(dst @ w @ [slash]) ! Suc k = slash"
      using k assms(3,4) by (simp add: last_conv_nth nth_append)
    with k have "parent_pos (dst @ w @ [slash]) (length dst - 1) = length dst" by simp
    with False show ?thesis by simp
  qed simp
  ultimately show ?thesis by simp
qed

text \<open>Popping the last component of a printed directory.\<close>

lemma popDir_dirstr:
  assumes "\<forall>w \<in> set st. slash_free w \<and> w \<noteq> []"
  shows "popDir (dirstr st) = dirstr (butlast st)"
proof (cases st rule: rev_cases)
  case Nil
  then show ?thesis by (simp add: popDir_def dirstr_def)
next
  case (snoc st' w)
  with assms have w: "slash \<notin> set w" "w \<noteq> []" by (auto simp: slash_free_def)
  have "length (dirstr st) - 2 = length (dirstr st') + length w - 1"
    using w snoc by (simp add: dirstr_snoc)
  moreover have "\<not> length (dirstr st) \<le> 1" using snoc w by (simp add: dirstr_def)
  moreover have "length (dirstr st') = 1 \<Longrightarrow> dirstr st' = [slash]"
    by (cases st') (auto simp: dirstr_def)
  ultimately show ?thesis
    using parent_pos_append [OF w, of "dirstr st'"] snoc
    by (auto simp: popDir_def Let_def dirstr_snoc)
qed

text \<open>Copying a component without a separator.\<close>

lemma normLoop_copy: "slash_free w \<Longrightarrow> normLoop dst (w @ src) = normLoop (dst @ w) src"
  by (induction w arbitrary: dst) (auto simp: slash_free_def normLoop.simps(2))

text \<open>The destination in front of a separator: a directory, perhaps without its last separator.\<close>

definition norm_dst :: "string list \<Rightarrow> string \<Rightarrow> bool" where
  "norm_dst st dst \<longleftrightarrow> dst = dirstr st \<or> dst @ [slash] = dirstr st \<and> (dst = [] \<or> last dst \<noteq> slash)"

lemma norm_dst_slash:
  assumes "norm_dst st dst"
  shows "(if dst = [] \<or> last dst \<noteq> slash then dst @ [slash] else dst) = dirstr st"
  using assms by (auto simp: norm_dst_def)

definition tail_ok :: "string \<Rightarrow> bool" where
  "tail_ok src \<longleftrightarrow> src = [] \<or> hd src = slash"

lemma normLoop_plain:
  assumes "norm_dst st dst" "slash_free w" "w \<notin> {[], [dot], [dot, dot]}" "tail_ok src"
  shows "normLoop dst (slash # w @ src) = normLoop (dirstr st @ w) src"
proof -
  from assms(3) obtain c w' where w: "w = c # w'" by (cases w) auto
  have c: "c \<noteq> slash" using assms(2) w by (auto simp: slash_free_def)
  have full: "normLoop (dirstr st) (w @ src) = normLoop (dirstr st @ w) src"
    by (rule normLoop_copy [OF assms(2)])
  show ?thesis
  proof (cases "c = dot")
    case False
    with w full show ?thesis
      by (subst normLoop.simps(2)) (simp add: norm_dst_slash [OF assms(1)] Let_def)
  next
    case True
    with w assms(3) obtain d w'' where w': "w' = d # w''" by (cases w') auto
    have d: "d \<noteq> slash" using assms(2) w w' by (auto simp: slash_free_def)
    show ?thesis
    proof (cases "d = dot")
      case False
      have "normLoop (dirstr st @ [dot]) (w' @ src) = normLoop (dirstr st @ w) src"
        using normLoop_copy [of w' "dirstr st @ [dot]" src] assms(2) w True by (simp add: slash_free_def)
      with True False w w' d show ?thesis
        by (subst normLoop.simps(2)) (simp add: norm_dst_slash [OF assms(1)] Let_def)
    next
      case dd: True
      with True w w' assms(3) obtain e w3 where w'': "w'' = e # w3" by (cases w'') auto
      have "e \<noteq> slash" using assms(2) w w' w'' by (auto simp: slash_free_def)
      with True dd w w' w'' full show ?thesis
        by (subst normLoop.simps(2)) (simp add: norm_dst_slash [OF assms(1)] Let_def)
    qed
  qed
qed

lemma normLoop_special:
  assumes "norm_dst st dst" "tail_ok src" "\<forall>w \<in> set st. slash_free w \<and> w \<noteq> []"
  shows "normLoop dst (slash # src) = normLoop (dirstr st) src"
    "normLoop dst (slash # dot # src) = normLoop (dirstr st) src"
    "normLoop dst (slash # dot # dot # src) = normLoop (dirstr (butlast st)) src"
  using assms(2) popDir_dirstr [OF assms(3)]
  by (cases src; auto simp: normLoop.simps(2) [of dst] norm_dst_slash [OF assms(1)] Let_def
    tail_ok_def)+

lemma tail_ok_path_of: "tail_ok (path_of ws)"
  by (cases ws) (auto simp: tail_ok_def path_of_def)

lemma path_of_simps [simp]: "path_of [] = []" "path_of (w # ws) = slash # w @ path_of ws"
  by (simp_all add: path_of_def)

definition special :: "string \<Rightarrow> bool" where
  "special w \<longleftrightarrow> w \<in> {[], [dot], [dot, dot]}"

lemma normLoop_component:
  assumes "norm_dst st dst" "\<forall>w \<in> set st. slash_free w \<and> w \<noteq> []" "special w"
  shows "normLoop dst (path_of (w # ws)) = normLoop (dirstr (resolve st [w])) (path_of ws)"
proof -
  note eqs = normLoop_special [OF assms(1) tail_ok_path_of [of ws] assms(2)]
  from assms(3) consider "w = []" | "w = [dot]" | "w = [dot, dot]" by (auto simp: special_def)
  then show ?thesis by cases (simp_all add: eqs)
qed

lemma resolve_Cons: "resolve st (w # ws) = resolve (resolve st [w]) ws"
  by simp

lemma resolve_wf:
  "\<forall>w \<in> set st. slash_free w \<and> w \<noteq> [] \<Longrightarrow> \<forall>w \<in> set ws. slash_free w \<Longrightarrow>
    \<forall>w \<in> set (resolve st ws). slash_free w \<and> w \<noteq> []"
proof (induction st ws rule: resolve.induct)
  case (2 st w ws)
  have "\<forall>w \<in> set (butlast st). slash_free w \<and> w \<noteq> []" using 2(4) by (auto dest: in_set_butlastD)
  note IH = 2(1) [OF _ 2(4)] 2(2) [OF _ _ this] 2(3)
  have st: "\<forall>w \<in> set st. slash_free w \<and> w \<noteq> []" by (rule 2(4))
  have ws: "\<forall>w \<in> set ws. slash_free w" and w: "slash_free w" using 2(5) by auto
  consider "w = [] \<or> w = [dot]" | "\<not> (w = [] \<or> w = [dot])" "w = [dot, dot]"
    | "\<not> (w = [] \<or> w = [dot])" "w \<noteq> [dot, dot]" by blast
  then show ?case
  proof cases
    case 1
    from IH(1) [OF this ws] 1 show ?thesis by (subst resolve.simps) (simp only: if_True)
  next
    case 2
    from IH(2) [OF this ws] 2 show ?thesis by (subst resolve.simps) (simp only: if_False if_True simp_thms)
  next
    case 3
    have "\<forall>w \<in> set (st @ [w]). slash_free w \<and> w \<noteq> []" using st w 3 by auto
    from IH(3) [OF 3 this ws] 3 show ?thesis by (subst resolve.simps) (simp only: if_False simp_thms)
  qed
qed simp

lemma normLoop_path:
  assumes "norm_dst st dst" "\<forall>w \<in> set st. slash_free w \<and> w \<noteq> []" "\<forall>w \<in> set ws. slash_free w" "ws \<noteq> []"
  shows "normLoop dst (path_of ws) =
    (if special (last ws) then dirstr (resolve st ws) else butlast (dirstr (resolve st ws)))"
  using assms
proof (induction ws arbitrary: st dst)
  case (Cons w ws)
  have wf: "\<forall>w \<in> set (resolve st [w]). slash_free w \<and> w \<noteq> []"
    using Cons.prems by (intro resolve_wf) auto
  show ?case
  proof (cases "special w")
    case True
    have eq: "normLoop dst (path_of (w # ws)) = normLoop (dirstr (resolve st [w])) (path_of ws)"
      by (rule normLoop_component [OF Cons.prems(1,2) True])
    show ?thesis
    proof (cases "ws = []")
      case True
      with eq \<open>special w\<close> show ?thesis by simp
    next
      case False
      with eq Cons.IH [OF _ wf, of "dirstr (resolve st [w])"] Cons.prems show ?thesis
        unfolding resolve_Cons [of st w ws] by (simp add: norm_dst_def)
    qed
  next
    case False
    then have w: "slash_free w" "w \<notin> {[], [dot], [dot, dot]}" "w \<noteq> []"
      using Cons.prems(3) by (auto simp: special_def)
    have "last w \<noteq> slash" using w(1,3) last_in_set by (metis slash_free_def)
    with w have dst: "norm_dst (st @ [w]) (dirstr st @ w)" by (simp add: norm_dst_def dirstr_snoc)
    have eq: "normLoop dst (path_of (w # ws)) = normLoop (dirstr st @ w) (path_of ws)"
      using normLoop_plain [OF Cons.prems(1) w(1,2) tail_ok_path_of [of ws]] by simp
    show ?thesis
    proof (cases "ws = []")
      case True
      with eq w False show ?thesis by (simp add: dirstr_snoc butlast_append)
    next
      case ne: False
      with Cons.IH [OF dst] Cons.prems w eq show ?thesis by simp
    qed
  qed
qed simp

text \<open>
  C16. On an absolute path the in-place rewriting of \<^verbatim>\<open>normalize_path\<close> computes the reference: the
  components are resolved, empty and \<^verbatim>\<open>.\<close> components removed and \<^verbatim>\<open>..\<close> applied (it stops at the
  root); a final separator is kept exactly when the last component was empty, \<^verbatim>\<open>.\<close> or \<^verbatim>\<open>..\<close>.
\<close>

theorem normalize_path_canonical:
  assumes "make_absolute fs wd path = Some (root @ path_of ws)" "is_absolute fs (root @ path_of ws)"
    and "root_name_length fs (root @ path_of ws) = length root"
    and "ws \<noteq> []" "\<forall>w \<in> set ws. slash_free w"
  shows "normalize_path fs wd path = Some (root @ canonical ws)"
proof -
  have "norm_dst [] []" by (simp add: norm_dst_def dirstr_def)
  from normLoop_path [OF this _ assms(5,4)] have "normLoop [] (path_of ws) = canonical ws"
    by (auto simp: canonical_def Let_def special_def)
  moreover have "path_of ws \<noteq> []" using assms(4) by (cases ws) auto
  ultimately show ?thesis using assms(1-3) by (simp add: normalize_path_def Let_def)
qed

text \<open>The path functions of LLVM on a POSIX system, for paths without a network root.\<close>

definition posix_paths :: path_ops where
  "posix_paths = \<lparr>make_absolute = (\<lambda>dir p.
       if p \<noteq> [] \<and> hd p = slash then Some p else Some (dir @ slash # p)),
     is_absolute = (\<lambda>p. p \<noteq> [] \<and> hd p = slash), root_name_length = (\<lambda>p. 0)\<rparr>"

lemma normalize_path_canonical_witness:
  "normalize_path posix_paths ''/w'' ''a/./b/../c'' = Some ''/w/a/c''"
proof -
  have "normalize_path posix_paths ''/w'' ''a/./b/../c''
      = Some ([] @ canonical [''w'', ''a'', ''.'', ''b'', ''..'', ''c''])"
    by (rule normalize_path_canonical) (simp_all add: posix_paths_def slash_free_def)
  also have "\<dots> = Some ''/w/a/c''" by code_simp
  finally show ?thesis .
qed

text \<open>
  Consequently a node is found again under every spelling of its path with the same
  resolved components and the same kind of last component, and creating a node again changes
  nothing.
\<close>

theorem findOrCreateNode_same:
  assumes "normalize_path fs wd p = normalize_path fs wd q" "normalize_path fs wd p = Some c"
    and "findOrCreateNode fs wd p m = (n, m')"
  shows "findNode fs wd q m' = n \<and> n \<noteq> None \<and> findOrCreateNode fs wd q m' = (n, m')"
  using assms
  by (auto simp: findOrCreateNode_def findNode_def Let_def split: option.splits)

lemma findOrCreateNode_same_witness:
  "findNode posix_paths ''/w'' ''./a'' (snd (findOrCreateNode posix_paths ''/w'' ''a'' (fst newManifest)))
    = Some \<lparr>canonicalPath = ''/w/a'', screenPath = ''a''\<rparr>"
proof -
  have p: "normalize_path posix_paths ''/w'' ''a'' = Some ''/w/a''"
    "normalize_path posix_paths ''/w'' ''./a'' = Some ''/w/a''"
    by code_simp+
  then have "fst (findOrCreateNode posix_paths ''/w'' ''a'' (fst newManifest))
      = Some \<lparr>canonicalPath = ''/w/a'', screenPath = ''a''\<rparr>"
    by (simp add: findOrCreateNode_def newManifest_def Let_def)
  with findOrCreateNode_same [OF _ p(1) prod.collapse [symmetric], of "''./a''"] p show ?thesis by simp
qed

end
