(* ===== verification/ShellUtility.thy ===== *)
theory ShellUtility
  imports Prelude
begin

text \<open>
  Argument escaping: \<^verbatim>\<open>lib/Basic/ShellUtility.cpp\<close>, the POSIX branch (\<^verbatim>\<open>appendShellEscapedString\<close>,
  \<^verbatim>\<open>shellEscaped\<close>) and the Windows branch (\<^verbatim>\<open>formatWindowsCommandArg\<close>,
  \<^verbatim>\<open>formatWindowsCommandString\<close>). The specifications are readers: \<open>sh_words\<close> splits a line the way
  the shell does for the characters that occur here, and \<open>win_arg\<close> follows the rules that the
  comment in the source states for backslashes before a quote. What is special to the shell is
  stated by itself (\<open>shell_special\<close>), not taken from the code.
\<close>

section \<open>POSIX escaping\<close>

abbreviation quote_char :: char where "quote_char \<equiv> CHR 0x27"
abbreviation backslash :: char where "backslash \<equiv> CHR 0x5C"
abbreviation dquote :: char where "dquote \<equiv> CHR 0x22"

definition whitelist :: string where
  "whitelist = ''abcdefghijklmnopqrstuvwxyzABCDEFGHIJKLMNOPQRSTUVWXYZ1234567890-_/:@#%+=.,''"

text \<open>\<^verbatim>\<open>StringRef::find_first_not_of\<close> and \<^verbatim>\<open>find_first_of\<close> from an index; \<^term>\<open>None\<close> is \<^verbatim>\<open>npos\<close>.\<close>

definition find_from :: "(char \<Rightarrow> bool) \<Rightarrow> string \<Rightarrow> nat \<Rightarrow> nat option" where
  "find_from P s i =
     (case filter (\<lambda>j. P (s ! j)) [i..<length s] of [] \<Rightarrow> None | j # _ \<Rightarrow> Some j)"

text \<open>The loop from the first quote on.\<close>

primrec escape_quotes :: "string \<Rightarrow> string" where
  "escape_quotes [] = []"
| "escape_quotes (c # cs) =
     (if c = quote_char then [quote_char, backslash, quote_char, quote_char] else [c]) @ escape_quotes cs"

definition appendShellEscapedString :: "string \<Rightarrow> string \<Rightarrow> string" where
  "appendShellEscapedString os s =
     (case find_from (\<lambda>c. c \<notin> set whitelist) s 0 of
        None \<Rightarrow> os @ s
      | Some p \<Rightarrow>
          (case find_from (\<lambda>c. c = quote_char) s p of
             None \<Rightarrow> os @ [quote_char] @ s @ [quote_char]
           | Some q \<Rightarrow> os @ [quote_char] @ take q s @ escape_quotes (drop q s) @ [quote_char]))"

definition shellEscaped :: "string \<Rightarrow> string" where
  "shellEscaped s = appendShellEscapedString [] s"

section \<open>The shell's reading\<close>

text \<open>
  The characters that mean something to the shell when they are not quoted: those that POSIX says have to be
  quoted, the patterns, the tilde, and braces and the exclamation mark of common shells. A \<open>#\<close> is special at the
  start of a word only.
\<close>

definition shell_special :: string where
  "shell_special = [CHR ''|'', CHR ''&'', CHR '';'', CHR ''<'', CHR ''>'', CHR ''('', CHR '')'', CHR ''$'', CHR 0x60, backslash,
     dquote, quote_char, CHR '' '', CHR 0x09, CHR 0x0A, CHR ''*'', CHR ''?'', CHR ''['', CHR ''~'', CHR ''{'', CHR ''}'', CHR ''!'']"

text \<open>
  The rest of a word: the flag tells whether we are inside single quotes. A blank outside
  quotes ends the word, a backslash there quotes the next character. Other unquoted special characters are
  refused: the line is then not made of plain words.
\<close>

fun sh_word :: "bool \<Rightarrow> string \<Rightarrow> (string \<times> string) option" where
  "sh_word False [] = Some ([], [])"
| "sh_word True [] = None"
| "sh_word True (c # cs) =
     (if c = quote_char then sh_word False cs
      else map_option (\<lambda>(w, r). (c # w, r)) (sh_word True cs))"
| "sh_word False (c # cs) =
     (if c = quote_char then sh_word True cs
      else if c = CHR '' '' \<or> c = CHR 0x09 then Some ([], cs)
      else if c = backslash then
        (case cs of [] \<Rightarrow> None | d # ds \<Rightarrow> map_option (\<lambda>(w, r). (d # w, r)) (sh_word False ds))
      else if c \<in> set shell_special then None
      else map_option (\<lambda>(w, r). (c # w, r)) (sh_word False cs))"

lemma sh_word_length: "sh_word b s = Some (w, r) \<Longrightarrow> length r \<le> length s"
  by (induction b s arbitrary: w r rule: sh_word.induct)
    (fastforce split: if_splits list.splits)+

text \<open>A line: blanks are skipped, an unquoted \<open>#\<close> at the start of a word begins a comment.\<close>

function sh_words :: "string \<Rightarrow> string list option" where
  "sh_words [] = Some []"
| "sh_words (c # cs) =
     (if c = CHR '' '' \<or> c = CHR 0x09 then sh_words cs
      else if c = CHR ''#'' then Some []
      else case sh_word False (c # cs) of
             None \<Rightarrow> None
           | Some (w, r) \<Rightarrow> if length r < length (c # cs)
                            then map_option (\<lambda>ws. w # ws) (sh_words r) else None)"
  by pat_completeness auto
termination
  by (relation "measure length") (auto simp del: sh_word.simps)

declare sh_words.simps [simp del]

lemma find_from_None: "find_from P s i = None \<longleftrightarrow> (\<forall>j. i \<le> j \<and> j < length s \<longrightarrow> \<not> P (s ! j))"
proof -
  have "find_from P s i = None \<longleftrightarrow> filter (\<lambda>j. P (s ! j)) [i..<length s] = []"
    by (simp add: find_from_def split: list.splits)
  then show ?thesis by (auto simp: filter_empty_conv)
qed

lemma find_from_Some:
  assumes "find_from P s i = Some j"
  shows "i \<le> j" "j < length s" "P (s ! j)" "\<forall>k. i \<le> k \<and> k < j \<longrightarrow> \<not> P (s ! k)"
proof -
  obtain js where f: "filter (\<lambda>j. P (s ! j)) [i..<length s] = j # js"
    using assms by (auto simp: find_from_def split: list.splits)
  then have "j \<in> set (filter (\<lambda>j. P (s ! j)) [i..<length s])" by simp
  then show "i \<le> j" "j < length s" "P (s ! j)" by auto
  have "sorted (filter (\<lambda>j. P (s ! j)) [i..<length s])"
    using sorted_filter [of "\<lambda>x. x" "[i..<length s]"] by simp
  with f have "\<forall>x \<in> set js. j \<le> x" by simp
  moreover have "k \<in> set (j # js)" if "i \<le> k" "k < length s" "P (s ! k)" for k
    using that f by (metis (mono_tags, lifting) atLeastLessThan_iff mem_Collect_eq set_filter set_upt)
  ultimately show "\<forall>k. i \<le> k \<and> k < j \<longrightarrow> \<not> P (s ! k)"
    using \<open>j < length s\<close> by fastforce
qed

text \<open>Escaping in closed form: nothing to do, or every quote replaced between quotes.\<close>

lemma escape_quotes_append [simp]: "escape_quotes (xs @ ys) = escape_quotes xs @ escape_quotes ys"
  by (induction xs) auto

lemma escape_quotes_id: "quote_char \<notin> set s \<Longrightarrow> escape_quotes s = s"
  by (induction s) auto

lemma quote_not_whitelisted: "quote_char \<notin> set whitelist"
  by (simp add: whitelist_def)

lemma shellEscaped_eq:
  "shellEscaped s = (if set s \<subseteq> set whitelist then s else quote_char # escape_quotes s @ [quote_char])"
proof (cases "find_from (\<lambda>c. c \<notin> set whitelist) s 0")
  case None
  then have "set s \<subseteq> set whitelist"
    by (auto simp: find_from_None in_set_conv_nth)
  with None show ?thesis
    by (simp add: shellEscaped_def appendShellEscapedString_def)
next
  case (Some p)
  note p = find_from_Some [OF Some]
  have notin: "\<not> set s \<subseteq> set whitelist"
    using p(2,3) nth_mem by blast
  have pre: "quote_char \<noteq> s ! k" if "k < p" for k
    using p(4) that quote_not_whitelisted by force
  show ?thesis
  proof (cases "find_from (\<lambda>c. c = quote_char) s p")
    case None
    then have "\<forall>k. p \<le> k \<and> k < length s \<longrightarrow> s ! k \<noteq> quote_char"
      by (simp add: find_from_None)
    then have "s ! k \<noteq> quote_char" if "k < length s" for k
      using pre [of k] that by (cases "k < p") auto
    then have "quote_char \<notin> set s"
      by (auto simp: in_set_conv_nth)
    with Some None notin show ?thesis
      by (simp add: shellEscaped_def appendShellEscapedString_def escape_quotes_id)
  next
    case (Some q)
    note q = find_from_Some [OF Some]
    have "s ! k \<noteq> quote_char" if "k < q" for k
      using q(4) [rule_format, of k] pre [of k] that by (cases "k < p") auto
    then have "quote_char \<notin> set (take q s)"
      by (force simp: in_set_conv_nth)
    then have "take q s @ escape_quotes (drop q s) = escape_quotes s"
      by (metis append_take_drop_id escape_quotes_append escape_quotes_id)
    then show ?thesis
      using \<open>find_from (\<lambda>c. c \<notin> set whitelist) s 0 = Some p\<close> Some notin
      by (simp add: shellEscaped_def appendShellEscapedString_def)
  qed
qed

text \<open>What follows a word in a line: the end, or a blank and the rest.\<close>

definition word_end :: "string \<Rightarrow> string \<Rightarrow> bool" where
  "word_end t r \<longleftrightarrow> (t = [] \<and> r = []) \<or> t = CHR '' '' # r"

text \<open>No character that the code leaves unquoted is special.\<close>

lemma whitelist_plain: "set whitelist \<inter> set shell_special = {}"
  by (simp add: whitelist_def shell_special_def)

lemma sh_word_plain:
  "set s \<subseteq> set whitelist \<Longrightarrow> word_end t r \<Longrightarrow> sh_word False (s @ t) = Some (s, r)"
proof (induction s)
  case (Cons c cs)
  then have "c \<notin> set shell_special" using whitelist_plain by auto
  moreover from this have "c \<noteq> quote_char" "c \<noteq> CHR '' ''" "c \<noteq> CHR 0x09" "c \<noteq> backslash"
    by (auto simp: shell_special_def)
  ultimately show ?case using Cons by simp
qed (auto simp: word_end_def)

lemma sh_word_quoted:
  "word_end t r \<Longrightarrow> sh_word True (escape_quotes s @ quote_char # t) = Some (s, r)"
proof (induction s)
  case Nil
  then show ?case using sh_word_plain [of "[]" t r] by simp
qed auto

lemma sh_word_escaped: "word_end t r \<Longrightarrow> sh_word False (shellEscaped s @ t) = Some (s, r)"
  by (simp add: shellEscaped_eq sh_word_plain sh_word_quoted)

text \<open>The words the escaper keeps apart: not empty, and not opening a comment.\<close>

definition plain_word :: "string \<Rightarrow> bool" where
  "plain_word s \<longleftrightarrow> s \<noteq> [] \<and> hd s \<noteq> CHR ''#''"

lemma shellEscaped_head:
  assumes "plain_word s"
  obtains c cs where "shellEscaped s = c # cs" "c \<noteq> CHR '' ''" "c \<noteq> CHR 0x09" "c \<noteq> CHR ''#''"
proof (cases "set s \<subseteq> set whitelist")
  case True
  with assms obtain c cs where "s = c # cs" "c \<in> set whitelist" "c \<noteq> CHR ''#''"
    by (cases s) (auto simp: plain_word_def)
  with True that show ?thesis by (auto simp: shellEscaped_eq whitelist_def)
next
  case False
  with that show ?thesis by (simp add: shellEscaped_eq)
qed

fun join_args :: "string list \<Rightarrow> string" where
  "join_args [] = []"
| "join_args [s] = shellEscaped s"
| "join_args (s # t # ss) = shellEscaped s @ CHR '' '' # join_args (t # ss)"

lemma sh_words_step:
  assumes "plain_word s" "word_end t r"
  shows "sh_words (shellEscaped s @ t) = map_option (\<lambda>ws. s # ws) (sh_words r)"
proof -
  obtain c cs where c: "shellEscaped s = c # cs" "c \<noteq> CHR '' ''" "c \<noteq> CHR 0x09" "c \<noteq> CHR ''#''"
    using shellEscaped_head [OF assms(1)] .
  have w: "sh_word False ((c # cs) @ t) = Some (s, r)"
    using sh_word_escaped [OF assms(2), of s] c(1) by simp
  have "length r < length ((c # cs) @ t)"
    using assms(2) by (auto simp: word_end_def)
  with w c show ?thesis by (simp add: sh_words.simps(2) del: sh_word.simps)
qed

text \<open>
  C23. A command line made of escaped arguments separated by blanks is split by the shell
  into exactly those words, without expansions and operators, for arguments that are not empty and do
  not start with \<open>#\<close>. (What the first word means to the shell, an assignment or a reserved word, is
  not the business of the escaping.)
\<close>

theorem shell_join_roundtrip:
  assumes "list_all plain_word args"
  shows "sh_words (join_args args) = Some args"
  using assms
proof (induction args rule: join_args.induct)
  case (2 s)
  then show ?case using sh_words_step [of s "[]" "[]"] by (simp add: word_end_def sh_words.simps)
next
  case (3 s t ss)
  then show ?case
    using sh_words_step [of s "CHR '' '' # join_args (t # ss)" "join_args (t # ss)"]
    by (simp add: word_end_def)
qed (simp add: sh_words.simps)

theorem shell_join_roundtrip_witness:
  "sh_words (join_args [''cc'', ''a b'', ''it'' @ [quote_char] @ ''s'']) = Some [''cc'', ''a b'', ''it'' @ [quote_char] @ ''s'']"
  by (rule shell_join_roundtrip) (simp add: plain_word_def)

text \<open>
  The two exceptions are real: an empty argument disappears, and an argument that
  starts with \<open>#\<close> and needs no quoting turns the rest of the line into a comment.
\<close>

theorem shell_escape_gaps:
  "shellEscaped [] = [] \<and>
   sh_words (join_args [''cc'', [], ''x'']) = Some [''cc'', ''x''] \<and>
   sh_words (join_args [''cc'', ''#x'', ''y'']) = Some [''cc'']"
proof -
  have e: "shellEscaped [] = []" "shellEscaped ''#x'' = ''#x''" "shellEscaped ''y'' = ''y''"
    by (simp_all add: shellEscaped_eq whitelist_def)
  have "sh_words (join_args [''cc'', [], ''x'']) = map_option (\<lambda>ws. ''cc'' # ws) (sh_words (CHR '' '' # shellEscaped ''x''))"
    using sh_words_step [of "''cc''" "CHR '' '' # CHR '' '' # shellEscaped ''x''" "CHR '' '' # shellEscaped ''x''"]
    by (simp add: plain_word_def word_end_def e)
  moreover have "sh_words (CHR '' '' # shellEscaped ''x'') = Some [''x'']"
    using sh_words_step [of "''x''" "[]" "[]"] by (simp add: plain_word_def word_end_def sh_words.simps)
  moreover have "sh_words (join_args [''cc'', ''#x'', ''y'']) = map_option (\<lambda>ws. ''cc'' # ws) (sh_words (''#x y''))"
    using sh_words_step [of "''cc''" "CHR '' '' # ''#x y''" "''#x y''"]
    by (simp add: plain_word_def word_end_def e)
  ultimately show ?thesis using e by (simp add: sh_words.simps)
qed

section \<open>Windows escaping\<close>

definition needsQuote :: string where
  "needsQuote = [CHR '' '', CHR 0x09, CHR 0x0A, CHR 0x0B, dquote]"

text \<open>
  The loop of \<^verbatim>\<open>formatWindowsCommandArg\<close>: \<open>n\<close> counts the backslashes just read.
\<close>

fun win_escape :: "nat \<Rightarrow> string \<Rightarrow> string" where
  "win_escape n [] = replicate (n * 2) backslash"
| "win_escape n (c # cs) =
     (if c = backslash then win_escape (n + 1) cs
      else if c = dquote then replicate (n * 2 + 1) backslash @ [c] @ win_escape 0 cs
      else replicate n backslash @ [c] @ win_escape 0 cs)"

definition formatWindowsCommandArg :: "string \<Rightarrow> string" where
  "formatWindowsCommandArg s =
     (if find_from (\<lambda>c. c \<in> set needsQuote) s 0 = None then s
      else [dquote] @ win_escape 0 s @ [dquote])"

definition formatWindowsCommandString :: "string list \<Rightarrow> string" where
  "formatWindowsCommandString args =
     (let commandLine = concat (map (\<lambda>arg. formatWindowsCommandArg arg @ '' '') args)
      in if commandLine \<noteq> [] then butlast commandLine else commandLine)"

text \<open>
  The reader's rules inside a quoted argument, with \<open>n\<close> backslashes pending: before a quote,
  \<open>2k\<close> of them are \<open>k\<close> backslashes and the quote closes the argument, \<open>2k + 1\<close> are \<open>k\<close>
  backslashes and a literal quote; before anything else they stand for themselves.
\<close>

fun win_arg :: "nat \<Rightarrow> string \<Rightarrow> (string \<times> string) option" where
  "win_arg n [] = None"
| "win_arg n (c # cs) =
     (if c = backslash then win_arg (n + 1) cs
      else if c = dquote
      then (if even n then Some (replicate (n div 2) backslash, cs)
            else map_option (\<lambda>(w, r). (replicate (n div 2) backslash @ dquote # w, r)) (win_arg 0 cs))
      else map_option (\<lambda>(w, r). (replicate n backslash @ c # w, r)) (win_arg 0 cs))"

lemma win_arg_backslashes: "win_arg n (replicate m backslash @ s) = win_arg (n + m) s"
  by (induction m arbitrary: n) auto

lemma win_arg_escape:
  "win_arg 0 (win_escape n s @ dquote # r) = Some (replicate n backslash @ s, r)"
proof (induction n s rule: win_escape.induct)
  case (1 n)
  then show ?case by (simp add: win_arg_backslashes)
next
  case (2 n c cs)
  then show ?case
    by (auto simp: win_arg_backslashes replicate_append_same simp flip: replicate_Suc)
qed

text \<open>
  A Windows argument that needs quoting is read back unchanged: the opening quote, the
  escaped text and the closing quote denote exactly the original string, whatever follows.
\<close>

theorem windows_arg_roundtrip:
  assumes "\<exists>c \<in> set s. c \<in> set needsQuote"
  shows "\<exists>body. formatWindowsCommandArg s = dquote # body \<and> win_arg 0 (body @ r) = Some (s, r)"
proof -
  have "find_from (\<lambda>c. c \<in> set needsQuote) s 0 \<noteq> None"
    using assms by (metis find_from_None in_set_conv_nth le0)
  then show ?thesis
    using win_arg_escape [of 0 s r] by (auto simp: formatWindowsCommandArg_def)
qed

theorem windows_arg_roundtrip_witness:
  "\<exists>body. formatWindowsCommandArg (''a b'' @ [backslash, dquote, backslash]) = dquote # body
     \<and> win_arg 0 (body @ '' x'') = Some (''a b'' @ [backslash, dquote, backslash], '' x'')"
  by (rule windows_arg_roundtrip) (simp add: needsQuote_def)

end
