(* ===== verification/NinjaLoader.thy ===== *)
theory NinjaLoader
  imports NinjaParser NinjaManifest ShellUtility
begin

text \<open>
  The manifest loader, \<^verbatim>\<open>lib/Ninja/ManifestLoader.cpp\<close>: string evaluation, and the parse
  actions, which build the manifest. The parser's calls are consumed one at a time; the
  include stack holds, for each file being read, the calls still to come. Reading a file is
  the client's: \<open>readFile\<close> gives the buffer's identifier and its contents.
\<close>

section \<open>String evaluation\<close>

abbreviation sq :: string where "sq \<equiv> [CHR 0x27]"

definition isspace_char :: "char \<Rightarrow> bool" where
  "isspace_char c = isspace (char_int c)"

definition isIdent :: "char \<Rightarrow> bool" where
  "isIdent c = isIdentifierChar (char_int c)"

definition isSimpleIdent :: "char \<Rightarrow> bool" where
  "isSimpleIdent c = isSimpleIdentifierChar (char_int c)"

text \<open>
  \<^verbatim>\<open>evalString\<close>: the output and the errors, in order. \<open>lookup\<close> may fail (\<^term>\<open>None\<close>: it does not
  return) and report errors of its own; \<open>fmt\<close> is what the error callback does to a message.
\<close>

definition emit_out :: "string \<Rightarrow> (string \<times> string list) option \<Rightarrow> (string \<times> string list) option" where
  "emit_out out r = map_option (\<lambda>(rest, errs). (out @ rest, errs)) r"

definition emit_err :: "string \<Rightarrow> (string \<times> string list) option \<Rightarrow> (string \<times> string list) option" where
  "emit_err err r = map_option (\<lambda>(rest, errs). (rest, err # errs)) r"

definition seq_out ::
  "(string \<times> string list) option \<Rightarrow> (string \<times> string list) option \<Rightarrow> (string \<times> string list) option" where
  "seq_out a b = do { (o1, e1) \<leftarrow> a; (o2, e2) \<leftarrow> b; Some (o1 @ o2, e1 @ e2) }"

function evalString ::
  "(string \<Rightarrow> (string \<times> string list) option) \<Rightarrow> (string \<Rightarrow> string) \<Rightarrow> string
     \<Rightarrow> (string \<times> string list) option" where
  "evalString lookup fmt pos =
     (case pos of
        [] \<Rightarrow> Some ([], [])
      | c0 # rest \<Rightarrow>
          if c0 \<noteq> CHR 0x24 then emit_out [c0] (evalString lookup fmt rest)
          else
            (case rest of
               [] \<Rightarrow> Some ([], [fmt (''invalid '' @ sq @ ''$'' @ sq @ ''-escape at end of string'')])
             | c # r \<Rightarrow>
                 if c = CHR 0x0A then evalString lookup fmt (dropWhile isspace_char r)
                 else if c = CHR '' '' \<or> c = CHR '':'' \<or> c = CHR 0x24
                 then emit_out [c] (evalString lookup fmt r)
                 else if c = CHR 0x7B then
                   (let name = takeWhile (\<lambda>d. d \<noteq> CHR 0x7D) r;
                        after = dropWhile (\<lambda>d. d \<noteq> CHR 0x7D) r in
                    if after = []
                    then Some ([], [fmt (''invalid variable reference in string (missing trailing ''
                           @ sq @ [CHR 0x7D] @ sq @ '')'')])
                    else if \<not> list_all isIdent name
                    then emit_err (fmt ''invalid variable name in reference'')
                           (evalString lookup fmt (tl after))
                    else seq_out (lookup name) (evalString lookup fmt (tl after)))
                 else if isSimpleIdent c then
                   seq_out (lookup (c # takeWhile isSimpleIdent r))
                     (evalString lookup fmt (dropWhile isSimpleIdent r))
                 else Some ([], [fmt (''invalid '' @ sq @ ''$'' @ sq @ ''-escape (literal '' @ sq @ ''$''
                        @ sq @ '' should be written as '' @ sq @ ''$$'' @ sq @ '')'')])))"
  by pat_completeness auto
termination
proof (relation "measure (\<lambda>(_, _, pos). length pos)", goal_cases)
  case (3 lookup fmt pos c0 rest c r)
  have "length (dropWhile isspace_char r) \<le> length r" by (rule length_dropWhile_le)
  with 3 show ?case by simp
next
  case (5 lookup fmt pos c0 rest c r name after)
  have "length after \<le> length r" using 5 length_dropWhile_le by metis
  with 5 show ?case by (cases after) auto
next
  case (6 lookup fmt pos c0 rest c r name after)
  have "length after \<le> length r" using 6 length_dropWhile_le by metis
  with 6 show ?case by (cases after) auto
next
  case (7 lookup fmt pos c0 rest c r)
  have "length (dropWhile isSimpleIdent r) \<le> length r" by (rule length_dropWhile_le)
  with 7 show ?case by simp
qed auto

declare evalString.simps [simp del]

section \<open>Loader state\<close>

record IncludeEntry =
  ie_filename :: string
  ie_events :: "ninja_event list"
  ie_subninja :: bool

record Loader =
  ld_manifest :: Manifest
  ld_scopes :: "Scope list"
  includeStack :: "IncludeEntry list"
  ld_pool :: string
  ld_rule :: string
  ld_errors :: "(string \<times> string \<times> Token) list"

record loader_env =
  le_paths :: path_ops
  workingDirectory :: string
  readFile :: "string \<Rightarrow> (string \<times> string) option"

definition getCurrentFilename :: "Loader \<Rightarrow> string option" where
  "getCurrentFilename ld = (case includeStack ld of [] \<Rightarrow> None | e # _ \<Rightarrow> Some (ie_filename e))"

definition ld_error :: "string \<Rightarrow> Token \<Rightarrow> Loader \<Rightarrow> Loader option" where
  "ld_error msg at ld = do {
     f \<leftarrow> getCurrentFilename ld;
     Some (ld\<lparr>ld_errors := ld_errors ld @ [(f, msg, at)]\<rparr>)
   }"

definition enterFile :: "loader_env \<Rightarrow> string \<Rightarrow> bool \<Rightarrow> Loader \<Rightarrow> Loader option" where
  "enterFile env filename subninja ld =
     (let path = (case make_absolute (le_paths env) (workingDirectory env) filename of
                    None \<Rightarrow> filename | Some p \<Rightarrow> p)
      in (case readFile env path of
            None \<Rightarrow> Some ld
          | Some (identifier, contents) \<Rightarrow> do {
              evs \<leftarrow> parseManifest contents;
              Some (ld\<lparr>includeStack :=
                       \<lparr>ie_filename = identifier, ie_events = evs, ie_subninja = subninja\<rparr> # includeStack ld,
                     ld_scopes := (if subninja then newScope # ld_scopes ld else ld_scopes ld)\<rparr>)
            }))"

definition exitCurrentFile :: "Loader \<Rightarrow> Loader" where
  "exitCurrentFile ld =
     (case includeStack ld of
        [] \<Rightarrow> ld
      | e # es \<Rightarrow> ld\<lparr>includeStack := es,
                   ld_scopes := (if ie_subninja e then tl (ld_scopes ld) else ld_scopes ld)\<rparr>)"

text \<open>\<^verbatim>\<open>evalString\<close> on a token: the value, with the errors reported at the token.\<close>

definition evalToken :: "Token \<Rightarrow> Loader \<Rightarrow> (string \<times> Loader) option" where
  "evalToken t ld = do {
     assert_that (tokenKind t = StringTok);
     (val, errs) \<leftarrow> evalString (\<lambda>name. Some (lookupBinding (ld_scopes ld) name, [])) (\<lambda>msg. msg) (tok_text t);
     ld \<leftarrow> foldM_option (\<lambda>msg. ld_error msg t) errs ld;
     Some (val, ld)
   }"

section \<open>Parse actions\<close>

definition actOnBindingDecl :: "Token \<Rightarrow> Token \<Rightarrow> Loader \<Rightarrow> Loader option" where
  "actOnBindingDecl nameTok valueTok ld = do {
     (val, ld) \<leftarrow> evalToken valueTok ld;
     Some (ld\<lparr>ld_scopes := insertBinding (tok_text nameTok) val (ld_scopes ld)\<rparr>)
   }"

definition actOnDefaultDecl :: "loader_env \<Rightarrow> Token list \<Rightarrow> Loader \<Rightarrow> Loader option" where
  "actOnDefaultDecl env nameToks ld = foldM_option (\<lambda>nameTok ld.
     (case findNode (le_paths env) (workingDirectory env) (tok_text nameTok) (ld_manifest ld) of
        None \<Rightarrow> ld_error ''unknown target name'' nameTok ld
      | Some node \<Rightarrow> Some (ld\<lparr>ld_manifest := (ld_manifest ld)
          \<lparr>m_defaultTargets := m_defaultTargets (ld_manifest ld) @ [node]\<rparr>\<rparr>))) nameToks ld"

definition actOnIncludeDecl :: "loader_env \<Rightarrow> bool \<Rightarrow> Token \<Rightarrow> Loader \<Rightarrow> Loader option" where
  "actOnIncludeDecl env isInclude pathTok ld = do {
     (path, ld) \<leftarrow> evalToken pathTok ld;
     enterFile env path (\<not> isInclude) ld
   }"

text \<open>One output or input path: evaluated, diagnosed when empty, and made a node.\<close>

definition resolvePath ::
  "loader_env \<Rightarrow> string \<Rightarrow> Token \<Rightarrow> Loader \<Rightarrow> (string \<times> Node option \<times> Loader) option" where
  "resolvePath env msg token ld = do {
     (path, ld) \<leftarrow> evalToken token ld;
     ld \<leftarrow> (if path = [] then ld_error msg token ld else Some ld);
     (case findOrCreateNode (le_paths env) (workingDirectory env) path (ld_manifest ld) of
        (node, m) \<Rightarrow> Some (path, node, ld\<lparr>ld_manifest := m\<rparr>))
   }"

text \<open>The loop over the output tokens; \<open>i\<close> counts them.\<close>

primrec resolveOutputs ::
  "loader_env \<Rightarrow> nat \<Rightarrow> Token list \<Rightarrow> nat \<Rightarrow> Node option list \<Rightarrow> nat \<Rightarrow> Loader
     \<Rightarrow> (Node option list \<times> nat \<times> Loader) option" where
  "resolveOutputs env numTokens [] i outputs n ld = Some (outputs, n, ld)"
| "resolveOutputs env numTokens (token # tokens) i outputs n ld = do {
     (path, node, ld) \<leftarrow> resolvePath env ''empty output path'' token ld;
     if node \<in> set outputs
     then resolveOutputs env numTokens tokens (i + 1) outputs (if i < numTokens then n - 1 else n) ld
     else resolveOutputs env numTokens tokens (i + 1) (outputs @ [node]) n ld
   }"

primrec resolveInputs ::
  "loader_env \<Rightarrow> Token list \<Rightarrow> Loader \<Rightarrow> (NodeInCommand list \<times> Loader) option" where
  "resolveInputs env [] ld = Some ([], ld)"
| "resolveInputs env (token # tokens) ld = do {
     (path, node, ld) \<leftarrow> resolvePath env ''empty input path'' token ld;
     nic \<leftarrow> newNodeInCommand node path;
     (nics, ld) \<leftarrow> resolveInputs env tokens ld;
     Some (nic # nics, ld)
   }"

definition actOnBeginBuildDecl ::
  "loader_env \<Rightarrow> Token \<Rightarrow> Token list \<Rightarrow> Token list \<Rightarrow> nat \<Rightarrow> nat \<Rightarrow> nat \<Rightarrow> Loader \<Rightarrow> Loader option" where
  "actOnBeginBuildDecl env nameTok outputTokens inputTokens nExplicit nImplicit nOutputTokens ld = do {
     scope \<leftarrow> (case ld_scopes ld of [] \<Rightarrow> None | s # _ \<Rightarrow> Some s);
     (rule, ld) \<leftarrow> (case sc_rules scope (tok_text nameTok) of
        None \<Rightarrow> do { ld \<leftarrow> ld_error ''unknown rule'' nameTok ld; Some (phonyRule, ld) }
      | Some r \<Rightarrow> Some (r, ld));
     (outputs, nOutputs, ld) \<leftarrow> resolveOutputs env nOutputTokens outputTokens 0 [] nOutputTokens ld;
     (inputs, ld) \<leftarrow> resolveInputs env inputTokens ld;
     decl \<leftarrow> newCommand rule outputs inputs nExplicit nImplicit nOutputs;
     Some (ld\<lparr>ld_manifest := (ld_manifest ld)\<lparr>m_commands := m_commands (ld_manifest ld) @ [decl]\<rparr>\<rparr>)
   }"

text \<open>The declaration being parsed is the last command.\<close>

definition ld_command :: "Loader \<Rightarrow> Command option" where
  "ld_command ld = (if m_commands (ld_manifest ld) = [] then None
     else Some (last (m_commands (ld_manifest ld))))"

definition set_command :: "Command \<Rightarrow> Loader \<Rightarrow> Loader" where
  "set_command c ld = ld\<lparr>ld_manifest := (ld_manifest ld)
     \<lparr>m_commands := butlast (m_commands (ld_manifest ld)) @ [c]\<rparr>\<rparr>"

definition actOnBuildBindingDecl :: "Token \<Rightarrow> Token \<Rightarrow> Loader \<Rightarrow> Loader option" where
  "actOnBuildBindingDecl nameTok valueTok ld = do {
     (val, ld) \<leftarrow> evalToken valueTok ld;
     decl \<leftarrow> ld_command ld;
     Some (set_command (decl\<lparr>c_parameters := (c_parameters decl)(tok_text nameTok \<mapsto> val)\<rparr>) ld)
   }"

text \<open>
  \<^verbatim>\<open>lookupBuildParameterImpl\<close>. A rule parameter is evaluated with the same lookup, which does
  not return when a parameter refers to itself; \<open>fuel\<close> bounds the depth.
\<close>

primrec join_with :: "string \<Rightarrow> string list \<Rightarrow> string" where
  "join_with sep [] = []"
| "join_with sep (x # xs) = (if xs = [] then x else x @ sep @ join_with sep xs)"

definition escapeIf :: "bool \<Rightarrow> string \<Rightarrow> string" where
  "escapeIf b path = (if b then shellEscaped path else path)"

definition nodePath :: "Node option \<Rightarrow> string option" where
  "nodePath node = map_option screenPath node"

primrec lookupBuildParameter ::
  "nat \<Rightarrow> Scope list \<Rightarrow> Command \<Rightarrow> bool \<Rightarrow> string \<Rightarrow> (string \<times> string list) option" where
  "lookupBuildParameter 0 = (\<lambda>scopes decl escape name. None)"
| "lookupBuildParameter (Suc fuel) = (\<lambda>scopes decl escape name.
     if name = ''in'' \<or> name = ''in_newline''
     then Some (join_with (if name = ''in'' then '' '' else [CHR 0x0A])
            (map (escapeIf escape \<circ> getScreenPath) (explicitInputs decl)), [])
     else if name = ''out''
     then do {
       paths \<leftarrow> mapM_option nodePath (getExplicitOutputs decl);
       Some (join_with '' '' (map (escapeIf escape) paths), [])
     }
     else
       (case c_parameters decl name of
          Some v \<Rightarrow> Some (v, [])
        | None \<Rightarrow>
            (case nr_parameters (c_rule decl) name of
               Some template \<Rightarrow>
                 evalString (lookupBuildParameter fuel scopes decl escape)
                   (\<lambda>msg. msg @ '' during evaluation of '' @ sq @ name @ sq) template
             | None \<Rightarrow> Some (lookupBinding scopes name, []))))"

text \<open>
  A rule has at most nine parameters, so a chain of evaluations that does not repeat one is
  at most ten lookups deep.
\<close>

definition lookupNamedBuildParameter ::
  "Token \<Rightarrow> string \<Rightarrow> Loader \<Rightarrow> (string \<times> Loader) option" where
  "lookupNamedBuildParameter startTok name ld = do {
     decl \<leftarrow> ld_command ld;
     (val, errs) \<leftarrow> lookupBuildParameter 10 (ld_scopes ld) decl (name = ''command'') name;
     ld \<leftarrow> foldM_option (\<lambda>msg. ld_error msg startTok) errs ld;
     Some (val, ld)
   }"

definition update_command :: "(Command \<Rightarrow> Command) \<Rightarrow> Loader \<Rightarrow> Loader option" where
  "update_command f ld = do { c \<leftarrow> ld_command ld; Some (set_command (f c) ld) }"

definition setDependencies :: "Token \<Rightarrow> string \<Rightarrow> string \<Rightarrow> Loader \<Rightarrow> Loader option" where
  "setDependencies startTok deps depfile ld = do {
     (style, ld) \<leftarrow>
       (if deps = [] then Some (if depfile \<noteq> [] then DepsGCC else DepsNone, ld)
        else if deps = ''gcc'' then Some (DepsGCC, ld)
        else if deps = ''msvc'' then Some (DepsMSVC, ld)
        else do { ld \<leftarrow> ld_error (''invalid '' @ sq @ ''deps'' @ sq @ '' style '' @ sq @ deps @ sq) startTok ld;
                  Some (DepsNone, ld) });
     ld \<leftarrow> update_command (\<lambda>c. c\<lparr>depsStyle := style\<rparr>) ld;
     if depfile \<noteq> []
     then (if style \<noteq> DepsGCC
           then ld_error (''invalid '' @ sq @ ''depfile'' @ sq @ '' attribute with selected '' @ sq @ ''deps'' @ sq @ '' style'') startTok ld
           else update_command (\<lambda>c. c\<lparr>depsFile := depfile\<rparr>) ld)
     else (if style = DepsGCC
           then ld_error (''missing '' @ sq @ ''depfile'' @ sq @ '' attribute with selected '' @ sq @ ''deps'' @ sq @ '' style'') startTok ld
           else Some ld)
   }"

definition setPool :: "Token \<Rightarrow> string \<Rightarrow> Loader \<Rightarrow> Loader option" where
  "setPool startTok poolName ld =
     (if poolName = [] then Some ld
      else (case m_pools (ld_manifest ld) poolName of
              None \<Rightarrow> ld_error (''unknown pool '' @ sq @ poolName @ sq) startTok ld
            | Some pool \<Rightarrow> update_command (\<lambda>c. c\<lparr>executionPool := Some pool\<rparr>) ld))"

definition actOnEndBuildDecl :: "loader_env \<Rightarrow> Token \<Rightarrow> Loader \<Rightarrow> Loader option" where
  "actOnEndBuildDecl env startTok ld = do {
     (command, ld) \<leftarrow> lookupNamedBuildParameter startTok ''command'' ld;
     ld \<leftarrow> update_command (\<lambda>c. c\<lparr>commandString := command\<rparr>) ld;
     (description, ld) \<leftarrow> lookupNamedBuildParameter startTok ''description'' ld;
     ld \<leftarrow> update_command (\<lambda>c. c\<lparr>c_description := description\<rparr>) ld;
     (deps, ld) \<leftarrow> lookupNamedBuildParameter startTok ''deps'' ld;
     (depfile, ld) \<leftarrow> lookupNamedBuildParameter startTok ''depfile'' ld;
     ld \<leftarrow> setDependencies startTok deps depfile ld;
     (poolName, ld) \<leftarrow> lookupNamedBuildParameter startTok ''pool'' ld;
     ld \<leftarrow> setPool startTok poolName ld;
     (generator, ld) \<leftarrow> lookupNamedBuildParameter startTok ''generator'' ld;
     ld \<leftarrow> update_command (\<lambda>c. c\<lparr>isGenerator := (generator \<noteq> [])\<rparr>) ld;
     (restat, ld) \<leftarrow> lookupNamedBuildParameter startTok ''restat'' ld;
     ld \<leftarrow> update_command (\<lambda>c. c\<lparr>shouldRestat := (restat \<noteq> [])\<rparr>) ld;
     (rspfile, ld) \<leftarrow> lookupNamedBuildParameter startTok ''rspfile'' ld;
     if rspfile = [] then Some ld
     else (case normalize_path (le_paths env) (workingDirectory env) rspfile of
             None \<Rightarrow> Some ld
           | Some path \<Rightarrow> do {
               ld \<leftarrow> update_command (\<lambda>c. c\<lparr>rspFile := path\<rparr>) ld;
               (content, ld) \<leftarrow> lookupNamedBuildParameter startTok ''rspfile_content'' ld;
               update_command (\<lambda>c. c\<lparr>rspFileContent := content\<rparr>) ld
             })
   }"

section \<open>Pools and rules\<close>

definition set_pool :: "string \<Rightarrow> Pool \<Rightarrow> Loader \<Rightarrow> Loader" where
  "set_pool name pool ld = ld\<lparr>ld_manifest := (ld_manifest ld)
     \<lparr>m_pools := (m_pools (ld_manifest ld))(name \<mapsto> pool)\<rparr>\<rparr>"

definition actOnBeginPoolDecl :: "Token \<Rightarrow> Loader \<Rightarrow> Loader option" where
  "actOnBeginPoolDecl nameTok ld = do {
     let name = tok_text nameTok;
     ld \<leftarrow> (if m_pools (ld_manifest ld) name \<noteq> None then ld_error ''duplicate pool'' nameTok ld else Some ld);
     Some ((set_pool name \<lparr>pool_name = name, pool_depth = 0\<rparr> ld)\<lparr>ld_pool := name\<rparr>)
   }"

text \<open>
  \<^verbatim>\<open>StringRef::getAsInteger(10, long&)\<close>: the whole string is an optional minus sign and digits,
  and the value fits a \<^verbatim>\<open>long\<close>.
\<close>

primrec digits_value :: "string \<Rightarrow> int \<Rightarrow> int option" where
  "digits_value [] acc = Some acc"
| "digits_value (c # cs) acc =
     (let d = char_int c - 48 in if 0 \<le> d \<and> d \<le> 9 then digits_value cs (acc * 10 + d) else None)"

definition getAsInteger :: "string \<Rightarrow> int option" where
  "getAsInteger s =
     (let neg = (s \<noteq> [] \<and> hd s = CHR ''-''); ds = (if neg then tl s else s) in
      if ds = [] then None
      else (case digits_value ds 0 of
              None \<Rightarrow> None
            | Some v \<Rightarrow>
                if neg then (if v \<le> 2 ^ 63 then Some (- v) else None)
                else (if v < 2 ^ 63 then Some v else None)))"

definition actOnPoolBindingDecl :: "Token \<Rightarrow> Token \<Rightarrow> Loader \<Rightarrow> Loader option" where
  "actOnPoolBindingDecl nameTok valueTok ld = do {
     (val, ld) \<leftarrow> evalToken valueTok ld;
     if tok_text nameTok = ''depth''
     then (case getAsInteger val of
             None \<Rightarrow> ld_error ''invalid depth'' valueTok ld
           | Some n \<Rightarrow>
               if n \<le> 0 then ld_error ''invalid depth'' valueTok ld
               else do {
                 pool \<leftarrow> m_pools (ld_manifest ld) (ld_pool ld);
                 Some (set_pool (ld_pool ld) (pool\<lparr>pool_depth := of_int n\<rparr>) ld)
               })
     else ld_error ''unexpected variable'' nameTok ld
   }"

definition actOnEndPoolDecl :: "Token \<Rightarrow> Loader \<Rightarrow> Loader option" where
  "actOnEndPoolDecl startTok ld = do {
     pool \<leftarrow> m_pools (ld_manifest ld) (ld_pool ld);
     if pool_depth pool = 0
     then ld_error (''missing '' @ sq @ ''depth'' @ sq @ '' variable assignment'') startTok ld
     else Some ld
   }"

text \<open>The rules of the current scope.\<close>

definition scope_rule :: "string \<Rightarrow> Loader \<Rightarrow> NinjaRule option" where
  "scope_rule name ld = (case ld_scopes ld of [] \<Rightarrow> None | s # _ \<Rightarrow> sc_rules s name)"

definition set_rule :: "string \<Rightarrow> NinjaRule \<Rightarrow> Loader \<Rightarrow> Loader option" where
  "set_rule name rule ld =
     (case ld_scopes ld of
        [] \<Rightarrow> None
      | s # ss \<Rightarrow> Some (ld\<lparr>ld_scopes := s\<lparr>sc_rules := (sc_rules s)(name \<mapsto> rule)\<rparr> # ss\<rparr>))"

definition actOnBeginRuleDecl :: "Token \<Rightarrow> Loader \<Rightarrow> Loader option" where
  "actOnBeginRuleDecl nameTok ld = do {
     let name = tok_text nameTok;
     ld \<leftarrow> (if scope_rule name ld \<noteq> None then ld_error ''duplicate rule'' nameTok ld else Some ld);
     ld \<leftarrow> set_rule name (newNinjaRule name) ld;
     Some (ld\<lparr>ld_rule := name\<rparr>)
   }"

definition actOnRuleBindingDecl :: "Token \<Rightarrow> Token \<Rightarrow> Loader \<Rightarrow> Loader option" where
  "actOnRuleBindingDecl nameTok valueTok ld =
     (if isValidParameterName (tok_text nameTok)
      then do {
        rule \<leftarrow> scope_rule (ld_rule ld) ld;
        set_rule (ld_rule ld)
          (rule\<lparr>nr_parameters := (nr_parameters rule)(tok_text nameTok \<mapsto> tok_text valueTok)\<rparr>) ld
      }
      else ld_error ''unexpected variable'' nameTok ld)"

definition actOnEndRuleDecl :: "Token \<Rightarrow> Loader \<Rightarrow> Loader option" where
  "actOnEndRuleDecl startTok ld = do {
     rule \<leftarrow> scope_rule (ld_rule ld) ld;
     if nr_parameters rule ''command'' = None
     then ld_error (''missing '' @ sq @ ''command'' @ sq @ '' variable assignment'') startTok ld
     else Some ld
   }"

section \<open>Loading\<close>

fun actOn :: "loader_env \<Rightarrow> ninja_event \<Rightarrow> Loader \<Rightarrow> Loader option" where
  "actOn env (ParseError msg at) ld = ld_error msg at ld"
| "actOn env BeginManifest ld = Some ld"
| "actOn env EndManifest ld = Some (exitCurrentFile ld)"
| "actOn env (BindingDecl n v) ld = actOnBindingDecl n v ld"
| "actOn env (DefaultDecl ns) ld = actOnDefaultDecl env ns ld"
| "actOn env (IncludeDecl isInclude t) ld = actOnIncludeDecl env isInclude t ld"
| "actOn env (BeginBuildDecl n outs ins a b c) ld = actOnBeginBuildDecl env n outs ins a b c ld"
| "actOn env (BuildBindingDecl n v) ld = actOnBuildBindingDecl n v ld"
| "actOn env (EndBuildDecl t) ld = actOnEndBuildDecl env t ld"
| "actOn env (BeginPoolDecl n) ld = actOnBeginPoolDecl n ld"
| "actOn env (PoolBindingDecl n v) ld = actOnPoolBindingDecl n v ld"
| "actOn env (EndPoolDecl t) ld = actOnEndPoolDecl t ld"
| "actOn env (BeginRuleDecl n) ld = actOnBeginRuleDecl n ld"
| "actOn env (RuleBindingDecl n v) ld = actOnRuleBindingDecl n v ld"
| "actOn env (EndRuleDecl t) ld = actOnEndRuleDecl t ld"

text \<open>The next call of the innermost parser.\<close>

definition popEvent :: "Loader \<Rightarrow> (ninja_event \<times> Loader) option" where
  "popEvent ld =
     (case includeStack ld of
        [] \<Rightarrow> None
      | e # es \<Rightarrow>
          (case ie_events e of
             [] \<Rightarrow> None
           | ev # evs \<Rightarrow> Some (ev, ld\<lparr>includeStack := e\<lparr>ie_events := evs\<rparr> # es\<rparr>)))"

text \<open>
  The parsers run until the main file has ended. Files that include one another without end
  are the reason for the bound; \<^term>\<open>None\<close> also covers a fault.
\<close>

fun runLoader :: "nat \<Rightarrow> loader_env \<Rightarrow> Loader \<Rightarrow> Loader option" where
  "runLoader 0 env ld = (if includeStack ld = [] then Some ld else None)"
| "runLoader (Suc fuel) env ld =
     (if includeStack ld = [] then Some ld
      else do {
        (ev, ld) \<leftarrow> popEvent ld;
        ld \<leftarrow> actOn env ev ld;
        runLoader fuel env ld
      })"

definition newLoader :: Loader where
  "newLoader = \<lparr>ld_manifest = fst newManifest, ld_scopes = [snd newManifest], includeStack = [],
     ld_pool = [], ld_rule = [], ld_errors = []\<rparr>"

text \<open>\<^verbatim>\<open>ManifestLoaderImpl::load\<close>: no manifest when the main file cannot be read.\<close>

definition load :: "nat \<Rightarrow> loader_env \<Rightarrow> string \<Rightarrow> Loader option option" where
  "load fuel env mainFilename = do {
     ld \<leftarrow> enterFile env mainFilename False newLoader;
     if includeStack ld = [] then Some None
     else map_option Some (runLoader fuel env ld)
   }"

end
