(* ===== verification/NinjaLoaderProps.thy ===== *)
theory NinjaLoaderProps
  imports NinjaLoader
begin

text \<open>
  Properties of the Ninja lexer, of string evaluation and of the manifest loader: paths round
  trip through escaping, lexing and evaluation; the outputs of a build declaration are
  recorded once each; evaluation of build parameters returns exactly when it is not circular;
  and the places where the loader departs from what a manifest means.
\<close>

section \<open>Escaping and evaluation\<close>

text \<open>The escapes a manifest generator writes in a path.\<close>

definition ninja_escape_char :: "char \<Rightarrow> string" where
  "ninja_escape_char c = (if c \<in> {CHR 0x24, CHR '' '', CHR '':''} then [CHR 0x24, c] else [c])"

definition ninja_escape :: "string \<Rightarrow> string" where
  "ninja_escape s = concat (map ninja_escape_char s)"

lemma ninja_escape_simps [simp]:
  "ninja_escape [] = []" "ninja_escape (c # s) = ninja_escape_char c @ ninja_escape s"
  by (simp_all add: ninja_escape_def)

lemma evalString_escape: "evalString lookup fmt (ninja_escape s) = Some (s, [])"
proof (induction s)
  case Nil
  then show ?case by (simp add: evalString.simps)
next
  case (Cons c s)
  have "evalString lookup fmt (ninja_escape_char c @ t) = emit_out [c] (evalString lookup fmt t)" for t
    by (auto simp: ninja_escape_char_def evalString.simps [of lookup fmt "_ # _"])
  with Cons show ?case by (simp add: emit_out_def)
qed

text \<open>Characters a path can hold: no white space but the blank, no bar, and not the byte 0xFF.\<close>

definition path_char :: "char \<Rightarrow> bool" where
  "path_char c \<longleftrightarrow> (isspace_char c \<longrightarrow> c = CHR '' '') \<and> c \<noteq> CHR ''|'' \<and> char_int c \<noteq> -1"

text \<open>The cursor after a path: at the end, or in front of a character that ends it.\<close>

definition path_end :: "string \<Rightarrow> bool" where
  "path_end t \<longleftrightarrow> t = [] \<or> isspace_char (hd t) \<or> hd t \<in> {CHR '':'', CHR ''|''}"

lemma char_int_eq: "char_int c = 36 \<longleftrightarrow> c = CHR 0x24" "char_int c = 58 \<longleftrightarrow> c = CHR '':''"
  "char_int c = 124 \<longleftrightarrow> c = CHR ''|''" "char_int c = 32 \<longleftrightarrow> c = CHR '' ''"
  by (cases c rule: char.exhaust; simp add: char_int_def; force)+

lemma skipChar_Cons:
  "bufferPos l = c # cs \<Longrightarrow> c \<noteq> CHR 0x0A \<Longrightarrow> c \<noteq> CHR 0x0D \<Longrightarrow> bufferPos (skipChar l) = cs"
  by (simp add: skipChar_def getNextChar_def)

lemma path_char_plain:
  assumes "path_char c"
  shows "c \<noteq> CHR 0x0A" "c \<noteq> CHR 0x0D" "char_int c \<noteq> 10" "char_int c \<noteq> 13"
    "char_int c \<noteq> 124" "char_int c \<noteq> -1"
  using assms
  by (auto simp: path_char_def isspace_char_def isspace_def char_int_eq) (auto simp: char_int_def)

lemma pathLoop_escape_char:
  assumes "bufferPos l = ninja_escape_char c @ t" "path_char c"
  obtains l' where "pathLoop l = pathLoop l'" "bufferPos l' = t"
proof (cases "c \<in> {CHR 0x24, CHR '' '', CHR '':''}")
  case True
  with assms have l: "bufferPos l = CHR 0x24 # c # t" by (simp add: ninja_escape_char_def)
  then have l1: "bufferPos (skipChar l) = c # t" by (rule skipChar_Cons) auto
  have "peekNextChar l = 36" using l by (simp add: peekNextChar_def char_int_def)
  moreover have "fst (getNextChar (skipChar l)) \<noteq> 10"
    using l1 path_char_plain [OF assms(2)] by (simp add: getNextChar_def)
  ultimately have "pathLoop l = pathLoop (skipChar (skipChar l))"
    by (subst pathLoop.simps) (simp add: Let_def case_prod_beta skipChar_def)
  moreover have "bufferPos (skipChar (skipChar l)) = t"
    using l1 path_char_plain(1,2) [OF assms(2)] by (rule skipChar_Cons)
  ultimately show thesis by (rule that)
next
  case False
  with assms have l: "bufferPos l = c # t" by (simp add: ninja_escape_char_def)
  then have peek: "peekNextChar l = char_int c" by (simp add: peekNextChar_def)
  have "\<not> isspace (char_int c)"
    using assms(2) False by (auto simp: path_char_def isspace_char_def)
  with False path_char_plain [OF assms(2)] peek have "pathLoop l = pathLoop (skipChar l)"
    by (subst pathLoop.simps) (simp add: Let_def char_int_eq)
  moreover have "bufferPos (skipChar l) = t"
    using l path_char_plain(1,2) [OF assms(2)] by (rule skipChar_Cons)
  ultimately show thesis by (rule that)
qed

lemma pathLoop_escape:
  "bufferPos l = ninja_escape w @ t \<Longrightarrow> list_all path_char w \<Longrightarrow> path_end t \<Longrightarrow>
    bufferPos (pathLoop l) = t"
proof (induction w arbitrary: l)
  case Nil
  then have "isspace (peekNextChar l) \<or> peekNextChar l = 58 \<or> peekNextChar l = 124 \<or> peekNextChar l = -1"
    "peekNextChar l \<noteq> 36"
    by (cases t; auto simp: peekNextChar_def path_end_def isspace_char_def isspace_def char_int_eq;
      auto simp: char_int_def)+
  then have "pathLoop l = l" by (subst pathLoop.simps) (simp add: Let_def)
  with Nil show ?case by simp
next
  case (Cons c w)
  then have "bufferPos l = ninja_escape_char c @ (ninja_escape w @ t)" "path_char c" by simp_all
  from pathLoop_escape_char [OF this] obtain l' where
    "pathLoop l = pathLoop l'" "bufferPos l' = ninja_escape w @ t" by blast
  with Cons show ?case by simp
qed

text \<open>
  A path written with its dollar signs, blanks and colons escaped is lexed as one string
  token, whatever follows it, and the token evaluates to the path without an error.
\<close>

theorem path_token_roundtrip:
  assumes "lex_mode l = PathString" "bufferPos l = ninja_escape w @ t"
    and "w \<noteq> []" "list_all path_char w" "path_end t"
  shows "\<exists>tok l'. lex l = (tok, l') \<and> tokenKind tok = StringTok \<and> bufferPos l' = t
    \<and> evalString lookup fmt (tok_text tok) = Some (w, [])"
proof -
  from assms(3) obtain c w' where w: "w = c # w'" by (cases w) auto
  with assms(4) have c: "path_char c" by simp
  obtain e r where r: "bufferPos l = e # r" "e = CHR 0x24 \<longrightarrow> r \<noteq> [] \<and> hd r = c"
    and e: "\<not> isspace (char_int e)" "char_int e \<noteq> 58" "char_int e \<noteq> 124" "char_int e \<noteq> -1"
      "char_int e \<noteq> 10" "char_int e \<noteq> 13"
  proof (cases "c \<in> {CHR 0x24, CHR '' '', CHR '':''}")
    case True
    with assms(2) w have "bufferPos l = CHR 0x24 # c # ninja_escape w' @ t"
      by (simp add: ninja_escape_char_def)
    then show thesis by (rule that) (simp_all add: char_int_def isspace_def)
  next
    case False
    with assms(2) w have "bufferPos l = c # ninja_escape w' @ t" by (simp add: ninja_escape_char_def)
    moreover have "\<not> isspace (char_int c)" "char_int c \<noteq> 58"
      using c False by (auto simp: path_char_def isspace_char_def char_int_eq)
    ultimately show thesis using that path_char_plain [OF c] False by blast
  qed
  have peek: "peekNextChar l = char_int e" using r by (simp add: peekNextChar_def)
  have "\<not> newlineEscape l" if "e = CHR 0x24"
    using r that path_char_plain(1,2) [OF c] by (auto simp: newlineEscape_def byteAt_def neq_Nil_conv)
  then have lead: "skipLeading l = l"
    using e(1) peek by (subst skipLeading.simps) (auto simp: Let_def isNonNewlineSpace_def char_int_eq)
  have "lex l = lexPathString (newToken l) l"
    using e peek lead assms(1) by (simp add: lex_def isNonNewlineSpace_def lexToken_def Let_def)
  moreover have "bufferPos (pathLoop l) = t" by (rule pathLoop_escape [OF assms(2,4,5)])
  ultimately show ?thesis
    using assms(2)
    by (simp add: lexPathString_def setTokenKind_def newToken_def tok_text_def evalString_escape)
qed

lemma path_token_roundtrip_witness:
  "\<exists>tok l'. lex \<lparr>bufferPos = ninja_escape ''my file.c'' @ '': cc'', lineNumber = 1, columnNumber = 6,
        lex_mode = PathString\<rparr> = (tok, l')
    \<and> tokenKind tok = StringTok \<and> bufferPos l' = '': cc''
    \<and> evalString (\<lambda>_. None) id (tok_text tok) = Some (''my file.c'', [])"
  by (rule path_token_roundtrip)
    (simp_all add: path_char_def isspace_char_def isspace_def char_int_def path_end_def)

section \<open>Build declarations\<close>

text \<open>A list with only the first occurrence of each element.\<close>

definition add_new :: "'a list \<Rightarrow> 'a \<Rightarrow> 'a list" where
  "add_new acc x = (if x \<in> set acc then acc else acc @ [x])"

definition uniq :: "'a list \<Rightarrow> 'a list \<Rightarrow> 'a list" where
  "uniq acc xs = foldl add_new acc xs"

text \<open>
  The path that a token names: its text evaluated with the bindings in scope, and normalized. There is none if the
  text cannot be made a path.
\<close>

definition token_path :: "loader_env \<Rightarrow> Scope list \<Rightarrow> Token \<Rightarrow> string option" where
  "token_path env scopes tok = do {
     (val, errs) \<leftarrow> evalString (\<lambda>name. Some (lookupBinding scopes name, [])) (\<lambda>msg. msg) (tok_text tok);
     normalize_path (le_paths env) (workingDirectory env) val
   }"

text \<open>The table of nodes has every node under its path; a node is known if it is the one in the table.\<close>

definition nodes_ok :: "Manifest \<Rightarrow> bool" where
  "nodes_ok m \<longleftrightarrow> (\<forall>path n. m_nodes m path = Some n \<longrightarrow> canonicalPath n = path)"

definition known :: "Manifest \<Rightarrow> Node option \<Rightarrow> bool" where
  "known m node \<longleftrightarrow> (case node of None \<Rightarrow> True | Some n \<Rightarrow> m_nodes m (canonicalPath n) = Some n)"

abbreviation node_path :: "Node option \<Rightarrow> string option" where "node_path \<equiv> map_option canonicalPath"

lemma nodes_ok_new: "nodes_ok (fst newManifest)"
  by (simp add: nodes_ok_def newManifest_def)

lemma known_mono: "known m node \<Longrightarrow> map_le (m_nodes m) (m_nodes m') \<Longrightarrow> known m' node"
  by (auto simp: known_def map_le_def dom_def split: option.splits)

lemma known_path_eq: "known m a \<Longrightarrow> known m b \<Longrightarrow> node_path a = node_path b \<longleftrightarrow> a = b"
  by (cases a; cases b; simp add: known_def; metis option.inject)

lemma findOrCreateNode_known:
  assumes "findOrCreateNode fs wd path0 m = (node, m')" "nodes_ok m"
  shows "node_path node = normalize_path fs wd path0 \<and> nodes_ok m' \<and> known m' node \<and> map_le (m_nodes m) (m_nodes m')"
proof (cases "normalize_path fs wd path0")
  case None
  with assms show ?thesis by (simp add: findOrCreateNode_def known_def)
next
  case (Some path)
  note norm = Some
  show ?thesis
  proof (cases "m_nodes m path")
    case None
    with norm assms show ?thesis
      by (auto simp: findOrCreateNode_def nodes_ok_def known_def map_le_def Let_def split: if_splits)
  next
    case (Some n)
    with norm assms(1) have "node = Some n" "m' = m" by (auto simp: findOrCreateNode_def)
    moreover from Some assms(2) have "canonicalPath n = path" by (simp add: nodes_ok_def)
    ultimately show ?thesis using Some norm assms(2) by (simp add: known_def)
  qed
qed

lemma ld_errors_keep:
  "foldM_option (\<lambda>msg. ld_error msg t) errs ld = Some ld' \<Longrightarrow> ld_manifest ld' = ld_manifest ld \<and> ld_scopes ld' = ld_scopes ld"
  by (induction errs arbitrary: ld) (fastforce simp: ld_error_def bind_eq_Some_conv)+

lemma resolvePath_node:
  assumes "resolvePath env msg t ld = Some (path, node, ld')" "nodes_ok (ld_manifest ld)"
  shows "node_path node = token_path env (ld_scopes ld) t \<and> ld_scopes ld' = ld_scopes ld \<and> nodes_ok (ld_manifest ld')
    \<and> known (ld_manifest ld') node \<and> map_le (m_nodes (ld_manifest ld)) (m_nodes (ld_manifest ld'))"
proof -
  from assms(1) obtain ld1 where ev: "evalToken t ld = Some (path, ld1)"
    by (auto simp: resolvePath_def split: bind_splits prod.splits)
  obtain ld2 where ld2: "(if path = [] then ld_error msg t ld1 else Some ld1) = Some ld2"
    using assms(1) ev by (cases "if path = [] then ld_error msg t ld1 else Some ld1") (simp_all add: resolvePath_def)
  have find: "(case findOrCreateNode (le_paths env) (workingDirectory env) path (ld_manifest ld2) of
      (node, m) \<Rightarrow> Some (path, node, ld2\<lparr>ld_manifest := m\<rparr>)) = Some (path, node, ld')"
    using assms(1) ev ld2 by (simp add: resolvePath_def del: split_paired_Ex)
  from ev obtain errs where
    val: "evalString (\<lambda>name. Some (lookupBinding (ld_scopes ld) name, [])) (\<lambda>msg. msg) (tok_text t) = Some (path, errs)"
    and ld1: "foldM_option (\<lambda>msg. ld_error msg t) errs ld = Some ld1"
    by (auto simp: evalToken_def assert_that_def split: bind_splits)
  from find obtain m where
    node: "findOrCreateNode (le_paths env) (workingDirectory env) path (ld_manifest ld2) = (node, m)"
    and ld': "ld' = ld2\<lparr>ld_manifest := m\<rparr>"
    by (cases "findOrCreateNode (le_paths env) (workingDirectory env) path (ld_manifest ld2)") auto
  have keep: "ld_manifest ld2 = ld_manifest ld" "ld_scopes ld2 = ld_scopes ld"
    using ld_errors_keep [OF ld1] ld2 by (auto simp: ld_error_def bind_eq_Some_conv split: if_splits)
  show ?thesis
    using findOrCreateNode_known [OF node] assms(2) keep val ld' by (simp add: token_path_def)
qed

lemma uniq_simps [simp]: "uniq acc [] = acc" "uniq acc (x # xs) = uniq (add_new acc x) xs"
  by (simp_all add: uniq_def)

lemma uniq_append: "uniq acc (xs @ ys) = uniq (uniq acc xs) ys"
  by (simp add: uniq_def)

lemma uniq_prefix: "\<exists>zs. uniq acc xs = acc @ zs"
proof (induction xs arbitrary: acc)
  case (Cons x xs)
  from Cons [of "add_new acc x"] show ?case by (auto simp: add_new_def)
qed simp

lemma distinct_uniq: "distinct acc \<Longrightarrow> distinct (uniq acc xs)"
  by (induction xs arbitrary: acc) (simp_all add: add_new_def)

lemma set_uniq: "set (uniq acc xs) = set acc \<union> set xs"
  by (induction xs arbitrary: acc) (auto simp: add_new_def)

lemma path_of_uniq:
  assumes "\<forall>node \<in> set acc \<union> set nodes. known m node"
  shows "map node_path (uniq acc nodes) = uniq (map node_path acc) (map node_path nodes)"
  using assms
proof (induction nodes arbitrary: acc)
  case (Cons node nodes)
  have "node_path node \<in> set (map node_path acc) \<longleftrightarrow> node \<in> set acc"
    using Cons.prems known_path_eq by (fastforce simp: image_iff)
  then have "map node_path (add_new acc node) = add_new (map node_path acc) (node_path node)"
    by (auto simp: add_new_def)
  with Cons.IH [of "add_new acc node"] Cons.prems show ?case by (auto simp: add_new_def split: if_splits)
qed simp

lemma resolveOutputs_nodes:
  assumes "resolveOutputs env k toks i outs n ld = Some (outs', n', ld')" "nodes_ok (ld_manifest ld)"
  shows "\<exists>nodes. map node_path nodes = map (token_path env (ld_scopes ld)) toks \<and> outs' = uniq outs nodes
    \<and> (\<forall>node \<in> set nodes. known (ld_manifest ld') node) \<and> nodes_ok (ld_manifest ld')
    \<and> map_le (m_nodes (ld_manifest ld)) (m_nodes (ld_manifest ld'))
    \<and> (k \<le> i \<longrightarrow> n' = n)
    \<and> (i \<le> k \<longrightarrow> k \<le> i + length toks \<longrightarrow> n = length outs + (k - i) \<longrightarrow>
        n' = length (uniq outs (take (k - i) nodes)))"
  using assms
proof (induction toks arbitrary: i outs n ld)
  case Nil
  then show ?case by auto
next
  case (Cons tok toks)
  from Cons.prems obtain path node ld1 where
    p: "resolvePath env ''empty output path'' tok ld = Some (path, node, ld1)"
    by (auto split: bind_splits)
  note res = resolvePath_node [OF p Cons.prems(2)]
  let ?outs = "add_new outs node"
  let ?n = "if node \<in> set outs \<and> i < k then n - 1 else n"
  from Cons.prems(1) p have rest: "resolveOutputs env k toks (i + 1) ?outs ?n ld1 = Some (outs', n', ld')"
    by (auto simp: add_new_def split: if_splits)
  from Cons.IH [OF rest] res obtain nodes where nodes: "map node_path nodes = map (token_path env (ld_scopes ld)) toks"
    "outs' = uniq ?outs nodes" "k \<le> i + 1 \<longrightarrow> n' = ?n"
    "i + 1 \<le> k \<longrightarrow> k \<le> i + 1 + length toks \<longrightarrow> ?n = length ?outs + (k - (i + 1)) \<longrightarrow>
      n' = length (uniq ?outs (take (k - (i + 1)) nodes))"
    and kn: "\<forall>node \<in> set nodes. known (ld_manifest ld') node" "nodes_ok (ld_manifest ld')"
      "map_le (m_nodes (ld_manifest ld1)) (m_nodes (ld_manifest ld'))" by auto
  have "n' = length (uniq outs (take (k - i) (node # nodes)))"
    if "i \<le> k" "k \<le> i + length (tok # toks)" "n = length outs + (k - i)"
  proof (cases "i = k")
    case True
    with nodes(3) that(3) show ?thesis by simp
  next
    case False
    with that have "?n = length ?outs + (k - (i + 1))" by (auto simp: add_new_def)
    moreover have "take (k - i) (node # nodes) = node # take (k - (i + 1)) nodes"
      using False that(1) by (simp add: take_Cons')
    ultimately show ?thesis using nodes(4) that False by simp
  qed
  moreover have "k \<le> i \<longrightarrow> n' = n" using nodes(3) by auto
  moreover have "known (ld_manifest ld') node" using res kn(3) known_mono by blast
  moreover have "map_le (m_nodes (ld_manifest ld)) (m_nodes (ld_manifest ld'))" using res kn(3) map_le_trans by blast
  ultimately show ?case using nodes(1,2) kn res by (intro exI [of _ "node # nodes"]) simp
qed

lemma resolveInputs_nodes:
  assumes "resolveInputs env toks ld = Some (nics, ld')" "nodes_ok (ld_manifest ld)"
  shows "nodes_ok (ld_manifest ld') \<and> map_le (m_nodes (ld_manifest ld)) (m_nodes (ld_manifest ld'))"
  using assms
proof (induction toks arbitrary: nics ld)
  case (Cons tok toks)
  from Cons.prems(1) obtain path node ld1 nics1 where
    p: "resolvePath env ''empty input path'' tok ld = Some (path, node, ld1)"
    and rest: "resolveInputs env toks ld1 = Some (nics1, ld')"
    by (auto split: bind_splits)
  note res = resolvePath_node [OF p Cons.prems(2)]
  with Cons.IH [OF rest] show ?case using map_le_trans by blast
qed simp

text \<open>
  C21. The outputs of a build declaration are the nodes of the paths that its output tokens name, each
  once, in the order of their first mention; the number of explicit outputs is adjusted so that the explicit
  outputs are those of the explicit output tokens and no other. Each is the node that the manifest has
  for its path.
\<close>

theorem begin_build_outputs:
  assumes "actOnBeginBuildDecl env name outTokens inTokens nExplicit nImplicit k ld = Some ld'"
    and "k \<le> length outTokens" "nodes_ok (ld_manifest ld)"
  shows "\<exists>decl. ld_command ld' = Some decl
    \<and> map node_path (c_outputs decl) = uniq [] (map (token_path env (ld_scopes ld)) outTokens)
    \<and> map node_path (getExplicitOutputs decl) = uniq [] (map (token_path env (ld_scopes ld)) (take k outTokens))
    \<and> (\<forall>node \<in> set (c_outputs decl). known (ld_manifest ld') node) \<and> nodes_ok (ld_manifest ld')"
proof -
  let ?rule = "\<lambda>scope. case sc_rules scope (tok_text name) of
      None \<Rightarrow> do { ld \<leftarrow> ld_error ''unknown rule'' name ld; Some (phonyRule, ld) }
    | Some r \<Rightarrow> Some (r, ld)"
  obtain scope scopes where sc: "ld_scopes ld = scope # scopes"
    using assms(1) by (cases "ld_scopes ld") (auto simp: actOnBeginBuildDecl_def)
  obtain rule ld1 where r: "?rule scope = Some (rule, ld1)"
    using assms(1) sc by (cases "?rule scope") (auto simp: actOnBeginBuildDecl_def)
  have "(do {
      (outputs, nOutputs, ld) \<leftarrow> resolveOutputs env k outTokens 0 [] k ld1;
      (inputs, ld) \<leftarrow> resolveInputs env inTokens ld;
      decl \<leftarrow> newCommand rule outputs inputs nExplicit nImplicit nOutputs;
      Some (ld\<lparr>ld_manifest := (ld_manifest ld)\<lparr>m_commands := m_commands (ld_manifest ld) @ [decl]\<rparr>\<rparr>) }) = Some ld'"
    using assms(1) sc r by (simp add: actOnBeginBuildDecl_def)
  then obtain outs n ld2 ins ld3 decl where
    out: "resolveOutputs env k outTokens 0 [] k ld1 = Some (outs, n, ld2)"
    and ins: "resolveInputs env inTokens ld2 = Some (ins, ld3)"
    and decl: "newCommand rule outs ins nExplicit nImplicit n = Some decl"
    and ld': "ld' = ld3\<lparr>ld_manifest := (ld_manifest ld3)
      \<lparr>m_commands := m_commands (ld_manifest ld3) @ [decl]\<rparr>\<rparr>"
    by (auto split: bind_splits)
  have rule: "ld_manifest ld1 = ld_manifest ld" "ld_scopes ld1 = ld_scopes ld"
    using r by (auto simp: ld_error_def split: bind_splits option.splits)
  from resolveOutputs_nodes [OF out] assms(2,3) rule obtain nodes where
    nodes: "map node_path nodes = map (token_path env (ld_scopes ld)) outTokens" "outs = uniq [] nodes"
      "n = length (uniq [] (take k nodes))"
    and kn: "\<forall>node \<in> set nodes. known (ld_manifest ld2) node" "nodes_ok (ld_manifest ld2)" by auto
  note in_kn = resolveInputs_nodes [OF ins kn(2)]
  have d: "c_outputs decl = outs" "numExplicitOutputs decl = n"
    using decl by (auto simp: newCommand_def assert_that_def split: if_splits)
  have "outs = uniq (uniq [] (take k nodes)) (drop k nodes)"
    using nodes(2) uniq_append [of "[]" "take k nodes" "drop k nodes"] by simp
  then obtain zs where zs: "outs = uniq [] (take k nodes) @ zs"
    using uniq_prefix [of "uniq [] (take k nodes)" "drop k nodes"] by auto
  have "getExplicitOutputs decl = uniq [] (take k nodes)"
    using d zs nodes(3) by (simp add: getExplicitOutputs_def)
  moreover have "\<forall>node \<in> set (take k nodes). known (ld_manifest ld2) node" using kn(1) in_set_takeD by metis
  ultimately have "map node_path (getExplicitOutputs decl) = uniq [] (map node_path (take k nodes))"
    using path_of_uniq [of "[]" "take k nodes" "ld_manifest ld2"] by simp
  then have "map node_path (getExplicitOutputs decl) = uniq [] (map (token_path env (ld_scopes ld)) (take k outTokens))"
    using nodes(1) by (simp flip: take_map)
  moreover have "map node_path (c_outputs decl) = uniq [] (map (token_path env (ld_scopes ld)) outTokens)"
    using path_of_uniq [of "[]" nodes "ld_manifest ld2"] kn(1) nodes(1,2) d(1) by simp
  moreover have "\<forall>node \<in> set (c_outputs decl). known (ld_manifest ld') node"
  proof
    fix node assume "node \<in> set (c_outputs decl)"
    then have "node \<in> set nodes" using d(1) nodes(2) set_uniq [of "[]" nodes] by simp
    then have "known (ld_manifest ld3) node" using kn(1) in_kn known_mono by blast
    then show "known (ld_manifest ld') node" using ld' by (simp add: known_def cong: option.case_cong)
  qed
  moreover have "nodes_ok (ld_manifest ld')" using in_kn ld' by (simp add: nodes_ok_def)
  moreover have "ld_command ld' = Some decl" using ld' by (simp add: ld_command_def)
  ultimately show ?thesis by blast
qed

text \<open>A declaration with a repeated output, for the examples below.\<close>

definition plain_token :: "TokenKind \<Rightarrow> string \<Rightarrow> Token" where
  "plain_token k s = \<lparr>tok_start = s, tokenKind = k, tok_length = length s, tok_line = 1, tok_column = 0\<rparr>"

definition sample_loader :: Loader where
  "sample_loader = newLoader\<lparr>includeStack :=
     [\<lparr>ie_filename = ''build.ninja'', ie_events = [], ie_subninja = False\<rparr>]\<rparr>"

definition sample_files :: "(string \<times> string) list \<Rightarrow> loader_env" where
  "sample_files files = \<lparr>le_paths = posix_paths, workingDirectory = ''/w'',
     readFile = (\<lambda>p. map_option (Pair p) (map_of files p))\<rparr>"

theorem begin_build_outputs_witness:
  "\<exists>decl. ld_command (the (actOnBeginBuildDecl (sample_files []) (plain_token Identifier ''phony'')
        (map (plain_token StringTok) [''a'', ''./a'', ''b'']) [] 0 0 2 sample_loader)) = Some decl
    \<and> map node_path (c_outputs decl) = [Some ''/w/a'', Some ''/w/b'']
    \<and> map node_path (getExplicitOutputs decl) = [Some ''/w/a'']"
proof -
  let ?toks = "map (plain_token StringTok) [''a'', ''./a'', ''b'']"
  have "actOnBeginBuildDecl (sample_files []) (plain_token Identifier ''phony'') ?toks [] 0 0 2 sample_loader \<noteq> None"
    by code_simp
  then obtain ld' where run: "actOnBeginBuildDecl (sample_files []) (plain_token Identifier ''phony'')
      ?toks [] 0 0 2 sample_loader = Some ld'" by blast
  have "nodes_ok (ld_manifest sample_loader)" using nodes_ok_new by (simp add: sample_loader_def newLoader_def)
  from begin_build_outputs [OF run _ this] obtain decl where decl: "ld_command ld' = Some decl"
    "map node_path (c_outputs decl) = uniq [] (map (token_path (sample_files []) (ld_scopes sample_loader)) ?toks)"
    "map node_path (getExplicitOutputs decl) = uniq [] (map (token_path (sample_files []) (ld_scopes sample_loader)) (take 2 ?toks))"
    by auto
  have "uniq [] (map (token_path (sample_files []) (ld_scopes sample_loader)) ?toks) = [Some ''/w/a'', Some ''/w/b'']"
    "uniq [] (map (token_path (sample_files []) (ld_scopes sample_loader)) (take 2 ?toks)) = [Some ''/w/a'']"
    by code_simp+
  with decl run show ?thesis by simp
qed

section \<open>Evaluation returns\<close>

text \<open>The names a template refers to.\<close>

definition template_refs :: "string \<Rightarrow> string set" where
  "template_refs s = set (snd (the (evalString (\<lambda>name. Some ([], [name])) (\<lambda>_. []) s)))"

lemma seq_out_None:
  "seq_out a b = None \<longleftrightarrow> a = None \<or> b = None"
  "seq_out (Some (o1, e1)) (Some (o2, e2)) = Some (o1 @ o2, e1 @ e2)"
  by (cases a; cases b; auto simp: seq_out_def)+

lemma evalString_refs:
  "\<exists>out names. evalString (\<lambda>name. Some ([], [name])) (\<lambda>_. []) s = Some (out, names)
    \<and> ((\<forall>n \<in> set names. lookup n \<noteq> None) \<longrightarrow> evalString lookup fmt s \<noteq> None)"
proof (induction "length s" arbitrary: s rule: less_induct)
  case less
  let ?rec = "\<lambda>t. \<exists>out names. evalString (\<lambda>name. Some ([], [name])) (\<lambda>_. []) t = Some (out, names)
    \<and> ((\<forall>n \<in> set names. lookup n \<noteq> None) \<longrightarrow> evalString lookup fmt t \<noteq> None)"
  show ?case
  proof (cases s)
    case Nil
    then show ?thesis by (simp add: evalString.simps)
  next
    case (Cons c0 rest)
    show ?thesis
    proof (cases "c0 = CHR 0x24")
      case False
      have "?rec rest" using Cons by (intro less.hyps) simp
      with Cons False show ?thesis
        by (auto simp: evalString.simps [of _ _ "c0 # rest"] emit_out_def)
    next
      case dollar: True
      show ?thesis
      proof (cases rest)
        case Nil
        with Cons dollar show ?thesis by (simp add: evalString.simps [of _ _ "CHR 0x24 # _"])
      next
        case (Cons c r)
        note s = \<open>s = c0 # rest\<close> dollar Cons
        have r: "?rec r" "?rec (dropWhile isspace_char r)" "?rec (dropWhile isSimpleIdent r)"
          "?rec (tl (dropWhile (\<lambda>d. d \<noteq> CHR 0x7D) r))"
          using s length_dropWhile_le [of isspace_char r] length_dropWhile_le [of isSimpleIdent r]
            length_dropWhile_le [of "\<lambda>d. d \<noteq> CHR 0x7D" r]
          by (intro less.hyps; simp)+
        consider "c = CHR 0x0A" | "c \<noteq> CHR 0x0A" "c = CHR '' '' \<or> c = CHR '':'' \<or> c = CHR 0x24"
          | "c = CHR 0x7B"
          | "c \<noteq> CHR 0x0A" "\<not> (c = CHR '' '' \<or> c = CHR '':'' \<or> c = CHR 0x24)" "c \<noteq> CHR 0x7B"
          by blast
        then show ?thesis
        proof cases
          case 1
          with s r(2) show ?thesis by (simp add: evalString.simps [of _ _ "CHR 0x24 # _"])
        next
          case 2
          with s r(1) show ?thesis by (auto simp: evalString.simps [of _ _ "CHR 0x24 # _"] emit_out_def)
        next
          case 3
          obtain out names where
            "evalString (\<lambda>name. Some ([], [name])) (\<lambda>_. []) (tl (dropWhile (\<lambda>d. d \<noteq> CHR 0x7D) r)) = Some (out, names)"
            "(\<forall>n \<in> set names. lookup n \<noteq> None) \<longrightarrow>
              evalString lookup fmt (tl (dropWhile (\<lambda>d. d \<noteq> CHR 0x7D) r)) \<noteq> None"
            using r(4) by blast
          with s 3 show ?thesis
            by (cases "dropWhile (\<lambda>d. d \<noteq> CHR 0x7D) r = []";
                cases "list_all isIdent (takeWhile (\<lambda>d. d \<noteq> CHR 0x7D) r)")
              (simp_all del: not_None_eq dropWhile_eq_Nil_conv
                add: evalString.simps [of _ _ "CHR 0x24 # _"] emit_err_def seq_out_None)
        next
          case 4
          obtain out names where
            "evalString (\<lambda>name. Some ([], [name])) (\<lambda>_. []) (dropWhile isSimpleIdent r) = Some (out, names)"
            "(\<forall>n \<in> set names. lookup n \<noteq> None) \<longrightarrow> evalString lookup fmt (dropWhile isSimpleIdent r) \<noteq> None"
            using r(3) by blast
          with s 4 show ?thesis
            by (cases "isSimpleIdent c")
              (simp_all del: not_None_eq add: evalString.simps [of _ _ "CHR 0x24 # _"] seq_out_None)
        qed
      qed
    qed
  qed
qed

lemma evalString_returns:
  "\<forall>n \<in> template_refs s. lookup n \<noteq> None \<Longrightarrow> evalString lookup fmt s \<noteq> None"
  using evalString_refs [of s lookup fmt] by (auto simp: template_refs_def)

lemma mapM_nodePath: "\<forall>node \<in> set nodes. node \<noteq> None \<Longrightarrow> mapM_option nodePath nodes \<noteq> None"
  by (induction nodes) (auto simp: nodePath_def)

text \<open>
  C22. The evaluation of a build parameter returns when the parameters of the rule do not
  refer to one another in a circle (each refers only to names of a smaller rank) and every
  explicit output is a node; a bound above the rank of the name is enough.
\<close>

theorem lookupBuildParameter_returns:
  assumes "\<And>name template n. nr_parameters (c_rule decl) name = Some template \<Longrightarrow>
      n \<in> template_refs template \<Longrightarrow> rank n < (rank name :: nat)"
    and "\<forall>node \<in> set (getExplicitOutputs decl). node \<noteq> None"
    and "rank name < fuel"
  shows "\<exists>val errs. lookupBuildParameter fuel scopes decl escape name = Some (val, errs)"
  using assms(3)
proof (induction fuel arbitrary: name)
  case (Suc fuel)
  have outs: "mapM_option nodePath (getExplicitOutputs decl) \<noteq> None"
    using assms(2) mapM_nodePath by blast
  have "evalString (lookupBuildParameter fuel scopes decl escape) fmt template \<noteq> None"
    if "nr_parameters (c_rule decl) name = Some template" for fmt template
  proof (rule evalString_returns, rule ballI)
    fix n assume "n \<in> template_refs template"
    with assms(1) [OF that] Suc have "rank n < fuel" by fastforce
    with Suc.IH [of n] show "lookupBuildParameter fuel scopes decl escape n \<noteq> None" by auto
  qed
  with outs show ?case by (fastforce split: option.split)
qed simp

text \<open>
  A rule parameter that refers to itself is evaluated without end: no bound is enough.
\<close>

theorem lookupBuildParameter_recursive:
  assumes "name \<notin> {''in'', ''in_newline'', ''out''}" "c_parameters decl name = None"
    and "nr_parameters (c_rule decl) name = Some (CHR 0x24 # CHR 0x7B # name @ [CHR 0x7D])"
    and "list_all isIdent name"
  shows "lookupBuildParameter fuel scopes decl escape name = None"
proof (induction fuel)
  case (Suc fuel)
  have name: "d \<in> set name \<Longrightarrow> d \<noteq> CHR 0x7D" for d
    using assms(4) by (auto simp: list_all_iff isIdent_def isIdentifierChar_def char_int_def)
  have "takeWhile (\<lambda>d. d \<noteq> CHR 0x7D) (name @ [CHR 0x7D]) = name"
    "dropWhile (\<lambda>d. d \<noteq> CHR 0x7D) (name @ [CHR 0x7D]) = [CHR 0x7D]"
    using name by (simp_all add: takeWhile_append2 dropWhile_append2)
  then have "evalString (lookupBuildParameter fuel scopes decl escape) fmt
      (CHR 0x24 # CHR 0x7B # name @ [CHR 0x7D]) = None" for fmt
    using Suc assms(4) by (simp add: evalString.simps [of _ _ "_ # _"] Let_def seq_out_def)
  with assms(1-3) show ?case by simp
qed simp

section \<open>Witnesses\<close>

definition sample_rule :: NinjaRule where
  "sample_rule = (newNinjaRule ''cc'')\<lparr>nr_parameters :=
     [''command'' \<mapsto> ''cc $in'', ''description'' \<mapsto> CHR 0x24 # CHR 0x7B # ''description'' @ [CHR 0x7D]]\<rparr>"

definition sample_command :: Command where
  "sample_command = the (newCommand (sample_rule\<lparr>nr_parameters := [''command'' \<mapsto> ''cc $in'']\<rparr>)
     [Some \<lparr>canonicalPath = ''/w/a'', screenPath = ''a''\<rparr>] [] 0 0 1)"

lemma sample_refs: "template_refs ''cc $in'' = {''in''}"
  unfolding template_refs_def by code_simp

lemma lookupBuildParameter_returns_witness:
  "\<exists>val errs. lookupBuildParameter 2 [] sample_command True ''command'' = Some (val, errs)"
proof (rule lookupBuildParameter_returns [where rank = "\<lambda>n. if n = ''command'' then 1 else 0"])
  fix name template n
  assume "nr_parameters (c_rule sample_command) name = Some template" "n \<in> template_refs template"
  then have "name = ''command''" "n = ''in''"
    using sample_refs
    by (auto simp: sample_command_def newCommand_def assert_that_def split: if_splits)
  then show "(if n = ''command'' then 1 else 0) < (if name = ''command'' then 1 else (0 :: nat))" by simp
next
  show "\<forall>node \<in> set (getExplicitOutputs sample_command). node \<noteq> None"
    by (simp add: sample_command_def newCommand_def assert_that_def getExplicitOutputs_def)
qed simp

lemma lookupBuildParameter_recursive_witness:
  "lookupBuildParameter 5 [] (sample_command\<lparr>c_rule := sample_rule\<rparr>) False ''description'' = None"
  by (rule lookupBuildParameter_recursive)
    (simp_all add: sample_command_def newCommand_def assert_that_def sample_rule_def newNinjaRule_def
      isIdent_def isIdentifierChar_def char_int_def)

section \<open>Divergences\<close>

text \<open>The result of loading a one-file manifest: the error messages and the default targets.\<close>

definition loaded_errors :: "(string \<times> string) list \<Rightarrow> string list option" where
  "loaded_errors files =
     (case load 200 (sample_files files) ''build.ninja'' of
        Some (Some ld) \<Rightarrow> Some (map (fst \<circ> snd) (ld_errors ld))
      | _ \<Rightarrow> None)"

abbreviation ln :: string where "ln \<equiv> [CHR 0x0A]"

text \<open>
  The names of a default declaration are not evaluated: a target named through a variable
  is unknown, although the build declaration with the same variable defines it.
\<close>

theorem default_not_evaluated:
  "loaded_errors [(''/w/build.ninja'',
      ''t = app'' @ ln @ ''build $t: phony'' @ ln @ ''default $t'' @ ln)] = Some [''unknown target name'']"
  by code_simp

text \<open>
  The built-in phony rule is only in the root scope, and rules are looked up in the
  current scope only: a subninja file cannot use it.
\<close>

theorem phony_unknown_in_subninja:
  "loaded_errors [(''/w/build.ninja'', ''subninja s'' @ ln), (''/w/s'', ''build x: phony'' @ ln)]
    = Some [''unknown rule'']"
  by code_simp

text \<open>
  A pool depth of \<open>2 ^ 32\<close> is accepted, stored as zero, and then reported as missing.
\<close>

theorem pool_depth_truncated:
  "loaded_errors [(''/w/build.ninja'', ''pool p'' @ ln @ '' depth = 4294967296'' @ ln)]
    = Some [''missing '' @ sq @ ''depth'' @ sq @ '' variable assignment'']"
  by code_simp

text \<open>
  A line continued with a dollar sign before a carriage return and a newline is accepted by
  the lexer as one value, but its evaluation is an error.
\<close>

theorem crlf_continuation_rejected:
  "loaded_errors [(''/w/build.ninja'', ''x = a$'' @ [CHR 0x0D] @ ln @ '' b'' @ ln)]
    = Some [''invalid '' @ sq @ ''$'' @ sq @ ''-escape (literal '' @ sq @ ''$'' @ sq @
        '' should be written as '' @ sq @ ''$$'' @ sq @ '')'']"
  by code_simp

end
