(* ===== verification/BinaryCoding.thy ===== *)
theory BinaryCoding
  imports Prelude
begin

text \<open>
  The binary coding utility of \<^verbatim>\<open>lib/Basic/include/llbuild/Basic/BinaryCoding.h\<close>. The encoder's
  state is the vector \<^verbatim>\<open>encdata\<close>; every \<^verbatim>\<open>write\<close> overload is a function on it. The decoder
  is the record of \<^verbatim>\<open>data\<close> and \<^verbatim>\<open>pos\<close>; a read outside the data, on which the C++ asserts, is
  \<^term>\<open>None\<close>. The locale \<open>codec\<close> is the contract every coded type promises: a write
  appends, and reading at the start of what was written returns the value and moves
  the position behind it. The lemmas of the locale lift the contract to sequences.
\<close>

section \<open>BinaryEncoder\<close>

definition write_u8 :: "byte \<Rightarrow> byte list \<Rightarrow> byte list" where
  "write_u8 value encdata = encdata @ [value]"

definition write_bool :: "bool \<Rightarrow> byte list \<Rightarrow> byte list" where
  "write_bool value encdata = encdata @ [if value then 1 else 0]"

definition write_u16 :: "u16 \<Rightarrow> byte list \<Rightarrow> byte list" where
  "write_u16 value encdata =
     write_u8 (ucast (drop_bit 8 value)) (write_u8 (ucast (drop_bit 0 value)) encdata)"

definition write_u32 :: "u32 \<Rightarrow> byte list \<Rightarrow> byte list" where
  "write_u32 value encdata =
     write_u16 (ucast (drop_bit 16 value)) (write_u16 (ucast (drop_bit 0 value)) encdata)"

definition write_u64 :: "u64 \<Rightarrow> byte list \<Rightarrow> byte list" where
  "write_u64 value encdata =
     write_u32 (ucast (drop_bit 32 value)) (write_u32 (ucast (drop_bit 0 value)) encdata)"

definition writeBytes :: "byte list \<Rightarrow> byte list \<Rightarrow> byte list" where
  "writeBytes bytes encdata = encdata @ bytes"

definition write_string :: "byte list \<Rightarrow> byte list \<Rightarrow> byte list option" where
  "write_string value encdata =
     (let size = (of_nat (length value) :: u32)
      in do {
           assert_that (unat size = length value);
           Some (writeBytes value (write_u32 size encdata))
         })"

section \<open>BinaryDecoder\<close>

record BinaryDecoder =
  data :: "byte list"
  pos :: nat

definition isEmpty_decoder :: "BinaryDecoder \<Rightarrow> bool" where
  "isEmpty_decoder d \<longleftrightarrow> pos d = length (data d)"

definition read8 :: "BinaryDecoder \<Rightarrow> (byte \<times> BinaryDecoder) option" where
  "read8 d = (if pos d < length (data d)
              then Some (data d ! pos d, d\<lparr>pos := pos d + 1\<rparr>) else None)"

definition read16 :: "BinaryDecoder \<Rightarrow> (u16 \<times> BinaryDecoder) option" where
  "read16 d = do {
     (lo, d) \<leftarrow> read8 d;
     (hi, d) \<leftarrow> read8 d;
     Some (ucast lo OR push_bit 8 (ucast hi), d)
   }"

definition read32 :: "BinaryDecoder \<Rightarrow> (u32 \<times> BinaryDecoder) option" where
  "read32 d = do {
     (lo, d) \<leftarrow> read16 d;
     (hi, d) \<leftarrow> read16 d;
     Some (ucast lo OR push_bit 16 (ucast hi), d)
   }"

definition read64 :: "BinaryDecoder \<Rightarrow> (u64 \<times> BinaryDecoder) option" where
  "read64 d = do {
     (lo, d) \<leftarrow> read32 d;
     (hi, d) \<leftarrow> read32 d;
     Some (ucast lo OR push_bit 32 (ucast hi), d)
   }"

definition read_bool :: "BinaryDecoder \<Rightarrow> (bool \<times> BinaryDecoder) option" where
  "read_bool d = do { (b, d) \<leftarrow> read8 d; Some (b \<noteq> 0, d) }"

definition readBytes :: "nat \<Rightarrow> BinaryDecoder \<Rightarrow> (byte list \<times> BinaryDecoder) option" where
  "readBytes n d = do {
     assert_that (pos d + n \<le> length (data d));
     Some (take n (drop (pos d) (data d)), d\<lparr>pos := pos d + n\<rparr>)
   }"

definition read_string :: "BinaryDecoder \<Rightarrow> (byte list \<times> BinaryDecoder) option" where
  "read_string d = do {
     (size, d) \<leftarrow> read32 d;
     readBytes (unat size) d
   }"

definition finish_decoder :: "BinaryDecoder \<Rightarrow> unit option" where
  "finish_decoder d = assert_that (isEmpty_decoder d)"

section \<open>The coding contract\<close>

text \<open>A decoder that has consumed \<open>pre\<close> and still holds \<open>rest\<close>.\<close>

abbreviation decoder_at :: "byte list \<Rightarrow> byte list \<Rightarrow> BinaryDecoder" where
  "decoder_at pre rest \<equiv> \<lparr>data = pre @ rest, pos = length pre\<rparr>"

text \<open>Writing and reading a fixed number of items in turn.\<close>

primrec write_seq :: "('a \<Rightarrow> byte list \<Rightarrow> byte list) \<Rightarrow> 'a list \<Rightarrow> byte list \<Rightarrow> byte list" where
  "write_seq wr [] e = e"
| "write_seq wr (v # vs) e = write_seq wr vs (wr v e)"

primrec read_seq ::
  "(BinaryDecoder \<Rightarrow> ('a \<times> BinaryDecoder) option) \<Rightarrow> nat \<Rightarrow> BinaryDecoder
     \<Rightarrow> ('a list \<times> BinaryDecoder) option" where
  "read_seq rd 0 d = Some ([], d)"
| "read_seq rd (Suc n) d = do { (v, d) \<leftarrow> rd d; (vs, d) \<leftarrow> read_seq rd n d; Some (v # vs, d) }"

locale codec =
  fixes wr :: "'a \<Rightarrow> byte list \<Rightarrow> byte list"
    and rd :: "BinaryDecoder \<Rightarrow> ('a \<times> BinaryDecoder) option"
    and ok :: "'a \<Rightarrow> bool"
  assumes wr_appends: "wr v e = e @ wr v []"
    and rd_wr: "ok v \<Longrightarrow> rd (decoder_at pre (wr v [] @ post)) = Some (v, decoder_at (pre @ wr v []) post)"
begin

lemma wr_list_appends: "write_seq wr vs e = e @ write_seq wr vs []"
proof (induction vs arbitrary: e)
  case (Cons v vs)
  have "write_seq wr (v # vs) e = wr v e @ write_seq wr vs []"
    using Cons [of "wr v e"] by simp
  also have "\<dots> = e @ wr v [] @ write_seq wr vs []"
    using wr_appends [of v e] by simp
  also have "\<dots> = e @ write_seq wr (v # vs) []"
    using Cons [of "wr v []"] by simp
  finally show ?case .
qed simp

lemma wr_list_Cons: "write_seq wr (v # vs) [] = wr v [] @ write_seq wr vs []"
  using wr_list_appends [of vs "wr v []"] by simp

lemma rd_wr_list:
  "list_all ok vs \<Longrightarrow> read_seq rd (length vs) (decoder_at pre (write_seq wr vs [] @ post))
     = Some (vs, decoder_at (pre @ write_seq wr vs []) post)"
proof (induction vs arbitrary: pre)
  case (Cons v vs)
  then have "rd (decoder_at pre (wr v [] @ (write_seq wr vs [] @ post)))
      = Some (v, decoder_at (pre @ wr v []) (write_seq wr vs [] @ post))"
    by (intro rd_wr) simp
  moreover have "read_seq rd (length vs) (decoder_at (pre @ wr v []) (write_seq wr vs [] @ post))
      = Some (vs, decoder_at ((pre @ wr v []) @ write_seq wr vs []) post)"
    using Cons.IH [of "pre @ wr v []"] Cons.prems by simp
  ultimately show ?case by (simp add: wr_list_Cons del: write_seq.simps)
qed simp

lemma rd_wr_end: "ok v \<Longrightarrow> rd (decoder_at [] (wr v [])) = Some (v, decoder_at (wr v []) [])"
  using rd_wr [of v "[]" "[]"] by simp

lemma wr_inj:
  assumes "ok v" "ok w" "wr v [] = wr w []"
  shows "v = w"
  using rd_wr_end [OF assms(1)] rd_wr_end [OF assms(2)] assms(3) by simp

end

section \<open>The scalar coders satisfy the contract\<close>

lemma split_join_16: "ucast (ucast (w :: u16) :: byte) OR push_bit 8 (ucast (ucast (drop_bit 8 w) :: byte)) = w"
  by (rule bit_word_eqI) (auto simp: bit_simps)

lemma split_join_32: "ucast (ucast (w :: u32) :: u16) OR push_bit 16 (ucast (ucast (drop_bit 16 w) :: u16)) = w"
  by (rule bit_word_eqI) (auto simp: bit_simps)

lemma split_join_64: "ucast (ucast (w :: u64) :: u32) OR push_bit 32 (ucast (ucast (drop_bit 32 w) :: u32)) = w"
  by (rule bit_word_eqI) (auto simp: bit_simps)

interpretation u8: codec write_u8 read8 "\<lambda>_. True"
  by unfold_locales (auto simp: write_u8_def read8_def)

interpretation bool: codec write_bool read_bool "\<lambda>_. True"
  by unfold_locales (auto simp: write_bool_def read_bool_def read8_def)

lemma write_u16_eq: "write_u16 v e = e @ write_u8 (ucast v) [] @ write_u8 (ucast (drop_bit 8 v)) []"
  by (simp add: write_u16_def write_u8_def)

interpretation u16: codec write_u16 read16 "\<lambda>_. True"
proof unfold_locales
  fix v :: u16 and pre post
  let ?lo = "ucast v :: byte" and ?hi = "ucast (drop_bit 8 v) :: byte"
  have "read8 (decoder_at pre (write_u8 ?lo [] @ (write_u8 ?hi [] @ post)))
      = Some (?lo, decoder_at (pre @ write_u8 ?lo []) (write_u8 ?hi [] @ post))"
    by (rule u8.rd_wr) simp
  moreover have "read8 (decoder_at (pre @ write_u8 ?lo []) (write_u8 ?hi [] @ post))
      = Some (?hi, decoder_at ((pre @ write_u8 ?lo []) @ write_u8 ?hi []) post)"
    by (rule u8.rd_wr) simp
  ultimately show "read16 (decoder_at pre (write_u16 v [] @ post))
      = Some (v, decoder_at (pre @ write_u16 v []) post)"
    by (simp add: read16_def write_u16_eq split_join_16)
qed (simp add: write_u16_eq)

lemma write_u32_eq:
  "write_u32 v e = e @ write_u16 (ucast v) [] @ write_u16 (ucast (drop_bit 16 v)) []"
  by (simp add: write_u32_def write_u16_eq)

interpretation u32: codec write_u32 read32 "\<lambda>_. True"
proof unfold_locales
  fix v :: u32 and pre post
  let ?lo = "ucast v :: u16" and ?hi = "ucast (drop_bit 16 v) :: u16"
  have "read16 (decoder_at pre (write_u16 ?lo [] @ (write_u16 ?hi [] @ post)))
      = Some (?lo, decoder_at (pre @ write_u16 ?lo []) (write_u16 ?hi [] @ post))"
    by (rule u16.rd_wr) simp
  moreover have "read16 (decoder_at (pre @ write_u16 ?lo []) (write_u16 ?hi [] @ post))
      = Some (?hi, decoder_at ((pre @ write_u16 ?lo []) @ write_u16 ?hi []) post)"
    by (rule u16.rd_wr) simp
  ultimately show "read32 (decoder_at pre (write_u32 v [] @ post))
      = Some (v, decoder_at (pre @ write_u32 v []) post)"
    by (simp add: read32_def write_u32_eq split_join_32)
qed (simp add: write_u32_eq)

lemma write_u64_eq:
  "write_u64 v e = e @ write_u32 (ucast v) [] @ write_u32 (ucast (drop_bit 32 v)) []"
  by (simp add: write_u64_def write_u32_eq)

interpretation u64: codec write_u64 read64 "\<lambda>_. True"
proof unfold_locales
  fix v :: u64 and pre post
  let ?lo = "ucast v :: u32" and ?hi = "ucast (drop_bit 32 v) :: u32"
  have "read32 (decoder_at pre (write_u32 ?lo [] @ (write_u32 ?hi [] @ post)))
      = Some (?lo, decoder_at (pre @ write_u32 ?lo []) (write_u32 ?hi [] @ post))"
    by (rule u32.rd_wr) simp
  moreover have "read32 (decoder_at (pre @ write_u32 ?lo []) (write_u32 ?hi [] @ post))
      = Some (?hi, decoder_at ((pre @ write_u32 ?lo []) @ write_u32 ?hi []) post)"
    by (rule u32.rd_wr) simp
  ultimately show "read64 (decoder_at pre (write_u64 v [] @ post))
      = Some (v, decoder_at (pre @ write_u64 v []) post)"
    by (simp add: read64_def write_u64_eq split_join_64)
qed (simp add: write_u64_eq)

lemma length_write_u32 [simp]: "length (write_u32 v e) = length e + 4"
  by (simp add: write_u32_eq write_u16_eq write_u8_def)

lemma length_write_u64 [simp]: "length (write_u64 v e) = length e + 8"
  by (simp add: write_u64_eq)

section \<open>Byte strings\<close>

lemma readBytes_at:
  "readBytes (length bs) (decoder_at pre (bs @ post)) = Some (bs, decoder_at (pre @ bs) post)"
  by (simp add: readBytes_def)

lemma write_string_None_iff: "write_string s e = None \<longleftrightarrow> 2 ^ 32 \<le> length s"
proof -
  have "unat (of_nat (length s) :: u32) = length s \<longleftrightarrow> length s < 2 ^ 32"
    by (simp add: unat_of_nat mod_eq_self_iff_div_eq_0 div_eq_0_iff)
  then show ?thesis by (auto simp: write_string_def Let_def assert_that_def)
qed

lemma read_write_string:
  assumes "write_string s [] = Some bs"
  shows "read_string (decoder_at pre (bs @ post)) = Some (s, decoder_at (pre @ bs) post)"
proof -
  let ?n = "of_nat (length s) :: u32"
  from assms have n: "unat ?n = length s" and bs: "bs = write_u32 ?n [] @ s"
    by (auto simp: write_string_def Let_def writeBytes_def)
  have "read32 (decoder_at pre (write_u32 ?n [] @ (s @ post)))
      = Some (?n, decoder_at (pre @ write_u32 ?n []) (s @ post))"
    by (rule u32.rd_wr) simp
  then show ?thesis
    using readBytes_at [of s "pre @ write_u32 ?n []" post]
    by (simp add: read_string_def bs n)
qed

end
