(* ===== verification/StringList.thy ===== *)
theory StringList
  imports BinaryCoding
begin

text \<open>
  The packed string list of \<^verbatim>\<open>lib/Basic/include/llbuild/Basic/StringList.h\<close>: an allocated buffer
  (\<^term>\<open>None\<close> is the null pointer) holding C strings one after the other, and the length of
  the part in use. Sizes are natural numbers below \<open>2 ^ 64\<close>.
\<close>

section \<open>The list\<close>

record StringList =
  sl_contents :: "byte list option"
  sl_size :: nat

definition emptyStringList :: StringList where
  "emptyStringList = \<lparr>sl_contents = None, sl_size = 0\<rparr>"

definition StringList_decode :: "BinaryDecoder \<Rightarrow> (StringList \<times> BinaryDecoder) option" where
  "StringList_decode decoder = do {
     (sz, decoder) \<leftarrow> read64 decoder;
     (contents, decoder) \<leftarrow> readBytes (unat sz) decoder;
     Some (\<lparr>sl_contents = Some contents, sl_size = unat sz\<rparr>, decoder)
   }"

definition StringList_of_string :: "byte list \<Rightarrow> StringList option" where
  "StringList_of_string val = do {
     assert_that (0 \<notin> set val);
     Some \<lparr>sl_contents = Some (val @ [0]), sl_size = length val + 1\<rparr>
   }"

primrec packed_size :: "byte list list \<Rightarrow> nat" where
  "packed_size [] = 0"
| "packed_size (v # vs) = length v + 1 + packed_size vs"

primrec pack_values :: "byte list list \<Rightarrow> byte list option" where
  "pack_values [] = Some [0]"
| "pack_values (v # vs) = do {
     assert_that (0 \<notin> set v);
     rest \<leftarrow> pack_values vs;
     Some (v @ [0] @ rest)
   }"

definition StringList_of_values :: "byte list list \<Rightarrow> StringList option" where
  "StringList_of_values values = do {
     contents \<leftarrow> pack_values values;
     Some \<lparr>sl_contents = Some contents, sl_size = packed_size values\<rparr>
   }"

text \<open>Moving: the constructor empties the source, the assignment only takes its buffer.\<close>

definition StringList_move :: "StringList \<Rightarrow> StringList \<times> StringList" where
  "StringList_move rhs = (rhs, \<lparr>sl_contents = None, sl_size = 0\<rparr>)"

definition StringList_moveAssign :: "StringList \<Rightarrow> StringList \<times> StringList" where
  "StringList_moveAssign rhs = (rhs, rhs\<lparr>sl_contents := None\<rparr>)"

text \<open>\<^verbatim>\<open>StringRef(&contents[i])\<close>: the C string at an offset, which must end inside the buffer.\<close>

definition cstring_at :: "byte list \<Rightarrow> nat \<Rightarrow> byte list option" where
  "cstring_at bs i =
     (if 0 \<in> set (drop i bs) then Some (takeWhile (\<lambda>b. b \<noteq> 0) (drop i bs)) else None)"

function getValues_loop :: "byte list \<Rightarrow> nat \<Rightarrow> nat \<Rightarrow> byte list list option" where
  "getValues_loop contents sz i =
     (if i < sz
      then do {
        v \<leftarrow> cstring_at contents i;
        assert_that (i + length v \<le> sz);
        vs \<leftarrow> getValues_loop contents sz (i + length v + 1);
        Some (v # vs)
      }
      else Some [])"
  by pat_completeness auto
termination
  by (relation "measure (\<lambda>(c, sz, i). sz - i)") auto

declare getValues_loop.simps [simp del]

definition getValues :: "StringList \<Rightarrow> byte list list option" where
  "getValues sl =
     (if sl_size sl = 0 then Some []
      else do { contents \<leftarrow> sl_contents sl; getValues_loop contents (sl_size sl) 0 })"

definition StringList_isEmpty :: "StringList \<Rightarrow> bool" where
  "StringList_isEmpty sl \<longleftrightarrow> sl_size sl = 0"

definition StringList_encode :: "StringList \<Rightarrow> byte list \<Rightarrow> byte list" where
  "StringList_encode sl coder =
     writeBytes (case sl_contents sl of None \<Rightarrow> [] | Some c \<Rightarrow> take (sl_size sl) c)
       (write_u64 (of_nat (sl_size sl)) coder)"

section \<open>Reading back what was packed\<close>

lemma pack_values_eq:
  "pack_values vs = Some bs \<Longrightarrow>
     (\<forall>v \<in> set vs. 0 \<notin> set v) \<and> bs = concat (map (\<lambda>v. v @ [0]) vs) @ [0]"
  by (induction vs arbitrary: bs) (auto simp: bind_eq_Some_conv)

lemma pack_values_Some:
  "(\<forall>v \<in> set vs. 0 \<notin> set v) \<Longrightarrow> pack_values vs = Some (concat (map (\<lambda>v. v @ [0]) vs) @ [0])"
  by (induction vs) auto

lemma packed_size_eq: "packed_size vs = length (concat (map (\<lambda>v. v @ [0 :: byte]) vs))"
  by (induction vs) auto

lemma cstring_at_packed:
  "0 \<notin> set v \<Longrightarrow> cstring_at (pre @ v @ 0 # post) (length pre) = Some v"
  by (auto simp: cstring_at_def takeWhile_append)

lemma getValues_loop_packed:
  assumes "\<forall>v \<in> set vs. 0 \<notin> set v"
  shows "getValues_loop (pre @ concat (map (\<lambda>v. v @ [0]) vs) @ post)
           (length pre + packed_size vs) (length pre) = Some vs"
  using assms
proof (induction vs arbitrary: pre)
  case Nil
  then show ?case by (simp add: getValues_loop.simps)
next
  case (Cons v vs)
  let ?buf = "pre @ v @ 0 # concat (map (\<lambda>v. v @ [0]) vs) @ post"
  have "cstring_at ?buf (length pre) = Some v"
    using Cons.prems by (intro cstring_at_packed) simp
  moreover have "getValues_loop ?buf (length pre + packed_size (v # vs)) (length pre + length v + 1) = Some vs"
    using Cons.IH [of "pre @ v @ [0]"] Cons.prems by (simp add: add_ac)
  ultimately show ?case
    by (subst getValues_loop.simps) simp
qed

lemma getValues_packed:
  assumes "\<forall>v \<in> set vs. 0 \<notin> set v"
  shows "getValues \<lparr>sl_contents = Some (concat (map (\<lambda>v. v @ [0]) vs) @ post), sl_size = packed_size vs\<rparr>
           = Some vs"
  using getValues_loop_packed [OF assms, of "[]" post] by (cases vs) (simp_all add: getValues_def)

lemma StringList_of_values_eq:
  assumes "StringList_of_values vs = Some sl"
  shows "\<forall>v \<in> set vs. 0 \<notin> set v"
    and "sl = \<lparr>sl_contents = Some (concat (map (\<lambda>v. v @ [0]) vs) @ [0]), sl_size = packed_size vs\<rparr>"
  using assms pack_values_eq by (auto simp: StringList_of_values_def bind_eq_Some_conv)

lemma getValues_of_values: "StringList_of_values vs = Some sl \<Longrightarrow> getValues sl = Some vs"
  using StringList_of_values_eq getValues_packed by metis

section \<open>Coding\<close>

text \<open>The bytes in use; the buffer of a list built from values has one more byte.\<close>

definition sl_bytes :: "StringList \<Rightarrow> byte list" where
  "sl_bytes sl = (case sl_contents sl of None \<Rightarrow> [] | Some c \<Rightarrow> take (sl_size sl) c)"

text \<open>A list the coder can carry: its buffer is exactly the bytes in use.\<close>

definition sl_exact :: "StringList \<Rightarrow> bool" where
  "sl_exact sl \<longleftrightarrow> sl_size sl < 2 ^ 64 \<and> (\<exists>c. sl_contents sl = Some c \<and> length c = sl_size sl)"

lemma StringList_encode_eq:
  "StringList_encode sl e = e @ write_u64 (of_nat (sl_size sl)) [] @ sl_bytes sl"
  using u64.wr_appends [of "of_nat (sl_size sl)" e]
  by (simp add: StringList_encode_def writeBytes_def sl_bytes_def)

lemma StringList_decode_encode:
  assumes "sl_size sl < 2 ^ 64" "length (sl_bytes sl) = sl_size sl"
  shows "StringList_decode (decoder_at pre (StringList_encode sl [] @ post))
    = Some (\<lparr>sl_contents = Some (sl_bytes sl), sl_size = sl_size sl\<rparr>,
            decoder_at (pre @ StringList_encode sl []) post)"
proof -
  let ?n = "of_nat (sl_size sl) :: u64"
  have n: "unat ?n = length (sl_bytes sl)"
    using assms by (simp add: unat_of_nat_less)
  have "read64 (decoder_at pre (write_u64 ?n [] @ (sl_bytes sl @ post)))
      = Some (?n, decoder_at (pre @ write_u64 ?n []) (sl_bytes sl @ post))"
    by (rule u64.rd_wr) simp
  then show ?thesis
    using readBytes_at [of "sl_bytes sl" "pre @ write_u64 ?n []" post] assms(2)
    by (simp add: StringList_decode_def StringList_encode_eq n)
qed

interpretation sl: codec StringList_encode StringList_decode sl_exact
proof unfold_locales
  fix v :: StringList and pre post
  assume "sl_exact v"
  then obtain c where c: "sl_contents v = Some c" "length c = sl_size v" "sl_size v < 2 ^ 64"
    by (auto simp: sl_exact_def)
  then have "v = \<lparr>sl_contents = Some (sl_bytes v), sl_size = sl_size v\<rparr>"
    by (simp add: sl_bytes_def)
  with c show "StringList_decode (decoder_at pre (StringList_encode v [] @ post))
      = Some (v, decoder_at (pre @ StringList_encode v []) post)"
    using StringList_decode_encode [of v pre post] by (simp add: sl_bytes_def)
qed (simp add: StringList_encode_eq)

lemma sl_bytes_of_values:
  assumes "StringList_of_values vs = Some sl"
  shows "length (sl_bytes sl) = sl_size sl"
    and "getValues \<lparr>sl_contents = Some (sl_bytes sl), sl_size = sl_size sl\<rparr> = Some vs"
proof -
  note sl = StringList_of_values_eq [OF assms]
  have by_eq: "sl_bytes sl = concat (map (\<lambda>v. v @ [0]) vs)"
    by (simp add: sl_bytes_def sl(2) packed_size_eq)
  then show "length (sl_bytes sl) = sl_size sl"
    by (simp add: sl(2) packed_size_eq)
  show "getValues \<lparr>sl_contents = Some (sl_bytes sl), sl_size = sl_size sl\<rparr> = Some vs"
    using getValues_packed [OF sl(1), of "[]"] sl(2) unfolding by_eq by simp
qed

text \<open>
  Packing strings without a NUL byte, writing the list, and reading it back anywhere
  in a stream gives a list with the same strings and leaves the decoder behind it.
\<close>

theorem stringList_roundtrip:
  assumes "StringList_of_values vs = Some sl" "packed_size vs < 2 ^ 64"
  shows "\<exists>sl'. StringList_decode (decoder_at pre (StringList_encode sl [] @ post))
                 = Some (sl', decoder_at (pre @ StringList_encode sl []) post)
               \<and> getValues sl' = Some vs"
proof -
  from assms have "sl_size sl < 2 ^ 64"
    by (auto simp: StringList_of_values_def bind_eq_Some_conv)
  then show ?thesis
    using StringList_decode_encode [of sl pre post] sl_bytes_of_values [OF assms(1)] by blast
qed

theorem stringList_roundtrip_witness:
  "\<exists>sl sl'. StringList_of_values [[97], [], [98, 99]] = Some sl \<and>
     StringList_decode (decoder_at [1] (StringList_encode sl [] @ [2]))
       = Some (sl', decoder_at ([1] @ StringList_encode sl []) [2])
     \<and> getValues sl' = Some [[97], [], [98, 99]]"
proof -
  obtain sl where sl: "StringList_of_values [[97], [], [98, 99]] = Some sl"
    by (simp add: StringList_of_values_def)
  then show ?thesis
    using stringList_roundtrip [OF sl, of "[1]" "[2]"] by auto
qed

end
