(* ===== verification/FileInfo.thy ===== *)
theory FileInfo
  imports BinaryCoding
begin

text \<open>
  File information: \<^verbatim>\<open>lib/Basic/include/llbuild/Basic/FileInfo.h\<close> and
  \<^verbatim>\<open>lib/Basic/FileInfo.cpp\<close>. The operating system (\<^verbatim>\<open>stat\<close>, reading a file) and the digest of
  the vendored LLVM library are arguments of the definitions that use them.
\<close>

section \<open>Timestamps\<close>

datatype FileTimestamp = FileTimestamp (seconds: u64) (nanoseconds: u64)

text \<open>The comparison operators of \<^verbatim>\<open>FileTimestamp\<close>.\<close>

instantiation FileTimestamp :: ord
begin

definition less_FileTimestamp :: "FileTimestamp \<Rightarrow> FileTimestamp \<Rightarrow> bool" where
  "less_FileTimestamp a b \<longleftrightarrow>
     seconds a < seconds b \<or> (seconds a = seconds b \<and> nanoseconds a < nanoseconds b)"

definition less_eq_FileTimestamp :: "FileTimestamp \<Rightarrow> FileTimestamp \<Rightarrow> bool" where
  "less_eq_FileTimestamp a b \<longleftrightarrow>
     seconds a < seconds b \<or> (seconds a = seconds b \<and> nanoseconds a \<le> nanoseconds b)"

instance ..

end

instance FileTimestamp :: linorder
proof
  fix a b c :: FileTimestamp
  show "(a < b) = (a \<le> b \<and> \<not> b \<le> a)"
    by (auto simp: less_FileTimestamp_def less_eq_FileTimestamp_def)
  show "a \<le> a" by (simp add: less_eq_FileTimestamp_def)
  show "a \<le> b \<Longrightarrow> b \<le> c \<Longrightarrow> a \<le> c" by (auto simp: less_eq_FileTimestamp_def)
  show "a \<le> b \<Longrightarrow> b \<le> a \<Longrightarrow> a = b"
    by (cases a; cases b) (auto simp: less_eq_FileTimestamp_def)
  show "a \<le> b \<or> b \<le> a" by (auto simp: less_eq_FileTimestamp_def)
qed

section \<open>Checksums and file information\<close>

type_synonym FileChecksum = "byte list"

definition zeroChecksum :: FileChecksum where
  "zeroChecksum = replicate 32 0"

record FileInfo =
  device :: u64
  inode :: u64
  mode :: u64
  fi_size :: u64
  modTime :: FileTimestamp
  checksum :: FileChecksum

definition zeroFileInfo :: FileInfo where
  "zeroFileInfo = \<lparr>device = 0, inode = 0, mode = 0, fi_size = 0,
     modTime = FileTimestamp 0 0, checksum = zeroChecksum\<rparr>"

definition isMissing :: "FileInfo \<Rightarrow> bool" where
  "isMissing fi \<longleftrightarrow> device fi = 0 \<and> inode fi = 0 \<and> mode fi = 0 \<and> fi_size fi = 0
     \<and> seconds (modTime fi) = 0 \<and> nanoseconds (modTime fi) = 0"

text \<open>POSIX file types: the bits \<^verbatim>\<open>S_IFMT\<close> of the mode.\<close>

definition S_IFDIR :: u64 where "S_IFDIR = 0x4000"
definition S_IFMT :: u64 where "S_IFMT = 0xF000"
definition S_IFBLK :: u64 where "S_IFBLK = 0x6000"
definition S_IFSOCK :: u64 where "S_IFSOCK = 0xC000"

definition isDirectory :: "FileInfo \<Rightarrow> bool" where
  "isDirectory fi \<longleftrightarrow> mode fi AND S_IFDIR \<noteq> 0"

text \<open>\<^verbatim>\<open>operator==\<close>; the mode takes no part.\<close>

definition fileInfo_eq :: "FileInfo \<Rightarrow> FileInfo \<Rightarrow> bool" where
  "fileInfo_eq a b \<longleftrightarrow> device a = device b \<and> inode a = inode b \<and> fi_size a = fi_size b
     \<and> modTime a = modTime b \<and> checksum a = checksum b"

section \<open>Reading the file system\<close>

record StatStruct =
  st_dev :: u64
  st_ino :: u64
  st_mode :: u64
  st_size :: u64
  st_mtime_sec :: u64
  st_mtime_nsec :: u64

definition getInfoForPath ::
  "(bool \<Rightarrow> 'p \<Rightarrow> StatStruct option) \<Rightarrow> 'p \<Rightarrow> bool \<Rightarrow> FileInfo" where
  "getInfoForPath stat path asLink =
     (case stat asLink path of
        None \<Rightarrow> zeroFileInfo
      | Some buf \<Rightarrow>
          (let result = \<lparr>device = st_dev buf, inode = st_ino buf, mode = st_mode buf,
                 fi_size = st_size buf,
                 modTime = FileTimestamp (st_mtime_sec buf) (st_mtime_nsec buf),
                 checksum = zeroChecksum\<rparr>
           in if isMissing result
              then result\<lparr>modTime := FileTimestamp (seconds (modTime result)) 1\<rparr>
              else result))"

text \<open>
  The hasher used where Apple's CommonCrypto is not available. The member \<^verbatim>\<open>output\<close> is not
  initialised by the constructor: its bytes are the argument \<open>garbage\<close>. \<^verbatim>\<open>finalize\<close> declares a
  local \<^verbatim>\<open>output\<close> that hides the member.
\<close>

record 'h FileChecksumHasherMD5 =
  h_hasher :: 'h
  h_output :: "byte list"

definition md5_finalize ::
  "('h \<Rightarrow> byte list) \<Rightarrow> 'h FileChecksumHasherMD5 \<Rightarrow> 'h FileChecksumHasherMD5" where
  "md5_finalize final h = (let output = final (h_hasher h) in h)"

definition md5_update ::
  "('h \<Rightarrow> byte list \<Rightarrow> 'h) \<Rightarrow> byte list \<Rightarrow> 'h FileChecksumHasherMD5 \<Rightarrow> 'h FileChecksumHasherMD5" where
  "md5_update update buffer h = h\<lparr>h_hasher := update (h_hasher h) buffer\<rparr>"

text \<open>\<^verbatim>\<open>std::copy\<close> of the 16 digest bytes over the start of the 32-byte buffer.\<close>

definition md5_copy :: "'h FileChecksumHasherMD5 \<Rightarrow> FileChecksum \<Rightarrow> FileChecksum" where
  "md5_copy h outputBuffer = h_output h @ drop (length (h_output h)) outputBuffer"

text \<open>The read loop of \<^verbatim>\<open>readAndDigest\<close>, in chunks of \<open>4 * 4096\<close> bytes.\<close>

function digest_chunks ::
  "('h \<Rightarrow> byte list \<Rightarrow> 'h) \<Rightarrow> byte list \<Rightarrow> 'h FileChecksumHasherMD5 \<Rightarrow> 'h FileChecksumHasherMD5" where
  "digest_chunks update bytes h =
     (if bytes = [] then h
      else digest_chunks update (drop 16384 bytes) (md5_update update (take 16384 bytes) h))"
  by pat_completeness auto
termination
  by (relation "measure (\<lambda>(u, bytes, h). length bytes)") auto

declare digest_chunks.simps [simp del]

definition readAndDigest ::
  "('h \<Rightarrow> byte list \<Rightarrow> 'h) \<Rightarrow> ('h \<Rightarrow> byte list) \<Rightarrow> byte list option
     \<Rightarrow> 'h FileChecksumHasherMD5 \<Rightarrow> bool \<times> 'h FileChecksumHasherMD5" where
  "readAndDigest update final file h =
     (case file of
        None \<Rightarrow> (False, h)
      | Some bytes \<Rightarrow> (True, md5_finalize final (digest_chunks update bytes h)))"

definition getChecksumForPath ::
  "('h \<Rightarrow> byte list \<Rightarrow> 'h) \<Rightarrow> ('h \<Rightarrow> byte list) \<Rightarrow> 'h \<Rightarrow> byte list
     \<Rightarrow> (bool \<Rightarrow> 'p \<Rightarrow> StatStruct option) \<Rightarrow> ('p \<Rightarrow> byte list option) \<Rightarrow> 'p \<Rightarrow> FileChecksum" where
  "getChecksumForPath update final init garbage stat read path =
     (let fileInfo = getInfoForPath stat path False
      in if isMissing fileInfo then zeroChecksum
         else if isDirectory fileInfo then zeroChecksum[0 := 1]
         else (case readAndDigest update final (read path) \<lparr>h_hasher = init, h_output = garbage\<rparr> of
                 (True, h) \<Rightarrow> md5_copy h zeroChecksum
               | (False, h) \<Rightarrow> zeroChecksum))"

section \<open>Coding\<close>

definition write_timestamp :: "FileTimestamp \<Rightarrow> byte list \<Rightarrow> byte list" where
  "write_timestamp v coder = write_u64 (nanoseconds v) (write_u64 (seconds v) coder)"

definition read_timestamp :: "BinaryDecoder \<Rightarrow> (FileTimestamp \<times> BinaryDecoder) option" where
  "read_timestamp d = do {
     (s, d) \<leftarrow> read64 d;
     (n, d) \<leftarrow> read64 d;
     Some (FileTimestamp s n, d)
   }"

definition write_checksum :: "FileChecksum \<Rightarrow> byte list \<Rightarrow> byte list" where
  "write_checksum v coder = write_seq write_u8 v coder"

definition read_checksum :: "BinaryDecoder \<Rightarrow> (FileChecksum \<times> BinaryDecoder) option" where
  "read_checksum d = read_seq read8 32 d"

definition write_fileInfo :: "FileInfo \<Rightarrow> byte list \<Rightarrow> byte list" where
  "write_fileInfo v coder =
     write_checksum (checksum v) (write_timestamp (modTime v) (write_u64 (fi_size v)
       (write_u64 (mode v) (write_u64 (inode v) (write_u64 (device v) coder)))))"

definition read_fileInfo :: "BinaryDecoder \<Rightarrow> (FileInfo \<times> BinaryDecoder) option" where
  "read_fileInfo d = do {
     (dev, d) \<leftarrow> read64 d;
     (ino, d) \<leftarrow> read64 d;
     (md, d) \<leftarrow> read64 d;
     (sz, d) \<leftarrow> read64 d;
     (mt, d) \<leftarrow> read_timestamp d;
     (cs, d) \<leftarrow> read_checksum d;
     Some (\<lparr>device = dev, inode = ino, mode = md, fi_size = sz, modTime = mt, checksum = cs\<rparr>, d)
   }"

text \<open>A checksum has 32 bytes: the length of the C++ array.\<close>

definition checksum_ok :: "FileChecksum \<Rightarrow> bool" where
  "checksum_ok c \<longleftrightarrow> length c = 32"

definition fileInfo_ok :: "FileInfo \<Rightarrow> bool" where
  "fileInfo_ok fi \<longleftrightarrow> checksum_ok (checksum fi)"

text \<open>
  Sequencing two coders: what is read behind one written item is again at the start of the
  next. The statements are in the shape the simplifier needs to step through a decoder.
\<close>

lemma read64_at: "read64 (decoder_at pre (write_u64 v [] @ post)) = Some (v, decoder_at (pre @ write_u64 v []) post)"
  by (rule u64.rd_wr) simp

lemma write_timestamp_eq:
  "write_timestamp v e = e @ write_u64 (seconds v) [] @ write_u64 (nanoseconds v) []"
  unfolding write_timestamp_def by (metis append.assoc u64.wr_appends)

interpretation timestamp: codec write_timestamp read_timestamp "\<lambda>_. True"
proof unfold_locales
  fix v :: FileTimestamp and pre post
  show "read_timestamp (decoder_at pre (write_timestamp v [] @ post))
      = Some (v, decoder_at (pre @ write_timestamp v []) post)"
    using read64_at [of pre "seconds v" "write_u64 (nanoseconds v) [] @ post"]
      read64_at [of "pre @ write_u64 (seconds v) []" "nanoseconds v" post]
    by (simp add: read_timestamp_def write_timestamp_eq)
qed (simp add: write_timestamp_eq)

interpretation chk: codec write_checksum read_checksum checksum_ok
proof unfold_locales
  fix v e
  show "write_checksum v e = e @ write_checksum v []"
    by (simp add: write_checksum_def) (rule u8.wr_list_appends)
next
  fix v pre post
  assume "checksum_ok v"
  then show "read_checksum (decoder_at pre (write_checksum v [] @ post))
      = Some (v, decoder_at (pre @ write_checksum v []) post)"
    using u8.rd_wr_list [of v pre post]
    by (simp add: read_checksum_def write_checksum_def checksum_ok_def list_all_def)
qed

lemma write_fileInfo_eq:
  "write_fileInfo v e = e @ write_u64 (device v) [] @ write_u64 (inode v) [] @ write_u64 (mode v) []
     @ write_u64 (fi_size v) [] @ write_timestamp (modTime v) [] @ write_checksum (checksum v) []"
  unfolding write_fileInfo_def
  by (metis append.assoc u64.wr_appends timestamp.wr_appends chk.wr_appends)

interpretation fileInfo: codec write_fileInfo read_fileInfo fileInfo_ok
proof unfold_locales
  fix v :: FileInfo and pre post
  assume ok: "fileInfo_ok v"
  let ?d = "write_u64 (device v) []" and ?i = "write_u64 (inode v) []"
    and ?m = "write_u64 (mode v) []" and ?s = "write_u64 (fi_size v) []"
    and ?t = "write_timestamp (modTime v) []" and ?c = "write_checksum (checksum v) []"
  show "read_fileInfo (decoder_at pre (write_fileInfo v [] @ post))
      = Some (v, decoder_at (pre @ write_fileInfo v []) post)"
    using read64_at [of pre "device v" "?i @ ?m @ ?s @ ?t @ ?c @ post"]
      read64_at [of "pre @ ?d" "inode v" "?m @ ?s @ ?t @ ?c @ post"]
      read64_at [of "pre @ ?d @ ?i" "mode v" "?s @ ?t @ ?c @ post"]
      read64_at [of "pre @ ?d @ ?i @ ?m" "fi_size v" "?t @ ?c @ post"]
      timestamp.rd_wr [where v = "modTime v" and pre = "pre @ ?d @ ?i @ ?m @ ?s" and post = "?c @ post"]
      chk.rd_wr [where v = "checksum v" and pre = "pre @ ?d @ ?i @ ?m @ ?s @ ?t" and post = post] ok
    by (simp add: read_fileInfo_def write_fileInfo_eq fileInfo_ok_def)
qed (simp add: write_fileInfo_eq)

section \<open>Properties\<close>

lemma digest_chunks_output [simp]: "h_output (digest_chunks update bytes h) = h_output h"
  by (induction update bytes h rule: digest_chunks.induct)
    (subst digest_chunks.simps, simp add: md5_update_def)

text \<open>
  \<^verbatim>\<open>getInfoForPath\<close> returns the all-zero sentinel exactly when \<^verbatim>\<open>stat\<close> fails: an
  existing file is never reported as missing, even if the system reports zeros for it.
\<close>

theorem getInfoForPath_missing_iff:
  "isMissing (getInfoForPath stat path asLink) \<longleftrightarrow> stat asLink path = None"
  by (auto simp: getInfoForPath_def isMissing_def zeroFileInfo_def Let_def split: option.splits)

text \<open>
  Without CommonCrypto, the checksum of a readable regular file does not depend on
  its contents or on the digest function: it is the uninitialised memory of the hasher.
\<close>

theorem getChecksumForPath_ignores_contents:
  assumes "stat False p = Some buf" "st_mode buf AND S_IFDIR = 0"
    and "read p = Some bytes" "length garbage = 16"
  shows "getChecksumForPath update final init garbage stat read p = garbage @ replicate 16 0"
proof -
  have "\<not> isMissing (getInfoForPath stat p False)"
    using assms(1) by (simp add: getInfoForPath_missing_iff)
  moreover have "\<not> isDirectory (getInfoForPath stat p False)"
    using assms(1,2) by (simp add: getInfoForPath_def isDirectory_def Let_def)
  moreover have "drop 16 zeroChecksum = replicate 16 0"
    by (simp add: zeroChecksum_def)
  ultimately show ?thesis using assms(3,4)
    by (simp add: getChecksumForPath_def readAndDigest_def md5_finalize_def md5_copy_def)
qed

theorem getChecksumForPath_ignores_contents_witness:
  "getChecksumForPath (\<lambda>h b. h @ b) (\<lambda>h. take 16 h) [] (replicate 16 7)
     (\<lambda>l p. Some \<lparr>st_dev = 1, st_ino = 2, st_mode = 0x81A4, st_size = 3, st_mtime_sec = 4,
                    st_mtime_nsec = 5\<rparr>)
     (\<lambda>p. Some [p, 2, 3]) 9 = replicate 16 7 @ replicate 16 0"
  by (rule getChecksumForPath_ignores_contents [where bytes = "[9, 2, 3]" and
        buf = "\<lparr>st_dev = 1, st_ino = 2, st_mode = 0x81A4, st_size = 3, st_mtime_sec = 4,
                st_mtime_nsec = 5\<rparr>"]) (simp_all add: S_IFDIR_def)

text \<open>
  \<^verbatim>\<open>isDirectory\<close> tests one bit of the file type: block devices and sockets pass for
  directories, while every directory does.
\<close>

theorem isDirectory_file_types:
  "(mode fi AND S_IFMT = S_IFDIR \<longrightarrow> isDirectory fi)
   \<and> (mode fi AND S_IFMT = S_IFBLK \<longrightarrow> isDirectory fi)
   \<and> (mode fi AND S_IFMT = S_IFSOCK \<longrightarrow> isDirectory fi)"
proof -
  have "mode fi AND S_IFDIR = (mode fi AND S_IFMT) AND S_IFDIR"
    by (simp add: S_IFDIR_def S_IFMT_def and.assoc)
  then show ?thesis
    by (auto simp: isDirectory_def S_IFDIR_def S_IFBLK_def S_IFSOCK_def)
qed

theorem isDirectory_file_types_witness:
  "isDirectory (zeroFileInfo\<lparr>mode := 0x61B0\<rparr>) \<and> isDirectory (zeroFileInfo\<lparr>mode := 0xC1ED\<rparr>)"
  using isDirectory_file_types [of "zeroFileInfo\<lparr>mode := 0x61B0\<rparr>"]
    isDirectory_file_types [of "zeroFileInfo\<lparr>mode := 0xC1ED\<rparr>"]
  by (simp add: S_IFMT_def S_IFBLK_def S_IFSOCK_def)

end
