(* ===== verification/BuildValue.thy ===== *)
theory BuildValue
  imports StringList FileInfo
begin

text \<open>
  The value space of the build system: \<^verbatim>\<open>lib/BuildSystem/include/llbuild/BuildSystem/BuildValue.h\<close>.
  The union \<^verbatim>\<open>valueData\<close> is a datatype with one constructor per member. A kind byte outside the
  enumeration, which a decoder can read, is \<open>Kind_other\<close>.
\<close>

section \<open>The value\<close>

datatype BuildValueKind =
    Kind_Invalid | Kind_VirtualInput | Kind_ExistingInput | Kind_MissingInput
  | Kind_DirectoryContents | Kind_DirectoryTreeSignature | Kind_DirectoryTreeStructureSignature
  | Kind_StaleFileRemoval | Kind_MissingOutput | Kind_FailedInput | Kind_SuccessfulCommand
  | Kind_FailedCommand | Kind_PropagatedFailureCommand | Kind_CancelledCommand
  | Kind_SkippedCommand | Kind_Target | Kind_FilteredDirectoryContents
  | Kind_SuccessfulCommandWithOutputSignature | Kind_other byte

datatype ValueData = AsOutputInfo FileInfo | AsOutputInfos "FileInfo list"

record BuildValue =
  bv_kind :: BuildValueKind
  numOutputInfos :: u32
  bv_signature :: u64
  valueData :: ValueData
  stringValues :: StringList

definition isDirectoryContents_value :: "BuildValue \<Rightarrow> bool" where
  "isDirectoryContents_value v \<longleftrightarrow> bv_kind v = Kind_DirectoryContents"

definition isSuccessfulCommand :: "BuildValue \<Rightarrow> bool" where
  "isSuccessfulCommand v \<longleftrightarrow> bv_kind v = Kind_SuccessfulCommand
     \<or> bv_kind v = Kind_SuccessfulCommandWithOutputSignature"

definition kindHasSignature :: "BuildValue \<Rightarrow> bool" where
  "kindHasSignature v \<longleftrightarrow> bv_kind v = Kind_DirectoryTreeSignature
     \<or> bv_kind v = Kind_DirectoryTreeStructureSignature
     \<or> bv_kind v = Kind_SuccessfulCommandWithOutputSignature"

definition kindHasStringList :: "BuildValue \<Rightarrow> bool" where
  "kindHasStringList v \<longleftrightarrow> isDirectoryContents_value v
     \<or> bv_kind v = Kind_FilteredDirectoryContents \<or> bv_kind v = Kind_StaleFileRemoval"

definition kindHasOutputInfo :: "BuildValue \<Rightarrow> bool" where
  "kindHasOutputInfo v \<longleftrightarrow> bv_kind v = Kind_ExistingInput \<or> isSuccessfulCommand v
     \<or> isDirectoryContents_value v"

section \<open>Construction\<close>

definition BuildValue_kind :: "BuildValueKind \<Rightarrow> u64 \<Rightarrow> BuildValue" where
  "BuildValue_kind kind signature = \<lparr>bv_kind = kind, numOutputInfos = 0, bv_signature = signature,
     valueData = AsOutputInfo zeroFileInfo, stringValues = emptyStringList\<rparr>"

definition BuildValue_outputs ::
  "BuildValueKind \<Rightarrow> FileInfo list \<Rightarrow> u64 \<Rightarrow> BuildValue option" where
  "BuildValue_outputs kind outputInfos signature =
     (let n = (of_nat (length outputInfos) :: u32)
      in do {
        assert_that (n \<ge> 1);
        Some \<lparr>bv_kind = kind, numOutputInfos = n, bv_signature = signature,
          valueData = (if n = 1 then AsOutputInfo (outputInfos ! 0)
                       else AsOutputInfos (take (unat n) outputInfos)),
          stringValues = emptyStringList\<rparr>
      })"

definition BuildValue_directory ::
  "BuildValueKind \<Rightarrow> FileInfo \<Rightarrow> byte list list \<Rightarrow> BuildValue option" where
  "BuildValue_directory kind directoryInfo vals = do {
     v \<leftarrow> BuildValue_outputs kind [directoryInfo] 0;
     assert_that (kindHasStringList v);
     sl \<leftarrow> StringList_of_values vals;
     Some (v\<lparr>stringValues := sl\<rparr>)
   }"

definition BuildValue_strings :: "BuildValueKind \<Rightarrow> byte list list \<Rightarrow> BuildValue option" where
  "BuildValue_strings kind vals = do {
     sl \<leftarrow> StringList_of_values vals;
     let v = (BuildValue_kind kind 0)\<lparr>stringValues := sl\<rparr>;
     assert_that (kindHasStringList v);
     Some v
   }"

definition makeExistingInput :: "FileInfo \<Rightarrow> BuildValue option" where
  "makeExistingInput outputInfo = do {
     assert_that (\<not> isMissing outputInfo);
     BuildValue_outputs Kind_ExistingInput [outputInfo] 0
   }"

definition makeDirectoryContents_value :: "FileInfo \<Rightarrow> byte list list \<Rightarrow> BuildValue option" where
  "makeDirectoryContents_value directoryInfo vals =
     BuildValue_directory Kind_DirectoryContents directoryInfo vals"

definition makeDirectoryTreeSignature_value :: "u64 \<Rightarrow> BuildValue" where
  "makeDirectoryTreeSignature_value signature = BuildValue_kind Kind_DirectoryTreeSignature signature"

definition makeDirectoryTreeStructureSignature_value :: "u64 \<Rightarrow> BuildValue" where
  "makeDirectoryTreeStructureSignature_value signature =
     BuildValue_kind Kind_DirectoryTreeStructureSignature signature"

definition makeSuccessfulCommand :: "FileInfo list \<Rightarrow> BuildValue option" where
  "makeSuccessfulCommand outputInfos = BuildValue_outputs Kind_SuccessfulCommand outputInfos 0"

definition makeSuccessfulCommandWithOutputSignature ::
  "FileInfo list \<Rightarrow> u64 \<Rightarrow> BuildValue option" where
  "makeSuccessfulCommandWithOutputSignature outputInfos signature =
     BuildValue_outputs Kind_SuccessfulCommandWithOutputSignature outputInfos signature"

definition makeStaleFileRemoval :: "byte list list \<Rightarrow> BuildValue option" where
  "makeStaleFileRemoval vals = BuildValue_strings Kind_StaleFileRemoval vals"

definition makeFilteredDirectoryContents_value :: "byte list list \<Rightarrow> BuildValue option" where
  "makeFilteredDirectoryContents_value vals = BuildValue_strings Kind_FilteredDirectoryContents vals"

text \<open>
  The constructors without payload: \<^verbatim>\<open>makeInvalid\<close>, \<^verbatim>\<open>makeVirtualInput\<close>, \<^verbatim>\<open>makeMissingInput\<close>,
  \<^verbatim>\<open>makeMissingOutput\<close>, \<^verbatim>\<open>makeFailedInput\<close>, \<^verbatim>\<open>makeFailedCommand\<close>, \<^verbatim>\<open>makePropagatedFailureCommand\<close>,
  \<^verbatim>\<open>makeCancelledCommand\<close>, \<^verbatim>\<open>makeSkippedCommand\<close> and \<^verbatim>\<open>makeTarget\<close>.
\<close>

definition plain_kinds :: "BuildValueKind list" where
  "plain_kinds = [Kind_Invalid, Kind_VirtualInput, Kind_MissingInput, Kind_MissingOutput,
     Kind_FailedInput, Kind_FailedCommand, Kind_PropagatedFailureCommand, Kind_CancelledCommand,
     Kind_SkippedCommand, Kind_Target]"

definition make_plain :: "BuildValueKind \<Rightarrow> BuildValue" where
  "make_plain kind = BuildValue_kind kind 0"

section \<open>Accessors\<close>

definition hasMultipleOutputs :: "BuildValue \<Rightarrow> bool" where
  "hasMultipleOutputs v \<longleftrightarrow> numOutputInfos v > 1"

definition getNumOutputs :: "BuildValue \<Rightarrow> u32 option" where
  "getNumOutputs v = do { assert_that (kindHasOutputInfo v); Some (numOutputInfos v) }"

definition getOutputInfo :: "BuildValue \<Rightarrow> FileInfo option" where
  "getOutputInfo v = do {
     assert_that (kindHasOutputInfo v);
     assert_that (\<not> hasMultipleOutputs v);
     (case valueData v of AsOutputInfo fi \<Rightarrow> Some fi | AsOutputInfos _ \<Rightarrow> None)
   }"

definition getNthOutputInfo :: "BuildValue \<Rightarrow> nat \<Rightarrow> FileInfo option" where
  "getNthOutputInfo v n = do {
     assert_that (kindHasOutputInfo v);
     assert_that (n < unat (numOutputInfos v));
     if hasMultipleOutputs v
     then (case valueData v of
             AsOutputInfos fis \<Rightarrow> if n < length fis then Some (fis ! n) else None
           | AsOutputInfo _ \<Rightarrow> None)
     else do {
       assert_that (n = 0);
       (case valueData v of AsOutputInfo fi \<Rightarrow> Some fi | AsOutputInfos _ \<Rightarrow> None)
     }
   }"

definition getStringListValues :: "BuildValue \<Rightarrow> byte list list option" where
  "getStringListValues v = do { assert_that (kindHasStringList v); getValues (stringValues v) }"

section \<open>Coding\<close>

fun kind_code :: "BuildValueKind \<Rightarrow> byte" where
  "kind_code Kind_Invalid = 0"
| "kind_code Kind_VirtualInput = 1"
| "kind_code Kind_ExistingInput = 2"
| "kind_code Kind_MissingInput = 3"
| "kind_code Kind_DirectoryContents = 4"
| "kind_code Kind_DirectoryTreeSignature = 5"
| "kind_code Kind_DirectoryTreeStructureSignature = 6"
| "kind_code Kind_StaleFileRemoval = 7"
| "kind_code Kind_MissingOutput = 8"
| "kind_code Kind_FailedInput = 9"
| "kind_code Kind_SuccessfulCommand = 10"
| "kind_code Kind_FailedCommand = 11"
| "kind_code Kind_PropagatedFailureCommand = 12"
| "kind_code Kind_CancelledCommand = 13"
| "kind_code Kind_SkippedCommand = 14"
| "kind_code Kind_Target = 15"
| "kind_code Kind_FilteredDirectoryContents = 16"
| "kind_code Kind_SuccessfulCommandWithOutputSignature = 17"
| "kind_code (Kind_other b) = b"

definition all_kinds :: "BuildValueKind list" where
  "all_kinds = [Kind_Invalid, Kind_VirtualInput, Kind_ExistingInput, Kind_MissingInput,
     Kind_DirectoryContents, Kind_DirectoryTreeSignature, Kind_DirectoryTreeStructureSignature,
     Kind_StaleFileRemoval, Kind_MissingOutput, Kind_FailedInput, Kind_SuccessfulCommand,
     Kind_FailedCommand, Kind_PropagatedFailureCommand, Kind_CancelledCommand,
     Kind_SkippedCommand, Kind_Target, Kind_FilteredDirectoryContents,
     Kind_SuccessfulCommandWithOutputSignature]"

definition kind_of_code :: "byte \<Rightarrow> BuildValueKind" where
  "kind_of_code b = (if unat b < length all_kinds then all_kinds ! unat b else Kind_other b)"

definition toData :: "BuildValue \<Rightarrow> byte list option" where
  "toData v = do {
     let coder = write_u8 (kind_code (bv_kind v)) [];
     let coder = (if kindHasSignature v then write_u64 (bv_signature v) coder else coder);
     coder \<leftarrow> (if kindHasOutputInfo v
               then do {
                 infos \<leftarrow> mapM_option (getNthOutputInfo v) [0..<unat (numOutputInfos v)];
                 Some (write_seq write_fileInfo infos (write_u32 (numOutputInfos v) coder))
               }
               else Some coder);
     Some (if kindHasStringList v then StringList_encode (stringValues v) coder else coder)
   }"

text \<open>The optional parts of the decoding constructor, in the order they are read.\<close>

definition readSignature :: "BuildValue \<Rightarrow> BinaryDecoder \<Rightarrow> (BuildValue \<times> BinaryDecoder) option" where
  "readSignature v d =
     (if kindHasSignature v
      then do { (sg, d) \<leftarrow> read64 d; Some (v\<lparr>bv_signature := sg\<rparr>, d) }
      else Some (v, d))"

definition readOutputInfos :: "BuildValue \<Rightarrow> BinaryDecoder \<Rightarrow> (BuildValue \<times> BinaryDecoder) option" where
  "readOutputInfos v d =
     (if kindHasOutputInfo v
      then do {
        (n, d) \<leftarrow> read32 d;
        (infos, d) \<leftarrow> read_seq read_fileInfo (unat n) d;
        Some (v\<lparr>numOutputInfos := n,
               valueData := (if n > 1 then AsOutputInfos infos
                             else if n = 1 then AsOutputInfo (infos ! 0)
                             else valueData v)\<rparr>, d)
      }
      else Some (v, d))"

definition readStringValues :: "BuildValue \<Rightarrow> BinaryDecoder \<Rightarrow> (BuildValue \<times> BinaryDecoder) option" where
  "readStringValues v d =
     (if kindHasStringList v
      then do { (sl, d) \<leftarrow> StringList_decode d; Some (v\<lparr>stringValues := sl\<rparr>, d) }
      else Some (v, d))"

definition fromData :: "byte list \<Rightarrow> BuildValue option" where
  "fromData value_data = (let d = \<lparr>data = value_data, pos = 0\<rparr> in
     if isEmpty_decoder d then Some (BuildValue_kind Kind_Invalid 0)
     else do {
       (b, d) \<leftarrow> read8 d;
       (v, d) \<leftarrow> readSignature (BuildValue_kind (kind_of_code b) 0) d;
       (v, d) \<leftarrow> readOutputInfos v d;
       (v, d) \<leftarrow> readStringValues v d;
       finish_decoder d;
       Some v
     })"

section \<open>Well-formed values\<close>

text \<open>The file infos a value carries, as a list.\<close>

definition value_infos :: "BuildValue \<Rightarrow> FileInfo list" where
  "value_infos v =
     (if numOutputInfos v = 0 then []
      else case valueData v of AsOutputInfo fi \<Rightarrow> [fi] | AsOutputInfos fis \<Rightarrow> fis)"

definition infos_ok :: "BuildValue \<Rightarrow> bool" where
  "infos_ok v \<longleftrightarrow> list_all fileInfo_ok (value_infos v) \<and>
     length (value_infos v) = unat (numOutputInfos v) \<and>
     (case valueData v of AsOutputInfo fi \<Rightarrow> numOutputInfos v = 1 \<or> (numOutputInfos v = 0 \<and> fi = zeroFileInfo)
                       | AsOutputInfos fis \<Rightarrow> numOutputInfos v > 1)"

definition strings_ok :: "BuildValue \<Rightarrow> bool" where
  "strings_ok v \<longleftrightarrow>
     (if kindHasStringList v
      then sl_size (stringValues v) < 2 ^ 64 \<and> length (sl_bytes (stringValues v)) = sl_size (stringValues v)
      else stringValues v = emptyStringList)"

definition value_ok :: "BuildValue \<Rightarrow> bool" where
  "value_ok v \<longleftrightarrow> bv_kind v \<in> set all_kinds \<and> infos_ok v \<and> strings_ok v
     \<and> (\<not> kindHasSignature v \<longrightarrow> bv_signature v = 0)
     \<and> (\<not> kindHasOutputInfo v \<longrightarrow> numOutputInfos v = 0)"

text \<open>What a reader gets back: the string buffer cut to the bytes in use.\<close>

definition value_normal :: "BuildValue \<Rightarrow> BuildValue" where
  "value_normal v =
     (if kindHasStringList v
      then v\<lparr>stringValues := \<lparr>sl_contents = Some (sl_bytes (stringValues v)),
                              sl_size = sl_size (stringValues v)\<rparr>\<rparr>
      else v)"

lemma kind_of_code_kind_code: "k \<in> set all_kinds \<Longrightarrow> kind_of_code (kind_code k) = k"
  by (auto simp: all_kinds_def kind_of_code_def)

lemma kind_tests_cong:
  "bv_kind v = bv_kind w \<Longrightarrow> kindHasSignature v = kindHasSignature w"
  "bv_kind v = bv_kind w \<Longrightarrow> kindHasOutputInfo v = kindHasOutputInfo w"
  "bv_kind v = bv_kind w \<Longrightarrow> kindHasStringList v = kindHasStringList w"
  by (simp_all add: kindHasSignature_def kindHasOutputInfo_def kindHasStringList_def
      isDirectoryContents_value_def isSuccessfulCommand_def)

lemma getNthOutputInfo_value_infos:
  assumes "infos_ok v" "kindHasOutputInfo v" "i < unat (numOutputInfos v)"
  shows "getNthOutputInfo v i = Some (value_infos v ! i)"
proof (cases "valueData v")
  case (AsOutputInfo fi)
  with assms have "numOutputInfos v = 1" by (auto simp: infos_ok_def)
  with AsOutputInfo assms show ?thesis
    by (simp add: getNthOutputInfo_def hasMultipleOutputs_def value_infos_def)
next
  case (AsOutputInfos fis)
  with assms have "numOutputInfos v > 1" "numOutputInfos v \<noteq> 0" "length fis = unat (numOutputInfos v)"
    by (auto simp: infos_ok_def value_infos_def split: if_splits)
  with AsOutputInfos assms show ?thesis
    by (simp add: getNthOutputInfo_def hasMultipleOutputs_def value_infos_def)
qed

lemma mapM_getNthOutputInfo:
  assumes "infos_ok v" "kindHasOutputInfo v"
  shows "mapM_option (getNthOutputInfo v) [0..<unat (numOutputInfos v)] = Some (value_infos v)"
  using assms by (auto simp: mapM_option_eq_Some getNthOutputInfo_value_infos)
    (simp add: infos_ok_def)

section \<open>Round trip\<close>

definition sig_bytes :: "BuildValue \<Rightarrow> byte list" where
  "sig_bytes v = (if kindHasSignature v then write_u64 (bv_signature v) [] else [])"

definition info_bytes :: "BuildValue \<Rightarrow> byte list" where
  "info_bytes v = (if kindHasOutputInfo v
     then write_u32 (numOutputInfos v) [] @ write_seq write_fileInfo (value_infos v) [] else [])"

definition string_bytes :: "BuildValue \<Rightarrow> byte list" where
  "string_bytes v = (if kindHasStringList v then StringList_encode (stringValues v) [] else [])"

text \<open>The appending laws at a non-empty stream, as terminating rewrite rules.\<close>

lemma write_Cons_appends:
  "write_u64 x (b # e) = (b # e) @ write_u64 x []"
  "write_u32 n (b # e) = (b # e) @ write_u32 n []"
  "write_seq write_fileInfo infos (b # e) = (b # e) @ write_seq write_fileInfo infos []"
  "StringList_encode sl (b # e) = (b # e) @ StringList_encode sl []"
  by (rule u64.wr_appends u32.wr_appends fileInfo.wr_list_appends sl.wr_appends)+

lemma toData_eq:
  assumes "infos_ok v"
  shows "toData v = Some (kind_code (bv_kind v) # sig_bytes v @ info_bytes v @ string_bytes v)"
  using mapM_getNthOutputInfo [OF assms]
  by (simp add: toData_def sig_bytes_def info_bytes_def string_bytes_def write_u8_def Let_def
      write_Cons_appends)

lemma readSignature_at:
  assumes "bv_kind w = bv_kind v" "\<not> kindHasSignature v \<longrightarrow> bv_signature w = bv_signature v"
  shows "readSignature w (decoder_at pre (sig_bytes v @ post))
    = Some (w\<lparr>bv_signature := bv_signature v\<rparr>, decoder_at (pre @ sig_bytes v) post)"
  using assms kind_tests_cong(1) [OF assms(1)] read64_at [of pre "bv_signature v" post]
  by (auto simp: readSignature_def sig_bytes_def)

lemma readOutputInfos_at:
  assumes "bv_kind w = bv_kind v" "infos_ok v" "numOutputInfos w = 0" "valueData w = AsOutputInfo zeroFileInfo"
    and "\<not> kindHasOutputInfo v \<longrightarrow> numOutputInfos v = 0"
  shows "readOutputInfos w (decoder_at pre (info_bytes v @ post))
    = Some (w\<lparr>numOutputInfos := numOutputInfos v, valueData := valueData v\<rparr>,
            decoder_at (pre @ info_bytes v) post)"
proof (cases "kindHasOutputInfo v")
  case False
  with assms have "valueData v = AsOutputInfo zeroFileInfo"
    by (auto simp: infos_ok_def split: ValueData.splits)
  with False assms show ?thesis
    using kind_tests_cong(2) [OF assms(1)] by (simp add: readOutputInfos_def info_bytes_def)
next
  case True
  let ?n = "numOutputInfos v" and ?infos = "value_infos v"
  have n: "read32 (decoder_at pre (write_u32 ?n [] @ write_seq write_fileInfo ?infos [] @ post))
      = Some (?n, decoder_at (pre @ write_u32 ?n []) (write_seq write_fileInfo ?infos [] @ post))"
    by (rule u32.rd_wr) simp
  have infos: "read_seq read_fileInfo (unat ?n)
        (decoder_at (pre @ write_u32 ?n []) (write_seq write_fileInfo ?infos [] @ post))
      = Some (?infos, decoder_at ((pre @ write_u32 ?n []) @ write_seq write_fileInfo ?infos []) post)"
    using fileInfo.rd_wr_list [of ?infos "pre @ write_u32 ?n []" post] assms(2)
    by (simp add: infos_ok_def)
  have "(if ?n > 1 then AsOutputInfos ?infos else if ?n = 1 then AsOutputInfo (?infos ! 0)
         else valueData w) = valueData v"
    using assms by (auto simp: infos_ok_def value_infos_def split: ValueData.splits if_splits)
  with True n infos show ?thesis
    using kind_tests_cong(2) [OF assms(1)] by (simp add: readOutputInfos_def info_bytes_def)
qed

lemma readStringValues_at:
  assumes "bv_kind w = bv_kind v" "strings_ok v" "stringValues w = emptyStringList"
  shows "readStringValues w (decoder_at pre (string_bytes v @ post))
    = Some (w\<lparr>stringValues := stringValues (value_normal v)\<rparr>, decoder_at (pre @ string_bytes v) post)"
  using assms kind_tests_cong(3) [OF assms(1)] StringList_decode_encode [of "stringValues v" pre post]
  by (auto simp: readStringValues_def string_bytes_def strings_ok_def value_normal_def)

lemma fromData_eq:
  assumes "value_ok v"
  shows "fromData (kind_code (bv_kind v) # sig_bytes v @ info_bytes v @ string_bytes v)
    = Some (value_normal v)"
proof -
  let ?k = "kind_code (bv_kind v)" and ?w = "BuildValue_kind (bv_kind v) 0"
  let ?w1 = "?w\<lparr>bv_signature := bv_signature v\<rparr>"
  let ?w2 = "?w1\<lparr>numOutputInfos := numOutputInfos v, valueData := valueData v\<rparr>"
  have ok: "kind_of_code ?k = bv_kind v" "infos_ok v" "strings_ok v"
    "\<not> kindHasSignature v \<longrightarrow> bv_signature v = 0" "\<not> kindHasOutputInfo v \<longrightarrow> numOutputInfos v = 0"
    using assms by (auto simp: value_ok_def kind_of_code_kind_code)
  have 1: "readSignature ?w (decoder_at [?k] (sig_bytes v @ info_bytes v @ string_bytes v))
      = Some (?w1, decoder_at ([?k] @ sig_bytes v) (info_bytes v @ string_bytes v))"
    using ok by (intro readSignature_at) (auto simp: BuildValue_kind_def)
  have 2: "readOutputInfos ?w1 (decoder_at ([?k] @ sig_bytes v) (info_bytes v @ string_bytes v))
      = Some (?w2, decoder_at (([?k] @ sig_bytes v) @ info_bytes v) (string_bytes v))"
    using ok by (intro readOutputInfos_at) (auto simp: BuildValue_kind_def)
  have 3: "readStringValues ?w2 (decoder_at (([?k] @ sig_bytes v) @ info_bytes v) (string_bytes v @ []))
      = Some (?w2\<lparr>stringValues := stringValues (value_normal v)\<rparr>,
              decoder_at ((([?k] @ sig_bytes v) @ info_bytes v) @ string_bytes v) [])"
    using ok by (intro readStringValues_at) (auto simp: BuildValue_kind_def)
  have res: "?w2\<lparr>stringValues := stringValues (value_normal v)\<rparr> = value_normal v"
    by (cases v) (simp add: BuildValue_kind_def value_normal_def)
  show ?thesis
    using 1 2 3 ok(1) res
    by (simp add: fromData_def isEmpty_decoder_def read8_def finish_decoder_def)
qed

text \<open>
  C19. Serialising a well-formed build value and reading it back gives the same value, with
  the string buffer cut to the bytes in use; in particular the kind, the signature, the
  output infos and the strings survive.
\<close>

theorem buildValue_roundtrip:
  assumes "value_ok v"
  shows "\<exists>bytes. toData v = Some bytes \<and> fromData bytes = Some (value_normal v)"
  using toData_eq [of v] fromData_eq [OF assms] assms by (simp add: value_ok_def)

lemma value_ok_plain: "k \<in> set plain_kinds \<Longrightarrow> value_ok (make_plain k)"
  by (auto simp: plain_kinds_def make_plain_def value_ok_def BuildValue_kind_def all_kinds_def
      infos_ok_def strings_ok_def value_infos_def kindHasStringList_def kindHasOutputInfo_def
      kindHasSignature_def isDirectoryContents_value_def isSuccessfulCommand_def)

lemma value_ok_outputs:
  assumes "BuildValue_outputs k infos sg = Some v" "list_all fileInfo_ok infos" "length infos < 2 ^ 32"
    and "k \<in> {Kind_ExistingInput, Kind_SuccessfulCommand} \<and> sg = 0
         \<or> k = Kind_SuccessfulCommandWithOutputSignature"
  shows "value_ok v"
proof -
  let ?n = "of_nat (length infos) :: u32"
  have n: "unat ?n = length infos"
    using assms(3) by (simp add: unat_of_nat_less)
  have v: "v = \<lparr>bv_kind = k, numOutputInfos = ?n, bv_signature = sg,
      valueData = (if ?n = 1 then AsOutputInfo (infos ! 0) else AsOutputInfos infos),
      stringValues = emptyStringList\<rparr>" and ge: "?n \<ge> 1"
    using assms(1) n by (auto simp: BuildValue_outputs_def Let_def)
  have one: "?n = 1 \<longleftrightarrow> length infos = 1"
    using n by (simp add: word_unat_eq_iff)
  have zero: "?n \<noteq> 0" and gt: "?n \<noteq> 1 \<longrightarrow> ?n > 1"
    using ge by (auto simp: order_less_le)
  have "infos_ok v"
    using n one zero gt assms(2)
    by (cases infos) (auto simp: infos_ok_def v value_infos_def)
  with assms(4) show ?thesis
    by (auto simp: value_ok_def v all_kinds_def strings_ok_def kindHasStringList_def
        kindHasOutputInfo_def kindHasSignature_def isDirectoryContents_value_def isSuccessfulCommand_def)
qed

theorem buildValue_roundtrip_witness:
  "\<exists>v bytes. makeSuccessfulCommand [zeroFileInfo, zeroFileInfo\<lparr>fi_size := 3\<rparr>] = Some v
     \<and> toData v = Some bytes \<and> fromData bytes = Some (value_normal v)"
proof -
  obtain v where v: "BuildValue_outputs Kind_SuccessfulCommand
      [zeroFileInfo, zeroFileInfo\<lparr>fi_size := 3\<rparr>] 0 = Some v"
    by (simp add: BuildValue_outputs_def)
  have "value_ok v"
    by (rule value_ok_outputs [OF v]) (simp_all add: fileInfo_ok_def checksum_ok_def zeroFileInfo_def zeroChecksum_def)
  then show ?thesis
    using buildValue_roundtrip v by (auto simp: makeSuccessfulCommand_def)
qed

end
