(* ===== verification/BuildKey.thy ===== *)
theory BuildKey
  imports StringList
begin

text \<open>
  The key space of the build system: \<^verbatim>\<open>lib/BuildSystem/include/llbuild/BuildSystem/BuildKey.h\<close>. A
  key is a byte string that starts with a kind code; kinds with a payload store the length
  of the name as a 32-bit integer (in the byte order of a little-endian host), the name and
  the encoded payload. An accessor used on the wrong kind, or one that would read outside
  the key, is \<^term>\<open>None\<close>.
\<close>

section \<open>Kinds\<close>

datatype BuildKeyKind =
    KeyCommand | KeyCustomTask | KeyDirectoryContents | KeyFilteredDirectoryContents
  | KeyDirectoryTreeSignature | KeyDirectoryTreeStructureSignature | KeyNode | KeyStat
  | KeyTarget | KeyUnknown

text \<open>The ASCII codes of \<^verbatim>\<open>'C'\<close>, \<^verbatim>\<open>'D'\<close>, \<^verbatim>\<open>'d'\<close>, \<^verbatim>\<open>'N'\<close>, \<^verbatim>\<open>'I'\<close>, \<^verbatim>\<open>'S'\<close>, \<^verbatim>\<open>'s'\<close>, \<^verbatim>\<open>'T'\<close> and \<^verbatim>\<open>'X'\<close>.\<close>

definition kindForIdentifier :: "byte \<Rightarrow> BuildKeyKind" where
  "kindForIdentifier c =
     (if c = 0x43 then KeyCommand
      else if c = 0x44 then KeyDirectoryContents
      else if c = 0x64 then KeyFilteredDirectoryContents
      else if c = 0x4E then KeyNode
      else if c = 0x49 then KeyStat
      else if c = 0x53 then KeyDirectoryTreeSignature
      else if c = 0x73 then KeyDirectoryTreeStructureSignature
      else if c = 0x54 then KeyTarget
      else if c = 0x58 then KeyCustomTask
      else KeyUnknown)"

fun identifierForKind :: "BuildKeyKind \<Rightarrow> byte" where
  "identifierForKind KeyCommand = 0x43"
| "identifierForKind KeyDirectoryContents = 0x44"
| "identifierForKind KeyFilteredDirectoryContents = 0x64"
| "identifierForKind KeyNode = 0x4E"
| "identifierForKind KeyStat = 0x49"
| "identifierForKind KeyDirectoryTreeSignature = 0x53"
| "identifierForKind KeyDirectoryTreeStructureSignature = 0x73"
| "identifierForKind KeyTarget = 0x54"
| "identifierForKind KeyCustomTask = 0x58"
| "identifierForKind KeyUnknown = 0x20"

definition kindOfKeyData :: "byte list \<Rightarrow> BuildKeyKind" where
  "kindOfKeyData keyData = (case keyData of [] \<Rightarrow> KeyUnknown | c # _ \<Rightarrow> kindForIdentifier c)"

section \<open>Construction\<close>

definition BuildKey_name :: "byte \<Rightarrow> byte list \<Rightarrow> byte list" where
  "BuildKey_name kindCode str = kindCode # str"

text \<open>The sizes are truncated to 32 bits, as the C++ variables are.\<close>

definition BuildKey_data :: "byte \<Rightarrow> byte list \<Rightarrow> byte list \<Rightarrow> byte list" where
  "BuildKey_data kindCode name encoded =
     (let nameSize = (of_nat (length name) :: u32);
          dataSize = (of_nat (length encoded) :: u32)
      in kindCode # write_u32 nameSize [] @ take (unat nameSize) name @ take (unat dataSize) encoded)"

definition makeCommand :: "byte list \<Rightarrow> byte list" where
  "makeCommand name = BuildKey_name (identifierForKind KeyCommand) name"

definition makeCustomTask :: "byte list \<Rightarrow> byte list \<Rightarrow> byte list" where
  "makeCustomTask name taskData =
     BuildKey_data (identifierForKind KeyCustomTask) name (writeBytes taskData [])"

definition makeDirectoryContents :: "byte list \<Rightarrow> byte list" where
  "makeDirectoryContents path = BuildKey_name (identifierForKind KeyDirectoryContents) path"

definition makeFilteredDirectoryContents :: "byte list \<Rightarrow> StringList \<Rightarrow> byte list" where
  "makeFilteredDirectoryContents path filters =
     BuildKey_data (identifierForKind KeyFilteredDirectoryContents) path (StringList_encode filters [])"

definition makeDirectoryTreeSignature :: "byte list \<Rightarrow> StringList \<Rightarrow> byte list" where
  "makeDirectoryTreeSignature path filters =
     BuildKey_data (identifierForKind KeyDirectoryTreeSignature) path (StringList_encode filters [])"

definition makeDirectoryTreeStructureSignature :: "byte list \<Rightarrow> StringList \<Rightarrow> byte list" where
  "makeDirectoryTreeStructureSignature path filters =
     BuildKey_data (identifierForKind KeyDirectoryTreeStructureSignature) path
       (StringList_encode filters [])"

definition makeNode :: "byte list \<Rightarrow> byte list" where
  "makeNode path = BuildKey_name (identifierForKind KeyNode) path"

definition makeStat :: "byte list \<Rightarrow> byte list" where
  "makeStat path = BuildKey_name (identifierForKind KeyStat) path"

definition makeTarget :: "byte list \<Rightarrow> byte list" where
  "makeTarget name = BuildKey_name (identifierForKind KeyTarget) name"

section \<open>Accessors\<close>

text \<open>\<^verbatim>\<open>getCommandName\<close>, \<^verbatim>\<open>getDirectoryPath\<close>, \<^verbatim>\<open>getNodeName\<close>, \<^verbatim>\<open>getStatName\<close>, \<^verbatim>\<open>getTargetName\<close>.\<close>

definition getName :: "BuildKeyKind \<Rightarrow> byte list \<Rightarrow> byte list option" where
  "getName kind key = do {
     assert_that (kindOfKeyData key = kind);
     assert_that (key \<noteq> []);
     Some (tl key)
   }"

text \<open>The name and the payload of a key with both; the four bytes after the code are the size.\<close>

definition getNamePart :: "BuildKeyKind set \<Rightarrow> byte list \<Rightarrow> byte list option" where
  "getNamePart kinds key = do {
     assert_that (kindOfKeyData key \<in> kinds);
     (nameSize, d) \<leftarrow> read32 \<lparr>data = key, pos = 1\<rparr>;
     assert_that (5 + unat nameSize \<le> length key);
     Some (take (unat nameSize) (drop 5 key))
   }"

definition getDataPart :: "BuildKeyKind set \<Rightarrow> byte list \<Rightarrow> byte list option" where
  "getDataPart kinds key = do {
     assert_that (kindOfKeyData key \<in> kinds);
     (nameSize, d) \<leftarrow> read32 \<lparr>data = key, pos = 1\<rparr>;
     assert_that (5 + unat nameSize \<le> length key);
     let dataSize = (of_nat (length key) - 1 - 4 - nameSize :: u32);
     Some (take (unat dataSize) (drop (5 + unat nameSize) key))
   }"

definition getCustomTaskName :: "byte list \<Rightarrow> byte list option" where
  "getCustomTaskName key = getNamePart {KeyCustomTask} key"

definition getCustomTaskData :: "byte list \<Rightarrow> byte list option" where
  "getCustomTaskData key = getDataPart {KeyCustomTask} key"

definition getDirectoryTreeSignaturePath :: "byte list \<Rightarrow> byte list option" where
  "getDirectoryTreeSignaturePath key = getNamePart {KeyDirectoryTreeSignature} key"

definition getFilteredDirectoryPath :: "byte list \<Rightarrow> byte list option" where
  "getFilteredDirectoryPath key =
     getNamePart {KeyFilteredDirectoryContents, KeyDirectoryTreeStructureSignature} key"

definition getContentExclusionPatterns :: "byte list \<Rightarrow> byte list option" where
  "getContentExclusionPatterns key =
     getDataPart {KeyDirectoryTreeSignature, KeyDirectoryTreeStructureSignature,
       KeyFilteredDirectoryContents} key"

definition getContentExclusionPatternsAsStringList :: "byte list \<Rightarrow> StringList option" where
  "getContentExclusionPatternsAsStringList key = do {
     bytes \<leftarrow> getContentExclusionPatterns key;
     (sl, d) \<leftarrow> StringList_decode \<lparr>data = bytes, pos = 0\<rparr>;
     Some sl
   }"

definition fromData_key :: "byte list \<Rightarrow> byte list option" where
  "fromData_key key = do { assert_that (kindOfKeyData key \<noteq> KeyUnknown); Some key }"

section \<open>Properties\<close>

lemma kind_identifier [simp]: "kindForIdentifier (identifierForKind k) = k"
  by (cases k) (simp_all add: kindForIdentifier_def)

lemma kindOf_name [simp]: "kindOfKeyData (BuildKey_name (identifierForKind k) s) = k"
  by (simp add: kindOfKeyData_def BuildKey_name_def)

lemma kindOf_data [simp]: "kindOfKeyData (BuildKey_data (identifierForKind k) n d) = k"
  by (simp add: kindOfKeyData_def BuildKey_data_def Let_def)

lemma BuildKey_data_eq:
  assumes "length n < 2 ^ 32" "length d < 2 ^ 32"
  shows "BuildKey_data c n d = c # write_u32 (of_nat (length n)) [] @ n @ d"
  using assms by (simp add: BuildKey_data_def Let_def unat_of_nat_less)

lemma read32_key:
  assumes "length n < 2 ^ 32" "length d < 2 ^ 32"
  shows "read32 \<lparr>data = BuildKey_data c n d, pos = 1\<rparr>
    = Some (of_nat (length n), decoder_at (c # write_u32 (of_nat (length n)) []) (n @ d))"
  using u32.rd_wr [where v = "of_nat (length n)" and pre = "[c]" and post = "n @ d"] assms
  by (simp add: BuildKey_data_eq)

lemma drop_key [simp]:
  "drop (5 + k) (c # write_u32 n [] @ r) = drop k r" "drop 5 (c # write_u32 n [] @ r) = r"
  by (simp_all add: drop_Cons' write_u32_def write_u16_def write_u8_def)

lemma length_key: "length (c # write_u32 n [] @ r) = 5 + length r"
  by (simp add: write_u32_def write_u16_def write_u8_def)

lemma getNamePart_data:
  assumes "length n < 2 ^ 32" "length d < 2 ^ 32" "k \<in> ks"
  shows "getNamePart ks (BuildKey_data (identifierForKind k) n d) = Some n"
  using assms read32_key [OF assms(1,2), of "identifierForKind k"] kindOf_data [of k n d]
  by (simp add: getNamePart_def BuildKey_data_eq unat_of_nat_less length_key
    del: list.size identifierForKind.simps kindOf_data)

lemma getDataPart_data:
  assumes "length n < 2 ^ 32" "length d < 2 ^ 32" "k \<in> ks"
  shows "getDataPart ks (BuildKey_data (identifierForKind k) n d) = Some d"
proof -
  have "(of_nat (length (BuildKey_data (identifierForKind k) n d)) - 1 - 4 - of_nat (length n) :: u32)
      = of_nat (length d)"
    using assms(1,2) by (simp add: BuildKey_data_eq length_key del: list.size)
  then show ?thesis
    using assms read32_key [OF assms(1,2), of "identifierForKind k"] kindOf_data [of k n d]
    by (simp add: getDataPart_def BuildKey_data_eq unat_of_nat_less length_key
      del: list.size identifierForKind.simps kindOf_data)
qed

text \<open>
  The abstract key: what a key identifies. \<open>encodeKey\<close> is the constructor the build system
  calls for it.
\<close>

datatype AbstractKey =
    ACommand "byte list" | ACustomTask "byte list" "byte list" | ADirectoryContents "byte list"
  | AFiltered "byte list" StringList | ATreeSignature "byte list" StringList
  | ATreeStructure "byte list" StringList | ANode "byte list" | AStat "byte list" | ATarget "byte list"

fun encodeKey :: "AbstractKey \<Rightarrow> byte list" where
  "encodeKey (ACommand n) = makeCommand n"
| "encodeKey (ACustomTask n d) = makeCustomTask n d"
| "encodeKey (ADirectoryContents p) = makeDirectoryContents p"
| "encodeKey (AFiltered p f) = makeFilteredDirectoryContents p f"
| "encodeKey (ATreeSignature p f) = makeDirectoryTreeSignature p f"
| "encodeKey (ATreeStructure p f) = makeDirectoryTreeStructureSignature p f"
| "encodeKey (ANode p) = makeNode p"
| "encodeKey (AStat p) = makeStat p"
| "encodeKey (ATarget n) = makeTarget n"

definition decodeKey :: "byte list \<Rightarrow> AbstractKey option" where
  "decodeKey key =
     (case kindOfKeyData key of
        KeyCommand \<Rightarrow> map_option ACommand (getName KeyCommand key)
      | KeyCustomTask \<Rightarrow> do { n \<leftarrow> getCustomTaskName key; d \<leftarrow> getCustomTaskData key; Some (ACustomTask n d) }
      | KeyDirectoryContents \<Rightarrow> map_option ADirectoryContents (getName KeyDirectoryContents key)
      | KeyFilteredDirectoryContents \<Rightarrow> do {
          p \<leftarrow> getFilteredDirectoryPath key;
          f \<leftarrow> getContentExclusionPatternsAsStringList key; Some (AFiltered p f) }
      | KeyDirectoryTreeSignature \<Rightarrow> do {
          p \<leftarrow> getDirectoryTreeSignaturePath key;
          f \<leftarrow> getContentExclusionPatternsAsStringList key; Some (ATreeSignature p f) }
      | KeyDirectoryTreeStructureSignature \<Rightarrow> do {
          p \<leftarrow> getFilteredDirectoryPath key;
          f \<leftarrow> getContentExclusionPatternsAsStringList key; Some (ATreeStructure p f) }
      | KeyNode \<Rightarrow> map_option ANode (getName KeyNode key)
      | KeyStat \<Rightarrow> map_option AStat (getName KeyStat key)
      | KeyTarget \<Rightarrow> map_option ATarget (getName KeyTarget key)
      | KeyUnknown \<Rightarrow> None)"

text \<open>Names and payloads that fit the 32-bit size fields.\<close>

fun key_fits :: "AbstractKey \<Rightarrow> bool" where
  "key_fits (ACustomTask n d) \<longleftrightarrow> length n < 2 ^ 32 \<and> length d < 2 ^ 32"
| "key_fits (AFiltered p f) \<longleftrightarrow> length p < 2 ^ 32 \<and> sl_exact f \<and> sl_size f + 8 < 2 ^ 32"
| "key_fits (ATreeSignature p f) \<longleftrightarrow> length p < 2 ^ 32 \<and> sl_exact f \<and> sl_size f + 8 < 2 ^ 32"
| "key_fits (ATreeStructure p f) \<longleftrightarrow> length p < 2 ^ 32 \<and> sl_exact f \<and> sl_size f + 8 < 2 ^ 32"
| "key_fits _ \<longleftrightarrow> True"

lemma length_encode_exact: "sl_exact f \<Longrightarrow> length (StringList_encode f []) = sl_size f + 8"
  by (auto simp: sl_exact_def StringList_encode_eq sl_bytes_def)

lemma patterns_roundtrip:
  assumes "length p < 2 ^ 32" "sl_exact f" "sl_size f + 8 < 2 ^ 32"
    and "k \<in> {KeyDirectoryTreeSignature, KeyDirectoryTreeStructureSignature, KeyFilteredDirectoryContents}"
  shows "getContentExclusionPatternsAsStringList
           (BuildKey_data (identifierForKind k) p (StringList_encode f [])) = Some f"
proof -
  have "getDataPart {KeyDirectoryTreeSignature, KeyDirectoryTreeStructureSignature,
      KeyFilteredDirectoryContents} (BuildKey_data (identifierForKind k) p (StringList_encode f []))
    = Some (StringList_encode f [])"
    by (rule getDataPart_data) (use assms length_encode_exact in auto)
  then show ?thesis
    using sl.rd_wr_end [OF assms(2)]
    by (simp add: getContentExclusionPatternsAsStringList_def getContentExclusionPatterns_def)
qed

lemma getName_name [simp]: "getName k (BuildKey_name (identifierForKind k) s) = Some s"
  by (simp add: getName_def) (simp add: BuildKey_name_def)

lemmas make_defs = makeCommand_def makeCustomTask_def makeDirectoryContents_def
  makeFilteredDirectoryContents_def makeDirectoryTreeSignature_def
  makeDirectoryTreeStructureSignature_def makeNode_def makeStat_def makeTarget_def

lemmas part_defs = getCustomTaskName_def getCustomTaskData_def getFilteredDirectoryPath_def
  getDirectoryTreeSignaturePath_def

text \<open>
  C20. Every key whose parts fit the 32-bit size fields can be decoded again through the
  accessors.
\<close>

theorem decode_encodeKey: "key_fits a \<Longrightarrow> decodeKey (encodeKey a) = Some a"
  by (cases a)
    (simp_all del: identifierForKind.simps add: decodeKey_def make_defs part_defs writeBytes_def
      getNamePart_data getDataPart_data patterns_roundtrip length_encode_exact)

lemma decode_encodeKey_witness:
  "decodeKey (encodeKey (ACustomTask [1, 2] [3])) = Some (ACustomTask [1, 2] [3])"
  by (rule decode_encodeKey) simp

end
