(* ===== verification/BuildNode.thy ===== *)
theory BuildNode
  imports BuildValue BuildKey
begin

text \<open>
  Nodes and signatures of the build system: \<^verbatim>\<open>lib/BuildSystem/BuildNode.cpp\<close> with its header,
  \<^verbatim>\<open>CommandSignature\<close> of \<^verbatim>\<open>lib/Basic/include/llbuild/Basic/Hashing.h\<close>, and the file system
  interface the build system works on. The hash functions of the vendored LLVM library and
  the file system are records of functions. Names are strings; keys and values hold bytes.
\<close>

section \<open>Strings and bytes\<close>

definition bytes :: "string \<Rightarrow> byte list" where
  "bytes = map (\<lambda>c. word_of_nat (of_char c))"

definition chars :: "byte list \<Rightarrow> string" where
  "chars = map (\<lambda>b. char_of (unat b))"

lemma chars_bytes [simp]: "chars (bytes s) = s"
proof -
  have "char_of (unat (word_of_nat (of_char c) :: byte)) = c" for c :: char
    by (simp add: unat_of_nat char_of_take_bit_eq take_bit_eq_mod flip: take_bit_eq_mod)
  then show ?thesis by (simp add: chars_def bytes_def comp_def)
qed

lemma bytes_chars [simp]: "bytes (chars b) = b"
proof -
  have "word_of_nat (of_char (char_of (unat x) :: char)) = x" for x :: byte
  proof -
    have "unat x < 2 ^ LENGTH(8)" by (rule unsigned_less)
    then show ?thesis by simp
  qed
  then show ?thesis by (simp add: chars_def bytes_def comp_def)
qed

lemma bytes_inject [simp]: "bytes s = bytes t \<longleftrightarrow> s = t"
  by (metis chars_bytes)

text \<open>\<^verbatim>\<open>path.endswith("/") && path != "/"\<close>: the trailing slash of a directory name is dropped.\<close>

definition dropTrailingSlash :: "string \<Rightarrow> string" where
  "dropTrailingSlash path =
     (if path \<noteq> [] \<and> last path = CHR ''/'' \<and> path \<noteq> ''/'' then butlast path else path)"

section \<open>Signatures\<close>

text \<open>\<^verbatim>\<open>hash_value\<close> and \<^verbatim>\<open>hash_combine\<close> of the vendored LLVM library.\<close>

record hashing =
  hash_string :: "string \<Rightarrow> u64"
  combine_string :: "u64 \<Rightarrow> string \<Rightarrow> u64"
  combine_bool :: "u64 \<Rightarrow> bool \<Rightarrow> u64"
  combine_bytes :: "u64 \<Rightarrow> byte list \<Rightarrow> u64"
  combine_word :: "u64 \<Rightarrow> u64 \<Rightarrow> u64"

type_synonym CommandSignature = u64

definition combine_strings :: "hashing \<Rightarrow> string list \<Rightarrow> CommandSignature \<Rightarrow> CommandSignature" where
  "combine_strings H strings code = foldl (combine_string H) code strings"

section \<open>The file system interface\<close>

record 'fs FileSystem =
  fs_getFileInfo :: "'fs \<Rightarrow> string \<Rightarrow> FileInfo"
  fs_getLinkInfo :: "'fs \<Rightarrow> string \<Rightarrow> FileInfo"
  fs_createDirectories :: "string \<Rightarrow> 'fs \<Rightarrow> bool \<times> 'fs"
  fs_createSymlink :: "string \<Rightarrow> string \<Rightarrow> 'fs \<Rightarrow> bool \<times> 'fs"
  fs_remove :: "string \<Rightarrow> 'fs \<Rightarrow> bool \<times> 'fs"
  fs_errno :: "'fs \<Rightarrow> string option"

text \<open>\<open>fs_errno\<close>: the error of the last failed call, \<^term>\<open>None\<close> if it is \<^verbatim>\<open>ENOENT\<close>. A file system in
  memory, on which the properties are exhibited.\<close>

type_synonym memory_fs = "(string \<times> FileInfo) list"

definition memory_info :: "memory_fs \<Rightarrow> string \<Rightarrow> FileInfo" where
  "memory_info fs path = (case map_of fs path of None \<Rightarrow> zeroFileInfo | Some info \<Rightarrow> info)"

definition memory_file :: "nat \<Rightarrow> FileInfo" where
  "memory_file n = zeroFileInfo\<lparr>inode := of_nat n, mode := 0x8000, modTime := FileTimestamp (of_nat n) 1\<rparr>"

definition memory_dir :: FileInfo where
  "memory_dir = zeroFileInfo\<lparr>inode := 1, mode := 0x4000\<rparr>"

definition memory_FS :: "memory_fs FileSystem" where
  "memory_FS = \<lparr>fs_getFileInfo = memory_info, fs_getLinkInfo = memory_info,
     fs_createDirectories = (\<lambda>path fs. (True, AList.update path memory_dir fs)),
     fs_createSymlink = (\<lambda>contents path fs.
        if map_of fs path = None then (True, AList.update path (memory_file 7) fs) else (False, fs)),
     fs_remove = (\<lambda>path fs. (map_of fs path \<noteq> None, AList.delete path fs)),
     fs_errno = (\<lambda>fs. None)\<rparr>"

section \<open>Nodes\<close>

datatype NodeType = Plain | Directory | DirectoryStructure | Virtual

text \<open>The enumeration values; \<^verbatim>\<open>combine(static_cast<unsigned int>(type))\<close> selects the overload
  for \<^verbatim>\<open>bool\<close>, which the integer is converted to.\<close>

fun node_type_code :: "NodeType \<Rightarrow> nat" where
  "node_type_code Plain = 0"
| "node_type_code Directory = 1"
| "node_type_code DirectoryStructure = 2"
| "node_type_code Virtual = 3"

record BuildNode =
  node_name :: string
  node_type :: NodeType
  node_commandTimestamp :: bool
  node_mutated :: bool
  node_exclusionPatterns :: StringList
  node_mustScanAfterPaths :: "string option list"
  node_producers :: "string list"

definition makeBuildNode :: "string \<Rightarrow> NodeType \<Rightarrow> BuildNode" where
  "makeBuildNode name type = \<lparr>node_name = name, node_type = type, node_commandTimestamp = False,
     node_mutated = False, node_exclusionPatterns = emptyStringList, node_mustScanAfterPaths = [],
     node_producers = []\<rparr>"

definition isVirtual :: "BuildNode \<Rightarrow> bool" where
  "isVirtual node \<longleftrightarrow> node_type node = Virtual"

definition isDirectoryNode :: "BuildNode \<Rightarrow> bool" where
  "isDirectoryNode node \<longleftrightarrow> node_type node = Directory"

definition isDirectoryStructure :: "BuildNode \<Rightarrow> bool" where
  "isDirectoryStructure node \<longleftrightarrow> node_type node = DirectoryStructure"

definition isCommandTimestamp :: "BuildNode \<Rightarrow> bool" where
  "isCommandTimestamp node \<longleftrightarrow> node_commandTimestamp node"

definition isMutated :: "BuildNode \<Rightarrow> bool" where
  "isMutated node \<longleftrightarrow> node_mutated node"

text \<open>\<^verbatim>\<open>BuildSystemImpl::createNode\<close>: the kind of a node follows from its name.\<close>

definition createNode :: "string \<Rightarrow> BuildNode" where
  "createNode name =
     (if name \<noteq> [] \<and> last name = CHR ''/'' then makeBuildNode name Directory
      else if name \<noteq> [] \<and> hd name = CHR ''<'' \<and> last name = CHR ''>'' then makeBuildNode name Virtual
      else makeBuildNode name Plain)"

section \<open>Configuration\<close>

text \<open>
  An attribute is set to one value, a list of values or a list of pairs. An error message and
  the result \<^verbatim>\<open>false\<close> are \<open>Inl\<close>, and the object is then unchanged; \<^term>\<open>None\<close> is a failed
  assertion (a null character inside a string).
\<close>

type_synonym 'a configured = "(string + 'a) option"

definition quoted :: "string \<Rightarrow> string" where
  "quoted s = [CHR 0x27] @ s @ [CHR 0x27]"

definition invalid_value :: "string \<Rightarrow> string \<Rightarrow> 'a configured" where
  "invalid_value name val = Some (Inl (''invalid value: '' @ quoted val @ '' for attribute '' @ quoted name))"

definition unexpected_attribute :: "string \<Rightarrow> 'a configured" where
  "unexpected_attribute name = Some (Inl (''unexpected attribute: '' @ quoted name))"

definition configured :: "'a \<Rightarrow> 'a configured" where
  "configured x = Some (Inr x)"

definition configure_bool :: "string \<Rightarrow> string \<Rightarrow> 'a \<Rightarrow> 'a \<Rightarrow> 'a configured" where
  "configure_bool name val on off =
     (if val = ''true'' then configured on else if val = ''false'' then configured off
      else invalid_value name val)"

definition demote_type :: "NodeType \<Rightarrow> BuildNode \<Rightarrow> BuildNode" where
  "demote_type type node = (if node_type node = type then node\<lparr>node_type := Plain\<rparr> else node)"

definition configureNode :: "string \<Rightarrow> string \<Rightarrow> BuildNode \<Rightarrow> BuildNode configured" where
  "configureNode name val node =
     (if name = ''type'' then
        (if val = ''plain'' then configured (node\<lparr>node_type := Plain\<rparr>)
         else if val = ''directory'' then configured (node\<lparr>node_type := Plain\<rparr>)
         else if val = ''directory-structure'' then configured (node\<lparr>node_type := DirectoryStructure\<rparr>)
         else if val = ''virtual'' then configured (node\<lparr>node_type := Virtual\<rparr>)
         else invalid_value name val)
      else if name = ''is-directory'' then
        configure_bool name val (node\<lparr>node_type := Directory\<rparr>) (demote_type Directory node)
      else if name = ''is-directory-structure'' then
        configure_bool name val (node\<lparr>node_type := DirectoryStructure\<rparr>) (demote_type DirectoryStructure node)
      else if name = ''is-virtual'' then
        configure_bool name val (node\<lparr>node_type := Virtual\<rparr>)
          ((demote_type Virtual node)\<lparr>node_commandTimestamp := False\<rparr>)
      else if name = ''is-command-timestamp'' then
        configure_bool name val (node\<lparr>node_commandTimestamp := True, node_type := Virtual\<rparr>)
          (node\<lparr>node_commandTimestamp := False\<rparr>)
      else if name = ''is-mutated'' then
        configure_bool name val (node\<lparr>node_mutated := True\<rparr>) (node\<lparr>node_mutated := False\<rparr>)
      else if name = ''content-exclusion-patterns'' then
        do { sl \<leftarrow> StringList_of_string (bytes val); configured (node\<lparr>node_exclusionPatterns := sl\<rparr>) }
      else unexpected_attribute name)"

text \<open>
  The paths of \<^verbatim>\<open>must-scan-after-paths\<close> are references into a string list that is destroyed at
  the end of the statement: each is a dangling reference, \<^term>\<open>None\<close>.
\<close>

definition configureNode_values :: "string \<Rightarrow> string list \<Rightarrow> BuildNode \<Rightarrow> BuildNode configured" where
  "configureNode_values name vals node =
     (if name = ''content-exclusion-patterns'' then
        do { sl \<leftarrow> StringList_of_values (map bytes vals); configured (node\<lparr>node_exclusionPatterns := sl\<rparr>) }
      else if name = ''must-scan-after-paths'' then
        do { sl \<leftarrow> StringList_of_values (map bytes vals);
             paths \<leftarrow> getValues sl;
             configured (node\<lparr>node_mustScanAfterPaths := map (\<lambda>path. None) paths\<rparr>) }
      else unexpected_attribute name)"

definition configureNode_pairs ::
  "string \<Rightarrow> (string \<times> string) list \<Rightarrow> BuildNode \<Rightarrow> BuildNode configured" where
  "configureNode_pairs name vals node = unexpected_attribute name"

section \<open>File information and signature\<close>

definition getFileInfo_node :: "'fs FileSystem \<Rightarrow> 'fs \<Rightarrow> BuildNode \<Rightarrow> FileInfo option" where
  "getFileInfo_node FS fs node = do {
     assert_that (\<not> isVirtual node);
     Some (fs_getFileInfo FS fs (dropTrailingSlash (node_name node)))
   }"

definition getLinkInfo_node :: "'fs FileSystem \<Rightarrow> 'fs \<Rightarrow> BuildNode \<Rightarrow> FileInfo option" where
  "getLinkInfo_node FS fs node = do {
     assert_that (\<not> isVirtual node);
     Some (fs_getLinkInfo FS fs (node_name node))
   }"

definition getSignature_node :: "hashing \<Rightarrow> BuildNode \<Rightarrow> CommandSignature" where
  "getSignature_node H node =
     combine_strings H (node_producers node) (combine_bool H 0 (node_type_code (node_type node) \<noteq> 0))"

definition getFileInfo_stat :: "'fs FileSystem \<Rightarrow> 'fs \<Rightarrow> string \<Rightarrow> FileInfo" where
  "getFileInfo_stat FS fs name = fs_getFileInfo FS fs name"

definition getLinkInfo_stat :: "'fs FileSystem \<Rightarrow> 'fs \<Rightarrow> string \<Rightarrow> FileInfo" where
  "getLinkInfo_stat FS fs name = fs_getLinkInfo FS fs name"

section \<open>Consequences\<close>

text \<open>
  The signature of a node does not tell apart directory, directory structure and virtual
  nodes: changing the kind of a node between these does not change it.
\<close>

lemma node_signature_ignores_kind:
  assumes "type1 \<noteq> Plain" "type2 \<noteq> Plain"
  shows "getSignature_node H (node\<lparr>node_type := type1\<rparr>) = getSignature_node H (node\<lparr>node_type := type2\<rparr>)"
  using assms by (cases type1; cases type2) (simp_all add: getSignature_node_def)

text \<open>The type \<^verbatim>\<open>directory\<close> makes a plain node, the deprecated attribute a directory.\<close>

lemma type_directory_is_plain:
  "configureNode ''type'' ''directory'' node = configured (node\<lparr>node_type := Plain\<rparr>)"
  "configureNode ''is-directory'' ''true'' node = configured (node\<lparr>node_type := Directory\<rparr>)"
  by (simp_all add: configureNode_def configure_bool_def)

end
