(* ===== verification/Subprocess.thy ===== *)
theory Subprocess
  imports Prelude
begin

text \<open>
  Running a subprocess: \<^verbatim>\<open>lib/Basic/Subprocess.cpp\<close>, \<^verbatim>\<open>Subprocess.h\<close> and \<^verbatim>\<open>POSIXEnvironment.h\<close>,
  the POSIX branch in a build without assertions in the destructor of a descriptor.

  The operating system is a record \<open>spawn_os\<close> of its answers: the result of each system call that
  the code makes, with lists for the calls that a loop repeats (\<^verbatim>\<open>poll\<close> together with the reads
  that follow it, the reads of a released process, \<^verbatim>\<open>wait4\<close>). A list that runs out stands for a
  call that has not returned yet, and the operation is then \<^term>\<open>None\<close>. The calls a routine makes
  to its delegate, to the completion function, to the process group and to the system are the
  events of a log, in the order of the calls. The opaque context and the process handle are passed
  through unchanged to the delegate by every call and are left out of the events.
\<close>

section \<open>Environment\<close>

record POSIXEnvironment =
  envStorage :: "string list"
  envKeys :: "string list"
  isFrozen :: bool

definition newPOSIXEnvironment :: POSIXEnvironment where
  "newPOSIXEnvironment = \<lparr>envStorage = [], envKeys = [], isFrozen = False\<rparr>"

definition setIfMissing :: "string \<Rightarrow> string \<Rightarrow> POSIXEnvironment \<Rightarrow> POSIXEnvironment option" where
  "setIfMissing key val e = do {
     assert_that (\<not> isFrozen e);
     Some (if key \<in> set (envKeys e) then e
           else e\<lparr>envKeys := key # envKeys e,
                  envStorage := envStorage e @ [key @ ''='' @ val @ [CHR 0x00]]\<rparr>) }"

text \<open>The strings that the vended pointers denote: each ends at its first null character.\<close>

definition getEnvp :: "POSIXEnvironment \<Rightarrow> string list \<times> POSIXEnvironment" where
  "getEnvp e = (map (takeWhile (\<lambda>c. c \<noteq> CHR 0x00)) (envStorage e), e\<lparr>isFrozen := True\<rparr>)"

section \<open>Process results and groups\<close>

datatype ProcessStatus = Unknown | Succeeded | Failed | Cancelled | Skipped

record ProcessResult =
  r_status :: ProcessStatus
  r_exitCode :: int
  r_pid :: int
  r_utime :: u64
  r_stime :: u64
  r_maxrss :: u64

definition mkProcessResult :: "ProcessStatus \<Rightarrow> int \<Rightarrow> ProcessResult" where
  "mkProcessResult st code =
     \<lparr>r_status = st, r_exitCode = code, r_pid = - 1, r_utime = 0, r_stime = 0, r_maxrss = 0\<rparr>"

definition makeFailed :: "int \<Rightarrow> ProcessResult" where
  "makeFailed exitCode = mkProcessResult Failed exitCode"

definition makeCancelled :: "int \<Rightarrow> ProcessResult" where
  "makeCancelled exitCode = mkProcessResult Cancelled exitCode"

record ProcessInfo =
  canSafelyInterrupt :: bool

record ProcessGroup =
  pg_processes :: "(int \<times> ProcessInfo) list"
  pg_closed :: bool

definition newProcessGroup :: ProcessGroup where
  "newProcessGroup = \<lparr>pg_processes = [], pg_closed = False\<rparr>"

definition pg_close :: "ProcessGroup \<Rightarrow> ProcessGroup" where
  "pg_close g = g\<lparr>pg_closed := True\<rparr>"

definition isClosed :: "ProcessGroup \<Rightarrow> bool" where
  "isClosed g = pg_closed g"

definition pg_add :: "int \<Rightarrow> ProcessInfo \<Rightarrow> ProcessGroup \<Rightarrow> ProcessGroup" where
  "pg_add pid info g =
     (if map_of (pg_processes g) pid = None
      then g\<lparr>pg_processes := AList.update pid info (pg_processes g)\<rparr> else g)"

definition pg_remove :: "int \<Rightarrow> ProcessGroup \<Rightarrow> ProcessGroup" where
  "pg_remove pid g = g\<lparr>pg_processes := AList.delete pid (pg_processes g)\<rparr>"

definition SIGINT :: int where "SIGINT = 2"
definition SIGKILL :: int where "SIGKILL = 9"

text \<open>The calls \<^verbatim>\<open>kill(-pid, signal)\<close> that \<^verbatim>\<open>signalAll\<close> makes.\<close>

definition signalAll :: "int \<Rightarrow> ProcessGroup \<Rightarrow> (int \<times> int) list" where
  "signalAll signal g =
     map (\<lambda>it. (- fst it, signal))
       (filter (\<lambda>it. \<not> (signal = SIGINT \<and> \<not> canSafelyInterrupt (snd it))) (pg_processes g))"

section \<open>Events and answers of the system\<close>

datatype proc_event =
    ProcessStarted int
  | ProcessHadError string
  | ProcessHadOutput string
  | ProcessFinished ProcessResult
  | Completion ProcessResult
  | GroupAdd int ProcessInfo
  | GroupRemove int
  | SysPipe int int
  | SysClose int
  | SysCloexec int bool
  | FileAction string int int
  | SysSpawn bool string "string list" "string list" int

datatype read_answer = ReadError int | ReadBytes string

text \<open>
  An answer of \<^verbatim>\<open>poll\<close>: an error with its \<^verbatim>\<open>errno\<close>, or for each of the two descriptors whether
  one of \<^verbatim>\<open>POLLIN\<close>, \<^verbatim>\<open>POLLERR\<close> and \<^verbatim>\<open>POLLHUP\<close> is set and then what the \<^verbatim>\<open>read\<close> returns.
\<close>

datatype poll_answer =
    PollError int
  | PollReady "read_answer option" "read_answer option"

record rusage =
  ru_utime_sec :: u64
  ru_utime_usec :: u64
  ru_stime_sec :: u64
  ru_stime_usec :: u64
  ru_maxrss :: u64

text \<open>
  An answer of \<^verbatim>\<open>wait4\<close>: an error with its \<^verbatim>\<open>errno\<close> and the value that the uninitialised
  \<^verbatim>\<open>exitCode\<close> of the source happens to hold, or the status and the usage.
\<close>

datatype wait_answer = WaitError int int | WaitStatus int rusage

text \<open>
  The answers of the system. A spawn (by \<^verbatim>\<open>posix_spawn\<close>, or by \<^verbatim>\<open>fork\<close> and \<^verbatim>\<open>exec\<close> when the
  first argument is true) gives the process, or an error together with what it stored as process
  identifier, which is unspecified for \<^verbatim>\<open>posix_spawn\<close> and the child's after a failed \<^verbatim>\<open>exec\<close>.
\<close>

record spawn_os =
  os_strerror :: "int \<Rightarrow> string"
  os_addchdirSupported :: bool
  os_addchdir :: "string \<Rightarrow> int"
  os_findProgram :: "string \<Rightarrow> string option"
  os_outputPipe :: "int + int \<times> int"
  os_controlPipe :: "int + int \<times> int"
  os_spawn :: "bool \<Rightarrow> string list \<Rightarrow> string list \<Rightarrow> int \<times> int + int"
  os_polls :: "poll_answer list"
  os_reads :: "read_answer list"
  os_waits :: "wait_answer list"

definition EINTR :: int where "EINTR = 4"
definition EAGAIN :: int where "EAGAIN = 11"

section \<open>Managed descriptors\<close>

type_synonym ManagedDescriptor = int

definition InvalidDescriptor :: int where "InvalidDescriptor = - 1"

definition isValid :: "ManagedDescriptor \<Rightarrow> bool" where
  "isValid fd \<longleftrightarrow> fd \<ge> 0"

definition closeDescriptor :: "ManagedDescriptor \<Rightarrow> ManagedDescriptor \<times> proc_event list" where
  "closeDescriptor fd = (if \<not> isValid fd then (fd, []) else (InvalidDescriptor, [SysClose fd]))"

definition resetDescriptor ::
  "ManagedDescriptor \<Rightarrow> int \<Rightarrow> ManagedDescriptor \<times> proc_event list" where
  "resetDescriptor old fd = (fd, snd (closeDescriptor old))"

definition childMayInherit :: "bool \<Rightarrow> ManagedDescriptor \<Rightarrow> proc_event list" where
  "childMayInherit yes fd =
     (if isValid fd then [] else [SysCloexec fd (if yes then True else False)])"

section \<open>The control protocol\<close>

record ControlProtocolState =
  controlID :: string
  negotiated :: bool
  partialMsg :: string
  releaseSeen :: bool

definition newControlProtocolState :: "string \<Rightarrow> ControlProtocolState" where
  "newControlProtocolState i =
     \<lparr>controlID = i, negotiated = False, partialMsg = [], releaseSeen = False\<rparr>"

definition maxLength :: nat where "maxLength = 16"

definition newline :: char where "newline = CHR 0x0A"

text \<open>
  \<^verbatim>\<open>ControlProtocolState::read\<close>: the return value (0, 1 or -1), the error string when one is
  stored, and the state after the call.
\<close>

function control_read ::
  "string \<Rightarrow> ControlProtocolState \<Rightarrow> int \<times> string option \<times> ControlProtocolState" where
  "control_read buf c =
     (if buf = [] then (0, None, c)
      else if newline \<notin> set buf then
        if length (partialMsg c) + length buf > maxLength
        then (- 1, Some ''excessive message length'', c\<lparr>partialMsg := []\<rparr>)
        else (0, None, c\<lparr>partialMsg := partialMsg c @ buf\<rparr>)
      else
        let nl = length (takeWhile (\<lambda>ch. ch \<noteq> newline) buf);
            msg = partialMsg c @ take nl buf
        in if \<not> negotiated c then
             if msg \<noteq> ''llbuild.1''
             then (- 1, Some (''unsupported protocol: '' @ msg), c\<lparr>partialMsg := []\<rparr>)
             else control_read (drop (nl + 1) buf) (c\<lparr>negotiated := True, partialMsg := []\<rparr>)
           else (1, Some ''bad ID'',
                 c\<lparr>releaseSeen := (if msg = controlID c then True else releaseSeen c), partialMsg := []\<rparr>))"
  by pat_completeness auto
termination
  by (relation "measure (length \<circ> fst)") auto

declare control_read.simps [simp del]

definition shouldRelease :: "ControlProtocolState \<Rightarrow> bool" where
  "shouldRelease c = releaseSeen c"

section \<open>Waiting for a process\<close>

fun captureExecutedProcessOutput ::
  "(int \<Rightarrow> string) \<Rightarrow> ManagedDescriptor \<Rightarrow> read_answer list \<Rightarrow> proc_event list option" where
  "captureExecutedProcessOutput err fd [] = None"
| "captureExecutedProcessOutput err fd (ReadError e # as) =
     Some (ProcessHadError (''unable to read process output ('' @ err e @ '')'')
           # snd (closeDescriptor fd))"
| "captureExecutedProcessOutput err fd (ReadBytes bs # as) =
     (if bs = [] then Some (snd (closeDescriptor fd))
      else map_option ((#) (ProcessHadOutput bs)) (captureExecutedProcessOutput err fd as))"

definition WTERMSIG :: "int \<Rightarrow> int" where
  "WTERMSIG st = st mod 128"

definition WIFSIGNALED :: "int \<Rightarrow> bool" where
  "WIFSIGNALED st \<longleftrightarrow> st mod 128 \<noteq> 0 \<and> st mod 128 \<noteq> 127"

definition processStatus :: "int \<Rightarrow> ProcessStatus" where
  "processStatus exitCode =
     (let cancelled = WIFSIGNALED exitCode \<and> (WTERMSIG exitCode = SIGINT \<or> WTERMSIG exitCode = SIGKILL)
      in if cancelled then Cancelled else if exitCode = 0 then Succeeded else Failed)"

fun wait4_loop :: "wait_answer list \<Rightarrow> wait_answer option" where
  "wait4_loop [] = None"
| "wait4_loop (WaitError e garbage # as) =
     (if e = EINTR then wait4_loop as else Some (WaitError e garbage))"
| "wait4_loop (WaitStatus st usage # as) = Some (WaitStatus st usage)"

definition cleanUpExecutedProcess ::
  "spawn_os \<Rightarrow> int \<Rightarrow> ManagedDescriptor \<Rightarrow> proc_event list option" where
  "cleanUpExecutedProcess os pid releaseFd = do {
     answer \<leftarrow> wait4_loop (os_waits os);
     let pre = snd (closeDescriptor releaseFd) @ [GroupRemove pid];
     Some (case answer of
       WaitError e exitCode \<Rightarrow>
         let result = makeFailed exitCode
         in pre @ [ProcessHadError (''unable to wait for process ('' @ os_strerror os e @ '')''),
                   ProcessFinished result, Completion result]
     | WaitStatus exitCode usage \<Rightarrow>
         let result = \<lparr>r_status = processStatus exitCode, r_exitCode = exitCode, r_pid = pid,
                       r_utime = ru_utime_sec usage * 1000000 + ru_utime_usec usage,
                       r_stime = ru_stime_sec usage * 1000000 + ru_stime_usec usage,
                       r_maxrss = ru_maxrss usage\<rparr>
         in pre @ [ProcessFinished result, Completion result]) }"

section \<open>Starting a process\<close>

record ProcessAttributes =
  a_canSafelyInterrupt :: bool
  a_connectToConsole :: bool
  a_workingDir :: string
  a_inheritEnvironment :: bool
  a_controlEnabled :: bool

datatype CommunicationPipesCreationError =
  ERROR_NONE | OUTPUT_PIPE_FAILED | CONTROL_PIPE_FAILED

record pipe_ends =
  outputPipeParentEnd :: ManagedDescriptor
  outputPipeChildEnd :: ManagedDescriptor
  controlPipeParentEnd :: ManagedDescriptor
  controlPipeChildEnd :: ManagedDescriptor

definition noPipes :: pipe_ends where
  "noPipes = \<lparr>outputPipeParentEnd = InvalidDescriptor, outputPipeChildEnd = InvalidDescriptor,
     controlPipeParentEnd = InvalidDescriptor, controlPipeChildEnd = InvalidDescriptor\<rparr>"

definition createOutputPipe ::
  "spawn_os \<Rightarrow> bool \<Rightarrow> pipe_ends \<Rightarrow> (int + pipe_ends) \<times> proc_event list" where
  "createOutputPipe os connectToConsole p =
     (if connectToConsole then
        (Inr p, [FileAction ''dup2'' 0 0, FileAction ''dup2'' 1 1, FileAction ''dup2'' 2 2])
      else case os_outputPipe os of
        Inl e \<Rightarrow> (Inl e, [FileAction ''open /dev/null'' 0 0])
      | Inr (r, w) \<Rightarrow>
          (let (rp, ev1) = resetDescriptor (outputPipeParentEnd p) r;
               (wc, ev2) = resetDescriptor (outputPipeChildEnd p) w
           in (Inr (p\<lparr>outputPipeParentEnd := rp, outputPipeChildEnd := wc\<rparr>),
               [FileAction ''open /dev/null'' 0 0, SysPipe r w] @ ev1 @ childMayInherit False rp @ ev2
               @ [FileAction ''dup2'' wc 1, FileAction ''dup2'' wc 2, FileAction ''close'' wc wc])))"

definition createControlPipe ::
  "spawn_os \<Rightarrow> bool \<Rightarrow> pipe_ends \<Rightarrow> (int + pipe_ends) \<times> proc_event list" where
  "createControlPipe os controlEnabled p =
     (if \<not> controlEnabled then (Inr p, [])
      else case os_controlPipe os of
        Inl e \<Rightarrow>
          (Inl e, snd (closeDescriptor (outputPipeParentEnd p)) @ snd (closeDescriptor (outputPipeChildEnd p)))
      | Inr (r, w) \<Rightarrow>
          (let (rp, ev1) = resetDescriptor (controlPipeParentEnd p) r;
               (wc, ev2) = resetDescriptor (controlPipeChildEnd p) w
           in (Inr (p\<lparr>controlPipeParentEnd := rp, controlPipeChildEnd := wc\<rparr>),
               [SysPipe r w] @ ev1 @ childMayInherit False rp @ ev2 @ [FileAction ''dup2'' wc wc])))"

definition createCommunicationPipes ::
  "spawn_os \<Rightarrow> ProcessAttributes
   \<Rightarrow> (CommunicationPipesCreationError \<times> int) \<times> pipe_ends \<times> proc_event list" where
  "createCommunicationPipes os attr =
     (case createOutputPipe os (a_connectToConsole attr) noPipes of
        (Inl e, ev) \<Rightarrow> ((OUTPUT_PIPE_FAILED, e), noPipes, ev)
      | (Inr p, ev) \<Rightarrow>
          (case createControlPipe os (a_controlEnabled attr) p of
             (Inl e, ev') \<Rightarrow> ((CONTROL_PIPE_FAILED, e), noPipes, ev @ ev')
           | (Inr p', ev') \<Rightarrow> ((ERROR_NONE, 0), p', ev @ ev')))"

text \<open>\<^verbatim>\<open>llvm::sys::path::is_absolute\<close> for POSIX paths: a root directory, possibly after \<^verbatim>\<open>//net\<close>.\<close>

definition slash :: char where "slash = CHR 0x2F"

definition is_absolute :: "string \<Rightarrow> bool" where
  "is_absolute path =
     (case path of
        [] \<Rightarrow> False
      | [a] \<Rightarrow> a = slash
      | [a, b] \<Rightarrow> a = slash
      | a # b # c # rest \<Rightarrow>
          a = slash \<and> (b = slash \<and> c \<noteq> slash \<longrightarrow> slash \<in> set rest))"

text \<open>\<^verbatim>\<open>Twine::utohexstr\<close> and \<^verbatim>\<open>Twine(int)\<close>: lower-case hexadecimal and decimal.\<close>

definition digit_char :: "nat \<Rightarrow> char" where
  "digit_char d = (if d < 10 then char_of (48 + d) else char_of (87 + d))"

function digits :: "nat \<Rightarrow> nat \<Rightarrow> string" where
  "digits b n = (if b \<le> 1 \<or> n < b then [digit_char n] else digits b (n div b) @ [digit_char (n mod b)])"
  by pat_completeness auto
termination
  by (relation "measure snd") (auto simp: div_less_dividend)

declare digits.simps [simp del]

definition utohexstr :: "u64 \<Rightarrow> string" where
  "utohexstr n = digits 16 (unat n)"

definition decstr :: "int \<Rightarrow> string" where
  "decstr n = (if n < 0 then CHR 0x2D # digits 10 (nat (- n)) else digits 10 (nat n))"

text \<open>
  One round of servicing descriptor \<open>i\<close> after \<^verbatim>\<open>poll\<close>: whether it stays active, and the effect of
  its callback on the control state and the log.
\<close>

record poll_state =
  p_events0 :: bool
  p_events1 :: bool
  p_control :: ControlProtocolState
  p_log :: "proc_event list"

definition p_emit :: "proc_event list \<Rightarrow> poll_state \<Rightarrow> poll_state" where
  "p_emit ev s = s\<lparr>p_log := p_log s @ ev\<rparr>"

definition outputCallback :: "string \<Rightarrow> poll_state \<Rightarrow> bool \<times> poll_state" where
  "outputCallback buf s = (True, p_emit [ProcessHadOutput buf] s)"

definition controlCallback :: "string \<Rightarrow> poll_state \<Rightarrow> bool \<times> poll_state" where
  "controlCallback buf s =
     (case control_read buf (p_control s) of (ret, errstr, c) \<Rightarrow>
        let s = s\<lparr>p_control := c\<rparr>;
            s = (if ret < 0
                 then p_emit [ProcessHadError (''control protocol error'' @ (case errstr of None \<Rightarrow> [] | Some m \<Rightarrow> m))] s
                 else s)
        in (ret = 0, s))"

definition readDescriptor ::
  "(int \<Rightarrow> string) \<Rightarrow> (string \<Rightarrow> poll_state \<Rightarrow> bool \<times> poll_state) \<Rightarrow> read_answer \<Rightarrow> poll_state
   \<Rightarrow> bool \<times> poll_state" where
  "readDescriptor err cb a s =
     (case a of
        ReadError e \<Rightarrow> (False, p_emit [ProcessHadError (''unable to read process output ('' @ err e @ '')'')] s)
      | ReadBytes bs \<Rightarrow> if bs = [] then (False, s) else cb bs s)"

definition serviceOutput ::
  "(int \<Rightarrow> string) \<Rightarrow> read_answer option \<Rightarrow> poll_state \<Rightarrow> bool \<times> poll_state" where
  "serviceOutput err r s =
     (case r of
        None \<Rightarrow> (p_events0 s, s)
      | Some a \<Rightarrow>
          (case readDescriptor err outputCallback a s of
             (False, s) \<Rightarrow> (False, s\<lparr>p_events0 := False\<rparr>)
           | (True, s) \<Rightarrow> (p_events0 s, s)))"

definition serviceControl ::
  "(int \<Rightarrow> string) \<Rightarrow> read_answer option \<Rightarrow> poll_state \<Rightarrow> bool \<times> poll_state" where
  "serviceControl err r s =
     (case r of
        None \<Rightarrow> (p_events1 s, s)
      | Some a \<Rightarrow>
          (case readDescriptor err controlCallback a s of
             (False, s) \<Rightarrow> (False, s\<lparr>p_events1 := False\<rparr>)
           | (True, s) \<Rightarrow> (p_events1 s, s)))"

datatype loop_end = LoopDone | LoopRelease | LoopPollFailed

fun pollLoop ::
  "(int \<Rightarrow> string) \<Rightarrow> poll_answer list \<Rightarrow> poll_state \<Rightarrow> (loop_end \<times> poll_state) option" where
  "pollLoop err [] s = None"
| "pollLoop err (PollError e # as) s =
     (if e = EAGAIN \<or> e = EINTR then pollLoop err as s
      else Some (LoopPollFailed, p_emit [ProcessHadError (''failed to poll ('' @ err e @ '')'')] s))"
| "pollLoop err (PollReady r0 r1 # as) s =
     (let (active0, s) = serviceOutput err r0 s;
          (active1, s) = serviceControl err r1 s
      in if shouldRelease (p_control s) then Some (LoopRelease, s)
         else if active0 \<or> active1 then pollLoop err as s
         else Some (LoopDone, s))"

text \<open>
  What the call leaves behind: it waited for the process and returned, it handed the rest of the
  work (the process and the parent ends of the two pipes) to \<^verbatim>\<open>releaseFn\<close>, or it gave up after an
  unexpected failure of \<^verbatim>\<open>poll\<close>.
\<close>

datatype spawn_outcome =
    SpawnReturned
  | SpawnReleased int ManagedDescriptor ManagedDescriptor
  | SpawnPollFailed

text \<open>The function passed to \<^verbatim>\<open>releaseFn\<close>.\<close>

definition processWait ::
  "spawn_os \<Rightarrow> int \<Rightarrow> ManagedDescriptor \<Rightarrow> ManagedDescriptor \<Rightarrow> proc_event list option" where
  "processWait os pid outputFd controlFd = do {
     ev1 \<leftarrow> (if isValid outputFd
              then captureExecutedProcessOutput (os_strerror os) outputFd (os_reads os) else Some []);
     ev2 \<leftarrow> cleanUpExecutedProcess os pid controlFd;
     Some (ev1 @ ev2) }"

text \<open>The early failures report a process that never ran.\<close>

definition failedStart :: "string \<Rightarrow> proc_event list" where
  "failedStart msg =
     [ProcessStarted (- 1), ProcessHadError msg, ProcessFinished (makeFailed (- 1)),
      Completion (makeFailed (- 1))]"

text \<open>
  The section under the lock of the process group: the pipes, the environment and the spawn. The
  result is the process identifier (-1 for none) and the descriptors still open in the parent, or
  \<open>Inl\<close> when the function has returned.
\<close>

definition spawnLocked ::
  "spawn_os \<Rightarrow> string list \<Rightarrow> POSIXEnvironment \<Rightarrow> ProcessAttributes
   \<Rightarrow> (proc_event list + proc_event list \<times> int \<times> pipe_ends) option" where
  "spawnLocked os args env attr =
     (case createCommunicationPipes os attr of
        ((error, errno), p, ev) \<Rightarrow>
          if error \<noteq> ERROR_NONE then
            Some (Inl (ev @ failedStart (''unable to open ''
              @ (if error = OUTPUT_PIPE_FAILED then ''output pipe'' else ''control pipe'')
              @ '' ('' @ os_strerror os errno @ '')'')))
          else do {
            env \<leftarrow> (if isValid (controlPipeChildEnd p)
                     then setIfMissing ''LLBUILD_CONTROL_FD'' (decstr (controlPipeChildEnd p)) env
                     else Some env);
            let useFork = (a_workingDir attr \<noteq> [] \<and> \<not> os_addchdirSupported os);
            let answer = os_spawn os useFork args (fst (getEnvp env));
            let (pid, ev') = (case answer of
                Inl (e, stored) \<Rightarrow> (- 1, [ProcessStarted stored,
                          ProcessHadError (''unable to spawn process '' @ [CHR 0x27] @ hd args @ [CHR 0x27]
                                           @ '' ('' @ os_strerror os e @ '')''),
                          ProcessFinished (makeFailed (- 1))])
              | Inr pid \<Rightarrow> (pid, [SysSpawn useFork (a_workingDir attr) args (fst (getEnvp env)) pid,
                          ProcessStarted pid,
                          GroupAdd pid \<lparr>canSafelyInterrupt = a_canSafelyInterrupt attr\<rparr>]));
            let (cc, ev1) = closeDescriptor (controlPipeChildEnd p);
            let (oc, ev2) = closeDescriptor (outputPipeChildEnd p);
            Some (Inr (ev @ ev' @ ev1 @ ev2, pid,
                       p\<lparr>controlPipeChildEnd := cc, outputPipeChildEnd := oc\<rparr>)) })"

text \<open>The part after the lock, for a process that runs: read its pipes, then wait or release.\<close>

definition initialPoll :: "string \<Rightarrow> ProcessAttributes \<Rightarrow> poll_state" where
  "initialPoll taskID attr =
     \<lparr>p_events0 = \<not> a_connectToConsole attr, p_events1 = a_controlEnabled attr,
      p_control = newControlProtocolState taskID, p_log = []\<rparr>"

fun afterPoll ::
  "spawn_os \<Rightarrow> int \<Rightarrow> pipe_ends \<Rightarrow> loop_end \<times> poll_state \<Rightarrow> (proc_event list \<times> spawn_outcome) option" where
  "afterPoll os pid p (LoopPollFailed, s) =
     Some (p_log s @ snd (closeDescriptor (controlPipeParentEnd p))
           @ snd (closeDescriptor (outputPipeParentEnd p)), SpawnPollFailed)"
| "afterPoll os pid p (LoopRelease, s) =
     Some (p_log s, SpawnReleased pid (outputPipeParentEnd p) (controlPipeParentEnd p))"
| "afterPoll os pid p (LoopDone, s) = do {
     ev \<leftarrow> cleanUpExecutedProcess os pid (controlPipeParentEnd p);
     Some (p_log s @ snd (closeDescriptor (outputPipeParentEnd p)) @ ev, SpawnReturned) }"

definition watchProcess ::
  "spawn_os \<Rightarrow> string \<Rightarrow> ProcessAttributes \<Rightarrow> int \<Rightarrow> pipe_ends
   \<Rightarrow> (proc_event list \<times> spawn_outcome) option" where
  "watchProcess os taskID attr pid p =
     (let s = initialPoll taskID attr;
          activeEvents = (p_events0 s \<or> p_events1 s)
      in (if activeEvents then pollLoop (os_strerror os) (os_polls os) s else Some (LoopDone, s))
         \<bind> afterPoll os pid p)"

text \<open>\<^verbatim>\<open>attr.controlEnabled = false\<close> for console workloads.\<close>

definition effectiveAttributes :: "ProcessAttributes \<Rightarrow> ProcessAttributes" where
  "effectiveAttributes attr =
     (if a_connectToConsole attr then attr\<lparr>a_controlEnabled := False\<rparr> else attr)"

definition resolveArgs :: "spawn_os \<Rightarrow> string list \<Rightarrow> string list" where
  "resolveArgs os args =
     (if \<not> is_absolute (hd args)
      then case os_findProgram os (hd args) of Some p \<Rightarrow> args[0 := p] | None \<Rightarrow> args
      else args)"

definition afterSpawn ::
  "spawn_os \<Rightarrow> string \<Rightarrow> ProcessAttributes \<Rightarrow> proc_event list \<Rightarrow> int \<Rightarrow> pipe_ends
   \<Rightarrow> (proc_event list \<times> spawn_outcome) option" where
  "afterSpawn os taskID attr ev pid p =
     (if pid = - 1 then
        Some (ev @ snd (closeDescriptor (outputPipeParentEnd p))
              @ snd (closeDescriptor (controlPipeParentEnd p))
              @ [Completion (makeFailed (- 1))], SpawnReturned)
      else map_option (\<lambda>(ev', out). (ev @ ev', out)) (watchProcess os taskID attr pid p))"

definition spawnProcess ::
  "spawn_os \<Rightarrow> ProcessGroup \<Rightarrow> u64 \<Rightarrow> string list \<Rightarrow> POSIXEnvironment \<Rightarrow> ProcessAttributes
   \<Rightarrow> (proc_event list \<times> spawn_outcome) option" where
  "spawnProcess os pgrp handle commandLine env attr =
     (let attr = effectiveAttributes attr
      in if commandLine = [] then Some (failedStart ''no arguments for command'', SpawnReturned)
         else if a_workingDir attr \<noteq> [] \<and> os_addchdirSupported os \<and> os_addchdir os (a_workingDir attr) \<noteq> 0
         then Some (failedStart ''failed to set the working directory'', SpawnReturned)
         else do {
           env \<leftarrow> setIfMissing ''LLBUILD_TASK_ID'' (utohexstr handle) env;
           let args = resolveArgs os commandLine;
           if isClosed pgrp then Some ([Completion (makeCancelled (- 1))], SpawnReturned)
           else do {
             started \<leftarrow> spawnLocked os args env attr;
             case started of
               Inl ev \<Rightarrow> Some (ev, SpawnReturned)
             | Inr (ev, pid, p) \<Rightarrow> afterSpawn os (utohexstr handle) attr ev pid p } })"

end
