(* ===== verification/ExternalCommand.thy ===== *)
theory ExternalCommand
  imports BuildNode Subprocess
begin

text \<open>
  Commands that run outside the build system: \<^verbatim>\<open>lib/BuildSystem/ExternalCommand.cpp\<close>. The
  extension points of the subclasses are arguments of the operations that call them.
\<close>

section \<open>The command\<close>

record ExternalCommand =
  ec_name :: string
  ec_inputs :: "BuildNode list"
  ec_outputs :: "BuildNode list"
  ec_repairViaOwnershipAnalysis :: bool
  ec_description :: string
  ec_allowMissingInputs :: bool
  ec_allowModifiedOutputs :: bool
  ec_alwaysOutOfDate :: bool
  ec_checkDirectoryDependencies :: bool
  ec_skipValue :: "BuildValue option"
  ec_missingInputKeys :: "byte list list"
  ec_canUpdateIfNewer :: bool
  ec_hasPriorResult :: bool

definition newExternalCommand :: "string \<Rightarrow> ExternalCommand" where
  "newExternalCommand name = \<lparr>ec_name = name, ec_inputs = [], ec_outputs = [],
     ec_repairViaOwnershipAnalysis = False, ec_description = [], ec_allowMissingInputs = False,
     ec_allowModifiedOutputs = False, ec_alwaysOutOfDate = False, ec_checkDirectoryDependencies = False,
     ec_skipValue = None, ec_missingInputKeys = [], ec_canUpdateIfNewer = True, ec_hasPriorResult = False\<rparr>"

definition getSignature_external :: "hashing \<Rightarrow> ExternalCommand \<Rightarrow> CommandSignature" where
  "getSignature_external H cmd =
     (let code = hash_string H (ec_name cmd);
          code = combine_strings H (map node_name (ec_inputs cmd)) code;
          code = combine_strings H (map node_name (ec_outputs cmd)) code
      in combine_bool H (combine_bool H (combine_bool H code (ec_allowMissingInputs cmd))
           (ec_allowModifiedOutputs cmd)) (ec_alwaysOutOfDate cmd))"

definition checksDependencies_external :: "ExternalCommand \<Rightarrow> bool" where
  "checksDependencies_external cmd \<longleftrightarrow> ec_checkDirectoryDependencies cmd"

definition mustCheckDependency_external :: "ExternalCommand \<Rightarrow> byte list \<Rightarrow> bool" where
  "mustCheckDependency_external cmd key \<longleftrightarrow>
     ec_checkDirectoryDependencies cmd \<and> kindOfKeyData key = KeyDirectoryTreeSignature"

section \<open>Configuration\<close>

definition configureDescription :: "string \<Rightarrow> ExternalCommand \<Rightarrow> ExternalCommand" where
  "configureDescription val cmd = cmd\<lparr>ec_description := val\<rparr>"

definition configureInputs :: "BuildNode list \<Rightarrow> ExternalCommand \<Rightarrow> ExternalCommand" where
  "configureInputs nodes cmd = cmd\<lparr>ec_inputs := ec_inputs cmd @ nodes\<rparr>"

definition configureOutputs :: "BuildNode list \<Rightarrow> ExternalCommand \<Rightarrow> ExternalCommand" where
  "configureOutputs nodes cmd = cmd\<lparr>ec_outputs := ec_outputs cmd @ nodes\<rparr>"

definition configureExternal :: "string \<Rightarrow> string \<Rightarrow> ExternalCommand \<Rightarrow> ExternalCommand configured" where
  "configureExternal name val cmd =
     (if name = ''allow-missing-inputs'' then
        configure_bool name val (cmd\<lparr>ec_allowMissingInputs := True\<rparr>) (cmd\<lparr>ec_allowMissingInputs := False\<rparr>)
      else if name = ''allow-modified-outputs'' then
        configure_bool name val (cmd\<lparr>ec_allowModifiedOutputs := True\<rparr>) (cmd\<lparr>ec_allowModifiedOutputs := False\<rparr>)
      else if name = ''always-out-of-date'' then
        configure_bool name val (cmd\<lparr>ec_alwaysOutOfDate := True\<rparr>) (cmd\<lparr>ec_alwaysOutOfDate := False\<rparr>)
      else if name = ''check-directory-dependencies-before-running'' then
        configure_bool name val (cmd\<lparr>ec_checkDirectoryDependencies := True\<rparr>)
          (cmd\<lparr>ec_checkDirectoryDependencies := False\<rparr>)
      else if name = ''repair-via-ownership-analysis'' then
        (if val = ''true'' then configured (cmd\<lparr>ec_repairViaOwnershipAnalysis := True\<rparr>)
         else if val = ''false'' then configured (cmd\<lparr>ec_repairViaOwnershipAnalysis := False\<rparr>)
         else Some (Inl (''invalid value for attribute: '' @ quoted name)))
      else unexpected_attribute name)"

definition configureExternal_values :: "string \<Rightarrow> string list \<Rightarrow> ExternalCommand \<Rightarrow> ExternalCommand configured" where
  "configureExternal_values name vals cmd = unexpected_attribute name"

definition configureExternal_pairs ::
  "string \<Rightarrow> (string \<times> string) list \<Rightarrow> ExternalCommand \<Rightarrow> ExternalCommand configured" where
  "configureExternal_pairs name vals cmd = unexpected_attribute name"

section \<open>Results\<close>

text \<open>
  The value of an output node. The code finds the node among the outputs by its address; nodes
  of a description are the same object exactly if their names are equal.
\<close>

primrec find_node :: "string \<Rightarrow> BuildNode list \<Rightarrow> nat option" where
  "find_node name [] = None"
| "find_node name (node # nodes) =
     (if node_name node = name then Some 0 else map_option Suc (find_node name nodes))"

definition failedCommandValue :: "BuildValue \<Rightarrow> bool" where
  "failedCommandValue v \<longleftrightarrow> bv_kind v = Kind_FailedCommand \<or> bv_kind v = Kind_PropagatedFailureCommand
     \<or> bv_kind v = Kind_CancelledCommand"

definition getResultForOutput_external :: "ExternalCommand \<Rightarrow> BuildNode \<Rightarrow> BuildValue \<Rightarrow> BuildValue option" where
  "getResultForOutput_external cmd node v =
     (if failedCommandValue v then Some (make_plain Kind_FailedInput)
      else if bv_kind v = Kind_SkippedCommand then Some (make_plain Kind_SkippedCommand)
      else do {
        assert_that (isSuccessfulCommand v);
        if isVirtual node \<and> \<not> isCommandTimestamp node then Some (make_plain Kind_VirtualInput)
        else do {
          idx \<leftarrow> find_node (node_name node) (ec_outputs cmd);
          n \<leftarrow> getNumOutputs v;
          assert_that (idx < unat n);
          info \<leftarrow> getNthOutputInfo v idx;
          if isMissing info then Some (make_plain Kind_MissingOutput) else makeExistingInput info
        }
      })"

text \<open>The loop over the outputs in \<^verbatim>\<open>isResultValid\<close>; \<open>i\<close> is the index of the first node.\<close>

primrec outputsUnchanged ::
  "'fs FileSystem \<Rightarrow> 'fs \<Rightarrow> BuildValue \<Rightarrow> nat \<Rightarrow> BuildNode list \<Rightarrow> bool option" where
  "outputsUnchanged FS fs v i [] = Some True"
| "outputsUnchanged FS fs v i (node # nodes) =
     (if isVirtual node then outputsUnchanged FS fs v (i + 1) nodes
      else do {
        info \<leftarrow> getFileInfo_node FS fs node;
        prior \<leftarrow> getNthOutputInfo v i;
        if isMutated node
        then (if isMissing prior \<noteq> isMissing info then Some False
              else outputsUnchanged FS fs v (i + 1) nodes)
        else if \<not> fileInfo_eq prior info then Some False
        else outputsUnchanged FS fs v (i + 1) nodes
      })"

definition isResultValid_external ::
  "'fs FileSystem \<Rightarrow> 'fs \<Rightarrow> ExternalCommand \<Rightarrow> BuildValue \<Rightarrow> bool option" where
  "isResultValid_external FS fs cmd v =
     (if ec_alwaysOutOfDate cmd then Some False
      else if \<not> isSuccessfulCommand v then Some False
      else outputsUnchanged FS fs v 0 (ec_outputs cmd))"

definition outputInfo :: "'fs FileSystem \<Rightarrow> 'fs \<Rightarrow> nat \<Rightarrow> BuildNode \<Rightarrow> FileInfo option" where
  "outputInfo FS fs epoch node =
     (if isCommandTimestamp node then Some (zeroFileInfo\<lparr>fi_size := of_nat epoch\<rparr>)
      else if isVirtual node then Some zeroFileInfo
      else getFileInfo_node FS fs node)"

definition computeCommandResult ::
  "'fs FileSystem \<Rightarrow> 'fs \<Rightarrow> nat \<Rightarrow> ExternalCommand \<Rightarrow> BuildValue option" where
  "computeCommandResult FS fs epoch cmd = do {
     infos \<leftarrow> mapM_option (outputInfo FS fs epoch) (ec_outputs cmd);
     makeSuccessfulCommand
       (if ec_outputs cmd = [] then [zeroFileInfo\<lparr>fi_size := of_nat epoch\<rparr>] else infos)
   }"

section \<open>Running\<close>

text \<open>The build state is reset and the inputs are requested, numbered in order.\<close>

definition start_external :: "ExternalCommand \<Rightarrow> ExternalCommand \<times> (byte list \<times> u64) list" where
  "start_external cmd = (cmd\<lparr>ec_skipValue := None, ec_missingInputKeys := []\<rparr>,
     map (\<lambda>(i, node). (makeNode (bytes (node_name node)), of_nat i)) (enumerate 0 (ec_inputs cmd)))"

definition providePriorValue_external :: "BuildValue \<Rightarrow> ExternalCommand \<Rightarrow> ExternalCommand" where
  "providePriorValue_external v cmd =
     (if isSuccessfulCommand v then cmd\<lparr>ec_hasPriorResult := True\<rparr> else cmd)"

definition input_kinds :: "BuildValueKind list" where
  "input_kinds = [Kind_ExistingInput, Kind_MissingInput, Kind_MissingOutput, Kind_FailedInput,
     Kind_VirtualInput, Kind_SkippedCommand, Kind_DirectoryTreeSignature,
     Kind_DirectoryTreeStructureSignature, Kind_StaleFileRemoval]"

definition getSkipValueForInput :: "ExternalCommand \<Rightarrow> BuildValue \<Rightarrow> BuildValue option" where
  "getSkipValueForInput cmd v =
     (if bv_kind v \<in> {Kind_DirectoryTreeSignature, Kind_DirectoryTreeStructureSignature,
           Kind_ExistingInput, Kind_VirtualInput, Kind_StaleFileRemoval} then None
      else if bv_kind v = Kind_MissingOutput then None
      else if bv_kind v = Kind_MissingInput
      then (if ec_allowMissingInputs cmd then None else Some (make_plain Kind_PropagatedFailureCommand))
      else if bv_kind v = Kind_FailedInput then Some (make_plain Kind_PropagatedFailureCommand)
      else None)"

definition provideValue_external ::
  "u64 \<Rightarrow> byte list \<Rightarrow> BuildValue \<Rightarrow> ExternalCommand \<Rightarrow> ExternalCommand option" where
  "provideValue_external inputID key v cmd =
     (if isSuccessfulCommand v \<or> failedCommandValue v then Some cmd
      else do {
        assert_that (\<not> hasMultipleOutputs v);
        assert_that (bv_kind v \<in> set input_kinds);
        (case getSkipValueForInput cmd v of
           Some skip \<Rightarrow>
             (let cmd = cmd\<lparr>ec_skipValue := Some skip\<rparr>
              in if bv_kind v = Kind_MissingInput
                 then Some (cmd\<lparr>ec_missingInputKeys := ec_missingInputKeys cmd @
                        [if unat inputID < length (ec_inputs cmd)
                         then makeNode (bytes (node_name (ec_inputs cmd ! unat inputID))) else key]\<rparr>)
                 else Some cmd)
         | None \<Rightarrow>
             Some (if bv_kind v = Kind_MissingOutput then cmd\<lparr>ec_canUpdateIfNewer := False\<rparr> else cmd))
      })"

definition canUpdateIfNewerWithResult :: "ExternalCommand \<Rightarrow> BuildValue \<Rightarrow> bool option" where
  "canUpdateIfNewerWithResult cmd result =
     (if \<not> ec_allowModifiedOutputs cmd then Some False
      else do {
        n \<leftarrow> getNumOutputs result;
        infos \<leftarrow> mapM_option (getNthOutputInfo result) [0..<unat n];
        Some (list_all (\<lambda>info. \<not> isMissing info) infos)
      })"

text \<open>
  What \<^verbatim>\<open>execute\<close> does, in order: calls to the delegate, directories it creates, the run of the
  external command. \<open>parent_path\<close> is the function of the vendored library, \<open>run\<close> the extension
  point of the subclass, which returns the status of the process.
\<close>


datatype command_event =
    MissingInputs string "byte list list"
  | HadCommandFailure
  | CommandStarted string
  | CommandFinished string ProcessStatus
  | CommandHadError string string
  | CommandHadWarning string string
  | CommandHadNote string string
  | CommandPreparing string
  | SystemError string
  | CannotBuildNode string "string list"

definition outputParent :: "(string \<Rightarrow> string) \<Rightarrow> string \<Rightarrow> string" where
  "outputParent parent_path name =
     (let parent = parent_path name
      in if name \<noteq> [] \<and> last name = CHR ''/'' then parent_path parent else parent)"

definition createOutputDirectories ::
  "'fs FileSystem \<Rightarrow> (string \<Rightarrow> string) \<Rightarrow> BuildNode list \<Rightarrow> 'fs \<Rightarrow> 'fs" where
  "createOutputDirectories FS parent_path nodes =
     fold (\<lambda>node fs. if isVirtual node then fs
                     else (let parent = outputParent parent_path (node_name node)
                           in if parent = [] then fs else snd (fs_createDirectories FS parent fs))) nodes"

definition resultForStatus ::
  "'fs FileSystem \<Rightarrow> 'fs \<Rightarrow> nat \<Rightarrow> ExternalCommand \<Rightarrow> ProcessStatus \<Rightarrow> BuildValue option" where
  "resultForStatus FS fs epoch cmd status =
     (case status of
        Failed \<Rightarrow> Some (make_plain Kind_FailedCommand)
      | Cancelled \<Rightarrow> Some (make_plain Kind_CancelledCommand)
      | Succeeded \<Rightarrow> computeCommandResult FS fs epoch cmd
      | Skipped \<Rightarrow> None
      | Unknown \<Rightarrow> None)"

definition runExternal ::
  "'fs FileSystem \<Rightarrow> (string \<Rightarrow> string) \<Rightarrow> (ExternalCommand \<Rightarrow> 'fs \<Rightarrow> (ProcessStatus \<times> command_event list \<times> 'fs) option)
     \<Rightarrow> nat \<Rightarrow> ExternalCommand \<Rightarrow> 'fs \<Rightarrow> (BuildValue \<times> command_event list \<times> 'fs) option" where
  "runExternal FS parent_path run epoch cmd fs =
     do {
       (status, evs, fs) \<leftarrow> run cmd (createOutputDirectories FS parent_path (ec_outputs cmd) fs);
       result \<leftarrow> resultForStatus FS fs epoch cmd status;
       Some (result, [CommandStarted (ec_name cmd)] @ evs @ [CommandFinished (ec_name cmd) status], fs)
     }"

definition execute_external ::
  "'fs FileSystem \<Rightarrow> (string \<Rightarrow> string) \<Rightarrow> (ExternalCommand \<Rightarrow> 'fs \<Rightarrow> (ProcessStatus \<times> command_event list \<times> 'fs) option)
     \<Rightarrow> nat \<Rightarrow> ExternalCommand \<Rightarrow> 'fs \<Rightarrow> (BuildValue \<times> command_event list \<times> 'fs) option" where
  "execute_external FS parent_path run epoch cmd fs =
     (case ec_skipValue cmd of
        Some v \<Rightarrow>
          Some (v, if ec_missingInputKeys cmd \<noteq> []
                   then [MissingInputs (ec_name cmd) (ec_missingInputKeys cmd), HadCommandFailure] else [], fs)
      | None \<Rightarrow> do {
          assert_that (ec_missingInputKeys cmd = []);
          update \<leftarrow> (if ec_canUpdateIfNewer cmd \<and> ec_hasPriorResult cmd
                     then do {
                       result \<leftarrow> computeCommandResult FS fs epoch cmd;
                       ok \<leftarrow> canUpdateIfNewerWithResult cmd result;
                       Some (if ok then Some result else None)
                     }
                     else Some None);
          (case update of
             Some result \<Rightarrow> Some (result, [], fs)
           | None \<Rightarrow> runExternal FS parent_path run epoch cmd fs)
        })"

end
