(* ===== verification/BuildSystemCommands.thy ===== *)
theory BuildSystemCommands
  imports ExternalCommand "HOL-Library.Sublist" "HOL-Library.Char_ord" "HOL-Library.List_Lexorder"
begin

text \<open>
  Built-in commands of \<^verbatim>\<open>lib/BuildSystem/BuildSystem.cpp\<close>: phony, mkdir, symlink and stale file
  removal, with the path test \<^verbatim>\<open>pathIsPrefixedByPath\<close>. \<open>parent_path\<close> is the function of the
  vendored library; \<open>seps\<close> are the path separators of the platform.
\<close>

section \<open>Phony and mkdir\<close>

definition execute_phony :: "ExternalCommand \<Rightarrow> 'fs \<Rightarrow> (ProcessStatus \<times> command_event list \<times> 'fs) option" where
  "execute_phony cmd fs = Some (Succeeded, [], fs)"

definition getResultForOutput_phony :: "ExternalCommand \<Rightarrow> BuildNode \<Rightarrow> BuildValue \<Rightarrow> BuildValue option" where
  "getResultForOutput_phony cmd node v =
     (if isVirtual node \<and> \<not> isCommandTimestamp node then Some (make_plain Kind_VirtualInput)
      else getResultForOutput_external cmd node v)"

text \<open>Both \<^verbatim>\<open>getOutputs()[0]\<close> of an mkdir command without outputs are undefined.\<close>

definition first_output :: "BuildNode list \<Rightarrow> BuildNode option" where
  "first_output outputs = (case outputs of [] \<Rightarrow> None | node # _ \<Rightarrow> Some node)"

definition isResultValid_mkdir :: "'fs FileSystem \<Rightarrow> 'fs \<Rightarrow> ExternalCommand \<Rightarrow> BuildValue \<Rightarrow> bool option" where
  "isResultValid_mkdir FS fs cmd v =
     (if \<not> isSuccessfulCommand v then Some False
      else do {
        output \<leftarrow> first_output (ec_outputs cmd);
        info \<leftarrow> getFileInfo_node FS fs output;
        Some (\<not> isMissing info \<and> isDirectory info)
      })"

definition execute_mkdir ::
  "'fs FileSystem \<Rightarrow> ExternalCommand \<Rightarrow> 'fs \<Rightarrow> (ProcessStatus \<times> command_event list \<times> 'fs) option" where
  "execute_mkdir FS cmd fs = do {
     output \<leftarrow> first_output (ec_outputs cmd);
     (case fs_createDirectories FS (node_name output) fs of
        (False, fs) \<Rightarrow> Some (Failed, [CommandHadError (ec_name cmd)
            (''unable to create directory '' @ quoted (node_name output))], fs)
      | (True, fs) \<Rightarrow> Some (Succeeded, [], fs))
   }"

section \<open>Symlink\<close>

record SymlinkCommand =
  sy_name :: string
  sy_inputs :: "BuildNode list"
  sy_outputs :: "BuildNode list"
  sy_linkOutputPath :: string
  sy_description :: string
  sy_contents :: string
  sy_repairViaOwnershipAnalysis :: bool

definition getActualOutputPath :: "SymlinkCommand \<Rightarrow> string option" where
  "getActualOutputPath cmd =
     (if sy_linkOutputPath cmd = [] then map_option node_name (first_output (sy_outputs cmd))
      else Some (sy_linkOutputPath cmd))"

definition getSignature_symlink :: "hashing \<Rightarrow> SymlinkCommand \<Rightarrow> CommandSignature option" where
  "getSignature_symlink H cmd = do {
     output \<leftarrow> first_output (sy_outputs cmd);
     Some (combine_strings H (map node_name (sy_inputs cmd))
       (combine_string H (hash_string H (node_name output)) (sy_contents cmd)))
   }"

definition configureInputs_symlink :: "BuildNode list \<Rightarrow> SymlinkCommand \<Rightarrow> SymlinkCommand" where
  "configureInputs_symlink nodes cmd = cmd\<lparr>sy_inputs := sy_inputs cmd @ nodes\<rparr>"

definition configureOutputs_symlink :: "BuildNode list \<Rightarrow> SymlinkCommand \<Rightarrow> string + SymlinkCommand" where
  "configureOutputs_symlink nodes cmd =
     (case nodes of
        [node] \<Rightarrow> Inr (cmd\<lparr>sy_outputs := sy_outputs cmd @ [node]\<rparr>)
      | [] \<Rightarrow> Inl ''missing declared output''
      | _ # node # _ \<Rightarrow> Inl (''unexpected explicit output: '' @ quoted (node_name node)))"

definition configure_symlink :: "string \<Rightarrow> string \<Rightarrow> SymlinkCommand \<Rightarrow> SymlinkCommand configured" where
  "configure_symlink name val cmd =
     (if name = ''contents'' then configured (cmd\<lparr>sy_contents := val\<rparr>)
      else if name = ''link-output-path'' then configured (cmd\<lparr>sy_linkOutputPath := val\<rparr>)
      else if name = ''repair-via-ownership-analysis'' then
        (if val = ''true'' then configured (cmd\<lparr>sy_repairViaOwnershipAnalysis := True\<rparr>)
         else if val = ''false'' then configured (cmd\<lparr>sy_repairViaOwnershipAnalysis := False\<rparr>)
         else Some (Inl (''invalid value for attribute: '' @ quoted name)))
      else unexpected_attribute name)"

definition getResultForOutput_symlink :: "BuildValue \<Rightarrow> BuildValue option" where
  "getResultForOutput_symlink v =
     (if failedCommandValue v then Some (make_plain Kind_FailedInput)
      else if bv_kind v = Kind_SkippedCommand then Some (make_plain Kind_SkippedCommand)
      else do {
        assert_that (isSuccessfulCommand v);
        info \<leftarrow> getOutputInfo v;
        if isMissing info then Some (make_plain Kind_MissingOutput) else makeExistingInput info
      })"

definition isResultValid_symlink ::
  "'fs FileSystem \<Rightarrow> 'fs \<Rightarrow> SymlinkCommand \<Rightarrow> BuildValue \<Rightarrow> bool option" where
  "isResultValid_symlink FS fs cmd v = do {
     outputPath \<leftarrow> getActualOutputPath cmd;
     if sy_outputs cmd = [] \<or> outputPath = [] then Some False
     else if \<not> isSuccessfulCommand v then Some False
     else do {
       n \<leftarrow> getNumOutputs v;
       if n \<noteq> 1 then Some False
       else (let info = fs_getLinkInfo FS fs outputPath
             in if isMissing info then Some False
                else do { prior \<leftarrow> getOutputInfo v; Some (fileInfo_eq info prior) })
     }
   }"

definition start_symlink :: "SymlinkCommand \<Rightarrow> byte list list" where
  "start_symlink cmd = map (makeNode \<circ> bytes \<circ> node_name) (sy_inputs cmd)"

text \<open>One attempt, and a second one after the file in the way has been removed.\<close>

definition createLink :: "'fs FileSystem \<Rightarrow> string \<Rightarrow> string \<Rightarrow> 'fs \<Rightarrow> bool \<times> 'fs" where
  "createLink FS contents path fs =
     (case fs_createSymlink FS contents path fs of
        (True, fs) \<Rightarrow> (True, fs)
      | (False, fs) \<Rightarrow> fs_createSymlink FS contents path (snd (fs_remove FS path fs)))"

definition execute_symlink ::
  "'fs FileSystem \<Rightarrow> (string \<Rightarrow> string) \<Rightarrow> SymlinkCommand \<Rightarrow> 'fs
     \<Rightarrow> (BuildValue \<times> command_event list \<times> 'fs) option" where
  "execute_symlink FS parent_path cmd fs = do {
     outputPath \<leftarrow> getActualOutputPath cmd;
     if sy_outputs cmd = [] \<or> outputPath = [] then Some (make_plain Kind_FailedCommand, [], fs)
     else (let parent = parent_path outputPath;
               fs = (if parent = [] then fs else snd (fs_createDirectories FS parent fs))
           in (case createLink FS (sy_contents cmd) outputPath fs of
                 (False, fs) \<Rightarrow> Some (make_plain Kind_FailedCommand,
                     [CommandStarted (sy_name cmd),
                      CommandHadError (sy_name cmd) (''unable to create symlink at '' @ quoted outputPath),
                      CommandFinished (sy_name cmd) Failed], fs)
               | (True, fs) \<Rightarrow> do {
                   v \<leftarrow> makeSuccessfulCommand [fs_getLinkInfo FS fs outputPath];
                   Some (v, [CommandStarted (sy_name cmd), CommandFinished (sy_name cmd) Succeeded], fs)
                 }))
   }"

section \<open>Path prefixes\<close>

text \<open>
  \<^verbatim>\<open>std::mismatch\<close> of the prefix with the path: what is left of both behind the common part. The
  caller makes sure that the path is not shorter.
\<close>

fun mismatch :: "string \<Rightarrow> string \<Rightarrow> string \<times> string" where
  "mismatch (a # as) (b # bs) = (if a = b then mismatch as bs else (a # as, b # bs))"
| "mismatch as bs = (as, bs)"

definition starts_with_sep :: "string \<Rightarrow> string \<Rightarrow> bool" where
  "starts_with_sep seps s = (case s of [] \<Rightarrow> False | c # _ \<Rightarrow> c \<in> set seps)"

definition pathIsPrefixedByPath :: "string \<Rightarrow> string \<Rightarrow> string \<Rightarrow> bool" where
  "pathIsPrefixedByPath seps path prefixPath =
     (if length prefixPath > length path
      then butlast prefixPath = path \<and> last prefixPath \<in> set seps
      else (case mismatch prefixPath path of
              (first, second) \<Rightarrow>
                (first = [] \<or> starts_with_sep seps first) \<and> (second = [] \<or> starts_with_sep seps second)))"

section \<open>Stale file removal\<close>

record StaleFileRemovalCommand =
  sf_name :: string
  sf_description :: string
  sf_expectedOutputs :: "string list"
  sf_filesToDelete :: "string list"
  sf_roots :: "string list"
  sf_computedFilesToDelete :: bool
  sf_priorValue :: BuildValue
  sf_hasPriorResult :: bool

definition newStaleFileRemoval :: "string \<Rightarrow> StaleFileRemovalCommand" where
  "newStaleFileRemoval name = \<lparr>sf_name = name, sf_description = [], sf_expectedOutputs = [],
     sf_filesToDelete = [], sf_roots = [], sf_computedFilesToDelete = False,
     sf_priorValue = make_plain Kind_Invalid, sf_hasPriorResult = False\<rparr>"

definition configure_stale :: "string \<Rightarrow> string list \<Rightarrow> StaleFileRemovalCommand \<Rightarrow> StaleFileRemovalCommand configured" where
  "configure_stale name vals cmd =
     (if name = ''expectedOutputs'' then configured (cmd\<lparr>sf_expectedOutputs := sf_expectedOutputs cmd @ vals\<rparr>)
      else if name = ''roots'' then configured (cmd\<lparr>sf_roots := sf_roots cmd @ vals\<rparr>)
      else unexpected_attribute name)"

definition getResultForOutput_stale :: "BuildValue \<Rightarrow> BuildValue option" where
  "getResultForOutput_stale v =
     (if failedCommandValue v then Some (make_plain Kind_FailedInput)
      else if bv_kind v = Kind_SkippedCommand then Some (make_plain Kind_SkippedCommand)
      else toData v \<bind> fromData)"

definition isResultValid_stale :: "BuildValue \<Rightarrow> bool" where
  "isResultValid_stale v = False"

definition providePriorValue_stale :: "BuildValue \<Rightarrow> StaleFileRemovalCommand \<Rightarrow> StaleFileRemovalCommand option" where
  "providePriorValue_stale v cmd = do {
     v \<leftarrow> toData v \<bind> fromData;
     Some (cmd\<lparr>sf_hasPriorResult := True, sf_priorValue := v\<rparr>)
   }"

definition computeFilesToDelete :: "StaleFileRemovalCommand \<Rightarrow> StaleFileRemovalCommand option" where
  "computeFilesToDelete cmd =
     (if sf_computedFilesToDelete cmd then Some cmd
      else do {
        assert_that (bv_kind (sf_priorValue cmd) = Kind_StaleFileRemoval);
        prior \<leftarrow> getStringListValues (sf_priorValue cmd);
        let stale = filter (\<lambda>file. file \<notin> set (sf_expectedOutputs cmd)) (sort (remdups (map chars prior)));
        Some (cmd\<lparr>sf_filesToDelete := sf_filesToDelete cmd @ stale, sf_computedFilesToDelete := True\<rparr>)
      })"

definition mayDelete :: "string \<Rightarrow> StaleFileRemovalCommand \<Rightarrow> string \<Rightarrow> (command_event + unit)" where
  "mayDelete seps cmd file =
     (if sf_roots cmd \<noteq> [] \<and> \<not> starts_with_sep seps file
      then Inl (CommandHadWarning (sf_name cmd) (''Stale file '' @ quoted file @
             '' has a relative path. This is invalid in combination with the root path attribute.'' @ [CHR 0x0A]))
      else if sf_roots cmd = [] \<or> list_ex (pathIsPrefixedByPath seps file) (sf_roots cmd) then Inr ()
      else Inl (CommandHadWarning (sf_name cmd) (''Stale file '' @ quoted file @
             '' is located outside of the allowed root paths.'' @ [CHR 0x0A])))"

definition deleteFile ::
  "'fs FileSystem \<Rightarrow> string \<Rightarrow> StaleFileRemovalCommand \<Rightarrow> string \<Rightarrow> command_event list \<times> 'fs \<Rightarrow> command_event list \<times> 'fs" where
  "deleteFile FS seps cmd file = (\<lambda>(evs, fs).
     (case mayDelete seps cmd file of
        Inl warning \<Rightarrow> (evs @ [warning], fs)
      | Inr _ \<Rightarrow>
          (case fs_remove FS file fs of
             (True, fs) \<Rightarrow> (evs @ [CommandHadNote (sf_name cmd) (''Removed stale file '' @ quoted file @ [CHR 0x0A])], fs)
           | (False, fs) \<Rightarrow>
               (case fs_errno FS fs of
                  None \<Rightarrow> (evs, fs)
                | Some msg \<Rightarrow> (evs @ [CommandHadWarning (sf_name cmd)
                    (''cannot remove stale file '' @ quoted file @ '': '' @ msg @ [CHR 0x0A])], fs)))))"

definition execute_stale ::
  "'fs FileSystem \<Rightarrow> string \<Rightarrow> StaleFileRemovalCommand \<Rightarrow> 'fs
     \<Rightarrow> (BuildValue \<times> command_event list \<times> 'fs \<times> StaleFileRemovalCommand) option" where
  "execute_stale FS seps cmd fs = do {
     result \<leftarrow> makeStaleFileRemoval (map bytes (sf_expectedOutputs cmd));
     if \<not> sf_hasPriorResult cmd \<or> bv_kind (sf_priorValue cmd) \<noteq> Kind_StaleFileRemoval
     then Some (result, [CommandStarted (sf_name cmd), CommandFinished (sf_name cmd) Succeeded], fs, cmd)
     else do {
       cmd \<leftarrow> computeFilesToDelete cmd;
       (case fold (deleteFile FS seps cmd) (sf_filesToDelete cmd) ([CommandStarted (sf_name cmd)], fs) of
          (evs, fs) \<Rightarrow> Some (result, evs @ [CommandFinished (sf_name cmd) Succeeded], fs, cmd))
     }
   }"

end
