(* ===== verification/DependencyKeyIDs.thy ===== *)
theory DependencyKeyIDs
  imports Prelude
begin

text \<open>
  The packed dependency list of \<^verbatim>\<open>lib/Core/include/llbuild/Core/DependencyKeyIDs.h\<close>: two parallel
  vectors, one of key identifiers and one of flag bytes (bit 0: order only, bit 1: single
  use). The locale \<open>dependency_list\<close> is what the build engine relies on, a list of
  \<open>(key, orderOnly, singleUse)\<close> entries; the interpretation shows that the packed
  form implements it.
\<close>

section \<open>The packed representation\<close>

record 'k DependencyKeyIDs =
  keys :: "'k list"
  flags :: "byte list"

definition empty_deps :: "'k DependencyKeyIDs" where
  "empty_deps = \<lparr>keys = [], flags = []\<rparr>"

definition singleUse_at :: "'k DependencyKeyIDs \<Rightarrow> nat \<Rightarrow> bool" where
  "singleUse_at d index \<longleftrightarrow> (drop_bit 1 (flags d ! index)) AND 1 \<noteq> 0"

definition orderOnly_at :: "'k DependencyKeyIDs \<Rightarrow> nat \<Rightarrow> bool" where
  "orderOnly_at d index \<longleftrightarrow> flags d ! index AND 1 \<noteq> 0"

definition clear_deps :: "'k DependencyKeyIDs \<Rightarrow> 'k DependencyKeyIDs" where
  "clear_deps d = d\<lparr>keys := [], flags := []\<rparr>"

definition size_deps :: "'k DependencyKeyIDs \<Rightarrow> nat" where
  "size_deps d = length (keys d)"

definition empty_deps_p :: "'k DependencyKeyIDs \<Rightarrow> bool" where
  "empty_deps_p d \<longleftrightarrow> keys d = []"

text \<open>\<^verbatim>\<open>vector::erase\<close> at an index.\<close>

definition erase_at :: "nat \<Rightarrow> 'x list \<Rightarrow> 'x list" where
  "erase_at i xs = take i xs @ drop (Suc i) xs"

text \<open>The reverse loop \<^verbatim>\<open>for (int i = size(); i > 0; i--)\<close>.\<close>

primrec clean_loop :: "nat \<Rightarrow> 'k DependencyKeyIDs \<Rightarrow> 'k DependencyKeyIDs" where
  "clean_loop 0 d = d"
| "clean_loop (Suc index) d =
     clean_loop index
       (if singleUse_at d index
        then d\<lparr>keys := erase_at index (keys d), flags := erase_at index (flags d)\<rparr>
        else d)"

definition cleanSingleUseDependencies :: "'k DependencyKeyIDs \<Rightarrow> 'k DependencyKeyIDs" where
  "cleanSingleUseDependencies d =
     (if \<not> size_deps d > 0 then d else clean_loop (size_deps d) d)"

text \<open>\<^verbatim>\<open>resize\<close>: truncate, or pad with value-initialised elements (\<open>KeyID()\<close> and 0).\<close>

definition resize_vec :: "nat \<Rightarrow> 'x \<Rightarrow> 'x list \<Rightarrow> 'x list" where
  "resize_vec n x xs = take n xs @ replicate (n - length xs) x"

definition resize_deps :: "'k \<Rightarrow> nat \<Rightarrow> 'k DependencyKeyIDs \<Rightarrow> 'k DependencyKeyIDs" where
  "resize_deps novalue newSize d =
     d\<lparr>keys := resize_vec newSize novalue (keys d), flags := resize_vec newSize 0 (flags d)\<rparr>"

text \<open>\<^verbatim>\<open>operator[]\<close>: the key and its two flags; an index out of range is undefined.\<close>

definition nth_deps :: "'k DependencyKeyIDs \<Rightarrow> nat \<Rightarrow> ('k \<times> bool \<times> bool) option" where
  "nth_deps d n = (if n < length (keys d) \<and> n < length (flags d)
                   then Some (keys d ! n, orderOnly_at d n, singleUse_at d n) else None)"

definition flag_byte :: "bool \<Rightarrow> bool \<Rightarrow> byte" where
  "flag_byte orderOnlyFlag singleUseFlag =
     push_bit 1 (if singleUseFlag then 1 else 0) OR (if orderOnlyFlag then 1 else 0)"

definition set_deps ::
  "nat \<Rightarrow> 'k \<Rightarrow> bool \<Rightarrow> bool \<Rightarrow> 'k DependencyKeyIDs \<Rightarrow> 'k DependencyKeyIDs option" where
  "set_deps n kid orderOnlyFlag singleUseFlag d =
     (if n < length (keys d) \<and> n < length (flags d)
      then Some (d\<lparr>keys := (keys d)[n := kid],
                  flags := (flags d)[n := flag_byte orderOnlyFlag singleUseFlag]\<rparr>)
      else None)"

definition push_back_deps ::
  "'k \<Rightarrow> bool \<Rightarrow> bool \<Rightarrow> 'k DependencyKeyIDs \<Rightarrow> 'k DependencyKeyIDs" where
  "push_back_deps kid orderOnlyFlag singleUseFlag d =
     d\<lparr>keys := keys d @ [kid], flags := flags d @ [flag_byte orderOnlyFlag singleUseFlag]\<rparr>"

definition append_deps ::
  "'k DependencyKeyIDs \<Rightarrow> 'k DependencyKeyIDs \<Rightarrow> 'k DependencyKeyIDs" where
  "append_deps rhs d = d\<lparr>keys := keys d @ keys rhs, flags := flags d @ flags rhs\<rparr>"

section \<open>The contract\<close>

type_synonym 'k dep_entry = "'k \<times> bool \<times> bool"

abbreviation entry_singleUse :: "'k dep_entry \<Rightarrow> bool" where
  "entry_singleUse e \<equiv> snd (snd e)"

locale dependency_list =
  fixes entries :: "'d \<Rightarrow> 'k dep_entry list"
    and invar :: "'d \<Rightarrow> bool"
    and empty :: 'd
    and clear :: "'d \<Rightarrow> 'd"
    and push :: "'k \<Rightarrow> bool \<Rightarrow> bool \<Rightarrow> 'd \<Rightarrow> 'd"
    and append :: "'d \<Rightarrow> 'd \<Rightarrow> 'd"
    and clean :: "'d \<Rightarrow> 'd"
    and size :: "'d \<Rightarrow> nat"
    and get :: "'d \<Rightarrow> nat \<Rightarrow> 'k dep_entry option"
  assumes entries_empty: "entries empty = []" and invar_empty: "invar empty"
    and entries_clear: "entries (clear d) = []" and invar_clear: "invar (clear d)"
    and entries_push: "invar d \<Longrightarrow> entries (push k oo su d) = entries d @ [(k, oo, su)]"
    and invar_push: "invar d \<Longrightarrow> invar (push k oo su d)"
    and entries_append: "invar d \<Longrightarrow> invar e \<Longrightarrow> entries (append e d) = entries d @ entries e"
    and invar_append: "invar d \<Longrightarrow> invar e \<Longrightarrow> invar (append e d)"
    and entries_clean: "invar d \<Longrightarrow> entries (clean d) = filter (\<lambda>e. \<not> entry_singleUse e) (entries d)"
    and invar_clean: "invar d \<Longrightarrow> invar (clean d)"
    and size_entries: "invar d \<Longrightarrow> size d = length (entries d)"
    and get_entries: "invar d \<Longrightarrow> get d n = (if n < length (entries d) then Some (entries d ! n) else None)"
begin

lemma clean_idem: "invar d \<Longrightarrow> entries (clean (clean d)) = entries (clean d)"
  by (simp add: entries_clean invar_clean)

lemma clean_push_single: "invar d \<Longrightarrow> entries (clean (push k oo True d)) = entries (clean d)"
  by (simp add: entries_clean entries_push invar_push)

lemma get_in_range: "invar d \<Longrightarrow> n < size d \<Longrightarrow> \<exists>e. get d n = Some e \<and> e \<in> set (entries d)"
  by (auto simp: get_entries size_entries)

lemma push_list:
  "invar d \<Longrightarrow> entries (fold (\<lambda>(k, oo, su). push k oo su) es d) = entries d @ es
     \<and> invar (fold (\<lambda>(k, oo, su). push k oo su) es d)"
  by (induction es arbitrary: d) (auto simp: entries_push invar_push)

end

section \<open>The packed representation implements the contract\<close>

definition deps_entries :: "'k DependencyKeyIDs \<Rightarrow> 'k dep_entry list" where
  "deps_entries d = zip (keys d) (map (\<lambda>f. (f AND 1 \<noteq> 0, (drop_bit 1 f) AND 1 \<noteq> 0)) (flags d))"

definition deps_invar :: "'k DependencyKeyIDs \<Rightarrow> bool" where
  "deps_invar d \<longleftrightarrow> length (keys d) = length (flags d)"

lemma flag_byte_decode [simp]:
  "(flag_byte oo su AND 1 \<noteq> 0) = oo"
  "((drop_bit 1 (flag_byte oo su)) AND 1 \<noteq> 0) = su"
  "((drop_bit (Suc 0) (flag_byte oo su)) AND 1 \<noteq> 0) = su"
  "((drop_bit (Suc 0) (flag_byte oo su)) AND 1 = 0) = (\<not> su)"
  "(flag_byte oo su AND 1 = 0) = (\<not> oo)"
  by (cases oo; cases su; simp add: flag_byte_def)+

lemma length_erase_at: "i < length xs \<Longrightarrow> length (erase_at i xs) = length xs - 1"
  by (simp add: erase_at_def)

lemma zip_erase_at:
  "length xs = length ys \<Longrightarrow> zip (erase_at i xs) (map f (erase_at i ys)) = erase_at i (zip xs (map f ys))"
  by (simp add: erase_at_def take_zip drop_zip take_map drop_map)

lemma nth_entries:
  "deps_invar d \<Longrightarrow> i < length (keys d) \<Longrightarrow>
     deps_entries d ! i = (keys d ! i, orderOnly_at d i, singleUse_at d i)"
  by (simp add: deps_invar_def deps_entries_def orderOnly_at_def singleUse_at_def)

lemma length_entries: "deps_invar d \<Longrightarrow> length (deps_entries d) = length (keys d)"
  by (simp add: deps_invar_def deps_entries_def)

lemma erase_at_filter:
  assumes "i < length es" "\<not> P (es ! i)"
  shows "filter P (take i es) @ drop (Suc i) es = filter P (take (Suc i) es) @ drop (Suc i) es"
  using assms by (simp add: take_Suc_conv_app_nth)

lemma clean_loop_entries:
  "deps_invar d \<Longrightarrow> i \<le> length (keys d) \<Longrightarrow>
     deps_invar (clean_loop i d) \<and>
     deps_entries (clean_loop i d)
       = filter (\<lambda>e. \<not> entry_singleUse e) (take i (deps_entries d)) @ drop i (deps_entries d)"
proof (induction i arbitrary: d)
  case (Suc i)
  let ?P = "\<lambda>e :: 'a dep_entry. \<not> entry_singleUse e"
  let ?es = "deps_entries d"
  have len: "length ?es = length (keys d)" and i: "i < length ?es"
    using Suc.prems by (simp_all add: length_entries)
  have nth: "entry_singleUse (?es ! i) = singleUse_at d i"
    using Suc.prems by (simp add: nth_entries)
  show ?case
  proof (cases "singleUse_at d i")
    case False
    have "filter ?P (take (Suc i) ?es) @ drop (Suc i) ?es = filter ?P (take i ?es) @ drop i ?es"
      using i False nth by (simp add: take_Suc_conv_app_nth Cons_nth_drop_Suc)
    with False Suc.IH [of d] Suc.prems show ?thesis by simp
  next
    case True
    let ?d = "d\<lparr>keys := erase_at i (keys d), flags := erase_at i (flags d)\<rparr>"
    have inv: "deps_invar ?d" and le: "i \<le> length (keys ?d)"
      using Suc.prems by (auto simp: deps_invar_def length_erase_at)
    have es: "deps_entries ?d = erase_at i ?es"
      using Suc.prems by (simp add: deps_entries_def deps_invar_def zip_erase_at)
    have "filter ?P (take (Suc i) ?es) @ drop (Suc i) ?es = filter ?P (take i ?es) @ drop (Suc i) ?es"
      using i True nth by (simp add: take_Suc_conv_app_nth)
    moreover have "take i (erase_at i ?es) = take i ?es" "drop i (erase_at i ?es) = drop (Suc i) ?es"
      using i by (simp_all add: erase_at_def)
    ultimately show ?thesis using True Suc.IH [OF inv le] by (simp add: es)
  qed
qed simp

interpretation deps: dependency_list deps_entries deps_invar empty_deps clear_deps
  push_back_deps append_deps cleanSingleUseDependencies size_deps nth_deps
proof unfold_locales
  fix d :: "'a DependencyKeyIDs"
  assume inv: "deps_invar d"
  show "deps_entries (cleanSingleUseDependencies d)
      = filter (\<lambda>e. \<not> entry_singleUse e) (deps_entries d)"
    using clean_loop_entries [OF inv order_refl] inv
    by (auto simp: cleanSingleUseDependencies_def size_deps_def deps_entries_def deps_invar_def)
  show "deps_invar (cleanSingleUseDependencies d)"
    using clean_loop_entries [OF inv order_refl] inv
    by (simp add: cleanSingleUseDependencies_def size_deps_def)
next
  fix d :: "'a DependencyKeyIDs" and n
  assume "deps_invar d"
  then show "nth_deps d n = (if n < length (deps_entries d) then Some (deps_entries d ! n) else None)"
    by (simp add: nth_deps_def nth_entries length_entries) (simp add: deps_invar_def)
qed (auto simp: deps_entries_def deps_invar_def empty_deps_def clear_deps_def push_back_deps_def
       append_deps_def size_deps_def)

lemmas deps_laws [simp] =
  deps.entries_empty deps.invar_empty deps.entries_clear deps.invar_clear deps.entries_push
  deps.invar_push deps.entries_append deps.invar_append deps.entries_clean deps.invar_clean

lemma empty_deps_p_entries: "deps_invar d \<Longrightarrow> empty_deps_p d \<longleftrightarrow> deps_entries d = []"
  by (auto simp: empty_deps_p_def deps_entries_def deps_invar_def)

lemma set_deps_entries:
  assumes "deps_invar d" "set_deps n k oo su d = Some d'"
  shows "deps_entries d' = (deps_entries d)[n := (k, oo, su)]" and "deps_invar d'"
  using assms by (auto simp: set_deps_def deps_entries_def deps_invar_def map_update
      simp flip: zip_update split: if_splits)

lemma resize_deps_invar: "deps_invar d \<Longrightarrow> deps_invar (resize_deps nv n d)"
  by (simp add: deps_invar_def resize_deps_def resize_vec_def)

end
