(* ===== verification/BuildEngineState.thy ===== *)
theory BuildEngineState
  imports DependencyKeyIDs "HOL-Library.Char_ord" "HOL-Library.List_Lexorder"
begin

text \<open>
  The data of the build engine of \<^verbatim>\<open>lib/Core/BuildEngine.cpp\<close> and of the interface in
  \<^verbatim>\<open>lib/Core/include/llbuild/Core/BuildEngine.h\<close>.

  Pointers. A \<^verbatim>\<open>KeyID\<close> is the address of an interned key string; two are equal exactly when
  the strings are, so the model uses the string itself. A \<^verbatim>\<open>RuleInfo*\<close> is the key of the rule
  in the table \<^verbatim>\<open>ruleInfos\<close>, whose entries never move, and a \<^verbatim>\<open>TaskInfo*\<close> or \<^verbatim>\<open>Task*\<close> the
  identity of the task object in \<^verbatim>\<open>taskInfos\<close>. A scan record belongs to one rule and is kept
  inside it.

  Client code. Rules, tasks, the delegate and the database are not part of the engine: they
  are the fields of the record \<open>env\<close>, over an arbitrary client state \<open>'c\<close> and database
  state \<open>'d\<close>. A task callback is a program of type \<open>'c prog\<close> that calls the engine's
  \<^verbatim>\<open>TaskInterface\<close>. Calls the engine makes out to rules, tasks and delegate are recorded in
  order in \<open>e_log\<close>.
\<close>

section \<open>Keys, values and results\<close>

type_synonym KeyType = string
type_synonym KeyID = string
type_synonym ValueType = "byte list"
type_synonym Epoch = nat
type_synonym Timestamp = nat
type_synonym Signature = u64
type_synonym TaskId = nat

record Result =
  res_value :: ValueType
  res_signature :: Signature
  computedAt :: Epoch
  builtAt :: Epoch
  dependencies :: "KeyID DependencyKeyIDs"
  res_start :: Timestamp
  res_end :: Timestamp

definition initial_result :: Result where
  "initial_result = \<lparr>res_value = [], res_signature = 0, computedAt = 0, builtAt = 0,
     dependencies = empty_deps, res_start = 0, res_end = 0\<rparr>"

datatype StatusKind = StatusIsScanning | StatusIsUpToDate | StatusIsComplete

datatype CycleAction = ForceBuild | SupplyPriorValue

datatype RunReason = NeverBuilt | SignatureChanged | InvalidValue | InputRebuilt | Forced

record Rule =
  rule_key :: KeyType
  rule_signature :: Signature

definition kMaximumInputID :: u64 where
  "kMaximumInputID = NOT 0xFF"

definition kMustFollowInputID :: u64 where
  "kMustFollowInputID = NOT 0"

section \<open>Requests and per-rule records\<close>

record TaskInputRequest =
  ir_task :: "TaskId option"
  ir_inputID :: u64
  ir_inputRule :: KeyID
  ir_orderOnly :: bool
  ir_forcePriorValue :: bool
  ir_singleUse :: bool

record RuleScanRequest =
  sr_rule :: KeyID
  sr_inputIndex :: nat
  sr_inputRule :: "KeyID option"
  sr_orderOnly :: bool
  sr_singleUse :: bool
  sr_needsToRun :: bool

record RuleScanRecord =
  pausedInputRequests :: "TaskInputRequest list"
  deferredScanRequests :: "RuleScanRequest list"

definition newRuleScanRecord :: RuleScanRecord where
  "newRuleScanRecord = \<lparr>pausedInputRequests = [], deferredScanRequests = []\<rparr>"

datatype StateKind =
    Incomplete | IsScanning | NeedsToRun | DoesNotNeedToRun
  | InProgressWaiting | InProgressComputing | Complete

primrec state_index :: "StateKind \<Rightarrow> nat" where
  "state_index Incomplete = 0"
| "state_index IsScanning = 1"
| "state_index NeedsToRun = 2"
| "state_index DoesNotNeedToRun = 3"
| "state_index InProgressWaiting = 4"
| "state_index InProgressComputing = 5"
| "state_index Complete = 6"

text \<open>The union \<^verbatim>\<open>inProgressInfo\<close>; \<open>NoInfo\<close> is the null pointer.\<close>

datatype InProgressInfo = NoInfo | PendingScan RuleScanRecord | PendingTask TaskId

record RuleInfo =
  ri_keyID :: KeyID
  ri_rule :: Rule
  ri_inProgress :: InProgressInfo
  ri_result :: Result
  ri_state :: StateKind
  ri_wasForced :: bool

definition newRuleInfo :: "KeyID \<Rightarrow> Rule \<Rightarrow> RuleInfo" where
  "newRuleInfo keyID rule = \<lparr>ri_keyID = keyID, ri_rule = rule, ri_inProgress = NoInfo,
     ri_result = initial_result, ri_state = Incomplete, ri_wasForced = False\<rparr>"

record TaskInfo =
  ti_requestedBy :: "TaskInputRequest list"
  ti_deferredScanRequests :: "RuleScanRequest list"
  ti_forRule :: KeyID
  ti_waitCount :: nat
  ti_discovered :: "KeyID DependencyKeyIDs"

definition newTaskInfo :: "KeyID \<Rightarrow> TaskInfo" where
  "newTaskInfo k = \<lparr>ti_requestedBy = [], ti_deferredScanRequests = [], ti_forRule = k,
     ti_waitCount = 0, ti_discovered = empty_deps\<rparr>"

section \<open>Engine state\<close>

datatype event =
    EvStatus KeyType StatusKind
  | EvNeedsToRun KeyType RunReason "KeyType option"
  | EvCreateTask KeyType TaskId
  | EvStart TaskId
  | EvPriorValue TaskId ValueType
  | EvProvideValue TaskId u64 KeyType ValueType
  | EvInputsAvailable TaskId
  | EvCycle "KeyType list"
  | EvError string
  | EvCancelled nat
  | EvCancelAllJobs

record ('c, 'd) engine =
  e_client :: 'c
  e_db :: "'d option"
  currentEpoch :: Epoch
  buildCancelled :: bool
  buildRunning :: bool
  keyTable :: "KeyType list"
  hasExecutionQueue :: bool
  cancellationDelegates :: "nat list"
  inputRequests :: "TaskInputRequest list"
  finishedInputRequests :: "TaskInputRequest list"
  ruleInfosToScan :: "RuleScanRequest list"
  ruleInfos :: "(KeyID \<times> RuleInfo) list"
  taskInfos :: "(TaskId \<times> TaskInfo) list"
  nextTask :: TaskId
  readyTaskInfos :: "TaskId list"
  numOutstandingUnfinishedTasks :: nat
  finishedTaskInfos :: "TaskId list"
  e_log :: "event list"

definition newBuildEngine :: "'c \<Rightarrow> ('c, 'd) engine" where
  "newBuildEngine c = \<lparr>e_client = c, e_db = None, currentEpoch = 0, buildCancelled = False,
     buildRunning = False, keyTable = [], hasExecutionQueue = False, cancellationDelegates = [],
     inputRequests = [], finishedInputRequests = [], ruleInfosToScan = [], ruleInfos = [],
     taskInfos = [], nextTask = 0, readyTaskInfos = [], numOutstandingUnfinishedTasks = 0,
     finishedTaskInfos = [], e_log = []\<rparr>"

section \<open>Client code\<close>

text \<open>
  A task callback: a sequence of \<^verbatim>\<open>TaskInterface\<close> calls that ends with the client's new state.
  \<^verbatim>\<open>spawn\<close> hands work to the execution queue and does not touch the engine; the calls that
  such work makes later are separate steps of the build's step relation.
\<close>

datatype 'c prog =
    Return 'c
  | Request KeyType u64 "'c prog"
  | RequestSingleUse KeyType u64 "'c prog"
  | MustFollow KeyType "'c prog"
  | DiscoveredDependency KeyType "'c prog"
  | CompleteTask ValueType bool "'c prog"
  | CancelBuild "'c prog"
  | AskCancelled "bool \<Rightarrow> 'c prog"
  | AskEpoch "Epoch \<Rightarrow> 'c prog"

record ('c, 'd) env =
  lookupRule :: "'c \<Rightarrow> KeyType \<Rightarrow> Rule"
  isResultValid :: "'c \<Rightarrow> KeyType \<Rightarrow> ValueType \<Rightarrow> bool"
  checksDependenciesBeforeRunning :: "'c \<Rightarrow> KeyType \<Rightarrow> bool"
  mustCheckDependencyBeforeRunning :: "'c \<Rightarrow> KeyType \<Rightarrow> KeyType \<Rightarrow> bool"
  createTask :: "'c \<Rightarrow> KeyType \<Rightarrow> TaskId \<Rightarrow> 'c"
  task_start :: "'c \<Rightarrow> TaskId \<Rightarrow> 'c prog"
  task_providePriorValue :: "'c \<Rightarrow> TaskId \<Rightarrow> ValueType \<Rightarrow> 'c prog"
  task_provideValue :: "'c \<Rightarrow> TaskId \<Rightarrow> u64 \<Rightarrow> KeyType \<Rightarrow> ValueType \<Rightarrow> 'c prog"
  task_inputsAvailable :: "'c \<Rightarrow> TaskId \<Rightarrow> 'c prog"
  shouldResolveCycle :: "'c \<Rightarrow> KeyType list \<Rightarrow> KeyType \<Rightarrow> CycleAction \<Rightarrow> bool"
  clock_now :: "'c \<Rightarrow> Timestamp"
  db_lookupRuleResult :: "'d \<Rightarrow> KeyID \<Rightarrow> KeyType \<Rightarrow> Result option \<times> string"
  db_setRuleResult :: "'d \<Rightarrow> KeyID \<Rightarrow> Rule \<Rightarrow> Result \<Rightarrow> 'd \<times> string option"
  db_buildStarted :: "'d \<Rightarrow> 'd \<times> string option"
  db_setCurrentIteration :: "'d \<Rightarrow> Epoch \<Rightarrow> 'd \<times> string option"
  db_buildComplete :: "'d \<Rightarrow> 'd"
  db_getCurrentEpoch :: "'d \<Rightarrow> Epoch \<times> bool"

section \<open>State predicates and transitions of a rule\<close>

definition isScanning :: "RuleInfo \<Rightarrow> bool" where
  "isScanning ri \<longleftrightarrow> ri_state ri = IsScanning"

definition isInProgressWaiting :: "RuleInfo \<Rightarrow> bool" where
  "isInProgressWaiting ri \<longleftrightarrow> ri_state ri = InProgressWaiting"

definition isInProgressComputing :: "RuleInfo \<Rightarrow> bool" where
  "isInProgressComputing ri \<longleftrightarrow> ri_state ri = InProgressComputing"

definition isInProgress :: "RuleInfo \<Rightarrow> bool" where
  "isInProgress ri \<longleftrightarrow> isInProgressWaiting ri \<or> isInProgressComputing ri"

definition isComplete :: "Epoch \<Rightarrow> RuleInfo \<Rightarrow> bool" where
  "isComplete ep ri \<longleftrightarrow> ri_state ri = Complete \<and> builtAt (ri_result ri) = ep"

definition isScanned :: "Epoch \<Rightarrow> RuleInfo \<Rightarrow> bool" where
  "isScanned ep ri \<longleftrightarrow>
     (if ri_state ri = Complete then isComplete ep ri
      else state_index (ri_state ri) > state_index IsScanning)"

definition setComputing :: "Timestamp \<Rightarrow> RuleInfo \<Rightarrow> RuleInfo option" where
  "setComputing now ri = do {
     assert_that (isInProgressWaiting ri);
     Some (ri\<lparr>ri_state := InProgressComputing, ri_result := (ri_result ri)\<lparr>res_start := now\<rparr>\<rparr>)
   }"

definition setComplete :: "Epoch \<Rightarrow> Timestamp \<Rightarrow> RuleInfo \<Rightarrow> RuleInfo" where
  "setComplete ep now ri =
     ri\<lparr>ri_state := Complete, ri_result := (ri_result ri)\<lparr>builtAt := ep, res_end := now\<rparr>\<rparr>"

definition setCancelled :: "RuleInfo \<Rightarrow> RuleInfo" where
  "setCancelled ri = ri\<lparr>ri_state := Incomplete\<rparr>"

definition getPendingScanRecord :: "RuleInfo \<Rightarrow> RuleScanRecord option" where
  "getPendingScanRecord ri = do {
     assert_that (isScanning ri);
     (case ri_inProgress ri of PendingScan r \<Rightarrow> Some r | _ \<Rightarrow> None)
   }"

definition setPendingScanRecord :: "RuleScanRecord option \<Rightarrow> RuleInfo \<Rightarrow> RuleInfo" where
  "setPendingScanRecord r ri =
     ri\<lparr>ri_inProgress := (case r of None \<Rightarrow> NoInfo | Some r \<Rightarrow> PendingScan r)\<rparr>"

definition getPendingTaskInfo :: "RuleInfo \<Rightarrow> TaskId option option" where
  "getPendingTaskInfo ri = do {
     assert_that (isInProgress ri);
     (case ri_inProgress ri of PendingTask t \<Rightarrow> Some (Some t) | NoInfo \<Rightarrow> Some None | _ \<Rightarrow> None)
   }"

definition setPendingTaskInfo :: "TaskId option \<Rightarrow> RuleInfo \<Rightarrow> RuleInfo option" where
  "setPendingTaskInfo t ri = do {
     assert_that (isInProgress ri);
     Some (ri\<lparr>ri_inProgress := (case t of None \<Rightarrow> NoInfo | Some t \<Rightarrow> PendingTask t)\<rparr>)
   }"

lemmas rule_state_defs = isScanning_def isInProgressWaiting_def isInProgressComputing_def
  isInProgress_def isComplete_def isScanned_def

section \<open>Access to the tables\<close>

text \<open>Dereferencing a rule or task pointer; a dangling one is \<^term>\<open>None\<close>.\<close>

definition getRule :: "('c, 'd) engine \<Rightarrow> KeyID \<Rightarrow> RuleInfo option" where
  "getRule s k = map_of (ruleInfos s) k"

definition getTaskInfo :: "('c, 'd) engine \<Rightarrow> TaskId \<Rightarrow> TaskInfo option" where
  "getTaskInfo s t = map_of (taskInfos s) t"

definition putRule :: "KeyID \<Rightarrow> RuleInfo \<Rightarrow> ('c, 'd) engine \<Rightarrow> ('c, 'd) engine" where
  "putRule k ri s = s\<lparr>ruleInfos := AList.update k ri (ruleInfos s)\<rparr>"

definition putTask :: "TaskId \<Rightarrow> TaskInfo \<Rightarrow> ('c, 'd) engine \<Rightarrow> ('c, 'd) engine" where
  "putTask t ti s = s\<lparr>taskInfos := AList.update t ti (taskInfos s)\<rparr>"

definition emit :: "event \<Rightarrow> ('c, 'd) engine \<Rightarrow> ('c, 'd) engine" where
  "emit ev s = s\<lparr>e_log := e_log s @ [ev]\<rparr>"

lemma getRule_putRule [simp]: "getRule (putRule k ri s) k' = (if k' = k then Some ri else getRule s k')"
  by (simp add: getRule_def putRule_def)

lemma getTaskInfo_putTask [simp]:
  "getTaskInfo (putTask t ti s) t' = (if t' = t then Some ti else getTaskInfo s t')"
  by (simp add: getTaskInfo_def putTask_def)

lemma getRule_putTask [simp]: "getRule (putTask t ti s) k = getRule s k"
  by (simp add: getRule_def putTask_def)

lemma getTaskInfo_putRule [simp]: "getTaskInfo (putRule k ri s) t = getTaskInfo s t"
  by (simp add: getTaskInfo_def putRule_def)

lemma get_emit [simp]:
  "getRule (emit ev s) k = getRule s k"
  "getTaskInfo (emit ev s) t = getTaskInfo s t"
  by (simp_all add: getRule_def getTaskInfo_def emit_def)

text \<open>Updates of the other fields do not change the tables.\<close>

lemma getRule_update [simp]:
  "getRule (s\<lparr>e_client := x0\<rparr>) = getRule s"
  "getRule (s\<lparr>e_db := x1\<rparr>) = getRule s"
  "getRule (s\<lparr>currentEpoch := x2\<rparr>) = getRule s"
  "getRule (s\<lparr>buildCancelled := x3\<rparr>) = getRule s"
  "getRule (s\<lparr>buildRunning := x4\<rparr>) = getRule s"
  "getRule (s\<lparr>keyTable := x5\<rparr>) = getRule s"
  "getRule (s\<lparr>hasExecutionQueue := x6\<rparr>) = getRule s"
  "getRule (s\<lparr>cancellationDelegates := x7\<rparr>) = getRule s"
  "getRule (s\<lparr>inputRequests := x8\<rparr>) = getRule s"
  "getRule (s\<lparr>finishedInputRequests := x9\<rparr>) = getRule s"
  "getRule (s\<lparr>ruleInfosToScan := x10\<rparr>) = getRule s"
  "getRule (s\<lparr>nextTask := x11\<rparr>) = getRule s"
  "getRule (s\<lparr>readyTaskInfos := x12\<rparr>) = getRule s"
  "getRule (s\<lparr>numOutstandingUnfinishedTasks := x13\<rparr>) = getRule s"
  "getRule (s\<lparr>finishedTaskInfos := x14\<rparr>) = getRule s"
  "getRule (s\<lparr>e_log := x15\<rparr>) = getRule s"
  "getRule (s\<lparr>taskInfos := y\<rparr>) = getRule s"
  by (simp_all add: getRule_def fun_eq_iff)

lemma getTaskInfo_update [simp]:
  "getTaskInfo (s\<lparr>e_client := x0\<rparr>) = getTaskInfo s"
  "getTaskInfo (s\<lparr>e_db := x1\<rparr>) = getTaskInfo s"
  "getTaskInfo (s\<lparr>currentEpoch := x2\<rparr>) = getTaskInfo s"
  "getTaskInfo (s\<lparr>buildCancelled := x3\<rparr>) = getTaskInfo s"
  "getTaskInfo (s\<lparr>buildRunning := x4\<rparr>) = getTaskInfo s"
  "getTaskInfo (s\<lparr>keyTable := x5\<rparr>) = getTaskInfo s"
  "getTaskInfo (s\<lparr>hasExecutionQueue := x6\<rparr>) = getTaskInfo s"
  "getTaskInfo (s\<lparr>cancellationDelegates := x7\<rparr>) = getTaskInfo s"
  "getTaskInfo (s\<lparr>inputRequests := x8\<rparr>) = getTaskInfo s"
  "getTaskInfo (s\<lparr>finishedInputRequests := x9\<rparr>) = getTaskInfo s"
  "getTaskInfo (s\<lparr>ruleInfosToScan := x10\<rparr>) = getTaskInfo s"
  "getTaskInfo (s\<lparr>nextTask := x11\<rparr>) = getTaskInfo s"
  "getTaskInfo (s\<lparr>readyTaskInfos := x12\<rparr>) = getTaskInfo s"
  "getTaskInfo (s\<lparr>numOutstandingUnfinishedTasks := x13\<rparr>) = getTaskInfo s"
  "getTaskInfo (s\<lparr>finishedTaskInfos := x14\<rparr>) = getTaskInfo s"
  "getTaskInfo (s\<lparr>e_log := x15\<rparr>) = getTaskInfo s"
  "getTaskInfo (s\<lparr>ruleInfos := y\<rparr>) = getTaskInfo s"
  by (simp_all add: getTaskInfo_def fun_eq_iff)

end
