(* ===== verification/BuildSystemTasks.thy ===== *)
theory BuildSystemTasks
  imports BuildSystemCommands BuildEngineState
begin

text \<open>
  The native build system as a client of the build engine: the description, the task classes
  and the rules of \<^verbatim>\<open>lib/BuildSystem/BuildSystem.cpp\<close>, and the description classes of
  \<^verbatim>\<open>BuildDescription.h\<close>. A callback is a program over the engine's task interface; a failed
  assertion sets the flag \<open>bs_aborted\<close> and ends the callback.

  Nodes and commands are found by name. A node that is not in the description is made from its
  name; the code keeps such nodes in a table, which changes nothing as the same name gives the
  same node.
\<close>

section \<open>Description and state\<close>

text \<open>\<open>CmdExternal\<close>: the commands that start a process (shell, clang, swift, archive, shared library).\<close>

datatype Command =
    CmdPhony ExternalCommand
  | CmdMkdir ExternalCommand
  | CmdExternal ExternalCommand
  | CmdSymlink SymlinkCommand
  | CmdStale StaleFileRemovalCommand

fun command_name :: "Command \<Rightarrow> string" where
  "command_name (CmdPhony cmd) = ec_name cmd"
| "command_name (CmdMkdir cmd) = ec_name cmd"
| "command_name (CmdExternal cmd) = ec_name cmd"
| "command_name (CmdSymlink cmd) = sy_name cmd"
| "command_name (CmdStale cmd) = sf_name cmd"

record Target =
  tg_name :: string
  tg_nodes :: "string list"

record BuildDescription =
  bd_nodes :: "(string \<times> BuildNode) list"
  bd_targets :: "(string \<times> Target) list"
  bd_commands :: "(string \<times> Command) list"
  bd_defaultTarget :: string

definition addNode :: "BuildNode \<Rightarrow> BuildDescription \<Rightarrow> BuildDescription" where
  "addNode node bd = bd\<lparr>bd_nodes := AList.update (node_name node) node (bd_nodes bd)\<rparr>"

definition addTarget :: "Target \<Rightarrow> BuildDescription \<Rightarrow> BuildDescription" where
  "addTarget target bd = bd\<lparr>bd_targets := AList.update (tg_name target) target (bd_targets bd)\<rparr>"

definition addCommand :: "Command \<Rightarrow> BuildDescription \<Rightarrow> BuildDescription" where
  "addCommand cmd bd = bd\<lparr>bd_commands := AList.update (command_name cmd) cmd (bd_commands bd)\<rparr>"

record SubpathInfo =
  sub_filename :: string
  sub_value :: ValueType
  sub_signature :: "ValueType option"

text \<open>The task objects with their members.\<close>

datatype BsTask =
    TargetTask Target "string list"
  | FileInputNodeTask BuildNode
  | StatTask string
  | DirectoryInputNodeTask BuildNode ValueType nat nat
  | DirectoryStructureInputNodeTask BuildNode ValueType
  | VirtualInputNodeTask
  | ProducedNodeTask BuildNode BuildValue "string option" bool
  | ProducedDirectoryNodeTask BuildNode BuildValue ValueType "string option" bool bool
  | DirectoryContentsTask string BuildValue
  | FilteredDirectoryContentsTask string StringList BuildValue
  | DirectoryTreeSignatureTask string StringList ValueType "SubpathInfo list"
  | DirectoryTreeStructureSignatureTask string StringList ValueType "SubpathInfo list"
  | CommandTask "byte list"
  | MissingCommandTask

record 'fs BuildSystem =
  bs_description :: BuildDescription
  bs_customTasks :: "(byte list \<times> Command) list"
  bs_fs :: 'fs
  bs_tasks :: "(TaskId \<times> BsTask) list"
  bs_jobs :: "(TaskId \<times> byte list) list"
  bs_events :: "command_event list"
  bs_aborted :: bool

text \<open>
  What the build system takes from outside: hashing, file system and path functions of the
  vendored library, the listing of a directory (each entry with the resolved path if it is a
  symbolic link), pattern matching of the platform, the choices of the delegate, the tools'
  custom commands, and the extension points of the commands that start a process.
\<close>

record 'fs system_params =
  sp_hash :: hashing
  sp_FS :: "'fs FileSystem"
  sp_parent_path :: "string \<Rightarrow> string"
  sp_path_append :: "string \<Rightarrow> string \<Rightarrow> string"
  sp_listDirectory :: "'fs \<Rightarrow> string \<Rightarrow> (string \<times> string option) list"
  sp_filenameMatch :: "string \<Rightarrow> string \<Rightarrow> bool"
  sp_separators :: string
  sp_chooseProducer :: "string \<Rightarrow> string list \<Rightarrow> string option"
  sp_shouldCommandStart :: "string \<Rightarrow> bool"
  sp_isDetached :: "ExternalCommand \<Rightarrow> bool"
  sp_createCustomCommand :: "byte list \<Rightarrow> Command option"
  sp_signature :: "ExternalCommand \<Rightarrow> CommandSignature"
  sp_startExternal :: "ExternalCommand \<Rightarrow> (byte list \<times> u64) list"
  sp_runExternal :: "ExternalCommand \<Rightarrow> 'fs \<Rightarrow> (ProcessStatus \<times> command_event list \<times> 'fs) option"

section \<open>Callback programs\<close>

type_synonym 'fs task_prog = "'fs BuildSystem prog"

definition abort :: "'fs BuildSystem \<Rightarrow> 'fs task_prog" where
  "abort c = Return (c\<lparr>bs_aborted := True\<rparr>)"

definition setTask :: "TaskId \<Rightarrow> BsTask \<Rightarrow> 'fs BuildSystem \<Rightarrow> 'fs BuildSystem" where
  "setTask t task c = c\<lparr>bs_tasks := AList.update t task (bs_tasks c)\<rparr>"

definition notify :: "command_event list \<Rightarrow> 'fs BuildSystem \<Rightarrow> 'fs BuildSystem" where
  "notify evs c = c\<lparr>bs_events := bs_events c @ evs\<rparr>"

primrec requestKeys :: "(byte list \<times> u64) list \<Rightarrow> 'fs task_prog \<Rightarrow> 'fs task_prog" where
  "requestKeys [] p = p"
| "requestKeys (x # xs) p = Request (chars (fst x)) (snd x) (requestKeys xs p)"

primrec followKeys :: "byte list list \<Rightarrow> 'fs task_prog \<Rightarrow> 'fs task_prog" where
  "followKeys [] p = p"
| "followKeys (key # ks) p = MustFollow (chars key) (followKeys ks p)"

definition numbered :: "nat \<Rightarrow> string list \<Rightarrow> (byte list \<times> u64) list" where
  "numbered n names = map (\<lambda>(i, name). (makeNode (bytes name), of_nat i)) (enumerate n names)"

text \<open>\<^verbatim>\<open>ti.complete(value.toData())\<close>.\<close>

definition completeWith :: "BuildValue option \<Rightarrow> bool \<Rightarrow> 'fs BuildSystem \<Rightarrow> 'fs task_prog" where
  "completeWith v force c =
     (case v \<bind> toData of None \<Rightarrow> abort c | Some d \<Rightarrow> CompleteTask d force (Return c))"

definition lookupNode :: "'fs BuildSystem \<Rightarrow> string \<Rightarrow> BuildNode" where
  "lookupNode c name =
     (case map_of (bd_nodes (bs_description c)) name of Some node \<Rightarrow> node | None \<Rightarrow> createNode name)"

section \<open>Commands\<close>

definition findCommand :: "'fs system_params \<Rightarrow> 'fs BuildSystem \<Rightarrow> byte list \<Rightarrow> Command option" where
  "findCommand sp c key =
     (if kindOfKeyData key = KeyCustomTask
      then (case map_of (bs_customTasks c) key of Some cmd \<Rightarrow> Some cmd | None \<Rightarrow> sp_createCustomCommand sp key)
      else do { name \<leftarrow> getName KeyCommand key; map_of (bd_commands (bs_description c)) (chars name) })"

definition putCommand :: "byte list \<Rightarrow> Command \<Rightarrow> 'fs BuildSystem \<Rightarrow> 'fs BuildSystem" where
  "putCommand key cmd c =
     (if kindOfKeyData key = KeyCustomTask then c\<lparr>bs_customTasks := AList.update key cmd (bs_customTasks c)\<rparr>
      else c\<lparr>bs_description := (bs_description c)
        \<lparr>bd_commands := AList.update (command_name cmd) cmd (bd_commands (bs_description c))\<rparr>\<rparr>)"

fun command_signature :: "'fs system_params \<Rightarrow> Command \<Rightarrow> CommandSignature option" where
  "command_signature sp (CmdPhony cmd) = Some (getSignature_external (sp_hash sp) cmd)"
| "command_signature sp (CmdMkdir cmd) = Some (getSignature_external (sp_hash sp) cmd)"
| "command_signature sp (CmdExternal cmd) = Some (sp_signature sp cmd)"
| "command_signature sp (CmdSymlink cmd) = getSignature_symlink (sp_hash sp) cmd"
| "command_signature sp (CmdStale cmd) = Some (combine_string (sp_hash sp) 0 (sf_name cmd))"

fun command_resultForOutput :: "Command \<Rightarrow> BuildNode \<Rightarrow> BuildValue \<Rightarrow> BuildValue option" where
  "command_resultForOutput (CmdPhony cmd) node v = getResultForOutput_phony cmd node v"
| "command_resultForOutput (CmdMkdir cmd) node v = getResultForOutput_external cmd node v"
| "command_resultForOutput (CmdExternal cmd) node v = getResultForOutput_external cmd node v"
| "command_resultForOutput (CmdSymlink cmd) node v = getResultForOutput_symlink v"
| "command_resultForOutput (CmdStale cmd) node v = getResultForOutput_stale v"

fun command_isResultValid :: "'fs system_params \<Rightarrow> 'fs \<Rightarrow> Command \<Rightarrow> BuildValue \<Rightarrow> bool option" where
  "command_isResultValid sp fs (CmdPhony cmd) v = isResultValid_external (sp_FS sp) fs cmd v"
| "command_isResultValid sp fs (CmdMkdir cmd) v = isResultValid_mkdir (sp_FS sp) fs cmd v"
| "command_isResultValid sp fs (CmdExternal cmd) v = isResultValid_external (sp_FS sp) fs cmd v"
| "command_isResultValid sp fs (CmdSymlink cmd) v = isResultValid_symlink (sp_FS sp) fs cmd v"
| "command_isResultValid sp fs (CmdStale cmd) v = Some (isResultValid_stale v)"

text \<open>What \<^verbatim>\<open>start\<close> requests, what it must follow, and the command afterwards.\<close>

fun command_start :: "'fs system_params \<Rightarrow> Command \<Rightarrow> Command \<times> (byte list \<times> u64) list \<times> byte list list" where
  "command_start sp (CmdPhony cmd) = (case start_external cmd of (cmd, reqs) \<Rightarrow> (CmdPhony cmd, reqs, []))"
| "command_start sp (CmdMkdir cmd) = (case start_external cmd of (cmd, reqs) \<Rightarrow> (CmdMkdir cmd, reqs, []))"
| "command_start sp (CmdExternal cmd) =
     (case start_external cmd of (cmd, reqs) \<Rightarrow> (CmdExternal cmd, reqs @ sp_startExternal sp cmd, []))"
| "command_start sp (CmdSymlink cmd) = (CmdSymlink cmd, [], start_symlink cmd)"
| "command_start sp (CmdStale cmd) = (CmdStale cmd, [], [])"

fun command_providePriorValue :: "BuildValue \<Rightarrow> Command \<Rightarrow> Command option" where
  "command_providePriorValue v (CmdPhony cmd) = Some (CmdPhony (providePriorValue_external v cmd))"
| "command_providePriorValue v (CmdMkdir cmd) = Some (CmdMkdir (providePriorValue_external v cmd))"
| "command_providePriorValue v (CmdExternal cmd) = Some (CmdExternal (providePriorValue_external v cmd))"
| "command_providePriorValue v (CmdSymlink cmd) = Some (CmdSymlink cmd)"
| "command_providePriorValue v (CmdStale cmd) = map_option CmdStale (providePriorValue_stale v cmd)"

fun command_provideValue :: "u64 \<Rightarrow> byte list \<Rightarrow> BuildValue \<Rightarrow> Command \<Rightarrow> Command option" where
  "command_provideValue i key v (CmdPhony cmd) = map_option CmdPhony (provideValue_external i key v cmd)"
| "command_provideValue i key v (CmdMkdir cmd) = map_option CmdMkdir (provideValue_external i key v cmd)"
| "command_provideValue i key v (CmdExternal cmd) = map_option CmdExternal (provideValue_external i key v cmd)"
| "command_provideValue i key v (CmdSymlink cmd) = None"
| "command_provideValue i key v (CmdStale cmd) = None"

fun command_execute ::
  "'fs system_params \<Rightarrow> nat \<Rightarrow> Command \<Rightarrow> 'fs \<Rightarrow> (BuildValue \<times> command_event list \<times> 'fs \<times> Command) option" where
  "command_execute sp epoch (CmdPhony cmd) fs =
     map_option (\<lambda>(v, evs, fs). (v, evs, fs, CmdPhony cmd))
       (execute_external (sp_FS sp) (sp_parent_path sp) execute_phony epoch cmd fs)"
| "command_execute sp epoch (CmdMkdir cmd) fs =
     map_option (\<lambda>(v, evs, fs). (v, evs, fs, CmdMkdir cmd))
       (execute_external (sp_FS sp) (sp_parent_path sp) (execute_mkdir (sp_FS sp)) epoch cmd fs)"
| "command_execute sp epoch (CmdExternal cmd) fs =
     map_option (\<lambda>(v, evs, fs). (v, evs, fs, CmdExternal cmd))
       (execute_external (sp_FS sp) (sp_parent_path sp) (sp_runExternal sp) epoch cmd fs)"
| "command_execute sp epoch (CmdSymlink cmd) fs =
     map_option (\<lambda>(v, evs, fs). (v, evs, fs, CmdSymlink cmd))
       (execute_symlink (sp_FS sp) (sp_parent_path sp) cmd fs)"
| "command_execute sp epoch (CmdStale cmd) fs =
     map_option (\<lambda>(v, evs, fs, cmd). (v, evs, fs, CmdStale cmd))
       (execute_stale (sp_FS sp) (sp_separators sp) cmd fs)"

fun command_isDetached :: "'fs system_params \<Rightarrow> Command \<Rightarrow> bool" where
  "command_isDetached sp (CmdExternal cmd) = sp_isDetached sp cmd"
| "command_isDetached sp _ = False"

fun command_checks :: "Command \<Rightarrow> bool" where
  "command_checks (CmdPhony cmd) = checksDependencies_external cmd"
| "command_checks (CmdMkdir cmd) = checksDependencies_external cmd"
| "command_checks (CmdExternal cmd) = checksDependencies_external cmd"
| "command_checks _ = False"

fun command_mustCheck :: "Command \<Rightarrow> byte list \<Rightarrow> bool" where
  "command_mustCheck (CmdPhony cmd) key = mustCheckDependency_external cmd key"
| "command_mustCheck (CmdMkdir cmd) key = mustCheckDependency_external cmd key"
| "command_mustCheck (CmdExternal cmd) key = mustCheckDependency_external cmd key"
| "command_mustCheck _ key = False"

end
