(* ===== verification/BuildEngineOps.thy ===== *)
theory BuildEngineOps
  imports BuildEngineState
begin

text \<open>
  The operations of \<^verbatim>\<open>BuildEngineImpl\<close> on the engine state: the key table and the rule table,
  the client API, the \<^verbatim>\<open>TaskInterface\<close> calls, dependency scanning and demand. Each returns
  \<^term>\<open>None\<close> where the C++ asserts, aborts or dereferences a null pointer. Tracing, which only
  writes a log file, is left out.
\<close>

section \<open>Key and rule tables\<close>

definition getKeyID :: "KeyType \<Rightarrow> ('c, 'd) engine \<Rightarrow> KeyID \<times> ('c, 'd) engine" where
  "getKeyID key s =
     (key, if key \<in> set (keyTable s) then s else s\<lparr>keyTable := keyTable s @ [key]\<rparr>)"

definition getKeyForID :: "KeyID \<Rightarrow> KeyType" where
  "getKeyForID keyID = keyID"

definition addRule ::
  "('c, 'd) env \<Rightarrow> KeyID \<Rightarrow> Rule \<Rightarrow> ('c, 'd) engine \<Rightarrow> ('c, 'd) engine" where
  "addRule env keyID rule s =
     (case getRule s keyID of
        Some ri \<Rightarrow>
          (emit (EvError (''attempt to register duplicate rule '' @ [CHR 0x22]
                            @ rule_key (ri_rule ri) @ [CHR 0x22, CHR 0x0A])) s)
            \<lparr>buildCancelled := True\<rparr>
      | None \<Rightarrow>
          (case e_db s of
             None \<Rightarrow> putRule keyID (newRuleInfo keyID rule) s
           | Some db \<Rightarrow>
               (case db_lookupRuleResult env db keyID (rule_key rule) of
                  (found, error) \<Rightarrow>
                    (let ri = newRuleInfo keyID rule;
                         ri = (case found of None \<Rightarrow> ri | Some r \<Rightarrow> ri\<lparr>ri_result := r\<rparr>);
                         s = putRule keyID ri s
                     in if error \<noteq> []
                        then (emit (EvError error) s)\<lparr>buildCancelled := True\<rparr>
                        else s))))"

definition addRule_api :: "('c, 'd) env \<Rightarrow> Rule \<Rightarrow> ('c, 'd) engine \<Rightarrow> ('c, 'd) engine" where
  "addRule_api env rule s =
     (case getKeyID (rule_key rule) s of (keyID, s) \<Rightarrow> addRule env keyID rule s)"

text \<open>
  The two overloads of \<^verbatim>\<open>getRuleInfoForKey\<close>. The reference they return is the rule's key; the
  state may gain the rule.
\<close>

definition getRuleInfoForKeyID ::
  "('c, 'd) env \<Rightarrow> KeyID \<Rightarrow> ('c, 'd) engine \<Rightarrow> ('c, 'd) engine" where
  "getRuleInfoForKeyID env keyID s =
     (case getRule s keyID of
        Some _ \<Rightarrow> s
      | None \<Rightarrow> addRule env keyID (lookupRule env (e_client s) (getKeyForID keyID)) s)"

definition getRuleInfoForKey ::
  "('c, 'd) env \<Rightarrow> KeyType \<Rightarrow> ('c, 'd) engine \<Rightarrow> KeyID \<times> ('c, 'd) engine" where
  "getRuleInfoForKey env key s =
     (case getKeyID key s of (keyID, s) \<Rightarrow>
        (keyID, case getRule s keyID of
                  Some _ \<Rightarrow> s
                | None \<Rightarrow> addRule env keyID (lookupRule env (e_client s) key) s))"

section \<open>Cancellation API and database attachment\<close>

definition resetForBuild :: "('c, 'd) engine \<Rightarrow> ('c, 'd) engine" where
  "resetForBuild s = s\<lparr>buildCancelled := False\<rparr>"

definition cancelBuild :: "('c, 'd) engine \<Rightarrow> ('c, 'd) engine" where
  "cancelBuild s =
     (let s = (if \<not> buildCancelled s
               then fold (\<lambda>del. emit (EvCancelled del)) (cancellationDelegates s) s else s);
          s = s\<lparr>buildCancelled := True\<rparr>
      in if hasExecutionQueue s then emit EvCancelAllJobs s else s)"

definition addCancellationDelegate :: "nat \<Rightarrow> ('c, 'd) engine \<Rightarrow> ('c, 'd) engine" where
  "addCancellationDelegate del s =
     (if buildCancelled s then emit (EvCancelled del) s
      else s\<lparr>cancellationDelegates := List.insert del (cancellationDelegates s)\<rparr>)"

definition removeCancellationDelegate :: "nat \<Rightarrow> ('c, 'd) engine \<Rightarrow> ('c, 'd) engine" where
  "removeCancellationDelegate del s =
     s\<lparr>cancellationDelegates := removeAll del (cancellationDelegates s)\<rparr>"

definition attachDB ::
  "('c, 'd) env \<Rightarrow> 'd \<Rightarrow> ('c, 'd) engine \<Rightarrow> (bool \<times> ('c, 'd) engine) option" where
  "attachDB env database s = do {
     assert_that (e_db s = None);
     assert_that (currentEpoch s = 0);
     assert_that (ruleInfos s = []);
     (case db_getCurrentEpoch env database of
        (epoch, success) \<Rightarrow> Some (success, s\<lparr>e_db := Some database, currentEpoch := epoch\<rparr>))
   }"

section \<open>TaskInterface calls\<close>

definition addTaskInputRequest ::
  "('c, 'd) env \<Rightarrow> TaskId \<Rightarrow> KeyType \<Rightarrow> u64 \<Rightarrow> bool \<Rightarrow> bool
     \<Rightarrow> ('c, 'd) engine \<Rightarrow> ('c, 'd) engine option" where
  "addTaskInputRequest env task key inputID orderOnly singleUse s = do {
     taskInfo \<leftarrow> getTaskInfo s task;
     ri \<leftarrow> getRule s (ti_forRule taskInfo);
     assert_that (isInProgressWaiting ri);
     (case getRuleInfoForKey env key s of
        (keyID, s) \<Rightarrow> do {
          taskInfo \<leftarrow> getTaskInfo s task;
          Some (putTask task (taskInfo\<lparr>ti_waitCount := ti_waitCount taskInfo + 1\<rparr>)
            (s\<lparr>inputRequests := inputRequests s @
                 [\<lparr>ir_task = Some task, ir_inputID = inputID, ir_inputRule = keyID,
                   ir_orderOnly = orderOnly, ir_forcePriorValue = False,
                   ir_singleUse = singleUse\<rparr>]\<rparr>))
        })
   }"

definition reserved_id_error :: "('c, 'd) engine \<Rightarrow> ('c, 'd) engine" where
  "reserved_id_error s =
     (emit (EvError ''attempt to use reserved input ID'') s)\<lparr>buildCancelled := True\<rparr>"

definition taskNeedsInput ::
  "('c, 'd) env \<Rightarrow> TaskId \<Rightarrow> KeyType \<Rightarrow> u64 \<Rightarrow> ('c, 'd) engine \<Rightarrow> ('c, 'd) engine option" where
  "taskNeedsInput env task key inputID s =
     (if inputID > kMaximumInputID then Some (reserved_id_error s)
      else addTaskInputRequest env task key inputID False False s)"

definition taskNeedsSingleUseInput ::
  "('c, 'd) env \<Rightarrow> TaskId \<Rightarrow> KeyType \<Rightarrow> u64 \<Rightarrow> ('c, 'd) engine \<Rightarrow> ('c, 'd) engine option" where
  "taskNeedsSingleUseInput env task key inputID s =
     (if inputID > kMaximumInputID then Some (reserved_id_error s)
      else addTaskInputRequest env task key inputID False True s)"

definition taskMustFollow ::
  "('c, 'd) env \<Rightarrow> TaskId \<Rightarrow> KeyType \<Rightarrow> ('c, 'd) engine \<Rightarrow> ('c, 'd) engine option" where
  "taskMustFollow env task key s =
     addTaskInputRequest env task key kMustFollowInputID True False s"

definition taskDiscoveredDependency ::
  "TaskId \<Rightarrow> KeyType \<Rightarrow> ('c, 'd) engine \<Rightarrow> ('c, 'd) engine option" where
  "taskDiscoveredDependency task key s = do {
     taskInfo \<leftarrow> getTaskInfo s task;
     ri \<leftarrow> getRule s (ti_forRule taskInfo);
     if \<not> isInProgressComputing ri
     then Some ((emit (EvError ''invalid state for adding discovered dependency'') s)
                  \<lparr>buildCancelled := True\<rparr>)
     else (case getKeyID key s of
             (dependencyID, s) \<Rightarrow>
               Some (putTask task (taskInfo\<lparr>ti_discovered :=
                       push_back_deps dependencyID False False (ti_discovered taskInfo)\<rparr>) s))
   }"

definition taskIsComplete ::
  "TaskId \<Rightarrow> ValueType \<Rightarrow> bool \<Rightarrow> ('c, 'd) engine \<Rightarrow> ('c, 'd) engine option" where
  "taskIsComplete task val forceChange s = do {
     taskInfo \<leftarrow> getTaskInfo s task;
     ri \<leftarrow> getRule s (ti_forRule taskInfo);
     if \<not> isInProgressComputing ri
     then Some ((emit (EvError ''invalid state for marking task complete'') s)
                  \<lparr>buildCancelled := True\<rparr>)
     else do {
       pending \<leftarrow> getPendingTaskInfo ri;
       assert_that (pending = Some task);
       let res = (ri_result ri)\<lparr>res_signature := rule_signature (ri_rule ri)\<rparr>;
       let res = (if \<not> forceChange \<and> val = res_value res then res
                  else res\<lparr>res_value := val, computedAt := currentEpoch s\<rparr>);
       let s = putRule (ti_forRule taskInfo) (ri\<lparr>ri_result := res\<rparr>) s;
       Some (s\<lparr>finishedTaskInfos := finishedTaskInfos s @ [task]\<rparr>)
     }
   }"

text \<open>A callback runs to its end; its last word is the client's new state.\<close>

primrec runProg ::
  "('c, 'd) env \<Rightarrow> TaskId \<Rightarrow> 'c prog \<Rightarrow> ('c, 'd) engine \<Rightarrow> ('c, 'd) engine option" where
  "runProg env t (Return c) = (\<lambda>s. Some (s\<lparr>e_client := c\<rparr>))"
| "runProg env t (Request key i p) = (\<lambda>s. taskNeedsInput env t key i s \<bind> runProg env t p)"
| "runProg env t (RequestSingleUse key i p) =
     (\<lambda>s. taskNeedsSingleUseInput env t key i s \<bind> runProg env t p)"
| "runProg env t (MustFollow key p) = (\<lambda>s. taskMustFollow env t key s \<bind> runProg env t p)"
| "runProg env t (DiscoveredDependency key p) =
     (\<lambda>s. taskDiscoveredDependency t key s \<bind> runProg env t p)"
| "runProg env t (CompleteTask val forceChange p) =
     (\<lambda>s. taskIsComplete t val forceChange s \<bind> runProg env t p)"
| "runProg env t (CancelBuild p) = (\<lambda>s. runProg env t p (cancelBuild s))"
| "runProg env t (AskCancelled f) = (\<lambda>s. runProg env t (f (buildCancelled s)) s)"
| "runProg env t (AskEpoch f) = (\<lambda>s. runProg env t (f (currentEpoch s)) s)"

section \<open>Dependency scanning\<close>

definition startScan ::
  "KeyID \<Rightarrow> bool \<Rightarrow> ('c, 'd) engine \<Rightarrow> ('c, 'd) engine option" where
  "startScan k needsToRun s = do {
     ri \<leftarrow> getRule s k;
     let s = putRule k (setPendingScanRecord (Some newRuleScanRecord) (ri\<lparr>ri_state := IsScanning\<rparr>)) s;
     Some (s\<lparr>ruleInfosToScan := ruleInfosToScan s @
            [\<lparr>sr_rule = k, sr_inputIndex = 0, sr_inputRule = None, sr_orderOnly = False,
              sr_singleUse = False, sr_needsToRun = needsToRun\<rparr>]\<rparr>)
   }"

definition scheduleChecksBeforeRunning ::
  "('c, 'd) env \<Rightarrow> KeyID \<Rightarrow> ('c, 'd) engine \<Rightarrow> (bool \<times> ('c, 'd) engine) option" where
  "scheduleChecksBeforeRunning env k s = do {
     ri \<leftarrow> getRule s k;
     assert_that (ri_state ri = NeedsToRun);
     if \<not> checksDependenciesBeforeRunning env (e_client s) (rule_key (ri_rule ri))
        \<or> empty_deps_p (dependencies (ri_result ri))
     then Some (False, s)
     else do { s \<leftarrow> startScan k True s; Some (True, s) }
   }"

text \<open>The rule is marked as needing to run and the delegate is told why.\<close>

definition markNeedsToRun ::
  "KeyID \<Rightarrow> RuleInfo \<Rightarrow> RunReason \<Rightarrow> ('c, 'd) engine \<Rightarrow> ('c, 'd) engine" where
  "markNeedsToRun k ri reason s =
     emit (EvNeedsToRun (rule_key (ri_rule ri)) reason None) (putRule k (ri\<lparr>ri_state := NeedsToRun\<rparr>) s)"

definition scanRule ::
  "('c, 'd) env \<Rightarrow> KeyID \<Rightarrow> ('c, 'd) engine \<Rightarrow> (bool \<times> ('c, 'd) engine) option" where
  "scanRule env k s = do {
     ri \<leftarrow> getRule s k;
     if isScanned (currentEpoch s) ri then Some (True, s)
     else if isScanning ri then Some (False, s)
     else do {
       let ri = ri\<lparr>ri_result := (ri_result ri)
                  \<lparr>dependencies := cleanSingleUseDependencies (dependencies (ri_result ri))\<rparr>,
                  ri_wasForced := False\<rparr>;
       let s = emit (EvStatus (rule_key (ri_rule ri)) StatusIsScanning) (putRule k ri s);
       if builtAt (ri_result ri) = 0
       then Some (True, markNeedsToRun k ri NeverBuilt s)
       else if rule_signature (ri_rule ri) \<noteq> res_signature (ri_result ri)
       then do {
         (scheduled, s) \<leftarrow> scheduleChecksBeforeRunning env k (markNeedsToRun k ri SignatureChanged s);
         Some (\<not> scheduled, s)
       }
       else if \<not> isResultValid env (e_client s) (rule_key (ri_rule ri)) (res_value (ri_result ri))
       then do {
         (scheduled, s) \<leftarrow> scheduleChecksBeforeRunning env k (markNeedsToRun k ri InvalidValue s);
         Some (\<not> scheduled, s)
       }
       else if empty_deps_p (dependencies (ri_result ri))
       then Some (True, putRule k (ri\<lparr>ri_state := DoesNotNeedToRun\<rparr>) s)
       else do { s \<leftarrow> startScan k False s; Some (False, s) }
     }
   }"

definition demandRule ::
  "('c, 'd) env \<Rightarrow> KeyID \<Rightarrow> ('c, 'd) engine \<Rightarrow> (bool \<times> ('c, 'd) engine) option" where
  "demandRule env k s = do {
     ri \<leftarrow> getRule s k;
     assert_that (isScanned (currentEpoch s) ri);
     if isComplete (currentEpoch s) ri then Some (True, s)
     else if isInProgress ri then Some (False, s)
     else if ri_state ri = DoesNotNeedToRun
     then Some (True, emit (EvStatus (rule_key (ri_rule ri)) StatusIsUpToDate)
                 (putRule k (setComplete (currentEpoch s) (clock_now env (e_client s)) ri) s))
     else do {
       assert_that (ri_state ri = NeedsToRun);
       let t = nextTask s;
       let s = emit (EvCreateTask (rule_key (ri_rule ri)) t)
                 (s\<lparr>e_client := createTask env (e_client s) (rule_key (ri_rule ri)) t, nextTask := t + 1\<rparr>);
       let s = putTask t (newTaskInfo k) s;
       ri \<leftarrow> setPendingTaskInfo (Some t) (ri\<lparr>ri_state := InProgressWaiting\<rparr>);
       let ri = ri\<lparr>ri_result := (ri_result ri)\<lparr>dependencies := clear_deps (dependencies (ri_result ri))\<rparr>\<rparr>;
       let s = emit (EvStart t) (putRule k ri s);
       s \<leftarrow> runProg env t (task_start env (e_client s) t) s;
       ri \<leftarrow> getRule s k;
       s \<leftarrow> (if builtAt (ri_result ri) \<noteq> 0 \<and> rule_signature (ri_rule ri) = res_signature (ri_result ri)
             then (let s = emit (EvPriorValue t (res_value (ri_result ri))) s
                   in runProg env t (task_providePriorValue env (e_client s) t (res_value (ri_result ri))) s)
             else Some s);
       ti \<leftarrow> getTaskInfo s t;
       Some (False, if ti_waitCount ti = 0 then s\<lparr>readyTaskInfos := readyTaskInfos s @ [t]\<rparr> else s)
     }
   }"

definition finishScanRequest ::
  "KeyID \<Rightarrow> StateKind \<Rightarrow> ('c, 'd) engine \<Rightarrow> ('c, 'd) engine option" where
  "finishScanRequest k newState s = do {
     ri \<leftarrow> getRule s k;
     scanRecord \<leftarrow> getPendingScanRecord ri;
     let s = s\<lparr>ruleInfosToScan := ruleInfosToScan s @ deferredScanRequests scanRecord,
               inputRequests := inputRequests s @ pausedInputRequests scanRecord\<rparr>;
     Some (putRule k ((setPendingScanRecord None ri)\<lparr>ri_state := newState\<rparr>) s)
   }"

text \<open>
  One iteration of the loop of \<^verbatim>\<open>processRuleScanRequest\<close>: either the function returns
  (\<^term>\<open>Inl\<close>), or the loop goes on with an updated request (\<^term>\<open>Inr\<close>).
\<close>

definition deferOnScan ::
  "RuleScanRequest \<Rightarrow> KeyID \<Rightarrow> ('c, 'd) engine \<Rightarrow> ('c, 'd) engine option" where
  "deferOnScan request input s = do {
     inputInfo \<leftarrow> getRule s input;
     rec \<leftarrow> getPendingScanRecord inputInfo;
     Some (putRule input (setPendingScanRecord
       (Some (rec\<lparr>deferredScanRequests := deferredScanRequests rec @ [request]\<rparr>)) inputInfo) s)
   }"

definition deferOnTask ::
  "RuleScanRequest \<Rightarrow> KeyID \<Rightarrow> ('c, 'd) engine \<Rightarrow> ('c, 'd) engine option" where
  "deferOnTask request input s = do {
     inputInfo \<leftarrow> getRule s input;
     pending \<leftarrow> getPendingTaskInfo inputInfo;
     t \<leftarrow> pending;
     ti \<leftarrow> getTaskInfo s t;
     Some (putTask t (ti\<lparr>ti_deferredScanRequests := ti_deferredScanRequests ti @ [request]\<rparr>) s)
   }"

definition nextScanInput :: "RuleScanRequest \<Rightarrow> RuleScanRequest" where
  "nextScanInput request = request\<lparr>sr_inputIndex := sr_inputIndex request + 1, sr_inputRule := None,
     sr_orderOnly := False, sr_singleUse := False\<rparr>"

definition scanAvailableInput ::
  "('c, 'd) env \<Rightarrow> RuleScanRequest \<Rightarrow> KeyID \<Rightarrow> ('c, 'd) engine
     \<Rightarrow> (('c, 'd) engine + RuleScanRequest \<times> ('c, 'd) engine) option" where
  "scanAvailableInput env request input s = do {
     ri \<leftarrow> getRule s (sr_rule request);
     inputInfo \<leftarrow> getRule s input;
     if sr_orderOnly request \<or> sr_needsToRun request
     then Some (Inr (nextScanInput request, s))
     else if builtAt (ri_result ri) < computedAt (ri_result inputInfo)
     then (let ev = EvNeedsToRun (rule_key (ri_rule ri)) InputRebuilt (Some (rule_key (ri_rule inputInfo)))
           in if \<not> checksDependenciesBeforeRunning env (e_client s) (rule_key (ri_rule ri))
              then do {
                s \<leftarrow> finishScanRequest (sr_rule request) NeedsToRun s;
                Some (Inl (emit ev s))
              }
              else Some (Inr (nextScanInput (request\<lparr>sr_needsToRun := True\<rparr>), emit ev s)))
     else Some (Inr (nextScanInput request, s))
   }"

definition scanInput ::
  "('c, 'd) env \<Rightarrow> RuleScanRequest \<Rightarrow> KeyID \<Rightarrow> ('c, 'd) engine
     \<Rightarrow> (('c, 'd) engine + RuleScanRequest \<times> ('c, 'd) engine) option" where
  "scanInput env request input s = do {
     (scanned, s) \<leftarrow> scanRule env input s;
     if \<not> scanned then map_option Inl (deferOnScan request input s)
     else do {
       (available, s) \<leftarrow> demandRule env input s;
       if \<not> available then map_option Inl (deferOnTask request input s)
       else scanAvailableInput env request input s
     }
   }"

definition scanStep ::
  "('c, 'd) env \<Rightarrow> RuleScanRequest \<Rightarrow> ('c, 'd) engine
     \<Rightarrow> (('c, 'd) engine + RuleScanRequest \<times> ('c, 'd) engine) option" where
  "scanStep env request s =
     (case sr_inputRule request of
        Some input \<Rightarrow> scanInput env request input s
      | None \<Rightarrow> do {
          ri \<leftarrow> getRule s (sr_rule request);
          (keyID, orderOnly, singleUse) \<leftarrow> nth_deps (dependencies (ri_result ri)) (sr_inputIndex request);
          if sr_needsToRun request \<and>
             \<not> mustCheckDependencyBeforeRunning env (e_client s) (rule_key (ri_rule ri)) (getKeyForID keyID)
          then Some (Inr (request\<lparr>sr_inputIndex := sr_inputIndex request + 1\<rparr>, s))
          else scanInput env
                 (request\<lparr>sr_inputRule := Some keyID, sr_orderOnly := orderOnly, sr_singleUse := singleUse\<rparr>)
                 keyID (getRuleInfoForKeyID env keyID s)
        })"

partial_function (option) scanLoop ::
  "('c, 'd) env \<Rightarrow> RuleScanRequest \<Rightarrow> ('c, 'd) engine \<Rightarrow> ('c, 'd) engine option" where
  "scanLoop env request s = do {
     r \<leftarrow> scanStep env request s;
     (case r of
        Inl s \<Rightarrow> Some s
      | Inr (request, s) \<Rightarrow> do {
          ri \<leftarrow> getRule s (sr_rule request);
          if sr_inputIndex request \<noteq> size_deps (dependencies (ri_result ri))
          then scanLoop env request s
          else finishScanRequest (sr_rule request)
                 (if sr_needsToRun request then NeedsToRun else DoesNotNeedToRun) s
        })
   }"

declare scanLoop.simps [code]

definition processRuleScanRequest ::
  "('c, 'd) env \<Rightarrow> RuleScanRequest \<Rightarrow> ('c, 'd) engine \<Rightarrow> ('c, 'd) engine option" where
  "processRuleScanRequest env request s = do {
     ri \<leftarrow> getRule s (sr_rule request);
     assert_that (isScanning ri \<or> ri_wasForced ri);
     if \<not> isScanning ri then Some s else scanLoop env request s
   }"

text \<open>
  The code decrements an unsigned counter without an assertion; a counter of zero would wrap
  around. The model makes that a failure, and the invariant shows that it does not occur.
\<close>

definition decrementTaskWaitCount :: "TaskId \<Rightarrow> ('c, 'd) engine \<Rightarrow> ('c, 'd) engine option" where
  "decrementTaskWaitCount t s = do {
     ti \<leftarrow> getTaskInfo s t;
     assert_that (ti_waitCount ti \<noteq> 0);
     let ti = ti\<lparr>ti_waitCount := ti_waitCount ti - 1\<rparr>;
     let s = putTask t ti s;
     Some (if ti_waitCount ti = 0 then s\<lparr>readyTaskInfos := readyTaskInfos s @ [t]\<rparr> else s)
   }"

end
