(* ===== verification/BuildEngineCycle.thy ===== *)
theory BuildEngineCycle
  imports BuildEngineOps
begin

text \<open>
  Cycle detection and resolution: \<^verbatim>\<open>findCycle\<close>, \<^verbatim>\<open>breakCycle\<close> and \<^verbatim>\<open>resolveCycle\<close> of
  \<^verbatim>\<open>lib/Core/BuildEngine.cpp\<close>. The graphs are association lists from a rule (its key) to
  rules; a scan record is named by the rule that owns it.
\<close>

type_synonym rule_graph = "(KeyID \<times> KeyID list) list"

section \<open>Building the graph\<close>

definition graph_at :: "rule_graph \<Rightarrow> KeyID \<Rightarrow> KeyID list" where
  "graph_at g k = (case map_of g k of None \<Rightarrow> [] | Some xs \<Rightarrow> xs)"

definition graph_push :: "KeyID \<Rightarrow> KeyID \<Rightarrow> rule_graph \<Rightarrow> rule_graph" where
  "graph_push k succ g = AList.update k (graph_at g k @ [succ]) g"

definition graph_insert :: "KeyID \<Rightarrow> KeyID list \<Rightarrow> rule_graph \<Rightarrow> rule_graph" where
  "graph_insert k xs g = (case map_of g k of None \<Rightarrow> AList.update k xs g | Some _ \<Rightarrow> g)"

text \<open>\<^verbatim>\<open>request.taskInfo->forRuleInfo\<close>\<close>

definition requesterRule :: "('c, 'd) engine \<Rightarrow> TaskInputRequest \<Rightarrow> KeyID option" where
  "requesterRule s request = do {
     t \<leftarrow> ir_task request;
     ti \<leftarrow> getTaskInfo s t;
     Some (ti_forRule ti)
   }"

definition taskSuccessors :: "('c, 'd) engine \<Rightarrow> rule_graph option" where
  "taskSuccessors s = foldM_option (\<lambda>(t, ti) g. do {
       requesters \<leftarrow> mapM_option (requesterRule s) (ti_requestedBy ti);
       Some (graph_insert (ti_forRule ti) (requesters @ map sr_rule (ti_deferredScanRequests ti)) g)
     }) (taskInfos s) []"

definition activeScanRecords :: "('c, 'd) engine \<Rightarrow> KeyID list" where
  "activeScanRecords s = map fst (filter (\<lambda>(k, ri). isScanning ri) (ruleInfos s))"

definition pausedSuccessors ::
  "('c, 'd) engine \<Rightarrow> TaskInputRequest list \<Rightarrow> rule_graph \<Rightarrow> rule_graph option" where
  "pausedSuccessors s paused g = foldM_option (\<lambda>request g.
       (case ir_task request of
          None \<Rightarrow> Some g
        | Some _ \<Rightarrow> do { requester \<leftarrow> requesterRule s request;
                        Some (graph_push (ir_inputRule request) requester g) })) paused g"

definition deferredSuccessors ::
  "('c, 'd) engine \<Rightarrow> RuleScanRequest list \<Rightarrow> KeyID list \<times> rule_graph
     \<Rightarrow> (KeyID list \<times> rule_graph) option" where
  "deferredSuccessors s deferred ag = foldM_option (\<lambda>request (active, g). do {
       input \<leftarrow> sr_inputRule request;
       ri \<leftarrow> getRule s (sr_rule request);
       assert_that (isScanning ri \<or> ri_wasForced ri);
       Some (if isScanning ri then active @ [sr_rule request] else active,
             graph_push input (sr_rule request) g)
     }) deferred ag"

partial_function (option) scanRecordSuccessors ::
  "('c, 'd) engine \<Rightarrow> KeyID list \<Rightarrow> KeyID list \<Rightarrow> rule_graph \<Rightarrow> rule_graph option" where
  "scanRecordSuccessors s active visited g =
     (if active = [] then Some g
      else if last active \<in> set visited then scanRecordSuccessors s (butlast active) visited g
      else do {
        ri \<leftarrow> getRule s (last active);
        rec \<leftarrow> getPendingScanRecord ri;
        g \<leftarrow> pausedSuccessors s (pausedInputRequests rec) g;
        (active', g) \<leftarrow> deferredSuccessors s (deferredScanRequests rec) (butlast active, g);
        scanRecordSuccessors s active' (last active # visited) g
      })"

declare scanRecordSuccessors.simps [code]

definition invertGraph :: "rule_graph \<Rightarrow> rule_graph" where
  "invertGraph g = fold (\<lambda>(node, succs). fold (\<lambda>succ p. graph_push succ node p) succs) g []"

definition ruleKeyOf :: "('c, 'd) engine \<Rightarrow> KeyID \<Rightarrow> KeyType" where
  "ruleKeyOf s k = (case getRule s k of None \<Rightarrow> [] | Some ri \<Rightarrow> rule_key (ri_rule ri))"

definition predecessorGraph :: "('c, 'd) engine \<Rightarrow> rule_graph \<Rightarrow> rule_graph" where
  "predecessorGraph s g = map (\<lambda>(k, ps). (k, sort_key (ruleKeyOf s) ps)) (invertGraph g)"

section \<open>Searching the graph\<close>

text \<open>
  The search from the entry node. \<open>stack\<close> has the top item first; an item is a node and the
  index of the next predecessor to visit; \<open>cycleItems\<close> holds the nodes of \<open>cycleList\<close>.
\<close>

definition visitNode ::
  "rule_graph \<Rightarrow> (KeyID \<times> nat) list \<Rightarrow> KeyID list \<Rightarrow> KeyID set
     \<Rightarrow> KeyID list + (KeyID \<times> nat) list \<times> KeyID list \<times> KeyID set" where
  "visitNode pg stack cycleList cycleItems =
     (case stack of
        [] \<Rightarrow> Inl cycleList
      | (node, i) # rest \<Rightarrow>
          (let predecessors = graph_at pg node;
               found = (i = 0 \<and> node \<in> cycleItems);
               cycleList = (if i = 0 then cycleList @ [node] else cycleList);
               cycleItems = (if i = 0 then insert node cycleItems else cycleItems)
           in if found then Inl cycleList
              else if i < length predecessors
              then Inr ((predecessors ! i, 0) # (node, i + 1) # rest, cycleList, cycleItems)
              else Inr (rest, butlast cycleList, cycleItems - {node})))"

partial_function (option) searchCycle ::
  "rule_graph \<Rightarrow> (KeyID \<times> nat) list \<Rightarrow> KeyID list \<Rightarrow> KeyID set \<Rightarrow> KeyID list option" where
  "searchCycle pg stack cycleList cycleItems =
     (case visitNode pg stack cycleList cycleItems of
        Inl result \<Rightarrow> Some result
      | Inr (stack, cycleList, cycleItems) \<Rightarrow> searchCycle pg stack cycleList cycleItems)"

declare searchCycle.simps [code]

definition findCycle ::
  "('c, 'd) env \<Rightarrow> KeyType \<Rightarrow> ('c, 'd) engine \<Rightarrow> (KeyID list \<times> ('c, 'd) engine) option" where
  "findCycle env buildKey s = do {
     g \<leftarrow> taskSuccessors s;
     g \<leftarrow> scanRecordSuccessors s (activeScanRecords s) [] g;
     let pg = predecessorGraph s g;
     (case getRuleInfoForKey env buildKey s of
        (root, s) \<Rightarrow> do {
          cycleList \<leftarrow> searchCycle pg [(root, 0)] [] {};
          Some (cycleList, s)
        })
   }"

section \<open>Breaking the cycle\<close>

definition findRuleScanRequestForRule :: "RuleScanRequest list \<Rightarrow> KeyID \<Rightarrow> nat option" where
  "findRuleScanRequestForRule requests k =
     (case filter (\<lambda>i. sr_rule (requests ! i) = k) [0..<length requests] of
        [] \<Rightarrow> None | i # _ \<Rightarrow> Some i)"

primrec findTaskInputRequestForRule ::
  "('c, 'd) engine \<Rightarrow> TaskInputRequest list \<Rightarrow> KeyID \<Rightarrow> nat \<Rightarrow> nat option option" where
  "findTaskInputRequestForRule s [] k i = Some None"
| "findTaskInputRequestForRule s (request # requests) k i = do {
     requester \<leftarrow> requesterRule s request;
     if requester = k then Some (Some i)
     else findTaskInputRequestForRule s requests k (i + 1)
   }"

definition forceRule ::
  "KeyID \<Rightarrow> ('c, 'd) engine \<Rightarrow> ('c, 'd) engine option" where
  "forceRule k s = do {
     let s = (case findRuleScanRequestForRule (ruleInfosToScan s) k of
                None \<Rightarrow> s
              | Some i \<Rightarrow> s\<lparr>ruleInfosToScan := erase_at i (ruleInfosToScan s)\<rparr>);
     s \<leftarrow> finishScanRequest k NeedsToRun s;
     ri \<leftarrow> getRule s k;
     let s = emit (EvNeedsToRun (rule_key (ri_rule ri)) Forced None) s;
     Some (putRule k (ri\<lparr>ri_wasForced := True\<rparr>) s)
   }"

text \<open>
  The loop over the reversed cycle list. Reading the successor of the last item, which the
  code does for a rule that waits and has a prior result, is undefined: \<^term>\<open>None\<close>.
\<close>

primrec breakCycleLoop ::
  "('c, 'd) env \<Rightarrow> KeyID list \<Rightarrow> KeyID list \<Rightarrow> ('c, 'd) engine
     \<Rightarrow> (bool \<times> ('c, 'd) engine) option" where
  "breakCycleLoop env cycleList [] s = Some (False, s)"
| "breakCycleLoop env cycleList (item # rest) s =
     (case getRuleInfoForKey env (ruleKeyOf s item) s of
        (k, s) \<Rightarrow> do {
          ri \<leftarrow> getRule s k;
          if isScanning ri
          then (if \<not> shouldResolveCycle env (e_client s) (map (ruleKeyOf s) cycleList)
                      (rule_key (ri_rule ri)) ForceBuild
                then Some (False, s)
                else map_option (Pair True) (forceRule k s))
          else if isInProgressWaiting ri \<and> builtAt (ri_result ri) \<noteq> 0
          then do {
            pending \<leftarrow> getPendingTaskInfo ri;
            t \<leftarrow> pending;
            ti \<leftarrow> getTaskInfo s t;
            nextItem \<leftarrow> (case rest of [] \<Rightarrow> None | n # _ \<Rightarrow> Some n);
            (case getRuleInfoForKey env (ruleKeyOf s nextItem) s of
               (nextKey, s) \<Rightarrow> do {
                 found \<leftarrow> findTaskInputRequestForRule s (ti_requestedBy ti) nextKey 0;
                 (case found of
                    None \<Rightarrow> breakCycleLoop env cycleList rest s
                  | Some i \<Rightarrow>
                      if \<not> shouldResolveCycle env (e_client s) (map (ruleKeyOf s) cycleList)
                             (rule_key (ri_rule ri)) SupplyPriorValue
                      then Some (False, s)
                      else (let request = (ti_requestedBy ti ! i)\<lparr>ir_forcePriorValue := True\<rparr>;
                                s = s\<lparr>finishedInputRequests := finishedInputRequests s @ [request]\<rparr>
                            in Some (True, putTask t
                                 (ti\<lparr>ti_requestedBy := erase_at i (ti_requestedBy ti)\<rparr>) s)))
               })
          }
          else breakCycleLoop env cycleList rest s
        })"

definition breakCycle ::
  "('c, 'd) env \<Rightarrow> KeyID list \<Rightarrow> ('c, 'd) engine \<Rightarrow> (bool \<times> ('c, 'd) engine) option" where
  "breakCycle env cycleList s = breakCycleLoop env cycleList (rev cycleList) s"

definition resolveCycle ::
  "('c, 'd) env \<Rightarrow> KeyType \<Rightarrow> ('c, 'd) engine \<Rightarrow> (bool \<times> ('c, 'd) engine) option" where
  "resolveCycle env buildKey s = do {
     (cycleList, s) \<leftarrow> findCycle env buildKey s;
     assert_that (cycleList \<noteq> []);
     (broken, s) \<leftarrow> breakCycle env cycleList s;
     if broken then Some (True, s)
     else Some (False, emit (EvCycle (map (ruleKeyOf s) cycleList)) s)
   }"

end
