(* ===== verification/BuildEngineLoop.thy ===== *)
theory BuildEngineLoop
  imports BuildEngineCycle
begin

text \<open>
  The work loop \<^verbatim>\<open>executeTasks\<close>, \<^verbatim>\<open>cancelRemainingTasks\<close> and \<^verbatim>\<open>build\<close> of
  \<^verbatim>\<open>lib/Core/BuildEngine.cpp\<close>.

  The loop is a machine: its control point is a \<open>phase\<close>, its local variable \<^verbatim>\<open>didWork\<close> a
  component of the loop state, and one step processes one queue item or moves to the next
  inner loop. A wait on the condition variable is the outcome \<open>Wait\<close>. Between two steps
  other threads may complete tasks, report discovered dependencies or cancel the build;
  \<open>build_step\<close> is the resulting step relation.
\<close>

section \<open>Cancelling what remains\<close>

definition cancelTask ::
  "TaskId \<times> TaskInfo \<Rightarrow> ('c, 'd) engine \<Rightarrow> ('c, 'd) engine option" where
  "cancelTask = (\<lambda>(t, ti) s. do {
     ri \<leftarrow> getRule s (ti_forRule ti);
     pending \<leftarrow> getPendingTaskInfo ri;
     assert_that (pending = Some t);
     ri \<leftarrow> setPendingTaskInfo None ri;
     Some (putRule (ti_forRule ti) (setCancelled ri) s)
   })"

definition cancelScan :: "RuleInfo \<Rightarrow> RuleInfo" where
  "cancelScan ri = (if isScanning ri then setCancelled (setPendingScanRecord None ri) else ri)"

text \<open>The part of \<^verbatim>\<open>cancelRemainingTasks\<close> after the outstanding tasks have been drained.\<close>

definition cancelDrained :: "('c, 'd) engine \<Rightarrow> ('c, 'd) engine option" where
  "cancelDrained s = do {
     s \<leftarrow> foldM_option cancelTask (taskInfos s) s;
     Some (s\<lparr>ruleInfos := map (\<lambda>(k, ri). (k, cancelScan ri)) (ruleInfos s),
            ruleInfosToScan := [], inputRequests := [], finishedInputRequests := [],
            readyTaskInfos := [], finishedTaskInfos := [], taskInfos := []\<rparr>)
   }"

section \<open>One item of each queue\<close>

definition processInputRequest ::
  "('c, 'd) env \<Rightarrow> TaskInputRequest \<Rightarrow> ('c, 'd) engine \<Rightarrow> ('c, 'd) engine option" where
  "processInputRequest env request s = do {
     (scanned, s) \<leftarrow> scanRule env (ir_inputRule request) s;
     if \<not> scanned
     then do {
       inputInfo \<leftarrow> getRule s (ir_inputRule request);
       rec \<leftarrow> getPendingScanRecord inputInfo;
       Some (putRule (ir_inputRule request) (setPendingScanRecord
         (Some (rec\<lparr>pausedInputRequests := pausedInputRequests rec @ [request]\<rparr>)) inputInfo) s)
     }
     else do {
       (available, s) \<leftarrow> demandRule env (ir_inputRule request) s;
       (case ir_task request of
          None \<Rightarrow> Some s
        | Some t \<Rightarrow> do {
            ti \<leftarrow> getTaskInfo s t;
            ri \<leftarrow> getRule s (ti_forRule ti);
            let s = putRule (ti_forRule ti) (ri\<lparr>ri_result := (ri_result ri)
                      \<lparr>dependencies := push_back_deps (ir_inputRule request) (ir_orderOnly request)
                        (ir_singleUse request) (dependencies (ri_result ri))\<rparr>\<rparr>) s;
            if available
            then Some (s\<lparr>finishedInputRequests := finishedInputRequests s @ [request]\<rparr>)
            else do {
              inputInfo \<leftarrow> getRule s (ir_inputRule request);
              pending \<leftarrow> getPendingTaskInfo inputInfo;
              inputTask \<leftarrow> pending;
              inputTi \<leftarrow> getTaskInfo s inputTask;
              Some (putTask inputTask
                (inputTi\<lparr>ti_requestedBy := ti_requestedBy inputTi @ [request]\<rparr>) s)
            }
          })
     }
   }"

definition processFinishedInput ::
  "('c, 'd) env \<Rightarrow> TaskInputRequest \<Rightarrow> ('c, 'd) engine \<Rightarrow> ('c, 'd) engine option" where
  "processFinishedInput env request s = do {
     t \<leftarrow> ir_task request;
     _ \<leftarrow> getTaskInfo s t;
     inputInfo \<leftarrow> getRule s (ir_inputRule request);
     assert_that (isComplete (currentEpoch s) inputInfo \<or> ir_forcePriorValue request
                  \<or> ir_orderOnly request);
     s \<leftarrow> (if ir_orderOnly request
           then do { assert_that (ir_inputID request = kMustFollowInputID); Some s }
           else (let key = rule_key (ri_rule inputInfo);
                     val = res_value (ri_result inputInfo);
                     s = emit (EvProvideValue t (ir_inputID request) key val) s
                 in runProg env t
                      (task_provideValue env (e_client s) t (ir_inputID request) key val) s));
     decrementTaskWaitCount t s
   }"

definition processReadyTask ::
  "('c, 'd) env \<Rightarrow> TaskId \<Rightarrow> ('c, 'd) engine \<Rightarrow> ('c, 'd) engine option" where
  "processReadyTask env t s = do {
     ti \<leftarrow> getTaskInfo s t;
     ri \<leftarrow> getRule s (ti_forRule ti);
     pending \<leftarrow> getPendingTaskInfo ri;
     assert_that (pending = Some t);
     ri \<leftarrow> setComputing (clock_now env (e_client s)) ri;
     let s = emit (EvInputsAvailable t) (putRule (ti_forRule ti) ri s);
     s \<leftarrow> runProg env t (task_inputsAvailable env (e_client s) t) s;
     Some (s\<lparr>numOutstandingUnfinishedTasks := numOutstandingUnfinishedTasks s + 1\<rparr>)
   }"

definition dummyRequest :: "KeyID dep_entry \<Rightarrow> TaskInputRequest" where
  "dummyRequest = (\<lambda>(k, orderOnly, singleUse). \<lparr>ir_task = None, ir_inputID = 0, ir_inputRule = k,
     ir_orderOnly = orderOnly, ir_forcePriorValue = False, ir_singleUse = singleUse\<rparr>)"

text \<open>
  A finished task, up to the database write: the rule becomes complete, the discovered
  dependencies are recorded and requested.
\<close>

definition completeRule ::
  "('c, 'd) env \<Rightarrow> TaskId \<Rightarrow> ('c, 'd) engine \<Rightarrow> (TaskInfo \<times> RuleInfo \<times> ('c, 'd) engine) option" where
  "completeRule env t s = do {
     ti \<leftarrow> getTaskInfo s t;
     ri \<leftarrow> getRule s (ti_forRule ti);
     pending \<leftarrow> getPendingTaskInfo ri;
     assert_that (pending = Some t);
     assert_that (ri_state ri = InProgressComputing);
     ri \<leftarrow> setPendingTaskInfo None ri;
     let ri = setComplete (currentEpoch s) (clock_now env (e_client s)) ri;
     let ri = ri\<lparr>ri_result := (ri_result ri)
                \<lparr>dependencies := append_deps (ti_discovered ti) (dependencies (ri_result ri))\<rparr>\<rparr>;
     let s = emit (EvStatus (rule_key (ri_rule ri)) StatusIsComplete) (putRule (ti_forRule ti) ri s);
     let s = fold (\<lambda>dep s. let s = getRuleInfoForKeyID env (fst dep) s
                           in s\<lparr>inputRequests := inputRequests s @ [dummyRequest dep]\<rparr>)
               (deps_entries (ti_discovered ti)) s;
     Some (ti, ri, s)
   }"

definition retireTask ::
  "TaskId \<Rightarrow> TaskInfo \<Rightarrow> ('c, 'd) engine \<Rightarrow> ('c, 'd) engine option" where
  "retireTask t ti s = do {
     assert_that (numOutstandingUnfinishedTasks s \<noteq> 0);
     Some (s\<lparr>ruleInfosToScan := ruleInfosToScan s @ ti_deferredScanRequests ti,
            finishedInputRequests := finishedInputRequests s @ ti_requestedBy ti,
            numOutstandingUnfinishedTasks := numOutstandingUnfinishedTasks s - 1,
            taskInfos := AList.delete t (taskInfos s)\<rparr>)
   }"

text \<open>\<open>Inl\<close>: the database write failed and the build is to be cancelled; \<open>Inr\<close>: go on.\<close>

definition processFinishedTask ::
  "('c, 'd) env \<Rightarrow> TaskId \<Rightarrow> ('c, 'd) engine \<Rightarrow> (('c, 'd) engine + ('c, 'd) engine) option" where
  "processFinishedTask env t s = do {
     (ti, ri, s) \<leftarrow> completeRule env t s;
     (case e_db s of
        None \<Rightarrow> map_option Inr (retireTask t ti s)
      | Some db \<Rightarrow>
          (case db_setRuleResult env db (ri_keyID ri) (ri_rule ri) (ri_result ri) of
             (db, None) \<Rightarrow> map_option Inr (retireTask t ti (s\<lparr>e_db := Some db\<rparr>))
           | (db, Some error) \<Rightarrow> do {
               assert_that (numOutstandingUnfinishedTasks s \<noteq> 0);
               let s = emit (EvError error) (s\<lparr>e_db := Some db\<rparr>);
               Some (Inl (s\<lparr>numOutstandingUnfinishedTasks := numOutstandingUnfinishedTasks s - 1\<rparr>))
             }))
   }"

section \<open>The work loop\<close>

datatype phase =
    RoundStart | ScanPhase | InputPhase | FinishedInputPhase | ReadyPhase
  | FinishedTaskPhase | RoundEnd | Draining | Exited bool

type_synonym ('c, 'd) loop_state = "phase \<times> bool \<times> ('c, 'd) engine"

datatype ('c, 'd) outcome = Fault | Wait | Next "('c, 'd) loop_state"

primrec next_of :: "('c, 'd) loop_state option \<Rightarrow> ('c, 'd) outcome" where
  "next_of None = Fault"
| "next_of (Some st) = Next st"

definition internal_error :: string where
  "internal_error = ''internal error: build engine has no running tasks or pending work, but was not able to compute the requested key, this may indicate a cycle in the build which could not be diagnosed. Please file a bug report.''"

definition roundEnd ::
  "('c, 'd) env \<Rightarrow> KeyType \<Rightarrow> bool \<Rightarrow> ('c, 'd) engine \<Rightarrow> ('c, 'd) outcome" where
  "roundEnd env buildKey didWork s =
     (if \<not> didWork \<and> numOutstandingUnfinishedTasks s \<noteq> 0
      then (if finishedTaskInfos s = [] then Wait else Next (RoundStart, False, s))
      else if didWork then Next (RoundStart, False, s)
      else if taskInfos s \<noteq> []
      then next_of (do { (resolved, s) \<leftarrow> resolveCycle env buildKey s;
                         Some (if resolved then RoundStart else Draining, False, s) })
      else (case getRuleInfoForKey env buildKey s of
              (k, s) \<Rightarrow>
                (case getRule s k of
                   None \<Rightarrow> Fault
                 | Some ri \<Rightarrow>
                     if \<not> isComplete (currentEpoch s) ri
                     then Next (Draining, False, emit (EvError internal_error) s)
                     else Next (Exited True, False, s))))"

definition drainStep :: "('c, 'd) engine \<Rightarrow> ('c, 'd) outcome" where
  "drainStep s =
     (if numOutstandingUnfinishedTasks s \<noteq> 0
      then (if finishedTaskInfos s = [] then Wait
            else next_of (do {
                   assert_that (length (finishedTaskInfos s) \<le> numOutstandingUnfinishedTasks s);
                   Some (Draining, False,
                     s\<lparr>numOutstandingUnfinishedTasks :=
                          numOutstandingUnfinishedTasks s - length (finishedTaskInfos s),
                       finishedTaskInfos := []\<rparr>) }))
      else next_of (do { s \<leftarrow> cancelDrained s; Some (Exited False, False, s) }))"

fun executeStep ::
  "('c, 'd) env \<Rightarrow> KeyType \<Rightarrow> ('c, 'd) loop_state \<Rightarrow> ('c, 'd) outcome" where
  "executeStep env buildKey (RoundStart, didWork, s) =
     Next (if buildCancelled s then Draining else ScanPhase, False, s)"
| "executeStep env buildKey (ScanPhase, didWork, s) =
     (if ruleInfosToScan s = [] then Next (InputPhase, didWork, s)
      else next_of (do {
             s' \<leftarrow> processRuleScanRequest env (last (ruleInfosToScan s))
                    (s\<lparr>ruleInfosToScan := butlast (ruleInfosToScan s)\<rparr>);
             Some (ScanPhase, True, s') }))"
| "executeStep env buildKey (InputPhase, didWork, s) =
     (case inputRequests s of
        [] \<Rightarrow> Next (FinishedInputPhase, didWork, s)
      | request # requests \<Rightarrow> next_of (do {
          s' \<leftarrow> processInputRequest env request (s\<lparr>inputRequests := requests\<rparr>);
          Some (InputPhase, True, s') }))"
| "executeStep env buildKey (FinishedInputPhase, didWork, s) =
     (if finishedInputRequests s = [] then Next (ReadyPhase, didWork, s)
      else next_of (do {
             s' \<leftarrow> processFinishedInput env (last (finishedInputRequests s))
                    (s\<lparr>finishedInputRequests := butlast (finishedInputRequests s)\<rparr>);
             Some (FinishedInputPhase, True, s') }))"
| "executeStep env buildKey (ReadyPhase, didWork, s) =
     (case readyTaskInfos s of
        [] \<Rightarrow> Next (FinishedTaskPhase, didWork, s)
      | t # ts \<Rightarrow> next_of (do {
          s' \<leftarrow> processReadyTask env t (s\<lparr>readyTaskInfos := ts\<rparr>);
          Some (ReadyPhase, True, s') }))"
| "executeStep env buildKey (FinishedTaskPhase, didWork, s) =
     (if finishedTaskInfos s = [] then Next (RoundEnd, didWork, s)
      else next_of (do {
             r \<leftarrow> processFinishedTask env (last (finishedTaskInfos s))
                   (s\<lparr>finishedTaskInfos := butlast (finishedTaskInfos s)\<rparr>);
             Some (case r of Inl s' \<Rightarrow> (Draining, True, s') | Inr s' \<Rightarrow> (FinishedTaskPhase, True, s')) }))"
| "executeStep env buildKey (RoundEnd, didWork, s) = roundEnd env buildKey didWork s"
| "executeStep env buildKey (Draining, didWork, s) = drainStep s"
| "executeStep env buildKey (Exited b, didWork, s) = Wait"

text \<open>Entry of \<^verbatim>\<open>executeTasks\<close>: the dummy request for the key to build.\<close>

definition executeStart ::
  "('c, 'd) env \<Rightarrow> KeyType \<Rightarrow> ('c, 'd) engine \<Rightarrow> ('c, 'd) loop_state" where
  "executeStart env buildKey s =
     (let s = s\<lparr>finishedInputRequests := []\<rparr>
      in (case getRuleInfoForKey env buildKey s of
            (k, s) \<Rightarrow> (RoundStart, False,
              s\<lparr>inputRequests := inputRequests s @ [dummyRequest (k, False, False)]\<rparr>)))"

section \<open>Other threads\<close>

text \<open>
  What a thread of the client may do between two steps of the engine thread: report the
  completion of a running task, report a discovered dependency, cancel the build, or change
  the client's own state. A task completes at most once.
\<close>

datatype 'c thread_action =
    ThreadComplete TaskId ValueType bool
  | ThreadDiscovered TaskId KeyType
  | ThreadCancel
  | ThreadClient 'c

fun threadStep :: "'c thread_action \<Rightarrow> ('c, 'd) engine \<Rightarrow> ('c, 'd) engine option" where
  "threadStep (ThreadComplete t val forceChange) s = taskIsComplete t val forceChange s"
| "threadStep (ThreadDiscovered t key) s = taskDiscoveredDependency t key s"
| "threadStep ThreadCancel s = Some (cancelBuild s)"
| "threadStep (ThreadClient c) s = Some (s\<lparr>e_client := c\<rparr>)"

text \<open>
  The client's side of the contract: only a live task calls the engine, and it completes
  once. The set \<open>done\<close> holds the tasks that have been on the queue of finished tasks; it is
  not part of the engine's state.
\<close>

fun thread_ok :: "TaskId set \<Rightarrow> 'c thread_action \<Rightarrow> ('c, 'd) engine \<Rightarrow> bool" where
  "thread_ok done (ThreadComplete t val forceChange) s \<longleftrightarrow> getTaskInfo s t \<noteq> None \<and> t \<notin> done"
| "thread_ok done (ThreadDiscovered t key) s \<longleftrightarrow> getTaskInfo s t \<noteq> None"
| "thread_ok done ThreadCancel s \<longleftrightarrow> True"
| "thread_ok done (ThreadClient c) s \<longleftrightarrow> True"

inductive build_step ::
  "('c, 'd) env \<Rightarrow> KeyType \<Rightarrow> TaskId set \<times> ('c, 'd) loop_state \<Rightarrow> TaskId set \<times> ('c, 'd) loop_state \<Rightarrow> bool"
  for env buildKey where
  engine_thread: "executeStep env buildKey st = Next (ph', didWork', s') \<Longrightarrow>
     build_step env buildKey (done, st) (done \<union> set (finishedTaskInfos s'), ph', didWork', s')"
| spurious_wakeup: "numOutstandingUnfinishedTasks s \<noteq> 0 \<Longrightarrow>
     build_step env buildKey (done, RoundEnd, False, s) (done, RoundStart, False, s)"
| client_thread: "thread_ok done a s \<Longrightarrow> threadStep a s = Some s' \<Longrightarrow>
     build_step env buildKey (done, ph, didWork, s)
       (done \<union> set (finishedTaskInfos s'), ph, didWork, s')"

text \<open>
  An executable run: the engine thread takes up to \<open>fuel\<close> steps; whenever it waits, the next
  action of \<open>threads\<close> happens. The result is the loop state reached, and \<^term>\<open>None\<close> after a
  fault.
\<close>

fun runLoop ::
  "nat \<Rightarrow> ('c, 'd) env \<Rightarrow> KeyType \<Rightarrow> 'c thread_action list \<Rightarrow> ('c, 'd) loop_state
     \<Rightarrow> ('c, 'd) loop_state option" where
  "runLoop 0 env buildKey threads st = Some st"
| "runLoop (Suc fuel) env buildKey threads st =
     (case executeStep env buildKey st of
        Fault \<Rightarrow> None
      | Next st' \<Rightarrow> runLoop fuel env buildKey threads st'
      | Wait \<Rightarrow>
          (case threads of
             [] \<Rightarrow> Some st
           | a # threads' \<Rightarrow>
               (case st of (ph, didWork, s) \<Rightarrow>
                  (case threadStep a s of
                     None \<Rightarrow> None
                   | Some s' \<Rightarrow> runLoop fuel env buildKey threads' (ph, didWork, s')))))"

section \<open>build()\<close>

text \<open>
  \<^verbatim>\<open>build\<close> up to the call of \<^verbatim>\<open>executeTasks\<close>: either an early return with the empty value
  (\<open>Inl\<close>), or the state in which the loop starts (\<open>Inr\<close>). The deferred blocks of the
  function run on every return.
\<close>

definition deferBuildComplete ::
  "('c, 'd) env \<Rightarrow> ('c, 'd) engine \<Rightarrow> ('c, 'd) engine" where
  "deferBuildComplete env s =
     s\<lparr>e_db := map_option (db_buildComplete env) (e_db s), buildRunning := False\<rparr>"

definition buildStart ::
  "('c, 'd) env \<Rightarrow> KeyType \<Rightarrow> ('c, 'd) engine \<Rightarrow> ('c, 'd) engine + ('c, 'd) engine" where
  "buildStart env key s =
     (if buildRunning s then Inl (emit (EvError ''build engine busy'') s)
      else (let s = s\<lparr>buildRunning := True\<rparr> in
        (case (case e_db s of
                 None \<Rightarrow> Inr s
               | Some db \<Rightarrow>
                   (case db_buildStarted env db of
                      (db, None) \<Rightarrow> Inr (s\<lparr>e_db := Some db\<rparr>)
                    | (db, Some error) \<Rightarrow>
                        Inl ((emit (EvError error) (s\<lparr>e_db := Some db\<rparr>))\<lparr>buildRunning := False\<rparr>))) of
           Inl s \<Rightarrow> Inl s
         | Inr s \<Rightarrow>
             if buildCancelled s then Inl (deferBuildComplete env s)
             else Inr (s\<lparr>hasExecutionQueue := True, currentEpoch := currentEpoch s + 1\<rparr>))))"

text \<open>\<^verbatim>\<open>build\<close> after \<^verbatim>\<open>executeTasks\<close> returned \<open>success\<close>: the value and the final state.\<close>

definition buildFinish ::
  "('c, 'd) env \<Rightarrow> KeyType \<Rightarrow> bool \<Rightarrow> ('c, 'd) engine \<Rightarrow> (ValueType \<times> ('c, 'd) engine) option" where
  "buildFinish env key success s =
     (let iteration = (case e_db s of
            None \<Rightarrow> Inr s
          | Some db \<Rightarrow>
              (case db_setCurrentIteration env db (currentEpoch s) of
                 (db, None) \<Rightarrow> Inr (s\<lparr>e_db := Some db\<rparr>)
               | (db, Some error) \<Rightarrow> Inl (emit (EvError error) (s\<lparr>e_db := Some db\<rparr>))));
          cleanup = (\<lambda>s. deferBuildComplete env (s\<lparr>hasExecutionQueue := False\<rparr>))
      in (case iteration of
            Inl s \<Rightarrow> Some ([], cleanup s)
          | Inr s \<Rightarrow>
              if \<not> success then Some ([], cleanup s)
              else (case getRuleInfoForKey env key s of
                      (k, s) \<Rightarrow> do {
                        ri \<leftarrow> getRule s k;
                        assert_that (taskInfos s = [] \<and> isComplete (currentEpoch s) ri);
                        Some (res_value (ri_result ri), cleanup s)
                      })))"

text \<open>\<^verbatim>\<open>build\<close> with a bound on the steps; a build that has not returned within it is \<^term>\<open>None\<close>.\<close>

definition build ::
  "nat \<Rightarrow> ('c, 'd) env \<Rightarrow> KeyType \<Rightarrow> 'c thread_action list \<Rightarrow> ('c, 'd) engine
     \<Rightarrow> (ValueType \<times> ('c, 'd) engine) option" where
  "build fuel env key threads s =
     (case buildStart env key s of
        Inl s \<Rightarrow> Some ([], s)
      | Inr s \<Rightarrow> do {
          st \<leftarrow> runLoop fuel env key threads (executeStart env key s);
          (case st of
             (Exited success, _, s) \<Rightarrow> buildFinish env key success s
           | _ \<Rightarrow> None)
        })"

end
