(* ===== verification/BuildSystemClient.thy ===== *)
theory BuildSystemClient
  imports BuildSystemTasks BuildEngineLoop
begin

text \<open>
  The callbacks of the task classes and the rules of the native build system
  (\<^verbatim>\<open>lib/BuildSystem/BuildSystem.cpp\<close>), put together as a client of the build engine.
\<close>

section \<open>start\<close>

text \<open>The request for the signature of the directory, also made once the blocking paths are done.\<close>

definition performUnblockedRequest :: "BuildNode \<Rightarrow> 'fs task_prog \<Rightarrow> 'fs task_prog" where
  "performUnblockedRequest node p =
     Request (chars (makeDirectoryTreeSignature (bytes (dropTrailingSlash (node_name node)))
                (node_exclusionPatterns node))) 0 p"

definition getProducer :: "'fs system_params \<Rightarrow> BuildNode \<Rightarrow> string option" where
  "getProducer sp node =
     (case node_producers node of [cmd] \<Rightarrow> Some cmd
      | _ \<Rightarrow> sp_chooseProducer sp (node_name node) (node_producers node))"

definition requestContents :: "string \<Rightarrow> StringList \<Rightarrow> 'fs task_prog \<Rightarrow> 'fs task_prog" where
  "requestContents path filters p =
     Request (chars (if StringList_isEmpty filters then makeDirectoryContents (bytes path)
                     else makeFilteredDirectoryContents (bytes path) filters)) 0 p"

definition TargetTask_start :: "Target \<Rightarrow> 'fs BuildSystem \<Rightarrow> 'fs task_prog" where
  "TargetTask_start target c =
     requestKeys (numbered 0 (tg_nodes target)) (Return c)"

definition FileInputNodeTask_start :: "BuildNode \<Rightarrow> 'fs BuildSystem \<Rightarrow> 'fs task_prog" where
  "FileInputNodeTask_start node c =
     (if node_producers node = [] then Return c else abort c)"

definition StatTask_start :: "string \<Rightarrow> 'fs BuildSystem \<Rightarrow> 'fs task_prog" where
  "StatTask_start name c =
     MustFollow (chars (makeNode (bytes name))) (Return c)"

definition DirectoryInputNodeTask_start ::
  "TaskId \<Rightarrow> BuildNode \<Rightarrow> ValueType \<Rightarrow> nat
     \<Rightarrow> nat \<Rightarrow> 'fs BuildSystem \<Rightarrow> 'fs task_prog" where
  "DirectoryInputNodeTask_start t node sig totalDeps finishedDeps c =
     (case mapM_option id (node_mustScanAfterPaths node) of
        None \<Rightarrow> abort c
      | Some paths \<Rightarrow>
          (let c' = setTask t (DirectoryInputNodeTask node sig (totalDeps + length paths) finishedDeps) c
           in requestKeys (numbered (totalDeps + 1) paths)
                (if totalDeps + length paths = 0 then performUnblockedRequest node (Return c') else Return c')))"

definition DirectoryStructureInputNodeTask_start ::
  "BuildNode \<Rightarrow> 'fs BuildSystem \<Rightarrow> 'fs task_prog" where
  "DirectoryStructureInputNodeTask_start node c =
     Request (chars (makeDirectoryTreeStructureSignature (bytes (dropTrailingSlash (node_name node)))
                (node_exclusionPatterns node))) 0 (Return c)"

definition ProducedNodeTask_start ::
  "'fs system_params \<Rightarrow> TaskId \<Rightarrow> BuildNode \<Rightarrow> BuildValue
     \<Rightarrow> string option \<Rightarrow> bool \<Rightarrow> 'fs BuildSystem \<Rightarrow> 'fs task_prog" where
  "ProducedNodeTask_start sp t node result producer invalid c =
     (case getProducer sp node of
        Some cmd \<Rightarrow> Request (chars (makeCommand (bytes cmd))) 0
          (Return (setTask t (ProducedNodeTask node result (Some cmd) invalid) c))
      | None \<Rightarrow> Return (notify [CannotBuildNode (node_name node) (node_producers node)]
          (setTask t (ProducedNodeTask node result producer True) c)))"

definition ProducedDirectoryNodeTask_start ::
  "'fs system_params \<Rightarrow> TaskId \<Rightarrow> BuildNode \<Rightarrow> BuildValue
     \<Rightarrow> ValueType \<Rightarrow> string option \<Rightarrow> bool \<Rightarrow> bool \<Rightarrow> 'fs BuildSystem \<Rightarrow> 'fs task_prog" where
  "ProducedDirectoryNodeTask_start sp t node result sig producer invalid returnSig c =
     (case getProducer sp node of
        Some cmd \<Rightarrow> Request (chars (makeCommand (bytes cmd))) 0
          (Return (setTask t (ProducedDirectoryNodeTask node result sig (Some cmd) invalid returnSig) c))
      | None \<Rightarrow> Return (notify [CannotBuildNode (node_name node) (node_producers node)]
          (setTask t (ProducedDirectoryNodeTask node result sig producer True returnSig) c)))"

definition DirectoryContentsTask_start :: "string \<Rightarrow> 'fs BuildSystem \<Rightarrow> 'fs task_prog" where
  "DirectoryContentsTask_start path c =
     Request (chars (makeNode (bytes path))) 0 (Return c)"

definition FilteredDirectoryContentsTask_start ::
  "string \<Rightarrow> 'fs BuildSystem \<Rightarrow> 'fs task_prog" where
  "FilteredDirectoryContentsTask_start path c =
     Request (chars (makeNode (bytes path))) 0 (Request (chars (makeStat (bytes path))) 1 (Return c))"

definition DirectoryTreeSignatureTask_start ::
  "string \<Rightarrow> StringList \<Rightarrow> 'fs BuildSystem \<Rightarrow> 'fs task_prog" where
  "DirectoryTreeSignatureTask_start path filters c =
     requestContents path filters (Return c)"

definition DirectoryTreeStructureSignatureTask_start ::
  "string \<Rightarrow> StringList \<Rightarrow> 'fs BuildSystem \<Rightarrow> 'fs task_prog" where
  "DirectoryTreeStructureSignatureTask_start path filters c =
     requestContents path filters (Return c)"

definition CommandTask_start ::
  "'fs system_params \<Rightarrow> byte list \<Rightarrow> 'fs BuildSystem
     \<Rightarrow> 'fs task_prog" where
  "CommandTask_start sp key c =
     (case findCommand sp c key of
        None \<Rightarrow> abort c
      | Some cmd \<Rightarrow>
          (case command_start sp cmd of
             (cmd', reqs, follows) \<Rightarrow> requestKeys reqs (followKeys follows
               (Return (notify [CommandPreparing (command_name cmd)] (putCommand key cmd' c))))))"

fun bsStart :: "'fs system_params \<Rightarrow> TaskId \<Rightarrow> BsTask \<Rightarrow> 'fs BuildSystem \<Rightarrow> 'fs task_prog" where
  "bsStart sp t (TargetTask target missing) c = TargetTask_start target c"
| "bsStart sp t (FileInputNodeTask node) c = FileInputNodeTask_start node c"
| "bsStart sp t (StatTask name) c = StatTask_start name c"
| "bsStart sp t (DirectoryInputNodeTask node sig totalDeps finishedDeps) c = DirectoryInputNodeTask_start t node sig totalDeps finishedDeps c"
| "bsStart sp t (DirectoryStructureInputNodeTask node sig) c = DirectoryStructureInputNodeTask_start node c"
| "bsStart sp t VirtualInputNodeTask c = Return c"
| "bsStart sp t (ProducedNodeTask node result producer invalid) c = ProducedNodeTask_start sp t node result producer invalid c"
| "bsStart sp t (ProducedDirectoryNodeTask node result sig producer invalid returnSig) c = ProducedDirectoryNodeTask_start sp t node result sig producer invalid returnSig c"
| "bsStart sp t (DirectoryContentsTask path v) c = DirectoryContentsTask_start path c"
| "bsStart sp t (FilteredDirectoryContentsTask path filters v) c = FilteredDirectoryContentsTask_start path c"
| "bsStart sp t (DirectoryTreeSignatureTask path filters v children) c = DirectoryTreeSignatureTask_start path filters c"
| "bsStart sp t (DirectoryTreeStructureSignatureTask path filters v children) c = DirectoryTreeStructureSignatureTask_start path filters c"
| "bsStart sp t (CommandTask key) c = CommandTask_start sp key c"
| "bsStart sp t MissingCommandTask c = Return c"

section \<open>providePriorValue\<close>

fun bsProvidePriorValue ::
  "'fs system_params \<Rightarrow> TaskId \<Rightarrow> BsTask \<Rightarrow> ValueType \<Rightarrow> 'fs BuildSystem \<Rightarrow> 'fs task_prog" where
  "bsProvidePriorValue sp t (CommandTask key) vdata c =
     (case do { v \<leftarrow> fromData vdata; cmd \<leftarrow> findCommand sp c key; command_providePriorValue v cmd } of
        None \<Rightarrow> abort c
      | Some cmd \<Rightarrow> Return (putCommand key cmd c))"
| "bsProvidePriorValue sp t task vdata c = Return c"

section \<open>provideValue\<close>

text \<open>The value of the producing command as the value of the node.\<close>

definition nodeResultFor ::
  "'fs system_params \<Rightarrow> 'fs BuildSystem \<Rightarrow> string option \<Rightarrow> BuildNode \<Rightarrow> ValueType \<Rightarrow> BuildValue option" where
  "nodeResultFor sp c producer node vdata = do {
     v \<leftarrow> fromData vdata;
     name \<leftarrow> producer;
     cmd \<leftarrow> findCommand sp c (makeCommand (bytes name));
     command_resultForOutput cmd node v
   }"

definition getDirectoryContents_value :: "BuildValue \<Rightarrow> string list option" where
  "getDirectoryContents_value v = do {
     assert_that (bv_kind v = Kind_DirectoryContents \<or> bv_kind v = Kind_FilteredDirectoryContents);
     names \<leftarrow> getStringListValues v;
     Some (map chars names)
   }"

definition childPath :: "'fs system_params \<Rightarrow> string \<Rightarrow> string \<Rightarrow> string" where
  "childPath sp path filename = sp_path_append sp path filename"

definition newSubpaths :: "string list \<Rightarrow> SubpathInfo list" where
  "newSubpaths names = map (\<lambda>name. \<lparr>sub_filename = name, sub_value = [], sub_signature = None\<rparr>) names"

definition requestChildren ::
  "'fs system_params \<Rightarrow> string \<Rightarrow> string list \<Rightarrow> 'fs task_prog \<Rightarrow> 'fs task_prog" where
  "requestChildren sp path names p = requestKeys (numbered 1 (map (childPath sp path) names)) p"

text \<open>
  A value for the child numbered \<open>i\<close>, or the signature of a child directory. \<open>mk\<close> makes the task
  from its children, \<open>mkKey\<close> the key of the signature of a child directory. The index of a
  signature is checked by an assertion.
\<close>

definition provideChild ::
  "'fs system_params \<Rightarrow> TaskId \<Rightarrow> (SubpathInfo list \<Rightarrow> BsTask) \<Rightarrow> (byte list \<Rightarrow> byte list) \<Rightarrow> string
     \<Rightarrow> SubpathInfo list \<Rightarrow> nat \<Rightarrow> ValueType \<Rightarrow> 'fs BuildSystem \<Rightarrow> 'fs task_prog" where
  "provideChild sp t mk mkKey path children i vdata c =
     (if i < 1 + length children then
        (let index = i - 1;
             child = (children ! index)\<lparr>sub_value := vdata\<rparr>;
             c' = setTask t (mk (children[index := child])) c
         in case fromData vdata of
              None \<Rightarrow> abort c
            | Some v \<Rightarrow>
                if bv_kind v = Kind_ExistingInput then
                  (case getOutputInfo v of
                     None \<Rightarrow> abort c
                   | Some info \<Rightarrow>
                       if isDirectory info
                       then Request (chars (mkKey (bytes (childPath sp path (sub_filename child)))))
                              (of_nat (1 + length children + index)) (Return c')
                       else Return c')
                else Return c')
      else (let index = i - 1 - length children
            in if index < length children
               then Return (setTask t (mk (children[index := (children ! index)\<lparr>sub_signature := Some vdata\<rparr>])) c)
               else abort c))"

definition TargetTask_provideValue ::
  "TaskId \<Rightarrow> Target \<Rightarrow> string list \<Rightarrow> u64
     \<Rightarrow> ValueType \<Rightarrow> 'fs BuildSystem \<Rightarrow> 'fs task_prog" where
  "TargetTask_provideValue t target missing inputID vdata c =
     (case fromData vdata of
        None \<Rightarrow> abort c
      | Some v \<Rightarrow>
          if bv_kind v \<noteq> Kind_MissingInput then Return c
          else if unat inputID < length (tg_nodes target)
          then Return (setTask t (TargetTask target (List.insert (tg_nodes target ! unat inputID) missing)) c)
          else abort c)"

definition DirectoryInputNodeTask_provideValue ::
  "TaskId \<Rightarrow> BuildNode \<Rightarrow> ValueType \<Rightarrow> nat
     \<Rightarrow> nat \<Rightarrow> u64 \<Rightarrow> ValueType \<Rightarrow> 'fs BuildSystem \<Rightarrow> 'fs task_prog" where
  "DirectoryInputNodeTask_provideValue t node sig totalDeps finishedDeps inputID vdata c =
     (if inputID = 0 then Return (setTask t (DirectoryInputNodeTask node vdata totalDeps finishedDeps) c)
      else (case fromData vdata of
              None \<Rightarrow> abort c
            | Some v \<Rightarrow>
                (let c' = setTask t (DirectoryInputNodeTask node sig totalDeps (finishedDeps + 1)) c
                 in if finishedDeps + 1 = totalDeps then performUnblockedRequest node (Return c') else Return c')))"

definition DirectoryStructureInputNodeTask_provideValue ::
  "TaskId \<Rightarrow> BuildNode \<Rightarrow> ValueType \<Rightarrow> 'fs BuildSystem
     \<Rightarrow> 'fs task_prog" where
  "DirectoryStructureInputNodeTask_provideValue t node vdata c =
     Return (setTask t (DirectoryStructureInputNodeTask node vdata) c)"

definition ProducedNodeTask_provideValue ::
  "'fs system_params \<Rightarrow> TaskId \<Rightarrow> BuildNode
     \<Rightarrow> string option \<Rightarrow> bool \<Rightarrow> ValueType \<Rightarrow> 'fs BuildSystem \<Rightarrow> 'fs task_prog" where
  "ProducedNodeTask_provideValue sp t node producer invalid vdata c =
     (case nodeResultFor sp c producer node vdata of
        None \<Rightarrow> abort c
      | Some result' \<Rightarrow> Return (setTask t (ProducedNodeTask node result' producer invalid) c))"

definition ProducedDirectoryNodeTask_provideValue ::
  "'fs system_params \<Rightarrow> TaskId \<Rightarrow> BuildNode \<Rightarrow> BuildValue
     \<Rightarrow> ValueType \<Rightarrow> string option \<Rightarrow> bool \<Rightarrow> bool \<Rightarrow> u64 \<Rightarrow> ValueType \<Rightarrow> 'fs BuildSystem \<Rightarrow> 'fs task_prog" where
  "ProducedDirectoryNodeTask_provideValue sp t node result sig producer invalid returnSig inputID vdata c =
     (if inputID = 0 then
        (case nodeResultFor sp c producer node vdata of
           None \<Rightarrow> abort c
         | Some result' \<Rightarrow>
             if bv_kind result' = Kind_ExistingInput
             then Request (chars (makeDirectoryTreeSignature (bytes (dropTrailingSlash (node_name node))) emptyStringList)) 1
                    (Return (setTask t (ProducedDirectoryNodeTask node result' sig producer invalid True) c))
             else Return (setTask t (ProducedDirectoryNodeTask node result' sig producer invalid returnSig) c))
      else if inputID = 1
      then Return (setTask t (ProducedDirectoryNodeTask node result vdata producer invalid returnSig) c)
      else Return c)"

definition DirectoryContentsTask_provideValue ::
  "TaskId \<Rightarrow> string \<Rightarrow> u64 \<Rightarrow> ValueType
     \<Rightarrow> 'fs BuildSystem \<Rightarrow> 'fs task_prog" where
  "DirectoryContentsTask_provideValue t path inputID vdata c =
     (if inputID \<noteq> 0 then Return c
      else (case fromData vdata of
              None \<Rightarrow> abort c
            | Some v' \<Rightarrow> Return (setTask t (DirectoryContentsTask path v') c)))"

definition FilteredDirectoryContentsTask_provideValue ::
  "TaskId \<Rightarrow> string \<Rightarrow> StringList \<Rightarrow> u64
     \<Rightarrow> ValueType \<Rightarrow> 'fs BuildSystem \<Rightarrow> 'fs task_prog" where
  "FilteredDirectoryContentsTask_provideValue t path filters inputID vdata c =
     (if inputID \<noteq> 1 then Return c
      else (case fromData vdata of
              None \<Rightarrow> abort c
            | Some v' \<Rightarrow> Return (setTask t (FilteredDirectoryContentsTask path filters v') c)))"

definition DirectoryTreeSignatureTask_provideValue ::
  "'fs system_params \<Rightarrow> TaskId \<Rightarrow> string \<Rightarrow> StringList
     \<Rightarrow> ValueType \<Rightarrow> SubpathInfo list \<Rightarrow> u64 \<Rightarrow> ValueType \<Rightarrow> 'fs BuildSystem \<Rightarrow> 'fs task_prog" where
  "DirectoryTreeSignatureTask_provideValue sp t path filters dv children inputID vdata c =
     (if inputID = 0 then
        (case fromData vdata of
           None \<Rightarrow> abort c
         | Some v \<Rightarrow>
             if (StringList_isEmpty filters \<and> bv_kind v \<noteq> Kind_DirectoryContents) \<or>
                (\<not> StringList_isEmpty filters \<and> bv_kind v \<noteq> Kind_FilteredDirectoryContents)
             then Return (setTask t (DirectoryTreeSignatureTask path filters vdata children) c)
             else (case getDirectoryContents_value v of
                     None \<Rightarrow> abort c
                   | Some names \<Rightarrow> requestChildren sp path names
                       (Return (setTask t (DirectoryTreeSignatureTask path filters vdata
                          (children @ newSubpaths names)) c))))
      else provideChild sp t (DirectoryTreeSignatureTask path filters dv)
             (\<lambda>p. makeDirectoryTreeSignature p filters) path children (unat inputID) vdata c)"

definition DirectoryTreeStructureSignatureTask_provideValue ::
  "'fs system_params \<Rightarrow> TaskId \<Rightarrow> string \<Rightarrow> StringList
     \<Rightarrow> ValueType \<Rightarrow> SubpathInfo list \<Rightarrow> u64 \<Rightarrow> ValueType \<Rightarrow> 'fs BuildSystem \<Rightarrow> 'fs task_prog" where
  "DirectoryTreeStructureSignatureTask_provideValue sp t path filters dv children inputID vdata c =
     (if inputID = 0 then
        (case fromData vdata of
           None \<Rightarrow> abort c
         | Some v \<Rightarrow>
             if bv_kind v = Kind_MissingInput \<or> bv_kind v = Kind_SkippedCommand
             then Return (setTask t (DirectoryTreeStructureSignatureTask path filters vdata children) c)
             else (case getDirectoryContents_value v of
                     None \<Rightarrow> abort c
                   | Some names \<Rightarrow> requestChildren sp path names
                       (Return (setTask t (DirectoryTreeStructureSignatureTask path filters vdata
                          (children @ newSubpaths names)) c))))
      else provideChild sp t (DirectoryTreeStructureSignatureTask path filters dv)
             (\<lambda>p. makeDirectoryTreeStructureSignature p filters) path children (unat inputID) vdata c)"

definition CommandTask_provideValue ::
  "'fs system_params \<Rightarrow> byte list \<Rightarrow> u64 \<Rightarrow> KeyType
     \<Rightarrow> ValueType \<Rightarrow> 'fs BuildSystem \<Rightarrow> 'fs task_prog" where
  "CommandTask_provideValue sp ckey inputID key vdata c =
     (case do { v \<leftarrow> fromData vdata; cmd \<leftarrow> findCommand sp c ckey;
                command_provideValue inputID (bytes key) v cmd } of
        None \<Rightarrow> abort c
      | Some cmd \<Rightarrow> Return (putCommand ckey cmd c))"

fun bsProvideValue ::
  "'fs system_params \<Rightarrow> TaskId \<Rightarrow> BsTask \<Rightarrow> u64 \<Rightarrow> KeyType \<Rightarrow> ValueType \<Rightarrow> 'fs BuildSystem \<Rightarrow> 'fs task_prog" where
  "bsProvideValue sp t (TargetTask target missing) inputID key vdata c = TargetTask_provideValue t target missing inputID vdata c"
| "bsProvideValue sp t (FileInputNodeTask node) inputID key vdata c = Return c"
| "bsProvideValue sp t (StatTask name) inputID key vdata c = Return c"
| "bsProvideValue sp t (DirectoryInputNodeTask node sig totalDeps finishedDeps) inputID key vdata c = DirectoryInputNodeTask_provideValue t node sig totalDeps finishedDeps inputID vdata c"
| "bsProvideValue sp t (DirectoryStructureInputNodeTask node sig) inputID key vdata c = DirectoryStructureInputNodeTask_provideValue t node vdata c"
| "bsProvideValue sp t VirtualInputNodeTask inputID key vdata c = Return c"
| "bsProvideValue sp t (ProducedNodeTask node result producer invalid) inputID key vdata c = ProducedNodeTask_provideValue sp t node producer invalid vdata c"
| "bsProvideValue sp t (ProducedDirectoryNodeTask node result sig producer invalid returnSig) inputID key vdata c = ProducedDirectoryNodeTask_provideValue sp t node result sig producer invalid returnSig inputID vdata c"
| "bsProvideValue sp t (DirectoryContentsTask path v) inputID key vdata c = DirectoryContentsTask_provideValue t path inputID vdata c"
| "bsProvideValue sp t (FilteredDirectoryContentsTask path filters v) inputID key vdata c = FilteredDirectoryContentsTask_provideValue t path filters inputID vdata c"
| "bsProvideValue sp t (DirectoryTreeSignatureTask path filters dv children) inputID key vdata c = DirectoryTreeSignatureTask_provideValue sp t path filters dv children inputID vdata c"
| "bsProvideValue sp t (DirectoryTreeStructureSignatureTask path filters dv children) inputID key vdata c = DirectoryTreeStructureSignatureTask_provideValue sp t path filters dv children inputID vdata c"
| "bsProvideValue sp t (CommandTask ckey) inputID key vdata c = CommandTask_provideValue sp ckey inputID key vdata c"
| "bsProvideValue sp t MissingCommandTask inputID key vdata c = Return c"

section \<open>inputsAvailable\<close>

definition fileInputValue :: "FileInfo \<Rightarrow> BuildValue option" where
  "fileInputValue info =
     (if isMissing info then Some (make_plain Kind_MissingInput) else makeExistingInput info)"

text \<open>Entries that are symbolic links to a directory on the path itself are left out.\<close>

definition getContents :: "'fs system_params \<Rightarrow> 'fs \<Rightarrow> string \<Rightarrow> string list" where
  "getContents sp fs path =
     sort (map fst (filter (\<lambda>(name, resolved).
       case resolved of None \<Rightarrow> True | Some target \<Rightarrow> \<not> prefix target path) (sp_listDirectory sp fs path)))"

definition getFilteredContents :: "'fs system_params \<Rightarrow> 'fs \<Rightarrow> string \<Rightarrow> StringList \<Rightarrow> string list option" where
  "getFilteredContents sp fs path filters = do {
     patterns \<leftarrow> getValues filters;
     Some (sort (filter (\<lambda>name. \<not> list_ex (\<lambda>pattern. sp_filenameMatch sp (chars pattern) name) patterns)
       (map fst (sp_listDirectory sp fs path))))
   }"

definition directoryContentsResult :: "'fs system_params \<Rightarrow> 'fs \<Rightarrow> string \<Rightarrow> BuildValue \<Rightarrow> BuildValue option" where
  "directoryContentsResult sp fs path v =
     (if bv_kind v = Kind_MissingInput then Some (make_plain Kind_MissingInput)
      else if bv_kind v = Kind_MissingOutput then Some (make_plain Kind_MissingInput)
      else if bv_kind v = Kind_FailedInput then Some (make_plain Kind_FailedInput)
      else if bv_kind v = Kind_SkippedCommand then Some (make_plain Kind_SkippedCommand)
      else do {
        info \<leftarrow> getOutputInfo v;
        makeDirectoryContents_value info (map bytes (getContents sp fs path))
      })"

definition filteredContentsResult ::
  "'fs system_params \<Rightarrow> 'fs \<Rightarrow> string \<Rightarrow> StringList \<Rightarrow> BuildValue \<Rightarrow> BuildValue option" where
  "filteredContentsResult sp fs path filters v =
     (if bv_kind v = Kind_MissingInput then Some (make_plain Kind_MissingInput)
      else if bv_kind v \<noteq> Kind_ExistingInput then Some (make_plain Kind_FailedInput)
      else do {
        info \<leftarrow> getOutputInfo v;
        if \<not> isDirectory info then makeExistingInput info
        else do {
          names \<leftarrow> getFilteredContents sp fs path filters;
          makeFilteredDirectoryContents_value (map bytes names)
        }
      })"

definition nil_signature :: u64 where
  "nil_signature = 0xC183979C3E98722E"

definition combineSignature :: "hashing \<Rightarrow> ValueType option \<Rightarrow> u64 \<Rightarrow> u64" where
  "combineSignature H sig code =
     (case sig of Some d \<Rightarrow> combine_bytes H code d | None \<Rightarrow> combine_word H code nil_signature)"

definition directoryTreeSignature :: "hashing \<Rightarrow> string \<Rightarrow> ValueType \<Rightarrow> SubpathInfo list \<Rightarrow> u64" where
  "directoryTreeSignature H path directoryValue children =
     fold (\<lambda>info code. combineSignature H (sub_signature info) (combine_bytes H code (sub_value info)))
       children (combine_bytes H (hash_string H path) directoryValue)"

definition combineMode :: "hashing \<Rightarrow> BuildValueKind \<Rightarrow> ValueType \<Rightarrow> u64 \<Rightarrow> u64 option" where
  "combineMode H kind vdata code = do {
     v \<leftarrow> fromData vdata;
     if bv_kind v = kind
     then do { info \<leftarrow> getOutputInfo v; Some (combine_word H code (mode info)) }
     else Some (combine_bytes H code vdata)
   }"

definition directoryTreeStructureSignature ::
  "hashing \<Rightarrow> string \<Rightarrow> ValueType \<Rightarrow> SubpathInfo list \<Rightarrow> u64 option" where
  "directoryTreeStructureSignature H path directoryValue children = do {
     code \<leftarrow> combineMode H Kind_DirectoryContents directoryValue (hash_string H path);
     foldM_option (\<lambda>info code. do {
       code \<leftarrow> combineMode H Kind_ExistingInput (sub_value info) (combine_string H code (sub_filename info));
       Some (combineSignature H (sub_signature info) code)
     }) children code
   }"

definition missingInputsMessage :: "Target \<Rightarrow> string list \<Rightarrow> string" where
  "missingInputsMessage target missing =
     ''cannot build target '' @ quoted (tg_name target) @ '' due to missing inputs: ''
       @ concat (case missing of [] \<Rightarrow> [] | n # ns \<Rightarrow> quoted n # map (\<lambda>n. '', '' @ quoted n) ns)"

text \<open>
  The job of a command: the value it completes its task with, and the new state. It runs on the
  execution queue, or directly for a detached command.
\<close>

definition runCommandJob ::
  "'fs system_params \<Rightarrow> bool \<Rightarrow> Epoch \<Rightarrow> byte list \<Rightarrow> 'fs BuildSystem \<Rightarrow> (BuildValue \<times> 'fs BuildSystem) option" where
  "runCommandJob sp cancelled epoch key c =
     (if cancelled then Some (make_plain Kind_CancelledCommand, c)
      else do {
        cmd \<leftarrow> findCommand sp c key;
        if \<not> sp_shouldCommandStart sp (command_name cmd)
        then Some (make_plain Kind_SkippedCommand, notify [CommandFinished (command_name cmd) Skipped] c)
        else do {
          (v, evs, fs, cmd') \<leftarrow> command_execute sp epoch cmd (bs_fs c);
          let c = putCommand key cmd' (c\<lparr>bs_fs := fs\<rparr>);
          Some (v, notify (evs @ (if bv_kind v = Kind_FailedCommand then [HadCommandFailure] else [])) c)
        }
      })"

definition completeJob :: "(BuildValue \<times> 'fs BuildSystem) option \<Rightarrow> 'fs BuildSystem \<Rightarrow> 'fs task_prog" where
  "completeJob r c = (case r of None \<Rightarrow> abort c | Some (v, c') \<Rightarrow> completeWith (Some v) False c')"

definition TargetTask_inputsAvailable ::
  "Target \<Rightarrow> string list \<Rightarrow> 'fs BuildSystem \<Rightarrow> 'fs task_prog" where
  "TargetTask_inputsAvailable target missing c =
     AskCancelled (\<lambda>cancelled.
       if cancelled then completeWith (Some (make_plain Kind_SkippedCommand)) False c
       else completeWith (Some (make_plain Kind_Target)) False
              (if missing = [] then c
               else notify [SystemError (missingInputsMessage target missing), HadCommandFailure] c))"

definition FileInputNodeTask_inputsAvailable ::
  "'fs system_params \<Rightarrow> BuildNode \<Rightarrow> 'fs BuildSystem
     \<Rightarrow> 'fs task_prog" where
  "FileInputNodeTask_inputsAvailable sp node c =
     completeWith (getFileInfo_node (sp_FS sp) (bs_fs c) node \<bind> fileInputValue) False c"

definition StatTask_inputsAvailable ::
  "'fs system_params \<Rightarrow> string \<Rightarrow> 'fs BuildSystem
     \<Rightarrow> 'fs task_prog" where
  "StatTask_inputsAvailable sp name c =
     completeWith (fileInputValue (getFileInfo_stat (sp_FS sp) (bs_fs c) name)) False c"

definition DirectoryInputNodeTask_inputsAvailable ::
  "ValueType \<Rightarrow> 'fs BuildSystem \<Rightarrow> 'fs task_prog" where
  "DirectoryInputNodeTask_inputsAvailable sig c =
     CompleteTask sig False (Return c)"

definition DirectoryStructureInputNodeTask_inputsAvailable ::
  "ValueType \<Rightarrow> 'fs BuildSystem \<Rightarrow> 'fs task_prog" where
  "DirectoryStructureInputNodeTask_inputsAvailable sig c =
     CompleteTask sig False (Return c)"

definition VirtualInputNodeTask_inputsAvailable :: "'fs BuildSystem \<Rightarrow> 'fs task_prog" where
  "VirtualInputNodeTask_inputsAvailable c =
     completeWith (Some (make_plain Kind_VirtualInput)) False c"

definition ProducedNodeTask_inputsAvailable ::
  "BuildValue \<Rightarrow> bool \<Rightarrow> 'fs BuildSystem \<Rightarrow> 'fs task_prog" where
  "ProducedNodeTask_inputsAvailable result invalid c =
     (if invalid then completeWith (Some (make_plain Kind_FailedInput)) False (notify [HadCommandFailure] c)
      else if bv_kind result = Kind_Invalid then abort c
      else completeWith (Some result) False c)"

definition ProducedDirectoryNodeTask_inputsAvailable ::
  "BuildValue \<Rightarrow> ValueType \<Rightarrow> bool \<Rightarrow> bool
     \<Rightarrow> 'fs BuildSystem \<Rightarrow> 'fs task_prog" where
  "ProducedDirectoryNodeTask_inputsAvailable result sig invalid returnSig c =
     (if returnSig then CompleteTask sig False (Return c)
      else if invalid then completeWith (Some (make_plain Kind_FailedInput)) False (notify [HadCommandFailure] c)
      else if bv_kind result = Kind_Invalid then abort c
      else completeWith (Some result) False c)"

definition DirectoryContentsTask_inputsAvailable ::
  "'fs system_params \<Rightarrow> string \<Rightarrow> BuildValue
     \<Rightarrow> 'fs BuildSystem \<Rightarrow> 'fs task_prog" where
  "DirectoryContentsTask_inputsAvailable sp path v c =
     completeWith (directoryContentsResult sp (bs_fs c) path v) False c"

definition FilteredDirectoryContentsTask_inputsAvailable ::
  "'fs system_params \<Rightarrow> string \<Rightarrow> StringList \<Rightarrow> BuildValue
     \<Rightarrow> 'fs BuildSystem \<Rightarrow> 'fs task_prog" where
  "FilteredDirectoryContentsTask_inputsAvailable sp path filters v c =
     completeWith (filteredContentsResult sp (bs_fs c) path filters v) False c"

definition DirectoryTreeSignatureTask_inputsAvailable ::
  "'fs system_params \<Rightarrow> string \<Rightarrow> ValueType
     \<Rightarrow> SubpathInfo list \<Rightarrow> 'fs BuildSystem \<Rightarrow> 'fs task_prog" where
  "DirectoryTreeSignatureTask_inputsAvailable sp path dv children c =
     completeWith (Some (makeDirectoryTreeSignature_value (directoryTreeSignature (sp_hash sp) path dv children))) False c"

definition DirectoryTreeStructureSignatureTask_inputsAvailable ::
  "'fs system_params \<Rightarrow> string \<Rightarrow> ValueType
     \<Rightarrow> SubpathInfo list \<Rightarrow> 'fs BuildSystem \<Rightarrow> 'fs task_prog" where
  "DirectoryTreeStructureSignatureTask_inputsAvailable sp path dv children c =
     completeWith (map_option makeDirectoryTreeStructureSignature_value
       (directoryTreeStructureSignature (sp_hash sp) path dv children)) False c"

definition CommandTask_inputsAvailable ::
  "'fs system_params \<Rightarrow> TaskId \<Rightarrow> byte list
     \<Rightarrow> 'fs BuildSystem \<Rightarrow> 'fs task_prog" where
  "CommandTask_inputsAvailable sp t key c =
     (case findCommand sp c key of
        None \<Rightarrow> abort c
      | Some cmd \<Rightarrow>
          if command_isDetached sp cmd
          then AskCancelled (\<lambda>cancelled. AskEpoch (\<lambda>epoch. completeJob (runCommandJob sp cancelled epoch key c) c))
          else Return (c\<lparr>bs_jobs := bs_jobs c @ [(t, key)]\<rparr>))"

definition MissingCommandTask_inputsAvailable :: "'fs BuildSystem \<Rightarrow> 'fs task_prog" where
  "MissingCommandTask_inputsAvailable c =
     completeWith (Some (make_plain Kind_Invalid)) True c"

fun bsInputsAvailable :: "'fs system_params \<Rightarrow> TaskId \<Rightarrow> BsTask \<Rightarrow> 'fs BuildSystem \<Rightarrow> 'fs task_prog" where
  "bsInputsAvailable sp t (TargetTask target missing) c = TargetTask_inputsAvailable target missing c"
| "bsInputsAvailable sp t (FileInputNodeTask node) c = FileInputNodeTask_inputsAvailable sp node c"
| "bsInputsAvailable sp t (StatTask name) c = StatTask_inputsAvailable sp name c"
| "bsInputsAvailable sp t (DirectoryInputNodeTask node sig totalDeps finishedDeps) c = DirectoryInputNodeTask_inputsAvailable sig c"
| "bsInputsAvailable sp t (DirectoryStructureInputNodeTask node sig) c = DirectoryStructureInputNodeTask_inputsAvailable sig c"
| "bsInputsAvailable sp t VirtualInputNodeTask c = VirtualInputNodeTask_inputsAvailable c"
| "bsInputsAvailable sp t (ProducedNodeTask node result producer invalid) c = ProducedNodeTask_inputsAvailable result invalid c"
| "bsInputsAvailable sp t (ProducedDirectoryNodeTask node result sig producer invalid returnSig) c = ProducedDirectoryNodeTask_inputsAvailable result sig invalid returnSig c"
| "bsInputsAvailable sp t (DirectoryContentsTask path v) c = DirectoryContentsTask_inputsAvailable sp path v c"
| "bsInputsAvailable sp t (FilteredDirectoryContentsTask path filters v) c = FilteredDirectoryContentsTask_inputsAvailable sp path filters v c"
| "bsInputsAvailable sp t (DirectoryTreeSignatureTask path filters dv children) c = DirectoryTreeSignatureTask_inputsAvailable sp path dv children c"
| "bsInputsAvailable sp t (DirectoryTreeStructureSignatureTask path filters dv children) c = DirectoryTreeStructureSignatureTask_inputsAvailable sp path dv children c"
| "bsInputsAvailable sp t (CommandTask key) c = CommandTask_inputsAvailable sp t key c"
| "bsInputsAvailable sp t MissingCommandTask c = MissingCommandTask_inputsAvailable c"

section \<open>Rules\<close>

definition nodeTask :: "BuildNode \<Rightarrow> BsTask" where
  "nodeTask node =
     (if node_producers node = [] then
        (if isVirtual node then VirtualInputNodeTask
         else if isDirectoryNode node then DirectoryInputNodeTask node [] 0 0
         else if isDirectoryStructure node then DirectoryStructureInputNodeTask node []
         else FileInputNodeTask node)
      else if isDirectoryNode node
      then ProducedDirectoryNodeTask node (make_plain Kind_Invalid) [] None False False
      else ProducedNodeTask node (make_plain Kind_Invalid) None False)"

text \<open>
  The action of the rule for a key: the new task. An unknown kind, an unknown target and a key
  that cannot be decoded abort in the code and are \<^term>\<open>None\<close>.
\<close>

definition decodeFilters :: "byte list \<Rightarrow> StringList option" where
  "decodeFilters bs = map_option fst (StringList_decode \<lparr>data = bs, pos = 0\<rparr>)"

definition ruleTask :: "'fs system_params \<Rightarrow> 'fs BuildSystem \<Rightarrow> byte list \<Rightarrow> BsTask option" where
  "ruleTask sp c key =
     (case kindOfKeyData key of
        KeyUnknown \<Rightarrow> None
      | KeyCommand \<Rightarrow> Some (if findCommand sp c key = None then MissingCommandTask else CommandTask key)
      | KeyCustomTask \<Rightarrow> Some (if findCommand sp c key = None then MissingCommandTask else CommandTask key)
      | KeyDirectoryContents \<Rightarrow> do {
          path \<leftarrow> getName KeyDirectoryContents key;
          Some (DirectoryContentsTask (chars path) (make_plain Kind_Invalid)) }
      | KeyFilteredDirectoryContents \<Rightarrow> do {
          path \<leftarrow> getFilteredDirectoryPath key;
          filters \<leftarrow> getContentExclusionPatterns key \<bind> decodeFilters;
          Some (FilteredDirectoryContentsTask (chars path) filters (make_plain Kind_Invalid)) }
      | KeyDirectoryTreeSignature \<Rightarrow> do {
          path \<leftarrow> getDirectoryTreeSignaturePath key;
          filters \<leftarrow> getContentExclusionPatterns key \<bind> decodeFilters;
          Some (DirectoryTreeSignatureTask (chars path) filters [] []) }
      | KeyDirectoryTreeStructureSignature \<Rightarrow> do {
          path \<leftarrow> getFilteredDirectoryPath key;
          filters \<leftarrow> getContentExclusionPatterns key \<bind> decodeFilters;
          Some (DirectoryTreeStructureSignatureTask (chars path) filters [] []) }
      | KeyNode \<Rightarrow> do {
          name \<leftarrow> getName KeyNode key;
          Some (nodeTask (lookupNode c (chars name))) }
      | KeyStat \<Rightarrow> do { name \<leftarrow> getName KeyStat key; Some (StatTask (chars name)) }
      | KeyTarget \<Rightarrow> do {
          name \<leftarrow> getName KeyTarget key;
          target \<leftarrow> map_of (bd_targets (bs_description c)) (chars name);
          Some (TargetTask target []) })"

definition ruleSignature :: "'fs system_params \<Rightarrow> 'fs BuildSystem \<Rightarrow> byte list \<Rightarrow> CommandSignature" where
  "ruleSignature sp c key =
     (case kindOfKeyData key of
        KeyCommand \<Rightarrow> (case findCommand sp c key \<bind> command_signature sp of None \<Rightarrow> 0 | Some sig \<Rightarrow> sig)
      | KeyCustomTask \<Rightarrow> (case findCommand sp c key \<bind> command_signature sp of None \<Rightarrow> 0 | Some sig \<Rightarrow> sig)
      | KeyNode \<Rightarrow> (case getName KeyNode key of
          None \<Rightarrow> 0 | Some name \<Rightarrow> getSignature_node (sp_hash sp) (lookupNode c (chars name)))
      | _ \<Rightarrow> 0)"

definition fileInput_isResultValid :: "FileInfo \<Rightarrow> BuildValue \<Rightarrow> bool option" where
  "fileInput_isResultValid info v =
     (if isMissing info then Some (bv_kind v = Kind_MissingInput)
      else if bv_kind v \<noteq> Kind_ExistingInput then Some False
      else do { prior \<leftarrow> getOutputInfo v; Some (fileInfo_eq prior info) })"

definition producedNode_isResultValid :: "BuildValue \<Rightarrow> bool" where
  "producedNode_isResultValid v \<longleftrightarrow> bv_kind v \<noteq> Kind_FailedInput \<and> bv_kind v \<noteq> Kind_MissingInput"

definition directoryContents_isResultValid ::
  "'fs system_params \<Rightarrow> 'fs \<Rightarrow> string \<Rightarrow> BuildValue \<Rightarrow> bool option" where
  "directoryContents_isResultValid sp fs path v =
     (let info = fs_getFileInfo (sp_FS sp) fs path
      in if isMissing info then Some (bv_kind v = Kind_MissingInput)
         else if bv_kind v \<noteq> Kind_DirectoryContents then Some False
         else do {
           prior \<leftarrow> getOutputInfo v;
           if isDirectory info \<noteq> isDirectory prior then Some False
           else if \<not> isDirectory info then Some (fileInfo_eq prior info)
           else do { names \<leftarrow> getDirectoryContents_value v; Some (getContents sp fs path = names) }
         })"

text \<open>Whether a prior value is still valid, by the task the rule would run.\<close>

definition FileInputNodeTask_isResultValid ::
  "'fs system_params \<Rightarrow> 'fs BuildSystem \<Rightarrow> BuildNode
     \<Rightarrow> BuildValue \<Rightarrow> bool option" where
  "FileInputNodeTask_isResultValid sp c node v =
     do {
     info \<leftarrow> getFileInfo_node (sp_FS sp) (bs_fs c) node;
     fileInput_isResultValid info v }"

definition VirtualInputNodeTask_isResultValid :: "BuildValue \<Rightarrow> bool option" where
  "VirtualInputNodeTask_isResultValid v =
     Some (bv_kind v = Kind_VirtualInput)"

definition ProducedNodeTask_isResultValid :: "BuildValue \<Rightarrow> bool option" where
  "ProducedNodeTask_isResultValid v =
     Some (producedNode_isResultValid v)"

definition ProducedDirectoryNodeTask_isResultValid :: "BuildValue \<Rightarrow> bool option" where
  "ProducedDirectoryNodeTask_isResultValid v =
     Some (producedNode_isResultValid v)"

definition DirectoryContentsTask_isResultValid ::
  "'fs system_params \<Rightarrow> 'fs BuildSystem \<Rightarrow> string
     \<Rightarrow> BuildValue \<Rightarrow> bool option" where
  "DirectoryContentsTask_isResultValid sp c path v =
     directoryContents_isResultValid sp (bs_fs c) path v"

definition CommandTask_isResultValid ::
  "'fs system_params \<Rightarrow> 'fs BuildSystem \<Rightarrow> byte list
     \<Rightarrow> BuildValue \<Rightarrow> bool option" where
  "CommandTask_isResultValid sp c key v =
     do { cmd \<leftarrow> findCommand sp c key; command_isResultValid sp (bs_fs c) cmd v }"

fun task_isResultValid :: "'fs system_params \<Rightarrow> 'fs BuildSystem \<Rightarrow> BsTask \<Rightarrow> BuildValue \<Rightarrow> bool option" where
  "task_isResultValid sp c (TargetTask target missing) v = Some False"
| "task_isResultValid sp c (FileInputNodeTask node) v = FileInputNodeTask_isResultValid sp c node v"
| "task_isResultValid sp c (StatTask name) v = Some False"
| "task_isResultValid sp c (DirectoryInputNodeTask node sig totalDeps finishedDeps) v = Some True"
| "task_isResultValid sp c (DirectoryStructureInputNodeTask node sig) v = Some True"
| "task_isResultValid sp c VirtualInputNodeTask v = VirtualInputNodeTask_isResultValid v"
| "task_isResultValid sp c (ProducedNodeTask node result producer invalid) v = ProducedNodeTask_isResultValid v"
| "task_isResultValid sp c (ProducedDirectoryNodeTask node result sig producer invalid returnSig) v = ProducedDirectoryNodeTask_isResultValid v"
| "task_isResultValid sp c (DirectoryContentsTask path dv) v = DirectoryContentsTask_isResultValid sp c path v"
| "task_isResultValid sp c (FilteredDirectoryContentsTask path filters dv) v = Some True"
| "task_isResultValid sp c (DirectoryTreeSignatureTask path filters dv children) v = Some True"
| "task_isResultValid sp c (DirectoryTreeStructureSignatureTask path filters dv children) v = Some True"
| "task_isResultValid sp c (CommandTask key) v = CommandTask_isResultValid sp c key v"
| "task_isResultValid sp c MissingCommandTask v = Some False"

text \<open>Rules without a validity check accept every value, the others decode it first.\<close>

definition rule_isResultValid :: "'fs system_params \<Rightarrow> 'fs BuildSystem \<Rightarrow> byte list \<Rightarrow> ValueType \<Rightarrow> bool option" where
  "rule_isResultValid sp c key vdata = do {
     task \<leftarrow> ruleTask sp c key;
     v \<leftarrow> (case task of
            DirectoryInputNodeTask _ _ _ _ \<Rightarrow> Some (make_plain Kind_Invalid)
          | DirectoryStructureInputNodeTask _ _ \<Rightarrow> Some (make_plain Kind_Invalid)
          | FilteredDirectoryContentsTask _ _ _ \<Rightarrow> Some (make_plain Kind_Invalid)
          | DirectoryTreeSignatureTask _ _ _ _ \<Rightarrow> Some (make_plain Kind_Invalid)
          | DirectoryTreeStructureSignatureTask _ _ _ _ \<Rightarrow> Some (make_plain Kind_Invalid)
          | MissingCommandTask \<Rightarrow> Some (make_plain Kind_Invalid)
          | _ \<Rightarrow> fromData vdata);
     task_isResultValid sp c task v
   }"

section \<open>The client of the engine\<close>

definition with_task ::
  "TaskId \<Rightarrow> (BsTask \<Rightarrow> 'fs BuildSystem \<Rightarrow> 'fs task_prog) \<Rightarrow> 'fs BuildSystem \<Rightarrow> 'fs task_prog" where
  "with_task t f c = (case map_of (bs_tasks c) t of None \<Rightarrow> abort c | Some task \<Rightarrow> f task c)"

text \<open>
  The rules, tasks and delegate of the build system over a \<open>base\<close> that supplies the database,
  the clock and the delegate's decision on cycles. A check that fails an assertion counts as
  an invalid result here.
\<close>

definition buildsystem_env ::
  "'fs system_params \<Rightarrow> ('fs BuildSystem, 'd) env \<Rightarrow> ('fs BuildSystem, 'd) env" where
  "buildsystem_env sp base = base\<lparr>
     lookupRule := (\<lambda>c key. \<lparr>rule_key = key, rule_signature = ruleSignature sp c (bytes key)\<rparr>),
     isResultValid := (\<lambda>c key v. rule_isResultValid sp c (bytes key) v = Some True),
     checksDependenciesBeforeRunning := (\<lambda>c key.
        case findCommand sp c (bytes key) of None \<Rightarrow> False | Some cmd \<Rightarrow> command_checks cmd),
     mustCheckDependencyBeforeRunning := (\<lambda>c key dep.
        case findCommand sp c (bytes key) of None \<Rightarrow> False | Some cmd \<Rightarrow> command_mustCheck cmd (bytes dep)),
     createTask := (\<lambda>c key t. case ruleTask sp c (bytes key) of
        None \<Rightarrow> c\<lparr>bs_aborted := True\<rparr> | Some task \<Rightarrow> setTask t task c),
     task_start := (\<lambda>c t. with_task t (bsStart sp t) c),
     task_providePriorValue := (\<lambda>c t v. with_task t (\<lambda>task. bsProvidePriorValue sp t task v) c),
     task_provideValue := (\<lambda>c t i key v. with_task t (\<lambda>task. bsProvideValue sp t task i key v) c),
     task_inputsAvailable := (\<lambda>c t. with_task t (bsInputsAvailable sp t) c)\<rparr>"

section \<open>build\<close>

text \<open>
  \<^verbatim>\<open>BuildSystemImpl::build\<close>: \<open>Inl\<close> is an error reported to the delegate. A cycle that the engine
  reports aborts the build; \<open>limit\<close> tells whether the limit of open files could be raised.
\<close>

definition reported_cycle :: "event list \<Rightarrow> bool" where
  "reported_cycle evs \<longleftrightarrow> list_ex (\<lambda>ev. case ev of EvCycle _ \<Rightarrow> True | _ \<Rightarrow> False) evs"

definition BuildSystem_buildKey ::
  "nat \<Rightarrow> ('fs BuildSystem, 'd) env \<Rightarrow> bool \<Rightarrow> byte list \<Rightarrow> 'fs BuildSystem thread_action list
     \<Rightarrow> ('fs BuildSystem, 'd) engine \<Rightarrow> (string + BuildValue option \<times> ('fs BuildSystem, 'd) engine) option" where
  "BuildSystem_buildKey fuel env limit key threads s =
     (if \<not> limit then Some (Inl ''failed to raise open file limit'')
      else do {
        (result, s') \<leftarrow> build fuel env (chars key) threads s;
        if reported_cycle (drop (length (e_log s)) (e_log s')) then Some (Inr (None, s'))
        else do { v \<leftarrow> fromData result; Some (Inr (Some v, s')) }
      })"

definition BuildSystem_buildTarget ::
  "nat \<Rightarrow> ('fs BuildSystem, 'd) env \<Rightarrow> bool \<Rightarrow> string \<Rightarrow> 'fs BuildSystem thread_action list
     \<Rightarrow> ('fs BuildSystem, 'd) engine \<Rightarrow> (string + BuildValue option \<times> ('fs BuildSystem, 'd) engine) option" where
  "BuildSystem_buildTarget fuel env limit target threads s =
     (let bd = bs_description (e_client s);
          target = (if target = [] then bd_defaultTarget bd else target)
      in if map_of (bd_targets bd) target = None
         then Some (Inl (''No target named '' @ quoted target @ '' in build description''))
         else BuildSystem_buildKey fuel env limit (makeTarget (bytes target)) threads s)"

end
