(* ===== verification/BuildEngineInvariant.thy ===== *)
theory BuildEngineInvariant
  imports BuildEngineLoop
begin

text \<open>
  The invariant of the build engine during a build. Its core is a conservation law: every
  input request and every scan request is in exactly one place (a queue, a scan record, a
  task, or the hands of the operation that runs), so that the wait count of a task is the
  number of its requests in flight and a rule that is being scanned has exactly one scan
  request. The places are added up as multisets, so moving a request changes nothing.
\<close>

section \<open>The contract of the client\<close>

text \<open>
  What a task may do in \<^verbatim>\<open>inputsAvailable\<close>: it must not ask for further inputs and completes
  at most once.
\<close>

primrec computing_prog :: "'c prog \<Rightarrow> bool \<Rightarrow> bool" where
  "computing_prog (Return c) = (\<lambda>b. True)"
| "computing_prog (Request key i p) = (\<lambda>b. False)"
| "computing_prog (RequestSingleUse key i p) = (\<lambda>b. False)"
| "computing_prog (MustFollow key p) = (\<lambda>b. False)"
| "computing_prog (DiscoveredDependency key p) = computing_prog p"
| "computing_prog (CompleteTask val forceChange p) = (\<lambda>b. b \<and> computing_prog p False)"
| "computing_prog (CancelBuild p) = computing_prog p"
| "computing_prog (AskCancelled f) = (\<lambda>b. \<forall>x. computing_prog (f x) b)"
| "computing_prog (AskEpoch f) = (\<lambda>b. \<forall>x. computing_prog (f x) b)"

text \<open>
  What the engine relies on: tasks keep to this, and the database returns well-formed
  dependency lists and its writes succeed.
\<close>

definition client_contract :: "('c, 'd) env \<Rightarrow> bool" where
  "client_contract env \<longleftrightarrow>
     (\<forall>c t. computing_prog (task_inputsAvailable env c t) True) \<and>
     (\<forall>d k key r err. db_lookupRuleResult env d k key = (Some r, err) \<longrightarrow> deps_invar (dependencies r)) \<and>
     (\<forall>d k rule r. snd (db_setRuleResult env d k rule r) = None)"

lemma contract_lookup:
  "client_contract env \<Longrightarrow> db_lookupRuleResult env d k key = (Some r, err) \<Longrightarrow> deps_invar (dependencies r)"
  unfolding client_contract_def by blast

section \<open>Requests in flight\<close>

definition reqs_rule :: "RuleInfo \<Rightarrow> TaskInputRequest list" where
  "reqs_rule ri = (case ri_inProgress ri of PendingScan r \<Rightarrow> pausedInputRequests r | _ \<Rightarrow> [])"

definition scans_rule :: "RuleInfo \<Rightarrow> RuleScanRequest list" where
  "scans_rule ri = (case ri_inProgress ri of PendingScan r \<Rightarrow> deferredScanRequests r | _ \<Rightarrow> [])"

definition allReqs ::
  "TaskInputRequest multiset \<Rightarrow> ('c, 'd) engine \<Rightarrow> TaskInputRequest multiset" where
  "allReqs hi s = hi + mset (inputRequests s) + asum (mset \<circ> reqs_rule) (ruleInfos s)
     + mset (finishedInputRequests s) + asum (mset \<circ> ti_requestedBy) (taskInfos s)"

definition allScans ::
  "RuleScanRequest multiset \<Rightarrow> ('c, 'd) engine \<Rightarrow> RuleScanRequest multiset" where
  "allScans hs s = hs + mset (ruleInfosToScan s)
     + asum (mset \<circ> scans_rule) (ruleInfos s) + asum (mset \<circ> ti_deferredScanRequests) (taskInfos s)"

definition waitOf :: "('c, 'd) engine \<Rightarrow> TaskId \<Rightarrow> nat" where
  "waitOf s t = (case getTaskInfo s t of None \<Rightarrow> 0 | Some ti \<Rightarrow> ti_waitCount ti)"

definition taskState :: "('c, 'd) engine \<Rightarrow> TaskId \<Rightarrow> StateKind option" where
  "taskState s t =
     (case getTaskInfo s t of None \<Rightarrow> None | Some ti \<Rightarrow> map_option ri_state (getRule s (ti_forRule ti)))"

definition progressOf :: "('c, 'd) engine \<Rightarrow> KeyID \<Rightarrow> InProgressInfo option" where
  "progressOf s k = map_option ri_inProgress (getRule s k)"

definition requestsOf :: "TaskId \<Rightarrow> TaskInputRequest multiset \<Rightarrow> nat" where
  "requestsOf t R = size {#r \<in># R. ir_task r = Some t#}"

section \<open>The invariant\<close>

definition shape_ok :: "('c, 'd) engine \<Rightarrow> KeyID \<Rightarrow> RuleInfo \<Rightarrow> bool" where
  "shape_ok s k ri \<longleftrightarrow>
     (case ri_inProgress ri of
        NoInfo \<Rightarrow> \<not> isScanning ri \<and> \<not> isInProgress ri
      | PendingScan r \<Rightarrow> isScanning ri
      | PendingTask t \<Rightarrow> isInProgress ri \<and> map_option ti_forRule (getTaskInfo s t) = Some k)"

definition rules_inv :: "('c, 'd) engine \<Rightarrow> bool" where
  "rules_inv s \<longleftrightarrow> distinct (map fst (ruleInfos s)) \<and>
     (\<forall>k ri. getRule s k = Some ri \<longrightarrow> shape_ok s k ri \<and> deps_invar (dependencies (ri_result ri)))"

definition tasks_inv :: "('c, 'd) engine \<Rightarrow> bool" where
  "tasks_inv s \<longleftrightarrow> distinct (map fst (taskInfos s)) \<and>
     (\<forall>t ti. getTaskInfo s t = Some ti \<longrightarrow> t < nextTask s \<and> deps_invar (ti_discovered ti) \<and>
        progressOf s (ti_forRule ti) = Some (PendingTask t))"

definition req_ok :: "('c, 'd) engine \<Rightarrow> TaskInputRequest \<Rightarrow> bool" where
  "req_ok s r \<longleftrightarrow> getRule s (ir_inputRule r) \<noteq> None \<and>
     (ir_task r \<noteq> None \<and> ir_orderOnly r \<longrightarrow> ir_inputID r = kMustFollowInputID)"

definition finished_ok :: "('c, 'd) engine \<Rightarrow> TaskInputRequest \<Rightarrow> bool" where
  "finished_ok s r \<longleftrightarrow> ir_task r \<noteq> None \<and>
     (ir_forcePriorValue r \<or> ir_orderOnly r \<or>
      (\<exists>ri. getRule s (ir_inputRule r) = Some ri \<and> isComplete (currentEpoch s) ri))"

definition reqs_inv :: "TaskInputRequest multiset \<Rightarrow> ('c, 'd) engine \<Rightarrow> bool" where
  "reqs_inv hi s \<longleftrightarrow>
     (\<forall>t. waitOf s t = requestsOf t (allReqs hi s)) \<and>
     (\<forall>r \<in># allReqs hi s. req_ok s r) \<and>
     (\<forall>r \<in> set (finishedInputRequests s). finished_ok s r) \<and>
     (\<forall>t ti r. getTaskInfo s t = Some ti \<longrightarrow> r \<in> set (ti_requestedBy ti) \<longrightarrow>
        ir_task r \<noteq> None \<and> ir_inputRule r = ti_forRule ti)"

definition scan_ok :: "('c, 'd) engine \<Rightarrow> RuleScanRequest \<Rightarrow> bool" where
  "scan_ok s q \<longleftrightarrow>
     (\<exists>ri. getRule s (sr_rule q) = Some ri \<and>
        (isScanning ri \<or> ri_wasForced ri \<and> isScanned (currentEpoch s) ri)) \<and>
     (\<forall>i. sr_inputRule q = Some i \<longrightarrow> getRule s i \<noteq> None)"

definition scans_inv :: "RuleScanRequest multiset \<Rightarrow> ('c, 'd) engine \<Rightarrow> bool" where
  "scans_inv hs s \<longleftrightarrow>
     (\<forall>k ri. getRule s k = Some ri \<longrightarrow> isScanning ri \<longrightarrow>
        (\<exists>q. {#q \<in># allScans hs s. sr_rule q = k#} = {#q#} \<and>
             sr_inputIndex q < size_deps (dependencies (ri_result ri)))) \<and>
     (\<forall>q \<in># allScans hs s. scan_ok s q) \<and>
     (\<forall>k ri q. getRule s k = Some ri \<longrightarrow> q \<in> set (scans_rule ri) \<longrightarrow> sr_inputRule q = Some k)"

definition ready_inv :: "('c, 'd) engine \<Rightarrow> bool" where
  "ready_inv s \<longleftrightarrow> distinct (readyTaskInfos s) \<and>
     (\<forall>t \<in> set (readyTaskInfos s). taskState s t = Some InProgressWaiting \<and> waitOf s t = 0) \<and>
     (\<forall>t. taskState s t = Some InProgressComputing \<longrightarrow> waitOf s t = 0)"

definition computing :: "TaskId set \<Rightarrow> ('c, 'd) engine \<Rightarrow> TaskId set" where
  "computing done s = {t. taskState s t = Some InProgressComputing} - done - set (finishedTaskInfos s)"

definition finish_inv :: "TaskId set \<Rightarrow> nat \<Rightarrow> ('c, 'd) engine \<Rightarrow> bool" where
  "finish_inv done n s \<longleftrightarrow> distinct (finishedTaskInfos s) \<and>
     (\<forall>t \<in> set (finishedTaskInfos s). taskState s t = Some InProgressComputing) \<and>
     (\<forall>t \<in> done. t < nextTask s \<and> taskState s t \<in> {None, Some InProgressComputing}) \<and>
     numOutstandingUnfinishedTasks s + n = card (computing done s) + length (finishedTaskInfos s)"

text \<open>
  \<open>done\<close>: the tasks that have completed; \<open>n\<close>: 1 while a task is told that its inputs are
  available and is not counted yet; \<open>hi\<close>, \<open>hs\<close>: the requests in hand.
\<close>

definition engine_inv ::
  "TaskId set \<Rightarrow> nat \<Rightarrow> TaskInputRequest multiset \<Rightarrow> RuleScanRequest multiset
     \<Rightarrow> ('c, 'd) engine \<Rightarrow> bool" where
  "engine_inv done n hi hs s \<longleftrightarrow> rules_inv s \<and> tasks_inv s \<and> reqs_inv hi s \<and> scans_inv hs s
     \<and> ready_inv s \<and> finish_inv done n s"

lemma engine_invI:
  assumes "rules_inv s" "tasks_inv s" "reqs_inv hi s" "scans_inv hs s" "ready_inv s" "finish_inv done n s"
  shows "engine_inv done n hi hs s"
  using assms by (simp add: engine_inv_def)

lemma engine_invD:
  assumes "engine_inv done n hi hs s"
  shows "rules_inv s" "tasks_inv s" "reqs_inv hi s" "scans_inv hs s" "ready_inv s" "finish_inv done n s"
  using assms by (simp_all add: engine_inv_def)

lemma ready_inv_cong:
  assumes "taskState s' = taskState s" "waitOf s' = waitOf s" "readyTaskInfos s' = readyTaskInfos s"
  shows "ready_inv s' = ready_inv s"
  using assms by (simp add: ready_inv_def)

lemma finish_inv_cong:
  assumes "taskState s' = taskState s" "nextTask s' = nextTask s" "finishedTaskInfos s' = finishedTaskInfos s"
    "numOutstandingUnfinishedTasks s' = numOutstandingUnfinishedTasks s"
  shows "finish_inv done n s' = finish_inv done n s"
  using assms by (simp add: finish_inv_def computing_def)

lemmas engine_inv_defs = engine_inv_def rules_inv_def tasks_inv_def reqs_inv_def scans_inv_def
  ready_inv_def finish_inv_def

section \<open>Updates that do not matter\<close>

definition same_core :: "('c, 'd) engine \<Rightarrow> ('c, 'd) engine \<Rightarrow> bool" where
  "same_core s s' \<longleftrightarrow> ruleInfos s' = ruleInfos s \<and> taskInfos s' = taskInfos s
     \<and> inputRequests s' = inputRequests s \<and> finishedInputRequests s' = finishedInputRequests s
     \<and> ruleInfosToScan s' = ruleInfosToScan s \<and> currentEpoch s' = currentEpoch s
     \<and> nextTask s' = nextTask s \<and> readyTaskInfos s' = readyTaskInfos s
     \<and> numOutstandingUnfinishedTasks s' = numOutstandingUnfinishedTasks s
     \<and> finishedTaskInfos s' = finishedTaskInfos s"

lemma engine_inv_cong:
  assumes "same_core s s'"
  shows "engine_inv done n hi hs s' = engine_inv done n hi hs s"
proof -
  have get: "getRule s' = getRule s" "getTaskInfo s' = getTaskInfo s"
    using assms by (auto simp: same_core_def getRule_def getTaskInfo_def)
  then have "waitOf s' = waitOf s" "taskState s' = taskState s"
    by (auto simp: waitOf_def taskState_def intro!: ext split: option.split)
  moreover have "shape_ok s' = shape_ok s"
    using get by (auto simp: shape_ok_def intro!: ext split: InProgressInfo.split)
  ultimately show ?thesis
    using get assms by (simp add: same_core_def engine_inv_defs allReqs_def allScans_def
        req_ok_def finished_ok_def scan_ok_def computing_def progressOf_def)
qed

lemma engine_inv_ignores [engine_simps]:
  "engine_inv done n hi hs (emit ev s) = engine_inv done n hi hs s"
  "engine_inv done n hi hs (s\<lparr>e_client := c\<rparr>) = engine_inv done n hi hs s"
  "engine_inv done n hi hs (s\<lparr>e_db := db\<rparr>) = engine_inv done n hi hs s"
  "engine_inv done n hi hs (s\<lparr>buildCancelled := b\<rparr>) = engine_inv done n hi hs s"
  "engine_inv done n hi hs (s\<lparr>buildRunning := b\<rparr>) = engine_inv done n hi hs s"
  "engine_inv done n hi hs (s\<lparr>keyTable := ks\<rparr>) = engine_inv done n hi hs s"
  by (rule engine_inv_cong, simp add: same_core_def emit_def)+

section \<open>Consequences\<close>

lemma in_allReqs:
  assumes "engine_inv done n hi hs s"
  shows "r \<in># allReqs hi' s \<longleftrightarrow> r \<in># hi' \<or> r \<in> set (inputRequests s) \<or>
    r \<in> set (finishedInputRequests s) \<or>
    (\<exists>k ri. getRule s k = Some ri \<and> r \<in> set (reqs_rule ri)) \<or>
    (\<exists>t ti. getTaskInfo s t = Some ti \<and> r \<in> set (ti_requestedBy ti))"
  using assms by (auto simp: engine_inv_def rules_inv_def tasks_inv_def allReqs_def in_asum_mset
      getRule_def getTaskInfo_def)

lemma in_allScans:
  assumes "engine_inv done n hi hs s"
  shows "q \<in># allScans hs' s \<longleftrightarrow> q \<in># hs' \<or> q \<in> set (ruleInfosToScan s) \<or>
    (\<exists>k ri. getRule s k = Some ri \<and> q \<in> set (scans_rule ri)) \<or>
    (\<exists>t ti. getTaskInfo s t = Some ti \<and> q \<in> set (ti_deferredScanRequests ti))"
  using assms by (simp add: engine_inv_defs allScans_def in_asum_mset getRule_def getTaskInfo_def)

lemma inv_shape: "engine_inv done n hi hs s \<Longrightarrow> getRule s k = Some ri \<Longrightarrow> shape_ok s k ri"
  by (simp add: engine_inv_defs)

lemma inv_task:
  assumes "engine_inv done n hi hs s" "getTaskInfo s t = Some ti"
  obtains ri where "getRule s (ti_forRule ti) = Some ri" "ri_inProgress ri = PendingTask t"
    "isInProgress ri" "t < nextTask s"
proof -
  from assms obtain ri where ri: "getRule s (ti_forRule ti) = Some ri" "ri_inProgress ri = PendingTask t"
      and t: "t < nextTask s"
    by (fastforce simp: engine_inv_def tasks_inv_def progressOf_def)
  from inv_shape [OF assms(1) ri(1)] ri(2) have "isInProgress ri" by (simp add: shape_ok_def)
  with ri t that show thesis by blast
qed

lemma inv_discovered:
  "engine_inv done n hi hs s \<Longrightarrow> getTaskInfo s t = Some ti \<Longrightarrow> deps_invar (ti_discovered ti)"
  by (simp add: engine_inv_def tasks_inv_def)

lemma inv_deps:
  "engine_inv done n hi hs s \<Longrightarrow> getRule s k = Some ri \<Longrightarrow> deps_invar (dependencies (ri_result ri))"
  by (simp add: engine_inv_def rules_inv_def)

lemma inv_inProgress:
  assumes "engine_inv done n hi hs s" "getRule s k = Some ri" "isInProgress ri"
  obtains t ti where "ri_inProgress ri = PendingTask t" "getTaskInfo s t = Some ti" "ti_forRule ti = k"
  using inv_shape [OF assms(1,2)] assms(3)
  by (auto simp: shape_ok_def rule_state_defs split: InProgressInfo.splits)

lemma inv_scanning:
  assumes "engine_inv done n hi hs s" "getRule s k = Some ri" "isScanning ri"
  obtains r where "ri_inProgress ri = PendingScan r"
  using inv_shape [OF assms(1,2)] assms(3)
  by (auto simp: shape_ok_def rule_state_defs split: InProgressInfo.splits)

lemma inv_wait: "engine_inv done n hi hs s \<Longrightarrow> waitOf s t = requestsOf t (allReqs hi s)"
  by (simp add: engine_inv_defs)

lemma requestsOf_pos: "r \<in># R \<Longrightarrow> ir_task r = Some t \<Longrightarrow> requestsOf t R > 0"
  by (auto simp: requestsOf_def simp flip: nonempty_has_size)

lemma requestsOf_union [simp]: "requestsOf t (A + B) = requestsOf t A + requestsOf t B"
  by (simp add: requestsOf_def)

lemma requestsOf_single [simp]: "requestsOf t {#r#} = (if ir_task r = Some t then 1 else 0)"
  by (simp add: requestsOf_def)

lemma requestsOf_add_mset [simp]:
  "requestsOf t (add_mset r R) = (if ir_task r = Some t then 1 else 0) + requestsOf t R"
  by (simp add: requestsOf_def)

lemma requestsOf_empty [simp]: "requestsOf t {#} = 0"
  by (simp add: requestsOf_def)

text \<open>The task of a request in flight is alive and waits.\<close>

lemma inv_requester:
  assumes "engine_inv done n hi hs s" "r \<in># allReqs hi s" "ir_task r = Some t"
  obtains ti where "getTaskInfo s t = Some ti" "ti_waitCount ti > 0"
proof -
  have "waitOf s t > 0"
    using inv_wait [OF assms(1)] requestsOf_pos [OF assms(2,3)] by simp
  then show thesis
    using that by (auto simp: waitOf_def split: option.splits)
qed

lemma inv_not_ready: "engine_inv done n hi hs s \<Longrightarrow> waitOf s t > 0 \<Longrightarrow> t \<notin> set (readyTaskInfos s)"
  by (auto simp: engine_inv_defs)

section \<open>Updates of one rule\<close>

lemma fields_putRule [simp]:
  "ruleInfos (putRule k ri s) = AList.update k ri (ruleInfos s)"
  "taskInfos (putRule k ri s) = taskInfos s"
  "inputRequests (putRule k ri s) = inputRequests s"
  "finishedInputRequests (putRule k ri s) = finishedInputRequests s"
  "ruleInfosToScan (putRule k ri s) = ruleInfosToScan s"
  "currentEpoch (putRule k ri s) = currentEpoch s"
  "nextTask (putRule k ri s) = nextTask s"
  "readyTaskInfos (putRule k ri s) = readyTaskInfos s"
  "numOutstandingUnfinishedTasks (putRule k ri s) = numOutstandingUnfinishedTasks s"
  "finishedTaskInfos (putRule k ri s) = finishedTaskInfos s"
  "e_client (putRule k ri s) = e_client s"
  "e_db (putRule k ri s) = e_db s"
  by (simp_all add: putRule_def)

lemma fields_putTask [simp]:
  "ruleInfos (putTask t ti s) = ruleInfos s"
  "taskInfos (putTask t ti s) = AList.update t ti (taskInfos s)"
  "inputRequests (putTask t ti s) = inputRequests s"
  "finishedInputRequests (putTask t ti s) = finishedInputRequests s"
  "ruleInfosToScan (putTask t ti s) = ruleInfosToScan s"
  "currentEpoch (putTask t ti s) = currentEpoch s"
  "nextTask (putTask t ti s) = nextTask s"
  "readyTaskInfos (putTask t ti s) = readyTaskInfos s"
  "numOutstandingUnfinishedTasks (putTask t ti s) = numOutstandingUnfinishedTasks s"
  "finishedTaskInfos (putTask t ti s) = finishedTaskInfos s"
  "e_client (putTask t ti s) = e_client s"
  "e_db (putTask t ti s) = e_db s"
  by (simp_all add: putTask_def)

lemma fields_emit [simp]:
  "ruleInfos (emit ev s) = ruleInfos s"
  "taskInfos (emit ev s) = taskInfos s"
  "inputRequests (emit ev s) = inputRequests s"
  "finishedInputRequests (emit ev s) = finishedInputRequests s"
  "ruleInfosToScan (emit ev s) = ruleInfosToScan s"
  "currentEpoch (emit ev s) = currentEpoch s"
  "nextTask (emit ev s) = nextTask s"
  "readyTaskInfos (emit ev s) = readyTaskInfos s"
  "numOutstandingUnfinishedTasks (emit ev s) = numOutstandingUnfinishedTasks s"
  "finishedTaskInfos (emit ev s) = finishedTaskInfos s"
  "e_client (emit ev s) = e_client s"
  "e_db (emit ev s) = e_db s"
  by (simp_all add: emit_def)

lemma waitOf_putRule [simp]: "waitOf (putRule k ri s) = waitOf s"
  by (simp add: waitOf_def fun_eq_iff)

lemma shape_ok_putRule [simp]: "shape_ok (putRule k ri s) = shape_ok s"
  by (auto simp: shape_ok_def fun_eq_iff split: InProgressInfo.split)

text \<open>A change of a rule that keeps its pending work, and with it its place in the build.\<close>

definition calm :: "Epoch \<Rightarrow> RuleInfo \<Rightarrow> RuleInfo \<Rightarrow> bool" where
  "calm ep ri ri' \<longleftrightarrow> ri_inProgress ri' = ri_inProgress ri
     \<and> (deps_invar (dependencies (ri_result ri)) \<longrightarrow> deps_invar (dependencies (ri_result ri')))
     \<and> (isComplete ep ri \<longrightarrow> isComplete ep ri')
     \<and> (isScanning ri \<longrightarrow> isScanning ri' \<and> dependencies (ri_result ri') = dependencies (ri_result ri))
     \<and> (isInProgress ri \<longrightarrow> ri_state ri' = ri_state ri)
     \<and> (\<not> isScanning ri \<and> \<not> isInProgress ri \<longrightarrow> \<not> isScanning ri' \<and> \<not> isInProgress ri')
     \<and> (isScanned ep ri \<and> ri_wasForced ri \<longrightarrow> isScanned ep ri' \<and> ri_wasForced ri')"

lemma calm_lists: "calm ep ri ri' \<Longrightarrow> reqs_rule ri' = reqs_rule ri \<and> scans_rule ri' = scans_rule ri"
  by (simp add: calm_def reqs_rule_def scans_rule_def)

lemma in_flight_putRule:
  assumes "getRule s k = Some ri"
  shows "reqs_rule ri' = reqs_rule ri \<Longrightarrow> allReqs hi (putRule k ri' s) = allReqs hi s"
    and "scans_rule ri' = scans_rule ri \<Longrightarrow> allScans hs (putRule k ri' s) = allScans hs s"
  using assms by (simp_all add: allReqs_def allScans_def getRule_def asum_update_same)

lemma progressOf_putRule:
  assumes "getRule s k = Some ri" "ri_inProgress ri' = ri_inProgress ri"
  shows "progressOf (putRule k ri' s) = progressOf s"
  using assms by (auto simp: progressOf_def fun_eq_iff)

lemma taskState_putRule:
  assumes "getRule s k = Some ri" "\<And>t ti. getTaskInfo s t = Some ti \<Longrightarrow> ti_forRule ti = k \<Longrightarrow> ri_state ri' = ri_state ri"
  shows "taskState (putRule k ri' s) = taskState s"
  using assms by (auto simp: taskState_def fun_eq_iff split: option.split)

lemma engine_inv_calm:
  assumes inv: "engine_inv done n hi hs s" and ri: "getRule s k = Some ri"
    and calm: "calm (currentEpoch s) ri ri'"
  shows "engine_inv done n hi hs (putRule k ri' s)"
proof -
  have shape: "shape_ok s k ri'"
    using inv_shape [OF inv ri] calm
    by (auto simp: shape_ok_def calm_def rule_state_defs split: InProgressInfo.splits)
  note same = in_flight_putRule [OF ri, of ri'] calm_lists [OF calm]
  have ts: "taskState (putRule k ri' s) = taskState s"
  proof (rule taskState_putRule [OF ri])
    fix t ti assume "getTaskInfo s t = Some ti" "ti_forRule ti = k"
    with inv_task [OF inv, of t ti] ri have "isInProgress ri" by auto
    with calm show "ri_state ri' = ri_state ri" by (simp add: calm_def)
  qed
  have fin: "finished_ok (putRule k ri' s) r" if "finished_ok s r" for r
    using that ri calm by (auto simp: finished_ok_def calm_def)
  have sok: "scan_ok (putRule k ri' s) q" if "scan_ok s q" for q
    using that ri calm by (auto simp: scan_ok_def calm_def)
  have rok: "req_ok (putRule k ri' s) r" if "req_ok s r" for r
    using that ri by (auto simp: req_ok_def)
  have scanning: "isScanning ri" "dependencies (ri_result ri') = dependencies (ri_result ri)" if "isScanning ri'"
    using that calm inv_shape [OF inv ri]
    by (auto simp: calm_def shape_ok_def rule_state_defs split: InProgressInfo.splits)
  have prog: "ri_inProgress ri' = ri_inProgress ri"
    using calm by (simp add: calm_def)
  note D = engine_invD [OF inv]
  show ?thesis
  proof (rule engine_invI)
    show "rules_inv (putRule k ri' s)"
      using D(1) shape ri calm by (simp add: rules_inv_def calm_def)
    show "tasks_inv (putRule k ri' s)"
      using D(2) by (simp add: tasks_inv_def progressOf_putRule [OF ri prog])
    show "reqs_inv hi (putRule k ri' s)"
      using D(3) same rok fin by (simp add: reqs_inv_def)
    show "scans_inv hs (putRule k ri' s)"
      using D(4) same sok scanning ri by (auto simp: scans_inv_def)
    show "ready_inv (putRule k ri' s)"
      using D(5) by (simp add: ts cong: ready_inv_cong)
    show "finish_inv done n (putRule k ri' s)"
      using D(6) by (simp add: ts cong: finish_inv_cong)
  qed
qed

lemma engine_inv_newRule:
  assumes inv: "engine_inv done n hi hs s" and new: "getRule s k = None"
    and ri: "ri_inProgress ri = NoInfo" "ri_state ri = Incomplete" "deps_invar (dependencies (ri_result ri))"
  shows "engine_inv done n hi hs (putRule k ri s)"
proof -
  have lists: "reqs_rule ri = []" "scans_rule ri = []" and idle: "\<not> isScanning ri" "\<not> isInProgress ri"
    using ri by (simp_all add: reqs_rule_def scans_rule_def rule_state_defs)
  have flight: "allReqs hi (putRule k ri s) = allReqs hi s" "allScans hs (putRule k ri s) = allScans hs s"
    using new lists by (simp_all add: allReqs_def allScans_def getRule_def asum_update_None)
  note D = engine_invD [OF inv]
  have other: "ti_forRule ti \<noteq> k" if "getTaskInfo s t = Some ti" for t ti
    by (rule inv_task [OF inv that]) (use new in auto)
  then have ts: "taskState (putRule k ri s) = taskState s"
    by (auto simp: taskState_def fun_eq_iff split: option.split)
  have fin: "finished_ok (putRule k ri s) r" if "finished_ok s r" for r
    using that new by (auto simp: finished_ok_def)
  have sok: "scan_ok (putRule k ri s) q" if "scan_ok s q" for q
    using that new by (auto simp: scan_ok_def)
  have rok: "req_ok (putRule k ri s) r" if "req_ok s r" for r
    using that by (auto simp: req_ok_def)
  show ?thesis
  proof (rule engine_invI)
    show "rules_inv (putRule k ri s)"
      using D(1) ri idle by (simp add: rules_inv_def shape_ok_def)
    show "tasks_inv (putRule k ri s)"
      using D(2) other by (auto simp: tasks_inv_def progressOf_def)
    show "reqs_inv hi (putRule k ri s)"
      using D(3) flight rok fin by (simp add: reqs_inv_def)
    show "scans_inv hs (putRule k ri s)"
      using D(4) flight sok idle lists by (auto simp: scans_inv_def)
    show "ready_inv (putRule k ri s)"
      using D(5) by (simp add: ts cong: ready_inv_cong)
    show "finish_inv done n (putRule k ri s)"
      using D(6) by (simp add: ts cong: finish_inv_cong)
  qed
qed

section \<open>Looking up a rule\<close>

definition adds_rule :: "KeyID \<Rightarrow> ('c, 'd) engine \<Rightarrow> ('c, 'd) engine \<Rightarrow> bool" where
  "adds_rule k s s' \<longleftrightarrow>
     (if getRule s k \<noteq> None then same_core s s'
      else \<exists>ri. ri_inProgress ri = NoInfo \<and> ri_state ri = Incomplete
        \<and> deps_invar (dependencies (ri_result ri)) \<and> same_core (putRule k ri s) s')"

lemma addRule_adds:
  assumes env: "client_contract env" and new: "getRule s k = None"
  shows "adds_rule k s (addRule env k rule s)"
proof -
  obtain res where "deps_invar (dependencies res)"
    "same_core (putRule k ((newRuleInfo k rule)\<lparr>ri_result := res\<rparr>) s) (addRule env k rule s)"
  proof (cases "e_db s")
    case None
    with new show thesis
      by (intro that [of initial_result])
        (simp_all add: addRule_def same_core_def newRuleInfo_def initial_result_def)
  next
    case (Some db)
    obtain found err where found: "db_lookupRuleResult env db k (rule_key rule) = (found, err)" by force
    let ?res = "case found of None \<Rightarrow> initial_result | Some r \<Rightarrow> r"
    from found env have "deps_invar (dependencies ?res)"
      by (cases found) (simp_all add: initial_result_def contract_lookup)
    with found Some new show thesis
      by (intro that [of ?res])
        (auto simp: addRule_def same_core_def newRuleInfo_def Let_def split: option.split)
  qed
  moreover have "ri_inProgress ((newRuleInfo k rule)\<lparr>ri_result := res\<rparr>) = NoInfo"
      "ri_state ((newRuleInfo k rule)\<lparr>ri_result := res\<rparr>) = Incomplete"
      "ri_result ((newRuleInfo k rule)\<lparr>ri_result := res\<rparr>) = res"
    by (simp_all add: newRuleInfo_def)
  ultimately show ?thesis
    using new unfolding adds_rule_def by metis
qed

lemma getRuleInfoForKeyID_adds:
  "client_contract env \<Longrightarrow> adds_rule k s (getRuleInfoForKeyID env k s)"
  using addRule_adds [of env s k]
  by (auto simp: getRuleInfoForKeyID_def adds_rule_def same_core_def split: option.split)

lemma same_core_get:
  "same_core s s' \<Longrightarrow> getRule s' = getRule s \<and> getTaskInfo s' = getTaskInfo s"
  by (auto simp: same_core_def getRule_def getTaskInfo_def)

lemma same_core_trans: "same_core s s' \<Longrightarrow> same_core s' s'' \<Longrightarrow> same_core s s''"
  by (simp add: same_core_def)

lemma getRuleInfoForKey_adds:
  assumes env: "client_contract env"
  shows "\<exists>s'. getRuleInfoForKey env k s = (k, s') \<and> adds_rule k s s'"
proof -
  define s1 where "s1 = snd (getKeyID k s)"
  have s1: "same_core s s1" "getKeyID k s = (k, s1)"
    by (simp_all add: s1_def getKeyID_def same_core_def)
  have "adds_rule k s s'" if "adds_rule k s1 s'" for s'
  proof -
    have "same_core (putRule k ri s) (putRule k ri s1)" for ri
      using s1(1) by (simp add: same_core_def)
    then show ?thesis
      using that s1(1) same_core_get [OF s1(1)] same_core_trans
      by (fastforce simp: adds_rule_def split: if_splits)
  qed
  moreover have "adds_rule k s1 (case getRule s1 k of Some _ \<Rightarrow> s1 | None \<Rightarrow> addRule env k rule s1)" for rule
    using addRule_adds [OF env, of s1 k] by (auto simp: adds_rule_def same_core_def split: option.split)
  ultimately show ?thesis
    using s1(2) by (auto simp: getRuleInfoForKey_def)
qed

lemma adds_rule_inv:
  assumes "engine_inv done n hi hs s" "adds_rule k s s'"
  shows "engine_inv done n hi hs s'"
  using assms engine_inv_newRule [OF assms(1)] engine_inv_cong
  by (fastforce simp: adds_rule_def split: if_splits)

section \<open>What callbacks leave alone\<close>

definition quiet_rule :: "RuleInfo \<Rightarrow> RuleInfo \<Rightarrow> bool" where
  "quiet_rule ri ri' \<longleftrightarrow> ri_state ri' = ri_state ri \<and> ri_inProgress ri' = ri_inProgress ri
     \<and> dependencies (ri_result ri') = dependencies (ri_result ri)
     \<and> builtAt (ri_result ri') = builtAt (ri_result ri)
     \<and> ri_wasForced ri' = ri_wasForced ri \<and> ri_rule ri' = ri_rule ri"

definition quiet :: "('c, 'd) engine \<Rightarrow> ('c, 'd) engine \<Rightarrow> bool" where
  "quiet s s' \<longleftrightarrow>
     (\<forall>k ri. getRule s k = Some ri \<longrightarrow> (\<exists>ri'. getRule s' k = Some ri' \<and> quiet_rule ri ri'))
     \<and> (\<forall>t. map_option ti_forRule (getTaskInfo s' t) = map_option ti_forRule (getTaskInfo s t))
     \<and> readyTaskInfos s' = readyTaskInfos s \<and> currentEpoch s' = currentEpoch s \<and> nextTask s' = nextTask s"

lemma quiet_rule_trans: "quiet_rule a b \<Longrightarrow> quiet_rule b c \<Longrightarrow> quiet_rule a c"
  by (simp add: quiet_rule_def)

lemma quiet_trans: "quiet s s' \<Longrightarrow> quiet s' s'' \<Longrightarrow> quiet s s''"
  using quiet_rule_trans by (fastforce simp: quiet_def)

lemma quiet_same_core: "same_core s s' \<Longrightarrow> quiet s s'"
  using same_core_get [of s s'] by (simp add: quiet_def quiet_rule_def same_core_def)

lemma quiet_taskState: "quiet s s' \<Longrightarrow> taskState s t = Some x \<Longrightarrow> taskState s' t = Some x"
proof -
  assume q: "quiet s s'" and x: "taskState s t = Some x"
  then obtain ti ri where "getTaskInfo s t = Some ti" "getRule s (ti_forRule ti) = Some ri" "ri_state ri = x"
    by (auto simp: taskState_def split: option.splits)
  moreover from this q obtain ti' where "getTaskInfo s' t = Some ti'" "ti_forRule ti' = ti_forRule ti"
    unfolding quiet_def by (metis (no_types, lifting) map_option_eq_Some)
  ultimately show "taskState s' t = Some x"
    using q by (fastforce simp: taskState_def quiet_def quiet_rule_def)
qed

lemma adds_rule_quiet:
  assumes "adds_rule k s s'" shows "quiet s s'" "getRule s' k \<noteq> None" "getTaskInfo s' = getTaskInfo s"
    "finishedTaskInfos s' = finishedTaskInfos s" "inputRequests s' = inputRequests s"
proof -
  have "quiet s (putRule k ri s)" if "getRule s k = None" for ri
    using that by (auto simp: quiet_def quiet_rule_def)
  with assms show "quiet s s'"
    using quiet_same_core quiet_trans by (fastforce simp: adds_rule_def split: if_splits)
  show "getRule s' k \<noteq> None" "getTaskInfo s' = getTaskInfo s"
    using assms by (auto simp: adds_rule_def fun_eq_iff split: if_splits dest!: same_core_get)
  show "finishedTaskInfos s' = finishedTaskInfos s" "inputRequests s' = inputRequests s"
    using assms by (auto simp: adds_rule_def same_core_def split: if_splits)
qed

section \<open>Updates of one task\<close>

lemma task_views_putTask:
  assumes "getTaskInfo s t = Some ti" "ti_forRule ti' = ti_forRule ti"
  shows "taskState (putTask t ti' s) = taskState s" "progressOf (putTask t ti' s) = progressOf s"
    "shape_ok (putTask t ti' s) = shape_ok s"
  using assms
  by (auto simp: taskState_def progressOf_def shape_ok_def fun_eq_iff split: option.split InProgressInfo.split)

lemma req_ok_cong: "getRule s' = getRule s \<Longrightarrow> req_ok s' = req_ok s"
  by (simp add: req_ok_def fun_eq_iff)

lemma finished_ok_cong:
  "getRule s' = getRule s \<Longrightarrow> currentEpoch s' = currentEpoch s \<Longrightarrow> finished_ok s' = finished_ok s"
  by (simp add: finished_ok_def fun_eq_iff)

lemma scan_ok_cong:
  "getRule s' = getRule s \<Longrightarrow> currentEpoch s' = currentEpoch s \<Longrightarrow> scan_ok s' = scan_ok s"
  by (simp add: scan_ok_def fun_eq_iff)

text \<open>
  The general change of a task's record: new requests on a task, in the queues, or in hand, as
  long as the wait counts fit.
\<close>

lemma engine_inv_putTask:
  assumes inv: "engine_inv done n hi hs s" and ti: "getTaskInfo s t = Some ti"
    and for_rule: "ti_forRule ti' = ti_forRule ti" "deps_invar (ti_discovered ti')"
    and core: "ruleInfos s' = ruleInfos s" "taskInfos s' = AList.update t ti' (taskInfos s)"
      "currentEpoch s' = currentEpoch s" "nextTask s' = nextTask s"
      "finishedTaskInfos s' = finishedTaskInfos s"
      "numOutstandingUnfinishedTasks s' = numOutstandingUnfinishedTasks s"
    and reqs: "\<And>t'. waitOf s' t' = requestsOf t' (allReqs hi' s')" "\<And>r. r \<in># allReqs hi' s' \<Longrightarrow> req_ok s r"
      "\<And>r. r \<in> set (finishedInputRequests s') \<Longrightarrow> finished_ok s r"
      "\<And>r. r \<in> set (ti_requestedBy ti') \<Longrightarrow> ir_task r \<noteq> None \<and> ir_inputRule r = ti_forRule ti"
    and scans: "allScans hs' s' = allScans hs s"
    and ready: "distinct (readyTaskInfos s')"
      "\<And>t'. t' \<in> set (readyTaskInfos s') \<Longrightarrow> taskState s t' = Some InProgressWaiting \<and> waitOf s' t' = 0"
      "\<And>t'. taskState s t' = Some InProgressComputing \<Longrightarrow> waitOf s' t' = 0"
  shows "engine_inv done n hi' hs' s'"
proof -
  have get: "getRule s' = getRule s" "getTaskInfo s' = (getTaskInfo s)(t := Some ti')"
    using core(1,2) by (auto simp: getRule_def getTaskInfo_def)
  have ts: "taskState s' = taskState s" "progressOf s' = progressOf s" "shape_ok s' = shape_ok s"
    using ti for_rule get
    by (auto simp: taskState_def progressOf_def shape_ok_def fun_eq_iff split: option.split InProgressInfo.split)
  note ok = req_ok_cong [OF get(1)] finished_ok_cong [OF get(1) core(3)] scan_ok_cong [OF get(1) core(3)]
  note D = engine_invD [OF inv]
  show ?thesis
  proof (rule engine_invI)
    show "rules_inv s'"
      using D(1) by (simp add: rules_inv_def core ts get)
    show "tasks_inv s'"
      using D(2) ti for_rule by (auto simp: tasks_inv_def core ts get)
    show "reqs_inv hi' s'"
      using D(3) reqs for_rule by (auto simp: reqs_inv_def ok get split: if_splits)
    show "scans_inv hs' s'"
      using D(4) by (simp add: scans_inv_def scans get ok)
    show "ready_inv s'"
      using ready by (simp add: ready_inv_def ts)
    show "finish_inv done n s'"
      using D(6) core by (simp add: finish_inv_def computing_def ts)
  qed
qed

section \<open>TaskInterface calls\<close>

lemma engine_inv_request:
  assumes inv: "engine_inv done n hi hs s" and ti: "getTaskInfo s t = Some ti"
    and t: "t \<notin> set (readyTaskInfos s)" "taskState s t = Some InProgressWaiting"
    and r: "req_ok s r" "ir_task r = Some t"
  shows "engine_inv done n hi hs (putTask t (ti\<lparr>ti_waitCount := ti_waitCount ti + 1\<rparr>)
           (s\<lparr>inputRequests := inputRequests s @ [r]\<rparr>))" (is "engine_inv _ _ _ _ ?s'")
proof -
  note D = engine_invD [OF inv]
  have reqs: "allReqs hi ?s' = allReqs hi s + {#r#}" and scans: "allScans hs ?s' = allScans hs s"
    using ti by (simp_all add: allReqs_def allScans_def getTaskInfo_def asum_update_same)
  have wait: "waitOf ?s' t' = (if t' = t then waitOf s t + 1 else waitOf s t')" for t'
    using ti by (simp add: waitOf_def getTaskInfo_def)
  show ?thesis
  proof (rule engine_inv_putTask [OF inv ti])
    show "waitOf ?s' t' = requestsOf t' (allReqs hi ?s')" for t'
      using inv_wait [OF inv] r(2) unfolding reqs wait by auto
    show "r' \<in># allReqs hi ?s' \<Longrightarrow> req_ok s r'" for r'
      using D(3) r(1) unfolding reqs by (auto simp: reqs_inv_def)
    show "r \<in> set (finishedInputRequests ?s') \<Longrightarrow> finished_ok s r" for r
      using D(3) by (auto simp: reqs_inv_def)
    show "r \<in> set (ti_requestedBy (ti\<lparr>ti_waitCount := ti_waitCount ti + 1\<rparr>)) \<Longrightarrow>
        ir_task r \<noteq> None \<and> ir_inputRule r = ti_forRule ti" for r
      using D(3) ti by (auto simp: reqs_inv_def)
    show "distinct (readyTaskInfos ?s')"
      using D(5) by (simp add: ready_inv_def)
    show "taskState s t' = Some InProgressWaiting \<and> waitOf ?s' t' = 0" if "t' \<in> set (readyTaskInfos ?s')" for t'
      using D(5) t that unfolding wait by (auto simp: ready_inv_def)
    show "waitOf ?s' t' = 0" if "taskState s t' = Some InProgressComputing" for t'
      using D(5) t that unfolding wait by (auto simp: ready_inv_def)
  qed (use scans inv_discovered [OF inv ti] in simp_all)
qed

lemma engine_inv_minor_task:
  assumes inv: "engine_inv done n hi hs s" and ti: "getTaskInfo s t = Some ti" "deps_invar ds"
  shows "engine_inv done n hi hs (putTask t (ti\<lparr>ti_discovered := ds\<rparr>) s)" (is "engine_inv _ _ _ _ ?s'")
proof -
  note D = engine_invD [OF inv]
  have reqs: "allReqs hi ?s' = allReqs hi s" and scans: "allScans hs ?s' = allScans hs s"
    using ti by (simp_all add: allReqs_def allScans_def getTaskInfo_def asum_update_same)
  have wait: "waitOf ?s' = waitOf s"
    using ti by (auto simp: waitOf_def fun_eq_iff)
  show ?thesis
    by (rule engine_inv_putTask [OF inv ti(1)])
      (use D(3,5) ti in \<open>auto simp: scans reqs wait reqs_inv_def ready_inv_def\<close>)
qed

lemma quiet_putTask:
  "getTaskInfo s t = Some ti \<Longrightarrow> ti_forRule ti' = ti_forRule ti \<Longrightarrow> quiet s (putTask t ti' s)"
  by (auto simp: quiet_def quiet_rule_def)

text \<open>A task that may ask for inputs: it waits, and is not on the ready queue.\<close>

definition may_request :: "TaskId \<Rightarrow> ('c, 'd) engine \<Rightarrow> bool" where
  "may_request t s \<longleftrightarrow> taskState s t = Some InProgressWaiting \<and> t \<notin> set (readyTaskInfos s)"

lemma may_request_quiet: "quiet s s' \<Longrightarrow> may_request t s \<Longrightarrow> may_request t s'"
  using quiet_taskState by (fastforce simp: may_request_def quiet_def)

lemma taskState_Some:
  assumes "taskState s t = Some x"
  obtains ti ri where "getTaskInfo s t = Some ti" "getRule s (ti_forRule ti) = Some ri" "ri_state ri = x"
  using assms by (auto simp: taskState_def split: option.splits)

lemma addTaskInputRequest_ok:
  assumes env: "client_contract env" and inv: "engine_inv done n hi hs s" and t: "may_request t s"
    and oo: "orderOnly \<longrightarrow> inputID = kMustFollowInputID"
  shows "\<exists>s'. addTaskInputRequest env t key inputID orderOnly singleUse s = Some s'
    \<and> engine_inv done n hi hs s' \<and> quiet s s'"
proof -
  from t obtain ti ri where ti: "getTaskInfo s t = Some ti"
      and ri: "getRule s (ti_forRule ti) = Some ri" "ri_state ri = InProgressWaiting"
    by (auto simp: may_request_def elim: taskState_Some)
  obtain s1 where s1: "getRuleInfoForKey env key s = (key, s1)" "adds_rule key s s1"
    using getRuleInfoForKey_adds [OF env] by blast
  let ?r = "\<lparr>ir_task = Some t, ir_inputID = inputID, ir_inputRule = key, ir_orderOnly = orderOnly,
              ir_forcePriorValue = False, ir_singleUse = singleUse\<rparr>"
  let ?ti = "ti\<lparr>ti_waitCount := ti_waitCount ti + 1\<rparr>"
  let ?s2 = "s1\<lparr>inputRequests := inputRequests s1 @ [?r]\<rparr>"
  note q1 = adds_rule_quiet [OF s1(2)]
  have "engine_inv done n hi hs (putTask t ?ti ?s2)"
  proof (rule engine_inv_request [OF adds_rule_inv [OF inv s1(2)]])
    show "getTaskInfo s1 t = Some ti" using ti q1(3) by simp
    show "t \<notin> set (readyTaskInfos s1)" using t q1(1) by (simp add: may_request_def quiet_def)
    show "taskState s1 t = Some InProgressWaiting"
      using t quiet_taskState [OF q1(1)] by (simp add: may_request_def)
    show "req_ok s1 ?r" using q1(2) oo by (auto simp: req_ok_def)
  qed simp
  moreover have "quiet s1 (putTask t ?ti ?s2)"
  proof -
    have "getTaskInfo s1 t = Some ti" using ti q1(3) by simp
    then show ?thesis by (auto simp: quiet_def quiet_rule_def getRule_def getTaskInfo_def)
  qed
  moreover have "addTaskInputRequest env t key inputID orderOnly singleUse s = Some (putTask t ?ti ?s2)"
    using ti ri s1(1) q1(3) by (simp add: addTaskInputRequest_def isInProgressWaiting_def)
  ultimately show ?thesis
    using quiet_trans [OF q1(1)] by blast
qed

lemma finite_computing: "finite (computing done s)"
proof (rule finite_subset)
  show "computing done s \<subseteq> set (map fst (taskInfos s))"
    by (auto simp: computing_def taskState_def getTaskInfo_def map_of_eq_None_iff image_iff
        split: option.splits dest!: map_of_SomeD)
qed simp

lemma engine_inv_finish:
  assumes inv: "engine_inv done n hi hs s" and t: "taskState s t = Some InProgressComputing"
    and new: "t \<notin> done" "t \<notin> set (finishedTaskInfos s)"
  shows "engine_inv done n hi hs (s\<lparr>finishedTaskInfos := finishedTaskInfos s @ [t]\<rparr>)"
    (is "engine_inv _ _ _ _ ?s'")
proof -
  note D = engine_invD [OF inv]
  have get: "getRule ?s' = getRule s" "getTaskInfo ?s' = getTaskInfo s"
    by (auto simp: getRule_def getTaskInfo_def)
  then have views: "taskState ?s' = taskState s" "progressOf ?s' = progressOf s" "shape_ok ?s' = shape_ok s"
      "waitOf ?s' = waitOf s" "allReqs hi ?s' = allReqs hi s" "allScans hs ?s' = allScans hs s"
    by (auto simp: taskState_def progressOf_def shape_ok_def waitOf_def allReqs_def allScans_def fun_eq_iff
        split: option.split InProgressInfo.split)
  have "t \<in> computing done s" using t new by (simp add: computing_def)
  moreover have "computing done ?s' = computing done s - {t}"
    by (auto simp: computing_def views)
  ultimately have "card (computing done s) = card (computing done ?s') + 1"
    using card.remove [OF finite_computing, of t "done" s] by simp
  then have "finish_inv done n ?s'"
    using D(6) t new by (auto simp: finish_inv_def views)
  note ok = req_ok_cong [OF get(1)] finished_ok_cong [OF get(1)] scan_ok_cong [OF get(1)]
  show ?thesis
  proof (rule engine_invI)
    show "rules_inv ?s'" using D(1) by (simp add: rules_inv_def views get)
    show "tasks_inv ?s'" using D(2) by (simp add: tasks_inv_def views get)
    show "reqs_inv hi ?s'" using D(3) ok by (simp add: reqs_inv_def views get)
    show "scans_inv hs ?s'" using D(4) ok by (simp add: scans_inv_def views get)
    show "ready_inv ?s'" using D(5) by (simp add: ready_inv_def views)
  qed fact
qed

lemma taskIsComplete_ok:
  assumes inv: "engine_inv done n hi hs s" and t: "taskState s t = Some x"
    and once: "x = InProgressComputing \<longrightarrow> t \<notin> done \<and> t \<notin> set (finishedTaskInfos s)"
  shows "\<exists>s'. taskIsComplete t val forceChange s = Some s' \<and> engine_inv done n hi hs s' \<and> quiet s s'"
proof -
  from t obtain ti ri where ti: "getTaskInfo s t = Some ti"
      and ri: "getRule s (ti_forRule ti) = Some ri" "ri_state ri = x"
    by (elim taskState_Some)
  show ?thesis
  proof (cases "x = InProgressComputing")
    case False
    with ti ri show ?thesis
      using inv quiet_same_core [of s]
      by (auto simp: taskIsComplete_def isInProgressComputing_def engine_simps same_core_def)
  next
    case True
    have pend: "getPendingTaskInfo ri = Some (Some t)"
      by (rule inv_task [OF inv ti]) (use ri(1) in \<open>auto simp: getPendingTaskInfo_def\<close>)
    define res where "res = (let res = (ri_result ri)\<lparr>res_signature := rule_signature (ri_rule ri)\<rparr> in
      if \<not> forceChange \<and> val = res_value res then res else res\<lparr>res_value := val, computedAt := currentEpoch s\<rparr>)"
    define s1 where "s1 = putRule (ti_forRule ti) (ri\<lparr>ri_result := res\<rparr>) s"
    have res: "dependencies res = dependencies (ri_result ri)" "builtAt res = builtAt (ri_result ri)"
      by (simp_all add: res_def Let_def)
    have inv1: "engine_inv done n hi hs s1"
      unfolding s1_def using res ri True
      by (intro engine_inv_calm [OF inv ri(1)]) (simp add: calm_def rule_state_defs)
    have q1: "quiet s s1"
      unfolding s1_def using ri(1) res by (auto simp: quiet_def quiet_rule_def)
    let ?s2 = "s1\<lparr>finishedTaskInfos := finishedTaskInfos s1 @ [t]\<rparr>"
    have "engine_inv done n hi hs ?s2"
      using once True quiet_taskState [OF q1 t]
      by (intro engine_inv_finish [OF inv1]) (simp_all add: s1_def)
    moreover have "quiet s1 ?s2"
      by (simp add: quiet_def quiet_rule_def getRule_def getTaskInfo_def)
    moreover have "taskIsComplete t val forceChange s = Some ?s2"
      using ti ri True pend
      by (simp add: taskIsComplete_def isInProgressComputing_def s1_def res_def Let_def)
    ultimately show ?thesis
      using quiet_trans [OF q1] by blast
  qed
qed

lemma taskDiscoveredDependency_ok:
  assumes inv: "engine_inv done n hi hs s" and t: "taskState s t = Some x"
  shows "\<exists>s'. taskDiscoveredDependency t key s = Some s' \<and> engine_inv done n hi hs s' \<and> quiet s s'
    \<and> finishedTaskInfos s' = finishedTaskInfos s"
proof -
  from t obtain ti ri where ti: "getTaskInfo s t = Some ti"
      and ri: "getRule s (ti_forRule ti) = Some ri" "ri_state ri = x"
    by (elim taskState_Some)
  define s1 where "s1 = snd (getKeyID key s)"
  have s1: "getKeyID key s = (key, s1)" "same_core s s1"
    by (simp_all add: s1_def getKeyID_def same_core_def)
  then have ti1: "getTaskInfo s1 t = Some ti" using same_core_get [OF s1(2)] ti by simp
  have inv1: "engine_inv done n hi hs s1" using engine_inv_cong [OF s1(2)] inv by simp
  show ?thesis
  proof (cases "x = InProgressComputing")
    case False
    with ti ri show ?thesis
      using inv quiet_same_core [of s]
      by (auto simp: taskDiscoveredDependency_def isInProgressComputing_def engine_simps same_core_def)
  next
    case True
    with ti ri s1 show ?thesis
      using engine_inv_minor_task [OF inv1 ti1 deps.invar_push [OF inv_discovered [OF inv ti]]] quiet_putTask [OF ti1] quiet_same_core [OF s1(2)] quiet_trans
      by (fastforce simp: taskDiscoveredDependency_def isInProgressComputing_def same_core_def)
  qed
qed

section \<open>Callbacks\<close>

lemma fold_emit_same_core: "same_core s (fold (\<lambda>x. emit (f x)) xs s)"
proof (induction xs arbitrary: s)
  case (Cons x xs)
  from Cons [of "emit (f x) s"] show ?case by (simp add: same_core_def)
qed (simp add: same_core_def)

lemma cancelBuild_same_core: "same_core s (cancelBuild s)"
  using fold_emit_same_core [of s EvCancelled "cancellationDelegates s"]
  by (simp add: cancelBuild_def Let_def same_core_def)

lemma quiet_refl: "quiet s s"
  by (simp add: quiet_same_core same_core_def)

lemma reserved_id_error_same_core: "same_core s (reserved_id_error s)"
  by (simp add: reserved_id_error_def same_core_def)

lemma taskNeedsInput_ok:
  assumes env: "client_contract env" and inv: "engine_inv done n hi hs s" and t: "may_request t s"
  shows "\<exists>s'. taskNeedsInput env t key i s = Some s' \<and> engine_inv done n hi hs s' \<and> quiet s s'"
    "\<exists>s'. taskNeedsSingleUseInput env t key i s = Some s' \<and> engine_inv done n hi hs s' \<and> quiet s s'"
    "\<exists>s'. taskMustFollow env t key s = Some s' \<and> engine_inv done n hi hs s' \<and> quiet s s'"
  using addTaskInputRequest_ok [OF env inv t] inv engine_inv_cong [OF reserved_id_error_same_core [of s]]
    quiet_same_core [OF reserved_id_error_same_core [of s]]
  by (auto simp: taskNeedsInput_def taskNeedsSingleUseInput_def taskMustFollow_def)

lemma may_request_state: "may_request t s \<Longrightarrow> taskState s t = Some InProgressWaiting"
  by (simp add: may_request_def)

text \<open>A callback of a waiting task may do everything.\<close>

lemma runProg_waiting:
  assumes env: "client_contract env" and "engine_inv done n hi hs s" "may_request t s"
  shows "\<exists>s'. runProg env t p s = Some s' \<and> engine_inv done n hi hs s' \<and> quiet s s'"
  using assms(2,3)
proof (induction p arbitrary: s)
  case (Return c)
  then show ?case
    using quiet_same_core [of s "s\<lparr>e_client := c\<rparr>"] by (auto simp: engine_simps same_core_def)
next
  case (Request key i p)
  from taskNeedsInput_ok(1) [OF env Request.prems] obtain s1 where
    "taskNeedsInput env t key i s = Some s1" "engine_inv done n hi hs s1" "quiet s s1" by blast
  with Request show ?case using may_request_quiet quiet_trans by fastforce
next
  case (RequestSingleUse key i p)
  from taskNeedsInput_ok(2) [OF env RequestSingleUse.prems] obtain s1 where
    "taskNeedsSingleUseInput env t key i s = Some s1" "engine_inv done n hi hs s1" "quiet s s1" by blast
  with RequestSingleUse show ?case using may_request_quiet quiet_trans by fastforce
next
  case (MustFollow key p)
  from taskNeedsInput_ok(3) [OF env MustFollow.prems] obtain s1 where
    "taskMustFollow env t key s = Some s1" "engine_inv done n hi hs s1" "quiet s s1" by blast
  with MustFollow show ?case using may_request_quiet quiet_trans by fastforce
next
  case (DiscoveredDependency key p)
  from taskDiscoveredDependency_ok [OF DiscoveredDependency.prems(1) may_request_state, of t key]
    DiscoveredDependency.prems(2) obtain s1 where
    "taskDiscoveredDependency t key s = Some s1" "engine_inv done n hi hs s1" "quiet s s1" by blast
  with DiscoveredDependency show ?case using may_request_quiet quiet_trans by fastforce
next
  case (CompleteTask val forceChange p)
  from taskIsComplete_ok [OF CompleteTask.prems(1) may_request_state, of t val forceChange]
    CompleteTask.prems(2) obtain s1 where
    "taskIsComplete t val forceChange s = Some s1" "engine_inv done n hi hs s1" "quiet s s1" by auto
  with CompleteTask show ?case using may_request_quiet quiet_trans by fastforce
next
  case (CancelBuild p)
  note q = quiet_same_core [OF cancelBuild_same_core [of s]]
  from CancelBuild have "engine_inv done n hi hs (cancelBuild s)" "may_request t (cancelBuild s)"
    using may_request_quiet [OF q] engine_inv_cong [OF cancelBuild_same_core [of s]] by blast+
  with CancelBuild.IH show ?case using quiet_trans [OF q] by fastforce
qed auto

text \<open>A callback of a computing task must keep to the contract.\<close>

lemma runProg_computing:
  assumes "engine_inv done n hi hs s" "taskState s t = Some InProgressComputing"
    "computing_prog p b" "b \<longrightarrow> t \<notin> done \<and> t \<notin> set (finishedTaskInfos s)"
  shows "\<exists>s'. runProg env t p s = Some s' \<and> engine_inv done n hi hs s' \<and> quiet s s'"
  using assms
proof (induction p arbitrary: s b)
  case (Return c)
  then show ?case
    using quiet_same_core [of s "s\<lparr>e_client := c\<rparr>"] by (auto simp: engine_simps same_core_def)
next
  case (DiscoveredDependency key p)
  from taskDiscoveredDependency_ok [OF DiscoveredDependency.prems(1,2), of key] obtain s1 where
    s1: "taskDiscoveredDependency t key s = Some s1" "engine_inv done n hi hs s1" "quiet s s1"
      "finishedTaskInfos s1 = finishedTaskInfos s" by blast
  with DiscoveredDependency.IH [of s1 b] DiscoveredDependency.prems show ?case
    using quiet_taskState [OF s1(3)] quiet_trans [OF s1(3)] by fastforce
next
  case (CompleteTask val forceChange p)
  from taskIsComplete_ok [OF CompleteTask.prems(1,2), of val forceChange] CompleteTask.prems(3,4)
  obtain s1 where s1: "taskIsComplete t val forceChange s = Some s1" "engine_inv done n hi hs s1" "quiet s s1"
    by auto
  with CompleteTask.IH [of s1 False] CompleteTask.prems show ?case
    using quiet_taskState [OF s1(3)] quiet_trans [OF s1(3)] by fastforce
next
  case (CancelBuild p)
  note q = quiet_same_core [OF cancelBuild_same_core [of s]]
  have "engine_inv done n hi hs (cancelBuild s)" "finishedTaskInfos (cancelBuild s) = finishedTaskInfos s"
    using CancelBuild.prems(1) engine_inv_cong [OF cancelBuild_same_core [of s]] cancelBuild_same_core [of s]
    by (blast, simp add: same_core_def)
  with CancelBuild.IH [of "cancelBuild s" b] CancelBuild.prems show ?case
    using quiet_taskState [OF q] quiet_trans [OF q] by fastforce
next
  case (AskCancelled f)
  then show ?case by (metis computing_prog.simps(8) rangeI runProg.simps(8))
next
  case (AskEpoch f)
  then show ?case by (metis computing_prog.simps(9) rangeI runProg.simps(9))
qed auto

end
