(* ===== verification/BuildEngineScanning.thy ===== *)
theory BuildEngineScanning
  imports BuildEngineInvariant
begin

text \<open>
  Dependency scanning and demand keep the invariant of the build engine and do not fail: no
  assertion of \<^verbatim>\<open>scanRule\<close>, \<^verbatim>\<open>demandRule\<close>, \<^verbatim>\<open>processRuleScanRequest\<close> or
  \<^verbatim>\<open>finishScanRequest\<close> can be violated, and the scan of a rule ends.
\<close>

section \<open>What an operation keeps for a scan that is under way\<close>

definition keeps :: "('c, 'd) engine \<Rightarrow> ('c, 'd) engine \<Rightarrow> bool" where
  "keeps s s' \<longleftrightarrow> currentEpoch s' = currentEpoch s \<and>
     (\<forall>k ri. getRule s k = Some ri \<longrightarrow> (\<exists>ri'. getRule s' k = Some ri' \<and>
        (isScanning ri \<longrightarrow> isScanning ri' \<and> dependencies (ri_result ri') = dependencies (ri_result ri))))"

lemma keeps_refl: "keeps s s"
  by (simp add: keeps_def)

lemma keeps_trans: "keeps s s' \<Longrightarrow> keeps s' s'' \<Longrightarrow> keeps s s''"
  unfolding keeps_def by (metis (no_types, lifting))

lemma keeps_quiet: "quiet s s' \<Longrightarrow> keeps s s'"
  unfolding keeps_def quiet_def quiet_rule_def isScanning_def by (metis (no_types, lifting))

lemma keeps_same_core: "same_core s s' \<Longrightarrow> keeps s s'"
  by (simp add: keeps_quiet quiet_same_core)

lemma keeps_putRule:
  assumes "getRule s k = Some ri"
    "isScanning ri \<longrightarrow> isScanning ri' \<and> dependencies (ri_result ri') = dependencies (ri_result ri)"
  shows "keeps s (putRule k ri' s)"
  using assms by (auto simp: keeps_def)

lemma keeps_scanning:
  assumes "keeps s s'" "getRule s k = Some ri" "isScanning ri"
  obtains ri' where "getRule s' k = Some ri'" "isScanning ri'"
    "dependencies (ri_result ri') = dependencies (ri_result ri)"
  using assms unfolding keeps_def by blast

lemma keeps_rule: "keeps s s' \<Longrightarrow> getRule s k \<noteq> None \<Longrightarrow> getRule s' k \<noteq> None"
  unfolding keeps_def by fastforce

section \<open>Changes of a rule that move requests\<close>

lemma engine_inv_putRule:
  assumes inv: "engine_inv done n hi hs s" and ri: "getRule s k = Some ri"
    and core: "ruleInfos s' = AList.update k ri' (ruleInfos s)" "taskInfos s' = taskInfos s"
      "currentEpoch s' = currentEpoch s" "nextTask s' = nextTask s"
      "finishedTaskInfos s' = finishedTaskInfos s" "readyTaskInfos s' = readyTaskInfos s"
      "finishedInputRequests s' = finishedInputRequests s"
      "numOutstandingUnfinishedTasks s' = numOutstandingUnfinishedTasks s"
    and shape: "shape_ok s k ri'" "deps_invar (dependencies (ri_result ri'))"
      "\<not> isInProgress ri" "isComplete (currentEpoch s) ri \<longrightarrow> isComplete (currentEpoch s) ri'"
    and reqs: "allReqs hi' s' = allReqs hi s"
    and scans: "scans_inv hs' s'"
  shows "engine_inv done n hi' hs' s'"
proof -
  have get: "getRule s' = (getRule s)(k := Some ri')" "getTaskInfo s' = getTaskInfo s"
    using core(1,2) by (auto simp: getRule_def getTaskInfo_def)
  have other: "ti_forRule ti \<noteq> k" if "getTaskInfo s t = Some ti" for t ti
    by (rule inv_task [OF inv that]) (use ri shape(3) in auto)
  then have ts: "taskState s' = taskState s" "shape_ok s' = shape_ok s" "waitOf s' = waitOf s"
    by (auto simp: taskState_def shape_ok_def waitOf_def fun_eq_iff get
        split: option.split InProgressInfo.split)
  have rok: "req_ok s' r" if "req_ok s r" for r
    using that by (auto simp: req_ok_def get)
  have fin: "finished_ok s' r" if "finished_ok s r" for r
    using that ri shape(4) by (auto simp: finished_ok_def get core)
  note D = engine_invD [OF inv]
  show ?thesis
  proof (rule engine_invI)
    show "rules_inv s'"
      using D(1) shape by (simp add: rules_inv_def core ts get)
    show "tasks_inv s'"
      using D(2) other by (auto simp: tasks_inv_def core get progressOf_def)
    show "reqs_inv hi' s'"
      using D(3) rok fin by (simp add: reqs_inv_def reqs get core ts)
    show "ready_inv s'"
      using D(5) by (simp add: ready_inv_def ts core)
    show "finish_inv done n s'"
      using D(6) core by (simp add: finish_inv_def computing_def ts)
  qed (rule scans)
qed

text \<open>The requests in flight after the record of a rule changed.\<close>

lemma allReqs_update:
  assumes "getRule s k = Some ri" "ruleInfos s' = AList.update k ri' (ruleInfos s)"
    "taskInfos s' = taskInfos s" "finishedInputRequests s' = finishedInputRequests s"
    "hi' + mset (inputRequests s') + mset (reqs_rule ri') = hi + mset (inputRequests s) + mset (reqs_rule ri)"
  shows "allReqs hi' s' = allReqs hi s"
proof -
  have "asum (mset \<circ> reqs_rule) (ruleInfos s') + mset (reqs_rule ri)
      = asum (mset \<circ> reqs_rule) (ruleInfos s) + mset (reqs_rule ri')"
    using asum_update_Some [of "ruleInfos s" k ri "mset \<circ> reqs_rule" ri'] assms(1,2)
    by (simp add: getRule_def)
  from move_cancel [OF this assms(5)] show ?thesis
    by (simp add: allReqs_def assms(3,4))
qed

lemma allScans_update:
  assumes "getRule s k = Some ri" "ruleInfos s' = AList.update k ri' (ruleInfos s)"
    "taskInfos s' = taskInfos s"
    "hs' + mset (ruleInfosToScan s') + mset (scans_rule ri') = hs + mset (ruleInfosToScan s) + mset (scans_rule ri)"
  shows "allScans hs' s' = allScans hs s"
proof -
  have "asum (mset \<circ> scans_rule) (ruleInfos s') + mset (scans_rule ri)
      = asum (mset \<circ> scans_rule) (ruleInfos s) + mset (scans_rule ri')"
    using asum_update_Some [of "ruleInfos s" k ri "mset \<circ> scans_rule" ri'] assms(1,2)
    by (simp add: getRule_def)
  from move_cancel [OF this assms(4)] show ?thesis
    by (simp add: allScans_def assms(3))
qed

lemma allScans_in_hand: "allScans (add_mset q hs) s = add_mset q (allScans hs s)"
  by (simp add: allScans_def)

lemma inv_no_scan:
  assumes "engine_inv done n hi hs s" "getRule s k = Some ri" "\<not> isScanning ri" "\<not> ri_wasForced ri"
    "q \<in># allScans hs s"
  shows "sr_rule q \<noteq> k"
  using assms by (auto simp: engine_inv_def scans_inv_def scan_ok_def)

lemma inv_one_scan:
  assumes "engine_inv done n hi hs s" "getRule s k = Some ri" "isScanning ri"
    "q \<in># allScans hs s" "sr_rule q = k"
  shows "{#q \<in># allScans hs s. sr_rule q = k#} = {#q#}"
    and "sr_inputIndex q < size_deps (dependencies (ri_result ri))"
proof -
  from assms(1-3) obtain q' where q': "{#q \<in># allScans hs s. sr_rule q = k#} = {#q'#}"
      "sr_inputIndex q' < size_deps (dependencies (ri_result ri))"
    unfolding engine_inv_def scans_inv_def by blast
  have "q \<in># {#q \<in># allScans hs s. sr_rule q = k#}" using assms(4,5) by simp
  then have "q = q'" using q'(1) by simp
  with q' show "{#q \<in># allScans hs s. sr_rule q = k#} = {#q#}"
    "sr_inputIndex q < size_deps (dependencies (ri_result ri))" by simp_all
qed

lemma inv_scan_ok: "engine_inv done n hi hs s \<Longrightarrow> q \<in># allScans hs s \<Longrightarrow> scan_ok s q"
  by (simp add: engine_inv_def scans_inv_def)

lemma inv_scan:
  assumes "engine_inv done n hi hs s" "getRule s k = Some ri" "isScanning ri"
  obtains q where "{#q \<in># allScans hs s. sr_rule q = k#} = {#q#}"
    "sr_inputIndex q < size_deps (dependencies (ri_result ri))"
  using assms unfolding engine_inv_def scans_inv_def by blast

lemma scan_ok_update:
  assumes "scan_ok s q" "sr_rule q \<noteq> k" "getRule s' = (getRule s)(k := Some ri)"
    "currentEpoch s' = currentEpoch s"
  shows "scan_ok s' q"
  using assms by (auto simp: scan_ok_def)

section \<open>Starting a scan\<close>

lemma startScan_ok:
  assumes inv: "engine_inv done n hi hs s" and ri: "getRule s k = Some ri"
    and idle: "ri_inProgress ri = NoInfo" "\<not> ri_wasForced ri" "\<not> isComplete (currentEpoch s) ri"
      "\<not> empty_deps_p (dependencies (ri_result ri))"
  shows "\<exists>s' ri'. startScan k b s = Some s' \<and> engine_inv done n hi hs s' \<and> keeps s s'
    \<and> getRule s' k = Some ri' \<and> isScanning ri'"
proof -
  define q where "q = \<lparr>sr_rule = k, sr_inputIndex = 0, sr_inputRule = None, sr_orderOnly = False,
              sr_singleUse = False, sr_needsToRun = b\<rparr>"
  define ri' where "ri' = setPendingScanRecord (Some newRuleScanRecord) (ri\<lparr>ri_state := IsScanning\<rparr>)"
  define s' where "s' = (putRule k ri' s)\<lparr>ruleInfosToScan := ruleInfosToScan s @ [q]\<rparr>"
  have ri': "ri_inProgress ri' = PendingScan newRuleScanRecord" "ri_state ri' = IsScanning"
      "ri_result ri' = ri_result ri"
    by (simp_all add: ri'_def setPendingScanRecord_def)
  then have lists: "reqs_rule ri' = []" "scans_rule ri' = []"
    by (simp_all add: reqs_rule_def scans_rule_def newRuleScanRecord_def)
  have get: "getRule s' = (getRule s)(k := Some ri')"
    by (auto simp: s'_def getRule_def)
  have notscan: "\<not> isScanning ri" "\<not> isInProgress ri"
    using inv_shape [OF inv ri] idle(1) by (simp_all add: shape_ok_def)
  have old: "reqs_rule ri = []" "scans_rule ri = []"
    using idle(1) by (simp_all add: reqs_rule_def scans_rule_def)
  have reqs: "allReqs hi s' = allReqs hi s"
    using lists old by (intro allReqs_update [OF ri]) (simp_all add: s'_def)
  have "allScans hs s' = allScans (add_mset q hs) s"
    using lists old by (intro allScans_update [OF ri]) (simp_all add: s'_def)
  then have scans: "allScans hs s' = add_mset q (allScans hs s)"
    by (simp add: allScans_in_hand)
  have none: "{#q' \<in># allScans hs s. sr_rule q' = k#} = {#}"
    using inv_no_scan [OF inv ri notscan(1) idle(2)] by (auto simp: filter_mset_eq_mempty_iff)
  have qk: "sr_rule q = k" "sr_inputIndex q = 0" "sr_inputRule q = None"
    by (simp_all add: q_def)
  have "scans_inv hs s'"
    unfolding scans_inv_def
  proof (intro conjI allI impI ballI)
    fix k' x assume x: "getRule s' k' = Some x" "isScanning x"
    show "\<exists>q. {#q \<in># allScans hs s'. sr_rule q = k'#} = {#q#} \<and> sr_inputIndex q < size_deps (dependencies (ri_result x))"
    proof (cases "k' = k")
      case True
      with x get none qk ri' idle(4) show ?thesis
        by (intro exI [of _ q]) (auto simp: scans size_deps_def empty_deps_p_def)
    next
      case False
      with x get inv qk show ?thesis
        by (auto simp: scans engine_inv_def scans_inv_def)
    qed
  next
    fix q' assume q': "q' \<in># allScans hs s'"
    show "scan_ok s' q'"
    proof (cases "q' = q")
      case True
      then show ?thesis using qk ri' by (simp add: scan_ok_def get isScanning_def)
    next
      case False
      with q' scans have "q' \<in># allScans hs s" by simp
      with inv_no_scan [OF inv ri notscan(1) idle(2)] inv_scan_ok [OF inv] show ?thesis
        by (intro scan_ok_update [OF _ _ get]) (simp_all add: s'_def)
    qed
  next
    fix k' x q' assume "getRule s' k' = Some x" "q' \<in> set (scans_rule x)"
    with inv lists show "sr_inputRule q' = Some k'"
      by (auto simp: get engine_inv_def scans_inv_def split: if_splits)
  qed
  then have "engine_inv done n hi hs s'"
    using ri' inv_deps [OF inv ri] notscan idle(3) reqs
    by (intro engine_inv_putRule [OF inv ri, of s' ri'])
      (simp_all add: s'_def shape_ok_def isScanning_def)
  moreover have "keeps s s'"
  proof -
    have "currentEpoch s' = currentEpoch s" by (simp add: s'_def)
    with ri notscan show ?thesis by (auto simp: keeps_def get)
  qed
  moreover have "startScan k b s = Some s'"
    using ri by (simp add: startScan_def s'_def ri'_def q_def)
  ultimately show ?thesis
    using ri' get by (auto simp: isScanning_def)
qed

section \<open>Ending a scan\<close>

lemma finishScanRequest_ok:
  assumes inv: "engine_inv done n hi {#q#} s" and ri: "getRule s (sr_rule q) = Some ri" "isScanning ri"
    and newState: "newState \<in> {NeedsToRun, DoesNotNeedToRun}"
  shows "\<exists>s'. finishScanRequest (sr_rule q) newState s = Some s' \<and> engine_inv done n hi {#} s'"
proof -
  obtain r where r: "ri_inProgress ri = PendingScan r"
    by (rule inv_scanning [OF inv ri])
  define k where "k = sr_rule q"
  define ri' where "ri' = (setPendingScanRecord None ri)\<lparr>ri_state := newState\<rparr>"
  define s' where "s' = putRule k ri' (s\<lparr>ruleInfosToScan := ruleInfosToScan s @ deferredScanRequests r,
               inputRequests := inputRequests s @ pausedInputRequests r\<rparr>)"
  have ri': "ri_inProgress ri' = NoInfo" "ri_state ri' = newState" "ri_result ri' = ri_result ri"
    by (simp_all add: ri'_def setPendingScanRecord_def)
  then have lists: "reqs_rule ri' = []" "scans_rule ri' = []"
    by (simp_all add: reqs_rule_def scans_rule_def)
  have old: "reqs_rule ri = pausedInputRequests r" "scans_rule ri = deferredScanRequests r"
    by (simp_all add: reqs_rule_def scans_rule_def r)
  have get: "getRule s' = (getRule s)(k := Some ri')"
    by (auto simp: s'_def getRule_def)
  have reqs: "allReqs hi s' = allReqs hi s"
    using lists old by (intro allReqs_update [OF ri(1)]) (simp_all add: s'_def k_def)
  have "allScans {#q#} s' = allScans {#q#} s"
    using lists old by (intro allScans_update [OF ri(1)]) (simp_all add: s'_def k_def)
  then have scans: "allScans {#q#} s = add_mset q (allScans {#} s')"
    by (simp add: allScans_in_hand)
  have notscan: "\<not> isScanning ri'" "\<not> isInProgress ri'"
    using ri' newState by (auto simp: rule_state_defs)
  have gone: "sr_rule q' \<noteq> k" if "q' \<in># allScans {#} s'" for q'
    using inv_one_scan(1) [OF inv ri, of q] that by (auto simp: scans k_def filter_mset_eq_mempty_iff)
  have "scans_inv {#} s'"
    unfolding scans_inv_def
  proof (intro conjI allI impI ballI)
    fix k' x assume x: "getRule s' k' = Some x" "isScanning x"
    with notscan get have "k' \<noteq> k" "getRule s k' = Some x" by (auto split: if_splits)
    with inv_scan [OF inv, of k' x] x show "\<exists>q. {#q \<in># allScans {#} s'. sr_rule q = k'#} = {#q#} \<and> sr_inputIndex q < size_deps (dependencies (ri_result x))"
      by (auto simp: scans k_def)
  next
    fix q' assume q': "q' \<in># allScans {#} s'"
    with gone [OF q'] inv_scan_ok [OF inv, of q'] show "scan_ok s' q'"
      by (intro scan_ok_update [OF _ _ get]) (simp_all add: s'_def scans)
  next
    fix k' x q' assume "getRule s' k' = Some x" "q' \<in> set (scans_rule x)"
    with inv lists show "sr_inputRule q' = Some k'"
      by (auto simp: get engine_inv_def scans_inv_def split: if_splits)
  qed
  then have "engine_inv done n hi {#} s'"
    using ri ri' inv_deps [OF inv ri(1)] notscan reqs
    by (intro engine_inv_putRule [OF inv ri(1), of s' ri'])
      (simp_all add: s'_def k_def shape_ok_def rule_state_defs)
  moreover have "finishScanRequest (sr_rule q) newState s = Some s'"
    using ri r by (simp add: finishScanRequest_def getPendingScanRecord_def s'_def ri'_def k_def)
  ultimately show ?thesis by blast
qed

section \<open>Waiting for a scan\<close>

lemma engine_inv_record:
  assumes inv: "engine_inv done n hi hs s" and ri: "getRule s k = Some ri" "ri_inProgress ri = PendingScan r"
    and hi: "hi' + mset (pausedInputRequests r') = hi + mset (pausedInputRequests r)"
    and hs: "hs' + mset (deferredScanRequests r') = hs + mset (deferredScanRequests r)"
    and input: "\<And>q. q \<in> set (deferredScanRequests r') \<Longrightarrow> sr_inputRule q = Some k"
  shows "engine_inv done n hi' hs' (putRule k (setPendingScanRecord (Some r') ri) s)"
    (is "engine_inv _ _ _ _ (putRule k ?ri s)")
proof -
  have ri': "ri_inProgress ?ri = PendingScan r'" "ri_state ?ri = ri_state ri" "ri_result ?ri = ri_result ri"
      "ri_wasForced ?ri = ri_wasForced ri"
    by (simp_all add: setPendingScanRecord_def)
  have scanning: "isScanning ri" using inv_shape [OF inv ri(1)] ri(2) by (simp add: shape_ok_def)
  have lists: "reqs_rule ri = pausedInputRequests r" "scans_rule ri = deferredScanRequests r"
      "reqs_rule ?ri = pausedInputRequests r'" "scans_rule ?ri = deferredScanRequests r'"
    by (simp_all add: reqs_rule_def scans_rule_def ri ri')
  have reqs: "allReqs hi' (putRule k ?ri s) = allReqs hi s"
    using hi lists by (intro allReqs_update [OF ri(1), where ri' = ?ri]) (simp_all add: ac_simps)
  have scans: "allScans hs' (putRule k ?ri s) = allScans hs s"
    using hs lists by (intro allScans_update [OF ri(1), where ri' = ?ri]) (simp_all add: ac_simps)
  have sok: "scan_ok (putRule k ?ri s) q" if "scan_ok s q" for q
    using that ri(1) scanning by (auto simp: scan_ok_def isScanning_def ri')
  have "scans_inv hs' (putRule k ?ri s)"
    using engine_invD(4) [OF inv] sok ri input scanning
    by (auto simp: scans_inv_def scans lists isScanning_def ri')
  then show ?thesis
    using reqs ri' scanning inv_deps [OF inv ri(1)]
    by (intro engine_inv_putRule [OF inv ri(1), where ri' = ?ri])
      (simp_all add: shape_ok_def rule_state_defs)
qed

lemma deferOnScan_ok:
  assumes inv: "engine_inv done n hi {#q#} s" and q: "sr_inputRule q = Some input"
    and ri: "getRule s input = Some ri" "isScanning ri"
  shows "\<exists>s'. deferOnScan q input s = Some s' \<and> engine_inv done n hi {#} s'"
proof -
  obtain r where r: "ri_inProgress ri = PendingScan r" by (rule inv_scanning [OF inv ri])
  have "\<forall>q \<in> set (deferredScanRequests r). sr_inputRule q = Some input"
    using engine_invD(4) [OF inv] ri r by (auto simp: scans_inv_def scans_rule_def)
  with q have "engine_inv done n hi {#}
      (putRule input (setPendingScanRecord (Some (r\<lparr>deferredScanRequests := deferredScanRequests r @ [q]\<rparr>)) ri) s)"
    by (intro engine_inv_record [OF inv ri(1) r]) auto
  then show ?thesis
    using ri r by (simp add: deferOnScan_def getPendingScanRecord_def)
qed

section \<open>scanRule\<close>

text \<open>The result of \<^verbatim>\<open>scanRule\<close>: true, and the rule is scanned, or false, and it is scanning.\<close>

definition scan_result :: "KeyID \<Rightarrow> bool \<Rightarrow> ('c, 'd) engine \<Rightarrow> bool" where
  "scan_result k b s \<longleftrightarrow> (\<exists>ri. getRule s k = Some ri \<and>
     (if b then isScanned (currentEpoch s) ri else isScanning ri))"

lemma scheduleChecks_ok:
  assumes inv: "engine_inv done n hi hs s"
    and ri: "getRule s k = Some ri" "ri_state ri = NeedsToRun" "ri_inProgress ri = NoInfo" "\<not> ri_wasForced ri"
  shows "\<exists>b s'. scheduleChecksBeforeRunning env k s = Some (b, s') \<and> engine_inv done n hi hs s' \<and> keeps s s'
    \<and> scan_result k (\<not> b) s'"
proof (cases "\<not> checksDependenciesBeforeRunning env (e_client s) (rule_key (ri_rule ri))
    \<or> empty_deps_p (dependencies (ri_result ri))")
  case True
  with inv ri show ?thesis
    by (auto simp: scheduleChecksBeforeRunning_def scan_result_def keeps_refl isScanned_def)
next
  case False
  with startScan_ok [OF inv ri(1,3,4), of True] ri(2) obtain s' ri' where
    "startScan k True s = Some s'" "engine_inv done n hi hs s'" "keeps s s'" "getRule s' k = Some ri'" "isScanning ri'"
    by (auto simp: isComplete_def)
  with False ri show ?thesis
    by (auto simp: scheduleChecksBeforeRunning_def scan_result_def)
qed

lemma scanRule_ok:
  assumes inv: "engine_inv done n hi hs s" and k: "getRule s k \<noteq> None"
  shows "\<exists>b s'. scanRule env k s = Some (b, s') \<and> engine_inv done n hi hs s' \<and> keeps s s'
    \<and> scan_result k b s'"
proof -
  from k obtain ri where ri: "getRule s k = Some ri" by blast
  consider (scanned) "isScanned (currentEpoch s) ri" | (scanning) "isScanning ri" "\<not> isScanned (currentEpoch s) ri"
    | (idle) "\<not> isScanned (currentEpoch s) ri" "\<not> isScanning ri" by blast
  then show ?thesis
  proof cases
    case scanned
    with ri inv show ?thesis
      by (auto simp: scanRule_def scan_result_def keeps_refl)
  next
    case scanning
    with ri inv show ?thesis
      by (auto simp: scanRule_def scan_result_def keeps_refl)
  next
    case idle
    then have idle': "\<not> isInProgress ri" "\<not> isComplete (currentEpoch s) ri"
      by (auto simp: rule_state_defs)
    have prog: "ri_inProgress ri = NoInfo"
      using inv_shape [OF inv ri] idle idle' by (auto simp: shape_ok_def split: InProgressInfo.splits)
    define ri1 where "ri1 = ri\<lparr>ri_result := (ri_result ri)
      \<lparr>dependencies := cleanSingleUseDependencies (dependencies (ri_result ri))\<rparr>, ri_wasForced := False\<rparr>"
    define s1 where "s1 = emit (EvStatus (rule_key (ri_rule ri1)) StatusIsScanning) (putRule k ri1 s)"
    have ri1: "ri_state ri1 = ri_state ri" "ri_inProgress ri1 = NoInfo" "\<not> ri_wasForced ri1"
        "builtAt (ri_result ri1) = builtAt (ri_result ri)" "deps_invar (dependencies (ri_result ri1))"
      using prog inv_deps [OF inv ri] by (simp_all add: ri1_def)
    have notcomplete: "\<not> isComplete (currentEpoch s) ri1" "\<not> isScanning ri1" "\<not> isInProgress ri1"
        "\<not> isScanned (currentEpoch s) ri1"
      using ri1 idle idle' by (simp_all add: rule_state_defs split: if_splits)
    have put: "engine_inv done n hi hs (putRule k ri' s1)" "keeps s (putRule k ri' s1)"
      if "ri_inProgress ri' = NoInfo" "\<not> isScanning ri'" "\<not> isInProgress ri'" "deps_invar (dependencies (ri_result ri'))" for ri'
    proof -
      have "engine_inv done n hi hs s1"
        unfolding s1_def using idle idle' prog ri1
        by (simp add: engine_simps, intro engine_inv_calm [OF inv ri]) (simp add: calm_def rule_state_defs)
      then show "engine_inv done n hi hs (putRule k ri' s1)"
        using that ri1 notcomplete
        by (intro engine_inv_calm [of "done" n hi hs s1 k ri1]) (simp_all add: calm_def s1_def)
      show "keeps s (putRule k ri' s1)"
        using ri idle(2) by (auto simp: keeps_def s1_def)
    qed
    define s2 where "s2 = putRule k (ri1\<lparr>ri_state := NeedsToRun\<rparr>) s1"
    have mark: "markNeedsToRun k ri1 reason s1 = emit (EvNeedsToRun (rule_key (ri_rule ri1)) reason None) s2" for reason
      by (simp add: markNeedsToRun_def s2_def)
    have inv2: "engine_inv done n hi hs (markNeedsToRun k ri1 reason s1)" "keeps s (markNeedsToRun k ri1 reason s1)" for reason
      using put [of "ri1\<lparr>ri_state := NeedsToRun\<rparr>"] ri1
      by (simp_all add: mark s2_def engine_simps rule_state_defs keeps_def)
    have checks: "\<exists>b s'. scheduleChecksBeforeRunning env k (markNeedsToRun k ri1 reason s1) = Some (b, s')
        \<and> engine_inv done n hi hs s' \<and> keeps s s' \<and> scan_result k (\<not> b) s'" for reason
      using scheduleChecks_ok [OF inv2(1) [of reason], of k "ri1\<lparr>ri_state := NeedsToRun\<rparr>" env] ri1
        keeps_trans [OF inv2(2) [of reason]]
      by (fastforce simp: mark s2_def)
    have never: "scan_result k True (markNeedsToRun k ri1 reason s1)" for reason
      by (simp add: scan_result_def mark s2_def isScanned_def)
    have upToDate: "engine_inv done n hi hs (putRule k (ri1\<lparr>ri_state := DoesNotNeedToRun\<rparr>) s1)"
        "keeps s (putRule k (ri1\<lparr>ri_state := DoesNotNeedToRun\<rparr>) s1)"
        "scan_result k True (putRule k (ri1\<lparr>ri_state := DoesNotNeedToRun\<rparr>) s1)"
      using put [of "ri1\<lparr>ri_state := DoesNotNeedToRun\<rparr>"] ri1
      by (simp_all add: rule_state_defs scan_result_def)
    have start: "\<exists>s'. startScan k False s1 = Some s' \<and> engine_inv done n hi hs s' \<and> keeps s s'
        \<and> scan_result k False s'" if "\<not> empty_deps_p (dependencies (ri_result ri1))"
    proof -
      have "putRule k ri1 s1 = s1"
        by (simp add: s1_def putRule_def emit_def)
      then have "engine_inv done n hi hs s1" "keeps s s1"
        using put [of ri1] ri1 notcomplete by simp_all
      moreover from this startScan_ok [of "done" n hi hs s1 k ri1 False] that ri1 notcomplete
      obtain s' ri' where "startScan k False s1 = Some s'" "engine_inv done n hi hs s'" "keeps s1 s'"
          "getRule s' k = Some ri'" "isScanning ri'"
        by (auto simp: s1_def)
      ultimately show ?thesis using keeps_trans by (auto simp: scan_result_def)
    qed
    have eq: "scanRule env k s =
      (if builtAt (ri_result ri1) = 0 then Some (True, markNeedsToRun k ri1 NeverBuilt s1)
       else if rule_signature (ri_rule ri1) \<noteq> res_signature (ri_result ri1)
       then do { (b, s) \<leftarrow> scheduleChecksBeforeRunning env k (markNeedsToRun k ri1 SignatureChanged s1); Some (\<not> b, s) }
       else if \<not> isResultValid env (e_client s1) (rule_key (ri_rule ri1)) (res_value (ri_result ri1))
       then do { (b, s) \<leftarrow> scheduleChecksBeforeRunning env k (markNeedsToRun k ri1 InvalidValue s1); Some (\<not> b, s) }
       else if empty_deps_p (dependencies (ri_result ri1))
       then Some (True, putRule k (ri1\<lparr>ri_state := DoesNotNeedToRun\<rparr>) s1)
       else do { s \<leftarrow> startScan k False s1; Some (False, s) })"
      using idle by (simp add: scanRule_def ri Let_def s1_def ri1_def)
    show ?thesis
      unfolding eq using checks [of SignatureChanged] checks [of InvalidValue] inv2 never upToDate start
      by (auto; metis)
  qed
qed

section \<open>demandRule\<close>

lemma engine_inv_ready:
  assumes inv: "engine_inv done n hi hs s" and t: "taskState s t = Some InProgressWaiting" "waitOf s t = 0"
      "t \<notin> set (readyTaskInfos s)"
  shows "engine_inv done n hi hs (s\<lparr>readyTaskInfos := readyTaskInfos s @ [t]\<rparr>)" (is "engine_inv _ _ _ _ ?s'")
proof -
  note D = engine_invD [OF inv]
  have get: "getRule ?s' = getRule s" "getTaskInfo ?s' = getTaskInfo s"
    by (auto simp: getRule_def getTaskInfo_def)
  then have views: "taskState ?s' = taskState s" "progressOf ?s' = progressOf s" "shape_ok ?s' = shape_ok s"
      "waitOf ?s' = waitOf s" "allReqs hi ?s' = allReqs hi s" "allScans hs ?s' = allScans hs s"
    by (auto simp: taskState_def progressOf_def shape_ok_def waitOf_def allReqs_def allScans_def fun_eq_iff
        split: option.split InProgressInfo.split)
  note ok = req_ok_cong [OF get(1)] finished_ok_cong [OF get(1)] scan_ok_cong [OF get(1)]
  show ?thesis
  proof (rule engine_invI)
    show "rules_inv ?s'" using D(1) by (simp add: rules_inv_def views get)
    show "tasks_inv ?s'" using D(2) by (simp add: tasks_inv_def views get)
    show "reqs_inv hi ?s'" using D(3) ok by (simp add: reqs_inv_def views get)
    show "scans_inv hs ?s'" using D(4) ok by (simp add: scans_inv_def views get)
    show "ready_inv ?s'" using D(5) t by (auto simp: ready_inv_def views)
    show "finish_inv done n ?s'" using D(6) by (simp add: finish_inv_def views computing_def)
  qed
qed

lemma newTaskInfo_fields [simp]:
  "ti_requestedBy (newTaskInfo k) = []" "ti_deferredScanRequests (newTaskInfo k) = []"
  "ti_forRule (newTaskInfo k) = k" "ti_waitCount (newTaskInfo k) = 0"
  "ti_discovered (newTaskInfo k) = empty_deps"
  by (simp_all add: newTaskInfo_def)

lemma engine_inv_newTask:
  assumes inv: "engine_inv done n hi hs s" and ri: "getRule s k = Some ri" "ri_state ri = NeedsToRun"
    and ri': "ri_inProgress ri' = PendingTask (nextTask s)" "ri_state ri' = InProgressWaiting"
      "deps_invar (dependencies (ri_result ri'))" "ri_wasForced ri' = ri_wasForced ri"
  shows "engine_inv done n hi hs (putRule k ri' (putTask (nextTask s) (newTaskInfo k)
           (s\<lparr>nextTask := Suc (nextTask s)\<rparr>)))" (is "engine_inv _ _ _ _ ?s'")
    and "may_request (nextTask s) (putRule k ri' (putTask (nextTask s) (newTaskInfo k)
           (s\<lparr>nextTask := Suc (nextTask s)\<rparr>)))"
proof -
  note D = engine_invD [OF inv]
  let ?t = "nextTask s"
  have prog: "ri_inProgress ri = NoInfo"
    using inv_shape [OF inv ri(1)] ri(2) by (auto simp: shape_ok_def rule_state_defs split: InProgressInfo.splits)
  have fresh: "getTaskInfo s ?t = None"
    using D(2) by (cases "getTaskInfo s ?t") (auto simp: tasks_inv_def)
  then have none: "taskState s ?t = None" by (simp add: taskState_def)
  have get: "getRule ?s' = (getRule s)(k := Some ri')" "getTaskInfo ?s' = (getTaskInfo s)(?t := Some (newTaskInfo k))"
    by (auto simp: getRule_def getTaskInfo_def)
  have other: "ti_forRule ti \<noteq> k" if "getTaskInfo s t = Some ti" for t ti
    by (rule inv_task [OF inv that]) (use ri prog in auto)
  have ts: "taskState ?s' t = (if t = ?t then Some InProgressWaiting else taskState s t)" for t
    using other ri'(2) by (auto simp: taskState_def get split: option.split)
  have wait: "waitOf ?s' t = waitOf s t" for t
    using fresh by (auto simp: waitOf_def get)
  have lists: "reqs_rule ri' = []" "scans_rule ri' = []" "reqs_rule ri = []" "scans_rule ri = []"
    using ri'(1) prog by (simp_all add: reqs_rule_def scans_rule_def)
  then have flight: "allReqs hi ?s' = allReqs hi s" "allScans hs ?s' = allScans hs s"
    using ri(1) fresh
    by (simp_all add: allReqs_def allScans_def getRule_def getTaskInfo_def asum_update_same asum_update_None)
  have shape: "shape_ok ?s' k' x" if "shape_ok s k' x" for k' x
    using that fresh by (auto simp: shape_ok_def get split: InProgressInfo.splits)
  have rok: "req_ok ?s' r" if "req_ok s r" for r
    using that by (auto simp: req_ok_def get)
  have notcomplete: "\<not> isComplete (currentEpoch s) ri" "\<not> isScanning ri" "\<not> isScanning ri'"
    using ri(2) ri'(2) by (auto simp: rule_state_defs)
  have fin: "finished_ok ?s' r" if "finished_ok s r" for r
    using that ri(1) notcomplete(1) by (auto simp: finished_ok_def get)
  have "isScanned (currentEpoch s) ri'" using ri'(2) by (simp add: rule_state_defs)
  then have sok: "scan_ok ?s' q" if "scan_ok s q" for q
    using that ri ri' notcomplete by (auto simp: scan_ok_def get)
  show "engine_inv done n hi hs ?s'"
  proof (rule engine_invI)
    show "rules_inv ?s'"
      using D(1) shape ri' by (auto simp: rules_inv_def get shape_ok_def rule_state_defs)
    show "tasks_inv ?s'"
      using D(2) other ri' by (auto simp: tasks_inv_def get progressOf_def less_Suc_eq)
    show "reqs_inv hi ?s'"
      using D(3) rok fin unfolding reqs_inv_def wait flight by (auto simp: get split: if_splits)
    show "scans_inv hs ?s'"
      using D(4) sok lists notcomplete unfolding scans_inv_def flight by (auto simp: get)
    show "ready_inv ?s'"
      using D(5) unfolding ready_inv_def ts wait by auto
    have "computing done ?s' = computing done s"
      using none by (auto simp: computing_def ts)
    then show "finish_inv done n ?s'"
      using D(6) none by (auto simp: finish_inv_def ts)
  qed
  show "may_request ?t ?s'"
    using D(5) none by (auto simp: may_request_def ts ready_inv_def)
qed

definition demand_result :: "KeyID \<Rightarrow> bool \<Rightarrow> ('c, 'd) engine \<Rightarrow> bool" where
  "demand_result k b s \<longleftrightarrow> (\<exists>ri. getRule s k = Some ri \<and>
     (if b then isComplete (currentEpoch s) ri else isInProgress ri))"

lemma quiet_inProgress:
  assumes "quiet s s'" "demand_result k False s" shows "demand_result k False s'"
  using assms unfolding quiet_def demand_result_def quiet_rule_def isInProgress_def isInProgressWaiting_def
    isInProgressComputing_def by fastforce

lemma demandRule_new:
  assumes env: "client_contract env" and inv: "engine_inv done n hi hs s"
    and ri: "getRule s k = Some ri" "ri_state ri = NeedsToRun"
  shows "\<exists>s'. demandRule env k s = Some (False, s') \<and> engine_inv done n hi hs s' \<and> keeps s s'
    \<and> demand_result k False s'"
proof -
  let ?t = "nextTask s"
  define c where "c = createTask env (e_client s) (rule_key (ri_rule ri)) ?t"
  define s0 where "s0 = emit (EvCreateTask (rule_key (ri_rule ri)) ?t) (s\<lparr>e_client := c\<rparr>)"
  define ri' where "ri' = ri\<lparr>ri_state := InProgressWaiting, ri_inProgress := PendingTask ?t,
    ri_result := (ri_result ri)\<lparr>dependencies := clear_deps (dependencies (ri_result ri))\<rparr>\<rparr>"
  define s1 where "s1 = putRule k ri' (putTask ?t (newTaskInfo k)
    (emit (EvCreateTask (rule_key (ri_rule ri)) ?t) (s\<lparr>e_client := c, nextTask := ?t + 1\<rparr>)))"
  have s1: "s1 = putRule k ri' (putTask ?t (newTaskInfo k) (s0\<lparr>nextTask := Suc (nextTask s0)\<rparr>))"
    by (cases s) (simp add: s1_def s0_def emit_def)
  have s0: "engine_inv done n hi hs s0" "getRule s0 k = Some ri" "nextTask s0 = ?t" "same_core s s0"
    using inv ri by (simp_all add: s0_def engine_simps same_core_def)
  have inv1: "engine_inv done n hi hs s1" "may_request ?t s1"
    using engine_inv_newTask [OF s0(1,2) ri(2), of ri'] s0(3) by (simp_all add: s1 ri'_def)
  have keep1: "keeps s s1" "demand_result k False s1"
    using ri s0(3) same_core_get [OF s0(4)]
    by (auto simp: keeps_def s1 s0_def rule_state_defs demand_result_def ri'_def)
  have q2: "same_core s1 (emit (EvStart ?t) s1)" by (simp add: same_core_def)
  obtain s2 where s2: "runProg env ?t (task_start env (e_client s1) ?t) (emit (EvStart ?t) s1) = Some s2"
      "engine_inv done n hi hs s2" "quiet s1 s2"
    using runProg_waiting [OF env, of "done" n hi hs "emit (EvStart ?t) s1" ?t "task_start env (e_client s1) ?t"]
      inv1 may_request_quiet [OF quiet_same_core [OF q2]] quiet_trans [OF quiet_same_core [OF q2]]
    by (auto simp: engine_simps)
  then obtain ri2 where ri2: "getRule s2 k = Some ri2"
    using quiet_inProgress [OF s2(3) keep1(2)] by (auto simp: demand_result_def)
  obtain s3 where s3: "(if builtAt (ri_result ri2) \<noteq> 0 \<and> rule_signature (ri_rule ri2) = res_signature (ri_result ri2)
             then (let s = emit (EvPriorValue ?t (res_value (ri_result ri2))) s2
                   in runProg env ?t (task_providePriorValue env (e_client s) ?t (res_value (ri_result ri2))) s)
             else Some s2) = Some s3" "engine_inv done n hi hs s3" "quiet s1 s3"
  proof (cases "builtAt (ri_result ri2) \<noteq> 0 \<and> rule_signature (ri_rule ri2) = res_signature (ri_result ri2)")
    case True
    let ?s = "emit (EvPriorValue ?t (res_value (ri_result ri2))) s2"
    have q: "quiet s2 ?s" by (simp add: quiet_same_core same_core_def)
    obtain s3 where "runProg env ?t (task_providePriorValue env (e_client s2) ?t (res_value (ri_result ri2))) ?s = Some s3"
        "engine_inv done n hi hs s3" "quiet ?s s3"
      using runProg_waiting [OF env, of "done" n hi hs ?s ?t] s2(2)
        may_request_quiet [OF q may_request_quiet [OF s2(3) inv1(2)]]
      by (auto simp: engine_simps)
    with that True quiet_trans [OF s2(3) quiet_trans [OF q]] show thesis by (auto simp: Let_def)
  next
    case False
    with that s2 show thesis by auto
  qed
  have live: "may_request ?t s3" using may_request_quiet [OF s3(3) inv1(2)] .
  then obtain ti where ti: "getTaskInfo s3 ?t = Some ti"
    by (auto simp: may_request_def elim: taskState_Some)
  define s4 where "s4 = (if ti_waitCount ti = 0 then s3\<lparr>readyTaskInfos := readyTaskInfos s3 @ [?t]\<rparr> else s3)"
  have "engine_inv done n hi hs s4"
    using engine_inv_ready [OF s3(2), of ?t] live ti s3(2) by (simp add: s4_def may_request_def waitOf_def)
  moreover have "keeps s s4" "demand_result k False s4"
    using keeps_trans [OF keep1(1) keeps_quiet [OF s3(3)]] quiet_inProgress [OF s3(3) keep1(2)]
    by (simp_all add: s4_def keeps_def demand_result_def)
  moreover have "demandRule env k s = Some (False, s4)"
    using ri s2(1) ri2 s3(1) ti
    by (simp add: demandRule_def rule_state_defs setPendingTaskInfo_def s4_def Let_def
        flip: c_def) (simp add: s1_def ri'_def)
  ultimately show ?thesis by blast
qed

lemma demandRule_ok:
  assumes env: "client_contract env" and inv: "engine_inv done n hi hs s" and k: "scan_result k True s"
  shows "\<exists>b s'. demandRule env k s = Some (b, s') \<and> engine_inv done n hi hs s' \<and> keeps s s'
    \<and> demand_result k b s'"
proof -
  from k obtain ri where ri: "getRule s k = Some ri" "isScanned (currentEpoch s) ri"
    by (auto simp: scan_result_def)
  consider (complete) "isComplete (currentEpoch s) ri" | (progress) "isInProgress ri"
    | (upToDate) "ri_state ri = DoesNotNeedToRun" | (run) "ri_state ri = NeedsToRun"
    using ri(2) by (cases "ri_state ri") (auto simp: rule_state_defs)
  then show ?thesis
  proof cases
    case complete
    with ri inv show ?thesis by (auto simp: demandRule_def demand_result_def keeps_refl)
  next
    case progress
    then have "\<not> isComplete (currentEpoch s) ri" by (auto simp: rule_state_defs)
    with progress ri inv show ?thesis by (auto simp: demandRule_def demand_result_def keeps_refl)
  next
    case upToDate
    let ?ri = "setComplete (currentEpoch s) (clock_now env (e_client s)) ri"
    have "engine_inv done n hi hs (putRule k ?ri s)"
      using upToDate by (intro engine_inv_calm [OF inv ri(1)]) (auto simp: calm_def rule_state_defs setComplete_def)
    then show ?thesis
      using upToDate ri
      by (auto simp: demandRule_def demand_result_def keeps_def rule_state_defs setComplete_def engine_simps)
  next
    case run
    from demandRule_new [OF env inv ri(1) run] show ?thesis by blast
  qed
qed

section \<open>Processing a scan request\<close>

lemma deferOnTask_ok:
  assumes inv: "engine_inv done n hi {#q#} s" and input: "demand_result input False s"
  shows "\<exists>s'. deferOnTask q input s = Some s' \<and> engine_inv done n hi {#} s'"
proof -
  from input obtain ri where ri: "getRule s input = Some ri" "isInProgress ri"
    by (auto simp: demand_result_def)
  then obtain t ti where t: "ri_inProgress ri = PendingTask t" "getTaskInfo s t = Some ti"
    by (rule inv_inProgress [OF inv])
  let ?ti = "ti\<lparr>ti_deferredScanRequests := ti_deferredScanRequests ti @ [q]\<rparr>"
  note D = engine_invD [OF inv]
  have reqs: "allReqs hi (putTask t ?ti s) = allReqs hi s"
    using t(2) by (simp add: allReqs_def getTaskInfo_def asum_update_same)
  have "asum (mset \<circ> ti_deferredScanRequests) (AList.update t ?ti (taskInfos s)) + mset (ti_deferredScanRequests ti)
      = asum (mset \<circ> ti_deferredScanRequests) (taskInfos s) + {#q#} + mset (ti_deferredScanRequests ti)"
    using asum_update_Some [of "taskInfos s" t ti "mset \<circ> ti_deferredScanRequests" ?ti] t(2)
    by (simp add: getTaskInfo_def)
  then have scans: "allScans {#} (putTask t ?ti s) = allScans {#q#} s"
    by (simp add: allScans_def)
  have wait: "waitOf (putTask t ?ti s) = waitOf s"
    using t(2) by (auto simp: waitOf_def fun_eq_iff)
  have "engine_inv done n hi {#} (putTask t ?ti s)"
    by (rule engine_inv_putTask [OF inv t(2)])
      (use D(3,5) t scans inv_discovered [OF inv t(2)] in \<open>auto simp: reqs wait reqs_inv_def ready_inv_def\<close>)
  then show ?thesis
    using ri t by (simp add: deferOnTask_def getPendingTaskInfo_def)
qed

text \<open>
  The state in which the loop of \<^verbatim>\<open>processRuleScanRequest\<close> goes on: the request is in hand, its
  rule is scanning with the same dependencies, and the index has moved on.
\<close>

definition scan_goes_on ::
  "TaskId set \<Rightarrow> nat \<Rightarrow> TaskInputRequest multiset \<Rightarrow> RuleScanRequest \<Rightarrow> ('c, 'd) engine
     \<Rightarrow> RuleScanRequest \<Rightarrow> ('c, 'd) engine \<Rightarrow> bool" where
  "scan_goes_on done n hi q s q' s' \<longleftrightarrow>
     (\<exists>q0. sr_rule q0 = sr_rule q \<and> engine_inv done n hi {#q0#} s') \<and> keeps s s' \<and> sr_rule q' = sr_rule q \<and> sr_inputIndex q' = sr_inputIndex q + 1 \<and> sr_inputRule q' = None"

definition scan_step_ok ::
  "TaskId set \<Rightarrow> nat \<Rightarrow> TaskInputRequest multiset \<Rightarrow> RuleScanRequest \<Rightarrow> ('c, 'd) engine
     \<Rightarrow> (('c, 'd) engine + RuleScanRequest \<times> ('c, 'd) engine) option \<Rightarrow> bool" where
  "scan_step_ok done n hi q s r \<longleftrightarrow>
     (case r of
        Some (Inl s') \<Rightarrow> engine_inv done n hi {#} s'
      | Some (Inr (q', s')) \<Rightarrow> scan_goes_on done n hi q s q' s'
      | None \<Rightarrow> False)"

lemma scanAvailableInput_ok:
  assumes inv: "engine_inv done n hi {#q#} s"
    and ri: "getRule s (sr_rule q) = Some ri" "isScanning ri" and input: "getRule s input = Some inputInfo"
  shows "scan_step_ok done n hi q s (scanAvailableInput env q input s)"
proof -
  from finishScanRequest_ok [OF inv ri, of NeedsToRun] obtain s' where
    "finishScanRequest (sr_rule q) NeedsToRun s = Some s'" "engine_inv done n hi {#} s'" by auto
  with inv ri input show ?thesis
    by (auto simp: scanAvailableInput_def scan_step_ok_def scan_goes_on_def nextScanInput_def Let_def
        engine_simps keeps_refl keeps_def)
qed

lemma scanInput_ok:
  assumes env: "client_contract env" and inv: "engine_inv done n hi {#q#} s"
    and ri: "getRule s (sr_rule q) = Some ri" "isScanning ri"
    and input: "sr_inputRule q = Some input" "getRule s input \<noteq> None"
  shows "scan_step_ok done n hi q s (scanInput env q input s)"
proof -
  from scanRule_ok [OF inv input(2), of env] obtain b s1 where
    s1: "scanRule env input s = Some (b, s1)" "engine_inv done n hi {#q#} s1" "keeps s s1" "scan_result input b s1"
    by blast
  show ?thesis
  proof (cases b)
    case False
    with s1(4) obtain x where "getRule s1 input = Some x" "isScanning x" by (auto simp: scan_result_def)
    from deferOnScan_ok [OF s1(2) input(1) this] s1 False show ?thesis
      by (auto simp: scanInput_def scan_step_ok_def)
  next
    case True
    with s1(4) have "scan_result input True s1" by simp
    from demandRule_ok [OF env s1(2) this] obtain c s2 where
      s2: "demandRule env input s1 = Some (c, s2)" "engine_inv done n hi {#q#} s2" "keeps s1 s2" "demand_result input c s2"
      by blast
    have keep: "keeps s s2" using keeps_trans s1(3) s2(3) by blast
    show ?thesis
    proof (cases c)
      case False
      from deferOnTask_ok [OF s2(2), of input] s2(4) False obtain s3 where
        "deferOnTask q input s2 = Some s3" "engine_inv done n hi {#} s3" by auto
      with s1(1) s2(1) False True show ?thesis
        by (simp add: scanInput_def scan_step_ok_def)
    next
      case c: True
      obtain ri' where ri': "getRule s2 (sr_rule q) = Some ri'" "isScanning ri'"
        by (rule keeps_scanning [OF keep ri])
      obtain x where x: "getRule s2 input = Some x" using s2(4) by (auto simp: demand_result_def)
      have "scan_step_ok done n hi q s2 (scanAvailableInput env q input s2)"
        by (rule scanAvailableInput_ok [OF s2(2) ri' x])
      then show ?thesis
        using s1(1) s2(1) True c keeps_trans [OF keep]
        by (auto simp: scanInput_def scan_step_ok_def scan_goes_on_def split: option.splits sum.splits)
    qed
  qed
qed

text \<open>The request in hand may be replaced by its next stage.\<close>

lemma engine_inv_next_request:
  assumes inv: "engine_inv done n hi {#q#} s" and ri: "getRule s (sr_rule q) = Some ri" "isScanning ri"
    and q': "sr_rule q' = sr_rule q" "sr_inputIndex q' < size_deps (dependencies (ri_result ri))"
      "\<And>i. sr_inputRule q' = Some i \<Longrightarrow> getRule s i \<noteq> None"
  shows "engine_inv done n hi {#q'#} s"
proof -
  have hand: "allScans {#x#} s = add_mset x (allScans {#} s)" for x by (rule allScans_in_hand)
  have gone: "sr_rule x \<noteq> sr_rule q" if "x \<in># allScans {#} s" for x
    using inv_one_scan(1) [OF inv ri, of q] that by (auto simp: hand)
  have "scans_inv {#q'#} s"
    unfolding scans_inv_def
  proof (intro conjI allI impI ballI)
    fix k x assume x: "getRule s k = Some x" "isScanning x"
    show "\<exists>q. {#q \<in># allScans {#q'#} s. sr_rule q = k#} = {#q#} \<and> sr_inputIndex q < size_deps (dependencies (ri_result x))"
    proof (cases "k = sr_rule q")
      case True
      with gone x ri q'(1,2) show ?thesis
        by (intro exI [of _ q']) (auto simp: hand)
    next
      case False
      with inv_scan [OF inv x] q'(1) show ?thesis by (auto simp: hand)
    qed
  next
    fix x assume x: "x \<in># allScans {#q'#} s"
    show "scan_ok s x"
    proof (cases "x = q'")
      case True
      with ri q' show ?thesis by (auto simp: scan_ok_def)
    next
      case False
      with x inv_scan_ok [OF inv, of x] show ?thesis by (simp add: hand)
    qed
  next
    fix k x q0 assume "getRule s k = Some x" "q0 \<in> set (scans_rule x)"
    with inv show "sr_inputRule q0 = Some k" by (auto simp: engine_inv_def scans_inv_def)
  qed
  with inv show ?thesis by (simp add: engine_inv_def)
qed

lemma scanStep_ok:
  assumes env: "client_contract env" and inv: "engine_inv done n hi {#q#} s"
    and ri: "getRule s (sr_rule q) = Some ri" "isScanning ri"
  shows "scan_step_ok done n hi q s (scanStep env q s)"
proof (cases "sr_inputRule q")
  case (Some input)
  have "q \<in># allScans {#q#} s" by (simp add: allScans_in_hand)
  from inv_scan_ok [OF inv this] Some have "getRule s input \<noteq> None" by (simp add: scan_ok_def)
  with scanInput_ok [OF env inv ri Some] Some show ?thesis by (simp add: scanStep_def)
next
  case None
  have "q \<in># allScans {#q#} s" by (simp add: allScans_in_hand)
  then have idx: "sr_inputIndex q < size_deps (dependencies (ri_result ri))"
    using inv_one_scan(2) [OF inv ri] by blast
  from deps.get_in_range [OF inv_deps [OF inv ri(1)] idx] obtain k oo su where
    dep: "nth_deps (dependencies (ri_result ri)) (sr_inputIndex q) = Some (k, oo, su)" by auto
  show ?thesis
  proof (cases "sr_needsToRun q \<and> \<not> mustCheckDependencyBeforeRunning env (e_client s) (rule_key (ri_rule ri)) (getKeyForID k)")
    case True
    with None ri dep inv show ?thesis
      by (auto simp: scanStep_def scan_step_ok_def scan_goes_on_def keeps_refl)
  next
    case False
    let ?q = "q\<lparr>sr_inputRule := Some k, sr_orderOnly := oo, sr_singleUse := su\<rparr>"
    let ?s = "getRuleInfoForKeyID env k s"
    note adds = getRuleInfoForKeyID_adds [OF env, of k s]
    note q1 = adds_rule_quiet [OF adds]
    have keep: "keeps s ?s" by (rule keeps_quiet [OF q1(1)])
    obtain ri' where ri': "getRule ?s (sr_rule q) = Some ri'" "isScanning ri'"
        "dependencies (ri_result ri') = dependencies (ri_result ri)"
      by (rule keeps_scanning [OF keep ri])
    have "engine_inv done n hi {#?q#} ?s"
      using idx ri' q1(2) by (intro engine_inv_next_request [OF adds_rule_inv [OF inv adds] ri'(1,2)]) auto
    from scanInput_ok [OF env this, of ri' k] ri' q1(2)
    have "scan_step_ok done n hi ?q ?s (scanInput env ?q k ?s)" by simp
    moreover have "scanStep env q s = scanInput env ?q k ?s"
      unfolding scanStep_def using None ri dep False by auto
    ultimately show ?thesis
      using keeps_trans [OF keep]
      by (auto simp: scan_step_ok_def scan_goes_on_def split: option.splits sum.splits)
  qed
qed

text \<open>The loop ends: the index grows towards the number of dependencies, which stays the same.\<close>

lemma scanLoop_ok:
  assumes env: "client_contract env"
  shows "engine_inv done n hi {#q#} s \<Longrightarrow> getRule s (sr_rule q) = Some ri \<Longrightarrow> isScanning ri \<Longrightarrow>
    \<exists>s'. scanLoop env q s = Some s' \<and> engine_inv done n hi {#} s'"
proof (induction "size_deps (dependencies (ri_result ri)) - sr_inputIndex q" arbitrary: q s ri rule: less_induct)
  case less
  have ok: "scan_step_ok done n hi q s (scanStep env q s)"
    by (rule scanStep_ok [OF env less.prems])
  then obtain r where r: "scanStep env q s = Some r"
    by (auto simp: scan_step_ok_def split: option.splits)
  show ?case
  proof (cases r)
    case (Inl s')
    with r ok show ?thesis
      by (subst scanLoop.simps) (simp add: scan_step_ok_def)
  next
    case (Inr p)
    obtain q' s' where p: "p = (q', s')" by force
    with Inr r ok obtain q0 where q0: "sr_rule q0 = sr_rule q" "engine_inv done n hi {#q0#} s'"
        and keep: "keeps s s'" and q': "sr_rule q' = sr_rule q" "sr_inputIndex q' = sr_inputIndex q + 1" "sr_inputRule q' = None"
      by (auto simp: scan_step_ok_def scan_goes_on_def)
    obtain ri' where ri': "getRule s' (sr_rule q) = Some ri'" "isScanning ri'"
        "dependencies (ri_result ri') = dependencies (ri_result ri)"
      by (rule keeps_scanning [OF keep less.prems(2,3)])
    have "q \<in># allScans {#q#} s" by (simp add: allScans_in_hand)
    then have idx: "sr_inputIndex q < size_deps (dependencies (ri_result ri))"
      using inv_one_scan(2) [OF less.prems] by blast
    show ?thesis
    proof (cases "sr_inputIndex q' = size_deps (dependencies (ri_result ri'))")
      case True
      have "\<exists>s''. finishScanRequest (sr_rule q0) (if sr_needsToRun q' then NeedsToRun else DoesNotNeedToRun) s' = Some s''
          \<and> engine_inv done n hi {#} s''"
        using ri' q0(1) by (intro finishScanRequest_ok [OF q0(2)]) auto
      with True r Inr p ri' q' q0(1) show ?thesis
        by (subst scanLoop.simps) simp
    next
      case False
      have "engine_inv done n hi {#q'#} s'"
        using ri' q' q0(1) idx False by (intro engine_inv_next_request [OF q0(2)]) auto
      moreover have "size_deps (dependencies (ri_result ri')) - sr_inputIndex q'
          < size_deps (dependencies (ri_result ri)) - sr_inputIndex q"
        using idx ri'(3) q'(2) by simp
      ultimately have "\<exists>s''. scanLoop env q' s' = Some s'' \<and> engine_inv done n hi {#} s''"
        using less.hyps [of ri' q' s'] ri' q'(1) by simp
      with False r Inr p ri' q' show ?thesis
        by (subst scanLoop.simps) simp
    qed
  qed
qed

text \<open>The stale request of a rule that was forced to build is dropped.\<close>

lemma engine_inv_drop_scan:
  assumes inv: "engine_inv done n hi {#q#} s" and ri: "getRule s (sr_rule q) = Some ri" "\<not> isScanning ri"
  shows "engine_inv done n hi {#} s"
proof -
  have hand: "allScans {#q#} s = add_mset q (allScans {#} s)" by (rule allScans_in_hand)
  have "scans_inv {#} s"
    unfolding scans_inv_def
  proof (intro conjI allI impI ballI)
    fix k x assume x: "getRule s k = Some x" "isScanning x"
    with ri have "k \<noteq> sr_rule q" by auto
    with inv_scan [OF inv x] show "\<exists>q. {#q \<in># allScans {#} s. sr_rule q = k#} = {#q#}
        \<and> sr_inputIndex q < size_deps (dependencies (ri_result x))"
      by (auto simp: hand)
  next
    fix x assume "x \<in># allScans {#} s"
    with inv_scan_ok [OF inv, of x] show "scan_ok s x" by (simp add: hand)
  next
    fix k x q0 assume "getRule s k = Some x" "q0 \<in> set (scans_rule x)"
    with inv show "sr_inputRule q0 = Some k" by (auto simp: engine_inv_def scans_inv_def)
  qed
  with inv show ?thesis by (simp add: engine_inv_def)
qed

lemma processRuleScanRequest_ok:
  assumes env: "client_contract env" and inv: "engine_inv done n hi {#q#} s"
  shows "\<exists>s'. processRuleScanRequest env q s = Some s' \<and> engine_inv done n hi {#} s'"
proof -
  have "q \<in># allScans {#q#} s" by (simp add: allScans_in_hand)
  from inv_scan_ok [OF inv this] obtain ri where ri: "getRule s (sr_rule q) = Some ri"
      "isScanning ri \<or> ri_wasForced ri \<and> isScanned (currentEpoch s) ri"
    by (auto simp: scan_ok_def)
  show ?thesis
  proof (cases "isScanning ri")
    case True
    from scanLoop_ok [OF env inv ri(1) True] ri True show ?thesis
      by (simp add: processRuleScanRequest_def)
  next
    case False
    with ri have "engine_inv done n hi {#} s" by (intro engine_inv_drop_scan [OF inv])
    with False ri show ?thesis by (simp add: processRuleScanRequest_def)
  qed
qed

end
