(* ===== verification/BuildEngineSteps.thy ===== *)
theory BuildEngineSteps
  imports BuildEngineScanning
begin

text \<open>
  Each item of the work loop \<^verbatim>\<open>executeTasks\<close>, and the cancellation of a build, keeps the
  invariant and does not fail.
\<close>

section \<open>Moving requests between queues\<close>

lemma engine_inv_queues:
  assumes inv: "engine_inv done n hi hs s"
    and core: "ruleInfos s' = ruleInfos s" "taskInfos s' = taskInfos s"
      "currentEpoch s' = currentEpoch s" "nextTask s' = nextTask s" "readyTaskInfos s' = readyTaskInfos s"
      "finishedTaskInfos s' = finishedTaskInfos s"
      "numOutstandingUnfinishedTasks s' = numOutstandingUnfinishedTasks s"
    and reqs: "allReqs hi' s' = allReqs hi s" "\<And>r. r \<in> set (finishedInputRequests s') \<Longrightarrow> finished_ok s r"
    and scans: "allScans hs' s' = allScans hs s"
  shows "engine_inv done n hi' hs' s'"
proof -
  have get: "getRule s' = getRule s" "getTaskInfo s' = getTaskInfo s"
    using core(1,2) by (auto simp: getRule_def getTaskInfo_def)
  then have views: "taskState s' = taskState s" "progressOf s' = progressOf s" "shape_ok s' = shape_ok s"
      "waitOf s' = waitOf s"
    by (auto simp: taskState_def progressOf_def shape_ok_def waitOf_def fun_eq_iff
        split: option.split InProgressInfo.split)
  note ok = req_ok_cong [OF get(1)] finished_ok_cong [OF get(1) core(3)] scan_ok_cong [OF get(1) core(3)]
  note D = engine_invD [OF inv]
  show ?thesis
  proof (rule engine_invI)
    show "rules_inv s'" using D(1) by (simp add: rules_inv_def views get core)
    show "tasks_inv s'" using D(2) by (simp add: tasks_inv_def views get core)
    show "reqs_inv hi' s'" using D(3) reqs by (simp add: reqs_inv_def views get ok)
    show "scans_inv hs' s'" using D(4) by (simp add: scans_inv_def scans get ok)
    show "ready_inv s'" using D(5) by (simp add: ready_inv_def views core)
    show "finish_inv done n s'" using D(6) by (simp add: finish_inv_def views computing_def core)
  qed
qed

lemma inv_finished_ok:
  "engine_inv done n hi hs s \<Longrightarrow> r \<in> set (finishedInputRequests s) \<Longrightarrow> finished_ok s r"
  by (simp add: engine_inv_def reqs_inv_def)

lemma pop_scan:
  assumes inv: "engine_inv done n hi {#} s" and ne: "ruleInfosToScan s \<noteq> []"
  shows "engine_inv done n hi {#last (ruleInfosToScan s)#} (s\<lparr>ruleInfosToScan := butlast (ruleInfosToScan s)\<rparr>)"
proof -
  have "mset (ruleInfosToScan s) = add_mset (last (ruleInfosToScan s)) (mset (butlast (ruleInfosToScan s)))"
    using ne by (metis append_butlast_last_id mset_append add_mset_add_single mset.simps)
  then show ?thesis
    using inv_finished_ok [OF inv] by (intro engine_inv_queues [OF inv]) (simp_all add: allReqs_def allScans_def)
qed

lemma pop_input:
  assumes inv: "engine_inv done n {#} hs s" and ne: "inputRequests s = r # rs"
  shows "engine_inv done n {#r#} hs (s\<lparr>inputRequests := rs\<rparr>)"
  using ne inv_finished_ok [OF inv] by (intro engine_inv_queues [OF inv]) (simp_all add: allReqs_def allScans_def)

lemma pop_finished_input:
  assumes inv: "engine_inv done n {#} hs s" and ne: "finishedInputRequests s \<noteq> []"
  shows "engine_inv done n {#last (finishedInputRequests s)#} hs
      (s\<lparr>finishedInputRequests := butlast (finishedInputRequests s)\<rparr>)"
proof -
  have "mset (finishedInputRequests s) = add_mset (last (finishedInputRequests s)) (mset (butlast (finishedInputRequests s)))"
    using ne by (metis append_butlast_last_id mset_append add_mset_add_single mset.simps)
  then show ?thesis
    using inv_finished_ok [OF inv]
    by (intro engine_inv_queues [OF inv]) (auto simp: allReqs_def allScans_def dest: in_set_butlastD)
qed

lemma allReqs_in_hand: "allReqs (add_mset r hi) s = add_mset r (allReqs hi s)"
  by (simp add: allReqs_def)

lemma engine_inv_drop_request:
  assumes inv: "engine_inv done n {#r#} hs s" and r: "ir_task r = None"
  shows "engine_inv done n {#} hs s"
proof -
  have "reqs_inv {#} s"
    using engine_invD(3) [OF inv] r unfolding reqs_inv_def by (simp add: allReqs_in_hand)
  with inv show ?thesis by (simp add: engine_inv_def)
qed

section \<open>Input requests\<close>

lemma pause_ok:
  assumes inv: "engine_inv done n {#r#} hs s" and ri: "getRule s (ir_inputRule r) = Some ri" "isScanning ri"
  obtains rec where "getPendingScanRecord ri = Some rec"
    "engine_inv done n {#} hs (putRule (ir_inputRule r) (setPendingScanRecord
       (Some (rec\<lparr>pausedInputRequests := pausedInputRequests rec @ [r]\<rparr>)) ri) s)"
proof -
  obtain rec where rec: "ri_inProgress ri = PendingScan rec" by (rule inv_scanning [OF inv ri])
  have "engine_inv done n {#} hs (putRule (ir_inputRule r) (setPendingScanRecord
       (Some (rec\<lparr>pausedInputRequests := pausedInputRequests rec @ [r]\<rparr>)) ri) s)"
    using engine_invD(4) [OF inv] ri rec
    by (intro engine_inv_record [OF inv ri(1) rec]) (auto simp: scans_inv_def scans_rule_def)
  then show thesis
    using that ri rec by (simp add: getPendingScanRecord_def)
qed

text \<open>The requester of an input records the dependency.\<close>

lemma record_dependency:
  assumes inv: "engine_inv done n hi hs s" and ti: "getTaskInfo s t = Some ti"
    and ri: "getRule s (ti_forRule ti) = Some ri"
  shows "engine_inv done n hi hs (putRule (ti_forRule ti) (ri\<lparr>ri_result := (ri_result ri)
      \<lparr>dependencies := push_back_deps k oo su (dependencies (ri_result ri))\<rparr>\<rparr>) s)"
proof -
  have "isInProgress ri" by (rule inv_task [OF inv ti]) (use ri in simp)
  then show ?thesis
    by (intro engine_inv_calm [OF inv ri]) (auto simp: calm_def rule_state_defs)
qed

lemma demand_result_put:
  assumes "demand_result k b s" "getRule s k' = Some ri" "ri_state ri' = ri_state ri"
    "builtAt (ri_result ri') = builtAt (ri_result ri)"
  shows "demand_result k b (putRule k' ri' s)"
  using assms by (auto simp: demand_result_def rule_state_defs)

lemma wait_for_task:
  assumes inv: "engine_inv done n {#r#} hs s" and r: "ir_task r \<noteq> None"
    and ti: "getTaskInfo s t = Some ti" "ti_forRule ti = ir_inputRule r"
  shows "engine_inv done n {#} hs (putTask t (ti\<lparr>ti_requestedBy := ti_requestedBy ti @ [r]\<rparr>) s)"
    (is "engine_inv _ _ _ _ (putTask t ?ti s)")
proof -
  note D = engine_invD [OF inv]
  have "asum (mset \<circ> ti_requestedBy) (AList.update t ?ti (taskInfos s)) + mset (ti_requestedBy ti)
      = asum (mset \<circ> ti_requestedBy) (taskInfos s) + {#r#} + mset (ti_requestedBy ti)"
    using asum_update_Some [of "taskInfos s" t ti "mset \<circ> ti_requestedBy" ?ti] ti(1)
    by (simp add: getTaskInfo_def)
  then have reqs: "allReqs {#} (putTask t ?ti s) = allReqs {#r#} s"
    by (simp add: allReqs_def)
  have scans: "allScans hs (putTask t ?ti s) = allScans hs s"
    using ti(1) by (simp add: allScans_def getTaskInfo_def asum_update_same)
  have wait: "waitOf (putTask t ?ti s) = waitOf s"
    using ti(1) by (auto simp: waitOf_def fun_eq_iff)
  show ?thesis
    by (rule engine_inv_putTask [OF inv ti(1)])
      (use D(3,5) r ti inv_discovered [OF inv ti(1)] in
        \<open>auto simp: reqs scans wait reqs_inv_def ready_inv_def\<close>)
qed

lemma processInputRequest_ok:
  assumes env: "client_contract env" and inv: "engine_inv done n {#r#} {#} s"
  shows "\<exists>s'. processInputRequest env r s = Some s' \<and> engine_inv done n {#} {#} s'"
proof -
  let ?k = "ir_inputRule r"
  have hand: "r \<in># allReqs {#r#} s'" for s' :: "('c, 'd) engine" by (simp add: allReqs_in_hand)
  have "getRule s ?k \<noteq> None"
    using engine_invD(3) [OF inv] hand by (auto simp: reqs_inv_def req_ok_def)
  from scanRule_ok [OF inv this, of env] obtain b s1 where
    s1: "scanRule env ?k s = Some (b, s1)" "engine_inv done n {#r#} {#} s1" "scan_result ?k b s1" by blast
  show ?thesis
  proof (cases b)
    case False
    with s1(3) obtain ri where ri: "getRule s1 ?k = Some ri" "isScanning ri" by (auto simp: scan_result_def)
    from pause_ok [OF s1(2) ri] s1(1) False ri show ?thesis
      by (fastforce simp: processInputRequest_def)
  next
    case True
    with s1(3) have "scan_result ?k True s1" by simp
    from demandRule_ok [OF env s1(2) this] obtain c s2 where
      s2: "demandRule env ?k s1 = Some (c, s2)" "engine_inv done n {#r#} {#} s2" "demand_result ?k c s2" by blast
    show ?thesis
    proof (cases "ir_task r")
      case None
      with s1(1) s2 True engine_inv_drop_request show ?thesis
        by (auto simp: processInputRequest_def)
    next
      case (Some t)
      obtain ti where ti: "getTaskInfo s2 t = Some ti"
        by (rule inv_requester [OF s2(2) hand Some])
      obtain ri where ri: "getRule s2 (ti_forRule ti) = Some ri"
        by (rule inv_task [OF s2(2) ti])
      define s3 where "s3 = putRule (ti_forRule ti) (ri\<lparr>ri_result := (ri_result ri)
        \<lparr>dependencies := push_back_deps ?k (ir_orderOnly r) (ir_singleUse r) (dependencies (ri_result ri))\<rparr>\<rparr>) s2"
      have s3: "engine_inv done n {#r#} {#} s3" "demand_result ?k c s3"
        using record_dependency [OF s2(2) ti ri] demand_result_put [OF s2(3) ri] by (simp_all add: s3_def)
      have eq: "processInputRequest env r s =
        (if c then Some (s3\<lparr>finishedInputRequests := finishedInputRequests s3 @ [r]\<rparr>)
         else do {
           inputInfo \<leftarrow> getRule s3 ?k;
           pending \<leftarrow> getPendingTaskInfo inputInfo;
           inputTask \<leftarrow> pending;
           inputTi \<leftarrow> getTaskInfo s3 inputTask;
           Some (putTask inputTask (inputTi\<lparr>ti_requestedBy := ti_requestedBy inputTi @ [r]\<rparr>) s3) })"
        using s1(1) s2(1) True Some ti ri by (simp add: processInputRequest_def s3_def)
      show ?thesis
      proof (cases c)
        case c: True
        with s3(2) Some have "finished_ok s3 r"
          by (auto simp: finished_ok_def demand_result_def)
        then have "engine_inv done n {#} {#} (s3\<lparr>finishedInputRequests := finishedInputRequests s3 @ [r]\<rparr>)"
          using inv_finished_ok [OF s3(1)]
          by (intro engine_inv_queues [OF s3(1)]) (auto simp: allReqs_def allScans_def)
        with c show ?thesis by (simp add: eq)
      next
        case False
        with s3(2) obtain x where x: "getRule s3 ?k = Some x" "isInProgress x"
          by (auto simp: demand_result_def)
        then obtain t' ti' where t': "ri_inProgress x = PendingTask t'" "getTaskInfo s3 t' = Some ti'" "ti_forRule ti' = ?k"
          by (rule inv_inProgress [OF s3(1)])
        with wait_for_task [OF s3(1), of t' ti'] Some x False show ?thesis
          by (simp add: eq getPendingTaskInfo_def)
      qed
    qed
  qed
qed

section \<open>Finished inputs\<close>

lemma inv_state_of_task:
  assumes "engine_inv done n hi hs s" "getTaskInfo s t = Some ti"
  shows "taskState s t \<in> {Some InProgressWaiting, Some InProgressComputing}"
  by (rule inv_task [OF assms]) (use assms in \<open>auto simp: taskState_def rule_state_defs\<close>)

text \<open>A task with a request in flight waits, and is not ready.\<close>

lemma inv_waiting:
  assumes inv: "engine_inv done n hi hs s" and r: "r \<in># allReqs hi s" "ir_task r = Some t"
  shows "may_request t s"
proof -
  obtain ti where ti: "getTaskInfo s t = Some ti" "ti_waitCount ti > 0"
    by (rule inv_requester [OF inv r])
  then have w: "waitOf s t > 0" by (simp add: waitOf_def)
  have "taskState s t \<noteq> Some InProgressComputing"
    using engine_invD(5) [OF inv] w unfolding ready_inv_def by (metis less_numeral_extra(3))
  with inv_state_of_task [OF inv ti(1)] inv_not_ready [OF inv w] show ?thesis
    by (simp add: may_request_def)
qed

lemma decrementTaskWaitCount_ok:
  assumes inv: "engine_inv done n {#r#} hs s" and r: "ir_task r = Some t"
  shows "\<exists>s'. decrementTaskWaitCount t s = Some s' \<and> engine_inv done n {#} hs s'"
proof -
  note D = engine_invD [OF inv]
  have hand: "r \<in># allReqs {#r#} s" by (simp add: allReqs_in_hand)
  obtain ti where ti: "getTaskInfo s t = Some ti" "ti_waitCount ti > 0"
    by (rule inv_requester [OF inv hand r])
  have wait_t: "may_request t s" by (rule inv_waiting [OF inv hand r])
  let ?ti = "ti\<lparr>ti_waitCount := ti_waitCount ti - 1\<rparr>"
  define s1 where "s1 = putTask t ?ti s"
  have flight: "allReqs {#r#} s = add_mset r (allReqs {#} s)" "allReqs {#} s1 = allReqs {#} s" "allScans hs s1 = allScans hs s"
    using ti(1) by (simp_all add: s1_def allReqs_def allScans_def getTaskInfo_def asum_update_same)
  have wait: "waitOf s1 t' = (if t' = t then waitOf s t - 1 else waitOf s t')" for t'
    using ti(1) by (auto simp: s1_def waitOf_def)
  have inv1: "engine_inv done n {#} hs s1"
  proof (rule engine_inv_putTask [OF inv ti(1)])
    show "waitOf s1 t' = requestsOf t' (allReqs {#} s1)" for t'
      using inv_wait [OF inv, of t'] r by (auto simp: wait flight)
    show "r' \<in># allReqs {#} s1 \<Longrightarrow> req_ok s r'" for r'
      using D(3) by (simp add: reqs_inv_def flight)
    show "r' \<in> set (ti_requestedBy ?ti) \<Longrightarrow> ir_task r' \<noteq> None \<and> ir_inputRule r' = ti_forRule ti" for r'
      using D(3) ti(1) by (simp add: reqs_inv_def)
    show "taskState s t' = Some InProgressWaiting \<and> waitOf s1 t' = 0" if "t' \<in> set (readyTaskInfos s1)" for t'
    proof -
      have "t' \<in> set (readyTaskInfos s)" using that by (simp add: s1_def)
      with D(5) show ?thesis by (auto simp: ready_inv_def wait)
    qed
    show "waitOf s1 t' = 0" if "taskState s t' = Some InProgressComputing" for t'
      using that D(5) by (auto simp: ready_inv_def wait)
  qed (use D(3,5) flight inv_discovered [OF inv ti(1)] in \<open>auto simp: s1_def reqs_inv_def ready_inv_def\<close>)
  have quiet1: "quiet s s1"
    unfolding s1_def using ti(1) by (rule quiet_putTask) simp
  define s2 where "s2 = (if ti_waitCount ?ti = 0 then s1\<lparr>readyTaskInfos := readyTaskInfos s1 @ [t]\<rparr> else s1)"
  have "waitOf s1 t = ti_waitCount ?ti"
    using ti(1) by (simp add: s1_def waitOf_def)
  then have "engine_inv done n {#} hs s2"
    using inv1 engine_inv_ready [OF inv1, of t] may_request_quiet [OF quiet1 wait_t]
    by (auto simp: s2_def may_request_def)
  moreover have "decrementTaskWaitCount t s = Some s2"
    using ti by (simp add: decrementTaskWaitCount_def s1_def s2_def Let_def)
  ultimately show ?thesis by blast
qed

lemma processFinishedInput_ok:
  assumes env: "client_contract env" and inv: "engine_inv done n {#r#} {#} s" and fin: "finished_ok s r"
  shows "\<exists>s'. processFinishedInput env r s = Some s' \<and> engine_inv done n {#} {#} s'"
proof -
  have hand: "r \<in># allReqs {#r#} s" by (simp add: allReqs_in_hand)
  from fin obtain t where t: "ir_task r = Some t" by (auto simp: finished_ok_def)
  obtain ti where ti: "getTaskInfo s t = Some ti" by (rule inv_requester [OF inv hand t])
  have "req_ok s r" using engine_invD(3) [OF inv] hand by (simp add: reqs_inv_def)
  then obtain ri where ri: "getRule s (ir_inputRule r) = Some ri"
      and must: "ir_orderOnly r \<longrightarrow> ir_inputID r = kMustFollowInputID"
    using t by (auto simp: req_ok_def)
  define s1 where "s1 = emit (EvProvideValue t (ir_inputID r) (rule_key (ri_rule ri)) (res_value (ri_result ri))) s"
  have same: "same_core s s1" by (simp add: s1_def same_core_def)
  have inv1: "engine_inv done n {#r#} {#} s1" using engine_inv_cong [OF same] inv by simp
  have "may_request t s1"
    using may_request_quiet [OF quiet_same_core [OF same] inv_waiting [OF inv hand t]] .
  from runProg_waiting [OF env inv1 this] obtain s2 where
    s2: "runProg env t (task_provideValue env (e_client s1) t (ir_inputID r) (rule_key (ri_rule ri))
           (res_value (ri_result ri))) s1 = Some s2" "engine_inv done n {#r#} {#} s2" by blast
  define s3 where "s3 = (if ir_orderOnly r then s else s2)"
  have "engine_inv done n {#r#} {#} s3" using inv s2(2) by (simp add: s3_def)
  from decrementTaskWaitCount_ok [OF this t] obtain s4 where
    "decrementTaskWaitCount t s3 = Some s4" "engine_inv done n {#} {#} s4" by blast
  moreover have "processFinishedInput env r s = decrementTaskWaitCount t s3"
    using t ti ri fin must s2(1)
    by (auto simp: processFinishedInput_def s3_def s1_def finished_ok_def Let_def)
  ultimately show ?thesis by simp
qed

section \<open>Ready tasks\<close>

lemma inv_waiting_not_done:
  assumes "engine_inv done n hi hs s" "taskState s t = Some InProgressWaiting"
  shows "t \<notin> done" "t \<notin> set (finishedTaskInfos s)"
  using assms by (auto simp: engine_inv_def finish_inv_def)

lemma engine_inv_setComputing:
  assumes inv: "engine_inv done 0 hi hs s" and ready: "readyTaskInfos s = t # ts"
    and ti: "getTaskInfo s t = Some ti" and ri: "getRule s (ti_forRule ti) = Some ri"
    and ri': "setComputing now ri = Some ri'"
  shows "engine_inv done 1 hi hs (putRule (ti_forRule ti) ri' (s\<lparr>readyTaskInfos := ts\<rparr>))" (is "engine_inv _ _ _ _ ?s'")
    and "taskState (putRule (ti_forRule ti) ri' (s\<lparr>readyTaskInfos := ts\<rparr>)) t = Some InProgressComputing"
proof -
  note D = engine_invD [OF inv]
  let ?k = "ti_forRule ti"
  have prog: "ri_inProgress ri = PendingTask t" by (rule inv_task [OF inv ti]) (use ri in simp)
  have r: "ri_inProgress ri' = PendingTask t" "ri_state ri' = InProgressComputing" "ri_state ri = InProgressWaiting"
      "dependencies (ri_result ri') = dependencies (ri_result ri)" "ri_wasForced ri' = ri_wasForced ri"
    using ri' prog by (auto simp: setComputing_def isInProgressWaiting_def)
  have get: "getRule ?s' = (getRule s)(?k := Some ri')" "getTaskInfo ?s' = getTaskInfo s"
    by (auto simp: getRule_def getTaskInfo_def)
  have others: "ti_forRule ti' \<noteq> ?k" if "getTaskInfo s t' = Some ti'" "t' \<noteq> t" for t' ti'
    by (rule inv_task [OF inv that(1)]) (use ri prog that(2) in auto)
  have ts: "taskState ?s' t' = (if t' = t then Some InProgressComputing else taskState s t')" for t'
    using ti r(2) others by (auto simp: taskState_def get split: option.split)
  have views: "progressOf ?s' = progressOf s" "waitOf ?s' = waitOf s"
    using ri prog r(1) by (auto simp: progressOf_def waitOf_def fun_eq_iff get)
  have shape: "shape_ok ?s' k x = shape_ok s k x" for k x
    by (auto simp: shape_ok_def get split: InProgressInfo.split)
  have lists: "reqs_rule ri' = reqs_rule ri" "scans_rule ri' = scans_rule ri" "scans_rule ri' = []"
    using r(1) prog by (simp_all add: reqs_rule_def scans_rule_def)
  have flight: "allReqs hi ?s' = allReqs hi s" "allScans hs ?s' = allScans hs s"
    using ri lists by (simp_all add: allReqs_def allScans_def getRule_def asum_update_same)
  have idle: "\<not> isScanning ri" "\<not> isScanning ri'" "\<not> isComplete (currentEpoch s) ri" "isScanned (currentEpoch s) ri'"
      "isInProgress ri'"
    using r by (auto simp: rule_state_defs)
  have rok: "req_ok ?s' q" if "req_ok s q" for q using that by (auto simp: req_ok_def get)
  have fin: "finished_ok ?s' q" if "finished_ok s q" for q
    using that ri idle by (auto simp: finished_ok_def get)
  have sok: "scan_ok ?s' q" if "scan_ok s q" for q
    using that ri idle r by (auto simp: scan_ok_def get)
  have t: "taskState s t = Some InProgressWaiting" using ti ri r(3) by (simp add: taskState_def)
  note nd = inv_waiting_not_done [OF inv t]
  have "shape_ok s ?k ri'" using r(1) idle ti by (simp add: shape_ok_def)
  show "engine_inv done 1 hi hs ?s'"
  proof (rule engine_invI)
    show "rules_inv ?s'"
      using D(1) r(4) ri \<open>shape_ok s ?k ri'\<close> unfolding rules_inv_def shape by (simp add: get)
    show "tasks_inv ?s'"
      using D(2) unfolding tasks_inv_def views by (simp add: get)
    show "reqs_inv hi ?s'"
      using D(3) rok fin unfolding reqs_inv_def views flight by (simp add: get)
    show "scans_inv hs ?s'"
      using D(4) sok lists idle unfolding scans_inv_def flight by (auto simp: get)
    show "ready_inv ?s'"
      using D(5) ready unfolding ready_inv_def views ts by auto
    have "computing done ?s' = insert t (computing done s)" "t \<notin> computing done s"
      using nd t by (auto simp: computing_def ts)
    then have "card (computing done ?s') = card (computing done s) + 1"
      using finite_computing [of "done" s] by simp
    then show "finish_inv done 1 ?s'"
      using D(6) nd unfolding finish_inv_def ts by auto
  qed
  show "taskState ?s' t = Some InProgressComputing" by (simp add: ts)
qed

lemma engine_inv_count:
  "engine_inv done 1 hi hs s \<Longrightarrow>
   engine_inv done 0 hi hs (s\<lparr>numOutstandingUnfinishedTasks := Suc (numOutstandingUnfinishedTasks s)\<rparr>)"
  (is "_ \<Longrightarrow> engine_inv _ _ _ _ ?s'")
proof -
  assume inv: "engine_inv done 1 hi hs s"
  note D = engine_invD [OF inv]
  have views: "taskState ?s' = taskState s" "progressOf ?s' = progressOf s" "shape_ok ?s' = shape_ok s"
      "waitOf ?s' = waitOf s" "allReqs hi ?s' = allReqs hi s" "allScans hs ?s' = allScans hs s"
    by (auto simp: taskState_def progressOf_def shape_ok_def waitOf_def allReqs_def allScans_def fun_eq_iff
        split: option.split InProgressInfo.split)
  note ok = req_ok_cong [of ?s' s] finished_ok_cong [of ?s' s] scan_ok_cong [of ?s' s]
  show "engine_inv done 0 hi hs ?s'"
  proof (rule engine_invI)
    show "rules_inv ?s'" using D(1) by (simp add: rules_inv_def views)
    show "tasks_inv ?s'" using D(2) by (simp add: tasks_inv_def views)
    show "reqs_inv hi ?s'" using D(3) ok by (simp add: reqs_inv_def views)
    show "scans_inv hs ?s'" using D(4) ok by (simp add: scans_inv_def views)
    show "ready_inv ?s'" using D(5) by (simp add: ready_inv_def views)
    show "finish_inv done 0 ?s'" using D(6) unfolding finish_inv_def views computing_def by simp
  qed
qed

lemma processReadyTask_ok:
  assumes env: "client_contract env" and inv: "engine_inv done 0 {#} {#} s" and ready: "readyTaskInfos s = t # ts"
  shows "\<exists>s'. processReadyTask env t (s\<lparr>readyTaskInfos := ts\<rparr>) = Some s' \<and> engine_inv done 0 {#} {#} s'"
proof -
  have t: "taskState s t = Some InProgressWaiting"
    using engine_invD(5) [OF inv] ready by (simp add: ready_inv_def)
  then obtain ti ri where ti: "getTaskInfo s t = Some ti" and ri: "getRule s (ti_forRule ti) = Some ri"
      "ri_state ri = InProgressWaiting"
    by (elim taskState_Some)
  have prog: "ri_inProgress ri = PendingTask t" by (rule inv_task [OF inv ti]) (use ri in simp)
  obtain ri' where ri': "setComputing (clock_now env (e_client s)) ri = Some ri'"
    using ri(2) by (simp add: setComputing_def isInProgressWaiting_def)
  define s1 where "s1 = putRule (ti_forRule ti) ri' (s\<lparr>readyTaskInfos := ts\<rparr>)"
  define s2 where "s2 = emit (EvInputsAvailable t) s1"
  note c = engine_inv_setComputing [OF inv ready ti ri(1) ri', folded s1_def]
  have same: "same_core s1 s2" by (simp add: s2_def same_core_def)
  have inv2: "engine_inv done 1 {#} {#} s2" using engine_inv_cong [OF same] c(1) by simp
  have t2: "taskState s2 t = Some InProgressComputing"
    using quiet_taskState [OF quiet_same_core [OF same] c(2)] .
  have "computing_prog (task_inputsAvailable env (e_client s2) t) True"
    using env by (simp add: client_contract_def)
  moreover have "t \<notin> done \<and> t \<notin> set (finishedTaskInfos s2)"
    using inv_waiting_not_done [OF inv t] by (simp add: s2_def s1_def)
  ultimately obtain s3 where "runProg env t (task_inputsAvailable env (e_client s2) t) s2 = Some s3"
      "engine_inv done 1 {#} {#} s3"
    using runProg_computing [OF inv2 t2] by blast
  then show ?thesis
    using ti ri prog ri' engine_inv_count [of "done" "{#}" "{#}" s3]
    by (simp add: processReadyTask_def getPendingTaskInfo_def s1_def s2_def rule_state_defs)
qed

section \<open>Finished tasks\<close>

text \<open>A task leaves the engine and its rule becomes complete.\<close>

lemma engine_inv_retire:
  assumes inv: "engine_inv done 0 {#} {#} s" and t: "finishedTaskInfos s = ts @ [t]" "t \<in> done"
    and ti: "getTaskInfo s t = Some ti" and ri: "getRule s (ti_forRule ti) = Some ri"
    and ri': "ri_inProgress ri' = NoInfo" "isComplete (currentEpoch s) ri'"
      "deps_invar (dependencies (ri_result ri'))" "ri_wasForced ri' = ri_wasForced ri"
    and s': "ruleInfos s' = AList.update (ti_forRule ti) ri' (ruleInfos s)"
      "taskInfos s' = AList.delete t (taskInfos s)"
      "inputRequests s' = inputRequests s"
      "finishedInputRequests s' = finishedInputRequests s @ ti_requestedBy ti"
      "ruleInfosToScan s' = ruleInfosToScan s @ ti_deferredScanRequests ti"
      "currentEpoch s' = currentEpoch s" "nextTask s' = nextTask s" "readyTaskInfos s' = readyTaskInfos s"
      "numOutstandingUnfinishedTasks s' = numOutstandingUnfinishedTasks s - 1"
      "finishedTaskInfos s' = ts"
  shows "engine_inv done 0 {#} {#} s'"
proof -
  note D = engine_invD [OF inv]
  let ?k = "ti_forRule ti"
  have state: "taskState s t = Some InProgressComputing" using D(6) t(1) by (simp add: finish_inv_def)
  have prog: "ri_inProgress ri = PendingTask t" by (rule inv_task [OF inv ti]) (use ri in simp)
  have old: "ri_state ri = InProgressComputing" using state ti ri by (simp add: taskState_def)
  have get: "getRule s' = (getRule s)(?k := Some ri')" "getTaskInfo s' = (getTaskInfo s)(t := None)"
    using s'(1,2) by (auto simp: getRule_def getTaskInfo_def)
  have others: "ti_forRule ti' \<noteq> ?k" if "getTaskInfo s t' = Some ti'" "t' \<noteq> t" for t' ti'
    by (rule inv_task [OF inv that(1)]) (use ri prog that(2) in auto)
  have ts: "taskState s' t' = (if t' = t then None else taskState s t')" for t'
    using others by (auto simp: taskState_def get split: option.split)
  have "waitOf s t = 0" using D(5) state by (simp add: ready_inv_def)
  then have wait: "waitOf s' = waitOf s" by (auto simp: waitOf_def fun_eq_iff get)
  have lists: "reqs_rule ri = []" "scans_rule ri = []" "reqs_rule ri' = []" "scans_rule ri' = []"
    using prog ri'(1) by (simp_all add: reqs_rule_def scans_rule_def)
  have dist: "distinct (map fst (taskInfos s))" using D(2) by (simp add: tasks_inv_def)
  have m: "map_of (taskInfos s) t = Some ti" using ti by (simp add: getTaskInfo_def)
  have tasks: "asum (mset \<circ> ti_requestedBy) (taskInfos s') + mset (ti_requestedBy ti) = asum (mset \<circ> ti_requestedBy) (taskInfos s)"
    "asum (mset \<circ> ti_deferredScanRequests) (taskInfos s') + mset (ti_deferredScanRequests ti)
       = asum (mset \<circ> ti_deferredScanRequests) (taskInfos s)"
    using asum_delete [OF dist m, of "mset \<circ> ti_requestedBy"] asum_delete [OF dist m, of "mset \<circ> ti_deferredScanRequests"]
    by (simp_all add: s'(2))
  have rules: "asum (mset \<circ> reqs_rule) (ruleInfos s') = asum (mset \<circ> reqs_rule) (ruleInfos s)"
    "asum (mset \<circ> scans_rule) (ruleInfos s') = asum (mset \<circ> scans_rule) (ruleInfos s)"
    using ri lists by (simp_all add: s'(1) getRule_def asum_update_same)
  have flight: "allReqs {#} s' = allReqs {#} s" "allScans {#} s' = allScans {#} s"
    unfolding allReqs_def allScans_def s'(3-5) rules tasks [symmetric] by (simp_all add: ac_simps)
  have idle: "\<not> isScanning ri" "\<not> isScanning ri'" "\<not> isComplete (currentEpoch s) ri" "isScanned (currentEpoch s) ri'"
      "\<not> isInProgress ri'"
    using old ri'(2) by (auto simp: rule_state_defs)
  have rok: "req_ok s' q" if "req_ok s q" for q using that by (auto simp: req_ok_def get)
  have fin: "finished_ok s' q" if "finished_ok s q" for q
    using that ri idle by (auto simp: finished_ok_def get s')
  have fin': "finished_ok s' q" if "q \<in> set (ti_requestedBy ti)" for q
    using that D(3) ti ri'(2) by (auto simp: finished_ok_def get s' reqs_inv_def)
  have sok: "scan_ok s' q" if "scan_ok s q" for q
    using that ri idle ri'(4) by (auto simp: scan_ok_def get s')
  have shape: "shape_ok s' k x" if "shape_ok s k x" "getRule s k = Some x" "k \<noteq> ?k" for k x
    using that ti by (auto simp: shape_ok_def get split: InProgressInfo.splits)
  show ?thesis
  proof (rule engine_invI)
    show "rules_inv s'"
      using D(1) shape ri' idle by (auto simp: rules_inv_def s'(1) get shape_ok_def)
    show "tasks_inv s'"
      using D(2) others by (auto simp: tasks_inv_def s'(2,7) get progressOf_def)
    show "reqs_inv {#} s'"
      using D(3) rok fin fin' unfolding reqs_inv_def wait flight by (auto simp: get s'(4))
    show "scans_inv {#} s'"
      using D(4) sok lists idle unfolding scans_inv_def flight by (auto simp: get)
    show "ready_inv s'"
      using D(5) state unfolding ready_inv_def wait ts s'(8) by auto
    have "computing done s' = computing done s"
      using t by (auto simp: computing_def ts s'(10))
    then show "finish_inv done 0 s'"
      using D(6) t unfolding finish_inv_def ts s'(7,9,10) by auto
  qed
qed

text \<open>
  The discovered dependencies are looked up and requested before the task is erased; these
  two parts of the code touch different fields and commute.
\<close>

definition requestDiscovered ::
  "('c, 'd) env \<Rightarrow> KeyID dep_entry \<Rightarrow> ('c, 'd) engine \<Rightarrow> ('c, 'd) engine" where
  "requestDiscovered env dep s = (let s = getRuleInfoForKeyID env (fst dep) s
     in s\<lparr>inputRequests := inputRequests s @ [dummyRequest dep]\<rparr>)"

definition with_queues ::
  "RuleScanRequest list \<Rightarrow> TaskInputRequest list \<Rightarrow> nat \<Rightarrow> (TaskId \<times> TaskInfo) list
     \<Rightarrow> ('c, 'd) engine \<Rightarrow> ('c, 'd) engine" where
  "with_queues scans fin out tasks s = s\<lparr>ruleInfosToScan := scans, finishedInputRequests := fin,
     numOutstandingUnfinishedTasks := out, taskInfos := tasks\<rparr>"

lemma requestDiscovered_with_queues:
  "requestDiscovered env dep (with_queues a b c d s) = with_queues a b c d (requestDiscovered env dep s)"
  by (cases s) (auto simp: requestDiscovered_def with_queues_def getRuleInfoForKeyID_def addRule_def
      getRule_def putRule_def emit_def Let_def split: option.split prod.split)

lemma requestAll_with_queues:
  "fold (requestDiscovered env) deps (with_queues a b c d s) = with_queues a b c d (fold (requestDiscovered env) deps s)"
  by (induction deps arbitrary: s) (simp_all add: requestDiscovered_with_queues)

lemma with_queues_self [simp]:
  "with_queues (ruleInfosToScan s) (finishedInputRequests s) (numOutstandingUnfinishedTasks s) (taskInfos s) s = s"
  by (cases s) (simp add: with_queues_def)

lemma requestAll_fields:
  "ruleInfosToScan (fold (requestDiscovered env) deps s) = ruleInfosToScan s"
  "finishedInputRequests (fold (requestDiscovered env) deps s) = finishedInputRequests s"
  "numOutstandingUnfinishedTasks (fold (requestDiscovered env) deps s) = numOutstandingUnfinishedTasks s"
  "taskInfos (fold (requestDiscovered env) deps s) = taskInfos s"
proof -
  let ?s' = "fold (requestDiscovered env) deps s"
  have eq: "?s' = with_queues (ruleInfosToScan s) (finishedInputRequests s) (numOutstandingUnfinishedTasks s) (taskInfos s) ?s'"
    using requestAll_with_queues [of env deps "ruleInfosToScan s" "finishedInputRequests s"
        "numOutstandingUnfinishedTasks s" "taskInfos s" s]
    by simp
  show "ruleInfosToScan ?s' = ruleInfosToScan s" "finishedInputRequests ?s' = finishedInputRequests s"
    "numOutstandingUnfinishedTasks ?s' = numOutstandingUnfinishedTasks s" "taskInfos ?s' = taskInfos s"
    by (subst eq, simp add: with_queues_def)+
qed

lemma dummyRequest_fields [simp]:
  "ir_inputRule (dummyRequest dep) = fst dep" "ir_task (dummyRequest dep) = None"
  by (simp_all add: dummyRequest_def split: prod.split)

lemma requestDiscovered_fun:
  "requestDiscovered env = (\<lambda>dep s. let s = getRuleInfoForKeyID env (fst dep) s
     in s\<lparr>inputRequests := inputRequests s @ [dummyRequest dep]\<rparr>)"
  by (simp add: fun_eq_iff requestDiscovered_def)

lemma engine_inv_dummy:
  assumes inv: "engine_inv done n hi hs s" and k: "getRule s (ir_inputRule r) \<noteq> None" "ir_task r = None"
  shows "engine_inv done n hi hs (s\<lparr>inputRequests := inputRequests s @ [r]\<rparr>)"
proof -
  have "reqs_inv (add_mset r hi) s"
    using engine_invD(3) [OF inv] k unfolding reqs_inv_def by (auto simp: allReqs_in_hand req_ok_def)
  then have "engine_inv done n (add_mset r hi) hs s" using inv by (simp add: engine_inv_def)
  then show ?thesis
    by (rule engine_inv_queues) (use inv_finished_ok [OF inv] in \<open>simp_all add: allReqs_def allScans_def\<close>)
qed

lemma requestAll_ok:
  assumes env: "client_contract env"
  shows "engine_inv done n hi hs s \<Longrightarrow> engine_inv done n hi hs (fold (requestDiscovered env) deps s)"
proof (induction deps arbitrary: s)
  case (Cons dep deps)
  note adds = getRuleInfoForKeyID_adds [OF env, of "fst dep" s]
  have "engine_inv done n hi hs (requestDiscovered env dep s)"
    unfolding requestDiscovered_def Let_def
    using adds_rule_quiet(2) [OF adds]
    by (intro engine_inv_dummy [OF adds_rule_inv [OF Cons.prems adds]])
      simp_all
  with Cons.IH show ?case by simp
qed simp

lemma processFinishedTask_ok:
  assumes env: "client_contract env" and inv: "engine_inv done 0 {#} {#} s"
    and t: "finishedTaskInfos s = ts @ [t]" "t \<in> done"
  shows "\<exists>s'. processFinishedTask env t (s\<lparr>finishedTaskInfos := ts\<rparr>) = Some (Inr s') \<and> engine_inv done 0 {#} {#} s'"
proof -
  note D = engine_invD [OF inv]
  have "taskState s t = Some InProgressComputing" using D(6) t(1) by (simp add: finish_inv_def)
  then obtain ti ri where ti: "getTaskInfo s t = Some ti"
      and ri: "getRule s (ti_forRule ti) = Some ri" "ri_state ri = InProgressComputing"
    by (elim taskState_Some)
  have prog: "ri_inProgress ri = PendingTask t" by (rule inv_task [OF inv ti]) (use ri in simp)
  have out: "numOutstandingUnfinishedTasks s \<noteq> 0" using D(6) t(1) by (simp add: finish_inv_def)
  define ri0 where "ri0 = setComplete (currentEpoch s) (clock_now env (e_client s)) (ri\<lparr>ri_inProgress := NoInfo\<rparr>)"
  define ri' where "ri' = ri0\<lparr>ri_result := (ri_result ri0)
    \<lparr>dependencies := append_deps (ti_discovered ti) (dependencies (ri_result ri0))\<rparr>\<rparr>"
  define s1 where "s1 = emit (EvStatus (rule_key (ri_rule ri')) StatusIsComplete)
    (putRule (ti_forRule ti) ri' (s\<lparr>finishedTaskInfos := ts\<rparr>))"
  define s2 where "s2 = fold (requestDiscovered env) (deps_entries (ti_discovered ti)) s1"
  have complete: "completeRule env t (s\<lparr>finishedTaskInfos := ts\<rparr>) = Some (ti, ri', s2)"
    using ti ri prog
    by (simp add: completeRule_def getPendingTaskInfo_def setPendingTaskInfo_def rule_state_defs Let_def
        s2_def s1_def ri'_def ri0_def requestDiscovered_fun)
  have ri'_facts: "ri_inProgress ri' = NoInfo" "isComplete (currentEpoch s) ri'"
      "deps_invar (dependencies (ri_result ri'))" "ri_wasForced ri' = ri_wasForced ri"
    using inv_deps [OF inv ri(1)] inv_discovered [OF inv ti]
    by (simp_all add: ri'_def ri0_def setComplete_def isComplete_def)
  define retire where "retire = (\<lambda>s :: ('a, 'b) engine. with_queues (ruleInfosToScan s @ ti_deferredScanRequests ti)
    (finishedInputRequests s @ ti_requestedBy ti) (numOutstandingUnfinishedTasks s - 1) (AList.delete t (taskInfos s)) s)"
  have "engine_inv done 0 {#} {#} (retire s1)"
    by (rule engine_inv_retire [OF inv t ti ri(1) ri'_facts]) (simp_all add: retire_def with_queues_def s1_def)
  moreover have "retire s2 = fold (requestDiscovered env) (deps_entries (ti_discovered ti)) (retire s1)"
    unfolding retire_def requestAll_with_queues by (simp add: s2_def requestAll_fields)
  ultimately have inv2: "engine_inv done 0 {#} {#} (retire s2)"
    using requestAll_ok [OF env] by simp
  have out2: "numOutstandingUnfinishedTasks s2 \<noteq> 0"
    using out by (simp add: s2_def requestAll_fields s1_def)
  have retired: "retireTask t ti s2 = Some (retire s2)"
    using out2 by (simp add: retireTask_def retire_def with_queues_def)
  have retired_db: "retireTask t ti (s2\<lparr>e_db := db\<rparr>) = Some ((retire s2)\<lparr>e_db := db\<rparr>)" for db
    using out2 by (cases s2) (simp add: retireTask_def retire_def with_queues_def)
  show ?thesis
  proof (cases "e_db s2")
    case None
    with complete retired inv2 show ?thesis by (simp add: processFinishedTask_def)
  next
    case (Some db)
    obtain db' where "db_setRuleResult env db (ri_keyID ri') (ri_rule ri') (ri_result ri') = (db', None)"
      using env unfolding client_contract_def by (metis prod.collapse)
    with Some complete retired_db inv2 show ?thesis
      by (simp add: processFinishedTask_def engine_simps)
  qed
qed

section \<open>Cancellation\<close>

text \<open>An engine between two builds: no task, no queued work, no rule under way.\<close>

definition idle :: "('c, 'd) engine \<Rightarrow> bool" where
  "idle s \<longleftrightarrow> distinct (map fst (ruleInfos s)) \<and>
     (\<forall>k ri. getRule s k = Some ri \<longrightarrow> ri_inProgress ri = NoInfo \<and> \<not> isScanning ri \<and> \<not> isInProgress ri
        \<and> deps_invar (dependencies (ri_result ri))) \<and>
     taskInfos s = [] \<and> inputRequests s = [] \<and> finishedInputRequests s = [] \<and> ruleInfosToScan s = []
     \<and> readyTaskInfos s = [] \<and> finishedTaskInfos s = [] \<and> numOutstandingUnfinishedTasks s = 0"

lemma idle_same_core: "same_core s s' \<Longrightarrow> idle s' = idle s"
  using same_core_get [of s s'] by (simp add: idle_def same_core_def)

lemma idle_engine_inv:
  assumes idle: "idle s" and bound: "\<forall>t \<in> done. t < nextTask s"
  shows "engine_inv done 0 {#} {#} s"
proof -
  have no_tasks: "getTaskInfo s t = None" for t using idle by (simp add: idle_def getTaskInfo_def)
  then have none: "taskState s t = None" "waitOf s t = 0" for t
    by (simp_all add: taskState_def waitOf_def)
  have rules: "ri_inProgress ri = NoInfo" if "(k, ri) \<in> set (ruleInfos s)" for k ri
    using that idle by (auto simp: idle_def getRule_def)
  then have lists: "asum (mset \<circ> reqs_rule) (ruleInfos s) = {#}" "asum (mset \<circ> scans_rule) (ruleInfos s) = {#}"
    by (auto intro!: asum_zero simp: reqs_rule_def scans_rule_def)
  then have flight: "allReqs {#} s = {#}" "allScans {#} s = {#}"
    using idle by (simp_all add: allReqs_def allScans_def idle_def)
  show ?thesis
  proof (rule engine_invI)
    show "rules_inv s" using idle by (auto simp: rules_inv_def idle_def shape_ok_def)
    show "tasks_inv s" using idle no_tasks by (simp add: tasks_inv_def idle_def)
    show "reqs_inv {#} s" using idle no_tasks none by (simp add: reqs_inv_def flight idle_def)
    show "scans_inv {#} s" using idle by (auto simp: scans_inv_def flight idle_def scans_rule_def)
    show "ready_inv s" using idle none by (simp add: ready_inv_def idle_def)
    show "finish_inv done 0 s" using idle none bound by (simp add: finish_inv_def computing_def idle_def)
  qed
qed

text \<open>The state of the loop that cancels the tasks, with the tasks \<open>xs\<close> still to come.\<close>

definition cancelling :: "(TaskId \<times> TaskInfo) list \<Rightarrow> ('c, 'd) engine \<Rightarrow> bool" where
  "cancelling xs s \<longleftrightarrow> distinct (map fst (ruleInfos s)) \<and> distinct (map fst xs) \<and>
     numOutstandingUnfinishedTasks s = 0 \<and>
     (\<forall>k ri. getRule s k = Some ri \<longrightarrow> deps_invar (dependencies (ri_result ri)) \<and>
        (case ri_inProgress ri of
           NoInfo \<Rightarrow> \<not> isScanning ri \<and> \<not> isInProgress ri
         | PendingScan r \<Rightarrow> isScanning ri
         | PendingTask t \<Rightarrow> isInProgress ri \<and> (\<exists>ti. (t, ti) \<in> set xs \<and> ti_forRule ti = k))) \<and>
     (\<forall>t ti. (t, ti) \<in> set xs \<longrightarrow> progressOf s (ti_forRule ti) = Some (PendingTask t))"

lemma inv_cancelling:
  assumes inv: "engine_inv done n hi hs s" and out: "numOutstandingUnfinishedTasks s = 0"
  shows "cancelling (taskInfos s) s"
proof -
  note D = engine_invD [OF inv]
  have "(\<exists>ti. (t, ti) \<in> set (taskInfos s) \<and> ti_forRule ti = k)"
    if "map_option ti_forRule (getTaskInfo s t) = Some k" for t k
    using that by (auto simp: getTaskInfo_def dest: map_of_SomeD)
  moreover have "getTaskInfo s t = Some ti" if "(t, ti) \<in> set (taskInfos s)" for t ti
    using that D(2) by (simp add: getTaskInfo_def tasks_inv_def)
  ultimately show ?thesis
    using D(1,2) out
    by (fastforce simp: cancelling_def rules_inv_def tasks_inv_def shape_ok_def split: InProgressInfo.splits)
qed

lemma cancelTask_ok:
  assumes c: "cancelling ((t, ti) # xs) s"
  shows "\<exists>s'. cancelTask (t, ti) s = Some s' \<and> cancelling xs s'"
proof -
  from c have "progressOf s (ti_forRule ti) = Some (PendingTask t)" by (simp add: cancelling_def)
  then obtain ri where ri: "getRule s (ti_forRule ti) = Some ri" "ri_inProgress ri = PendingTask t"
    by (auto simp: progressOf_def)
  have "case ri_inProgress ri of NoInfo \<Rightarrow> \<not> isScanning ri \<and> \<not> isInProgress ri | PendingScan r \<Rightarrow> isScanning ri
      | PendingTask t' \<Rightarrow> isInProgress ri \<and> (\<exists>ti'. (t', ti') \<in> set ((t, ti) # xs) \<and> ti_forRule ti' = ti_forRule ti)"
    using c ri(1) unfolding cancelling_def by blast
  with ri(2) have prog: "isInProgress ri" by simp
  define ri' where "ri' = setCancelled (ri\<lparr>ri_inProgress := NoInfo\<rparr>)"
  have ri': "ri_inProgress ri' = NoInfo" "\<not> isScanning ri'" "\<not> isInProgress ri'" "ri_result ri' = ri_result ri"
    by (simp_all add: ri'_def setCancelled_def rule_state_defs)
  have "cancelTask (t, ti) s = Some (putRule (ti_forRule ti) ri' s)"
    using ri prog by (simp add: cancelTask_def getPendingTaskInfo_def setPendingTaskInfo_def ri'_def)
  moreover have "cancelling xs (putRule (ti_forRule ti) ri' s)"
    unfolding cancelling_def
  proof (intro conjI allI impI)
    fix k x assume x: "getRule (putRule (ti_forRule ti) ri' s) k = Some x"
    show "deps_invar (dependencies (ri_result x))"
      using x c ri(1) ri'(4) by (auto simp: cancelling_def split: if_splits)
    show "case ri_inProgress x of NoInfo \<Rightarrow> \<not> isScanning x \<and> \<not> isInProgress x
         | PendingScan r \<Rightarrow> isScanning x
         | PendingTask t \<Rightarrow> isInProgress x \<and> (\<exists>ti. (t, ti) \<in> set xs \<and> ti_forRule ti = k)"
    proof (cases "k = ti_forRule ti")
      case True with x ri' show ?thesis by simp
    next
      case False
      with x have "getRule s k = Some x" by simp
      with c False show ?thesis
        by (fastforce simp: cancelling_def split: InProgressInfo.splits)
    qed
  next
    fix t' ti' assume t': "(t', ti') \<in> set xs"
    with c have "t' \<noteq> t" "progressOf s (ti_forRule ti') = Some (PendingTask t')"
      by (auto simp: cancelling_def image_iff)
    with ri show "progressOf (putRule (ti_forRule ti) ri' s) (ti_forRule ti') = Some (PendingTask t')"
      by (auto simp: progressOf_def)
  qed (use c in \<open>simp_all add: cancelling_def\<close>)
  ultimately show ?thesis by blast
qed

lemma cancelTasks_ok:
  "cancelling xs s \<Longrightarrow> \<exists>s'. foldM_option cancelTask xs s = Some s' \<and> cancelling [] s'"
proof (induction xs arbitrary: s)
  case (Cons x xs)
  from cancelTask_ok [of "fst x" "snd x" xs s] Cons.prems obtain s1 where
    "cancelTask x s = Some s1" "cancelling xs s1" by auto
  with Cons.IH show ?case by simp
qed simp

lemma cancelDrained_ok:
  assumes inv: "engine_inv done n hi hs s" and out: "numOutstandingUnfinishedTasks s = 0"
  shows "\<exists>s'. cancelDrained s = Some s' \<and> idle s'"
proof -
  from cancelTasks_ok [OF inv_cancelling [OF inv out]] obtain s1 where
    s1: "foldM_option cancelTask (taskInfos s) s = Some s1" "cancelling [] s1" by blast
  let ?rules = "map (\<lambda>(k, ri). (k, cancelScan ri)) (ruleInfos s1)"
  have look: "map_of ?rules k = map_option cancelScan (getRule s1 k)" for k
    unfolding getRule_def by (induction "ruleInfos s1" arbitrary: s1) (auto simp: map_of_map)
  have rule: "ri_inProgress (cancelScan ri) = NoInfo \<and> \<not> isScanning (cancelScan ri) \<and> \<not> isInProgress (cancelScan ri)
      \<and> deps_invar (dependencies (ri_result (cancelScan ri)))" if "getRule s1 k = Some ri" for k ri
  proof -
    from s1(2) that have "deps_invar (dependencies (ri_result ri))"
        "case ri_inProgress ri of NoInfo \<Rightarrow> \<not> isScanning ri \<and> \<not> isInProgress ri
         | PendingScan r \<Rightarrow> isScanning ri | PendingTask t \<Rightarrow> False"
      by (auto simp: cancelling_def split: InProgressInfo.splits)
    then show ?thesis
      by (auto simp: cancelScan_def setCancelled_def setPendingScanRecord_def rule_state_defs
          split: InProgressInfo.splits)
  qed
  have "distinct (map fst ?rules)"
    using s1(2) by (simp add: cancelling_def comp_def case_prod_beta)
  moreover define s2 where "s2 = s1\<lparr>ruleInfos := ?rules, ruleInfosToScan := [], inputRequests := [],
    finishedInputRequests := [], readyTaskInfos := [], finishedTaskInfos := [], taskInfos := []\<rparr>"
  moreover have "getRule s2 k = map_option cancelScan (getRule s1 k)" for k
    unfolding look [symmetric] by (simp add: s2_def getRule_def)
  ultimately have "idle s2"
    using rule s1(2) by (auto simp: idle_def cancelling_def)
  with s1(1) show ?thesis by (simp add: cancelDrained_def s2_def)
qed

lemma engine_inv_drain:
  assumes inv: "engine_inv done 0 {#} {#} s" and sub: "set (finishedTaskInfos s) \<subseteq> done"
  shows "length (finishedTaskInfos s) \<le> numOutstandingUnfinishedTasks s"
    and "engine_inv done 0 {#} {#} (s\<lparr>numOutstandingUnfinishedTasks :=
        numOutstandingUnfinishedTasks s - length (finishedTaskInfos s), finishedTaskInfos := []\<rparr>)"
      (is "engine_inv _ _ _ _ ?s'")
proof -
  note D = engine_invD [OF inv]
  show "length (finishedTaskInfos s) \<le> numOutstandingUnfinishedTasks s"
    using D(6) by (simp add: finish_inv_def)
  have views: "taskState ?s' = taskState s" "progressOf ?s' = progressOf s" "shape_ok ?s' = shape_ok s"
      "waitOf ?s' = waitOf s" "allReqs {#} ?s' = allReqs {#} s" "allScans {#} ?s' = allScans {#} s"
    by (auto simp: taskState_def progressOf_def shape_ok_def waitOf_def allReqs_def allScans_def fun_eq_iff
        split: option.split InProgressInfo.split)
  note ok = req_ok_cong [of ?s' s] finished_ok_cong [of ?s' s] scan_ok_cong [of ?s' s]
  have "computing done ?s' = computing done s" using sub by (auto simp: computing_def views)
  then have fin: "finish_inv done 0 ?s'" using D(6) unfolding finish_inv_def views by simp
  show "engine_inv done 0 {#} {#} ?s'"
  proof (rule engine_invI)
    show "rules_inv ?s'" using D(1) by (simp add: rules_inv_def views)
    show "tasks_inv ?s'" using D(2) by (simp add: tasks_inv_def views)
    show "reqs_inv {#} ?s'" using D(3) ok by (simp add: reqs_inv_def views)
    show "scans_inv {#} ?s'" using D(4) ok by (simp add: scans_inv_def views)
    show "ready_inv ?s'" using D(5) by (simp add: ready_inv_def views)
  qed (rule fin)
qed

end
