(* ===== verification/BuildEngineSearch.thy ===== *)
theory BuildEngineSearch
  imports BuildEngineSteps
begin

text \<open>
  The search for a cycle. \<^verbatim>\<open>findCycle\<close> always returns; it returns a path of the wait graph that
  starts at the key being built and runs into itself, and the empty list exactly if there is
  no such path.
\<close>

section \<open>The depth-first search\<close>

definition pred_path :: "rule_graph \<Rightarrow> KeyID list \<Rightarrow> bool" where
  "pred_path pg = successively (\<lambda>a b. b \<in> set (graph_at pg a))"

text \<open>A path that runs into itself.\<close>

definition lasso :: "rule_graph \<Rightarrow> KeyID list \<Rightarrow> bool" where
  "lasso pg c \<longleftrightarrow> pred_path pg c \<and> distinct (butlast c) \<and> c \<noteq> [] \<and> last c \<in> set (butlast c)"

text \<open>What remains of the search below a node: a cycle has been found, or every path through
  the node is free of repetitions and the search goes on with the rest of the stack.\<close>

definition explored ::
  "rule_graph \<Rightarrow> (KeyID \<times> nat) list \<Rightarrow> (KeyID \<times> nat) list \<Rightarrow> KeyID list \<Rightarrow> KeyID list
     \<Rightarrow> KeyID list \<Rightarrow> (KeyID list \<Rightarrow> bool) \<Rightarrow> bool" where
  "explored pg stack rest cl cl' start P \<longleftrightarrow>
     (\<exists>c. searchCycle pg stack cl' (set cl') = Some c \<and> lasso pg c \<and> (\<exists>p. c = start @ p)) \<or>
     searchCycle pg stack cl' (set cl') = searchCycle pg rest cl (set cl) \<and>
       (\<forall>p. P p \<longrightarrow> pred_path pg (start @ p) \<longrightarrow> distinct (start @ p))"

lemma pred_path_snoc:
  "pred_path pg (xs @ [x]) \<longleftrightarrow> pred_path pg xs \<and> (xs \<noteq> [] \<longrightarrow> x \<in> set (graph_at pg (last xs)))"
  by (auto simp: pred_path_def successively_append_iff)

lemma pred_path_append:
  "pred_path pg (xs @ x # ys) \<Longrightarrow> xs \<noteq> [] \<Longrightarrow> x \<in> set (graph_at pg (last xs))"
  by (simp add: pred_path_def successively_append_iff)

lemma explore:
  assumes V: "finite V" "\<And>a b. a \<in> V \<Longrightarrow> b \<in> set (graph_at pg a) \<Longrightarrow> b \<in> V"
  shows "distinct cl \<Longrightarrow> set cl \<subseteq> V \<Longrightarrow> node \<in> V \<Longrightarrow> pred_path pg (cl @ [node]) \<Longrightarrow>
    explored pg ((node, 0) # rest) rest cl cl (cl @ [node]) (\<lambda>p. True)"
proof (induction "card (V - set cl)" arbitrary: cl node rest rule: less_induct)
  case less
  show ?case
  proof (cases "node \<in> set cl")
    case True
    then have "searchCycle pg ((node, 0) # rest) cl (set cl) = Some (cl @ [node])"
      by (simp add: searchCycle.simps [of pg "(node, 0) # rest"] visitNode_def Let_def)
    with less.prems True show ?thesis by (auto simp: explored_def lasso_def)
  next
    case new: False
    let ?cl = "cl @ [node]" and ?preds = "graph_at pg node"
    have smaller: "card (V - set ?cl) < card (V - set cl)"
      using V(1) new less.prems(3) by (intro psubset_card_mono) auto
    define below where "below = (\<lambda>i p. p \<noteq> [] \<longrightarrow> hd p \<in> set (drop i ?preds))"
    define Q where "Q = (\<lambda>stack i. explored pg stack rest cl ?cl ?cl (below i))"
    have down: "Q ((?preds ! i, 0) # (node, Suc i) # rest) i" if i: "i < length ?preds" "Q ((node, Suc i) # rest) (Suc i)" for i
    proof -
      let ?q = "?preds ! i"
      have drop: "drop i ?preds = ?q # drop (Suc i) ?preds" using i(1) by (simp add: Cons_nth_drop_Suc)
      have "explored pg ((?q, 0) # (node, Suc i) # rest) ((node, Suc i) # rest) ?cl ?cl (?cl @ [?q]) (\<lambda>p. True)"
      proof (rule less.hyps [OF smaller])
        show "?q \<in> V" using V(2) [OF less.prems(3)] i(1) by simp
        show "pred_path pg (?cl @ [?q])" using less.prems(4) i(1) by (subst pred_path_snoc) simp
      qed (use less.prems new in auto)
      then consider c where "searchCycle pg ((?q, 0) # (node, Suc i) # rest) ?cl (set ?cl) = Some c" "lasso pg c"
          "\<exists>p. c = ?cl @ ?q # p"
        | "searchCycle pg ((?q, 0) # (node, Suc i) # rest) ?cl (set ?cl) = searchCycle pg ((node, Suc i) # rest) ?cl (set ?cl)"
          "\<And>p. pred_path pg (?cl @ ?q # p) \<Longrightarrow> distinct (?cl @ ?q # p)"
        unfolding explored_def by auto
      then show ?thesis
      proof cases
        case 1
        then show ?thesis unfolding Q_def explored_def by blast
      next
        case 2
        have "distinct (?cl @ p)" if "below i p" "pred_path pg (?cl @ p)"
            "\<forall>p. below (Suc i) p \<longrightarrow> pred_path pg (?cl @ p) \<longrightarrow> distinct (?cl @ p)" for p
        proof (cases "below (Suc i) p")
          case False
          with that(1) have "p = ?q # tl p" by (cases p) (auto simp: below_def drop)
          with that(2) 2(2) [of "tl p"] show ?thesis by metis
        qed (use that in blast)
        then show ?thesis using i(2) unfolding Q_def explored_def 2(1) by blast
      qed
    qed
    show ?thesis
    proof (cases "?preds = []")
      case True
      then have "searchCycle pg ((node, 0) # rest) cl (set cl) = searchCycle pg rest cl (set cl)"
        using new by (simp add: searchCycle.simps [of pg "(node, 0) # rest"] visitNode_def Let_def)
      moreover have "p = []" if "pred_path pg (?cl @ p)" for p
        using pred_path_append [of pg ?cl] that True by (cases p) auto
      ultimately show ?thesis using less.prems(1) new by (fastforce simp: explored_def)
    next
      case False
      have final: "Q ((node, length ?preds) # rest) (length ?preds)"
      proof -
        have "searchCycle pg ((node, length ?preds) # rest) ?cl (set ?cl) = searchCycle pg rest cl (set cl)"
          using new False by (simp add: searchCycle.simps [of pg "(node, length ?preds) # rest"] visitNode_def Let_def)
        then show ?thesis using less.prems(1) new by (simp add: Q_def explored_def below_def)
      qed
      have "Q ((node, Suc 0) # rest) (Suc 0)"
      proof (rule inc_induct [of "Suc 0" "length ?preds"])
        show "Q ((node, i) # rest) i" if "Suc 0 \<le> i" "i < length ?preds" "Q ((node, Suc i) # rest) (Suc i)" for i
        proof -
          have "searchCycle pg ((node, i) # rest) ?cl (set ?cl)
              = searchCycle pg ((?preds ! i, 0) # (node, Suc i) # rest) ?cl (set ?cl)"
            using that(1,2) by (simp add: searchCycle.simps [of pg "(node, i) # rest"] visitNode_def Let_def)
          with down [OF that(2,3)] show ?thesis unfolding Q_def explored_def by simp
        qed
      qed (use False final in \<open>simp_all add: Suc_le_eq\<close>)
      from down [OF _ this] False have "Q ((?preds ! 0, 0) # (node, Suc 0) # rest) 0" by simp
      moreover have "searchCycle pg ((node, 0) # rest) cl (set cl)
          = searchCycle pg ((?preds ! 0, 0) # (node, Suc 0) # rest) ?cl (set ?cl)"
        using new False by (simp add: searchCycle.simps [of pg "(node, 0) # rest"] visitNode_def Let_def)
      moreover have "below 0 p" if "pred_path pg (?cl @ p)" for p
        using pred_path_append [of pg ?cl] that by (cases p) (auto simp: below_def)
      ultimately show ?thesis unfolding Q_def explored_def by auto
    qed
  qed
qed


definition graph_nodes :: "rule_graph \<Rightarrow> KeyID set" where
  "graph_nodes g = (\<Union>(k, ps) \<in> set g. set ps)"

lemma graph_at_nodes: "b \<in> set (graph_at g a) \<Longrightarrow> b \<in> graph_nodes g"
proof -
  assume "b \<in> set (graph_at g a)"
  then obtain ps where "(a, ps) \<in> set g" "b \<in> set ps"
    by (cases "map_of g a") (auto simp: graph_at_def dest: map_of_SomeD)
  then show ?thesis unfolding graph_nodes_def by blast
qed

lemma searchCycle_empty: "searchCycle pg [] cl ci = Some cl"
  by (subst searchCycle.simps) (simp add: visitNode_def)

lemma searchCycle_correct:
  "\<exists>c. searchCycle pg [(root, 0)] [] {} = Some c \<and>
     (if c = [] then \<forall>p. pred_path pg (root # p) \<longrightarrow> distinct (root # p) else lasso pg c \<and> hd c = root)"
proof -
  have "explored pg [(root, 0)] [] [] [] ([] @ [root]) (\<lambda>p. True)"
  proof (rule explore)
    show "finite (insert root (graph_nodes pg))" by (auto simp: graph_nodes_def)
  qed (auto simp: pred_path_def intro: graph_at_nodes)
  then consider c where "searchCycle pg [(root, 0)] [] {} = Some c" "lasso pg c" "\<exists>p. c = [root] @ p"
    | "searchCycle pg [(root, 0)] [] {} = Some []" "\<And>p. pred_path pg (root # p) \<Longrightarrow> distinct (root # p)"
    by (auto simp: explored_def searchCycle_empty)
  then show ?thesis
  proof cases
    case (1 c)
    then have "c \<noteq> []" "hd c = root" by auto
    with 1 show ?thesis by simp
  qed simp
qed

section \<open>The graph\<close>

definition edges :: "rule_graph \<Rightarrow> (KeyID \<times> KeyID) set" where
  "edges g = {e. snd e \<in> set (graph_at g (fst e))}"

lemma edges_iff: "(k, x) \<in> edges g \<longleftrightarrow> x \<in> set (graph_at g k)"
  by (simp add: edges_def)

lemma edges_empty [simp]: "edges [] = {}"
  by (simp add: edges_def graph_at_def)

lemma graph_at_push: "graph_at (graph_push k x g) k' = graph_at g k' @ (if k' = k then [x] else [])"
  by (simp add: graph_at_def graph_push_def update_conv')

lemma edges_push [simp]: "edges (graph_push k x g) = insert (k, x) (edges g)"
proof -
  have "(k', x') \<in> edges (graph_push k x g) \<longleftrightarrow> (k', x') \<in> insert (k, x) (edges g)" for k' x'
    unfolding edges_iff graph_at_push insert_iff prod.inject by (cases "k' = k") auto
  then show ?thesis by (intro set_eqI) (simp only: split_paired_all)
qed

lemma edges_insert:
  "map_of g k = None \<Longrightarrow> edges (graph_insert k xs g) = {k} \<times> set xs \<union> edges g"
proof -
  assume "map_of g k = None"
  then have "graph_at (graph_insert k xs g) k' = (if k' = k then xs else graph_at g k')" "graph_at g k = []" for k'
    by (simp_all add: graph_at_def graph_insert_def update_conv')
  then show ?thesis by (auto simp: edges_iff split: if_splits)
qed

lemma edges_push_fold:
  "edges (fold (\<lambda>x p. graph_push x node p) xs g) = set xs \<times> {node} \<union> edges g"
  by (induction xs arbitrary: g) auto

lemma edges_invert_fold:
  "edges (fold (\<lambda>(node, succs). fold (\<lambda>succ p. graph_push succ node p) succs) g p)
     = {(x, k). \<exists>xs. (k, xs) \<in> set g \<and> x \<in> set xs} \<union> edges p"
proof (induction g arbitrary: p)
  case (Cons a g)
  obtain k xs where "a = (k, xs)" by force
  with Cons show ?case by (auto simp: edges_push_fold)
qed simp

lemma edges_invert: "distinct (map fst g) \<Longrightarrow> edges (invertGraph g) = (edges g)\<inverse>"
  unfolding invertGraph_def edges_invert_fold
  by (auto simp: edges_iff graph_at_def split: option.splits dest: map_of_SomeD)

lemma graph_at_predecessorGraph: "set (graph_at (predecessorGraph s g) k) = set (graph_at (invertGraph g) k)"
proof -
  have "map_of (predecessorGraph s g) k = map_option (sort_key (ruleKeyOf s)) (map_of (invertGraph g) k)"
    by (simp add: predecessorGraph_def map_of_map)
  then show ?thesis by (simp add: graph_at_def split: option.split)
qed


section \<open>What the graph holds\<close>

text \<open>
  Rule \<open>a\<close> waits for rule \<open>b\<close>: the task of \<open>a\<close> has asked the task of \<open>b\<close> for its value or is
  paused on its scan, or the scan of \<open>a\<close> is deferred to the task or to the scan of \<open>b\<close>.
\<close>

definition task_waits :: "('c, 'd) engine \<Rightarrow> TaskInfo \<Rightarrow> KeyID \<Rightarrow> bool" where
  "task_waits s ti a \<longleftrightarrow> (\<exists>r \<in> set (ti_requestedBy ti). requesterRule s r = Some a)
     \<or> (\<exists>q \<in> set (ti_deferredScanRequests ti). sr_rule q = a)"

definition scan_waits :: "('c, 'd) engine \<Rightarrow> RuleScanRecord \<Rightarrow> (KeyID \<times> KeyID) set" where
  "scan_waits s rec = {(b, a). (\<exists>r \<in> set (pausedInputRequests rec). ir_inputRule r = b \<and> requesterRule s r = Some a)
     \<or> (\<exists>q \<in> set (deferredScanRequests rec). sr_inputRule q = Some b \<and> sr_rule q = a)}"

definition waits_for :: "('c, 'd) engine \<Rightarrow> KeyID \<Rightarrow> KeyID \<Rightarrow> bool" where
  "waits_for s a b \<longleftrightarrow> (\<exists>t ti. getTaskInfo s t = Some ti \<and> ti_forRule ti = b \<and> task_waits s ti a)
     \<or> (\<exists>k ri rec. getRule s k = Some ri \<and> ri_inProgress ri = PendingScan rec \<and> (b, a) \<in> scan_waits s rec)"

lemma requester_exists:
  assumes "engine_inv done n hi hs s" "r \<in># allReqs hi s" "ir_task r \<noteq> None"
  shows "requesterRule s r \<noteq> None"
proof -
  from assms(3) obtain t where t: "ir_task r = Some t" by blast
  from inv_requester [OF assms(1,2) t] show ?thesis by (metis t requesterRule_def bind.bind_lunit option.distinct(1))
qed

lemma requesters_exist:
  assumes inv: "engine_inv done n hi hs s" and ti: "getTaskInfo s t = Some ti"
  shows "mapM_option (requesterRule s) (ti_requestedBy ti) = Some (map (the \<circ> requesterRule s) (ti_requestedBy ti))
    \<and> (\<forall>r \<in> set (ti_requestedBy ti). requesterRule s r \<noteq> None)"
proof -
  have req: "requesterRule s r \<noteq> None" if "r \<in> set (ti_requestedBy ti)" for r
  proof -
    from that ti have "r \<in># allReqs hi s" using in_allReqs [OF inv, of r hi] by blast
    moreover have "ir_task r \<noteq> None" using engine_invD(3) [OF inv] ti that by (simp add: reqs_inv_def)
    ultimately show ?thesis using requester_exists [OF inv] by simp
  qed
  then have "mapM_option (requesterRule s) (ti_requestedBy ti) = Some (map (the \<circ> requesterRule s) (ti_requestedBy ti))"
    by (intro mapM_option_Some) force
  with req show ?thesis by blast
qed

lemma distinct_graph_push: "distinct (map fst g) \<Longrightarrow> distinct (map fst (graph_push k x g))"
  by (simp add: graph_push_def distinct_update)

lemma pausedSuccessors_ok:
  assumes "\<And>r. r \<in> set paused \<Longrightarrow> ir_task r \<noteq> None \<Longrightarrow> requesterRule s r \<noteq> None" "distinct (map fst g)"
  shows "\<exists>g'. pausedSuccessors s paused g = Some g' \<and> distinct (map fst g') \<and>
    edges g' = {(b, a). \<exists>r \<in> set paused. ir_inputRule r = b \<and> requesterRule s r = Some a} \<union> edges g"
  using assms
proof (induction paused arbitrary: g)
  case (Cons r rs)
  show ?case
  proof (cases "ir_task r")
    case None
    then have "requesterRule s r = None" by (simp add: requesterRule_def)
    with None Cons.IH [OF Cons.prems(1) Cons.prems(2)] show ?thesis
      by (auto simp: pausedSuccessors_def)
  next
    case (Some t)
    with Cons.prems(1) [of r] obtain a where a: "requesterRule s r = Some a" by auto
    from Cons.IH [OF Cons.prems(1) distinct_graph_push [OF Cons.prems(2), of "ir_inputRule r" a]]
    obtain g' where "pausedSuccessors s rs (graph_push (ir_inputRule r) a g) = Some g'" "distinct (map fst g')"
      "edges g' = {(b, a). \<exists>r \<in> set rs. ir_inputRule r = b \<and> requesterRule s r = Some a}
         \<union> insert (ir_inputRule r, a) (edges g)" by auto
    with Some a show ?thesis by (auto simp: pausedSuccessors_def)
  qed
qed (simp add: pausedSuccessors_def)

lemma deferredSuccessors_ok:
  assumes "\<And>q. q \<in> set deferred \<Longrightarrow> scan_ok s q \<and> sr_inputRule q \<noteq> None" "distinct (map fst g)"
  shows "\<exists>active' g'. deferredSuccessors s deferred (active, g) = Some (active', g') \<and> distinct (map fst g') \<and>
    set active \<subseteq> set active' \<and> set active' \<subseteq> set active \<union> set (activeScanRecords s) \<and>
    edges g' = {(b, a). \<exists>q \<in> set deferred. sr_inputRule q = Some b \<and> sr_rule q = a} \<union> edges g"
  using assms
proof (induction deferred arbitrary: active g)
  case (Cons q qs)
  from Cons.prems(1) [of q] obtain input ri where input: "sr_inputRule q = Some input"
      and ri: "getRule s (sr_rule q) = Some ri" "isScanning ri \<or> ri_wasForced ri"
    by (auto simp: scan_ok_def)
  let ?active = "if isScanning ri then active @ [sr_rule q] else active"
  from Cons.IH [OF Cons.prems(1) distinct_graph_push [OF Cons.prems(2), of input "sr_rule q"], of ?active]
  obtain active' g' where IH: "deferredSuccessors s qs (?active, graph_push input (sr_rule q) g) = Some (active', g')"
    "distinct (map fst g')" "set ?active \<subseteq> set active' \<and> set active' \<subseteq> set ?active \<union> set (activeScanRecords s)"
    "edges g' = {(b, a). \<exists>q \<in> set qs. sr_inputRule q = Some b \<and> sr_rule q = a} \<union> insert (input, sr_rule q) (edges g)"
    by auto
  have "isScanning ri \<Longrightarrow> sr_rule q \<in> set (activeScanRecords s)"
    using ri(1) by (force simp: activeScanRecords_def getRule_def dest: map_of_SomeD)
  then have "set active \<subseteq> set active' \<and> set active' \<subseteq> set active \<union> set (activeScanRecords s)"
    using IH(3) by (auto split: if_splits)
  moreover have "deferredSuccessors s (q # qs) (active, g) = Some (active', g')"
    using IH(1) input ri by (simp add: deferredSuccessors_def)
  moreover have "edges g' = {(b, a). \<exists>q \<in> set (q # qs). sr_inputRule q = Some b \<and> sr_rule q = a} \<union> edges g"
    using IH(4) input by auto
  ultimately show ?case using IH(2) by blast
qed (simp add: deferredSuccessors_def)

text \<open>The record of a rule that is being scanned can be followed.\<close>

lemma scan_record_ok:
  assumes inv: "engine_inv done n {#} {#} s" and k: "k \<in> set (activeScanRecords s)"
  obtains ri rec where "getRule s k = Some ri" "ri_inProgress ri = PendingScan rec"
    "getPendingScanRecord ri = Some rec"
    "\<And>r. r \<in> set (pausedInputRequests rec) \<Longrightarrow> ir_task r \<noteq> None \<Longrightarrow> requesterRule s r \<noteq> None"
    "\<And>q. q \<in> set (deferredScanRequests rec) \<Longrightarrow> scan_ok s q \<and> sr_inputRule q \<noteq> None"
proof -
  from k obtain ri where "(k, ri) \<in> set (ruleInfos s)" "isScanning ri" by (auto simp: activeScanRecords_def)
  then have ri: "getRule s k = Some ri" "isScanning ri"
    using engine_invD(1) [OF inv] by (simp_all add: rules_inv_def getRule_def)
  obtain rec where rec: "ri_inProgress ri = PendingScan rec" by (rule inv_scanning [OF inv ri])
  show thesis
  proof (rule that [OF ri(1) rec])
    show "getPendingScanRecord ri = Some rec" using ri(2) rec by (simp add: getPendingScanRecord_def)
    show "requesterRule s r \<noteq> None" if "r \<in> set (pausedInputRequests rec)" "ir_task r \<noteq> None" for r
    proof -
      have "r \<in># allReqs {#} s"
        using in_allReqs [OF inv, of r "{#}"] ri(1) rec that(1) by (auto simp: reqs_rule_def)
      with requester_exists [OF inv] that(2) show ?thesis by blast
    qed
    show "scan_ok s q \<and> sr_inputRule q \<noteq> None" if "q \<in> set (deferredScanRequests rec)" for q
    proof -
      have q: "q \<in> set (scans_rule ri)" using that rec by (simp add: scans_rule_def)
      then have "q \<in># allScans {#} s" using in_allScans [OF inv, of q "{#}"] ri(1) by blast
      with inv_scan_ok [OF inv] have "scan_ok s q" by blast
      moreover have "sr_inputRule q = Some k"
        using engine_invD(4) [OF inv] ri(1) q by (simp add: scans_inv_def)
      ultimately show ?thesis by simp
    qed
  qed
qed

definition record_edges :: "('c, 'd) engine \<Rightarrow> KeyID \<Rightarrow> (KeyID \<times> KeyID) set" where
  "record_edges s k = {e. \<exists>ri rec. getRule s k = Some ri \<and> ri_inProgress ri = PendingScan rec \<and> e \<in> scan_waits s rec}"

lemma scanRecordSuccessors_ok:
  assumes inv: "engine_inv done n {#} {#} s"
  shows "set active \<subseteq> set (activeScanRecords s) \<Longrightarrow> distinct (map fst g) \<Longrightarrow>
    \<exists>g'. scanRecordSuccessors s active visited g = Some g' \<and> distinct (map fst g') \<and>
      (\<Union>k \<in> set active - set visited. record_edges s k) \<union> edges g \<subseteq> edges g' \<and>
      edges g' \<subseteq> (\<Union>k \<in> set (activeScanRecords s). record_edges s k) \<union> edges g"
proof (induction "card (set (activeScanRecords s) - set visited)" arbitrary: active visited g rule: less_induct)
  case less
  from less.prems show ?case
  proof (induction active rule: rev_induct)
    case Nil
    then show ?case by (simp add: scanRecordSuccessors.simps [of s "[]"])
  next
    case (snoc k active)
    show ?case
    proof (cases "k \<in> set visited")
      case True
      then have "scanRecordSuccessors s (active @ [k]) visited g = scanRecordSuccessors s active visited g"
        by (simp add: scanRecordSuccessors.simps [of s "active @ [k]"])
      with snoc True show ?thesis by auto
    next
      case False
      from snoc.prems(1) have k: "k \<in> set (activeScanRecords s)" by simp
      obtain ri rec where rec: "getRule s k = Some ri" "ri_inProgress ri = PendingScan rec"
        "getPendingScanRecord ri = Some rec"
        and P: "\<And>r. r \<in> set (pausedInputRequests rec) \<Longrightarrow> ir_task r \<noteq> None \<Longrightarrow> requesterRule s r \<noteq> None"
        and D: "\<And>q. q \<in> set (deferredScanRequests rec) \<Longrightarrow> scan_ok s q \<and> sr_inputRule q \<noteq> None"
        using scan_record_ok [OF inv k] by blast
      from pausedSuccessors_ok [OF P snoc.prems(2)] obtain g1 where
        g1: "pausedSuccessors s (pausedInputRequests rec) g = Some g1" "distinct (map fst g1)"
          "edges g1 = {(b, a). \<exists>r \<in> set (pausedInputRequests rec). ir_inputRule r = b \<and> requesterRule s r = Some a} \<union> edges g"
        by blast
      from deferredSuccessors_ok [OF D g1(2)] obtain active' g2 where
        g2: "deferredSuccessors s (deferredScanRequests rec) (active, g1) = Some (active', g2)" "distinct (map fst g2)"
          "set active \<subseteq> set active'" "set active' \<subseteq> set active \<union> set (activeScanRecords s)"
          "edges g2 = {(b, a). \<exists>q \<in> set (deferredScanRequests rec). sr_inputRule q = Some b \<and> sr_rule q = a} \<union> edges g1"
        by blast
      have "card (set (activeScanRecords s) - set (k # visited)) < card (set (activeScanRecords s) - set visited)"
        using k False by (intro psubset_card_mono) auto
      moreover have "set active' \<subseteq> set (activeScanRecords s)" using g2(4) snoc.prems(1) by auto
      ultimately obtain g' where
        g': "scanRecordSuccessors s active' (k # visited) g2 = Some g'" "distinct (map fst g')"
          "(\<Union>k \<in> set active' - set (k # visited). record_edges s k) \<union> edges g2 \<subseteq> edges g'"
          "edges g' \<subseteq> (\<Union>k \<in> set (activeScanRecords s). record_edges s k) \<union> edges g2"
        using less.hyps [OF _ _ g2(2), of "k # visited" active'] by blast
      have "record_edges s k = scan_waits s rec" using rec by (simp add: record_edges_def)
      then have edges2: "edges g2 = record_edges s k \<union> edges g"
        unfolding g2(5) g1(3) scan_waits_def by auto
      have "scanRecordSuccessors s (active @ [k]) visited g = Some g'"
        using False rec g1(1) g2(1) g'(1) by (simp add: scanRecordSuccessors.simps [of s "active @ [k]"])
      moreover have "(\<Union>k \<in> set (active @ [k]) - set visited. record_edges s k) \<union> edges g \<subseteq> edges g'"
        using g'(3) g2(3) unfolding edges2 by auto
      moreover have "edges g' \<subseteq> (\<Union>k \<in> set (activeScanRecords s). record_edges s k) \<union> edges g"
        using g'(4) k unfolding edges2 by auto
      ultimately show ?thesis using g'(2) by blast
    qed
  qed
qed

text \<open>Every task is for a rule of its own, so no node of the graph is entered twice.\<close>

lemma taskSuccessors_fold:
  assumes F: "F = (\<lambda>(t, ti) g. do {
       requesters \<leftarrow> mapM_option (requesterRule s) (ti_requestedBy ti);
       Some (graph_insert (ti_forRule ti) (requesters @ map sr_rule (ti_deferredScanRequests ti)) g)
     })"
    and "\<And>t ti. (t, ti) \<in> set xs \<Longrightarrow>
      mapM_option (requesterRule s) (ti_requestedBy ti) = Some (map (the \<circ> requesterRule s) (ti_requestedBy ti))
      \<and> (\<forall>r \<in> set (ti_requestedBy ti). requesterRule s r \<noteq> None)"
    and "distinct (map (ti_forRule \<circ> snd) xs)" "distinct (map fst g)" "fst ` set g \<inter> (ti_forRule \<circ> snd) ` set xs = {}"
  shows "\<exists>g'. foldM_option F xs g = Some g' \<and> distinct (map fst g') \<and>
     edges g' = {(b, a). \<exists>t ti. (t, ti) \<in> set xs \<and> ti_forRule ti = b \<and> task_waits s ti a} \<union> edges g"
  using assms(2-)
proof (induction xs arbitrary: g)
  case (Cons x xs)
  obtain t ti where x: "x = (t, ti)" by force
  let ?succs = "map (the \<circ> requesterRule s) (ti_requestedBy ti) @ map sr_rule (ti_deferredScanRequests ti)"
  let ?g = "graph_insert (ti_forRule ti) ?succs g"
  have new: "map_of g (ti_forRule ti) = None"
    using Cons.prems(4) x by (auto simp: map_of_eq_None_iff)
  have g: "?g = g @ [(ti_forRule ti, ?succs)]"
    unfolding graph_insert_def new option.case using new
    by (induction g) (auto simp: update.simps split: if_splits)
  have "distinct (map fst ?g)" "fst ` set ?g \<inter> (ti_forRule \<circ> snd) ` set xs = {}"
    using Cons.prems(2,3,4) x new by (auto simp: g map_of_eq_None_iff image_iff)
  moreover have "mapM_option (requesterRule s) (ti_requestedBy ti) = Some (map (the \<circ> requesterRule s) (ti_requestedBy ti))
      \<and> (\<forall>r \<in> set (ti_requestedBy ti). requesterRule s r \<noteq> None)" if "(t, ti) \<in> set xs" for t ti
    using Cons.prems(1) [of t ti] that by simp
  moreover have "distinct (map (ti_forRule \<circ> snd) xs)" using Cons.prems(2) by (simp add: comp_def)
  ultimately obtain g' where g': "foldM_option F xs ?g = Some g'" "distinct (map fst g')"
     "edges g' = {(b, a). \<exists>t ti. (t, ti) \<in> set xs \<and> ti_forRule ti = b \<and> task_waits s ti a} \<union> edges ?g"
    using Cons.IH [of ?g] by blast
  have succs: "set ?succs = {a. task_waits s ti a}"
  proof -
    have "(\<exists>r \<in> R. a = the (requesterRule s r)) \<longleftrightarrow> (\<exists>r \<in> R. requesterRule s r = Some a)"
      if "\<forall>r \<in> R. requesterRule s r \<noteq> None" for R a using that by force
    from this [of "set (ti_requestedBy ti)"] Cons.prems(1) [of t ti] x show ?thesis
      by (auto simp: task_waits_def image_iff)
  qed
  have "edges g' = {(b, a). \<exists>t ti. (t, ti) \<in> set (x # xs) \<and> ti_forRule ti = b \<and> task_waits s ti a} \<union> edges g"
    unfolding g'(3) edges_insert [OF new] succs using x by auto
  moreover have "F x g = Some ?g"
    using Cons.prems(1) [of t ti] by (simp add: F x comp_def)
  ultimately show ?case using g'(1,2) by simp
qed simp

lemma taskSuccessors_ok:
  assumes inv: "engine_inv done n hi hs s"
  shows "\<exists>g. taskSuccessors s = Some g \<and> distinct (map fst g) \<and>
    edges g = {(b, a). \<exists>t ti. getTaskInfo s t = Some ti \<and> ti_forRule ti = b \<and> task_waits s ti a}"
proof -
  have dist: "distinct (map fst (taskInfos s))" using engine_invD(2) [OF inv] by (simp add: tasks_inv_def)
  then have task: "(t, ti) \<in> set (taskInfos s) \<longleftrightarrow> getTaskInfo s t = Some ti" for t ti
    by (auto simp: getTaskInfo_def dest: map_of_SomeD)
  have "t = t'" if "getTaskInfo s t = Some ti" "getTaskInfo s t' = Some ti'" "ti_forRule ti = ti_forRule ti'" for t t' ti ti'
  proof -
    have "progressOf s (ti_forRule ti) = Some (PendingTask t)" "progressOf s (ti_forRule ti') = Some (PendingTask t')"
      using that(1,2) engine_invD(2) [OF inv] by (simp_all add: tasks_inv_def)
    with that(3) show ?thesis by simp
  qed
  then have "distinct (map (ti_forRule \<circ> snd) (taskInfos s))"
    using dist task by (fastforce simp: distinct_map inj_on_def)
  from taskSuccessors_fold [OF refl _ this, of s "[]"] requesters_exist [OF inv] show ?thesis
    unfolding taskSuccessors_def task by simp
qed

section \<open>Finding a cycle\<close>

definition wait_path :: "('c, 'd) engine \<Rightarrow> KeyID list \<Rightarrow> bool" where
  "wait_path s = successively (waits_for s)"

text \<open>The cycle that \<^verbatim>\<open>findCycle\<close> reports: a path of waiting rules from the key being built that
  runs into itself.\<close>

definition wait_cycle :: "('c, 'd) engine \<Rightarrow> KeyType \<Rightarrow> KeyID list \<Rightarrow> bool" where
  "wait_cycle s key c \<longleftrightarrow> c \<noteq> [] \<and> hd c = key \<and> wait_path s c \<and> distinct (butlast c) \<and> last c \<in> set (butlast c)"

lemma findCycle_ok:
  assumes env: "client_contract env" and inv: "engine_inv done n {#} {#} s"
  shows "\<exists>c. findCycle env key s = Some (c, snd (getRuleInfoForKey env key s)) \<and>
    (if c = [] then \<forall>p. wait_path s (key # p) \<longrightarrow> distinct (key # p) else wait_cycle s key c)"
proof -
  from taskSuccessors_ok [OF inv] obtain g where g: "taskSuccessors s = Some g" "distinct (map fst g)"
    "edges g = {(b, a). \<exists>t ti. getTaskInfo s t = Some ti \<and> ti_forRule ti = b \<and> task_waits s ti a}" by blast
  from scanRecordSuccessors_ok [OF inv subset_refl g(2), of "[]"] obtain g' where
    g': "scanRecordSuccessors s (activeScanRecords s) [] g = Some g'" "distinct (map fst g')"
      "edges g' = (\<Union>k \<in> set (activeScanRecords s). record_edges s k) \<union> edges g" by auto
  have active: "k \<in> set (activeScanRecords s)" if "getRule s k = Some ri" "ri_inProgress ri = PendingScan rec" for k ri rec
  proof -
    have "isScanning ri" using inv_shape [OF inv that(1)] that(2) by (simp add: shape_ok_def)
    with that(1) show ?thesis by (force simp: activeScanRecords_def getRule_def dest: map_of_SomeD)
  qed
  have "(b, a) \<in> edges g' \<longleftrightarrow> waits_for s a b" for a b
    unfolding g'(3) g(3) waits_for_def using active by (fastforce simp: record_edges_def)
  then have "b \<in> set (graph_at (predecessorGraph s g') a) \<longleftrightarrow> waits_for s a b" for a b
    unfolding graph_at_predecessorGraph edges_iff [symmetric] edges_invert [OF g'(2)] by simp
  then have path: "pred_path (predecessorGraph s g') = wait_path s"
    by (simp add: pred_path_def wait_path_def)
  obtain s1 where s1: "getRuleInfoForKey env key s = (key, s1)" using getRuleInfoForKey_adds [OF env] by blast
  from searchCycle_correct [of "predecessorGraph s g'" key] obtain c where
    "searchCycle (predecessorGraph s g') [(key, 0)] [] {} = Some c"
    "if c = [] then \<forall>p. wait_path s (key # p) \<longrightarrow> distinct (key # p) else wait_cycle s key c"
    unfolding path lasso_def wait_cycle_def by (auto split: if_splits)
  with g(1) g'(1) s1 show ?thesis by (simp add: findCycle_def Let_def)
qed

end
