(* ===== verification/BuildEngineExamples.thy ===== *)
theory BuildEngineExamples
  imports BuildEngineLoop
begin

text \<open>
  A small client of the build engine, in the style of the rules of
  \<^verbatim>\<open>unittests/Core/BuildEngineTest.cpp\<close>: each key requests a list of inputs when its task
  starts, discovers further dependencies when it computes, and completes with its source
  value followed by the values it received. It instantiates the client parameters of the
  engine model, and the properties are exhibited on it.
\<close>

record sample =
  s_inputs :: "(KeyType \<times> KeyType list) list"
  s_discovers :: "(KeyType \<times> KeyType list) list"
  s_source :: "(KeyType \<times> ValueType) list"
  s_async :: "KeyType list"
  s_tasks :: "(TaskId \<times> KeyType) list"
  s_received :: "(TaskId \<times> ValueType) list"

definition list_at :: "('k \<times> 'v list) list \<Rightarrow> 'k \<Rightarrow> 'v list" where
  "list_at al k = (case map_of al k of None \<Rightarrow> [] | Some v \<Rightarrow> v)"

definition taskKey :: "sample \<Rightarrow> TaskId \<Rightarrow> KeyType" where
  "taskKey c t = list_at (s_tasks c) t"

primrec requestAll :: "KeyType list \<Rightarrow> 'c prog \<Rightarrow> 'c prog" where
  "requestAll [] p = p"
| "requestAll (k # ks) p = Request k 0 (requestAll ks p)"

primrec discoverAll :: "KeyType list \<Rightarrow> 'c prog \<Rightarrow> 'c prog" where
  "discoverAll [] p = p"
| "discoverAll (k # ks) p = DiscoveredDependency k (discoverAll ks p)"

definition sample_value :: "sample \<Rightarrow> TaskId \<Rightarrow> ValueType" where
  "sample_value c t = list_at (s_source c) (taskKey c t) @ list_at (s_received c) t"

text \<open>The database state is a flag: whether the next writes fail.\<close>

definition sample_env :: "(sample, bool) env" where
  "sample_env = \<lparr>
     lookupRule = (\<lambda>c k. \<lparr>rule_key = k, rule_signature = 1\<rparr>),
     isResultValid = (\<lambda>c k v. case map_of (s_source c) k of None \<Rightarrow> True | Some src \<Rightarrow> src = v),
     checksDependenciesBeforeRunning = (\<lambda>c k. False),
     mustCheckDependencyBeforeRunning = (\<lambda>c k k'. False),
     createTask = (\<lambda>c k t. c\<lparr>s_tasks := (t, k) # s_tasks c\<rparr>),
     task_start = (\<lambda>c t. requestAll (list_at (s_inputs c) (taskKey c t)) (Return c)),
     task_providePriorValue = (\<lambda>c t v. Return c),
     task_provideValue = (\<lambda>c t i k v.
        Return (c\<lparr>s_received := AList.update t (list_at (s_received c) t @ v) (s_received c)\<rparr>)),
     task_inputsAvailable = (\<lambda>c t. discoverAll (list_at (s_discovers c) (taskKey c t))
        (if taskKey c t \<in> set (s_async c) then Return c
         else CompleteTask (sample_value c t) False (Return c))),
     shouldResolveCycle = (\<lambda>c ks k a. False),
     clock_now = (\<lambda>c. 0),
     db_lookupRuleResult = (\<lambda>d k key. (None, [])),
     db_setRuleResult = (\<lambda>d k r res. (d, if d then Some ''disk full'' else None)),
     db_buildStarted = (\<lambda>d. (d, None)),
     db_setCurrentIteration = (\<lambda>d ep. (d, None)),
     db_buildComplete = (\<lambda>d. d),
     db_getCurrentEpoch = (\<lambda>d. (0, True))\<rparr>"

definition sample_client ::
  "(KeyType \<times> KeyType list) list \<Rightarrow> (KeyType \<times> KeyType list) list
     \<Rightarrow> (KeyType \<times> ValueType) list \<Rightarrow> KeyType list \<Rightarrow> sample" where
  "sample_client inputs discovers source async = \<lparr>s_inputs = inputs, s_discovers = discovers,
     s_source = source, s_async = async, s_tasks = [], s_received = []\<rparr>"

text \<open>The same engine after the outside world changed a source.\<close>

definition editSource ::
  "KeyType \<Rightarrow> ValueType \<Rightarrow> (sample, bool) engine \<Rightarrow> (sample, bool) engine" where
  "editSource k v s = s\<lparr>e_client := (e_client s)\<lparr>s_source := AList.update k v (s_source (e_client s))\<rparr>\<rparr>"

definition ruleState :: "('c, 'd) engine \<Rightarrow> KeyID \<Rightarrow> StateKind option" where
  "ruleState s k = map_option ri_state (getRule s k)"

section \<open>Scenarios\<close>

text \<open>\<open>all\<close> is \<open>lib\<close> followed by \<open>src\<close>; \<open>lib\<close> is \<open>src\<close> with a marker.\<close>

definition diamond :: "(sample, bool) engine" where
  "diamond = newBuildEngine (sample_client
     [(''all'', [''lib'', ''src'']), (''lib'', [''src''])] [] [(''src'', [7])] [])"

text \<open>\<open>obj\<close> is compiled by another thread and discovers \<open>hdr\<close> while it runs.\<close>

definition compile :: "(sample, bool) engine" where
  "compile = newBuildEngine (sample_client [] [(''obj'', [''hdr''])] [(''hdr'', [5])] [''obj''])"

text \<open>\<open>X\<close> and \<open>Y\<close> discover each other; \<open>B\<close> discovers \<open>X\<close>.\<close>

definition mutual :: "(sample, bool) engine" where
  "mutual = newBuildEngine (sample_client []
     [(''X'', [''Y'']), (''Y'', [''X'']), (''B'', [''X''])] [] [])"

lemma diamond_build: "map_option fst (build 200 sample_env ''all'' [] diamond) = Some [7, 7]"
  by code_simp

lemma diamond_rebuild:
  "map_option fst (build 200 sample_env ''all'' [] (editSource ''src'' [8]
     (snd (the (build 200 sample_env ''all'' [] diamond))))) = Some [8, 8]"
  by code_simp

definition compile1 :: "(sample, bool) engine" where
  "compile1 = snd (the (build 200 sample_env ''obj'' [ThreadComplete 0 [5] False] compile))"

definition compile2 :: "(sample, bool) engine" where
  "compile2 = resetForBuild (snd (the (build 200 sample_env ''obj''
     [ThreadCancel, ThreadComplete 3 [6] False] (editSource ''hdr'' [6] compile1))))"

end
