(* ===== verification/BuildEngineSafety.thy ===== *)
theory BuildEngineSafety
  imports BuildEngineSearch BuildEngineExamples
begin

text \<open>
  The safety of a whole build. From an idle engine, and with a client and a database that
  keep their contract, no step of \<^verbatim>\<open>executeTasks\<close> fails an assertion or follows a dangling
  pointer, except in the resolution of a cycle; a build that is cancelled leaves an idle
  engine; and the engine only waits for tasks that are still computing.
\<close>

section \<open>Breaking a cycle\<close>

lemma mset_erase_at: "i < length xs \<Longrightarrow> add_mset (xs ! i) (mset (erase_at i xs)) = mset xs"
proof -
  assume i: "i < length xs"
  have "mset xs = mset (take i xs @ xs ! i # drop (Suc i) xs)" using i by (metis id_take_nth_drop)
  then show ?thesis by (simp add: erase_at_def)
qed

lemma find_scan_request:
  assumes "findRuleScanRequestForRule requests k = Some i"
  shows "i < length requests" "sr_rule (requests ! i) = k"
proof -
  from assms obtain js where "filter (\<lambda>i. sr_rule (requests ! i) = k) [0..<length requests] = i # js"
    by (auto simp: findRuleScanRequestForRule_def split: list.splits)
  then have "i \<in> set (filter (\<lambda>i. sr_rule (requests ! i) = k) [0..<length requests])" by simp
  then show "i < length requests" "sr_rule (requests ! i) = k" by simp_all
qed

text \<open>
  Forcing a rule to build: its scan request is taken out of the queue if it is there; if it is
  deferred somewhere it stays, and the mark \<^verbatim>\<open>wasForced\<close> makes it harmless.
\<close>

lemma engine_inv_force:
  assumes inv: "engine_inv done n hi {#} s" and ri: "getRule s k = Some ri" "ri_inProgress ri = PendingScan r"
    and ri': "ri_inProgress ri' = NoInfo" "ri_state ri' = NeedsToRun" "ri_wasForced ri'"
      "ri_result ri' = ri_result ri"
    and s': "ruleInfos s' = AList.update k ri' (ruleInfos s)" "taskInfos s' = taskInfos s"
      "inputRequests s' = inputRequests s @ pausedInputRequests r"
      "finishedInputRequests s' = finishedInputRequests s"
      "currentEpoch s' = currentEpoch s" "nextTask s' = nextTask s" "readyTaskInfos s' = readyTaskInfos s"
      "numOutstandingUnfinishedTasks s' = numOutstandingUnfinishedTasks s"
      "finishedTaskInfos s' = finishedTaskInfos s"
    and scans: "R + mset (ruleInfosToScan s') = mset (ruleInfosToScan s) + mset (deferredScanRequests r)"
      "\<forall>q \<in># R. sr_rule q = k"
  shows "engine_inv done n hi {#} s'"
proof -
  have scanning: "isScanning ri" using inv_shape [OF inv ri(1)] ri(2) by (simp add: shape_ok_def)
  have lists: "reqs_rule ri = pausedInputRequests r" "scans_rule ri = deferredScanRequests r"
      "reqs_rule ri' = []" "scans_rule ri' = []"
    by (simp_all add: reqs_rule_def scans_rule_def ri ri')
  have get: "getRule s' = (getRule s)(k := Some ri')"
    using s'(1) by (auto simp: getRule_def)
  have idle: "\<not> isScanning ri'" "\<not> isInProgress ri'" "isScanned (currentEpoch s) ri'" "\<not> isInProgress ri"
      "\<not> isComplete (currentEpoch s) ri"
    using ri'(2) scanning by (auto simp: rule_state_defs)
  have reqs: "allReqs hi s' = allReqs hi s"
    using lists s' by (intro allReqs_update [OF ri(1), where ri' = ri']) simp_all
  have "allScans R s' = allScans {#} s"
    using lists s' scans(1) by (intro allScans_update [OF ri(1), where ri' = ri']) simp_all
  moreover have "allScans R s' = R + allScans {#} s'" by (simp add: allScans_def add.assoc)
  ultimately have sub: "allScans {#} s = R + allScans {#} s'" by simp
  have "scans_inv {#} s'"
    unfolding scans_inv_def
  proof (intro conjI allI impI ballI)
    fix k' x assume x: "getRule s' k' = Some x" "isScanning x"
    with idle(1) have k': "k' \<noteq> k" "getRule s k' = Some x" by (auto simp: get split: if_splits)
    have none: "{#q \<in># R. sr_rule q = k'#} = {#}" using scans(2) k'(1) by auto
    obtain q where "{#q \<in># allScans {#} s. sr_rule q = k'#} = {#q#}"
        "sr_inputIndex q < size_deps (dependencies (ri_result x))"
      by (rule inv_scan [OF inv k'(2) x(2)])
    with none sub show "\<exists>q. {#q \<in># allScans {#} s'. sr_rule q = k'#} = {#q#} \<and> sr_inputIndex q < size_deps (dependencies (ri_result x))"
      by (metis (no_types, lifting) filter_union_mset add_0)
  next
    fix q assume "q \<in># allScans {#} s'"
    with inv_scan_ok [OF inv, of q] sub have "scan_ok s q" by simp
    with ri(1) ri'(3) idle(3) s'(5) show "scan_ok s' q" by (auto simp: scan_ok_def get)
  next
    fix k' x q' assume "getRule s' k' = Some x" "q' \<in> set (scans_rule x)"
    with inv lists show "sr_inputRule q' = Some k'"
      by (auto simp: get engine_inv_def scans_inv_def split: if_splits)
  qed
  then show ?thesis
    using s' idle ri' reqs inv_deps [OF inv ri(1)]
    by (intro engine_inv_putRule [OF inv ri(1), where ri' = ri']) (simp_all add: shape_ok_def)
qed

lemma forceRule_ok:
  assumes inv: "engine_inv done n hi {#} s" and ri: "getRule s k = Some ri" "isScanning ri"
  shows "\<exists>s'. forceRule k s = Some s' \<and> engine_inv done n hi {#} s'"
proof -
  obtain r where r: "ri_inProgress ri = PendingScan r" by (rule inv_scanning [OF inv ri])
  define rest where "rest = (case findRuleScanRequestForRule (ruleInfosToScan s) k of
      None \<Rightarrow> ruleInfosToScan s | Some i \<Rightarrow> erase_at i (ruleInfosToScan s))"
  obtain R where R: "R + mset rest = mset (ruleInfosToScan s)" "\<forall>q \<in># R. sr_rule q = k"
  proof (cases "findRuleScanRequestForRule (ruleInfosToScan s) k")
    case None
    then show thesis by (intro that [of "{#}"]) (simp_all add: rest_def)
  next
    case (Some i)
    from find_scan_request [OF Some] mset_erase_at [of i "ruleInfosToScan s"] Some show thesis
      by (intro that [of "{#ruleInfosToScan s ! i#}"]) (simp_all add: rest_def)
  qed
  define ri' where "ri' = (setPendingScanRecord None ri)\<lparr>ri_state := NeedsToRun, ri_wasForced := True\<rparr>"
  obtain s' where s': "forceRule k s = Some s'" "same_core
      ((putRule k ri' s)\<lparr>ruleInfosToScan := rest @ deferredScanRequests r,
         inputRequests := inputRequests s @ pausedInputRequests r\<rparr>) s'"
  proof -
    have "(case findRuleScanRequestForRule (ruleInfosToScan s) k of
        None \<Rightarrow> s | Some i \<Rightarrow> s\<lparr>ruleInfosToScan := erase_at i (ruleInfosToScan s)\<rparr>) = s\<lparr>ruleInfosToScan := rest\<rparr>"
      by (simp add: rest_def split: option.split)
    with ri r that show thesis
      by (simp add: forceRule_def finishScanRequest_def getPendingScanRecord_def Let_def ri'_def
          same_core_def)
  qed
  have "engine_inv done n hi {#} ((putRule k ri' s)\<lparr>ruleInfosToScan := rest @ deferredScanRequests r,
         inputRequests := inputRequests s @ pausedInputRequests r\<rparr>)"
    using R by (intro engine_inv_force [OF inv ri(1) r, where ri' = ri' and R = R])
      (simp_all add: ri'_def setPendingScanRecord_def ac_simps)
  with s' engine_inv_cong [OF s'(2)] show ?thesis by simp
qed

text \<open>Supplying a prior value: the request of a waiting task is answered early.\<close>

lemma in_set_erase_at: "x \<in> set (erase_at i xs) \<Longrightarrow> x \<in> set xs"
  by (auto simp: erase_at_def dest: in_set_takeD in_set_dropD)

lemma supplyPriorValue_ok:
  assumes inv: "engine_inv done n {#} hs s" and ti: "getTaskInfo s t = Some ti" and i: "i < length (ti_requestedBy ti)"
  shows "engine_inv done n {#} hs (putTask t (ti\<lparr>ti_requestedBy := erase_at i (ti_requestedBy ti)\<rparr>)
    (s\<lparr>finishedInputRequests := finishedInputRequests s @ [(ti_requestedBy ti ! i)\<lparr>ir_forcePriorValue := True\<rparr>]\<rparr>))"
    (is "engine_inv _ _ _ _ ?s'")
proof -
  note D = engine_invD [OF inv]
  let ?r = "ti_requestedBy ti ! i" and ?ti = "ti\<lparr>ti_requestedBy := erase_at i (ti_requestedBy ti)\<rparr>"
  let ?r' = "?r\<lparr>ir_forcePriorValue := True\<rparr>"
  have "asum (mset \<circ> ti_requestedBy) (taskInfos ?s') + mset (ti_requestedBy ti)
      = asum (mset \<circ> ti_requestedBy) (taskInfos s) + mset (erase_at i (ti_requestedBy ti))"
    using asum_update_Some [of "taskInfos s" t ti "mset \<circ> ti_requestedBy" ?ti] ti by (simp add: getTaskInfo_def)
  then have "asum (mset \<circ> ti_requestedBy) (taskInfos ?s') + {#?r#} = asum (mset \<circ> ti_requestedBy) (taskInfos s)"
    unfolding mset_erase_at [OF i, symmetric] by (simp add: ac_simps)
  then have reqs: "allReqs {#} ?s' + {#?r#} = allReqs {#} s + {#?r'#}"
    by (simp add: allReqs_def ac_simps)
  have scans: "allScans hs ?s' = allScans hs s"
    using ti by (simp add: allScans_def getTaskInfo_def asum_update_same)
  have wait: "waitOf ?s' = waitOf s"
    using ti by (auto simp: waitOf_def fun_eq_iff)
  have r: "?r \<in> set (ti_requestedBy ti)" using i by simp
  then have ok: "req_ok s ?r" "ir_task ?r \<noteq> None"
    using D(3) ti in_allReqs [OF inv, of ?r "{#}"] by (auto simp: reqs_inv_def)
  show ?thesis
  proof (rule engine_inv_putTask [OF inv ti])
    show "waitOf ?s' t' = requestsOf t' (allReqs {#} ?s')" for t'
    proof -
      have "requestsOf t' (allReqs {#} ?s' + {#?r#}) = requestsOf t' (allReqs {#} s + {#?r'#})"
        by (simp only: reqs)
      with inv_wait [OF inv, of t'] show ?thesis by (simp add: wait split: if_splits)
    qed
    show "req_ok s x" if "x \<in># allReqs {#} ?s'" for x
    proof -
      from that reqs have "x \<in># allReqs {#} s + {#?r'#}" by (metis union_iff)
      with D(3) ok(1) show ?thesis by (auto simp: reqs_inv_def req_ok_def)
    qed
    show "finished_ok s x" if "x \<in> set (finishedInputRequests ?s')" for x
      using that inv_finished_ok [OF inv] ok(2) by (auto simp: finished_ok_def)
    show "ir_task x \<noteq> None \<and> ir_inputRule x = ti_forRule ti" if "x \<in> set (ti_requestedBy ?ti)" for x
      using that D(3) ti by (auto simp: reqs_inv_def dest: in_set_erase_at)
  qed (use D(5) scans wait inv_discovered [OF inv ti] in \<open>auto simp: ready_inv_def\<close>)
qed

lemma find_input_request:
  "findTaskInputRequestForRule s requests k j = Some (Some i) \<Longrightarrow> j \<le> i \<and> i < j + length requests"
  by (induction requests arbitrary: j) (fastforce split: if_splits simp: bind_eq_Some_conv)+

lemma breakCycleLoop_inv:
  assumes env: "client_contract env"
  shows "engine_inv done n {#} {#} s \<Longrightarrow> breakCycleLoop env cycleList items s = Some (b, s') \<Longrightarrow>
    engine_inv done n {#} {#} s'"
proof (induction items arbitrary: s)
  case (Cons item rest)
  obtain k s1 where s1: "getRuleInfoForKey env (ruleKeyOf s item) s = (k, s1)" "engine_inv done n {#} {#} s1"
    using getRuleInfoForKey_adds [OF env, of "ruleKeyOf s item" s] adds_rule_inv [OF Cons.prems(1)] by blast
  from Cons.prems(2) s1(1) obtain ri where ri: "getRule s1 k = Some ri"
    by (auto simp: bind_eq_Some_conv)
  show ?case
  proof (cases "isScanning ri")
    case True
    with Cons.prems(2) s1 ri forceRule_ok [OF s1(2) ri True] show ?thesis
      by (auto split: if_splits)
  next
    case notscan: False
    show ?thesis
    proof (cases "isInProgressWaiting ri \<and> builtAt (ri_result ri) \<noteq> 0")
      case False
      with Cons notscan s1 ri show ?thesis by (simp split: if_splits)
    next
      case True
      from True Cons.prems(2) notscan s1 ri obtain nextItem where nextItem: "rest = nextItem # tl rest"
        by (cases rest) (auto simp: bind_eq_Some_conv)
      obtain nextKey s2 where s2: "getRuleInfoForKey env (ruleKeyOf s1 nextItem) s1 = (nextKey, s2)"
        by force
      have nextEq: "(case rest of [] \<Rightarrow> None | n # _ \<Rightarrow> Some n) = Some nextItem"
        by (subst nextItem) simp
      from True Cons.prems(2) notscan s1 ri s2 nextEq obtain t ti found where
        t: "getTaskInfo s1 t = Some ti" and
        found: "findTaskInputRequestForRule s2 (ti_requestedBy ti) nextKey 0 = Some found" and
        result: "(case found of
                    None \<Rightarrow> breakCycleLoop env cycleList rest s2
                  | Some i \<Rightarrow>
                      if \<not> shouldResolveCycle env (e_client s2) (map (ruleKeyOf s2) cycleList)
                             (rule_key (ri_rule ri)) SupplyPriorValue
                      then Some (False, s2)
                      else (let request = (ti_requestedBy ti ! i)\<lparr>ir_forcePriorValue := True\<rparr>;
                                s = s2\<lparr>finishedInputRequests := finishedInputRequests s2 @ [request]\<rparr>
                            in Some (True, putTask t
                                 (ti\<lparr>ti_requestedBy := erase_at i (ti_requestedBy ti)\<rparr>) s))) = Some (b, s')"
        by (auto simp: bind_eq_Some_conv)
      obtain adds: "adds_rule nextKey s1 s2"
        using getRuleInfoForKey_adds [OF env, of "ruleKeyOf s1 nextItem" s1] s2 by auto
      note inv2 = adds_rule_inv [OF s1(2) adds]
      have t2: "getTaskInfo s2 t = Some ti" using t adds_rule_quiet(3) [OF adds] by simp
      show ?thesis
      proof (cases found)
        case None
        with Cons.IH [OF inv2] result show ?thesis by simp
      next
        case (Some i)
        with find_input_request [of s2 "ti_requestedBy ti" nextKey 0 i] found have "i < length (ti_requestedBy ti)" by simp
        from supplyPriorValue_ok [OF inv2 t2 this] Some result inv2 show ?thesis
          by (auto simp: Let_def split: if_splits)
      qed
    qed
  qed
qed simp

lemma resolveCycle_inv:
  assumes env: "client_contract env" and inv: "engine_inv done n {#} {#} s"
    and r: "resolveCycle env key s = Some (b, s')"
  shows "engine_inv done n {#} {#} s'"
proof -
  obtain root s0 where s0: "getRuleInfoForKey env key s = (root, s0)" by force
  from r obtain cycleList s1 broken s2 where
    s1: "findCycle env key s = Some (cycleList, s1)" and s2: "breakCycle env cycleList s1 = Some (broken, s2)" and
    s': "s' = (if broken then s2 else emit (EvCycle (map (ruleKeyOf s2) cycleList)) s2)"
    by (auto simp: resolveCycle_def bind_eq_Some_conv split: if_splits)
  from s1 s0 have "s1 = snd (getRuleInfoForKey env key s)"
    by (auto simp: findCycle_def bind_eq_Some_conv Let_def)
  then have "adds_rule key s s1" using getRuleInfoForKey_adds [OF env, of key s] by auto
  from breakCycleLoop_inv [OF env adds_rule_inv [OF inv this]] s2 s' show ?thesis
    by (auto simp: breakCycle_def engine_simps)
qed


text \<open>
  The only way in which breaking a cycle can go wrong: the walk over the reversed cycle
  reaches the key being built, and that rule waits and has a prior result. The code then
  reads the successor of the last item.
\<close>

definition waiting_with_prior :: "('c, 'd) engine \<Rightarrow> KeyID \<Rightarrow> bool" where
  "waiting_with_prior s k \<longleftrightarrow> (\<exists>ri. getRule s (ruleKeyOf s k) = Some ri
     \<and> isInProgressWaiting ri \<and> builtAt (ri_result ri) \<noteq> 0)"

lemma adds_rule_lookup:
  assumes "adds_rule k s s'"
  shows "getRule s' k' = getRule s k' \<or> getRule s k' = None \<and> (\<exists>ri. getRule s' k' = Some ri \<and> ri_state ri = Incomplete)"
  using assms by (auto simp: adds_rule_def split: if_splits dest!: same_core_get)

lemma adds_rule_waiting:
  assumes adds: "adds_rule k s s'" and key: "getRule s key \<noteq> None"
  shows "getRule s' key \<noteq> None" "waiting_with_prior s' key \<Longrightarrow> waiting_with_prior s key"
proof -
  from adds_rule_lookup [OF adds, of key] key have same: "getRule s' key = getRule s key" by auto
  with key show "getRule s' key \<noteq> None" by simp
  assume "waiting_with_prior s' key"
  moreover from same have "ruleKeyOf s' key = ruleKeyOf s key" by (simp add: ruleKeyOf_def)
  ultimately show "waiting_with_prior s key"
    using adds_rule_lookup [OF adds, of "ruleKeyOf s key"]
    by (auto simp: waiting_with_prior_def isInProgressWaiting_def)
qed

lemma find_input_request_total:
  "\<forall>r \<in> set requests. requesterRule s r \<noteq> None \<Longrightarrow> \<exists>found. findTaskInputRequestForRule s requests k i = Some found"
  by (induction requests arbitrary: i) auto

lemma breakCycleLoop_total:
  assumes env: "client_contract env"
  shows "engine_inv done n {#} {#} s \<Longrightarrow> items \<noteq> [] \<longrightarrow> getRule s (last items) \<noteq> None \<and> \<not> waiting_with_prior s (last items) \<Longrightarrow>
    breakCycleLoop env cycleList items s \<noteq> None"
proof (induction items arbitrary: s)
  case (Cons item rest)
  obtain s1 where s1: "getRuleInfoForKey env (ruleKeyOf s item) s = (ruleKeyOf s item, s1)" "adds_rule (ruleKeyOf s item) s s1"
    using getRuleInfoForKey_adds [OF env] by blast
  note inv1 = adds_rule_inv [OF Cons.prems(1) s1(2)]
  obtain ri where ri: "getRule s1 (ruleKeyOf s item) = Some ri" using adds_rule_quiet(2) [OF s1(2)] by blast
  have last1: "rest \<noteq> [] \<Longrightarrow> getRule s1 (last rest) \<noteq> None" "rest \<noteq> [] \<Longrightarrow> \<not> waiting_with_prior s1 (last rest)"
    using Cons.prems(2) adds_rule_waiting [OF s1(2), of "last rest"] by auto
  show ?case
  proof (cases "isScanning ri \<or> \<not> (isInProgressWaiting ri \<and> builtAt (ri_result ri) \<noteq> 0)")
    case True
    with s1 ri forceRule_ok [OF inv1 ri] Cons.IH [OF inv1] last1 show ?thesis by auto
  next
    case False
    then have "isInProgress ri" by (simp add: rule_state_defs)
    from inv_inProgress [OF inv1 ri this] obtain t ti where
      "ri_inProgress ri = PendingTask t" "getTaskInfo s1 t = Some ti" by blast
    with \<open>isInProgress ri\<close> have t: "getPendingTaskInfo ri = Some (Some t)" "getTaskInfo s1 t = Some ti"
      by (simp_all add: getPendingTaskInfo_def)
    have "rest \<noteq> []"
    proof
      assume rest: "rest = []"
      with Cons.prems(2) have "getRule s item \<noteq> None" "\<not> waiting_with_prior s item" by auto
      with adds_rule_waiting [OF s1(2)] have "\<not> waiting_with_prior s1 item" by blast
      moreover have "ruleKeyOf s1 item = ruleKeyOf s item"
        using adds_rule_lookup [OF s1(2), of item] \<open>getRule s item \<noteq> None\<close> by (auto simp: ruleKeyOf_def)
      ultimately show False using ri False by (simp add: waiting_with_prior_def)
    qed
    then obtain nextItem where rest: "(case rest of [] \<Rightarrow> None | n # _ \<Rightarrow> Some n) = Some nextItem"
      by (cases rest) auto
    let ?next = "ruleKeyOf s1 nextItem"
    obtain s2 where s2: "getRuleInfoForKey env ?next s1 = (?next, s2)" "adds_rule ?next s1 s2"
      using getRuleInfoForKey_adds [OF env] by blast
    note inv2 = adds_rule_inv [OF inv1 s2(2)]
    have t2: "getTaskInfo s2 t = Some ti" using t(2) adds_rule_quiet(3) [OF s2(2)] by simp
    have last2: "getRule s2 (last rest) \<noteq> None" "\<not> waiting_with_prior s2 (last rest)"
      using last1 \<open>rest \<noteq> []\<close> adds_rule_waiting [OF s2(2), of "last rest"] by auto
    obtain found where found: "findTaskInputRequestForRule s2 (ti_requestedBy ti) ?next 0 = Some found"
      using find_input_request_total requesters_exist [OF inv2 t2] by blast
    from Cons.IH [OF inv2] last2 have "breakCycleLoop env cycleList rest s2 \<noteq> None" by blast
    with False s1(1) ri t s2(1) found rest show ?thesis
      by (auto simp: Let_def split: option.split)
  qed
qed simp

lemma waits_for_rule:
  assumes inv: "engine_inv done n {#} {#} s" and "waits_for s a b"
  shows "getRule s a \<noteq> None"
proof -
  have requester: "getRule s a \<noteq> None" if "requesterRule s r = Some a" for r
  proof -
    from that obtain t ti where "getTaskInfo s t = Some ti" "ti_forRule ti = a"
      by (auto simp: requesterRule_def bind_eq_Some_conv)
    then show ?thesis using engine_invD(2) [OF inv] by (auto simp: tasks_inv_def progressOf_def)
  qed
  have scan: "getRule s (sr_rule q) \<noteq> None" if "q \<in># allScans {#} s" for q
    using inv_scan_ok [OF inv that] by (auto simp: scan_ok_def)
  from assms(2) consider r where "requesterRule s r = Some a" | q where "q \<in># allScans {#} s" "sr_rule q = a"
    using in_allScans [OF inv, where hs' = "{#}"] by (fastforce simp: waits_for_def task_waits_def scan_waits_def scans_rule_def)
  then show ?thesis using requester scan by cases auto
qed

lemma resolveCycle_total:
  assumes env: "client_contract env" and inv: "engine_inv done n {#} {#} s"
    and none: "resolveCycle env key s = None"
  shows "(\<forall>p. wait_path s (key # p) \<longrightarrow> distinct (key # p)) \<or> waiting_with_prior s key"
proof (rule ccontr)
  assume "\<not> ?thesis"
  then have cyclic: "\<not> (\<forall>p. wait_path s (key # p) \<longrightarrow> distinct (key # p))" and prior: "\<not> waiting_with_prior s key" by auto
  obtain s1 where s1: "getRuleInfoForKey env key s = (key, s1)" "adds_rule key s s1"
    using getRuleInfoForKey_adds [OF env] by blast
  from findCycle_ok [OF env inv, of key] cyclic s1(1) obtain c where
    c: "findCycle env key s = Some (c, s1)" "wait_cycle s key c" by (auto split: if_splits)
  then obtain b p where "c = key # b # p"
    by (cases c rule: remdups_adj.cases) (auto simp: wait_cycle_def)
  with c(2) have "waits_for s key b" by (simp add: wait_cycle_def wait_path_def)
  note key = waits_for_rule [OF inv this]
  have "last (rev c) = key" "c \<noteq> []" using \<open>c = key # b # p\<close> by simp_all
  with breakCycleLoop_total [OF env adds_rule_inv [OF inv s1(2)], of "rev c" c] adds_rule_waiting [OF s1(2) key] prior
  have "breakCycle env c s1 \<noteq> None" by (auto simp: breakCycle_def)
  with none c(1) \<open>c \<noteq> []\<close> show False by (auto simp: resolveCycle_def split: if_splits)
qed

section \<open>The invariant of the work loop\<close>

text \<open>Tasks on the queue of finished tasks count as completed.\<close>

lemma engine_inv_done_mono:
  assumes "engine_inv done n hi hs s"
  shows "engine_inv (done \<union> set (finishedTaskInfos s)) n hi hs s"
proof -
  note D = engine_invD [OF assms]
  have "t < nextTask s" if "taskState s t \<noteq> None" for t
    using that D(2) by (auto simp: taskState_def tasks_inv_def split: option.splits)
  moreover have "computing (done \<union> set (finishedTaskInfos s)) s = computing done s"
    by (auto simp: computing_def)
  ultimately have "finish_inv (done \<union> set (finishedTaskInfos s)) n s"
    using D(6) by (auto simp: finish_inv_def)
  with assms show ?thesis by (simp add: engine_inv_def)
qed

fun phase_inv :: "KeyType \<Rightarrow> phase \<Rightarrow> ('c, 'd) engine \<Rightarrow> bool" where
  "phase_inv key (Exited True) s \<longleftrightarrow> taskInfos s = [] \<and>
     (\<exists>ri. getRule s key = Some ri \<and> isComplete (currentEpoch s) ri)"
| "phase_inv key (Exited False) s \<longleftrightarrow> idle s"
| "phase_inv key ph s \<longleftrightarrow> True"

definition loop_inv :: "KeyType \<Rightarrow> TaskId set \<times> ('c, 'd) loop_state \<Rightarrow> bool" where
  "loop_inv key = (\<lambda>(done, ph, didWork, s).
     engine_inv done 0 {#} {#} s \<and> set (finishedTaskInfos s) \<subseteq> done \<and> phase_inv key ph s)"

lemma loop_invI:
  assumes "engine_inv done 0 {#} {#} s" "phase_inv key ph s"
  shows "loop_inv key (done \<union> set (finishedTaskInfos s), ph, didWork, s)"
  using assms engine_inv_done_mono by (auto simp: loop_inv_def)

lemma cancelTasks_nextTask:
  "foldM_option cancelTask xs s = Some s' \<Longrightarrow> nextTask s' = nextTask s"
proof (induction xs arbitrary: s)
  case (Cons x xs)
  obtain t ti where x: "x = (t, ti)" by force
  from Cons.prems obtain s1 where s1: "cancelTask x s = Some s1" "foldM_option cancelTask xs s1 = Some s'"
    by (auto simp: bind_eq_Some_conv)
  from s1(1) have "nextTask s1 = nextTask s" by (auto simp: x cancelTask_def bind_eq_Some_conv)
  with Cons.IH [OF s1(2)] show ?case by simp
qed simp

lemma cancelDrained_inv:
  assumes inv: "engine_inv done n hi hs s" and out: "numOutstandingUnfinishedTasks s = 0"
  shows "\<exists>s'. cancelDrained s = Some s' \<and> idle s' \<and> engine_inv done 0 {#} {#} s' \<and> finishedTaskInfos s' = []"
proof -
  from cancelDrained_ok [OF assms] obtain s' where s': "cancelDrained s = Some s'" "idle s'" by blast
  from s'(1) have "nextTask s' = nextTask s"
    by (auto simp: cancelDrained_def bind_eq_Some_conv dest: cancelTasks_nextTask)
  then have "\<forall>t \<in> done. t < nextTask s'" using engine_invD(6) [OF inv] by (simp add: finish_inv_def)
  with s' show ?thesis using idle_engine_inv [OF s'(2)] by (auto simp: idle_def)
qed

lemma executeStart_inv:
  assumes env: "client_contract env" and "idle s"
  shows "loop_inv key ({}, executeStart env key s)"
proof -
  have "engine_inv {} 0 {#} {#} (s\<lparr>finishedInputRequests := []\<rparr>)"
    using idle_engine_inv [of s "{}"] \<open>idle s\<close> engine_inv_cong [of s "s\<lparr>finishedInputRequests := []\<rparr>"]
    by (simp add: idle_def same_core_def)
  moreover obtain s1 where s1: "getRuleInfoForKey env key (s\<lparr>finishedInputRequests := []\<rparr>) = (key, s1)"
      "adds_rule key (s\<lparr>finishedInputRequests := []\<rparr>) s1"
    using getRuleInfoForKey_adds [OF env] by blast
  ultimately have inv1: "engine_inv {} 0 {#} {#} s1" using adds_rule_inv by blast
  have "getRule s1 key \<noteq> None" "finishedTaskInfos s1 = []"
    using adds_rule_quiet(2,4) [OF s1(2)] \<open>idle s\<close> by (simp_all add: idle_def)
  then show ?thesis
    using engine_inv_dummy [OF inv1, of "dummyRequest (key, False, False)"] s1(1)
    by (simp add: executeStart_def loop_inv_def)
qed


text \<open>One step of the engine thread: it goes on and keeps the invariant, or it waits for a
  task that is computing, or it has failed to resolve a cycle.\<close>

definition step_ok :: "('c, 'd) env \<Rightarrow> KeyType \<Rightarrow> TaskId set \<Rightarrow> ('c, 'd) loop_state \<Rightarrow> bool" where
  "step_ok env key done st \<longleftrightarrow> (case executeStep env key st of
     Fault \<Rightarrow> \<exists>s. st = (RoundEnd, False, s) \<and> taskInfos s \<noteq> [] \<and> resolveCycle env key s = None
   | Wait \<Rightarrow> (case st of (ph, _, s) \<Rightarrow> ph \<in> range Exited \<or> computing done s \<noteq> {})
   | Next (ph', didWork', s') \<Rightarrow> loop_inv key (done \<union> set (finishedTaskInfos s'), ph', didWork', s'))"

lemma waits_for_task:
  assumes "engine_inv done 0 {#} {#} s" "numOutstandingUnfinishedTasks s \<noteq> 0" "finishedTaskInfos s = []"
  shows "computing done s \<noteq> {}"
  using engine_invD(6) [OF assms(1)] assms(2,3) by (auto simp: finish_inv_def)

lemma roundEnd_ok:
  assumes env: "client_contract env" and inv: "engine_inv done 0 {#} {#} s" and sub: "set (finishedTaskInfos s) \<subseteq> done"
  shows "step_ok env key done (RoundEnd, didWork, s)"
proof -
  consider (wait) "\<not> didWork" "numOutstandingUnfinishedTasks s \<noteq> 0" | (again) "didWork"
    | (cycle) "\<not> didWork" "numOutstandingUnfinishedTasks s = 0" "taskInfos s \<noteq> []"
    | (finished) "\<not> didWork" "numOutstandingUnfinishedTasks s = 0" "taskInfos s = []" by blast
  then show ?thesis
  proof cases
    case wait
    with inv loop_invI [OF inv] waits_for_task [OF inv] show ?thesis by (simp add: step_ok_def roundEnd_def)
  next
    case again
    with loop_invI [OF inv] show ?thesis by (simp add: step_ok_def roundEnd_def)
  next
    case cycle
    show ?thesis
    proof (cases "resolveCycle env key s")
      case (Some r)
      obtain b s' where r: "r = (b, s')" by force
      note inv' = resolveCycle_inv [OF env inv Some [unfolded r]]
      from loop_invI [OF inv', of key RoundStart] loop_invI [OF inv', of key Draining] show ?thesis
        using cycle Some by (simp add: step_ok_def roundEnd_def r)
    qed (use cycle in \<open>simp add: step_ok_def roundEnd_def\<close>)
  next
    case finished
    obtain s' where s': "getRuleInfoForKey env key s = (key, s')" "adds_rule key s s'"
      using getRuleInfoForKey_adds [OF env] by blast
    note inv' = adds_rule_inv [OF inv s'(2)]
    obtain ri where ri: "getRule s' key = Some ri" using adds_rule_quiet(2) [OF s'(2)] by blast
    have "taskInfos s' = taskInfos s" using s'(2) by (auto simp: adds_rule_def same_core_def split: if_splits)
    with finished s' ri loop_invI [OF inv'] loop_invI [of "done" "emit (EvError internal_error) s'"] inv'
    show ?thesis by (simp add: step_ok_def roundEnd_def engine_simps)
  qed
qed

lemma drainStep_ok:
  assumes inv: "engine_inv done 0 {#} {#} s" and sub: "set (finishedTaskInfos s) \<subseteq> done"
  shows "step_ok env key done (Draining, didWork, s)"
proof (cases "numOutstandingUnfinishedTasks s = 0")
  case True
  from cancelDrained_inv [OF inv True] obtain s' where
    "cancelDrained s = Some s'" "idle s'" "engine_inv done 0 {#} {#} s'" by blast
  with True loop_invI [of "done" s' key "Exited False"] show ?thesis by (simp add: step_ok_def drainStep_def)
next
  case False
  with waits_for_task [OF inv] engine_inv_drain [OF assms] loop_invI [OF engine_inv_drain(2) [OF assms], of key Draining]
  show ?thesis by (simp add: step_ok_def drainStep_def)
qed

lemma executeStep_ok:
  assumes env: "client_contract env" and "loop_inv key (done, ph, didWork, s)"
  shows "step_ok env key done (ph, didWork, s)"
proof -
  from assms(2) have inv: "engine_inv done 0 {#} {#} s" and sub: "set (finishedTaskInfos s) \<subseteq> done"
    by (simp_all add: loop_inv_def)
  note nxt = loop_invI [OF inv]
  show ?thesis
  proof (cases ph)
    case ScanPhase
    with nxt processRuleScanRequest_ok [OF env pop_scan [OF inv]] loop_invI show ?thesis
      by (fastforce simp: step_ok_def)
  next
    case InputPhase
    with nxt processInputRequest_ok [OF env pop_input [OF inv]] loop_invI show ?thesis
      by (cases "inputRequests s") (fastforce simp: step_ok_def)+
  next
    case FinishedInputPhase
    show ?thesis
    proof (cases "finishedInputRequests s = []")
      case False
      let ?r = "last (finishedInputRequests s)"
      have "finished_ok (s\<lparr>finishedInputRequests := butlast (finishedInputRequests s)\<rparr>) ?r"
        using inv_finished_ok [OF inv, of ?r] False by (simp add: finished_ok_def)
      from processFinishedInput_ok [OF env pop_finished_input [OF inv False] this] False FinishedInputPhase
      show ?thesis using loop_invI by (fastforce simp: step_ok_def)
    qed (use FinishedInputPhase nxt in \<open>simp add: step_ok_def\<close>)
  next
    case ReadyPhase
    with nxt processReadyTask_ok [OF env inv] loop_invI show ?thesis
      by (cases "readyTaskInfos s") (fastforce simp: step_ok_def)+
  next
    case FinishedTaskPhase
    show ?thesis
    proof (cases "finishedTaskInfos s" rule: rev_cases)
      case (snoc ts t)
      with processFinishedTask_ok [OF env inv snoc] sub loop_invI FinishedTaskPhase
      show ?thesis by (fastforce simp: step_ok_def)
    qed (use FinishedTaskPhase nxt in \<open>simp add: step_ok_def\<close>)
  qed (use nxt roundEnd_ok [OF env inv sub] drainStep_ok [OF inv sub] in \<open>simp_all add: step_ok_def\<close>)
qed

text \<open>What other threads do keeps the invariant.\<close>

lemma phase_inv_exited: "phase_inv key (Exited b) s \<Longrightarrow> taskInfos s = []"
  by (cases b) (simp_all add: idle_def)

lemma phase_inv_same_core: "same_core s s' \<Longrightarrow> phase_inv key ph s \<Longrightarrow> phase_inv key ph s'"
proof (cases ph)
  case (Exited b)
  moreover assume "same_core s s'" "phase_inv key ph s"
  moreover from this have "getRule s' = getRule s" "taskInfos s' = taskInfos s" "currentEpoch s' = currentEpoch s"
    using same_core_get [of s s'] by (simp_all add: same_core_def)
  ultimately show ?thesis by (cases b) (simp_all add: idle_same_core)
qed simp_all

lemma threadStep_ok:
  assumes "loop_inv key (done, ph, didWork, s)" "thread_ok done a s"
  shows "\<exists>s'. threadStep a s = Some s' \<and> loop_inv key (done \<union> set (finishedTaskInfos s'), ph, didWork, s')"
proof -
  from assms(1) have inv: "engine_inv done 0 {#} {#} s" and sub: "set (finishedTaskInfos s) \<subseteq> done"
      and ph: "phase_inv key ph s"
    by (simp_all add: loop_inv_def)
  have live: "phase_inv key ph s'" if "getTaskInfo s t \<noteq> None" for t s'
    using ph phase_inv_exited [of key _ s] that by (cases ph) (auto simp: getTaskInfo_def)
  have core: "loop_inv key (done \<union> set (finishedTaskInfos s'), ph, didWork, s')" if "same_core s s'" for s'
    using engine_inv_cong [OF that] inv phase_inv_same_core [OF that ph] by (intro loop_invI) simp_all
  show ?thesis
  proof (cases a)
    case (ThreadComplete t val forceChange)
    with assms(2) obtain ti where ti: "getTaskInfo s t = Some ti" "t \<notin> done" by auto
    from inv_state_of_task [OF inv ti(1)] obtain x where "taskState s t = Some x" by auto
    from taskIsComplete_ok [OF inv this, of val forceChange] ti(2) sub show ?thesis
      using ThreadComplete live [of t] ti(1) loop_invI by fastforce
  next
    case (ThreadDiscovered t k)
    with assms(2) obtain ti where ti: "getTaskInfo s t = Some ti" by auto
    from inv_state_of_task [OF inv ti] obtain x where "taskState s t = Some x" by auto
    from taskDiscoveredDependency_ok [OF inv this, of k] show ?thesis
      using ThreadDiscovered live [of t] ti loop_invI by fastforce
  next
    case ThreadCancel
    with core [OF cancelBuild_same_core] show ?thesis by simp
  next
    case (ThreadClient c)
    with core [of "s\<lparr>e_client := c\<rparr>"] show ?thesis by (simp add: same_core_def)
  qed
qed

lemma build_step_inv:
  assumes env: "client_contract env"
  shows "build_step env key st st' \<Longrightarrow> loop_inv key st \<Longrightarrow> loop_inv key st'"
proof (induction rule: build_step.induct)
  case (engine_thread st ph' didWork' s' "done")
  obtain ph didWork s where "st = (ph, didWork, s)" by (cases st)
  with executeStep_ok [OF env, of key "done" ph didWork s] engine_thread show ?case
    by (simp add: step_ok_def)
next
  case (spurious_wakeup s "done")
  then show ?case by (simp add: loop_inv_def)
next
  case (client_thread "done" a s s' ph didWork)
  from threadStep_ok [OF client_thread(3,1)] client_thread(2) show ?case by simp
qed

text \<open>The states a build of \<open>key\<close> can reach from the engine state \<open>s\<close>.\<close>

definition reachable_build ::
  "('c, 'd) env \<Rightarrow> KeyType \<Rightarrow> ('c, 'd) engine \<Rightarrow> TaskId set \<times> ('c, 'd) loop_state \<Rightarrow> bool" where
  "reachable_build env key s = (build_step env key)\<^sup>*\<^sup>* ({}, executeStart env key s)"

lemma reachable_inv:
  assumes env: "client_contract env" and "idle s" and "reachable_build env key s st"
  shows "loop_inv key st"
  using assms(3) unfolding reachable_build_def
  by (induction rule: rtranclp_induct) (use executeStart_inv [OF env \<open>idle s\<close>] build_step_inv [OF env] in auto)

lemma reachable_step:
  assumes "client_contract env" "idle s" "reachable_build env key s (done, ph, didWork, s')"
  shows "step_ok env key done (ph, didWork, s')"
  using executeStep_ok [OF assms(1) reachable_inv [OF assms]] .

lemma runLoop_reachable:
  assumes "runLoop fuel env key [] st = Some st'" "reachable_build env key s (done, st)"
  shows "\<exists>done'. reachable_build env key s (done', st')"
  using assms
proof (induction fuel arbitrary: st "done")
  case (Suc fuel)
  show ?case
  proof (cases "executeStep env key st")
    case (Next st1)
    obtain ph didWork s1 where st1: "st1 = (ph, didWork, s1)" by (cases st1)
    from Next st1 have "build_step env key (done, st) (done \<union> set (finishedTaskInfos s1), st1)"
      by (auto intro: build_step.intros)
    with Suc.prems(2) have "reachable_build env key s (done \<union> set (finishedTaskInfos s1), st1)"
      unfolding reachable_build_def by (rule rtranclp.rtrancl_into_rtrancl)
    with Suc Next show ?thesis by auto
  qed (use Suc.prems in auto)
qed auto

lemma run_reachable:
  assumes "runLoop fuel env key [] (executeStart env key s) = Some st"
  shows "\<exists>done. reachable_build env key s (done, st)"
  using runLoop_reachable [OF assms, of s "{}"] by (simp add: reachable_build_def)

section \<open>A client that keeps the contract\<close>

definition checked_env :: "(sample, bool) env" where
  "checked_env = sample_env\<lparr>db_setRuleResult := (\<lambda>d k r res. (d, None))\<rparr>"

lemma computing_discoverAll: "computing_prog (discoverAll ks p) b = computing_prog p b"
  by (induction ks) simp_all

lemma checked_env_contract: "client_contract checked_env"
  by (simp add: client_contract_def checked_env_def sample_env_def computing_discoverAll)

lemma newBuildEngine_idle: "idle (newBuildEngine c)"
  by (simp add: idle_def newBuildEngine_def getRule_def)

text \<open>\<open>X\<close> and \<open>Y\<close> ask for each other before they run.\<close>

definition knot :: "(sample, bool) engine" where
  "knot = newBuildEngine (sample_client [(''A'', [''X'']), (''X'', [''Y'']), (''Y'', [''X''])] [] [] [])"

lemma scenarios_idle: "idle diamond" "idle compile" "idle knot"
  by (simp_all add: diamond_def compile_def knot_def newBuildEngine_idle)

text \<open>The states that the examples below are about.\<close>

definition run :: "nat \<Rightarrow> KeyType \<Rightarrow> (sample, bool) engine \<Rightarrow> (sample, bool) loop_state option" where
  "run n key s = runLoop n checked_env key [] (executeStart checked_env key s)"

definition point :: "(sample, bool) loop_state option \<Rightarrow> (phase \<times> bool) option" where
  "point = map_option (\<lambda>(ph, didWork, s). (ph, didWork))"

lemma scenario_points:
  "point (run 10 ''A'' knot) = Some (RoundEnd, True)" "point (run 17 ''A'' knot) = Some (RoundEnd, False)"
  "point (run 19 ''A'' knot) = Some (Exited False, False)"
  "point (run 15 ''obj'' compile) = Some (RoundEnd, False)" "point (run 60 ''all'' diamond) = Some (Exited True, False)"
  by code_simp+

lemma scenario_reachable:
  assumes "point (run n key s) = Some (ph, didWork)"
  obtains s' "done" where "run n key s = Some (ph, didWork, s')" "reachable_build checked_env key s (done, ph, didWork, s')"
  using assms run_reachable [of n checked_env key s] by (fastforce simp: point_def run_def)

section \<open>Properties\<close>

text \<open>
  C1: no failure. In every state that a build can reach, from an idle engine and with a client
  that keeps its contract, and whatever other threads do in between, the next step of
  \<^verbatim>\<open>executeTasks\<close> fails no assertion and follows no dangling pointer, except at one place: the
  resolution of a cycle, when no path of waiting rules from the key being built runs into
  itself (the assertion that the cycle list is not empty fails), or when the key being built
  itself waits and has a prior result (the end of the list is dereferenced).
\<close>

theorem engine_no_fault:
  assumes "client_contract env" "idle s" "reachable_build env key s (done, ph, didWork, s')"
  shows "executeStep env key (ph, didWork, s') \<noteq> Fault \<or>
    ph = RoundEnd \<and> \<not> didWork \<and> taskInfos s' \<noteq> [] \<and> resolveCycle env key s' = None \<and>
    ((\<forall>p. wait_path s' (key # p) \<longrightarrow> distinct (key # p)) \<or> waiting_with_prior s' key)"
proof (cases "executeStep env key (ph, didWork, s')")
  case Fault
  with reachable_step [OF assms] have "ph = RoundEnd" "\<not> didWork" "taskInfos s' \<noteq> []" "resolveCycle env key s' = None"
    by (auto simp: step_ok_def)
  moreover have "engine_inv done 0 {#} {#} s'" using reachable_inv [OF assms] by (simp add: loop_inv_def)
  ultimately show ?thesis using resolveCycle_total [OF assms(1)] by blast
qed simp_all

theorem engine_no_fault_witness:
  "\<exists>s'. run 10 ''A'' knot = Some (RoundEnd, True, s') \<and> executeStep checked_env ''A'' (RoundEnd, True, s') \<noteq> Fault"
proof -
  obtain s' d where "run 10 ''A'' knot = Some (RoundEnd, True, s')"
      "reachable_build checked_env ''A'' knot (d, RoundEnd, True, s')"
    by (rule scenario_reachable [OF scenario_points(1)])
  with engine_no_fault [OF checked_env_contract scenarios_idle(3) this(2)] show ?thesis by blast
qed

text \<open>
  C2: conservation. In every reachable state, each input request and each scan request is in
  exactly one place: the wait count of a task is the number of its requests in the queues, in
  the scan records and with the tasks it waits for; a rule that is being scanned has exactly
  one scan request; and the counter of unfinished tasks is the number of tasks that compute.
\<close>

theorem engine_conservation:
  assumes "client_contract env" "idle s" "reachable_build env key s (done, ph, didWork, s')"
  shows "engine_inv done 0 {#} {#} s'"
  using reachable_inv [OF assms] by (simp add: loop_inv_def)

theorem engine_conservation_witness:
  "\<exists>s' d. run 17 ''A'' knot = Some (RoundEnd, False, s') \<and> engine_inv d 0 {#} {#} s'"
proof -
  obtain s' d where "run 17 ''A'' knot = Some (RoundEnd, False, s')"
      "reachable_build checked_env ''A'' knot (d, RoundEnd, False, s')"
    by (rule scenario_reachable [OF scenario_points(2)])
  with engine_conservation [OF checked_env_contract scenarios_idle(3) this(2)] show ?thesis by blast
qed

text \<open>
  C7: type safety of the tagged pointer. In every reachable state, the union \<^verbatim>\<open>inProgressInfo\<close> of
  a rule holds what the state of the rule says: a scan record exactly while the rule is being
  scanned, and exactly while it is in progress a live task, which is the task of this rule.
\<close>

theorem engine_union_tag:
  assumes "client_contract env" "idle s" "reachable_build env key s (done, ph, didWork, s')" "getRule s' k = Some ri"
  shows "(isScanning ri \<longleftrightarrow> (\<exists>r. ri_inProgress ri = PendingScan r)) \<and>
    (isInProgress ri \<longleftrightarrow> (\<exists>t ti. ri_inProgress ri = PendingTask t \<and> getTaskInfo s' t = Some ti \<and> ti_forRule ti = k))"
proof -
  have "engine_inv done 0 {#} {#} s'" using reachable_inv [OF assms(1-3)] by (simp add: loop_inv_def)
  from inv_shape [OF this assms(4)] show ?thesis
    by (auto simp: shape_ok_def rule_state_defs split: InProgressInfo.splits)
qed

lemma knot_X:
  "map_option (\<lambda>(ph, didWork, s). map_option ri_state (getRule s ''X'')) (run 17 ''A'' knot) = Some (Some InProgressWaiting)"
  by code_simp

theorem engine_union_tag_witness:
  "\<exists>s' ri t. run 17 ''A'' knot = Some (RoundEnd, False, s') \<and> getRule s' ''X'' = Some ri \<and> ri_inProgress ri = PendingTask t"
proof -
  obtain s' d where run: "run 17 ''A'' knot = Some (RoundEnd, False, s')"
      "reachable_build checked_env ''A'' knot (d, RoundEnd, False, s')"
    by (rule scenario_reachable [OF scenario_points(2)])
  with knot_X obtain ri where ri: "getRule s' ''X'' = Some ri" "isInProgress ri" by (auto simp: rule_state_defs)
  from engine_union_tag [OF checked_env_contract scenarios_idle(3) run(2) ri(1)] ri run(1) show ?thesis by blast
qed

text \<open>
  C5: the cycle search. In every reachable state \<^verbatim>\<open>findCycle\<close> terminates, without following a
  dangling pointer. It returns the empty list exactly if no path of waiting rules from the key
  being built runs into itself, and otherwise such a path, which repeats only its last rule.
\<close>

theorem findCycle_correct:
  assumes "client_contract env" "idle s" "reachable_build env key s (done, ph, didWork, s')"
  shows "\<exists>c s''. findCycle env key s' = Some (c, s'') \<and>
    (if c = [] then \<forall>p. wait_path s' (key # p) \<longrightarrow> distinct (key # p) else wait_cycle s' key c)"
proof -
  have "engine_inv done 0 {#} {#} s'" using reachable_inv [OF assms] by (simp add: loop_inv_def)
  from findCycle_ok [OF assms(1) this] show ?thesis by blast
qed

lemma knot_cycle:
  "map_option (\<lambda>(ph, didWork, s). map_option fst (findCycle checked_env ''A'' s)) (run 17 ''A'' knot)
     = Some (Some [''A'', ''X'', ''Y'', ''X''])"
  by code_simp

theorem findCycle_correct_witness:
  "\<exists>s'. run 17 ''A'' knot = Some (RoundEnd, False, s') \<and> wait_cycle s' ''A'' [''A'', ''X'', ''Y'', ''X'']"
proof -
  obtain s' d where run: "run 17 ''A'' knot = Some (RoundEnd, False, s')"
      "reachable_build checked_env ''A'' knot (d, RoundEnd, False, s')"
    by (rule scenario_reachable [OF scenario_points(2)])
  from findCycle_correct [OF checked_env_contract scenarios_idle(3) run(2)] knot_cycle run(1) show ?thesis by auto
qed

lemma next_of_not_Wait [simp]: "next_of x \<noteq> Wait"
  by (cases x) simp_all

lemma executeStep_Wait:
  assumes "executeStep env key (ph, didWork, s) = Wait" "ph \<notin> range Exited"
  shows "(ph = RoundEnd \<and> \<not> didWork \<or> ph = Draining) \<and> numOutstandingUnfinishedTasks s \<noteq> 0 \<and> finishedTaskInfos s = []"
  using assms by (cases ph)
    (auto simp: roundEnd_def drainStep_def split: if_splits list.splits option.splits prod.splits)

lemma taskIsComplete_computing:
  assumes inv: "engine_inv done n hi hs s" and t: "taskState s t = Some InProgressComputing"
  shows "\<exists>s'. taskIsComplete t val force s = Some s' \<and> finishedTaskInfos s' = finishedTaskInfos s @ [t]
    \<and> numOutstandingUnfinishedTasks s' = numOutstandingUnfinishedTasks s"
proof -
  from t obtain ti ri where ti: "getTaskInfo s t = Some ti"
      and ri: "getRule s (ti_forRule ti) = Some ri" "ri_state ri = InProgressComputing"
    by (elim taskState_Some)
  moreover have "getPendingTaskInfo ri = Some (Some t)"
    by (rule inv_task [OF inv ti]) (use ri(1) in \<open>auto simp: getPendingTaskInfo_def\<close>)
  ultimately show ?thesis by (simp add: taskIsComplete_def isInProgressComputing_def Let_def)
qed

text \<open>
  C3: no lost wake-up. Whenever the engine thread waits, in the work loop or while it drains a
  cancelled build, some task has been told that its inputs are available and has not completed;
  and when it completes, the engine thread goes on.
\<close>

theorem engine_wait_progress:
  assumes "client_contract env" "idle s" "reachable_build env key s (done, ph, didWork, s')"
    "executeStep env key (ph, didWork, s') = Wait" "ph \<notin> range Exited"
  shows "\<exists>t. thread_ok done (ThreadComplete t val force) s' \<and> taskState s' t = Some InProgressComputing \<and>
    (\<exists>s'' st. threadStep (ThreadComplete t val force) s' = Some s'' \<and> executeStep env key (ph, didWork, s'') = Next st)"
proof -
  have inv: "engine_inv done 0 {#} {#} s'" using reachable_inv [OF assms(1-3)] by (simp add: loop_inv_def)
  from reachable_step [OF assms(1-3)] assms(4,5) obtain t where t: "t \<in> computing done s'"
    by (auto simp: step_ok_def)
  then have "taskState s' t = Some InProgressComputing" "t \<notin> done" by (simp_all add: computing_def)
  moreover then have "getTaskInfo s' t \<noteq> None" by (auto simp: taskState_def split: option.splits)
  moreover obtain s'' where s'': "taskIsComplete t val force s' = Some s''"
      "finishedTaskInfos s'' = finishedTaskInfos s' @ [t]" "numOutstandingUnfinishedTasks s'' = numOutstandingUnfinishedTasks s'"
    using taskIsComplete_computing [OF inv] calculation(1) by blast
  moreover have "\<exists>st. executeStep env key (ph, didWork, s'') = Next st"
    using s''(2,3) executeStep_Wait [OF assms(4,5)] by (auto simp: roundEnd_def drainStep_def Suc_le_eq)
  ultimately show ?thesis by auto
qed

lemma compile_waits:
  "map_option (executeStep checked_env ''obj'') (run 15 ''obj'' compile) = Some Wait"
  by code_simp

theorem engine_wait_progress_witness:
  "\<exists>s' t s'' st. run 15 ''obj'' compile = Some (RoundEnd, False, s') \<and>
     threadStep (ThreadComplete t [5] False) s' = Some s'' \<and> executeStep checked_env ''obj'' (RoundEnd, False, s'') = Next st"
proof -
  obtain s' d where run: "run 15 ''obj'' compile = Some (RoundEnd, False, s')"
      "reachable_build checked_env ''obj'' compile (d, RoundEnd, False, s')"
    by (rule scenario_reachable [OF scenario_points(4)])
  moreover have "executeStep checked_env ''obj'' (RoundEnd, False, s') = Wait" using compile_waits run(1) by simp
  moreover have "RoundEnd \<notin> range Exited" by auto
  ultimately show ?thesis
    using engine_wait_progress [OF checked_env_contract scenarios_idle(2) run(2), of "[5]" False] by blast
qed

text \<open>
  C4: cancellation. When the work loop returns failure (the build was cancelled, or a cycle
  could not be resolved), the engine is idle: no task, no request and no queue entry is left, no
  rule is being scanned or in progress, and the counter of unfinished tasks is zero. The next
  build can start from it.
\<close>

theorem failed_build_idle:
  assumes "client_contract env" "idle s" "reachable_build env key s (done, Exited False, didWork, s')"
  shows "idle s'"
  using reachable_inv [OF assms] by (simp add: loop_inv_def)

theorem failed_build_idle_witness: "\<exists>s'. run 19 ''A'' knot = Some (Exited False, False, s') \<and> idle s'"
proof -
  obtain s' d where "run 19 ''A'' knot = Some (Exited False, False, s')"
      "reachable_build checked_env ''A'' knot (d, Exited False, False, s')"
    by (rule scenario_reachable [OF scenario_points(3)])
  with failed_build_idle [OF checked_env_contract scenarios_idle(3) this(2)] show ?thesis by blast
qed

text \<open>
  C6: the result of a build. When the work loop returns success, the assertion of \<^verbatim>\<open>build\<close> holds:
  no task is left and the rule of the key is complete in this epoch. If the database takes
  the iteration number, \<^verbatim>\<open>build\<close> returns the value of that rule.
\<close>

theorem build_returns_value:
  assumes "client_contract env" "idle s" "reachable_build env key s (done, Exited True, didWork, s')"
    "\<forall>db. snd (db_setCurrentIteration env db (currentEpoch s')) = None"
  shows "\<exists>ri s''. getRule s' key = Some ri \<and> isComplete (currentEpoch s') ri \<and>
    buildFinish env key True s' = Some (res_value (ri_result ri), s'') \<and> \<not> buildRunning s''"
proof -
  from reachable_inv [OF assms(1-3)] obtain ri where tasks: "taskInfos s' = []" and
      ri: "getRule s' key = Some ri" "isComplete (currentEpoch s') ri"
    by (auto simp: loop_inv_def)
  define s1 where "s1 = s'\<lparr>e_db := map_option (\<lambda>db. fst (db_setCurrentIteration env db (currentEpoch s'))) (e_db s')\<rparr>"
  have step: "(case e_db s' of None \<Rightarrow> Inr s' | Some db \<Rightarrow> (case db_setCurrentIteration env db (currentEpoch s') of
      (db, None) \<Rightarrow> Inr (s'\<lparr>e_db := Some db\<rparr>)
    | (db, Some error) \<Rightarrow> Inl (emit (EvError error) (s'\<lparr>e_db := Some db\<rparr>)))) = Inr s1"
  proof (cases "e_db s'")
    case (Some db)
    obtain db' where "db_setCurrentIteration env db (currentEpoch s') = (db', None)"
      using assms(4) by (cases "db_setCurrentIteration env db (currentEpoch s')") (metis snd_conv)
    with Some show ?thesis by (simp add: s1_def)
  qed (simp add: s1_def)
  obtain s2 where s2: "getRuleInfoForKey env key s1 = (key, s2)" "adds_rule key s1 s2"
    using getRuleInfoForKey_adds [OF assms(1)] by blast
  have "same_core s' s1" by (simp add: s1_def same_core_def)
  with s2(2) ri(1) have "same_core s' s2" using same_core_trans same_core_get by (fastforce simp: adds_rule_def)
  then have "getRule s2 key = Some ri" "taskInfos s2 = []" "currentEpoch s2 = currentEpoch s'"
    using ri(1) tasks same_core_get [of s' s2] by (simp_all add: same_core_def)
  with s2(1) ri show ?thesis by (simp add: buildFinish_def step deferBuildComplete_def Let_def)
qed

theorem build_returns_value_witness:
  "\<exists>s' ri s''. run 60 ''all'' diamond = Some (Exited True, False, s') \<and> getRule s' ''all'' = Some ri \<and>
     buildFinish checked_env ''all'' True s' = Some (res_value (ri_result ri), s'')"
proof -
  obtain s' d where run: "run 60 ''all'' diamond = Some (Exited True, False, s')"
      "reachable_build checked_env ''all'' diamond (d, Exited True, False, s')"
    by (rule scenario_reachable [OF scenario_points(5)])
  have "\<forall>db. snd (db_setCurrentIteration checked_env db (currentEpoch s')) = None"
    by (simp add: checked_env_def sample_env_def)
  with build_returns_value [OF checked_env_contract scenarios_idle(1) run(2)] run(1) show ?thesis by blast
qed

text \<open>
  cancelling ahead of a build. \<^verbatim>\<open>cancelBuild\<close> called while no build runs makes the next build
  return the empty value without running anything: neither the rules nor the epoch change.
\<close>

theorem cancel_before_build:
  "\<exists>s'. build fuel env key threads (cancelBuild s) = Some ([], s') \<and> ruleInfos s' = ruleInfos s \<and>
     currentEpoch s' = currentEpoch s \<and> taskInfos s' = taskInfos s"
proof -
  have "same_core s (cancelBuild s)" "buildCancelled (cancelBuild s)"
    by (rule cancelBuild_same_core) (simp add: cancelBuild_def Let_def emit_def)
  then show ?thesis
    by (auto simp: build_def buildStart_def deferBuildComplete_def same_core_def Let_def
        split: option.split prod.split)
qed

section \<open>What the examples show\<close>

text \<open>
  A task that was cancelled while it ran leaves its result from the run before, with the
  dependencies it had then; the next build takes it for current although the header has
  changed. Without the cancelled build in between the change is noticed.
\<close>

lemma stale_after_cancel:
  "map_option fst (build 200 sample_env ''obj'' [] (editSource ''hdr'' [7] compile2)) = Some [6]"
  by code_simp

lemma fresh_without_cancel:
  "map_option fst (build 200 sample_env ''obj'' [ThreadComplete 3 [7] False] (editSource ''hdr'' [7] compile1)) = Some [7]"
  by code_simp

text \<open>A successful build may leave a rule in the scanning state.\<close>

lemma scanning_left_over:
  "map_option (\<lambda>x. (ruleState (snd x) ''X'', fst x))
     (build 200 sample_env ''B'' [] (snd (the (build 200 sample_env ''X'' [] mutual)))) = Some (Some IsScanning, [])"
  by code_simp

text \<open>A failed write of a rule's result breaks the cancellation that follows it.\<close>

lemma database_failure_faults:
  "runLoop 200 sample_env ''src'' [] (executeStart sample_env ''src'' (diamond\<lparr>e_db := Some True\<rparr>)) = None"
  by code_simp

text \<open>A cycle among the discovered dependencies is not reachable from the key being built.\<close>

definition far_knot :: "(sample, bool) engine" where
  "far_knot = newBuildEngine (sample_client [(''D'', [''E'']), (''E'', [''D''])] [(''X'', [''D''])] [] [])"

lemma far_cycle_faults:
  "runLoop 200 sample_env ''X'' [] (executeStart sample_env ''X'' far_knot) = None"
  by code_simp

end
