(* ===== verification/ExternalCommandProps.thy ===== *)
theory ExternalCommandProps
  imports ExternalCommand
begin

text \<open>
  What the up-to-date check and the failure handling of external commands promise: a result
  stays valid exactly as long as the outputs are unchanged, and a bad input stops the command
  and fails everything that needs its outputs.
\<close>

section \<open>Up-to-date check\<close>

definition output_unchanged :: "'fs FileSystem \<Rightarrow> 'fs \<Rightarrow> 'fs \<Rightarrow> BuildNode \<Rightarrow> bool" where
  "output_unchanged FS fs fs' node \<longleftrightarrow> isVirtual node \<or>
     (let path = dropTrailingSlash (node_name node);
          old = fs_getFileInfo FS fs path; new = fs_getFileInfo FS fs' path
      in if isMutated node then isMissing old = isMissing new else fileInfo_eq old new)"

lemma makeSuccessfulCommand_infos:
  assumes "makeSuccessfulCommand infos = Some v" "length infos < 2 ^ 32" "i < length infos"
  shows "getNthOutputInfo v i = Some (infos ! i)" "isSuccessfulCommand v"
proof -
  have n: "unat (word_of_nat (length infos) :: u32) = length infos"
    using assms(2) by (simp add: unat_of_nat_less)
  from assms(1) have v: "bv_kind v = Kind_SuccessfulCommand" "numOutputInfos v = word_of_nat (length infos)"
      "valueData v = (if (word_of_nat (length infos) :: u32) = 1 then AsOutputInfo (infos ! 0)
         else AsOutputInfos (take (unat (word_of_nat (length infos) :: u32)) infos))"
    by (auto simp: makeSuccessfulCommand_def BuildValue_outputs_def Let_def)
  have one: "(word_of_nat (length infos) :: u32) = 1 \<longleftrightarrow> length infos = 1"
    by (metis n unsigned_1 word_unat_eq_iff)
  have multi: "hasMultipleOutputs v \<longleftrightarrow> length infos > 1"
    unfolding hasMultipleOutputs_def v(2) word_less_nat_alt n by simp
  show "isSuccessfulCommand v" using v(1) by (simp add: isSuccessfulCommand_def)
  then show "getNthOutputInfo v i = Some (infos ! i)"
    using assms(3) v n one multi by (auto simp: getNthOutputInfo_def kindHasOutputInfo_def)
qed

lemma outputsUnchanged_infos:
  assumes "\<And>j. j < length nodes \<Longrightarrow> getNthOutputInfo v (i + j) = outputInfo FS fs epoch (nodes ! j)"
    and "\<forall>node \<in> set nodes. isCommandTimestamp node \<longrightarrow> isVirtual node"
  shows "outputsUnchanged FS fs' v i nodes = Some (list_all (output_unchanged FS fs fs') nodes)"
  using assms
proof (induction nodes arbitrary: i)
  case (Cons node nodes)
  have rest: "outputsUnchanged FS fs' v (i + 1) nodes = Some (list_all (output_unchanged FS fs fs') nodes)"
  proof (rule Cons.IH)
    show "getNthOutputInfo v (i + 1 + j) = outputInfo FS fs epoch (nodes ! j)" if "j < length nodes" for j
      using Cons.prems(1) [of "Suc j"] that by simp
  qed (use Cons.prems(2) in simp)
  show ?case
  proof (cases "isVirtual node")
    case False
    then have "outputInfo FS fs epoch node = Some (fs_getFileInfo FS fs (dropTrailingSlash (node_name node)))"
      using Cons.prems(2) by (auto simp: outputInfo_def getFileInfo_node_def)
    moreover have "output_unchanged FS fs fs' node = (let path = dropTrailingSlash (node_name node);
        old = fs_getFileInfo FS fs path; new = fs_getFileInfo FS fs' path
      in if isMutated node then isMissing old = isMissing new else fileInfo_eq old new)"
      using False by (simp add: output_unchanged_def)
    ultimately show ?thesis
      using Cons.prems(1) [of 0] rest False by (simp add: getFileInfo_node_def Let_def)
  next
    case True
    moreover have "output_unchanged FS fs fs' node" using True by (simp add: output_unchanged_def)
    ultimately show ?thesis using rest by simp
  qed
qed simp

text \<open>
  C11: a recorded result of an external command is accepted by the next build exactly if the
  command is not marked as always out of date and every output that is a file is unchanged on
  disk since the result was taken: the same file information, or, for an output the build
  itself modifies, the same existence.
\<close>

theorem external_result_valid_iff:
  assumes "computeCommandResult FS fs epoch cmd = Some v" "length (ec_outputs cmd) < 2 ^ 32"
    "\<forall>node \<in> set (ec_outputs cmd). isCommandTimestamp node \<longrightarrow> isVirtual node"
  shows "isResultValid_external FS fs' cmd v =
    Some (\<not> ec_alwaysOutOfDate cmd \<and> list_all (output_unchanged FS fs fs') (ec_outputs cmd))"
proof -
  from assms(1) obtain infos where infos: "mapM_option (outputInfo FS fs epoch) (ec_outputs cmd) = Some infos"
      "makeSuccessfulCommand (if ec_outputs cmd = [] then [zeroFileInfo\<lparr>fi_size := of_nat epoch\<rparr>] else infos) = Some v"
    by (auto simp: computeCommandResult_def bind_eq_Some_conv)
  then have len: "length infos = length (ec_outputs cmd)" by (simp add: mapM_option_eq_Some)
  show ?thesis
  proof (cases "ec_outputs cmd = []")
    case True
    with infos(2) have "isSuccessfulCommand v"
      using makeSuccessfulCommand_infos(2) [of "[zeroFileInfo\<lparr>fi_size := of_nat epoch\<rparr>]" v 0] by simp
    with True show ?thesis by (simp add: isResultValid_external_def)
  next
    case False
    with infos(2) have mk: "makeSuccessfulCommand infos = Some v" by simp
    have nth: "getNthOutputInfo v (0 + j) = outputInfo FS fs epoch (ec_outputs cmd ! j)" if "j < length (ec_outputs cmd)" for j
      using makeSuccessfulCommand_infos(1) [OF mk] infos(1) assms(2) that len by (simp add: mapM_option_eq_Some)
    have "isSuccessfulCommand v"
      using makeSuccessfulCommand_infos(2) [OF mk, of 0] assms(2) len False by simp
    with outputsUnchanged_infos [OF nth assms(3), of fs'] show ?thesis
      by (simp add: isResultValid_external_def)
  qed
qed

definition compile_cmd :: ExternalCommand where
  "compile_cmd = (newExternalCommand ''cc'')\<lparr>ec_inputs := [createNode ''a.c'', createNode ''a.h''],
     ec_outputs := [createNode ''a.o'', createNode ''<done>'']\<rparr>"

definition compile_value :: BuildValue where
  "compile_value = the (computeCommandResult memory_FS [(''a.o'', memory_file 3)] 1 compile_cmd)"

theorem external_result_valid_iff_witness:
  "isResultValid_external memory_FS [(''a.o'', memory_file 3), (''b'', memory_file 4)] compile_cmd compile_value = Some True \<and>
   isResultValid_external memory_FS [(''a.o'', memory_file 5)] compile_cmd compile_value = Some False"
proof -
  have v: "computeCommandResult memory_FS [(''a.o'', memory_file 3)] 1 compile_cmd = Some compile_value"
    by code_simp
  have outs: "length (ec_outputs compile_cmd) < 2 ^ 32"
      "\<forall>node \<in> set (ec_outputs compile_cmd). isCommandTimestamp node \<longrightarrow> isVirtual node"
    by (simp_all add: compile_cmd_def createNode_def makeBuildNode_def isCommandTimestamp_def)
  have same: "(\<not> ec_alwaysOutOfDate compile_cmd \<and> list_all (output_unchanged memory_FS [(''a.o'', memory_file 3)]
      [(''a.o'', memory_file 3), (''b'', memory_file 4)]) (ec_outputs compile_cmd)) = True"
    by code_simp
  have changed: "(\<not> ec_alwaysOutOfDate compile_cmd \<and> list_all (output_unchanged memory_FS [(''a.o'', memory_file 3)]
      [(''a.o'', memory_file 5)]) (ec_outputs compile_cmd)) = False"
    by code_simp
  show ?thesis
    unfolding external_result_valid_iff [OF v outs] same changed by simp
qed

section \<open>Bad inputs\<close>

definition provideAll :: "(u64 \<times> byte list \<times> BuildValue) list \<Rightarrow> ExternalCommand \<Rightarrow> ExternalCommand option" where
  "provideAll inputs = foldM_option (\<lambda>(inputID, key, v). provideValue_external inputID key v) inputs"

text \<open>An input stops the command if it failed, or if it is missing and must not be.\<close>

definition blocks :: "ExternalCommand \<Rightarrow> BuildValue \<Rightarrow> bool" where
  "blocks cmd v \<longleftrightarrow> bv_kind v = Kind_FailedInput \<or> bv_kind v = Kind_MissingInput \<and> \<not> ec_allowMissingInputs cmd"

lemma provideValue_external_effect:
  assumes "provideValue_external inputID key v cmd = Some cmd'"
  shows "ec_allowMissingInputs cmd' = ec_allowMissingInputs cmd"
    "ec_skipValue cmd' = (if blocks cmd v then Some (make_plain Kind_PropagatedFailureCommand) else ec_skipValue cmd)"
    "ec_missingInputKeys cmd' \<noteq> [] \<Longrightarrow> ec_missingInputKeys cmd \<noteq> [] \<or> blocks cmd v"
  using assms
  by (auto simp: provideValue_external_def blocks_def getSkipValueForInput_def isSuccessfulCommand_def
      failedCommandValue_def Let_def split: if_splits option.splits)

lemma provideAll_effect:
  assumes "provideAll inputs cmd = Some cmd'"
  shows "ec_skipValue cmd' = (if list_ex (\<lambda>(i, k, v). blocks cmd v) inputs
      then Some (make_plain Kind_PropagatedFailureCommand) else ec_skipValue cmd) \<and>
    (ec_missingInputKeys cmd' \<noteq> [] \<longrightarrow> ec_missingInputKeys cmd \<noteq> [] \<or> list_ex (\<lambda>(i, k, v). blocks cmd v) inputs)"
  using assms
proof (induction inputs arbitrary: cmd)
  case (Cons x inputs)
  obtain i k v where x: "x = (i, k, v)" by (cases x)
  from Cons.prems obtain cmd1 where cmd1: "provideValue_external i k v cmd = Some cmd1" "provideAll inputs cmd1 = Some cmd'"
    by (auto simp: provideAll_def x bind_eq_Some_conv)
  note eff = provideValue_external_effect [OF cmd1(1)]
  have "blocks cmd1 = blocks cmd" by (simp add: blocks_def eff(1) fun_eq_iff)
  with Cons.IH [OF cmd1(2)] eff show ?case by (auto simp: x)
qed (simp add: provideAll_def)

text \<open>
  C12: failure propagation. Once all inputs have been provided: if one of them failed, or is
  missing although the command does not allow it, the command completes as a propagated failure
  without running and without touching the file system, and each of its outputs reads as a
  failed input, which stops the commands that need it in turn. Otherwise the command is not
  skipped, and the assertion that no missing input was recorded holds.
\<close>

theorem external_failure_propagation:
  assumes "provideAll inputs (fst (start_external cmd)) = Some cmd'"
  shows "if list_ex (\<lambda>(i, k, v). blocks cmd v) inputs
    then (\<exists>evs. execute_external FS parent_path run epoch cmd' fs =
            Some (make_plain Kind_PropagatedFailureCommand, evs, fs)) \<and>
         getResultForOutput_external cmd' node (make_plain Kind_PropagatedFailureCommand) = Some (make_plain Kind_FailedInput) \<and>
         blocks other (make_plain Kind_FailedInput)
    else ec_skipValue cmd' = None \<and> ec_missingInputKeys cmd' = []"
proof -
  have start: "ec_skipValue (fst (start_external cmd)) = None" "ec_missingInputKeys (fst (start_external cmd)) = []"
      "blocks (fst (start_external cmd)) = blocks cmd"
    by (simp_all add: start_external_def blocks_def fun_eq_iff)
  from provideAll_effect [OF assms] start show ?thesis
    by (auto simp: execute_external_def getResultForOutput_external_def failedCommandValue_def blocks_def
        make_plain_def BuildValue_kind_def)
qed

definition compile_inputs :: "(u64 \<times> byte list \<times> BuildValue) list" where
  "compile_inputs = [(0, makeNode (bytes ''a.c''), the (makeExistingInput (memory_file 2))),
     (1, makeNode (bytes ''a.h''), make_plain Kind_MissingInput)]"

theorem external_failure_propagation_witness:
  "\<exists>cmd' evs. provideAll compile_inputs (fst (start_external compile_cmd)) = Some cmd' \<and>
     execute_external memory_FS id (\<lambda>cmd fs. Some (Succeeded, [], fs)) 1 cmd' [] =
       Some (make_plain Kind_PropagatedFailureCommand, evs, [])"
proof -
  have "provideAll compile_inputs (fst (start_external compile_cmd)) \<noteq> None" by code_simp
  then obtain cmd' where cmd': "provideAll compile_inputs (fst (start_external compile_cmd)) = Some cmd'" by blast
  have "list_ex (\<lambda>(i, k, v). blocks compile_cmd v) compile_inputs = True" by code_simp
  with external_failure_propagation [OF cmd', of memory_FS id "\<lambda>cmd fs. Some (Succeeded, [], fs)" 1 "[]"] cmd'
  show ?thesis by simp
qed

section \<open>Signatures\<close>

text \<open>
  The signature does not separate inputs from outputs: turning the last input into the first
  output does not change it.
\<close>

lemma signature_boundary:
  "getSignature_external H (cmd\<lparr>ec_inputs := ins @ [node], ec_outputs := outs\<rparr>) =
   getSignature_external H (cmd\<lparr>ec_inputs := ins, ec_outputs := node # outs\<rparr>)"
  by (simp add: getSignature_external_def combine_strings_def Let_def)

end
