(* ===== verification/BuildSystemCommandsProps.thy ===== *)
theory BuildSystemCommandsProps
  imports BuildSystemCommands
begin

text \<open>
  Properties of the built-in commands: which paths count as lying under a root, and which files
  stale file removal deletes.
\<close>

section \<open>Path prefixes\<close>

lemma mismatch_split: "\<exists>c. as = c @ fst (mismatch as bs) \<and> bs = c @ snd (mismatch as bs)"
proof (induction as bs rule: mismatch.induct)
  case (1 a as b bs)
  show ?case
  proof (cases "a = b")
    case True
    with 1 obtain c where "as = c @ fst (mismatch as bs)" "bs = c @ snd (mismatch as bs)" by blast
    with True show ?thesis by (intro exI [of _ "a # c"]) simp
  qed simp
qed simp_all

lemma mismatch_heads:
  "fst (mismatch as bs) = x # xs \<Longrightarrow> snd (mismatch as bs) = y # ys \<Longrightarrow> x \<noteq> y"
  by (induction as bs rule: mismatch.induct) (auto split: if_splits)

lemma mismatch_prefix: "mismatch as (as @ bs) = ([], bs)"
  by (induction as) simp_all

lemma path_prefixed:
  "pathIsPrefixedByPath [sep] path root \<longleftrightarrow> path = root \<or> prefix (root @ [sep]) path \<or> root = path @ [sep]"
proof (cases "length root > length path")
  case True
  then have "root \<noteq> []" "path \<noteq> root" "\<not> prefix (root @ [sep]) path"
    by (auto dest: prefix_length_le)
  then show ?thesis
    using True by (cases root rule: rev_cases) (auto simp: pathIsPrefixedByPath_def)
next
  case False
  obtain first second where m: "mismatch root path = (first, second)" by force
  from mismatch_split [of root path] m obtain c where split: "root = c @ first" "path = c @ second" by auto
  show ?thesis
  proof (cases first)
    case Nil
    with split False m show ?thesis
      by (cases second) (auto simp: pathIsPrefixedByPath_def starts_with_sep_def)
  next
    case (Cons x xs)
    with split False obtain y ys where second: "second = y # ys" by (cases second) auto
    have "x \<noteq> y" using mismatch_heads [of root path] m Cons second by simp
    then have "path \<noteq> root" "\<not> prefix (root @ [sep]) path" "root \<noteq> path @ [sep]"
      using split Cons second False by auto
    with \<open>x \<noteq> y\<close> False m Cons second show ?thesis
      by (auto simp: pathIsPrefixedByPath_def starts_with_sep_def)
  qed
qed

text \<open>
  on a platform with one path separator, a path counts as lying under a root exactly if it is
  the root, or the root followed by a separator is a prefix of it, or the root is the path with
  a separator appended. A path that merely begins with the characters of the root does not
  count, and neither does a path below a root that is written with a trailing separator.
\<close>

theorem pathIsPrefixedByPath_iff:
  "pathIsPrefixedByPath [sep] path root \<longleftrightarrow> path = root \<or> prefix (root @ [sep]) path \<or> root = path @ [sep]"
  by (rule path_prefixed)

text \<open>With two separators the test accepts paths that leave the root at the first separator.\<close>

lemma prefix_two_separators:
  "pathIsPrefixedByPath [CHR ''/'', CHR 92] (''C:'' @ [CHR 92] @ ''other'') ''C:/root''"
  by code_simp

lemma prefix_trailing_separator: "\<not> pathIsPrefixedByPath ''/'' ''/foo/bar'' ''/foo/''"
  by code_simp

section \<open>Stale file removal\<close>

definition under_root :: "string list \<Rightarrow> string \<Rightarrow> bool" where
  "under_root roots file \<longleftrightarrow> roots = [] \<or> (prefix ''/'' file \<and>
     list_ex (\<lambda>root. file = root \<or> prefix (root @ ''/'') file \<or> root = file @ ''/'') roots)"

definition removeAll_files :: "'fs FileSystem \<Rightarrow> string list \<Rightarrow> 'fs \<Rightarrow> 'fs" where
  "removeAll_files FS = fold (\<lambda>file fs. snd (fs_remove FS file fs))"

lemma starts_with_slash: "starts_with_sep ''/'' f \<longleftrightarrow> prefix ''/'' f"
  by (cases f) (auto simp: starts_with_sep_def)

lemma mayDelete_iff: "mayDelete ''/'' cmd file = Inr () \<longleftrightarrow> under_root (sf_roots cmd) file"
  by (auto simp: mayDelete_def under_root_def starts_with_slash path_prefixed list_ex_iff split: if_splits)


lemma deleteFile_fs:
  "snd (deleteFile FS ''/'' cmd f (evs, fs)) = (if under_root (sf_roots cmd) f then snd (fs_remove FS f fs) else fs)"
proof -
  have "mayDelete ''/'' cmd f = Inr () \<or> (\<exists>w. mayDelete ''/'' cmd f = Inl w)" by (cases "mayDelete ''/'' cmd f") auto
  then show ?thesis
    by (auto simp: deleteFile_def mayDelete_iff [symmetric] split: prod.split bool.split option.split)
qed

lemma deleteFiles_fs:
  "snd (fold (deleteFile FS ''/'' cmd) fl (evs, fs)) = removeAll_files FS (filter (under_root (sf_roots cmd)) fl) fs"
proof (induction fl arbitrary: evs fs)
  case (Cons f fl)
  obtain evs' fs' where step: "deleteFile FS ''/'' cmd f (evs, fs) = (evs', fs')" by force
  with deleteFile_fs [of FS cmd f evs fs] have "fs' = (if under_root (sf_roots cmd) f then snd (fs_remove FS f fs) else fs)"
    by simp
  with Cons [of evs' fs'] step show ?case by (simp add: removeAll_files_def)
qed (simp add: removeAll_files_def)

lemma strings_of_stale:
  assumes "makeStaleFileRemoval vals = Some v" shows "getStringListValues v = Some vals"
  using assms getValues_of_values
  by (auto simp: makeStaleFileRemoval_def BuildValue_strings_def getStringListValues_def bind_eq_Some_conv
      kindHasStringList_def BuildValue_kind_def isDirectoryContents_value_def Let_def)

text \<open>The files that an execution looks at: computed by the first execution of the command, and kept.\<close>

definition stale_candidates :: "StaleFileRemovalCommand \<Rightarrow> string list \<Rightarrow> string list" where
  "stale_candidates cmd prior =
     (if sf_computedFilesToDelete cmd then sf_filesToDelete cmd
      else filter (\<lambda>f. f \<notin> set (sf_expectedOutputs cmd)) (sort (remdups prior)))"

text \<open>
  C13: what stale file removal deletes. The first execution of a command whose prior value lists the
  files \<open>prior\<close> removes, in alphabetical order, exactly the files of that list that are no longer expected
  and, if roots are given, are absolute and lie under one of them; nothing else is touched, and without
  a prior value nothing is removed. A later execution of the same command object (a second build with the
  same description) does not compute the list again: it removes what is there of the list of the first. The result lists
  the expected outputs, for the next build.
\<close>

theorem stale_removal_exact:
  assumes "execute_stale FS ''/'' cmd fs = Some (v, evs, fs', cmd')"
    "\<not> sf_computedFilesToDelete cmd \<longrightarrow> sf_filesToDelete cmd = []"
    "sf_hasPriorResult cmd \<and> bv_kind (sf_priorValue cmd) = Kind_StaleFileRemoval \<longrightarrow>
       getStringListValues (sf_priorValue cmd) = Some (map bytes prior)"
  shows "getStringListValues v = Some (map bytes (sf_expectedOutputs cmd)) \<and>
    (if sf_hasPriorResult cmd \<and> bv_kind (sf_priorValue cmd) = Kind_StaleFileRemoval
     then fs' = removeAll_files FS (filter (under_root (sf_roots cmd)) (stale_candidates cmd prior)) fs
       \<and> sf_computedFilesToDelete cmd' \<and> sf_filesToDelete cmd' = stale_candidates cmd prior
     else fs' = fs \<and> cmd' = cmd)"
proof
  have "makeStaleFileRemoval (map bytes (sf_expectedOutputs cmd)) = Some v"
    using assms(1) by (auto simp: execute_stale_def bind_eq_Some_conv case_prod_beta split: if_splits)
  then show "getStringListValues v = Some (map bytes (sf_expectedOutputs cmd))" by (rule strings_of_stale)
  let ?prior = "sf_hasPriorResult cmd \<and> bv_kind (sf_priorValue cmd) = Kind_StaleFileRemoval"
  let ?stale = "stale_candidates cmd prior"
  let ?cmd = "cmd\<lparr>sf_filesToDelete := ?stale, sf_computedFilesToDelete := True\<rparr>"
  show "if ?prior then fs' = removeAll_files FS (filter (under_root (sf_roots cmd)) ?stale) fs
      \<and> sf_computedFilesToDelete cmd' \<and> sf_filesToDelete cmd' = ?stale else fs' = fs \<and> cmd' = cmd"
  proof (cases ?prior)
    case True
    have "map chars (map bytes prior) = prior" by (simp add: comp_def)
    with True assms(2,3) have cmd: "computeFilesToDelete cmd = Some ?cmd"
      by (simp add: computeFilesToDelete_def stale_candidates_def)
    from True assms(1) cmd have run: "fs' = snd (fold (deleteFile FS ''/'' ?cmd) ?stale ([CommandStarted (sf_name ?cmd)], fs))"
      "cmd' = ?cmd"
      by (auto simp: execute_stale_def bind_eq_Some_conv case_prod_beta)
    have "snd (fold (deleteFile FS ''/'' ?cmd) ?stale ([CommandStarted (sf_name ?cmd)], fs))
        = removeAll_files FS (filter (under_root (sf_roots cmd)) ?stale) fs"
      by (simp add: deleteFiles_fs)
    with True run show ?thesis by simp
  next
    case False
    with assms(1) show ?thesis by (auto simp: execute_stale_def bind_eq_Some_conv split: if_splits)
  qed
qed

definition sweep :: StaleFileRemovalCommand where
  "sweep = (newStaleFileRemoval ''sweep'')\<lparr>sf_expectedOutputs := [''/b/keep''], sf_roots := [''/b''],
     sf_hasPriorResult := True,
     sf_priorValue := the (makeStaleFileRemoval (map bytes [''/b/old'', ''/b/keep'', ''/home/x'']))\<rparr>"

definition sweep_fs :: memory_fs where
  "sweep_fs = [(''/b/old'', memory_file 1), (''/b/keep'', memory_file 2), (''/home/x'', memory_file 3)]"

theorem stale_removal_exact_witness:
  "\<exists>v evs cmd'. execute_stale memory_FS ''/'' sweep sweep_fs =
     Some (v, evs, removeAll_files memory_FS [''/b/old''] sweep_fs, cmd') \<and> sf_filesToDelete cmd' = [''/b/old'', ''/home/x'']"
proof -
  have "execute_stale memory_FS ''/'' sweep sweep_fs \<noteq> None" by code_simp
  then obtain v evs fs' cmd' where run: "execute_stale memory_FS ''/'' sweep sweep_fs = Some (v, evs, fs', cmd')" by auto
  have prior: "sf_hasPriorResult sweep \<and> bv_kind (sf_priorValue sweep) = Kind_StaleFileRemoval" by code_simp
  have pre: "\<not> sf_computedFilesToDelete sweep \<longrightarrow> sf_filesToDelete sweep = []"
      "sf_hasPriorResult sweep \<and> bv_kind (sf_priorValue sweep) = Kind_StaleFileRemoval \<longrightarrow>
         getStringListValues (sf_priorValue sweep) = Some (map bytes [''/b/old'', ''/b/keep'', ''/home/x''])"
    by code_simp+
  have del: "stale_candidates sweep [''/b/old'', ''/b/keep'', ''/home/x''] = [''/b/old'', ''/home/x'']"
    "filter (under_root (sf_roots sweep)) [''/b/old'', ''/home/x''] = [''/b/old'']"
    by code_simp+
  have "fs' = removeAll_files memory_FS [''/b/old''] sweep_fs \<and> sf_filesToDelete cmd' = [''/b/old'', ''/home/x'']"
    using stale_removal_exact [OF run pre] prior unfolding del by (simp only: if_True)
  with run show ?thesis by blast
qed

end
