(* ===== verification/BuildSystemProps.thy ===== *)
theory BuildSystemProps
  imports BuildSystemClient BuildEngineSafety ExternalCommandProps BuildSystemCommandsProps
begin

text \<open>
  Properties of the native build system as a client of the engine: its callbacks keep the contract
  that the properties of the engine rest on, and the values they store for files and
  directories are taken for valid exactly as long as the file system has not changed.
\<close>

section \<open>The contract of the engine\<close>

lemmas inputsAvailable_defs = TargetTask_inputsAvailable_def
  FileInputNodeTask_inputsAvailable_def
  StatTask_inputsAvailable_def
  DirectoryInputNodeTask_inputsAvailable_def
  DirectoryStructureInputNodeTask_inputsAvailable_def
  VirtualInputNodeTask_inputsAvailable_def
  ProducedNodeTask_inputsAvailable_def
  ProducedDirectoryNodeTask_inputsAvailable_def
  DirectoryContentsTask_inputsAvailable_def
  FilteredDirectoryContentsTask_inputsAvailable_def
  DirectoryTreeSignatureTask_inputsAvailable_def
  DirectoryTreeStructureSignatureTask_inputsAvailable_def
  CommandTask_inputsAvailable_def
  MissingCommandTask_inputsAvailable_def

lemmas isResultValid_defs = FileInputNodeTask_isResultValid_def
  VirtualInputNodeTask_isResultValid_def
  ProducedNodeTask_isResultValid_def
  ProducedDirectoryNodeTask_isResultValid_def
  DirectoryContentsTask_isResultValid_def
  CommandTask_isResultValid_def

lemmas provideValue_defs = TargetTask_provideValue_def
  DirectoryInputNodeTask_provideValue_def
  DirectoryStructureInputNodeTask_provideValue_def
  ProducedNodeTask_provideValue_def
  ProducedDirectoryNodeTask_provideValue_def
  DirectoryContentsTask_provideValue_def
  FilteredDirectoryContentsTask_provideValue_def
  DirectoryTreeSignatureTask_provideValue_def
  DirectoryTreeStructureSignatureTask_provideValue_def
  CommandTask_provideValue_def

lemma computing_abort [simp]: "computing_prog (abort c) b"
  by (simp add: abort_def)

lemma computing_completeWith [simp]: "computing_prog (completeWith v force c) True"
  by (simp add: completeWith_def split: option.split)

lemma computing_completeJob [simp]: "computing_prog (completeJob r c) True"
  by (simp add: completeJob_def split: option.split)

lemma computing_inputsAvailable: "computing_prog (bsInputsAvailable sp t task c) True"
  by (cases task) (simp_all add: inputsAvailable_defs split: option.split)

text \<open>
  The callbacks keep what the engine's theorems ask of a client, over a database that returns
  well-formed dependency lists and whose writes succeed: no task asks for inputs once all its inputs are
  available, and none completes twice in the callback. The jobs of commands are not part of this.
\<close>

lemma buildsystem_contract:
  assumes "\<forall>d k key r err. db_lookupRuleResult base d k key = (Some r, err) \<longrightarrow> deps_invar (dependencies r)"
    "\<forall>d k rule r. snd (db_setRuleResult base d k rule r) = None"
  shows "client_contract (buildsystem_env sp base)"
  using assms
  by (simp add: client_contract_def buildsystem_env_def with_task_def computing_inputsAvailable split: option.split)

section \<open>An instance\<close>

text \<open>
  The parameters on the file system in memory: a directory holds the files whose names start
  with its path, and every command line succeeds.
\<close>

definition memory_list :: "memory_fs \<Rightarrow> string \<Rightarrow> (string \<times> string option) list" where
  "memory_list fs path = map (\<lambda>(p, info). (drop (length path + 1) p, None))
     (filter (\<lambda>(p, info). prefix (path @ ''/'') p) fs)"

definition memory_params :: "memory_fs system_params" where
  "memory_params = \<lparr>
     sp_hash = \<lparr>hash_string = (\<lambda>s. of_nat (length s)), combine_string = (\<lambda>x s. 31 * x + of_nat (length s)),
       combine_bool = (\<lambda>x b. 31 * x + of_bool b), combine_bytes = (\<lambda>x b. 31 * x + of_nat (length b)),
       combine_word = (\<lambda>x y. 31 * x + y)\<rparr>,
     sp_FS = memory_FS, sp_parent_path = (\<lambda>path. []), sp_path_append = (\<lambda>p q. p @ ''/'' @ q),
     sp_listDirectory = memory_list, sp_filenameMatch = (\<lambda>pattern name. pattern = name),
     sp_separators = ''/'', sp_chooseProducer = (\<lambda>name producers. None),
     sp_shouldCommandStart = (\<lambda>name. True), sp_isDetached = (\<lambda>cmd. True),
     sp_createCustomCommand = (\<lambda>key. None), sp_signature = (\<lambda>cmd. 1), sp_startExternal = (\<lambda>cmd. []),
     sp_runExternal = (\<lambda>cmd fs. Some (Succeeded, [], AList.update ''a.o'' (memory_file 9) fs))\<rparr>"

definition empty_system :: "memory_fs \<Rightarrow> memory_fs BuildSystem" where
  "empty_system fs = \<lparr>bs_description = \<lparr>bd_nodes = [], bd_targets = [], bd_commands = [], bd_defaultTarget = []\<rparr>,
     bs_customTasks = [], bs_fs = fs, bs_tasks = [], bs_jobs = [], bs_events = [], bs_aborted = False\<rparr>"

text \<open>A database without results; the callbacks of the base are replaced by those of the build system.\<close>

definition empty_base :: "(memory_fs BuildSystem, unit) env" where
  "empty_base = \<lparr>
     lookupRule = (\<lambda>c k. \<lparr>rule_key = k, rule_signature = 0\<rparr>), isResultValid = (\<lambda>c k v. False),
     checksDependenciesBeforeRunning = (\<lambda>c k. False), mustCheckDependencyBeforeRunning = (\<lambda>c k k'. False),
     createTask = (\<lambda>c k t. c), task_start = (\<lambda>c t. Return c), task_providePriorValue = (\<lambda>c t v. Return c),
     task_provideValue = (\<lambda>c t i k v. Return c), task_inputsAvailable = (\<lambda>c t. Return c),
     shouldResolveCycle = (\<lambda>c ks k a. False), clock_now = (\<lambda>c. 0),
     db_lookupRuleResult = (\<lambda>d k key. (None, [])), db_setRuleResult = (\<lambda>d k r res. (d, None)),
     db_buildStarted = (\<lambda>d. (d, None)), db_setCurrentIteration = (\<lambda>d ep. (d, None)),
     db_buildComplete = (\<lambda>d. d), db_getCurrentEpoch = (\<lambda>d. (0, True))\<rparr>"

lemma buildsystem_contract_example: "client_contract (buildsystem_env memory_params empty_base)"
  by (rule buildsystem_contract) (simp_all add: empty_base_def)

section \<open>Stored values and the file system\<close>

lemma toData_fromData:
  assumes "value_ok v"
  obtains d where "toData v = Some d" "fromData d = Some (value_normal v)"
  using toData_eq [of v] fromData_eq [OF assms] assms by (simp add: value_ok_def)

lemma ruleTask_fs [simp]: "ruleTask sp (c\<lparr>bs_fs := fs\<rparr>) key = ruleTask sp c key"
  by (simp add: ruleTask_def findCommand_def lookupNode_def cong: BuildKeyKind.case_cong)

lemma fileInputNode_plain: "ruleTask sp c key = Some (FileInputNodeTask node) \<Longrightarrow> \<not> isVirtual node"
  by (auto simp: ruleTask_def nodeTask_def bind_eq_Some_conv split: BuildKeyKind.splits if_splits)

lemma fileInputValue_stored:
  assumes "fileInfo_ok info"
  obtains v where "fileInputValue info = Some v" "value_ok v" "\<not> kindHasStringList v"
    "bv_kind v = (if isMissing info then Kind_MissingInput else Kind_ExistingInput)"
    "\<not> isMissing info \<longrightarrow> getOutputInfo v = Some info"
proof (cases "isMissing info")
  case True
  with that [of "make_plain Kind_MissingInput"] value_ok_plain [of Kind_MissingInput] show thesis
    by (simp add: fileInputValue_def plain_kinds_def make_plain_def BuildValue_kind_def kindHasStringList_def
        isDirectoryContents_value_def)
next
  case False
  then obtain v where v: "BuildValue_outputs Kind_ExistingInput [info] 0 = Some v" "fileInputValue info = Some v"
    by (simp add: fileInputValue_def makeExistingInput_def BuildValue_outputs_def kindHasOutputInfo_def
        BuildValue_kind_def Let_def)
  with assms value_ok_outputs [OF v(1)] have "value_ok v" by simp
  with that [of v] v False show thesis
    by (auto simp: BuildValue_outputs_def getOutputInfo_def kindHasStringList_def kindHasOutputInfo_def
        isDirectoryContents_value_def hasMultipleOutputs_def BuildValue_kind_def Let_def bind_eq_Some_conv
        split: if_splits)
qed

text \<open>
  C9: incremental builds see every change of a source file. The task of a file input stores
  what the file system says of the file. In a later build, with the file system in any other
  state, the stored value is accepted exactly if the file was missing and still is, or was
  there and still is with the same device, inode, size, modification time and checksum.
\<close>

theorem file_input_revalidation:
  assumes task: "ruleTask sp c key = Some (FileInputNodeTask node)"
    and info: "info = fs_getFileInfo (sp_FS sp) (bs_fs c) (dropTrailingSlash (node_name node))" "fileInfo_ok info"
    and info': "info' = fs_getFileInfo (sp_FS sp) fs' (dropTrailingSlash (node_name node))"
  shows "\<exists>d. bsInputsAvailable sp t (FileInputNodeTask node) c = CompleteTask d False (Return c) \<and>
    rule_isResultValid sp (c\<lparr>bs_fs := fs'\<rparr>) key d =
      Some (if isMissing info' then isMissing info else \<not> isMissing info \<and> fileInfo_eq info info')"
proof -
  obtain v where v: "fileInputValue info = Some v" "value_ok v" "\<not> kindHasStringList v"
      "bv_kind v = (if isMissing info then Kind_MissingInput else Kind_ExistingInput)"
      "\<not> isMissing info \<longrightarrow> getOutputInfo v = Some info"
    using fileInputValue_stored [OF info(2)] .
  obtain d where d: "toData v = Some d" "fromData d = Some v"
    using toData_fromData [OF v(2)] v(3) by (metis value_normal_def)
  have "getFileInfo_node (sp_FS sp) (bs_fs c) node = Some info" "getFileInfo_node (sp_FS sp) fs' node = Some info'"
    using fileInputNode_plain [OF task] info info' by (simp_all add: getFileInfo_node_def)
  with task v d show ?thesis
    by (simp add: inputsAvailable_defs isResultValid_defs completeWith_def rule_isResultValid_def fileInput_isResultValid_def)
qed

definition file_key :: "byte list" where
  "file_key = makeNode (bytes ''a.c'')"

theorem file_input_revalidation_witness:
  "\<exists>d. bsInputsAvailable memory_params 0 (FileInputNodeTask (createNode ''a.c'')) (empty_system [(''a.c'', memory_file 3)])
       = CompleteTask d False (Return (empty_system [(''a.c'', memory_file 3)])) \<and>
     rule_isResultValid memory_params (empty_system [(''a.c'', memory_file 4)]) file_key d = Some False"
proof -
  have task: "ruleTask memory_params (empty_system [(''a.c'', memory_file 3)]) file_key
      = Some (FileInputNodeTask (createNode ''a.c''))"
    by code_simp
  have ok: "fileInfo_ok (fs_getFileInfo (sp_FS memory_params) (bs_fs (empty_system [(''a.c'', memory_file 3)]))
      (dropTrailingSlash (node_name (createNode ''a.c''))))"
    by code_simp
  have fs: "(empty_system [(''a.c'', memory_file 3)])\<lparr>bs_fs := [(''a.c'', memory_file 4)]\<rparr> = empty_system [(''a.c'', memory_file 4)]"
    by (simp add: empty_system_def)
  have changed: "(if isMissing (fs_getFileInfo (sp_FS memory_params) [(''a.c'', memory_file 4)] (dropTrailingSlash (node_name (createNode ''a.c''))))
      then isMissing (fs_getFileInfo (sp_FS memory_params) (bs_fs (empty_system [(''a.c'', memory_file 3)])) (dropTrailingSlash (node_name (createNode ''a.c''))))
      else \<not> isMissing (fs_getFileInfo (sp_FS memory_params) (bs_fs (empty_system [(''a.c'', memory_file 3)])) (dropTrailingSlash (node_name (createNode ''a.c'')))) \<and>
        fileInfo_eq (fs_getFileInfo (sp_FS memory_params) (bs_fs (empty_system [(''a.c'', memory_file 3)])) (dropTrailingSlash (node_name (createNode ''a.c''))))
          (fs_getFileInfo (sp_FS memory_params) [(''a.c'', memory_file 4)] (dropTrailingSlash (node_name (createNode ''a.c''))))) = False"
    by code_simp
  show ?thesis
    using file_input_revalidation [OF task refl ok refl, of 0 "[(''a.c'', memory_file 4)]", unfolded fs changed] .
qed

lemma bytes_no_null: "0 \<in> set (bytes s) \<longleftrightarrow> CHR 0x00 \<in> set s"
proof -
  have "word_of_nat (of_char x) = (0 :: byte) \<longleftrightarrow> x = CHR 0x00" for x :: char
    using bytes_inject [of "[x]" "[CHR 0x00]"] by (simp add: bytes_def)
  then show ?thesis by (force simp: bytes_def)
qed

lemma directoryContents_stored:
  assumes "fileInfo_ok info" "list_all (\<lambda>name. CHR 0x00 \<notin> set name) names" "packed_size (map bytes names) < 2 ^ 64"
  obtains v d where "makeDirectoryContents_value info (map bytes names) = Some v" "toData v = Some d"
    "fromData d = Some (value_normal v)" "bv_kind (value_normal v) = Kind_DirectoryContents"
    "getOutputInfo (value_normal v) = Some info" "getDirectoryContents_value (value_normal v) = Some names"
proof -
  have "\<forall>v \<in> set (map bytes names). 0 \<notin> set v" using assms(2) by (auto simp: list_all_iff bytes_no_null)
  then obtain sl where sl: "StringList_of_values (map bytes names) = Some sl"
    using pack_values_Some by (fastforce simp: StringList_of_values_def)
  define v where "v = \<lparr>bv_kind = Kind_DirectoryContents, numOutputInfos = 1, bv_signature = 0,
    valueData = AsOutputInfo info, stringValues = sl\<rparr>"
  with sl have v: "makeDirectoryContents_value info (map bytes names) = Some v" "bv_kind v = Kind_DirectoryContents"
      "numOutputInfos v = 1" "valueData v = AsOutputInfo info" "bv_signature v = 0" "stringValues v = sl"
    by (simp_all add: makeDirectoryContents_value_def BuildValue_directory_def BuildValue_outputs_def
        kindHasStringList_def isDirectoryContents_value_def Let_def)
  note kinds = kindHasStringList_def kindHasOutputInfo_def kindHasSignature_def isDirectoryContents_value_def
    isSuccessfulCommand_def
  have "sl_size sl < 2 ^ 64" using assms(3) StringList_of_values_eq(2) [OF sl] by simp
  with v assms(1) sl_bytes_of_values(1) [OF sl] have ok: "value_ok v"
    by (simp add: value_ok_def infos_ok_def strings_ok_def value_infos_def all_kinds_def kinds)
  obtain d where "toData v = Some d" "fromData d = Some (value_normal v)" using toData_fromData [OF ok] .
  with that [of v d] v sl_bytes_of_values(2) [OF sl] show thesis
    by (simp add: value_normal_def getOutputInfo_def getDirectoryContents_value_def getStringListValues_def
        hasMultipleOutputs_def kinds comp_def)
qed

text \<open>
  C10: incremental builds see every change of a directory listing. The task for the contents of
  a directory that exists stores its information and the sorted listing. In a later build, with
  the file system in any other state, the stored value is accepted exactly if the path still
  exists and is still a directory with the same listing, or still is no directory and has the
  same file information.
\<close>

theorem directory_contents_revalidation:
  assumes task: "ruleTask sp c key = Some (DirectoryContentsTask path v0)"
    and v: "bv_kind v = Kind_ExistingInput" "getOutputInfo v = Some info" "fileInfo_ok info"
    and names: "list_all (\<lambda>name. CHR 0x00 \<notin> set name) (getContents sp (bs_fs c) path)"
      "packed_size (map bytes (getContents sp (bs_fs c) path)) < 2 ^ 64"
    and info': "info' = fs_getFileInfo (sp_FS sp) fs' path"
  shows "\<exists>d. bsInputsAvailable sp t (DirectoryContentsTask path v) c = CompleteTask d False (Return c) \<and>
    rule_isResultValid sp (c\<lparr>bs_fs := fs'\<rparr>) key d =
      Some (\<not> isMissing info' \<and> isDirectory info' = isDirectory info \<and>
        (if isDirectory info then getContents sp fs' path = getContents sp (bs_fs c) path
         else fileInfo_eq info info'))"
proof -
  obtain w d where "makeDirectoryContents_value info (map bytes (getContents sp (bs_fs c) path)) = Some w"
      "toData w = Some d" "fromData d = Some (value_normal w)" "bv_kind (value_normal w) = Kind_DirectoryContents"
      "getOutputInfo (value_normal w) = Some info"
      "getDirectoryContents_value (value_normal w) = Some (getContents sp (bs_fs c) path)"
    using directoryContents_stored [OF v(3) names] .
  with task v info' show ?thesis
    by (auto simp: inputsAvailable_defs isResultValid_defs completeWith_def directoryContentsResult_def rule_isResultValid_def
        directoryContents_isResultValid_def Let_def)
qed

definition listing_key :: "byte list" where
  "listing_key = makeDirectoryContents (bytes ''src'')"

definition listing_fs :: memory_fs where
  "listing_fs = [(''src'', memory_dir), (''src/b'', memory_file 3), (''src/a'', memory_file 4)]"

theorem directory_contents_revalidation_witness:
  "\<exists>d. bsInputsAvailable memory_params 0 (DirectoryContentsTask ''src'' (the (makeExistingInput memory_dir))) (empty_system listing_fs)
       = CompleteTask d False (Return (empty_system listing_fs)) \<and>
     rule_isResultValid memory_params (empty_system ((''src/c'', memory_file 5) # listing_fs)) listing_key d = Some False"
proof -
  have task: "ruleTask memory_params (empty_system listing_fs) listing_key
      = Some (DirectoryContentsTask ''src'' (make_plain Kind_Invalid))"
    by code_simp
  have v: "bv_kind (the (makeExistingInput memory_dir)) = Kind_ExistingInput"
      "getOutputInfo (the (makeExistingInput memory_dir)) = Some memory_dir" "fileInfo_ok memory_dir"
    by code_simp+
  have listing: "getContents memory_params (bs_fs (empty_system listing_fs)) ''src'' = [''a'', ''b'']"
    by code_simp
  have names: "list_all (\<lambda>name. CHR 0x00 \<notin> set name) (getContents memory_params (bs_fs (empty_system listing_fs)) ''src'')"
      "packed_size (map bytes (getContents memory_params (bs_fs (empty_system listing_fs)) ''src'')) < 2 ^ 64"
    unfolding listing by (simp_all add: bytes_def)
  have fs: "(empty_system listing_fs)\<lparr>bs_fs := (''src/c'', memory_file 5) # listing_fs\<rparr> = empty_system ((''src/c'', memory_file 5) # listing_fs)"
    by (simp add: empty_system_def)
  have info: "fs_getFileInfo (sp_FS memory_params) ((''src/c'', memory_file 5) # listing_fs) ''src'' = memory_dir"
    by code_simp
  have changed: "(\<not> isMissing memory_dir \<and> isDirectory memory_dir = isDirectory memory_dir \<and>
      (if isDirectory memory_dir then getContents memory_params ((''src/c'', memory_file 5) # listing_fs) ''src''
          = getContents memory_params (bs_fs (empty_system listing_fs)) ''src''
       else fileInfo_eq memory_dir memory_dir)) = False"
    by code_simp
  show ?thesis
    using directory_contents_revalidation [OF task v names refl, of 0 "(''src/c'', memory_file 5) # listing_fs",
        unfolded fs info changed] .
qed

section \<open>Failed assertions\<close>

text \<open>
  When the contents of a directory are a failed input, the signature task records it and
  completes; the structure signature task takes the value for a list of names, and the
  assertion in the accessor fails.
\<close>

lemma structure_signature_failed_input:
  assumes "fromData vdata = Some (make_plain Kind_FailedInput)"
  shows "bsProvideValue sp t (DirectoryTreeStructureSignatureTask path filters dv ch) 0 key vdata c = abort c"
    "bsProvideValue sp t (DirectoryTreeSignatureTask path filters dv ch) 0 key vdata c =
       Return (setTask t (DirectoryTreeSignatureTask path filters vdata ch) c)"
  using assms by (simp_all add: provideValue_defs getDirectoryContents_value_def make_plain_def BuildValue_kind_def)

end
