(* ===== verification/SQLiteBuildDB.thy ===== *)
theory SQLiteBuildDB
  imports BuildEngineState BinaryCoding
begin

text \<open>
  The build database of \<^verbatim>\<open>lib/Core/SQLiteBuildDB.cpp\<close>. The tables of the schema are association
  lists, and every SQL statement of the code is a function on them with its documented effect.
  The SQLite library itself is the record \<open>sqlite\<close>: whether a statement fails and with which
  message, what the column type of \<^verbatim>\<open>key\<close> makes of a text, and what \<^verbatim>\<open>unlink\<close> does.

  \<open>db_file\<close> is what is committed to disk and \<open>db_tables\<close> what the open connection sees; they
  differ inside a transaction. A call that uses a null handle or a null prepared statement, and
  a failed assertion, is \<^term>\<open>None\<close>. An operation returns its error message, empty if it succeeded.
\<close>

section \<open>Tables and the state of the object\<close>

record RuleRow =
  row_value :: ValueType
  row_signature :: u64
  row_built_at :: u64
  row_computed_at :: u64
  row_start :: Timestamp
  row_end :: Timestamp
  row_dependencies :: "byte list"

record Tables =
  info_version :: int
  info_client_version :: u32
  info_iteration :: u64
  key_names :: "(u64 \<times> KeyType) list"
  rule_results :: "(u64 \<times> RuleRow) list"

type_synonym DBKeyID = u64

text \<open>\<open>db_file\<close> is \<^term>\<open>None\<close> for a missing or empty file.\<close>

record SQLiteBuildDB =
  db_file :: "Tables option"
  db_tables :: "Tables option"
  db_handle :: bool
  db_prepared :: bool
  db_inTransaction :: bool
  db_lastRowid :: u64
  engineKeyIDs :: "(DBKeyID \<times> KeyID) list"
  dbKeyIDs :: "(KeyID \<times> DBKeyID) list"

definition newSQLiteBuildDB :: "Tables option \<Rightarrow> SQLiteBuildDB" where
  "newSQLiteBuildDB file = \<lparr>db_file = file, db_tables = None, db_handle = False, db_prepared = False,
     db_inTransaction = False, db_lastRowid = 0, engineKeyIDs = [], dbKeyIDs = []\<rparr>"

section \<open>The library\<close>

datatype statement =
    SelectVersion | CreateSchema | PrepareStatements | SelectIteration | UpdateIteration
  | FindRuleResult | FastFindRuleResult | FindKeyIDForKey | FindKeyNameForKeyID
  | InsertIntoKeys | InsertIntoRuleResults | BeginExclusive | EndTransaction | SelectKeys
  | GetKeysWithResult

datatype unlink_result = Unlinked | NoSuchFile | UnlinkFailed string

text \<open>
  \<open>sq_error\<close>: the message of a statement that fails, and whether the cause is a locked database.
  \<open>sq_key\<close>: a text as stored in the column \<^verbatim>\<open>key STRING\<close>, which has numeric affinity: a text that
  looks like a number is stored as the number. The last four fields are the arguments of the
  constructor and the delegate, which maps the key identifiers of the engine.
\<close>

record sqlite =
  sq_error :: "Tables option \<Rightarrow> statement \<Rightarrow> (string \<times> bool) option"
  sq_openError :: "string option"
  sq_reopenError :: "(string \<times> bool) option"
  sq_notThreadSafe :: bool
  sq_key :: "KeyType \<Rightarrow> KeyType"
  sq_unlink :: unlink_result
  sq_path :: string
  clientSchemaVersion :: u32
  recreateOnUnmatchedVersion :: bool
  delegate_getKeyID :: "KeyType \<Rightarrow> KeyID"
  delegate_getKeyForID :: "KeyID \<Rightarrow> KeyType"

definition currentSchemaVersion :: int where
  "currentSchemaVersion = 17"

definition getCurrentErrorMessage :: "sqlite \<Rightarrow> string \<times> bool \<Rightarrow> string" where
  "getCurrentErrorMessage sq err =
     ''error: accessing build database '' @ [CHR 0x22] @ sq_path sq @ [CHR 0x22] @ '': '' @ fst err
       @ (if snd err then '' Possibly there are two concurrent builds running in the same filesystem location.''
          else [])"

text \<open>\<^verbatim>\<open>std::to_string\<close>.\<close>

fun digits :: "nat \<Rightarrow> string" where
  "digits n = (if n < 10 then [char_of (48 + n)] else digits (n div 10) @ [char_of (48 + n mod 10)])"

definition decimal :: "int \<Rightarrow> string" where
  "decimal i = (if i < 0 then CHR ''-'' # digits (nat (- i)) else digits (nat i))"

section \<open>Opening and closing\<close>

definition freshTables :: "sqlite \<Rightarrow> Tables" where
  "freshTables sq = \<lparr>info_version = currentSchemaVersion, info_client_version = clientSchemaVersion sq,
     info_iteration = 0, key_names = [], rule_results = []\<rparr>"

definition stored_version :: "Tables option \<Rightarrow> int \<times> u32" where
  "stored_version file = (case file of None \<Rightarrow> (-1, 0) | Some T \<Rightarrow> (info_version T, info_client_version T))"

definition mismatch_message :: "sqlite \<Rightarrow> int \<times> u32 \<Rightarrow> string" where
  "mismatch_message sq v =
     ''Version mismatch. (database-schema: '' @ decimal (fst v) @ '' requested schema: ''
       @ decimal currentSchemaVersion @ ''. database-client: '' @ digits (unat (snd v))
       @ '' requested client: '' @ digits (unat (clientSchemaVersion sq)) @ '')''"

text \<open>\<^verbatim>\<open>sqlite3_prepare_v2\<close> of the eight statements the object keeps.\<close>

definition prepareStatements :: "sqlite \<Rightarrow> SQLiteBuildDB \<Rightarrow> (string \<times> SQLiteBuildDB) option" where
  "prepareStatements sq d =
     (case sq_error sq (db_tables d) PrepareStatements of
        Some e \<Rightarrow> Some (getCurrentErrorMessage sq e, d)
      | None \<Rightarrow> Some ([], d\<lparr>db_prepared := True\<rparr>))"

text \<open>
  After the connection has been closed: the file is removed and created anew. When there is no
  file to remove the handle stays null, and the statements that create the schema use it.
\<close>

definition recreateDatabase :: "sqlite \<Rightarrow> SQLiteBuildDB \<Rightarrow> (string \<times> SQLiteBuildDB) option" where
  "recreateDatabase sq d =
     (case sq_unlink sq of
        UnlinkFailed e \<Rightarrow> Some (''unable to unlink existing database: '' @ e, d)
      | NoSuchFile \<Rightarrow> None
      | Unlinked \<Rightarrow>
          (let d = d\<lparr>db_file := None, db_tables := None\<rparr>
           in case sq_reopenError sq of
                Some e \<Rightarrow> Some (getCurrentErrorMessage sq e, d\<lparr>db_handle := True\<rparr>)
              | None \<Rightarrow>
                  (case sq_error sq None CreateSchema of
                     Some e \<Rightarrow> Some (''unable to initialize database ('' @ fst e @ '')'', d)
                   | None \<Rightarrow> prepareStatements sq (d\<lparr>db_handle := True, db_file := Some (freshTables sq),
                       db_tables := Some (freshTables sq)\<rparr>))))"

definition open_db :: "sqlite \<Rightarrow> SQLiteBuildDB \<Rightarrow> (string \<times> SQLiteBuildDB) option" where
  "open_db sq d =
     (if db_handle d then Some ([], d)
      else if sq_notThreadSafe sq then Some (''unable to configure database: not thread-safe'', d)
      else (case sq_openError sq of
        Some e \<Rightarrow> Some (''unable to open database: '' @ e, d\<lparr>db_handle := True\<rparr>)
      | None \<Rightarrow>
          (let d = d\<lparr>db_handle := True, db_tables := db_file d\<rparr>
           in case sq_error sq (db_tables d) SelectVersion of
                Some e \<Rightarrow> Some (getCurrentErrorMessage sq e, d)
              | None \<Rightarrow>
                  (let v = stored_version (db_tables d)
                   in if v = (currentSchemaVersion, clientSchemaVersion sq) then prepareStatements sq d
                      else (let d = d\<lparr>db_handle := False\<rparr>
                            in if recreateOnUnmatchedVersion sq then recreateDatabase sq d
                               else Some (mismatch_message sq v, d))))))"

definition close_db :: "SQLiteBuildDB \<Rightarrow> SQLiteBuildDB" where
  "close_db d =
     (if db_handle d
      then d\<lparr>db_handle := False, db_prepared := False, db_inTransaction := False, db_tables := None\<rparr>
      else d)"

section \<open>Running statements\<close>

text \<open>
  A prepared statement that is null is a fault. A write outside a transaction is committed at
  once.
\<close>

definition with_open ::
  "sqlite \<Rightarrow> SQLiteBuildDB \<Rightarrow> (string \<Rightarrow> 'a) \<Rightarrow> (SQLiteBuildDB \<Rightarrow> ('a \<times> SQLiteBuildDB) option)
     \<Rightarrow> ('a \<times> SQLiteBuildDB) option" where
  "with_open sq d failed body = do {
     (error, d) \<leftarrow> open_db sq d;
     if error \<noteq> [] then Some (failed error, d) else body d
   }"

definition commitWrite :: "Tables \<Rightarrow> SQLiteBuildDB \<Rightarrow> SQLiteBuildDB" where
  "commitWrite T d =
     (if db_inTransaction d then d\<lparr>db_tables := Some T\<rparr> else d\<lparr>db_tables := Some T, db_file := Some T\<rparr>)"

text \<open>\<^verbatim>\<open>getCurrentEpoch\<close>, \<^verbatim>\<open>setCurrentIteration\<close>: statements prepared on the spot.\<close>

definition getCurrentEpoch_db :: "sqlite \<Rightarrow> SQLiteBuildDB \<Rightarrow> ((Epoch \<times> bool \<times> string) \<times> SQLiteBuildDB) option" where
  "getCurrentEpoch_db sq d = with_open sq d (\<lambda>e. (0, False, e)) (\<lambda>d.
     (case sq_error sq (db_tables d) SelectIteration of
        Some e \<Rightarrow> Some ((0, False, getCurrentErrorMessage sq e), d)
      | None \<Rightarrow> do { T \<leftarrow> db_tables d; Some ((unat (info_iteration T), True, []), d) }))"

definition setCurrentIteration :: "sqlite \<Rightarrow> Epoch \<Rightarrow> SQLiteBuildDB \<Rightarrow> (string \<times> SQLiteBuildDB) option" where
  "setCurrentIteration sq epoch d = with_open sq d id (\<lambda>d.
     (case sq_error sq (db_tables d) UpdateIteration of
        Some e \<Rightarrow> Some (getCurrentErrorMessage sq e, d)
      | None \<Rightarrow> do { T \<leftarrow> db_tables d; Some ([], commitWrite (T\<lparr>info_iteration := of_nat epoch\<rparr>) d) }))"

section \<open>Key identifiers\<close>

definition cacheKey :: "DBKeyID \<Rightarrow> KeyID \<Rightarrow> SQLiteBuildDB \<Rightarrow> SQLiteBuildDB" where
  "cacheKey dbKeyID keyID d =
     d\<lparr>engineKeyIDs := AList.update dbKeyID keyID (engineKeyIDs d),
       dbKeyIDs := AList.update keyID dbKeyID (dbKeyIDs d)\<rparr>"

text \<open>\<^verbatim>\<open>SELECT id FROM key_names WHERE key == ? LIMIT 1\<close>.\<close>

definition find_key :: "sqlite \<Rightarrow> Tables \<Rightarrow> KeyType \<Rightarrow> DBKeyID option" where
  "find_key sq T key = map_option fst (List.find (\<lambda>(i, k). k = sq_key sq key) (key_names T))"

text \<open>The row identifier SQLite chooses: one more than the largest.\<close>

definition next_rowid :: "Tables \<Rightarrow> DBKeyID" where
  "next_rowid T = fold max (map fst (key_names T)) 0 + 1"

text \<open>\<^verbatim>\<open>INSERT OR IGNORE INTO key_names(key) VALUES (?)\<close> and \<^verbatim>\<open>sqlite3_last_insert_rowid\<close>.\<close>

definition insert_key :: "sqlite \<Rightarrow> Tables \<Rightarrow> KeyType \<Rightarrow> SQLiteBuildDB \<Rightarrow> SQLiteBuildDB" where
  "insert_key sq T key d =
     (if find_key sq T key \<noteq> None then d
      else (commitWrite (T\<lparr>key_names := key_names T @ [(next_rowid T, sq_key sq key)]\<rparr>) d)
             \<lparr>db_lastRowid := next_rowid T\<rparr>)"

definition getKeyIDFromDB ::
  "sqlite \<Rightarrow> KeyID \<Rightarrow> SQLiteBuildDB \<Rightarrow> ((DBKeyID \<times> string) \<times> SQLiteBuildDB) option" where
  "getKeyIDFromDB sq keyID d = do {
     T \<leftarrow> db_tables d;
     assert_that (db_prepared d);
     let key = delegate_getKeyForID sq keyID;
     (case (if sq_error sq (Some T) FindKeyIDForKey = None then find_key sq T key else None) of
        Some i \<Rightarrow> Some ((i, []), d)
      | None \<Rightarrow>
          (case sq_error sq (Some T) InsertIntoKeys of
             Some e \<Rightarrow> Some ((0, getCurrentErrorMessage sq e), d)
           | None \<Rightarrow> (let d = insert_key sq T key d in Some ((db_lastRowid d, []), d))))
   }"

definition getKeyID_db ::
  "sqlite \<Rightarrow> KeyID \<Rightarrow> SQLiteBuildDB \<Rightarrow> ((DBKeyID \<times> string) \<times> SQLiteBuildDB) option" where
  "getKeyID_db sq keyID d =
     (case map_of (dbKeyIDs d) keyID of
        Some i \<Rightarrow> Some ((i, []), d)
      | None \<Rightarrow> do {
          ((i, error), d) \<leftarrow> getKeyIDFromDB sq keyID d;
          Some ((i, error), if i \<noteq> 0 then cacheKey i keyID d else d)
        })"

text \<open>\<^verbatim>\<open>SELECT key FROM key_names WHERE id == ? LIMIT 1\<close>; no row is reported as an error.\<close>

definition getKeyIDForID ::
  "sqlite \<Rightarrow> DBKeyID \<Rightarrow> SQLiteBuildDB \<Rightarrow> ((KeyID \<times> string) \<times> SQLiteBuildDB) option" where
  "getKeyIDForID sq dbKeyID d =
     (case map_of (engineKeyIDs d) dbKeyID of
        Some keyID \<Rightarrow> Some ((keyID, []), d)
      | None \<Rightarrow> do {
          T \<leftarrow> db_tables d;
          assert_that (db_prepared d);
          (case (sq_error sq (Some T) FindKeyNameForKeyID, map_of (key_names T) dbKeyID) of
             (Some e, _) \<Rightarrow> Some (([], getCurrentErrorMessage sq e), d)
           | (None, None) \<Rightarrow> Some (([], getCurrentErrorMessage sq (''no more rows available'', False)), d)
           | (None, Some key) \<Rightarrow>
               (let keyID = delegate_getKeyID sq key in Some ((keyID, []), cacheKey dbKeyID keyID d)))
        })"

section \<open>Results\<close>

definition raw_dependency :: "DBKeyID \<Rightarrow> bool \<Rightarrow> bool \<Rightarrow> u64" where
  "raw_dependency i orderOnly singleUse =
     push_bit 2 i + push_bit 1 (of_bool singleUse) + of_bool orderOnly"

text \<open>The loop that decodes the dependencies \<open>i\<close>, \<open>i + 1\<close>, ... into a list of the right size.\<close>

primrec decodeDependencies ::
  "sqlite \<Rightarrow> nat \<Rightarrow> nat \<Rightarrow> BinaryDecoder \<Rightarrow> KeyID DependencyKeyIDs \<Rightarrow> SQLiteBuildDB
     \<Rightarrow> ((KeyID DependencyKeyIDs \<times> string) \<times> SQLiteBuildDB) option" where
  "decodeDependencies sq 0 i decoder deps d = Some ((deps, []), d)"
| "decodeDependencies sq (Suc n) i decoder deps d = do {
     (raw, decoder) \<leftarrow> read64 decoder;
     ((keyID, error), d) \<leftarrow> getKeyIDForID sq (drop_bit 2 raw) d;
     if error \<noteq> [] then Some ((deps, error), d)
     else do {
       deps \<leftarrow> set_deps i keyID (raw AND 1 \<noteq> 0) (drop_bit 1 raw AND 1 \<noteq> 0) deps;
       decodeDependencies sq n (i + 1) decoder deps d
     }
   }"

definition readDependencies ::
  "sqlite \<Rightarrow> DBKeyID \<Rightarrow> byte list \<Rightarrow> SQLiteBuildDB
     \<Rightarrow> ((KeyID DependencyKeyIDs \<times> string) \<times> SQLiteBuildDB) option" where
  "readDependencies sq dbKeyID blob d =
     (let n = length blob div 8
      in if length blob \<noteq> n * 8
         then Some ((empty_deps, ''unexpected contents for database result: '' @ decimal (sint (ucast dbKeyID :: u32))), d)
         else decodeDependencies sq n 0 \<lparr>data = blob, pos = 0\<rparr> (resize_deps [] n empty_deps) d)"

definition row_result :: "RuleRow \<Rightarrow> KeyID DependencyKeyIDs \<Rightarrow> Result" where
  "row_result row deps = \<lparr>res_value = row_value row, res_signature = row_signature row,
     computedAt = unat (row_computed_at row), builtAt = unat (row_built_at row), dependencies = deps,
     res_start = row_start row, res_end = row_end row\<rparr>"

text \<open>
  The row for a key: by its identifier if that is known, otherwise by a join with the names, in
  which case the identifier is remembered.
\<close>

definition findRow ::
  "sqlite \<Rightarrow> KeyID \<Rightarrow> KeyType \<Rightarrow> SQLiteBuildDB
     \<Rightarrow> (((DBKeyID \<times> RuleRow) option \<times> string) \<times> SQLiteBuildDB) option" where
  "findRow sq keyID key d = do {
     T \<leftarrow> db_tables d;
     assert_that (db_prepared d);
     (case map_of (dbKeyIDs d) keyID of
        Some i \<Rightarrow>
          (case sq_error sq (Some T) FastFindRuleResult of
             Some e \<Rightarrow> Some ((None, getCurrentErrorMessage sq e), d)
           | None \<Rightarrow> Some ((map_option (Pair i) (map_of (rule_results T) i), []), d))
      | None \<Rightarrow>
          (case sq_error sq (Some T) FindRuleResult of
             Some e \<Rightarrow> Some ((None, getCurrentErrorMessage sq e), d)
           | None \<Rightarrow>
               (case find_key sq T key \<bind> (\<lambda>i. map_option (Pair i) (map_of (rule_results T) i)) of
                  None \<Rightarrow> Some ((None, []), d)
                | Some (i, row) \<Rightarrow> Some ((Some (i, row), []), cacheKey i keyID d))))
   }"

definition lookupRuleResult ::
  "sqlite \<Rightarrow> KeyID \<Rightarrow> KeyType \<Rightarrow> SQLiteBuildDB \<Rightarrow> ((Result option \<times> string) \<times> SQLiteBuildDB) option" where
  "lookupRuleResult sq keyID key d = with_open sq d (Pair None) (\<lambda>d. do {
     ((found, error), d) \<leftarrow> findRow sq keyID key d;
     (case found of
        None \<Rightarrow> Some ((None, error), d)
      | Some (i, row) \<Rightarrow> do {
          ((deps, error), d) \<leftarrow> readDependencies sq i (row_dependencies row) d;
          if error \<noteq> [] then Some ((None, error), d) else Some ((Some (row_result row deps), []), d)
        })
   })"

primrec encodeDependencies ::
  "sqlite \<Rightarrow> KeyID dep_entry list \<Rightarrow> byte list \<Rightarrow> SQLiteBuildDB
     \<Rightarrow> ((byte list \<times> string) \<times> SQLiteBuildDB) option" where
  "encodeDependencies sq [] encoder d = Some ((encoder, []), d)"
| "encodeDependencies sq (e # es) encoder d = do {
     ((i, error), d) \<leftarrow> getKeyID_db sq (fst e) d;
     if error \<noteq> [] then Some ((encoder, error), d)
     else encodeDependencies sq es (write_u64 (raw_dependency i (fst (snd e)) (snd (snd e))) encoder) d
   }"

definition result_row :: "Result \<Rightarrow> byte list \<Rightarrow> RuleRow" where
  "result_row res blob = \<lparr>row_value = res_value res, row_signature = res_signature res,
     row_built_at = of_nat (builtAt res), row_computed_at = of_nat (computedAt res),
     row_start = res_start res, row_end = res_end res, row_dependencies = blob\<rparr>"

text \<open>\<^verbatim>\<open>INSERT OR REPLACE INTO rule_results\<close>.\<close>

definition insertRow :: "sqlite \<Rightarrow> DBKeyID \<Rightarrow> RuleRow \<Rightarrow> SQLiteBuildDB \<Rightarrow> (string \<times> SQLiteBuildDB) option" where
  "insertRow sq i row d = do {
     T \<leftarrow> db_tables d;
     assert_that (db_prepared d);
     (case sq_error sq (Some T) InsertIntoRuleResults of
        Some e \<Rightarrow> Some (getCurrentErrorMessage sq e, d)
      | None \<Rightarrow> Some ([], commitWrite (T\<lparr>rule_results := AList.update i row (rule_results T)\<rparr>) d))
   }"

definition setRuleResult :: "sqlite \<Rightarrow> KeyID \<Rightarrow> Result \<Rightarrow> SQLiteBuildDB \<Rightarrow> (string \<times> SQLiteBuildDB) option" where
  "setRuleResult sq keyID res d = with_open sq d id (\<lambda>d. do {
     ((i, error), d) \<leftarrow> getKeyID_db sq keyID d;
     if error \<noteq> [] then Some (error, d)
     else do {
       ((blob, error), d) \<leftarrow> encodeDependencies sq (deps_entries (dependencies res)) [] d;
       if error \<noteq> [] then Some (error, d) else insertRow sq i (result_row res blob) d
     }
   })"

section \<open>Builds and listings\<close>

definition buildStarted_db :: "sqlite \<Rightarrow> SQLiteBuildDB \<Rightarrow> (string \<times> SQLiteBuildDB) option" where
  "buildStarted_db sq d = with_open sq d id (\<lambda>d.
     (case sq_error sq (db_tables d) BeginExclusive of
        Some e \<Rightarrow> Some (getCurrentErrorMessage sq e, d)
      | None \<Rightarrow> if db_inTransaction d
                then Some (getCurrentErrorMessage sq (''cannot start a transaction within a transaction'', False), d)
                else Some ([], d\<lparr>db_inTransaction := True\<rparr>)))"

definition buildComplete_db :: "sqlite \<Rightarrow> SQLiteBuildDB \<Rightarrow> SQLiteBuildDB option" where
  "buildComplete_db sq d = do {
     assert_that (db_handle d \<and> db_inTransaction d \<and> sq_error sq (db_tables d) EndTransaction = None);
     Some (close_db (d\<lparr>db_file := db_tables d\<rparr>))
   }"

definition getKeys_db :: "sqlite \<Rightarrow> SQLiteBuildDB \<Rightarrow> ((KeyType list \<times> string) \<times> SQLiteBuildDB) option" where
  "getKeys_db sq d = with_open sq d (Pair []) (\<lambda>d.
     (case sq_error sq (db_tables d) SelectKeys of
        Some e \<Rightarrow> Some (([], getCurrentErrorMessage sq e), d)
      | None \<Rightarrow> do { T \<leftarrow> db_tables d; Some ((map snd (key_names T), []), d) }))"

text \<open>The loop over the rows of the join, in the order of \<open>rule_results\<close>.\<close>

primrec collectResults ::
  "sqlite \<Rightarrow> (DBKeyID \<times> RuleRow) list \<Rightarrow> (KeyType \<times> Result) list \<Rightarrow> SQLiteBuildDB
     \<Rightarrow> (((KeyType \<times> Result) list \<times> string) \<times> SQLiteBuildDB) option" where
  "collectResults sq [] out d = Some ((out, []), d)"
| "collectResults sq (r # rows) out d = do {
     T \<leftarrow> db_tables d;
     (case map_of (key_names T) (fst r) of
        None \<Rightarrow> collectResults sq rows out d
      | Some key \<Rightarrow> do {
          ((deps, error), d) \<leftarrow> readDependencies sq (fst r) (row_dependencies (snd r))
             (cacheKey (fst r) (delegate_getKeyID sq key) d);
          if error \<noteq> [] then Some ((out, error), d)
          else collectResults sq rows (out @ [(key, row_result (snd r) deps)]) d
        })
   }"

definition getKeysWithResult ::
  "sqlite \<Rightarrow> SQLiteBuildDB \<Rightarrow> (((KeyType \<times> Result) list \<times> string) \<times> SQLiteBuildDB) option" where
  "getKeysWithResult sq d = with_open sq d (Pair []) (\<lambda>d. do {
     T \<leftarrow> db_tables d;
     assert_that (db_prepared d);
     (case sq_error sq (Some T) GetKeysWithResult of
        Some e \<Rightarrow> Some (([], []), d)
      | None \<Rightarrow> collectResults sq (rule_results T) [] d)
   })"

end
