(* ===== verification/SQLiteBuildDBProps.thy ===== *)
theory SQLiteBuildDBProps
  imports SQLiteBuildDB
begin

text \<open>
  The build database implements a finite map from keys to results, also across the caches of
  key identifiers, and a build is one transaction. The contract is the locale \<open>result_store\<close>;
  the locale \<open>working_sqlite\<close> assumes that the library reports no errors, and the database
  operations implement the contract there.
\<close>

section \<open>The contract of a result store\<close>

datatype db_op = LookupResult KeyID | StoreResult KeyID Result

text \<open>The same operations on a map, which is the specification.\<close>

fun spec_op :: "(Result \<Rightarrow> Result) \<Rightarrow> db_op \<Rightarrow> (KeyID \<rightharpoonup> Result) \<Rightarrow> Result option list \<times> (KeyID \<rightharpoonup> Result)" where
  "spec_op norm (LookupResult k) m = ([m k], m)"
| "spec_op norm (StoreResult k r) m = ([], m(k \<mapsto> norm r))"

primrec spec_ops ::
  "(Result \<Rightarrow> Result) \<Rightarrow> db_op list \<Rightarrow> (KeyID \<rightharpoonup> Result) \<Rightarrow> Result option list \<times> (KeyID \<rightharpoonup> Result)" where
  "spec_ops norm [] m = ([], m)"
| "spec_ops norm (oper # ops) m =
     (case spec_op norm oper m of (out, m) \<Rightarrow> case spec_ops norm ops m of (outs, m) \<Rightarrow> (out @ outs, m))"

text \<open>Operations run one after the other, with the results of the lookups.\<close>

fun run_op ::
  "(KeyID \<Rightarrow> 'd \<Rightarrow> (Result option \<times> 'd) option) \<Rightarrow> (KeyID \<Rightarrow> Result \<Rightarrow> 'd \<Rightarrow> 'd option) \<Rightarrow> db_op
     \<Rightarrow> 'd \<Rightarrow> (Result option list \<times> 'd) option" where
  "run_op lookup store (LookupResult k) d = map_option (\<lambda>(r, d). ([r], d)) (lookup k d)"
| "run_op lookup store (StoreResult k r) d = map_option (Pair []) (store k r d)"

primrec run_ops ::
  "(KeyID \<Rightarrow> 'd \<Rightarrow> (Result option \<times> 'd) option) \<Rightarrow> (KeyID \<Rightarrow> Result \<Rightarrow> 'd \<Rightarrow> 'd option) \<Rightarrow> db_op list
     \<Rightarrow> 'd \<Rightarrow> (Result option list \<times> 'd) option" where
  "run_ops lookup store [] d = Some ([], d)"
| "run_ops lookup store (oper # ops) d = do {
     (out, d) \<leftarrow> run_op lookup store oper d;
     (outs, d) \<leftarrow> run_ops lookup store ops d;
     Some (out @ outs, d)
   }"

locale result_store =
  fixes view :: "'d \<Rightarrow> KeyID \<rightharpoonup> Result"
    and invar :: "nat \<Rightarrow> 'd \<Rightarrow> bool"
    and lookup :: "KeyID \<Rightarrow> 'd \<Rightarrow> (Result option \<times> 'd) option"
    and store :: "KeyID \<Rightarrow> Result \<Rightarrow> 'd \<Rightarrow> 'd option"
    and ok_op :: "db_op \<Rightarrow> bool"
    and norm :: "Result \<Rightarrow> Result"
    and cost :: "db_op \<Rightarrow> nat"
  assumes lookup_view: "invar n d \<Longrightarrow> ok_op (LookupResult k) \<Longrightarrow>
      \<exists>d'. lookup k d = Some (view d k, d') \<and> view d' = view d \<and> invar n d'"
    and store_view: "invar (n + cost (StoreResult k r)) d \<Longrightarrow> ok_op (StoreResult k r) \<Longrightarrow>
      \<exists>d'. store k r d = Some d' \<and> view d' = (view d)(k \<mapsto> norm r) \<and> invar n d'"
    and invar_mono: "invar (n + m) d \<Longrightarrow> invar n d"
begin

lemma run_op_spec:
  assumes "invar (n + cost oper) d" "ok_op oper"
  shows "\<exists>d'. run_op lookup store oper d = Some (fst (spec_op norm oper (view d)), d') \<and>
    view d' = snd (spec_op norm oper (view d)) \<and> invar n d'"
  using assms lookup_view [OF invar_mono [OF assms(1)]] store_view [of n]
  by (cases oper) fastforce+

lemma run_ops_spec:
  assumes "invar (sum_list (map cost ops)) d" "list_all ok_op ops"
  shows "\<exists>d'. run_ops lookup store ops d = Some (fst (spec_ops norm ops (view d)), d') \<and>
    view d' = snd (spec_ops norm ops (view d)) \<and> invar 0 d'"
  using assms
proof (induction ops arbitrary: d)
  case (Cons oper ops)
  from Cons.prems have "invar (sum_list (map cost ops) + cost oper) d" "ok_op oper"
    by (simp_all add: add.commute)
  from run_op_spec [OF this] obtain d' where d': "run_op lookup store oper d = Some (fst (spec_op norm oper (view d)), d')"
      "view d' = snd (spec_op norm oper (view d))" "invar (sum_list (map cost ops)) d'"
    by blast
  from Cons.IH [OF d'(3)] Cons.prems d' show ?case by (auto split: prod.split)
qed simp

end

section \<open>Well-formed tables\<close>

abbreviation ids :: "Tables \<Rightarrow> DBKeyID set" where
  "ids T \<equiv> fst ` set (key_names T)"

text \<open>\<open>room n T\<close>: \<open>n\<close> more names fit into the 62 bits that a dependency has for an identifier.\<close>

definition room :: "nat \<Rightarrow> Tables \<Rightarrow> bool" where
  "room n T \<longleftrightarrow> n < 2 ^ 62 \<and> (\<forall>i \<in> ids T. unat i + n < 2 ^ 62)"

definition blob_of :: "u64 list \<Rightarrow> byte list" where
  "blob_of raws = write_seq write_u64 raws []"

definition row_ok :: "Tables \<Rightarrow> DBKeyID \<times> RuleRow \<Rightarrow> bool" where
  "row_ok T r \<longleftrightarrow> fst r \<in> ids T \<and>
     (\<exists>raws. row_dependencies (snd r) = blob_of raws \<and> (\<forall>raw \<in> set raws. drop_bit 2 raw \<in> ids T))"

definition tables_ok :: "sqlite \<Rightarrow> Tables \<Rightarrow> bool" where
  "tables_ok sq T \<longleftrightarrow> distinct (map fst (key_names T)) \<and> distinct (map snd (key_names T)) \<and> 0 \<notin> ids T
     \<and> (\<forall>key \<in> snd ` set (key_names T). sq_key sq key = key) \<and> distinct (map fst (rule_results T))
     \<and> (\<forall>r \<in> set (rule_results T). row_ok T r)"

definition caches_ok :: "sqlite \<Rightarrow> Tables \<Rightarrow> SQLiteBuildDB \<Rightarrow> bool" where
  "caches_ok sq T d \<longleftrightarrow>
     (\<forall>i keyID. map_of (engineKeyIDs d) i = Some keyID \<longrightarrow> map_of (key_names T) i = Some (delegate_getKeyForID sq keyID)) \<and>
     (\<forall>i keyID. map_of (dbKeyIDs d) keyID = Some i \<longrightarrow> map_of (key_names T) i = Some (delegate_getKeyForID sq keyID))"

text \<open>What the next operation finds: a file with another version is replaced.\<close>

definition current_tables :: "sqlite \<Rightarrow> SQLiteBuildDB \<Rightarrow> Tables" where
  "current_tables sq d =
     (case (if db_handle d then db_tables d else db_file d) of
        Some T \<Rightarrow> if db_handle d \<or> stored_version (Some T) = (currentSchemaVersion, clientSchemaVersion sq)
                  then T else freshTables sq
      | None \<Rightarrow> freshTables sq)"

definition db_ok :: "sqlite \<Rightarrow> nat \<Rightarrow> SQLiteBuildDB \<Rightarrow> bool" where
  "db_ok sq n d \<longleftrightarrow> (db_handle d \<longrightarrow> db_prepared d \<and> db_tables d \<noteq> None) \<and> (\<not> db_handle d \<longrightarrow> \<not> db_inTransaction d)
     \<and> tables_ok sq (current_tables sq d) \<and> caches_ok sq (current_tables sq d) d \<and> room n (current_tables sq d)"

text \<open>An open connection on the tables \<open>T\<close>.\<close>

definition opened :: "sqlite \<Rightarrow> Tables \<Rightarrow> SQLiteBuildDB \<Rightarrow> bool" where
  "opened sq T d \<longleftrightarrow> db_handle d \<and> db_prepared d \<and> db_tables d = Some T \<and> tables_ok sq T \<and> caches_ok sq T d"

lemma opened_db_ok: "opened sq T d \<Longrightarrow> room n T \<Longrightarrow> db_ok sq n d \<and> current_tables sq d = T"
  by (simp add: opened_def db_ok_def current_tables_def)

lemma map_of_ids: "i \<in> ids T \<longleftrightarrow> (\<exists>key. map_of (key_names T) i = Some key)"
  by (metis domD domI dom_map_of_conv_image_fst)

lemma find_key_in: "find_key sq T key = Some i \<Longrightarrow> (i, sq_key sq key) \<in> set (key_names T)"
  by (auto simp: find_key_def find_Some_iff in_set_conv_nth)

lemma find_key_None: "find_key sq T key = None \<longleftrightarrow> sq_key sq key \<notin> snd ` set (key_names T)"
  by (force simp: find_key_def find_None_iff)

lemma find_key_Some:
  assumes "tables_ok sq T"
  shows "find_key sq T key = Some i \<longleftrightarrow> map_of (key_names T) i = Some (sq_key sq key)"
proof
  assume "find_key sq T key = Some i"
  then have "(i, sq_key sq key) \<in> set (key_names T)" by (rule find_key_in)
  with assms show "map_of (key_names T) i = Some (sq_key sq key)" by (simp add: tables_ok_def)
next
  assume "map_of (key_names T) i = Some (sq_key sq key)"
  then have i: "(i, sq_key sq key) \<in> set (key_names T)" by (rule map_of_SomeD)
  then obtain j where j: "find_key sq T key = Some j" "(j, sq_key sq key) \<in> set (key_names T)"
    using find_key_None [of sq T key] find_key_in [of sq T key] by (cases "find_key sq T key") force+
  have "inj_on snd (set (key_names T))" using assms by (simp add: tables_ok_def distinct_map)
  with i j(2) have "j = i" using inj_onD [of snd "set (key_names T)" "(i, sq_key sq key)" "(j, sq_key sq key)"] by simp
  with j show "find_key sq T key = Some i" by simp
qed

section \<open>New identifiers\<close>

lemma fold_max_ge: "x \<le> fold max xs (x :: 'a :: linorder)" "y \<in> set xs \<Longrightarrow> y \<le> fold max xs x"
proof -
  have ge: "x \<le> fold max xs (x :: 'a)" for x xs
    by (induction xs arbitrary: x) (auto intro: order_trans [rotated] max.cobounded2)
  then show "x \<le> fold max xs x" .
  show "y \<in> set xs \<Longrightarrow> y \<le> fold max xs x"
  proof (induction xs arbitrary: x)
    case (Cons z zs)
    then show ?case using ge [of "max z x" zs] by auto
  qed simp
qed

lemma fold_max_in: "fold max xs (x :: 'a :: linorder) \<in> insert x (set xs)"
  by (induction xs arbitrary: x) (auto simp: max_def split: if_splits)

lemma next_rowid:
  assumes "room (Suc n) T"
  shows "next_rowid T \<notin> ids T" "next_rowid T \<noteq> 0" "unat (next_rowid T) + n < 2 ^ 62"
proof -
  let ?m = "fold max (map fst (key_names T)) 0"
  have "?m \<in> insert 0 (ids T)" using fold_max_in [of "map fst (key_names T)" "0 :: u64"] by simp
  with assms have m: "unat ?m + Suc n < 2 ^ 62" by (auto simp: room_def)
  then have suc: "unat (next_rowid T) = Suc (unat ?m)"
    using unat_add_lem [of ?m 1] by (simp add: next_rowid_def)
  then show "next_rowid T \<noteq> 0" "unat (next_rowid T) + n < 2 ^ 62" using m by (auto simp: unat_eq_0)
  have "unat i \<le> unat ?m" if "i \<in> ids T" for i
    using fold_max_ge(2) [of i "map fst (key_names T)" 0] that by (simp add: word_le_nat_alt)
  with suc show "next_rowid T \<notin> ids T" by force
qed

lemma row_ok_extend: "row_ok T r \<Longrightarrow> ids T \<subseteq> ids T' \<Longrightarrow> row_ok T' r"
  unfolding row_ok_def by blast

definition add_name :: "KeyType \<Rightarrow> Tables \<Rightarrow> Tables" where
  "add_name key T = T\<lparr>key_names := key_names T @ [(next_rowid T, key)]\<rparr>"

lemma add_name_ok:
  assumes "tables_ok sq T" "room (Suc n) T" "sq_key sq key = key" "find_key sq T key = None"
  shows "tables_ok sq (add_name key T)" "room n (add_name key T)"
    "map_of (key_names T) i = Some k \<Longrightarrow> map_of (key_names (add_name key T)) i = Some k"
    "map_of (key_names (add_name key T)) (next_rowid T) = Some key"
proof -
  note new = next_rowid [OF assms(2)]
  have sub: "ids T \<subseteq> ids (add_name key T)" by (auto simp: add_name_def)
  show "tables_ok sq (add_name key T)"
    using assms(1,3,4) new row_ok_extend [OF _ sub]
    by (auto simp: tables_ok_def add_name_def find_key_None)
  show "room n (add_name key T)" using assms(2) new(3) by (auto simp: room_def add_name_def)
  show "map_of (key_names T) i = Some k \<Longrightarrow> map_of (key_names (add_name key T)) i = Some k"
    by (simp add: add_name_def map_add_def)
  have "map_of (key_names T) (next_rowid T) = None" using new(1) by (simp add: map_of_eq_None_iff)
  then show "map_of (key_names (add_name key T)) (next_rowid T) = Some key"
    by (simp add: add_name_def map_add_def)
qed

text \<open>A table that has grown: all names and rows of the old one are kept.\<close>

definition grown :: "Tables \<Rightarrow> Tables \<Rightarrow> bool" where
  "grown T T' \<longleftrightarrow> (\<exists>more. T' = T\<lparr>key_names := key_names T @ more\<rparr>)"

lemma grown_trans: "grown T T' \<Longrightarrow> grown T' T'' \<Longrightarrow> grown T T''"
  by (auto simp: grown_def)

lemma grown_refl [simp]: "grown T T"
  by (auto simp: grown_def intro: exI [of _ "[]"])

lemma grown_add_name: "grown T (add_name key T)"
  by (auto simp: grown_def add_name_def)

lemma grown_map_of: "grown T T' \<Longrightarrow> map_of (key_names T) i = Some k \<Longrightarrow> map_of (key_names T') i = Some k"
  by (auto simp: grown_def map_add_def)

section \<open>Operations with a library that works\<close>

definition pack_deps :: "KeyID dep_entry list \<Rightarrow> KeyID DependencyKeyIDs" where
  "pack_deps es = \<lparr>keys = map fst es, flags = map (\<lambda>e. flag_byte (fst (snd e)) (snd (snd e))) es\<rparr>"

definition decode_raw :: "sqlite \<Rightarrow> Tables \<Rightarrow> u64 \<Rightarrow> KeyID dep_entry" where
  "decode_raw sq T raw = (delegate_getKeyID sq (the (map_of (key_names T) (drop_bit 2 raw))),
     raw AND 1 \<noteq> 0, drop_bit 1 raw AND 1 \<noteq> 0)"

definition blob_raws :: "byte list \<Rightarrow> u64 list" where
  "blob_raws blob = (case read_seq read64 (length blob div 8) \<lparr>data = blob, pos = 0\<rparr> of
     Some (raws, d) \<Rightarrow> raws | None \<Rightarrow> [])"

text \<open>Keys that the column \<^verbatim>\<open>key STRING\<close> keeps unchanged, and the map that the tables stand for.\<close>

definition storable :: "sqlite \<Rightarrow> KeyID \<Rightarrow> bool" where
  "storable sq keyID \<longleftrightarrow> sq_key sq (delegate_getKeyForID sq keyID) = delegate_getKeyForID sq keyID"

definition db_view :: "sqlite \<Rightarrow> Tables \<Rightarrow> KeyID \<rightharpoonup> Result" where
  "db_view sq T keyID = (case if storable sq keyID then find_key sq T (delegate_getKeyForID sq keyID) else None of
     None \<Rightarrow> None
   | Some i \<Rightarrow> map_option (\<lambda>row. row_result row (pack_deps (map (decode_raw sq T) (blob_raws (row_dependencies row)))))
       (map_of (rule_results T) i))"

lemma blob_of_Cons: "blob_of (raw # raws) = write_u64 raw [] @ blob_of raws"
  unfolding blob_of_def by (rule u64.wr_list_Cons)

lemma length_blob_of [simp]: "length (blob_of raws) = 8 * length raws"
  by (induction raws) (simp_all add: blob_of_Cons, simp add: blob_of_def)

lemma blob_raws_of [simp]: "blob_raws (blob_of raws) = raws"
  using u64.rd_wr_list [of raws "[]" "[]"] by (simp add: blob_raws_def list_all_iff) (simp add: blob_of_def)

lemma raw_or: "raw_dependency i oo su = push_bit 2 i OR push_bit 1 (of_bool su) OR of_bool oo"
proof -
  have "push_bit 2 i + push_bit 1 (of_bool su) = push_bit 2 i OR push_bit 1 (of_bool su)"
    by (rule disjunctive_add_eq_or) (rule bit_word_eqI, auto simp: bit_simps)
  moreover have "(push_bit 2 i OR push_bit 1 (of_bool su)) + of_bool oo = push_bit 2 i OR push_bit 1 (of_bool su) OR of_bool oo"
    by (subst disjunctive_add_eq_or) (rule bit_word_eqI, auto simp: bit_simps ac_simps)
  ultimately show ?thesis by (simp add: raw_dependency_def)
qed

lemma high_bits: "unat (i :: u64) < 2 ^ 62 \<Longrightarrow> bit i n \<Longrightarrow> n < 62"
proof -
  assume i: "unat i < 2 ^ 62" "bit i n"
  then have "bit (unat i) n" by (simp add: bit_unsigned_iff bit_imp_le_length)
  then show ?thesis using i(1) by (metis bit_nat_iff bit_take_bit_iff take_bit_nat_eq_self_iff)
qed

lemma drop_bit_raw:
  assumes "unat i < 2 ^ 62"
  shows "drop_bit 2 (raw_dependency i oo su) = i"
    "(raw_dependency i oo su AND 1 \<noteq> 0) = oo"
    "(drop_bit 1 (raw_dependency i oo su) AND 1 \<noteq> 0) = su"
proof -
  show "drop_bit 2 (raw_dependency i oo su) = i" unfolding raw_or
    by (rule bit_word_eqI) (use high_bits [OF assms] in \<open>auto simp: bit_simps\<close>)
  show "(raw_dependency i oo su AND 1 \<noteq> 0) = oo" unfolding raw_or and_one_eq
    by (simp add: mod_2_eq_odd even_or_iff)
  show "(drop_bit 1 (raw_dependency i oo su) AND 1 \<noteq> 0) = su" unfolding raw_or and_one_eq drop_bit_or
    by (simp add: mod_2_eq_odd even_or_iff bit_simps flip: bit_0)
qed

lemma decode_raw_dependency:
  assumes "unat i < 2 ^ 62" "map_of (key_names T) i = Some key"
  shows "decode_raw sq T (raw_dependency i oo su) = (delegate_getKeyID sq key, oo, su)"
  using assms(2) by (simp add: decode_raw_def drop_bit_raw [OF assms(1)] del: One_nat_def)

lemma decode_raw_grown: "grown T T' \<Longrightarrow> drop_bit 2 raw \<in> ids T \<Longrightarrow> decode_raw sq T' raw = decode_raw sq T raw"
  using grown_map_of [of T T' "drop_bit 2 raw"] unfolding map_of_ids by (auto simp: decode_raw_def)

lemma grown_ids: "grown T T' \<Longrightarrow> ids T \<subseteq> ids T'"
  by (auto simp: grown_def)

lemma row_raws:
  assumes "tables_ok sq T" "map_of (rule_results T) i = Some row"
  obtains raws where "row_dependencies row = blob_of raws" "\<forall>raw \<in> set raws. drop_bit 2 raw \<in> ids T" "i \<in> ids T"
proof -
  have "row_ok T (i, row)" using assms by (auto simp: tables_ok_def dest: map_of_SomeD)
  with that show thesis by (auto simp: row_ok_def)
qed

lemma view_grown:
  assumes "tables_ok sq T" "tables_ok sq T'" "grown T T'"
  shows "db_view sq T' = db_view sq T"
proof
  fix keyID
  let ?key = "delegate_getKeyForID sq keyID"
  have rows: "rule_results T' = rule_results T" using assms(3) by (auto simp: grown_def)
  show "db_view sq T' keyID = db_view sq T keyID"
  proof (cases "find_key sq T ?key")
    case (Some i)
    with assms have i: "find_key sq T' ?key = Some i" by (simp add: find_key_Some grown_map_of)
    have "map (decode_raw sq T') (blob_raws (row_dependencies row)) = map (decode_raw sq T) (blob_raws (row_dependencies row))"
      if "map_of (rule_results T) i = Some row" for row
      by (rule row_raws [OF assms(1) that]) (simp add: decode_raw_grown [OF assms(3)])
    with Some i rows show ?thesis by (cases "map_of (rule_results T) i") (simp_all add: db_view_def cong: map_cong)
  next
    case None
    have "map_of (rule_results T) i = None" if "find_key sq T' ?key = Some i" for i
    proof (rule ccontr)
      assume "map_of (rule_results T) i \<noteq> None"
      then obtain row where "map_of (rule_results T) i = Some row" by blast
      from row_raws [OF assms(1) this] have "i \<in> ids T" by blast
      then obtain k where k: "map_of (key_names T) i = Some k" unfolding map_of_ids by blast
      with that assms have "k = sq_key sq ?key" by (simp add: find_key_Some grown_map_of [OF assms(3) k])
      with k None show False using find_key_Some [OF assms(1), of ?key i] by simp
    qed
    with None rows show ?thesis by (auto simp: db_view_def split: option.split)
  qed
qed

definition norm_result :: "Result \<Rightarrow> Result" where
  "norm_result r = r\<lparr>dependencies := pack_deps (deps_entries (dependencies r))\<rparr>"

definition result_fits :: "sqlite \<Rightarrow> KeyID \<Rightarrow> Result \<Rightarrow> bool" where
  "result_fits sq keyID r \<longleftrightarrow> builtAt r < 2 ^ 64 \<and> computedAt r < 2 ^ 64 \<and>
     list_all (storable sq) (keyID # map fst (deps_entries (dependencies r)))"

lemma row_result_row:
  assumes "builtAt r < 2 ^ 64" "computedAt r < 2 ^ 64"
  shows "row_result (result_row r blob) (pack_deps (deps_entries (dependencies r))) = norm_result r"
  using assms by (simp add: row_result_def result_row_def norm_result_def unat_of_nat)

text \<open>Writing a row for a name of the table.\<close>

lemma insert_row_ok:
  assumes "tables_ok sq T" "map_of (key_names T) i = Some key"
    and "row_dependencies row = blob_of raws" "\<forall>raw \<in> set raws. drop_bit 2 raw \<in> ids T"
  shows "tables_ok sq (T\<lparr>rule_results := AList.update i row (rule_results T)\<rparr>)"
proof -
  let ?T = "T\<lparr>rule_results := AList.update i row (rule_results T)\<rparr>"
  have "row_ok ?T r" if "r \<in> set (rule_results ?T)" for r
  proof (cases "r = (i, row)")
    case True
    with assms show ?thesis using map_of_ids [of i T] by (auto simp: row_ok_def)
  next
    case False
    have "distinct (map fst (rule_results ?T))" using assms(1) by (simp add: tables_ok_def)
    with that have "map_of (rule_results ?T) (fst r) = Some (snd r)"
      using map_of_is_SomeI [of "rule_results ?T" "fst r" "snd r"] by simp
    with False have "map_of (rule_results T) (fst r) = Some (snd r)" by (cases r) (auto split: if_splits)
    then have "r \<in> set (rule_results T)" using map_of_SomeD by fastforce
    with assms(1) show ?thesis by (simp add: tables_ok_def row_ok_def)
  qed
  with assms(1) show ?thesis by (simp add: tables_ok_def)
qed

locale working_sqlite =
  fixes sq :: sqlite
  assumes no_error [simp]: "sq_error sq T st = None" "sq_openError sq = None" "sq_reopenError sq = None"
      "\<not> sq_notThreadSafe sq"
    and unlinks [simp]: "sq_unlink sq = Unlinked" and recreates [simp]: "recreateOnUnmatchedVersion sq"
    and delegate [simp]: "delegate_getKeyID sq (delegate_getKeyForID sq keyID) = keyID"
      "delegate_getKeyForID sq (delegate_getKeyID sq key) = key"
begin

lemma open_db_opened:
  assumes "db_ok sq n d"
  shows "\<exists>d'. open_db sq d = Some ([], d') \<and> opened sq (current_tables sq d) d' \<and>
    (db_handle d \<longrightarrow> d' = d) \<and> db_inTransaction d' = db_inTransaction d"
proof (cases "db_handle d")
  case True
  with assms show ?thesis by (auto simp: open_db_def db_ok_def opened_def current_tables_def)
next
  case False
  with assms show ?thesis
    by (auto simp: open_db_def recreateDatabase_def prepareStatements_def db_ok_def opened_def caches_ok_def
        current_tables_def stored_version_def currentSchemaVersion_def Let_def split: option.splits if_splits)
qed

lemma cacheKey_opened:
  assumes "opened sq T d" "map_of (key_names T) i = Some (delegate_getKeyForID sq keyID)"
  shows "opened sq T (cacheKey i keyID d)"
  using assms by (auto simp: opened_def caches_ok_def cacheKey_def)

lemma getKeyIDForID_ok:
  assumes "opened sq T d" "i \<in> ids T"
  shows "\<exists>d'. getKeyIDForID sq i d = Some ((delegate_getKeyID sq (the (map_of (key_names T) i)), []), d') \<and> opened sq T d'
    \<and> db_file d' = db_file d \<and> db_inTransaction d' = db_inTransaction d"
proof -
  from assms(2) obtain key where key: "map_of (key_names T) i = Some key" using map_of_ids by blast
  show ?thesis
  proof (cases "map_of (engineKeyIDs d) i")
    case None
    with assms key show ?thesis using cacheKey_opened [OF assms(1), of i "delegate_getKeyID sq key"]
      by (auto simp: getKeyIDForID_def opened_def cacheKey_def Let_def)
  next
    case (Some keyID)
    with assms key have "key = delegate_getKeyForID sq keyID" by (auto simp: opened_def caches_ok_def)
    with Some assms key show ?thesis by (simp add: getKeyIDForID_def)
  qed
qed

lemma decodeDependencies_ok:
  assumes "opened sq T d" "\<forall>raw \<in> set raws. drop_bit 2 raw \<in> ids T"
    "length (keys deps) = i + length raws" "deps_invar deps"
  shows "\<exists>d'. decodeDependencies sq (length raws) i (decoder_at pre (blob_of raws)) deps d =
      Some ((\<lparr>keys = take i (keys deps) @ map (fst \<circ> decode_raw sq T) raws,
        flags = take i (flags deps) @ flags (pack_deps (map (decode_raw sq T) raws))\<rparr>, []), d')
    \<and> opened sq T d' \<and> db_file d' = db_file d \<and> db_inTransaction d' = db_inTransaction d"
  using assms
proof (induction raws arbitrary: i pre deps d)
  case Nil
  then show ?case by (simp add: pack_deps_def deps_invar_def)
next
  case (Cons raw raws)
  from Cons.prems obtain d1 where d1:
      "getKeyIDForID sq (drop_bit 2 raw) d = Some ((fst (decode_raw sq T raw), []), d1)"
      "opened sq T d1" "db_file d1 = db_file d" "db_inTransaction d1 = db_inTransaction d"
    using getKeyIDForID_ok [of T d "drop_bit 2 raw"] by (auto simp: decode_raw_def)
  let ?f = "flag_byte (raw AND 1 \<noteq> 0) (drop_bit 1 raw AND 1 \<noteq> 0)"
  define deps1 where "deps1 = \<lparr>keys = (keys deps)[i := fst (decode_raw sq T raw)], flags = (flags deps)[i := ?f]\<rparr>"
  have set: "set_deps i (fst (decode_raw sq T raw)) (raw AND 1 \<noteq> 0) (drop_bit 1 raw AND 1 \<noteq> 0) deps = Some deps1"
    using Cons.prems by (simp add: set_deps_def deps1_def deps_invar_def)
  have inv: "length (keys deps1) = i + 1 + length raws" "deps_invar deps1"
    using Cons.prems by (auto simp: deps1_def deps_invar_def)
  have take: "take (i + 1) (keys deps1) = take i (keys deps) @ [fst (decode_raw sq T raw)]"
      "take (i + 1) (flags deps1) = take i (flags deps) @ [?f]"
    using Cons.prems by (simp_all add: deps1_def deps_invar_def take_Suc_conv_app_nth)
  have read: "read64 (decoder_at pre (blob_of (raw # raws))) = Some (raw, decoder_at (pre @ write_u64 raw []) (blob_of raws))"
    using u64.rd_wr [where v = raw and pre = pre and post = "blob_of raws"] by (simp add: blob_of_Cons)
  from Cons.IH [OF d1(2) _ inv, of "pre @ write_u64 raw []"] Cons.prems d1(3,4)
  obtain d' where "decodeDependencies sq (length raws) (i + 1) (decoder_at (pre @ write_u64 raw []) (blob_of raws)) deps1 d1 =
      Some ((\<lparr>keys = take (i + 1) (keys deps1) @ map (fst \<circ> decode_raw sq T) raws,
        flags = take (i + 1) (flags deps1) @ flags (pack_deps (map (decode_raw sq T) raws))\<rparr>, []), d')"
      "opened sq T d'" "db_file d' = db_file d" "db_inTransaction d' = db_inTransaction d"
    by auto
  with d1 read set take show ?case by (simp add: pack_deps_def decode_raw_def)
qed

lemma readDependencies_ok:
  assumes "opened sq T d" "\<forall>raw \<in> set raws. drop_bit 2 raw \<in> ids T"
  shows "\<exists>d'. readDependencies sq i (blob_of raws) d = Some ((pack_deps (map (decode_raw sq T) raws), []), d')
    \<and> opened sq T d' \<and> db_file d' = db_file d \<and> db_inTransaction d' = db_inTransaction d"
proof -
  have "deps_invar (resize_deps [] (length raws) (empty_deps :: KeyID DependencyKeyIDs))"
      "length (keys (resize_deps [] (length raws) (empty_deps :: KeyID DependencyKeyIDs))) = 0 + length raws"
    by (simp_all add: resize_deps_def resize_vec_def empty_deps_def deps_invar_def)
  from decodeDependencies_ok [OF assms this(2,1), of "[]"] show ?thesis
    by (simp add: readDependencies_def pack_deps_def Let_def)
qed

lemma lookupRuleResult_ok:
  assumes ok: "db_ok sq n d" and key: "key = delegate_getKeyForID sq keyID" "storable sq keyID"
  shows "\<exists>d'. lookupRuleResult sq keyID key d = Some ((db_view sq (current_tables sq d) keyID, []), d') \<and>
    opened sq (current_tables sq d) d' \<and> db_inTransaction d' = db_inTransaction d \<and>
    (db_handle d \<longrightarrow> db_file d' = db_file d)"
proof -
  let ?T = "current_tables sq d"
  obtain d1 where d1: "open_db sq d = Some ([], d1)" "opened sq ?T d1" "db_handle d \<longrightarrow> d1 = d"
      "db_inTransaction d1 = db_inTransaction d"
    using open_db_opened [OF ok] by blast
  have tables: "tables_ok sq ?T" "db_tables d1 = Some ?T" "db_prepared d1" using d1(2) by (simp_all add: opened_def)
  have cached: "find_key sq ?T key = Some i" if "map_of (dbKeyIDs d1) keyID = Some i" for i
    using that d1(2) key by (simp add: find_key_Some [OF tables(1)] opened_def caches_ok_def storable_def)
  let ?found = "find_key sq ?T key \<bind> (\<lambda>i. map_option (Pair i) (map_of (rule_results ?T) i))"
  obtain d2 where d2: "findRow sq keyID key d1 = Some ((?found, []), d2)"
      "opened sq ?T d2" "db_file d2 = db_file d1" "db_inTransaction d2 = db_inTransaction d1"
  proof (cases "map_of (dbKeyIDs d1) keyID")
    case (Some i)
    with cached tables that [of d1] d1(2) show thesis by (simp add: findRow_def)
  next
    case None
    show thesis
    proof (cases ?found)
      case None
      with \<open>map_of (dbKeyIDs d1) keyID = None\<close> tables that [of d1] d1(2) show thesis
        by (simp add: findRow_def)
    next
      case (Some ir)
      then obtain i row where ir: "ir = (i, row)" "find_key sq ?T key = Some i" "map_of (rule_results ?T) i = Some row"
        by (auto simp: bind_eq_Some_conv)
      have "opened sq ?T (cacheKey i keyID d1)"
        using ir(2) key cacheKey_opened [OF d1(2)] by (simp add: find_key_Some [OF tables(1)] storable_def)
      with \<open>map_of (dbKeyIDs d1) keyID = None\<close> tables that [of "cacheKey i keyID d1"] ir show thesis
        by (simp add: findRow_def cacheKey_def)
    qed
  qed
  show ?thesis
  proof (cases ?found)
    case None
    then have "db_view sq ?T keyID = None" using key by (auto simp: db_view_def split: option.splits)
    with None d1 d2 show ?thesis by (auto simp: lookupRuleResult_def with_open_def)
  next
    case (Some ir)
    then obtain i row where i: "ir = (i, row)" "find_key sq ?T key = Some i" "map_of (rule_results ?T) i = Some row"
      by (auto simp: bind_eq_Some_conv)
    from i(3) tables(1) obtain raws where raws: "row_dependencies row = blob_of raws" "\<forall>raw \<in> set raws. drop_bit 2 raw \<in> ids ?T"
      by (force simp: tables_ok_def row_ok_def dest: map_of_SomeD)
    from readDependencies_ok [OF d2(2) raws(2), of i] obtain d3 where d3:
        "readDependencies sq i (blob_of raws) d2 = Some ((pack_deps (map (decode_raw sq ?T) raws), []), d3)"
        "opened sq ?T d3" "db_file d3 = db_file d2" "db_inTransaction d3 = db_inTransaction d2"
      by blast
    moreover have "db_view sq ?T keyID = Some (row_result row (pack_deps (map (decode_raw sq ?T) raws)))"
      using i raws(1) key by (simp add: db_view_def)
    ultimately show ?thesis using i raws(1) d1 d2
      by (intro exI [of _ d3]) (auto simp: lookupRuleResult_def with_open_def)
  qed
qed

lemma getKeyID_db_ok:
  assumes op: "opened sq T d" "room (Suc n) T" and key: "storable sq keyID"
  shows "\<exists>i d' T'. getKeyID_db sq keyID d = Some ((i, []), d') \<and> opened sq T' d' \<and> room n T' \<and> grown T T' \<and>
    map_of (key_names T') i = Some (delegate_getKeyForID sq keyID) \<and> db_inTransaction d' = db_inTransaction d \<and>
    (db_inTransaction d \<longrightarrow> db_file d' = db_file d)"
proof -
  let ?key = "delegate_getKeyForID sq keyID"
  note key = key [unfolded storable_def]
  have tables: "tables_ok sq T" "db_tables d = Some T" "db_prepared d" "caches_ok sq T d"
    using op(1) by (simp_all add: opened_def)
  have room: "room n T" using op(2) by (auto simp: room_def)
  consider (cached) i where "map_of (dbKeyIDs d) keyID = Some i"
    | (found) i where "map_of (dbKeyIDs d) keyID = None" "find_key sq T ?key = Some i"
    | (new) "map_of (dbKeyIDs d) keyID = None" "find_key sq T ?key = None" by fastforce
  then show ?thesis
  proof cases
    case cached
    with tables op room show ?thesis
      by (intro exI [of _ i] exI [of _ d] exI [of _ T]) (simp add: getKeyID_db_def caches_ok_def)
  next
    case found
    then have i: "map_of (key_names T) i = Some ?key" using tables(1) key by (simp add: find_key_Some)
    then have "i \<noteq> 0" using tables(1) map_of_ids by (metis tables_ok_def)
    with found tables room i cacheKey_opened [OF op(1) i] show ?thesis
      by (intro exI [of _ i] exI [of _ "cacheKey i keyID d"] exI [of _ T])
        (simp add: getKeyID_db_def getKeyIDFromDB_def Let_def cacheKey_def)
  next
    case new
    let ?T = "add_name ?key T" and ?i = "next_rowid T"
    note add = add_name_ok [OF tables(1) op(2) key new(2)]
    define d1 where "d1 = (commitWrite ?T d)\<lparr>db_lastRowid := ?i\<rparr>"
    have "caches_ok sq ?T d1" using tables(4) add(3) by (auto simp: caches_ok_def d1_def commitWrite_def)
    with op(1) add(1) have "opened sq ?T d1" by (simp add: opened_def d1_def commitWrite_def)
    from cacheKey_opened [OF this add(4)] have "opened sq ?T (cacheKey ?i keyID d1)" .
    moreover have "getKeyID_db sq keyID d = Some ((?i, []), cacheKey ?i keyID d1)"
      using new tables key next_rowid(2) [OF op(2)]
      by (simp add: getKeyID_db_def getKeyIDFromDB_def insert_key_def d1_def add_name_def Let_def)
    ultimately show ?thesis using add(2,4) grown_add_name
      by (intro exI [of _ ?i] exI [of _ "cacheKey ?i keyID d1"] exI [of _ ?T])
        (auto simp: d1_def cacheKey_def commitWrite_def)
  qed
qed

lemma encodeDependencies_ok:
  assumes "opened sq T d" "room (n + length es) T"
    "\<forall>e \<in> set es. storable sq (fst e)"
  shows "\<exists>raws d' T'. encodeDependencies sq es enc d = Some ((enc @ blob_of raws, []), d') \<and> opened sq T' d' \<and>
    room n T' \<and> grown T T' \<and> (\<forall>raw \<in> set raws. drop_bit 2 raw \<in> ids T') \<and> map (decode_raw sq T') raws = es \<and>
    db_inTransaction d' = db_inTransaction d \<and> (db_inTransaction d \<longrightarrow> db_file d' = db_file d)"
  using assms
proof (induction es arbitrary: T d enc)
  case Nil
  then show ?case by (intro exI [of _ "[]"] exI [of _ d] exI [of _ T]) (simp add: blob_of_def)
next
  case (Cons e es)
  from Cons.prems getKeyID_db_ok [of T d "n + length es" "fst e"] obtain i d1 T1 where d1:
      "getKeyID_db sq (fst e) d = Some ((i, []), d1)" "opened sq T1 d1" "room (n + length es) T1" "grown T T1"
      "map_of (key_names T1) i = Some (delegate_getKeyForID sq (fst e))" "db_inTransaction d1 = db_inTransaction d"
      "db_inTransaction d \<longrightarrow> db_file d1 = db_file d"
    by auto
  let ?raw = "raw_dependency i (fst (snd e)) (snd (snd e))"
  have "i \<in> ids T1" using d1(5) map_of_ids by blast
  with d1(3) have i: "unat i < 2 ^ 62" by (auto simp: room_def)
  from Cons.IH [OF d1(2,3), of "write_u64 ?raw enc"] Cons.prems(3) obtain raws d' T' where rest:
      "encodeDependencies sq es (write_u64 ?raw enc) d1 = Some ((write_u64 ?raw enc @ blob_of raws, []), d')"
      "opened sq T' d'" "room n T'" "grown T1 T'" "\<forall>raw \<in> set raws. drop_bit 2 raw \<in> ids T'" "map (decode_raw sq T') raws = es"
      "db_inTransaction d' = db_inTransaction d1" "db_inTransaction d1 \<longrightarrow> db_file d' = db_file d1"
    by auto
  have key: "map_of (key_names T') i = Some (delegate_getKeyForID sq (fst e))" by (rule grown_map_of [OF rest(4) d1(5)])
  have "decode_raw sq T' ?raw = e" using decode_raw_dependency [OF i key] by (simp del: One_nat_def)
  moreover have "drop_bit 2 ?raw \<in> ids T'" using key map_of_ids drop_bit_raw(1) [OF i] by metis
  moreover have "write_u64 ?raw enc @ blob_of raws = enc @ blob_of (?raw # raws)"
    using u64.wr_appends [of ?raw enc] by (simp add: blob_of_Cons)
  ultimately show ?case using d1 rest grown_trans [OF d1(4) rest(4)]
    by (intro exI [of _ "?raw # raws"] exI [of _ d'] exI [of _ T']) auto
qed

lemma view_insert_row:
  assumes "tables_ok sq T" "map_of (key_names T) i = Some (delegate_getKeyForID sq keyID)"
    and "storable sq keyID"
    and "row_dependencies row = blob_of raws"
  shows "db_view sq (T\<lparr>rule_results := AList.update i row (rule_results T)\<rparr>) =
    (db_view sq T)(keyID \<mapsto> row_result row (pack_deps (map (decode_raw sq T) raws)))"
proof
  fix k
  let ?T = "T\<lparr>rule_results := AList.update i row (rule_results T)\<rparr>"
  have find: "find_key sq ?T = find_key sq T" "decode_raw sq ?T = decode_raw sq T"
    by (simp_all add: fun_eq_iff find_key_def decode_raw_def)
  have keyID: "find_key sq T (delegate_getKeyForID sq keyID) = Some i"
    using assms(2,3) by (simp add: find_key_Some [OF assms(1)] storable_def)
  show "db_view sq ?T k = ((db_view sq T)(keyID \<mapsto> row_result row (pack_deps (map (decode_raw sq T) raws)))) k"
  proof (cases "k = keyID")
    case True
    with keyID assms(3,4) show ?thesis by (simp add: db_view_def find)
  next
    case False
    then have "find_key sq T (delegate_getKeyForID sq k) \<noteq> Some i" if "storable sq k"
      using assms(2) that by (metis find_key_Some [OF assms(1)] storable_def delegate(1) option.inject)
    with False show ?thesis by (auto simp: db_view_def find split: option.split)
  qed
qed

lemma setRuleResult_ok:
  assumes ok: "db_ok sq (n + Suc (length (deps_entries (dependencies r)))) d" and fits: "result_fits sq keyID r"
  shows "\<exists>d'. setRuleResult sq keyID r d = Some ([], d') \<and> db_ok sq n d' \<and> db_handle d' \<and>
    db_view sq (current_tables sq d') = (db_view sq (current_tables sq d))(keyID \<mapsto> norm_result r) \<and>
    stored_version (Some (current_tables sq d')) = stored_version (Some (current_tables sq d)) \<and>
    db_inTransaction d' = db_inTransaction d \<and> (db_inTransaction d \<longrightarrow> db_file d' = db_file d)"
proof -
  let ?T = "current_tables sq d" and ?es = "deps_entries (dependencies r)"
  from ok have room: "room (Suc (n + length ?es)) ?T" by (simp add: db_ok_def)
  obtain d1 where d1: "open_db sq d = Some ([], d1)" "opened sq ?T d1" "db_handle d \<longrightarrow> d1 = d"
      "db_inTransaction d1 = db_inTransaction d"
    using open_db_opened [OF ok] by blast
  have file1: "db_inTransaction d \<longrightarrow> db_file d1 = db_file d" using ok d1(3) by (auto simp: db_ok_def)
  from fits have keyID: "storable sq keyID" "\<forall>e \<in> set ?es. storable sq (fst e)"
    by (auto simp: result_fits_def list_all_iff)
  from getKeyID_db_ok [OF d1(2) room keyID(1)] obtain i d2 T2 where d2: "getKeyID_db sq keyID d1 = Some ((i, []), d2)"
      "opened sq T2 d2" "room (n + length ?es) T2" "grown ?T T2" "map_of (key_names T2) i = Some (delegate_getKeyForID sq keyID)"
      "db_inTransaction d2 = db_inTransaction d1" "db_inTransaction d1 \<longrightarrow> db_file d2 = db_file d1"
    by blast
  from encodeDependencies_ok [OF d2(2,3) keyID(2), of "[]"] obtain raws d3 T3 where d3:
      "encodeDependencies sq ?es [] d2 = Some ((blob_of raws, []), d3)" "opened sq T3 d3" "room n T3" "grown T2 T3"
      "\<forall>raw \<in> set raws. drop_bit 2 raw \<in> ids T3" "map (decode_raw sq T3) raws = ?es"
      "db_inTransaction d3 = db_inTransaction d2" "db_inTransaction d2 \<longrightarrow> db_file d3 = db_file d2"
    by auto
  define row where "row = result_row r (blob_of raws)"
  define T4 where "T4 = T3\<lparr>rule_results := AList.update i row (rule_results T3)\<rparr>"
  have blob: "row_dependencies row = blob_of raws" by (simp add: row_def result_row_def)
  have i3: "map_of (key_names T3) i = Some (delegate_getKeyForID sq keyID)" by (rule grown_map_of [OF d3(4) d2(5)])
  have T3: "tables_ok sq T3" "caches_ok sq T3 d3" using d3(2) by (simp_all add: opened_def)
  have run: "setRuleResult sq keyID r d = Some ([], commitWrite T4 d3)"
    using d1(1) d2(1) d3(1,2)
    by (simp add: setRuleResult_def with_open_def insertRow_def opened_def T4_def row_def)
  have "opened sq T4 (commitWrite T4 d3)"
    using d3(2) insert_row_ok [OF T3(1) i3 blob d3(5)] T3(2)
    by (simp add: opened_def commitWrite_def T4_def caches_ok_def)
  moreover have "room n T4" using d3(3) by (simp add: room_def T4_def)
  ultimately have ok4: "db_ok sq n (commitWrite T4 d3)" "current_tables sq (commitWrite T4 d3) = T4" "db_handle (commitWrite T4 d3)"
    using opened_db_ok by (auto simp: opened_def)
  have T: "tables_ok sq ?T" "tables_ok sq T2" using d1(2) d2(2) by (simp_all add: opened_def)
  have "db_view sq T4 = (db_view sq ?T)(keyID \<mapsto> norm_result r)"
    using view_insert_row [OF T3(1) i3 keyID(1) blob] view_grown [OF T d2(4)] view_grown [OF T(2) T3(1) d3(4)]
      d3(6) row_result_row [of r "blob_of raws"] fits
    by (simp add: T4_def row_def result_fits_def)
  moreover have "stored_version (Some T4) = stored_version (Some ?T)"
    using d2(4) d3(4) by (auto simp: stored_version_def grown_def T4_def)
  ultimately show ?thesis using run ok4 file1 d1(4) d2(6,7) d3(7,8)
    by (intro exI [of _ "commitWrite T4 d3"]) (auto simp: commitWrite_def)
qed

end

section \<open>The database implements the map\<close>

text \<open>The operations as the engine uses them: an error or a fault is \<^term>\<open>None\<close>.\<close>

definition db_lookup :: "sqlite \<Rightarrow> KeyID \<Rightarrow> SQLiteBuildDB \<Rightarrow> (Result option \<times> SQLiteBuildDB) option" where
  "db_lookup sq keyID d = do {
     ((r, error), d) \<leftarrow> lookupRuleResult sq keyID (delegate_getKeyForID sq keyID) d;
     if error = [] then Some (r, d) else None
   }"

definition db_store :: "sqlite \<Rightarrow> KeyID \<Rightarrow> Result \<Rightarrow> SQLiteBuildDB \<Rightarrow> SQLiteBuildDB option" where
  "db_store sq keyID r d = do {
     (error, d) \<leftarrow> setRuleResult sq keyID r d;
     if error = [] then Some d else None
   }"

fun op_fits :: "sqlite \<Rightarrow> db_op \<Rightarrow> bool" where
  "op_fits sq (LookupResult k) \<longleftrightarrow> storable sq k"
| "op_fits sq (StoreResult k r) \<longleftrightarrow> result_fits sq k r"

text \<open>How many new names an operation may need.\<close>

fun op_names :: "db_op \<Rightarrow> nat" where
  "op_names (LookupResult k) = 0"
| "op_names (StoreResult k r) = Suc (length (deps_entries (dependencies r)))"

definition db_map :: "sqlite \<Rightarrow> SQLiteBuildDB \<Rightarrow> KeyID \<rightharpoonup> Result" where
  "db_map sq d = db_view sq (current_tables sq d)"

lemma db_ok_mono: "db_ok sq (n + m) d \<Longrightarrow> db_ok sq n d"
  by (auto simp: db_ok_def room_def)

sublocale working_sqlite \<subseteq> store: result_store "db_map sq" "db_ok sq" "db_lookup sq" "db_store sq"
  "op_fits sq" norm_result op_names
proof unfold_locales
  fix n d k
  assume ok: "db_ok sq n d" and "op_fits sq (LookupResult k)"
  then obtain d' where d': "lookupRuleResult sq k (delegate_getKeyForID sq k) d = Some ((db_map sq d k, []), d')"
      "opened sq (current_tables sq d) d'"
    using lookupRuleResult_ok [OF ok refl] by (auto simp: db_map_def)
  have "room n (current_tables sq d)" using ok by (simp add: db_ok_def)
  from opened_db_ok [OF d'(2) this] d'(1)
  show "\<exists>d'. db_lookup sq k d = Some (db_map sq d k, d') \<and> db_map sq d' = db_map sq d \<and> db_ok sq n d'"
    by (simp add: db_lookup_def db_map_def)
next
  fix n k r d
  assume "db_ok sq (n + op_names (StoreResult k r)) d" "op_fits sq (StoreResult k r)"
  then show "\<exists>d'. db_store sq k r d = Some d' \<and> db_map sq d' = (db_map sq d)(k \<mapsto> norm_result r) \<and> db_ok sq n d'"
    using setRuleResult_ok [of n r d k] by (auto simp: db_store_def db_map_def)
qed (rule db_ok_mono)

text \<open>
  Inside the transaction of a build the file keeps the contents it had, of the right version.
\<close>

definition right_version :: "sqlite \<Rightarrow> Tables \<Rightarrow> bool" where
  "right_version sq T \<longleftrightarrow> stored_version (Some T) = (currentSchemaVersion, clientSchemaVersion sq)"

definition tx_ok :: "sqlite \<Rightarrow> Tables option \<Rightarrow> nat \<Rightarrow> SQLiteBuildDB \<Rightarrow> bool" where
  "tx_ok sq F n d \<longleftrightarrow> db_ok sq n d \<and> db_handle d \<and> db_inTransaction d \<and> db_file d = F \<and>
     right_version sq (current_tables sq d)"

sublocale working_sqlite \<subseteq> tx: result_store "db_map sq" "tx_ok sq F" "db_lookup sq" "db_store sq"
  "op_fits sq" norm_result op_names for F
proof unfold_locales
  fix n d k
  assume tx: "tx_ok sq F n d" and "op_fits sq (LookupResult k)"
  then have ok: "db_ok sq n d" and "storable sq k" by (simp_all add: tx_ok_def)
  then obtain d' where d': "lookupRuleResult sq k (delegate_getKeyForID sq k) d = Some ((db_map sq d k, []), d')"
      "opened sq (current_tables sq d) d'" "db_inTransaction d' = db_inTransaction d" "db_handle d \<longrightarrow> db_file d' = db_file d"
    using lookupRuleResult_ok [OF ok refl] by (auto simp: db_map_def)
  have "room n (current_tables sq d)" using ok by (simp add: db_ok_def)
  from opened_db_ok [OF d'(2) this] d' tx
  show "\<exists>d'. db_lookup sq k d = Some (db_map sq d k, d') \<and> db_map sq d' = db_map sq d \<and> tx_ok sq F n d'"
    by (simp add: db_lookup_def db_map_def tx_ok_def opened_def)
next
  fix n k r d
  assume "tx_ok sq F (n + op_names (StoreResult k r)) d" "op_fits sq (StoreResult k r)"
  then show "\<exists>d'. db_store sq k r d = Some d' \<and> db_map sq d' = (db_map sq d)(k \<mapsto> norm_result r) \<and> tx_ok sq F n d'"
    using setRuleResult_ok [of n r d k] by (auto simp: db_store_def db_map_def tx_ok_def right_version_def)
qed (auto simp: tx_ok_def intro: db_ok_mono)

context working_sqlite
begin

lemma run_ops_map:
  assumes "db_ok sq (sum_list (map op_names ops)) d" "list_all (op_fits sq) ops"
  shows "\<exists>d'. run_ops (db_lookup sq) (db_store sq) ops d = Some (fst (spec_ops norm_result ops (db_map sq d)), d') \<and>
    db_map sq d' = snd (spec_ops norm_result ops (db_map sq d))"
  using store.run_ops_spec [OF assms] by blast

text \<open>Another process that opens the file finds what is committed.\<close>

lemma reopen_map:
  assumes "db_file d = Some T" "right_version sq T"
  shows "db_map sq (newSQLiteBuildDB (db_file d)) = db_view sq T"
  using assms by (simp add: db_map_def current_tables_def newSQLiteBuildDB_def right_version_def)

lemma buildStarted_ok:
  assumes "db_ok sq n d" "\<not> db_inTransaction d" "db_handle d \<longrightarrow> db_file d = db_tables d \<and> right_version sq (the (db_tables d))"
  shows "\<exists>d1. buildStarted_db sq d = Some ([], d1) \<and> tx_ok sq (db_file d1) n d1 \<and> db_map sq d1 = db_map sq d \<and>
    db_file d1 = Some (current_tables sq d) \<and> right_version sq (current_tables sq d)"
proof -
  let ?T = "current_tables sq d"
  obtain d1 where d1: "open_db sq d = Some ([], d1)" "opened sq ?T d1" "db_handle d \<longrightarrow> d1 = d"
      "db_inTransaction d1 = db_inTransaction d"
    using open_db_opened [OF assms(1)] by blast
  have committed: "db_file d1 = Some ?T \<and> right_version sq ?T"
  proof (cases "db_handle d")
    case True
    with assms d1 show ?thesis by (auto simp: opened_def)
  next
    case False
    with d1(1) show ?thesis
      by (auto simp: open_db_def recreateDatabase_def prepareStatements_def current_tables_def right_version_def
          stored_version_def currentSchemaVersion_def freshTables_def Let_def split: option.splits if_splits)
  qed
  define d2 where "d2 = d1\<lparr>db_inTransaction := True\<rparr>"
  have "opened sq ?T d2" using d1(2) by (simp add: opened_def d2_def caches_ok_def)
  with assms(1) have "db_ok sq n d2" "current_tables sq d2 = ?T" "db_handle d2"
    using opened_db_ok by (auto simp: db_ok_def opened_def)
  with committed d1 assms(2) show ?thesis
    by (intro exI [of _ d2]) (simp add: buildStarted_db_def with_open_def tx_ok_def db_map_def d2_def)
qed

lemma build_atomic:
  assumes "db_ok sq (sum_list (map op_names ops)) d" "list_all (op_fits sq) ops" "\<not> db_inTransaction d"
    "db_handle d \<longrightarrow> db_file d = db_tables d \<and> right_version sq (the (db_tables d))"
  shows "\<exists>d1 d2 d3. buildStarted_db sq d = Some ([], d1) \<and>
    run_ops (db_lookup sq) (db_store sq) ops d1 = Some (fst (spec_ops norm_result ops (db_map sq d)), d2) \<and>
    db_map sq (newSQLiteBuildDB (db_file d2)) = db_map sq d \<and>
    buildComplete_db sq d2 = Some d3 \<and>
    db_map sq (newSQLiteBuildDB (db_file d3)) = snd (spec_ops norm_result ops (db_map sq d))"
proof -
  from buildStarted_ok [OF assms(1,3,4)] obtain d1 where d1: "buildStarted_db sq d = Some ([], d1)"
      "tx_ok sq (db_file d1) (sum_list (map op_names ops)) d1" "db_map sq d1 = db_map sq d"
      "db_file d1 = Some (current_tables sq d)" "right_version sq (current_tables sq d)"
    by blast
  from tx.run_ops_spec [OF d1(2) assms(2)] d1(3) obtain d2 where d2:
      "run_ops (db_lookup sq) (db_store sq) ops d1 = Some (fst (spec_ops norm_result ops (db_map sq d)), d2)"
      "db_map sq d2 = snd (spec_ops norm_result ops (db_map sq d))" "tx_ok sq (db_file d1) 0 d2"
    by auto
  have crash: "db_map sq (newSQLiteBuildDB (db_file d2)) = db_map sq d"
    using reopen_map [of d2 "current_tables sq d"] d1 d2(3) by (simp add: tx_ok_def db_map_def)
  let ?d3 = "close_db (d2\<lparr>db_file := db_tables d2\<rparr>)"
  have "buildComplete_db sq d2 = Some ?d3" using d2(3) by (simp add: buildComplete_db_def tx_ok_def)
  moreover have "db_map sq (newSQLiteBuildDB (db_file ?d3)) = db_map sq d2"
    using d2(3) reopen_map [of ?d3 "current_tables sq d2"]
    by (auto simp: tx_ok_def db_ok_def close_db_def db_map_def current_tables_def)
  ultimately show ?thesis using d1 d2 crash by auto
qed

end

text \<open>A library without errors, on keys that do not look like numbers; the engine is the delegate.\<close>

definition plain_sqlite :: sqlite where
  "plain_sqlite = \<lparr>sq_error = (\<lambda>T st. None), sq_openError = None, sq_reopenError = None, sq_notThreadSafe = False,
     sq_key = (\<lambda>key. key), sq_unlink = Unlinked, sq_path = ''build.db'', clientSchemaVersion = 9,
     recreateOnUnmatchedVersion = True, delegate_getKeyID = (\<lambda>key. key), delegate_getKeyForID = (\<lambda>keyID. keyID)\<rparr>"

interpretation plain: working_sqlite plain_sqlite
  by unfold_locales (simp_all add: plain_sqlite_def)

section \<open>Properties\<close>

text \<open>
  C14: the database is a map. With a library that reports no errors, any sequence of lookups and
  stores on a well-formed database, of keys that the column type leaves alone and with room for
  the new names, succeeds; every lookup returns what was last stored under the key, with its
  dependencies, and the database stands for the updated map afterwards. This holds whether a key
  is found through the cache of identifiers or through the table of names, on an open connection
  as well as on a closed one, and on a missing file.
\<close>

theorem sqlite_refines_map:
  assumes "working_sqlite sq" "db_ok sq (sum_list (map op_names ops)) d" "list_all (op_fits sq) ops"
  shows "\<exists>d'. run_ops (db_lookup sq) (db_store sq) ops d = Some (fst (spec_ops norm_result ops (db_map sq d)), d') \<and>
    db_map sq d' = snd (spec_ops norm_result ops (db_map sq d))"
  using working_sqlite.run_ops_map [OF assms] .

definition sample_ops :: "db_op list" where
  "sample_ops = [StoreResult ''Nfoo'' (initial_result\<lparr>res_value := [1], builtAt := 3,
      dependencies := pack_deps [(''Nbar'', True, False)]\<rparr>), LookupResult ''Nfoo'', LookupResult ''Nbar'']"

lemma sample_db_ok: "db_ok plain_sqlite n (newSQLiteBuildDB None) \<longleftrightarrow> n < 2 ^ 62"
  by (auto simp: db_ok_def newSQLiteBuildDB_def current_tables_def freshTables_def tables_ok_def caches_ok_def room_def)

lemma sample_ops_fit:
  "db_ok plain_sqlite (sum_list (map op_names sample_ops)) (newSQLiteBuildDB None)" "list_all (op_fits plain_sqlite) sample_ops"
  unfolding sample_db_ok
  by (simp_all add: sample_ops_def deps_entries_def pack_deps_def result_fits_def storable_def plain_sqlite_def initial_result_def)

lemma sample_spec:
  "fst (spec_ops norm_result sample_ops (db_map plain_sqlite (newSQLiteBuildDB None))) =
     [Some (initial_result\<lparr>res_value := [1], builtAt := 3, dependencies := pack_deps [(''Nbar'', True, False)]\<rparr>), None]"
  by (simp add: sample_ops_def norm_result_def deps_entries_def pack_deps_def db_map_def db_view_def current_tables_def
      newSQLiteBuildDB_def freshTables_def find_key_def)

theorem sqlite_refines_map_witness:
  "\<exists>d'. run_ops (db_lookup plain_sqlite) (db_store plain_sqlite) sample_ops (newSQLiteBuildDB None) =
     Some ([Some (initial_result\<lparr>res_value := [1], builtAt := 3, dependencies := pack_deps [(''Nbar'', True, False)]\<rparr>), None], d')"
  using sqlite_refines_map [OF plain.working_sqlite_axioms sample_ops_fit] unfolding sample_spec by blast

text \<open>
  C15: a build is one transaction. From a well-formed database with nothing uncommitted, starting a
  build, any number of lookups and stores, and completing the build all succeed. Until the build
  is completed, a process that opens the file anew (after a crash, say) finds exactly the results
  from before the build; afterwards it finds all results of the build.
\<close>

theorem sqlite_build_atomic:
  assumes "working_sqlite sq" "db_ok sq (sum_list (map op_names ops)) d" "list_all (op_fits sq) ops" "\<not> db_inTransaction d"
    "db_handle d \<longrightarrow> db_file d = db_tables d \<and> right_version sq (the (db_tables d))"
  shows "\<exists>d1 d2 d3. buildStarted_db sq d = Some ([], d1) \<and>
    run_ops (db_lookup sq) (db_store sq) ops d1 = Some (fst (spec_ops norm_result ops (db_map sq d)), d2) \<and>
    db_map sq (newSQLiteBuildDB (db_file d2)) = db_map sq d \<and>
    buildComplete_db sq d2 = Some d3 \<and>
    db_map sq (newSQLiteBuildDB (db_file d3)) = snd (spec_ops norm_result ops (db_map sq d))"
  using working_sqlite.build_atomic [OF assms] .

theorem sqlite_build_atomic_witness:
  "\<exists>d1 d2 d3. buildStarted_db plain_sqlite (newSQLiteBuildDB None) = Some ([], d1) \<and>
    run_ops (db_lookup plain_sqlite) (db_store plain_sqlite) sample_ops d1 =
      Some (fst (spec_ops norm_result sample_ops (db_map plain_sqlite (newSQLiteBuildDB None))), d2) \<and>
    db_map plain_sqlite (newSQLiteBuildDB (db_file d2)) ''Nfoo'' = None \<and>
    buildComplete_db plain_sqlite d2 = Some d3 \<and>
    db_map plain_sqlite (newSQLiteBuildDB (db_file d3)) ''Nfoo'' \<noteq> None"
proof -
  have "\<not> db_inTransaction (newSQLiteBuildDB None)"
      "db_handle (newSQLiteBuildDB None) \<longrightarrow> db_file (newSQLiteBuildDB None) = db_tables (newSQLiteBuildDB None)
        \<and> right_version plain_sqlite (the (db_tables (newSQLiteBuildDB None)))"
    by (simp_all add: newSQLiteBuildDB_def)
  moreover have "db_map plain_sqlite (newSQLiteBuildDB None) ''Nfoo'' = None"
    by (simp add: db_map_def db_view_def current_tables_def newSQLiteBuildDB_def freshTables_def find_key_def)
  moreover have "snd (spec_ops norm_result sample_ops m) ''Nfoo'' \<noteq> None" for m
    by (simp add: sample_ops_def)
  ultimately show ?thesis
    using sqlite_build_atomic [OF plain.working_sqlite_axioms sample_ops_fit] by fastforce
qed

section \<open>Where the contract breaks\<close>

text \<open>
  The column type \<^verbatim>\<open>STRING\<close> has numeric affinity: two keys that are the same number share a name,
  and a result stored under one is found under the other.
\<close>

definition numeric_sqlite :: sqlite where
  "numeric_sqlite = plain_sqlite\<lparr>sq_key := dropWhile (\<lambda>c. c = CHR ''0'')\<rparr>"

lemma numeric_keys_collide:
  "map_option fst (run_ops (db_lookup numeric_sqlite) (db_store numeric_sqlite)
     [StoreResult ''007'' (initial_result\<lparr>res_value := [1]\<rparr>), LookupResult ''7''] (newSQLiteBuildDB None))
   = Some [Some (initial_result\<lparr>res_value := [1]\<rparr>)]"
  by code_simp

text \<open>
  A connection whose opening failed is kept: the next operation takes it for open, although no
  statement has been prepared, and uses a null statement.
\<close>

lemma failed_open_then_fault:
  assumes "sq_error sq (db_file d) SelectVersion = Some e" "\<not> sq_notThreadSafe sq" "sq_openError sq = None"
    "\<not> db_handle d" "\<not> db_prepared d"
  shows "\<exists>d' error. lookupRuleResult sq keyID key d = Some ((None, error), d') \<and> error \<noteq> [] \<and>
    lookupRuleResult sq' keyID key d' = None"
  using assms
  by (auto simp: lookupRuleResult_def with_open_def open_db_def findRow_def getCurrentErrorMessage_def Let_def
      split: Option.bind_splits)

text \<open>When there is no file to unlink, the schema is created on a null handle.\<close>

lemma recreate_without_file:
  assumes "sq_unlink sq = NoSuchFile" "recreateOnUnmatchedVersion sq" "\<not> sq_notThreadSafe sq" "sq_openError sq = None"
    "sq_error sq None SelectVersion = None"
  shows "open_db sq (newSQLiteBuildDB None) = None"
  using assms by (simp add: open_db_def newSQLiteBuildDB_def stored_version_def currentSchemaVersion_def recreateDatabase_def Let_def)

text \<open>
  The caches outlive the file. If it is replaced between two builds of one process, a cached
  identifier names no key of the new file: the stored dependency cannot be resolved by
  the next process.
\<close>

definition cached_db :: SQLiteBuildDB where
  "cached_db = (newSQLiteBuildDB None)\<lparr>engineKeyIDs := [(2, ''Nbar'')], dbKeyIDs := [(''Nbar'', 2)]\<rparr>"

definition stale_file :: "(string \<times> Tables option) option" where
  "stale_file = map_option (\<lambda>(error, d). (error, db_file d)) (setRuleResult plain_sqlite ''Nfoo''
     (initial_result\<lparr>dependencies := pack_deps [(''Nbar'', False, False)]\<rparr>) cached_db)"

lemma stale_cache:
  "map_option fst stale_file = Some []"
  "map_option (\<lambda>((r, error), d). (r, error = [])) (lookupRuleResult plain_sqlite ''Nfoo'' ''Nfoo''
     (newSQLiteBuildDB (snd (the stale_file)))) = Some (None, False)"
  by code_simp+

end
