(* ===== verification/ExecutionQueue.thy ===== *)
theory ExecutionQueue
  imports Subprocess "HOL-Library.Char_ord" "HOL-Library.List_Lexorder"
begin

text \<open>
  The execution queues: \<^verbatim>\<open>lib/Basic/LaneBasedExecutionQueue.cpp\<close> (the schedulers, the lanes, the
  task limits, cancellation, process execution), \<^verbatim>\<open>lib/Basic/SerialQueue.cpp\<close> and the helpers of
  \<^verbatim>\<open>lib/Basic/ExecutionQueue.cpp\<close>.

  A lane is a thread; its loop body is cut where it takes and releases the queue's mutex. Under the
  mutex it goes to sleep on the condition variable, leaves its loop, or takes a job (\<open>nextJobs\<close>
  lists the possible ones and \<open>startJob\<close> begins to run it); the run of the job ends with
  \<open>finishJob\<close>, and the threads interleave in the step relation \<open>lane_step\<close>. A lane that sleeps takes
  no step of its own: it goes on only after \<open>notify_one\<close>, \<open>notify_all\<close> or a spurious wake-up, and
  then tests its condition again. What a job does while it runs reaches the queue only through its
  operations, so adding jobs and cancelling are steps of their own.
\<close>

section \<open>Jobs and schedulers\<close>

record JobDescriptor =
  ordinalName :: string
  shortDescription :: string

text \<open>The work of a job is a closure, identified by a number.\<close>

record QueueJob =
  j_desc :: "JobDescriptor option"
  j_work :: nat

datatype QueueJobPriority = Normal | High

datatype SchedulerAlgorithm = NamePriority | FIFO

definition QueueJobLess :: "QueueJob \<Rightarrow> QueueJob \<Rightarrow> bool" where
  "QueueJobLess x y \<longleftrightarrow> ordinalName (the (j_desc x)) < ordinalName (the (j_desc y))"

text \<open>
  The priority queue as the list of its elements: \<^verbatim>\<open>top\<close> is some element that no other exceeds, and
  the standard does not say which when several qualify, so \<open>pq_getNextJob\<close> lists all outcomes.
  Pushing onto a queue that is not empty compares descriptors, which must not be null.
\<close>

definition pq_addJob :: "QueueJob \<Rightarrow> QueueJob list \<Rightarrow> QueueJob list option" where
  "pq_addJob job jobs = do {
     assert_that (jobs = [] \<or> list_all (\<lambda>j. j_desc j \<noteq> None) (job # jobs));
     Some (jobs @ [job]) }"

definition pq_getNextJob :: "QueueJob list \<Rightarrow> (QueueJob \<times> QueueJob list) list" where
  "pq_getNextJob jobs =
     map (\<lambda>job. (job, remove1 job jobs))
       (filter (\<lambda>job. list_all (\<lambda>j. \<not> QueueJobLess job j) jobs) jobs)"

definition fifo_addJob :: "QueueJob \<Rightarrow> QueueJob list \<Rightarrow> QueueJob list option" where
  "fifo_addJob job jobs = Some (jobs @ [job])"

definition fifo_getNextJob :: "QueueJob list \<Rightarrow> (QueueJob \<times> QueueJob list) list" where
  "fifo_getNextJob jobs = (case jobs of [] \<Rightarrow> [] | job # rest \<Rightarrow> [(job, rest)])"

datatype Scheduler = PriorityQueueScheduler "QueueJob list" | FifoScheduler "QueueJob list"

fun makeScheduler :: "SchedulerAlgorithm \<Rightarrow> Scheduler" where
  "makeScheduler NamePriority = PriorityQueueScheduler []"
| "makeScheduler FIFO = FifoScheduler []"

fun scheduler_addJob :: "QueueJob \<Rightarrow> Scheduler \<Rightarrow> Scheduler option" where
  "scheduler_addJob job (PriorityQueueScheduler jobs) = map_option PriorityQueueScheduler (pq_addJob job jobs)"
| "scheduler_addJob job (FifoScheduler jobs) = map_option FifoScheduler (fifo_addJob job jobs)"

fun scheduler_getNextJob :: "Scheduler \<Rightarrow> (QueueJob \<times> Scheduler) list" where
  "scheduler_getNextJob (PriorityQueueScheduler jobs) =
     map (\<lambda>(job, rest). (job, PriorityQueueScheduler rest)) (pq_getNextJob jobs)"
| "scheduler_getNextJob (FifoScheduler jobs) =
     map (\<lambda>(job, rest). (job, FifoScheduler rest)) (fifo_getNextJob jobs)"

fun scheduler_jobs :: "Scheduler \<Rightarrow> QueueJob list" where
  "scheduler_jobs (PriorityQueueScheduler jobs) = jobs"
| "scheduler_jobs (FifoScheduler jobs) = jobs"

definition scheduler_empty :: "Scheduler \<Rightarrow> bool" where
  "scheduler_empty s \<longleftrightarrow> scheduler_jobs s = []"

definition scheduler_size :: "Scheduler \<Rightarrow> nat" where
  "scheduler_size s = length (scheduler_jobs s)"

section \<open>Task limits\<close>

definition reservedFileCount :: nat where
  "reservedFileCount = 3 + 2 + 1 + 2 + 2"

definition INT_MAX :: nat where
  "INT_MAX = 2147483647"

text \<open>\<^verbatim>\<open>StringRef::getAsInteger(10, unsigned&)\<close>.\<close>

definition decimal_value :: "string \<Rightarrow> nat" where
  "decimal_value s = foldl (\<lambda>n c. 10 * n + (of_char c - 48)) 0 s"

definition getAsInteger :: "string \<Rightarrow> nat option" where
  "getAsInteger s =
     (if s \<noteq> [] \<and> list_all (\<lambda>c. CHR ''0'' \<le> c \<and> c \<le> CHR ''9'') s \<and> decimal_value s < 2 ^ 32
      then Some (decimal_value s) else None)"

text \<open>\<^verbatim>\<open>sys::getOpenFileLimit\<close>: the soft limit that \<^verbatim>\<open>getrlimit\<close> stores, 0 when it fails.\<close>

definition getOpenFileLimit :: "nat option \<Rightarrow> nat" where
  "getOpenFileLimit rlim_cur = (case rlim_cur of None \<Rightarrow> 0 | Some n \<Rightarrow> n)"

text \<open>
  \<^verbatim>\<open>estimateTaskLimits\<close>: the number of lanes and of background tasks for a suggested number of
  lanes, from the open-file limit and the value of \<^verbatim>\<open>LLBUILD_BACKGROUND_TASK_MAX\<close>, if set. The
  product with 64 is taken in 32 bits.
\<close>

definition estimateTaskLimits :: "nat \<Rightarrow> string option \<Rightarrow> nat \<Rightarrow> nat \<times> nat" where
  "estimateTaskLimits curOpenFileLimit env_max numLanes =
     (if curOpenFileLimit < reservedFileCount then (1, 0)
      else
        let allowedFilesForTasks = min curOpenFileLimit INT_MAX - reservedFileCount;
            filesPerTask = 2;
            maxConcurrentTasks = allowedFilesForTasks div filesPerTask
        in if numLanes > maxConcurrentTasks then (max 1 maxConcurrentTasks, 0)
           else
             let extraTasksMax = maxConcurrentTasks - numLanes;
                 backgroundTaskMax =
                   (case env_max \<bind> getAsInteger of
                      Some n \<Rightarrow> n
                    | None \<Rightarrow> min 1024 (numLanes * 64 mod 2 ^ 32))
             in (numLanes, min backgroundTaskMax extraTasksMax))"

section \<open>The lane queue\<close>

record lane =
  l_jobCount :: u32
  l_running :: "(QueueJob \<times> u64) option"
  l_waiting :: bool
  l_exited :: bool

datatype queue_event =
    QueueJobStarted "JobDescriptor option"
  | QueueJobFinished "JobDescriptor option"
  | SysKill int int

record LaneBasedExecutionQueue =
  q_buildID :: u32
  q_lanes :: "lane list"
  q_readyJobs :: Scheduler
  q_readyPriorityJobs :: Scheduler
  q_cancelled :: bool
  q_shutdown :: bool
  q_spawnedProcesses :: ProcessGroup
  q_killAfterTimeoutThread :: bool
  q_queueComplete :: bool
  q_backgroundTaskMax :: nat
  q_backgroundTaskCount :: nat
  q_environment :: "string list"
  q_log :: "queue_event list"

definition newLane :: lane where
  "newLane = \<lparr>l_jobCount = 0, l_running = None, l_waiting = False, l_exited = False\<rparr>"

definition newLaneBasedExecutionQueue ::
  "u32 \<Rightarrow> nat \<times> nat \<Rightarrow> SchedulerAlgorithm \<Rightarrow> string list \<Rightarrow> LaneBasedExecutionQueue" where
  "newLaneBasedExecutionQueue buildID taskLimits alg environment =
     \<lparr>q_buildID = buildID, q_lanes = replicate (fst taskLimits) newLane,
      q_readyJobs = makeScheduler alg, q_readyPriorityJobs = FifoScheduler [],
      q_cancelled = False, q_shutdown = False, q_spawnedProcesses = newProcessGroup,
      q_killAfterTimeoutThread = False, q_queueComplete = False,
      q_backgroundTaskMax = snd taskLimits, q_backgroundTaskCount = 0,
      q_environment = environment, q_log = []\<rparr>"

definition q_emit :: "queue_event list \<Rightarrow> LaneBasedExecutionQueue \<Rightarrow> LaneBasedExecutionQueue" where
  "q_emit ev q = q\<lparr>q_log := q_log q @ ev\<rparr>"

text \<open>The job enters its scheduler; the notification that follows under the mutex is in \<open>lane_step\<close>.\<close>

definition addJob ::
  "QueueJob \<Rightarrow> QueueJobPriority \<Rightarrow> LaneBasedExecutionQueue \<Rightarrow> LaneBasedExecutionQueue option" where
  "addJob job priority q =
     (if priority = High
      then map_option (\<lambda>s. q\<lparr>q_readyPriorityJobs := s\<rparr>) (scheduler_addJob job (q_readyPriorityJobs q))
      else map_option (\<lambda>s. q\<lparr>q_readyJobs := s\<rparr>) (scheduler_addJob job (q_readyJobs q)))"

text \<open>The lane's part of a job identifier, and the identifier of its \<open>jobCount\<close>-th job.\<close>

definition laneID :: "u32 \<Rightarrow> u32 \<Rightarrow> u64" where
  "laneID buildID laneNumber =
     push_bit 32 (ucast buildID AND 0xFFFF) + push_bit 16 (ucast laneNumber AND 0xFFFF)"

definition jobID :: "u32 \<Rightarrow> u32 \<Rightarrow> u32 \<Rightarrow> u64" where
  "jobID buildID laneNumber jobCount = laneID buildID laneNumber + ucast jobCount"

text \<open>
  The section under the mutex, up to the test for an empty job: the jobs that lane \<open>i\<close> may take,
  with the queue afterwards.
\<close>

definition nextJobs :: "LaneBasedExecutionQueue \<Rightarrow> (QueueJob \<times> LaneBasedExecutionQueue) list" where
  "nextJobs q =
     (if \<not> scheduler_empty (q_readyPriorityJobs q)
      then map (\<lambda>(job, s). (job, q\<lparr>q_readyPriorityJobs := s\<rparr>)) (scheduler_getNextJob (q_readyPriorityJobs q))
      else map (\<lambda>(job, s). (job, q\<lparr>q_readyJobs := s\<rparr>)) (scheduler_getNextJob (q_readyJobs q)))"

definition setLane :: "nat \<Rightarrow> lane \<Rightarrow> LaneBasedExecutionQueue \<Rightarrow> LaneBasedExecutionQueue" where
  "setLane i l q = q\<lparr>q_lanes := (q_lanes q)[i := l]\<rparr>"

definition queuesEmpty :: "LaneBasedExecutionQueue \<Rightarrow> bool" where
  "queuesEmpty q \<longleftrightarrow> scheduler_empty (q_readyJobs q) \<and> scheduler_empty (q_readyPriorityJobs q)"

definition startJob :: "nat \<Rightarrow> QueueJob \<Rightarrow> LaneBasedExecutionQueue \<Rightarrow> LaneBasedExecutionQueue" where
  "startJob i job q =
     (let l = q_lanes q ! i;
          jobCount = l_jobCount l + 1
      in case j_desc job of
           None \<Rightarrow> setLane i (l\<lparr>l_exited := True\<rparr>) q
         | Some d \<Rightarrow>
             q_emit [QueueJobStarted (Some d)]
               (setLane i (l\<lparr>l_jobCount := jobCount,
                             l_running := Some (job, jobID (q_buildID q) (of_nat i) jobCount)\<rparr>) q))"

definition finishJob :: "nat \<Rightarrow> LaneBasedExecutionQueue \<Rightarrow> LaneBasedExecutionQueue" where
  "finishJob i q =
     (case l_running (q_lanes q ! i) of
        None \<Rightarrow> q
      | Some (job, ident) \<Rightarrow>
          setLane i ((q_lanes q ! i)\<lparr>l_running := None\<rparr>) (q_emit [QueueJobFinished (j_desc job)] q))"

definition exitLane :: "nat \<Rightarrow> LaneBasedExecutionQueue \<Rightarrow> LaneBasedExecutionQueue" where
  "exitLane i q = setLane i ((q_lanes q ! i)\<lparr>l_exited := True\<rparr>) q"

text \<open>
  The condition variable \<^verbatim>\<open>readyJobsCondition\<close>: a lane waits on it until it is woken. The standard does
  not say which of several waiting threads \<^verbatim>\<open>notify_one\<close> wakes, so all outcomes are listed; without
  a waiting thread a notification has no effect and is not remembered.
\<close>

definition waitLane :: "nat \<Rightarrow> LaneBasedExecutionQueue \<Rightarrow> LaneBasedExecutionQueue" where
  "waitLane i q = setLane i ((q_lanes q ! i)\<lparr>l_waiting := True\<rparr>) q"

definition wakeLane :: "nat \<Rightarrow> LaneBasedExecutionQueue \<Rightarrow> LaneBasedExecutionQueue" where
  "wakeLane i q = setLane i ((q_lanes q ! i)\<lparr>l_waiting := False\<rparr>) q"

definition notify_one :: "LaneBasedExecutionQueue \<Rightarrow> LaneBasedExecutionQueue list" where
  "notify_one q =
     (case filter (\<lambda>i. l_waiting (q_lanes q ! i)) [0..<length (q_lanes q)] of
        [] \<Rightarrow> [q]
      | waiting \<Rightarrow> map (\<lambda>i. wakeLane i q) waiting)"

definition notify_all :: "LaneBasedExecutionQueue \<Rightarrow> LaneBasedExecutionQueue" where
  "notify_all q = q\<lparr>q_lanes := map (\<lambda>l. l\<lparr>l_waiting := False\<rparr>) (q_lanes q)\<rparr>"

text \<open>The destructor: the request to shut down, and what follows once every lane has been joined.\<close>

definition shutdownLanes :: "LaneBasedExecutionQueue \<Rightarrow> LaneBasedExecutionQueue" where
  "shutdownLanes q = notify_all (q\<lparr>q_shutdown := True\<rparr>)"

definition completeQueue :: "LaneBasedExecutionQueue \<Rightarrow> LaneBasedExecutionQueue" where
  "completeQueue q = (if q_killAfterTimeoutThread q then q\<lparr>q_queueComplete := True\<rparr> else q)"

definition cancelAllJobs :: "LaneBasedExecutionQueue \<Rightarrow> LaneBasedExecutionQueue" where
  "cancelAllJobs q =
     (if q_cancelled q then q
      else let q = q\<lparr>q_cancelled := True, q_spawnedProcesses := pg_close (q_spawnedProcesses q)\<rparr>;
               q = notify_all q;
               q = q_emit (map (\<lambda>(pid, sig). SysKill pid sig) (signalAll SIGINT (q_spawnedProcesses q))) q
           in q\<lparr>q_killAfterTimeoutThread := True\<rparr>)"

text \<open>
  The thread that escalates. It reads \<^verbatim>\<open>queueComplete\<close> once, before it waits (\<open>complete\<close>), and not
  again: \<open>q\<close> is the queue when the wait has been woken or has timed out, and the signals are sent
  in both cases.
\<close>

definition killAfterTimeout :: "bool \<Rightarrow> LaneBasedExecutionQueue \<Rightarrow> LaneBasedExecutionQueue" where
  "killAfterTimeout complete q =
     (if \<not> complete
      then q_emit (map (\<lambda>(pid, sig). SysKill pid sig) (signalAll SIGKILL (q_spawnedProcesses q))) q
      else q)"

text \<open>\<^verbatim>\<open>releaseFn\<close>: whether the wait moves to a thread of its own; and the end of such a thread.\<close>

definition releaseFn :: "LaneBasedExecutionQueue \<Rightarrow> bool \<times> LaneBasedExecutionQueue" where
  "releaseFn q =
     (let previousTaskCount = q_backgroundTaskCount q;
          q = q\<lparr>q_backgroundTaskCount := previousTaskCount + 1\<rparr>
      in if previousTaskCount < q_backgroundTaskMax q then (True, q)
         else (False, q\<lparr>q_backgroundTaskCount := q_backgroundTaskCount q - 1\<rparr>))"

definition backgroundTaskDone :: "LaneBasedExecutionQueue \<Rightarrow> LaneBasedExecutionQueue" where
  "backgroundTaskDone q = q\<lparr>q_backgroundTaskCount := q_backgroundTaskCount q - 1\<rparr>"

section \<open>Executing processes\<close>

text \<open>\<^verbatim>\<open>StringRef::split('=')\<close>.\<close>

definition split_assignment :: "string \<Rightarrow> string \<times> string" where
  "split_assignment s =
     (takeWhile (\<lambda>c. c \<noteq> CHR ''='') s, drop 1 (dropWhile (\<lambda>c. c \<noteq> CHR ''='') s))"

definition processEnvironment ::
  "u32 \<Rightarrow> nat \<Rightarrow> (string \<times> string) list \<Rightarrow> bool \<Rightarrow> string list \<Rightarrow> POSIXEnvironment option" where
  "processEnvironment buildID laneNumber environment inheritEnvironment base = do {
     e \<leftarrow> setIfMissing ''LLBUILD_BUILD_ID'' (decstr (uint buildID)) newPOSIXEnvironment;
     e \<leftarrow> setIfMissing ''LLBUILD_LANE_ID'' (decstr (int laneNumber)) e;
     e \<leftarrow> foldM_option (\<lambda>(k, v). setIfMissing k v) environment e;
     if inheritEnvironment
     then foldM_option (\<lambda>p. setIfMissing (fst (split_assignment p)) (snd (split_assignment p))) base e
     else Some e }"

definition executeProcess ::
  "spawn_os \<Rightarrow> nat \<Rightarrow> u64 \<Rightarrow> string list \<Rightarrow> (string \<times> string) list \<Rightarrow> ProcessAttributes
   \<Rightarrow> LaneBasedExecutionQueue \<Rightarrow> (proc_event list \<times> spawn_outcome) option" where
  "executeProcess os laneNumber ident commandLine environment attributes q =
     (if q_cancelled q then Some ([Completion (makeCancelled (- 1))], SpawnReturned)
      else do {
        posixEnv \<leftarrow> processEnvironment (q_buildID q) laneNumber environment
                      (a_inheritEnvironment attributes) (q_environment q);
        spawnProcess os (q_spawnedProcesses q) ident commandLine posixEnv attributes })"

text \<open>The two helpers of \<^verbatim>\<open>ExecutionQueue.cpp\<close>: the status of an inherited run and of a shell command.\<close>

definition defaultAttributes :: ProcessAttributes where
  "defaultAttributes = \<lparr>a_canSafelyInterrupt = True, a_connectToConsole = False, a_workingDir = [],
     a_inheritEnvironment = True, a_controlEnabled = True\<rparr>"

fun completionResult :: "proc_event list \<Rightarrow> ProcessResult option" where
  "completionResult [] = None"
| "completionResult (Completion r # es) = Some r"
| "completionResult (_ # es) = completionResult es"

definition executeProcessStatus ::
  "spawn_os \<Rightarrow> nat \<Rightarrow> u64 \<Rightarrow> string list \<Rightarrow> LaneBasedExecutionQueue \<Rightarrow> ProcessStatus option" where
  "executeProcessStatus os laneNumber ident commandLine q = do {
     (log, out) \<leftarrow> executeProcess os laneNumber ident commandLine [] defaultAttributes q;
     log' \<leftarrow> (case out of
                SpawnReleased pid outputFd controlFd \<Rightarrow> processWait os pid outputFd controlFd
              | _ \<Rightarrow> Some []);
     r \<leftarrow> completionResult (log @ log');
     Some (r_status r) }"

definition DefaultShellPath :: string where
  "DefaultShellPath = ''/bin/sh''"

definition executeShellCommand ::
  "spawn_os \<Rightarrow> nat \<Rightarrow> u64 \<Rightarrow> string \<Rightarrow> LaneBasedExecutionQueue \<Rightarrow> bool option" where
  "executeShellCommand os laneNumber ident command q =
     map_option (\<lambda>st. st = Succeeded)
       (executeProcessStatus os laneNumber ident
          [DefaultShellPath, ''-c'', takeWhile (\<lambda>c. c \<noteq> CHR 0x00) command] q)"

section \<open>The interleaving of the lanes\<close>

text \<open>\<open>addJob\<close> notifies after the job is in the queue, in the same section under the mutex.\<close>

datatype queue_label =
    LAdd QueueJob QueueJobPriority
  | LWait nat
  | LWake nat
  | LTake nat QueueJob
  | LFinish nat QueueJob
  | LExit nat
  | LCancel
  | LShutdown

text \<open>A lane that is in its loop, awake and not running a job.\<close>

definition l_idle :: "lane \<Rightarrow> bool" where
  "l_idle l \<longleftrightarrow> \<not> l_exited l \<and> \<not> l_waiting l \<and> l_running l = None"

inductive lane_step :: "LaneBasedExecutionQueue \<Rightarrow> queue_label \<Rightarrow> LaneBasedExecutionQueue \<Rightarrow> bool" where
  Add: "addJob job prio q = Some q' \<Longrightarrow> q'' \<in> set (notify_one q') \<Longrightarrow> lane_step q (LAdd job prio) q''"
| Wait: "i < length (q_lanes q) \<Longrightarrow> l_idle (q_lanes q ! i) \<Longrightarrow>
         \<not> q_shutdown q \<Longrightarrow> queuesEmpty q \<Longrightarrow> lane_step q (LWait i) (waitLane i q)"
| Wake: "i < length (q_lanes q) \<Longrightarrow> l_waiting (q_lanes q ! i) \<Longrightarrow> lane_step q (LWake i) (wakeLane i q)"
| Take: "i < length (q_lanes q) \<Longrightarrow> l_idle (q_lanes q ! i) \<Longrightarrow>
         \<not> queuesEmpty q \<Longrightarrow> (job, q') \<in> set (nextJobs q) \<Longrightarrow>
         lane_step q (LTake i job) (startJob i job q')"
| Finish: "i < length (q_lanes q) \<Longrightarrow> l_running (q_lanes q ! i) = Some (job, ident) \<Longrightarrow>
           lane_step q (LFinish i job) (finishJob i q)"
| Exit: "i < length (q_lanes q) \<Longrightarrow> l_idle (q_lanes q ! i) \<Longrightarrow>
         q_shutdown q \<Longrightarrow> queuesEmpty q \<Longrightarrow> lane_step q (LExit i) (exitLane i q)"
| Cancel: "lane_step q LCancel (cancelAllJobs q)"
| Shutdown: "lane_step q LShutdown (shutdownLanes q)"

inductive_cases lane_stepE: "lane_step q l q'"

inductive lane_run :: "LaneBasedExecutionQueue \<Rightarrow> queue_label list \<Rightarrow> LaneBasedExecutionQueue \<Rightarrow> bool" where
  Start: "lane_run q [] q"
| Step: "lane_run q ls q' \<Longrightarrow> lane_step q' l q'' \<Longrightarrow> lane_run q (ls @ [l]) q''"

section \<open>The serial queue\<close>

text \<open>
  Operations of \<^verbatim>\<open>SerialQueueImpl\<close>; \<^term>\<open>None\<close> is the nil function that the destructor adds. The worker
  takes operations from the front until it meets the nil function.
\<close>

record 'f SerialQueueImpl =
  s_operations :: "'f option list"
  s_executed :: "'f list"
  s_stopped :: bool

definition newSerialQueue :: "'f SerialQueueImpl" where
  "newSerialQueue = \<lparr>s_operations = [], s_executed = [], s_stopped = False\<rparr>"

definition addOperation :: "'f option \<Rightarrow> 'f SerialQueueImpl \<Rightarrow> 'f SerialQueueImpl" where
  "addOperation f q = q\<lparr>s_operations := s_operations q @ [f]\<rparr>"

text \<open>One round of \<^verbatim>\<open>run\<close>; \<^term>\<open>None\<close> while the worker waits or after it has left its loop.\<close>

definition runOperation :: "'f SerialQueueImpl \<Rightarrow> 'f SerialQueueImpl option" where
  "runOperation q =
     (if s_stopped q then None
      else case s_operations q of
        [] \<Rightarrow> None
      | None # rest \<Rightarrow> Some (q\<lparr>s_operations := rest, s_stopped := True\<rparr>)
      | Some f # rest \<Rightarrow> Some (q\<lparr>s_operations := rest, s_executed := s_executed q @ [f]\<rparr>))"

text \<open>\<^verbatim>\<open>async\<close> and \<^verbatim>\<open>sync\<close> assert that the function is not nil.\<close>

definition serial_async :: "'f option \<Rightarrow> 'f SerialQueueImpl \<Rightarrow> 'f SerialQueueImpl option" where
  "serial_async f q = (case f of None \<Rightarrow> None | Some g \<Rightarrow> Some (addOperation (Some g) q))"

text \<open>The caller of \<^verbatim>\<open>sync\<close> may continue once its operation is among the executed ones.\<close>

definition sync_complete :: "nat \<Rightarrow> 'f SerialQueueImpl \<Rightarrow> bool" where
  "sync_complete ticket q \<longleftrightarrow> ticket < length (s_executed q)"

inductive serial_run :: "'f SerialQueueImpl \<Rightarrow> 'f option list \<Rightarrow> 'f SerialQueueImpl \<Rightarrow> bool" where
  SerialStart: "serial_run q [] q"
| SerialAdd: "serial_run q fs q' \<Longrightarrow> serial_run q (fs @ [f]) (addOperation f q')"
| SerialRun: "serial_run q fs q' \<Longrightarrow> runOperation q' = Some q'' \<Longrightarrow> serial_run q fs q''"

text \<open>The execution queue built on it: the job numbers and the process execution of its one lane.\<close>

record SerialExecutionQueue =
  sq_buildID :: u32
  sq_queue :: "(u64 \<times> QueueJob) SerialQueueImpl"
  sq_jobCount :: u64
  sq_cancelled :: bool
  sq_spawnedProcesses :: ProcessGroup
  sq_killAfterTimeoutThread :: bool
  sq_environment :: "string list"
  sq_log :: "queue_event list"

definition serial_addJob :: "QueueJob \<Rightarrow> QueueJobPriority \<Rightarrow> SerialExecutionQueue \<Rightarrow> SerialExecutionQueue option" where
  "serial_addJob job prio q =
     (let ident = sq_jobCount q + 1
      in map_option (\<lambda>s. q\<lparr>sq_jobCount := ident, sq_queue := s\<rparr>) (serial_async (Some (ident, job)) (sq_queue q)))"

definition serial_cancelAllJobs :: "SerialExecutionQueue \<Rightarrow> SerialExecutionQueue" where
  "serial_cancelAllJobs q =
     (if sq_cancelled q then q
      else let q = q\<lparr>sq_cancelled := True, sq_spawnedProcesses := pg_close (sq_spawnedProcesses q)\<rparr>
           in q\<lparr>sq_log := sq_log q @ map (\<lambda>(pid, sig). SysKill pid sig) (signalAll SIGINT (sq_spawnedProcesses q)),
                sq_killAfterTimeoutThread := True\<rparr>)"

definition serial_executeProcess ::
  "spawn_os \<Rightarrow> u64 \<Rightarrow> string list \<Rightarrow> (string \<times> string) list \<Rightarrow> ProcessAttributes
   \<Rightarrow> SerialExecutionQueue \<Rightarrow> (proc_event list \<times> spawn_outcome) option" where
  "serial_executeProcess os ident commandLine environment attributes q =
     (if sq_cancelled q then Some ([Completion (makeCancelled (- 1))], SpawnReturned)
      else do {
        posixEnv \<leftarrow> processEnvironment (sq_buildID q) 0 environment
                      (a_inheritEnvironment attributes) (sq_environment q);
        spawnProcess os (sq_spawnedProcesses q) ident commandLine posixEnv attributes })"

end
