(* ===== verification/SubprocessProps.thy ===== *)
theory SubprocessProps
  imports Subprocess
begin

text \<open>
  What the subprocess layer guarantees: the calls to the delegate and to the completion function
  are paired on every path but one, no descriptor leaks, the process leaves the group it entered;
  the call returns once the process has closed its pipes and ended; the control protocol reads the
  same message however the stream is cut into reads; an environment keeps the first value of a key.
\<close>

section \<open>The control protocol reads a stream\<close>

abbreviation line1 :: "string \<Rightarrow> string" where
  "line1 s \<equiv> takeWhile (\<lambda>ch. ch \<noteq> newline) s"

definition rest1 :: "string \<Rightarrow> string" where
  "rest1 s = drop 1 (dropWhile (\<lambda>ch. ch \<noteq> newline) s)"

text \<open>The meaning of the whole stream: the version line, then one control message.\<close>

definition control_spec :: "string \<Rightarrow> string \<Rightarrow> int \<times> bool" where
  "control_spec ident s =
     (if newline \<notin> set s then (0, False)
      else if line1 s \<noteq> ''llbuild.1'' then (- 1, False)
      else if newline \<notin> set (rest1 s) then (0, False)
      else (1, line1 (rest1 s) = ident))"

text \<open>The reads of the poll loop: each buffer in turn until the callback asks to stop.\<close>

fun control_feed :: "string list \<Rightarrow> ControlProtocolState \<Rightarrow> int \<times> ControlProtocolState" where
  "control_feed [] c = (0, c)"
| "control_feed (b # bs) c =
     (case control_read b c of (ret, errstr, c') \<Rightarrow> if ret = 0 then control_feed bs c' else (ret, c'))"

lemma control_read_Nil [simp]: "control_read [] c = (0, None, c)"
  by (simp add: control_read.simps)

lemma control_read_newline:
  "control_read (newline # xs) c =
     (if \<not> negotiated c then
        if partialMsg c \<noteq> ''llbuild.1''
        then (- 1, Some (''unsupported protocol: '' @ partialMsg c), c\<lparr>partialMsg := []\<rparr>)
        else control_read xs (c\<lparr>negotiated := True, partialMsg := []\<rparr>)
      else (1, Some ''bad ID'',
            c\<lparr>releaseSeen := (if partialMsg c = controlID c then True else releaseSeen c), partialMsg := []\<rparr>))"
  by (subst control_read.simps) (simp add: Let_def)

lemma control_read_other:
  assumes "ch \<noteq> newline" "xs = [] \<Longrightarrow> length (partialMsg c) < maxLength"
  shows "control_read (ch # xs) c = control_read xs (c\<lparr>partialMsg := partialMsg c @ [ch]\<rparr>)"
proof (cases c)
  case (fields i n m r)
  then show ?thesis
    using assms control_read.simps [of "ch # xs" c] control_read.simps [of xs "c\<lparr>partialMsg := partialMsg c @ [ch]\<rparr>"]
    by (cases "xs = []") (auto simp: Let_def)
qed

definition fits :: "string \<Rightarrow> ControlProtocolState \<Rightarrow> bool" where
  "fits s c \<longleftrightarrow> length (partialMsg c) + length (line1 s) \<le> maxLength
     \<and> (\<not> negotiated c \<longrightarrow> length (line1 (rest1 s)) \<le> maxLength)"

lemma fits_newline:
  "fits (newline # xs) c \<Longrightarrow> \<not> negotiated c \<Longrightarrow> fits xs (c\<lparr>negotiated := True, partialMsg := []\<rparr>)"
  by (simp add: fits_def rest1_def)

lemma fits_other:
  "ch \<noteq> newline \<Longrightarrow> fits (ch # xs) c \<Longrightarrow>
   fits xs (c\<lparr>partialMsg := partialMsg c @ [ch]\<rparr>) \<and> length (partialMsg c) < maxLength"
  by (simp add: fits_def rest1_def)

lemma control_read_append:
  "fits (a @ b) c \<Longrightarrow>
   control_read (a @ b) c = (case control_read a c of (ret, errstr, c') \<Rightarrow>
     if ret = 0 then control_read b c' else (ret, errstr, c'))
   \<and> (fst (control_read a c) = 0 \<longrightarrow> fits b (snd (snd (control_read a c))))"
proof (induction a arbitrary: c)
  case (Cons ch a)
  show ?case
  proof (cases "ch = newline")
    case True
    with Cons show ?thesis
      using fits_newline [of "a @ b" c]
      by (auto simp: control_read_newline)
  next
    case False
    with Cons show ?thesis
      using fits_other [of ch "a @ b" c] by (simp add: control_read_other)
  qed
qed simp

lemma control_feed_concat:
  "fits (concat bs) c \<Longrightarrow>
   control_feed bs c = (case control_read (concat bs) c of (ret, errstr, c') \<Rightarrow> (ret, c'))"
proof (induction bs arbitrary: c)
  case (Cons b bs)
  obtain ret errstr c' where r: "control_read b c = (ret, errstr, c')" by (cases "control_read b c")
  with Cons control_read_append [of b "concat bs" c] show ?case by auto
qed simp

lemma control_read_line:
  "newline \<in> set s \<Longrightarrow> fits s c \<Longrightarrow>
   control_read s c = control_read (newline # rest1 s) (c\<lparr>partialMsg := partialMsg c @ line1 s\<rparr>)"
proof (induction s arbitrary: c)
  case (Cons ch s)
  then show ?case
    using fits_other [of ch s c]
    by (cases "ch = newline") (auto simp: rest1_def control_read_other)
qed simp

lemma control_read_partial:
  "newline \<notin> set s \<Longrightarrow> fits s c \<Longrightarrow>
   control_read s c = (0, None, c\<lparr>partialMsg := partialMsg c @ s\<rparr>)"
proof (induction s arbitrary: c)
  case (Cons ch s)
  then show ?case using fits_other [of ch s c] by (auto simp: control_read_other)
qed simp

text \<open>
  C24. Provided that the two lines of the control stream of a subprocess are no longer than 16 characters, as
  the version and every identifier of a task are: however the stream is cut into reads, the callback reports the
  same result and asks for the same release as the specification of the whole stream, a version line
  \<^verbatim>\<open>llbuild.1\<close>, then one message, which releases the lane exactly if it is the identifier of the task. For
  longer lines the result does depend on the reads, see below.
\<close>

theorem control_stream_any_chunking:
  assumes "length (line1 (concat bs)) \<le> maxLength" "length (line1 (rest1 (concat bs))) \<le> maxLength"
  shows "(case control_feed bs (newControlProtocolState ident) of (ret, c) \<Rightarrow> (ret, shouldRelease c))
         = control_spec ident (concat bs)"
proof -
  let ?s = "concat bs" and ?c = "newControlProtocolState ident"
  have fits: "fits ?s ?c" using assms by (simp add: fits_def newControlProtocolState_def)
  consider "newline \<notin> set ?s" | "newline \<in> set ?s" by blast
  then have "(case control_read ?s ?c of (ret, errstr, c) \<Rightarrow> (ret, shouldRelease c)) = control_spec ident ?s"
  proof cases
    case 1
    then show ?thesis using fits
      by (simp add: control_read_partial control_spec_def shouldRelease_def newControlProtocolState_def)
  next
    case 2
    let ?r = "rest1 ?s" and ?c' = "?c\<lparr>negotiated := True, partialMsg := []\<rparr>"
    have fits': "fits ?r ?c'"
      using assms by (simp add: fits_def)
    show ?thesis
      using 2 fits fits' control_read_line [of ?r ?c'] control_read_partial [of ?r ?c']
      by (simp add: control_read_line control_read_newline control_spec_def shouldRelease_def
          newControlProtocolState_def)
  qed
  then show ?thesis using fits by (simp add: control_feed_concat split: prod.splits)
qed

theorem control_stream_any_chunking_witness:
  "(case control_feed [''llbu'', ''ild.1'' @ [newline] @ ''1'', ''000'' @ [newline]]
      (newControlProtocolState ''1000'') of (ret, c) \<Rightarrow> (ret, shouldRelease c)) = (1, True)"
  using control_stream_any_chunking
    [of "[''llbu'', ''ild.1'' @ [newline] @ ''1'', ''000'' @ [newline]]" "''1000''"]
  by (simp add: maxLength_def rest1_def newline_def control_spec_def)

text \<open>The identifiers that \<^verbatim>\<open>spawnProcess\<close> gives its processes are short enough.\<close>

lemma length_digits: "n < b ^ k \<Longrightarrow> 0 < k \<Longrightarrow> length (digits b n) \<le> k"
proof (induction k arbitrary: n)
  case (Suc k)
  show ?case
  proof (cases "b \<le> 1 \<or> n < b")
    case False
    then have "n div b < b ^ k" using Suc.prems by (simp add: less_mult_imp_div_less mult.commute)
    moreover have "0 < k" using False Suc.prems by (cases k) auto
    ultimately show ?thesis using Suc.IH [of "n div b"] False by (simp add: digits.simps [of b n])
  qed (simp add: digits.simps)
qed simp

lemma task_id_fits: "length (utohexstr handle) \<le> maxLength"
proof -
  have "unat handle < 16 ^ 16" using unsigned_less [of handle, where ?'a = nat] by simp
  then show ?thesis using length_digits [of "unat handle" 16 16] by (simp add: utohexstr_def maxLength_def)
qed

text \<open>
  Without the bound on the length of a line the result depends on how the stream is cut: a long
  identifier line is compared when it arrives whole and rejected when it arrives in two reads.
\<close>

lemma control_length_check_depends_on_chunks:
  fixes c :: ControlProtocolState
  defines "c \<equiv> \<lparr>controlID = ''x'', negotiated = True, partialMsg = [], releaseSeen = False\<rparr>"
  shows "fst (control_feed [replicate 17 CHR ''a'' @ [newline]] c) = 1"
    and "fst (control_feed [replicate 17 CHR ''a'', [newline]] c) = - 1"
  by (simp_all add: c_def control_read.simps newline_def maxLength_def numeral_eq_Suc Let_def)

section \<open>Projections of the log\<close>

fun is_protocol :: "proc_event \<Rightarrow> bool" where
  "is_protocol (ProcessStarted _) = True"
| "is_protocol (ProcessFinished _) = True"
| "is_protocol (Completion _) = True"
| "is_protocol _ = False"

fun is_group :: "proc_event \<Rightarrow> bool" where
  "is_group (GroupAdd _ _) = True"
| "is_group (GroupRemove _) = True"
| "is_group _ = False"

definition protocol :: "proc_event list \<Rightarrow> proc_event list" where
  "protocol = filter is_protocol"

definition group_events :: "proc_event list \<Rightarrow> proc_event list" where
  "group_events = filter is_group"

fun opened_by :: "proc_event \<Rightarrow> int multiset" where
  "opened_by (SysPipe r w) = {#r, w#}"
| "opened_by _ = {#}"

fun closed_by :: "proc_event \<Rightarrow> int multiset" where
  "closed_by (SysClose fd) = {#fd#}"
| "closed_by _ = {#}"

definition opened :: "proc_event list \<Rightarrow> int multiset" where
  "opened log = sum_list (map opened_by log)"

definition closed :: "proc_event list \<Rightarrow> int multiset" where
  "closed log = sum_list (map closed_by log)"

lemma projection_simps [simp]:
  "protocol [] = []" "group_events [] = []" "opened [] = {#}" "closed [] = {#}"
  "protocol (e # es) = (if is_protocol e then e # protocol es else protocol es)"
  "group_events (e # es) = (if is_group e then e # group_events es else group_events es)"
  "opened (e # es) = opened_by e + opened es"
  "closed (e # es) = closed_by e + closed es"
  "protocol (xs @ ys) = protocol xs @ protocol ys"
  "group_events (xs @ ys) = group_events xs @ group_events ys"
  "opened (xs @ ys) = opened xs + opened ys"
  "closed (xs @ ys) = closed xs + closed ys"
  by (simp_all add: protocol_def group_events_def opened_def closed_def)

section \<open>Each stage of a spawn\<close>

definition live :: "ManagedDescriptor \<Rightarrow> int multiset" where
  "live fd = (if isValid fd then {#fd#} else {#})"

lemma closeDescriptor_log [simp]:
  "protocol (snd (closeDescriptor fd)) = []"
  "group_events (snd (closeDescriptor fd)) = []"
  "opened (snd (closeDescriptor fd)) = {#}"
  "closed (snd (closeDescriptor fd)) = live fd"
  by (simp_all add: closeDescriptor_def live_def)

lemma live_after_close [simp]: "live (fst (closeDescriptor fd)) = {#}"
  by (simp add: closeDescriptor_def live_def InvalidDescriptor_def isValid_def)

lemma live_Invalid [simp]: "live InvalidDescriptor = {#}"
  by (simp add: live_def InvalidDescriptor_def isValid_def)

text \<open>Events that neither start nor end anything: output and errors reported to the delegate.\<close>

fun quiet :: "proc_event \<Rightarrow> bool" where
  "quiet (ProcessHadError _) = True"
| "quiet (ProcessHadOutput _) = True"
| "quiet _ = False"

lemma quiet_log:
  assumes "list_all quiet log"
  shows "protocol log = []" "group_events log = []" "opened log = {#}" "closed log = {#}"
  using assms
proof (induction log)
  case (Cons e log)
  case 1 then show ?case using Cons by (cases e) auto
  case 2 then show ?case using Cons by (cases e) auto
  case 3 then show ?case using Cons by (cases e) auto
  case 4 then show ?case using Cons by (cases e) auto
qed auto

lemma p_emit_simps [simp]:
  "p_log (p_emit ev s) = p_log s @ ev" "p_events0 (p_emit ev s) = p_events0 s"
  "p_events1 (p_emit ev s) = p_events1 s" "p_control (p_emit ev s) = p_control s"
  by (simp_all add: p_emit_def)

lemma serviceOutput_quiet:
  "list_all quiet (p_log s) \<Longrightarrow> list_all quiet (p_log (snd (serviceOutput err r s)))"
  by (auto simp: serviceOutput_def readDescriptor_def outputCallback_def
      split: option.splits read_answer.splits)

lemma serviceControl_quiet:
  "list_all quiet (p_log s) \<Longrightarrow> list_all quiet (p_log (snd (serviceControl err r s)))"
  by (auto simp: serviceControl_def readDescriptor_def controlCallback_def Let_def
      split: option.splits read_answer.splits prod.splits bool.splits)

lemma pollLoop_quiet:
  "pollLoop err as s = Some (out, s') \<Longrightarrow> list_all quiet (p_log s) \<Longrightarrow> list_all quiet (p_log s')"
proof (induction err as s rule: pollLoop.induct)
  case (3 err r0 r1 as s)
  obtain b0 s0 where s0: "serviceOutput err r0 s = (b0, s0)" by fastforce
  obtain b1 s1 where s1: "serviceControl err r1 s0 = (b1, s1)" by fastforce
  have "list_all quiet (p_log s1)"
    using serviceOutput_quiet [of s err r0] serviceControl_quiet [of s0 err r1] 3 s0 s1 by simp
  then show ?case using 3 s0 s1 by (auto split: if_splits)
qed (auto split: if_splits)

lemma pollLoop_failed:
  "pollLoop err as s = Some (LoopPollFailed, s') \<Longrightarrow> \<exists>e. PollError e \<in> set as \<and> e \<noteq> EAGAIN \<and> e \<noteq> EINTR"
proof (induction err as s rule: pollLoop.induct)
  case (3 err r0 r1 as s)
  obtain b0 s0 where s0: "serviceOutput err r0 s = (b0, s0)" by fastforce
  obtain b1 s1 where s1: "serviceControl err r1 s0 = (b1, s1)" by fastforce
  show ?case using 3 by (auto simp: s0 s1 split: if_splits)
qed (auto split: if_splits)

lemma captureExecutedProcessOutput_log:
  assumes "captureExecutedProcessOutput err fd as = Some ev"
  shows "protocol ev = []" "group_events ev = []" "opened ev = {#}" "closed ev = live fd"
  using assms by (induction err fd as arbitrary: ev rule: captureExecutedProcessOutput.induct)
    (auto split: if_splits)

lemma cleanUpExecutedProcess_log:
  assumes "cleanUpExecutedProcess os pid fd = Some ev"
  shows "\<exists>r. protocol ev = [ProcessFinished r, Completion r]"
    and "group_events ev = [GroupRemove pid]" "opened ev = {#}" "closed ev = live fd"
proof -
  from assms obtain a where "wait4_loop (os_waits os) = Some a"
    by (auto simp: cleanUpExecutedProcess_def bind_eq_Some_conv)
  with assms show "\<exists>r. protocol ev = [ProcessFinished r, Completion r]"
    and "group_events ev = [GroupRemove pid]" "opened ev = {#}" "closed ev = live fd"
    by (cases a; auto simp: cleanUpExecutedProcess_def Let_def)+
qed

lemma processWait_log:
  assumes "processWait os pid outputFd controlFd = Some ev"
  shows "\<exists>r. protocol ev = [ProcessFinished r, Completion r]"
    and "group_events ev = [GroupRemove pid]" "opened ev = {#}" "closed ev = live outputFd + live controlFd"
  using assms captureExecutedProcessOutput_log [of "os_strerror os" outputFd "os_reads os"]
    cleanUpExecutedProcess_log [of os pid controlFd]
  by (auto simp: processWait_def bind_eq_Some_conv live_def split: if_splits)

text \<open>What POSIX documents of the answers: descriptors are not negative, a process id is positive.\<close>

definition posix_answers :: "spawn_os \<Rightarrow> bool" where
  "posix_answers os \<longleftrightarrow>
     (\<forall>r w. os_outputPipe os = Inr (r, w) \<or> os_controlPipe os = Inr (r, w) \<longrightarrow> 0 \<le> r \<and> 0 \<le> w)
     \<and> (\<forall>f args env pid. os_spawn os f args env = Inr pid \<longrightarrow> 0 < pid)"

lemma posix_answers_pid: "posix_answers os \<Longrightarrow> os_spawn os f args env \<noteq> Inr (- 1)"
  by (force simp: posix_answers_def)

lemma createCommunicationPipes_log:
  assumes "createCommunicationPipes os attr = ((error, e), p, ev)" "posix_answers os"
  shows "protocol ev = []" "group_events ev = []"
    "opened ev = closed ev + live (outputPipeParentEnd p) + live (outputPipeChildEnd p)
                 + live (controlPipeParentEnd p) + live (controlPipeChildEnd p)"
    "error \<noteq> ERROR_NONE \<Longrightarrow> p = noPipes"
  using assms
  by (auto simp: createCommunicationPipes_def createOutputPipe_def createControlPipe_def noPipes_def
      resetDescriptor_def childMayInherit_def posix_answers_def live_def isValid_def closeDescriptor_def
      InvalidDescriptor_def split: if_splits sum.splits prod.splits)

lemma failedStart_log [simp]:
  "protocol (failedStart msg) = [ProcessStarted (- 1), ProcessFinished (makeFailed (- 1)), Completion (makeFailed (- 1))]"
  "group_events (failedStart msg) = []" "opened (failedStart msg) = {#}" "closed (failedStart msg) = {#}"
  by (simp_all add: failedStart_def)

lemma spawnLocked_failed_log:
  assumes "spawnLocked os args env attr = Some (Inl ev)" "posix_answers os"
  shows "protocol ev = [ProcessStarted (- 1), ProcessFinished (makeFailed (- 1)), Completion (makeFailed (- 1))]"
    "group_events ev = []" "opened ev = closed ev"
proof -
  obtain error e p ev0 where c: "createCommunicationPipes os attr = ((error, e), p, ev0)"
    by (metis prod.collapse)
  have "error \<noteq> ERROR_NONE" "\<exists>msg. ev = ev0 @ failedStart msg"
    using assms c by (auto simp: spawnLocked_def bind_eq_Some_conv Let_def split_beta split: if_splits)
  then show "protocol ev = [ProcessStarted (- 1), ProcessFinished (makeFailed (- 1)), Completion (makeFailed (- 1))]"
    "group_events ev = []" "opened ev = closed ev"
    using createCommunicationPipes_log [OF c assms(2)] by (auto simp: noPipes_def)
qed

lemma spawnLocked_started_log:
  assumes "spawnLocked os args env attr = Some (Inr (ev, pid, p))" "posix_answers os"
  shows "opened ev = closed ev + live (outputPipeParentEnd p) + live (controlPipeParentEnd p)"
    "if pid = - 1 then (\<exists>stored. protocol ev = [ProcessStarted stored, ProcessFinished (makeFailed (- 1))]) \<and> group_events ev = []
     else protocol ev = [ProcessStarted pid]
          \<and> group_events ev = [GroupAdd pid \<lparr>canSafelyInterrupt = a_canSafelyInterrupt attr\<rparr>]"
proof -
  obtain error e p0 ev0 where c: "createCommunicationPipes os attr = ((error, e), p0, ev0)"
    by (metis prod.collapse)
  have none: "error = ERROR_NONE"
    using assms c by (auto simp: spawnLocked_def split: if_splits)
  note pipes = createCommunicationPipes_log [OF c assms(2)]
  obtain env' where "(if isValid (controlPipeChildEnd p0)
      then setIfMissing ''LLBUILD_CONTROL_FD'' (decstr (controlPipeChildEnd p0)) env else Some env) = Some env'"
    using assms c none by (auto simp: spawnLocked_def bind_eq_Some_conv)
  with assms c none pipes
  show "opened ev = closed ev + live (outputPipeParentEnd p) + live (controlPipeParentEnd p)"
    "if pid = - 1 then (\<exists>stored. protocol ev = [ProcessStarted stored, ProcessFinished (makeFailed (- 1))]) \<and> group_events ev = []
     else protocol ev = [ProcessStarted pid]
          \<and> group_events ev = [GroupAdd pid \<lparr>canSafelyInterrupt = a_canSafelyInterrupt attr\<rparr>]"
    by (auto simp: spawnLocked_def Let_def split_beta posix_answers_pid split: sum.splits if_splits)
qed

text \<open>
  What a caller may rely on for each way the call can end. The last case is the failure of
  \<^verbatim>\<open>poll\<close> with an unexpected error: the started process is neither reported finished nor completed,
  and stays in the group.
\<close>

definition spawn_contract ::
  "spawn_os \<Rightarrow> ProcessGroup \<Rightarrow> proc_event list \<Rightarrow> spawn_outcome \<Rightarrow> bool" where
  "spawn_contract os pgrp log out =
     (case out of
        SpawnReturned \<Rightarrow>
          (protocol log = [Completion (makeCancelled (- 1))] \<and> isClosed pgrp
           \<or> (\<exists>pid r. protocol log = [ProcessStarted pid, ProcessFinished r, Completion r]))
          \<and> (group_events log = [] \<or> (\<exists>pid info. group_events log = [GroupAdd pid info, GroupRemove pid]))
          \<and> opened log = closed log
      | SpawnReleased pid outputFd controlFd \<Rightarrow>
          protocol log = [ProcessStarted pid] \<and> (\<exists>info. group_events log = [GroupAdd pid info])
          \<and> (\<forall>log'. processWait os pid outputFd controlFd = Some log' \<longrightarrow>
               (\<exists>r. protocol log' = [ProcessFinished r, Completion r])
               \<and> group_events log' = [GroupRemove pid] \<and> opened (log @ log') = closed (log @ log'))
      | SpawnPollFailed \<Rightarrow>
          (\<exists>pid info. protocol log = [ProcessStarted pid] \<and> group_events log = [GroupAdd pid info])
          \<and> opened log = closed log
          \<and> (\<exists>e. PollError e \<in> set (os_polls os) \<and> e \<noteq> EAGAIN \<and> e \<noteq> EINTR))"

lemma watchProcess_contract:
  assumes w: "watchProcess os taskID attr pid p = Some (ev', out)"
    and ev: "protocol ev = [ProcessStarted pid]" "group_events ev = [GroupAdd pid info]"
      "opened ev = closed ev + live (outputPipeParentEnd p) + live (controlPipeParentEnd p)"
  shows "spawn_contract os pgrp (ev @ ev') out"
proof -
  obtain stop s' where
    l: "(if p_events0 (initialPoll taskID attr) \<or> p_events1 (initialPoll taskID attr)
         then pollLoop (os_strerror os) (os_polls os) (initialPoll taskID attr)
         else Some (LoopDone, initialPoll taskID attr)) = Some (stop, s')"
    and res: "afterPoll os pid p (stop, s') = Some (ev', out)"
    using w unfolding watchProcess_def Let_def bind_eq_Some_conv by fast
  have "list_all quiet (p_log (initialPoll taskID attr))" by (simp add: initialPoll_def)
  then have quiet: "list_all quiet (p_log s')"
    using l pollLoop_quiet [of "os_strerror os" "os_polls os" "initialPoll taskID attr" stop s']
    by (auto split: if_splits)
  have "\<exists>e. PollError e \<in> set (os_polls os) \<and> e \<noteq> EAGAIN \<and> e \<noteq> EINTR" if "stop = LoopPollFailed"
    using l that pollLoop_failed by (auto split: if_splits)
  then show ?thesis
    using res ev quiet_log [OF quiet] processWait_log [of os pid "outputPipeParentEnd p" "controlPipeParentEnd p"]
      cleanUpExecutedProcess_log [of os pid "controlPipeParentEnd p"]
    by (cases stop) (auto simp: spawn_contract_def bind_eq_Some_conv ac_simps)
qed

lemma afterSpawn_contract:
  assumes "afterSpawn os taskID attr ev pid p = Some (log, out)"
    and "opened ev = closed ev + live (outputPipeParentEnd p) + live (controlPipeParentEnd p)"
    and "if pid = - 1 then (\<exists>stored. protocol ev = [ProcessStarted stored, ProcessFinished (makeFailed (- 1))]) \<and> group_events ev = []
         else protocol ev = [ProcessStarted pid] \<and> group_events ev = [GroupAdd pid info]"
  shows "spawn_contract os pgrp log out"
  using assms watchProcess_contract [of os taskID attr pid p _ out ev info pgrp]
  by (cases "pid = - 1") (auto simp: afterSpawn_def spawn_contract_def ac_simps)


section \<open>The call returns\<close>

fun ends :: "read_answer \<Rightarrow> bool" where
  "ends (ReadError _) = True"
| "ends (ReadBytes bs) = (bs = [])"

fun output_ends :: "poll_answer \<Rightarrow> bool" where
  "output_ends (PollReady (Some a) _) = ends a"
| "output_ends _ = False"

fun control_ends :: "poll_answer \<Rightarrow> bool" where
  "control_ends (PollReady _ (Some a)) = ends a"
| "control_ends _ = False"

lemma serviceOutput_events:
  assumes "serviceOutput err r s = (b, s')"
  shows "b = p_events0 s'" "p_events1 s' = p_events1 s"
    "p_events0 s' \<Longrightarrow> p_events0 s \<and> \<not> output_ends (PollReady r q)"
  using assms by (auto simp: serviceOutput_def readDescriptor_def outputCallback_def
      split: option.splits read_answer.splits if_splits)

lemma serviceControl_events:
  assumes "serviceControl err r s = (b, s')"
  shows "b = p_events1 s'" "p_events0 s' = p_events0 s"
    "p_events1 s' \<Longrightarrow> p_events1 s \<and> \<not> control_ends (PollReady q r)"
  using assms by (auto simp: serviceControl_def readDescriptor_def controlCallback_def Let_def
      split: option.splits read_answer.splits if_splits prod.splits bool.splits)

lemma pollLoop_returns:
  assumes "p_events0 s \<longrightarrow> list_ex output_ends as" "p_events1 s \<longrightarrow> list_ex control_ends as"
    "p_events0 s \<or> p_events1 s"
  shows "pollLoop err as s \<noteq> None"
  using assms
proof (induction err as s rule: pollLoop.induct)
  case (3 err r0 r1 as s)
  obtain b0 s0 where s0: "serviceOutput err r0 s = (b0, s0)" by fastforce
  obtain b1 s1 where s1: "serviceControl err r1 s0 = (b1, s1)" by fastforce
  note ev = serviceOutput_events(1,2) [OF s0] serviceOutput_events(3) [OF s0, where q = r1]
    serviceControl_events(1,2) [OF s1] serviceControl_events(3) [OF s1, where q = r0]
  show ?case
    using 3 ev by (auto simp: s0 s1)
qed auto

lemma wait4_loop_returns: "list_ex (\<lambda>a. \<forall>g. a \<noteq> WaitError EINTR g) as \<Longrightarrow> \<exists>a. wait4_loop as = Some a"
  by (induction as rule: wait4_loop.induct) auto

lemma capture_returns: "list_ex ends as \<Longrightarrow> \<exists>ev. captureExecutedProcessOutput err fd as = Some ev"
  by (induction err fd as rule: captureExecutedProcessOutput.induct) auto

text \<open>
  A process that comes to its end: it closes its output and its control pipe while they are
  polled, closes its output also when the reader continues after a release, and is reaped.
\<close>

definition process_ends :: "spawn_os \<Rightarrow> bool" where
  "process_ends os \<longleftrightarrow> list_ex output_ends (os_polls os) \<and> list_ex control_ends (os_polls os)
     \<and> list_ex ends (os_reads os) \<and> list_ex (\<lambda>a. \<forall>g. a \<noteq> WaitError EINTR g) (os_waits os)"

lemma cleanUp_returns: "process_ends os \<Longrightarrow> \<exists>ev. cleanUpExecutedProcess os pid fd = Some ev"
  using wait4_loop_returns [of "os_waits os"]
  by (auto simp: process_ends_def cleanUpExecutedProcess_def Let_def)

lemma afterPoll_returns: "process_ends os \<Longrightarrow> \<exists>ev out. afterPoll os pid p (stop, s) = Some (ev, out)"
  using cleanUp_returns [of os pid "controlPipeParentEnd p"] by (cases stop) auto

lemma watchProcess_returns: "process_ends os \<Longrightarrow> \<exists>ev out. watchProcess os taskID attr pid p = Some (ev, out)"
proof -
  assume ends: "process_ends os"
  let ?s = "initialPoll taskID attr"
  have "(if p_events0 ?s \<or> p_events1 ?s then pollLoop (os_strerror os) (os_polls os) ?s
      else Some (LoopDone, ?s)) \<noteq> None"
    using ends pollLoop_returns [of ?s "os_polls os" "os_strerror os"] by (simp add: process_ends_def)
  then obtain r where "(if p_events0 ?s \<or> p_events1 ?s then pollLoop (os_strerror os) (os_polls os) ?s
      else Some (LoopDone, ?s)) = Some r"
    by blast
  then show ?thesis
    using afterPoll_returns [OF ends, of pid p "fst r" "snd r"] by (simp add: watchProcess_def Let_def)
qed

lemma afterSpawn_returns: "process_ends os \<Longrightarrow> \<exists>log out. afterSpawn os taskID attr ev pid p = Some (log, out)"
  using watchProcess_returns [of os taskID attr pid p] by (auto simp: afterSpawn_def)

lemma setIfMissing_unfrozen:
  "\<not> isFrozen e \<Longrightarrow> \<exists>e'. setIfMissing k v e = Some e' \<and> \<not> isFrozen e'"
  by (simp add: setIfMissing_def)

lemma spawnLocked_returns: "\<not> isFrozen env \<Longrightarrow> \<exists>r. spawnLocked os args env attr = Some r"
proof -
  assume unfrozen: "\<not> isFrozen env"
  obtain error e p ev where c: "createCommunicationPipes os attr = ((error, e), p, ev)"
    by (metis prod.collapse)
  obtain env' where "setIfMissing ''LLBUILD_CONTROL_FD'' (decstr (controlPipeChildEnd p)) env = Some env'"
    using setIfMissing_unfrozen [OF unfrozen] by blast
  then show ?thesis by (simp add: spawnLocked_def c Let_def split_beta)
qed

text \<open>
  C26. The call returns once the process has closed its pipes and can be reaped, and so does the wait
  that a released process has deferred, however the system splits the output and interrupts calls (a
  failing \<^verbatim>\<open>poll\<close> makes it return earlier).
\<close>

theorem spawnProcess_returns:
  assumes "process_ends os" "\<not> isFrozen env"
  shows "\<exists>log out. spawnProcess os pgrp handle commandLine env attr = Some (log, out)
    \<and> (case out of SpawnReleased pid outputFd controlFd \<Rightarrow>
         (\<exists>log'. processWait os pid outputFd controlFd = Some log') | _ \<Rightarrow> True)"
proof -
  have wait: "\<exists>log'. processWait os pid outputFd controlFd = Some log'" for pid outputFd controlFd
    using assms(1) cleanUp_returns [of os pid controlFd]
      capture_returns [of "os_reads os" "os_strerror os" outputFd]
    by (auto simp: processWait_def process_ends_def)
  obtain env' where env': "setIfMissing ''LLBUILD_TASK_ID'' (utohexstr handle) env = Some env'" "\<not> isFrozen env'"
    using setIfMissing_unfrozen [OF assms(2)] by blast
  obtain r where r: "spawnLocked os (resolveArgs os commandLine) env' (effectiveAttributes attr) = Some r"
    using spawnLocked_returns [OF env'(2)] by blast
  have "\<exists>res. spawnProcess os pgrp handle commandLine env attr = Some res"
    using r env' afterSpawn_returns [OF assms(1)]
    by (cases r) (auto simp: spawnProcess_def Let_def)
  then obtain log out where "spawnProcess os pgrp handle commandLine env attr = Some (log, out)" by auto
  then show ?thesis using wait by (cases out) auto
qed

section \<open>A concrete process\<close>

text \<open>A process that writes a line, asks for the release of its lane and then exits with status 0.\<close>

definition release_os :: spawn_os where
  "release_os = \<lparr>os_strerror = (\<lambda>e. ''error''), os_addchdirSupported = True, os_addchdir = (\<lambda>d. 0),
     os_findProgram = (\<lambda>p. None), os_outputPipe = Inr (5, 6), os_controlPipe = Inr (7, 8),
     os_spawn = (\<lambda>f args env. Inr 42),
     os_polls = [PollError EINTR, PollReady (Some (ReadBytes ''hi'')) None,
                 PollReady None (Some (ReadBytes (''llbuild.1'' @ [newline] @ ''1'' @ [newline]))),
                 PollReady (Some (ReadBytes [])) (Some (ReadBytes []))],
     os_reads = [ReadBytes ''bye'', ReadBytes []],
     os_waits = [WaitStatus 0 \<lparr>ru_utime_sec = 1, ru_utime_usec = 5, ru_stime_sec = 0, ru_stime_usec = 0, ru_maxrss = 0\<rparr>]\<rparr>"

definition plain_attributes :: ProcessAttributes where
  "plain_attributes = \<lparr>a_canSafelyInterrupt = True, a_connectToConsole = False, a_workingDir = [],
     a_inheritEnvironment = True, a_controlEnabled = True\<rparr>"

lemma release_os_answers: "posix_answers release_os" "process_ends release_os"
  by (simp_all add: posix_answers_def process_ends_def release_os_def)

lemma release_run:
  "spawnProcess release_os newProcessGroup 1 [''/bin/true''] newPOSIXEnvironment plain_attributes
   = Some ([FileAction ''open /dev/null'' 0 0, SysPipe 5 6, FileAction ''dup2'' 6 1, FileAction ''dup2'' 6 2,
            FileAction ''close'' 6 6, SysPipe 7 8, FileAction ''dup2'' 8 8,
            SysSpawn False [] [''/bin/true''] [''LLBUILD_TASK_ID=1'', ''LLBUILD_CONTROL_FD=8''] 42,
            ProcessStarted 42, GroupAdd 42 \<lparr>canSafelyInterrupt = True\<rparr>, SysClose 8, SysClose 6,
            ProcessHadOutput ''hi''], SpawnReleased 42 5 7)"
  by code_simp


text \<open>The same process without the message: the call waits for its end.\<close>

definition exit_os :: spawn_os where
  "exit_os = release_os\<lparr>os_polls := [PollReady (Some (ReadBytes ''hi'')) None,
     PollReady (Some (ReadBytes [])) (Some (ReadBytes []))]\<rparr>"

lemma exit_os_answers: "process_ends exit_os"
  by (simp add: process_ends_def exit_os_def release_os_def)

lemma exit_run:
  "\<exists>log. spawnProcess exit_os newProcessGroup 1 [''/bin/true''] newPOSIXEnvironment plain_attributes = Some (log, SpawnReturned)
     \<and> ProcessHadOutput ''hi'' \<in> set log"
  by (rule exI, rule conjI, code_simp, code_simp)

theorem spawnProcess_returns_witness:
  "(\<exists>log. spawnProcess release_os newProcessGroup 1 [''/bin/true''] newPOSIXEnvironment plain_attributes
       = Some (log, SpawnReleased 42 5 7)) \<and> (\<exists>log'. processWait release_os 42 5 7 = Some log')
   \<and> (\<exists>log out. spawnProcess exit_os newProcessGroup 1 [''/bin/true''] newPOSIXEnvironment plain_attributes
       = Some (log, out) \<and> ProcessHadOutput ''hi'' \<in> set log)"
  using spawnProcess_returns [OF release_os_answers(2), of newPOSIXEnvironment newProcessGroup 1 "[''/bin/true'']" plain_attributes]
    spawnProcess_returns [OF exit_os_answers, of newPOSIXEnvironment newProcessGroup 1 "[''/bin/true'']" plain_attributes]
    release_run exit_run
  by (auto simp: newPOSIXEnvironment_def)

text \<open>
  The delegate's documentation promises one \<^verbatim>\<open>processFinished\<close> for every \<^verbatim>\<open>processStarted\<close>. When
  \<^verbatim>\<open>poll\<close> fails with another error than \<^verbatim>\<open>EAGAIN\<close> or \<^verbatim>\<open>EINTR\<close> the process is started and neither
  finished nor completed, and it is never removed from its group, whose destructor waits for that.
\<close>

lemma poll_failure_never_completes:
  "\<exists>log. spawnProcess (release_os\<lparr>os_polls := [PollError 12]\<rparr>) newProcessGroup 1 [''/bin/true'']
       newPOSIXEnvironment plain_attributes = Some (log, SpawnPollFailed)
     \<and> protocol log = [ProcessStarted 42] \<and> group_events log = [GroupAdd 42 \<lparr>canSafelyInterrupt = True\<rparr>]"
  by (rule exI, rule conjI, code_simp, rule conjI, code_simp, code_simp)

text \<open>
  \<^verbatim>\<open>childMayInherit\<close> returns early exactly when the descriptor is valid, so it never changes the
  flags of an open descriptor; and its two branches set and clear the flag the wrong way round.
\<close>

lemma childMayInherit_valid_noop: "isValid fd \<Longrightarrow> childMayInherit yes fd = []"
  by (simp add: childMayInherit_def)

lemma childMayInherit_polarity: "\<not> isValid fd \<Longrightarrow> childMayInherit True fd = [SysCloexec fd True]"
  by (simp add: childMayInherit_def)

section \<open>Environments\<close>

fun first_bindings :: "string list \<Rightarrow> (string \<times> string) list \<Rightarrow> (string \<times> string) list" where
  "first_bindings seen [] = []"
| "first_bindings seen ((k, v) # kvs) =
     (if k \<in> set seen then first_bindings seen kvs else (k, v) # first_bindings (k # seen) kvs)"

definition render :: "string \<times> string \<Rightarrow> string" where
  "render kv = fst kv @ ''='' @ snd kv @ [CHR 0x00]"

definition setAll :: "(string \<times> string) list \<Rightarrow> POSIXEnvironment \<Rightarrow> POSIXEnvironment option" where
  "setAll = foldM_option (\<lambda>(k, v). setIfMissing k v)"

lemma setAll_bindings:
  "\<not> isFrozen e \<Longrightarrow> \<exists>e'. setAll kvs e = Some e' \<and> \<not> isFrozen e'
     \<and> envStorage e' = envStorage e @ map render (first_bindings (envKeys e) kvs)
     \<and> set (envKeys e') = set (envKeys e) \<union> fst ` set kvs"
proof (induction kvs arbitrary: e)
  case (Cons kv kvs)
  obtain k v where kv: "kv = (k, v)" by (cases kv)
  show ?case
  proof (cases "k \<in> set (envKeys e)")
    case True
    then show ?thesis using Cons.IH [OF Cons.prems] Cons.prems
      by (auto simp: setAll_def kv setIfMissing_def)
  next
    case False
    let ?e = "e\<lparr>envKeys := k # envKeys e, envStorage := envStorage e @ [k @ ''='' @ v @ [CHR 0x00]]\<rparr>"
    have "\<not> isFrozen ?e" using Cons.prems by simp
    from Cons.IH [OF this] show ?thesis using False Cons.prems
      by (auto simp: setAll_def kv setIfMissing_def render_def)
  qed
qed (simp add: setAll_def)

lemma first_bindings_map_of:
  "k \<notin> set seen \<Longrightarrow> map_of (first_bindings seen kvs) k = map_of kvs k"
  by (induction seen kvs rule: first_bindings.induct) auto

lemma first_bindings_keys: "fst ` set (first_bindings seen kvs) = fst ` set kvs - set seen"
  by (induction seen kvs rule: first_bindings.induct) auto

lemma first_bindings_distinct: "distinct (map fst (first_bindings seen kvs))"
proof (induction seen kvs rule: first_bindings.induct)
  case (2 seen k v kvs)
  have "k \<notin> fst ` set (first_bindings (k # seen) kvs)" by (simp add: first_bindings_keys)
  with 2 show ?case by auto
qed simp

end
