(* ===== verification/ExecutionQueueProps.thy ===== *)
theory ExecutionQueueProps
  imports ExecutionQueue SubprocessProps "HOL-Library.Sublist"
begin

text \<open>
  What the execution queues guarantee: every scheduler keeps the jobs it is given (a locale with one
  interpretation per scheduler and one for the dispatching type), the lanes run each job exactly
  once and leave none behind at shutdown, jobs of the FIFO queues start in the order of their
  submission, no lane sleeps while a job waits for it or after the shutdown, draining the queue ends, the task limits respect the open-file limit, the environment
  of a subprocess has the documented precedence, and nothing is spawned after a cancellation.
\<close>

section \<open>Schedulers\<close>

locale scheduler =
  fixes add :: "QueueJob \<Rightarrow> 's \<Rightarrow> 's option"
    and next_job :: "'s \<Rightarrow> (QueueJob \<times> 's) list"
    and contents :: "'s \<Rightarrow> QueueJob multiset"
  assumes add_contents: "add job s = Some s' \<Longrightarrow> contents s' = add_mset job (contents s)"
    and next_contents: "(job, s') \<in> set (next_job s) \<Longrightarrow> contents s = add_mset job (contents s')"
    and next_exists: "contents s \<noteq> {#} \<Longrightarrow> next_job s \<noteq> []"
begin

lemma next_iff: "next_job s = [] \<longleftrightarrow> contents s = {#}"
proof
  assume "next_job s = []"
  then show "contents s = {#}" using next_exists by blast
next
  assume empty: "contents s = {#}"
  have "(job, s') \<notin> set (next_job s)" for job s'
    using next_contents [of job s' s] empty by auto
  then show "next_job s = []" by (metis list.set_intros(1) neq_Nil_conv surj_pair)
qed

lemma next_size: "(job, s') \<in> set (next_job s) \<Longrightarrow> size (contents s) = Suc (size (contents s'))"
  using next_contents by fastforce

end

lemma pq_top_exists:
  assumes "jobs \<noteq> []"
  shows "\<exists>job \<in> set jobs. list_all (\<lambda>j. \<not> QueueJobLess job j) jobs"
proof -
  let ?name = "\<lambda>j. ordinalName (the (j_desc j))"
  have "Max (?name ` set jobs) \<in> ?name ` set jobs" using assms by (intro Max_in) auto
  then obtain job where "job \<in> set jobs" "?name job = Max (?name ` set jobs)" by auto
  then show ?thesis
    by (intro bexI [of _ job]) (auto simp: QueueJobLess_def list_all_iff not_less)
qed

interpretation pq: scheduler pq_addJob pq_getNextJob mset
proof
  show "mset s \<noteq> {#} \<Longrightarrow> pq_getNextJob s \<noteq> []" for s
    using pq_top_exists [of s] by (auto simp: pq_getNextJob_def filter_empty_conv)
qed (auto simp: pq_addJob_def pq_getNextJob_def)

interpretation fifo: scheduler fifo_addJob fifo_getNextJob mset
  by unfold_locales (auto simp: fifo_addJob_def fifo_getNextJob_def split: list.splits)

interpretation sched: scheduler scheduler_addJob scheduler_getNextJob "\<lambda>s. mset (scheduler_jobs s)"
proof
  show "mset (scheduler_jobs s') = add_mset job (mset (scheduler_jobs s))"
    if "scheduler_addJob job s = Some s'" for job s s'
    using that by (cases s) (auto dest: pq.add_contents fifo.add_contents)
  show "mset (scheduler_jobs s) = add_mset job (mset (scheduler_jobs s'))"
    if "(job, s') \<in> set (scheduler_getNextJob s)" for job s s'
    using that by (cases s) (auto dest: pq.next_contents fifo.next_contents)
  show "scheduler_getNextJob s \<noteq> []" if "mset (scheduler_jobs s) \<noteq> {#}" for s
    using that pq.next_exists fifo.next_exists by (cases s) auto
qed

lemma pq_next_maximal:
  "(job, rest) \<in> set (pq_getNextJob jobs) \<Longrightarrow> j \<in> set jobs \<Longrightarrow>
   ordinalName (the (j_desc j)) \<le> ordinalName (the (j_desc job))"
  by (auto simp: pq_getNextJob_def QueueJobLess_def list_all_iff not_less)

section \<open>Every job runs exactly once\<close>

definition queued :: "LaneBasedExecutionQueue \<Rightarrow> QueueJob multiset" where
  "queued q = mset (scheduler_jobs (q_readyJobs q)) + mset (scheduler_jobs (q_readyPriorityJobs q))"

definition lane_job :: "lane \<Rightarrow> QueueJob multiset" where
  "lane_job l = (case l_running l of None \<Rightarrow> {#} | Some (job, ident) \<Rightarrow> {#job#})"

definition running :: "LaneBasedExecutionQueue \<Rightarrow> QueueJob multiset" where
  "running q = sum_list (map lane_job (q_lanes q))"

fun added_by :: "queue_label \<Rightarrow> QueueJob list" where
  "added_by (LAdd job prio) = [job]"
| "added_by _ = []"

fun finished_by :: "queue_label \<Rightarrow> QueueJob list" where
  "finished_by (LFinish i job) = [job]"
| "finished_by _ = []"

definition added :: "queue_label list \<Rightarrow> QueueJob list" where
  "added ls = concat (map added_by ls)"

definition finished_jobs :: "queue_label list \<Rightarrow> QueueJob list" where
  "finished_jobs ls = concat (map finished_by ls)"

lemma label_simps [simp]:
  "added [] = []" "added (ls @ [l]) = added ls @ added_by l"
  "finished_jobs [] = []" "finished_jobs (ls @ [l]) = finished_jobs ls @ finished_by l"
  by (simp_all add: added_def finished_jobs_def)

lemma queuesEmpty_iff: "queuesEmpty q \<longleftrightarrow> queued q = {#}"
  by (auto simp: queuesEmpty_def queued_def scheduler_empty_def)

lemma addJob_queued:
  "addJob job prio q = Some q' \<Longrightarrow> queued q' = add_mset job (queued q) \<and> q_lanes q' = q_lanes q"
  by (auto simp: addJob_def queued_def dest: sched.add_contents split: if_splits)

lemma nextJobs_queued:
  "(job, q') \<in> set (nextJobs q) \<Longrightarrow>
   queued q = add_mset job (queued q') \<and> q_lanes q' = q_lanes q \<and> q_shutdown q' = q_shutdown q"
  by (auto simp: nextJobs_def queued_def dest: sched.next_contents split: if_splits)

lemma nextJobs_exists: "\<not> queuesEmpty q \<Longrightarrow> nextJobs q \<noteq> []"
  by (auto simp: nextJobs_def queuesEmpty_def scheduler_empty_def sched.next_iff)

lemma sum_list_update_msets:
  fixes f :: "'a \<Rightarrow> 'b multiset"
  shows "i < length xs \<Longrightarrow>
   sum_list (map f (xs[i := x])) + f (xs ! i) = sum_list (map f xs) + f x"
  by (induction xs arbitrary: i) (auto split: nat.splits simp: ac_simps)

lemma running_empty:
  assumes "\<forall>l \<in> set (q_lanes q). lane_job l = {#}"
  shows "running q = {#}"
proof -
  have "\<forall>l \<in> set ls. lane_job l = {#} \<Longrightarrow> sum_list (map lane_job ls) = {#}" for ls
    by (induction ls) auto
  then show ?thesis using assms by (simp add: running_def)
qed

lemma running_setLane:
  "i < length (q_lanes q) \<Longrightarrow> running (setLane i l q) + lane_job (q_lanes q ! i) = running q + lane_job l"
  by (simp add: running_def setLane_def sum_list_update_msets)

lemma lane_job_awake [simp]: "lane_job (l\<lparr>l_waiting := w\<rparr>) = lane_job l"
  by (simp add: lane_job_def)

lemma running_notify_all: "running (notify_all q) = running q"
  by (simp add: running_def notify_all_def comp_def)

lemma queued_simps [simp]:
  "queued (setLane i l q) = queued q" "queued (q_emit ev q) = queued q" "running (q_emit ev q) = running q"
  "queued (notify_all q) = queued q" "queued (cancelAllJobs q) = queued q"
  "queued (shutdownLanes q) = queued q" "queued (wakeLane i q) = queued q" "queued (waitLane i q) = queued q"
  "q_lanes (q_emit ev q) = q_lanes q"
  "q_shutdown (setLane i l q) = q_shutdown q" "q_shutdown (q_emit ev q) = q_shutdown q"
  by (simp_all add: queued_def running_def setLane_def q_emit_def cancelAllJobs_def shutdownLanes_def
      wakeLane_def waitLane_def notify_all_def Let_def)

lemma running_simps [simp]:
  "running (cancelAllJobs q) = running q" "running (shutdownLanes q) = running q"
proof -
  have same: "q_lanes q' = q_lanes q \<Longrightarrow> running q' = running q" for q' by (simp add: running_def)
  show "running (cancelAllJobs q) = running q"
    by (auto simp: cancelAllJobs_def Let_def running_def q_emit_def notify_all_def comp_def)
  show "running (shutdownLanes q) = running q"
    unfolding shutdownLanes_def running_notify_all by (rule same) simp
qed

lemma running_wake_wait [simp]:
  "i < length (q_lanes q) \<Longrightarrow> running (wakeLane i q) = running q"
  "i < length (q_lanes q) \<Longrightarrow> running (waitLane i q) = running q"
  using running_setLane [of i q "(q_lanes q ! i)\<lparr>l_waiting := False\<rparr>"]
    running_setLane [of i q "(q_lanes q ! i)\<lparr>l_waiting := True\<rparr>"]
  by (simp_all add: wakeLane_def waitLane_def lane_job_def)

lemma notify_one_cases:
  assumes "q' \<in> set (notify_one q)"
  obtains (nobody) "q' = q" "\<not> list_ex l_waiting (q_lanes q)"
  | (somebody) i where "i < length (q_lanes q)" "l_waiting (q_lanes q ! i)" "q' = wakeLane i q"
proof (cases "filter (\<lambda>i. l_waiting (q_lanes q ! i)) [0..<length (q_lanes q)]")
  case Nil
  then show ?thesis
    using assms that(1) by (auto simp: notify_one_def filter_empty_conv list_ex_length)
next
  case (Cons j js)
  then have "q' \<in> (\<lambda>i. wakeLane i q) ` set (filter (\<lambda>i. l_waiting (q_lanes q ! i)) [0..<length (q_lanes q)])"
    using assms by (auto simp: notify_one_def)
  then show ?thesis using that(2) by auto
qed

lemma notify_one_keeps:
  assumes "q' \<in> set (notify_one q)"
  shows "queued q' = queued q \<and> running q' = running q \<and> q_shutdown q' = q_shutdown q
    \<and> q_readyJobs q' = q_readyJobs q \<and> q_readyPriorityJobs q' = q_readyPriorityJobs q"
  using assms
proof (cases rule: notify_one_cases)
  case (somebody i)
  then have "running q' = running q" by simp
  with somebody show ?thesis by (simp add: wakeLane_def, simp add: setLane_def)
qed simp

text \<open>A lane that has left its loop or sleeps is not running a job, and does not do both.\<close>

definition lane_ok :: "lane \<Rightarrow> bool" where
  "lane_ok l \<longleftrightarrow> (l_exited l \<longrightarrow> l_running l = None \<and> \<not> l_waiting l) \<and> (l_waiting l \<longrightarrow> l_running l = None)"

definition lanes_ok :: "LaneBasedExecutionQueue \<Rightarrow> bool" where
  "lanes_ok q \<longleftrightarrow> (\<forall>l \<in> set (q_lanes q). lane_ok l)"

lemma lanes_ok_nth: "lanes_ok q \<Longrightarrow> i < length (q_lanes q) \<Longrightarrow> lane_ok (q_lanes q ! i)"
  by (simp add: lanes_ok_def)

lemma lanes_ok_setLane: "lanes_ok q \<Longrightarrow> lane_ok l \<Longrightarrow> lanes_ok (setLane i l q)"
  by (auto simp: lanes_ok_def setLane_def dest: set_update_subset_insert [THEN subsetD])

lemma lanes_ok_cong: "q_lanes q' = q_lanes q \<Longrightarrow> lanes_ok q' = lanes_ok q"
  by (simp add: lanes_ok_def)

lemma lanes_ok_notify:
  "lanes_ok q \<Longrightarrow> lanes_ok (notify_all q)"
  "lanes_ok q \<Longrightarrow> lanes_ok (cancelAllJobs q)"
  "lanes_ok q \<Longrightarrow> lanes_ok (shutdownLanes q)"
  by (auto simp: lanes_ok_def lane_ok_def notify_all_def cancelAllJobs_def shutdownLanes_def q_emit_def Let_def)

lemma lanes_ok_wake: "lanes_ok q \<Longrightarrow> i < length (q_lanes q) \<Longrightarrow> lanes_ok (wakeLane i q)"
  using lanes_ok_nth [of q i] by (auto simp: wakeLane_def lane_ok_def intro!: lanes_ok_setLane)

lemma lanes_ok_wait: "lanes_ok q \<Longrightarrow> l_idle (q_lanes q ! i) \<Longrightarrow> lanes_ok (waitLane i q)"
  by (auto simp: waitLane_def lane_ok_def l_idle_def intro!: lanes_ok_setLane)

lemma lanes_ok_notify_one: "q' \<in> set (notify_one q) \<Longrightarrow> lanes_ok q \<Longrightarrow> lanes_ok q'"
  by (erule notify_one_cases) (auto intro: lanes_ok_wake)

text \<open>A job without a descriptor ends the lane that takes it, instead of running.\<close>

fun swallowed_by :: "queue_label \<Rightarrow> QueueJob list" where
  "swallowed_by (LTake i job) = (if j_desc job = None then [job] else [])"
| "swallowed_by _ = []"

definition swallowed :: "queue_label list \<Rightarrow> QueueJob list" where
  "swallowed ls = concat (map swallowed_by ls)"

lemma swallowed_simps [simp]: "swallowed [] = []" "swallowed (ls @ [l]) = swallowed ls @ swallowed_by l"
  by (simp_all add: swallowed_def)

lemma swallowed_desc: "job \<in> set (swallowed ls) \<Longrightarrow> j_desc job = None"
proof -
  assume "job \<in> set (swallowed ls)"
  then obtain l where "job \<in> set (swallowed_by l)" by (auto simp: swallowed_def)
  then show ?thesis by (cases l) (auto split: if_splits)
qed

lemma startJob_effect:
  assumes "i < length (q_lanes q)" "l_idle (q_lanes q ! i)" "lanes_ok q"
  shows "queued (startJob i job q) = queued q" "lanes_ok (startJob i job q)"
    "running (startJob i job q) = running q + (if j_desc job = None then {#} else {#job#})"
proof -
  show "queued (startJob i job q) = queued q"
    by (auto simp: startJob_def Let_def split: option.splits)
  have emit: "lanes_ok (q_emit ev q') = lanes_ok q'" for ev q'
    by (rule lanes_ok_cong) simp
  show "lanes_ok (startJob i job q)"
    using assms by (auto simp: startJob_def Let_def emit l_idle_def lane_ok_def split: option.splits intro!: lanes_ok_setLane)
  show "running (startJob i job q) = running q + (if j_desc job = None then {#} else {#job#})"
    using assms running_setLane [OF assms(1)]
    by (auto simp: startJob_def Let_def lane_job_def l_idle_def split: option.splits)
qed

lemma finishJob_effect:
  assumes "i < length (q_lanes q)" "l_running (q_lanes q ! i) = Some (job, ident)" "lanes_ok q"
  shows "queued (finishJob i q) = queued q" "lanes_ok (finishJob i q)"
    "add_mset job (running (finishJob i q)) = running q"
proof -
  have emit: "lanes_ok (q_emit ev q') = lanes_ok q'" for ev q'
    by (rule lanes_ok_cong) simp
  show "queued (finishJob i q) = queued q" "lanes_ok (finishJob i q)"
    using assms lanes_ok_nth [OF assms(3,1)]
    by (auto simp: finishJob_def emit lane_ok_def intro!: lanes_ok_setLane)
  show "add_mset job (running (finishJob i q)) = running q"
    using assms running_setLane [of i "q_emit [QueueJobFinished (j_desc job)] q" "(q_lanes q ! i)\<lparr>l_running := None\<rparr>"]
    by (simp add: finishJob_def lane_job_def)
qed

lemma exitLane_effect:
  assumes "i < length (q_lanes q)" "l_idle (q_lanes q ! i)" "lanes_ok q"
  shows "queued (exitLane i q) = queued q" "lanes_ok (exitLane i q)" "running (exitLane i q) = running q"
  using assms running_setLane [of i q "(q_lanes q ! i)\<lparr>l_exited := True\<rparr>"]
  by (auto simp: exitLane_def lane_job_def l_idle_def lane_ok_def intro!: lanes_ok_setLane)

lemma lane_step_conserves:
  assumes "lane_step q l q'" "lanes_ok q"
  shows "queued q' + running q' + mset (finished_by l) + mset (swallowed_by l)
         = queued q + running q + mset (added_by l) \<and> lanes_ok q'"
  using assms(1)
proof cases
  case (Add job prio q1)
  note a = addJob_queued [OF Add(2)]
  have "lanes_ok q1" using a assms(2) by (simp add: lanes_ok_def)
  then show ?thesis
    using Add a notify_one_keeps [OF Add(3)] lanes_ok_notify_one [OF Add(3)] by (auto simp: running_def)
next
  case (Take i job q1)
  note n = nextJobs_queued [OF Take(6)]
  have "lanes_ok q1" using n assms(2) by (simp add: lanes_ok_def)
  then show ?thesis
    using Take n startJob_effect [of i q1 job] by (auto simp: running_def)
next
  case (Finish i job ident)
  then show ?thesis using finishJob_effect [of i q job ident] assms(2) by auto
next
  case (Exit i)
  then show ?thesis using exitLane_effect [of i q] assms(2) by auto
qed (use assms(2) lanes_ok_wait lanes_ok_wake lanes_ok_notify in auto)

lemma new_queue_empty:
  "queued (newLaneBasedExecutionQueue b limits alg env) = {#}"
  "running (newLaneBasedExecutionQueue b limits alg env) = {#}"
  "lanes_ok (newLaneBasedExecutionQueue b limits alg env)"
proof -
  let ?q = "newLaneBasedExecutionQueue b limits alg env"
  show "queued ?q = {#}" by (cases alg) (simp_all add: newLaneBasedExecutionQueue_def queued_def)
  have lanes: "\<forall>l \<in> set (q_lanes ?q). l = newLane" by (simp add: newLaneBasedExecutionQueue_def)
  then show "running ?q = {#}" by (intro running_empty) (auto simp: newLane_def lane_job_def)
  from lanes show "lanes_ok ?q" by (auto simp: lanes_ok_def lane_ok_def newLane_def)
qed

lemma lane_run_conserves:
  "lane_run q ls q' \<Longrightarrow> q = newLaneBasedExecutionQueue b limits alg env \<Longrightarrow>
   mset (added ls) = queued q' + running q' + mset (finished_jobs ls) + mset (swallowed ls) \<and> lanes_ok q'"
proof (induction rule: lane_run.induct)
  case (Step q ls q' l q'')
  then show ?case using lane_step_conserves [OF Step(2)] by (simp add: ac_simps)
qed (simp add: new_queue_empty)

lemma no_lane_running: "list_all l_exited (q_lanes q) \<Longrightarrow> lanes_ok q \<Longrightarrow> running q = {#}"
proof -
  assume "list_all l_exited (q_lanes q)" "lanes_ok q"
  then have "\<forall>l \<in> set (q_lanes q). lane_job l = {#}"
    by (auto simp: lanes_ok_def lane_ok_def list_all_iff lane_job_def)
  then show ?thesis by (simp add: running_empty)
qed

text \<open>
  C27. Every job that was added is run exactly once: when the last lane leaves its loop, the jobs that
  were finished are the jobs that were added, whatever the interleaving of the lanes with additions,
  cancellation and the request to shut down, and with either scheduler.
\<close>

theorem queue_runs_every_job_once:
  assumes run: "lane_run (newLaneBasedExecutionQueue b limits alg env) (ls @ [LExit i]) q"
    and joined: "list_all l_exited (q_lanes q)"
    and desc: "list_all (\<lambda>job. j_desc job \<noteq> None) (added ls)"
  shows "mset (finished_jobs ls) = mset (added ls)"
proof -
  from run obtain q' where r: "lane_run (newLaneBasedExecutionQueue b limits alg env) ls q'"
    and l: "lane_step q' (LExit i) q"
    by (cases rule: lane_run.cases) auto
  have "queued q = {#}"
    using l by (cases rule: lane_step.cases) (auto simp: queuesEmpty_iff exitLane_def)
  moreover have "swallowed ls = []"
  proof (rule ccontr)
    assume "swallowed ls \<noteq> []"
    then obtain job where job: "job \<in> set (swallowed ls)" by (cases "swallowed ls") auto
    then have "job \<in># mset (added ls)" using lane_run_conserves [OF r refl] by simp
    then show False using desc swallowed_desc [OF job] by (auto simp: list_all_iff)
  qed
  ultimately show ?thesis
    using lane_run_conserves [OF run refl] no_lane_running [OF joined] by simp
qed

section \<open>Order of the jobs\<close>

fun added_at :: "QueueJobPriority \<Rightarrow> queue_label \<Rightarrow> QueueJob list" where
  "added_at p (LAdd job prio) = (if prio = p then [job] else [])"
| "added_at p _ = []"

fun taken_by :: "queue_label \<Rightarrow> QueueJob list" where
  "taken_by (LTake i job) = [job]"
| "taken_by _ = []"

definition added_with :: "QueueJobPriority \<Rightarrow> queue_label list \<Rightarrow> QueueJob list" where
  "added_with p ls = concat (map (added_at p) ls)"

definition taken :: "queue_label list \<Rightarrow> QueueJob list" where
  "taken ls = concat (map taken_by ls)"

lemma order_simps [simp]:
  "added_with p [] = []" "added_with p (ls @ [l]) = added_with p ls @ added_at p l"
  "taken [] = []" "taken (ls @ [l]) = taken ls @ taken_by l"
  by (simp_all add: added_with_def taken_def)

definition is_fifo :: "Scheduler \<Rightarrow> bool" where
  "is_fifo s \<longleftrightarrow> s = FifoScheduler (scheduler_jobs s)"

lemma is_fifo_simps [simp]: "is_fifo (FifoScheduler jobs)" "\<not> is_fifo (PriorityQueueScheduler jobs)"
  by (simp_all add: is_fifo_def)

lemma fifo_add: "is_fifo s \<Longrightarrow> scheduler_addJob job s = Some s' \<Longrightarrow> s' = FifoScheduler (scheduler_jobs s @ [job])"
  by (cases s) (auto simp: fifo_addJob_def)

lemma fifo_next: "is_fifo s \<Longrightarrow> (job, s') \<in> set (scheduler_getNextJob s) \<Longrightarrow>
  scheduler_jobs s = job # scheduler_jobs s' \<and> is_fifo s'"
  by (cases s) (auto simp: fifo_getNextJob_def split: list.splits)

lemma startJob_queues [simp]:
  "q_readyJobs (startJob i job q) = q_readyJobs q"
  "q_readyPriorityJobs (startJob i job q) = q_readyPriorityJobs q"
  by (simp_all add: startJob_def Let_def setLane_def q_emit_def split: option.splits)

lemma other_queues [simp]:
  "q_readyJobs (finishJob i q) = q_readyJobs q" "q_readyPriorityJobs (finishJob i q) = q_readyPriorityJobs q"
  "q_readyJobs (exitLane i q) = q_readyJobs q" "q_readyPriorityJobs (exitLane i q) = q_readyPriorityJobs q"
  "q_readyJobs (cancelAllJobs q) = q_readyJobs q" "q_readyPriorityJobs (cancelAllJobs q) = q_readyPriorityJobs q"
  "q_readyJobs (shutdownLanes q) = q_readyJobs q" "q_readyPriorityJobs (shutdownLanes q) = q_readyPriorityJobs q"
  "q_readyJobs (waitLane i q) = q_readyJobs q" "q_readyPriorityJobs (waitLane i q) = q_readyPriorityJobs q"
  "q_readyJobs (wakeLane i q) = q_readyJobs q" "q_readyPriorityJobs (wakeLane i q) = q_readyPriorityJobs q"
  by (simp_all add: finishJob_def exitLane_def setLane_def q_emit_def cancelAllJobs_def shutdownLanes_def
      waitLane_def wakeLane_def notify_all_def Let_def split: option.splits)

lemma append_in_shuffles': "xs @ ys \<in> shuffles xs ys" "ys @ xs \<in> shuffles xs ys"
proof -
  show *: "xs @ ys \<in> shuffles xs ys" for xs ys :: "'a list"
    by (induction xs) (auto simp: Cons_in_shuffles_iff)
  show "ys @ xs \<in> shuffles xs ys" using * [of ys xs] by (simp add: shuffles_commutes)
qed

lemma shuffles_snoc:
  "zs \<in> shuffles xs ys \<Longrightarrow> zs @ [x] \<in> shuffles (xs @ [x]) ys"
  "zs \<in> shuffles xs ys \<Longrightarrow> zs @ [y] \<in> shuffles xs (ys @ [y])"
proof (induction xs ys arbitrary: zs rule: shuffles.induct)
  case (3 x' xs y' ys)
  case 1
  with 3 show ?case by (auto simp: Cons_in_shuffles_iff)
next
  case (3 x' xs y' ys)
  case 2
  with 3 show ?case by (auto simp: Cons_in_shuffles_iff)
qed (auto simp: append_in_shuffles')

text \<open>
  The state of an order-preserving queue: the jobs of each priority were taken from the front of
  what was added, and the lanes took a merge of the two sequences.
\<close>

definition in_order :: "queue_label list \<Rightarrow> LaneBasedExecutionQueue \<Rightarrow> bool" where
  "in_order ls q \<longleftrightarrow> (\<exists>th tn.
     added_with High ls = th @ scheduler_jobs (q_readyPriorityJobs q)
     \<and> added_with Normal ls = tn @ scheduler_jobs (q_readyJobs q) \<and> taken ls \<in> shuffles th tn)"

lemma in_order_step:
  assumes "lane_step q l q'" "in_order ls q" "is_fifo (q_readyJobs q)" "is_fifo (q_readyPriorityJobs q)"
  shows "in_order (ls @ [l]) q' \<and> is_fifo (q_readyJobs q') \<and> is_fifo (q_readyPriorityJobs q')"
  using assms(1)
proof cases
  case (Add job prio q1)
  then show ?thesis
    using assms(2-4) fifo_add [of "q_readyJobs q" job] fifo_add [of "q_readyPriorityJobs q" job]
      notify_one_keeps [OF Add(3)]
    by (cases prio) (auto simp: addJob_def in_order_def)
next
  case (Take i job q1)
  from assms(2) obtain th tn where o: "added_with High ls = th @ scheduler_jobs (q_readyPriorityJobs q)"
    "added_with Normal ls = tn @ scheduler_jobs (q_readyJobs q)" "taken ls \<in> shuffles th tn"
    by (auto simp: in_order_def)
  show ?thesis
  proof (cases "scheduler_empty (q_readyPriorityJobs q)")
    case True
    then obtain s where s: "(job, s) \<in> set (scheduler_getNextJob (q_readyJobs q))" "q1 = q\<lparr>q_readyJobs := s\<rparr>"
      using Take by (auto simp: nextJobs_def)
    then show ?thesis
      using o assms(4) fifo_next [OF assms(3) s(1)] shuffles_snoc(2) [OF o(3), of job] Take
      by (auto simp: in_order_def intro!: exI [of _ th] exI [of _ "tn @ [job]"])
  next
    case False
    then obtain s where s: "(job, s) \<in> set (scheduler_getNextJob (q_readyPriorityJobs q))"
      "q1 = q\<lparr>q_readyPriorityJobs := s\<rparr>"
      using Take by (auto simp: nextJobs_def)
    then show ?thesis
      using o assms(3) fifo_next [OF assms(4) s(1)] shuffles_snoc(1) [OF o(3), of job] Take
      by (auto simp: in_order_def intro!: exI [of _ "th @ [job]"] exI [of _ tn])
  qed
qed (use assms in \<open>auto simp: in_order_def\<close>)

lemma new_queue_in_order:
  "in_order [] (newLaneBasedExecutionQueue b limits FIFO env)"
  "is_fifo (q_readyJobs (newLaneBasedExecutionQueue b limits FIFO env))"
  "is_fifo (q_readyPriorityJobs (newLaneBasedExecutionQueue b limits alg env))"
  by (simp_all add: newLaneBasedExecutionQueue_def in_order_def)

text \<open>
  With the FIFO scheduler the lanes take the jobs of each priority in the order in which they were
  added: what was taken is a merge of the front parts of the two sequences, and the rest is queued.
\<close>

theorem queue_fifo_order:
  assumes "lane_run (newLaneBasedExecutionQueue b limits FIFO env) ls q"
  shows "in_order ls q"
proof -
  have "lane_run q0 ls q \<Longrightarrow> q0 = newLaneBasedExecutionQueue b limits FIFO env \<Longrightarrow>
      in_order ls q \<and> is_fifo (q_readyJobs q) \<and> is_fifo (q_readyPriorityJobs q)" for q0
    by (induction rule: lane_run.induct) (auto simp: new_queue_in_order dest: in_order_step)
  then show ?thesis using assms by blast
qed

lemma priority_first:
  "lane_step q (LTake i job) q' \<Longrightarrow> \<not> scheduler_empty (q_readyPriorityJobs q) \<Longrightarrow>
   \<exists>s. (job, s) \<in> set (scheduler_getNextJob (q_readyPriorityJobs q))"
  by (auto simp: nextJobs_def elim!: lane_stepE)


section \<open>Waking the lanes\<close>

definition idle_lanes :: "LaneBasedExecutionQueue \<Rightarrow> nat" where
  "idle_lanes q = length (filter l_idle (q_lanes q))"

definition sleeping :: "LaneBasedExecutionQueue \<Rightarrow> bool" where
  "sleeping q \<longleftrightarrow> list_ex l_waiting (q_lanes q)"

text \<open>No notification is lost: as long as a lane sleeps, there is an awake lane for each queued job.\<close>

definition wakeup_inv :: "LaneBasedExecutionQueue \<Rightarrow> bool" where
  "wakeup_inv q \<longleftrightarrow> lanes_ok q \<and> (q_shutdown q \<longrightarrow> \<not> sleeping q) \<and> (sleeping q \<longrightarrow> size (queued q) \<le> idle_lanes q)"

lemma length_filter_update:
  "i < length xs \<Longrightarrow> length (filter P (xs[i := x])) + (if P (xs ! i) then 1 else 0)
     = length (filter P xs) + (if P x then 1 else 0)"
proof (induction xs arbitrary: i)
  case (Cons y ys)
  then show ?case by (cases i) (auto dest: Cons.IH)
qed simp

lemma idle_setLane:
  "i < length (q_lanes q) \<Longrightarrow> idle_lanes (setLane i l q) + (if l_idle (q_lanes q ! i) then 1 else 0)
     = idle_lanes q + (if l_idle l then 1 else 0)"
  using length_filter_update [of i "q_lanes q" l_idle l] by (simp add: idle_lanes_def setLane_def)

lemma sleeping_setLane: "sleeping (setLane i l q) \<Longrightarrow> \<not> l_waiting l \<Longrightarrow> sleeping q"
  by (auto simp: sleeping_def setLane_def list_ex_iff dest: set_update_subset_insert [THEN subsetD])

lemma wake_simps [simp]:
  "idle_lanes (q_emit ev q) = idle_lanes q" "sleeping (q_emit ev q) = sleeping q" "\<not> sleeping (notify_all q)"
  by (auto simp: idle_lanes_def sleeping_def notify_all_def list_ex_iff)

lemma same_lanes:
  "q_lanes q' = q_lanes q \<Longrightarrow> idle_lanes q' = idle_lanes q \<and> sleeping q' = sleeping q"
  by (simp add: idle_lanes_def sleeping_def)

lemma shutdown_of [simp]:
  "q_shutdown (notify_all q) = q_shutdown q" "q_shutdown (cancelAllJobs q) = q_shutdown q"
  "q_shutdown (startJob i job q) = q_shutdown q" "q_shutdown (finishJob i q) = q_shutdown q"
  "q_shutdown (exitLane i q) = q_shutdown q" "q_shutdown (wakeLane i q) = q_shutdown q"
  "q_shutdown (waitLane i q) = q_shutdown q"
  by (simp_all add: notify_all_def cancelAllJobs_def startJob_def finishJob_def exitLane_def wakeLane_def
      waitLane_def Let_def split: option.splits)

lemma addJob_shutdown: "addJob job prio q = Some q' \<Longrightarrow> q_shutdown q' = q_shutdown q"
  by (auto simp: addJob_def split: if_splits)

lemma wake_add:
  assumes "addJob job prio q = Some q1" "q' \<in> set (notify_one q1)" "wakeup_inv q"
  shows "(q_shutdown q' \<longrightarrow> \<not> sleeping q') \<and> (sleeping q' \<longrightarrow> size (queued q') \<le> idle_lanes q')"
proof -
  note a = addJob_queued [OF assms(1)] addJob_shutdown [OF assms(1)]
  note l = same_lanes [of q1 q]
  show ?thesis
    using assms(2)
  proof (cases rule: notify_one_cases)
    case nobody
    then show ?thesis by (simp add: sleeping_def)
  next
    case (somebody i)
    let ?l = "(q_lanes q1 ! i)\<lparr>l_waiting := False\<rparr>"
    have "lane_ok (q_lanes q1 ! i)"
      using lanes_ok_nth [of q i] assms(3) somebody(1) a by (simp add: wakeup_inv_def)
    then have "idle_lanes q' = Suc (idle_lanes q1)"
      using idle_setLane [OF somebody(1), of ?l] somebody
      by (auto simp: wakeLane_def l_idle_def lane_ok_def)
    moreover have "sleeping q1"
      using somebody by (auto simp: sleeping_def list_ex_length)
    ultimately show ?thesis
      using somebody a l assms(3) by (simp add: wakeup_inv_def)
  qed
qed

lemma startJob_wake:
  assumes "i < length (q_lanes q)" "l_idle (q_lanes q ! i)"
  shows "Suc (idle_lanes (startJob i job q)) = idle_lanes q" "sleeping (startJob i job q) \<Longrightarrow> sleeping q"
proof -
  obtain l where l: "\<not> l_idle l" "\<not> l_waiting l"
    and start: "startJob i job q = setLane i l q \<or> (\<exists>ev. startJob i job q = q_emit ev (setLane i l q))"
  proof (cases "j_desc job")
    case None
    then show ?thesis
      using assms(2) that [of "(q_lanes q ! i)\<lparr>l_exited := True\<rparr>"]
      by (simp add: startJob_def Let_def l_idle_def)
  next
    case (Some d)
    let ?c = "l_jobCount (q_lanes q ! i) + 1"
    show ?thesis
      using assms(2) Some
        that [of "(q_lanes q ! i)\<lparr>l_jobCount := ?c, l_running := Some (job, jobID (q_buildID q) (of_nat i) ?c)\<rparr>"]
      by (auto simp: startJob_def Let_def l_idle_def)
  qed
  show "Suc (idle_lanes (startJob i job q)) = idle_lanes q"
    using start idle_setLane [OF assms(1), of l] assms(2) l by auto
  show "sleeping q" if "sleeping (startJob i job q)"
    using that start l sleeping_setLane [of i l q] by auto
qed

lemma finishJob_wake:
  assumes "i < length (q_lanes q)" "l_running (q_lanes q ! i) = Some (job, ident)" "lanes_ok q"
  shows "idle_lanes (finishJob i q) = Suc (idle_lanes q)" "sleeping (finishJob i q) \<Longrightarrow> sleeping q"
proof -
  let ?q = "q_emit [QueueJobFinished (j_desc job)] q" and ?l = "(q_lanes q ! i)\<lparr>l_running := None\<rparr>"
  have l: "l_idle ?l" "\<not> l_idle (q_lanes q ! i)" "\<not> l_waiting ?l"
    using lanes_ok_nth [OF assms(3,1)] assms(2) by (auto simp: lane_ok_def l_idle_def)
  have f: "finishJob i q = setLane i ?l ?q" using assms(2) by (simp add: finishJob_def)
  show "idle_lanes (finishJob i q) = Suc (idle_lanes q)"
    unfolding f using idle_setLane [of i ?q ?l] assms(1) l by simp
  show "sleeping q" if "sleeping (finishJob i q)"
    using that sleeping_setLane [of i ?l ?q] l unfolding f by simp
qed

lemma lane_step_wakeup:
  assumes "lane_step q l q'" "wakeup_inv q"
  shows "wakeup_inv q'"
proof -
  have ok: "lanes_ok q" using assms(2) by (simp add: wakeup_inv_def)
  have "(q_shutdown q' \<longrightarrow> \<not> sleeping q') \<and> (sleeping q' \<longrightarrow> size (queued q') \<le> idle_lanes q')"
    using assms(1)
  proof cases
    case (Add job prio q1)
    then show ?thesis using wake_add assms(2) by blast
  next
    case (Wait i)
    then show ?thesis by (simp add: queuesEmpty_iff)
  next
    case (Wake i)
    let ?l = "(q_lanes q ! i)\<lparr>l_waiting := False\<rparr>"
    have "sleeping q" using Wake by (auto simp: sleeping_def list_ex_length)
    moreover have "\<not> l_idle (q_lanes q ! i)" using Wake by (simp add: l_idle_def)
    ultimately show ?thesis
      using Wake assms(2) idle_setLane [of i q ?l] by (auto simp: wakeup_inv_def wakeLane_def)
  next
    case (Take i job q1)
    note n = nextJobs_queued [OF Take(6)]
    show ?thesis
      using Take n startJob_wake [of i q1 job] startJob_effect(1) [of i q1 job] same_lanes [of q1 q] assms(2)
      by (auto simp: wakeup_inv_def lanes_ok_def)
  next
    case (Finish i job ident)
    then show ?thesis
      using finishJob_wake [OF _ _ ok] finishJob_effect(1) [OF _ _ ok] assms(2)
      by (fastforce simp: wakeup_inv_def)
  next
    case (Exit i)
    let ?l = "(q_lanes q ! i)\<lparr>l_exited := True\<rparr>"
    have "\<not> l_waiting ?l" using Exit by (simp add: l_idle_def)
    then show ?thesis
      using Exit assms(2) sleeping_setLane [of i ?l q]
      by (auto simp: wakeup_inv_def exitLane_def queuesEmpty_iff)
  next
    case Cancel
    have "q_cancelled q \<or> \<not> sleeping (cancelAllJobs q)"
      using wake_simps(3) by (auto simp: cancelAllJobs_def Let_def sleeping_def)
    then show ?thesis using Cancel assms(2) by (auto simp: wakeup_inv_def cancelAllJobs_def)
  next
    case Shutdown
    then show ?thesis by (simp add: shutdownLanes_def)
  qed
  then show ?thesis using lane_step_conserves [OF assms(1) ok] by (simp add: wakeup_inv_def)
qed

lemma reachable_wakeup:
  "lane_run q ls q' \<Longrightarrow> wakeup_inv q \<Longrightarrow> wakeup_inv q'"
  by (induction rule: lane_run.induct) (auto intro: lane_step_wakeup)

lemma new_queue_wakeup: "wakeup_inv (newLaneBasedExecutionQueue b limits alg env)"
proof -
  have "\<not> sleeping (newLaneBasedExecutionQueue b limits alg env)"
    by (auto simp: sleeping_def newLaneBasedExecutionQueue_def newLane_def list_ex_iff)
  then show ?thesis by (simp add: wakeup_inv_def new_queue_empty)
qed

section \<open>Draining the queue\<close>

text \<open>The lane that takes a step; the other steps are calls of the queue's operations.\<close>

fun lane_of :: "queue_label \<Rightarrow> nat option" where
  "lane_of (LWait i) = Some i"
| "lane_of (LWake i) = Some i"
| "lane_of (LTake i job) = Some i"
| "lane_of (LFinish i job) = Some i"
| "lane_of (LExit i) = Some i"
| "lane_of _ = None"

definition pending :: "LaneBasedExecutionQueue \<Rightarrow> nat" where
  "pending q = 2 * size (queued q) + size (running q) + length (filter (\<lambda>l. \<not> l_exited l) (q_lanes q))"

lemma length_filter_setLane:
  assumes "i < length (q_lanes q)"
  shows "length (filter (\<lambda>l. \<not> l_exited l) (q_lanes (setLane i l q))) + (if \<not> l_exited (q_lanes q ! i) then 1 else 0)
     = length (filter (\<lambda>l. \<not> l_exited l) (q_lanes q)) + (if \<not> l_exited l then 1 else 0)"
  using length_filter_update [OF assms, of "\<lambda>l. \<not> l_exited l" l] by (simp add: setLane_def)

lemma size_running_setLane:
  "i < length (q_lanes q) \<Longrightarrow>
   size (running (setLane i l q)) + size (lane_job (q_lanes q ! i)) = size (running q) + size (lane_job l)"
  by (metis running_setLane size_union)

lemma startJob_pending:
  assumes "i < length (q_lanes q)" "l_idle (q_lanes q ! i)"
  shows "pending (startJob i job q) \<le> Suc (pending q)"
proof (cases "j_desc job")
  case None
  let ?l = "(q_lanes q ! i)\<lparr>l_exited := True\<rparr>"
  show ?thesis
    using assms None length_filter_setLane [OF assms(1), of ?l] size_running_setLane [OF assms(1), of ?l]
    by (simp add: startJob_def pending_def lane_job_def l_idle_def)
next
  case (Some d)
  let ?l = "(q_lanes q ! i)\<lparr>l_jobCount := l_jobCount (q_lanes q ! i) + 1,
    l_running := Some (job, jobID (q_buildID q) (of_nat i) (l_jobCount (q_lanes q ! i) + 1))\<rparr>"
  show ?thesis
    using assms Some length_filter_setLane [OF assms(1), of ?l] size_running_setLane [OF assms(1), of ?l]
    by (simp add: startJob_def Let_def pending_def lane_job_def l_idle_def)
qed

lemma lane_step_decreases:
  assumes "lane_step q l q'" "lane_of l \<noteq> None" "q_shutdown q" "wakeup_inv q"
  shows "pending q' < pending q \<and> q_shutdown q'"
  using assms(1)
proof cases
  case (Wake i)
  then have "sleeping q" by (auto simp: sleeping_def list_ex_length)
  then show ?thesis using assms(3,4) by (simp add: wakeup_inv_def)
next
  case (Take i job q1)
  note n = nextJobs_queued [OF Take(6)]
  have "pending q = pending q1 + 2" using n by (simp add: pending_def running_def)
  then show ?thesis using startJob_pending [of i q1 job] n Take assms(3) by simp
next
  case (Finish i job ident)
  let ?l = "(q_lanes q ! i)\<lparr>l_running := None\<rparr>"
  have "pending q' < pending q"
    using Finish length_filter_setLane [of i "q_emit [QueueJobFinished (j_desc job)] q" ?l]
      size_running_setLane [of i "q_emit [QueueJobFinished (j_desc job)] q" ?l]
    by (simp add: finishJob_def pending_def lane_job_def)
  then show ?thesis using Finish assms(3) by simp
next
  case (Exit i)
  let ?l = "(q_lanes q ! i)\<lparr>l_exited := True\<rparr>"
  show ?thesis
    using Exit assms(3) length_filter_setLane [of i q ?l] size_running_setLane [of i q ?l]
    by (simp add: exitLane_def pending_def lane_job_def l_idle_def)
qed (use assms(2,3) in auto)

lemma awake_lane_steps:
  assumes "i < length (q_lanes q)" "\<not> l_exited (q_lanes q ! i)" "\<not> l_waiting (q_lanes q ! i)"
    "q_shutdown q \<or> \<not> queuesEmpty q"
  shows "\<exists>l q'. lane_of l = Some i \<and> lane_step q l q'"
proof (cases "l_running (q_lanes q ! i)")
  case (Some r)
  then show ?thesis
    using assms(1) lane_step.Finish [of i q "fst r" "snd r"] by (intro exI [of _ "LFinish i (fst r)"]) auto
next
  case None
  then have idle: "l_idle (q_lanes q ! i)" using assms(2,3) by (simp add: l_idle_def)
  show ?thesis
  proof (cases "queuesEmpty q")
    case True
    then show ?thesis
      using assms(1,4) idle lane_step.Exit [of i q] by (intro exI [of _ "LExit i"]) auto
  next
    case False
    then obtain job q1 where "(job, q1) \<in> set (nextJobs q)"
      using nextJobs_exists [OF False] by (cases "nextJobs q") auto
    then show ?thesis
      using False assms(1) idle lane_step.Take [of i q job q1] by (intro exI [of _ "LTake i job"]) auto
  qed
qed

text \<open>
  C28. The lanes sleep on a condition variable and are woken only by notifications. In every state that
  is reached after the request to shut down, no lane sleeps and every lane that has not left its loop
  can take a step: it finishes its job, takes another one or leaves. The number of steps that the
  lanes take without new jobs being added is bounded by the jobs queued and running and the lanes
  still there, so that all lanes leave and the destructor's joins return.
\<close>

theorem queue_drains:
  assumes "lane_run (newLaneBasedExecutionQueue b limits alg env) ls0 q" "q_shutdown q"
    and "lane_run q ls q'" "list_all (\<lambda>l. lane_of l \<noteq> None) ls"
  shows "length ls + pending q' \<le> pending q
    \<and> (\<forall>i < length (q_lanes q'). \<not> l_waiting (q_lanes q' ! i)
         \<and> (l_exited (q_lanes q' ! i) \<or> (\<exists>l q''. lane_of l = Some i \<and> lane_step q' l q'')))"
proof -
  have inv: "wakeup_inv q" by (rule reachable_wakeup [OF assms(1) new_queue_wakeup])
  have run: "length ls + pending q' \<le> pending q \<and> q_shutdown q'"
    using assms(3,4,2) inv
  proof (induction rule: lane_run.induct)
    case (Step q ls q' l q'')
    then show ?case using lane_step_decreases [OF Step(2)] reachable_wakeup [OF Step(1)] by fastforce
  qed simp
  then have "\<not> sleeping q'" using reachable_wakeup [OF assms(3) inv] by (simp add: wakeup_inv_def)
  then have awake: "\<not> l_waiting (q_lanes q' ! i)" if "i < length (q_lanes q')" for i
    using that by (auto simp: sleeping_def list_ex_length)
  with run show ?thesis using awake_lane_steps [of _ q'] by blast
qed

text \<open>
  C8. No notification is lost: in every reachable state, before the shutdown too, in which a lane sleeps
  there are at least as many awake lanes without a job as there are jobs in the queue, so that no
  queued job waits for a lane that sleeps.
\<close>

theorem queue_no_lost_wakeup:
  assumes "lane_run (newLaneBasedExecutionQueue b limits alg env) ls q"
    and "list_ex l_waiting (q_lanes q)"
  shows "size (queued q) \<le> length (filter l_idle (q_lanes q))"
  using reachable_wakeup [OF assms(1) new_queue_wakeup] assms(2)
  by (simp add: wakeup_inv_def sleeping_def idle_lanes_def)

section \<open>A concrete run\<close>

definition job_b :: QueueJob where
  "job_b = \<lparr>j_desc = Some \<lparr>ordinalName = ''b'', shortDescription = ''B''\<rparr>, j_work = 1\<rparr>"

definition job_a :: QueueJob where
  "job_a = \<lparr>j_desc = Some \<lparr>ordinalName = ''a'', shortDescription = ''A''\<rparr>, j_work = 2\<rparr>"

definition one_lane :: "SchedulerAlgorithm \<Rightarrow> LaneBasedExecutionQueue" where
  "one_lane alg = newLaneBasedExecutionQueue 7 (1, 0) alg []"

definition demo_labels :: "queue_label list" where
  "demo_labels = [LAdd job_b Normal, LAdd job_a High, LShutdown, LTake 0 job_a, LFinish 0 job_a,
     LTake 0 job_b, LFinish 0 job_b]"

lemma lane_run_snoc: "lane_run q ls q' \<Longrightarrow> lane_step q' l q'' \<Longrightarrow> lane_run q (ls @ [l]) q''"
  by (rule lane_run.Step)

text \<open>The deterministic successor of a label, to build concrete runs.\<close>

fun apply_label :: "queue_label \<Rightarrow> LaneBasedExecutionQueue \<Rightarrow> LaneBasedExecutionQueue option" where
  "apply_label (LAdd job prio) q = map_option (\<lambda>q. hd (notify_one q)) (addJob job prio q)"
| "apply_label (LWait i) q =
     (if i < length (q_lanes q) \<and> l_idle (q_lanes q ! i) \<and> \<not> q_shutdown q \<and> queuesEmpty q
      then Some (waitLane i q) else None)"
| "apply_label (LWake i) q =
     (if i < length (q_lanes q) \<and> l_waiting (q_lanes q ! i) then Some (wakeLane i q) else None)"
| "apply_label (LTake i job) q =
     (if i < length (q_lanes q) \<and> l_idle (q_lanes q ! i) \<and> \<not> queuesEmpty q
      then map_option (startJob i job) (map_of (nextJobs q) job) else None)"
| "apply_label (LFinish i job) q =
     (if i < length (q_lanes q) \<and> map_option fst (l_running (q_lanes q ! i)) = Some job
      then Some (finishJob i q) else None)"
| "apply_label (LExit i) q =
     (if i < length (q_lanes q) \<and> l_idle (q_lanes q ! i) \<and> q_shutdown q \<and> queuesEmpty q
      then Some (exitLane i q) else None)"
| "apply_label LCancel q = Some (cancelAllJobs q)"
| "apply_label LShutdown q = Some (shutdownLanes q)"

lemma notify_one_nonempty: "notify_one q \<noteq> []"
  by (simp add: notify_one_def split: list.splits)

lemma apply_label_step: "apply_label l q = Some q' \<Longrightarrow> lane_step q l q'"
  by (cases l) (auto intro: lane_step.intros lane_step.Add [OF _ hd_in_set [OF notify_one_nonempty]]
      dest: map_of_SomeD split: if_splits)

lemma apply_labels_run: "foldM_option apply_label ls q = Some q' \<Longrightarrow> lane_run q ls q'"
proof (induction ls arbitrary: q' rule: rev_induct)
  case (snoc l ls)
  then show ?case
    by (auto simp: foldM_option_append bind_eq_Some_conv intro!: lane_run.Step apply_label_step)
qed (simp add: lane_run.Start)

lemma demo_run: "foldM_option apply_label (demo_labels @ [LExit 0]) (one_lane FIFO) \<noteq> None"
  by code_simp

lemma demo_exited:
  "map_option (\<lambda>q. list_all l_exited (q_lanes q))
     (foldM_option apply_label (demo_labels @ [LExit 0]) (one_lane FIFO)) = Some True"
  by code_simp

theorem queue_runs_every_job_once_witness:
  "mset (finished_jobs demo_labels) = mset (added demo_labels)"
proof -
  obtain q where q: "foldM_option apply_label (demo_labels @ [LExit 0]) (one_lane FIFO) = Some q"
    using demo_run by blast
  have "list_all (\<lambda>job. j_desc job \<noteq> None) (added demo_labels)"
    by (simp add: demo_labels_def added_def job_a_def job_b_def)
  then show ?thesis
    using queue_runs_every_job_once [of 7 "(1, 0)" FIFO "[]" demo_labels 0 q]
      apply_labels_run [OF q] demo_exited q by (simp add: one_lane_def)
qed

theorem queue_fifo_order_witness:
  "\<exists>q. lane_run (one_lane FIFO) demo_labels q \<and> in_order demo_labels q"
proof -
  obtain q where q: "foldM_option apply_label demo_labels (one_lane FIFO) = Some q"
    using demo_run by (cases "foldM_option apply_label demo_labels (one_lane FIFO)") (auto simp: foldM_option_append)
  show ?thesis
    using queue_fifo_order [of 7 "(1, 0)" "[]" demo_labels q] apply_labels_run [OF q]
    by (auto simp: one_lane_def)
qed

text \<open>One lane sleeps, is woken by the shutdown and leaves.\<close>

definition sleepy_queue :: LaneBasedExecutionQueue where
  "sleepy_queue = the (foldM_option apply_label [LWait 0, LShutdown] (one_lane NamePriority))"

theorem queue_drains_witness:
  "\<exists>q. lane_run sleepy_queue [LExit 0] q \<and> length [LExit 0] + pending q \<le> pending sleepy_queue
     \<and> \<not> l_waiting (q_lanes q ! 0)"
proof -
  have "foldM_option apply_label [LWait 0, LShutdown] (one_lane NamePriority) = Some sleepy_queue"
    unfolding sleepy_queue_def by code_simp
  then have s: "lane_run (newLaneBasedExecutionQueue 7 (1, 0) NamePriority []) [LWait 0, LShutdown] sleepy_queue"
    using apply_labels_run by (simp add: one_lane_def)
  have shut: "q_shutdown sleepy_queue" by code_simp
  have "map_option (\<lambda>q. length (q_lanes q)) (foldM_option apply_label [LExit 0] sleepy_queue) = Some 1"
    by code_simp
  then obtain q where q: "foldM_option apply_label [LExit 0] sleepy_queue = Some q" "length (q_lanes q) = 1"
    by auto
  show ?thesis
    using queue_drains [OF s shut apply_labels_run [OF q(1)]] apply_labels_run [OF q(1)] q(2) by auto
qed

theorem queue_no_lost_wakeup_witness:
  "\<exists>q. lane_run (newLaneBasedExecutionQueue 7 (2, 0) FIFO []) [LWait 0, LWait 1, LAdd job_a Normal] q
     \<and> list_ex l_waiting (q_lanes q) \<and> size (queued q) \<le> length (filter l_idle (q_lanes q))"
proof -
  let ?run = "foldM_option apply_label [LWait 0, LWait 1, LAdd job_a Normal] (newLaneBasedExecutionQueue 7 (2, 0) FIFO [])"
  have "map_option (\<lambda>q. list_ex l_waiting (q_lanes q)) ?run = Some True"
    by code_simp
  then obtain q where q: "?run = Some q" "list_ex l_waiting (q_lanes q)" by auto
  show ?thesis
    using queue_no_lost_wakeup [OF apply_labels_run [OF q(1)] q(2)] apply_labels_run [OF q(1)] q(2) by blast
qed

section \<open>Task limits and identifiers\<close>

text \<open>
  C29. The number of lanes is at least one and at most the suggested number, and the descriptors that
  lanes and background tasks need stay within the limit on open files; below the reserved number
  plus one task there is one lane and no background task.
\<close>

theorem estimateTaskLimits_bounds:
  assumes "estimateTaskLimits limit env_max suggestion = (lanes, background)" "0 < suggestion"
  shows "1 \<le> lanes \<and> lanes \<le> suggestion
    \<and> (reservedFileCount + 2 \<le> limit \<longrightarrow> 2 * (lanes + background) + reservedFileCount \<le> limit)
    \<and> (limit < reservedFileCount + 2 \<longrightarrow> lanes = 1 \<and> background = 0)"
proof (cases "limit < reservedFileCount")
  case True
  then show ?thesis using assms by (simp add: estimateTaskLimits_def)
next
  case False
  define files where "files = min limit INT_MAX - reservedFileCount"
  have files: "files + reservedFileCount \<le> limit" "limit < reservedFileCount + 2 \<longleftrightarrow> files < 2"
    using False by (auto simp: files_def INT_MAX_def reservedFileCount_def)
  show ?thesis
    using assms False files
    by (auto simp: estimateTaskLimits_def Let_def files_def [symmetric] split: if_splits)
qed

theorem estimateTaskLimits_bounds_witness:
  "estimateTaskLimits 64 None 8 = (8, 19) \<and> 2 * (8 + 19) + reservedFileCount \<le> 64"
proof -
  have e: "estimateTaskLimits 64 None 8 = (8, 19)"
    by (simp add: estimateTaskLimits_def INT_MAX_def reservedFileCount_def)
  show ?thesis using estimateTaskLimits_bounds [OF e] e by (simp add: reservedFileCount_def)
qed

text \<open>
  A suggestion of 0 lanes is kept: such a queue has no lane and never runs a job, and its
  destructor returns at once.
\<close>

lemma zero_lanes_never_run:
  "lane_run q ls q' \<Longrightarrow> q_lanes q = [] \<Longrightarrow> q_lanes q' = [] \<and> finished_jobs ls = []"
proof (induction rule: lane_run.induct)
  case (Step q ls q' l q'')
  then have "q_lanes q' = []" by simp
  with Step(2) have "q_lanes q'' = [] \<and> finished_by l = []"
    by (cases rule: lane_step.cases)
      (auto simp: addJob_def notify_one_def cancelAllJobs_def shutdownLanes_def notify_all_def q_emit_def Let_def
        split: if_splits)
  with Step show ?case by simp
qed simp

lemma releaseFn_bounded:
  "q_backgroundTaskCount q \<le> q_backgroundTaskMax q \<Longrightarrow>
   q_backgroundTaskCount (snd (releaseFn q)) \<le> q_backgroundTaskMax q
   \<and> (fst (releaseFn q) \<longleftrightarrow> q_backgroundTaskCount q < q_backgroundTaskMax q)"
  by (auto simp: releaseFn_def Let_def)

text \<open>
  Identifiers are distinct while a lane has run fewer than \<open>2\<^sup>1\<^sup>6\<close> jobs; the next job of lane 0 has
  the identifier of the first job of lane 1. Only 16 bits of the build identifier are kept.
\<close>

lemma unat_widen: "unat (ucast (w :: u32) :: u64) = unat w"
  using unsigned_less [of w, where ?'a = nat]
  by (simp add: unsigned_ucast_eq take_bit_nat_eq_self)

lemma low_bits: "unat ((ucast w :: u64) AND 0xFFFF) = unat (w :: u32) mod 2 ^ 16"
proof -
  have "(x :: u64) AND 0xFFFF = x mod 65536" for x
    using take_bit_eq_mask [of 16 x] by (simp add: take_bit_eq_mod mask_eq_exp_minus_1)
  then show ?thesis by (simp add: unat_mod unat_widen)
qed

lemma jobID_value:
  "unat (jobID b l c) = (unat b mod 2 ^ 16) * 2 ^ 32 + (unat l mod 2 ^ 16) * 2 ^ 16 + unat c"
proof -
  have "unat c < 2 ^ 32" using unsigned_less [of c, where ?'a = nat] by simp
  then show ?thesis
    by (simp add: jobID_def laneID_def push_bit_eq_mult unat_word_ariths low_bits unat_widen)
qed

lemma jobID_injective:
  assumes "unat c < 2 ^ 16" "unat c' < 2 ^ 16" "unat l < 2 ^ 16" "unat l' < 2 ^ 16"
    "jobID b l c = jobID b l' c'"
  shows "l = l' \<and> c = c'"
proof -
  have "unat l * 2 ^ 16 + unat c = unat l' * 2 ^ 16 + unat c'"
    using arg_cong [OF assms(5), of unat] assms(1-4) by (simp add: jobID_value)
  moreover from this have "unat l = unat l'"
    using assms(1,2) arg_cong [of _ _ "\<lambda>n. n div 2 ^ 16", OF calculation] by simp
  ultimately have "unat l = unat l' \<and> unat c = unat c'" by simp
  then show ?thesis by (simp add: word_unat_eq_iff)
qed

lemma jobID_collision: "jobID b 0 65537 = jobID b 1 1"
  by (simp add: jobID_def laneID_def)

lemma jobID_drops_high_build_bits: "jobID (b + 0x10000) l c = jobID b l c"
proof -
  have "unat (b + 0x10000) mod 2 ^ 16 = unat b mod 2 ^ 16"
    by (simp add: unat_word_ariths mod_mod_cancel)
  then show ?thesis by (simp add: word_unat_eq_iff jobID_value)
qed

section \<open>The environment of a subprocess\<close>

text \<open>The assignments in order of precedence.\<close>

definition queue_bindings ::
  "u32 \<Rightarrow> nat \<Rightarrow> (string \<times> string) list \<Rightarrow> bool \<Rightarrow> string list \<Rightarrow> (string \<times> string) list" where
  "queue_bindings buildID laneNumber environment inherit base =
     [(''LLBUILD_BUILD_ID'', decstr (uint buildID)), (''LLBUILD_LANE_ID'', decstr (int laneNumber))]
     @ environment @ (if inherit then map split_assignment base else [])"

definition spawn_bindings :: "spawn_os \<Rightarrow> u64 \<Rightarrow> ProcessAttributes \<Rightarrow> (string \<times> string) list" where
  "spawn_bindings os ident attr =
     (''LLBUILD_TASK_ID'', utohexstr ident)
     # (if a_controlEnabled attr \<and> \<not> a_connectToConsole attr
        then case os_controlPipe os of Inl e \<Rightarrow> [] | Inr (r, w) \<Rightarrow> [(''LLBUILD_CONTROL_FD'', decstr w)]
        else [])"

lemma setAll_append: "setAll (xs @ ys) e = setAll xs e \<bind> setAll ys"
  by (simp add: setAll_def foldM_option_append)

lemma setAll_simps [simp]:
  "setAll [] e = Some e" "setAll ((k, v) # kvs) e = setIfMissing k v e \<bind> setAll kvs"
  by (simp_all add: setAll_def)

lemma foldM_option_map: "foldM_option f (map g xs) s = foldM_option (f \<circ> g) xs s"
  by (induction xs arbitrary: s) (auto split: Option.bind_split)

lemma processEnvironment_setAll:
  "processEnvironment b n environment inherit base
   = setAll (queue_bindings b n environment inherit base) newPOSIXEnvironment"
proof -
  have "(\<lambda>p. setIfMissing (fst (split_assignment p)) (snd (split_assignment p)))
      = (\<lambda>(k, v). setIfMissing k v) \<circ> split_assignment"
    by (auto simp: fun_eq_iff split_beta)
  then show ?thesis
    by (auto simp: processEnvironment_def queue_bindings_def setAll_def foldM_option_append foldM_option_map
        intro!: bind_option_cong)
qed

text \<open>What the program sees: strings up to the first null character, first binding of each key.\<close>

definition visible_environment :: "(string \<times> string) list \<Rightarrow> string list" where
  "visible_environment kvs = map (takeWhile (\<lambda>c. c \<noteq> CHR 0x00) \<circ> render) (first_bindings [] kvs)"

lemma getEnvp_setAll:
  assumes "setAll kvs newPOSIXEnvironment = Some e"
  shows "fst (getEnvp e) = visible_environment kvs"
  using setAll_bindings [of newPOSIXEnvironment kvs] assms
  by (auto simp: getEnvp_def visible_environment_def newPOSIXEnvironment_def)

definition spawns :: "proc_event list \<Rightarrow> string list list" where
  "spawns log = concat (map (\<lambda>e. case e of SysSpawn f wd args envp pid \<Rightarrow> [envp] | _ \<Rightarrow> []) log)"

lemma spawns_simps [simp]:
  "spawns [] = []" "spawns (xs @ ys) = spawns xs @ spawns ys"
  "spawns (e # es) = (case e of SysSpawn f wd args envp pid \<Rightarrow> [envp] | _ \<Rightarrow> []) @ spawns es"
  by (simp_all add: spawns_def)

lemma quiet_spawns: "list_all quiet log \<Longrightarrow> spawns log = []"
proof (induction log)
  case (Cons e log)
  then show ?case by (cases e) auto
qed simp

lemma closeDescriptor_spawns [simp]: "spawns (snd (closeDescriptor fd)) = []"
  by (simp add: closeDescriptor_def)

lemma cleanUp_spawns: "cleanUpExecutedProcess os pid fd = Some ev \<Longrightarrow> spawns ev = []"
proof -
  assume c: "cleanUpExecutedProcess os pid fd = Some ev"
  then obtain a where "wait4_loop (os_waits os) = Some a"
    by (auto simp: cleanUpExecutedProcess_def bind_eq_Some_conv)
  with c show ?thesis by (cases a) (auto simp: cleanUpExecutedProcess_def Let_def)
qed

lemma watchProcess_spawns: "watchProcess os taskID attr pid p = Some (ev, out) \<Longrightarrow> spawns ev = []"
proof -
  let ?s = "initialPoll taskID attr"
  assume w: "watchProcess os taskID attr pid p = Some (ev, out)"
  then obtain stop s' where
    l: "(if p_events0 ?s \<or> p_events1 ?s then pollLoop (os_strerror os) (os_polls os) ?s
         else Some (LoopDone, ?s)) = Some (stop, s')"
    and res: "afterPoll os pid p (stop, s') = Some (ev, out)"
    unfolding watchProcess_def Let_def bind_eq_Some_conv by fast
  have "list_all quiet (p_log s')"
    using l pollLoop_quiet [of "os_strerror os" "os_polls os" ?s stop s']
    by (auto simp: initialPoll_def split: if_splits)
  then show ?thesis
    using res quiet_spawns cleanUp_spawns by (cases stop) (auto simp: bind_eq_Some_conv)
qed

lemma createCommunicationPipes_spawns: "spawns (snd (snd (createCommunicationPipes os attr))) = []"
  by (auto simp: createCommunicationPipes_def createOutputPipe_def createControlPipe_def resetDescriptor_def
      childMayInherit_def split: sum.splits prod.splits)

lemma spawnLocked_spawns:
  assumes "spawnLocked os args env attr = Some r" "\<not> isFrozen env" "posix_answers os"
    "a_connectToConsole attr \<longrightarrow> \<not> a_controlEnabled attr" "setAll kvs newPOSIXEnvironment = Some env"
  shows "(case r of Inl ev \<Rightarrow> spawns ev = []
          | Inr (ev, pid, p) \<Rightarrow> set (spawns ev) \<subseteq> {visible_environment (kvs @ tl (spawn_bindings os ident attr))})"
proof -
  obtain error e p ev where c: "createCommunicationPipes os attr = ((error, e), p, ev)"
    by (metis prod.collapse)
  have ev: "spawns ev = []" using createCommunicationPipes_spawns [of os attr] c by simp
  have pipe: "(if isValid (controlPipeChildEnd p) then [(''LLBUILD_CONTROL_FD'', decstr (controlPipeChildEnd p))] else [])
      = tl (spawn_bindings os ident attr)" if "error = ERROR_NONE"
    using c that assms(3,4)
    by (auto simp: createCommunicationPipes_def createOutputPipe_def createControlPipe_def noPipes_def
        spawn_bindings_def resetDescriptor_def posix_answers_def isValid_def InvalidDescriptor_def
        split: sum.splits prod.splits if_splits)
  obtain env' where env': "(if isValid (controlPipeChildEnd p)
      then setIfMissing ''LLBUILD_CONTROL_FD'' (decstr (controlPipeChildEnd p)) env else Some env) = Some env'"
    using setIfMissing_unfrozen [OF assms(2), of "''LLBUILD_CONTROL_FD''" "decstr (controlPipeChildEnd p)"]
    by (cases "isValid (controlPipeChildEnd p)") auto
  then have "error = ERROR_NONE \<Longrightarrow> setAll (kvs @ tl (spawn_bindings os ident attr)) newPOSIXEnvironment = Some env'"
    using assms(5) by (auto simp: setAll_append pipe [symmetric] split: if_splits)
  then have "error = ERROR_NONE \<Longrightarrow> fst (getEnvp env') = visible_environment (kvs @ tl (spawn_bindings os ident attr))"
    by (simp add: getEnvp_setAll)
  then show ?thesis
    using assms(1) c ev env'
    by (auto simp: spawnLocked_def Let_def split_beta failedStart_def split: if_splits sum.splits)
qed

lemma setAll_unfrozen: "setAll kvs newPOSIXEnvironment = Some e \<Longrightarrow> \<not> isFrozen e"
  using setAll_bindings [of newPOSIXEnvironment kvs] by (auto simp: newPOSIXEnvironment_def)

lemma spawnProcess_spawns:
  assumes "spawnProcess os pgrp ident commandLine env attr = Some (log, out)" "posix_answers os"
    "setAll kvs newPOSIXEnvironment = Some env"
  shows "set (spawns log) \<subseteq> {visible_environment (kvs @ spawn_bindings os ident attr)}"
    and "isClosed pgrp \<Longrightarrow> spawns log = []"
proof -
  let ?attr = "effectiveAttributes attr"
  show closed: "isClosed pgrp \<Longrightarrow> spawns log = []"
    using assms(1) by (auto simp: spawnProcess_def Let_def bind_eq_Some_conv failedStart_def split: if_splits)
  obtain env' where env': "setIfMissing ''LLBUILD_TASK_ID'' (utohexstr ident) env = Some env'"
    using setIfMissing_unfrozen [OF setAll_unfrozen [OF assms(3)]] by blast
  let ?kvs = "kvs @ [(''LLBUILD_TASK_ID'', utohexstr ident)]"
  have kvs: "setAll ?kvs newPOSIXEnvironment = Some env'"
    using env' assms(3) by (simp add: setAll_append)
  have attr: "a_connectToConsole ?attr \<longrightarrow> \<not> a_controlEnabled ?attr" by (simp add: effectiveAttributes_def)
  have bindings: "?kvs @ tl (spawn_bindings os ident ?attr) = kvs @ spawn_bindings os ident attr"
    by (simp add: spawn_bindings_def effectiveAttributes_def)
  show "set (spawns log) \<subseteq> {visible_environment (kvs @ spawn_bindings os ident attr)}"
  proof (cases "spawnLocked os (resolveArgs os commandLine) env' ?attr")
    case None
    then show ?thesis using assms(1) env'
      by (auto simp: spawnProcess_def Let_def failedStart_def split: if_splits)
  next
    case (Some r)
    show ?thesis
      using spawnLocked_spawns [OF Some setAll_unfrozen [OF kvs] assms(2) attr kvs, of ident] assms(1) Some env'
        watchProcess_spawns bindings
      by (cases r) (auto simp: spawnProcess_def Let_def failedStart_def afterSpawn_def subset_iff split: if_splits)
  qed
qed

text \<open>
  The environment of a spawned process has one binding for each key, the first in the order of
  precedence: build and lane identifiers, the requested bindings, the inherited ones if wanted, the
  task identifier, the control descriptor.
\<close>

theorem executeProcess_environment:
  assumes "posix_answers os"
    "executeProcess os laneNumber ident commandLine environment attr q = Some (log, out)"
    "envp \<in> set (spawns log)"
  shows "envp = visible_environment
    (queue_bindings (q_buildID q) laneNumber environment (a_inheritEnvironment attr) (q_environment q)
     @ spawn_bindings os ident attr)"
proof -
  have "\<not> q_cancelled q" using assms(2,3) by (auto simp: executeProcess_def)
  then obtain e where e: "setAll (queue_bindings (q_buildID q) laneNumber environment
        (a_inheritEnvironment attr) (q_environment q)) newPOSIXEnvironment = Some e"
    and sp: "spawnProcess os (q_spawnedProcesses q) ident commandLine e attr = Some (log, out)"
    using assms(2) by (auto simp: executeProcess_def processEnvironment_setAll bind_eq_Some_conv)
  from spawnProcess_spawns(1) [OF sp assms(1) e] assms(3) show ?thesis by blast
qed

text \<open>
  After a cancellation no process is spawned, neither when the request finds the queue cancelled
  nor when the cancellation closes the process group after that test.
\<close>

theorem cancelled_queue_spawns_nothing:
  assumes "executeProcess os laneNumber ident commandLine environment attr q = Some (log, out)"
    "q_cancelled q \<or> isClosed (q_spawnedProcesses q)" "posix_answers os"
  shows "spawns log = []"
proof (cases "q_cancelled q")
  case False
  then obtain e where e: "setAll (queue_bindings (q_buildID q) laneNumber environment
        (a_inheritEnvironment attr) (q_environment q)) newPOSIXEnvironment = Some e"
    and sp: "spawnProcess os (q_spawnedProcesses q) ident commandLine e attr = Some (log, out)"
    using assms(1) by (auto simp: executeProcess_def processEnvironment_setAll bind_eq_Some_conv)
  show ?thesis using spawnProcess_spawns(2) [OF sp assms(3) e] False assms(2) by blast
qed (use assms in \<open>auto simp: executeProcess_def\<close>)

lemma cancelAllJobs_closes: "\<not> q_cancelled q \<Longrightarrow> q_cancelled (cancelAllJobs q) \<and> isClosed (q_spawnedProcesses (cancelAllJobs q))"
  by (simp add: cancelAllJobs_def Let_def q_emit_def notify_all_def pg_close_def isClosed_def)

text \<open>
  A process started by a build that itself runs under another build inherits the outer
  \<^verbatim>\<open>LLBUILD_TASK_ID\<close>: the identifier of its own task is offered last and dropped, so the identifier
  it reports on its control pipe is not the one the queue waits for.
\<close>

lemma inherited_task_id_wins:
  "visible_environment (queue_bindings 7 0 [] True [''LLBUILD_TASK_ID=a1''] @ spawn_bindings release_os 1 plain_attributes)
   = [''LLBUILD_BUILD_ID=7'', ''LLBUILD_LANE_ID=0'', ''LLBUILD_TASK_ID=a1'', ''LLBUILD_CONTROL_FD=8'']"
  by code_simp

lemma demo_process:
  "map_option (\<lambda>r. spawns (fst r))
     (executeProcess release_os 0 1 [''/bin/true''] [(''A'', ''1''), (''LLBUILD_LANE_ID'', ''x'')] plain_attributes
        (newLaneBasedExecutionQueue 7 (1, 0) FIFO [''A=2'', ''B'']))
   = Some [[''LLBUILD_BUILD_ID=7'', ''LLBUILD_LANE_ID=0'', ''A=1'', ''B='', ''LLBUILD_TASK_ID=1'', ''LLBUILD_CONTROL_FD=8'']]"
  by code_simp

theorem executeProcess_environment_witness:
  "visible_environment
    (queue_bindings 7 0 [(''A'', ''1''), (''LLBUILD_LANE_ID'', ''x'')] True [''A=2'', ''B'']
     @ spawn_bindings release_os 1 plain_attributes)
   = [''LLBUILD_BUILD_ID=7'', ''LLBUILD_LANE_ID=0'', ''A=1'', ''B='', ''LLBUILD_TASK_ID=1'', ''LLBUILD_CONTROL_FD=8'']"
proof -
  let ?q = "newLaneBasedExecutionQueue 7 (1, 0) FIFO [''A=2'', ''B'']"
  obtain log out where "executeProcess release_os 0 1 [''/bin/true''] [(''A'', ''1''), (''LLBUILD_LANE_ID'', ''x'')]
        plain_attributes ?q = Some (log, out)"
    and "spawns log = [[''LLBUILD_BUILD_ID=7'', ''LLBUILD_LANE_ID=0'', ''A=1'', ''B='', ''LLBUILD_TASK_ID=1'', ''LLBUILD_CONTROL_FD=8'']]"
    using demo_process by auto
  then show ?thesis
    using executeProcess_environment [OF release_os_answers(1), of 0 1 "[''/bin/true'']"
        "[(''A'', ''1''), (''LLBUILD_LANE_ID'', ''x'')]" plain_attributes ?q log out]
    by (simp add: newLaneBasedExecutionQueue_def plain_attributes_def)
qed

theorem cancelled_queue_spawns_nothing_witness:
  "\<exists>log out. executeProcess release_os 0 1 [''/bin/true''] [] plain_attributes (cancelAllJobs (one_lane FIFO))
     = Some (log, out) \<and> spawns log = []"
proof -
  have "\<not> q_cancelled (one_lane FIFO)" by (simp add: one_lane_def newLaneBasedExecutionQueue_def)
  note c = cancelAllJobs_closes [OF this]
  obtain log out where e: "executeProcess release_os 0 1 [''/bin/true''] [] plain_attributes (cancelAllJobs (one_lane FIFO))
     = Some (log, out)"
    using c by (simp add: executeProcess_def)
  then show ?thesis using cancelled_queue_spawns_nothing [OF e _ release_os_answers(1)] c by blast
qed

section \<open>The serial queue\<close>

text \<open>
  The worker executes exactly the operations before the first nil function, in the order they were
  added; what is added after it is never executed.
\<close>

definition before_nil :: "'f option list \<Rightarrow> 'f list" where
  "before_nil fs = map the (takeWhile (\<lambda>f. f \<noteq> None) fs)"

definition serial_inv :: "'f option list \<Rightarrow> 'f SerialQueueImpl \<Rightarrow> bool" where
  "serial_inv fs q \<longleftrightarrow>
     (if s_stopped q then s_executed q = before_nil fs \<and> None \<in> set fs
      else fs = map Some (s_executed q) @ s_operations q)"

lemma before_nil_append:
  "before_nil (map Some xs @ fs) = xs @ before_nil fs"
  "None \<in> set fs \<Longrightarrow> before_nil (fs @ gs) = before_nil fs"
  by (auto simp: before_nil_def takeWhile_append comp_def)

lemma before_nil_map_Some [simp]: "before_nil (map Some xs) = xs" "before_nil [] = []" "before_nil (None # fs) = []"
  using before_nil_append(1) [of xs "[]"] by (simp_all add: before_nil_def)

lemma serial_run_inv: "serial_run q fs q' \<Longrightarrow> q = newSerialQueue \<Longrightarrow> serial_inv fs q'"
proof (induction rule: serial_run.induct)
  case (SerialRun q fs q' q'')
  then show ?case
    by (auto simp: serial_inv_def runOperation_def before_nil_append split: if_splits list.splits option.splits)
qed (auto simp: serial_inv_def newSerialQueue_def addOperation_def before_nil_append)

text \<open>
  The serial queue executes the operations in the order in which they were added, and exactly
  those before the first nil function when it has stopped or has nothing left to do.
\<close>

theorem serial_queue_executes_in_order:
  assumes "serial_run newSerialQueue fs q"
  shows "prefix (s_executed q) (before_nil fs)
    \<and> (s_stopped q \<longrightarrow> s_executed q = before_nil fs)
    \<and> (runOperation q = None \<longrightarrow> s_executed q = before_nil fs)"
proof -
  have inv: "serial_inv fs q" using serial_run_inv [OF assms] by simp
  show ?thesis
  proof (cases "s_stopped q")
    case False
    with inv have fs: "fs = map Some (s_executed q) @ s_operations q" by (simp add: serial_inv_def)
    have "runOperation q = None \<longrightarrow> s_operations q = []"
      using False by (auto simp: runOperation_def split: list.splits option.splits)
    then show ?thesis using False by (auto simp: fs before_nil_append)
  qed (use inv in \<open>simp add: serial_inv_def\<close>)
qed

theorem serial_queue_executes_in_order_witness:
  "\<exists>q. serial_run newSerialQueue [Some (1 :: nat), None, Some 2] q \<and> s_stopped q \<and> s_executed q = [1]"
proof -
  let ?q = "addOperation (Some 2) (addOperation None (addOperation (Some (1 :: nat)) newSerialQueue))"
  have "serial_run newSerialQueue ((([] @ [Some 1]) @ [None]) @ [Some 2]) ?q"
    by (intro serial_run.SerialAdd serial_run.SerialStart)
  then have "serial_run newSerialQueue [Some (1 :: nat), None, Some 2] ?q" by simp
  then have "serial_run newSerialQueue [Some (1 :: nat), None, Some 2]
      \<lparr>s_operations = [None, Some 2], s_executed = [1], s_stopped = False\<rparr>"
    by (rule serial_run.SerialRun) (simp add: addOperation_def newSerialQueue_def runOperation_def)
  then have r: "serial_run newSerialQueue [Some (1 :: nat), None, Some 2]
      \<lparr>s_operations = [Some 2], s_executed = [1], s_stopped = True\<rparr>"
    by (rule serial_run.SerialRun) (simp add: runOperation_def)
  from serial_queue_executes_in_order [OF r] r show ?thesis
    by (intro exI [of _ "\<lparr>s_operations = [Some 2], s_executed = [1], s_stopped = True\<rparr>"])
      (simp add: before_nil_def)
qed

end
