(* ===== verification/ForkExec.thy ===== *)
theory ForkExec
  imports Subprocess
begin

text \<open>
  Starting a process by \<^verbatim>\<open>fork\<close> and \<^verbatim>\<open>exec\<close>: \<^verbatim>\<open>_subprocess_fork_exec\<close> of
  \<^verbatim>\<open>lib/Basic/Subprocess.cpp\<close>, which \<^verbatim>\<open>spawnProcess\<close> uses on platforms whose \<^verbatim>\<open>posix_spawn\<close> cannot
  change the directory. The parent and the child are two functions over the answers of the system;
  they communicate through the error pipe. The file descriptors of the child are a table, so that
  the result can be compared with the file actions given to \<^verbatim>\<open>posix_spawn\<close> for the same request.
\<close>

section \<open>The descriptors of a child\<close>

text \<open>What a descriptor refers to: a descriptor of the parent at the time of the spawn, or \<^verbatim>\<open>/dev/null\<close>.\<close>

datatype resource = ParentFile int | DevNull

type_synonym fd_table = "int \<Rightarrow> resource option"

definition dup2_table :: "int \<Rightarrow> int \<Rightarrow> fd_table \<Rightarrow> fd_table" where
  "dup2_table a b t = (if a = b then t else t(b := t a))"

definition close_table :: "int \<Rightarrow> fd_table \<Rightarrow> fd_table" where
  "close_table a t = t(a := None)"

text \<open>The effect of the file actions that \<^verbatim>\<open>createCommunicationPipes\<close> records.\<close>

fun apply_action :: "proc_event \<Rightarrow> fd_table \<Rightarrow> fd_table" where
  "apply_action (FileAction kind a b) t =
     (if kind = ''dup2'' then dup2_table a b t
      else if kind = ''close'' then close_table a t
      else if kind = ''open /dev/null'' then t(a := Some DevNull)
      else t)"
| "apply_action _ t = t"

definition posix_spawn_table :: "proc_event list \<Rightarrow> fd_table \<Rightarrow> fd_table" where
  "posix_spawn_table ev t = fold apply_action ev t"

section \<open>The child\<close>

text \<open>The calls of the child that can fail; the system answers each with an error or none.\<close>

datatype child_call =
    SignalDefault nat | ResetMask | Chdir string | OpenNull | CloseNull | Dup2 int int | Close int | Execve string

record fork_exec_args =
  fe_exec_path :: string
  fe_working_directory :: "string option"
  fe_file_descriptors :: "int list"

datatype child_outcome = ChildExec fd_table | ChildError int

definition EINVAL :: int where "EINVAL = 22"

text \<open>The loop that resets the handlers: it stops at the first signal number that is too high.\<close>

fun reset_signals :: "(child_call \<Rightarrow> int option) \<Rightarrow> nat list \<Rightarrow> int option" where
  "reset_signals fails [] = None"
| "reset_signals fails (signo # rest) =
     (if signo = 9 \<or> signo = 19 then reset_signals fails rest
      else case fails (SignalDefault signo) of
        None \<Rightarrow> reset_signals fails rest
      | Some e \<Rightarrow> if e = EINVAL then None else Some e)"

definition checked ::
  "(child_call \<Rightarrow> int option) \<Rightarrow> bool \<Rightarrow> child_call \<Rightarrow> (fd_table \<Rightarrow> fd_table) \<Rightarrow> int + fd_table \<Rightarrow> int + fd_table" where
  "checked fails guard call effect st =
     (case st of
        Inl e \<Rightarrow> Inl e
      | Inr t \<Rightarrow> if \<not> guard then Inr t
                 else (case fails call of None \<Rightarrow> Inr (effect t) | Some e \<Rightarrow> Inl e))"

text \<open>
  The descriptors of the child: \<^verbatim>\<open>/dev/null\<close> for index 5, the three standard streams from the
  indices 0, 2 and 4, then the closes and the control descriptor. \<open>nullfd\<close> is the descriptor that
  \<^verbatim>\<open>open\<close> returns. One variable holds the result of the last \<^verbatim>\<open>dup2\<close> or \<^verbatim>\<open>close\<close>; when it is not
  zero at the end the child reports the current \<^verbatim>\<open>errno\<close>, which is \<open>stale\<close> unless a close has failed.
\<close>

definition childDescriptors ::
  "(child_call \<Rightarrow> int option) \<Rightarrow> int \<Rightarrow> int \<Rightarrow> int list \<Rightarrow> fd_table \<Rightarrow> int + fd_table" where
  "childDescriptors fails stale nullfd fds t =
     (let st = Inr t;
          st = checked fails (fds ! 5 \<ge> 0) OpenNull (\<lambda>t. t(nullfd := Some DevNull)) st;
          st = checked fails (fds ! 5 \<ge> 0 \<and> nullfd \<noteq> 0) (Dup2 nullfd 0) (dup2_table nullfd 0) st;
          st = checked fails (fds ! 5 \<ge> 0 \<and> nullfd \<noteq> 0) CloseNull (close_table nullfd) st;
          st = checked fails (fds ! 0 \<ge> 0) (Dup2 (fds ! 0) 0) (dup2_table (fds ! 0) 0) st;
          st = checked fails (fds ! 2 \<ge> 0) (Dup2 (fds ! 2) 1) (dup2_table (fds ! 2) 1) st;
          st = checked fails (fds ! 4 \<ge> 0) (Dup2 (fds ! 4) 2) (dup2_table (fds ! 4) 2) st;
          closes = filter (\<lambda>fd. fd \<ge> 0) [fds ! 1, fds ! 3, fds ! 4];
          st = (case st of Inl e \<Rightarrow> Inl e | Inr t \<Rightarrow> Inr (fold close_table closes t));
          st = checked fails (fds ! 6 \<ge> 0) (Dup2 (fds ! 6) (fds ! 6)) (dup2_table (fds ! 6) (fds ! 6)) st
      in if closes \<noteq> [] then checked fails True (Close (last closes)) id st
         else if fds ! 2 \<ge> 0 then (case st of Inl e \<Rightarrow> Inl e | Inr t \<Rightarrow> Inl stale)
         else st)"

definition childProcess ::
  "(child_call \<Rightarrow> int option) \<Rightarrow> int \<Rightarrow> int \<Rightarrow> fork_exec_args \<Rightarrow> fd_table \<Rightarrow> child_outcome" where
  "childProcess fails stale nullfd args t =
     (case reset_signals fails [1..<32] of
        Some e \<Rightarrow> ChildError e
      | None \<Rightarrow>
          let st = checked fails True ResetMask id (Inr t);
              st = (case fe_working_directory args of
                      None \<Rightarrow> st | Some d \<Rightarrow> checked fails True (Chdir d) id st)
          in case st of
               Inl e \<Rightarrow> ChildError e
             | Inr t \<Rightarrow>
                 (case childDescriptors fails stale nullfd (fe_file_descriptors args) t of
                    Inl e \<Rightarrow> ChildError e
                  | Inr t \<Rightarrow>
                      (case fails (Execve (fe_exec_path args)) of
                         Some e \<Rightarrow> ChildError e | None \<Rightarrow> ChildExec t)))"

section \<open>The parent\<close>

text \<open>
  The answers to the parent's calls: \<open>None\<close> for success, an \<^verbatim>\<open>errno\<close> otherwise; \<open>fk_fcntl\<close> has the
  four calls that set the close-on-exec flags, in order; \<open>fk_readErrors\<close> lists the errors of \<^verbatim>\<open>read\<close>
  before it delivers the answer of the child.
\<close>

record fork_os =
  fk_pipe :: "int + int \<times> int"
  fk_fcntl :: "int option list"
  fk_blockSignals :: "int option"
  fk_fork :: "int + int"
  fk_restoreSignals :: "int option"
  fk_readErrors :: "int list"
  fk_childFails :: "child_call \<Rightarrow> int option"
  fk_staleErrno :: int
  fk_nullfd :: int

text \<open>The lock, the signal mask of the thread, and the descriptors of the error pipe still open.\<close>

record fork_state =
  fs_locked :: bool
  fs_blocked :: bool
  fs_pipe :: "int list"
  fs_pid :: "int option"

definition fork_initial :: fork_state where
  "fork_initial = \<lparr>fs_locked = False, fs_blocked = False, fs_pipe = [], fs_pid = None\<rparr>"

definition first_failure :: "int option list \<Rightarrow> int option" where
  "first_failure rs = (case filter (\<lambda>r. r \<noteq> None) rs of [] \<Rightarrow> None | r # _ \<Rightarrow> r)"

text \<open>The loop that reads the error pipe: the errno to return, closing the pipe.\<close>

fun readChildError :: "int list \<Rightarrow> child_outcome \<Rightarrow> int" where
  "readChildError [] (ChildExec t) = 0"
| "readChildError [] (ChildError e) = e"
| "readChildError (e # es) out = (if e = EINTR then readChildError es out else e)"

definition subprocess_fork_exec :: "fork_os \<Rightarrow> fork_exec_args \<Rightarrow> fd_table \<Rightarrow> int \<times> fork_state" where
  "subprocess_fork_exec os args t =
     (case fk_pipe os of
        Inl e \<Rightarrow> (e, fork_initial)
      | Inr (r, w) \<Rightarrow>
          (case first_failure (fk_fcntl os) of
             Some e \<Rightarrow> (e, fork_initial)
           | None \<Rightarrow>
               let s = fork_initial\<lparr>fs_pipe := [r, w], fs_locked := True, fs_blocked := True\<rparr>
               in case fk_blockSignals os of
                    Some e \<Rightarrow> (e, s\<lparr>fs_pipe := [], fs_blocked := False\<rparr>)
                  | None \<Rightarrow>
                      (case fk_fork os of
                         Inl e \<Rightarrow> (e, s\<lparr>fs_pipe := []\<rparr>)
                       | Inr child \<Rightarrow>
                           (case fk_restoreSignals os of
                              Some e \<Rightarrow> (e, s\<lparr>fs_pipe := []\<rparr>)
                            | None \<Rightarrow>
                                (readChildError (fk_readErrors os)
                                   (childProcess (fk_childFails os) (fk_staleErrno os) (fk_nullfd os) args t),
                                 s\<lparr>fs_pipe := [], fs_blocked := False, fs_locked := False,
                                   fs_pid := Some child\<rparr>)))))"

text \<open>The descriptors that \<^verbatim>\<open>spawnProcess\<close> passes.\<close>

definition fileDescriptors :: "bool \<Rightarrow> bool \<Rightarrow> pipe_ends \<Rightarrow> int list" where
  "fileDescriptors connectToConsole controlEnabled p =
     [if connectToConsole then 0 else - 1,
      - 1,
      if connectToConsole then 1 else outputPipeChildEnd p,
      - 1,
      if connectToConsole then 2 else outputPipeChildEnd p,
      if connectToConsole then 0 else - 1,
      if controlEnabled then controlPipeChildEnd p else - 1]"

section \<open>Properties\<close>

text \<open>What the system documents: an error number is not 0.\<close>

definition errno_nonzero :: "fork_os \<Rightarrow> bool" where
  "errno_nonzero os \<longleftrightarrow> (\<forall>call. fk_childFails os call \<noteq> Some 0) \<and> fk_staleErrno os \<noteq> 0
     \<and> list_all (\<lambda>e. e \<noteq> 0) (fk_readErrors os) \<and> fk_pipe os \<noteq> Inl 0 \<and> Some 0 \<notin> set (fk_fcntl os)
     \<and> fk_blockSignals os \<noteq> Some 0 \<and> fk_fork os \<noteq> Inl 0 \<and> fk_restoreSignals os \<noteq> Some 0"

lemma readChildError_zero:
  assumes "list_all (\<lambda>e. e \<noteq> 0) es" "out \<noteq> ChildError 0"
  shows "readChildError es out = 0 \<longleftrightarrow> list_all (\<lambda>e. e = EINTR) es \<and> (\<exists>t. out = ChildExec t)"
  using assms by (induction es out rule: readChildError.induct) (auto simp: EINTR_def)

lemma reset_signals_nonzero: "(\<forall>call. fails call \<noteq> Some 0) \<Longrightarrow> reset_signals fails ss \<noteq> Some 0"
  by (induction fails ss rule: reset_signals.induct) (auto split: option.splits)

lemma checked_nonzero:
  "(\<forall>call. fails call \<noteq> Some 0) \<Longrightarrow> st \<noteq> Inl 0 \<Longrightarrow> checked fails g call eff st \<noteq> Inl 0"
  by (auto simp: checked_def split: sum.splits option.splits)

lemma sum_case_nonzero: "st \<noteq> Inl 0 \<Longrightarrow> (case st of Inl e \<Rightarrow> Inl e | Inr t \<Rightarrow> Inr (f t)) \<noteq> Inl (0 :: int)"
  by (cases st) auto

lemma childDescriptors_nonzero:
  assumes "\<forall>call. fails call \<noteq> Some 0" "stale \<noteq> 0"
  shows "childDescriptors fails stale nullfd fds t \<noteq> Inl 0"
proof -
  have final: "st \<noteq> Inl 0 \<Longrightarrow> (case st of Inl e \<Rightarrow> Inl e | Inr t \<Rightarrow> Inl stale) \<noteq> (Inl 0 :: int + fd_table)" for st :: "int + fd_table"
    using assms(2) by (cases st) auto
  show ?thesis
    unfolding childDescriptors_def Let_def
    by (simp only: if_split_asm split: if_split) (intro conjI impI checked_nonzero sum_case_nonzero final assms; simp)
qed

lemma childProcess_nonzero:
  assumes "\<forall>call. fails call \<noteq> Some 0" "stale \<noteq> 0"
  shows "childProcess fails stale nullfd args t \<noteq> ChildError 0"
proof
  assume c: "childProcess fails stale nullfd args t = ChildError 0"
  define st where "st = (case fe_working_directory args of None \<Rightarrow> checked fails True ResetMask id (Inr t)
      | Some d \<Rightarrow> checked fails True (Chdir d) id (checked fails True ResetMask id (Inr t)))"
  have "st \<noteq> Inl 0" unfolding st_def
    by (cases "fe_working_directory args") (simp_all add: checked_nonzero [OF assms(1)])
  with c show False
    using reset_signals_nonzero [OF assms(1)] childDescriptors_nonzero [OF assms] assms(1)
    by (auto simp: childProcess_def Let_def st_def [symmetric] split: option.splits sum.splits)
qed

text \<open>
  The result is 0 exactly if the child was forked, its answer could be read and it replaced
  itself by the program; when the child was forked the lock is released and the signals are
  unblocked, and no descriptor of the error pipe stays open.
\<close>

theorem fork_exec_reports_child:
  assumes "errno_nonzero os" "subprocess_fork_exec os args t = (rc, s)"
  shows "(rc = 0 \<longleftrightarrow> fs_pid s \<noteq> None \<and> list_all (\<lambda>e. e = EINTR) (fk_readErrors os)
            \<and> (\<exists>t'. childProcess (fk_childFails os) (fk_staleErrno os) (fk_nullfd os) args t = ChildExec t'))
    \<and> (fs_pid s \<noteq> None \<longrightarrow> \<not> fs_locked s \<and> \<not> fs_blocked s) \<and> fs_pipe s = []"
proof -
  let ?out = "childProcess (fk_childFails os) (fk_staleErrno os) (fk_nullfd os) args t"
  define code where "code = readChildError (fk_readErrors os) ?out"
  have read: "code = 0
      \<longleftrightarrow> list_all (\<lambda>e. e = EINTR) (fk_readErrors os) \<and> (\<exists>t'. ?out = ChildExec t')"
    unfolding code_def using assms(1) by (intro readChildError_zero childProcess_nonzero) (auto simp: errno_nonzero_def)
  have "first_failure (fk_fcntl os) \<noteq> Some 0"
  proof
    assume "first_failure (fk_fcntl os) = Some 0"
    then have "Some 0 \<in> set (filter (\<lambda>r. r \<noteq> None) (fk_fcntl os))"
      by (cases "filter (\<lambda>r. r \<noteq> None) (fk_fcntl os)") (simp_all add: first_failure_def)
    then show False using assms(1) by (simp add: errno_nonzero_def)
  qed
  then have "rc = code \<and> fs_pid s \<noteq> None \<and> \<not> fs_locked s \<and> \<not> fs_blocked s \<and> fs_pipe s = []
      \<or> rc \<noteq> 0 \<and> fs_pid s = None \<and> fs_pipe s = []"
    using assms(2) assms(1) [unfolded errno_nonzero_def]
    unfolding subprocess_fork_exec_def Let_def code_def [symmetric]
    by (auto simp: fork_initial_def split: sum.splits option.splits)
  with read show ?thesis by auto
qed

text \<open>A successful start of \<^verbatim>\<open>/bin/true\<close>.\<close>

definition good_fork :: fork_os where
  "good_fork = \<lparr>fk_pipe = Inr (3, 4), fk_fcntl = [None, None, None, None], fk_blockSignals = None,
     fk_fork = Inr 42, fk_restoreSignals = None, fk_readErrors = [EINTR], fk_childFails = (\<lambda>c. None),
     fk_staleErrno = 2, fk_nullfd = 3\<rparr>"

definition output_only :: pipe_ends where
  "output_only = \<lparr>outputPipeParentEnd = 5, outputPipeChildEnd = 6, controlPipeParentEnd = - 1, controlPipeChildEnd = - 1\<rparr>"

definition true_args :: "bool \<Rightarrow> fork_exec_args" where
  "true_args console = \<lparr>fe_exec_path = ''/bin/true'', fe_working_directory = Some ''/tmp'',
     fe_file_descriptors = fileDescriptors console False output_only\<rparr>"

abbreviation parent_table :: fd_table where
  "parent_table \<equiv> \<lambda>fd. Some (ParentFile fd)"

lemma reset_signals_ok: "reset_signals (\<lambda>c. None) ss = None"
  by (induction "\<lambda>c :: child_call. None :: int option" ss rule: reset_signals.induct) auto

theorem fork_exec_reports_child_witness:
  "fst (subprocess_fork_exec good_fork (true_args False) parent_table) = 0
   \<and> fs_pid (snd (subprocess_fork_exec good_fork (true_args False) parent_table)) = Some 42"
proof -
  have e: "errno_nonzero good_fork" by (simp add: errno_nonzero_def good_fork_def EINTR_def)
  have pid: "fs_pid (snd (subprocess_fork_exec good_fork (true_args False) parent_table)) = Some 42"
    by (simp add: subprocess_fork_exec_def good_fork_def first_failure_def Let_def)
  have child: "\<exists>t'. childProcess (fk_childFails good_fork) (fk_staleErrno good_fork) (fk_nullfd good_fork)
      (true_args False) parent_table = ChildExec t'"
    by (simp add: childProcess_def good_fork_def reset_signals_ok childDescriptors_def checked_def true_args_def
        fileDescriptors_def output_only_def Let_def)
  show ?thesis
    using fork_exec_reports_child [OF e prod.collapse [symmetric], of "true_args False" parent_table] pid child
    by (simp add: good_fork_def)
qed

text \<open>
  When \<^verbatim>\<open>fork\<close> fails, the function returns with the lock held and the signals blocked; every later
  call waits for that lock forever.
\<close>

lemma fork_failure_keeps_lock:
  "fs_locked (snd (subprocess_fork_exec (good_fork\<lparr>fk_fork := Inl 11\<rparr>) args t))
   \<and> fs_blocked (snd (subprocess_fork_exec (good_fork\<lparr>fk_fork := Inl 11\<rparr>) args t))"
  by (simp add: subprocess_fork_exec_def good_fork_def first_failure_def Let_def fork_initial_def)

text \<open>
  The two ways to start a process disagree on the standard streams. A process connected to the
  console gets \<^verbatim>\<open>/dev/null\<close> as its input and a closed standard error by \<^verbatim>\<open>fork\<close> and \<^verbatim>\<open>exec\<close>; one
  whose output is captured reads the parent's input instead of \<^verbatim>\<open>/dev/null\<close>.
\<close>

lemma fork_console_streams:
  "\<exists>t'. childProcess (\<lambda>c. None) stale 3 (true_args True) parent_table = ChildExec t'
     \<and> t' 0 = Some DevNull \<and> t' 1 = Some (ParentFile 1) \<and> t' 2 = None"
  by (simp add: childProcess_def reset_signals_ok childDescriptors_def checked_def true_args_def
      fileDescriptors_def output_only_def Let_def dup2_table_def close_table_def)

lemma fork_captured_streams:
  "\<exists>t'. childProcess (\<lambda>c. None) stale 3 (true_args False) parent_table = ChildExec t'
     \<and> t' 0 = Some (ParentFile 0) \<and> t' 1 = Some (ParentFile 6) \<and> t' 2 = Some (ParentFile 6)"
  by (simp add: childProcess_def reset_signals_ok childDescriptors_def checked_def true_args_def
      fileDescriptors_def output_only_def Let_def dup2_table_def close_table_def)

text \<open>With \<^verbatim>\<open>posix_spawn\<close> the streams are the intended ones, for every answer of the system.\<close>

lemma posix_spawn_streams:
  assumes "createOutputPipe os console noPipes = (Inr p, ev)"
    "os_outputPipe os = Inr (r, w)" "2 < w"
  shows "posix_spawn_table ev parent_table 0 = (if console then Some (ParentFile 0) else Some DevNull)
    \<and> posix_spawn_table ev parent_table 1 = Some (ParentFile (if console then 1 else w))
    \<and> posix_spawn_table ev parent_table 2 = Some (ParentFile (if console then 2 else w))"
  using assms
  by (auto simp: createOutputPipe_def posix_spawn_table_def dup2_table_def close_table_def resetDescriptor_def
      closeDescriptor_def noPipes_def isValid_def InvalidDescriptor_def childMayInherit_def
      split: if_splits)

end
