(* ===== verification/ShellCommand.thy ===== *)
theory ShellCommand
  imports ExternalCommandProps ExecutionQueueProps MakefileDeps DependencyInfo ShellUtility
begin

text \<open>
  Shell commands: \<^verbatim>\<open>lib/BuildSystem/ShellCommand.cpp\<close> and the inline members of
  \<^verbatim>\<open>ShellCommand.h\<close>. A shell command extends an external command by its arguments, environment
  and dependency files; running it goes through the execution queue, and the dependency files it
  leaves are read by the two parsers.

  The functions on paths of the vendored library (\<^verbatim>\<open>path::append\<close>, \<^verbatim>\<open>fs::make_absolute\<close>), the hash
  functions and the contents of files are parameters. Interning a string gives an equal string.
\<close>

section \<open>The command\<close>

datatype DepsStyle = Unused | Makefile | DependencyInfo | MakefileIgnoringSubsequentOutputs

record ShellCommand =
  sc_base :: ExternalCommand
  sc_args :: "string list"
  sc_signatureData :: string
  sc_signatureIgnoredArgs :: "nat list"
  sc_additionalSignatureData :: string
  sc_envOverrides :: "(string \<times> string) list"
  sc_envBase :: "(string \<times> string) list option"
  sc_depsPaths :: "string list"
  sc_depsStyle :: DepsStyle
  sc_inheritEnv :: bool
  sc_canSafelyInterrupt :: bool
  sc_workingDirectory :: string
  sc_controlEnabled :: bool
  sc_cachedSignature :: CommandSignature

definition newShellCommand :: "string \<Rightarrow> bool \<Rightarrow> ShellCommand" where
  "newShellCommand name controlEnabled =
     \<lparr>sc_base = newExternalCommand name, sc_args = [], sc_signatureData = [], sc_signatureIgnoredArgs = [],
      sc_additionalSignatureData = [], sc_envOverrides = [], sc_envBase = None, sc_depsPaths = [],
      sc_depsStyle = Unused, sc_inheritEnv = True, sc_canSafelyInterrupt = True, sc_workingDirectory = [],
      sc_controlEnabled = controlEnabled, sc_cachedSignature = 0\<rparr>"

definition getShortDescription_shell :: "ShellCommand \<Rightarrow> string" where
  "getShortDescription_shell cmd = ec_description (sc_base cmd)"

definition getVerboseDescription_shell :: "ShellCommand \<Rightarrow> string" where
  "getVerboseDescription_shell cmd =
     fold (\<lambda>(i, arg) os. appendShellEscapedString (if i = 0 then os else os @ '' '') arg)
       (enumerate 0 (sc_args cmd)) []"

section \<open>Environment\<close>

definition getEffectiveEnv :: "ShellCommand \<Rightarrow> (string \<times> string) list" where
  "getEffectiveEnv cmd =
     (case sc_envBase cmd of
        None \<Rightarrow> sc_envOverrides cmd
      | Some bindings \<Rightarrow>
          map (\<lambda>(k, v). (k, case map_of (sc_envOverrides cmd) k of None \<Rightarrow> v | Some w \<Rightarrow> w)) bindings
          @ filter (\<lambda>(k, v). map_of bindings k = None) (sc_envOverrides cmd))"

section \<open>Signature\<close>

text \<open>The walk over the arguments and the sorted ignored indices; \<open>i\<close> is the index of the first argument.\<close>

fun hash_args :: "hashing \<Rightarrow> nat list \<Rightarrow> nat \<Rightarrow> string list \<Rightarrow> CommandSignature \<Rightarrow> CommandSignature" where
  "hash_args H ignored i [] code = code"
| "hash_args H [] i (arg # args) code = hash_args H [] (i + 1) args (combine_string H code arg)"
| "hash_args H (n # ignored) i (arg # args) code =
     (if n = i then hash_args H ignored (i + 1) args code
      else hash_args H (n # ignored) (i + 1) args (combine_string H code arg))"

text \<open>
  \<^verbatim>\<open>combine(int(depsStyle))\<close> has no overload for \<^verbatim>\<open>int\<close>: the conversion to \<^verbatim>\<open>bool\<close> is chosen, so
  only whether the style is used at all enters the hash.
\<close>

definition computeSignature :: "hashing \<Rightarrow> ShellCommand \<Rightarrow> CommandSignature" where
  "computeSignature H cmd =
     (let code = getSignature_external H (sc_base cmd)
      in if sc_signatureData cmd \<noteq> [] then combine_string H code (sc_signatureData cmd)
         else
           let code = hash_args H (sc_signatureIgnoredArgs cmd) 0 (sc_args cmd) code;
               code = foldl (\<lambda>code (k, v). combine_string H (combine_string H code k) v) code (getEffectiveEnv cmd);
               code = combine_strings H (sc_depsPaths cmd) code;
               code = combine_bool H code (sc_depsStyle cmd \<noteq> Unused);
               code = combine_bool H code (sc_inheritEnv cmd);
               code = combine_bool H code (sc_canSafelyInterrupt cmd)
           in if sc_additionalSignatureData cmd \<noteq> []
              then combine_string H code (sc_additionalSignatureData cmd) else code)"

definition getSignature_shell :: "hashing \<Rightarrow> ShellCommand \<Rightarrow> CommandSignature \<times> ShellCommand" where
  "getSignature_shell H cmd =
     (if sc_cachedSignature cmd \<noteq> 0 then (sc_cachedSignature cmd, cmd)
      else let code = computeSignature H cmd;
               signature = (if code = 0 then 1 else code)
           in (signature, cmd\<lparr>sc_cachedSignature := signature\<rparr>))"

section \<open>Configuration\<close>

text \<open>
  As for external commands; a failed attribute makes the load of the build file fail, and the
  command is not used any more. \<open>absolute\<close> is \<^verbatim>\<open>fs::make_absolute\<close>.
\<close>

definition lift_base :: "ExternalCommand configured \<Rightarrow> ShellCommand \<Rightarrow> ShellCommand configured" where
  "lift_base r cmd = map_option (map_sum id (\<lambda>b. cmd\<lparr>sc_base := b\<rparr>)) r"

definition configure_shell ::
  "(string \<Rightarrow> string) \<Rightarrow> string \<Rightarrow> string \<Rightarrow> ShellCommand \<Rightarrow> ShellCommand configured" where
  "configure_shell absolute name val cmd =
     (if name = ''args'' then configured (cmd\<lparr>sc_args := [DefaultShellPath, ''-c'', val]\<rparr>)
      else if name = ''signature'' then configured (cmd\<lparr>sc_signatureData := val\<rparr>)
      else if name = ''additional-signature-data'' then configured (cmd\<lparr>sc_additionalSignatureData := val\<rparr>)
      else if name = ''deps'' then configured (cmd\<lparr>sc_depsPaths := [val]\<rparr>)
      else if name = ''deps-style'' then
        (if val = ''makefile'' then configured (cmd\<lparr>sc_depsStyle := Makefile\<rparr>)
         else if val = ''dependency-info'' then configured (cmd\<lparr>sc_depsStyle := DependencyInfo\<rparr>)
         else if val = ''makefile-ignoring-subsequent-outputs''
         then configured (cmd\<lparr>sc_depsStyle := MakefileIgnoringSubsequentOutputs\<rparr>)
         else Some (Inl (''unknown '' @ quoted ''deps-style'' @ '': '' @ quoted val)))
      else if name = ''can-safely-interrupt'' then
        configure_bool name val (cmd\<lparr>sc_canSafelyInterrupt := True\<rparr>) (cmd\<lparr>sc_canSafelyInterrupt := False\<rparr>)
      else if name = ''inherit-env'' then
        configure_bool name val (cmd\<lparr>sc_inheritEnv := True\<rparr>) (cmd\<lparr>sc_inheritEnv := False\<rparr>)
      else if name = ''working-directory'' then configured (cmd\<lparr>sc_workingDirectory := absolute val\<rparr>)
      else if name = ''control-enabled'' then
        configure_bool name val (cmd\<lparr>sc_controlEnabled := True\<rparr>) (cmd\<lparr>sc_controlEnabled := False\<rparr>)
      else lift_base (configureExternal name val (sc_base cmd)) cmd)"

text \<open>The loop over the ignored indices, with the indices accepted so far.\<close>

fun parseIgnoredArgs :: "string \<Rightarrow> string list \<Rightarrow> nat list \<Rightarrow> string + nat list" where
  "parseIgnoredArgs name [] acc = Inr acc"
| "parseIgnoredArgs name (val # vals) acc =
     (case getAsInteger val of
        None \<Rightarrow> Inl (''invalid value: '' @ quoted val @ '' for attribute '' @ quoted name)
      | Some index \<Rightarrow>
          if acc \<noteq> [] \<and> index \<le> last acc
          then Inl (''out of order value: '' @ quoted val @ '' for attribute '' @ quoted name)
          else parseIgnoredArgs name vals (acc @ [index]))"

definition configure_shell_values :: "string \<Rightarrow> string list \<Rightarrow> ShellCommand \<Rightarrow> ShellCommand configured" where
  "configure_shell_values name vals cmd =
     (if name = ''args'' then
        (if vals = [] then Some (Inl (''invalid arguments for command '' @ quoted (ec_name (sc_base cmd))))
         else configured (cmd\<lparr>sc_args := vals\<rparr>))
      else if name = ''deps'' then configured (cmd\<lparr>sc_depsPaths := vals\<rparr>)
      else if name = ''signature-ignored-args'' then
        Some (map_sum id (\<lambda>ns. cmd\<lparr>sc_signatureIgnoredArgs := ns\<rparr>) (parseIgnoredArgs name vals []))
      else lift_base (configureExternal_values name vals (sc_base cmd)) cmd)"

definition configure_shell_pairs ::
  "string \<Rightarrow> (string \<times> string) list \<Rightarrow> ShellCommand \<Rightarrow> ShellCommand configured" where
  "configure_shell_pairs name vals cmd =
     (if name = ''env'' then configured (cmd\<lparr>sc_envOverrides := vals\<rparr>)
      else lift_base (configureExternal_pairs name vals (sc_base cmd)) cmd)"

definition configureEnvironmentBase :: "(string \<times> string) list \<Rightarrow> ShellCommand \<Rightarrow> ShellCommand" where
  "configureEnvironmentBase bindings cmd = cmd\<lparr>sc_envBase := Some bindings\<rparr>"

section \<open>Discovered dependencies\<close>

datatype DiscoveredDependencyKind = DepInput | DepMissing | DepOutput

text \<open>What the processing reports: errors, dependencies shown to the delegate, keys given to the engine.\<close>

datatype deps_event =
    DepsError string
  | FoundDiscoveredDependency string DiscoveredDependencyKind
  | DiscoveredDependency "byte list"

record path_functions =
  pf_append :: "string \<Rightarrow> string \<Rightarrow> string"
  pf_make_absolute :: "string \<Rightarrow> string"

definition resolvePath :: "path_functions \<Rightarrow> string \<Rightarrow> string \<Rightarrow> string" where
  "resolvePath pf workingDirectory path =
     (if is_absolute path then path
      else pf_make_absolute pf (pf_append pf workingDirectory path))"

definition discovered :: "string \<Rightarrow> deps_event list" where
  "discovered path = [DiscoveredDependency (makeNode (bytes path)), FoundDiscoveredDependency path DepInput]"

fun makefileAction :: "path_functions \<Rightarrow> ShellCommand \<Rightarrow> string \<Rightarrow> mk_event \<Rightarrow> deps_event list" where
  "makefileAction pf cmd depsPath (MkError message position) =
     [DepsError (''error reading dependency file '' @ quoted depsPath @ '': '' @ message @ '' at position ''
                 @ decstr (int position))]"
| "makefileAction pf cmd depsPath (RuleDependency dependency unescapedWord) =
     discovered (resolvePath pf (sc_workingDirectory cmd) unescapedWord)"
| "makefileAction pf cmd depsPath (RuleStart name unescapedWord) = []"
| "makefileAction pf cmd depsPath RuleEnd = []"

fun is_mk_error :: "mk_event \<Rightarrow> bool" where
  "is_mk_error (MkError _ _) = True"
| "is_mk_error _ = False"

definition processMakefileDiscoveredDependencies ::
  "path_functions \<Rightarrow> ShellCommand \<Rightarrow> string \<Rightarrow> string \<Rightarrow> bool \<Rightarrow> (bool \<times> deps_event list) option" where
  "processMakefileDiscoveredDependencies pf cmd depsPath input ignoreSubsequentOutputs =
     map_option (\<lambda>evs. (\<not> list_ex is_mk_error evs, concat (map (makefileAction pf cmd depsPath) evs)))
       (parseMakefileDeps ignoreSubsequentOutputs input)"

fun dependencyInfoAction :: "string \<Rightarrow> di_event \<Rightarrow> deps_event list" where
  "dependencyInfoAction depsPath (DiError message position) =
     [DepsError (''error reading dependency file '' @ quoted depsPath @ '': '' @ message)]"
| "dependencyInfoAction depsPath (DiVersion v) = []"
| "dependencyInfoAction depsPath (DiMissing path) = [FoundDiscoveredDependency (chars path) DepMissing]"
| "dependencyInfoAction depsPath (DiOutput path) = [FoundDiscoveredDependency (chars path) DepOutput]"
| "dependencyInfoAction depsPath (DiInput path) =
     [DiscoveredDependency (makeNode path), FoundDiscoveredDependency (chars path) DepInput]"

fun is_di_error :: "di_event \<Rightarrow> bool" where
  "is_di_error (DiError _ _) = True"
| "is_di_error _ = False"

definition processDependencyInfoDiscoveredDependencies ::
  "string \<Rightarrow> byte list \<Rightarrow> (bool \<times> deps_event list) option" where
  "processDependencyInfoDiscoveredDependencies depsPath input =
     map_option (\<lambda>evs. (\<not> list_ex is_di_error evs, concat (map (dependencyInfoAction depsPath) evs)))
       (parseDependencyInfo input)"

text \<open>The file is looked up under its absolute path; \<open>contents\<close> is \<^verbatim>\<open>FileSystem::getFileContents\<close>.\<close>

definition processDepsFile ::
  "path_functions \<Rightarrow> (string \<Rightarrow> byte list option) \<Rightarrow> ShellCommand \<Rightarrow> string \<Rightarrow> (bool \<times> deps_event list) option" where
  "processDepsFile pf contents cmd depsPath =
     (case contents (resolvePath pf (sc_workingDirectory cmd) depsPath) of
        None \<Rightarrow> Some (False, [DepsError (''unable to open dependencies file ('' @ depsPath @ '')'')])
      | Some input \<Rightarrow>
          (case sc_depsStyle cmd of
             Unused \<Rightarrow> None
           | Makefile \<Rightarrow> processMakefileDiscoveredDependencies pf cmd depsPath (chars input) False
           | DependencyInfo \<Rightarrow> processDependencyInfoDiscoveredDependencies depsPath input
           | MakefileIgnoringSubsequentOutputs \<Rightarrow>
               processMakefileDiscoveredDependencies pf cmd depsPath (chars input) True))"

primrec processDepsFiles ::
  "path_functions \<Rightarrow> (string \<Rightarrow> byte list option) \<Rightarrow> ShellCommand \<Rightarrow> string list \<Rightarrow> (bool \<times> deps_event list) option" where
  "processDepsFiles pf contents cmd [] = Some (True, [])"
| "processDepsFiles pf contents cmd (depsPath # rest) = do {
     (ok, evs) \<leftarrow> processDepsFile pf contents cmd depsPath;
     if \<not> ok then Some (False, evs)
     else do {
       (ok', evs') \<leftarrow> processDepsFiles pf contents cmd rest;
       Some (ok', evs @ evs') } }"

definition processDiscoveredDependencies ::
  "path_functions \<Rightarrow> (string \<Rightarrow> byte list option) \<Rightarrow> ShellCommand \<Rightarrow> (bool \<times> deps_event list) option" where
  "processDiscoveredDependencies pf contents cmd =
     (if sc_depsStyle cmd = Unused
      then Some (False, [DepsError (''missing required '' @ quoted ''deps-style'' @ '' specifier'')])
      else processDepsFiles pf contents cmd (sc_depsPaths cmd))"

section \<open>Execution\<close>

text \<open>
  The function run when the process has completed: the result handed on, and what the dependency
  files gave. In the code the files are read by a job of high priority.
\<close>

definition commandCompletion ::
  "path_functions \<Rightarrow> (string \<Rightarrow> byte list option) \<Rightarrow> ShellCommand \<Rightarrow> ProcessResult
   \<Rightarrow> (ProcessResult \<times> deps_event list) option" where
  "commandCompletion pf contents cmd result =
     (if r_status result \<noteq> Succeeded then Some (result, [])
      else if sc_depsPaths cmd \<noteq> [] then do {
        (ok, evs) \<leftarrow> processDiscoveredDependencies pf contents cmd;
        Some (if ok then result else mkProcessResult Failed (- 1), evs) }
      else Some (result, []))"

definition processAttributes :: "ShellCommand \<Rightarrow> ProcessAttributes" where
  "processAttributes cmd =
     \<lparr>a_canSafelyInterrupt = sc_canSafelyInterrupt cmd, a_connectToConsole = False,
      a_workingDir = sc_workingDirectory cmd, a_inheritEnvironment = sc_inheritEnv cmd,
      a_controlEnabled = sc_controlEnabled cmd\<rparr>"

text \<open>
  \<^verbatim>\<open>executeExternalCommand\<close>: the process on lane \<open>laneNumber\<close> under the identifier of its job, to
  its completion (by the lane or by the thread that took over the wait), then the completion
  function. \<open>contents\<close> are the files after the process has run.
\<close>

definition executeExternalCommand ::
  "path_functions \<Rightarrow> spawn_os \<Rightarrow> (string \<Rightarrow> byte list option) \<Rightarrow> nat \<Rightarrow> u64 \<Rightarrow> LaneBasedExecutionQueue \<Rightarrow> ShellCommand
   \<Rightarrow> (proc_event list \<times> ProcessResult \<times> deps_event list) option" where
  "executeExternalCommand pf os contents laneNumber ident q cmd = do {
     (log, out) \<leftarrow> executeProcess os laneNumber ident (sc_args cmd) (getEffectiveEnv cmd) (processAttributes cmd) q;
     log' \<leftarrow> (case out of
                SpawnReleased pid outputFd controlFd \<Rightarrow> processWait os pid outputFd controlFd
              | _ \<Rightarrow> Some []);
     result \<leftarrow> completionResult (log @ log');
     (final, deps) \<leftarrow> commandCompletion pf contents cmd result;
     Some (log @ log', final, deps) }"

end
