(* ===== verification/ShellCommandProps.thy ===== *)
theory ShellCommandProps
  imports ShellCommand
begin

text \<open>
  What a shell command guarantees: arguments marked as ignored do not influence its signature, the
  effective environment is the base with the overrides laid over it, a command whose dependency
  files are the printed form of rules discovers exactly their prerequisites, and it succeeds
  exactly if its process does and every dependency file can be read without an error.
\<close>

section \<open>Ignored arguments\<close>

lemma parseIgnoredArgs_sorted:
  "parseIgnoredArgs name vals acc = Inr ns \<Longrightarrow> sorted_wrt (<) acc \<Longrightarrow> sorted_wrt (<) ns"
proof (induction name vals acc rule: parseIgnoredArgs.induct)
  case (2 name val vals acc)
  from "2.prems" obtain n where n: "getAsInteger val = Some n" "acc \<noteq> [] \<longrightarrow> last acc < n"
    "parseIgnoredArgs name vals (acc @ [n]) = Inr ns"
    by (auto split: option.splits if_splits)
  have "\<forall>x \<in> set acc. x < n"
  proof
    fix x assume x: "x \<in> set acc"
    then have "x \<le> last acc"
      using "2.prems"(2) by (induction acc) (auto intro: less_imp_le)
    with x n(2) show "x < n" by fastforce
  qed
  then have "sorted_wrt (<) (acc @ [n])" using "2.prems"(2) by (simp add: sorted_wrt_append)
  with n "2.IH" show ?case by (auto split: if_splits)
qed simp

text \<open>The reference: hash the arguments whose index is not in the set.\<close>

definition kept_args :: "nat set \<Rightarrow> nat \<Rightarrow> string list \<Rightarrow> string list" where
  "kept_args ignored i args = map snd (filter (\<lambda>(j, arg). j \<notin> ignored) (enumerate i args))"

lemma kept_args_simps [simp]:
  "kept_args ignored i [] = []"
  "kept_args ignored i (arg # args) = (if i \<in> ignored then [] else [arg]) @ kept_args ignored (Suc i) args"
  by (simp_all add: kept_args_def)

lemma kept_args_irrelevant: "n < i \<Longrightarrow> kept_args (insert n ignored) i args = kept_args ignored i args"
  by (induction args arbitrary: i) auto

lemma hash_args_kept:
  assumes "sorted_wrt (<) ignored" "\<forall>n \<in> set ignored. i \<le> n"
  shows "hash_args H ignored i args code = combine_strings H (kept_args (set ignored) i args) code"
  using assms
proof (induction H ignored i args code rule: hash_args.induct)
  case (3 H n ignored i arg args code)
  show ?case
  proof (cases "n = i")
    case True
    then have "\<forall>m \<in> set ignored. Suc i \<le> m" using 3(3) by (auto simp: Suc_le_eq)
    with True 3 show ?thesis by (simp add: kept_args_irrelevant)
  next
    case False
    then have "i < n" "i \<notin> set ignored" using 3(3,4) by auto
    then have "\<forall>m \<in> set (n # ignored). Suc i \<le> m" using 3(3) by (auto simp: Suc_le_eq)
    with False 3 \<open>i \<notin> set ignored\<close> show ?thesis by (simp add: combine_strings_def)
  qed
qed (simp_all add: combine_strings_def)

lemma kept_args_agree:
  assumes "length args' = length args" "\<And>j. j < length args \<Longrightarrow> i + j \<notin> ignored \<Longrightarrow> args' ! j = args ! j"
  shows "kept_args ignored i args' = kept_args ignored i args"
  using assms
proof (induction args arbitrary: args' i)
  case (Cons a args)
  then obtain a' as where as: "args' = a' # as" by (cases args') auto
  have "as ! j = args ! j" if "j < length args" "Suc i + j \<notin> ignored" for j
    using Cons.prems(2) [of "Suc j"] that as by simp
  then have "kept_args ignored (Suc i) as = kept_args ignored (Suc i) args"
    using Cons.IH [of as "Suc i"] Cons.prems(1) as by simp
  moreover have "i \<notin> ignored \<Longrightarrow> a' = a" using Cons.prems(2) [of 0] as by simp
  ultimately show ?case using as by simp
qed simp

text \<open>
  C30. Changing arguments that the client has marked as ignored does not change the signature of the
  command, for every list of indices that the configuration accepts.
\<close>

theorem signature_ignores_marked_args:
  assumes "configure_shell_values ''signature-ignored-args'' vals cmd = Some (Inr cmd')"
    and "length args = length (sc_args cmd')"
    and "\<forall>i < length args. i \<notin> set (sc_signatureIgnoredArgs cmd') \<longrightarrow> args ! i = sc_args cmd' ! i"
  shows "computeSignature H (cmd'\<lparr>sc_args := args\<rparr>) = computeSignature H cmd'"
proof -
  obtain ns where ns: "parseIgnoredArgs ''signature-ignored-args'' vals [] = Inr ns"
    "cmd' = cmd\<lparr>sc_signatureIgnoredArgs := ns\<rparr>"
    using assms(1) by (cases "parseIgnoredArgs ''signature-ignored-args'' vals []")
      (auto simp: configure_shell_values_def)
  have sorted: "sorted_wrt (<) (sc_signatureIgnoredArgs cmd')"
    using parseIgnoredArgs_sorted [OF ns(1)] ns(2) by simp
  have "kept_args (set (sc_signatureIgnoredArgs cmd')) 0 args
      = kept_args (set (sc_signatureIgnoredArgs cmd')) 0 (sc_args cmd')"
    using assms(2,3) by (intro kept_args_agree) auto
  then show ?thesis
    by (simp add: computeSignature_def hash_args_kept [OF sorted] getEffectiveEnv_def cong: if_cong option.case_cong)
qed

text \<open>
  The style of the dependencies enters the hash only as used or unused: switching between the
  Makefile and the dependency-info format does not make the command run again.
\<close>

lemma signature_ignores_deps_style:
  assumes "style \<noteq> Unused" "sc_depsStyle cmd \<noteq> Unused"
  shows "computeSignature H (cmd\<lparr>sc_depsStyle := style\<rparr>) = computeSignature H cmd"
  using assms by (simp add: computeSignature_def getEffectiveEnv_def cong: if_cong option.case_cong)

lemma getSignature_shell_stable:
  "getSignature_shell H (snd (getSignature_shell H cmd)) = getSignature_shell H cmd
   \<and> fst (getSignature_shell H cmd) \<noteq> 0"
  by (simp add: getSignature_shell_def Let_def)

section \<open>The effective environment\<close>

lemma map_of_base_overridden:
  "map_of (map (\<lambda>(k, v). (k, case map_of ov k of None \<Rightarrow> v | Some w \<Rightarrow> w)) base) k
   = (case map_of base k of None \<Rightarrow> None
      | Some v \<Rightarrow> Some (case map_of ov k of None \<Rightarrow> v | Some w \<Rightarrow> w))"
  by (induction base) (auto split: option.splits)

lemma map_of_filter_key: "map_of (filter (\<lambda>(k, v). P k) xs) k = (if P k then map_of xs k else None)"
  by (induction xs) auto

text \<open>
  The effective environment maps a key to the override of the command if it has one, else to
  the binding of the shared base.
\<close>

theorem effective_environment_layers:
  "map_of (getEffectiveEnv cmd) k =
     (case map_of (sc_envOverrides cmd) k of
        Some v \<Rightarrow> Some v
      | None \<Rightarrow> (case sc_envBase cmd of None \<Rightarrow> None | Some bindings \<Rightarrow> map_of bindings k))"
proof (cases "sc_envBase cmd")
  case None
  then show ?thesis by (simp add: getEffectiveEnv_def split: option.splits)
next
  case (Some base)
  have "map_of (xs @ ys) k = (case map_of xs k of None \<Rightarrow> map_of ys k | Some v \<Rightarrow> Some v)" for xs ys :: "(string \<times> string) list"
    by (simp add: map_add_def split: option.splits)
  then show ?thesis
    using Some
    by (simp add: getEffectiveEnv_def map_of_base_overridden
        map_of_filter_key [where P = "\<lambda>k. map_of base k = None"] split: option.splits)
qed

section \<open>Discovered dependencies\<close>

definition printable :: "(string \<times> string list) list \<Rightarrow> bool" where
  "printable rules \<longleftrightarrow> list_all (\<lambda>r. mk_target_ok (fst r) \<and> list_all mk_dep_ok (snd r)) rules"

definition prerequisites :: "(string \<times> string list) list \<Rightarrow> string list" where
  "prerequisites rules = concat (map snd rules)"

text \<open>
  The specification: a path that starts at the root, other than a bare network name \<^verbatim>\<open>//host\<close>
  (which has a root name and no root directory), stands for itself, any other path for the
  absolute path of its place below the working directory. One dependency is two reports: the key
  of its node to the engine and its path to the delegate.
\<close>

definition network_name :: "string \<Rightarrow> bool" where
  "network_name path \<longleftrightarrow> take 2 path = ''//'' \<and> 2 < length path \<and> CHR ''/'' \<notin> set (drop 2 path)"

definition absolute_path :: "string \<Rightarrow> bool" where
  "absolute_path path \<longleftrightarrow> path \<noteq> [] \<and> hd path = CHR ''/'' \<and> \<not> network_name path"

definition absolute_in :: "path_functions \<Rightarrow> string \<Rightarrow> string \<Rightarrow> string" where
  "absolute_in pf directory path =
     (if absolute_path path then path else pf_make_absolute pf (pf_append pf directory path))"

definition dependency_reports :: "string list \<Rightarrow> deps_event list" where
  "dependency_reports paths =
     concat (map (\<lambda>p. [DiscoveredDependency (makeNode (bytes p)), FoundDiscoveredDependency p DepInput]) paths)"

lemma resolvePath_absolute_in: "resolvePath pf directory path = absolute_in pf directory path"
  by (auto simp: resolvePath_def absolute_in_def absolute_path_def network_name_def is_absolute_def
      slash_def split: list.splits)

lemma absolute_in_absolute:
  "(\<And>p. absolute_path (pf_make_absolute pf p)) \<Longrightarrow> absolute_path (absolute_in pf directory path)"
  by (simp add: absolute_in_def)

definition discoveries :: "path_functions \<Rightarrow> ShellCommand \<Rightarrow> string list \<Rightarrow> deps_event list" where
  "discoveries pf cmd paths = dependency_reports (map (absolute_in pf (sc_workingDirectory cmd)) paths)"

lemma discoveries_simps [simp]:
  "discoveries pf cmd [] = []"
  "discoveries pf cmd (d # ds) =
     discovered (resolvePath pf (sc_workingDirectory cmd) d) @ discoveries pf cmd ds"
  by (simp_all add: discoveries_def dependency_reports_def discovered_def resolvePath_absolute_in)

lemma discoveries_append [simp]: "discoveries pf cmd (ds @ es) = discoveries pf cmd ds @ discoveries pf cmd es"
  by (induction ds) simp_all

lemma rule_actions:
  "concat (map (makefileAction pf cmd depsPath) (mk_events r)) = discoveries pf cmd (snd r)"
proof -
  have "concat (map (makefileAction pf cmd depsPath) (map (\<lambda>d. RuleDependency (w d) d) ds))
      = discoveries pf cmd ds" for w ds
    by (induction ds) simp_all
  then show ?thesis by (cases r) (simp add: mk_events_def)
qed

lemma makefile_actions:
  "concat (map (makefileAction pf cmd depsPath) (concat (map mk_events rules)))
   = discoveries pf cmd (prerequisites rules)"
  by (induction rules) (simp_all add: rule_actions prerequisites_def)

lemma mk_events_no_error: "\<not> list_ex is_mk_error (concat (map mk_events rules))"
  by (induction rules) (auto simp: mk_events_def list_ex_iff)

lemma processMakefile_printed:
  assumes "printable rules"
  shows "processMakefileDiscoveredDependencies pf cmd depsPath (concat (map mk_print rules)) b
    = Some (True, discoveries pf cmd (prerequisites (if b then take 1 rules else rules)))"
proof -
  have "\<forall>r \<in> set rules. mk_target_ok (fst r) \<and> (\<forall>d \<in> set (snd r). mk_dep_ok d)"
    using assms by (auto simp: printable_def list_all_iff)
  note p = parseMakefileDeps_printed [OF this, of b]
  show ?thesis
    using mk_events_no_error [of "if b then take 1 rules else rules"]
      makefile_actions [of pf cmd depsPath "if b then take 1 rules else rules"]
    by (simp only: processMakefileDiscoveredDependencies_def p option.map) simp
qed

text \<open>
  The files of a command, each the printed form of some rules, at their absolute paths, and the
  prerequisites it has to report: those of every rule, or of the first rule of each file where
  the style ignores subsequent outputs.
\<close>

definition deps_files_hold ::
  "path_functions \<Rightarrow> (string \<Rightarrow> byte list option) \<Rightarrow> ShellCommand \<Rightarrow> (string \<times> (string \<times> string list) list) list \<Rightarrow> bool" where
  "deps_files_hold pf contents cmd files \<longleftrightarrow> map fst files = sc_depsPaths cmd
     \<and> list_all (\<lambda>(path, rules). printable rules
         \<and> contents (absolute_in pf (sc_workingDirectory cmd) path) = Some (bytes (concat (map mk_print rules)))) files"

definition files_prerequisites :: "ShellCommand \<Rightarrow> (string \<times> (string \<times> string list) list) list \<Rightarrow> string list" where
  "files_prerequisites cmd files =
     concat (map (\<lambda>(path, rules). prerequisites
       (if sc_depsStyle cmd = MakefileIgnoringSubsequentOutputs then take 1 rules else rules)) files)"

lemma processDepsFiles_printed:
  assumes "sc_depsStyle cmd \<in> {Makefile, MakefileIgnoringSubsequentOutputs}"
    "list_all (\<lambda>(path, rules). printable rules
         \<and> contents (absolute_in pf (sc_workingDirectory cmd) path) = Some (bytes (concat (map mk_print rules)))) files"
  shows "processDepsFiles pf contents cmd (map fst files)
    = Some (True, discoveries pf cmd (files_prerequisites cmd files))"
  using assms(2)
proof (induction files)
  case (Cons f files)
  then show ?case
    using assms(1) by (cases f) (auto simp: processDepsFile_def resolvePath_absolute_in processMakefile_printed
        files_prerequisites_def)
qed (simp add: files_prerequisites_def)

text \<open>
  C31. A command whose dependency files are the printed form of rules, each stored under its absolute
  path, succeeds with its process. It reports exactly the prerequisites of the rules, in order, each
  as the key of its node to the engine and as an input to the delegate, and each under its absolute
  path: the path itself if it starts at the root, else the one below the working directory of the
  command. Where the style ignores subsequent outputs these are the prerequisites of the first rule
  of each file. That \<^verbatim>\<open>llvm::sys::fs::make_absolute\<close> returns an absolute path is its documentation.
\<close>

theorem shell_command_discovers_prerequisites:
  assumes "r_status result = Succeeded"
    and "sc_depsStyle cmd \<in> {Makefile, MakefileIgnoringSubsequentOutputs}"
    and "deps_files_hold pf contents cmd files"
    and make_absolute: "\<And>p. absolute_path (pf_make_absolute pf p)"
  shows "\<exists>paths. paths = map (absolute_in pf (sc_workingDirectory cmd)) (files_prerequisites cmd files)
    \<and> list_all absolute_path paths
    \<and> commandCompletion pf contents cmd result = Some (result, dependency_reports paths)"
proof -
  let ?paths = "map (absolute_in pf (sc_workingDirectory cmd)) (files_prerequisites cmd files)"
  have "processDepsFiles pf contents cmd (sc_depsPaths cmd) = Some (True, dependency_reports ?paths)"
    using processDepsFiles_printed [OF assms(2), of contents pf files] assms(3)
    by (simp add: deps_files_hold_def discoveries_def)
  then have "commandCompletion pf contents cmd result = Some (result, dependency_reports ?paths)"
    using assms(1,2) by (auto simp: commandCompletion_def processDiscoveredDependencies_def)
  moreover have "list_all absolute_path ?paths"
    using absolute_in_absolute [OF make_absolute] by (simp add: list_all_iff)
  ultimately show ?thesis by blast
qed

section \<open>Success and failure\<close>

text \<open>A dependency file that can be read without an error.\<close>

definition readable_deps ::
  "path_functions \<Rightarrow> (string \<Rightarrow> byte list option) \<Rightarrow> ShellCommand \<Rightarrow> string \<Rightarrow> bool" where
  "readable_deps pf contents cmd path \<longleftrightarrow> map_option fst (processDepsFile pf contents cmd path) = Some True"

lemma processDepsFiles_ok:
  assumes "processDepsFiles pf contents cmd paths = Some (ok, evs)"
  shows "ok \<longleftrightarrow> list_all (readable_deps pf contents cmd) paths"
  using assms
proof (induction paths arbitrary: ok evs)
  case (Cons path paths)
  then obtain ok1 evs1 where f: "processDepsFile pf contents cmd path = Some (ok1, evs1)"
    by (auto simp: bind_eq_Some_conv)
  then show ?case
    using Cons by (cases ok1) (auto simp: bind_eq_Some_conv readable_deps_def)
qed simp

text \<open>
  A command with dependency files succeeds exactly if its process did, a style is set and every
  file can be opened and parsed without an error.
\<close>

theorem shell_command_succeeds_iff:
  assumes "commandCompletion pf contents cmd result = Some (final, evs)"
  shows "r_status final = Succeeded \<longleftrightarrow> r_status result = Succeeded
    \<and> (sc_depsPaths cmd = [] \<or> sc_depsStyle cmd \<noteq> Unused
         \<and> list_all (readable_deps pf contents cmd) (sc_depsPaths cmd))"
proof (cases "r_status result = Succeeded \<and> sc_depsPaths cmd \<noteq> []")
  case True
  then obtain ok where "processDiscoveredDependencies pf contents cmd = Some (ok, evs)"
    "final = (if ok then result else mkProcessResult Failed (- 1))"
    using assms by (auto simp: commandCompletion_def bind_eq_Some_conv)
  with True show ?thesis
    using processDepsFiles_ok [of pf contents cmd "sc_depsPaths cmd" ok evs]
    by (auto simp: processDiscoveredDependencies_def mkProcessResult_def split: if_splits)
qed (use assms in \<open>auto simp: commandCompletion_def split: if_splits\<close>)

section \<open>Concrete commands\<close>

definition cc_command :: ShellCommand where
  "cc_command = (newShellCommand ''cc'' True)\<lparr>sc_args := [''cc'', ''-index'', ''/tmp/i'', ''a.c''],
     sc_depsStyle := Makefile, sc_depsPaths := [''a.d''], sc_workingDirectory := ''/w''\<rparr>"

definition unix_paths :: path_functions where
  "unix_paths = \<lparr>pf_append = (\<lambda>a b. a @ ''/'' @ b),
     pf_make_absolute = (\<lambda>p. if absolute_path p then p else if network_name p then p @ ''/'' else ''/'' @ p)\<rparr>"

lemma unix_paths_absolute: "absolute_path (pf_make_absolute unix_paths p)"
  by (cases p) (auto simp: unix_paths_def absolute_path_def network_name_def split: list.splits)

definition cc_rules :: "(string \<times> string list) list" where
  "cc_rules = [(''a.o'', [''a.c'', ''/usr/include/x.h''])]"

definition cc_contents :: "string \<Rightarrow> byte list option" where
  "cc_contents p = (if p = ''/w/a.d'' then Some (bytes (concat (map mk_print cc_rules))) else None)"

lemma cc_files: "deps_files_hold unix_paths cc_contents cc_command [(''a.d'', cc_rules)]"
  by (simp add: deps_files_hold_def cc_contents_def cc_command_def newShellCommand_def unix_paths_def
      absolute_in_def absolute_path_def network_name_def printable_def cc_rules_def mk_target_ok_def mk_dep_ok_def)

theorem shell_command_discovers_prerequisites_witness:
  "commandCompletion unix_paths cc_contents cc_command (mkProcessResult Succeeded 0)
   = Some (mkProcessResult Succeeded 0,
       [DiscoveredDependency (makeNode (bytes ''/w/a.c'')), FoundDiscoveredDependency ''/w/a.c'' DepInput,
        DiscoveredDependency (makeNode (bytes ''/usr/include/x.h'')), FoundDiscoveredDependency ''/usr/include/x.h'' DepInput])"
  using shell_command_discovers_prerequisites [OF _ _ cc_files unix_paths_absolute, of "mkProcessResult Succeeded 0"]
  by (simp add: mkProcessResult_def cc_command_def newShellCommand_def prerequisites_def
      files_prerequisites_def dependency_reports_def cc_rules_def absolute_in_def absolute_path_def
      network_name_def unix_paths_def)

theorem shell_command_succeeds_iff_witness:
  "\<exists>final evs. commandCompletion unix_paths (\<lambda>p. None) cc_command (mkProcessResult Succeeded 0) = Some (final, evs)
     \<and> r_status final \<noteq> Succeeded"
proof -
  have c: "commandCompletion unix_paths (\<lambda>p. None) cc_command (mkProcessResult Succeeded 0)
      = Some (mkProcessResult Failed (- 1), [DepsError ''unable to open dependencies file (a.d)''])"
    by (simp add: commandCompletion_def processDiscoveredDependencies_def processDepsFile_def mkProcessResult_def
        cc_command_def newShellCommand_def)
  have "\<not> readable_deps unix_paths (\<lambda>p. None) cc_command ''a.d''"
    by (simp add: readable_deps_def processDepsFile_def)
  then show ?thesis
    using shell_command_succeeds_iff [OF c] c by (simp add: cc_command_def newShellCommand_def)
qed

definition sum_hashing :: hashing where
  "sum_hashing = \<lparr>hash_string = (\<lambda>s. of_nat (length s)), combine_string = (\<lambda>c s. 31 * c + of_nat (length s)),
     combine_bool = (\<lambda>c b. 2 * c + (if b then 1 else 0)), combine_bytes = (\<lambda>c b. c), combine_word = (\<lambda>c w. c + w)\<rparr>"

theorem signature_ignores_marked_args_witness:
  "\<exists>cmd'. configure_shell_values ''signature-ignored-args'' [''2''] cc_command = Some (Inr cmd')
     \<and> computeSignature sum_hashing (cmd'\<lparr>sc_args := [''cc'', ''-index'', ''/elsewhere'', ''a.c'']\<rparr>)
       = computeSignature sum_hashing cmd'"
proof -
  let ?cmd = "cc_command\<lparr>sc_signatureIgnoredArgs := [2]\<rparr>"
  have c: "configure_shell_values ''signature-ignored-args'' [''2''] cc_command = Some (Inr ?cmd)"
    by (simp add: configure_shell_values_def getAsInteger_def decimal_value_def)
  have "computeSignature sum_hashing (?cmd\<lparr>sc_args := [''cc'', ''-index'', ''/elsewhere'', ''a.c'']\<rparr>)
      = computeSignature sum_hashing ?cmd"
    by (rule signature_ignores_marked_args [OF c])
      (auto simp: cc_command_def newShellCommand_def nth_Cons split: nat.splits)
  with c show ?thesis by blast
qed

end
