(* ===== verification/BuildDescriptionBuilder.thy ===== *)
theory BuildDescriptionBuilder
  imports BuildNode "HOL-Library.Sublist"
begin

text \<open>
  Assembling a build description: \<^verbatim>\<open>lib/BuildSystem/BuildDescriptionBuilder.cpp\<close>, with the ownership
  analysis that \<^verbatim>\<open>finalize\<close> runs over the commands.

  The builder is polymorphic in the tools and the commands, which reach it only through virtual
  functions; these are the record \<open>BuildFileDelegate\<close> of operations, an argument of the functions
  that call them. Nodes and commands are referred to by their names: a pointer to a node of the
  description and its name determine each other. The hash maps are association lists; the order in
  which they are traversed is arbitrary, and the theorems do not depend on it.
\<close>

section \<open>The delegate\<close>

text \<open>
  Where a call may report errors through its context, the result has them first. The outcome of
  setting an attribute of a command is the command, or nothing if the result is false;
  \<^term>\<open>None\<close> is a failed assertion.
\<close>

datatype attr_value = AttrScalar string | AttrValues "string list" | AttrPairs "(string \<times> string) list"

record ('t, 'c) BuildFileDelegate =
  d_configureClient :: "string \<Rightarrow> nat \<Rightarrow> (string \<times> string) list \<Rightarrow> string list \<times> bool"
  d_lookupTool :: "string \<Rightarrow> 't option"
  d_createNode :: "string \<Rightarrow> bool \<Rightarrow> BuildNode"
  d_toolAttribute :: "string \<Rightarrow> attr_value \<Rightarrow> 't \<Rightarrow> 't configured"
  d_createCommand :: "string \<Rightarrow> 't \<Rightarrow> 'c option"
  d_configureDescription :: "string \<Rightarrow> 'c \<Rightarrow> 'c"
  d_configureInputs :: "BuildNode list \<Rightarrow> 'c \<Rightarrow> string list \<times> 'c"
  d_configureOutputs :: "BuildNode list \<Rightarrow> 'c \<Rightarrow> string list \<times> 'c"
  d_configureEnvironmentBase :: "(string \<times> string) list \<Rightarrow> 'c \<Rightarrow> 'c option"
  d_commandAttribute :: "string \<Rightarrow> attr_value \<Rightarrow> 'c \<Rightarrow> (string list \<times> 'c option) option"
  d_getInputs :: "'c \<Rightarrow> string list"
  d_getOutputs :: "'c \<Rightarrow> string list"
  d_addOutput :: "BuildNode \<Rightarrow> 'c \<Rightarrow> 'c"
  d_isExternalCommand :: "'c \<Rightarrow> bool"
  d_repairViaOwnershipAnalysis :: "'c \<Rightarrow> bool"

datatype loader_event =
    LoaderError string
  | LoadedTarget string
  | LoadedDefaultTarget string
  | LoadedCommand string
  | CannotLoadDueToMultipleProducers string "string list"

record ('t, 'c) builder =
  b_tools :: "(string \<times> 't) list"
  b_targets :: "(string \<times> string list) list"
  b_defaultTarget :: string
  b_nodes :: "(string \<times> BuildNode) list"
  b_environmentBases :: "(string \<times> (string \<times> string) list) list"
  b_commands :: "(string \<times> 'c) list"
  b_performOwnershipAnalysis :: bool
  b_log :: "loader_event list"

definition newBuilder :: "('t, 'c) builder" where
  "newBuilder = \<lparr>b_tools = [], b_targets = [], b_defaultTarget = [], b_nodes = [], b_environmentBases = [],
     b_commands = [], b_performOwnershipAnalysis = False, b_log = []\<rparr>"

definition nodeNamed :: "('t, 'c) builder \<Rightarrow> string \<Rightarrow> BuildNode" where
  "nodeNamed b name = (case map_of (b_nodes b) name of Some node \<Rightarrow> node | None \<Rightarrow> makeBuildNode name Plain)"

definition emit_b :: "loader_event \<Rightarrow> ('t, 'c) builder \<Rightarrow> ('t, 'c) builder" where
  "emit_b ev b = b\<lparr>b_log := b_log b @ [ev]\<rparr>"

definition report :: "string list \<Rightarrow> ('t, 'c) builder \<Rightarrow> ('t, 'c) builder" where
  "report messages b = b\<lparr>b_log := b_log b @ map LoaderError messages\<rparr>"

section \<open>Operations\<close>

definition getOrCreateNode ::
  "('t, 'c) BuildFileDelegate \<Rightarrow> string \<Rightarrow> bool \<Rightarrow> ('t, 'c) builder \<Rightarrow> ('t, 'c) builder" where
  "getOrCreateNode D name isImplicit b =
     (case map_of (b_nodes b) name of
        Some node \<Rightarrow> b
      | None \<Rightarrow> b\<lparr>b_nodes := AList.update name (d_createNode D name isImplicit) (b_nodes b)\<rparr>)"

definition getOrCreateTool ::
  "('t, 'c) BuildFileDelegate \<Rightarrow> string \<Rightarrow> ('t, 'c) builder \<Rightarrow> 't option \<times> ('t, 'c) builder" where
  "getOrCreateTool D name b =
     (case map_of (b_tools b) name of
        Some tool \<Rightarrow> (Some tool, b)
      | None \<Rightarrow>
          (case d_lookupTool D name of
             None \<Rightarrow> (None, b)
           | Some tool \<Rightarrow> (Some tool, b\<lparr>b_tools := AList.update name tool (b_tools b)\<rparr>)))"

text \<open>The three overloads of \<^verbatim>\<open>configureAttribute\<close> of a node.\<close>

fun node_attribute :: "string \<Rightarrow> attr_value \<Rightarrow> BuildNode \<Rightarrow> BuildNode configured" where
  "node_attribute name (AttrScalar v) node = configureNode name v node"
| "node_attribute name (AttrValues vs) node = configureNode_values name vs node"
| "node_attribute name (AttrPairs vs) node = configureNode_pairs name vs node"

text \<open>
  An attribute of a node; a rejected one is reported and the result is false. \<^term>\<open>None\<close> is a
  failed assertion inside the node.
\<close>

definition setNodeAttribute ::
  "string \<Rightarrow> string \<Rightarrow> attr_value \<Rightarrow> ('t, 'c) builder \<Rightarrow> (bool \<times> ('t, 'c) builder) option" where
  "setNodeAttribute nodeName name v b = do {
     node \<leftarrow> map_of (b_nodes b) nodeName;
     r \<leftarrow> node_attribute name v node;
     Some (case r of
       Inl message \<Rightarrow> (False, emit_b (LoaderError message) b)
     | Inr node' \<Rightarrow> (True, b\<lparr>b_nodes := AList.update nodeName node' (b_nodes b)\<rparr>)) }"

definition configureNodeAttribute ::
  "('t, 'c) BuildFileDelegate \<Rightarrow> string \<Rightarrow> string \<Rightarrow> attr_value \<Rightarrow> ('t, 'c) builder \<Rightarrow> (bool \<times> ('t, 'c) builder) option" where
  "configureNodeAttribute D nodeName name v b = setNodeAttribute nodeName name v (getOrCreateNode D nodeName False b)"

definition hasTarget :: "string \<Rightarrow> ('t, 'c) builder \<Rightarrow> bool" where
  "hasTarget name b \<longleftrightarrow> map_of (b_targets b) name \<noteq> None"

definition getOrCreateNodes ::
  "('t, 'c) BuildFileDelegate \<Rightarrow> string list \<Rightarrow> ('t, 'c) builder \<Rightarrow> ('t, 'c) builder" where
  "getOrCreateNodes D names b = fold (\<lambda>name. getOrCreateNode D name True) names b"

definition addTarget ::
  "('t, 'c) BuildFileDelegate \<Rightarrow> string \<Rightarrow> string list \<Rightarrow> ('t, 'c) builder \<Rightarrow> ('t, 'c) builder" where
  "addTarget D name nodeNames b =
     (let b = emit_b (LoadedTarget name) (getOrCreateNodes D nodeNames b)
      in b\<lparr>b_targets := AList.update name nodeNames (b_targets b)\<rparr>)"

definition setDefaultTarget :: "string \<Rightarrow> ('t, 'c) builder \<Rightarrow> bool \<times> ('t, 'c) builder" where
  "setDefaultTarget name b =
     (if \<not> hasTarget name b then (False, b)
      else (True, emit_b (LoadedDefaultTarget name) (b\<lparr>b_defaultTarget := name\<rparr>)))"

definition hasEnvironmentBase :: "string \<Rightarrow> ('t, 'c) builder \<Rightarrow> bool" where
  "hasEnvironmentBase name b \<longleftrightarrow> map_of (b_environmentBases b) name \<noteq> None"

definition lookupEnvironmentBase :: "string \<Rightarrow> ('t, 'c) builder \<Rightarrow> (string \<times> string) list option" where
  "lookupEnvironmentBase name b = map_of (b_environmentBases b) name"

definition addEnvironmentBase ::
  "string \<Rightarrow> (string \<times> string) list \<Rightarrow> ('t, 'c) builder \<Rightarrow> bool \<times> ('t, 'c) builder" where
  "addEnvironmentBase name bindings b =
     (if hasEnvironmentBase name b then (False, b)
      else (True, b\<lparr>b_environmentBases := AList.update name bindings (b_environmentBases b)\<rparr>))"

definition hasCommand :: "string \<Rightarrow> ('t, 'c) builder \<Rightarrow> bool" where
  "hasCommand name b \<longleftrightarrow> map_of (b_commands b) name \<noteq> None"

definition createCommand ::
  "('t, 'c) BuildFileDelegate \<Rightarrow> string \<Rightarrow> string \<Rightarrow> ('t, 'c) builder \<Rightarrow> 'c option \<times> ('t, 'c) builder" where
  "createCommand D name toolName b =
     (case getOrCreateTool D toolName b of
        (None, b) \<Rightarrow> (None, b)
      | (Some tool, b) \<Rightarrow> (d_createCommand D name tool, b))"

definition configureCommandInputs ::
  "('t, 'c) BuildFileDelegate \<Rightarrow> string list \<Rightarrow> 'c \<Rightarrow> ('t, 'c) builder \<Rightarrow> 'c \<times> ('t, 'c) builder" where
  "configureCommandInputs D nodeNames c b =
     (let b = getOrCreateNodes D nodeNames b;
          (errors, c) = d_configureInputs D (map (nodeNamed b) nodeNames) c
      in (c, report errors b))"

definition addProducer :: "string \<Rightarrow> string \<Rightarrow> ('t, 'c) builder \<Rightarrow> ('t, 'c) builder" where
  "addProducer command nodeName b =
     (case map_of (b_nodes b) nodeName of
        None \<Rightarrow> b
      | Some node \<Rightarrow>
          b\<lparr>b_nodes := AList.update nodeName (node\<lparr>node_producers := node_producers node @ [command]\<rparr>) (b_nodes b)\<rparr>)"

definition configureCommandOutputs ::
  "('t, 'c) BuildFileDelegate \<Rightarrow> string \<Rightarrow> string list \<Rightarrow> 'c \<Rightarrow> ('t, 'c) builder \<Rightarrow> 'c \<times> ('t, 'c) builder" where
  "configureCommandOutputs D command nodeNames c b =
     (let b = fold (addProducer command) nodeNames (getOrCreateNodes D nodeNames b);
          (errors, c) = d_configureOutputs D (map (nodeNamed b) nodeNames) c
      in (c, report errors b))"

definition configureCommandEnvironmentBase ::
  "('t, 'c) BuildFileDelegate \<Rightarrow> string \<Rightarrow> 'c \<Rightarrow> ('t, 'c) builder \<Rightarrow> (bool \<times> 'c \<times> ('t, 'c) builder)" where
  "configureCommandEnvironmentBase D baseName c b =
     (case lookupEnvironmentBase baseName b of
        None \<Rightarrow> (False, c, emit_b (LoaderError (''unknown environment base '' @ quoted baseName)) b)
      | Some bindings \<Rightarrow>
          (case d_configureEnvironmentBase D bindings c of
             None \<Rightarrow> (False, c, emit_b (LoaderError (quoted ''env-base'' @ '' is not supported by this command'')) b)
           | Some c' \<Rightarrow> (True, c', b)))"

definition addCommand_b :: "string \<Rightarrow> 'c \<Rightarrow> ('t, 'c) builder \<Rightarrow> ('t, 'c) builder" where
  "addCommand_b name c b =
     (emit_b (LoadedCommand name) b)\<lparr>b_commands := AList.update name c (b_commands b)\<rparr>"

section \<open>Ownership analysis\<close>

type_synonym node_and_command = "string \<times> string"

definition commandFlag :: "('c \<Rightarrow> bool) \<Rightarrow> ('t, 'c) builder \<Rightarrow> string \<Rightarrow> bool" where
  "commandFlag f b name = (case map_of (b_commands b) name of Some c \<Rightarrow> f c | None \<Rightarrow> False)"

definition outputNodesAndCommands ::
  "('t, 'c) BuildFileDelegate \<Rightarrow> ('t, 'c) builder \<Rightarrow> node_and_command list" where
  "outputNodesAndCommands D b =
     sort_key (length \<circ> fst)
       (concat (map (\<lambda>(name, c). map (\<lambda>n. (n, name)) (filter (\<lambda>n. \<not> isVirtual (nodeNamed b n)) (d_getOutputs D c)))
          (b_commands b)))"

definition directoryInputNodesAndCommands ::
  "('t, 'c) BuildFileDelegate \<Rightarrow> ('t, 'c) builder \<Rightarrow> node_and_command list" where
  "directoryInputNodesAndCommands D b =
     concat (map (\<lambda>(name, c). map (\<lambda>n. (n, name)) (filter (\<lambda>n. isDirectoryNode (nodeNamed b n)) (d_getInputs D c)))
       (b_commands b))"

definition owns :: "string \<Rightarrow> string \<Rightarrow> bool" where
  "owns node path =
     (if suffix ''/'' node then prefix node path else prefix (node @ ''/'') path)"

definition includedOwnerOf :: "node_and_command list \<Rightarrow> string \<Rightarrow> string option" where
  "includedOwnerOf included path = map_option snd (find (\<lambda>p. owns (fst p) path) included)"

definition excludedOwnerOf :: "node_and_command list \<Rightarrow> string \<Rightarrow> string option" where
  "excludedOwnerOf excluded path = map_option snd (find (\<lambda>p. path = fst p) excluded)"

text \<open>
  \<^verbatim>\<open>establishOwnerships\<close>: the included and excluded paths, or the node and the two commands of a
  conflict. \<open>analysed\<close> tells the commands that take part.
\<close>

fun establishOwnerships ::
  "(string \<Rightarrow> bool) \<Rightarrow> node_and_command list \<Rightarrow> node_and_command list \<Rightarrow> node_and_command list
   \<Rightarrow> (string \<times> string list) + (node_and_command list \<times> node_and_command list)" where
  "establishOwnerships analysed [] included excluded = Inr (included, excluded)"
| "establishOwnerships analysed ((node, command) # rest) included excluded =
     (if analysed command then
        (case includedOwnerOf included node of
           None \<Rightarrow> establishOwnerships analysed rest (AList.update node command included) excluded
         | Some owner \<Rightarrow>
             if owner = command then establishOwnerships analysed rest included excluded
             else Inl (node, [command, owner]))
      else establishOwnerships analysed rest included (AList.update node command excluded))"

definition isIncludedUnownedNode :: "node_and_command list \<Rightarrow> node_and_command list \<Rightarrow> string \<Rightarrow> bool" where
  "isIncludedUnownedNode included excluded node \<longleftrightarrow>
     includedOwnerOf included node = None \<and> excludedOwnerOf excluded node = None"

definition amendOutput ::
  "('t, 'c) BuildFileDelegate \<Rightarrow> node_and_command list \<Rightarrow> node_and_command \<Rightarrow> ('t, 'c) builder \<Rightarrow> ('t, 'c) builder" where
  "amendOutput D included p b =
     (case includedOwnerOf included (fst p) of
        None \<Rightarrow> b
      | Some owner \<Rightarrow>
          (case map_of (b_commands b) owner of
             None \<Rightarrow> b
           | Some c \<Rightarrow>
               if fst p \<notin> set (d_getOutputs D c) \<and> d_repairViaOwnershipAnalysis D c
               then addProducer owner (fst p)
                      (b\<lparr>b_commands := AList.update owner (d_addOutput D (nodeNamed b (fst p)) c) (b_commands b)\<rparr>)
               else b))"

definition amendOutputOfOwnersWithConsumedSubpaths ::
  "('t, 'c) BuildFileDelegate \<Rightarrow> node_and_command list \<Rightarrow> node_and_command list \<Rightarrow> ('t, 'c) builder \<Rightarrow> ('t, 'c) builder" where
  "amendOutputOfOwnersWithConsumedSubpaths D included inputs b = fold (amendOutput D included) inputs b"

definition deferScan ::
  "node_and_command list \<Rightarrow> (string \<Rightarrow> bool) \<Rightarrow> node_and_command \<Rightarrow> ('t, 'c) builder \<Rightarrow> ('t, 'c) builder" where
  "deferScan unowned repairs p b =
     (case find (\<lambda>u. prefix (fst u) (fst p) \<and> repairs (snd p)) unowned of
        None \<Rightarrow> b
      | Some u \<Rightarrow>
          let node = nodeNamed b (fst u)
          in b\<lparr>b_nodes := AList.update (fst u)
                 (node\<lparr>node_mustScanAfterPaths := node_mustScanAfterPaths node @ [Some (fst p)]\<rparr>) (b_nodes b)\<rparr>)"

definition deferScanningUnownedInputsUntilSubpathsAvailable ::
  "('t, 'c) BuildFileDelegate \<Rightarrow> node_and_command list \<Rightarrow> node_and_command list \<Rightarrow> node_and_command list
   \<Rightarrow> node_and_command list \<Rightarrow> ('t, 'c) builder \<Rightarrow> ('t, 'c) builder" where
  "deferScanningUnownedInputsUntilSubpathsAvailable D included excluded outputs inputs b =
     (let repairs = commandFlag (d_repairViaOwnershipAnalysis D) b;
          unowned = filter (\<lambda>p. isIncludedUnownedNode included excluded (fst p) \<and> repairs (snd p)) inputs
      in fold (deferScan unowned repairs) outputs b)"

record ('t, 'c) description =
  ds_environmentBases :: "(string \<times> (string \<times> string) list) list"
  ds_nodes :: "(string \<times> BuildNode) list"
  ds_targets :: "(string \<times> string list) list"
  ds_defaultTarget :: string
  ds_commands :: "(string \<times> 'c) list"
  ds_tools :: "(string \<times> 't) list"

definition descriptionOf :: "('t, 'c) builder \<Rightarrow> ('t, 'c) description" where
  "descriptionOf b = \<lparr>ds_environmentBases = b_environmentBases b, ds_nodes = b_nodes b, ds_targets = b_targets b,
     ds_defaultTarget = b_defaultTarget b, ds_commands = b_commands b, ds_tools = b_tools b\<rparr>"

text \<open>The description, or nothing after a conflict, with the final log.\<close>

definition finalize ::
  "('t, 'c) BuildFileDelegate \<Rightarrow> ('t, 'c) builder \<Rightarrow> ('t, 'c) description option \<times> loader_event list" where
  "finalize D b =
     (if b_performOwnershipAnalysis b then
        let outputs = outputNodesAndCommands D b;
            inputs = directoryInputNodesAndCommands D b;
            analysed = (\<lambda>c. commandFlag (d_isExternalCommand D) b c \<and> commandFlag (d_repairViaOwnershipAnalysis D) b c)
        in case establishOwnerships analysed outputs [] [] of
             Inl (node, commands) \<Rightarrow> (None, b_log b @ [CannotLoadDueToMultipleProducers node commands])
           | Inr (included, excluded) \<Rightarrow>
               let b = amendOutputOfOwnersWithConsumedSubpaths D included inputs b;
                   b = deferScanningUnownedInputsUntilSubpathsAvailable D included excluded outputs inputs b
               in (Some (descriptionOf b), b_log b)
      else (Some (descriptionOf b), b_log b))"

end
