(* ===== verification/BuildFile.thy ===== *)
theory BuildFile
  imports BuildDescriptionBuilder ExecutionQueue
begin

text \<open>
  Loading a build file: \<^verbatim>\<open>lib/BuildSystem/BuildFile.cpp\<close>. The YAML parser is part of the vendored
  LLVM library; its result, the tree of nodes of each document, is the input of the model. Source
  ranges, which only locate diagnostics, are left out.

  A parsing function returns whether it succeeded together with the builder, whose log has the
  diagnostics; a \<^verbatim>\<open>continue\<close> after a diagnostic is success. \<^term>\<open>None\<close> is a failed assertion.
\<close>

section \<open>Documents\<close>

datatype Yaml =
    NK_Null
  | NK_Scalar string
  | NK_BlockScalar string
  | NK_Mapping "(Yaml \<times> Yaml) list"
  | NK_Sequence "Yaml list"
  | NK_Alias string

fun scalar :: "Yaml \<Rightarrow> string option" where
  "scalar (NK_Scalar s) = Some s"
| "scalar _ = None"

definition nodeIsScalarString :: "Yaml \<Rightarrow> string \<Rightarrow> bool" where
  "nodeIsScalarString node name \<longleftrightarrow> scalar node = Some name"

type_synonym ('t, 'c) parse = "('t, 'c) builder \<Rightarrow> (bool \<times> ('t, 'c) builder) option"

definition ok :: "('t, 'c) parse" where
  "ok b = Some (True, b)"

definition load_error :: "string \<Rightarrow> ('t, 'c) parse" where
  "load_error message b = Some (True, emit_b (LoaderError message) b)"

definition fatal :: "string \<Rightarrow> ('t, 'c) parse" where
  "fatal message b = Some (False, emit_b (LoaderError message) b)"

definition andThen :: "('t, 'c) parse \<Rightarrow> ('t, 'c) parse \<Rightarrow> ('t, 'c) parse" where
  "andThen p r b = (case p b of None \<Rightarrow> None | Some (False, b') \<Rightarrow> Some (False, b') | Some (True, b') \<Rightarrow> r b')"

fun forEach :: "('a \<Rightarrow> ('t, 'c) parse) \<Rightarrow> 'a list \<Rightarrow> ('t, 'c) parse" where
  "forEach p [] = ok"
| "forEach p (x # xs) = andThen (p x) (forEach p xs)"

section \<open>The client\<close>

record client =
  cl_name :: string
  cl_version :: nat
  cl_properties :: "(string \<times> string) list"

text \<open>
  One entry of the \<^verbatim>\<open>client\<close> map. The test for \<^verbatim>\<open>perform-ownership-analysis\<close> starts a new
  \<^verbatim>\<open>if\<close>, so that its \<^verbatim>\<open>else\<close> branch also takes the name and the version.
\<close>

definition parseClientEntry ::
  "Yaml \<times> Yaml \<Rightarrow> client \<times> ('t, 'c) builder \<Rightarrow> (client \<times> ('t, 'c) builder) + ('t, 'c) builder" where
  "parseClientEntry entry st =
     (case st of (cl, b) \<Rightarrow>
        case scalar (fst entry) of
          None \<Rightarrow> Inr (emit_b (LoaderError (''invalid key type in '' @ quoted ''client'' @ '' map'')) b)
        | Some key \<Rightarrow>
            (case scalar (snd entry) of
               None \<Rightarrow> Inr (emit_b (LoaderError (''invalid value type in '' @ quoted ''client'' @ '' map'')) b)
             | Some val \<Rightarrow>
                 let (cl, b) =
                       (if key = ''name'' then (cl\<lparr>cl_name := val\<rparr>, b)
                        else if key = ''version'' then
                          (case getAsInteger val of
                             None \<Rightarrow> (cl, emit_b (LoaderError (''invalid version number in '' @ quoted ''client'' @ '' map'')) b)
                           | Some v \<Rightarrow> (cl\<lparr>cl_version := v\<rparr>, b))
                        else (cl, b))
                 in if key = ''perform-ownership-analysis''
                    then Inl (cl, if val = ''yes'' then b\<lparr>b_performOwnershipAnalysis := True\<rparr> else b)
                    else Inl (cl\<lparr>cl_properties := cl_properties cl @ [(key, val)]\<rparr>, b)))"

fun parseClientEntries ::
  "(Yaml \<times> Yaml) list \<Rightarrow> client \<times> ('t, 'c) builder \<Rightarrow> (client \<times> ('t, 'c) builder) + ('t, 'c) builder" where
  "parseClientEntries [] st = Inl st"
| "parseClientEntries (entry # entries) st =
     (case parseClientEntry entry st of Inr b \<Rightarrow> Inr b | Inl st' \<Rightarrow> parseClientEntries entries st')"

definition emptyClient :: client where
  "emptyClient = \<lparr>cl_name = [], cl_version = 0, cl_properties = []\<rparr>"

definition parseClientMapping ::
  "('t, 'c) BuildFileDelegate \<Rightarrow> (Yaml \<times> Yaml) list \<Rightarrow> ('t, 'c) parse" where
  "parseClientMapping D entries b =
     (case parseClientEntries entries (emptyClient, b) of
        Inr b \<Rightarrow> Some (False, b)
      | Inl (cl, b) \<Rightarrow>
          (case d_configureClient D (cl_name cl) (cl_version cl) (cl_properties cl) of
             (errors, False) \<Rightarrow> fatal ''unable to configure client'' (report errors b)
           | (errors, True) \<Rightarrow> ok (report errors b)))"

section \<open>Attributes\<close>

text \<open>
  The value of an attribute, collected in the same way for tools, nodes and commands: \<open>kind\<close> and
  \<open>section\<close> are the words in the diagnostics. Entries of the wrong type are reported and left out;
  a value of another type is reported and the attribute skipped.
\<close>

fun collectPairs ::
  "string \<Rightarrow> string \<Rightarrow> (Yaml \<times> Yaml) list \<Rightarrow> ('t, 'c) builder \<Rightarrow> (string \<times> string) list \<times> ('t, 'c) builder" where
  "collectPairs keyMsg valueMsg [] b = ([], b)"
| "collectPairs keyMsg valueMsg ((k, v) # entries) b =
     (case (scalar k, scalar v) of
        (None, _) \<Rightarrow> collectPairs keyMsg valueMsg entries (emit_b (LoaderError keyMsg) b)
      | (_, None) \<Rightarrow> collectPairs keyMsg valueMsg entries (emit_b (LoaderError valueMsg) b)
      | (Some key, Some val) \<Rightarrow>
          (case collectPairs keyMsg valueMsg entries b of (kvs, b) \<Rightarrow> ((key, val) # kvs, b)))"

fun collectScalars :: "string \<Rightarrow> Yaml list \<Rightarrow> ('t, 'c) builder \<Rightarrow> string list \<times> ('t, 'c) builder" where
  "collectScalars msg [] b = ([], b)"
| "collectScalars msg (node # nodes) b =
     (case scalar node of
        None \<Rightarrow> collectScalars msg nodes (emit_b (LoaderError msg) b)
      | Some s \<Rightarrow> (case collectScalars msg nodes b of (ss, b) \<Rightarrow> (s # ss, b)))"

definition attributeValue ::
  "string \<Rightarrow> string \<Rightarrow> string \<Rightarrow> Yaml \<Rightarrow> ('t, 'c) builder \<Rightarrow> attr_value option \<times> ('t, 'c) builder" where
  "attributeValue kind section attribute val b =
     (let invalid = ''invalid value type for '' @ kind @ '' in '' @ quoted section @ '' map''
      in case val of
           NK_Mapping entries \<Rightarrow>
             (case collectPairs (''invalid key type for '' @ quoted attribute @ '' in '' @ quoted section @ '' map'')
                     (''invalid value type for '' @ quoted attribute @ '' in '' @ quoted section @ '' map'') entries b of
                (kvs, b) \<Rightarrow> (Some (AttrPairs kvs), b))
         | NK_Sequence nodes \<Rightarrow>
             (case collectScalars invalid nodes b of (ss, b) \<Rightarrow> (Some (AttrValues ss), b))
         | NK_Scalar s \<Rightarrow> (Some (AttrScalar s), b)
         | _ \<Rightarrow> (None, emit_b (LoaderError invalid) b))"

section \<open>Tools, targets, nodes and environment bases\<close>

definition getTool ::
  "('t, 'c) BuildFileDelegate \<Rightarrow> string \<Rightarrow> ('t, 'c) builder \<Rightarrow> 't option \<times> ('t, 'c) builder" where
  "getTool D name b =
     (case getOrCreateTool D name b of
        (None, b) \<Rightarrow> (None, emit_b (LoaderError (''invalid tool ('' @ name @ '') type in '' @ quoted ''tools'' @ '' map'')) b)
      | (Some tool, b) \<Rightarrow> (Some tool, b))"

definition parseToolAttribute ::
  "('t, 'c) BuildFileDelegate \<Rightarrow> string \<Rightarrow> Yaml \<times> Yaml \<Rightarrow> ('t, 'c) parse" where
  "parseToolAttribute D toolName entry b =
     (case scalar (fst entry) of
        None \<Rightarrow> load_error (''invalid key type for tool in '' @ quoted ''tools'' @ '' map'') b
      | Some attribute \<Rightarrow>
          (case attributeValue ''tool'' ''tools'' attribute (snd entry) b of
             (None, b) \<Rightarrow> ok b
           | (Some v, b) \<Rightarrow> do {
               tool \<leftarrow> map_of (b_tools b) toolName;
               r \<leftarrow> d_toolAttribute D attribute v tool;
               (case r of
                  Inl message \<Rightarrow> fatal message b
                | Inr tool' \<Rightarrow> ok (b\<lparr>b_tools := AList.update toolName tool' (b_tools b)\<rparr>)) }))"

definition parseTool :: "('t, 'c) BuildFileDelegate \<Rightarrow> Yaml \<times> Yaml \<Rightarrow> ('t, 'c) parse" where
  "parseTool D entry b =
     (case (scalar (fst entry), snd entry) of
        (None, _) \<Rightarrow> load_error (''invalid key type in '' @ quoted ''tools'' @ '' map'') b
      | (Some name, NK_Mapping attrs) \<Rightarrow>
          (case getTool D name b of
             (None, b) \<Rightarrow> Some (False, b)
           | (Some tool, b) \<Rightarrow> forEach (parseToolAttribute D name) attrs b)
      | _ \<Rightarrow> load_error (''invalid value type in '' @ quoted ''tools'' @ '' map'') b)"

definition parseToolsMapping :: "('t, 'c) BuildFileDelegate \<Rightarrow> (Yaml \<times> Yaml) list \<Rightarrow> ('t, 'c) parse" where
  "parseToolsMapping D = forEach (parseTool D)"

definition parseTarget :: "('t, 'c) BuildFileDelegate \<Rightarrow> Yaml \<times> Yaml \<Rightarrow> ('t, 'c) parse" where
  "parseTarget D entry b =
     (case (scalar (fst entry), snd entry) of
        (None, _) \<Rightarrow> load_error (''invalid key type in '' @ quoted ''targets'' @ '' map'') b
      | (Some name, NK_Sequence nodes) \<Rightarrow>
          (case collectScalars (''invalid node type in '' @ quoted ''targets'' @ '' map'') nodes b of
             (names, b) \<Rightarrow> ok (addTarget D name names b))
      | _ \<Rightarrow> load_error (''invalid value type in '' @ quoted ''targets'' @ '' map'') b)"

definition parseTargetsMapping :: "('t, 'c) BuildFileDelegate \<Rightarrow> (Yaml \<times> Yaml) list \<Rightarrow> ('t, 'c) parse" where
  "parseTargetsMapping D = forEach (parseTarget D)"

definition parseDefaultTarget :: "string \<Rightarrow> ('t, 'c) parse" where
  "parseDefaultTarget target b =
     (case setDefaultTarget target b of
        (False, b) \<Rightarrow> fatal ''invalid default target, a default target should be in targets'' b
      | (True, b) \<Rightarrow> ok b)"

definition parseNodeAttribute :: "string \<Rightarrow> Yaml \<times> Yaml \<Rightarrow> ('t, 'c) parse" where
  "parseNodeAttribute nodeName entry b =
     (case scalar (fst entry) of
        None \<Rightarrow> load_error (''invalid key type for node in '' @ quoted ''nodes'' @ '' map'') b
      | Some attribute \<Rightarrow>
          (case attributeValue ''node'' ''nodes'' attribute (snd entry) b of
             (None, b) \<Rightarrow> ok b
           | (Some v, b) \<Rightarrow> setNodeAttribute nodeName attribute v b))"

definition parseNode :: "('t, 'c) BuildFileDelegate \<Rightarrow> Yaml \<times> Yaml \<Rightarrow> ('t, 'c) parse" where
  "parseNode D entry b =
     (case (scalar (fst entry), snd entry) of
        (None, _) \<Rightarrow> load_error (''invalid key type in '' @ quoted ''nodes'' @ '' map'') b
      | (Some name, NK_Mapping attrs) \<Rightarrow>
          forEach (parseNodeAttribute name) attrs (getOrCreateNode D name False b)
      | _ \<Rightarrow> load_error (''invalid value type in '' @ quoted ''nodes'' @ '' map'') b)"

definition parseNodesMapping :: "('t, 'c) BuildFileDelegate \<Rightarrow> (Yaml \<times> Yaml) list \<Rightarrow> ('t, 'c) parse" where
  "parseNodesMapping D = forEach (parseNode D)"

definition parseEnvironmentBase :: "Yaml \<times> Yaml \<Rightarrow> ('t, 'c) parse" where
  "parseEnvironmentBase entry b =
     (case (scalar (fst entry), snd entry) of
        (None, _) \<Rightarrow> load_error (''invalid key type in '' @ quoted ''env-bases'' @ '' map'') b
      | (Some name, NK_Mapping bindings) \<Rightarrow>
          if hasEnvironmentBase name b then load_error (''duplicate environment base '' @ quoted name) b
          else (case collectPairs (''invalid key type in '' @ quoted ''env-bases'' @ '' entry '' @ quoted name)
                       (''invalid value type in '' @ quoted ''env-bases'' @ '' entry '' @ quoted name) bindings b of
                  (kvs, b) \<Rightarrow> ok (snd (addEnvironmentBase name kvs b)))
      | _ \<Rightarrow> load_error (''invalid value type in '' @ quoted ''env-bases'' @ '' map'') b)"

definition parseEnvironmentBasesMapping :: "(Yaml \<times> Yaml) list \<Rightarrow> ('t, 'c) parse" where
  "parseEnvironmentBasesMapping = forEach parseEnvironmentBase"

section \<open>Commands\<close>

text \<open>One attribute of a command under construction; the command is threaded beside the builder.\<close>

definition parseNodeNames ::
  "string \<Rightarrow> Yaml \<Rightarrow> ('t, 'c) builder \<Rightarrow> string list option \<times> ('t, 'c) builder" where
  "parseNodeNames what val b =
     (case val of
        NK_Sequence nodes \<Rightarrow>
          (case collectScalars (''invalid node type in '' @ quoted what @ '' command key'') nodes b of
             (names, b) \<Rightarrow> (Some names, b))
      | _ \<Rightarrow> (None, emit_b (LoaderError (''invalid value type for '' @ quoted what @ '' command key'')) b))"

definition parseCommandAttribute ::
  "('t, 'c) BuildFileDelegate \<Rightarrow> string \<Rightarrow> Yaml \<times> Yaml \<Rightarrow> 'c \<Rightarrow> ('t, 'c) builder
   \<Rightarrow> (bool \<times> 'c \<times> ('t, 'c) builder) option" where
  "parseCommandAttribute D name entry c b =
     (let key = fst entry; val = snd entry
      in if nodeIsScalarString key ''inputs'' then
           (case parseNodeNames ''inputs'' val b of
              (None, b) \<Rightarrow> Some (True, c, b)
            | (Some names, b) \<Rightarrow> (case configureCommandInputs D names c b of (c, b) \<Rightarrow> Some (True, c, b)))
         else if nodeIsScalarString key ''outputs'' then
           (case parseNodeNames ''outputs'' val b of
              (None, b) \<Rightarrow> Some (True, c, b)
            | (Some names, b) \<Rightarrow> (case configureCommandOutputs D name names c b of (c, b) \<Rightarrow> Some (True, c, b)))
         else if nodeIsScalarString key ''description'' then
           (case scalar val of
              None \<Rightarrow> Some (True, c, emit_b (LoaderError (''invalid value type for '' @ quoted ''description'' @ '' command key'')) b)
            | Some s \<Rightarrow> Some (True, d_configureDescription D s c, b))
         else if nodeIsScalarString key ''env-base'' then
           (case scalar val of
              None \<Rightarrow> Some (True, c, emit_b (LoaderError (''invalid value type for '' @ quoted ''env-base'' @ '' command key'')) b)
            | Some baseName \<Rightarrow>
                (case lookupEnvironmentBase baseName b of
                   None \<Rightarrow> Some (True, c, emit_b (LoaderError (''unknown environment base '' @ quoted baseName)) b)
                 | Some base \<Rightarrow>
                     (case d_configureEnvironmentBase D base c of
                        None \<Rightarrow> Some (False, c, emit_b (LoaderError (quoted ''env-base'' @ '' is not supported by this command'')) b)
                      | Some c' \<Rightarrow> Some (True, c', b))))
         else
           (case scalar key of
              None \<Rightarrow> Some (True, c, emit_b (LoaderError (''invalid key type in '' @ quoted ''commands'' @ '' map'')) b)
            | Some attribute \<Rightarrow>
                (case attributeValue ''command'' ''commands'' attribute val b of
                   (None, b) \<Rightarrow> Some (True, c, b)
                 | (Some v, b) \<Rightarrow> do {
                     (errors, r) \<leftarrow> d_commandAttribute D attribute v c;
                     Some (case r of
                       None \<Rightarrow> (False, c, report errors b)
                     | Some c' \<Rightarrow> (True, c', report errors b)) })))"

fun parseCommandAttributes ::
  "('t, 'c) BuildFileDelegate \<Rightarrow> string \<Rightarrow> (Yaml \<times> Yaml) list \<Rightarrow> 'c \<Rightarrow> ('t, 'c) builder
   \<Rightarrow> (bool \<times> 'c \<times> ('t, 'c) builder) option" where
  "parseCommandAttributes D name [] c b = Some (True, c, b)"
| "parseCommandAttributes D name (entry # entries) c b = do {
     (good, c', b') \<leftarrow> parseCommandAttribute D name entry c b;
     if good then parseCommandAttributes D name entries c' b' else Some (False, c', b') }"

definition parseCommandBody ::
  "('t, 'c) BuildFileDelegate \<Rightarrow> string \<Rightarrow> string \<Rightarrow> (Yaml \<times> Yaml) list \<Rightarrow> ('t, 'c) parse" where
  "parseCommandBody D name toolName attrs b =
     (case getTool D toolName b of
        (None, b) \<Rightarrow> Some (False, b)
      | (Some tool, b) \<Rightarrow>
          (case d_createCommand D name tool of
             None \<Rightarrow> fatal ''tool failed to create a command'' b
           | Some c \<Rightarrow> do {
               (good, c', b') \<leftarrow> parseCommandAttributes D name attrs c b;
               if good then ok (addCommand_b name c' b') else Some (False, b') }))"

definition parseCommand :: "('t, 'c) BuildFileDelegate \<Rightarrow> Yaml \<times> Yaml \<Rightarrow> ('t, 'c) parse" where
  "parseCommand D entry b =
     (case (scalar (fst entry), snd entry) of
        (None, _) \<Rightarrow> load_error (''invalid key type in '' @ quoted ''commands'' @ '' map'') b
      | (Some name, NK_Mapping attrs) \<Rightarrow>
          if hasCommand name b then load_error (''duplicate command in '' @ quoted ''commands'' @ '' map'') b
          else (case attrs of
                  [] \<Rightarrow> load_error (''missing '' @ quoted ''tool'' @ '' key for command in '' @ quoted ''command'' @ '' map'') b
                | (key, val) # rest \<Rightarrow>
                    if \<not> nodeIsScalarString key ''tool''
                    then load_error (''expected '' @ quoted ''tool'' @ '' initial key for command in '' @ quoted ''commands'' @ '' map'') b
                    else (case scalar val of
                            None \<Rightarrow> load_error (''invalid '' @ quoted ''tool'' @ '' value type for command in '' @ quoted ''commands'' @ '' map'') b
                          | Some toolName \<Rightarrow> parseCommandBody D name toolName rest b))
      | _ \<Rightarrow> load_error (''invalid value type in '' @ quoted ''commands'' @ '' map'') b)"

definition parseCommandsMapping :: "('t, 'c) BuildFileDelegate \<Rightarrow> (Yaml \<times> Yaml) list \<Rightarrow> ('t, 'c) parse" where
  "parseCommandsMapping D = forEach (parseCommand D)"

section \<open>The document\<close>

text \<open>An optional section with the given key at the head of the remaining entries.\<close>

definition parseSection ::
  "string \<Rightarrow> ((Yaml \<times> Yaml) list \<Rightarrow> ('t, 'c) parse) \<Rightarrow> ((Yaml \<times> Yaml) list \<Rightarrow> ('t, 'c) parse)
   \<Rightarrow> (Yaml \<times> Yaml) list \<Rightarrow> ('t, 'c) parse" where
  "parseSection name p continue entries =
     (case entries of
        [] \<Rightarrow> continue entries
      | (key, val) # rest \<Rightarrow>
          if nodeIsScalarString key name then
            (case val of
               NK_Mapping m \<Rightarrow> andThen (p m) (continue rest)
             | _ \<Rightarrow> fatal (''unexpected '' @ quoted name @ '' value (expected map)''))
          else continue entries)"

definition parseDefaultSection ::
  "((Yaml \<times> Yaml) list \<Rightarrow> ('t, 'c) parse) \<Rightarrow> (Yaml \<times> Yaml) list \<Rightarrow> ('t, 'c) parse" where
  "parseDefaultSection continue entries =
     (case entries of
        [] \<Rightarrow> continue entries
      | (key, val) # rest \<Rightarrow>
          if nodeIsScalarString key ''default'' then
            (case scalar val of
               Some target \<Rightarrow> andThen (parseDefaultTarget target) (continue rest)
             | None \<Rightarrow> fatal (''unexpected '' @ quoted ''default'' @ '' target value (expected scalar)''))
          else continue entries)"

definition parseEnd :: "(Yaml \<times> Yaml) list \<Rightarrow> ('t, 'c) parse" where
  "parseEnd entries = (if entries = [] then ok else fatal ''unexpected trailing top-level section'')"

definition parseSections ::
  "('t, 'c) BuildFileDelegate \<Rightarrow> (Yaml \<times> Yaml) list \<Rightarrow> ('t, 'c) parse" where
  "parseSections D =
     parseSection ''tools'' (parseToolsMapping D)
       (parseSection ''targets'' (parseTargetsMapping D)
         (parseDefaultSection
           (parseSection ''nodes'' (parseNodesMapping D)
             (parseSection ''env-bases'' parseEnvironmentBasesMapping
               (parseSection ''commands'' (parseCommandsMapping D) parseEnd)))))"

text \<open>An empty top-level mapping makes the code dereference its end iterator.\<close>

definition parseRootNode :: "('t, 'c) BuildFileDelegate \<Rightarrow> Yaml \<Rightarrow> ('t, 'c) parse" where
  "parseRootNode D node =
     (case node of
        NK_Mapping [] \<Rightarrow> (\<lambda>b. None)
      | NK_Mapping ((key, val) # rest) \<Rightarrow>
          if \<not> nodeIsScalarString key ''client''
          then fatal (''expected initial mapping key '' @ quoted ''client'')
          else (case val of
                  NK_Mapping m \<Rightarrow> andThen (parseClientMapping D m) (parseSections D rest)
                | _ \<Rightarrow> fatal (''unexpected '' @ quoted ''client'' @ '' value (expected map)''))
      | _ \<Rightarrow> fatal ''unexpected top-level node'')"

text \<open>
  \<^verbatim>\<open>load\<close>: \<open>input\<close> is \<^term>\<open>None\<close> when the file cannot be read, else the documents of the stream, each
  with its root if it has one. The result is the description, if any, and the calls made.
\<close>

definition load ::
  "('t, 'c) BuildFileDelegate \<Rightarrow> string \<Rightarrow> Yaml option list option
   \<Rightarrow> (('t, 'c) description option \<times> loader_event list) option" where
  "load D mainFilename input =
     (case input of
        None \<Rightarrow> Some (None, [LoaderError (''unable to open '' @ quoted mainFilename)])
      | Some [] \<Rightarrow> Some (None, [LoaderError ''missing document in stream''])
      | Some (None # documents) \<Rightarrow> Some (None, [LoaderError ''missing document in stream''])
      | Some (Some root # documents) \<Rightarrow>
          (case parseRootNode D root newBuilder of
             None \<Rightarrow> None
           | Some (False, b) \<Rightarrow> Some (None, b_log b)
           | Some (True, b) \<Rightarrow>
               if documents \<noteq> []
               then Some (None, b_log b @ [LoaderError ''unexpected additional document in stream''])
               else Some (finalize D b)))"

end
