(* ===== verification/BuildFileProps.thy ===== *)
theory BuildFileProps
  imports BuildFile
begin

text \<open>
  What a loaded build description satisfies. The laws the loader needs of tools, commands and
  nodes are the locale \<open>build_file_delegate\<close>; in it every parsing function and the ownership
  analysis are shown to keep the invariant \<open>builder_wf\<close>: names of nodes, targets and commands
  refer to existing objects, and the outputs of commands and the producers of nodes agree.
\<close>

section \<open>The invariant\<close>

definition links_wf ::
  "('t, 'c) BuildFileDelegate \<Rightarrow> (string \<rightharpoonup> BuildNode) \<Rightarrow> (string \<rightharpoonup> 'c) \<Rightarrow> bool" where
  "links_wf D N C \<longleftrightarrow>
     (\<forall>n node. N n = Some node \<longrightarrow> node_name node = n \<and> set (node_producers node) \<subseteq> dom C)
     \<and> (\<forall>n c. C n = Some c \<longrightarrow> set (d_getInputs D c) \<subseteq> dom N
          \<and> (\<forall>out \<in> set (d_getOutputs D c). \<exists>node. N out = Some node \<and> n \<in> set (node_producers node)))"

definition targets_wf :: "(string \<rightharpoonup> BuildNode) \<Rightarrow> (string \<rightharpoonup> string list) \<Rightarrow> string \<Rightarrow> bool" where
  "targets_wf N T target \<longleftrightarrow>
     (\<forall>t ns. T t = Some ns \<longrightarrow> set ns \<subseteq> dom N) \<and> (target \<noteq> [] \<longrightarrow> target \<in> dom T)"

text \<open>The invariant of a builder whose commands, with one under construction, are \<open>C\<close>.\<close>

definition builder_ok :: "('t, 'c) BuildFileDelegate \<Rightarrow> (string \<rightharpoonup> 'c) \<Rightarrow> ('t, 'c) builder \<Rightarrow> bool" where
  "builder_ok D C b \<longleftrightarrow>
     links_wf D (map_of (b_nodes b)) C
     \<and> targets_wf (map_of (b_nodes b)) (map_of (b_targets b)) (b_defaultTarget b)
     \<and> distinct (map fst (b_nodes b)) \<and> distinct (map fst (b_targets b)) \<and> distinct (map fst (b_commands b))"

definition builder_wf :: "('t, 'c) BuildFileDelegate \<Rightarrow> ('t, 'c) builder \<Rightarrow> bool" where
  "builder_wf D b \<longleftrightarrow> builder_ok D (map_of (b_commands b)) b"

text \<open>The same of a description, in executable form.\<close>

definition description_wf :: "('t, 'c) BuildFileDelegate \<Rightarrow> ('t, 'c) description \<Rightarrow> bool" where
  "description_wf D ds \<longleftrightarrow>
     (ds_defaultTarget ds = [] \<or> ds_defaultTarget ds \<in> fst ` set (ds_targets ds))
     \<and> (\<forall>(t, ns) \<in> set (ds_targets ds). set ns \<subseteq> fst ` set (ds_nodes ds))
     \<and> (\<forall>(n, node) \<in> set (ds_nodes ds). node_name node = n \<and> set (node_producers node) \<subseteq> fst ` set (ds_commands ds))
     \<and> (\<forall>(n, c) \<in> set (ds_commands ds). set (d_getInputs D c) \<subseteq> fst ` set (ds_nodes ds)
          \<and> (\<forall>out \<in> set (d_getOutputs D c). \<exists>(m, node) \<in> set (ds_nodes ds). m = out \<and> n \<in> set (node_producers node)))
     \<and> distinct (map fst (ds_nodes ds)) \<and> distinct (map fst (ds_targets ds)) \<and> distinct (map fst (ds_commands ds))"

lemma builder_ok_log [simp]: "builder_ok D C (b\<lparr>b_log := l\<rparr>) = builder_ok D C b"
  by (simp add: builder_ok_def)

lemma builder_wf_log [simp]: "builder_wf D (b\<lparr>b_log := l\<rparr>) = builder_wf D b"
  by (simp add: builder_wf_def)

lemma builder_ok_misc [simp]:
  "builder_ok D C (b\<lparr>b_tools := x\<rparr>) = builder_ok D C b"
  "builder_ok D C (b\<lparr>b_environmentBases := y\<rparr>) = builder_ok D C b"
  "builder_ok D C (b\<lparr>b_performOwnershipAnalysis := z\<rparr>) = builder_ok D C b"
  by (simp_all add: builder_ok_def)

lemma builder_wf_misc [simp]:
  "builder_wf D (b\<lparr>b_tools := x\<rparr>) = builder_wf D b"
  "builder_wf D (b\<lparr>b_environmentBases := y\<rparr>) = builder_wf D b"
  "builder_wf D (b\<lparr>b_performOwnershipAnalysis := z\<rparr>) = builder_wf D b"
  by (simp_all add: builder_wf_def)

lemma builder_wf_new: "builder_wf D newBuilder"
  by (simp add: builder_wf_def builder_ok_def newBuilder_def links_wf_def targets_wf_def)

section \<open>Nodes and commands in the maps\<close>

lemma links_wf_new_node:
  assumes "links_wf D N C" and "N n = None" and "node_name x = n" and "node_producers x = []"
  shows "links_wf D (N(n \<mapsto> x)) C"
proof -
  have "\<exists>node. (N(n \<mapsto> x)) out = Some node \<and> m \<in> set (node_producers node)"
    if "C m = Some c" and "out \<in> set (d_getOutputs D c)" for m c out
    using assms(1,2) that unfolding links_wf_def by fastforce
  moreover have "set (d_getInputs D c) \<subseteq> dom (N(n \<mapsto> x))" if "C m = Some c" for m c
    using assms(1) that unfolding links_wf_def by fastforce
  moreover have "node_name node = m \<and> set (node_producers node) \<subseteq> dom C" if "(N(n \<mapsto> x)) m = Some node" for m node
    using assms that unfolding links_wf_def by (auto split: if_splits)
  ultimately show ?thesis
    unfolding links_wf_def by blast
qed

lemma links_wf_update_node:
  assumes "links_wf D N C" and "N n = Some x" and "node_name y = n"
    and "set (node_producers x) \<subseteq> set (node_producers y)" and "set (node_producers y) \<subseteq> dom C"
  shows "links_wf D (N(n \<mapsto> y)) C"
proof -
  have "dom (N(n \<mapsto> y)) = dom N" using assms(2) by auto
  moreover have "\<exists>node. (N(n \<mapsto> y)) out = Some node \<and> m \<in> set (node_producers node)"
    if "C m = Some c" and "out \<in> set (d_getOutputs D c)" for m c out
    using assms(1,2,4) that unfolding links_wf_def by fastforce
  ultimately show ?thesis
    using assms unfolding links_wf_def by auto
qed

lemma links_wf_command:
  assumes "links_wf D N C" and "set (d_getInputs D c) \<subseteq> dom N"
    and "\<And>out. out \<in> set (d_getOutputs D c) \<Longrightarrow> \<exists>node. N out = Some node \<and> name \<in> set (node_producers node)"
  shows "links_wf D N (C(name \<mapsto> c))"
  using assms unfolding links_wf_def by (auto simp: subset_iff)

lemma targets_wf_mono:
  assumes "targets_wf N T target" and "dom N \<subseteq> dom N'"
  shows "targets_wf N' T target"
  using assms unfolding targets_wf_def by blast

lemma node_attribute_keeps:
  assumes "node_attribute name v node = Some (Inr node')"
  shows "node_name node' = node_name node \<and> node_producers node' = node_producers node"
  using assms
  by (cases v)
     (auto simp: configureNode_def configureNode_values_def configureNode_pairs_def configure_bool_def
        configured_def invalid_value_def unexpected_attribute_def demote_type_def bind_eq_Some_conv split: if_splits)

section \<open>Sequences of parsing steps\<close>

text \<open>A step that keeps \<open>P\<close> whenever it lets the load go on.\<close>

definition preserves :: "(('t, 'c) builder \<Rightarrow> bool) \<Rightarrow> ('t, 'c) parse \<Rightarrow> bool" where
  "preserves P p \<longleftrightarrow> (\<forall>b b'. P b \<longrightarrow> p b = Some (True, b') \<longrightarrow> P b')"

lemma preserves_ok [intro]: "preserves P ok"
  by (simp add: preserves_def ok_def)

lemma preserves_fatal [intro]: "preserves P (fatal m)"
  by (simp add: preserves_def fatal_def)

lemma preserves_andThen [intro]:
  assumes "preserves P p" and "preserves P r"
  shows "preserves P (andThen p r)"
  unfolding preserves_def
proof (intro allI impI)
  fix b b'
  assume "P b" and *: "andThen p r b = Some (True, b')"
  obtain b1 where "p b = Some (True, b1)" and "r b1 = Some (True, b')"
    using * by (auto simp: andThen_def split: option.splits prod.splits bool.splits)
  then show "P b'" using assms \<open>P b\<close> unfolding preserves_def by blast
qed

lemma preserves_forEach:
  assumes "\<And>x. preserves P (p x)"
  shows "preserves P (forEach p xs)"
  using assms by (induction xs) auto

lemma preserves_section:
  assumes "\<And>m. preserves P (p m)" and "\<And>es. preserves P (continue es)"
  shows "preserves P (parseSection name p continue entries)"
  using assms by (auto simp: parseSection_def split: list.splits prod.splits Yaml.splits)

lemma preserves_default:
  assumes "\<And>t. preserves P (parseDefaultTarget t)" and "\<And>es. preserves P (continue es)"
  shows "preserves P (parseDefaultSection continue entries)"
  using assms by (auto simp: parseDefaultSection_def split: list.splits prod.splits option.splits)

section \<open>Collecting values only writes to the log\<close>

lemma emit_b_log: "emit_b ev b = b\<lparr>b_log := b_log b @ [ev]\<rparr>"
  by (simp add: emit_b_def)

lemma collectScalars_log: "\<exists>l. snd (collectScalars msg nodes b) = b\<lparr>b_log := l\<rparr>"
proof (induction nodes arbitrary: b)
  case Nil
  show ?case by (auto intro: exI [of _ "b_log b"])
next
  case (Cons node nodes)
  show ?case
    using Cons.IH [of b] Cons.IH [of "emit_b (LoaderError msg) b"]
    by (auto simp: emit_b_def split: option.split prod.split)
qed

lemma collectPairs_log: "\<exists>l. snd (collectPairs km vm entries b) = b\<lparr>b_log := l\<rparr>"
proof (induction entries arbitrary: b)
  case Nil
  show ?case by (auto intro: exI [of _ "b_log b"])
next
  case (Cons entry entries)
  obtain k v where "entry = (k, v)" by (cases entry)
  then show ?case
    using Cons.IH [of b] Cons.IH [of "emit_b (LoaderError km) b"] Cons.IH [of "emit_b (LoaderError vm) b"]
    by (auto simp: emit_b_def split: option.split prod.split)
qed

lemma attributeValue_log: "\<exists>l. snd (attributeValue kind sec attribute val b) = b\<lparr>b_log := l\<rparr>"
  using collectScalars_log collectPairs_log
  by (cases val) (auto simp: attributeValue_def Let_def emit_b_def split_beta intro: exI [of _ "b_log b"])

lemma parseNodeNames_log: "\<exists>l. snd (parseNodeNames what val b) = b\<lparr>b_log := l\<rparr>"
  using collectScalars_log
  by (cases val) (auto simp: parseNodeNames_def emit_b_def split_beta)

lemma log_result:
  assumes "\<exists>l. snd p = b\<lparr>b_log := l\<rparr>" and "p = (x, b')"
  shows "\<exists>l. b' = b\<lparr>b_log := l\<rparr>"
  using assms by simp

lemmas log_only = parseNodeNames_log collectScalars_log collectPairs_log attributeValue_log

section \<open>The laws of the delegate\<close>

locale build_file_delegate =
  fixes D :: "('t, 'c) BuildFileDelegate"
  assumes createNode_name: "node_name (d_createNode D n i) = n"
    and createNode_producers: "node_producers (d_createNode D n i) = []"
    and new_command: "d_createCommand D n t = Some c \<Longrightarrow> d_getInputs D c = [] \<and> d_getOutputs D c = []"
    and description_nodes:
      "d_getInputs D (d_configureDescription D s c) = d_getInputs D c"
      "d_getOutputs D (d_configureDescription D s c) = d_getOutputs D c"
    and inputs_nodes:
      "set (d_getInputs D (snd (d_configureInputs D ns c))) \<subseteq> set (d_getInputs D c) \<union> node_name ` set ns"
      "d_getOutputs D (snd (d_configureInputs D ns c)) = d_getOutputs D c"
    and outputs_nodes:
      "d_getInputs D (snd (d_configureOutputs D ns c)) = d_getInputs D c"
      "set (d_getOutputs D (snd (d_configureOutputs D ns c))) \<subseteq> set (d_getOutputs D c) \<union> node_name ` set ns"
    and environment_nodes: "d_configureEnvironmentBase D bs c = Some c'
      \<Longrightarrow> d_getInputs D c' = d_getInputs D c \<and> d_getOutputs D c' = d_getOutputs D c"
    and attribute_nodes: "d_commandAttribute D a v c = Some (es, Some c')
      \<Longrightarrow> d_getInputs D c' = d_getInputs D c \<and> d_getOutputs D c' = d_getOutputs D c"
    and addOutput_nodes: "d_repairViaOwnershipAnalysis D c
      \<Longrightarrow> d_getInputs D (d_addOutput D node c) = d_getInputs D c
        \<and> d_getOutputs D (d_addOutput D node c) = d_getOutputs D c @ [node_name node]"
begin

lemma getOrCreateNode_ok:
  assumes "builder_ok D C b"
  shows "builder_ok D C (getOrCreateNode D n i b)"
proof (cases "map_of (b_nodes b) n")
  case None
  have "links_wf D ((map_of (b_nodes b))(n \<mapsto> d_createNode D n i)) C"
    using assms None by (intro links_wf_new_node) (simp_all add: builder_ok_def createNode_name createNode_producers)
  moreover have "targets_wf ((map_of (b_nodes b))(n \<mapsto> d_createNode D n i)) (map_of (b_targets b)) (b_defaultTarget b)"
    using assms by (auto simp: builder_ok_def intro: targets_wf_mono)
  ultimately show ?thesis
    using assms None by (simp add: getOrCreateNode_def builder_ok_def update_conv' distinct_update)
qed (use assms in \<open>simp add: getOrCreateNode_def\<close>)

lemma getOrCreateNode_frame:
  "b_commands (getOrCreateNode D n i b) = b_commands b"
  "b_targets (getOrCreateNode D n i b) = b_targets b"
  "map_of (b_nodes b) \<subseteq>\<^sub>m map_of (b_nodes (getOrCreateNode D n i b))"
  "n \<in> dom (map_of (b_nodes (getOrCreateNode D n i b)))"
  by (auto simp: getOrCreateNode_def update_conv' map_le_def split: option.split)

lemma getOrCreateNodes_ok:
  assumes "builder_ok D C b"
  shows "builder_ok D C (getOrCreateNodes D ns b)
    \<and> b_commands (getOrCreateNodes D ns b) = b_commands b
    \<and> b_targets (getOrCreateNodes D ns b) = b_targets b
    \<and> map_of (b_nodes b) \<subseteq>\<^sub>m map_of (b_nodes (getOrCreateNodes D ns b))
    \<and> set ns \<subseteq> dom (map_of (b_nodes (getOrCreateNodes D ns b)))"
  using assms
proof (induction ns arbitrary: b)
  case Nil
  then show ?case by (simp add: getOrCreateNodes_def)
next
  case (Cons n ns)
  let ?b = "getOrCreateNode D n True b"
  have eq: "getOrCreateNodes D (n # ns) b = getOrCreateNodes D ns ?b"
    by (simp add: getOrCreateNodes_def)
  note IH = Cons.IH [OF getOrCreateNode_ok [OF Cons.prems], of n True]
  have "map_of (b_nodes b) \<subseteq>\<^sub>m map_of (b_nodes (getOrCreateNodes D ns ?b))"
    using IH getOrCreateNode_frame(3) map_le_trans by blast
  moreover have "n \<in> dom (map_of (b_nodes (getOrCreateNodes D ns ?b)))"
    using IH getOrCreateNode_frame(4) map_le_implies_dom_le by blast
  ultimately show ?case
    using IH by (simp add: eq getOrCreateNode_frame)
qed

lemma addTarget_wf:
  assumes "builder_wf D b"
  shows "builder_wf D (addTarget D t ns b)"
  using getOrCreateNodes_ok [of "map_of (b_commands b)" b ns] assms
  by (auto simp: addTarget_def builder_wf_def builder_ok_def emit_b_def Let_def update_conv' distinct_update
      targets_wf_def)

lemma addProducer_ok:
  assumes "builder_ok D C b" and "n \<in> dom C"
  shows "builder_ok D C (addProducer n m b)"
proof (cases "map_of (b_nodes b) m")
  case None
  then show ?thesis using assms by (simp add: addProducer_def)
next
  case (Some node)
  let ?node = "node\<lparr>node_producers := node_producers node @ [n]\<rparr>"
  have "node_name node = m \<and> set (node_producers node) \<subseteq> dom C"
    using assms Some by (auto simp: builder_ok_def links_wf_def)
  then have "links_wf D ((map_of (b_nodes b))(m \<mapsto> ?node)) C"
    using assms Some by (intro links_wf_update_node [where x = node]) (auto simp: builder_ok_def)
  moreover have "targets_wf ((map_of (b_nodes b))(m \<mapsto> ?node)) (map_of (b_targets b)) (b_defaultTarget b)"
    using assms by (auto simp: builder_ok_def intro: targets_wf_mono)
  ultimately show ?thesis
    using assms Some by (simp add: addProducer_def builder_ok_def update_conv' distinct_update)
qed

lemma addProducer_frame:
  "b_commands (addProducer n m b) = b_commands b"
  "dom (map_of (b_nodes (addProducer n m b))) = dom (map_of (b_nodes b))"
  by (auto simp: addProducer_def update_conv' split: option.split)

lemma addProducer_producers:
  assumes "map_of (b_nodes b) k = Some node"
  shows "\<exists>node'. map_of (b_nodes (addProducer n m b)) k = Some node'
    \<and> set (node_producers node) \<subseteq> set (node_producers node') \<and> (k = m \<longrightarrow> n \<in> set (node_producers node'))"
  using assms by (auto simp: addProducer_def update_conv' split: option.split)

lemma addProducers_ok:
  assumes "builder_ok D C b" and "n \<in> dom C" and "set ms \<subseteq> dom (map_of (b_nodes b))"
  shows "builder_ok D C (fold (addProducer n) ms b)
    \<and> b_commands (fold (addProducer n) ms b) = b_commands b
    \<and> dom (map_of (b_nodes (fold (addProducer n) ms b))) = dom (map_of (b_nodes b))
    \<and> (\<forall>k node. map_of (b_nodes b) k = Some node \<longrightarrow>
        (\<exists>node'. map_of (b_nodes (fold (addProducer n) ms b)) k = Some node'
          \<and> set (node_producers node) \<subseteq> set (node_producers node') \<and> (k \<in> set ms \<longrightarrow> n \<in> set (node_producers node'))))"
  using assms
proof (induction ms arbitrary: b)
  case Nil
  then show ?case by auto
next
  case (Cons m ms)
  let ?b = "addProducer n m b"
  have IH: "builder_ok D C (fold (addProducer n) ms ?b)
    \<and> b_commands (fold (addProducer n) ms ?b) = b_commands ?b
    \<and> dom (map_of (b_nodes (fold (addProducer n) ms ?b))) = dom (map_of (b_nodes ?b))
    \<and> (\<forall>k node. map_of (b_nodes ?b) k = Some node \<longrightarrow>
        (\<exists>node'. map_of (b_nodes (fold (addProducer n) ms ?b)) k = Some node'
          \<and> set (node_producers node) \<subseteq> set (node_producers node') \<and> (k \<in> set ms \<longrightarrow> n \<in> set (node_producers node'))))"
    using Cons.prems by (intro Cons.IH addProducer_ok) (simp_all add: addProducer_frame)
  have "\<exists>node'. map_of (b_nodes (fold (addProducer n) ms ?b)) k = Some node'
      \<and> set (node_producers node) \<subseteq> set (node_producers node') \<and> (k \<in> set (m # ms) \<longrightarrow> n \<in> set (node_producers node'))"
    if "map_of (b_nodes b) k = Some node" for k node
    using addProducer_producers [OF that, of n m] IH by fastforce
  then show ?case
    using IH by (auto simp: addProducer_frame)
qed

lemma nodeNamed_names:
  assumes "builder_ok D C b" and "set ns \<subseteq> dom (map_of (b_nodes b))"
  shows "node_name ` set (map (nodeNamed b) ns) = set ns"
proof -
  have "node_name (nodeNamed b n) = n" if "n \<in> set ns" for n
    using assms that by (auto simp: nodeNamed_def builder_ok_def links_wf_def split: option.split)
  then show ?thesis by (simp add: image_image)
qed

text \<open>A command under construction beside the builder.\<close>

lemma builder_ok_command:
  assumes "builder_ok D (C(name \<mapsto> c)) b"
    and "set (d_getInputs D c') \<subseteq> dom (map_of (b_nodes b))"
    and "\<And>out. out \<in> set (d_getOutputs D c') \<Longrightarrow>
      \<exists>node. map_of (b_nodes b) out = Some node \<and> name \<in> set (node_producers node)"
  shows "builder_ok D (C(name \<mapsto> c')) b"
  using assms links_wf_command [of D "map_of (b_nodes b)" "C(name \<mapsto> c)" c' name]
  by (simp add: builder_ok_def)

lemma builder_ok_commandD:
  assumes "builder_ok D (C(name \<mapsto> c)) b"
  shows "set (d_getInputs D c) \<subseteq> dom (map_of (b_nodes b))"
    and "out \<in> set (d_getOutputs D c) \<Longrightarrow>
      \<exists>node. map_of (b_nodes b) out = Some node \<and> name \<in> set (node_producers node)"
  using assms unfolding builder_ok_def links_wf_def by (metis fun_upd_same)+

lemma builder_ok_same_nodes:
  assumes "builder_ok D (C(name \<mapsto> c)) b"
    and "d_getInputs D c' = d_getInputs D c \<and> d_getOutputs D c' = d_getOutputs D c"
  shows "builder_ok D (C(name \<mapsto> c')) b"
  using assms builder_ok_command [OF assms(1), of c'] builder_ok_commandD [OF assms(1)] by simp

lemma configureCommandInputs_ok:
  assumes "builder_ok D (C(name \<mapsto> c)) b" and "configureCommandInputs D ns c b = (c', b')"
  shows "builder_ok D (C(name \<mapsto> c')) b' \<and> b_commands b' = b_commands b"
proof -
  let ?b = "getOrCreateNodes D ns b"
  have c': "c' = snd (d_configureInputs D (map (nodeNamed ?b) ns) c)"
    and b': "\<exists>l. b' = ?b\<lparr>b_log := l\<rparr>"
    using assms(2) by (auto simp: configureCommandInputs_def Let_def report_def split_beta)
  note ok = getOrCreateNodes_ok [OF assms(1), of ns]
  then have okb: "builder_ok D (C(name \<mapsto> c)) ?b" by simp
  have "set (d_getInputs D c') \<subseteq> set (d_getInputs D c) \<union> set ns"
    using inputs_nodes(1) [of "map (nodeNamed ?b) ns" c] nodeNamed_names [of "C(name \<mapsto> c)" ?b ns] ok c' by simp
  then have "set (d_getInputs D c') \<subseteq> dom (map_of (b_nodes ?b))"
    using builder_ok_commandD(1) [OF okb] ok by blast
  moreover have "d_getOutputs D c' = d_getOutputs D c"
    using c' inputs_nodes(2) by simp
  ultimately have "builder_ok D (C(name \<mapsto> c')) ?b"
    using builder_ok_command [OF okb, of c'] builder_ok_commandD(2) [OF okb] by simp
  then show ?thesis
    using b' ok by auto
qed

lemma configureCommandOutputs_ok:
  assumes "builder_ok D (C(name \<mapsto> c)) b" and "configureCommandOutputs D name ns c b = (c', b')"
  shows "builder_ok D (C(name \<mapsto> c')) b' \<and> b_commands b' = b_commands b"
proof -
  let ?b1 = "getOrCreateNodes D ns b"
  let ?b = "fold (addProducer name) ns ?b1"
  have c': "c' = snd (d_configureOutputs D (map (nodeNamed ?b) ns) c)"
    and b': "\<exists>l. b' = ?b\<lparr>b_log := l\<rparr>"
    using assms(2) by (auto simp: configureCommandOutputs_def Let_def report_def split_beta)
  note ok1 = getOrCreateNodes_ok [OF assms(1), of ns]
  then have ok: "builder_ok D (C(name \<mapsto> c)) ?b \<and> b_commands ?b = b_commands ?b1
    \<and> dom (map_of (b_nodes ?b)) = dom (map_of (b_nodes ?b1))
    \<and> (\<forall>k node. map_of (b_nodes ?b1) k = Some node \<longrightarrow>
        (\<exists>node'. map_of (b_nodes ?b) k = Some node'
          \<and> set (node_producers node) \<subseteq> set (node_producers node') \<and> (k \<in> set ns \<longrightarrow> name \<in> set (node_producers node'))))"
    by (intro addProducers_ok) auto
  have new: "\<exists>node. map_of (b_nodes ?b) out = Some node \<and> name \<in> set (node_producers node)" if "out \<in> set ns" for out
  proof -
    have "out \<in> dom (map_of (b_nodes ?b1))" using ok1 that by blast
    then obtain node where "map_of (b_nodes ?b1) out = Some node" by blast
    then show ?thesis using ok that by blast
  qed
  have okb: "builder_ok D (C(name \<mapsto> c)) ?b" using ok by simp
  have "set (d_getOutputs D c') \<subseteq> set (d_getOutputs D c) \<union> set ns"
    using outputs_nodes(2) [of "map (nodeNamed ?b) ns" c] nodeNamed_names [of "C(name \<mapsto> c)" ?b ns] ok ok1 c' by simp
  then have outs: "\<exists>node. map_of (b_nodes ?b) out = Some node \<and> name \<in> set (node_producers node)"
    if "out \<in> set (d_getOutputs D c')" for out
    using that new builder_ok_commandD(2) [OF okb] by blast
  have "set (d_getInputs D c') \<subseteq> dom (map_of (b_nodes ?b))"
    using builder_ok_commandD(1) [OF okb] c' outputs_nodes(1) by simp
  then have "builder_ok D (C(name \<mapsto> c')) ?b"
    using builder_ok_command [OF okb] outs by blast
  then show ?thesis
    using b' ok ok1 by auto
qed

lemma parseCommandAttribute_ok:
  assumes "builder_ok D (C(name \<mapsto> c)) b" and "parseCommandAttribute D name entry c b = Some (True, c', b')"
  shows "builder_ok D (C(name \<mapsto> c')) b' \<and> b_commands b' = b_commands b"
proof -
  consider (inputs) "nodeIsScalarString (fst entry) ''inputs''"
    | (outputs) "\<not> nodeIsScalarString (fst entry) ''inputs''" "nodeIsScalarString (fst entry) ''outputs''"
    | (descr) "\<not> nodeIsScalarString (fst entry) ''inputs''" "\<not> nodeIsScalarString (fst entry) ''outputs''"
        "nodeIsScalarString (fst entry) ''description''"
    | (env) "\<not> nodeIsScalarString (fst entry) ''inputs''" "\<not> nodeIsScalarString (fst entry) ''outputs''"
        "\<not> nodeIsScalarString (fst entry) ''description''" "nodeIsScalarString (fst entry) ''env-base''"
    | (other) "\<not> nodeIsScalarString (fst entry) ''inputs''" "\<not> nodeIsScalarString (fst entry) ''outputs''"
        "\<not> nodeIsScalarString (fst entry) ''description''" "\<not> nodeIsScalarString (fst entry) ''env-base''"
    by blast
  then show ?thesis
  proof cases
    case inputs
    obtain r b1 where p: "parseNodeNames ''inputs'' (snd entry) b = (r, b1)" by fastforce
    then obtain l where b1: "b1 = b\<lparr>b_log := l\<rparr>" using log_result [OF parseNodeNames_log] by blast
    show ?thesis
    proof (cases r)
      case None
      then show ?thesis using assms inputs p b1 by (auto simp: parseCommandAttribute_def)
    next
      case (Some ns)
      then have "configureCommandInputs D ns c b1 = (c', b')"
        using assms(2) inputs p by (simp add: parseCommandAttribute_def split: prod.splits)
      then show ?thesis
        using configureCommandInputs_ok [of C name c b1 ns c' b'] assms(1) b1 by simp
    qed
  next
    case outputs
    obtain r b1 where p: "parseNodeNames ''outputs'' (snd entry) b = (r, b1)" by fastforce
    then obtain l where b1: "b1 = b\<lparr>b_log := l\<rparr>" using log_result [OF parseNodeNames_log] by blast
    show ?thesis
    proof (cases r)
      case None
      then show ?thesis using assms outputs p b1 by (auto simp: parseCommandAttribute_def)
    next
      case (Some ns)
      then have "configureCommandOutputs D name ns c b1 = (c', b')"
        using assms(2) outputs p by (simp add: parseCommandAttribute_def split: prod.splits)
      then show ?thesis
        using configureCommandOutputs_ok [of C name c b1 ns c' b'] assms(1) b1 by simp
    qed
  next
    case descr
    then have "b' = b\<lparr>b_log := b_log b'\<rparr> \<and> (c' = c \<or> (\<exists>s. c' = d_configureDescription D s c))"
      using assms(2) by (auto simp: parseCommandAttribute_def emit_b_def split: option.splits)
    then show ?thesis
      using assms(1) builder_ok_same_nodes [OF assms(1)] description_nodes
      by (metis builder_ok_log builder.select_convs(6) builder.surjective builder.update_convs(8))
  next
    case env
    then have "(\<exists>l. b' = b\<lparr>b_log := l\<rparr>) \<and> (c' = c \<or> (\<exists>bs. d_configureEnvironmentBase D bs c = Some c'))"
      using assms(2) by (auto simp: parseCommandAttribute_def emit_b_def intro: exI [of _ "b_log b"] split: option.splits)
    then show ?thesis
      using assms(1) builder_ok_same_nodes [OF assms(1)] environment_nodes by auto
  next
    case other
    show ?thesis
    proof (cases "scalar (fst entry)")
      case None
      then show ?thesis using assms other by (auto simp: parseCommandAttribute_def emit_b_def)
    next
      case (Some attribute)
      obtain r b1 where p: "attributeValue ''command'' ''commands'' attribute (snd entry) b = (r, b1)" by fastforce
      then obtain l where b1: "b1 = b\<lparr>b_log := l\<rparr>" using log_result [OF attributeValue_log] by blast
      have "(\<exists>l. b' = b\<lparr>b_log := l\<rparr>) \<and> (c' = c \<or> (\<exists>a v es. d_commandAttribute D a v c = Some (es, Some c')))"
        using assms(2) other Some p b1
        by (auto simp: parseCommandAttribute_def report_def bind_eq_Some_conv split: option.splits)
      then show ?thesis
        using assms(1) builder_ok_same_nodes [OF assms(1)] attribute_nodes by auto
    qed
  qed
qed

lemma parseCommandAttributes_ok:
  assumes "builder_ok D (C(name \<mapsto> c)) b" and "parseCommandAttributes D name entries c b = Some (True, c', b')"
  shows "builder_ok D (C(name \<mapsto> c')) b' \<and> b_commands b' = b_commands b"
  using assms
proof (induction entries arbitrary: c b)
  case (Cons entry entries)
  then obtain c1 b1 where "parseCommandAttribute D name entry c b = Some (True, c1, b1)"
    and rest: "parseCommandAttributes D name entries c1 b1 = Some (True, c', b')"
    by (auto simp: bind_eq_Some_conv split: if_splits)
  then have "builder_ok D (C(name \<mapsto> c1)) b1 \<and> b_commands b1 = b_commands b"
    using parseCommandAttribute_ok Cons.prems(1) by blast
  then show ?case using Cons.IH [OF _ rest] by metis
qed simp

lemma getTool_frame:
  assumes "getTool D name b = (r, b1)"
  shows "builder_ok D C b1 = builder_ok D C b" and "b_commands b1 = b_commands b"
  using assms by (auto simp: getTool_def getOrCreateTool_def emit_b_def split: option.splits)

lemma addCommand_wf:
  assumes "builder_ok D ((map_of (b_commands b))(name \<mapsto> c)) b"
  shows "builder_wf D (addCommand_b name c b)"
  using assms
  by (simp add: builder_wf_def builder_ok_def addCommand_b_def emit_b_def update_conv' distinct_update)

lemma parseCommandBody_wf: "preserves (builder_wf D) (parseCommandBody D name toolName attrs)"
  unfolding preserves_def
proof (intro allI impI)
  fix b b'
  assume wf: "builder_wf D b" and run: "parseCommandBody D name toolName attrs b = Some (True, b')"
  obtain r b1 where tool: "getTool D toolName b = (r, b1)" by fastforce
  note b1 = getTool_frame [OF tool]
  obtain t c c' b2 where c: "d_createCommand D name t = Some c"
    and attrs: "parseCommandAttributes D name attrs c b1 = Some (True, c', b2)"
    and b': "b' = addCommand_b name c' b2"
    using run tool by (auto simp: parseCommandBody_def ok_def fatal_def bind_eq_Some_conv split: option.splits if_splits)
  have "links_wf D (map_of (b_nodes b)) ((map_of (b_commands b))(name \<mapsto> c))"
    using wf new_command [OF c] by (intro links_wf_command) (simp_all add: builder_wf_def builder_ok_def)
  then have "builder_ok D ((map_of (b_commands b))(name \<mapsto> c)) b"
    using wf by (simp add: builder_wf_def builder_ok_def)
  then have "builder_ok D ((map_of (b_commands b1))(name \<mapsto> c)) b1"
    unfolding b1 .
  then show "builder_wf D b'"
    using parseCommandAttributes_ok [OF _ attrs] addCommand_wf b' by metis
qed

lemma preserves_load_error: "preserves (builder_wf D) (load_error m)"
  by (simp add: preserves_def load_error_def emit_b_def)

lemma parseCommand_wf: "preserves (builder_wf D) (parseCommand D entry)"
  unfolding preserves_def
proof (intro allI impI)
  fix b b'
  assume "builder_wf D b" and "parseCommand D entry b = Some (True, b')"
  then show "builder_wf D b'"
    using parseCommandBody_wf
    by (auto simp: parseCommand_def load_error_def emit_b_def preserves_def
        split: option.splits if_splits list.splits Yaml.splits prod.splits)
qed

lemma parseTool_wf: "preserves (builder_wf D) (parseTool D entry)"
proof -
  have attribute: "preserves (builder_wf D) (parseToolAttribute D name x)" for name x
    unfolding preserves_def
  proof (intro allI impI)
    fix b b'
    assume wf: "builder_wf D b" and run: "parseToolAttribute D name x b = Some (True, b')"
    show "builder_wf D b'"
    proof (cases "scalar (fst x)")
      case None
      then show ?thesis using wf run by (auto simp: parseToolAttribute_def load_error_def emit_b_def)
    next
      case (Some a)
      obtain r b1 where p: "attributeValue ''tool'' ''tools'' a (snd x) b = (r, b1)" by fastforce
      then obtain l where "b1 = b\<lparr>b_log := l\<rparr>" using log_result [OF attributeValue_log] by blast
      then show ?thesis
        using wf run Some p
        apply (auto simp: parseToolAttribute_def ok_def fatal_def bind_eq_Some_conv split: option.splits sum.splits)
        subgoal for v tool outcome
          by (cases outcome) auto
        done
    qed
  qed
  show ?thesis
    unfolding preserves_def
  proof (intro allI impI)
    fix b b'
    assume wf: "builder_wf D b" and run: "parseTool D entry b = Some (True, b')"
    consider (err) m where "load_error m b = Some (True, b')"
      | (tool) name attrs t b1 where "getTool D name b = (Some t, b1)"
          "forEach (parseToolAttribute D name) attrs b1 = Some (True, b')"
      using run by (auto simp: parseTool_def split: option.splits Yaml.splits prod.splits)
    then show "builder_wf D b'"
    proof cases
      case err
      then show ?thesis using wf preserves_load_error unfolding preserves_def by blast
    next
      case tool
      have "builder_wf D b1" using wf getTool_frame [OF tool(1)] by (simp add: builder_wf_def)
      then show ?thesis
        using preserves_forEach [of "builder_wf D" "parseToolAttribute D name", OF attribute] tool(2)
        unfolding preserves_def by blast
    qed
  qed
qed

lemma parseTarget_wf: "preserves (builder_wf D) (parseTarget D entry)"
  unfolding preserves_def
proof (intro allI impI)
  fix b b'
  assume wf: "builder_wf D b" and run: "parseTarget D entry b = Some (True, b')"
  consider (err) m where "load_error m b = Some (True, b')"
    | (target) name nodes msg ns b1 where "collectScalars msg nodes b = (ns, b1)" "b' = addTarget D name ns b1"
    using run by (auto simp: parseTarget_def ok_def split: option.splits Yaml.splits prod.splits)
  then show "builder_wf D b'"
  proof cases
    case err
    then show ?thesis using wf preserves_load_error unfolding preserves_def by blast
  next
    case target
    then obtain l where "b1 = b\<lparr>b_log := l\<rparr>" using log_result [OF collectScalars_log] by blast
    then show ?thesis using target(2) wf by (simp add: addTarget_wf)
  qed
qed

lemma parseDefaultTarget_wf: "preserves (builder_wf D) (parseDefaultTarget target)"
  by (auto simp: preserves_def parseDefaultTarget_def setDefaultTarget_def fatal_def ok_def emit_b_def hasTarget_def
      builder_wf_def builder_ok_def targets_wf_def split: if_splits)

lemma setNodeAttribute_wf:
  assumes "builder_wf D b" and "setNodeAttribute n a v b = Some (True, b')"
  shows "builder_wf D b'"
proof -
  obtain node r where node: "map_of (b_nodes b) n = Some node" and r: "node_attribute a v node = Some r"
    using assms(2) by (auto simp: setNodeAttribute_def bind_eq_Some_conv)
  then obtain node' where attr: "node_attribute a v node = Some (Inr node')"
    and b': "b' = b\<lparr>b_nodes := AList.update n node' (b_nodes b)\<rparr>"
    using assms(2) by (cases r) (auto simp: setNodeAttribute_def)
  have links: "links_wf D (map_of (b_nodes b)) (map_of (b_commands b))"
    using assms(1) by (simp add: builder_wf_def builder_ok_def)
  then have "node_name node = n" and "set (node_producers node) \<subseteq> dom (map_of (b_commands b))"
    using node by (auto simp: links_wf_def)
  then have "links_wf D ((map_of (b_nodes b))(n \<mapsto> node')) (map_of (b_commands b))"
    using node_attribute_keeps [OF attr] node links by (intro links_wf_update_node [where x = node]) auto
  moreover have "targets_wf ((map_of (b_nodes b))(n \<mapsto> node')) (map_of (b_targets b)) (b_defaultTarget b)"
    using assms(1) by (auto simp: builder_wf_def builder_ok_def intro: targets_wf_mono)
  ultimately show ?thesis
    using assms(1) b' by (simp add: builder_wf_def builder_ok_def update_conv' distinct_update)
qed

lemma parseNode_wf: "preserves (builder_wf D) (parseNode D entry)"
proof -
  have attribute: "preserves (builder_wf D) (parseNodeAttribute name x)" for name x
    unfolding preserves_def
  proof (intro allI impI)
    fix b b'
    assume wf: "builder_wf D b" and run: "parseNodeAttribute name x b = Some (True, b')"
    show "builder_wf D b'"
    proof (cases "scalar (fst x)")
      case None
      then show ?thesis using wf run by (auto simp: parseNodeAttribute_def load_error_def emit_b_def)
    next
      case (Some a)
      obtain r b1 where p: "attributeValue ''node'' ''nodes'' a (snd x) b = (r, b1)" by fastforce
      then obtain l where "b1 = b\<lparr>b_log := l\<rparr>" using log_result [OF attributeValue_log] by blast
      then have "builder_wf D b1" using wf by simp
      then show ?thesis
        using run Some p setNodeAttribute_wf
        by (auto simp: parseNodeAttribute_def ok_def split: option.splits)
    qed
  qed
  show ?thesis
    unfolding preserves_def
  proof (intro allI impI)
    fix b b'
    assume wf: "builder_wf D b" and run: "parseNode D entry b = Some (True, b')"
    consider (err) m where "load_error m b = Some (True, b')"
      | (node) name attrs where
          "forEach (parseNodeAttribute name) attrs (getOrCreateNode D name False b) = Some (True, b')"
      using run by (auto simp: parseNode_def split: option.splits Yaml.splits prod.splits)
    then show "builder_wf D b'"
    proof cases
      case err
      then show ?thesis using wf preserves_load_error unfolding preserves_def by blast
    next
      case node
      have "builder_wf D (getOrCreateNode D name False b)"
        using wf getOrCreateNode_ok [of "map_of (b_commands b)" b name False]
        by (simp add: builder_wf_def getOrCreateNode_frame)
      then show ?thesis
        using preserves_forEach [of "builder_wf D" "parseNodeAttribute name", OF attribute] node
        unfolding preserves_def by blast
    qed
  qed
qed

lemma parseEnvironmentBase_wf: "preserves (builder_wf D) (parseEnvironmentBase entry)"
  unfolding preserves_def
proof (intro allI impI)
  fix b b'
  assume wf: "builder_wf D b" and run: "parseEnvironmentBase entry b = Some (True, b')"
  consider (err) m where "load_error m b = Some (True, b')"
    | (env) name km vm bindings kvs b1 where
        "collectPairs km vm bindings b = (kvs, b1)" "b' = snd (addEnvironmentBase name kvs b1)"
    using run by (auto simp: parseEnvironmentBase_def ok_def split: option.splits Yaml.splits prod.splits if_splits)
  then show "builder_wf D b'"
  proof cases
    case err
    then show ?thesis using wf preserves_load_error unfolding preserves_def by blast
  next
    case env
    then obtain l where "b1 = b\<lparr>b_log := l\<rparr>" using log_result [OF collectPairs_log] by blast
    then show ?thesis
      using env(2) wf by (auto simp: addEnvironmentBase_def)
  qed
qed

lemma parseSections_wf: "preserves (builder_wf D) (parseSections D entries)"
  unfolding parseSections_def parseToolsMapping_def parseTargetsMapping_def parseNodesMapping_def
    parseEnvironmentBasesMapping_def parseCommandsMapping_def parseEnd_def
  by (intro preserves_section preserves_default preserves_forEach parseTool_wf parseTarget_wf
      parseDefaultTarget_wf parseNode_wf parseEnvironmentBase_wf parseCommand_wf) auto

lemma parseClientEntries_wf:
  assumes "builder_wf D b" and "parseClientEntries entries (cl, b) = Inl (cl', b')"
  shows "builder_wf D b'"
  using assms
proof (induction entries arbitrary: cl b)
  case (Cons entry entries)
  then obtain cl1 b1 where step: "parseClientEntry entry (cl, b) = Inl (cl1, b1)"
    and rest: "parseClientEntries entries (cl1, b1) = Inl (cl', b')"
    by (auto split: sum.splits)
  have "builder_wf D b1"
    using step Cons.prems(1)
    by (auto simp: parseClientEntry_def emit_b_def Let_def split: option.splits if_splits)
  then show ?case using Cons.IH rest by blast
qed simp

lemma parseClientMapping_wf: "preserves (builder_wf D) (parseClientMapping D entries)"
  by (auto simp: preserves_def parseClientMapping_def fatal_def ok_def report_def dest: parseClientEntries_wf
      split: sum.splits prod.splits bool.splits)

lemma parseRootNode_wf: "preserves (builder_wf D) (parseRootNode D root)"
proof -
  have "preserves (builder_wf D) (\<lambda>b. None)" by (simp add: preserves_def)
  then show ?thesis
    using parseClientMapping_wf parseSections_wf
    by (auto simp: parseRootNode_def split: Yaml.splits list.splits)
qed

lemma amendOutput_wf:
  assumes wf: "builder_wf D b" and node: "fst p \<in> dom (map_of (b_nodes b))"
  shows "builder_wf D (amendOutput D included p b)
    \<and> dom (map_of (b_nodes (amendOutput D included p b))) = dom (map_of (b_nodes b))"
proof (cases "amendOutput D included p b = b")
  case False
  let ?C = "map_of (b_commands b)"
  obtain owner c where c: "?C owner = Some c" and repair: "d_repairViaOwnershipAnalysis D c"
    and eq: "amendOutput D included p b = addProducer owner (fst p)
      (b\<lparr>b_commands := AList.update owner (d_addOutput D (nodeNamed b (fst p)) c) (b_commands b)\<rparr>)"
    using False by (auto simp: amendOutput_def split: option.splits if_splits)
  let ?c = "d_addOutput D (nodeNamed b (fst p)) c"
  let ?b1 = "b\<lparr>b_commands := AList.update owner ?c (b_commands b)\<rparr>"
  let ?b2 = "addProducer owner (fst p) ?b1"
  have name: "node_name (nodeNamed b (fst p)) = fst p"
    using wf node by (auto simp: nodeNamed_def builder_wf_def builder_ok_def links_wf_def)
  have "builder_ok D ?C ?b1"
    using wf by (simp add: builder_wf_def builder_ok_def distinct_update)
  then have "builder_ok D ?C ?b2"
    using c by (intro addProducer_ok) auto
  then have ok: "builder_ok D (?C(owner \<mapsto> c)) ?b2"
    using c by (simp add: fun_upd_idem)
  obtain node where "map_of (b_nodes ?b1) (fst p) = Some node"
    using node by auto
  then have new: "\<exists>node. map_of (b_nodes ?b2) (fst p) = Some node \<and> owner \<in> set (node_producers node)"
    using addProducer_producers [of ?b1 "fst p" node owner "fst p"] by blast
  have "builder_ok D (?C(owner \<mapsto> ?c)) ?b2"
    using builder_ok_command [OF ok, of ?c] builder_ok_commandD [OF ok] new addOutput_nodes [OF repair] name by auto
  then show ?thesis
    using eq by (simp add: builder_wf_def addProducer_frame update_conv')
qed (use wf in simp)

lemma amendOutputs_wf:
  assumes "builder_wf D b" and "fst ` set inputs \<subseteq> dom (map_of (b_nodes b))"
  shows "builder_wf D (amendOutputOfOwnersWithConsumedSubpaths D included inputs b)
    \<and> dom (map_of (b_nodes (amendOutputOfOwnersWithConsumedSubpaths D included inputs b))) = dom (map_of (b_nodes b))"
  unfolding amendOutputOfOwnersWithConsumedSubpaths_def
  using assms
proof (induction inputs arbitrary: b)
  case (Cons p inputs)
  have step: "builder_wf D (amendOutput D included p b)
      \<and> dom (map_of (b_nodes (amendOutput D included p b))) = dom (map_of (b_nodes b))"
    using Cons.prems by (intro amendOutput_wf) auto
  then show ?case
    using Cons.IH [of "amendOutput D included p b"] Cons.prems(2) by auto
qed simp

lemma deferScan_wf:
  assumes wf: "builder_wf D b" and nodes: "fst ` set unowned \<subseteq> dom (map_of (b_nodes b))"
  shows "builder_wf D (deferScan unowned repairs p b)
    \<and> dom (map_of (b_nodes (deferScan unowned repairs p b))) = dom (map_of (b_nodes b))"
proof (cases "find (\<lambda>u. prefix (fst u) (fst p) \<and> repairs (snd p)) unowned")
  case None
  then show ?thesis using wf by (simp add: deferScan_def)
next
  case (Some u)
  then have "u \<in> set unowned"
    by (auto simp: find_Some_iff)
  then have "fst u \<in> dom (map_of (b_nodes b))"
    using nodes by blast
  then obtain node where node: "map_of (b_nodes b) (fst u) = Some node" by blast
  let ?node = "node\<lparr>node_mustScanAfterPaths := node_mustScanAfterPaths node @ [Some (fst p)]\<rparr>"
  have eq: "deferScan unowned repairs p b = b\<lparr>b_nodes := AList.update (fst u) ?node (b_nodes b)\<rparr>"
    using Some node by (simp add: deferScan_def nodeNamed_def Let_def)
  have links: "links_wf D (map_of (b_nodes b)) (map_of (b_commands b))"
    using wf by (simp add: builder_wf_def builder_ok_def)
  then have "links_wf D ((map_of (b_nodes b))(fst u \<mapsto> ?node)) (map_of (b_commands b))"
    using node by (intro links_wf_update_node [OF links node]) (auto simp: links_wf_def)
  moreover have "targets_wf ((map_of (b_nodes b))(fst u \<mapsto> ?node)) (map_of (b_targets b)) (b_defaultTarget b)"
    using wf by (auto simp: builder_wf_def builder_ok_def intro: targets_wf_mono)
  ultimately show ?thesis
    using wf node by (auto simp: eq builder_wf_def builder_ok_def update_conv' distinct_update)
qed

lemma deferScans_wf:
  assumes "builder_wf D b" and "fst ` set inputs \<subseteq> dom (map_of (b_nodes b))"
  shows "builder_wf D (deferScanningUnownedInputsUntilSubpathsAvailable D included excluded outputs inputs b)"
proof -
  have "builder_wf D (fold (deferScan unowned repairs) outputs b)"
    if "fst ` set unowned \<subseteq> dom (map_of (b_nodes b))" for unowned repairs
    using that assms(1)
  proof (induction outputs arbitrary: b)
    case (Cons p outputs)
    show ?case
      using Cons.IH [of "deferScan unowned repairs p b"] deferScan_wf [OF Cons.prems(2,1), of repairs p] Cons.prems
      by simp
  qed simp
  then show ?thesis
    using assms(2) by (auto simp: deferScanningUnownedInputsUntilSubpathsAvailable_def Let_def image_subset_iff)
qed

lemma directoryInputs_nodes:
  assumes "builder_wf D b"
  shows "fst ` set (directoryInputNodesAndCommands D b) \<subseteq> dom (map_of (b_nodes b))"
proof
  fix n
  assume "n \<in> fst ` set (directoryInputNodesAndCommands D b)"
  then obtain name c where "(name, c) \<in> set (b_commands b)" and n: "n \<in> set (d_getInputs D c)"
    by (auto simp: directoryInputNodesAndCommands_def)
  then have "map_of (b_commands b) name = Some c"
    using assms by (simp add: builder_wf_def builder_ok_def)
  then show "n \<in> dom (map_of (b_nodes b))"
    using assms n unfolding builder_wf_def builder_ok_def links_wf_def by blast
qed

end

text \<open>A well-formed builder gives a well-formed description.\<close>

lemma descriptionOf_wf:
  assumes "builder_wf D b"
  shows "description_wf D (descriptionOf b)"
proof -
  have d: "distinct (map fst (b_nodes b))" "distinct (map fst (b_targets b))" "distinct (map fst (b_commands b))"
    using assms by (simp_all add: builder_wf_def builder_ok_def)
  have links: "links_wf D (map_of (b_nodes b)) (map_of (b_commands b))"
    and targets: "targets_wf (map_of (b_nodes b)) (map_of (b_targets b)) (b_defaultTarget b)"
    using assms by (simp_all add: builder_wf_def builder_ok_def)
  have 1: "set ns \<subseteq> fst ` set (b_nodes b)" if "(t, ns) \<in> set (b_targets b)" for t ns
    using targets that d by (simp add: targets_wf_def dom_map_of_conv_image_fst)
  have 2: "b_defaultTarget b = [] \<or> b_defaultTarget b \<in> fst ` set (b_targets b)"
    using targets by (auto simp: targets_wf_def dom_map_of_conv_image_fst)
  have 3: "node_name node = n \<and> set (node_producers node) \<subseteq> fst ` set (b_commands b)"
    if "(n, node) \<in> set (b_nodes b)" for n node
    using links that d by (simp add: links_wf_def dom_map_of_conv_image_fst)
  have 4: "set (d_getInputs D c) \<subseteq> fst ` set (b_nodes b)
      \<and> (\<forall>out \<in> set (d_getOutputs D c). \<exists>(m, node) \<in> set (b_nodes b). m = out \<and> n \<in> set (node_producers node))"
    if "(n, c) \<in> set (b_commands b)" for n c
  proof
    have c: "map_of (b_commands b) n = Some c" using that d by simp
    show "set (d_getInputs D c) \<subseteq> fst ` set (b_nodes b)"
      using links c by (simp add: links_wf_def dom_map_of_conv_image_fst)
    show "\<forall>out \<in> set (d_getOutputs D c). \<exists>(m, node) \<in> set (b_nodes b). m = out \<and> n \<in> set (node_producers node)"
    proof
      fix out
      assume "out \<in> set (d_getOutputs D c)"
      then obtain node where "map_of (b_nodes b) out = Some node" and "n \<in> set (node_producers node)"
        using links c unfolding links_wf_def by blast
      then show "\<exists>(m, node) \<in> set (b_nodes b). m = out \<and> n \<in> set (node_producers node)"
        by (intro bexI [of _ "(out, node)"]) (auto dest: map_of_SomeD)
    qed
  qed
  have "\<forall>(t, ns) \<in> set (b_targets b). set ns \<subseteq> fst ` set (b_nodes b)"
    using 1 by blast
  moreover have "\<forall>(n, node) \<in> set (b_nodes b). node_name node = n \<and> set (node_producers node) \<subseteq> fst ` set (b_commands b)"
    using 3 by blast
  moreover have "\<forall>(n, c) \<in> set (b_commands b). set (d_getInputs D c) \<subseteq> fst ` set (b_nodes b)
      \<and> (\<forall>out \<in> set (d_getOutputs D c). \<exists>(m, node) \<in> set (b_nodes b). m = out \<and> n \<in> set (node_producers node))"
    using 4 by blast
  ultimately show ?thesis
    using d 2 by (simp add: description_wf_def descriptionOf_def)
qed

context build_file_delegate
begin

lemma finalize_wf:
  assumes wf: "builder_wf D b" and "finalize D b = (Some ds, log)"
  shows "description_wf D ds"
proof (cases "b_performOwnershipAnalysis b")
  case False
  then show ?thesis using assms descriptionOf_wf by (auto simp: finalize_def)
next
  case True
  let ?inputs = "directoryInputNodesAndCommands D b"
  let ?outputs = "outputNodesAndCommands D b"
  obtain included excluded where
    ds: "ds = descriptionOf (deferScanningUnownedInputsUntilSubpathsAvailable D included excluded ?outputs ?inputs
                (amendOutputOfOwnersWithConsumedSubpaths D included ?inputs b))"
    using assms(2) True by (auto simp: finalize_def Let_def split: sum.splits)
  have "builder_wf D (amendOutputOfOwnersWithConsumedSubpaths D included ?inputs b)
      \<and> dom (map_of (b_nodes (amendOutputOfOwnersWithConsumedSubpaths D included ?inputs b))) = dom (map_of (b_nodes b))"
    using amendOutputs_wf [OF wf directoryInputs_nodes [OF wf]] .
  then show ?thesis
    unfolding ds using directoryInputs_nodes [OF wf] by (intro descriptionOf_wf deferScans_wf) auto
qed

lemma load_wf:
  assumes "load D mainFilename input = Some (Some ds, log)"
  shows "description_wf D ds"
proof -
  obtain root b where "parseRootNode D root newBuilder = Some (True, b)" and fin: "finalize D b = (Some ds, log)"
    using assms by (auto simp: load_def split: option.splits list.splits prod.splits bool.splits if_splits)
  then have "builder_wf D b"
    using parseRootNode_wf [of root] builder_wf_new [of D] unfolding preserves_def by blast
  then show ?thesis using fin by (rule finalize_wf)
qed

end

end
