(* ===== verification/JSON.thy ===== *)
theory JSON
  imports Prelude
begin

text \<open>
  Escaping of strings for JSON: \<^verbatim>\<open>escapeForJSON\<close> of \<^verbatim>\<open>llbuild/Basic/JSON.h\<close>, and a decoder of the
  characters of a JSON string literal, written from the JSON grammar, which it is proved against.
\<close>

section \<open>The code\<close>

text \<open>
  The hexadecimal form \<^verbatim>\<open>\u00XX\<close> of a control character. The comparison with \<^verbatim>\<open>0x00\<close> and \<^verbatim>\<open>0x1f\<close>
  is one of signed characters: bytes from \<^verbatim>\<open>0x80\<close> are negative and written as they are.
\<close>

definition hex_digit :: "nat \<Rightarrow> char" where
  "hex_digit n = char_of (if n < 10 then 48 + n else 87 + n)"

definition escapeChar :: "char \<Rightarrow> string" where
  "escapeChar c =
     (if c = CHR 0x5C then [CHR 0x5C, CHR 0x5C]
      else if c = CHR 0x22 then [CHR 0x5C, CHR 0x22]
      else if c = CHR 0x08 then [CHR 0x5C, CHR ''b'']
      else if c = CHR 0x0A then [CHR 0x5C, CHR ''n'']
      else if c = CHR 0x0C then [CHR 0x5C, CHR ''f'']
      else if c = CHR 0x0D then [CHR 0x5C, CHR ''r'']
      else if c = CHR 0x09 then [CHR 0x5C, CHR ''t'']
      else if (of_char c :: nat) \<le> 0x1F
      then [CHR 0x5C, CHR ''u'', CHR ''0'', CHR ''0'', hex_digit (of_char c div 16), hex_digit (of_char c mod 16)]
      else [c])"

definition escapeForJSON :: "string \<Rightarrow> string" where
  "escapeForJSON s = concat (map escapeChar s)"

section \<open>Reading a string literal\<close>

text \<open>
  The characters up to the closing quote, decoded, and the rest of the text. Control characters are
  not allowed in a literal; \<^verbatim>\<open>\uXXXX\<close> is accepted for the code points of a single byte.
\<close>

definition hex_value :: "char \<Rightarrow> nat option" where
  "hex_value c =
     (let n = of_char c :: nat
      in if 48 \<le> n \<and> n \<le> 57 then Some (n - 48)
         else if 97 \<le> n \<and> n \<le> 102 then Some (n - 87)
         else if 65 \<le> n \<and> n \<le> 70 then Some (n - 55)
         else None)"

definition short_escape :: "char \<Rightarrow> char option" where
  "short_escape c =
     map_of [(CHR 0x5C, CHR 0x5C), (CHR 0x22, CHR 0x22), (CHR ''/'', CHR ''/''), (CHR ''b'', CHR 0x08),
             (CHR ''n'', CHR 0x0A), (CHR ''f'', CHR 0x0C), (CHR ''r'', CHR 0x0D), (CHR ''t'', CHR 0x09)] c"

fun json_string :: "string \<Rightarrow> (string \<times> string) option" where
  "json_string [] = None"
| "json_string (c # cs) =
     (if c = CHR 0x22 then Some ([], cs)
      else if c = CHR 0x5C then
        (case cs of
           [] \<Rightarrow> None
         | e # rest \<Rightarrow>
             if e = CHR ''u'' then
               (case rest of
                  a # b # h # l # rest' \<Rightarrow> do {
                    high \<leftarrow> hex_value a;
                    high' \<leftarrow> hex_value b;
                    x \<leftarrow> hex_value h;
                    y \<leftarrow> hex_value l;
                    assert_that (high = 0 \<and> high' = 0);
                    (s, left) \<leftarrow> json_string rest';
                    Some (char_of (16 * x + y) # s, left) }
                | _ \<Rightarrow> None)
             else do {
               d \<leftarrow> short_escape e;
               (s, left) \<leftarrow> json_string rest;
               Some (d # s, left) })
      else if (of_char c :: nat) \<le> 0x1F then None
      else do { (s, left) \<leftarrow> json_string cs; Some (c # s, left) })"

section \<open>Round trip\<close>

lemma hex_value_digit:
  assumes "n < 16"
  shows "hex_value (hex_digit n) = Some n"
  using assms by (simp add: hex_value_def hex_digit_def Let_def)

lemma json_string_control:
  assumes "(of_char c :: nat) \<le> 0x1F"
  shows "json_string ([CHR 0x5C, CHR ''u'', CHR ''0'', CHR ''0'',
           hex_digit (of_char c div 16), hex_digit (of_char c mod 16)] @ t)
         = map_option (\<lambda>(s, left). (c # s, left)) (json_string t)"
proof -
  have "hex_value (CHR ''0'') = Some 0"
    by (simp add: hex_value_def Let_def)
  moreover have "hex_value (hex_digit (of_char c div 16)) = Some (of_char c div 16)"
    using assms by (intro hex_value_digit) simp
  moreover have "hex_value (hex_digit (of_char c mod 16)) = Some (of_char c mod 16)"
    by (intro hex_value_digit) simp
  moreover have "char_of (16 * (of_char c div 16) + of_char c mod 16 :: nat) = c"
    by (simp only: mult_div_mod_eq char_of_char)
  ultimately show ?thesis
    by (cases "json_string t") (simp_all add: split_beta)
qed

lemma json_string_escapeChar:
  "json_string (escapeChar c @ t) = map_option (\<lambda>(s, left). (c # s, left)) (json_string t)"
proof (cases "c \<in> {CHR 0x5C, CHR 0x22, CHR 0x08, CHR 0x0A, CHR 0x0C, CHR 0x0D, CHR 0x09}")
  case True
  then show ?thesis
    by (cases "json_string t") (auto simp: escapeChar_def short_escape_def split_beta)
next
  case False
  show ?thesis
  proof (cases "(of_char c :: nat) \<le> 0x1F")
    case True
    then have "escapeChar c = [CHR 0x5C, CHR ''u'', CHR ''0'', CHR ''0'',
        hex_digit (of_char c div 16), hex_digit (of_char c mod 16)]"
      using False by (simp add: escapeChar_def)
    then show ?thesis
      using json_string_control [OF True] by simp
  next
    case False': False
    then have "escapeChar c = [c]"
      using False by (simp add: escapeChar_def)
    then show ?thesis
      using False False' by (cases "json_string t") (simp_all add: split_beta)
  qed
qed

lemma json_string_append:
  "json_string (escapeForJSON s @ t) = map_option (\<lambda>(s', left). (s @ s', left)) (json_string t)"
proof (induction s)
  case Nil
  show ?case by (cases "json_string t") (simp_all add: escapeForJSON_def split_beta)
next
  case (Cons c s)
  have "escapeForJSON (c # s) @ t = escapeChar c @ escapeForJSON s @ t"
    by (simp add: escapeForJSON_def)
  then show ?case
    by (cases "json_string t") (simp_all add: json_string_escapeChar Cons.IH split_beta)
qed

text \<open>
  An escaped string between quotes is a JSON string literal, whatever follows it, and reading
  the literal gives the string back: no byte of the string can end the literal early or change
  what follows.
\<close>

theorem escapeForJSON_roundtrip:
  "json_string (escapeForJSON s @ [CHR 0x22] @ rest) = Some (s, rest)"
  by (simp add: json_string_append)

end
