(* ===== verification/BuildSystemTools.thy ===== *)
theory BuildSystemTools
  imports BuildFile ShellCommand BuildSystemCommands BuildEngineState JSON
begin

text \<open>
  The tools of the native build system and the commands they create:
  \<^verbatim>\<open>lib/BuildSystem/BuildSystem.cpp\<close>, from \<^verbatim>\<open>PhonyTool\<close> to \<^verbatim>\<open>StaleFileRemovalTool\<close>, and
  \<^verbatim>\<open>BuildSystemFileDelegate\<close>, through which the build file loader reaches them. The commands that
  start a process go through the execution queue; the path functions of the vendored library, the
  hash functions, the contents of files and the environment are parameters.
\<close>

section \<open>Running a process\<close>

text \<open>\<^verbatim>\<open>ti.spawn(context, args, {}, {true}, completion)\<close>, to its completion.\<close>

definition spawnToCompletion ::
  "spawn_os \<Rightarrow> nat \<Rightarrow> u64 \<Rightarrow> string list \<Rightarrow> LaneBasedExecutionQueue \<Rightarrow> (proc_event list \<times> ProcessResult) option" where
  "spawnToCompletion os laneNumber ident args q = do {
     (log, out) \<leftarrow> executeProcess os laneNumber ident args [] defaultAttributes q;
     log' \<leftarrow> (case out of
                SpawnReleased pid outputFd controlFd \<Rightarrow> processWait os pid outputFd controlFd
              | _ \<Rightarrow> Some []);
     result \<leftarrow> completionResult (log @ log');
     Some (log @ log', result) }"

text \<open>Arguments separated by blanks; quoting is left out where the code has a \<^verbatim>\<open>FIXME\<close> for it.\<close>

fun joinBlank :: "string list \<Rightarrow> string" where
  "joinBlank [] = []"
| "joinBlank [arg] = arg"
| "joinBlank (arg # args) = arg @ '' '' @ joinBlank args"

definition blankQuoted :: "string \<Rightarrow> string" where
  "blankQuoted s = (if CHR '' '' \<in> set s then [CHR 0x22] @ s @ [CHR 0x22] else s)"

text \<open>\<^verbatim>\<open>split(args, " ", -1, false)\<close>: the words between blanks, empty ones dropped.\<close>

fun splitBlanks :: "string \<Rightarrow> string \<Rightarrow> string list" where
  "splitBlanks word [] = (if word = [] then [] else [word])"
| "splitBlanks word (c # cs) =
     (if c = CHR '' '' then (if word = [] then [] else [word]) @ splitBlanks [] cs
      else splitBlanks (word @ [c]) cs)"

section \<open>Descriptions of the simple commands\<close>

text \<open>\<^term>\<open>None\<close> where the code reads the first output of a command without outputs.\<close>

definition getVerboseDescription_phony :: "ExternalCommand \<Rightarrow> string" where
  "getVerboseDescription_phony cmd = ec_name cmd"

definition getVerboseDescription_mkdir :: "ExternalCommand \<Rightarrow> string option" where
  "getVerboseDescription_mkdir cmd =
     map_option (\<lambda>output. ''mkdir -p '' @ blankQuoted (node_name output)) (first_output (ec_outputs cmd))"

definition getVerboseDescription_symlink :: "SymlinkCommand \<Rightarrow> string option" where
  "getVerboseDescription_symlink cmd = do {
     path \<leftarrow> getActualOutputPath cmd;
     Some (''ln -sfh ''
       @ (if sy_outputs cmd = [] \<or> path \<noteq> [] then blankQuoted path else ''<<<missing output>>>'')
       @ '' '' @ blankQuoted (sy_contents cmd)) }"

text \<open>A separator follows every entry that is not equal to the last one.\<close>

definition commaList :: "string list \<Rightarrow> string" where
  "commaList items = concat (map (\<lambda>item. item @ (if item \<noteq> last items then '', '' else [])) items)"

definition getShortDescription_stale :: "StaleFileRemovalCommand \<Rightarrow> string" where
  "getShortDescription_stale cmd = (if sf_description cmd = [] then ''Stale file removal'' else sf_description cmd)"

definition getVerboseDescription_stale :: "StaleFileRemovalCommand \<Rightarrow> (string \<times> StaleFileRemovalCommand) option" where
  "getVerboseDescription_stale cmd = do {
     cmd \<leftarrow> computeFilesToDelete cmd;
     Some (getShortDescription_stale cmd @ '', stale files: ['' @ commaList (sf_filesToDelete cmd)
       @ ''], roots: ['' @ commaList (sf_roots cmd) @ '']'', cmd) }"

section \<open>Clang\<close>

record ClangShellCommand =
  ck_base :: ExternalCommand
  ck_args :: "string list"
  ck_depsPath :: string

definition newClang :: "string \<Rightarrow> ClangShellCommand" where
  "newClang name = \<lparr>ck_base = newExternalCommand name, ck_args = [], ck_depsPath = []\<rparr>"

definition getSignature_clang :: "hashing \<Rightarrow> ClangShellCommand \<Rightarrow> CommandSignature" where
  "getSignature_clang H cmd = combine_strings H (ck_args cmd) (getSignature_external H (ck_base cmd))"

fun clangAction :: "string \<Rightarrow> mk_event \<Rightarrow> deps_event list" where
  "clangAction depsPath (MkError message position) =
     [DepsError (''error reading dependency file '' @ quoted depsPath @ '': '' @ message)]"
| "clangAction depsPath (RuleDependency dependency unescapedWord) = discovered unescapedWord"
| "clangAction depsPath (RuleStart name unescapedWord) = []"
| "clangAction depsPath RuleEnd = []"

definition processDiscoveredDependencies_clang ::
  "(string \<Rightarrow> byte list option) \<Rightarrow> ClangShellCommand \<Rightarrow> (bool \<times> deps_event list) option" where
  "processDiscoveredDependencies_clang contents cmd =
     (case contents (ck_depsPath cmd) of
        None \<Rightarrow> Some (False, [DepsError (''unable to open dependencies file ('' @ ck_depsPath cmd @ '')'')])
      | Some input \<Rightarrow>
          map_option (\<lambda>evs. (\<not> list_ex is_mk_error evs, concat (map (clangAction (ck_depsPath cmd)) evs)))
            (parseMakefileDeps False (chars input)))"

definition getShortDescription_clang :: "ClangShellCommand \<Rightarrow> string" where
  "getShortDescription_clang cmd = ec_description (ck_base cmd)"

definition getVerboseDescription_clang :: "ClangShellCommand \<Rightarrow> string" where
  "getVerboseDescription_clang cmd =
     fold (\<lambda>(i, arg) os. appendShellEscapedString (if i = 0 then os else os @ '' '') arg)
       (enumerate 0 (ck_args cmd)) []"

definition lift_clang :: "ExternalCommand configured \<Rightarrow> ClangShellCommand \<Rightarrow> ClangShellCommand configured" where
  "lift_clang r cmd = map_option (map_sum id (\<lambda>b. cmd\<lparr>ck_base := b\<rparr>)) r"

fun configure_clang :: "string \<Rightarrow> attr_value \<Rightarrow> ClangShellCommand \<Rightarrow> ClangShellCommand configured" where
  "configure_clang name (AttrScalar val) cmd =
     (if name = ''args'' then configured (cmd\<lparr>ck_args := [DefaultShellPath, ''-c'', val]\<rparr>)
      else if name = ''deps'' then configured (cmd\<lparr>ck_depsPath := val\<rparr>)
      else lift_clang (configureExternal name val (ck_base cmd)) cmd)"
| "configure_clang name (AttrValues vals) cmd =
     (if name = ''args'' then configured (cmd\<lparr>ck_args := vals\<rparr>)
      else lift_clang (configureExternal_values name vals (ck_base cmd)) cmd)"
| "configure_clang name (AttrPairs vals) cmd =
     lift_clang (configureExternal_pairs name vals (ck_base cmd)) cmd"

text \<open>The completion of the process, then of the command; \<open>contents\<close> are the files after the run.\<close>

definition clangCompletion ::
  "(string \<Rightarrow> byte list option) \<Rightarrow> ClangShellCommand \<Rightarrow> ProcessResult \<Rightarrow> (ProcessResult \<times> deps_event list) option" where
  "clangCompletion contents cmd result =
     (if r_status result \<noteq> Succeeded then Some (result, [])
      else if ck_depsPath cmd \<noteq> [] then do {
        (good, evs) \<leftarrow> processDiscoveredDependencies_clang contents cmd;
        Some (if good then result else mkProcessResult Failed (- 1), evs) }
      else Some (result, []))"

definition execute_clang ::
  "spawn_os \<Rightarrow> (string \<Rightarrow> byte list option) \<Rightarrow> nat \<Rightarrow> u64 \<Rightarrow> LaneBasedExecutionQueue \<Rightarrow> ClangShellCommand
   \<Rightarrow> (proc_event list \<times> ProcessResult \<times> deps_event list) option" where
  "execute_clang os contents laneNumber ident q cmd = do {
     (log, result) \<leftarrow> spawnToCompletion os laneNumber ident (ck_args cmd) q;
     (final, deps) \<leftarrow> clangCompletion contents cmd result;
     Some (log, final, deps) }"

section \<open>The Swift compiler version\<close>

text \<open>
  \<^verbatim>\<open>SwiftGetVersionCommand\<close>: the command line is handed to \<^verbatim>\<open>popen\<close>, a parameter that gives what the
  process printed, nothing if it could not be started.
\<close>

record SwiftGetVersionCommand =
  gv_executable :: string

definition newSwiftGetVersion :: "byte list \<Rightarrow> SwiftGetVersionCommand option" where
  "newSwiftGetVersion key = map_option (\<lambda>d. \<lparr>gv_executable = chars d\<rparr>) (getCustomTaskData key)"

definition getShortDescription_version :: "SwiftGetVersionCommand \<Rightarrow> string" where
  "getShortDescription_version cmd = ''Checking Swift Compiler Version''"

definition getVerboseDescription_version :: "SwiftGetVersionCommand \<Rightarrow> string" where
  "getVerboseDescription_version cmd = [CHR 0x22] @ gv_executable cmd @ [CHR 0x22] @ '' --version''"

definition configure_version :: "string \<Rightarrow> attr_value \<Rightarrow> SwiftGetVersionCommand \<Rightarrow> SwiftGetVersionCommand configured" where
  "configure_version name v cmd = unexpected_attribute name"

text \<open>Asking for the result of an output is unreachable code.\<close>

definition getResultForOutput_version :: "BuildNode \<Rightarrow> BuildValue \<Rightarrow> BuildValue option" where
  "getResultForOutput_version node v = None"

definition isResultValid_version :: "BuildValue \<Rightarrow> bool" where
  "isResultValid_version v = False"

definition versionCommand :: "SwiftGetVersionCommand \<Rightarrow> string" where
  "versionCommand cmd = shellEscaped (gv_executable cmd) @ '' --version'' @ '' 2>/dev/null''"

definition execute_version ::
  "hashing \<Rightarrow> (string \<Rightarrow> string option) \<Rightarrow> SwiftGetVersionCommand \<Rightarrow> BuildValue option" where
  "execute_version H popen cmd =
     (let result = (case popen (versionCommand cmd) of None \<Rightarrow> [] | Some s \<Rightarrow> s)
      in makeSuccessfulCommandWithOutputSignature [zeroFileInfo] (hash_string H result))"

section \<open>The Swift compiler\<close>

record SwiftCompilerShellCommand =
  sw_base :: ExternalCommand
  sw_executable :: string
  sw_moduleName :: string
  sw_moduleAliases :: "string list"
  sw_moduleOutputPath :: string
  sw_sourcesList :: "string list"
  sw_objectsList :: "string list"
  sw_importPaths :: "string list"
  sw_tempsPath :: string
  sw_otherArgs :: "string list"
  sw_isLibrary :: bool
  sw_enableWholeModuleOptimization :: bool
  sw_numThreads :: string

definition newSwift :: "string \<Rightarrow> SwiftCompilerShellCommand" where
  "newSwift name = \<lparr>sw_base = newExternalCommand name, sw_executable = ''swiftc'', sw_moduleName = [],
     sw_moduleAliases = [], sw_moduleOutputPath = [], sw_sourcesList = [], sw_objectsList = [],
     sw_importPaths = [], sw_tempsPath = [], sw_otherArgs = [], sw_isLibrary = False,
     sw_enableWholeModuleOptimization = False, sw_numThreads = ''0''\<rparr>"

definition getSignature_swift :: "hashing \<Rightarrow> SwiftCompilerShellCommand \<Rightarrow> CommandSignature" where
  "getSignature_swift H cmd =
     (let code = getSignature_external H (sw_base cmd);
          code = combine_string H code (sw_executable cmd);
          code = combine_string H code (sw_moduleName cmd);
          code = combine_strings H (sw_moduleAliases cmd) code;
          code = combine_string H code (sw_moduleOutputPath cmd);
          code = combine_strings H (sw_sourcesList cmd) code;
          code = combine_strings H (sw_objectsList cmd) code;
          code = combine_strings H (sw_importPaths cmd) code;
          code = combine_string H code (sw_tempsPath cmd);
          code = combine_strings H (sw_otherArgs cmd) code
      in combine_bool H code (sw_isLibrary cmd))"

text \<open>The path functions of the vendored library that the command uses.\<close>

record swift_paths =
  sp_append :: "string \<Rightarrow> string \<Rightarrow> string"
  sp_parent :: "string \<Rightarrow> string"
  sp_stem :: "string \<Rightarrow> string"

definition getOutputFileMapPath :: "swift_paths \<Rightarrow> SwiftCompilerShellCommand \<Rightarrow> string" where
  "getOutputFileMapPath P cmd = sp_append P (sw_tempsPath cmd) ''output-file-map.json''"

definition constructCommandLineArgs :: "string \<Rightarrow> SwiftCompilerShellCommand \<Rightarrow> string list" where
  "constructCommandLineArgs outputFileMapPath cmd =
     [sw_executable cmd, ''-module-name'', sw_moduleName cmd]
     @ concat (map (\<lambda>alias. [''-module-alias'', alias]) (sw_moduleAliases cmd))
     @ [''-emit-dependencies'']
     @ (if sw_moduleOutputPath cmd \<noteq> [] then [''-emit-module'', ''-emit-module-path'', sw_moduleOutputPath cmd] else [])
     @ [''-output-file-map'', outputFileMapPath]
     @ (if sw_isLibrary cmd then [''-parse-as-library''] else [])
     @ (if sw_enableWholeModuleOptimization cmd
        then [''-whole-module-optimization'', ''-num-threads'', sw_numThreads cmd] else [''-incremental''])
     @ [''-c''] @ sw_sourcesList cmd
     @ concat (map (\<lambda>path. [''-I'', path]) (sw_importPaths cmd))
     @ sw_otherArgs cmd"

definition getShortDescription_swift :: "SwiftCompilerShellCommand \<Rightarrow> string" where
  "getShortDescription_swift cmd =
     ''Compiling Swift Module '' @ quoted (sw_moduleName cmd) @ '' (''
     @ decstr (int (length (sw_sourcesList cmd))) @ '' sources)''"

definition getVerboseDescription_swift :: "swift_paths \<Rightarrow> SwiftCompilerShellCommand \<Rightarrow> string" where
  "getVerboseDescription_swift P cmd =
     joinBlank (map blankQuoted (constructCommandLineArgs (getOutputFileMapPath P cmd) cmd))"

text \<open>\<^verbatim>\<open>StringRef::getAsInteger(10, int&)\<close>.\<close>

definition getAsInt :: "string \<Rightarrow> int option" where
  "getAsInt s =
     (if s \<noteq> [] \<and> hd s = CHR ''-''
      then do { n \<leftarrow> getAsInteger (tl s); if n \<le> 2 ^ 31 then Some (- int n) else None }
      else do { n \<leftarrow> getAsInteger s; if n < 2 ^ 31 then Some (int n) else None })"

definition lift_swift ::
  "ExternalCommand configured \<Rightarrow> SwiftCompilerShellCommand \<Rightarrow> SwiftCompilerShellCommand configured" where
  "lift_swift r cmd = map_option (map_sum id (\<lambda>b. cmd\<lparr>sw_base := b\<rparr>)) r"

fun configure_swift ::
  "string \<Rightarrow> attr_value \<Rightarrow> SwiftCompilerShellCommand \<Rightarrow> SwiftCompilerShellCommand configured" where
  "configure_swift name (AttrScalar val) cmd =
     (if name = ''executable'' then configured (cmd\<lparr>sw_executable := val\<rparr>)
      else if name = ''module-name'' then configured (cmd\<lparr>sw_moduleName := val\<rparr>)
      else if name = ''module-output-path'' then configured (cmd\<lparr>sw_moduleOutputPath := val\<rparr>)
      else if name = ''sources'' then configured (cmd\<lparr>sw_sourcesList := splitBlanks [] val\<rparr>)
      else if name = ''objects'' then configured (cmd\<lparr>sw_objectsList := splitBlanks [] val\<rparr>)
      else if name = ''import-paths'' then configured (cmd\<lparr>sw_importPaths := splitBlanks [] val\<rparr>)
      else if name = ''temps-path'' then configured (cmd\<lparr>sw_tempsPath := val\<rparr>)
      else if name = ''is-library'' then
        configure_bool name val (cmd\<lparr>sw_isLibrary := True\<rparr>) (cmd\<lparr>sw_isLibrary := False\<rparr>)
      else if name = ''enable-whole-module-optimization'' then
        configure_bool name val (cmd\<lparr>sw_enableWholeModuleOptimization := True\<rparr>)
          (cmd\<lparr>sw_enableWholeModuleOptimization := False\<rparr>)
      else if name = ''num-threads'' then
        (case getAsInt val of
           None \<Rightarrow> Some (Inl (quoted name @ '' should be an int.''))
         | Some n \<Rightarrow>
             if n < 0 then Some (Inl (quoted name @ '' should be greater than or equal to zero.''))
             else configured (cmd\<lparr>sw_numThreads := val\<rparr>))
      else if name = ''other-args'' then configured (cmd\<lparr>sw_otherArgs := splitBlanks [] val\<rparr>)
      else lift_swift (configureExternal name val (sw_base cmd)) cmd)"
| "configure_swift name (AttrValues vals) cmd =
     (if name = ''sources'' then configured (cmd\<lparr>sw_sourcesList := vals\<rparr>)
      else if name = ''objects'' then configured (cmd\<lparr>sw_objectsList := vals\<rparr>)
      else if name = ''import-paths'' then configured (cmd\<lparr>sw_importPaths := vals\<rparr>)
      else if name = ''other-args'' then configured (cmd\<lparr>sw_otherArgs := vals\<rparr>)
      else if name = ''module-aliases'' then configured (cmd\<lparr>sw_moduleAliases := vals\<rparr>)
      else lift_swift (configureExternal_values name vals (sw_base cmd)) cmd)"
| "configure_swift name (AttrPairs vals) cmd =
     lift_swift (configureExternal_pairs name vals (sw_base cmd)) cmd"

text \<open>One line \<^verbatim>\<open>"key": "value"\<close> of the output file map.\<close>

definition nl :: string where
  "nl = [CHR 0x0A]"

definition jsonLiteral :: "string \<Rightarrow> string" where
  "jsonLiteral s = [CHR 0x22] @ escapeForJSON s @ [CHR 0x22]"

definition mapLine :: "string \<Rightarrow> string \<Rightarrow> bool \<Rightarrow> string" where
  "mapLine key val isLast =
     ''    '' @ [CHR 0x22] @ key @ [CHR 0x22] @ '': '' @ jsonLiteral val @ (if isLast then [] else '','') @ nl"

definition masterEntry :: "swift_paths \<Rightarrow> SwiftCompilerShellCommand \<Rightarrow> string \<times> string list" where
  "masterEntry P cmd =
     (let masterDepsPath = sp_append P (sw_tempsPath cmd) ''master.swiftdeps'';
          depsPath = sp_append P (sw_tempsPath cmd) (sw_moduleName cmd @ ''.d'');
          object = sp_append P (sw_tempsPath cmd) (sw_moduleName cmd @ ''.o'');
          wmo = sw_enableWholeModuleOptimization cmd
      in (''  '' @ [CHR 0x22, CHR 0x22] @ '': {'' @ nl
          @ (if wmo then mapLine ''dependencies'' depsPath False @ mapLine ''object'' object False else [])
          @ mapLine ''swift-dependencies'' masterDepsPath True
          @ ''  },'' @ nl,
          if wmo then [depsPath] else []))"

definition sourceEntry ::
  "swift_paths \<Rightarrow> SwiftCompilerShellCommand \<Rightarrow> string \<Rightarrow> string \<Rightarrow> bool \<Rightarrow> string \<times> string list" where
  "sourceEntry P cmd source object isLast =
     (let objectDir = sp_parent P object;
          sourceStem = sp_stem P source;
          partialModulePath = sp_append P objectDir (sourceStem @ ''~partial.swiftmodule'');
          swiftDepsPath = sp_append P objectDir (sourceStem @ ''.swiftdeps'');
          depsPath = sp_append P objectDir (sourceStem @ ''.d'');
          perFile = \<not> sw_enableWholeModuleOptimization cmd
      in (''  '' @ jsonLiteral source @ '': {'' @ nl
          @ (if perFile then mapLine ''dependencies'' depsPath False else [])
          @ mapLine ''object'' object False
          @ mapLine ''swiftmodule'' partialModulePath False
          @ mapLine ''swift-dependencies'' swiftDepsPath True
          @ ''  }'' @ (if isLast then [] else '','') @ nl,
          if perFile then [depsPath] else []))"

fun sourceEntries ::
  "swift_paths \<Rightarrow> SwiftCompilerShellCommand \<Rightarrow> (string \<times> string) list \<Rightarrow> string \<times> string list" where
  "sourceEntries P cmd [] = ([], [])"
| "sourceEntries P cmd ((source, object) # rest) =
     (let (text, deps) = sourceEntry P cmd source object (rest = []);
          (text', deps') = sourceEntries P cmd rest
      in (text @ text', deps @ deps'))"

text \<open>
  \<^verbatim>\<open>writeOutputFileMap\<close>: what is written to the file, and the dependency files. \<open>None\<close> is the failed
  assertion on the numbers of sources and objects.
\<close>

definition outputFileMap :: "swift_paths \<Rightarrow> SwiftCompilerShellCommand \<Rightarrow> (string \<times> string list) option" where
  "outputFileMap P cmd =
     (if length (sw_sourcesList cmd) \<noteq> length (sw_objectsList cmd) then None
      else
        let (master, masterDeps) = masterEntry P cmd;
            (entries, deps) = sourceEntries P cmd (zip (sw_sourcesList cmd) (sw_objectsList cmd))
        in Some (''{'' @ nl @ master @ entries @ ''}'' @ nl, masterDeps @ deps))"

text \<open>The actions of the dependency parser, which count the rules seen; only the first is processed.\<close>

fun swiftActions :: "string \<Rightarrow> nat \<Rightarrow> mk_event list \<Rightarrow> deps_event list" where
  "swiftActions depsPath ruleNumber [] = []"
| "swiftActions depsPath ruleNumber (ev # evs) =
     (case ev of
        MkError message position \<Rightarrow>
          DepsError (''error reading dependency file '' @ quoted depsPath @ '': '' @ message)
          # swiftActions depsPath ruleNumber evs
      | RuleDependency dependency unescapedWord \<Rightarrow>
          (if ruleNumber = 0 then discovered unescapedWord else []) @ swiftActions depsPath ruleNumber evs
      | RuleStart name unescapedWord \<Rightarrow> swiftActions depsPath ruleNumber evs
      | RuleEnd \<Rightarrow> swiftActions depsPath (ruleNumber + 1) evs)"

definition processDiscoveredDependencies_swift ::
  "(string \<Rightarrow> byte list option) \<Rightarrow> string \<Rightarrow> (bool \<times> deps_event list) option" where
  "processDiscoveredDependencies_swift contents depsPath =
     (case contents depsPath of
        None \<Rightarrow> Some (False, [DepsError (''unable to open dependencies file ('' @ depsPath @ '')'')])
      | Some input \<Rightarrow>
          map_option (\<lambda>evs. (\<not> list_ex is_mk_error evs, swiftActions depsPath 0 evs))
            (parseMakefileDeps False (chars input)))"

primrec processSwiftDepsFiles ::
  "(string \<Rightarrow> byte list option) \<Rightarrow> string list \<Rightarrow> (bool \<times> deps_event list) option" where
  "processSwiftDepsFiles contents [] = Some (True, [])"
| "processSwiftDepsFiles contents (depsPath # rest) = do {
     (good, evs) \<leftarrow> processDiscoveredDependencies_swift contents depsPath;
     if \<not> good then Some (False, evs)
     else do {
       (good', evs') \<leftarrow> processSwiftDepsFiles contents rest;
       Some (good', evs @ evs') } }"

definition versionInputID :: u64 where
  "versionInputID = kMaximumInputID - 1"

definition start_swift ::
  "SwiftCompilerShellCommand \<Rightarrow> SwiftCompilerShellCommand \<times> (byte list \<times> u64) list" where
  "start_swift cmd =
     (case start_external (sw_base cmd) of
        (base, requests) \<Rightarrow>
          (cmd\<lparr>sw_base := base\<rparr>,
           requests @ [(makeCustomTask (bytes ''swift-get-version'') (bytes (sw_executable cmd)), versionInputID)]))"

definition provideValue_swift ::
  "u64 \<Rightarrow> byte list \<Rightarrow> BuildValue \<Rightarrow> SwiftCompilerShellCommand \<Rightarrow> SwiftCompilerShellCommand option" where
  "provideValue_swift inputID key v cmd =
     (if inputID = versionInputID then Some cmd
      else map_option (\<lambda>base. cmd\<lparr>sw_base := base\<rparr>) (provideValue_external inputID key v (sw_base cmd)))"

text \<open>The configuration errors that \<^verbatim>\<open>executeExternalCommand\<close> tests for, in its order.\<close>

definition swiftConfigurationError :: "SwiftCompilerShellCommand \<Rightarrow> string option" where
  "swiftConfigurationError cmd =
     (if sw_sourcesList cmd = [] then Some (''no configured '' @ quoted ''sources'')
      else if sw_objectsList cmd = [] then Some (''no configured '' @ quoted ''objects'')
      else if sw_moduleName cmd = [] then Some (''no configured '' @ quoted ''module-name'')
      else if sw_tempsPath cmd = [] then Some (''no configured '' @ quoted ''temps-path'')
      else if length (sw_sourcesList cmd) \<noteq> length (sw_objectsList cmd)
      then Some (quoted ''sources'' @ '' and '' @ quoted ''objects'' @ '' are not the same size'')
      else None)"

text \<open>
  The run of the compiler. \<open>createDirectories\<close> and \<open>writeFile\<close> act on the file system \<open>fs\<close>;
  \<open>contents\<close> are the files after the compiler has run. The result has the status handed to the
  completion function and what was reported on the way.
\<close>

text \<open>
  \<open>SwiftSpawn\<close> is the call of \<^verbatim>\<open>ti.spawn\<close>, which hands the command line to the queue; whether a
  process is started is up to \<^const>\<open>executeProcess\<close>, and on a cancelled queue none is.
\<close>

datatype swift_event =
    SwiftError string
  | SwiftCommandError string
  | SwiftSpawn "string list"
  | SwiftDeps "deps_event list"

definition finishSwift ::
  "(string \<Rightarrow> byte list option) \<Rightarrow> string list \<Rightarrow> ProcessStatus \<Rightarrow> (ProcessStatus \<times> swift_event list) option" where
  "finishSwift contents depsFiles status =
     (if status \<noteq> Succeeded then Some (status, [])
      else do {
        (good, evs) \<leftarrow> processSwiftDepsFiles contents depsFiles;
        Some (if good then status else Failed, [SwiftDeps evs]) })"

definition execute_swift ::
  "swift_paths \<Rightarrow> spawn_os \<Rightarrow> (string \<Rightarrow> 'fs \<Rightarrow> bool \<times> 'fs) \<Rightarrow> (string \<Rightarrow> string \<Rightarrow> 'fs \<Rightarrow> bool \<times> 'fs)
   \<Rightarrow> (string \<Rightarrow> byte list option) \<Rightarrow> nat \<Rightarrow> u64 \<Rightarrow> LaneBasedExecutionQueue \<Rightarrow> SwiftCompilerShellCommand \<Rightarrow> 'fs
   \<Rightarrow> (ProcessStatus \<times> swift_event list \<times> 'fs) option" where
  "execute_swift P os createDirectories writeFile contents laneNumber ident q cmd fs =
     (case swiftConfigurationError cmd of
        Some message \<Rightarrow> Some (Failed, [SwiftError message], fs)
      | None \<Rightarrow>
          let fs = snd (createDirectories (sw_tempsPath cmd) fs);
              path = getOutputFileMapPath P cmd;
              commandLine = constructCommandLineArgs path cmd
          in do {
            (text, depsFiles) \<leftarrow> outputFileMap P cmd;
            (case writeFile path text fs of
               (False, fs) \<Rightarrow>
                 Some (Failed, [SwiftCommandError (''unable to create output file map: '' @ quoted path)], fs)
             | (True, fs) \<Rightarrow> do {
                 status \<leftarrow> executeProcessStatus os laneNumber ident commandLine q;
                 (final, evs) \<leftarrow> finishSwift contents depsFiles status;
                 Some (final, SwiftSpawn commandLine # evs, fs) }) })"

section \<open>Archive\<close>

record ArchiveShellCommand =
  ar_base :: ExternalCommand
  ar_archiveName :: string
  ar_archiveInputs :: "string list"

definition newArchive :: "string \<Rightarrow> ArchiveShellCommand" where
  "newArchive name = \<lparr>ar_base = newExternalCommand name, ar_archiveName = [], ar_archiveInputs = []\<rparr>"

text \<open>The names of the nodes that are files.\<close>

definition fileNames :: "BuildNode list \<Rightarrow> string list" where
  "fileNames nodes = map node_name (filter (\<lambda>node. \<not> isVirtual node) nodes)"

text \<open>
  The loop over the outputs that looks for the name of the product: the name, and an error for
  every further file.
\<close>

fun productName :: "string \<Rightarrow> string list \<Rightarrow> string \<times> string list" where
  "productName name [] = (name, [])"
| "productName name (output # outputs) =
     (if name = [] then productName output outputs
      else case productName name outputs of
             (product, errors) \<Rightarrow> (product, (''unexpected explicit output: '' @ output) # errors))"

definition configureInputs_archive ::
  "BuildNode list \<Rightarrow> ArchiveShellCommand \<Rightarrow> string list \<times> ArchiveShellCommand" where
  "configureInputs_archive nodes cmd =
     (let base = configureInputs nodes (ar_base cmd);
          inputs = ar_archiveInputs cmd @ fileNames (ec_inputs base)
      in (if inputs = [] then [''missing expected input''] else [],
          cmd\<lparr>ar_base := base, ar_archiveInputs := inputs\<rparr>))"

definition configureOutputs_archive ::
  "BuildNode list \<Rightarrow> ArchiveShellCommand \<Rightarrow> string list \<times> ArchiveShellCommand" where
  "configureOutputs_archive nodes cmd =
     (let base = configureOutputs nodes (ar_base cmd);
          (name, errors) = productName (ar_archiveName cmd) (fileNames (ec_outputs base))
      in (errors @ (if name = [] then [''missing expected output''] else []),
          cmd\<lparr>ar_base := base, ar_archiveName := name\<rparr>))"

text \<open>\<open>AR\<close> is the value of the environment variable, if set.\<close>

definition getArgs_archive :: "string option \<Rightarrow> ArchiveShellCommand \<Rightarrow> string list" where
  "getArgs_archive AR cmd =
     [case AR of Some ar \<Rightarrow> ar | None \<Rightarrow> ''ar'', ''cr'', ar_archiveName cmd] @ ar_archiveInputs cmd"

definition getShortDescription_archive :: "ArchiveShellCommand \<Rightarrow> string" where
  "getShortDescription_archive cmd =
     (if ec_description (ar_base cmd) = [] then ''Archiving '' @ ar_archiveName cmd
      else ec_description (ar_base cmd))"

definition getVerboseDescription_archive :: "string option \<Rightarrow> ArchiveShellCommand \<Rightarrow> string" where
  "getVerboseDescription_archive AR cmd = joinBlank (getArgs_archive AR cmd)"

text \<open>\<open>remove\<close> is \<^verbatim>\<open>fs::remove\<close> with \<^verbatim>\<open>IgnoreNonExisting\<close>; true means no error.\<close>

definition execute_archive ::
  "string option \<Rightarrow> (string \<Rightarrow> 'fs \<Rightarrow> bool \<times> 'fs) \<Rightarrow> spawn_os \<Rightarrow> nat \<Rightarrow> u64 \<Rightarrow> LaneBasedExecutionQueue
   \<Rightarrow> ArchiveShellCommand \<Rightarrow> 'fs \<Rightarrow> (proc_event list \<times> ProcessResult \<times> 'fs) option" where
  "execute_archive AR remove os laneNumber ident q cmd fs =
     (case remove (ar_archiveName cmd) fs of
        (False, fs) \<Rightarrow> Some ([], mkProcessResult Failed (- 1), fs)
      | (True, fs) \<Rightarrow> do {
          (log, result) \<leftarrow> spawnToCompletion os laneNumber ident (getArgs_archive AR cmd) q;
          Some (log, result, fs) })"

section \<open>Shared library\<close>

record SharedLibraryShellCommand =
  sl_base :: ExternalCommand
  sl_executable :: string
  sl_sharedLibName :: string
  sl_compilerStyle :: string
  sl_sharedLibInputs :: "string list"
  sl_otherArgs :: "string list"

definition newSharedLibrary :: "string \<Rightarrow> SharedLibraryShellCommand" where
  "newSharedLibrary name = \<lparr>sl_base = newExternalCommand name, sl_executable = [], sl_sharedLibName = [],
     sl_compilerStyle = [], sl_sharedLibInputs = [], sl_otherArgs = []\<rparr>"

definition configureInputs_sharedLibrary ::
  "BuildNode list \<Rightarrow> SharedLibraryShellCommand \<Rightarrow> string list \<times> SharedLibraryShellCommand" where
  "configureInputs_sharedLibrary nodes cmd =
     (let base = configureInputs nodes (sl_base cmd);
          inputs = sl_sharedLibInputs cmd @ fileNames (ec_inputs base)
      in (if inputs = [] then [''SharedLibraryTool requires inputs to be specified''] else [],
          cmd\<lparr>sl_base := base, sl_sharedLibInputs := inputs\<rparr>))"

definition configureOutputs_sharedLibrary ::
  "BuildNode list \<Rightarrow> SharedLibraryShellCommand \<Rightarrow> string list \<times> SharedLibraryShellCommand" where
  "configureOutputs_sharedLibrary nodes cmd =
     (let base = configureOutputs nodes (sl_base cmd);
          (name, errors) = productName (sl_sharedLibName cmd) (fileNames (ec_outputs base))
      in (errors @ (if name = []
                    then [''SharedLibraryTool requires the resulting shared library name to be specified''] else []),
          cmd\<lparr>sl_base := base, sl_sharedLibName := name\<rparr>))"

definition lift_sharedLibrary ::
  "ExternalCommand configured \<Rightarrow> SharedLibraryShellCommand \<Rightarrow> SharedLibraryShellCommand configured" where
  "lift_sharedLibrary r cmd = map_option (map_sum id (\<lambda>b. cmd\<lparr>sl_base := b\<rparr>)) r"

text \<open>The outcome of an attribute for a command that reports at most the error it fails with.\<close>

definition attributed :: "'c configured \<Rightarrow> (string list \<times> 'c option) option" where
  "attributed r = map_option (\<lambda>s. case s of Inl message \<Rightarrow> ([message], None) | Inr c \<Rightarrow> ([], Some c)) r"

text \<open>
  An unknown scalar attribute is accepted and dropped; an unknown compiler style is reported and
  stored.
\<close>

definition styleError :: "string \<Rightarrow> string list" where
  "styleError val =
     (if val \<in> {''cl'', ''clang'', ''swiftc''} then []
      else [''Unsupported : compiler-style'' @ quoted val
            @ '' for shared libraries'' @ [CHR 0x27] @ ''.  Supported styles are cl, clang, and swiftc''])"

fun configure_sharedLibrary ::
  "string \<Rightarrow> attr_value \<Rightarrow> SharedLibraryShellCommand \<Rightarrow> (string list \<times> SharedLibraryShellCommand option) option" where
  "configure_sharedLibrary name (AttrScalar val) cmd =
     (if name = ''executable'' then Some ([], Some (cmd\<lparr>sl_executable := val\<rparr>))
      else if name = ''other-args'' then Some ([], Some (cmd\<lparr>sl_otherArgs := splitBlanks [] val\<rparr>))
      else if name = ''compiler-style'' then Some (styleError val, Some (cmd\<lparr>sl_compilerStyle := val\<rparr>))
      else Some ([], Some cmd))"
| "configure_sharedLibrary name (AttrValues vals) cmd =
     (if name = ''other-args'' then Some ([], Some (cmd\<lparr>sl_otherArgs := vals\<rparr>))
      else attributed (lift_sharedLibrary (configureExternal_values name vals (sl_base cmd)) cmd))"
| "configure_sharedLibrary name (AttrPairs vals) cmd =
     attributed (lift_sharedLibrary (configureExternal_pairs name vals (sl_base cmd)) cmd)"

definition getArgs_sharedLibrary :: "SharedLibraryShellCommand \<Rightarrow> string list" where
  "getArgs_sharedLibrary cmd =
     (if sl_compilerStyle cmd = ''swiftc'' then
        [sl_executable cmd, ''-emit-library''] @ sl_sharedLibInputs cmd @ [''-o'', sl_sharedLibName cmd] @ sl_otherArgs cmd
      else if sl_compilerStyle cmd = ''clang'' then
        [sl_executable cmd] @ sl_sharedLibInputs cmd @ [''-o'', sl_sharedLibName cmd] @ sl_otherArgs cmd @ [''-shared'']
      else if sl_compilerStyle cmd = ''cl'' then
        [sl_executable cmd] @ sl_sharedLibInputs cmd
        @ [''/o'', sl_sharedLibName cmd, ''/LD'', ''/MD'', ''/link'', ''MSVCRT.lib'']
      else [])"

definition getShortDescription_sharedLibrary :: "SharedLibraryShellCommand \<Rightarrow> string" where
  "getShortDescription_sharedLibrary cmd =
     (if ec_description (sl_base cmd) = [] then ''Creating Shared library: '' @ sl_sharedLibName cmd
      else ec_description (sl_base cmd))"

definition getVerboseDescription_sharedLibrary :: "SharedLibraryShellCommand \<Rightarrow> string" where
  "getVerboseDescription_sharedLibrary cmd = joinBlank (getArgs_sharedLibrary cmd)"

definition getSignature_sharedLibrary :: "hashing \<Rightarrow> SharedLibraryShellCommand \<Rightarrow> CommandSignature" where
  "getSignature_sharedLibrary H cmd = getSignature_external H (sl_base cmd)"

definition execute_sharedLibrary ::
  "spawn_os \<Rightarrow> nat \<Rightarrow> u64 \<Rightarrow> LaneBasedExecutionQueue \<Rightarrow> SharedLibraryShellCommand
   \<Rightarrow> (proc_event list \<times> ProcessResult) option" where
  "execute_sharedLibrary os laneNumber ident q cmd =
     spawnToCompletion os laneNumber ident (getArgs_sharedLibrary cmd) q"

end
