(* ===== verification/BuildSystemDelegate.thy ===== *)
theory BuildSystemDelegate
  imports BuildSystemTools
begin

text \<open>
  The builtin tools as the build file loader sees them: the tool classes of
  \<^verbatim>\<open>lib/BuildSystem/BuildSystem.cpp\<close>, the virtual functions of their commands that configure them,
  and \<^verbatim>\<open>BuildSystemFileDelegate\<close>. The result is an instance of the loader's delegate on which the
  properties of the loader are stated.
\<close>

section \<open>Tools\<close>

datatype Tool =
    PhonyTool
  | ShellTool bool
  | ClangTool
  | MkdirTool
  | SymlinkTool bool
  | ArchiveTool
  | SharedLibraryTool
  | StaleFileRemovalTool
  | SwiftCompilerTool

text \<open>The attributes of each tool. Only the shell and the symlink tool have any, both scalar.\<close>

definition configure_phonyTool :: "string \<Rightarrow> attr_value \<Rightarrow> Tool configured" where
  "configure_phonyTool name v = unexpected_attribute name"

fun configure_shellTool :: "string \<Rightarrow> attr_value \<Rightarrow> Tool configured" where
  "configure_shellTool name (AttrScalar val) =
     (if name = ''control-enabled'' then configure_bool name val (ShellTool True) (ShellTool False)
      else unexpected_attribute name)"
| "configure_shellTool name (AttrValues vals) = unexpected_attribute name"
| "configure_shellTool name (AttrPairs vals) = unexpected_attribute name"

definition configure_clangTool :: "string \<Rightarrow> attr_value \<Rightarrow> Tool configured" where
  "configure_clangTool name v = unexpected_attribute name"

definition configure_swiftTool :: "string \<Rightarrow> attr_value \<Rightarrow> Tool configured" where
  "configure_swiftTool name v = unexpected_attribute name"

definition configure_mkdirTool :: "string \<Rightarrow> attr_value \<Rightarrow> Tool configured" where
  "configure_mkdirTool name v = unexpected_attribute name"

fun configure_symlinkTool :: "string \<Rightarrow> attr_value \<Rightarrow> Tool configured" where
  "configure_symlinkTool name (AttrScalar val) =
     (if name = ''repair-via-ownership-analysis'' then
        (if val = ''true'' then configured (SymlinkTool True)
         else if val = ''false'' then configured (SymlinkTool False)
         else Some (Inl (''invalid value for attribute: '' @ quoted name)))
      else unexpected_attribute name)"
| "configure_symlinkTool name (AttrValues vals) = unexpected_attribute name"
| "configure_symlinkTool name (AttrPairs vals) = unexpected_attribute name"

definition configure_archiveTool :: "string \<Rightarrow> attr_value \<Rightarrow> Tool configured" where
  "configure_archiveTool name v = unexpected_attribute name"

definition configure_sharedLibraryTool :: "string \<Rightarrow> attr_value \<Rightarrow> Tool configured" where
  "configure_sharedLibraryTool name v = unexpected_attribute name"

definition configure_staleTool :: "string \<Rightarrow> attr_value \<Rightarrow> Tool configured" where
  "configure_staleTool name v = unexpected_attribute name"

fun configure_tool :: "string \<Rightarrow> attr_value \<Rightarrow> Tool \<Rightarrow> Tool configured" where
  "configure_tool name v PhonyTool = configure_phonyTool name v"
| "configure_tool name v (ShellTool controlEnabled) = configure_shellTool name v"
| "configure_tool name v ClangTool = configure_clangTool name v"
| "configure_tool name v SwiftCompilerTool = configure_swiftTool name v"
| "configure_tool name v MkdirTool = configure_mkdirTool name v"
| "configure_tool name v (SymlinkTool repair) = configure_symlinkTool name v"
| "configure_tool name v ArchiveTool = configure_archiveTool name v"
| "configure_tool name v SharedLibraryTool = configure_sharedLibraryTool name v"
| "configure_tool name v StaleFileRemovalTool = configure_staleTool name v"

datatype BuiltinCommand =
    PhonyCommand ExternalCommand
  | ShellCmd ShellCommand
  | ClangCmd ClangShellCommand
  | MkdirCmd ExternalCommand
  | SymlinkCmd SymlinkCommand
  | ArchiveCmd ArchiveShellCommand
  | SharedLibraryCmd SharedLibraryShellCommand
  | StaleCmd StaleFileRemovalCommand
  | SwiftCmd SwiftCompilerShellCommand

definition newSymlink :: "string \<Rightarrow> bool \<Rightarrow> SymlinkCommand" where
  "newSymlink name repair = \<lparr>sy_name = name, sy_inputs = [], sy_outputs = [], sy_linkOutputPath = [],
     sy_description = [], sy_contents = [], sy_repairViaOwnershipAnalysis = repair\<rparr>"

fun createCommand_tool :: "string \<Rightarrow> Tool \<Rightarrow> BuiltinCommand option" where
  "createCommand_tool name PhonyTool = Some (PhonyCommand (newExternalCommand name))"
| "createCommand_tool name (ShellTool controlEnabled) = Some (ShellCmd (newShellCommand name controlEnabled))"
| "createCommand_tool name ClangTool = Some (ClangCmd (newClang name))"
| "createCommand_tool name MkdirTool = Some (MkdirCmd (newExternalCommand name))"
| "createCommand_tool name (SymlinkTool repair) = Some (SymlinkCmd (newSymlink name repair))"
| "createCommand_tool name ArchiveTool = Some (ArchiveCmd (newArchive name))"
| "createCommand_tool name SharedLibraryTool = Some (SharedLibraryCmd (newSharedLibrary name))"
| "createCommand_tool name StaleFileRemovalTool = Some (StaleCmd (newStaleFileRemoval name))"
| "createCommand_tool name SwiftCompilerTool = Some (SwiftCmd (newSwift name))"

text \<open>Only the Swift compiler makes a custom command, for the version of the compiler.\<close>

fun createCustomCommand_tool :: "byte list \<Rightarrow> Tool \<Rightarrow> SwiftGetVersionCommand option" where
  "createCustomCommand_tool key SwiftCompilerTool =
     (if getCustomTaskName key = Some (bytes ''swift-get-version'') then newSwiftGetVersion key else None)"
| "createCustomCommand_tool key _ = None"

section \<open>Configuration of commands\<close>

fun configureDescription_builtin :: "string \<Rightarrow> BuiltinCommand \<Rightarrow> BuiltinCommand" where
  "configureDescription_builtin val (PhonyCommand c) = PhonyCommand (configureDescription val c)"
| "configureDescription_builtin val (ShellCmd c) = ShellCmd (c\<lparr>sc_base := configureDescription val (sc_base c)\<rparr>)"
| "configureDescription_builtin val (ClangCmd c) = ClangCmd (c\<lparr>ck_base := configureDescription val (ck_base c)\<rparr>)"
| "configureDescription_builtin val (MkdirCmd c) = MkdirCmd (configureDescription val c)"
| "configureDescription_builtin val (SymlinkCmd c) = SymlinkCmd (c\<lparr>sy_description := val\<rparr>)"
| "configureDescription_builtin val (ArchiveCmd c) = ArchiveCmd (c\<lparr>ar_base := configureDescription val (ar_base c)\<rparr>)"
| "configureDescription_builtin val (SharedLibraryCmd c) =
     SharedLibraryCmd (c\<lparr>sl_base := configureDescription val (sl_base c)\<rparr>)"
| "configureDescription_builtin val (StaleCmd c) = StaleCmd (c\<lparr>sf_description := val\<rparr>)"
| "configureDescription_builtin val (SwiftCmd c) = SwiftCmd (c\<lparr>sw_base := configureDescription val (sw_base c)\<rparr>)"

fun configureInputs_builtin :: "BuildNode list \<Rightarrow> BuiltinCommand \<Rightarrow> string list \<times> BuiltinCommand" where
  "configureInputs_builtin nodes (PhonyCommand c) = ([], PhonyCommand (configureInputs nodes c))"
| "configureInputs_builtin nodes (ShellCmd c) = ([], ShellCmd (c\<lparr>sc_base := configureInputs nodes (sc_base c)\<rparr>))"
| "configureInputs_builtin nodes (ClangCmd c) = ([], ClangCmd (c\<lparr>ck_base := configureInputs nodes (ck_base c)\<rparr>))"
| "configureInputs_builtin nodes (MkdirCmd c) = ([], MkdirCmd (configureInputs nodes c))"
| "configureInputs_builtin nodes (SymlinkCmd c) = ([], SymlinkCmd (configureInputs_symlink nodes c))"
| "configureInputs_builtin nodes (ArchiveCmd c) = map_prod id ArchiveCmd (configureInputs_archive nodes c)"
| "configureInputs_builtin nodes (SharedLibraryCmd c) =
     map_prod id SharedLibraryCmd (configureInputs_sharedLibrary nodes c)"
| "configureInputs_builtin nodes (StaleCmd c) = ([], StaleCmd c)"
| "configureInputs_builtin nodes (SwiftCmd c) = ([], SwiftCmd (c\<lparr>sw_base := configureInputs nodes (sw_base c)\<rparr>))"

fun configureOutputs_builtin :: "BuildNode list \<Rightarrow> BuiltinCommand \<Rightarrow> string list \<times> BuiltinCommand" where
  "configureOutputs_builtin nodes (PhonyCommand c) = ([], PhonyCommand (configureOutputs nodes c))"
| "configureOutputs_builtin nodes (ShellCmd c) = ([], ShellCmd (c\<lparr>sc_base := configureOutputs nodes (sc_base c)\<rparr>))"
| "configureOutputs_builtin nodes (ClangCmd c) = ([], ClangCmd (c\<lparr>ck_base := configureOutputs nodes (ck_base c)\<rparr>))"
| "configureOutputs_builtin nodes (MkdirCmd c) = ([], MkdirCmd (configureOutputs nodes c))"
| "configureOutputs_builtin nodes (SymlinkCmd c) =
     (case configureOutputs_symlink nodes c of
        Inl message \<Rightarrow> ([message], SymlinkCmd c)
      | Inr c' \<Rightarrow> ([], SymlinkCmd c'))"
| "configureOutputs_builtin nodes (ArchiveCmd c) = map_prod id ArchiveCmd (configureOutputs_archive nodes c)"
| "configureOutputs_builtin nodes (SharedLibraryCmd c) =
     map_prod id SharedLibraryCmd (configureOutputs_sharedLibrary nodes c)"
| "configureOutputs_builtin nodes (StaleCmd c) = ([], StaleCmd c)"
| "configureOutputs_builtin nodes (SwiftCmd c) = ([], SwiftCmd (c\<lparr>sw_base := configureOutputs nodes (sw_base c)\<rparr>))"

text \<open>The three overloads of \<^verbatim>\<open>configureAttribute\<close> of the external, shell and other commands.\<close>

fun external_attribute :: "string \<Rightarrow> attr_value \<Rightarrow> ExternalCommand \<Rightarrow> ExternalCommand configured" where
  "external_attribute name (AttrScalar val) c = configureExternal name val c"
| "external_attribute name (AttrValues vals) c = configureExternal_values name vals c"
| "external_attribute name (AttrPairs vals) c = configureExternal_pairs name vals c"

fun shell_attribute :: "(string \<Rightarrow> string) \<Rightarrow> string \<Rightarrow> attr_value \<Rightarrow> ShellCommand \<Rightarrow> ShellCommand configured" where
  "shell_attribute absolute name (AttrScalar val) c = configure_shell absolute name val c"
| "shell_attribute absolute name (AttrValues vals) c = configure_shell_values name vals c"
| "shell_attribute absolute name (AttrPairs vals) c = configure_shell_pairs name vals c"

fun symlink_attribute :: "string \<Rightarrow> attr_value \<Rightarrow> SymlinkCommand \<Rightarrow> SymlinkCommand configured" where
  "symlink_attribute name (AttrScalar val) c = configure_symlink name val c"
| "symlink_attribute name _ c = unexpected_attribute name"

fun stale_attribute ::
  "string \<Rightarrow> attr_value \<Rightarrow> StaleFileRemovalCommand \<Rightarrow> StaleFileRemovalCommand configured" where
  "stale_attribute name (AttrValues vals) c = configure_stale name vals c"
| "stale_attribute name _ c = unexpected_attribute name"

definition archive_attribute :: "string \<Rightarrow> attr_value \<Rightarrow> ArchiveShellCommand \<Rightarrow> ArchiveShellCommand configured" where
  "archive_attribute name v c = map_option (map_sum id (\<lambda>b. c\<lparr>ar_base := b\<rparr>)) (external_attribute name v (ar_base c))"

text \<open>An accepted command put back under its constructor.\<close>

definition wrap :: "('a \<Rightarrow> BuiltinCommand) \<Rightarrow> (string list \<times> 'a option) option
   \<Rightarrow> (string list \<times> BuiltinCommand option) option" where
  "wrap C r = map_option (map_prod id (map_option C)) r"

fun configure_builtin ::
  "(string \<Rightarrow> string) \<Rightarrow> string \<Rightarrow> attr_value \<Rightarrow> BuiltinCommand \<Rightarrow> (string list \<times> BuiltinCommand option) option" where
  "configure_builtin absolute name v (PhonyCommand c) = wrap PhonyCommand (attributed (external_attribute name v c))"
| "configure_builtin absolute name v (ShellCmd c) = wrap ShellCmd (attributed (shell_attribute absolute name v c))"
| "configure_builtin absolute name v (ClangCmd c) = wrap ClangCmd (attributed (configure_clang name v c))"
| "configure_builtin absolute name v (MkdirCmd c) = wrap MkdirCmd (attributed (external_attribute name v c))"
| "configure_builtin absolute name v (SymlinkCmd c) = wrap SymlinkCmd (attributed (symlink_attribute name v c))"
| "configure_builtin absolute name v (ArchiveCmd c) = wrap ArchiveCmd (attributed (archive_attribute name v c))"
| "configure_builtin absolute name v (SharedLibraryCmd c) = wrap SharedLibraryCmd (configure_sharedLibrary name v c)"
| "configure_builtin absolute name v (StaleCmd c) = wrap StaleCmd (attributed (stale_attribute name v c))"
| "configure_builtin absolute name v (SwiftCmd c) = wrap SwiftCmd (attributed (configure_swift name v c))"

fun configureEnvironmentBase_builtin :: "(string \<times> string) list \<Rightarrow> BuiltinCommand \<Rightarrow> BuiltinCommand option" where
  "configureEnvironmentBase_builtin bindings (ShellCmd c) = Some (ShellCmd (configureEnvironmentBase bindings c))"
| "configureEnvironmentBase_builtin bindings _ = None"

section \<open>Nodes and flags of commands\<close>

fun builtin_base :: "BuiltinCommand \<Rightarrow> ExternalCommand option" where
  "builtin_base (PhonyCommand c) = Some c"
| "builtin_base (ShellCmd c) = Some (sc_base c)"
| "builtin_base (ClangCmd c) = Some (ck_base c)"
| "builtin_base (MkdirCmd c) = Some c"
| "builtin_base (SymlinkCmd c) = None"
| "builtin_base (ArchiveCmd c) = Some (ar_base c)"
| "builtin_base (SharedLibraryCmd c) = Some (sl_base c)"
| "builtin_base (StaleCmd c) = None"
| "builtin_base (SwiftCmd c) = Some (sw_base c)"

fun update_base :: "(ExternalCommand \<Rightarrow> ExternalCommand) \<Rightarrow> BuiltinCommand \<Rightarrow> BuiltinCommand" where
  "update_base f (PhonyCommand c) = PhonyCommand (f c)"
| "update_base f (ShellCmd c) = ShellCmd (c\<lparr>sc_base := f (sc_base c)\<rparr>)"
| "update_base f (ClangCmd c) = ClangCmd (c\<lparr>ck_base := f (ck_base c)\<rparr>)"
| "update_base f (MkdirCmd c) = MkdirCmd (f c)"
| "update_base f (ArchiveCmd c) = ArchiveCmd (c\<lparr>ar_base := f (ar_base c)\<rparr>)"
| "update_base f (SharedLibraryCmd c) = SharedLibraryCmd (c\<lparr>sl_base := f (sl_base c)\<rparr>)"
| "update_base f (SwiftCmd c) = SwiftCmd (c\<lparr>sw_base := f (sw_base c)\<rparr>)"
| "update_base f (SymlinkCmd c) = SymlinkCmd c"
| "update_base f (StaleCmd c) = StaleCmd c"

fun getInputs_builtin :: "BuiltinCommand \<Rightarrow> string list" where
  "getInputs_builtin (SymlinkCmd c) = map node_name (sy_inputs c)"
| "getInputs_builtin c = (case builtin_base c of Some b \<Rightarrow> map node_name (ec_inputs b) | None \<Rightarrow> [])"

fun getOutputs_builtin :: "BuiltinCommand \<Rightarrow> string list" where
  "getOutputs_builtin (SymlinkCmd c) = map node_name (sy_outputs c)"
| "getOutputs_builtin c = (case builtin_base c of Some b \<Rightarrow> map node_name (ec_outputs b) | None \<Rightarrow> [])"

text \<open>
  \<^verbatim>\<open>Command::addOutput\<close>, without the entry in the producers of the node, which the loader makes. It
  is called for commands marked for repair only; a stale file removal is never one of them.
\<close>

fun addOutput_builtin :: "BuildNode \<Rightarrow> BuiltinCommand \<Rightarrow> BuiltinCommand" where
  "addOutput_builtin node (SymlinkCmd c) = SymlinkCmd (c\<lparr>sy_outputs := sy_outputs c @ [node]\<rparr>)"
| "addOutput_builtin node c = update_base (\<lambda>b. b\<lparr>ec_outputs := ec_outputs b @ [node]\<rparr>) c"

definition isExternalCommand_builtin :: "BuiltinCommand \<Rightarrow> bool" where
  "isExternalCommand_builtin c \<longleftrightarrow> builtin_base c \<noteq> None"

fun repairs_builtin :: "BuiltinCommand \<Rightarrow> bool" where
  "repairs_builtin (SymlinkCmd c) = sy_repairViaOwnershipAnalysis c"
| "repairs_builtin c = (case builtin_base c of Some b \<Rightarrow> ec_repairViaOwnershipAnalysis b | None \<Rightarrow> False)"

section \<open>The delegate\<close>

datatype FileSystemMode = Full | DeviceAgnostic | ChecksumOnly

text \<open>
  \<^verbatim>\<open>configureClient\<close>: the errors reported, the result, and the calls of \<^verbatim>\<open>configureFileSystem\<close>. The
  name and the version are those of the client's delegate.
\<close>

fun configureFileSystems :: "(string \<times> string) list \<Rightarrow> string list \<times> bool \<times> FileSystemMode list" where
  "configureFileSystems [] = ([], True, [])"
| "configureFileSystems ((key, val) # props) =
     (if key = ''file-system'' then
        (if val = ''device-agnostic'' then
           (case configureFileSystems props of (es, r, ms) \<Rightarrow> (es, r, DeviceAgnostic # ms))
         else if val = ''checksum-only'' then
           (case configureFileSystems props of (es, r, ms) \<Rightarrow> (es, r, ChecksumOnly # ms))
         else if val \<noteq> ''default''
         then ([''unsupported client file-system: '' @ quoted val], False, [])
         else configureFileSystems props)
      else configureFileSystems props)"

definition configureClient ::
  "string \<Rightarrow> nat \<Rightarrow> string \<Rightarrow> nat \<Rightarrow> (string \<times> string) list \<Rightarrow> string list \<times> bool \<times> FileSystemMode list" where
  "configureClient clientName clientVersion name version props =
     (if name \<noteq> clientName then ([], False, [])
      else if version \<noteq> clientVersion then ([], False, [])
      else configureFileSystems props)"

definition builtinTool :: "string \<Rightarrow> Tool option" where
  "builtinTool name =
     (if name = ''shell'' then Some (ShellTool True)
      else if name = ''phony'' then Some PhonyTool
      else if name = ''clang'' then Some ClangTool
      else if name = ''mkdir'' then Some MkdirTool
      else if name = ''symlink'' then Some (SymlinkTool False)
      else if name = ''archive'' then Some ArchiveTool
      else if name = ''shared-library'' then Some SharedLibraryTool
      else if name = ''stale-file-removal'' then Some StaleFileRemovalTool
      else if name = ''swift-compiler'' then Some SwiftCompilerTool
      else None)"

text \<open>\<open>clientTool\<close> is the client's own \<^verbatim>\<open>lookupTool\<close>, which may give a tool of the builtin classes.\<close>

definition lookupTool :: "(string \<Rightarrow> Tool option) \<Rightarrow> string \<Rightarrow> Tool option" where
  "lookupTool clientTool name = (case clientTool name of Some tool \<Rightarrow> Some tool | None \<Rightarrow> builtinTool name)"

record client_params =
  cp_name :: string
  cp_version :: nat
  cp_lookupTool :: "string \<Rightarrow> Tool option"
  cp_absolute :: "string \<Rightarrow> string"

definition BuildSystemFileDelegate :: "client_params \<Rightarrow> (Tool, BuiltinCommand) BuildFileDelegate" where
  "BuildSystemFileDelegate cp =
     \<lparr>d_configureClient = (\<lambda>name version props.
        case configureClient (cp_name cp) (cp_version cp) name version props of (es, r, ms) \<Rightarrow> (es, r)),
      d_lookupTool = lookupTool (cp_lookupTool cp),
      d_createNode = (\<lambda>name isImplicit. createNode name),
      d_toolAttribute = configure_tool,
      d_createCommand = createCommand_tool,
      d_configureDescription = configureDescription_builtin,
      d_configureInputs = configureInputs_builtin,
      d_configureOutputs = configureOutputs_builtin,
      d_configureEnvironmentBase = configureEnvironmentBase_builtin,
      d_commandAttribute = configure_builtin (cp_absolute cp),
      d_getInputs = getInputs_builtin,
      d_getOutputs = getOutputs_builtin,
      d_addOutput = addOutput_builtin,
      d_isExternalCommand = isExternalCommand_builtin,
      d_repairViaOwnershipAnalysis = repairs_builtin\<rparr>"

section \<open>The schema version\<close>

text \<open>
  \<^verbatim>\<open>getMergedSchemaVersion\<close>: the version of the database, from that of the build system and that of
  the client. \<^term>\<open>None\<close> is the failed assertion; the shift is one of 32 bits.
\<close>

definition internalSchemaVersion :: u32 where
  "internalSchemaVersion = 9"

definition getMergedSchemaVersion :: "u32 \<Rightarrow> u32 option" where
  "getMergedSchemaVersion clientVersion =
     (if clientVersion \<le> 2 ^ 16 then Some (internalSchemaVersion + push_bit 16 clientVersion) else None)"

text \<open>The assertion lets one version too many pass: it has the merged version of client version 0.\<close>

lemma merged_schema_version_collision:
  "getMergedSchemaVersion 65536 = getMergedSchemaVersion 0"
  by (simp add: getMergedSchemaVersion_def internalSchemaVersion_def)

end
