(* ===== verification/LoaderProps.thy ===== *)
theory LoaderProps
  imports BuildFileProps BuildSystemDelegate
begin

text \<open>
  The builtin tools satisfy the laws of the loader's delegate, and so every build file loaded with
  them gives a well-formed description.
\<close>

section \<open>The builtin tools\<close>

lemma configure_bool_cases:
  assumes "configure_bool name val x y = Some (Inr z)"
  shows "z = x \<or> z = y"
  using assms by (auto simp: configure_bool_def configured_def invalid_value_def split: if_splits)

lemma external_attribute_nodes:
  assumes "external_attribute name v c = Some (Inr c')"
  shows "ec_inputs c' = ec_inputs c \<and> ec_outputs c' = ec_outputs c"
  using assms
  by (cases v)
     (auto simp: configureExternal_def configureExternal_values_def configureExternal_pairs_def unexpected_attribute_def
        configured_def dest!: configure_bool_cases split: if_splits)

lemma map_sum_Inr_iff: "map_sum f g z = Inr x \<longleftrightarrow> (\<exists>y. z = Inr y \<and> x = g y)"
  by (cases z) auto

lemma external_attribute_simps:
  "configureExternal name val b = external_attribute name (AttrScalar val) b"
  "configureExternal_values name vals b = external_attribute name (AttrValues vals) b"
  "configureExternal_pairs name kvs b = external_attribute name (AttrPairs kvs) b"
  by simp_all

lemma shell_attribute_nodes:
  assumes "shell_attribute absolute name v c = Some (Inr c')"
  shows "ec_inputs (sc_base c') = ec_inputs (sc_base c) \<and> ec_outputs (sc_base c') = ec_outputs (sc_base c)"
  using assms
  by (cases v)
     (auto simp: configure_shell_def configure_shell_values_def configure_shell_pairs_def lift_base_def
        external_attribute_simps configured_def map_sum_Inr_iff
        simp del: external_attribute.simps dest!: configure_bool_cases external_attribute_nodes split: if_splits)

lemma clang_attribute_nodes:
  assumes "configure_clang name v c = Some (Inr c')"
  shows "ec_inputs (ck_base c') = ec_inputs (ck_base c) \<and> ec_outputs (ck_base c') = ec_outputs (ck_base c)"
  using assms
  by (cases v)
     (auto simp: lift_clang_def external_attribute_simps configured_def map_sum_Inr_iff
        simp del: external_attribute.simps dest!: external_attribute_nodes split: if_splits)

lemma swift_attribute_nodes:
  assumes "configure_swift name v c = Some (Inr c')"
  shows "ec_inputs (sw_base c') = ec_inputs (sw_base c) \<and> ec_outputs (sw_base c') = ec_outputs (sw_base c)"
  using assms
  by (cases v)
     (auto simp: lift_swift_def external_attribute_simps configured_def map_sum_Inr_iff
        simp del: external_attribute.simps dest!: configure_bool_cases external_attribute_nodes split: if_splits option.splits)

lemma archive_attribute_nodes:
  assumes "archive_attribute name v c = Some (Inr c')"
  shows "ec_inputs (ar_base c') = ec_inputs (ar_base c) \<and> ec_outputs (ar_base c') = ec_outputs (ar_base c)"
  using assms by (auto simp: archive_attribute_def map_sum_Inr_iff simp del: external_attribute.simps dest!: external_attribute_nodes)

lemma symlink_attribute_nodes:
  assumes "symlink_attribute name v c = Some (Inr c')"
  shows "sy_inputs c' = sy_inputs c \<and> sy_outputs c' = sy_outputs c"
  using assms
  by (cases v) (auto simp: configure_symlink_def configured_def unexpected_attribute_def split: if_splits)

lemma attributed_Some:
  assumes "attributed r = Some (es, Some c)"
  shows "r = Some (Inr c)"
proof -
  obtain s where "r = Some s" using assms by (auto simp: attributed_def)
  then show ?thesis using assms by (cases s) (simp_all add: attributed_def)
qed

lemma sharedLibrary_attribute_nodes:
  assumes "configure_sharedLibrary name v c = Some (es, Some c')"
  shows "ec_inputs (sl_base c') = ec_inputs (sl_base c) \<and> ec_outputs (sl_base c') = ec_outputs (sl_base c)"
  using assms
  by (cases v)
     (auto simp: lift_sharedLibrary_def external_attribute_simps map_sum_Inr_iff
        simp del: external_attribute.simps dest!: attributed_Some external_attribute_nodes split: if_splits)

lemma wrap_Some:
  assumes "wrap C r = Some (es, Some c)"
  shows "\<exists>c'. r = Some (es, Some c') \<and> c = C c'"
  using assms by (auto simp: wrap_def)

lemma builtin_attribute_nodes:
  assumes "configure_builtin absolute name v c = Some (es, Some c')"
  shows "getInputs_builtin c' = getInputs_builtin c \<and> getOutputs_builtin c' = getOutputs_builtin c"
  using assms
  by (cases c)
     (auto dest!: wrap_Some attributed_Some
        dest: external_attribute_nodes shell_attribute_nodes clang_attribute_nodes swift_attribute_nodes
          archive_attribute_nodes symlink_attribute_nodes sharedLibrary_attribute_nodes)

lemma builtin_environment_nodes:
  assumes "configureEnvironmentBase_builtin bs c = Some c'"
  shows "getInputs_builtin c' = getInputs_builtin c \<and> getOutputs_builtin c' = getOutputs_builtin c"
  using assms by (cases c) (auto simp: configureEnvironmentBase_def)

lemma builtin_description_nodes:
  "getInputs_builtin (configureDescription_builtin s c) = getInputs_builtin c"
  "getOutputs_builtin (configureDescription_builtin s c) = getOutputs_builtin c"
  by (cases c; simp add: configureDescription_def)+

lemma builtin_inputs_nodes:
  "set (getInputs_builtin (snd (configureInputs_builtin ns c))) \<subseteq> set (getInputs_builtin c) \<union> node_name ` set ns"
  "getOutputs_builtin (snd (configureInputs_builtin ns c)) = getOutputs_builtin c"
  by (cases c; auto simp: configureInputs_def configureInputs_symlink_def configureInputs_archive_def
        configureInputs_sharedLibrary_def Let_def)+

lemma builtin_outputs_nodes:
  "getInputs_builtin (snd (configureOutputs_builtin ns c)) = getInputs_builtin c"
  "set (getOutputs_builtin (snd (configureOutputs_builtin ns c))) \<subseteq> set (getOutputs_builtin c) \<union> node_name ` set ns"
  by (cases c; auto simp: configureOutputs_def configureOutputs_symlink_def configureOutputs_archive_def
        configureOutputs_sharedLibrary_def Let_def split_beta split: sum.split list.split)+

lemma builtin_addOutput_nodes:
  assumes "repairs_builtin c"
  shows "getInputs_builtin (addOutput_builtin node c) = getInputs_builtin c
    \<and> getOutputs_builtin (addOutput_builtin node c) = getOutputs_builtin c @ [node_name node]"
  using assms by (cases c) auto

lemma builtin_new_command:
  assumes "createCommand_tool n t = Some c"
  shows "getInputs_builtin c = [] \<and> getOutputs_builtin c = []"
  using assms
  by (cases t) (auto simp: newExternalCommand_def newShellCommand_def newClang_def newSymlink_def newArchive_def
      newSharedLibrary_def newSwift_def)

lemma createNode_fields: "node_name (createNode n) = n" "node_producers (createNode n) = []"
  by (simp_all add: createNode_def makeBuildNode_def)

interpretation builtin: build_file_delegate "BuildSystemFileDelegate cp" for cp
proof unfold_locales
qed (simp_all add: BuildSystemFileDelegate_def createNode_fields builtin_new_command builtin_description_nodes
      builtin_inputs_nodes builtin_outputs_nodes builtin_environment_nodes builtin_attribute_nodes
      builtin_addOutput_nodes)

section \<open>Loading with the builtin tools\<close>

definition str :: "string \<Rightarrow> Yaml" where
  "str s = NK_Scalar s"

definition sample_client :: client_params where
  "sample_client = \<lparr>cp_name = ''basic'', cp_version = 0, cp_lookupTool = (\<lambda>_. None), cp_absolute = id\<rparr>"

definition clientSection :: "Yaml \<times> Yaml" where
  "clientSection = (str ''client'', NK_Mapping [(str ''name'', str ''basic'')])"

definition sample_document :: Yaml where
  "sample_document = NK_Mapping
     [clientSection,
      (str ''targets'', NK_Mapping [(str ''all'', NK_Sequence [str ''out''])]),
      (str ''default'', str ''all''),
      (str ''commands'', NK_Mapping
        [(str ''C1'', NK_Mapping
           [(str ''tool'', str ''phony''), (str ''inputs'', NK_Sequence [str ''in'']),
            (str ''outputs'', NK_Sequence [str ''out''])])])]"

lemma sample_load:
  "load (BuildSystemFileDelegate sample_client) ''build.llbuild'' (Some [Some sample_document])
   = Some (Some \<lparr>ds_environmentBases = [],
        ds_nodes = [(''out'', (makeBuildNode ''out'' Plain)\<lparr>node_producers := [''C1'']\<rparr>), (''in'', makeBuildNode ''in'' Plain)],
        ds_targets = [(''all'', [''out''])], ds_defaultTarget = ''all'',
        ds_commands = [(''C1'', PhonyCommand ((newExternalCommand ''C1'')
          \<lparr>ec_inputs := [makeBuildNode ''in'' Plain],
           ec_outputs := [(makeBuildNode ''out'' Plain)\<lparr>node_producers := [''C1'']\<rparr>]\<rparr>))],
        ds_tools = [(''phony'', PhonyTool)]\<rparr>,
      [LoadedTarget ''all'', LoadedDefaultTarget ''all'', LoadedCommand ''C1''])"
  by code_simp

text \<open>
  C32. Every description that a build file loads to with the builtin tools is well-formed: the
  default target, if set, is one of the targets; targets and inputs of commands name existing
  nodes; every node carries its name and lists only loaded commands as its producers; every output
  of a command is a node that lists the command; and no name is bound twice. This holds after any
  errors that the loader reported and went on from, and after the ownership analysis.
\<close>

theorem loaded_description_wf:
  assumes "load (BuildSystemFileDelegate cp) mainFilename input = Some (Some ds, log)"
  shows "description_wf (BuildSystemFileDelegate cp) ds"
  using assms by (rule builtin.load_wf)

lemma loaded_description_wf_witness:
  "\<exists>ds log. load (BuildSystemFileDelegate sample_client) ''build.llbuild'' (Some [Some sample_document]) = Some (Some ds, log)
     \<and> description_wf (BuildSystemFileDelegate sample_client) ds"
  using loaded_description_wf [OF sample_load] sample_load by blast

text \<open>
  An entry of the client map is also kept as a property when it is the name: the test that
  follows starts a new \<^verbatim>\<open>if\<close>.
\<close>

lemma client_name_is_a_property:
  "parseClientEntry (NK_Scalar ''name'', NK_Scalar n) (cl, b)
   = Inl (cl\<lparr>cl_name := n, cl_properties := cl_properties cl @ [(''name'', n)]\<rparr>, b)"
  by (simp add: parseClientEntry_def)

text \<open>An empty top-level mapping has no first entry to look at.\<close>

lemma empty_document_is_undefined: "load D f (Some [Some (NK_Mapping [])]) = None"
  by (simp add: load_def parseRootNode_def)

text \<open>A duplicate command is reported, the first definition kept, and the load goes on.\<close>

lemma duplicate_command_keeps_first:
  assumes "hasCommand name b"
  shows "parseCommand D (NK_Scalar name, NK_Mapping attrs) b
    = Some (True, emit_b (LoaderError (''duplicate command in '' @ quoted ''commands'' @ '' map'')) b)"
  using assms by (simp add: parseCommand_def load_error_def)

text \<open>A file with an error gives a description all the same.\<close>

lemma load_succeeds_after_error:
  "load (BuildSystemFileDelegate sample_client) ''build.llbuild''
     (Some [Some (NK_Mapping [clientSection, (str ''targets'', NK_Mapping [(str ''all'', str ''out'')])])])
   = Some (Some (descriptionOf newBuilder), [LoaderError (''invalid value type in '' @ quoted ''targets'' @ '' map'')])"
  by code_simp

end
