(* ===== verification/OwnershipProps.thy ===== *)
theory OwnershipProps
  imports LoaderProps "HOL-Library.Multiset"
begin

text \<open>
  The ownership analysis of \<^verbatim>\<open>BuildDescriptionBuilder.cpp\<close>. The table of included paths is
  ordered by the addresses of the nodes and searched from front to back; the theorems show that the
  order does not matter, and exactly when the analysis rejects a description.
\<close>

section \<open>Ownership of paths\<close>

lemma owns_prefix: "owns n p \<Longrightarrow> prefix n p"
  by (auto simp: owns_def prefix_def split: if_splits)

lemma owns_longer:
  assumes "owns n p"
  shows "length n \<le> length p"
  using owns_prefix [OF assms] by (rule prefix_length_le)

text \<open>Of two paths that own a third, the shorter one owns the longer one, or they are equal.\<close>

lemma owns_nested:
  assumes "owns n p" and "owns m p" and "length n \<le> length m" and "n \<noteq> m"
  shows "owns n m"
proof -
  have np: "prefix n p" and mp: "prefix m p"
    using assms owns_prefix by blast+
  then have nm: "prefix n m"
    using assms(3) prefix_length_prefix by blast
  then have "length n < length m"
    using assms(4) by (meson prefix_length_less strict_prefixI)
  then show ?thesis
    using assms(1) nm mp prefix_length_prefix [of "n @ ''/''" p m]
    by (auto simp: owns_def split: if_splits)
qed

lemma owns_trans:
  assumes "owns n m" and "owns m p"
  shows "owns n p"
  using assms owns_prefix [OF assms(2)] by (auto simp: owns_def split: if_splits intro: prefix_order.trans)

text \<open>
  The specification: the components of a path are what stands between its separators, and a path
  is inside a directory if the components of the directory (without the empty one after a final
  separator) are a proper initial part of its own. Sharing characters is not enough: \<^verbatim>\<open>foobar\<close>
  is not inside \<^verbatim>\<open>foo\<close>.
\<close>

fun path_components :: "string \<Rightarrow> string list" where
  "path_components [] = [[]]"
| "path_components (c # cs) =
     (if c = CHR ''/'' then [] # path_components cs
      else (c # hd (path_components cs)) # tl (path_components cs))"

definition inside :: "string \<Rightarrow> string \<Rightarrow> bool" where
  "inside directory path \<longleftrightarrow>
     (let ws = path_components directory
      in strict_prefix (if 1 < length ws \<and> last ws = [] then butlast ws else ws) (path_components path))"

fun join_components :: "string list \<Rightarrow> string" where
  "join_components [] = []"
| "join_components [w] = w"
| "join_components (w # v # ws) = w @ ''/'' @ join_components (v # ws)"

lemma path_components_nonempty [simp]: "path_components p \<noteq> []"
  by (induction p) auto

lemma join_path_components [simp]: "join_components (path_components p) = p"
proof (induction p)
  case (Cons c cs)
  obtain w ws where "path_components cs = w # ws" by (meson list.exhaust path_components_nonempty)
  with Cons show ?case by (cases ws) auto
qed simp

lemma join_components_append:
  "us \<noteq> [] \<Longrightarrow> vs \<noteq> [] \<Longrightarrow> join_components (us @ vs) = join_components us @ ''/'' @ join_components vs"
proof (induction us rule: join_components.induct)
  case (2 w)
  then show ?case by (cases vs) auto
qed auto

lemma path_components_append: "path_components (p @ ''/'' @ q) = path_components p @ path_components q"
  by (induction p) auto

lemma prefix_separator: "prefix (p @ ''/'') q \<longleftrightarrow> strict_prefix (path_components p) (path_components q)"
proof
  assume "prefix (p @ ''/'') q"
  then obtain r where "q = p @ ''/'' @ r" by (auto simp: prefix_def)
  then show "strict_prefix (path_components p) (path_components q)"
    by (simp only: path_components_append) (simp add: strict_prefix_def)
next
  assume "strict_prefix (path_components p) (path_components q)"
  then obtain vs where "path_components q = path_components p @ vs" "vs \<noteq> []"
    by (auto elim: strict_prefixE')
  then have "q = p @ ''/'' @ join_components vs"
    using join_components_append [of "path_components p" vs] join_path_components [of q] by simp
  then show "prefix (p @ ''/'') q" by simp
qed

lemma last_component:
  "1 < length (path_components p) \<and> last (path_components p) = [] \<longleftrightarrow> suffix ''/'' p"
proof
  assume l: "1 < length (path_components p) \<and> last (path_components p) = []"
  then have "butlast (path_components p) \<noteq> []" by (cases "path_components p" rule: rev_cases) auto
  moreover have "path_components p = butlast (path_components p) @ [[]]"
    using l by (metis append_butlast_last_id path_components_nonempty)
  ultimately have "p = join_components (butlast (path_components p)) @ ''/''"
    by (metis append_Nil2 join_components.simps(2) join_components_append join_path_components not_Cons_self2)
  then show "suffix ''/'' p" by (metis suffix_def)
next
  assume "suffix ''/'' p"
  then obtain q where "p = q @ ''/'' @ []" by (auto simp: suffix_def)
  then have "path_components p = path_components q @ [[]]" by (simp only: path_components_append) simp
  then show "1 < length (path_components p) \<and> last (path_components p) = []"
    by (simp add: Suc_lessI)
qed

lemma owns_inside: "owns n m \<longleftrightarrow> inside n m"
proof (cases "suffix ''/'' n")
  case True
  then obtain k where k: "n = k @ ''/''" by (auto simp: suffix_def)
  then have "path_components n = path_components k @ [[]]"
    using path_components_append [of k "[]"] by simp
  with True k show ?thesis
    unfolding inside_def Let_def last_component using prefix_separator [of k m] by (simp add: owns_def)
next
  case False
  then show ?thesis
    unfolding inside_def Let_def last_component by (simp add: owns_def prefix_separator)
qed

section \<open>The table of included paths\<close>

text \<open>No included path owns another one.\<close>

definition antichain :: "node_and_command list \<Rightarrow> bool" where
  "antichain included \<longleftrightarrow> distinct (map fst included)
     \<and> (\<forall>p \<in> set included. \<forall>q \<in> set included. fst p \<noteq> fst q \<longrightarrow> \<not> owns (fst p) (fst q))"

lemma antichain_unique:
  assumes "antichain included" and "p \<in> set included" and "q \<in> set included"
    and "owns (fst p) path" and "owns (fst q) path"
  shows "p = q"
proof -
  have "fst p = fst q"
  proof (rule ccontr)
    assume "fst p \<noteq> fst q"
    then have "owns (fst p) (fst q) \<or> owns (fst q) (fst p)"
      using owns_nested assms(4,5) by (metis nle_le)
    then show False
      using assms(1-3) \<open>fst p \<noteq> fst q\<close> unfolding antichain_def by metis
  qed
  then show ?thesis
    using assms(1-3) unfolding antichain_def by (metis eq_key_imp_eq_value prod.collapse)
qed

lemma includedOwnerOf_iff:
  assumes "antichain included"
  shows "includedOwnerOf included path = Some c \<longleftrightarrow> (\<exists>n. (n, c) \<in> set included \<and> owns n path)"
proof
  assume "includedOwnerOf included path = Some c"
  then obtain q where "find (\<lambda>p. owns (fst p) path) included = Some q" and "snd q = c"
    by (auto simp: includedOwnerOf_def)
  then have "q \<in> set included \<and> owns (fst q) path"
    by (auto simp: find_Some_iff)
  then show "\<exists>n. (n, c) \<in> set included \<and> owns n path"
    using \<open>snd q = c\<close> by (metis prod.collapse)
next
  assume "\<exists>n. (n, c) \<in> set included \<and> owns n path"
  then obtain n where n: "(n, c) \<in> set included" "owns n path" by blast
  then obtain q where q: "find (\<lambda>p. owns (fst p) path) included = Some q"
    by (cases "find (\<lambda>p. owns (fst p) path) included") (auto simp: find_None_iff)
  then have "q \<in> set included \<and> owns (fst q) path"
    by (auto simp: find_Some_iff)
  then have "q = (n, c)"
    using antichain_unique [OF assms, of q "(n, c)" path] n by simp
  then show "includedOwnerOf included path = Some c"
    using q by (simp add: includedOwnerOf_def)
qed

lemma includedOwnerOf_None:
  "includedOwnerOf included path = None \<longleftrightarrow> (\<forall>(n, c) \<in> set included. \<not> owns n path)"
  by (auto simp: includedOwnerOf_def find_None_iff)

lemma includedOwnerOf_perm:
  assumes "antichain included" and "mset included' = mset included"
  shows "includedOwnerOf included' path = includedOwnerOf included path"
proof -
  have "antichain included'"
    using assms unfolding antichain_def by (metis distinct_map mset_eq_imp_distinct_iff mset_eq_setD)
  moreover have "set included' = set included"
    using assms(2) by (rule mset_eq_setD)
  ultimately show ?thesis
    using includedOwnerOf_iff [of included' path] includedOwnerOf_iff [OF assms(1), of path]
    by (metis option.exhaust)
qed

section \<open>What the loop establishes\<close>

abbreviation shorter_first :: "node_and_command list \<Rightarrow> bool" where
  "shorter_first \<equiv> sorted_wrt (\<lambda>p q. length (fst p) \<le> length (fst q))"

lemma owns_same_length:
  assumes "owns n m" and "length m \<le> length n"
  shows "n = m"
  using owns_prefix [OF assms(1)] assms(2) by (metis prefix_length_less strict_prefixI linorder_not_less)

lemma antichain_update:
  assumes "antichain included" and "includedOwnerOf included n = None"
    and "\<And>p. p \<in> set included \<Longrightarrow> length (fst p) \<le> length n"
  shows "antichain (AList.update n c included)"
proof -
  have keys: "fst ` set (AList.update n c included) = insert n (fst ` set included)"
    by (metis dom_map_of_conv_image_fst dom_update update_conv' dom_fun_upd option.discI)
  have "\<not> owns k l" if "k \<in> insert n (fst ` set included)" "l \<in> insert n (fst ` set included)" "k \<noteq> l" for k l
  proof -
    have "\<not> owns k n" if "k \<in> fst ` set included" for k
      using assms(2) that by (auto simp: includedOwnerOf_None)
    moreover have "\<not> owns n l" if "l \<in> fst ` set included" "n \<noteq> l" for l
      using assms(3) that owns_same_length by fastforce
    ultimately show ?thesis
      using that assms(1) unfolding antichain_def by blast
  qed
  then show ?thesis
    using assms(1) keys unfolding antichain_def by (metis distinct_update image_eqI)
qed

lemma establish_antichain:
  assumes "establishOwnerships analysed rest included excluded = Inr (included', excluded')"
    and "antichain included" and "shorter_first rest"
    and "\<And>p q. p \<in> set included \<Longrightarrow> q \<in> set rest \<Longrightarrow> length (fst p) \<le> length (fst q)"
  shows "antichain included'"
  using assms
proof (induction analysed rest included excluded rule: establishOwnerships.induct)
  case (2 analysed node command rest included excluded)
  have rest: "shorter_first rest" and longer: "\<And>q. q \<in> set rest \<Longrightarrow> length node \<le> length (fst q)"
    using "2.prems"(3) by auto
  show ?case
  proof (cases "analysed command \<and> includedOwnerOf included node = None")
    case True
    have "length (fst p) \<le> length node" if "p \<in> set included" for p
      using "2.prems"(4) [OF that, of "(node, command)"] by simp
    then have "antichain (AList.update node command included)"
      using True "2.prems"(2) by (intro antichain_update) auto
    moreover have "length (fst p) \<le> length (fst q)"
      if "p \<in> set (AList.update node command included)" "q \<in> set rest" for p q
    proof -
      have "fst p \<in> insert node (fst ` set included)"
        using that(1) by (metis dom_fun_upd dom_map_of_conv_image_fst image_eqI option.discI update_conv')
      then consider "fst p = node" | p' where "p' \<in> set included" "fst p' = fst p" by auto
      then show ?thesis
        by cases (use longer [OF that(2)] "2.prems"(4) [of _ q] that(2) in force)+
    qed
    ultimately show ?thesis
      using "2.IH"(1) True "2.prems"(1) rest by simp
  next
    case False
    then show ?thesis
      using "2.IH"(2,3) "2.prems" rest by (auto split: option.splits if_splits)
  qed
qed simp

text \<open>
  The paths that the analysis includes are searched in the order of the addresses of their
  nodes, which differs from run to run. If the analysis of the outputs, shortest
  path first, finds no conflict, every path has the same owner in every order of the table.
\<close>

theorem ownership_order_irrelevant:
  assumes "sorted_wrt (\<lambda>p q. length (fst p) \<le> length (fst q)) outputs"
    and "establishOwnerships analysed outputs [] [] = Inr (included, excluded)"
    and "mset included' = mset included"
  shows "includedOwnerOf included' path = includedOwnerOf included path"
proof -
  have "antichain included"
    using establish_antichain [OF assms(2)] assms(1) by (simp add: antichain_def)
  then show ?thesis using assms(3) by (rule includedOwnerOf_perm)
qed

lemma ownership_order_irrelevant_witness:
  "includedOwnerOf [(''b'', ''C2''), (''a'', ''C1'')] ''a/x'' = Some ''C1''"
proof -
  have "establishOwnerships (\<lambda>_. True) [(''a'', ''C1''), (''b'', ''C2''), (''a/y'', ''C1'')] [] []
      = Inr ([(''a'', ''C1''), (''b'', ''C2'')], [])"
    by code_simp
  then have "includedOwnerOf [(''b'', ''C2''), (''a'', ''C1'')] ''a/x''
      = includedOwnerOf [(''a'', ''C1''), (''b'', ''C2'')] ''a/x''"
    by (rule ownership_order_irrelevant [rotated]) simp_all
  also have "\<dots> = Some ''C1''" by code_simp
  finally show ?thesis .
qed

section \<open>Conflicts\<close>

definition conflict :: "(string \<Rightarrow> bool) \<Rightarrow> node_and_command list \<Rightarrow> bool" where
  "conflict analysed outputs \<longleftrightarrow>
     (\<exists>p \<in> set outputs. \<exists>q \<in> set outputs. analysed (snd p) \<and> analysed (snd q) \<and> snd p \<noteq> snd q \<and> owns (fst p) (fst q))"

text \<open>
  The state of the loop after the pairs \<open>seen\<close>: no conflict among them, and every analysed one is
  included or has its own command as its owner.
\<close>

definition loop_inv :: "(string \<Rightarrow> bool) \<Rightarrow> node_and_command list \<Rightarrow> node_and_command list \<Rightarrow> bool" where
  "loop_inv analysed seen included \<longleftrightarrow>
     antichain included \<and> \<not> conflict analysed seen
     \<and> (\<forall>p \<in> set included. p \<in> set seen \<and> analysed (snd p))
     \<and> (\<forall>p \<in> set seen. analysed (snd p) \<longrightarrow> p \<in> set included \<or> includedOwnerOf included (fst p) = Some (snd p))"

lemma loop_owner:
  assumes "loop_inv analysed seen included" and "p \<in> set seen" and "analysed (snd p)" and "owns (fst p) path"
  shows "includedOwnerOf included path = Some (snd p)"
proof -
  have anti: "antichain included" using assms(1) by (simp add: loop_inv_def)
  have "\<exists>n. (n, snd p) \<in> set included \<and> owns n path"
  proof (cases "p \<in> set included")
    case True
    then show ?thesis using assms(4) by (metis prod.collapse)
  next
    case False
    then have "includedOwnerOf included (fst p) = Some (snd p)"
      using assms(1-3) unfolding loop_inv_def by blast
    then show ?thesis
      using includedOwnerOf_iff [OF anti] owns_trans assms(4) by blast
  qed
  then show ?thesis using includedOwnerOf_iff [OF anti] by blast
qed

lemma conflict_snoc:
  assumes "\<not> conflict analysed seen"
    and "\<And>p. p \<in> set seen \<Longrightarrow> analysed (snd p) \<Longrightarrow> analysed (snd q) \<Longrightarrow> owns (fst p) (fst q) \<Longrightarrow> snd p = snd q"
    and "\<And>p. p \<in> set seen \<Longrightarrow> analysed (snd p) \<Longrightarrow> analysed (snd q) \<Longrightarrow> \<not> owns (fst q) (fst p)"
  shows "\<not> conflict analysed (seen @ [q])"
  using assms unfolding conflict_def by auto

lemma AList_update_new:
  assumes "n \<notin> fst ` set xs"
  shows "AList.update n c xs = xs @ [(n, c)]"
  using assms by (induction xs) auto

lemma establish_conflict:
  assumes "loop_inv analysed seen included" and "shorter_first (seen @ rest)"
    and "distinct (map fst (filter (\<lambda>p. analysed (snd p)) (seen @ rest)))"
  shows "(\<exists>r. establishOwnerships analysed rest included excluded = Inl r) \<longleftrightarrow> conflict analysed (seen @ rest)"
  using assms
proof (induction rest arbitrary: seen included excluded)
  case Nil
  then show ?case by (simp add: loop_inv_def)
next
  case (Cons q rest)
  obtain n c where q: "q = (n, c)" by (cases q)
  have sorted: "shorter_first ((seen @ [q]) @ rest)"
    and dist: "distinct (map fst (filter (\<lambda>p. analysed (snd p)) ((seen @ [q]) @ rest)))"
    using Cons.prems by simp_all
  have shorter: "length (fst p) \<le> length n" if "p \<in> set seen" for p
    using Cons.prems(2) q that by (auto simp: sorted_wrt_append)
  have fresh: "fst p \<noteq> n" if "p \<in> set seen" "analysed (snd p)" "analysed c" for p
    using Cons.prems(3) q that by (auto simp: image_iff)
  have backward: "\<not> owns n (fst p)" if "p \<in> set seen" "analysed (snd p)" "analysed c" for p
    using shorter [OF that(1)] fresh [OF that] owns_same_length [of n "fst p"] by auto
  have step: "(\<exists>r. establishOwnerships analysed (q # rest) included excluded = Inl r) \<longleftrightarrow> conflict analysed (seen @ q # rest)"
    if "loop_inv analysed (seen @ [q]) included'"
      and "establishOwnerships analysed (q # rest) included excluded = establishOwnerships analysed rest included' excluded'"
    for included' excluded'
    using Cons.IH [OF that(1) sorted dist] that(2) by simp
  note inv = Cons.prems(1)
  then have anti: "antichain included" and ok: "\<not> conflict analysed seen"
    by (simp_all add: loop_inv_def)
  consider (skip) "\<not> analysed c" | (add) "analysed c" "includedOwnerOf included n = None"
    | (own) "analysed c" "includedOwnerOf included n = Some c"
    | (clash) d where "analysed c" "includedOwnerOf included n = Some d" "d \<noteq> c"
    by (cases "includedOwnerOf included n") auto
  then show ?case
  proof cases
    case skip
    have "\<not> conflict analysed (seen @ [q])"
      using skip q by (intro conflict_snoc [OF ok]) auto
    then show ?thesis
      using skip q inv by (intro step) (auto simp: loop_inv_def)
  next
    case add
    have "n \<notin> fst ` set included"
      using inv fresh add(1) unfolding loop_inv_def by blast
    then have upd: "AList.update n c included = included @ [q]"
      using q by (simp add: AList_update_new)
    have anti': "antichain (included @ [q])"
      using antichain_update [OF anti add(2), of c] shorter inv upd by (simp add: loop_inv_def)
    have "\<not> conflict analysed (seen @ [q])"
      using loop_owner [OF inv] add(2) backward add(1) q by (intro conflict_snoc [OF ok]) fastforce+
    moreover have "includedOwnerOf (included @ [q]) (fst p) = Some (snd p)"
      if "includedOwnerOf included (fst p) = Some (snd p)" for p
      using that includedOwnerOf_iff [OF anti] includedOwnerOf_iff [OF anti'] by auto
    ultimately have "loop_inv analysed (seen @ [q]) (included @ [q])"
      using inv anti' add(1) q by (auto simp: loop_inv_def)
    then show ?thesis
      using add q upd by (intro step) auto
  next
    case own
    have "\<not> conflict analysed (seen @ [q])"
      using loop_owner [OF inv] own(2) backward own(1) q by (intro conflict_snoc [OF ok]) fastforce+
    then show ?thesis
      using own q inv by (intro step) (auto simp: loop_inv_def)
  next
    case clash
    obtain k where k: "(k, d) \<in> set included" and "owns k n"
      using clash(2) includedOwnerOf_iff [OF anti] by blast
    have "(k, d) \<in> set seen \<and> analysed d"
      using inv k unfolding loop_inv_def by auto
    then have "conflict analysed (seen @ q # rest)"
      using clash(1,3) q \<open>owns k n\<close> unfolding conflict_def
      by (intro bexI [of _ "(k, d)"] bexI [of _ q]) auto
    then show ?thesis
      using clash q by simp
  qed
qed

section \<open>The description\<close>

text \<open>The files that the analysed commands of a builder declare as outputs, with their commands.\<close>

definition analysedOutputs ::
  "('t, 'c) BuildFileDelegate \<Rightarrow> ('t, 'c) builder \<Rightarrow> node_and_command list" where
  "analysedOutputs D b =
     concat (map (\<lambda>(name, c). if d_isExternalCommand D c \<and> d_repairViaOwnershipAnalysis D c
                              then map (\<lambda>n. (n, name)) (filter (\<lambda>n. \<not> isVirtual (nodeNamed b n)) (d_getOutputs D c))
                              else [])
       (b_commands b))"

abbreviation analysed :: "('t, 'c) BuildFileDelegate \<Rightarrow> ('t, 'c) builder \<Rightarrow> string \<Rightarrow> bool" where
  "analysed D b \<equiv> \<lambda>c. commandFlag (d_isExternalCommand D) b c \<and> commandFlag (d_repairViaOwnershipAnalysis D) b c"

lemma filter_sort_mset: "mset (filter P (sort_key f xs)) = mset (filter P xs)"
  by (simp add: mset_filter)

lemma analysedOutputs_mset:
  assumes "distinct (map fst (b_commands b))"
  shows "mset (filter (\<lambda>p. analysed D b (snd p)) (outputNodesAndCommands D b)) = mset (analysedOutputs D b)"
proof -
  have flag: "commandFlag f b name = f c" if "(name, c) \<in> set (b_commands b)" for f name c
    using assms that by (simp add: commandFlag_def)
  have "filter (\<lambda>p. analysed D b (snd p))
      (concat (map (\<lambda>(name, c). map (\<lambda>n. (n, name)) (filter (\<lambda>n. \<not> isVirtual (nodeNamed b n)) (d_getOutputs D c))) cs))
    = concat (map (\<lambda>(name, c). if d_isExternalCommand D c \<and> d_repairViaOwnershipAnalysis D c
                  then map (\<lambda>n. (n, name)) (filter (\<lambda>n. \<not> isVirtual (nodeNamed b n)) (d_getOutputs D c)) else []) cs)"
    if "set cs \<subseteq> set (b_commands b)" for cs
    using that by (induction cs) (auto simp: flag filter_map o_def)
  then show ?thesis
    unfolding outputNodesAndCommands_def analysedOutputs_def filter_sort_mset by simp
qed

lemma conflict_filter:
  "conflict P outputs \<longleftrightarrow>
     (\<exists>p \<in> set (filter (\<lambda>p. P (snd p)) outputs). \<exists>q \<in> set (filter (\<lambda>p. P (snd p)) outputs).
        snd p \<noteq> snd q \<and> owns (fst p) (fst q))"
  unfolding conflict_def set_filter by blast

text \<open>
  C33. With the analysis switched on, a description is refused exactly if two different commands
  that take part in the analysis (external commands that opted into the repair) declare outputs of
  which one is inside the other, component by component. It needs that no path is declared twice
  by these commands: a path that two of them declare is not noticed.
\<close>

theorem finalize_rejects_nested_outputs:
  assumes "b_performOwnershipAnalysis b" and "distinct (map fst (b_commands b))"
    and "distinct (map fst (analysedOutputs D b))"
  shows "fst (finalize D b) = None \<longleftrightarrow>
    (\<exists>p \<in> set (analysedOutputs D b). \<exists>q \<in> set (analysedOutputs D b). snd p \<noteq> snd q \<and> inside (fst p) (fst q))"
proof -
  let ?out = "outputNodesAndCommands D b"
  let ?A = "filter (\<lambda>p. analysed D b (snd p)) ?out"
  have mset: "mset ?A = mset (analysedOutputs D b)"
    using assms(2) by (rule analysedOutputs_mset)
  have "distinct (map fst ?A)"
    using assms(3) mset_eq_imp_distinct_iff [of "map fst ?A" "map fst (analysedOutputs D b)"]
    by (simp only: mset_map mset)
  moreover have "shorter_first ?out"
    using sorted_sort_key [of "length \<circ> fst"] by (simp add: outputNodesAndCommands_def sorted_map)
  ultimately have "(\<exists>r. establishOwnerships (analysed D b) ?out [] [] = Inl r) \<longleftrightarrow> conflict (analysed D b) ?out"
    using establish_conflict [of "analysed D b" "[]" "[]" ?out "[]"]
    by (simp add: loop_inv_def antichain_def conflict_def)
  moreover have "fst (finalize D b) = None \<longleftrightarrow> (\<exists>r. establishOwnerships (analysed D b) ?out [] [] = Inl r)"
    using assms(1) by (auto simp: finalize_def Let_def split: sum.split prod.split)
  ultimately show ?thesis
    unfolding conflict_filter mset_eq_setD [OF mset] owns_inside by simp
qed

definition two_outputs_builder :: "string \<Rightarrow> string \<Rightarrow> (Tool, BuiltinCommand) builder" where
  "two_outputs_builder p q = newBuilder
     \<lparr>b_performOwnershipAnalysis := True,
      b_nodes := [(p, makeBuildNode p Plain), (q, makeBuildNode q Plain)],
      b_commands := [(''C1'', PhonyCommand ((newExternalCommand ''C1'')
                        \<lparr>ec_repairViaOwnershipAnalysis := True, ec_outputs := [makeBuildNode p Plain]\<rparr>)),
                     (''C2'', PhonyCommand ((newExternalCommand ''C2'')
                        \<lparr>ec_repairViaOwnershipAnalysis := True, ec_outputs := [makeBuildNode q Plain]\<rparr>))]\<rparr>"

lemma two_outputs:
  "p \<noteq> q \<Longrightarrow> analysedOutputs (BuildSystemFileDelegate sample_client) (two_outputs_builder p q)
     = [(p, ''C1''), (q, ''C2'')]"
  by (simp add: analysedOutputs_def two_outputs_builder_def BuildSystemFileDelegate_def isExternalCommand_builtin_def
      nodeNamed_def makeBuildNode_def isVirtual_def)

lemma finalize_rejects_nested_outputs_witness:
  "fst (finalize (BuildSystemFileDelegate sample_client) (two_outputs_builder ''foo'' ''foo/b'')) = None
   \<and> fst (finalize (BuildSystemFileDelegate sample_client) (two_outputs_builder ''foo'' ''foobar'')) \<noteq> None"
proof -
  have "inside ''foo'' ''foo/b'' \<and> \<not> inside ''foo'' ''foobar'' \<and> \<not> inside ''foobar'' ''foo''"
    by (simp add: inside_def Let_def)
  then show ?thesis
    using finalize_rejects_nested_outputs [of "two_outputs_builder ''foo'' ''foo/b''" "BuildSystemFileDelegate sample_client"]
      finalize_rejects_nested_outputs [of "two_outputs_builder ''foo'' ''foobar''" "BuildSystemFileDelegate sample_client"]
    by (simp add: two_outputs) (simp add: two_outputs_builder_def)
qed

text \<open>A file that two commands declare is given to the later one, and nothing is reported.\<close>

lemma ownership_duplicate_silent:
  "establishOwnerships (\<lambda>_. True) [(''a'', ''C1''), (''a'', ''C2'')] [] [] = Inr ([(''a'', ''C2'')], [])"
  by code_simp

text \<open>
  Only the first of several unowned directories waits for an output below it, and a directory
  named without a final separator also waits for siblings that share its name as a prefix.
\<close>

lemma deferScan_first_only:
  assumes "deferScan [u, v] repairs p b = b'" and "prefix (fst u) (fst p)" and "repairs (snd p)" and "fst v \<noteq> fst u"
  shows "map_of (b_nodes b') (fst v) = map_of (b_nodes b) (fst v)"
  using assms by (auto simp: deferScan_def Let_def update_conv')

end
