(* ===== verification/BuildSystemToolsProps.thy ===== *)
theory BuildSystemToolsProps
  imports BuildSystemTools ShellCommandProps
begin

text \<open>
  Properties of the builtin commands that run a compiler, an archiver or a linker: when the Swift
  compiler is started and with what, what the dependency files give, and which settings the
  signatures leave out.
\<close>

section \<open>The Swift compiler\<close>

lemma outputFileMap_Some:
  assumes "swiftConfigurationError cmd = None"
  shows "\<exists>text deps. outputFileMap P cmd = Some (text, deps)"
  using assms by (auto simp: swiftConfigurationError_def outputFileMap_def split_beta Let_def split: if_splits)

lemma finishSwift_no_spawn:
  assumes "finishSwift contents deps status = Some (final, evs)"
  shows "SwiftSpawn args \<notin> set evs"
  using assms by (auto simp: finishSwift_def bind_eq_Some_conv split: if_splits)

text \<open>The file system as the compiler's output file map is written.\<close>

definition mapWritten ::
  "swift_paths \<Rightarrow> (string \<Rightarrow> 'fs \<Rightarrow> bool \<times> 'fs) \<Rightarrow> (string \<Rightarrow> string \<Rightarrow> 'fs \<Rightarrow> bool \<times> 'fs) \<Rightarrow> SwiftCompilerShellCommand \<Rightarrow> 'fs \<Rightarrow> bool" where
  "mapWritten P createDirectories writeFile cmd fs \<longleftrightarrow>
     (case outputFileMap P cmd of
        None \<Rightarrow> False
      | Some (text, deps) \<Rightarrow>
          fst (writeFile (getOutputFileMapPath P cmd) text (snd (createDirectories (sw_tempsPath cmd) fs))))"

lemma swift_configured_iff:
  "swiftConfigurationError cmd = None \<longleftrightarrow>
     sw_sourcesList cmd \<noteq> [] \<and> sw_objectsList cmd \<noteq> [] \<and> sw_moduleName cmd \<noteq> [] \<and> sw_tempsPath cmd \<noteq> []
     \<and> length (sw_sourcesList cmd) = length (sw_objectsList cmd)"
  by (simp add: swiftConfigurationError_def)

lemma finishSwift_status:
  assumes "finishSwift contents deps st = Some (final, evs)"
  shows "if st = Succeeded then final \<in> {Succeeded, Failed} else final = st \<and> evs = []"
  using assms by (auto simp: finishSwift_def bind_eq_Some_conv split: if_splits)

lemma executeProcessStatus_cancelled:
  "q_cancelled q \<Longrightarrow> executeProcessStatus os laneNumber ident args q = Some Cancelled"
  by (simp add: executeProcessStatus_def executeProcess_def makeCancelled_def mkProcessResult_def)

text \<open>
  C34. The command line of the Swift compiler, built from the configuration, is handed to the queue
  exactly if there are sources and objects, equally many of them, a module name and a directory for
  temporary files, and the output file map could be written. This happens once; unless the process
  succeeds, its status is the status of the command and no dependency file is read, and on a
  cancelled queue, which starts no process, that status is cancelled. In every other case nothing
  is handed to the queue and the command fails with one error.
\<close>

theorem swift_runs_compiler_iff:
  assumes "execute_swift P os createDirectories writeFile contents laneNumber ident q cmd fs = Some (status, evs, fs')"
  shows "if sw_sourcesList cmd \<noteq> [] \<and> sw_objectsList cmd \<noteq> [] \<and> length (sw_sourcesList cmd) = length (sw_objectsList cmd)
        \<and> sw_moduleName cmd \<noteq> [] \<and> sw_tempsPath cmd \<noteq> [] \<and> mapWritten P createDirectories writeFile cmd fs
    then \<exists>args rest st. args = constructCommandLineArgs (getOutputFileMapPath P cmd) cmd
      \<and> evs = SwiftSpawn args # rest \<and> (\<forall>args'. SwiftSpawn args' \<notin> set rest)
      \<and> executeProcessStatus os laneNumber ident args q = Some st
      \<and> (if st = Succeeded then status \<in> {Succeeded, Failed} else status = st \<and> rest = [])
      \<and> (q_cancelled q \<longrightarrow> status = Cancelled)
    else status = Failed \<and> (\<exists>message. evs = [SwiftError message] \<or> evs = [SwiftCommandError message])"
proof (cases "swiftConfigurationError cmd")
  case (Some message)
  then have "\<not> (sw_sourcesList cmd \<noteq> [] \<and> sw_objectsList cmd \<noteq> [] \<and> length (sw_sourcesList cmd) = length (sw_objectsList cmd)
      \<and> sw_moduleName cmd \<noteq> [] \<and> sw_tempsPath cmd \<noteq> [])"
    using swift_configured_iff [of cmd] by auto
  then show ?thesis using assms Some by (auto simp: execute_swift_def)
next
  case None
  let ?args = "constructCommandLineArgs (getOutputFileMapPath P cmd) cmd"
  obtain body deps where written: "outputFileMap P cmd = Some (body, deps)"
    using outputFileMap_Some [OF None] by blast
  let ?outcome = "writeFile (getOutputFileMapPath P cmd) body (snd (createDirectories (sw_tempsPath cmd) fs))"
  obtain good fs1 where wr: "?outcome = (good, fs1)" by fastforce
  note config = None [unfolded swift_configured_iff]
  show ?thesis
  proof (cases good)
    case True
    then obtain st rest where st: "executeProcessStatus os laneNumber ident ?args q = Some st"
      and fin: "finishSwift contents deps st = Some (status, rest)" and evs: "evs = SwiftSpawn ?args # rest"
      using assms None written wr by (auto simp: execute_swift_def Let_def bind_eq_Some_conv)
    have "q_cancelled q \<longrightarrow> status = Cancelled"
      using executeProcessStatus_cancelled [of q os laneNumber ident ?args] st finishSwift_status [OF fin] by auto
    with True st evs finishSwift_status [OF fin] finishSwift_no_spawn [OF fin] config written wr show ?thesis
      by (auto simp: mapWritten_def)
  next
    case False
    then show ?thesis
      using assms None written wr by (auto simp: execute_swift_def mapWritten_def Let_def)
  qed
qed

definition sample_swift :: SwiftCompilerShellCommand where
  "sample_swift = (newSwift ''C'')\<lparr>sw_sourcesList := [''a.swift''], sw_objectsList := [''a.o''], sw_moduleName := ''M'',
     sw_tempsPath := ''/t''\<rparr>"

definition sample_paths :: swift_paths where
  "sample_paths = \<lparr>sp_append = (\<lambda>a b. a @ ''/'' @ b), sp_parent = (\<lambda>p. ''.''), sp_stem = (\<lambda>p. ''a'')\<rparr>"

definition accepting :: "string \<Rightarrow> unit \<Rightarrow> bool \<times> unit" where
  "accepting path fs = (True, fs)"

lemma swift_runs_compiler_iff_witness:
  "\<exists>status evs. execute_swift sample_paths exit_os accepting (\<lambda>path. accepting) (\<lambda>path. Some []) 0 1
       (one_lane FIFO) sample_swift () = Some (status, evs, ())
     \<and> executeProcessStatus exit_os 0 1 [''swiftc'', ''-module-name'', ''M'', ''-emit-dependencies'', ''-output-file-map'',
         ''/t/output-file-map.json'', ''-incremental'', ''-c'', ''a.swift''] (one_lane FIFO) = Some Succeeded
     \<and> (\<exists>rest. evs = SwiftSpawn [''swiftc'', ''-module-name'', ''M'', ''-emit-dependencies'', ''-output-file-map'',
         ''/t/output-file-map.json'', ''-incremental'', ''-c'', ''a.swift''] # rest)"
proof -
  let ?args = "[''swiftc'', ''-module-name'', ''M'', ''-emit-dependencies'', ''-output-file-map'',
         ''/t/output-file-map.json'', ''-incremental'', ''-c'', ''a.swift'']"
  have run: "executeProcessStatus exit_os 0 1 ?args (one_lane FIFO) = Some Succeeded"
    by code_simp
  have args: "constructCommandLineArgs (getOutputFileMapPath sample_paths sample_swift) sample_swift = ?args"
    by (simp add: constructCommandLineArgs_def getOutputFileMapPath_def sample_paths_def sample_swift_def newSwift_def)
  have "\<not> Option.is_none (execute_swift sample_paths exit_os accepting (\<lambda>path. accepting) (\<lambda>path. Some []) 0 1
       (one_lane FIFO) sample_swift ())"
    by code_simp
  then obtain status evs where e: "execute_swift sample_paths exit_os accepting (\<lambda>path. accepting) (\<lambda>path. Some []) 0 1
       (one_lane FIFO) sample_swift () = Some (status, evs, ())" by (auto simp: Option.is_none_def)
  have "mapWritten sample_paths accepting (\<lambda>path. accepting) sample_swift ()"
    by code_simp
  then show ?thesis
    using swift_runs_compiler_iff [OF e] run e unfolding args by (auto simp: sample_swift_def)
qed

section \<open>Dependency files\<close>

definition firstPrerequisites :: "(string \<times> string list) list \<Rightarrow> string list" where
  "firstPrerequisites rules = (case rules of [] \<Rightarrow> [] | r # _ \<Rightarrow> snd r)"

lemma swiftActions_append_later:
  assumes "n > 0"
  shows "swiftActions path n (concat (map mk_events rules)) = []"
  using assms
proof (induction rules arbitrary: n)
  case (Cons r rules)
  have "swiftActions path n (map (\<lambda>d. RuleDependency (mk_escape d) d) ds @ evs) = swiftActions path n evs"
    if "n > 0" for ds evs n
    using that by (induction ds) auto
  then show ?case using Cons by (auto simp: mk_events_def)
qed simp

lemma swiftActions_first:
  "swiftActions path 0 (concat (map mk_events rules)) = concat (map discovered (firstPrerequisites rules))"
proof (cases rules)
  case (Cons r rs)
  have "swiftActions path 0 (map (\<lambda>d. RuleDependency (mk_escape d) d) ds @ evs)
      = concat (map discovered ds) @ swiftActions path 0 evs" for ds evs
    by (induction ds) auto
  then show ?thesis
    using Cons by (simp add: mk_events_def firstPrerequisites_def swiftActions_append_later)
qed (simp add: firstPrerequisites_def)

lemma bytes_chars_print: "chars (bytes s) = s"
  by simp

lemma processSwift_printed:
  assumes "printable rules" and "contents path = Some (bytes (concat (map mk_print rules)))"
  shows "processDiscoveredDependencies_swift contents path
    = Some (True, concat (map discovered (firstPrerequisites rules)))"
proof -
  have "\<forall>r \<in> set rules. mk_target_ok (fst r) \<and> (\<forall>d \<in> set (snd r). mk_dep_ok d)"
    using assms(1) by (auto simp: printable_def list_all_iff)
  then have "parseMakefileDeps False (concat (map mk_print rules)) = Some (concat (map mk_events rules))"
    using parseMakefileDeps_printed [of rules False] by simp
  then show ?thesis
    using assms(2) mk_events_no_error [of rules]
    by (simp add: processDiscoveredDependencies_swift_def swiftActions_first)
qed

text \<open>
  When the Swift compiler has succeeded and left dependency files that are the printed form of
  rules, the command succeeds and gives the engine the prerequisites of the first rule of every
  file, in order, and no others.
\<close>

theorem swift_discovers_first_rules:
  assumes "list_all (\<lambda>(path, rules). printable rules \<and> contents path = Some (bytes (concat (map mk_print rules)))) files"
  shows "finishSwift contents (map fst files) Succeeded
    = Some (Succeeded, [SwiftDeps (concat (map discovered (concat (map (firstPrerequisites \<circ> snd) files))))])"
proof -
  have "processSwiftDepsFiles contents (map fst files)
      = Some (True, concat (map discovered (concat (map (firstPrerequisites \<circ> snd) files))))"
    using assms by (induction files) (auto simp: processSwift_printed)
  then show ?thesis by (simp add: finishSwift_def)
qed

lemma swift_discovers_first_rules_witness:
  "finishSwift (\<lambda>p. Some (bytes (concat (map mk_print [(''a.o'', [''a.swift'']), (''a.m'', [''b.swift'']) ]))))
     [''a.d''] Succeeded
   = Some (Succeeded, [SwiftDeps (discovered ''a.swift'')])"
  using swift_discovers_first_rules [of "\<lambda>p. Some (bytes (concat (map mk_print [(''a.o'', [''a.swift'']), (''a.m'', [''b.swift''])])))"
      "[(''a.d'', [(''a.o'', [''a.swift'']), (''a.m'', [''b.swift''])])]"]
  by (simp add: printable_def mk_target_ok_def mk_dep_ok_def firstPrerequisites_def)

text \<open>Every source has its line in the output file map, with the path quoted as a JSON string.\<close>

lemma sourceEntries_deps:
  "snd (sourceEntries P cmd so) = (if sw_enableWholeModuleOptimization cmd then []
     else map (\<lambda>(source, object). sp_append P (sp_parent P object) (sp_stem P source @ ''.d'')) so)"
  by (induction so) (auto simp: sourceEntry_def Let_def split_beta)

section \<open>Signatures\<close>

text \<open>Settings that change the command line and not the signature.\<close>

lemma swift_signature_ignores_optimization:
  "getSignature_swift H (cmd\<lparr>sw_enableWholeModuleOptimization := x, sw_numThreads := n\<rparr>) = getSignature_swift H cmd"
  by (simp add: getSignature_swift_def)

lemma swift_optimization_changes_command:
  "constructCommandLineArgs p ((newSwift ''C'')\<lparr>sw_enableWholeModuleOptimization := True\<rparr>)
   \<noteq> constructCommandLineArgs p (newSwift ''C'')"
  by (simp add: constructCommandLineArgs_def newSwift_def)

lemma sharedLibrary_signature_ignores_configuration:
  "getSignature_sharedLibrary H (cmd\<lparr>sl_executable := e, sl_compilerStyle := s, sl_otherArgs := args\<rparr>)
   = getSignature_sharedLibrary H cmd"
  by (simp add: getSignature_sharedLibrary_def)

lemma sharedLibrary_drops_unknown_attributes:
  assumes "name \<notin> {''executable'', ''other-args'', ''compiler-style''}"
  shows "configure_sharedLibrary name (AttrScalar val) cmd = Some ([], Some cmd)"
  using assms by simp

text \<open>A second list of inputs makes the archiver take the first ones twice.\<close>

lemma archive_inputs_twice:
  "ar_archiveInputs (snd (configureInputs_archive ms (snd (configureInputs_archive ns (newArchive name)))))
   = fileNames ns @ fileNames ns @ fileNames ms"
  by (simp add: configureInputs_archive_def newArchive_def configureInputs_def newExternalCommand_def fileNames_def Let_def)

end
