(* ===== verification/FileSystems.thy ===== *)
theory FileSystems
  imports LoaderProps
begin

text \<open>
  The file systems of \<^verbatim>\<open>lib/Basic/FileSystem.cpp\<close> and \<^verbatim>\<open>FileSystem.h\<close> that the build system may use: the creation
  of directories of the local one, and the two wrappers, which hide devices and inodes, or everything
  but size and checksum. With them the loading of a description chooses its file system
  (\<^verbatim>\<open>BuildSystemImpl::loadDescription\<close>).
\<close>

section \<open>Creating directories\<close>

text \<open>\<^verbatim>\<open>mkdir\<close> gives an error number, or none; \<^verbatim>\<open>lstat\<close> the mode, or none.\<close>

record 'fs file_calls =
  fc_mkdir :: "string \<Rightarrow> 'fs \<Rightarrow> int option \<times> 'fs"
  fc_lstat :: "'fs \<Rightarrow> string \<Rightarrow> u64 option"
  fc_parent_path :: "string \<Rightarrow> string"

definition EEXIST :: int where "EEXIST = 17"

definition createDirectory :: "'fs file_calls \<Rightarrow> string \<Rightarrow> 'fs \<Rightarrow> bool \<times> 'fs" where
  "createDirectory F path fs =
     (case fc_mkdir F path fs of
        (None, fs) \<Rightarrow> (True, fs)
      | (Some errno, fs) \<Rightarrow>
          if errno \<noteq> EEXIST then (False, fs)
          else (case fc_lstat F fs path of
                  None \<Rightarrow> (False, fs)
                | Some md \<Rightarrow> (md AND S_IFMT = S_IFDIR, fs)))"

text \<open>The recursion ends because a parent is shorter; \<open>n\<close> bounds it.\<close>

primrec createDirectories :: "nat \<Rightarrow> 'fs file_calls \<Rightarrow> string \<Rightarrow> 'fs \<Rightarrow> bool \<times> 'fs" where
  "createDirectories 0 F path fs = createDirectory F path fs"
| "createDirectories (Suc n) F path fs =
     (case createDirectory F path fs of
        (True, fs) \<Rightarrow> (True, fs)
      | (False, fs) \<Rightarrow>
          if fc_parent_path F path = [] then (False, fs)
          else (case createDirectories n F (fc_parent_path F path) fs of
                  (False, fs) \<Rightarrow> (False, fs)
                | (True, fs) \<Rightarrow> createDirectory F path fs))"

text \<open>The length of the path is a bound that is never reached.\<close>

lemma createDirectories_bound:
  assumes "\<And>path. path \<noteq> [] \<Longrightarrow> length (fc_parent_path F path) < length path" "fc_parent_path F [] = []"
    and "length path \<le> n" "length path \<le> m" "0 < n" "0 < m"
  shows "createDirectories n F path fs = createDirectories m F path fs"
  using assms(3-)
proof (induction n arbitrary: path fs m)
  case (Suc n)
  from Suc.prems obtain m' where m: "m = Suc m'" by (cases m) auto
  show ?case
  proof (cases "fc_parent_path F path = []")
    case True
    then show ?thesis by (simp add: m split: prod.split bool.split)
  next
    case False
    then have "path \<noteq> []" using assms(2) by auto
    then have "length (fc_parent_path F path) < length path" using assms(1) by blast
    moreover from this False have "0 < n" "0 < m'" "length (fc_parent_path F path) \<le> n" "length (fc_parent_path F path) \<le> m'"
      using Suc.prems m by (auto simp: Suc_le_eq) (metis gr0I le_zero_eq length_0_conv less_Suc_eq_le order_less_le_trans)+
    ultimately have "createDirectories n F (fc_parent_path F path) fs = createDirectories m' F (fc_parent_path F path) fs" for fs
      using Suc.IH by blast
    then show ?thesis by (simp add: m split: prod.split bool.split)
  qed
qed simp

section \<open>The wrappers\<close>

definition hideDevice :: "FileInfo \<Rightarrow> FileInfo" where
  "hideDevice info = info\<lparr>device := 0, inode := 0\<rparr>"

definition deviceAgnosticFileSystem :: "'fs FileSystem \<Rightarrow> 'fs FileSystem" where
  "deviceAgnosticFileSystem impl = impl\<lparr>
     fs_getFileInfo := (\<lambda>fs path. hideDevice (fs_getFileInfo impl fs path)),
     fs_getLinkInfo := (\<lambda>fs path. hideDevice (fs_getLinkInfo impl fs path))\<rparr>"

text \<open>
  \<open>getFileChecksum\<close> is that of the wrapped file system; \<open>linkDigest\<close> the digest of the contents of a link, \<^term>\<open>None\<close> if
  \<^verbatim>\<open>readlink\<close> fails.
\<close>

definition checksumOnlyFileSystem ::
  "('fs \<Rightarrow> string \<Rightarrow> FileChecksum) \<Rightarrow> ('fs \<Rightarrow> string \<Rightarrow> FileChecksum option) \<Rightarrow> 'fs FileSystem \<Rightarrow> 'fs FileSystem" where
  "checksumOnlyFileSystem getFileChecksum linkDigest impl = impl\<lparr>
     fs_getFileInfo := (\<lambda>fs path. (hideDevice (fs_getFileInfo impl fs path))
        \<lparr>modTime := FileTimestamp 0 0, checksum := getFileChecksum fs path\<rparr>),
     fs_getLinkInfo := (\<lambda>fs path. (hideDevice (fs_getLinkInfo impl fs path))
        \<lparr>modTime := FileTimestamp 0 0,
         checksum := (case linkDigest fs path of Some digest \<Rightarrow> digest | None \<Rightarrow> zeroChecksum)\<rparr>)\<rparr>"

text \<open>A build that was moved to another device finds its files unchanged if size, time and checksum are.\<close>

lemma deviceAgnostic_unchanged:
  "fileInfo_eq (fs_getFileInfo (deviceAgnosticFileSystem F) fs path) (fs_getFileInfo (deviceAgnosticFileSystem F) fs' path) \<longleftrightarrow>
     (let a = fs_getFileInfo F fs path; b = fs_getFileInfo F fs' path
      in fi_size a = fi_size b \<and> modTime a = modTime b \<and> checksum a = checksum b)"
  by (simp add: deviceAgnosticFileSystem_def hideDevice_def fileInfo_eq_def Let_def)

text \<open>With checksums only, a file that was touched is unchanged.\<close>

lemma checksumOnly_unchanged:
  "fileInfo_eq (fs_getFileInfo (checksumOnlyFileSystem chksum link F) fs path)
       (fs_getFileInfo (checksumOnlyFileSystem chksum link F) fs' path) \<longleftrightarrow>
     fi_size (fs_getFileInfo F fs path) = fi_size (fs_getFileInfo F fs' path) \<and> chksum fs path = chksum fs' path"
  by (simp add: checksumOnlyFileSystem_def hideDevice_def fileInfo_eq_def)

text \<open>A file is still seen, as every file has a type and so a mode.\<close>

lemma checksumOnly_missing:
  assumes "isMissing (fs_getFileInfo F fs path) \<or> mode (fs_getFileInfo F fs path) \<noteq> 0"
  shows "isMissing (fs_getFileInfo (checksumOnlyFileSystem chksum link F) fs path) \<longleftrightarrow> isMissing (fs_getFileInfo F fs path)"
  using assms by (auto simp: checksumOnlyFileSystem_def hideDevice_def isMissing_def)

section \<open>Loading a description\<close>

fun configureFileSystem ::
  "('fs \<Rightarrow> string \<Rightarrow> FileChecksum) \<Rightarrow> ('fs \<Rightarrow> string \<Rightarrow> FileChecksum option) \<Rightarrow> FileSystemMode \<Rightarrow> 'fs FileSystem \<Rightarrow> 'fs FileSystem" where
  "configureFileSystem chksum link DeviceAgnostic F = deviceAgnosticFileSystem F"
| "configureFileSystem chksum link ChecksumOnly F = checksumOnlyFileSystem chksum link F"
| "configureFileSystem chksum link Full F = F"

text \<open>
  From a file: whether it succeeds, the description that is then current, and the messages. A failed load
  keeps the description that was loaded before.
\<close>

definition loadDescription ::
  "('t, 'c) BuildFileDelegate \<Rightarrow> string \<Rightarrow> Yaml option list option \<Rightarrow> ('t, 'c) description option
   \<Rightarrow> (bool \<times> ('t, 'c) description option \<times> loader_event list) option" where
  "loadDescription D filename input current = do {
     (ds, log) \<leftarrow> load D filename input;
     Some (case ds of
             None \<Rightarrow> (False, current, log @ [LoaderError ''unable to load build file''])
           | Some ds \<Rightarrow> (True, Some ds, log))
   }"

text \<open>
  From a builder that the client fills; the mode of the file system is applied at the end. \<open>populate\<close> gives
  the builder with its mode, or none if it fails.
\<close>

definition loadPopulated ::
  "('t, 'c) BuildFileDelegate \<Rightarrow> (('t, 'c) builder \<Rightarrow> (('t, 'c) builder \<times> FileSystemMode) option)
   \<Rightarrow> ('t, 'c) description option \<Rightarrow> bool \<times> ('t, 'c) description option \<times> FileSystemMode \<times> loader_event list" where
  "loadPopulated D populate current =
     (case populate newBuilder of
        None \<Rightarrow> (False, current, Full, [LoaderError ''unable to build in-memory build description''])
      | Some (b, fsMode) \<Rightarrow>
          (case finalize D b of
             (None, log) \<Rightarrow> (False, current, Full, log @ [LoaderError ''unable to build in-memory build description''])
           | (Some ds, log) \<Rightarrow> (True, Some ds, fsMode, log)))"

text \<open>The current description stays well formed through every load with the builtin tools.\<close>

lemma loadDescription_wf:
  assumes "loadDescription (BuildSystemFileDelegate cp) filename input current = Some (good, current', log)"
    and "\<And>ds. current = Some ds \<Longrightarrow> description_wf (BuildSystemFileDelegate cp) ds"
    and "current' = Some ds"
  shows "description_wf (BuildSystemFileDelegate cp) ds"
  using assms builtin.load_wf by (auto simp: loadDescription_def bind_eq_Some_conv split: option.splits)

end
