(* ===== verification/NinjaValue.thy ===== *)
theory NinjaValue
  imports FileInfo
begin

text \<open>
  The values of the rules of the Ninja build command, the class \<^verbatim>\<open>BuildValue\<close> of
  \<^verbatim>\<open>lib/Commands/NinjaBuildCommand.cpp\<close>. A value is stored as the image of its object in memory: on
  64-bit little-endian systems 96 bytes without padding, the kind, the number of file infos, the
  union of 80 bytes and the command hash, followed by the array of file infos if there are several.
  The image of a \<^verbatim>\<open>FileInfo\<close> has the layout of its binary coding. Where the union holds a pointer to an
  array, the address is part of the image.
\<close>

section \<open>Values\<close>

abbreviation (input) ExistingInput :: u32 where "ExistingInput \<equiv> 0"
abbreviation (input) MissingInput :: u32 where "MissingInput \<equiv> 1"
abbreviation (input) SuccessfulCommand :: u32 where "SuccessfulCommand \<equiv> 2"
abbreviation (input) FailedCommand :: u32 where "FailedCommand \<equiv> 3"
abbreviation (input) SkippedCommand :: u32 where "SkippedCommand \<equiv> 4"

datatype NinjaValueData = AsOutputInfo FileInfo | AsOutputInfos u64 "FileInfo list"

record NinjaValue =
  nv_kind :: u32
  nv_numOutputInfos :: u32
  nv_valueData :: NinjaValueData
  nv_commandHash :: u64

definition plainNinjaValue :: "u32 \<Rightarrow> NinjaValue" where
  "plainNinjaValue k = \<lparr>nv_kind = k, nv_numOutputInfos = 0, nv_valueData = AsOutputInfo zeroFileInfo,
     nv_commandHash = 0\<rparr>"

definition makeExistingInput_ninja :: "FileInfo \<Rightarrow> NinjaValue" where
  "makeExistingInput_ninja outputInfo = \<lparr>nv_kind = ExistingInput, nv_numOutputInfos = 1,
     nv_valueData = AsOutputInfo outputInfo, nv_commandHash = 0\<rparr>"

definition makeMissingInput :: NinjaValue where
  "makeMissingInput = plainNinjaValue MissingInput"

definition makeSuccessfulCommand_ninja :: "FileInfo \<Rightarrow> u64 \<Rightarrow> NinjaValue" where
  "makeSuccessfulCommand_ninja outputInfo commandHash = \<lparr>nv_kind = SuccessfulCommand, nv_numOutputInfos = 1,
     nv_valueData = AsOutputInfo outputInfo, nv_commandHash = commandHash\<rparr>"

text \<open>With several outputs; \<open>address\<close> is where the copy of the infos is allocated.\<close>

definition makeSuccessfulCommands :: "u64 \<Rightarrow> FileInfo list \<Rightarrow> u64 \<Rightarrow> NinjaValue option" where
  "makeSuccessfulCommands address outputInfos commandHash = do {
     assert_that ((of_nat (length outputInfos) :: u32) > 1);
     Some \<lparr>nv_kind = SuccessfulCommand, nv_numOutputInfos = of_nat (length outputInfos),
       nv_valueData = AsOutputInfos address outputInfos, nv_commandHash = commandHash\<rparr>
   }"

definition makeFailedCommand :: NinjaValue where
  "makeFailedCommand = plainNinjaValue FailedCommand"

definition makeSkippedCommand :: NinjaValue where
  "makeSkippedCommand = plainNinjaValue SkippedCommand"

definition isExistingInput :: "NinjaValue \<Rightarrow> bool" where
  "isExistingInput v \<longleftrightarrow> nv_kind v = ExistingInput"

definition isMissingInput :: "NinjaValue \<Rightarrow> bool" where
  "isMissingInput v \<longleftrightarrow> nv_kind v = MissingInput"

definition isSuccessfulCommand_ninja :: "NinjaValue \<Rightarrow> bool" where
  "isSuccessfulCommand_ninja v \<longleftrightarrow> nv_kind v = SuccessfulCommand"

definition isFailedCommand :: "NinjaValue \<Rightarrow> bool" where
  "isFailedCommand v \<longleftrightarrow> nv_kind v = FailedCommand"

definition isSkippedCommand :: "NinjaValue \<Rightarrow> bool" where
  "isSkippedCommand v \<longleftrightarrow> nv_kind v = SkippedCommand"

definition hasMultipleOutputs_ninja :: "NinjaValue \<Rightarrow> bool" where
  "hasMultipleOutputs_ninja v \<longleftrightarrow> nv_numOutputInfos v > 1"

definition getNumOutputs_ninja :: "NinjaValue \<Rightarrow> u32 option" where
  "getNumOutputs_ninja v = do {
     assert_that (isExistingInput v \<or> isSuccessfulCommand_ninja v);
     Some (nv_numOutputInfos v)
   }"

definition getOutputInfo_ninja :: "NinjaValue \<Rightarrow> FileInfo option" where
  "getOutputInfo_ninja v = do {
     assert_that (isExistingInput v \<or> isSuccessfulCommand_ninja v);
     assert_that (\<not> hasMultipleOutputs_ninja v);
     (case nv_valueData v of AsOutputInfo info \<Rightarrow> Some info | _ \<Rightarrow> None)
   }"

definition getNthOutputInfo_ninja :: "nat \<Rightarrow> NinjaValue \<Rightarrow> FileInfo option" where
  "getNthOutputInfo_ninja n v = do {
     assert_that (isExistingInput v \<or> isSuccessfulCommand_ninja v);
     num \<leftarrow> getNumOutputs_ninja v;
     assert_that (n < unat num);
     (case nv_valueData v of
        AsOutputInfos address infos \<Rightarrow> if n < length infos then Some (infos ! n) else None
      | AsOutputInfo info \<Rightarrow> do { assert_that (n = 0); Some info })
   }"

definition getCommandHash :: "NinjaValue \<Rightarrow> u64 option" where
  "getCommandHash v = do { assert_that (isSuccessfulCommand_ninja v); Some (nv_commandHash v) }"

lemmas ninja_kind_defs = isExistingInput_def isMissingInput_def isSuccessfulCommand_ninja_def
  isFailedCommand_def isSkippedCommand_def

lemmas ninja_make_defs = plainNinjaValue_def makeExistingInput_ninja_def makeMissingInput_def
  makeSuccessfulCommand_ninja_def makeFailedCommand_def makeSkippedCommand_def

section \<open>Images\<close>

definition sizeof_FileInfo :: nat where "sizeof_FileInfo = 80"
definition sizeof_BuildValue :: nat where "sizeof_BuildValue = 96"

primrec image_union :: "NinjaValueData \<Rightarrow> byte list" where
  "image_union (AsOutputInfo info) = write_fileInfo info []"
| "image_union (AsOutputInfos address infos) = write_u64 address [] @ replicate 72 0"

primrec image_array :: "NinjaValueData \<Rightarrow> byte list" where
  "image_array (AsOutputInfo info) = []"
| "image_array (AsOutputInfos address infos) = write_seq write_fileInfo infos []"

definition toValue :: "NinjaValue \<Rightarrow> byte list" where
  "toValue v =
     (let image = write_u32 (nv_kind v) [] @ write_u32 (nv_numOutputInfos v) [] @ image_union (nv_valueData v)
                  @ write_u64 (nv_commandHash v) []
      in if hasMultipleOutputs_ninja v then image @ image_array (nv_valueData v) else image)"

text \<open>\<open>address\<close>: where the array of the infos that are read is allocated.\<close>

definition fromValue :: "u64 \<Rightarrow> byte list \<Rightarrow> NinjaValue option" where
  "fromValue address value = do {
     assert_that (length value \<ge> sizeof_BuildValue);
     (kind, d) \<leftarrow> read32 \<lparr>data = value, pos = 0\<rparr>;
     (num, d) \<leftarrow> read32 d;
     if num > 1 then do {
       assert_that (length value = sizeof_BuildValue + unat num * sizeof_FileInfo);
       (_, d) \<leftarrow> readBytes sizeof_FileInfo d;
       (hash, d) \<leftarrow> read64 d;
       (infos, d) \<leftarrow> read_seq read_fileInfo (unat num) d;
       Some \<lparr>nv_kind = kind, nv_numOutputInfos = num, nv_valueData = AsOutputInfos address infos, nv_commandHash = hash\<rparr>
     }
     else do {
       assert_that (length value = sizeof_BuildValue);
       (info, d) \<leftarrow> read_fileInfo d;
       (hash, d) \<leftarrow> read64 d;
       Some \<lparr>nv_kind = kind, nv_numOutputInfos = num, nv_valueData = AsOutputInfo info, nv_commandHash = hash\<rparr>
     }
   }"

section \<open>Round trip\<close>

text \<open>What the constructors give: the union holds what the number of infos says.\<close>

definition ninja_value_ok :: "NinjaValue \<Rightarrow> bool" where
  "ninja_value_ok v \<longleftrightarrow>
     (case nv_valueData v of
        AsOutputInfo info \<Rightarrow> \<not> hasMultipleOutputs_ninja v \<and> fileInfo_ok info
      | AsOutputInfos address infos \<Rightarrow>
          hasMultipleOutputs_ninja v \<and> length infos = unat (nv_numOutputInfos v) \<and> list_all fileInfo_ok infos)"

primrec with_address :: "u64 \<Rightarrow> NinjaValueData \<Rightarrow> NinjaValueData" where
  "with_address address (AsOutputInfo info) = AsOutputInfo info"
| "with_address address (AsOutputInfos _ infos) = AsOutputInfos address infos"

lemma length_write_fileInfo: "fileInfo_ok info \<Longrightarrow> length (write_fileInfo info []) = sizeof_FileInfo"
proof -
  have "length (write_seq write_u8 bs e) = length e + length bs" for bs :: "byte list" and e
    by (induction bs arbitrary: e) (auto simp: write_u8_def)
  then show "fileInfo_ok info \<Longrightarrow> ?thesis"
    by (simp add: write_fileInfo_eq write_timestamp_eq write_checksum_def fileInfo_ok_def checksum_ok_def
        sizeof_FileInfo_def)
qed

lemma length_image_array:
  "list_all fileInfo_ok infos \<Longrightarrow> length (write_seq write_fileInfo infos []) = length infos * sizeof_FileInfo"
  by (induction infos) (auto simp: fileInfo.wr_list_Cons length_write_fileInfo simp del: write_seq.simps(2))

lemma read32_at: "read32 (decoder_at pre (write_u32 v [] @ post)) = Some (v, decoder_at (pre @ write_u32 v []) post)"
  by (rule u32.rd_wr) simp

lemma fromValue_toValue_single:
  assumes "nv_valueData v = AsOutputInfo info" "\<not> hasMultipleOutputs_ninja v" "fileInfo_ok info"
  shows "fromValue address (toValue v) = Some v"
proof -
  let ?k = "write_u32 (nv_kind v) []" and ?n = "write_u32 (nv_numOutputInfos v) []"
    and ?i = "write_fileInfo info []" and ?h = "write_u64 (nv_commandHash v) []"
  have "toValue v = ?k @ ?n @ ?i @ ?h" using assms by (simp add: toValue_def Let_def)
  moreover have "length (?k @ ?n @ ?i @ ?h) = sizeof_BuildValue"
    using length_write_fileInfo [OF assms(3)] by (simp add: sizeof_BuildValue_def sizeof_FileInfo_def)
  ultimately show ?thesis
    using read32_at [of "[]" "nv_kind v" "?n @ ?i @ ?h"] read32_at [of ?k "nv_numOutputInfos v" "?i @ ?h"]
      fileInfo.rd_wr [OF assms(3), of "?k @ ?n" ?h] read64_at [of "?k @ ?n @ ?i" "nv_commandHash v" "[]"] assms(1,2)
    by (simp add: fromValue_def hasMultipleOutputs_ninja_def)
qed

lemma fromValue_toValue_array:
  assumes "nv_valueData v = AsOutputInfos a infos" "hasMultipleOutputs_ninja v"
    "length infos = unat (nv_numOutputInfos v)" "list_all fileInfo_ok infos"
  shows "fromValue address (toValue v) = Some (v\<lparr>nv_valueData := AsOutputInfos address infos\<rparr>)"
proof -
  let ?k = "write_u32 (nv_kind v) []" and ?n = "write_u32 (nv_numOutputInfos v) []"
    and ?u = "write_u64 a [] @ replicate 72 0" and ?h = "write_u64 (nv_commandHash v) []"
    and ?s = "write_seq write_fileInfo infos []"
  have image: "toValue v = ?k @ ?n @ ?u @ ?h @ ?s" using assms by (simp add: toValue_def Let_def)
  have len: "length (?k @ ?n @ ?u @ ?h @ ?s) = sizeof_BuildValue + unat (nv_numOutputInfos v) * sizeof_FileInfo"
    using length_image_array [OF assms(4)] assms(3) by (simp add: sizeof_BuildValue_def)
  have u: "readBytes sizeof_FileInfo (decoder_at (?k @ ?n) (?u @ ?h @ ?s)) = Some (?u, decoder_at ((?k @ ?n) @ ?u) (?h @ ?s))"
    using readBytes_at [of ?u "?k @ ?n" "?h @ ?s"] by (simp add: sizeof_FileInfo_def)
  show ?thesis
    unfolding image
    using len u read32_at [of "[]" "nv_kind v" "?n @ ?u @ ?h @ ?s"] read32_at [of ?k "nv_numOutputInfos v" "?u @ ?h @ ?s"]
      read64_at [of "?k @ ?n @ ?u" "nv_commandHash v" ?s] fileInfo.rd_wr_list [OF assms(4), of "?k @ ?n @ ?u @ ?h" "[]"]
      assms(2,3)
    by (simp add: fromValue_def hasMultipleOutputs_ninja_def)
qed

text \<open>
  Reading a stored value gives the value back, its array at a new address.
\<close>

theorem ninja_value_roundtrip:
  assumes "ninja_value_ok v"
  shows "fromValue address (toValue v) = Some (v\<lparr>nv_valueData := with_address address (nv_valueData v)\<rparr>)"
proof (cases "nv_valueData v")
  case (AsOutputInfo info)
  then show ?thesis
    using assms fromValue_toValue_single [OF AsOutputInfo, of address] by (simp add: ninja_value_ok_def)
next
  case (AsOutputInfos a infos)
  then show ?thesis
    using assms fromValue_toValue_array [OF AsOutputInfos, of address] by (simp add: ninja_value_ok_def)
qed

theorem ninja_value_roundtrip_witness:
  "fromValue 7 (toValue \<lparr>nv_kind = SuccessfulCommand, nv_numOutputInfos = 2,
       nv_valueData = AsOutputInfos 5 [zeroFileInfo, zeroFileInfo], nv_commandHash = 9\<rparr>)
   = Some \<lparr>nv_kind = SuccessfulCommand, nv_numOutputInfos = 2,
       nv_valueData = AsOutputInfos 7 [zeroFileInfo, zeroFileInfo], nv_commandHash = 9\<rparr>"
  using ninja_value_roundtrip [of "\<lparr>nv_kind = SuccessfulCommand, nv_numOutputInfos = 2,
       nv_valueData = AsOutputInfos 5 [zeroFileInfo, zeroFileInfo], nv_commandHash = 9\<rparr>" 7]
  by (simp add: ninja_value_ok_def hasMultipleOutputs_ninja_def fileInfo_ok_def checksum_ok_def zeroFileInfo_def zeroChecksum_def)

text \<open>
  The stored value of a command with several outputs depends on the address of its array: the engine,
  which compares the bytes, takes the result for changed when nothing but the address has.
\<close>

lemma ninja_value_address:
  assumes "hasMultipleOutputs_ninja v" "nv_valueData v = AsOutputInfos a infos" "a \<noteq> b"
  shows "toValue v \<noteq> toValue (v\<lparr>nv_valueData := AsOutputInfos b infos\<rparr>)"
proof
  assume "toValue v = toValue (v\<lparr>nv_valueData := AsOutputInfos b infos\<rparr>)"
  then have "write_u64 a [] = write_u64 b []"
    using assms by (simp add: toValue_def hasMultipleOutputs_ninja_def Let_def)
  then have "a = b" by (rule u64.wr_inj [rotated 2]) simp_all
  with assms(3) show False by contradiction
qed

end
