(* ===== verification/StatusOutput.thy ===== *)
theory StatusOutput
  imports Prelude "HOL-Library.Char_ord"
begin

text \<open>
  The status line of the command line tools, \<^verbatim>\<open>lib/Commands/CommandLineStatusOutput.cpp\<close>: one line
  that is rewritten in place on a terminal, and plain lines elsewhere. What is written to the
  stream is kept in \<open>so_written\<close>; the width of the terminal is an argument.
\<close>

section \<open>Colour codes\<close>

abbreviation escape_char :: char where "escape_char \<equiv> CHR 0x1B"
abbreviation line_feed :: char where "line_feed \<equiv> CHR 0x0A"
abbreviation carriage_return :: char where "carriage_return \<equiv> CHR 0x0D"

definition isalpha :: "char \<Rightarrow> bool" where
  "isalpha c = (let n = of_char c :: nat in n \<in> {97..122} \<union> {65..90})"

text \<open>The loop of \<^verbatim>\<open>countBytesIgnoringColors\<close> and of \<^verbatim>\<open>stripColorCodes\<close>, with the flag \<^verbatim>\<open>inAnsiSequence\<close>.\<close>

fun countBytesIgnoringColors :: "bool \<Rightarrow> string \<Rightarrow> nat" where
  "countBytesIgnoringColors inAnsiSequence [] = 0"
| "countBytesIgnoringColors inAnsiSequence (c # s) =
     (if c = escape_char then countBytesIgnoringColors True s
      else if inAnsiSequence then countBytesIgnoringColors (\<not> isalpha c) s
      else Suc (countBytesIgnoringColors False s))"

fun stripLoop :: "bool \<Rightarrow> string \<Rightarrow> string" where
  "stripLoop inAnsiSequence [] = []"
| "stripLoop inAnsiSequence (c # s) =
     (if c = escape_char then stripLoop True s
      else if inAnsiSequence then stripLoop (\<not> isalpha c) s
      else c # stripLoop False s)"

section \<open>The output\<close>

record CommandLineStatusOutput =
  so_isOpen :: bool
  so_stripColor :: bool
  so_termHonorsCarriageReturn :: bool
  so_hasOutput :: bool
  so_isClosed :: bool
  so_numCurrentCharacters :: nat
  so_written :: string

definition newStatusOutput :: CommandLineStatusOutput where
  "newStatusOutput = \<lparr>so_isOpen = False, so_stripColor = True, so_termHonorsCarriageReturn = False,
     so_hasOutput = False, so_isClosed = False, so_numCurrentCharacters = 0, so_written = []\<rparr>"

definition stripColorCodes :: "CommandLineStatusOutput \<Rightarrow> string \<Rightarrow> string" where
  "stripColorCodes st s = (if \<not> so_stripColor st then s else stripLoop False s)"

definition put_text :: "string \<Rightarrow> CommandLineStatusOutput \<Rightarrow> CommandLineStatusOutput" where
  "put_text s st = st\<lparr>so_written := so_written st @ s\<rparr>"

text \<open>\<open>displayed\<close>: whether standard output is a terminal; \<open>getenv\<close>: the environment.\<close>

definition open_status ::
  "bool \<Rightarrow> (string \<Rightarrow> string option) \<Rightarrow> CommandLineStatusOutput \<Rightarrow> CommandLineStatusOutput option" where
  "open_status displayed getenv st = do {
     assert_that (\<not> so_isOpen st \<and> \<not> so_isClosed st);
     let st = st\<lparr>so_isOpen := True\<rparr>;
     let st = (if displayed
               then case getenv ''TERM'' of
                      Some term \<Rightarrow>
                        if term \<noteq> ''dumb'' \<or> getenv ''INSIDE_EMACS'' \<noteq> None
                        then st\<lparr>so_termHonorsCarriageReturn := True, so_stripColor := False\<rparr> else st
                    | None \<Rightarrow>
                        if getenv ''INSIDE_EMACS'' \<noteq> None
                        then st\<lparr>so_termHonorsCarriageReturn := True, so_stripColor := False\<rparr> else st
               else st);
     Some (case getenv ''CLICOLOR_FORCE'' of
             Some force \<Rightarrow> st\<lparr>so_stripColor := (force = ''0'')\<rparr>
           | None \<Rightarrow> st)
   }"

definition close_status :: "CommandLineStatusOutput \<Rightarrow> CommandLineStatusOutput" where
  "close_status st =
     (let st = (if so_hasOutput st then put_text [line_feed] st else st)
      in st\<lparr>so_isOpen := False, so_isClosed := True\<rparr>)"

definition canUpdateCurrentLine :: "CommandLineStatusOutput \<Rightarrow> bool option" where
  "canUpdateCurrentLine st = do {
     assert_that (so_isOpen st);
     Some (so_termHonorsCarriageReturn st)
   }"

definition clearOutput :: "CommandLineStatusOutput \<Rightarrow> CommandLineStatusOutput option" where
  "clearOutput st = do {
     assert_that (so_isOpen st);
     can \<leftarrow> canUpdateCurrentLine st;
     assert_that can;
     Some (if so_hasOutput st
           then (put_text (carriage_return # replicate (so_numCurrentCharacters st) CHR '' '' @ [carriage_return]) st)
                  \<lparr>so_hasOutput := False\<rparr>
           else st)
   }"

definition getNumColumns :: "nat \<Rightarrow> nat" where
  "getNumColumns standardOutColumns = (if standardOutColumns = 0 then 80 else standardOutColumns)"

text \<open>
  Eliding the middle of a text that is wider than the terminal. \<^verbatim>\<open>substr\<close> cuts its length at the end of
  the text; the subtraction \<^verbatim>\<open>midpoint - 2\<close> is one of integers, held at 0.
\<close>

definition elide :: "nat \<Rightarrow> string \<Rightarrow> string option" where
  "elide columns s =
     (if columns > 0 \<and> length s > columns
      then let midpoint = columns div 2;
               text' = take (midpoint - 2) s @ ''...'' @ drop (length s - (columns - (midpoint + 1))) s
           in do { assert_that (columns < 3 \<or> length text' = columns); Some text' }
      else Some s)"

definition setCurrentLine :: "nat \<Rightarrow> string \<Rightarrow> CommandLineStatusOutput \<Rightarrow> CommandLineStatusOutput option" where
  "setCurrentLine standardOutColumns attributedText st = do {
     assert_that (so_isOpen st);
     assert_that (carriage_return \<notin> set attributedText);
     assert_that (line_feed \<notin> set attributedText);
     st \<leftarrow> clearOutput st;
     line \<leftarrow> elide (getNumColumns standardOutColumns) (stripColorCodes st attributedText);
     let st = put_text line st;
     let n = countBytesIgnoringColors False line;
     Some (st\<lparr>so_numCurrentCharacters := n, so_hasOutput := (n \<noteq> 0)\<rparr>)
   }"

definition writeText :: "string \<Rightarrow> CommandLineStatusOutput \<Rightarrow> CommandLineStatusOutput option" where
  "writeText s st = do {
     assert_that (so_isOpen st);
     assert_that (s \<noteq> [] \<and> last s = line_feed);
     st \<leftarrow> (if so_hasOutput st then clearOutput st else Some st);
     Some (put_text (stripColorCodes st s) st)
   }"

definition setOrWriteLine :: "nat \<Rightarrow> string \<Rightarrow> CommandLineStatusOutput \<Rightarrow> CommandLineStatusOutput option" where
  "setOrWriteLine standardOutColumns s st = do {
     can \<leftarrow> canUpdateCurrentLine st;
     if can then setCurrentLine standardOutColumns s st else writeText (s @ [line_feed]) st
   }"

definition finishLine :: "CommandLineStatusOutput \<Rightarrow> CommandLineStatusOutput option" where
  "finishLine st = do {
     assert_that (so_isOpen st);
     can \<leftarrow> canUpdateCurrentLine st;
     Some (if can \<and> so_hasOutput st then (put_text [line_feed] st)\<lparr>so_hasOutput := False\<rparr> else st)
   }"

section \<open>Stripping\<close>

text \<open>The count is that of the characters that stripping leaves.\<close>

lemma count_stripLoop: "countBytesIgnoringColors b s = length (stripLoop b s)"
  by (induction b s rule: stripLoop.induct) auto

lemma stripLoop_no_escape: "escape_char \<notin> set (stripLoop b s)"
  by (induction b s rule: stripLoop.induct) auto

lemma stripLoop_plain: "escape_char \<notin> set s \<Longrightarrow> stripLoop False s = s"
  by (induction s) auto

lemma stripLoop_idem [simp]: "stripLoop False (stripLoop b s) = stripLoop b s"
  by (rule stripLoop_plain [OF stripLoop_no_escape])

lemma set_stripLoop: "set (stripLoop b s) \<subseteq> set s"
  by (induction b s rule: stripLoop.induct) auto

lemma length_stripLoop: "length (stripLoop b s) \<le> length s"
  by (induction b s rule: stripLoop.induct) (auto simp: le_Suc_eq)

text \<open>A coloured text: the escape sequences go, the text between them stays.\<close>

lemma stripLoop_sequence:
  assumes "\<forall>c \<in> set params. \<not> isalpha c \<and> c \<noteq> escape_char" and "isalpha letter"
  shows "stripLoop b (escape_char # params @ letter # rest) = stripLoop False rest"
proof -
  have "stripLoop True (params @ letter # rest) = stripLoop False rest"
    using assms(1)
  proof (induction params)
    case Nil
    then show ?case using assms(2) by (auto simp: isalpha_def)
  qed auto
  then show ?thesis by simp
qed

section \<open>The width of the line\<close>

lemma elide_length:
  assumes "columns \<noteq> 3" and "columns \<noteq> 0"
  shows "\<exists>line. elide columns s = Some line \<and> (4 \<le> columns \<longrightarrow> length line \<le> columns)
    \<and> set line \<subseteq> set s \<union> {CHR ''.''}"
proof (cases "columns < length s")
  case True
  define line where "line = take (columns div 2 - 2) s @ ''...'' @ drop (length s - (columns - (columns div 2 + 1))) s"
  have len: "length line = columns" if "4 \<le> columns"
  proof -
    have "2 \<le> columns div 2" using that by simp
    then show ?thesis using True by (simp add: line_def)
  qed
  moreover have "elide columns s = (if columns < 3 \<or> length line = columns then Some line else None)"
    using True assms(2) by (simp add: elide_def line_def Let_def assert_that_def)
  ultimately have "elide columns s = Some line" using assms by (cases "4 \<le> columns") auto
  moreover have "set line \<subseteq> set s \<union> {CHR ''.''}"
    using set_take_subset [of _ s] set_drop_subset [of _ s] by (fastforce simp: line_def)
  ultimately show ?thesis using len by auto
next
  case False
  then show ?thesis by (auto simp: elide_def)
qed

text \<open>On a terminal of three columns the assertion behind the elision fails.\<close>

lemma elide_three_columns: "3 < length s \<Longrightarrow> elide 3 s = None"
  by (simp add: elide_def Let_def)

section \<open>Sequences of operations\<close>

datatype status_op = OpLine string | OpText string | OpFinish

fun status_apply :: "nat \<Rightarrow> status_op \<Rightarrow> CommandLineStatusOutput \<Rightarrow> CommandLineStatusOutput option" where
  "status_apply columns (OpLine s) st = setOrWriteLine columns s st"
| "status_apply columns (OpText s) st = writeText s st"
| "status_apply columns OpFinish st = finishLine st"

text \<open>What the callers keep to: a status line has no line break, a text ends with one.\<close>

fun status_op_ok :: "status_op \<Rightarrow> bool" where
  "status_op_ok (OpLine s) \<longleftrightarrow> carriage_return \<notin> set s \<and> line_feed \<notin> set s"
| "status_op_ok (OpText s) \<longleftrightarrow> s \<noteq> [] \<and> last s = line_feed"
| "status_op_ok OpFinish \<longleftrightarrow> True"

definition status_inv :: "nat \<Rightarrow> CommandLineStatusOutput \<Rightarrow> bool" where
  "status_inv columns st \<longleftrightarrow> so_isOpen st \<and> (so_hasOutput st \<longrightarrow> so_termHonorsCarriageReturn st)
     \<and> so_numCurrentCharacters st \<le> getNumColumns columns"

lemma clearOutput_inv:
  assumes "status_inv columns st" "so_termHonorsCarriageReturn st"
  obtains st' where "clearOutput st = Some st'" "status_inv columns st'" "\<not> so_hasOutput st'"
    "so_termHonorsCarriageReturn st'"
  using assms by (auto simp: clearOutput_def canUpdateCurrentLine_def status_inv_def put_text_def)

lemma countBytes_le: "countBytesIgnoringColors False s \<le> length s"
  by (simp add: count_stripLoop length_stripLoop)

lemma setCurrentLine_inv:
  assumes "status_inv columns st" "so_termHonorsCarriageReturn st" "status_op_ok (OpLine s)"
    and columns: "4 \<le> columns \<or> columns = 0"
  shows "\<exists>st'. setCurrentLine columns s st = Some st' \<and> status_inv columns st'"
proof -
  obtain st1 where st1: "clearOutput st = Some st1" "status_inv columns st1" "so_termHonorsCarriageReturn st1"
    using clearOutput_inv [OF assms(1,2)] by blast
  have n: "4 \<le> getNumColumns columns" using columns by (auto simp: getNumColumns_def)
  then obtain line where "elide (getNumColumns columns) (stripColorCodes st1 s) = Some line"
    "length line \<le> getNumColumns columns"
    using elide_length [of "getNumColumns columns" "stripColorCodes st1 s"] by auto
  then show ?thesis
    using assms st1 countBytes_le [of line]
    by (auto simp: setCurrentLine_def status_inv_def put_text_def Let_def)
qed

lemma writeText_inv:
  assumes "status_inv columns st" "status_op_ok (OpText s)"
  shows "\<exists>st'. writeText s st = Some st' \<and> status_inv columns st'"
proof (cases "so_hasOutput st")
  case True
  then obtain st1 where "clearOutput st = Some st1" "status_inv columns st1" "\<not> so_hasOutput st1"
    using clearOutput_inv [OF assms(1)] assms(1) by (auto simp: status_inv_def)
  then show ?thesis using True assms by (auto simp: writeText_def status_inv_def put_text_def)
next
  case False
  then show ?thesis using assms by (auto simp: writeText_def status_inv_def put_text_def)
qed

text \<open>
  No assertion of the status output fails, and what is on the current line is never wider than the
  terminal, for every sequence of lines without line breaks, of texts and of line ends, on
  terminals with at least four columns.
\<close>

theorem status_output_safe:
  assumes "status_inv columns st" "list_all status_op_ok ops" "4 \<le> columns \<or> columns = 0"
  shows "\<exists>st'. foldM_option (status_apply columns) ops st = Some st' \<and> so_isOpen st'
    \<and> so_numCurrentCharacters st' \<le> getNumColumns columns"
proof -
  have step: "\<exists>st'. status_apply columns op st = Some st' \<and> status_inv columns st'"
    if "op \<in> set ops" "status_inv columns st" for op st
  proof (cases op)
    case (OpLine s)
    have ok: "status_op_ok (OpLine s)" "status_op_ok (OpText (s @ [line_feed]))"
      using that(1) assms(2) OpLine by (auto simp: list_all_iff)
    then show ?thesis
      using OpLine that(2) setCurrentLine_inv [OF that(2) _ ok(1) assms(3)] writeText_inv [OF that(2) ok(2)]
      by (auto simp: setOrWriteLine_def canUpdateCurrentLine_def status_inv_def)
  next
    case (OpText s)
    then show ?thesis using that assms(2) writeText_inv [OF that(2)] by (auto simp: list_all_iff)
  next
    case OpFinish
    then show ?thesis using that(2) by (auto simp: finishLine_def canUpdateCurrentLine_def status_inv_def put_text_def)
  qed
  then obtain st' where "foldM_option (status_apply columns) ops st = Some st'" "status_inv columns st'"
    using foldM_option_invariant [of ops "status_inv columns" "status_apply columns" st] assms(1) by blast
  then show ?thesis by (auto simp: status_inv_def)
qed

theorem status_output_safe_witness:
  "\<exists>st'. foldM_option (status_apply 10) [OpLine ''[1/2] compiling a.c'', OpText (''warning'' @ [line_feed])]
      (newStatusOutput\<lparr>so_isOpen := True, so_termHonorsCarriageReturn := True\<rparr>) = Some st'
    \<and> so_isOpen st' \<and> so_numCurrentCharacters st' \<le> getNumColumns 10"
  by (rule status_output_safe) (simp_all add: status_inv_def newStatusOutput_def)

end
