(* ===== verification/NinjaBuild.thy ===== *)
theory NinjaBuild
  imports NinjaValue StatusOutput NinjaLoader MakefileDeps ExecutionQueue BuildEngineLoop
begin

text \<open>
  The Ninja build command as a client of the build engine, \<^verbatim>\<open>lib/Commands/NinjaBuildCommand.cpp\<close>: the
  context of a build with its diagnostics, the tasks for commands, inputs, targets and the outputs of
  commands with several outputs, and the rules.

  A callback is a program over the task interface of the engine; a failed assertion or a null
  dereference sets the flag \<open>nb_aborted\<close> and ends it. A job that a task hands to the execution queue is in
  \<open>nb_jobs\<close>; what it does later is the program \<open>executeCommand\<close>. The console queue runs its blocks in the
  order in which they are added, so their effect is written where they are added.

  Commands and nodes are values. The manifest is only built when it loads without errors; then the
  builtin rule \<^verbatim>\<open>phony\<close> and the builtin pool \<^verbatim>\<open>console\<close> are the only ones with these names, and comparing
  them by value is comparing the pointers.
\<close>

section \<open>The context of a build\<close>

datatype NinjaRuleKind =
    NinjaBuildCommandRule Command
  | NinjaCompositeResultRule Command nat string
  | NinjaBuildTargetsRule "string list"
  | NinjaInputRule Node

record NinjaCommandTask =
  ct_command :: Command
  ct_shouldSkip :: bool
  ct_hasMissingInput :: bool
  ct_canUpdateIfNewer :: bool
  ct_hasPriorResult :: bool
  ct_priorCommandHash :: u64
  ct_newestModTime :: FileTimestamp

datatype NinjaTask =
    CommandTask NinjaCommandTask
  | NinjaInputTask Node
  | TargetsTask "string list"
  | SelectResultTask Command nat string "ValueType option"

record 'fs BuildContext =
  nb_workingDirectory :: string
  nb_manifest :: Manifest
  nb_statusLinePrefixFormat :: string
  nb_quiet :: bool
  nb_simulate :: bool
  nb_strict :: bool
  nb_verbose :: bool
  nb_numFailedCommandsToTolerate :: u32
  nb_isCancelled :: bool
  nb_wasCancelledBySigint :: bool
  nb_numErrors :: u32
  nb_numBuiltCommands :: u32
  nb_numOutputDescriptions :: u32
  nb_numFailedCommands :: u32
  nb_numCommandsScanning :: u32
  nb_numCommandsUpToDate :: u32
  nb_numCommandsCompleted :: u32
  nb_numCommandsUpdated :: u32
  nb_statusOutput :: CommandLineStatusOutput
  nb_stderr :: string
  nb_outputBuffers :: "(u64 \<times> string) list"
  nb_rules :: "(string \<times> NinjaRuleKind) list"
  nb_tasks :: "(TaskId \<times> NinjaTask) list"
  nb_jobs :: "(TaskId \<times> Command) list"
  nb_fs :: 'fs
  nb_aborted :: bool

text \<open>
  What the command takes from outside: path functions, hashing and file functions of the vendored
  library, \<^verbatim>\<open>stat\<close>, the place of new arrays, the process that a command line starts (its status, and
  its errors \<open>Inl\<close> and output \<open>Inr\<close> in order), the printed times, and the width of the terminal.
\<close>

record 'fs ninja_params =
  np_paths :: path_ops
  np_hash :: "string \<Rightarrow> u64"
  np_stat :: "'fs \<Rightarrow> bool \<Rightarrow> string \<Rightarrow> StatStruct option"
  np_address :: "'fs \<Rightarrow> u64"
  np_parent_path :: "string \<Rightarrow> string"
  np_createDirectories :: "string \<Rightarrow> 'fs \<Rightarrow> 'fs"
  np_writeFile :: "string \<Rightarrow> string \<Rightarrow> 'fs \<Rightarrow> string option \<times> 'fs"
  np_remove :: "string \<Rightarrow> 'fs \<Rightarrow> 'fs"
  np_readFile :: "'fs \<Rightarrow> string \<Rightarrow> string + string"
  np_run :: "string list \<Rightarrow> bool \<Rightarrow> 'fs \<Rightarrow> ProcessStatus \<times> (string + string) list \<times> 'fs"
  np_elapsed :: string
  np_rate :: "u32 \<Rightarrow> string"
  np_programName :: string
  np_columns :: nat

definition newBuildContext ::
  "string \<Rightarrow> Manifest \<Rightarrow> CommandLineStatusOutput \<Rightarrow> string option \<Rightarrow> 'fs \<Rightarrow> 'fs BuildContext" where
  "newBuildContext wd manifest statusOutput statusFormat fs = \<lparr>
     nb_workingDirectory = wd, nb_manifest = manifest,
     nb_statusLinePrefixFormat = (case statusFormat of Some f \<Rightarrow> f | None \<Rightarrow> ''[%f/%t] ''),
     nb_quiet = False, nb_simulate = False, nb_strict = False, nb_verbose = False,
     nb_numFailedCommandsToTolerate = 1, nb_isCancelled = False, nb_wasCancelledBySigint = False,
     nb_numErrors = 0, nb_numBuiltCommands = 0, nb_numOutputDescriptions = 0, nb_numFailedCommands = 0,
     nb_numCommandsScanning = 0, nb_numCommandsUpToDate = 0, nb_numCommandsCompleted = 0,
     nb_numCommandsUpdated = 0, nb_statusOutput = statusOutput, nb_stderr = [], nb_outputBuffers = [],
     nb_rules = [], nb_tasks = [], nb_jobs = [], nb_fs = fs, nb_aborted = False\<rparr>"

section \<open>Diagnostics\<close>

text \<open>A block on the console queue that writes to the status output.\<close>

definition console ::
  "(CommandLineStatusOutput \<Rightarrow> CommandLineStatusOutput option) \<Rightarrow> 'fs BuildContext \<Rightarrow> 'fs BuildContext" where
  "console f c =
     (case f (nb_statusOutput c) of
        None \<Rightarrow> c\<lparr>nb_aborted := True\<rparr>
      | Some st \<Rightarrow> c\<lparr>nb_statusOutput := st\<rparr>)"

text \<open>\<^verbatim>\<open>getFormattedString\<close>, given the text that \<^verbatim>\<open>vsnprintf\<close> makes: an empty one is taken for a failure.\<close>

definition getFormattedString :: "string \<Rightarrow> string" where
  "getFormattedString s = (if s = [] then ''unable to format message'' else s)"

definition emitStatus :: "'fs ninja_params \<Rightarrow> string \<Rightarrow> 'fs BuildContext \<Rightarrow> 'fs BuildContext" where
  "emitStatus p message c =
     (if nb_verbose c then console (writeText (getFormattedString message @ [line_feed])) c
      else console (setOrWriteLine (np_columns p) (getFormattedString message)) c)"

definition emitDiagnostic :: "'fs ninja_params \<Rightarrow> string \<Rightarrow> string \<Rightarrow> 'fs BuildContext \<Rightarrow> 'fs BuildContext" where
  "emitDiagnostic p kind message c =
     (let c = console finishLine c
      in c\<lparr>nb_stderr := nb_stderr c @ np_programName p @ '': '' @ kind @ '': '' @ message @ [line_feed]\<rparr>)"

definition writeStdout :: "string \<Rightarrow> 'fs BuildContext \<Rightarrow> 'fs BuildContext" where
  "writeStdout s c = console (\<lambda>st. Some (put_text s st)) c"

definition emitDiagnosticAndText ::
  "'fs ninja_params \<Rightarrow> string \<Rightarrow> string \<Rightarrow> string \<Rightarrow> 'fs BuildContext \<Rightarrow> 'fs BuildContext" where
  "emitDiagnosticAndText p kind message body c =
     (let body = stripColorCodes (nb_statusOutput c) body
      in writeStdout body (emitDiagnostic p kind message c))"

definition emitText :: "string \<Rightarrow> 'fs BuildContext \<Rightarrow> 'fs BuildContext" where
  "emitText body c =
     (let body = stripColorCodes (nb_statusOutput c) body
      in writeStdout body (console finishLine c))"

definition emitError :: "'fs ninja_params \<Rightarrow> string \<Rightarrow> 'fs BuildContext \<Rightarrow> 'fs BuildContext" where
  "emitError p message c = (let c = emitDiagnostic p ''error'' message c in c\<lparr>nb_numErrors := nb_numErrors c + 1\<rparr>)"

definition emitErrorAndText :: "'fs ninja_params \<Rightarrow> string \<Rightarrow> string \<Rightarrow> 'fs BuildContext \<Rightarrow> 'fs BuildContext" where
  "emitErrorAndText p message body c =
     (let c = emitDiagnosticAndText p ''error'' message body c in c\<lparr>nb_numErrors := nb_numErrors c + 1\<rparr>)"

definition emitNote :: "'fs ninja_params \<Rightarrow> string \<Rightarrow> 'fs BuildContext \<Rightarrow> 'fs BuildContext" where
  "emitNote p message c = emitDiagnostic p ''note'' message c"

definition cancelBuildOnInterrupt :: "'fs ninja_params \<Rightarrow> 'fs BuildContext \<Rightarrow> 'fs BuildContext prog" where
  "cancelBuildOnInterrupt p c =
     CancelBuild (Return ((emitNote p ''cancelling build.'' c)
       \<lparr>nb_isCancelled := True, nb_wasCancelledBySigint := True\<rparr>))"

definition reportMissingInput :: "'fs ninja_params \<Rightarrow> Node \<Rightarrow> 'fs BuildContext \<Rightarrow> 'fs BuildContext" where
  "reportMissingInput p node c =
     emitError p (''missing input '' @ sq @ screenPath node @ sq @ '' and no rule to build it'') c"

definition incrementFailedCommands :: "'fs ninja_params \<Rightarrow> 'fs BuildContext \<Rightarrow> 'fs BuildContext" where
  "incrementFailedCommands p c =
     (let n = nb_numFailedCommands c + 1;
          c = c\<lparr>nb_numFailedCommands := n\<rparr>
      in if nb_numFailedCommandsToTolerate c \<noteq> 0 \<and> n = nb_numFailedCommandsToTolerate c
         then (emitError p ''stopping build due to command failures'' c)\<lparr>nb_isCancelled := True\<rparr>
         else c)"

section \<open>Processes\<close>

definition processStarted :: "u64 \<Rightarrow> 'fs BuildContext \<Rightarrow> 'fs BuildContext" where
  "processStarted handle c =
     (if map_of (nb_outputBuffers c) handle = None
      then c\<lparr>nb_outputBuffers := (handle, []) # nb_outputBuffers c\<rparr> else c)"

text \<open>\<^verbatim>\<open>outputBuffers[id]\<close> makes a missing entry.\<close>

definition outputBuffer :: "u64 \<Rightarrow> 'fs BuildContext \<Rightarrow> string" where
  "outputBuffer handle c = (case map_of (nb_outputBuffers c) handle of Some s \<Rightarrow> s | None \<Rightarrow> [])"

definition processHadError :: "'fs ninja_params \<Rightarrow> string \<Rightarrow> 'fs BuildContext \<Rightarrow> 'fs BuildContext" where
  "processHadError p message c = emitError p message c"

definition processHadOutput :: "u64 \<Rightarrow> string \<Rightarrow> 'fs BuildContext \<Rightarrow> 'fs BuildContext" where
  "processHadOutput handle chunk c =
     c\<lparr>nb_outputBuffers := AList.update handle (outputBuffer handle c @ chunk) (nb_outputBuffers c)\<rparr>"

definition processFinished ::
  "'fs ninja_params \<Rightarrow> u64 \<Rightarrow> Command \<Rightarrow> ProcessStatus \<Rightarrow> 'fs BuildContext \<Rightarrow> 'fs BuildContext" where
  "processFinished p handle job status c =
     (let outputData = outputBuffer handle c;
          c' = (if status = Succeeded then (if outputData \<noteq> [] then emitText outputData c else c)
                else if status = Cancelled then c
                else incrementFailedCommands p
                       (emitErrorAndText p (''process failed: '' @ commandString job) outputData c))
      in c'\<lparr>nb_outputBuffers := AList.delete handle (nb_outputBuffers c')\<rparr>)"

section \<open>The status line\<close>

text \<open>The commands being scanned and completed, less those that need not run; all in 32 bits.\<close>

definition getNumPossibleMaxCommands :: "'fs BuildContext \<Rightarrow> u32" where
  "getNumPossibleMaxCommands c =
     nb_numCommandsCompleted c + nb_numCommandsScanning c - (nb_numCommandsUpToDate c + nb_numCommandsUpdated c)"

definition unsigned_str :: "u32 \<Rightarrow> string" where
  "unsigned_str n = decstr (uint n)"

text \<open>\<^verbatim>\<open>%3ld\<close>.\<close>

definition pad3 :: "string \<Rightarrow> string" where
  "pad3 s = replicate (3 - length s) CHR '' '' @ s"

text \<open>A directive of the format; the percentage divides by zero when no command is possible.\<close>

definition statusDirective :: "'fs ninja_params \<Rightarrow> 'fs BuildContext \<Rightarrow> char \<Rightarrow> string option" where
  "statusDirective p c d =
     (if d = CHR ''e'' then Some (np_elapsed p)
      else if d = CHR ''f'' then Some (unsigned_str (nb_numOutputDescriptions c))
      else if d = CHR ''o'' \<or> d = CHR ''c'' then Some (np_rate p (nb_numOutputDescriptions c))
      else if d = CHR ''p'' then do {
        assert_that (getNumPossibleMaxCommands c \<noteq> 0);
        Some (pad3 (unsigned_str (100 * nb_numOutputDescriptions c div getNumPossibleMaxCommands c)) @ ''%'')
      }
      else if d = CHR ''r'' \<or> d = CHR ''s'' then Some (unsigned_str (nb_numCommandsScanning c))
      else if d = CHR ''t'' then Some (unsigned_str (getNumPossibleMaxCommands c))
      else if d = CHR ''u'' then Some (unsigned_str (getNumPossibleMaxCommands c - nb_numOutputDescriptions c))
      else if d = CHR ''%'' then Some ''%''
      else Some [CHR ''%'', d])"

definition digitValue :: "char \<Rightarrow> nat" where
  "digitValue c =
     (let n = of_char c :: nat
      in if 48 \<le> n \<and> n \<le> 57 then n - 48
         else if 97 \<le> n \<and> n \<le> 122 then n - 87
         else if 65 \<le> n \<and> n \<le> 90 then n - 55 else 256)"

text \<open>\<^verbatim>\<open>StringRef::getAsInteger(radix, uint8_t&)\<close>.\<close>

definition getAsUInt8 :: "nat \<Rightarrow> string \<Rightarrow> nat option" where
  "getAsUInt8 radix s =
     (let n = foldl (\<lambda>acc c. acc * radix + digitValue c) 0 s
      in if s \<noteq> [] \<and> list_all (\<lambda>c. digitValue c < radix) s \<and> n < 256 then Some n else None)"

text \<open>
  An escape sequence: \<open>d\<close> is the character behind the backslash, \<open>r\<close> what follows; the text it stands
  for and how many characters of \<open>r\<close> belong to it.
\<close>

definition statusEscape :: "char \<Rightarrow> string \<Rightarrow> string \<times> nat" where
  "statusEscape d r =
     (if d = CHR ''a'' then ([CHR 0x07], 0)
      else if d = CHR ''b'' then ([CHR 0x08], 0)
      else if d = CHR ''e'' then ([CHR 0x1B], 0)
      else if d = CHR ''f'' then ([CHR 0x0C], 0)
      else if d = CHR ''n'' then ([CHR 0x0A], 0)
      else if d = CHR ''r'' then ([CHR 0x0D], 0)
      else if d = CHR ''t'' then ([CHR 0x09], 0)
      else if d = CHR ''v'' then ([CHR 0x0B], 0)
      else if d = CHR 0x5C then ([CHR 0x5C], 0)
      else if d = CHR ''0'' then
        (case (if 3 \<le> length r then getAsUInt8 8 (take 3 r) else None) of
           Some n \<Rightarrow> ([char_of n], 3)
         | None \<Rightarrow>
             (case (if 2 \<le> length r then getAsUInt8 8 (d # take 2 r) else None) of
                Some n \<Rightarrow> ([char_of n], 2)
              | None \<Rightarrow> ([CHR 0x5C, d], 0)))
      else if d = CHR ''x'' then
        (case (if 2 \<le> length r then getAsUInt8 16 (take 2 r) else None) of
           Some n \<Rightarrow> ([char_of n], 2)
         | None \<Rightarrow> ([CHR 0x5C, d], 0))
      else ([CHR 0x5C, d], 0))"

function statusLinePrefix :: "'fs ninja_params \<Rightarrow> 'fs BuildContext \<Rightarrow> string \<Rightarrow> string option" where
  "statusLinePrefix p c [] = Some []"
| "statusLinePrefix p c (x # rest) =
     (if x = CHR ''%'' then
        (case rest of
           [] \<Rightarrow> Some [x]
         | d # r \<Rightarrow> do {
             s \<leftarrow> statusDirective p c d;
             map_option ((@) s) (statusLinePrefix p c r)
           })
      else if x = CHR 0x5C then
        (case rest of
           [] \<Rightarrow> Some [x]
         | d # r \<Rightarrow> map_option ((@) (fst (statusEscape d r))) (statusLinePrefix p c (drop (snd (statusEscape d r)) r)))
      else map_option ((#) x) (statusLinePrefix p c rest))"
  by pat_completeness auto
termination
  by (relation "measure (\<lambda>(p, c, s). length s)") auto

declare statusLinePrefix.simps(2) [simp del]

section \<open>The task of a command\<close>

type_synonym 'fs ninja_prog = "'fs BuildContext prog"

definition abort_ninja :: "'fs BuildContext \<Rightarrow> 'fs ninja_prog" where
  "abort_ninja c = Return (c\<lparr>nb_aborted := True\<rparr>)"

definition setNinjaTask :: "TaskId \<Rightarrow> NinjaTask \<Rightarrow> 'fs BuildContext \<Rightarrow> 'fs BuildContext" where
  "setNinjaTask t task c = c\<lparr>nb_tasks := AList.update t task (nb_tasks c)\<rparr>"

text \<open>\<^verbatim>\<open>ti.complete(value.toValue(), forceChange)\<close>.\<close>

definition completeNinja :: "NinjaValue \<Rightarrow> bool \<Rightarrow> 'fs BuildContext \<Rightarrow> 'fs ninja_prog" where
  "completeNinja v force c = CompleteTask (toValue v) force (Return c)"

definition isPhony :: "Command \<Rightarrow> bool" where
  "isPhony command \<longleftrightarrow> c_rule command = phonyRule"

definition isConsolePool :: "Command \<Rightarrow> bool" where
  "isConsolePool command \<longleftrightarrow> executionPool command = Some consolePool"

definition infoForPath :: "'fs ninja_params \<Rightarrow> 'fs \<Rightarrow> string \<Rightarrow> FileInfo" where
  "infoForPath p fs path = getInfoForPath (np_stat p fs) path False"

text \<open>The outputs of a command; a null node is dereferenced by everyone who looks at them.\<close>

definition outputNodes :: "Command \<Rightarrow> Node list option" where
  "outputNodes command = mapM_option id (c_outputs command)"

definition newNinjaCommandTask :: "Command \<Rightarrow> NinjaCommandTask" where
  "newNinjaCommandTask command = \<lparr>ct_command = command, ct_shouldSkip = False, ct_hasMissingInput = False,
     ct_canUpdateIfNewer = (depsStyle command = DepsNone), ct_hasPriorResult = False, ct_priorCommandHash = 0,
     ct_newestModTime = FileTimestamp 0 0\<rparr>"

definition provideValue_command ::
  "'fs ninja_params \<Rightarrow> u64 \<Rightarrow> ValueType \<Rightarrow> NinjaCommandTask \<Rightarrow> 'fs BuildContext
     \<Rightarrow> (NinjaCommandTask \<times> 'fs BuildContext) option" where
  "provideValue_command p inputID valueData task c = do {
     v \<leftarrow> fromValue (np_address p (nb_fs c)) valueData;
     assert_that (\<not> hasMultipleOutputs_ninja v);
     if \<not> isExistingInput v \<and> \<not> isSuccessfulCommand_ninja v then
       let task = task\<lparr>ct_shouldSkip := True\<rparr>
       in if isMissingInput v then do {
            assert_that (unat inputID < length (c_inputs (ct_command task)));
            Some (task\<lparr>ct_hasMissingInput := True\<rparr>,
                  reportMissingInput p (nic_node (c_inputs (ct_command task) ! unat inputID)) c)
          }
          else Some (task, c)
     else do {
       outputInfo \<leftarrow> getOutputInfo_ninja v;
       Some (if isMissing outputInfo then task\<lparr>ct_canUpdateIfNewer := False\<rparr>
             else if modTime outputInfo > ct_newestModTime task then task\<lparr>ct_newestModTime := modTime outputInfo\<rparr>
             else task, c)
     }
   }"

definition isImmediatelyCyclicInput :: "Node \<Rightarrow> Command \<Rightarrow> bool" where
  "isImmediatelyCyclicInput node command \<longleftrightarrow> Some node \<in> set (c_outputs command)"

text \<open>The requests for the explicit and implicit inputs, numbered from \<open>i\<close>, and for the order-only ones.\<close>

fun requestInputs ::
  "bool \<Rightarrow> Command \<Rightarrow> nat \<Rightarrow> NodeInCommand list \<Rightarrow> 'fs ninja_prog \<Rightarrow> 'fs ninja_prog" where
  "requestInputs skipCyclic command i [] next_prog = next_prog"
| "requestInputs skipCyclic command i (input # inputs) next_prog =
     (if skipCyclic \<and> isImmediatelyCyclicInput (nic_node input) command
      then requestInputs skipCyclic command (i + 1) inputs next_prog
      else Request (canonicalPath (nic_node input)) (of_nat i)
             (requestInputs skipCyclic command (i + 1) inputs next_prog))"

fun followInputs :: "bool \<Rightarrow> Command \<Rightarrow> NodeInCommand list \<Rightarrow> 'fs ninja_prog \<Rightarrow> 'fs ninja_prog" where
  "followInputs skipCyclic command [] next_prog = next_prog"
| "followInputs skipCyclic command (input # inputs) next_prog =
     (if skipCyclic \<and> isImmediatelyCyclicInput (nic_node input) command
      then followInputs skipCyclic command inputs next_prog
      else MustFollow (canonicalPath (nic_node input)) (followInputs skipCyclic command inputs next_prog))"

definition start_command :: "Command \<Rightarrow> 'fs BuildContext \<Rightarrow> 'fs ninja_prog" where
  "start_command command c =
     (let skipCyclic = (\<not> nb_strict c \<and> isPhony command)
      in requestInputs skipCyclic command 0 (explicitInputs command)
           (requestInputs skipCyclic command (length (explicitInputs command)) (implicitInputs command)
             (followInputs skipCyclic command (orderOnlyInputs command) (Return c))))"

definition providePriorValue_command ::
  "'fs ninja_params \<Rightarrow> ValueType \<Rightarrow> NinjaCommandTask \<Rightarrow> 'fs BuildContext \<Rightarrow> NinjaCommandTask option" where
  "providePriorValue_command p valueData task c = do {
     v \<leftarrow> fromValue (np_address p (nb_fs c)) valueData;
     if isSuccessfulCommand_ninja v then do {
       hash \<leftarrow> getCommandHash v;
       Some (task\<lparr>ct_hasPriorResult := True, ct_priorCommandHash := hash\<rparr>)
     }
     else Some task
   }"

definition computeCommandResult_ninja ::
  "'fs ninja_params \<Rightarrow> 'fs \<Rightarrow> Command \<Rightarrow> u64 \<Rightarrow> NinjaValue option" where
  "computeCommandResult_ninja p fs command commandHash = do {
     outputs \<leftarrow> outputNodes command;
     let infos = map (\<lambda>node. infoForPath p fs (canonicalPath node)) outputs;
     if length outputs = 1 then Some (makeSuccessfulCommand_ninja (infos ! 0) commandHash)
     else makeSuccessfulCommands (np_address p fs) infos commandHash
   }"

text \<open>The infos of a result, by the loop over \<^verbatim>\<open>getNthOutputInfo\<close>.\<close>

definition resultInfos :: "NinjaValue \<Rightarrow> FileInfo list option" where
  "resultInfos v = do {
     n \<leftarrow> getNumOutputs_ninja v;
     mapM_option (\<lambda>i. getNthOutputInfo_ninja i v) [0..<unat n]
   }"

definition canUpdateIfNewerWithResult_ninja ::
  "bool \<Rightarrow> FileTimestamp \<Rightarrow> NinjaValue \<Rightarrow> bool option" where
  "canUpdateIfNewerWithResult_ninja strict newestModTime result = do {
     assert_that (isSuccessfulCommand_ninja result);
     infos \<leftarrow> resultInfos result;
     Some (list_all (\<lambda>info. \<not> isMissing info
        \<and> (if strict then \<not> modTime info \<le> newestModTime else \<not> modTime info < newestModTime)) infos)
   }"

definition writeDescription :: "'fs ninja_params \<Rightarrow> Command \<Rightarrow> 'fs BuildContext \<Rightarrow> 'fs BuildContext" where
  "writeDescription p command c =
     (let description = (if nb_verbose c then commandString command else getEffectiveDescription command);
          c = c\<lparr>nb_numOutputDescriptions := nb_numOutputDescriptions c + 1\<rparr>
      in case statusLinePrefix p c (nb_statusLinePrefixFormat c) of
           None \<Rightarrow> c\<lparr>nb_aborted := True\<rparr>
         | Some statusPrefix \<Rightarrow>
             let c = emitStatus p (statusPrefix @ description) c
             in if isConsolePool command then console finishLine c else c)"

end
