(* ===== verification/NinjaBuildClient.thy ===== *)
theory NinjaBuildClient
  imports NinjaBuild
begin

text \<open>
  The tasks and the rules of the Ninja build command (\<^verbatim>\<open>lib/Commands/NinjaBuildCommand.cpp\<close>), put
  together as a client of the build engine.
\<close>

section \<open>Running a command\<close>

text \<open>The actions of \<^verbatim>\<open>DepsActions\<close>: errors are reported, prerequisites become dependencies.\<close>

fun depsAction :: "'fs ninja_params \<Rightarrow> string \<Rightarrow> mk_event \<Rightarrow> string list \<times> 'fs BuildContext \<Rightarrow> string list \<times> 'fs BuildContext" where
  "depsAction p path (MkError message position) (found, c) =
     (found, emitError p (''error reading dependency file: '' @ path @ '' ('' @ message @ '') at offset ''
        @ unsigned_str (of_nat position)) c)"
| "depsAction p path (RuleDependency dependency unescapedWord) (found, c) =
     (case normalize_path (np_paths p) (nb_workingDirectory c) unescapedWord of
        None \<Rightarrow> (found, c)
      | Some absPath \<Rightarrow> (found @ [absPath], c))"
| "depsAction p path _ st = st"

fun is_deps_error :: "mk_event \<Rightarrow> bool" where
  "is_deps_error (MkError _ _) = True"
| "is_deps_error _ = False"

text \<open>Whether processing succeeds, the dependencies that are reported, and the context.\<close>

definition processDiscoveredDependencies_ninja ::
  "'fs ninja_params \<Rightarrow> Command \<Rightarrow> 'fs BuildContext \<Rightarrow> (bool \<times> string list \<times> 'fs BuildContext) option" where
  "processDiscoveredDependencies_ninja p command c =
     (case depsStyle command of
        DepsNone \<Rightarrow> Some (True, [], c)
      | DepsMSVC \<Rightarrow> Some (False, [], emitError p ''MSVC style dependencies are unsupported'' c)
      | DepsGCC \<Rightarrow>
          (case np_readFile p (nb_fs c) (depsFile command) of
             Inl error \<Rightarrow>
               if \<not> nb_strict c then Some (True, [], c)
               else Some (False, [], emitError p (''unable to read dependency file: '' @ error) c)
           | Inr buffer \<Rightarrow> do {
               evs \<leftarrow> parseMakefileDeps False buffer;
               let (found, c) = fold (depsAction p (depsFile command)) evs ([], c);
               Some (\<not> list_ex is_deps_error evs, found, c)
             }))"

primrec discoverKeys :: "string list \<Rightarrow> 'fs ninja_prog \<Rightarrow> 'fs ninja_prog" where
  "discoverKeys [] q = q"
| "discoverKeys (key # found) q = DiscoveredDependency key (discoverKeys found q)"

definition removeRspFile :: "'fs ninja_params \<Rightarrow> Command \<Rightarrow> 'fs BuildContext \<Rightarrow> 'fs BuildContext" where
  "removeRspFile p command c =
     (if rspFile command \<noteq> [] then c\<lparr>nb_fs := np_remove p (rspFile command) (nb_fs c)\<rparr> else c)"

text \<open>The completion function of the process.\<close>

definition processCompletion ::
  "'fs ninja_params \<Rightarrow> Command \<Rightarrow> ProcessStatus \<Rightarrow> 'fs BuildContext \<Rightarrow> 'fs ninja_prog" where
  "processCompletion p command status c =
     (if status \<noteq> Succeeded then completeNinja makeFailedCommand True c
      else
        (case processDiscoveredDependencies_ninja p command c of
           None \<Rightarrow> abort_ninja c
         | Some (good, found, c) \<Rightarrow>
             discoverKeys found
               (if \<not> good then completeNinja makeFailedCommand True (incrementFailedCommands p c)
                else
                  (case computeCommandResult_ninja p (nb_fs c) command (np_hash p (commandString command)) of
                     None \<Rightarrow> abort_ninja c
                   | Some resultValue \<Rightarrow>
                       completeNinja resultValue (\<not> shouldRestat command) (removeRspFile p command c)))))"

definition processEvent :: "'fs ninja_params \<Rightarrow> u64 \<Rightarrow> string + string \<Rightarrow> 'fs BuildContext \<Rightarrow> 'fs BuildContext" where
  "processEvent p handle ev c =
     (case ev of Inl message \<Rightarrow> processHadError p message c | Inr chunk \<Rightarrow> processHadOutput handle chunk c)"

definition runProcess ::
  "'fs ninja_params \<Rightarrow> TaskId \<Rightarrow> Command \<Rightarrow> 'fs BuildContext \<Rightarrow> ProcessStatus \<times> 'fs BuildContext" where
  "runProcess p t command c =
     (case np_run p [DefaultShellPath, ''-c'', commandString command] (isConsolePool command) (nb_fs c) of
        (status, evs, fs) \<Rightarrow>
          (status, processFinished p (of_nat t) command status
             (fold (processEvent p (of_nat t)) evs (processStarted (of_nat t) (c\<lparr>nb_fs := fs\<rparr>)))))"

definition createParents :: "'fs ninja_params \<Rightarrow> Node list \<Rightarrow> 'fs \<Rightarrow> 'fs" where
  "createParents p outputs fs =
     fold (\<lambda>output fs. let parent = np_parent_path p (screenPath output)
                       in if parent \<noteq> [] then np_createDirectories p parent fs else fs) outputs fs"

definition executeCommand :: "'fs ninja_params \<Rightarrow> TaskId \<Rightarrow> Command \<Rightarrow> 'fs BuildContext \<Rightarrow> 'fs ninja_prog" where
  "executeCommand p t command c =
     (if nb_isCancelled c then completeNinja makeSkippedCommand False c
      else
        let c = (if nb_quiet c then c else writeDescription p command c)
        in case outputNodes command of
             None \<Rightarrow> abort_ninja c
           | Some outputs \<Rightarrow>
               let c = c\<lparr>nb_fs := createParents p outputs (nb_fs c)\<rparr>
               in if rspFile command = []
                  then (case runProcess p t command c of (status, c) \<Rightarrow> processCompletion p command status c)
                  else
                    (case np_writeFile p (rspFile command) (rspFileContent command) (nb_fs c) of
                       (Some error, fs) \<Rightarrow>
                         completeNinja makeSkippedCommand False (incrementFailedCommands p
                           (emitError p (''unable to create @response file '' @ sq @ rspFile command @ sq @ '': ''
                              @ error @ [line_feed]) (c\<lparr>nb_fs := fs\<rparr>)))
                     | (None, fs) \<Rightarrow>
                         (case runProcess p t command (c\<lparr>nb_fs := fs\<rparr>) of
                            (status, c) \<Rightarrow> processCompletion p command status c)))"

section \<open>inputsAvailable\<close>

definition runOrSkip ::
  "'fs ninja_params \<Rightarrow> TaskId \<Rightarrow> NinjaCommandTask \<Rightarrow> 'fs BuildContext \<Rightarrow> 'fs ninja_prog" where
  "runOrSkip p t task c =
     (let command = ct_command task;
          c = c\<lparr>nb_numBuiltCommands := nb_numBuiltCommands c + 1\<rparr>
      in if nb_simulate c
         then completeNinja makeSkippedCommand False (if nb_quiet c then c else writeDescription p command c)
         else if ct_shouldSkip task then
           if ct_hasMissingInput task then
             (case outputNodes command of
                Some (output # _) \<Rightarrow>
                  completeNinja makeSkippedCommand False (incrementFailedCommands p
                    (emitError p (''cannot build '' @ sq @ screenPath output @ sq @ '' due to missing input'') c))
              | _ \<Rightarrow> abort_ninja c)
           else completeNinja makeSkippedCommand False c
         else if ct_hasMissingInput task then abort_ninja c
         else Return (c\<lparr>nb_jobs := nb_jobs c @ [(t, command)]\<rparr>))"

definition inputsAvailable_command ::
  "'fs ninja_params \<Rightarrow> TaskId \<Rightarrow> NinjaCommandTask \<Rightarrow> 'fs BuildContext \<Rightarrow> 'fs ninja_prog" where
  "inputsAvailable_command p t task c =
     (let command = ct_command task;
          commandHash = np_hash p (commandString command)
      in if nb_isCancelled c then completeNinja makeSkippedCommand False c
         else if isPhony command then
           (case do { result \<leftarrow> computeCommandResult_ninja p (nb_fs c) command commandHash;
                      infos \<leftarrow> resultInfos result; Some (result, infos) } of
              None \<Rightarrow> abort_ninja c
            | Some (result, infos) \<Rightarrow> completeNinja result (list_ex isMissing infos) c)
         else if ct_canUpdateIfNewer task
              \<and> (isGenerator command \<or> ct_hasPriorResult task \<and> ct_priorCommandHash task = commandHash) then
           (case do { result \<leftarrow> computeCommandResult_ninja p (nb_fs c) command commandHash;
                      can \<leftarrow> canUpdateIfNewerWithResult_ninja (nb_strict c) (ct_newestModTime task) result;
                      Some (result, can) } of
              None \<Rightarrow> abort_ninja c
            | Some (result, True) \<Rightarrow>
                completeNinja result False (c\<lparr>nb_numCommandsUpdated := nb_numCommandsUpdated c + 1\<rparr>)
            | Some (result, False) \<Rightarrow> runOrSkip p t task c)
         else runOrSkip p t task c)"

section \<open>The other tasks\<close>

definition inputsAvailable_input :: "'fs ninja_params \<Rightarrow> Node \<Rightarrow> 'fs BuildContext \<Rightarrow> 'fs ninja_prog" where
  "inputsAvailable_input p node c =
     (if nb_simulate c then completeNinja (makeExistingInput_ninja zeroFileInfo) False c
      else let outputInfo = infoForPath p (nb_fs c) (canonicalPath node)
           in if isMissing outputInfo then completeNinja makeMissingInput False c
              else completeNinja (makeExistingInput_ninja outputInfo) False c)"

primrec requestTargets :: "nat \<Rightarrow> string list \<Rightarrow> 'fs ninja_prog \<Rightarrow> 'fs ninja_prog" where
  "requestTargets i [] q = q"
| "requestTargets i (target # targets) q = Request target (of_nat i) (requestTargets (i + 1) targets q)"

definition provideValue_targets ::
  "'fs ninja_params \<Rightarrow> string list \<Rightarrow> u64 \<Rightarrow> ValueType \<Rightarrow> 'fs BuildContext \<Rightarrow> 'fs BuildContext option" where
  "provideValue_targets p targets inputID valueData c = do {
     v \<leftarrow> fromValue (np_address p (nb_fs c)) valueData;
     if isMissingInput v then do {
       assert_that (unat inputID < length targets);
       Some (emitError p (''unknown target '' @ sq @ targets ! unat inputID @ sq) c)
     }
     else Some c
   }"

definition inputsAvailable_select ::
  "'fs ninja_params \<Rightarrow> nat \<Rightarrow> ValueType option \<Rightarrow> 'fs BuildContext \<Rightarrow> 'fs ninja_prog" where
  "inputsAvailable_select p inputIndex compositeValueData c =
     (case do { valueData \<leftarrow> compositeValueData; fromValue (np_address p (nb_fs c)) valueData } of
        None \<Rightarrow> abort_ninja c
      | Some v \<Rightarrow>
          if isFailedCommand v \<or> isSkippedCommand v then completeNinja v True c
          else
            (case do { assert_that (isSuccessfulCommand_ninja v \<and> hasMultipleOutputs_ninja v);
                       info \<leftarrow> getNthOutputInfo_ninja inputIndex v;
                       hash \<leftarrow> getCommandHash v;
                       Some (makeSuccessfulCommand_ninja info hash) } of
               None \<Rightarrow> abort_ninja c
             | Some selected \<Rightarrow> completeNinja selected False c))"

section \<open>Callbacks of the tasks\<close>

fun ninjaStart :: "'fs ninja_params \<Rightarrow> NinjaTask \<Rightarrow> 'fs BuildContext \<Rightarrow> 'fs ninja_prog" where
  "ninjaStart p (CommandTask task) c = start_command (ct_command task) c"
| "ninjaStart p (NinjaInputTask node) c = Return c"
| "ninjaStart p (TargetsTask targets) c = requestTargets 0 targets (Return c)"
| "ninjaStart p (SelectResultTask command index compositeRuleName v) c = Request compositeRuleName 0 (Return c)"

fun ninjaProvidePriorValue ::
  "'fs ninja_params \<Rightarrow> TaskId \<Rightarrow> NinjaTask \<Rightarrow> ValueType \<Rightarrow> 'fs BuildContext \<Rightarrow> 'fs ninja_prog" where
  "ninjaProvidePriorValue p t (CommandTask task) v c =
     (case providePriorValue_command p v task c of
        None \<Rightarrow> abort_ninja c
      | Some task \<Rightarrow> Return (setNinjaTask t (CommandTask task) c))"
| "ninjaProvidePriorValue p t _ v c = Return c"

fun ninjaProvideValue ::
  "'fs ninja_params \<Rightarrow> TaskId \<Rightarrow> NinjaTask \<Rightarrow> u64 \<Rightarrow> ValueType \<Rightarrow> 'fs BuildContext \<Rightarrow> 'fs ninja_prog" where
  "ninjaProvideValue p t (CommandTask task) inputID v c =
     (case provideValue_command p inputID v task c of
        None \<Rightarrow> abort_ninja c
      | Some (task, c) \<Rightarrow> Return (setNinjaTask t (CommandTask task) c))"
| "ninjaProvideValue p t (NinjaInputTask node) inputID v c = Return c"
| "ninjaProvideValue p t (TargetsTask targets) inputID v c =
     (case provideValue_targets p targets inputID v c of None \<Rightarrow> abort_ninja c | Some c \<Rightarrow> Return c)"
| "ninjaProvideValue p t (SelectResultTask command index name _) inputID v c =
     Return (setNinjaTask t (SelectResultTask command index name (Some v)) c)"

fun ninjaInputsAvailable ::
  "'fs ninja_params \<Rightarrow> TaskId \<Rightarrow> NinjaTask \<Rightarrow> 'fs BuildContext \<Rightarrow> 'fs ninja_prog" where
  "ninjaInputsAvailable p t (CommandTask task) c = inputsAvailable_command p t task c"
| "ninjaInputsAvailable p t (NinjaInputTask node) c = inputsAvailable_input p node c"
| "ninjaInputsAvailable p t (TargetsTask targets) c = completeNinja (makeSuccessfulCommand_ninja zeroFileInfo 0) False c"
| "ninjaInputsAvailable p t (SelectResultTask command index name v) c = inputsAvailable_select p index v c"

section \<open>Rules\<close>

definition buildInputIsResultValid :: "'fs ninja_params \<Rightarrow> 'fs \<Rightarrow> Node \<Rightarrow> ValueType \<Rightarrow> bool option" where
  "buildInputIsResultValid p fs node valueData = do {
     v \<leftarrow> fromValue (np_address p fs) valueData;
     if \<not> isExistingInput v then Some False
     else let info = infoForPath p fs (canonicalPath node)
          in if isMissing info then Some False
             else do { prior \<leftarrow> getOutputInfo_ninja v; Some (fileInfo_eq prior info) }
   }"

text \<open>The loop over the outputs, from index \<open>i\<close>.\<close>

fun checkOutputs :: "'fs ninja_params \<Rightarrow> 'fs \<Rightarrow> NinjaValue \<Rightarrow> nat \<Rightarrow> Node option list \<Rightarrow> bool option" where
  "checkOutputs p fs v i [] = Some True"
| "checkOutputs p fs v i (output # outputs) = do {
     node \<leftarrow> output;
     let info = infoForPath p fs (canonicalPath node);
     if isMissing info then Some False
     else do {
       prior \<leftarrow> getNthOutputInfo_ninja i v;
       if \<not> fileInfo_eq prior info then Some False else checkOutputs p fs v (i + 1) outputs
     }
   }"

definition buildCommandIsResultValid :: "'fs ninja_params \<Rightarrow> 'fs \<Rightarrow> Command \<Rightarrow> ValueType \<Rightarrow> bool option" where
  "buildCommandIsResultValid p fs command valueData = do {
     v \<leftarrow> fromValue (np_address p fs) valueData;
     if \<not> isSuccessfulCommand_ninja v then Some False
     else do {
       hash \<leftarrow> getCommandHash v;
       if \<not> isGenerator command \<and> hash \<noteq> np_hash p (commandString command) then Some False
       else checkOutputs p fs v 0 (c_outputs command)
     }
   }"

definition selectCompositeIsResultValid :: "'fs ninja_params \<Rightarrow> 'fs \<Rightarrow> Command \<Rightarrow> ValueType \<Rightarrow> bool option" where
  "selectCompositeIsResultValid p fs command valueData = do {
     v \<leftarrow> fromValue (np_address p fs) valueData;
     if \<not> isSuccessfulCommand_ninja v then Some False
     else do { hash \<leftarrow> getCommandHash v; Some (hash = np_hash p (commandString command)) }
   }"

fun ruleIsResultValid :: "'fs ninja_params \<Rightarrow> 'fs BuildContext \<Rightarrow> NinjaRuleKind \<Rightarrow> ValueType \<Rightarrow> bool option" where
  "ruleIsResultValid p c (NinjaBuildCommandRule command) v =
     (if nb_simulate c then Some True else buildCommandIsResultValid p (nb_fs c) command v)"
| "ruleIsResultValid p c (NinjaCompositeResultRule command index name) v =
     (if nb_simulate c then Some True else selectCompositeIsResultValid p (nb_fs c) command v)"
| "ruleIsResultValid p c (NinjaBuildTargetsRule targets) v = Some False"
| "ruleIsResultValid p c (NinjaInputRule node) v =
     (if nb_simulate c then Some True else buildInputIsResultValid p (nb_fs c) node v)"

fun ruleCreateTask :: "NinjaRuleKind \<Rightarrow> NinjaTask" where
  "ruleCreateTask (NinjaBuildCommandRule command) = CommandTask (newNinjaCommandTask command)"
| "ruleCreateTask (NinjaCompositeResultRule command index name) = SelectResultTask command index name None"
| "ruleCreateTask (NinjaBuildTargetsRule targets) = TargetsTask targets"
| "ruleCreateTask (NinjaInputRule node) = NinjaInputTask node"

definition updateCommandStatus :: "Command \<Rightarrow> StatusKind \<Rightarrow> 'fs BuildContext \<Rightarrow> 'fs BuildContext" where
  "updateCommandStatus command status c =
     (if isPhony command then c
      else case status of
        StatusIsScanning \<Rightarrow> c\<lparr>nb_numCommandsScanning := nb_numCommandsScanning c + 1\<rparr>
      | StatusIsUpToDate \<Rightarrow> c\<lparr>nb_numCommandsScanning := nb_numCommandsScanning c - 1,
                              nb_numCommandsUpToDate := nb_numCommandsUpToDate c + 1,
                              nb_numCommandsCompleted := nb_numCommandsCompleted c + 1\<rparr>
      | StatusIsComplete \<Rightarrow> c\<lparr>nb_numCommandsScanning := nb_numCommandsScanning c - 1,
                              nb_numCommandsCompleted := nb_numCommandsCompleted c + 1\<rparr>)"

fun ruleUpdateStatus :: "NinjaRuleKind \<Rightarrow> StatusKind \<Rightarrow> 'fs BuildContext \<Rightarrow> 'fs BuildContext" where
  "ruleUpdateStatus (NinjaBuildCommandRule command) status c = updateCommandStatus command status c"
| "ruleUpdateStatus _ status c = c"

section \<open>The delegate of the engine\<close>

text \<open>
  The rule for a key: one of those made up front, else the rule of an input. The code enters the node
  of the input into the manifest; the same path gives the same node again.
\<close>

definition ruleForKey :: "'fs ninja_params \<Rightarrow> 'fs BuildContext \<Rightarrow> KeyType \<Rightarrow> NinjaRuleKind option" where
  "ruleForKey p c key =
     (case map_of (nb_rules c) key of
        Some rule \<Rightarrow> Some rule
      | None \<Rightarrow> map_option NinjaInputRule
          (fst (findOrCreateNode (np_paths p) (nb_workingDirectory c) key (nb_manifest c))))"

definition lookupRule_ninja :: "'fs ninja_params \<Rightarrow> 'fs BuildContext \<Rightarrow> KeyType \<Rightarrow> Rule" where
  "lookupRule_ninja p c key =
     \<lparr>rule_key = (case ruleForKey p c key of Some (NinjaInputRule node) \<Rightarrow> screenPath node | _ \<Rightarrow> key),
      rule_signature = 0\<rparr>"

definition cycleMessage :: "KeyType list \<Rightarrow> string" where
  "cycleMessage found = ''cycle detected among targets:''
     @ (case found of [] \<Rightarrow> []
        | k # ks \<Rightarrow> '' '' @ [CHR 0x22] @ k @ [CHR 0x22] @ concat (map (\<lambda>k. '' -> '' @ [CHR 0x22] @ k @ [CHR 0x22]) ks))"

text \<open>
  The message is passed on as a format; \<open>printf\<close> is what formatting makes of it, \<^term>\<open>None\<close> if it
  reads an argument that is not there.
\<close>

definition cycleDetected ::
  "(string \<Rightarrow> string option) \<Rightarrow> 'fs ninja_params \<Rightarrow> KeyType list \<Rightarrow> 'fs BuildContext \<Rightarrow> 'fs BuildContext" where
  "cycleDetected printf p cycle c =
     (case printf (cycleMessage cycle) of
        None \<Rightarrow> c\<lparr>nb_aborted := True\<rparr>
      | Some message \<Rightarrow> (emitError p (getFormattedString message) c)\<lparr>nb_isCancelled := True\<rparr>)"

definition delegate_error :: "'fs ninja_params \<Rightarrow> string \<Rightarrow> 'fs BuildContext \<Rightarrow> 'fs BuildContext" where
  "delegate_error p message c = (emitError p (''error: '' @ message) c)\<lparr>nb_isCancelled := True\<rparr>"

definition with_ninja_task ::
  "TaskId \<Rightarrow> (NinjaTask \<Rightarrow> 'fs BuildContext \<Rightarrow> 'fs ninja_prog) \<Rightarrow> 'fs BuildContext \<Rightarrow> 'fs ninja_prog" where
  "with_ninja_task t f c = (case map_of (nb_tasks c) t of None \<Rightarrow> abort_ninja c | Some task \<Rightarrow> f task c)"

text \<open>
  The client over a \<open>base\<close> that supplies the database and the clock. A check that fails an assertion counts
  as an invalid result here; the rules are those of \<^verbatim>\<open>core::Rule\<close> in what they do not override.
\<close>

definition ninja_env ::
  "'fs ninja_params \<Rightarrow> ('fs BuildContext, 'd) env \<Rightarrow> ('fs BuildContext, 'd) env" where
  "ninja_env p base = base\<lparr>
     lookupRule := lookupRule_ninja p,
     isResultValid := (\<lambda>c key v.
        case ruleForKey p c key of None \<Rightarrow> False | Some rule \<Rightarrow> ruleIsResultValid p c rule v = Some True),
     checksDependenciesBeforeRunning := (\<lambda>c key. False),
     mustCheckDependencyBeforeRunning := (\<lambda>c key dep. False),
     createTask := (\<lambda>c key t. case ruleForKey p c key of
        None \<Rightarrow> c\<lparr>nb_aborted := True\<rparr> | Some rule \<Rightarrow> setNinjaTask t (ruleCreateTask rule) c),
     task_start := (\<lambda>c t. with_ninja_task t (ninjaStart p) c),
     task_providePriorValue := (\<lambda>c t v. with_ninja_task t (\<lambda>task. ninjaProvidePriorValue p t task v) c),
     task_provideValue := (\<lambda>c t i key v. with_ninja_task t (\<lambda>task. ninjaProvideValue p t task i v) c),
     task_inputsAvailable := (\<lambda>c t. with_ninja_task t (ninjaInputsAvailable p t) c),
     shouldResolveCycle := (\<lambda>c cycle candidate action. False)\<rparr>"

end
