(* ===== verification/CommandOptions.thy ===== *)
theory CommandOptions
  imports NinjaLoader
begin

text \<open>What the parsers of command lines share: the numbers that \<^verbatim>\<open>strtol\<close> of the C library reads.\<close>

definition isdigit_char :: "char \<Rightarrow> bool" where
  "isdigit_char d \<longleftrightarrow> (of_char d :: nat) \<in> {48..57}"

text \<open>
  \<^verbatim>\<open>strtol(s, &end, 10)\<close>: the value and what is left at \<^verbatim>\<open>end\<close>. Without digits nothing is used, and the value
  is 0; values out of the range of a \<^verbatim>\<open>long\<close> are held at its ends.
\<close>

definition strtol10 :: "string \<Rightarrow> int \<times> string" where
  "strtol10 s =
     (let r = dropWhile isspace_char s;
          negative = (r \<noteq> [] \<and> hd r = CHR ''-'');
          r = (if r \<noteq> [] \<and> (hd r = CHR ''-'' \<or> hd r = CHR ''+'') then tl r else r);
          ds = takeWhile isdigit_char r;
          n = foldl (\<lambda>acc d. acc * 10 + (of_char d - 48)) (0 :: int) ds
      in if ds = [] then (0, s)
         else (if negative then max (- (2 ^ 63)) (- n) else min (2 ^ 63 - 1) n, dropWhile isdigit_char r))"

text \<open>The value as an \<^verbatim>\<open>unsigned\<close>, \<^term>\<open>None\<close> if the text is not used up.\<close>

definition strtol_unsigned :: "string \<Rightarrow> u32 option" where
  "strtol_unsigned s = (case strtol10 s of (n, rest) \<Rightarrow> if rest = [] then Some (of_int n) else None)"

end
