(* ===== verification/NinjaBuildCommand.thy ===== *)
theory NinjaBuildCommand
  imports NinjaBuildClient CommandOptions
begin

text \<open>
  The driver \<^verbatim>\<open>executeNinjaBuildCommand\<close> of \<^verbatim>\<open>lib/Commands/NinjaBuildCommand.cpp\<close>: options, the tools, the rules made
  from the manifest, the choice of the targets, and the two iterations of which the first
  regenerates the manifest. Loading (\<open>NinjaLoader\<close>) and the effect of \<^verbatim>\<open>engine.build\<close> on the context
  (\<open>BuildEngineLoop\<close> over \<open>ninja_env\<close>) are arguments, as are the calls of the system.
\<close>

section \<open>Options\<close>

record ninja_options =
  o_chdirPath :: string
  o_customTool :: string
  o_dbFilename :: string
  o_dumpGraphPath :: string
  o_profileFilename :: string
  o_traceFilename :: string
  o_manifestFilename :: string
  o_autoRegenerateManifest :: bool
  o_quiet :: bool
  o_simulate :: bool
  o_strict :: bool
  o_verbose :: bool
  o_numJobsInParallel :: u32
  o_schedulerAlgorithm :: SchedulerAlgorithm
  o_numFailedCommandsToTolerate :: u32
  o_loadAveragePositive :: bool
  o_debugTools :: "string list"

definition defaultOptions :: ninja_options where
  "defaultOptions = \<lparr>o_chdirPath = [], o_customTool = [], o_dbFilename = ''build.db'', o_dumpGraphPath = [],
     o_profileFilename = [], o_traceFilename = [], o_manifestFilename = ''build.ninja'',
     o_autoRegenerateManifest = True, o_quiet = False, o_simulate = False, o_strict = False, o_verbose = False,
     o_numJobsInParallel = 0, o_schedulerAlgorithm = NamePriority, o_numFailedCommandsToTolerate = 1,
     o_loadAveragePositive = False, o_debugTools = []\<rparr>"

datatype parsed = ParseExit int | Parsed ninja_options "string list"

text \<open>
  One round of the loop over the options: the program exits, the loop ends with the arguments left, or it
  goes on.
\<close>

datatype option_step = StepExit int | StepDone ninja_options "string list" | StepNext ninja_options "string list"

text \<open>An option that takes the next argument; without one the usage is printed and the program exits.\<close>

definition with_argument :: "string list \<Rightarrow> (string \<Rightarrow> ninja_options option) \<Rightarrow> option_step" where
  "with_argument args f =
     (case args of
        [] \<Rightarrow> StepExit 1
      | a # rest \<Rightarrow> (case f a of None \<Rightarrow> StepExit 1 | Some opts \<Rightarrow> StepNext opts rest))"

text \<open>
  \<open>strtod\<close> gives whether the number is positive, \<^term>\<open>None\<close> if the text is not used up. An unknown scheduler
  ends the loop with its name still among the arguments.
\<close>

definition parseOption :: "(string \<Rightarrow> bool option) \<Rightarrow> string \<Rightarrow> string list \<Rightarrow> ninja_options \<Rightarrow> option_step" where
  "parseOption strtod opt args opts =
     (if opt = [] \<or> hd opt \<noteq> CHR ''-'' then StepDone opts (opt # args)
      else if opt = ''--'' then StepDone opts args
      else if opt = ''--version'' then StepExit 0
      else if opt = ''--help'' then StepExit 0
      else if opt = ''--simulate'' then StepNext (opts\<lparr>o_simulate := True\<rparr>) args
      else if opt = ''--quiet'' then StepNext (opts\<lparr>o_quiet := True\<rparr>) args
      else if opt = ''-C'' \<or> opt = ''--chdir'' then
        with_argument args (\<lambda>a. Some (opts\<lparr>o_chdirPath := a\<rparr>))
      else if opt = ''--no-db'' then StepNext (opts\<lparr>o_dbFilename := []\<rparr>) args
      else if opt = ''--db'' then
        with_argument args (\<lambda>a. Some (opts\<lparr>o_dbFilename := a\<rparr>))
      else if opt = ''--dump-graph'' then
        with_argument args (\<lambda>a. Some (opts\<lparr>o_dumpGraphPath := a\<rparr>))
      else if opt = ''-f'' then
        with_argument args (\<lambda>a. Some (opts\<lparr>o_manifestFilename := a\<rparr>))
      else if opt = ''-k'' then
        with_argument args (\<lambda>a. map_option (\<lambda>k. opts\<lparr>o_numFailedCommandsToTolerate := k\<rparr>) (strtol_unsigned a))
      else if opt = ''-l'' then
        with_argument args (\<lambda>a. map_option (\<lambda>b. opts\<lparr>o_loadAveragePositive := b\<rparr>) (strtod a))
      else if opt = ''-j'' \<or> opt = ''--jobs'' then
        with_argument args (\<lambda>a. map_option (\<lambda>k. opts\<lparr>o_numJobsInParallel := k\<rparr>) (strtol_unsigned a))
      else if opt = ''--scheduler'' then
        (case args of
           [] \<Rightarrow> StepDone opts []
         | a # rest \<Rightarrow>
             if a = ''commandNamePriority'' \<or> a = ''default''
             then StepNext (opts\<lparr>o_schedulerAlgorithm := NamePriority\<rparr>) rest
             else if a = ''fifo'' then StepNext (opts\<lparr>o_schedulerAlgorithm := FIFO\<rparr>) rest
             else StepDone opts args)
      else if take 2 opt = ''-j'' then
        (case strtol_unsigned (drop 2 opt) of
           None \<Rightarrow> StepExit 1
         | Some k \<Rightarrow> StepNext (opts\<lparr>o_numJobsInParallel := k\<rparr>) args)
      else if opt = ''--no-regenerate'' then StepNext (opts\<lparr>o_autoRegenerateManifest := False\<rparr>) args
      else if opt = ''--profile'' then
        with_argument args (\<lambda>a. Some (opts\<lparr>o_profileFilename := a\<rparr>))
      else if opt = ''--strict'' then StepNext (opts\<lparr>o_strict := True\<rparr>) args
      else if opt = ''-t'' \<or> opt = ''--tool'' then
        with_argument args (\<lambda>a. Some (opts\<lparr>o_customTool := a\<rparr>))
      else if opt = ''-d'' then
        with_argument args (\<lambda>a. Some (opts\<lparr>o_debugTools := o_debugTools opts @ [a]\<rparr>))
      else if opt = ''--trace'' then
        with_argument args (\<lambda>a. Some (opts\<lparr>o_traceFilename := a\<rparr>))
      else if opt = ''-v'' \<or> opt = ''--verbose'' then StepNext (opts\<lparr>o_verbose := True\<rparr>) args
      else StepExit 1)"

text \<open>Every round takes an argument away, so the number of arguments bounds the rounds.\<close>

primrec parseOptions :: "nat \<Rightarrow> (string \<Rightarrow> bool option) \<Rightarrow> string list \<Rightarrow> ninja_options \<Rightarrow> parsed" where
  "parseOptions 0 strtod args opts = Parsed opts args"
| "parseOptions (Suc n) strtod args opts =
     (case args of
        [] \<Rightarrow> Parsed opts []
      | opt # rest \<Rightarrow>
          (case parseOption strtod opt rest opts of
             StepExit code \<Rightarrow> ParseExit code
           | StepDone opts args \<Rightarrow> Parsed opts args
           | StepNext opts args \<Rightarrow> parseOptions n strtod args opts))"

section \<open>Rules\<close>

text \<open>\<^verbatim>\<open>engine.addRule\<close>: a key that is taken is an error of the engine, which reports it to its delegate.\<close>

definition addRule_ninja ::
  "'fs ninja_params \<Rightarrow> string \<times> NinjaRuleKind \<Rightarrow> 'fs BuildContext \<Rightarrow> 'fs BuildContext" where
  "addRule_ninja p r c =
     (if map_of (nb_rules c) (fst r) \<noteq> None
      then delegate_error p (''attempt to register duplicate rule '' @ [CHR 0x22] @ fst r @ [CHR 0x22, line_feed]) c
      else c\<lparr>nb_rules := nb_rules c @ [r]\<rparr>)"

definition joinOutputs :: "string list \<Rightarrow> string" where
  "joinOutputs paths = foldl (\<lambda>name path. (if name \<noteq> [] then name @ ''&&'' else name) @ path) [] paths"

definition commandRules :: "Command \<Rightarrow> (string \<times> NinjaRuleKind) list option" where
  "commandRules command = do {
     outputs \<leftarrow> outputNodes command;
     let paths = map canonicalPath outputs;
     Some (if length paths = 1 then [(paths ! 0, NinjaBuildCommandRule command)]
           else let compositeRuleName = joinOutputs paths
                in (compositeRuleName, NinjaBuildCommandRule command)
                   # map (\<lambda>(i, path). (path, NinjaCompositeResultRule command i compositeRuleName)) (enumerate 0 paths))
   }"

definition addCommandRules :: "'fs ninja_params \<Rightarrow> 'fs BuildContext \<Rightarrow> 'fs BuildContext" where
  "addCommandRules p c =
     fold (\<lambda>command c. case commandRules command of
             None \<Rightarrow> c\<lparr>nb_aborted := True\<rparr>
           | Some rules \<Rightarrow> fold (addRule_ninja p) rules c) (m_commands (nb_manifest c)) c"

section \<open>Targets\<close>

text \<open>The targets named on the command line: \<open>Inl\<close> the first unknown one.\<close>

fun namedTargets :: "path_ops \<Rightarrow> string \<Rightarrow> Manifest \<Rightarrow> string list \<Rightarrow> string + string list" where
  "namedTargets fs wd m [] = Inr []"
| "namedTargets fs wd m (arg # args) =
     (case findNode fs wd arg m of
        None \<Rightarrow> Inl arg
      | Some node \<Rightarrow> map_sum id ((#) (canonicalPath node)) (namedTargets fs wd m args))"

definition inputNodesOf :: "Manifest \<Rightarrow> Node list" where
  "inputNodesOf m = concat (map (\<lambda>command. map nic_node (c_inputs command)) (m_commands m))"

definition rootTargets :: "Manifest \<Rightarrow> string list" where
  "rootTargets m =
     concat (map (\<lambda>command. concat (map (\<lambda>output. case output of
         None \<Rightarrow> []
       | Some node \<Rightarrow> if node \<in> set (inputNodesOf m) then [] else [canonicalPath node]) (c_outputs command)))
       (m_commands m))"

definition targetsToBuild :: "Manifest \<Rightarrow> string list \<Rightarrow> string list" where
  "targetsToBuild m named =
     (if named \<noteq> [] then named
      else if m_defaultTargets m \<noteq> [] then map canonicalPath (m_defaultTargets m)
      else rootTargets m)"

section \<open>One iteration\<close>

record 'fs ninja_system =
  sys_openFileLimit :: bool
  sys_strtod :: "string \<Rightarrow> bool option"
  sys_chdir :: "string \<Rightarrow> bool"
  sys_currentPath :: "string option"
  sys_numCPUs :: u32
  sys_statusFormat :: "string option"
  sys_statusOutput :: CommandLineStatusOutput
  sys_load :: "string \<Rightarrow> 'fs \<Rightarrow> nat \<times> Manifest"
  sys_attachDB :: "string \<Rightarrow> string option"
  sys_enableTracing :: "string \<Rightarrow> string option"
  sys_openProfile :: "string \<Rightarrow> string option"
  sys_unlink :: "string \<Rightarrow> 'fs \<Rightarrow> 'fs"
  sys_build :: "KeyType \<Rightarrow> 'fs BuildContext \<Rightarrow> 'fs BuildContext"

text \<open>How an iteration ends: a return with an exit status, or with the wish to load the manifest again.\<close>

datatype 'fs iteration_end = Returned int "'fs BuildContext" | Reload "'fs BuildContext"

definition contextFor ::
  "'fs ninja_system \<Rightarrow> ninja_options \<Rightarrow> string \<Rightarrow> Manifest \<Rightarrow> 'fs \<Rightarrow> 'fs BuildContext" where
  "contextFor S opts wd manifest fs =
     (newBuildContext wd manifest (sys_statusOutput S) (sys_statusFormat S) fs)
       \<lparr>nb_numFailedCommandsToTolerate := o_numFailedCommandsToTolerate opts, nb_quiet := o_quiet opts,
        nb_simulate := o_simulate opts, nb_strict := o_strict opts, nb_verbose := o_verbose opts\<rparr>"

text \<open>The tools \<^verbatim>\<open>targets\<close> and \<^verbatim>\<open>clean\<close>; \<^term>\<open>None\<close>: no tool was named.\<close>

definition runTool ::
  "'fs ninja_params \<Rightarrow> 'fs ninja_system \<Rightarrow> ninja_options \<Rightarrow> string list \<Rightarrow> 'fs BuildContext \<Rightarrow> (int \<times> 'fs BuildContext) option" where
  "runTool p S opts args c =
     (if o_customTool opts = ''targets'' then
        (if args = [] then Some (1, emitError p (''unsupported arguments to tool '' @ sq @ o_customTool opts @ sq) c)
         else if length args \<noteq> 1 \<or> args ! 0 \<noteq> ''all''
         then Some (1, emitError p (''unsupported argument to tool '' @ sq @ o_customTool opts @ sq @ '': '' @ sq @ args ! 0 @ sq) c)
         else Some (0, fold (\<lambda>command c. fold (\<lambda>output c. case output of
                  None \<Rightarrow> c\<lparr>nb_aborted := True\<rparr>
                | Some node \<Rightarrow> writeStdout (screenPath node @ '': '' @ nr_name (c_rule command) @ [line_feed]) c)
                (c_outputs command) c) (m_commands (nb_manifest c)) c))
      else if o_customTool opts = ''clean'' then
        (if o_dbFilename opts = []
         then Some (1, emitError p ''unable to clean without a database. Command ignored.'' c)
         else Some (0, emitNote p ''cleaned the build database, artifacts preserved.''
                (c\<lparr>nb_fs := sys_unlink S (o_dbFilename opts) (nb_fs c)\<rparr>)))
      else None)"

definition finishBuild :: "'fs ninja_params \<Rightarrow> 'fs BuildContext \<Rightarrow> int \<times> 'fs BuildContext" where
  "finishBuild p c =
     (if nb_wasCancelledBySigint c then (2, c)
      else
        let c = (if nb_numFailedCommands c \<noteq> 0
                 then emitError p (''build had '' @ decstr (sint (nb_numFailedCommands c)) @ '' command failures'') c else c)
        in if nb_numErrors c \<noteq> 0 then (1, c)
           else (0, if \<not> nb_quiet c \<and> nb_numBuiltCommands c = 0 then emitNote p ''no work to do.'' c else c))"

definition buildTargetKeys :: "'fs ninja_params \<Rightarrow> 'fs ninja_system \<Rightarrow> string list \<Rightarrow> 'fs BuildContext \<Rightarrow> 'fs BuildContext" where
  "buildTargetKeys p S targets c =
     (if length targets > 1
      then sys_build S ''<<build>>'' (addRule_ninja p (''<<build>>'', NinjaBuildTargetsRule targets) c)
      else sys_build S (hd targets) c)"

definition mainBuild ::
  "'fs ninja_params \<Rightarrow> 'fs ninja_system \<Rightarrow> ninja_options \<Rightarrow> string list \<Rightarrow> 'fs BuildContext \<Rightarrow> int \<times> 'fs BuildContext" where
  "mainBuild p S opts args c =
     (case (if o_profileFilename opts = [] then None else sys_openProfile S (o_profileFilename opts)) of
        Some error \<Rightarrow>
          (1, emitError p (''unable to open build profile '' @ sq @ o_profileFilename opts @ sq @ '' ('' @ error @ '')'' @ [line_feed]) c)
      | None \<Rightarrow>
          (case namedTargets (np_paths p) (nb_workingDirectory c) (nb_manifest c) args of
             Inl unknown \<Rightarrow>
               (1, c\<lparr>nb_stderr := nb_stderr c @ np_programName p @ '': error: unknown target: '' @ sq @ unknown @ sq @ [line_feed]\<rparr>)
           | Inr named \<Rightarrow>
               let targets = targetsToBuild (nb_manifest c) named
               in if targets = [] then (1, emitError p ''no targets to build'' c)
                  else
                    let c = buildTargetKeys p S targets c;
                        c = (if o_profileFilename opts = [] then c
                             else emitNote p (''wrote build profile to '' @ sq @ o_profileFilename opts @ sq
                                    @ '', use Chrome'' @ sq @ ''s about:tracing to view.'') c)
                    in finishBuild p c))"

definition ninjaIteration ::
  "'fs ninja_params \<Rightarrow> 'fs ninja_system \<Rightarrow> ninja_options \<Rightarrow> string list \<Rightarrow> string \<Rightarrow> nat \<Rightarrow> 'fs \<Rightarrow> 'fs iteration_end" where
  "ninjaIteration p S opts args wd iteration fs =
     (case sys_load S (o_manifestFilename opts) fs of
        (numErrors, manifest) \<Rightarrow>
          let c = contextFor S opts wd manifest fs
          in if numErrors \<noteq> 0 then Returned 1 (emitNote p (decstr (int numErrors) @ '' errors generated.'') c)
             else (case runTool p S opts args c of
                     Some (code, c) \<Rightarrow> Returned code c
                   | None \<Rightarrow>
                       (case (if o_dbFilename opts = [] then None else sys_attachDB S (o_dbFilename opts)) of
                          Some error \<Rightarrow> Returned 1 (emitError p (''unable to open build database: '' @ error) c)
                        | None \<Rightarrow>
                            (case (if o_traceFilename opts = [] then None else sys_enableTracing S (o_traceFilename opts)) of
                               Some error \<Rightarrow> Returned 1 (emitError p (''unable to enable tracing: '' @ error) c)
                             | None \<Rightarrow>
                                 let c = addCommandRules p c;
                                     regenerate = (o_autoRegenerateManifest opts \<and> iteration = 0);
                                     c = (if regenerate
                                          then sys_build S (case normalize_path (np_paths p) wd (o_manifestFilename opts) of
                                                 Some path \<Rightarrow> path | None \<Rightarrow> o_manifestFilename opts) c
                                          else c)
                                 in if regenerate \<and> nb_numBuiltCommands c \<noteq> 0 then Reload c
                                    else (case mainBuild p S opts args c of (code, c) \<Rightarrow> Returned code c)))))"

section \<open>The command\<close>

text \<open>What can end the command before the first iteration.\<close>

definition checkOptions :: "'fs ninja_system \<Rightarrow> ninja_options \<Rightarrow> string list \<Rightarrow> int option" where
  "checkOptions S opts args =
     (if o_debugTools opts \<noteq> [] then Some 1
      else if o_chdirPath opts \<noteq> [] \<and> \<not> sys_chdir S (o_chdirPath opts) then Some 1
      else if o_customTool opts \<noteq> [] \<and> o_customTool opts \<notin> {''clean'', ''targets'', ''list''} then Some 1
      else if o_customTool opts = ''list'' then Some (if args = [] then 0 else 1)
      else if sys_currentPath S = None then Some 1
      else if o_numJobsInParallel opts = 0 \<and> sys_numCPUs S = 0 then Some 1
      else None)"

definition executeNinjaBuildCommand ::
  "'fs ninja_params \<Rightarrow> 'fs ninja_system \<Rightarrow> string list \<Rightarrow> 'fs \<Rightarrow> int \<times> 'fs BuildContext list" where
  "executeNinjaBuildCommand p S args0 fs =
     (if \<not> sys_openFileLimit S then (- 1, [])
      else
        (case parseOptions (length args0) (sys_strtod S) args0 defaultOptions of
           ParseExit code \<Rightarrow> (code, [])
         | Parsed opts args \<Rightarrow>
             (case checkOptions S opts args of
                Some code \<Rightarrow> (code, [])
              | None \<Rightarrow>
                  let wd = the (sys_currentPath S)
                  in (case ninjaIteration p S opts args wd 0 fs of
                        Returned code c \<Rightarrow> (code, [c])
                      | Reload c0 \<Rightarrow>
                          (case ninjaIteration p S opts args wd 1 (nb_fs c0) of
                             Returned code c \<Rightarrow> (code, [c0, c])
                           | Reload c \<Rightarrow> (0, [c0, c]))))))"

end
