(* ===== verification/NinjaBuildProps.thy ===== *)
theory NinjaBuildProps
  imports NinjaBuildCommand BuildEngineInvariant "HOL-Library.Multiset"
begin

text \<open>
  Properties of the Ninja build command: its callbacks keep the contract of the engine, the task of a
  command completes exactly once, in its callback or in its job, stored results are
  accepted exactly as long as command and outputs are unchanged, a command is brought up to date
  without running exactly if its outputs are newer than its usable inputs, and a command with a failed
  explicit or implicit input does not run.
\<close>

section \<open>The contract of the engine\<close>

lemma computing_abort_ninja [simp]: "computing_prog (abort_ninja c) b"
  by (simp add: abort_ninja_def)

lemma computing_completeNinja [simp]: "computing_prog (completeNinja v force c) True"
  by (simp add: completeNinja_def)

lemma computing_runOrSkip [simp]: "computing_prog (runOrSkip p t task c) True"
  by (simp add: runOrSkip_def Let_def split: option.split list.split)

lemma computing_inputsAvailable_command: "computing_prog (inputsAvailable_command p t task c) True"
  by (simp add: inputsAvailable_command_def Let_def split: option.split bool.split)

lemma computing_ninjaInputsAvailable: "computing_prog (ninjaInputsAvailable p t task c) True"
  by (cases task)
    (simp_all add: computing_inputsAvailable_command inputsAvailable_input_def inputsAvailable_select_def Let_def
      split: option.split)

text \<open>
  The callbacks keep what the engine's theorems ask of a client, over a database that returns
  well-formed dependency lists and whose writes succeed. The jobs are a matter of their own, below.
\<close>

lemma ninja_contract:
  assumes "\<forall>d k key r err. db_lookupRuleResult base d k key = (Some r, err) \<longrightarrow> deps_invar (dependencies r)"
    "\<forall>d k rule r. snd (db_setRuleResult base d k rule r) = None"
  shows "client_contract (ninja_env p base)"
  using assms
  by (simp add: client_contract_def ninja_env_def with_ninja_task_def computing_ninjaInputsAvailable split: option.split)

section \<open>Results\<close>

lemma infoForPath_ok [simp]: "fileInfo_ok (infoForPath p fs path)"
  by (simp add: infoForPath_def getInfoForPath_def fileInfo_ok_def checksum_ok_def zeroFileInfo_def zeroChecksum_def
      Let_def split: option.split)

definition outputInfos :: "'fs ninja_params \<Rightarrow> 'fs \<Rightarrow> Node list \<Rightarrow> FileInfo list" where
  "outputInfos p fs outputs = map (\<lambda>node. infoForPath p fs (canonicalPath node)) outputs"

lemma outputInfos_ok [simp]: "list_all fileInfo_ok (outputInfos p fs outputs)"
  by (simp add: outputInfos_def list_all_iff)

text \<open>What a result says: it is a successful command with this hash and these infos.\<close>

definition result_says :: "NinjaValue \<Rightarrow> u64 \<Rightarrow> FileInfo list \<Rightarrow> bool" where
  "result_says v h infos \<longleftrightarrow> isSuccessfulCommand_ninja v \<and> nv_commandHash v = h
     \<and> unat (nv_numOutputInfos v) = length infos \<and> ninja_value_ok v
     \<and> (case nv_valueData v of AsOutputInfo info \<Rightarrow> infos = [info] | AsOutputInfos a infos' \<Rightarrow> infos' = infos)"

lemma result_says_address:
  "result_says v h infos \<Longrightarrow> result_says (v\<lparr>nv_valueData := with_address a (nv_valueData v)\<rparr>) h infos"
  by (cases "nv_valueData v")
    (auto simp: result_says_def ninja_value_ok_def isSuccessfulCommand_ninja_def hasMultipleOutputs_ninja_def)

lemma result_says_stored:
  assumes "result_says v h infos"
  obtains v' where "fromValue a (toValue v) = Some v'" "result_says v' h infos"
  using ninja_value_roundtrip [of v a] result_says_address [OF assms, of a] assms by (auto simp: result_says_def)

lemma outputNodes_iff: "outputNodes command = Some outputs \<longleftrightarrow> c_outputs command = map Some outputs"
  unfolding outputNodes_def mapM_option_eq_Some by (auto simp: list_eq_iff_nth_eq)

lemma u32_of_nat:
  assumes "n < 2 ^ 32"
  shows "unat (of_nat n :: u32) = n" "(1 :: u32) < of_nat n \<longleftrightarrow> 1 < n"
proof -
  show *: "unat (of_nat n :: u32) = n" using assms by (simp add: unat_of_nat_less)
  show "(1 :: u32) < of_nat n \<longleftrightarrow> 1 < n" unfolding word_less_nat_alt * by simp
qed

lemma computeCommandResult_ninja_says:
  assumes "outputNodes command = Some outputs" "outputs \<noteq> []" "length outputs < 2 ^ 32"
  shows "\<exists>v. computeCommandResult_ninja p fs command h = Some v \<and> result_says v h (outputInfos p fs outputs)"
proof (cases "length outputs = 1")
  case True
  then obtain node where "outputs = [node]" by (cases outputs) auto
  then show ?thesis
    using assms(1)
    by (simp add: computeCommandResult_ninja_def outputInfos_def makeSuccessfulCommand_ninja_def result_says_def
        ninja_value_ok_def isSuccessfulCommand_ninja_def hasMultipleOutputs_ninja_def)
next
  case False
  then have "1 < length outputs" using assms(2) by (cases outputs) auto
  then show ?thesis
    using assms False u32_of_nat [OF assms(3)] outputInfos_ok [of p fs outputs]
    by (simp add: computeCommandResult_ninja_def outputInfos_def makeSuccessfulCommands_def result_says_def
        ninja_value_ok_def isSuccessfulCommand_ninja_def hasMultipleOutputs_ninja_def)
qed

lemma result_says_nth:
  assumes "result_says v h infos" "i < length infos"
  shows "getNthOutputInfo_ninja i v = Some (infos ! i)"
  using assms
  by (cases "nv_valueData v") (auto simp: result_says_def getNthOutputInfo_ninja_def getNumOutputs_ninja_def)

lemma result_says_hash: "result_says v h infos \<Longrightarrow> getCommandHash v = Some h"
  by (simp add: result_says_def getCommandHash_def)

lemma resultInfos_says:
  assumes "result_says v h infos"
  shows "resultInfos v = Some infos"
proof -
  have "getNumOutputs_ninja v = Some (nv_numOutputInfos v)"
    using assms by (simp add: result_says_def getNumOutputs_ninja_def)
  moreover have "unat (nv_numOutputInfos v) = length infos" using assms by (simp add: result_says_def)
  ultimately show ?thesis
    using result_says_nth [OF assms] by (simp add: resultInfos_def mapM_option_eq_Some)
qed

text \<open>An output that is still there with the same information.\<close>

definition unchanged :: "'fs ninja_params \<Rightarrow> 'fs \<Rightarrow> 'fs \<Rightarrow> Node \<Rightarrow> bool" where
  "unchanged p fs fs' node \<longleftrightarrow>
     \<not> isMissing (infoForPath p fs' (canonicalPath node))
     \<and> fileInfo_eq (infoForPath p fs (canonicalPath node)) (infoForPath p fs' (canonicalPath node))"

lemma checkOutputs_says:
  assumes "result_says v h (outputInfos p fs (pre @ outputs))"
  shows "checkOutputs p fs' v (length pre) (map Some outputs) = Some (list_all (unchanged p fs fs') outputs)"
  using assms
proof (induction outputs arbitrary: pre)
  case (Cons node outputs)
  have "getNthOutputInfo_ninja (length pre) v = Some (infoForPath p fs (canonicalPath node))"
    using result_says_nth [OF Cons.prems, of "length pre"] by (simp add: outputInfos_def nth_append)
  moreover have "checkOutputs p fs' v (length (pre @ [node])) (map Some outputs) = Some (list_all (unchanged p fs fs') outputs)"
    using Cons.IH [of "pre @ [node]"] Cons.prems by simp
  ultimately show ?case by (simp add: unchanged_def [of p fs fs' node] Let_def)
qed simp

text \<open>
  C36. The stored result of a command is accepted in a later build exactly if the command line has the same
  hash or the command is a generator, and each output is still there with the file information it had
  when the command finished.
\<close>

theorem ninja_command_revalidation:
  assumes "outputNodes command = Some outputs" "outputs \<noteq> []" "length outputs < 2 ^ 32"
    and "c_outputs command' = c_outputs command"
  shows "\<exists>v. computeCommandResult_ninja p fs command (np_hash p (commandString command)) = Some v \<and>
    buildCommandIsResultValid p fs' command' (toValue v) =
      Some ((isGenerator command' \<or> np_hash p (commandString command) = np_hash p (commandString command'))
            \<and> list_all (unchanged p fs fs') outputs)"
proof -
  let ?hash = "np_hash p (commandString command)"
  obtain v where v: "computeCommandResult_ninja p fs command ?hash = Some v" "result_says v ?hash (outputInfos p fs outputs)"
    using computeCommandResult_ninja_says [OF assms(1-3), of p fs ?hash] by blast
  obtain v' where v': "fromValue (np_address p fs') (toValue v) = Some v'" "result_says v' ?hash (outputInfos p fs outputs)"
    using result_says_stored [OF v(2)] by blast
  have "checkOutputs p fs' v' 0 (c_outputs command') = Some (list_all (unchanged p fs fs') outputs)"
    using checkOutputs_says [of v' ?hash p fs "[]" outputs fs'] v'(2) assms(1,4) by (simp add: outputNodes_iff)
  then show ?thesis
    using v v' result_says_hash [OF v'(2)] by (auto simp: buildCommandIsResultValid_def result_says_def)
qed

section \<open>Updating without running\<close>

text \<open>The values of the inputs, in the order in which they arrive.\<close>

definition feed ::
  "'fs ninja_params \<Rightarrow> (u64 \<times> ValueType) list \<Rightarrow> NinjaCommandTask \<times> 'fs BuildContext \<Rightarrow> (NinjaCommandTask \<times> 'fs BuildContext) option" where
  "feed p inputs st = foldM_option (\<lambda>(i, v) (task, c). provideValue_command p i v task c) inputs st"

text \<open>An input is usable if it exists or was built; its info is that of the file.\<close>

definition usable :: "NinjaValue \<Rightarrow> bool" where
  "usable v \<longleftrightarrow> isExistingInput v \<or> isSuccessfulCommand_ninja v"

lemma provideValue_command_effect:
  assumes "provideValue_command p i vdata task c = Some (task', c')"
  obtains v where "fromValue (np_address p (nb_fs c)) vdata = Some v"
    "ct_command task' = ct_command task" "ct_hasPriorResult task' = ct_hasPriorResult task"
    "ct_priorCommandHash task' = ct_priorCommandHash task"
    "ct_shouldSkip task' \<longleftrightarrow> ct_shouldSkip task \<or> \<not> usable v"
    "nb_jobs c' = nb_jobs c" "nb_fs c' = nb_fs c"
    "\<not> usable v \<longrightarrow> ct_canUpdateIfNewer task' = ct_canUpdateIfNewer task \<and> ct_newestModTime task' = ct_newestModTime task"
    "usable v \<longrightarrow> (\<exists>info. getOutputInfo_ninja v = Some info
       \<and> (ct_canUpdateIfNewer task' \<longleftrightarrow> ct_canUpdateIfNewer task \<and> \<not> isMissing info)
       \<and> ct_newestModTime task' = (if isMissing info then ct_newestModTime task else max (ct_newestModTime task) (modTime info)))"
proof -
  have keep: "nb_jobs (reportMissingInput p node c) = nb_jobs c" "nb_fs (reportMissingInput p node c) = nb_fs c" for node
    by (simp_all add: reportMissingInput_def emitError_def emitDiagnostic_def console_def Let_def split: option.split)
  from assms obtain v where v: "fromValue (np_address p (nb_fs c)) vdata = Some v"
    by (auto simp: provideValue_command_def bind_eq_Some_conv)
  show thesis
  proof (cases "usable v")
    case True
    with assms v obtain info where info: "getOutputInfo_ninja v = Some info" "c' = c"
      and task': "task' = (if isMissing info then task\<lparr>ct_canUpdateIfNewer := False\<rparr>
             else if modTime info > ct_newestModTime task then task\<lparr>ct_newestModTime := modTime info\<rparr> else task)"
      by (auto simp: provideValue_command_def usable_def bind_eq_Some_conv)
    show thesis
      using True info by (intro that [OF v]) (auto simp: task' max_def)
  next
    case False
    then show thesis
      using assms v
      by (intro that [OF v]) (auto simp: provideValue_command_def usable_def keep Let_def split: if_splits)
  qed
qed

text \<open>The informations of the usable inputs.\<close>

definition inputInfos :: "'fs ninja_params \<Rightarrow> 'fs \<Rightarrow> (u64 \<times> ValueType) list \<Rightarrow> FileInfo list" where
  "inputInfos p fs inputs = List.map_filter (\<lambda>(i, vdata). do {
     v \<leftarrow> fromValue (np_address p fs) vdata;
     if usable v then getOutputInfo_ninja v else None }) inputs"

definition allUsable :: "'fs ninja_params \<Rightarrow> 'fs \<Rightarrow> (u64 \<times> ValueType) list \<Rightarrow> bool" where
  "allUsable p fs inputs \<longleftrightarrow>
     list_all (\<lambda>(i, vdata). case fromValue (np_address p fs) vdata of None \<Rightarrow> False | Some v \<Rightarrow> usable v) inputs"

definition newest :: "FileInfo list \<Rightarrow> FileTimestamp \<Rightarrow> FileTimestamp" where
  "newest infos m = fold (\<lambda>info m. max m (modTime info)) (filter (\<lambda>info. \<not> isMissing info) infos) m"

lemma feed_effect:
  assumes "feed p inputs (task, c) = Some (task', c')"
  shows "ct_command task' = ct_command task \<and> ct_hasPriorResult task' = ct_hasPriorResult task
    \<and> ct_priorCommandHash task' = ct_priorCommandHash task \<and> nb_jobs c' = nb_jobs c \<and> nb_fs c' = nb_fs c
    \<and> (ct_shouldSkip task' \<longleftrightarrow> ct_shouldSkip task \<or> \<not> allUsable p (nb_fs c) inputs)
    \<and> (ct_canUpdateIfNewer task' \<longleftrightarrow> ct_canUpdateIfNewer task \<and> list_all (\<lambda>info. \<not> isMissing info) (inputInfos p (nb_fs c) inputs))
    \<and> ct_newestModTime task' = newest (inputInfos p (nb_fs c) inputs) (ct_newestModTime task)"
  using assms
proof (induction inputs arbitrary: task c)
  case Nil
  then show ?case by (simp add: feed_def allUsable_def inputInfos_def newest_def map_filter_simps)
next
  case (Cons input inputs)
  obtain i vdata where input: "input = (i, vdata)" by fastforce
  from Cons.prems input obtain task1 c1 where
    step: "provideValue_command p i vdata task c = Some (task1, c1)" and rest: "feed p inputs (task1, c1) = Some (task', c')"
    by (auto simp: feed_def bind_eq_Some_conv)
  note IH = Cons.IH [OF rest]
  obtain v where v: "fromValue (np_address p (nb_fs c)) vdata = Some v"
    "ct_command task1 = ct_command task" "ct_hasPriorResult task1 = ct_hasPriorResult task"
    "ct_priorCommandHash task1 = ct_priorCommandHash task"
    "ct_shouldSkip task1 \<longleftrightarrow> ct_shouldSkip task \<or> \<not> usable v"
    "nb_jobs c1 = nb_jobs c" "nb_fs c1 = nb_fs c"
    "\<not> usable v \<longrightarrow> ct_canUpdateIfNewer task1 = ct_canUpdateIfNewer task \<and> ct_newestModTime task1 = ct_newestModTime task"
    "usable v \<longrightarrow> (\<exists>info. getOutputInfo_ninja v = Some info
       \<and> (ct_canUpdateIfNewer task1 \<longleftrightarrow> ct_canUpdateIfNewer task \<and> \<not> isMissing info)
       \<and> ct_newestModTime task1 = (if isMissing info then ct_newestModTime task else max (ct_newestModTime task) (modTime info)))"
    using provideValue_command_effect [OF step] by blast
  show ?case
  proof (cases "usable v")
    case True
    with v obtain info where "getOutputInfo_ninja v = Some info"
      "ct_canUpdateIfNewer task1 \<longleftrightarrow> ct_canUpdateIfNewer task \<and> \<not> isMissing info"
      "ct_newestModTime task1 = (if isMissing info then ct_newestModTime task else max (ct_newestModTime task) (modTime info))"
      by blast
    then show ?thesis
      using IH v True by (auto simp: input allUsable_def inputInfos_def newest_def map_filter_simps)
  next
    case False
    then show ?thesis
      using IH v by (auto simp: input allUsable_def inputInfos_def newest_def map_filter_simps)
  qed
qed

lemma newest_le: "newest infos m \<le> x \<longleftrightarrow> m \<le> x \<and> (\<forall>info \<in> set infos. isMissing info \<or> modTime info \<le> x)"
  by (induction infos arbitrary: m) (auto simp: newest_def)

lemma newest_less: "newest infos m < x \<longleftrightarrow> m < x \<and> (\<forall>info \<in> set infos. isMissing info \<or> modTime info < x)"
  by (induction infos arbitrary: m) (auto simp: newest_def)

text \<open>
  An output is newer than the inputs: in strict mode strictly so, and later than the beginning of time; otherwise
  it may be as old as an input.
\<close>

definition newer_than :: "bool \<Rightarrow> FileInfo list \<Rightarrow> FileInfo \<Rightarrow> bool" where
  "newer_than strict infos out \<longleftrightarrow>
     (if strict then FileTimestamp 0 0 < modTime out \<and> (\<forall>info \<in> set infos. modTime info < modTime out)
      else (\<forall>info \<in> set infos. modTime info \<le> modTime out))"

lemma canUpdate_says:
  assumes "result_says v h outs" "\<forall>info \<in> set infos. \<not> isMissing info"
  shows "canUpdateIfNewerWithResult_ninja strict (newest infos (FileTimestamp 0 0)) v
    = Some (list_all (\<lambda>out. \<not> isMissing out \<and> newer_than strict infos out) outs)"
proof -
  have zero: "FileTimestamp 0 0 \<le> x" for x by (cases x) (auto simp: less_eq_FileTimestamp_def word_gt_0)
  have "(if strict then \<not> modTime out \<le> newest infos (FileTimestamp 0 0) else \<not> modTime out < newest infos (FileTimestamp 0 0))
      \<longleftrightarrow> newer_than strict infos out" for out
    using assms(2) zero by (auto simp: newer_than_def not_le not_less newest_le newest_less)
  then show ?thesis
    using assms(1) resultInfos_says [OF assms(1)] by (simp add: canUpdateIfNewerWithResult_ninja_def result_says_def)
qed

text \<open>
  C37. In a build that is not cancelled, a command that is not phony is brought up to date without running
  exactly if it has no discovered dependencies; it is a generator (which needs no record of an earlier
  run) or its command line is the one recorded with its earlier result; none of the files that its usable
  inputs stand for is missing; and every output exists and is newer than all these files. Otherwise it is
  run or skipped. Usable inputs are those with the value of an existing input or of a successful command:
  an input that failed, was skipped or does not exist is not looked at and does not keep the command from
  being taken for up to date.
\<close>

theorem ninja_update_iff:
  assumes fed: "feed p inputs (task0, c) = Some (task, c')"
    and task0: "task0 = newNinjaCommandTask command
      \<or> providePriorValue_command p prior (newNinjaCommandTask command) c0 = Some task0"
    and cmd: "\<not> isPhony command" "outputNodes command = Some outputs" "outputs \<noteq> []" "length outputs < 2 ^ 32"
    and run: "\<not> nb_isCancelled c'"
    and infos: "infos = inputInfos p (nb_fs c) inputs"
  shows "\<exists>v. computeCommandResult_ninja p (nb_fs c) command (np_hash p (commandString command)) = Some v \<and>
    inputsAvailable_command p t task c' =
      (if depsStyle command = DepsNone
          \<and> (isGenerator command \<or> ct_hasPriorResult task0 \<and> ct_priorCommandHash task0 = np_hash p (commandString command))
          \<and> list_all (\<lambda>info. \<not> isMissing info) infos
          \<and> list_all (\<lambda>out. \<not> isMissing out \<and> newer_than (nb_strict c') infos out) (outputInfos p (nb_fs c) outputs)
       then completeNinja v False (c'\<lparr>nb_numCommandsUpdated := nb_numCommandsUpdated c' + 1\<rparr>)
       else runOrSkip p t task c')"
proof -
  let ?hash = "np_hash p (commandString command)"
  have t0: "ct_command task0 = command" "ct_canUpdateIfNewer task0 \<longleftrightarrow> depsStyle command = DepsNone"
    "ct_newestModTime task0 = FileTimestamp 0 0"
    using task0 by (auto simp: newNinjaCommandTask_def providePriorValue_command_def bind_eq_Some_conv split: if_splits)
  note fx = feed_effect [OF fed]
  obtain v where v: "computeCommandResult_ninja p (nb_fs c) command ?hash = Some v" "result_says v ?hash (outputInfos p (nb_fs c) outputs)"
    using computeCommandResult_ninja_says [OF cmd(2-4), of p "nb_fs c" ?hash] by blast
  have "canUpdateIfNewerWithResult_ninja (nb_strict c') (ct_newestModTime task) v
      = Some (list_all (\<lambda>out. \<not> isMissing out \<and> newer_than (nb_strict c') infos out) (outputInfos p (nb_fs c) outputs))"
    if "ct_canUpdateIfNewer task"
    using canUpdate_says [OF v(2), of infos "nb_strict c'"] that fx t0(3) infos by (simp add: list_all_iff)
  then show ?thesis
    using v(1) fx t0 cmd(1) run infos
    by (auto simp: inputsAvailable_command_def Let_def split: option.split bool.split)
qed

section \<open>Failed inputs\<close>

lemma emitDiagnostic_keeps [simp]:
  "nb_jobs (emitDiagnostic p kind message c) = nb_jobs c" "nb_isCancelled (emitDiagnostic p kind message c) = nb_isCancelled c"
  "nb_numFailedCommands (emitDiagnostic p kind message c) = nb_numFailedCommands c"
  "nb_numFailedCommandsToTolerate (emitDiagnostic p kind message c) = nb_numFailedCommandsToTolerate c"
  by (simp_all add: emitDiagnostic_def console_def Let_def split: option.split)

lemma emitError_keeps [simp]:
  "nb_jobs (emitError p message c) = nb_jobs c" "nb_isCancelled (emitError p message c) = nb_isCancelled c"
  "nb_numFailedCommands (emitError p message c) = nb_numFailedCommands c"
  "nb_numFailedCommandsToTolerate (emitError p message c) = nb_numFailedCommandsToTolerate c"
  by (simp_all add: emitError_def Let_def)

lemma incrementFailedCommands_jobs [simp]: "nb_jobs (incrementFailedCommands p c) = nb_jobs c"
  by (simp add: incrementFailedCommands_def Let_def)

lemma writeDescription_jobs [simp]: "nb_jobs (writeDescription p command c) = nb_jobs c"
  by (simp add: writeDescription_def emitStatus_def console_def Let_def split: option.split)

lemma runOrSkip_skips:
  assumes "ct_shouldSkip task" "outputNodes (ct_command task) = Some (output # outputs)"
  shows "\<exists>c'. runOrSkip p t task c = completeNinja makeSkippedCommand False c' \<and> nb_jobs c' = nb_jobs c"
  using assms by (auto simp: runOrSkip_def Let_def)

text \<open>The calls of \<^verbatim>\<open>start\<close>: values are asked for first, then come the tasks it only has to follow.\<close>

definition asks :: "(KeyType \<times> u64) list \<Rightarrow> KeyType list \<Rightarrow> 'c \<Rightarrow> 'c prog" where
  "asks reqs follows c = foldr (\<lambda>(key, i). Request key i) reqs (foldr MustFollow follows (Return c))"

lemma asks_inject:
  assumes "asks reqs follows c = asks reqs' follows' c'"
  shows "reqs = reqs'"
proof -
  have no_request: "foldr MustFollow fs (Return c) \<noteq> Request key i q" for fs c key i and q :: "'a prog"
    by (cases fs) auto
  show ?thesis
    using assms
  proof (induction reqs arbitrary: reqs')
    case Nil
    then show ?case by (cases reqs') (auto simp: asks_def no_request)
  next
    case (Cons r reqs)
    then show ?case
      by (cases reqs') (auto simp: asks_def split_beta no_request [symmetric] intro: prod_eqI)
  qed
qed

lemma requestInputs_asks:
  "requestInputs False command i inputs (asks reqs follows c)
   = asks (map (\<lambda>(j, input). (canonicalPath (nic_node input), of_nat j)) (enumerate i inputs) @ reqs) follows c"
  by (induction inputs arbitrary: i) (simp_all add: asks_def)

lemma followInputs_asks:
  "followInputs False command inputs (Return c) = asks [] (map (canonicalPath \<circ> nic_node) inputs) c"
  by (induction inputs) (simp_all add: asks_def)

text \<open>
  A command that is not phony asks for the values of its explicit and implicit inputs and only follows
  its order-only inputs.
\<close>

lemma start_command_asks:
  assumes "\<not> isPhony command"
  obtains reqs where
    "start_command command c = asks reqs (map (canonicalPath \<circ> nic_node) (orderOnlyInputs command)) c"
    "map fst reqs = map (canonicalPath \<circ> nic_node) (explicitInputs command @ implicitInputs command)"
proof
  let ?reqs = "\<lambda>i inputs. map (\<lambda>(j, input). (canonicalPath (nic_node input), of_nat j :: u64)) (enumerate i inputs)"
  show "start_command command c
      = asks (?reqs 0 (explicitInputs command) @ ?reqs (length (explicitInputs command)) (implicitInputs command))
          (map (canonicalPath \<circ> nic_node) (orderOnlyInputs command)) c"
    using assms requestInputs_asks [of command _ _ "[]"]
    by (simp add: start_command_def followInputs_asks requestInputs_asks)
  have keys: "map fst (?reqs i inputs) = map (canonicalPath \<circ> nic_node) inputs" for i inputs
    by (induction inputs arbitrary: i) simp_all
  show "map fst (?reqs 0 (explicitInputs command) @ ?reqs (length (explicitInputs command)) (implicitInputs command))
      = map (canonicalPath \<circ> nic_node) (explicitInputs command @ implicitInputs command)"
    by (simp only: map_append keys)
qed

lemma failed_input_not_usable:
  assumes "start_command command cs = asks reqs follows cs"
    and "mset inputs = mset (map (\<lambda>(key, i). (i, value_of key)) reqs)"
    and "input \<in> set (explicitInputs command @ implicitInputs command)"
    and "\<not> (\<exists>v. fromValue (np_address p fs) (value_of (canonicalPath (nic_node input))) = Some v
      \<and> (isExistingInput v \<or> isSuccessfulCommand_ninja v))"
    and "\<not> isPhony command"
  shows "\<not> allUsable p fs inputs"
proof -
  let ?key = "canonicalPath (nic_node input)"
  obtain reqs' where "start_command command cs = asks reqs' (map (canonicalPath \<circ> nic_node) (orderOnlyInputs command)) cs"
    and keys: "map fst reqs' = map (canonicalPath \<circ> nic_node) (explicitInputs command @ implicitInputs command)"
    using start_command_asks [OF assms(5)] .
  then have "reqs' = reqs" using assms(1) asks_inject by metis
  with keys have "?key \<in> fst ` set reqs"
    using assms(3) by (metis (no_types, lifting) comp_apply image_eqI list.set_map)
  then obtain i where "(?key, i) \<in> set reqs" by auto
  then have "(i, value_of ?key) \<in> set inputs"
    unfolding mset_eq_setD [OF assms(2)] by force
  then show ?thesis
    using assms(4) by (cases "fromValue (np_address p fs) (value_of ?key)")
      (force simp: allUsable_def list_all_iff usable_def)+
qed

text \<open>
  C38. A command that is not phony and one of whose explicit or implicit inputs failed, was skipped or does
  not exist is never handed to the execution queue: when the task has been given the values of the inputs
  that its start asks for, in any order, it completes at once, as a skipped command or, when the outputs may
  be taken for up to date, with the result that the outputs give. Order-only inputs are not covered: their
  values are not asked for.
\<close>

theorem ninja_failed_input_never_runs:
  assumes start: "start_command command cs = asks reqs follows cs"
    and provided: "mset inputs = mset (map (\<lambda>(key, i). (i, value_of key)) reqs)"
    and fed: "feed p inputs (task0, c) = Some (task, c')"
    and task0: "task0 = newNinjaCommandTask command
      \<or> providePriorValue_command p prior (newNinjaCommandTask command) c0 = Some task0"
    and input: "input \<in> set (explicitInputs command @ implicitInputs command)"
    and bad: "\<not> (\<exists>v. fromValue (np_address p (nb_fs c)) (value_of (canonicalPath (nic_node input))) = Some v
      \<and> (isExistingInput v \<or> isSuccessfulCommand_ninja v))"
    and cmd: "\<not> isPhony command" "outputNodes command = Some outputs" "outputs \<noteq> []" "length outputs < 2 ^ 32"
  shows "\<exists>v c''. inputsAvailable_command p t task c' = completeNinja v False c'' \<and> nb_jobs c'' = nb_jobs c
    \<and> (v = makeSkippedCommand \<or>
       ct_canUpdateIfNewer task \<and> computeCommandResult_ninja p (nb_fs c) command (np_hash p (commandString command)) = Some v)"
proof -
  let ?hash = "np_hash p (commandString command)"
  have "ct_command task0 = command" using task0
    by (auto simp: newNinjaCommandTask_def providePriorValue_command_def bind_eq_Some_conv split: if_splits)
  moreover have "\<not> allUsable p (nb_fs c) inputs"
    using failed_input_not_usable [OF start provided input bad cmd(1)] .
  ultimately have task: "ct_command task = command" "ct_shouldSkip task" "nb_jobs c' = nb_jobs c" "nb_fs c' = nb_fs c"
    using feed_effect [OF fed] by auto
  from cmd(3) obtain first rest where "outputs = first # rest" by (cases outputs) auto
  then obtain c1 where skip: "runOrSkip p t task c' = completeNinja makeSkippedCommand False c1" "nb_jobs c1 = nb_jobs c"
    using runOrSkip_skips [of task first rest p t c'] task cmd(2) by auto
  obtain v where v: "computeCommandResult_ninja p (nb_fs c) command ?hash = Some v" "result_says v ?hash (outputInfos p (nb_fs c) outputs)"
    using computeCommandResult_ninja_says [OF cmd(2-4), of p "nb_fs c" ?hash] by blast
  obtain b where b: "canUpdateIfNewerWithResult_ninja (nb_strict c') (ct_newestModTime task) v = Some b"
    using v(2) resultInfos_says [OF v(2)] by (simp add: canUpdateIfNewerWithResult_ninja_def result_says_def)
  let ?updated = "c'\<lparr>nb_numCommandsUpdated := nb_numCommandsUpdated c' + 1\<rparr>"
  let ?can = "ct_canUpdateIfNewer task \<and> (isGenerator command \<or> ct_hasPriorResult task \<and> ct_priorCommandHash task = ?hash) \<and> b"
  have eq: "inputsAvailable_command p t task c' =
      (if nb_isCancelled c' then completeNinja makeSkippedCommand False c'
       else if ?can then completeNinja v False ?updated else runOrSkip p t task c')"
    using task v(1) b cmd(1) by (cases b) (auto simp: inputsAvailable_command_def Let_def)
  show ?thesis
  proof (cases "nb_isCancelled c'")
    case True
    then show ?thesis using eq task(3) by (intro exI [of _ makeSkippedCommand] exI [of _ c']) simp
  next
    case running: False
    show ?thesis
    proof (cases ?can)
      case True
      then show ?thesis using eq running v(1) task(3) by (intro exI [of _ v] exI [of _ ?updated]) simp
    next
      case False
      then have "inputsAvailable_command p t task c' = runOrSkip p t task c'" unfolding eq using running by (simp only: if_False)
      then show ?thesis using skip by auto
    qed
  qed
qed

text \<open>
  Order-only inputs: the engine provides no value for a task that is only followed, so that a command
  whose only input is an order-only one is handed to the queue whatever became of this input.
\<close>

lemma order_only_failure_ignored:
  assumes "explicitInputs command = []" "implicitInputs command = []" "\<not> isPhony command" "\<not> isGenerator command"
    and "\<not> nb_isCancelled c" "\<not> nb_simulate c"
  shows "start_command command c = asks [] (map (canonicalPath \<circ> nic_node) (orderOnlyInputs command)) c"
    "\<exists>c'. inputsAvailable_command p t (newNinjaCommandTask command) c = Return c' \<and> nb_jobs c' = nb_jobs c @ [(t, command)]"
  using assms
  by (simp_all add: start_command_def followInputs_asks inputsAvailable_command_def runOrSkip_def newNinjaCommandTask_def Let_def)

text \<open>
  The other side: a command that could be updated is taken for successful although its input failed.
\<close>

lemma failed_input_updates:
  assumes "provideValue_command p i (toValue makeFailedCommand) task c = Some (task', c')"
  shows "ct_canUpdateIfNewer task' = ct_canUpdateIfNewer task \<and> ct_newestModTime task' = ct_newestModTime task"
proof -
  have "fromValue a (toValue makeFailedCommand) = Some makeFailedCommand" for a
    using ninja_value_roundtrip [of makeFailedCommand a]
    by (simp add: ninja_make_defs ninja_value_ok_def hasMultipleOutputs_ninja_def fileInfo_ok_def checksum_ok_def
        zeroFileInfo_def zeroChecksum_def)
  moreover have "\<not> usable makeFailedCommand"
    by (simp add: usable_def ninja_make_defs isExistingInput_def isSuccessfulCommand_ninja_def)
  ultimately show ?thesis using provideValue_command_effect [OF assms] by (metis option.inject)
qed

section \<open>The number of failures\<close>

lemma incrementFailedCommands_effect:
  "nb_numFailedCommands (incrementFailedCommands p c) = nb_numFailedCommands c + 1"
  "nb_numFailedCommandsToTolerate (incrementFailedCommands p c) = nb_numFailedCommandsToTolerate c"
  "nb_isCancelled (incrementFailedCommands p c) \<longleftrightarrow> nb_isCancelled c
     \<or> nb_numFailedCommandsToTolerate c \<noteq> 0 \<and> nb_numFailedCommands c + 1 = nb_numFailedCommandsToTolerate c"
  by (simp_all add: incrementFailedCommands_def Let_def)

text \<open>
  The build is cancelled by failing commands exactly when as many have failed as the option \<^verbatim>\<open>-k\<close> allows;
  with 0 it never is.
\<close>

theorem ninja_failure_tolerance:
  assumes "nb_numFailedCommands c = 0" "\<not> nb_isCancelled c" "n < 2 ^ 32"
  shows "nb_isCancelled ((incrementFailedCommands p ^^ n) c) \<longleftrightarrow>
    nb_numFailedCommandsToTolerate c \<noteq> 0 \<and> unat (nb_numFailedCommandsToTolerate c) \<le> n"
proof -
  let ?k = "nb_numFailedCommandsToTolerate c"
  have "nb_numFailedCommands ((incrementFailedCommands p ^^ n) c) = of_nat n
      \<and> nb_numFailedCommandsToTolerate ((incrementFailedCommands p ^^ n) c) = ?k
      \<and> (nb_isCancelled ((incrementFailedCommands p ^^ n) c) \<longleftrightarrow> ?k \<noteq> 0 \<and> unat ?k \<le> n)"
    using assms(3)
  proof (induction n)
    case 0
    then show ?case using assms(1,2) by (auto simp: unat_eq_zero)
  next
    case (Suc n)
    have "of_nat n + 1 = (of_nat (Suc n) :: u32)" by simp
    then have "(of_nat n + 1 = ?k) \<longleftrightarrow> unat ?k = Suc n"
      using u32_of_nat(1) [OF Suc.prems] by (metis word_unat_eq_iff)
    then show ?case using Suc by (auto simp: incrementFailedCommands_effect le_Suc_eq)
  qed
  then show ?thesis by blast
qed

section \<open>Jobs, outputs and targets\<close>

text \<open>
  What a task does on one thread, seen from the engine: it asks for no inputs, calls
  \<^verbatim>\<open>ti.complete\<close> exactly once if it \<open>must\<close> and never otherwise, calls the engine no more after it
  has completed, and ends in a state with \<open>P\<close>; all this for every answer of the engine.
\<close>

primrec finishes :: "'c prog \<Rightarrow> bool \<Rightarrow> ('c \<Rightarrow> bool) \<Rightarrow> bool" where
  "finishes (Return c) = (\<lambda>must P. \<not> must \<and> P c)"
| "finishes (Request key i p) = (\<lambda>must P. False)"
| "finishes (RequestSingleUse key i p) = (\<lambda>must P. False)"
| "finishes (MustFollow key p) = (\<lambda>must P. False)"
| "finishes (DiscoveredDependency key p) = (\<lambda>must P. must \<and> finishes p must P)"
| "finishes (CompleteTask val forceChange p) = (\<lambda>must P. must \<and> finishes p False P)"
| "finishes (CancelBuild p) = finishes p"
| "finishes (AskCancelled f) = (\<lambda>must P. \<forall>x. finishes (f x) must P)"
| "finishes (AskEpoch f) = (\<lambda>must P. \<forall>x. finishes (f x) must P)"

lemma finishes_complete [simp]: "finishes (completeNinja v force c) must P \<longleftrightarrow> must \<and> P c"
  by (auto simp: completeNinja_def)

lemma finishes_discoverKeys [simp]: "finishes (discoverKeys found q) True P = finishes q True P"
  by (induction found) auto

lemma diagnostics_jobs [simp]:
  "nb_jobs (console f c) = nb_jobs c" "nb_jobs (emitText body c) = nb_jobs c"
  "nb_jobs (emitErrorAndText p message body c) = nb_jobs c"
  "nb_jobs (processFinished p handle job status c) = nb_jobs c"
  "nb_jobs (processEvent p handle ev c) = nb_jobs c" "nb_jobs (processStarted handle c) = nb_jobs c"
  "nb_jobs (removeRspFile p command c) = nb_jobs c"
  by (simp_all add: console_def emitText_def emitErrorAndText_def emitDiagnosticAndText_def writeStdout_def
      processFinished_def processEvent_def processHadError_def processHadOutput_def processStarted_def
      removeRspFile_def Let_def split: option.split sum.split)

lemma runProcess_jobs [simp]: "nb_jobs (snd (runProcess p t command c)) = nb_jobs c"
proof -
  have "nb_jobs (fold (processEvent p handle) evs c) = nb_jobs c" for handle evs c
    by (induction evs arbitrary: c) simp_all
  then show ?thesis by (simp add: runProcess_def split: prod.split)
qed

lemma depsAction_jobs: "nb_jobs (snd (fold (depsAction p path) evs (found, c))) = nb_jobs c"
proof (induction evs arbitrary: found c)
  case (Cons ev evs)
  then show ?case by (cases ev) (auto split: option.split)
qed simp

text \<open>
  The dependency file can be parsed: the parser reads behind the end of a file that ends in a
  backslash.
\<close>

definition depsFileSafe :: "'fs ninja_params \<Rightarrow> Command \<Rightarrow> bool" where
  "depsFileSafe p command \<longleftrightarrow>
     (\<forall>fs buffer. np_readFile p fs (depsFile command) = Inr buffer \<longrightarrow> buffer = [] \<or> last buffer \<noteq> bslash)"

lemma processDiscoveredDependencies_ninja_returns:
  assumes "depsFileSafe p command"
  obtains good found c' where "processDiscoveredDependencies_ninja p command c = Some (good, found, c')" "nb_jobs c' = nb_jobs c"
proof (cases "depsStyle command")
  case DepsGCC
  show thesis
  proof (cases "np_readFile p (nb_fs c) (depsFile command)")
    case (Inr buffer)
    then obtain evs where "parseMakefileDeps False buffer = Some evs"
      using makefile_parse_safe [of buffer False] assms by (auto simp: depsFileSafe_def)
    then show thesis
      using DepsGCC Inr depsAction_jobs [of p "depsFile command" evs "[]" c]
        that [of "\<not> list_ex is_deps_error evs" "fst (fold (depsAction p (depsFile command)) evs ([], c))"
          "snd (fold (depsAction p (depsFile command)) evs ([], c))"]
      by (simp add: processDiscoveredDependencies_ninja_def split_beta)
  next
    case (Inl error)
    then show thesis
      using DepsGCC that by (cases "nb_strict c") (auto simp: processDiscoveredDependencies_ninja_def)
  qed
qed (use that in \<open>auto simp: processDiscoveredDependencies_ninja_def\<close>)

lemma processCompletion_finishes:
  assumes "outputNodes command = Some outputs" "outputs \<noteq> []" "length outputs < 2 ^ 32" "depsFileSafe p command"
  shows "finishes (processCompletion p command status c) True (\<lambda>c'. nb_jobs c' = nb_jobs c)"
proof -
  obtain good found c' where d: "processDiscoveredDependencies_ninja p command c = Some (good, found, c')" "nb_jobs c' = nb_jobs c"
    using processDiscoveredDependencies_ninja_returns [OF assms(4)] by blast
  obtain v where "computeCommandResult_ninja p (nb_fs c') command (np_hash p (commandString command)) = Some v"
    using computeCommandResult_ninja_says [OF assms(1-3), of p "nb_fs c'" "np_hash p (commandString command)"] by blast
  with d show ?thesis by (simp add: processCompletion_def)
qed

lemma runProcess_finishes:
  assumes "outputNodes command = Some outputs" "outputs \<noteq> []" "length outputs < 2 ^ 32" "depsFileSafe p command"
    and "nb_jobs c = js"
  shows "finishes (case runProcess p t command c of (status, c') \<Rightarrow> processCompletion p command status c') True
    (\<lambda>c'. nb_jobs c' = js)"
  using processCompletion_finishes [OF assms(1-4), of _ "snd (runProcess p t command c)"] assms(5)
  by (simp add: split_beta)

lemma executeCommand_finishes:
  assumes "outputNodes command = Some outputs" "outputs \<noteq> []" "length outputs < 2 ^ 32" "depsFileSafe p command"
  shows "finishes (executeCommand p t command c) True (\<lambda>c'. nb_jobs c' = nb_jobs c)"
proof -
  note run = runProcess_finishes [OF assms, where js = "nb_jobs c"]
  define c1 where "c1 = (if nb_quiet c then c else writeDescription p command c)"
  have jobs: "nb_jobs c1 = nb_jobs c" by (simp add: c1_def)
  obtain error fs where wr: "np_writeFile p (rspFile command) (rspFileContent command)
      (createParents p outputs (nb_fs c1)) = (error, fs)" by fastforce
  show ?thesis
    unfolding executeCommand_def c1_def [symmetric] Let_def assms(1)
    using jobs by (cases error) (simp_all add: wr run)
qed

lemma runOrSkip_finishes:
  assumes "outputNodes (ct_command task) = Some outputs" "outputs \<noteq> []" "ct_hasMissingInput task \<longrightarrow> ct_shouldSkip task"
  shows "finishes (runOrSkip p t task c) True (\<lambda>c'. nb_jobs c' = nb_jobs c)
    \<or> finishes (runOrSkip p t task c) False (\<lambda>c'. nb_jobs c' = nb_jobs c @ [(t, ct_command task)])"
  using assms by (cases outputs) (auto simp: runOrSkip_def Let_def)

text \<open>A missing input makes the command skip, in a new task and after every value it is given.\<close>

lemma missing_input_skips:
  "ct_hasMissingInput (newNinjaCommandTask command) \<longrightarrow> ct_shouldSkip (newNinjaCommandTask command)"
  "provideValue_command p i vdata task c = Some (task', c') \<Longrightarrow> ct_hasMissingInput task \<longrightarrow> ct_shouldSkip task
     \<Longrightarrow> ct_hasMissingInput task' \<longrightarrow> ct_shouldSkip task'"
  "providePriorValue_command p vdata task c = Some task' \<Longrightarrow> ct_hasMissingInput task \<longrightarrow> ct_shouldSkip task
     \<Longrightarrow> ct_hasMissingInput task' \<longrightarrow> ct_shouldSkip task'"
proof -
  show "ct_hasMissingInput (newNinjaCommandTask command) \<longrightarrow> ct_shouldSkip (newNinjaCommandTask command)"
    by (simp add: newNinjaCommandTask_def)
  show "ct_hasMissingInput task' \<longrightarrow> ct_shouldSkip task'"
    if "provideValue_command p i vdata task c = Some (task', c')" "ct_hasMissingInput task \<longrightarrow> ct_shouldSkip task"
  proof -
    from that(1) obtain v where v: "fromValue (np_address p (nb_fs c)) vdata = Some v"
      by (auto simp: provideValue_command_def bind_eq_Some_conv)
    show ?thesis
    proof (cases "isExistingInput v \<or> isSuccessfulCommand_ninja v")
      case True
      then have "ct_hasMissingInput task' = ct_hasMissingInput task \<and> ct_shouldSkip task' = ct_shouldSkip task"
        using that(1) by (auto simp: provideValue_command_def v bind_eq_Some_conv split: if_splits)
      then show ?thesis using that(2) by simp
    next
      case False
      then have "ct_shouldSkip task'"
        using that(1) by (auto simp: provideValue_command_def v bind_eq_Some_conv Let_def split: if_splits)
      then show ?thesis by simp
    qed
  qed
  show "ct_hasMissingInput task' \<longrightarrow> ct_shouldSkip task'"
    if "providePriorValue_command p vdata task c = Some task'" "ct_hasMissingInput task \<longrightarrow> ct_shouldSkip task"
    using that by (auto simp: providePriorValue_command_def bind_eq_Some_conv split: if_splits)
qed


text \<open>The tasks of inputs and of the targets complete at once.\<close>

lemma other_tasks_complete_once:
  "finishes (ninjaInputsAvailable p t (NinjaInputTask node) c) True (\<lambda>c'. nb_jobs c' = nb_jobs c)"
  "finishes (ninjaInputsAvailable p t (TargetsTask targets) c) True (\<lambda>c'. nb_jobs c' = nb_jobs c)"
  by (simp_all add: inputsAvailable_input_def Let_def)

text \<open>
  The task of one of several outputs: it gives the information of its own file, or passes a failure on.
\<close>

lemma select_result:
  assumes "result_says v h infos" "1 < length infos" "i < length infos"
  shows "inputsAvailable_select p i (Some (toValue v)) c = completeNinja (makeSuccessfulCommand_ninja (infos ! i) h) False c"
proof -
  obtain v' where v': "fromValue (np_address p (nb_fs c)) (toValue v) = Some v'" "result_says v' h infos"
    using result_says_stored [OF assms(1)] by blast
  then have "\<not> isFailedCommand v'" "\<not> isSkippedCommand v'" "isSuccessfulCommand_ninja v'" "hasMultipleOutputs_ninja v'"
    using assms(2) by (auto simp: result_says_def isFailedCommand_def isSkippedCommand_def isSuccessfulCommand_ninja_def
        hasMultipleOutputs_ninja_def word_less_nat_alt)
  then show ?thesis
    using v' result_says_nth [OF v'(2) assms(3)] result_says_hash [OF v'(2)] by (simp add: inputsAvailable_select_def)
qed

text \<open>Without targets and defaults the build is for the outputs that no command uses.\<close>

lemma rootTargets_iff:
  "path \<in> set (rootTargets m) \<longleftrightarrow>
     (\<exists>command \<in> set (m_commands m). \<exists>node. Some node \<in> set (c_outputs command)
        \<and> (\<forall>user \<in> set (m_commands m). node \<notin> nic_node ` set (c_inputs user)) \<and> path = canonicalPath node)"
proof -
  have one: "path \<in> set (case out of None \<Rightarrow> [] | Some node \<Rightarrow> if node \<in> X then [] else [canonicalPath node])
      \<longleftrightarrow> (\<exists>node. out = Some node \<and> node \<notin> X \<and> path = canonicalPath node)" for out X
    by (cases out) auto
  have X: "node \<in> set (inputNodesOf m) \<longleftrightarrow> (\<exists>user \<in> set (m_commands m). node \<in> nic_node ` set (c_inputs user))" for node
    by (simp add: inputNodesOf_def)
  have "path \<in> set (rootTargets m) \<longleftrightarrow> (\<exists>command \<in> set (m_commands m). \<exists>out \<in> set (c_outputs command).
      \<exists>node. out = Some node \<and> node \<notin> set (inputNodesOf m) \<and> path = canonicalPath node)"
    by (simp add: rootTargets_def one) blast
  then show ?thesis unfolding X by blast
qed

section \<open>Examples\<close>

definition example_params :: "(string \<times> u64) list ninja_params" where
  "example_params = \<lparr>np_paths = \<lparr>make_absolute = (\<lambda>wd path. Some path), is_absolute = (\<lambda>path. True), root_name_length = (\<lambda>path. 0)\<rparr>,
     np_hash = (\<lambda>s. of_nat (length s)),
     np_stat = (\<lambda>fs asLink path. map_option (\<lambda>m. \<lparr>st_dev = 1, st_ino = 1, st_mode = 0, st_size = 0, st_mtime_sec = m, st_mtime_nsec = 0\<rparr>)
        (map_of fs path)),
     np_address = (\<lambda>fs. 64), np_parent_path = (\<lambda>path. []), np_createDirectories = (\<lambda>path fs. fs),
     np_writeFile = (\<lambda>path s fs. (None, fs)), np_remove = (\<lambda>path fs. fs), np_readFile = (\<lambda>fs path. Inl ''missing''),
     np_run = (\<lambda>args isConsole fs. (Succeeded, [], fs)), np_elapsed = ''0.000'', np_rate = (\<lambda>n. ''1.0''),
     np_programName = ''ninja'', np_columns = 80\<rparr>"

definition example_command :: Command where
  "example_command = \<lparr>c_rule = newNinjaRule ''cc'', c_outputs = [Some \<lparr>canonicalPath = ''/o'', screenPath = ''o''\<rparr>],
     c_inputs = [\<lparr>nic_node = \<lparr>canonicalPath = ''/i'', screenPath = ''i''\<rparr>, asWritten = []\<rparr>], numExplicitInputs = 1,
     numImplicitInputs = 0, numExplicitOutputs = 1, c_parameters = Map.empty, executionPool = None, commandString = ''cc i'',
     c_description = [], depsFile = [], rspFile = [], rspFileContent = [], depsStyle = DepsNone, isGenerator = True,
     shouldRestat = False\<rparr>"

definition example_context :: "(string \<times> u64) list \<Rightarrow> (string \<times> u64) list BuildContext" where
  "example_context fs = newBuildContext ''/'' (fst newManifest) newStatusOutput None fs"

lemmas example_defs = example_params_def example_command_def example_context_def newBuildContext_def

lemma example_command_facts:
  "outputNodes example_command = Some [\<lparr>canonicalPath = ''/o'', screenPath = ''o''\<rparr>]" "\<not> isPhony example_command"
  "isGenerator example_command" "depsStyle example_command = DepsNone"
  by (simp_all add: outputNodes_def example_command_def isPhony_def phonyRule_def newNinjaRule_def)

lemma example_info: "infoForPath example_params [(''/o'', m)] ''/o'' = \<lparr>device = 1, inode = 1, mode = 0, fi_size = 0,
    modTime = FileTimestamp m 0, checksum = zeroChecksum\<rparr>"
  by (simp add: infoForPath_def getInfoForPath_def example_params_def isMissing_def)

lemma example_existing:
  "fromValue a (toValue (makeExistingInput_ninja (infoForPath p fs path))) = Some (makeExistingInput_ninja (infoForPath p fs path))"
  using ninja_value_roundtrip [of "makeExistingInput_ninja (infoForPath p fs path)" a]
  by (simp add: makeExistingInput_ninja_def ninja_value_ok_def hasMultipleOutputs_ninja_def)

lemma plain_value_stored: "fromValue a (toValue (plainNinjaValue k)) = Some (plainNinjaValue k)"
  using ninja_value_roundtrip [of "plainNinjaValue k" a]
  by (simp add: plainNinjaValue_def ninja_value_ok_def hasMultipleOutputs_ninja_def fileInfo_ok_def checksum_ok_def
      zeroFileInfo_def zeroChecksum_def)

theorem ninja_command_revalidation_witness:
  "\<exists>v. computeCommandResult_ninja example_params [(''/o'', 5)] example_command (np_hash example_params ''cc i'') = Some v
    \<and> buildCommandIsResultValid example_params [(''/o'', 5)] example_command (toValue v) = Some True"
  using ninja_command_revalidation [OF example_command_facts(1), of example_command example_params "[(''/o'', 5)]" "[(''/o'', 5)]"]
  by (simp add: example_command_facts unchanged_def example_info isMissing_def fileInfo_eq_def) (simp add: example_command_def)

theorem ninja_update_iff_witness:
  "\<exists>v task c'. feed example_params [(0, toValue (makeExistingInput_ninja (infoForPath example_params [(''/o'', 3)] ''/o'')))]
       (newNinjaCommandTask example_command, example_context [(''/o'', 5)]) = Some (task, c')
     \<and> inputsAvailable_command example_params 0 task c' = completeNinja v False (c'\<lparr>nb_numCommandsUpdated := 1\<rparr>)"
proof -
  let ?in = "infoForPath example_params [(''/o'', 3)] ''/o''"
  let ?inputs = "[(0 :: u64, toValue (makeExistingInput_ninja ?in))]" and ?c = "example_context [(''/o'', 5)]"
  let ?task = "(newNinjaCommandTask example_command)\<lparr>ct_newestModTime := FileTimestamp 3 0\<rparr>"
  have fed: "feed example_params ?inputs (newNinjaCommandTask example_command, ?c) = Some (?task, ?c)"
    unfolding feed_def
    by (simp add: provideValue_command_def example_existing)
      (simp add: makeExistingInput_ninja_def isExistingInput_def hasMultipleOutputs_ninja_def getOutputInfo_ninja_def
        example_info isMissing_def newNinjaCommandTask_def less_FileTimestamp_def)
  have infos: "inputInfos example_params (nb_fs ?c) ?inputs = [?in]"
    by (simp add: inputInfos_def map_filter_simps example_existing)
      (simp add: usable_def makeExistingInput_ninja_def isExistingInput_def getOutputInfo_ninja_def hasMultipleOutputs_ninja_def)
  have outs: "outputInfos example_params (nb_fs ?c) [\<lparr>canonicalPath = ''/o'', screenPath = ''o''\<rparr>]
      = [infoForPath example_params [(''/o'', 5)] ''/o'']"
    by (simp add: outputInfos_def example_context_def newBuildContext_def)
  have run: "\<not> nb_isCancelled ?c" "\<not> nb_strict ?c" "nb_numCommandsUpdated ?c = 0"
    by (simp_all add: example_context_def newBuildContext_def)
  have can: "list_all (\<lambda>info. \<not> isMissing info) [?in]
      \<and> list_all (\<lambda>out. \<not> isMissing out \<and> newer_than False [?in] out) [infoForPath example_params [(''/o'', 5)] ''/o'']"
    by (simp add: example_info isMissing_def newer_than_def less_eq_FileTimestamp_def)
  obtain v where "inputsAvailable_command example_params 0 ?task ?c
      = completeNinja v False (?c\<lparr>nb_numCommandsUpdated := nb_numCommandsUpdated ?c + 1\<rparr>)"
    using ninja_update_iff [OF fed disjI1 [OF refl] example_command_facts(2,1) _ _ run(1) infos [symmetric], of 0] can run(2)
    unfolding outs by (auto simp: example_command_facts)
  then show ?thesis using fed run(3) by auto
qed

theorem ninja_failed_input_never_runs_witness:
  "\<exists>v c'' task. feed example_params [(0, toValue makeFailedCommand)] (newNinjaCommandTask example_command, example_context []) = Some (task, example_context [])
     \<and> inputsAvailable_command example_params 0 task (example_context []) = completeNinja v False c'' \<and> nb_jobs c'' = []"
proof -
  let ?c = "example_context []" and ?task = "(newNinjaCommandTask example_command)\<lparr>ct_shouldSkip := True\<rparr>"
  have fed: "feed example_params [(0, toValue makeFailedCommand)] (newNinjaCommandTask example_command, ?c) = Some (?task, ?c)"
    unfolding feed_def
    by (simp add: provideValue_command_def makeFailedCommand_def plain_value_stored)
      (simp add: plainNinjaValue_def hasMultipleOutputs_ninja_def isExistingInput_def isSuccessfulCommand_ninja_def isMissingInput_def)
  have start: "start_command example_command ?c = asks [(''/i'', 0)] [] ?c"
    using example_command_facts(2)
    by (simp add: start_command_def explicitInputs_def implicitInputs_def orderOnlyInputs_def asks_def Let_def)
      (simp add: example_command_def)
  have bad: "\<not> (\<exists>v. fromValue (np_address example_params (nb_fs ?c)) (toValue makeFailedCommand) = Some v
      \<and> (isExistingInput v \<or> isSuccessfulCommand_ninja v))"
    by (simp add: makeFailedCommand_def plain_value_stored)
      (simp add: plainNinjaValue_def isExistingInput_def isSuccessfulCommand_ninja_def)
  have input: "\<lparr>nic_node = \<lparr>canonicalPath = ''/i'', screenPath = ''i''\<rparr>, asWritten = []\<rparr>
      \<in> set (explicitInputs example_command @ implicitInputs example_command)"
    by (simp add: explicitInputs_def example_command_def)
  have "nb_jobs ?c = []" by (simp add: example_context_def newBuildContext_def)
  then show ?thesis
    using ninja_failed_input_never_runs [OF start _ fed disjI1 [OF refl] input _ example_command_facts(2,1),
        of "\<lambda>key. toValue makeFailedCommand" 0] bad fed by auto
qed

definition example_base :: "((string \<times> u64) list BuildContext, unit) env" where
  "example_base = \<lparr>
     lookupRule = (\<lambda>c k. \<lparr>rule_key = k, rule_signature = 0\<rparr>), isResultValid = (\<lambda>c k v. False),
     checksDependenciesBeforeRunning = (\<lambda>c k. False), mustCheckDependencyBeforeRunning = (\<lambda>c k k'. False),
     createTask = (\<lambda>c k t. c), task_start = (\<lambda>c t. Return c), task_providePriorValue = (\<lambda>c t v. Return c),
     task_provideValue = (\<lambda>c t i k v. Return c), task_inputsAvailable = (\<lambda>c t. Return c),
     shouldResolveCycle = (\<lambda>c ks k a. False), clock_now = (\<lambda>c. 0),
     db_lookupRuleResult = (\<lambda>d k key. (None, [])), db_setRuleResult = (\<lambda>d k r res. (d, None)),
     db_buildStarted = (\<lambda>d. (d, None)), db_setCurrentIteration = (\<lambda>d ep. (d, None)),
     db_buildComplete = (\<lambda>d. d), db_getCurrentEpoch = (\<lambda>d. (0, True))\<rparr>"

definition rsp_command :: Command where
  "rsp_command = example_command\<lparr>isGenerator := False, rspFile := ''o.rsp''\<rparr>"

text \<open>The response file cannot be written.\<close>

definition readonly_params :: "(string \<times> u64) list ninja_params" where
  "readonly_params = example_params\<lparr>np_writeFile := (\<lambda>path s fs. (Some ''Read-only file system'', fs))\<rparr>"


lemma ninja_contract_example: "client_contract (ninja_env example_params example_base)"
  by (rule ninja_contract) (simp_all add: example_base_def)

section \<open>Oddities\<close>

text \<open>An unknown scheduler is reported, and its name is then taken for a target.\<close>

lemma unknown_scheduler_is_a_target:
  "parseOptions 2 strtod [''--scheduler'', ''lifo''] defaultOptions = Parsed defaultOptions [''lifo'']"
  by (simp add: numeral_2_eq_2 parseOption_def)

text \<open>
  When the first iteration has run a command to regenerate the manifest, its errors and an interrupt are
  forgotten: the exit status is that of the second iteration.
\<close>

lemma regeneration_errors_forgotten:
  assumes "sys_load S (o_manifestFilename opts) fs = (0, manifest)" "runTool p S opts args (contextFor S opts wd manifest fs) = None"
    "o_dbFilename opts = []" "o_traceFilename opts = []" "o_autoRegenerateManifest opts"
    and built: "\<And>key c. nb_numBuiltCommands (sys_build S key c) = 1"
  shows "\<exists>c. ninjaIteration p S opts args wd 0 fs = Reload c"
  using assms by (simp add: ninjaIteration_def Let_def)

text \<open>A line feed in the format of the status line ends up in the status line, which must not have one.\<close>

lemma status_format_line_feed: "statusLinePrefix p c [CHR 0x5C, CHR ''n''] = Some [line_feed]"
  by (simp add: statusLinePrefix.simps statusEscape_def)

lemma status_format_line_feed_aborts:
  assumes "so_isOpen (nb_statusOutput c)" "so_termHonorsCarriageReturn (nb_statusOutput c)" "\<not> nb_verbose c"
    "nb_statusLinePrefixFormat c = [CHR 0x5C, CHR ''n'']"
  shows "nb_aborted (writeDescription p command c)"
  using assms
  by (simp add: writeDescription_def status_format_line_feed emitStatus_def console_def setOrWriteLine_def
      canUpdateCurrentLine_def setCurrentLine_def getFormattedString_def finishLine_def Let_def split: option.split)

text \<open>The percentage of the status line divides by zero when no command is left to be counted.\<close>

lemma status_percentage_zero: "getNumPossibleMaxCommands c = 0 \<Longrightarrow> statusLinePrefix p c ''%p'' = None"
  by (simp add: statusLinePrefix.simps statusDirective_def)

text \<open>
  A command with several outputs that is a generator is not rerun when its command line changes, but the
  results selected from it are made again: their check does not ask for generators.
\<close>

lemma select_ignores_generator:
  assumes "result_says v h infos" "h \<noteq> np_hash p (commandString command)"
  shows "selectCompositeIsResultValid p fs command (toValue v) = Some False"
proof -
  obtain v' where "fromValue (np_address p fs) (toValue v) = Some v'" "result_says v' h infos"
    using result_says_stored [OF assms(1)] by blast
  then show ?thesis
    using assms(2) result_says_hash [of v' h infos] by (simp add: selectCompositeIsResultValid_def result_says_def)
qed

text \<open>The report of a cycle, with the names of the targets in it, is read as a format.\<close>

lemma cycle_message_is_a_format:
  "printf (cycleMessage cycle) = None \<Longrightarrow> nb_aborted (cycleDetected printf p cycle c)"
  by (simp add: cycleDetected_def)

end
