(* ===== verification/Frontend.thy ===== *)
theory Frontend
  imports CommandOptions BuildSystemClient ExecutionQueue
begin

text \<open>
  The frontend of the build system, \<^verbatim>\<open>lib/BuildSystem/BuildSystemFrontend.cpp\<close>: the options of an
  invocation, the delegate with its counters and the output of processes, and the frontend itself, which
  creates a build system once and builds targets and nodes with it. The build system is a record of its operations.
\<close>

section \<open>Invocations\<close>

record BuildSystemInvocation =
  inv_showUsage :: bool
  inv_showVersion :: bool
  inv_showVerboseStatus :: bool
  inv_useSerialBuild :: bool
  inv_dbPath :: string
  inv_chdirPath :: string
  inv_buildFilePath :: string
  inv_traceFilePath :: string
  inv_schedulerAlgorithm :: SchedulerAlgorithm
  inv_schedulerLanes :: u32
  inv_environment :: "string list option"
  inv_positionalArgs :: "string list"
  inv_hadErrors :: bool

definition newInvocation :: BuildSystemInvocation where
  "newInvocation = \<lparr>inv_showUsage = False, inv_showVersion = False, inv_showVerboseStatus = False,
     inv_useSerialBuild = False, inv_dbPath = ''build.db'', inv_chdirPath = '''',
     inv_buildFilePath = ''build.llbuild'', inv_traceFilePath = '''', inv_schedulerAlgorithm = NamePriority,
     inv_schedulerLanes = 0, inv_environment = None, inv_positionalArgs = [], inv_hadErrors = False\<rparr>"

text \<open>The invocation and the messages printed so far.\<close>

type_synonym invocation_state = "BuildSystemInvocation \<times> string list"

definition invocation_error :: "string \<Rightarrow> invocation_state \<Rightarrow> invocation_state" where
  "invocation_error message st = (case st of (iv, log) \<Rightarrow> (iv\<lparr>inv_hadErrors := True\<rparr>, log @ [message]))"

text \<open>One round of the loop: it ends (\<^verbatim>\<open>break\<close>), or goes on with the arguments that are left.\<close>

datatype invocation_step = InvocationBreak invocation_state | InvocationGo invocation_state "string list"

definition optionArgument ::
  "string \<Rightarrow> string list \<Rightarrow> invocation_state \<Rightarrow> (string \<Rightarrow> invocation_state) \<Rightarrow> invocation_step" where
  "optionArgument option args st f =
     (case args of [] \<Rightarrow> InvocationBreak (invocation_error (''missing argument to '' @ quoted option) st)
      | arg # rest \<Rightarrow> InvocationGo (f arg) rest)"

definition setLanes :: "string \<Rightarrow> string \<Rightarrow> invocation_state \<Rightarrow> invocation_state" where
  "setLanes arg message st =
     (case st of (iv, log) \<Rightarrow>
        (case strtol10 arg of (n, rest) \<Rightarrow>
           let st = (iv\<lparr>inv_schedulerLanes := of_int n\<rparr>, log)
           in if rest = [] then st else invocation_error message st))"

definition schedulerOption :: "string \<Rightarrow> string list \<Rightarrow> invocation_state \<Rightarrow> invocation_step" where
  "schedulerOption option args st =
     (case args of [] \<Rightarrow> InvocationBreak (invocation_error (''missing argument to '' @ quoted option) st)
      | algorithm # rest \<Rightarrow>
          (case st of (iv, log) \<Rightarrow>
             if algorithm = ''commandNamePriority'' \<or> algorithm = ''default''
             then InvocationGo (iv\<lparr>inv_schedulerAlgorithm := NamePriority\<rparr>, log) rest
             else if algorithm = ''fifo'' then InvocationGo (iv\<lparr>inv_schedulerAlgorithm := FIFO\<rparr>, log) rest
             else InvocationBreak (invocation_error (''unknown scheduler algorithm '' @ quoted algorithm) st)))"

definition parseInvocationOption :: "string \<Rightarrow> string list \<Rightarrow> invocation_state \<Rightarrow> invocation_step" where
  "parseInvocationOption option args st =
     (case st of (iv, log) \<Rightarrow>
        if option = ''-'' then InvocationBreak (iv\<lparr>inv_positionalArgs := inv_positionalArgs iv @ args\<rparr>, log)
        else if option \<noteq> [] \<and> hd option \<noteq> CHR ''-''
        then InvocationGo (iv\<lparr>inv_positionalArgs := inv_positionalArgs iv @ [option]\<rparr>, log) args
        else if option = ''--help'' then InvocationBreak (iv\<lparr>inv_showUsage := True\<rparr>, log)
        else if option = ''--version'' then InvocationBreak (iv\<lparr>inv_showVersion := True\<rparr>, log)
        else if option = ''--no-db'' then InvocationGo (iv\<lparr>inv_dbPath := ''''\<rparr>, log) args
        else if option = ''--db'' then optionArgument option args st (\<lambda>a. (iv\<lparr>inv_dbPath := a\<rparr>, log))
        else if option = ''-C'' \<or> option = ''--chdir''
        then optionArgument option args st (\<lambda>a. (iv\<lparr>inv_chdirPath := a\<rparr>, log))
        else if option = ''-f'' then optionArgument option args st (\<lambda>a. (iv\<lparr>inv_buildFilePath := a\<rparr>, log))
        else if option = ''--serial'' then InvocationGo (iv\<lparr>inv_useSerialBuild := True\<rparr>, log) args
        else if option = ''--scheduler'' then schedulerOption option args st
        else if option = ''-j'' \<or> option = ''--jobs''
        then optionArgument option args st
          (\<lambda>a. setLanes a (''invalid argument '' @ quoted a @ '' to '' @ quoted option) st)
        else if take 2 option = ''-j''
        then InvocationGo (setLanes (drop 2 option) (''invalid argument to '' @ quoted ''-j'') st) args
        else if option = ''-v'' \<or> option = ''--verbose''
        then InvocationGo (iv\<lparr>inv_showVerboseStatus := True\<rparr>, log) args
        else if option = ''--trace'' then optionArgument option args st (\<lambda>a. (iv\<lparr>inv_traceFilePath := a\<rparr>, log))
        else InvocationBreak (invocation_error (''invalid option '' @ quoted option) st))"

lemma parseInvocationOption_shortens:
  "parseInvocationOption option args st = InvocationGo st' rest \<Longrightarrow> length rest \<le> length args"
  by (auto simp: parseInvocationOption_def optionArgument_def schedulerOption_def
      split: if_splits prod.splits list.splits)

function parse_invocation :: "string list \<Rightarrow> invocation_state \<Rightarrow> invocation_state" where
  "parse_invocation [] st = st"
| "parse_invocation (option # args) st =
     (case parseInvocationOption option args st of
        InvocationBreak st \<Rightarrow> st
      | InvocationGo st rest \<Rightarrow> parse_invocation rest st)"
  by pat_completeness auto
termination
  by (relation "measure (\<lambda>(args, _). length args)") (auto dest!: parseInvocationOption_shortens)

section \<open>The report of a cycle\<close>

text \<open>What the report says of a key; \<^term>\<open>None\<close> if an accessor fails.\<close>

definition cycleKey :: "byte list \<Rightarrow> string option" where
  "cycleKey key =
     (let item = (\<lambda>kind name. map_option (\<lambda>n. kind @ '' '' @ quoted (chars n)) name)
      in case kindOfKeyData key of
           KeyUnknown \<Rightarrow> Some ''((unknown))''
         | KeyCommand \<Rightarrow> item ''command'' (getName KeyCommand key)
         | KeyCustomTask \<Rightarrow> item ''custom task'' (getCustomTaskName key)
         | KeyDirectoryContents \<Rightarrow> item ''directory-contents'' (getName KeyDirectoryContents key)
         | KeyFilteredDirectoryContents \<Rightarrow> item ''filtered-directory-contents'' (getFilteredDirectoryPath key)
         | KeyDirectoryTreeSignature \<Rightarrow> item ''directory-tree-signature'' (getDirectoryTreeSignaturePath key)
         | KeyDirectoryTreeStructureSignature \<Rightarrow>
             item ''directory-tree-structure-signature'' (getFilteredDirectoryPath key)
         | KeyNode \<Rightarrow> item ''node'' (getName KeyNode key)
         | KeyStat \<Rightarrow> item ''stat'' (getName KeyStat key)
         | KeyTarget \<Rightarrow> item ''target'' (getName KeyTarget key))"

fun cycleItems :: "bool \<Rightarrow> byte list list \<Rightarrow> string option" where
  "cycleItems first [] = Some ''''"
| "cycleItems first (key # ks) = do {
     item \<leftarrow> cycleKey key;
     rest \<leftarrow> cycleItems False ks;
     Some ((if first then '''' else '' -> '') @ item @ rest)
   }"

definition formatDetectedCycle :: "byte list list \<Rightarrow> string option" where
  "formatDetectedCycle cycle = map_option (\<lambda>items. ''cycle detected while building: '' @ items) (cycleItems True cycle)"

section \<open>The delegate\<close>

text \<open>
  \<open>fd_diagnostics\<close> are the messages of the source manager, with the range in the file that they refer to.
  A failed assertion sets \<open>fd_aborted\<close>.
\<close>

record FrontendDelegate =
  fd_numErrors :: u32
  fd_numFailedCommands :: u32
  fd_processOutputBuffers :: "(u64 \<times> string) list"
  fd_diagnostics :: "((u32 \<times> u32) option \<times> string) list"
  fd_stdout :: string
  fd_stderr :: string
  fd_aborted :: bool

definition newFrontendDelegate :: FrontendDelegate where
  "newFrontendDelegate = \<lparr>fd_numErrors = 0, fd_numFailedCommands = 0, fd_processOutputBuffers = [],
     fd_diagnostics = [], fd_stdout = '''', fd_stderr = '''', fd_aborted = False\<rparr>"

text \<open>
  A token is its distance from the buffer that is being parsed, and its length. \<open>contents\<close> gives the size of
  a file in the file system of the build system.
\<close>

definition delegate_error_at ::
  "(string \<Rightarrow> nat option) \<Rightarrow> string \<Rightarrow> (int \<times> u32) option \<Rightarrow> string \<Rightarrow> FrontendDelegate \<Rightarrow> FrontendDelegate" where
  "delegate_error_at contents filename at message d =
     (let d = d\<lparr>fd_numErrors := fd_numErrors d + 1\<rparr>;
          range = (if filename = [] then None
                   else case at of
                          None \<Rightarrow> None
                        | Some (start, len) \<Rightarrow>
                            (case contents filename of
                               None \<Rightarrow> None
                             | Some fileSize \<Rightarrow>
                                 let offset = of_int start :: u32
                                 in if unat (offset + len) < fileSize then Some (offset, len) else None))
      in d\<lparr>fd_diagnostics := fd_diagnostics d @ [(range, message)]\<rparr>)"

definition frontend_error :: "string \<Rightarrow> FrontendDelegate \<Rightarrow> FrontendDelegate" where
  "frontend_error message d = delegate_error_at (\<lambda>_. None) '''' None message d"

definition hadCommandFailure :: "FrontendDelegate \<Rightarrow> FrontendDelegate" where
  "hadCommandFailure d = d\<lparr>fd_numFailedCommands := fd_numFailedCommands d + 1\<rparr>"

text \<open>What \<^verbatim>\<open>commandStarted\<close> asks of a command.\<close>

record command_texts =
  tx_shouldShowStatus :: bool
  tx_shortDescription :: string
  tx_verboseDescription :: string

definition commandStarted :: "bool \<Rightarrow> command_texts \<Rightarrow> FrontendDelegate \<Rightarrow> FrontendDelegate" where
  "commandStarted showVerboseStatus command d =
     (if \<not> tx_shouldShowStatus command then d
      else
        let description =
          (if showVerboseStatus \<or> tx_shortDescription command = [] then tx_verboseDescription command
           else tx_shortDescription command)
        in d\<lparr>fd_stdout := fd_stdout d @ description @ [CHR 0x0A]\<rparr>)"

definition commandHadError :: "string \<Rightarrow> FrontendDelegate \<Rightarrow> FrontendDelegate" where
  "commandHadError text d = d\<lparr>fd_stderr := fd_stderr d @ text\<rparr>"

definition commandHadNote :: "string \<Rightarrow> FrontendDelegate \<Rightarrow> FrontendDelegate" where
  "commandHadNote text d = d\<lparr>fd_stdout := fd_stdout d @ text\<rparr>"

definition commandHadWarning :: "string \<Rightarrow> FrontendDelegate \<Rightarrow> FrontendDelegate" where
  "commandHadWarning text d = d\<lparr>fd_stdout := fd_stdout d @ text\<rparr>"

fun commas :: "string list \<Rightarrow> string" where
  "commas [] = ''''"
| "commas [x] = x"
| "commas (x # y # xs) = x @ '', '' @ commas (y # xs)"

definition inputText :: "byte list \<Rightarrow> string option" where
  "inputText key = (if kindOfKeyData key = KeyNode then map_option chars (getName KeyNode key) else Some (chars key))"

definition commandCannotBuildOutputDueToMissingInputs ::
  "string \<Rightarrow> byte list list \<Rightarrow> FrontendDelegate \<Rightarrow> FrontendDelegate" where
  "commandCannotBuildOutputDueToMissingInputs name inputs d =
     (case mapM_option inputText inputs of
        None \<Rightarrow> d\<lparr>fd_aborted := True\<rparr>
      | Some texts \<Rightarrow> d\<lparr>fd_stderr := fd_stderr d @ ''cannot build '' @ quoted name @ '' due to missing inputs: ''
          @ commas (map quoted texts)\<rparr>)"

text \<open>Every command but those that are the first is preceded by a comma.\<close>

definition cannotBuildNodeDueToMultipleProducers :: "string \<Rightarrow> string list \<Rightarrow> FrontendDelegate \<Rightarrow> FrontendDelegate" where
  "cannotBuildNodeDueToMultipleProducers name commands d =
     d\<lparr>fd_stderr := fd_stderr d @ ''unable to build node: '' @ quoted name
        @ '' (node is produced by multiple commands: '' @ [CHR 0x27]
        @ concat (map (\<lambda>cmd. (if cmd \<noteq> hd commands then '', '' else '''') @ quoted cmd) commands)\<rparr>"

definition commandProcessHadError :: "string \<Rightarrow> FrontendDelegate \<Rightarrow> FrontendDelegate" where
  "commandProcessHadError message d = d\<lparr>fd_stderr := fd_stderr d @ message @ [CHR 0x0A]\<rparr>"

definition commandProcessHadOutput :: "u64 \<Rightarrow> string \<Rightarrow> FrontendDelegate \<Rightarrow> FrontendDelegate" where
  "commandProcessHadOutput handle text d =
     d\<lparr>fd_processOutputBuffers := AList.update handle
        ((case map_of (fd_processOutputBuffers d) handle of None \<Rightarrow> '''' | Some buffer \<Rightarrow> buffer) @ text)
        (fd_processOutputBuffers d)\<rparr>"

definition commandProcessFinished :: "u64 \<Rightarrow> FrontendDelegate \<Rightarrow> FrontendDelegate" where
  "commandProcessFinished handle d =
     (case map_of (fd_processOutputBuffers d) handle of
        None \<Rightarrow> d
      | Some buffer \<Rightarrow>
          d\<lparr>fd_stdout := fd_stdout d @ buffer,
            fd_processOutputBuffers := AList.delete handle (fd_processOutputBuffers d)\<rparr>)"

text \<open>
  The queue that an invocation asks for, with the detected number of processors. Without an environment the queue takes
  that of the calling process, \<open>environ\<close>.
\<close>

definition createExecutionQueue_frontend ::
  "(u32 \<Rightarrow> nat \<times> nat) \<Rightarrow> string list \<Rightarrow> u32 \<Rightarrow> u32 \<Rightarrow> BuildSystemInvocation \<Rightarrow> FrontendDelegate
     \<Rightarrow> LaneBasedExecutionQueue \<times> FrontendDelegate" where
  "createExecutionQueue_frontend limits environ buildID numCPUs iv d =
     (let queue = (\<lambda>n. newLaneBasedExecutionQueue buildID (limits n) (inv_schedulerAlgorithm iv)
            (case inv_environment iv of None \<Rightarrow> environ | Some e \<Rightarrow> e))
      in if inv_useSerialBuild iv then (queue 1, d)
         else if inv_schedulerLanes iv \<noteq> 0 then (queue (inv_schedulerLanes iv), d)
         else if numCPUs = 0
         then (queue 1, delegate_error_at (\<lambda>_. None) ''<unknown>'' None ''unable to detect number of CPUs'' d)
         else (queue numCPUs, d))"

text \<open>The calls that a build makes to the delegate.\<close>

datatype delegate_call =
    CallError string "(int \<times> u32) option" string
  | CallFailure
  | CallStarted command_texts
  | CallHadError string
  | CallHadNote string
  | CallHadWarning string
  | CallMissingInputs string "byte list list"
  | CallMultipleProducers string "string list"
  | CallProcessError u64 string
  | CallProcessOutput u64 string
  | CallProcessFinished u64

primrec delegate_apply ::
  "(string \<Rightarrow> nat option) \<Rightarrow> bool \<Rightarrow> delegate_call \<Rightarrow> FrontendDelegate \<Rightarrow> FrontendDelegate" where
  "delegate_apply contents verbose (CallError filename at message) d = delegate_error_at contents filename at message d"
| "delegate_apply contents verbose CallFailure d = hadCommandFailure d"
| "delegate_apply contents verbose (CallStarted command) d = commandStarted verbose command d"
| "delegate_apply contents verbose (CallHadError text) d = commandHadError text d"
| "delegate_apply contents verbose (CallHadNote text) d = commandHadNote text d"
| "delegate_apply contents verbose (CallHadWarning text) d = commandHadWarning text d"
| "delegate_apply contents verbose (CallMissingInputs name inputs) d = commandCannotBuildOutputDueToMissingInputs name inputs d"
| "delegate_apply contents verbose (CallMultipleProducers name commands) d = cannotBuildNodeDueToMultipleProducers name commands d"
| "delegate_apply contents verbose (CallProcessError handle message) d = commandProcessHadError message d"
| "delegate_apply contents verbose (CallProcessOutput handle text) d = commandProcessHadOutput handle text d"
| "delegate_apply contents verbose (CallProcessFinished handle) d = commandProcessFinished handle d"

section \<open>The frontend\<close>

text \<open>
  The operations of a build system that the frontend calls, and the functions of the platform. A load
  and a build give the calls they make to the delegate; an error is the text that goes to \<^verbatim>\<open>error_out\<close>. \<^term>\<open>None\<close>
  stands for a failed assertion, or a build that has not returned.
\<close>

record ('s, 'fs) system_calls =
  sc_chdir :: "string \<Rightarrow> string option"
  sc_new :: "'fs \<Rightarrow> 's"
  sc_contents :: "'s \<Rightarrow> string \<Rightarrow> nat option"
  sc_loadFile :: "string \<Rightarrow> 's \<Rightarrow> bool \<times> delegate_call list \<times> 's"
  sc_loadPopulated :: "string \<Rightarrow> 's \<Rightarrow> bool \<times> delegate_call list \<times> 's"
  sc_createDirectories :: "string \<Rightarrow> 's \<Rightarrow> bool \<times> 's"
  sc_isDirectory :: "string \<Rightarrow> 's \<Rightarrow> bool"
  sc_enableTracing :: "string \<Rightarrow> 's \<Rightarrow> string option \<times> 's"
  sc_attachDB :: "string \<Rightarrow> 's \<Rightarrow> (string option \<times> 's) option"
  sc_resetForBuild :: "'s \<Rightarrow> 's"
  sc_cancel :: "'s \<Rightarrow> 's"
  sc_build :: "string \<Rightarrow> 's \<Rightarrow> (bool \<times> delegate_call list \<times> 's) option"
  sc_buildKey :: "byte list \<Rightarrow> 's \<Rightarrow> (BuildValue option \<times> delegate_call list \<times> 's) option"
  sc_is_relative :: "string \<Rightarrow> bool"
  sc_parent_path :: "string \<Rightarrow> string"
  sc_append :: "string \<Rightarrow> string \<Rightarrow> string"

text \<open>\<open>fe_populate\<close>: the callback that fills a description in memory is still there.\<close>

record ('s, 'fs) frontend =
  fe_delegate :: FrontendDelegate
  fe_invocation :: BuildSystemInvocation
  fe_fileSystem :: "'fs option"
  fe_system :: "'s option"
  fe_populate :: bool
  fe_originName :: string
  fe_inMemory :: bool
  fe_cancelled :: bool

definition newFrontend ::
  "FrontendDelegate \<Rightarrow> BuildSystemInvocation \<Rightarrow> 'fs \<Rightarrow> string option \<Rightarrow> ('s, 'fs) frontend" where
  "newFrontend d iv fileSystem origin =
     \<lparr>fe_delegate = d, fe_invocation = iv, fe_fileSystem = Some fileSystem, fe_system = None,
      fe_populate = (origin \<noteq> None), fe_originName = (case origin of None \<Rightarrow> [] | Some name \<Rightarrow> name),
      fe_inMemory = (origin \<noteq> None), fe_cancelled = False\<rparr>"

definition report_error :: "string \<Rightarrow> ('s, 'fs) frontend \<Rightarrow> ('s, 'fs) frontend" where
  "report_error message fe = fe\<lparr>fe_delegate := frontend_error message (fe_delegate fe)\<rparr>"

definition apply_calls ::
  "('s, 'fs) system_calls \<Rightarrow> 's \<Rightarrow> delegate_call list \<Rightarrow> ('s, 'fs) frontend \<Rightarrow> ('s, 'fs) frontend" where
  "apply_calls C s calls fe = fe\<lparr>fe_delegate :=
     fold (delegate_apply (sc_contents C s) (inv_showVerboseStatus (fe_invocation fe))) calls (fe_delegate fe)\<rparr>"

definition cancel_frontend :: "('s, 'fs) system_calls \<Rightarrow> ('s, 'fs) frontend \<Rightarrow> ('s, 'fs) frontend" where
  "cancel_frontend C fe = fe\<lparr>fe_cancelled := True, fe_system := map_option (sc_cancel C) (fe_system fe)\<rparr>"

definition resetAfterBuild :: "('s, 'fs) frontend \<Rightarrow> ('s, 'fs) frontend" where
  "resetAfterBuild fe = fe\<lparr>fe_cancelled := False\<rparr>"

definition createSystemLocked :: "('s, 'fs) system_calls \<Rightarrow> ('s, 'fs) frontend \<Rightarrow> bool \<times> ('s, 'fs) frontend" where
  "createSystemLocked C fe =
     (let chdirPath = inv_chdirPath (fe_invocation fe)
      in case (if chdirPath = [] then None else sc_chdir C chdirPath) of
           Some error \<Rightarrow> (False, report_error (''unable to honor --chdir: '' @ error) fe)
         | None \<Rightarrow>
             (case fe_fileSystem fe of
                None \<Rightarrow> (False, report_error ''invalid reuse after initialization failure'' fe)
              | Some fileSystem \<Rightarrow> (True, fe\<lparr>fe_system := Some (sc_new C fileSystem), fe_fileSystem := None\<rparr>)))"

text \<open>\<open>Some\<close>: initialization is resolved with this result.\<close>

definition beginInitializeLocked ::
  "('s, 'fs) system_calls \<Rightarrow> ('s, 'fs) frontend \<Rightarrow> bool option \<times> ('s, 'fs) frontend" where
  "beginInitializeLocked C fe =
     (let fe = fe\<lparr>fe_delegate := (fe_delegate fe)\<lparr>fd_numFailedCommands := 0, fd_numErrors := 0\<rparr>\<rparr>
      in if fe_cancelled fe then (Some False, fe)
         else case fe_system fe of
                Some s \<Rightarrow> (Some True, fe\<lparr>fe_system := Some (sc_resetForBuild C s)\<rparr>)
              | None \<Rightarrow>
                  (case createSystemLocked C fe of
                     (False, fe) \<Rightarrow> (Some False, fe)
                   | (True, fe) \<Rightarrow> (None, fe)))"

definition hasScheme :: "string \<Rightarrow> bool" where
  "hasScheme path \<longleftrightarrow> list_ex (\<lambda>i. take 3 (drop i path) = ''://'') [0..<length path]"

text \<open>The path of the database, or the error.\<close>

definition resolveDbPath :: "('s, 'fs) system_calls \<Rightarrow> ('s, 'fs) frontend \<Rightarrow> string + string" where
  "resolveDbPath C fe =
     (let dbPath = inv_dbPath (fe_invocation fe)
      in if sc_is_relative C dbPath \<and> \<not> hasScheme dbPath \<and> take 1 dbPath \<noteq> '':'' then
           if fe_inMemory fe
           then Inl (''database path must be absolute when the build description is built in memory: '' @ dbPath)
           else Inr (sc_append C (sc_parent_path C (inv_buildFilePath (fe_invocation fe))) dbPath)
         else Inr dbPath)"

definition enableTracing_frontend ::
  "('s, 'fs) system_calls \<Rightarrow> ('s, 'fs) frontend \<Rightarrow> 's \<Rightarrow> string option \<times> 's" where
  "enableTracing_frontend C fe s =
     (let path = inv_traceFilePath (fe_invocation fe); dir = sc_parent_path C path
      in if path = [] then (None, s)
         else case sc_createDirectories C dir s of
                (created, s) \<Rightarrow>
                  if \<not> created \<and> \<not> sc_isDirectory C dir s
                  then (Some (''unable to create tracing directory: '' @ dir), s)
                  else case sc_enableTracing C path s of
                         (error, s) \<Rightarrow> (map_option (\<lambda>e. ''unable to enable tracing: '' @ e) error, s))"

definition attachDB_frontend ::
  "('s, 'fs) system_calls \<Rightarrow> ('s, 'fs) frontend \<Rightarrow> 's \<Rightarrow> (string option \<times> 's) option" where
  "attachDB_frontend C fe s =
     (if inv_dbPath (fe_invocation fe) = [] then Some (None, s)
      else case resolveDbPath C fe of
             Inl error \<Rightarrow> Some (Some error, s)
           | Inr path \<Rightarrow> do {
               (error, s) \<leftarrow> sc_attachDB C path s;
               Some (map_option (\<lambda>e. ''unable to attach DB: '' @ e) error, s)
             })"

text \<open>An error is reported and drops the build system.\<close>

definition drop_system :: "string \<Rightarrow> ('s, 'fs) frontend \<Rightarrow> bool \<times> ('s, 'fs) frontend" where
  "drop_system message fe = (False, (report_error message fe)\<lparr>fe_system := None\<rparr>)"

definition finishInitializeLocked ::
  "('s, 'fs) system_calls \<Rightarrow> 's \<Rightarrow> ('s, 'fs) frontend \<Rightarrow> (bool \<times> ('s, 'fs) frontend) option" where
  "finishInitializeLocked C s fe =
     (case enableTracing_frontend C fe s of
        (Some error, s) \<Rightarrow> Some (drop_system error fe)
      | (None, s) \<Rightarrow> do {
          (error, s) \<leftarrow> attachDB_frontend C fe s;
          Some (case error of
                  Some error \<Rightarrow> drop_system error fe
                | None \<Rightarrow> (True, fe\<lparr>fe_system := Some s\<rparr>))
        })"

definition initialize :: "('s, 'fs) system_calls \<Rightarrow> ('s, 'fs) frontend \<Rightarrow> (bool \<times> ('s, 'fs) frontend) option" where
  "initialize C fe =
     (case beginInitializeLocked C fe of
        (Some result, fe) \<Rightarrow> Some (result, fe)
      | (None, fe) \<Rightarrow> do {
          s \<leftarrow> fe_system fe;
          (case (if fe_populate fe then sc_loadPopulated C (fe_originName fe) s
                 else sc_loadFile C (inv_buildFilePath (fe_invocation fe)) s) of
             (loaded, calls, s') \<Rightarrow>
               let fe = apply_calls C s calls (fe\<lparr>fe_populate := False\<rparr>)
               in if loaded then finishInitializeLocked C s' (fe\<lparr>fe_system := Some s'\<rparr>)
                  else Some (False, fe\<lparr>fe_system := None\<rparr>))
        })"

text \<open>\<open>cancelled\<close>: another thread cancels the frontend while the build runs.\<close>

definition build_frontend ::
  "('s, 'fs) system_calls \<Rightarrow> string \<Rightarrow> bool \<Rightarrow> ('s, 'fs) frontend \<Rightarrow> (bool \<times> ('s, 'fs) frontend) option" where
  "build_frontend C target cancelled fe = do {
     (ready, fe) \<leftarrow> initialize C fe;
     if \<not> ready then Some (False, resetAfterBuild fe)
     else do {
       s \<leftarrow> fe_system fe;
       (built, calls, s') \<leftarrow> sc_build C target s;
       let fe = (apply_calls C s calls fe)\<lparr>fe_system := Some s', fe_cancelled := fe_cancelled fe \<or> cancelled\<rparr>;
       Some (built \<and> \<not> fe_cancelled fe \<and> fd_numFailedCommands (fe_delegate fe) = 0 \<and> fd_numErrors (fe_delegate fe) = 0,
         resetAfterBuild fe)
     }
   }"

definition buildNode_frontend ::
  "('s, 'fs) system_calls \<Rightarrow> string \<Rightarrow> bool \<Rightarrow> ('s, 'fs) frontend \<Rightarrow> (bool \<times> ('s, 'fs) frontend) option" where
  "buildNode_frontend C node cancelled fe = do {
     (ready, fe) \<leftarrow> initialize C fe;
     if \<not> ready then Some (False, resetAfterBuild fe)
     else do {
       s \<leftarrow> fe_system fe;
       (buildValue, calls, s') \<leftarrow> sc_buildKey C (makeNode (bytes node)) s;
       let fe = (apply_calls C s calls fe)\<lparr>fe_system := Some s', fe_cancelled := fe_cancelled fe \<or> cancelled\<rparr>;
       Some (case buildValue of
               None \<Rightarrow> (False, resetAfterBuild fe)
             | Some v \<Rightarrow>
                 if bv_kind v \<noteq> Kind_ExistingInput
                 then (False, resetAfterBuild
                   (if bv_kind v = Kind_MissingInput
                    then report_error (''missing input '' @ quoted node @ '' and no rule to build it'') fe else fe))
                 else (fd_numFailedCommands (fe_delegate fe) = 0 \<and> fd_numErrors (fe_delegate fe) = 0, resetAfterBuild fe))
     }
   }"

section \<open>The build system as the frontend sees it\<close>

text \<open>
  What remains to be supplied when the operations are those of the engine: functions of the platform, and
  the loads, which change the client of the engine only.
\<close>

record ('c, 'fs) client_calls =
  cc_chdir :: "string \<Rightarrow> string option"
  cc_new :: "'fs \<Rightarrow> 'c"
  cc_contents :: "'c \<Rightarrow> string \<Rightarrow> nat option"
  cc_loadFile :: "string \<Rightarrow> 'c \<Rightarrow> bool \<times> delegate_call list \<times> 'c"
  cc_loadPopulated :: "string \<Rightarrow> 'c \<Rightarrow> bool \<times> delegate_call list \<times> 'c"
  cc_createDirectories :: "string \<Rightarrow> 'c \<Rightarrow> bool \<times> 'c"
  cc_isDirectory :: "string \<Rightarrow> 'c \<Rightarrow> bool"
  cc_enableTracing :: "string \<Rightarrow> string option"
  cc_is_relative :: "string \<Rightarrow> bool"
  cc_parent_path :: "string \<Rightarrow> string"
  cc_append :: "string \<Rightarrow> string \<Rightarrow> string"

definition on_client ::
  "('c \<Rightarrow> bool \<times> delegate_call list \<times> 'c) \<Rightarrow> ('c, 'd) engine \<Rightarrow> bool \<times> delegate_call list \<times> ('c, 'd) engine" where
  "on_client f s = (case f (e_client s) of (b, calls, c) \<Rightarrow> (b, calls, s\<lparr>e_client := c\<rparr>))"

text \<open>
  The operations on the models of the engine and of the build system. \<open>openDB\<close> is \<^verbatim>\<open>createSQLiteBuildDB\<close> with the merged
  schema version, \<open>calls\<close> gives the calls to the delegate for what a build recorded. The text of a failure to read
  the epoch is left out.
\<close>

definition engine_calls ::
  "nat \<Rightarrow> ('f BuildSystem, 'd) env \<Rightarrow> bool \<Rightarrow> 'f BuildSystem thread_action list \<Rightarrow> (string \<Rightarrow> string + 'd)
     \<Rightarrow> (('f BuildSystem, 'd) engine \<Rightarrow> ('f BuildSystem, 'd) engine \<Rightarrow> delegate_call list) \<Rightarrow> string
     \<Rightarrow> ('f BuildSystem, 'fs) client_calls \<Rightarrow> (('f BuildSystem, 'd) engine, 'fs) system_calls" where
  "engine_calls fuel env limit threads openDB calls mainFilename K = \<lparr>
     sc_chdir = cc_chdir K,
     sc_new = (\<lambda>fs. newBuildEngine (cc_new K fs)),
     sc_contents = (\<lambda>s. cc_contents K (e_client s)),
     sc_loadFile = (\<lambda>name. on_client (cc_loadFile K name)),
     sc_loadPopulated = (\<lambda>name. on_client (cc_loadPopulated K name)),
     sc_createDirectories = (\<lambda>dir s. case cc_createDirectories K dir (e_client s) of (b, c) \<Rightarrow> (b, s\<lparr>e_client := c\<rparr>)),
     sc_isDirectory = (\<lambda>dir s. cc_isDirectory K dir (e_client s)),
     sc_enableTracing = (\<lambda>path s. (cc_enableTracing K path, s)),
     sc_attachDB = (\<lambda>path s. case openDB path of
        Inl error \<Rightarrow> Some (Some error, s)
      | Inr db \<Rightarrow> do {
          (success, s) \<leftarrow> attachDB env db s;
          Some (if success then None else Some [], s)
        }),
     sc_resetForBuild = resetForBuild,
     sc_cancel = cancelBuild,
     sc_build = (\<lambda>target s. do {
        result \<leftarrow> BuildSystem_buildTarget fuel env limit target threads s;
        Some (case result of
                Inl error \<Rightarrow> (False, [CallError mainFilename None error], s)
              | Inr (v, s') \<Rightarrow> (v \<noteq> None, calls s s', s'))
      }),
     sc_buildKey = (\<lambda>key s. do {
        result \<leftarrow> BuildSystem_buildKey fuel env limit key threads s;
        Some (case result of
                Inl error \<Rightarrow> (None, [CallError mainFilename None error], s)
              | Inr (v, s') \<Rightarrow> (v, calls s s', s'))
      }),
     sc_is_relative = cc_is_relative K, sc_parent_path = cc_parent_path K, sc_append = cc_append K\<rparr>"

end
