(* ===== verification/FrontendProps.thy ===== *)
theory FrontendProps
  imports Frontend
begin

text \<open>
  Properties of the frontend: options are read back as they are written, the output of a process is printed
  as a whole, the result of a build depends on that build alone, cancellation reaches engine and frontend
  alike, and a frontend whose initialization failed stays unusable.
\<close>

section \<open>Numbers\<close>

lemma digit_char_value:
  assumes "n < 10"
  shows "(of_char (digit_char n) :: nat) = 48 + n" "(of_char (digit_char n) :: int) = 48 + int n"
proof -
  show *: "(of_char (digit_char n) :: nat) = 48 + n" using assms by (simp add: digit_char_def)
  have "(of_char (digit_char n) :: int) = int (of_char (digit_char n))" by (simp add: of_nat_of_char)
  then show "(of_char (digit_char n) :: int) = 48 + int n" using * by simp
qed

lemma digits10_value:
  "list_all isdigit_char (digits 10 n) \<and> digits 10 n \<noteq> []
   \<and> foldl (\<lambda>acc d. acc * 10 + (of_char d - 48)) (0 :: int) (digits 10 n) = int n"
proof (induction n rule: less_induct)
  case (less n)
  show ?case
  proof (cases "n < 10")
    case True
    then show ?thesis by (simp add: digits.simps isdigit_char_def digit_char_value)
  next
    case False
    then have "n div 10 < n" by simp
    moreover have "int (n div 10) * 10 + int (n mod 10) = int n" by presburger
    ultimately show ?thesis
      using less.IH [of "n div 10"] False
      by (simp add: digits.simps [of 10 n] isdigit_char_def digit_char_value del: of_nat_mod of_nat_div)
  qed
qed

lemma digit_is_no_space: "isdigit_char d \<Longrightarrow> \<not> isspace_char d \<and> d \<noteq> CHR ''-'' \<and> d \<noteq> CHR ''+''"
proof -
  assume digit: "isdigit_char d"
  have "(of_char d :: int) = int (of_char d)" by (simp add: of_nat_of_char)
  then show ?thesis using digit by (auto simp: isdigit_char_def isspace_char_def isspace_def char_int_def Let_def)
qed

lemma strtol10_decstr:
  fixes n :: u32
  shows "strtol10 (decstr (uint n)) = (uint n, [])"
proof -
  let ?ds = "digits 10 (unat n)"
  have ds: "list_all isdigit_char ?ds" "?ds \<noteq> []"
    "foldl (\<lambda>acc d. acc * 10 + (of_char d - 48)) (0 :: int) ?ds = uint n"
    using digits10_value [of "unat n"] by auto
  then have hd: "isdigit_char (hd ?ds)" by (cases ?ds) auto
  have whiles: "dropWhile isspace_char ?ds = ?ds" "takeWhile isdigit_char ?ds = ?ds" "dropWhile isdigit_char ?ds = []"
    using ds hd digit_is_no_space by (cases ?ds; auto simp: list_all_iff)+
  have "uint n < 2 ^ 32" using uint_lt2p [of n] by simp
  then have "min (2 ^ 63 - 1) (uint n) = uint n" by simp
  moreover have "decstr (uint n) = ?ds" by (simp add: decstr_def)
  ultimately show ?thesis
    using ds hd digit_is_no_space [OF hd] by (simp add: strtol10_def whiles Let_def)
qed

section \<open>Options\<close>

text \<open>The arguments that ask for an invocation.\<close>

definition invocation_args :: "BuildSystemInvocation \<Rightarrow> string list" where
  "invocation_args iv =
     (if inv_useSerialBuild iv then [''--serial''] else []) @ (if inv_showVerboseStatus iv then [''-v''] else [])
     @ [''--db'', inv_dbPath iv, ''-C'', inv_chdirPath iv, ''-f'', inv_buildFilePath iv, ''--trace'', inv_traceFilePath iv,
        ''--scheduler'', (case inv_schedulerAlgorithm iv of NamePriority \<Rightarrow> ''default'' | FIFO \<Rightarrow> ''fifo''),
        ''-j'', decstr (uint (inv_schedulerLanes iv)), ''-'']
     @ inv_positionalArgs iv"

lemma parse_options [simp]:
  "parse_invocation (''--serial'' # args) (iv, log) = parse_invocation args (iv\<lparr>inv_useSerialBuild := True\<rparr>, log)"
  "parse_invocation (''-v'' # args) (iv, log) = parse_invocation args (iv\<lparr>inv_showVerboseStatus := True\<rparr>, log)"
  "parse_invocation (''--db'' # a # args) (iv, log) = parse_invocation args (iv\<lparr>inv_dbPath := a\<rparr>, log)"
  "parse_invocation (''-C'' # a # args) (iv, log) = parse_invocation args (iv\<lparr>inv_chdirPath := a\<rparr>, log)"
  "parse_invocation (''-f'' # a # args) (iv, log) = parse_invocation args (iv\<lparr>inv_buildFilePath := a\<rparr>, log)"
  "parse_invocation (''--trace'' # a # args) (iv, log) = parse_invocation args (iv\<lparr>inv_traceFilePath := a\<rparr>, log)"
  "parse_invocation (''--scheduler'' # ''default'' # args) (iv, log)
     = parse_invocation args (iv\<lparr>inv_schedulerAlgorithm := NamePriority\<rparr>, log)"
  "parse_invocation (''--scheduler'' # ''fifo'' # args) (iv, log)
     = parse_invocation args (iv\<lparr>inv_schedulerAlgorithm := FIFO\<rparr>, log)"
  "parse_invocation (''-'' # args) (iv, log) = (iv\<lparr>inv_positionalArgs := inv_positionalArgs iv @ args\<rparr>, log)"
  by (simp_all add: parseInvocationOption_def optionArgument_def schedulerOption_def)

lemma parse_lanes [simp]:
  "parse_invocation (''-j'' # decstr (uint n) # args) (iv, log) = parse_invocation args (iv\<lparr>inv_schedulerLanes := n\<rparr>, log)"
  by (simp add: parseInvocationOption_def optionArgument_def setLanes_def strtol10_decstr Let_def)

text \<open>
  Options are read as they are written: for every invocation that a command line can ask for, parsing its
  arguments gives the invocation, whatever the paths, the number of lanes and the positional arguments,
  and no message is printed.
\<close>

theorem invocation_roundtrip:
  assumes "\<not> inv_showUsage iv" "\<not> inv_showVersion iv" "\<not> inv_hadErrors iv" "inv_environment iv = None"
  shows "parse_invocation (invocation_args iv) (newInvocation, []) = (iv, [])"
  using assms
  by (cases "inv_useSerialBuild iv"; cases "inv_showVerboseStatus iv"; cases "inv_schedulerAlgorithm iv")
    (simp_all add: invocation_args_def newInvocation_def del: parse_invocation.simps(2))

definition sample_invocation :: BuildSystemInvocation where
  "sample_invocation = newInvocation\<lparr>inv_schedulerLanes := 8, inv_chdirPath := ''-f'', inv_schedulerAlgorithm := FIFO,
     inv_positionalArgs := [''--help'', ''all'']\<rparr>"

theorem invocation_roundtrip_witness:
  "parse_invocation (invocation_args sample_invocation) (newInvocation, []) = (sample_invocation, [])"
  by (rule invocation_roundtrip) (simp_all add: sample_invocation_def newInvocation_def)

text \<open>Errors are exactly the messages.\<close>

lemma invocation_step_errors:
  assumes "inv_hadErrors (fst st) \<longleftrightarrow> snd st \<noteq> []"
  shows "case parseInvocationOption option args st of
      InvocationBreak st' \<Rightarrow> inv_hadErrors (fst st') \<longleftrightarrow> snd st' \<noteq> []
    | InvocationGo st' rest \<Rightarrow> inv_hadErrors (fst st') \<longleftrightarrow> snd st' \<noteq> []"
  using assms
  by (cases st) (simp add: parseInvocationOption_def optionArgument_def schedulerOption_def setLanes_def
      invocation_error_def Let_def split: list.split prod.split)

lemma invocation_errors:
  assumes "inv_hadErrors (fst st) \<longleftrightarrow> snd st \<noteq> []"
  shows "inv_hadErrors (fst (parse_invocation args st)) \<longleftrightarrow> snd (parse_invocation args st) \<noteq> []"
  using assms
proof (induction args st rule: parse_invocation.induct)
  case (2 option args st)
  then show ?case using invocation_step_errors [OF 2(2), of option args] by (auto split: invocation_step.split)
qed simp

text \<open>Options end with a single dash; two dashes are an invalid option.\<close>

lemma double_dash_is_invalid: "inv_hadErrors (fst (parse_invocation [''--'', ''all''] (newInvocation, [])))"
  by (simp add: parseInvocationOption_def invocation_error_def newInvocation_def)

section \<open>The report of a cycle\<close>

lemma cycleItems_Some: "list_all (\<lambda>key. cycleKey key \<noteq> None) ks \<Longrightarrow> \<exists>r. cycleItems first ks = Some r"
  by (induction ks arbitrary: first) (auto simp: bind_eq_Some_conv)

lemma cycleKey_encodeKey: "key_fits a \<Longrightarrow> cycleKey (encodeKey a) \<noteq> None"
  by (cases a)
    (simp_all del: identifierForKind.simps add: cycleKey_def make_defs part_defs writeBytes_def
      getNamePart_data length_encode_exact Let_def)

text \<open>A cycle of keys that the build system made can be reported.\<close>

lemma formatDetectedCycle_reports:
  assumes "list_all key_fits ks"
  shows "\<exists>message. formatDetectedCycle (map encodeKey ks) = Some message"
proof -
  have "list_all (\<lambda>key. cycleKey key \<noteq> None) (map encodeKey ks)"
    using assms cycleKey_encodeKey by (auto simp: list_all_iff)
  then show ?thesis using cycleItems_Some [of "map encodeKey ks" True] by (auto simp: formatDetectedCycle_def)
qed

section \<open>The output of processes\<close>

text \<open>What process \<open>h\<close> wrote since it finished last.\<close>

fun outputSince :: "u64 \<Rightarrow> delegate_call list \<Rightarrow> string" where
  "outputSince h [] = []"
| "outputSince h (CallProcessOutput h' t # calls) =
     (if h' = h \<and> CallProcessFinished h \<notin> set calls then t else []) @ outputSince h calls"
| "outputSince h (_ # calls) = outputSince h calls"

text \<open>What a call prints, after the calls \<open>earlier\<close>.\<close>

definition printed :: "(string \<Rightarrow> nat option) \<Rightarrow> bool \<Rightarrow> delegate_call list \<Rightarrow> delegate_call \<Rightarrow> string" where
  "printed contents verbose earlier call =
     (case call of
        CallProcessFinished h \<Rightarrow> outputSince h earlier
      | _ \<Rightarrow> fd_stdout (delegate_apply contents verbose call newFrontendDelegate))"

lemma outputSince_snoc:
  "outputSince h (calls @ [call]) =
     (case call of
        CallProcessOutput h' t \<Rightarrow> if h' = h then outputSince h calls @ t else outputSince h calls
      | CallProcessFinished h' \<Rightarrow> if h' = h then [] else outputSince h calls
      | _ \<Rightarrow> outputSince h calls)"
  by (induction h calls rule: outputSince.induct) (auto split: delegate_call.split)

definition buffered :: "u64 \<Rightarrow> FrontendDelegate \<Rightarrow> string" where
  "buffered h d = (case map_of (fd_processOutputBuffers d) h of None \<Rightarrow> [] | Some b \<Rightarrow> b)"


lemma buffered_step:
  "buffered h (delegate_apply contents verbose call d) =
     (case call of
        CallProcessOutput h' t \<Rightarrow> if h' = h then buffered h d @ t else buffered h d
      | CallProcessFinished h' \<Rightarrow> if h' = h then [] else buffered h d
      | _ \<Rightarrow> buffered h d)"
  by (cases call)
    (auto simp: buffered_def delegate_error_at_def hadCommandFailure_def commandStarted_def commandHadError_def
      commandHadNote_def commandHadWarning_def commandCannotBuildOutputDueToMissingInputs_def
      cannotBuildNodeDueToMultipleProducers_def commandProcessHadError_def commandProcessHadOutput_def
      commandProcessFinished_def Let_def update_conv' delete_conv' split: option.split)

lemma stdout_step:
  "fd_stdout (delegate_apply contents verbose call d) = fd_stdout d @
     (case call of CallProcessFinished h \<Rightarrow> buffered h d
      | _ \<Rightarrow> fd_stdout (delegate_apply contents verbose call newFrontendDelegate))"
  by (cases call)
    (auto simp: buffered_def delegate_error_at_def hadCommandFailure_def commandStarted_def commandHadError_def
      commandHadNote_def commandHadWarning_def commandCannotBuildOutputDueToMissingInputs_def
      cannotBuildNodeDueToMultipleProducers_def commandProcessHadError_def commandProcessHadOutput_def
      commandProcessFinished_def newFrontendDelegate_def Let_def split: option.split)

lemma buffered_calls:
  "buffered h (fold (delegate_apply contents verbose) calls newFrontendDelegate) = outputSince h calls"
proof (induction calls rule: rev_induct)
  case Nil
  then show ?case by (simp add: buffered_def newFrontendDelegate_def)
next
  case (snoc call calls)
  then show ?case by (simp add: buffered_step outputSince_snoc split: delegate_call.split)
qed

text \<open>
  C40. The output of processes that run at the same time is not mixed: whatever the order of the calls to the
  delegate, what is printed is what each call prints by itself, in order, and a process prints when it
  finishes, all that it wrote since it started and nothing else.
\<close>

theorem process_output_whole:
  "fd_stdout (fold (delegate_apply contents verbose) calls newFrontendDelegate) =
     concat (map (\<lambda>i. printed contents verbose (take i calls) (calls ! i)) [0..<length calls])"
proof (induction calls rule: rev_induct)
  case Nil
  then show ?case by (simp add: newFrontendDelegate_def)
next
  case (snoc call calls)
  let ?d = "fold (delegate_apply contents verbose) calls newFrontendDelegate"
  have maps: "map (\<lambda>i. printed contents verbose (take i (calls @ [call])) ((calls @ [call]) ! i)) [0..<length (calls @ [call])]
      = map (\<lambda>i. printed contents verbose (take i calls) (calls ! i)) [0..<length calls] @ [printed contents verbose calls call]"
    by (simp add: nth_append)
  have "fd_stdout (delegate_apply contents verbose call ?d) = fd_stdout ?d @ printed contents verbose calls call"
    unfolding stdout_step [of contents verbose call ?d] buffered_calls by (simp add: printed_def split: delegate_call.split)
  then show ?case unfolding maps using snoc by simp
qed

section \<open>Cancellation\<close>

text \<open>What the frontend relies on: only a cancellation cancels, and a reset takes it back.\<close>

locale cancellable_system =
  fixes C :: "('s, 'fs) system_calls"
    and is_cancelled :: "'s \<Rightarrow> bool"
  assumes new_system: "\<not> is_cancelled (sc_new C fs)"
    and loadFile: "sc_loadFile C name s = (loaded, calls, s') \<Longrightarrow> is_cancelled s' = is_cancelled s"
    and loadPopulated: "sc_loadPopulated C name s = (loaded, calls, s') \<Longrightarrow> is_cancelled s' = is_cancelled s"
    and createDirectories: "sc_createDirectories C dir s = (created, s') \<Longrightarrow> is_cancelled s' = is_cancelled s"
    and enableTracing: "sc_enableTracing C path s = (error, s') \<Longrightarrow> is_cancelled s' = is_cancelled s"
    and attachDB: "sc_attachDB C path s = Some (error, s') \<Longrightarrow> is_cancelled s' = is_cancelled s"
    and reset: "\<not> is_cancelled (sc_resetForBuild C s)"
    and cancel: "is_cancelled (sc_cancel C s)"
begin

lemma tracing_keeps:
  assumes "enableTracing_frontend C fe s = (error, s')"
  shows "is_cancelled s' = is_cancelled s"
  using assms createDirectories enableTracing
  by (auto simp: enableTracing_frontend_def Let_def split: if_splits prod.splits; fastforce)

lemma attach_keeps:
  assumes "attachDB_frontend C fe s = Some (error, s')"
  shows "is_cancelled s' = is_cancelled s"
  using assms attachDB by (auto simp: attachDB_frontend_def bind_eq_Some_conv split: if_splits sum.splits; blast)

lemma finish_ready:
  assumes "finishInitializeLocked C s fe = Some (True, fe')"
  shows "\<exists>s'. fe_system fe' = Some s' \<and> is_cancelled s' = is_cancelled s \<and> fe_cancelled fe' = fe_cancelled fe"
  using assms tracing_keeps attach_keeps
  by (auto simp: finishInitializeLocked_def drop_system_def bind_eq_Some_conv split: prod.splits option.splits; metis)

lemma initialize_ready:
  assumes "initialize C fe = Some (True, fe')"
  shows "\<exists>s. fe_system fe' = Some s \<and> \<not> is_cancelled s \<and> \<not> fe_cancelled fe'"
proof (cases "beginInitializeLocked C fe")
  case (Pair resolved fe1)
  show ?thesis
  proof (cases resolved)
    case (Some result)
    with Pair assms have "beginInitializeLocked C fe = (Some True, fe')" by (simp add: initialize_def)
    then show ?thesis
      using reset by (auto simp: beginInitializeLocked_def Let_def split: if_splits option.splits prod.splits bool.splits)
  next
    case None
    with Pair have new: "\<not> fe_cancelled fe1" "\<exists>fs. fe_system fe1 = Some (sc_new C fs)"
      by (auto simp: beginInitializeLocked_def createSystemLocked_def Let_def
          split: if_splits option.splits prod.splits bool.splits)
    then obtain fs where fs: "fe_system fe1 = Some (sc_new C fs)" by blast
    obtain loaded calls s' where load: "(if fe_populate fe1 then sc_loadPopulated C (fe_originName fe1) (sc_new C fs)
        else sc_loadFile C (inv_buildFilePath (fe_invocation fe1)) (sc_new C fs)) = (loaded, calls, s')"
      by (metis prod_cases3)
    then have "\<not> is_cancelled s'" using loadFile loadPopulated new_system by (metis (full_types))
    moreover from load Pair None fs assms have
      "finishInitializeLocked C s' ((apply_calls C (sc_new C fs) calls (fe1\<lparr>fe_populate := False\<rparr>))\<lparr>fe_system := Some s'\<rparr>)
         = Some (True, fe')"
      by (simp add: initialize_def Let_def split: if_splits)
    ultimately show ?thesis using finish_ready new(1) by (fastforce simp: apply_calls_def)
  qed
qed

lemma cancel_reaches:
  "fe_cancelled (cancel_frontend C fe) \<and> (\<forall>s. fe_system (cancel_frontend C fe) = Some s \<longrightarrow> is_cancelled s)"
  using cancel by (auto simp: cancel_frontend_def)

end

interpretation engine_frontend: cancellable_system
  "engine_calls fuel env limit threads openDB calls mainFilename K" buildCancelled
  for fuel env limit threads openDB calls mainFilename K
  by unfold_locales
    (auto simp: engine_calls_def on_client_def newBuildEngine_def resetForBuild_def cancelBuild_def emit_def attachDB_def
      bind_eq_Some_conv Let_def split: prod.splits sum.splits if_splits)

text \<open>
  The frontend and the engine agree: an initialized frontend has an engine, and neither is cancelled, even
  after a cancelled build; a cancellation reaches both.
\<close>

lemma initialized_not_cancelled:
  assumes "initialize (engine_calls fuel env limit threads openDB calls mainFilename K) fe = Some (True, fe')"
  shows "\<exists>s. fe_system fe' = Some s \<and> \<not> buildCancelled s \<and> \<not> fe_cancelled fe'"
  using assms by (rule engine_frontend.initialize_ready)

section \<open>The result of a build\<close>

fun counts_error :: "delegate_call \<Rightarrow> bool" where
  "counts_error (CallError _ _ _) = True"
| "counts_error _ = False"

lemma counters_step:
  "fd_numErrors (delegate_apply contents verbose call d) = fd_numErrors d + (if counts_error call then 1 else 0)"
  "fd_numFailedCommands (delegate_apply contents verbose call d) = fd_numFailedCommands d + (if call = CallFailure then 1 else 0)"
  by (cases call;
      auto simp: delegate_error_at_def hadCommandFailure_def commandStarted_def commandHadError_def commandHadNote_def
        commandHadWarning_def commandCannotBuildOutputDueToMissingInputs_def cannotBuildNodeDueToMultipleProducers_def
        commandProcessHadError_def commandProcessHadOutput_def commandProcessFinished_def Let_def split: option.split)+

lemma counters_calls:
  "fd_numErrors (fold (delegate_apply contents verbose) calls d) = fd_numErrors d + of_nat (length (filter counts_error calls))"
  "fd_numFailedCommands (fold (delegate_apply contents verbose) calls d)
     = fd_numFailedCommands d + of_nat (length (filter (\<lambda>c. c = CallFailure) calls))"
  by (induction calls arbitrary: d) (simp_all add: counters_step add.assoc)

lemma count_zero:
  assumes "length xs < 2 ^ 32"
  shows "(of_nat (length (filter P xs)) :: u32) = 0 \<longleftrightarrow> list_all (\<lambda>x. \<not> P x) xs"
proof -
  have "length (filter P xs) < 2 ^ 32" by (rule le_less_trans [OF length_filter_le assms])
  then have "(of_nat (length (filter P xs)) :: u32) = 0 \<longleftrightarrow> length (filter P xs) = 0"
    by (auto simp: word_of_nat_eq_0_iff dest: dvd_imp_le)
  then show ?thesis by (simp add: filter_empty_conv list_all_iff)
qed

text \<open>
  C39. A build of an initialized frontend succeeds exactly if the build system built the target, nobody
  cancelled, and during this build no command failed and no error was reported. Errors and failures of
  earlier builds, and an earlier cancellation of the engine, have no influence.
\<close>

theorem frontend_build_result:
  assumes "fe_system fe = Some s" "\<not> fe_cancelled fe"
    and "sc_build C target (sc_resetForBuild C s) = Some (built, calls, s')" "length calls < 2 ^ 32"
  shows "\<exists>fe'. build_frontend C target cancelled fe =
      Some (built \<and> \<not> cancelled \<and> list_all (\<lambda>c. c \<noteq> CallFailure \<and> \<not> counts_error c) calls, fe')
    \<and> fe_system fe' = Some s' \<and> \<not> fe_cancelled fe'"
proof -
  let ?fe = "fe\<lparr>fe_delegate := (fe_delegate fe)\<lparr>fd_numFailedCommands := 0, fd_numErrors := 0\<rparr>,
    fe_system := Some (sc_resetForBuild C s)\<rparr>"
  have init: "initialize C fe = Some (True, ?fe)"
    using assms(1,2) by (simp add: initialize_def beginInitializeLocked_def)
  let ?d = "fe_delegate (apply_calls C (sc_resetForBuild C s) calls ?fe)"
  have "fd_numFailedCommands ?d = 0 \<longleftrightarrow> list_all (\<lambda>c. c \<noteq> CallFailure) calls"
    "fd_numErrors ?d = 0 \<longleftrightarrow> list_all (\<lambda>c. \<not> counts_error c) calls"
    by (simp_all add: apply_calls_def counters_calls count_zero [OF assms(4)])
  moreover have "fe_cancelled (apply_calls C (sc_resetForBuild C s) calls ?fe) = fe_cancelled fe"
    by (simp add: apply_calls_def)
  ultimately show ?thesis
    using init assms(2,3) by (auto simp: build_frontend_def resetAfterBuild_def Let_def list_all_iff apply_calls_def)
qed

definition sample_calls :: "(nat, unit) system_calls" where
  "sample_calls = \<lparr>sc_chdir = (\<lambda>_. None), sc_new = (\<lambda>_. 0), sc_contents = (\<lambda>_ _. None),
     sc_loadFile = (\<lambda>_ s. (True, [], s)), sc_loadPopulated = (\<lambda>_ s. (True, [], s)),
     sc_createDirectories = (\<lambda>_ s. (True, s)), sc_isDirectory = (\<lambda>_ _. True), sc_enableTracing = (\<lambda>_ s. (None, s)),
     sc_attachDB = (\<lambda>_ s. Some (None, s)), sc_resetForBuild = Suc, sc_cancel = id,
     sc_build = (\<lambda>target s. Some (True, if target = ''bad'' then [CallFailure] else [CallProcessOutput 1 ''hello''], s)),
     sc_buildKey = (\<lambda>key s. Some (None, [], s)),
     sc_is_relative = (\<lambda>_. False), sc_parent_path = id, sc_append = (@)\<rparr>"

text \<open>A frontend that has seen a failure before.\<close>

definition sample_frontend :: "(nat, unit) frontend" where
  "sample_frontend = (newFrontend (hadCommandFailure newFrontendDelegate) newInvocation () None)\<lparr>fe_system := Some 3\<rparr>"

theorem frontend_build_result_witness:
  "(\<exists>fe'. build_frontend sample_calls ''all'' False sample_frontend = Some (True, fe') \<and> fe_system fe' = Some 4 \<and> \<not> fe_cancelled fe')
   \<and> (\<exists>fe'. build_frontend sample_calls ''bad'' False sample_frontend = Some (False, fe') \<and> fe_system fe' = Some 4 \<and> \<not> fe_cancelled fe')"
  using frontend_build_result [of sample_frontend 3 sample_calls "''all''" True "[CallProcessOutput 1 ''hello'']" 4 False]
    frontend_build_result [of sample_frontend 3 sample_calls "''bad''" True "[CallFailure]" 4 False]
  by (simp add: sample_frontend_def sample_calls_def newFrontend_def)

text \<open>A node that has a virtual value was built, but the frontend says it was not, without an error.\<close>

lemma virtual_node_fails:
  assumes "fe_system fe = Some s" "\<not> fe_cancelled fe"
    and "sc_buildKey C (makeNode (bytes node)) (sc_resetForBuild C s) = Some (Some v, [], s')" "bv_kind v = Kind_VirtualInput"
  shows "\<exists>fe'. buildNode_frontend C node cancelled fe = Some (False, fe') \<and> fd_numErrors (fe_delegate fe') = 0"
  using assms
  by (simp add: buildNode_frontend_def initialize_def beginInitializeLocked_def resetAfterBuild_def apply_calls_def)

section \<open>Failed initialization\<close>

text \<open>The file system is gone and so is the build system.\<close>

definition unusable :: "('s, 'fs) frontend \<Rightarrow> bool" where
  "unusable fe \<longleftrightarrow> fe_system fe = None \<and> fe_fileSystem fe = None"

lemma finish_unusable:
  assumes "finishInitializeLocked C s fe = Some (False, fe')" "fe_fileSystem fe = None"
  shows "unusable fe'"
  using assms
  by (auto simp: finishInitializeLocked_def drop_system_def report_error_def unusable_def bind_eq_Some_conv
      split: prod.splits option.splits)

lemma failed_initialization_unusable:
  assumes "initialize C fe = Some (False, fe')" "\<not> fe_cancelled fe"
    and "inv_chdirPath (fe_invocation fe) = [] \<or> sc_chdir C (inv_chdirPath (fe_invocation fe)) = None"
  shows "unusable fe'"
proof (cases "fe_system fe")
  case (Some s)
  then show ?thesis using assms(1,2) by (simp add: initialize_def beginInitializeLocked_def)
next
  case None
  note defs = initialize_def beginInitializeLocked_def createSystemLocked_def Let_def
  show ?thesis
  proof (cases "fe_fileSystem fe")
    case None
    with \<open>fe_system fe = None\<close> show ?thesis
      using assms by (auto simp: defs unusable_def report_error_def split: if_splits)
  next
    case (Some fs)
    with \<open>fe_system fe = None\<close> show ?thesis
      using assms finish_unusable
      by (auto simp: defs unusable_def apply_calls_def split: if_splits prod.splits; fastforce)
  qed
qed

lemma unusable_build:
  assumes "unusable fe" "build_frontend C target cancelled fe = Some (ok, fe')"
  shows "\<not> ok \<and> unusable fe'"
  using assms
  by (auto simp: unusable_def build_frontend_def initialize_def beginInitializeLocked_def createSystemLocked_def report_error_def
      resetAfterBuild_def Let_def bind_eq_Some_conv split: if_splits option.splits)

end
