(* ===== verification/Spec2Isabelle.thy ===== *)
theory Spec2Isabelle
  imports MakefileDeps DependencyInfo NinjaLoaderProps BuildSystemProps SQLiteBuildDBProps ExecutionQueueProps ForkExec
    ShellCommandProps OwnershipProps LoaderProps BuildSystemToolsProps
    FileSystems NinjaBuildProps FrontendProps
begin

text \<open>
  A verification development of llbuild, the build system of the Swift project. This theory
  imports all others; each opens with a description of what it holds.

  \<^bold>\<open>The program.\<close> llbuild has a general incremental build engine (\<^verbatim>\<open>lib/Core\<close>) and two build
  systems on top of it: the native one (\<^verbatim>\<open>lib/BuildSystem\<close>) and Ninja (\<^verbatim>\<open>lib/Ninja\<close> with
  \<^verbatim>\<open>lib/Commands\<close>), over a layer of utilities (\<^verbatim>\<open>lib/Basic\<close>). The engine knows rules, which are
  named by keys and have a value and a list of dependencies, and tasks, which compute the value
  of a rule. A client supplies the rules and the tasks, a database keeps the results between
  builds. The engine scans the recorded dependencies of a rule, runs its task when something
  changed, hands the task the values it asks for, and stores the result. The native build
  system is such a client: nodes, commands, targets and directories are its rules.

  \<^bold>\<open>Conventions.\<close> A failed assertion, a null dereference and an out-of-range read is the value
  \<^term>\<open>None\<close> of an option type, or a flag where the code goes on. Structures are records with the
  fields of the source, enumerations are datatypes, fixed-width integers are words where they are
  coded or may overflow; epochs and counters that no build can exhaust are natural numbers. Where a read
  from the database fails half-way, its operation gives no result, whatever the code has filled in by then. Code outside of the repository (SQLite, the hash functions and path
  functions of the vendored LLVM library, the file system, other processes) is a record of
  functions that the operations take as an argument.

  \<^bold>\<open>The engine.\<close> \<open>BuildEngineState\<close> has the data of \<^verbatim>\<open>BuildEngine.cpp\<close>: rules, tasks, queues, the
  state machine of a rule. A task callback is a program over \<^verbatim>\<open>TaskInterface\<close>. \<open>BuildEngineOps\<close>
  has the operations (rule lookup, requests, scanning, demand), \<open>BuildEngineCycle\<close> the search for
  and the breaking of cycles, \<open>BuildEngineLoop\<close> the work loop \<^verbatim>\<open>executeTasks\<close> as a machine of small
  steps interleaved with arbitrary steps of client threads, cancellation and \<^verbatim>\<open>build\<close>.
  \<open>BuildEngineInvariant\<close>, \<open>BuildEngineScanning\<close> and \<open>BuildEngineSteps\<close> prove the invariant step by
  step, \<open>BuildEngineSearch\<close> that the cycle search terminates and is exact. \<open>BuildEngineSafety\<close>
  concludes for every reachable state: no step fails an assertion (apart from one in the cycle
  resolution, which is exhibited), every request is in exactly one place, a waiting engine is
  woken up, a failed build leaves an idle engine, a successful one returns the value of its
  key. What the engine needs of its client is \<open>client_contract\<close>. \<open>BuildEngineExamples\<close> is a
  small client on which the properties are exhibited.

  The work loop is run by the executable \<open>runLoop\<close> with fuel, only to evaluate examples; the
  properties are about the step relation \<open>build_step\<close> and need no fuel.

  \<^bold>\<open>Dependencies and results.\<close> \<open>DependencyKeyIDs\<close>: the packed dependency list implements a list of
  entries (locale \<open>dependency_list\<close>). \<open>SQLiteBuildDB\<close>: the tables, the caches of key identifiers and
  all operations of the database; \<open>SQLiteBuildDBProps\<close>: it implements a map from keys to results
  (locale \<open>result_store\<close>), and a build is one transaction. Dependencies have 62 bits for an
  identifier, so the properties ask for room for the new names.

  \<^bold>\<open>Coding.\<close> \<open>BinaryCoding\<close> has the binary coders and the contract of a coder (locale \<open>codec\<close>);
  \<open>StringList\<close>, \<open>FileInfo\<close>, \<open>BuildValue\<close> and \<open>BuildKey\<close> have the data that is stored, with their
  round trips.

  \<^bold>\<open>The native build system.\<close> \<open>BuildNode\<close> and \<open>ExternalCommand\<close> have the nodes and the base class of
  the commands that run processes; \<open>ExternalCommandProps\<close> shows when their results stay valid and
  how failures propagate. \<open>BuildSystemCommands\<close> has the phony, mkdir, symlink and stale-file-removal
  commands; \<open>BuildSystemCommandsProps\<close> shows which files are removed. \<open>BuildSystemTasks\<close> has the
  description and the task objects, \<open>BuildSystemClient\<close> every callback of every task class, the
  rules and \<^verbatim>\<open>build\<close>, put together as a client of the engine. \<open>BuildSystemProps\<close> shows that its
  callbacks keep the contract of the engine, and that stored values of files and directories
  are accepted exactly as long as nothing changed. The job of a command is a function of its own
  (\<open>runCommandJob\<close>), which gives the value that the task is completed with; the jobs handed to the queue
  are recorded and not run by this client.

  \<^bold>\<open>Ninja.\<close> \<open>NinjaLexer\<close>, \<open>NinjaParser\<close>, \<open>NinjaManifest\<close> and \<open>NinjaLoader\<close> are the lexer, the parser as a
  function to the list of its actions, the manifest with path normalisation, and the loader with
  string evaluation and nested files. Parsers recurse on the rest of the input, so they
  terminate; evaluation of build parameters may not, and is a partial function with a theorem
  that it returns when the parameters are not circular. \<open>NinjaLoaderProps\<close> has their properties.

  \<^bold>\<open>Other parsers and utilities.\<close> \<open>MakefileDeps\<close> and \<open>DependencyInfo\<close> read the dependency files of
  compilers and linkers, \<open>ShellUtility\<close> quotes command lines; each with its round trip and its
  behaviour on malformed input.

  \<^bold>\<open>Processes and queues.\<close> \<open>Subprocess\<close> has \<^verbatim>\<open>Subprocess.cpp\<close>: the control protocol a child speaks
  over its pipe, the environment and the process group, and \<^verbatim>\<open>spawnProcess\<close> with all its error
  paths, over a record of the system calls; \<open>SubprocessProps\<close> shows that the protocol does not
  depend on how the bytes arrive as long as its lines are not overlong, which reports each way of a spawn
  gives, and that a spawn returns once its process has ended. \<open>ForkExec\<close> has the
  replacement of \<^verbatim>\<open>posix_spawn\<close> by fork and exec. \<open>ExecutionQueue\<close> has the lane based queue and the
  serial queue as step relations of their threads, the two schedulers and the limits of open files. A
  lane sleeps on the condition variable until it is notified (or wakes up spuriously).
  \<open>ExecutionQueueProps\<close> puts the schedulers behind one contract (locale \<open>scheduler\<close>, interpreted on
  both) and shows that every job runs exactly once, that no notification is lost, and that the queue
  drains after the request to shut down, with no lane left asleep.

  \<^bold>\<open>Shell commands and tools.\<close> \<open>ShellCommand\<close> has the configuration, the signature and the discovered
  dependencies of the shell command, \<open>BuildSystemTools\<close> the clang, swift, archive and shared-library
  commands with their command lines. \<open>ShellCommandProps\<close> and \<open>BuildSystemToolsProps\<close> show what
  the signatures depend on, which dependencies are reported under which paths and when a compiler is
  handed to the queue. \<open>JSON\<close>
  has the escaping of strings.

  \<^bold>\<open>Loading.\<close> \<open>BuildFile\<close> has the loader of the YAML build files as a function of the parsed document (the
  YAML parser is vendored) and of a delegate. \<open>BuildDescriptionBuilder\<close> has the builder of descriptions and
  the analysis of the ownership of directories, \<open>BuildSystemDelegate\<close> the delegate of the build system
  with its tools. \<open>BuildFileProps\<close> proves, for every delegate that keeps the laws of the locale
  \<open>build_file_delegate\<close>, that a loaded description is well formed; \<open>LoaderProps\<close> interprets the locale on
  the built-in tools. \<open>OwnershipProps\<close> has the properties of the ownership analysis.
  \<open>FileSystems\<close> has the creation of directories, the file systems that hide devices and that compare
  checksums, and \<^verbatim>\<open>loadDescription\<close>. \<^verbatim>\<open>createDirectories\<close> is bounded by the length of the path, which its recursion
  shortens; a lemma shows that a larger bound changes nothing.

  \<^bold>\<open>The frontend.\<close> \<open>Frontend\<close> has \<^verbatim>\<open>BuildSystemFrontend.cpp\<close>: the options of an invocation, the report of a cycle, the
  delegate with its counters and buffers, and the frontend, which initializes a build system once and builds
  targets and nodes with it. \<open>FrontendProps\<close> shows what the result of a build depends on, that the output of
  processes is not mixed, that options are read back as written, and that a failed initialization is final. What the frontend needs of
  cancellation is the locale \<open>cancellable_system\<close>, interpreted on the engine. \<open>CommandOptions\<close> has the reading of numbers that
  the parsers of options share.

  \<^bold>\<open>The Ninja build command.\<close> \<open>StatusOutput\<close> has the status line on a terminal, \<open>NinjaValue\<close> the build values of the
  command with their memory image, \<open>NinjaBuild\<close> the context with its diagnostics and status prefix and
  the task of a command, \<open>NinjaBuildClient\<close> the execution of a command, the other tasks, the checks of
  stored results and the client that the engine sees, \<open>NinjaBuildCommand\<close> the options, the rules made from
  the manifest, the choice of targets and the two iterations of the driver. The loop over the options is
  bounded by the number of arguments, of which each round consumes one. \<open>NinjaBuildProps\<close> shows that the callbacks keep the
  contract of the engine and that the task of a command, in its callback or in its job, completes exactly
  once, when a stored result is accepted, when a command is brought up to date without
  running, and that a command with a failed explicit or implicit input does not run.

  \<^bold>\<open>Not modelled.\<close> The other command line tools (drivers, test programs and dumps), usage texts,
  traces, profiles and dump functions, the C interface, which is glue.
  The removal of directory trees (\<^verbatim>\<open>FileSystem.cpp\<close>) and the rest of the platform layer are system calls
  and parameters, as is the YAML parser with the rest of the vendored LLVM library.
\<close>

end
